(* ===== verification/Prelude.thy ===== *)
theory Prelude
  imports Main "HOL-Library.AList" "HOL-Library.Word" "HOL-Library.Char_ord"
    "HOL-Library.List_Lexorder" "HOL-Library.Multiset"
begin

text \<open>
  Shared vocabulary of the development: instants and durations, error values and the
  early-return chains of the Go validators, byte strings with the operations of Go's
  package strings that the code calls, association lists for Go maps, and the locales
  of the transition systems and key-value tables that the components provide.
\<close>

section \<open>Collections of facts\<close>

named_theorems check_simps \<open>facts about chains of early returns\<close>
named_theorems step_defs \<open>definitions of the operations that change a component's state\<close>

section \<open>Time\<close>

text \<open>
  A \<open>time.Time\<close> is its instant in nanoseconds since the Unix epoch, so \<open>UTC()\<close> and
  \<open>Equal\<close> are the identity and equality; the zero value is the first instant of year 1.
  \<open>time.Duration\<close> counts nanoseconds in a signed 64-bit integer, and \<open>Time.Sub\<close>
  saturates at its ends.
\<close>

type_synonym time = int
type_synonym duration = int

definition zero_time :: time where
  "zero_time = - 62135596800000000000"

definition max_duration :: duration where
  "max_duration = 2 ^ 63 - 1"

definition min_duration :: duration where
  "min_duration = - (2 ^ 63)"

definition time_sub :: "time \<Rightarrow> time \<Rightarrow> duration" where
  "time_sub t u = max min_duration (min max_duration (t - u))"

definition nanosecond :: duration where "nanosecond = 1"
definition millisecond :: duration where "millisecond = 1000000"
definition second :: duration where "second = 1000000000"
definition minute :: duration where "minute = 60 * second"
definition hour :: duration where "hour = 60 * minute"

definition day :: duration where "day = 24 * hour"

text \<open>Arithmetic of \<open>int\<close> and \<open>time.Duration\<close> wraps at 64 bits.\<close>

definition wrap64 :: "int \<Rightarrow> int" where
  "wrap64 i = (i + 2 ^ 63) mod 2 ^ 64 - 2 ^ 63"

lemma wrap64_id: "- (2 ^ 63) \<le> i \<Longrightarrow> i < 2 ^ 63 \<Longrightarrow> wrap64 i = i"
  by (simp add: wrap64_def)

lemma time_sub_self [simp]: "time_sub t t = 0"
  by (simp add: time_sub_def min_duration_def max_duration_def)

lemma time_sub_mono: "t \<le> t' \<Longrightarrow> time_sub t u \<le> time_sub t' u"
  by (auto simp: time_sub_def)

lemma time_sub_ge_iff:
  assumes "min_duration < d" and "d \<le> max_duration"
  shows "d \<le> time_sub t u \<longleftrightarrow> u + d \<le> t"
  using assms by (auto simp: time_sub_def min_duration_def max_duration_def)

lemma time_sub_le_iff:
  assumes "min_duration \<le> d" and "d < max_duration"
  shows "time_sub t u \<le> d \<longleftrightarrow> t \<le> u + d"
  using assms by (auto simp: time_sub_def min_duration_def max_duration_def)

section \<open>Early returns\<close>

text \<open>
  A Go validator is a sequence of guards, each returning an error. \<open>check c e\<close> is
  the guard \<open>if c { return e }\<close>; \<open>first_err\<close> runs the guards in order and returns
  the error of the first that fires. A loop that returns from its body is \<open>each_err\<close>.
\<close>

definition check :: "bool \<Rightarrow> 'e \<Rightarrow> 'e option" where
  "check c e = (if c then Some e else None)"

fun first_err :: "'e option list \<Rightarrow> 'e option" where
  "first_err [] = None"
| "first_err (None # xs) = first_err xs"
| "first_err (Some e # xs) = Some e"

definition each_err :: "('a \<Rightarrow> 'e option) \<Rightarrow> 'a list \<Rightarrow> 'e option" where
  "each_err f xs = first_err (map f xs)"

lemma check_None [simp, check_simps]: "check c e = None \<longleftrightarrow> \<not> c"
  by (simp add: check_def)

lemma check_Some [simp, check_simps]: "check c e = Some e' \<longleftrightarrow> c \<and> e = e'"
  by (simp add: check_def)

lemma first_err_None [check_simps]: "first_err xs = None \<longleftrightarrow> (\<forall>x \<in> set xs. x = None)"
  by (induction xs rule: first_err.induct) auto

lemma first_err_SomeD: "first_err xs = Some e \<Longrightarrow> Some e \<in> set xs"
  by (induction xs rule: first_err.induct) auto

lemma first_err_append:
  "first_err (xs @ ys) = (case first_err xs of None \<Rightarrow> first_err ys | Some e \<Rightarrow> Some e)"
  by (induction xs rule: first_err.induct) auto

lemma first_err_Cons:
  "first_err (x # xs) = (case x of None \<Rightarrow> first_err xs | Some e \<Rightarrow> Some e)"
  by (cases x) simp_all

lemma first_err_Cons_None [check_simps]:
  "first_err (x # xs) = None \<longleftrightarrow> x = None \<and> first_err xs = None"
  by (cases x) simp_all

lemma each_err_None [check_simps]: "each_err f xs = None \<longleftrightarrow> (\<forall>x \<in> set xs. f x = None)"
  by (simp add: each_err_def first_err_None)

lemma each_err_Nil [simp]: "each_err f [] = None"
  by (simp add: each_err_def)

lemma each_err_Cons [simp]:
  "each_err f (x # xs) = (case f x of None \<Rightarrow> each_err f xs | Some e \<Rightarrow> Some e)"
  by (simp add: each_err_def first_err_Cons split: option.splits)

lemma each_err_SomeD: "each_err f xs = Some e \<Longrightarrow> \<exists>x \<in> set xs. f x = Some e"
  unfolding each_err_def using first_err_SomeD by fastforce

text \<open>Sequencing of fallible computations.\<close>

fun bind_res :: "'e + 'a \<Rightarrow> ('a \<Rightarrow> 'e + 'b) \<Rightarrow> 'e + 'b" where
  "bind_res (Inl e) f = Inl e"
| "bind_res (Inr a) f = f a"

definition require :: "'e option \<Rightarrow> 'a \<Rightarrow> 'e + 'a" where
  "require r a = (case r of None \<Rightarrow> Inr a | Some e \<Rightarrow> Inl e)"

lemma bind_res_Inr: "bind_res r f = Inr b \<longleftrightarrow> (\<exists>a. r = Inr a \<and> f a = Inr b)"
  by (cases r) auto

lemma bind_res_Inl: "bind_res r f = Inl e \<longleftrightarrow> r = Inl e \<or> (\<exists>a. r = Inr a \<and> f a = Inl e)"
  by (cases r) auto

lemma require_Inr [simp]: "require r a = Inr b \<longleftrightarrow> r = None \<and> a = b"
  by (auto simp: require_def split: option.splits)

lemma require_Inl [simp]: "require r a = Inl e \<longleftrightarrow> r = Some e"
  by (auto simp: require_def split: option.splits)

text \<open>A loop that stops at the first error.\<close>

fun map_res :: "('a \<Rightarrow> 'e + 'b) \<Rightarrow> 'a list \<Rightarrow> 'e + 'b list" where
  "map_res f [] = Inr []"
| "map_res f (x # xs) =
     bind_res (f x) (\<lambda>y. bind_res (map_res f xs) (\<lambda>ys. Inr (y # ys)))"

lemma map_res_Inr: "map_res f xs = Inr ys \<longleftrightarrow> list_all2 (\<lambda>x y. f x = Inr y) xs ys"
  by (induction xs arbitrary: ys) (auto simp: bind_res_Inr list_all2_Cons1)

lemma map_res_mem: "map_res f xs = Inr ys \<Longrightarrow> y \<in> set ys \<Longrightarrow> \<exists>x \<in> set xs. f x = Inr y"
  by (induction xs arbitrary: ys) (auto simp: bind_res_Inr)

lemma map_res_length: "map_res f xs = Inr ys \<Longrightarrow> length ys = length xs"
  by (induction xs arbitrary: ys) (auto simp: bind_res_Inr)

end
