(* ===== verification/Go_Strings.thy ===== *)
theory Go_Strings
  imports Prelude
begin

text \<open>
  Go strings as byte lists and the functions of the packages strings, strconv and fmt
  that the modelled code calls. A text made by \<open>fmt.Sprintf\<close> or \<open>fmt.Errorf\<close> is kept
  as its format and its arguments, so two texts are equal when they are made alike.
\<close>

section \<open>Floats\<close>

text \<open>
  A float64 is \<open>FNum m e\<close> for the number \<open>m * 2^e\<close>, an infinity (negative or not), or NaN.
  The comparisons are with integer constants, as the code has them.
\<close>

datatype fnum = FNum int int | FInf bool | FNaN

fun f_less :: "fnum \<Rightarrow> int \<Rightarrow> bool" where
  "f_less (FNum m e) c = (if 0 \<le> e then m * 2 ^ nat e < c else m < c * 2 ^ nat (- e))"
| "f_less (FInf neg) c = neg"
| "f_less FNaN c = False"

fun f_greater :: "fnum \<Rightarrow> int \<Rightarrow> bool" where
  "f_greater (FNum m e) c = (if 0 \<le> e then c < m * 2 ^ nat e else c * 2 ^ nat (- e) < m)"
| "f_greater (FInf neg) c = (\<not> neg)"
| "f_greater FNaN c = False"

text \<open>Go's \<open>==\<close> on floats: NaN differs from itself.\<close>

fun f_eq :: "fnum \<Rightarrow> fnum \<Rightarrow> bool" where
  "f_eq (FNum m e) (FNum m' e') =
     (if e \<le> e' then m = m' * 2 ^ nat (e' - e) else m * 2 ^ nat (e - e') = m')"
| "f_eq (FInf a) (FInf b) = (a = b)"
| "f_eq _ _ = False"

section \<open>Formatted texts\<close>

datatype msg = Fmt string "arg list"
  and arg = AStr string | AInt int | AFloat fnum | AMsg msg

abbreviation plain :: "string \<Rightarrow> msg" where
  "plain s \<equiv> Fmt s []"

section \<open>Prefixes, suffixes and search\<close>

definition has_prefix :: "string \<Rightarrow> string \<Rightarrow> bool" where
  "has_prefix s p \<longleftrightarrow> take (length p) s = p"

definition trim_prefix :: "string \<Rightarrow> string \<Rightarrow> string" where
  "trim_prefix s p = (if has_prefix s p then drop (length p) s else s)"

definition has_suffix :: "string \<Rightarrow> string \<Rightarrow> bool" where
  "has_suffix s p \<longleftrightarrow> has_prefix (rev s) (rev p)"

fun index_byte :: "string \<Rightarrow> char \<Rightarrow> nat option" where
  "index_byte [] c = None"
| "index_byte (x # xs) c = (if x = c then Some 0 else map_option Suc (index_byte xs c))"

fun str_contains :: "string \<Rightarrow> string \<Rightarrow> bool" where
  "str_contains [] p \<longleftrightarrow> p = []"
| "str_contains (x # xs) p \<longleftrightarrow> has_prefix (x # xs) p \<or> str_contains xs p"

text \<open>\<open>strings.Split\<close> on a one-byte separator: never empty, one part without separator.\<close>

fun split_byte :: "char \<Rightarrow> string \<Rightarrow> string list" where
  "split_byte c [] = [[]]"
| "split_byte c (x # xs) =
     (if x = c then [] # split_byte c xs
      else (case split_byte c xs of [] \<Rightarrow> [[x]] | p # ps \<Rightarrow> (x # p) # ps))"

fun join_byte :: "char \<Rightarrow> string list \<Rightarrow> string" where
  "join_byte c [] = []"
| "join_byte c [p] = p"
| "join_byte c (p # ps) = p @ [c] @ join_byte c ps"

lemma split_byte_nonempty [simp]: "split_byte c s \<noteq> []"
  by (cases s) (auto split: list.splits)

lemma join_split [simp]: "join_byte c (split_byte c s) = s"
proof (induction s)
  case (Cons x xs)
  then show ?case
    by (cases "split_byte c xs"; cases "tl (split_byte c xs)") auto
qed simp

lemma index_byte_None: "index_byte s c = None \<longleftrightarrow> c \<notin> set s"
  by (induction s) auto

lemma index_byte_SomeD: "index_byte s c = Some i \<Longrightarrow> i < length s \<and> s ! i = c \<and> c \<notin> set (take i s)"
proof (induction s arbitrary: i)
  case (Cons x xs)
  then show ?case by (cases i) (auto split: if_splits)
qed simp

lemma index_byte_append: "c \<notin> set p \<Longrightarrow> index_byte (p @ c # q) c = Some (length p)"
  by (induction p) auto

lemma has_prefix_append [simp]: "has_prefix (p @ s) p"
  by (simp add: has_prefix_def)

lemma has_prefix_iff: "has_prefix s p \<longleftrightarrow> (\<exists>t. s = p @ t)"
  by (metis append_eq_conv_conj has_prefix_def)

lemma trim_prefix_append [simp]: "trim_prefix (p @ s) p = s"
  by (simp add: trim_prefix_def)

section \<open>White space\<close>

text \<open>
  The UTF-8 encodings of the code points that \<open>unicode.IsSpace\<close> accepts.
  \<open>strings.TrimSpace\<close> removes them from both ends, whole encodings only; reading the
  last rune of a string agrees with matching an encoding as a suffix, because every
  encoding starts with the only non-continuation byte it holds.
\<close>

definition space_encodings :: "string list" where
  "space_encodings =
     [[CHR 0x09], [CHR 0x0A], [CHR 0x0B], [CHR 0x0C], [CHR 0x0D], [CHR 0x20],
      [CHR 0xC2, CHR 0x85], [CHR 0xC2, CHR 0xA0], [CHR 0xE1, CHR 0x9A, CHR 0x80],
      [CHR 0xE2, CHR 0x80, CHR 0x80], [CHR 0xE2, CHR 0x80, CHR 0x81],
      [CHR 0xE2, CHR 0x80, CHR 0x82], [CHR 0xE2, CHR 0x80, CHR 0x83],
      [CHR 0xE2, CHR 0x80, CHR 0x84], [CHR 0xE2, CHR 0x80, CHR 0x85],
      [CHR 0xE2, CHR 0x80, CHR 0x86], [CHR 0xE2, CHR 0x80, CHR 0x87],
      [CHR 0xE2, CHR 0x80, CHR 0x88], [CHR 0xE2, CHR 0x80, CHR 0x89],
      [CHR 0xE2, CHR 0x80, CHR 0x8A], [CHR 0xE2, CHR 0x80, CHR 0xA8],
      [CHR 0xE2, CHR 0x80, CHR 0xA9], [CHR 0xE2, CHR 0x80, CHR 0xAF],
      [CHR 0xE2, CHR 0x81, CHR 0x9F], [CHR 0xE3, CHR 0x80, CHR 0x80]]"

lemma find_encoding_shrinks:
  assumes "find (\<lambda>e. e \<noteq> [] \<and> has_prefix s e) es = Some e"
  shows "length (drop (length e) s) < length s"
proof -
  from assms have "e \<noteq> []" and "take (length e) s = e"
    by (auto simp: find_Some_iff has_prefix_def)
  then have "0 < length e" and "length e \<le> length s"
    by (auto dest: arg_cong [where f = length])
  then show ?thesis unfolding length_drop by linarith
qed

function strip_front :: "string list \<Rightarrow> string \<Rightarrow> string" where
  "strip_front es s =
     (case find (\<lambda>e. e \<noteq> [] \<and> has_prefix s e) es of
        None \<Rightarrow> s
      | Some e \<Rightarrow> strip_front es (drop (length e) s))"
  by pat_completeness auto
termination
  by (relation "measure (\<lambda>(es, s). length s)") (auto dest: find_encoding_shrinks)

declare strip_front.simps [simp del]

definition trim_space :: "string \<Rightarrow> string" where
  "trim_space s =
     rev (strip_front (map rev space_encodings) (rev (strip_front space_encodings s)))"

text \<open>\<open>strings.Trim\<close> with a one-byte cut set.\<close>

definition trim_byte :: "char \<Rightarrow> string \<Rightarrow> string" where
  "trim_byte c s = rev (dropWhile (\<lambda>x. x = c) (rev (dropWhile (\<lambda>x. x = c) s)))"

lemma strip_front_suffix: "\<exists>p. s = p @ strip_front es s"
proof (induction es s rule: strip_front.induct)
  case (1 es s)
  show ?case
  proof (cases "find (\<lambda>e. e \<noteq> [] \<and> has_prefix s e) es")
    case None
    then show ?thesis by (simp add: strip_front.simps [of es s])
  next
    case (Some e)
    then obtain p where "drop (length e) s = p @ strip_front es (drop (length e) s)"
      using "1.IH" by blast
    moreover have "strip_front es s = strip_front es (drop (length e) s)"
      using Some by (simp add: strip_front.simps [of es s])
    ultimately have "s = (take (length e) s @ p) @ strip_front es s"
      by (metis append.assoc append_take_drop_id)
    then show ?thesis by blast
  qed
qed

lemma strip_front_idle:
  assumes "\<forall>e \<in> set es. e \<noteq> [] \<longrightarrow> \<not> has_prefix s e"
  shows "strip_front es s = s"
proof -
  have "find (\<lambda>e. e \<noteq> [] \<and> has_prefix s e) es = None"
    using assms by (auto simp: find_None_iff)
  then show ?thesis by (simp add: strip_front.simps [of es s])
qed

lemma strip_front_done:
  "e \<in> set es \<Longrightarrow> e \<noteq> [] \<Longrightarrow> \<not> has_prefix (strip_front es s) e"
proof (induction es s rule: strip_front.induct)
  case (1 es s)
  show ?case
  proof (cases "find (\<lambda>e. e \<noteq> [] \<and> has_prefix s e) es")
    case None
    then have "strip_front es s = s" by (simp add: strip_front.simps [of es s])
    then show ?thesis using None "1.prems" by (auto simp: find_None_iff)
  next
    case (Some e')
    then have "strip_front es s = strip_front es (drop (length e') s)"
      by (simp add: strip_front.simps [of es s])
    then show ?thesis using Some "1.IH" "1.prems" by simp
  qed
qed

lemma strip_front_idem: "strip_front es (strip_front es s) = strip_front es s"
  by (rule strip_front_idle) (auto simp: strip_front_done)

lemma strip_front_Nil [simp]: "strip_front es [] = []"
  using strip_front_suffix [of "[]" es] by simp

lemma trim_space_Nil [simp]: "trim_space [] = []"
  by (simp add: trim_space_def)

lemma length_trim_space: "length (trim_space s) \<le> length s"
proof -
  have le: "length (strip_front es t) \<le> length t" for es t
    by (metis strip_front_suffix length_append le_add2)
  show ?thesis
    unfolding trim_space_def using le [of "map rev space_encodings"] le [of space_encodings s]
    by (metis length_rev order_trans)
qed

text \<open>\<open>strings.Fields\<close>: the maximal runs of bytes that start no white-space encoding.\<close>

definition starts_space :: "string \<Rightarrow> bool" where
  "starts_space s \<longleftrightarrow> (\<exists>e \<in> set space_encodings. has_prefix s e)"

fun word_of :: "string \<Rightarrow> string \<times> string" where
  "word_of [] = ([], [])"
| "word_of (c # cs) =
     (if starts_space (c # cs) then ([], c # cs)
      else let (w, r) = word_of cs in (c # w, r))"

lemma word_of_append: "fst (word_of s) @ snd (word_of s) = s"
  by (induction s) (auto simp: Let_def split: prod.splits)

lemma word_of_progress: "fst (word_of s) \<noteq> [] \<Longrightarrow> length (snd (word_of s)) < length s"
  using arg_cong [OF word_of_append [of s], of length] by (cases "fst (word_of s)") auto

function str_fields :: "string \<Rightarrow> string list" where
  "str_fields s =
     (let t = strip_front space_encodings s; (w, r) = word_of t
      in if w = [] then [] else w # str_fields r)"
  by pat_completeness auto
termination
proof (relation "measure length")
  fix s t w r and x :: "string \<times> string"
  assume t: "t = strip_front space_encodings s" and x: "x = word_of t" "(w, r) = x" and w: "w \<noteq> []"
  from x w have "length r < length t" using word_of_progress [of t] by (metis fst_conv snd_conv)
  moreover have "length t \<le> length s"
    using strip_front_suffix [of s space_encodings] t by (metis length_append le_add2)
  ultimately show "(r, s) \<in> measure length" by simp
qed simp

declare str_fields.simps [simp del]

lemma fields_nonempty: "w \<in> set (str_fields s) \<Longrightarrow> w \<noteq> []"
proof (induction s rule: str_fields.induct)
  case (1 s)
  obtain a b where ab: "word_of (strip_front space_encodings s) = (a, b)"
    by (cases "word_of (strip_front space_encodings s)")
  then have "str_fields s = (if a = [] then [] else a # str_fields b)"
    by (subst str_fields.simps) simp
  then show ?case
    using "1.IH" [of _ "(a, b)" a b] ab "1.prems" by (auto split: if_splits)
qed

text \<open>
  \<open>bytes.ToLower\<close> as far as a search for ASCII bytes can tell: the ASCII capitals, and the
  two code points outside ASCII whose lower case is an ASCII letter (U+0130 and U+212A).
\<close>

definition lower_char :: "char \<Rightarrow> char" where
  "lower_char c = (let n = of_char c :: int in if 65 \<le> n \<and> n \<le> 90 then char_of (n + 32) else c)"

fun lower_search :: "string \<Rightarrow> string" where
  "lower_search [] = []"
| "lower_search [c] = [lower_char c]"
| "lower_search [c, d] =
     (if c = CHR 0xC4 \<and> d = CHR 0xB0 then ''i'' else [lower_char c, lower_char d])"
| "lower_search (c # d # e # cs) =
     (if c = CHR 0xC4 \<and> d = CHR 0xB0 then CHR ''i'' # lower_search (e # cs)
      else if c = CHR 0xE2 \<and> d = CHR 0x84 \<and> e = CHR 0xAA then CHR ''k'' # lower_search cs
      else lower_char c # lower_search (d # e # cs))"

section \<open>Decimal numbers\<close>

definition digit_char :: "nat \<Rightarrow> char" where
  "digit_char d = char_of (48 + int d)"

definition digit_val :: "char \<Rightarrow> nat option" where
  "digit_val c = (let n = of_char c :: int in if 48 \<le> n \<and> n \<le> 57 then Some (nat (n - 48)) else None)"

fun show_nat :: "nat \<Rightarrow> string" where
  "show_nat n = (if n < 10 then [digit_char n] else show_nat (n div 10) @ [digit_char (n mod 10)])"

declare show_nat.simps [simp del]

definition show_int :: "int \<Rightarrow> string" where
  "show_int i = (if i < 0 then CHR ''-'' # show_nat (nat (- i)) else show_nat (nat i))"

fun digits_acc :: "nat \<Rightarrow> string \<Rightarrow> nat option" where
  "digits_acc a [] = Some a"
| "digits_acc a (c # cs) =
     (case digit_val c of None \<Rightarrow> None | Some d \<Rightarrow> digits_acc (10 * a + d) cs)"

definition parse_nat :: "string \<Rightarrow> nat option" where
  "parse_nat s = (if s = [] then None else digits_acc 0 s)"

definition max_int64 :: int where "max_int64 = 2 ^ 63 - 1"
definition min_int64 :: int where "min_int64 = - (2 ^ 63)"

text \<open>\<open>strconv.ParseInt(s, 10, 64)\<close>: an optional sign, digits, and a range check.\<close>

definition parse_int64 :: "string \<Rightarrow> int option" where
  "parse_int64 s =
     (let (neg, ds) = (case s of
          [] \<Rightarrow> (False, [])
        | c # cs \<Rightarrow> if c = CHR ''-'' then (True, cs) else if c = CHR ''+'' then (False, cs)
                    else (False, s))
      in case parse_nat ds of
           None \<Rightarrow> None
         | Some n \<Rightarrow>
             let i = (if neg then - int n else int n)
             in if min_int64 \<le> i \<and> i \<le> max_int64 then Some i else None)"

lemma digit_val_char [simp]: "d < 10 \<Longrightarrow> digit_val (digit_char d) = Some d"
  by (simp add: digit_val_def digit_char_def of_char_of)

lemma digits_acc_append:
  "digits_acc a (s @ t) = (case digits_acc a s of None \<Rightarrow> None | Some b \<Rightarrow> digits_acc b t)"
  by (induction s arbitrary: a) (auto split: option.splits)

lemma digits_acc_show_nat: "digits_acc 0 (show_nat n) = Some n"
proof (induction n rule: show_nat.induct)
  case (1 n)
  then show ?case
    by (cases "n < 10") (simp_all add: show_nat.simps [of n] digits_acc_append)
qed

lemma show_nat_nonempty [simp]: "show_nat n \<noteq> []"
  by (subst show_nat.simps) simp

lemma parse_show_nat [simp]: "parse_nat (show_nat n) = Some n"
  by (simp add: parse_nat_def digits_acc_show_nat)

lemma hd_show_nat: "\<exists>d < 10. hd (show_nat n) = digit_char d"
proof (induction n rule: show_nat.induct)
  case (1 n)
  then show ?case
    by (cases "n < 10") (auto simp: show_nat.simps [of n])
qed

lemma digit_char_not_sign:
  "d < 10 \<Longrightarrow> digit_char d \<noteq> CHR ''-''" "d < 10 \<Longrightarrow> digit_char d \<noteq> CHR ''+''"
  by (auto simp: digit_char_def dest!: arg_cong [where f = "of_char :: char \<Rightarrow> int"])

lemma parse_int64_show_int:
  assumes "min_int64 \<le> i" and "i \<le> max_int64"
  shows "parse_int64 (show_int i) = Some i"
proof (cases "i < 0")
  case True
  then show ?thesis using assms by (simp add: parse_int64_def show_int_def Let_def)
next
  case False
  obtain c cs where cs: "show_nat (nat i) = c # cs"
    using show_nat_nonempty by (meson neq_Nil_conv)
  with hd_show_nat [of "nat i"] have "c \<noteq> CHR ''-''" "c \<noteq> CHR ''+''"
    using digit_char_not_sign by auto
  with False assms cs show ?thesis
    using parse_show_nat [of "nat i"] by (simp add: parse_int64_def show_int_def Let_def)
qed

end
