(* ===== verification/Systems.thy ===== *)
theory Systems
  imports Go_Strings
begin

text \<open>
  Go maps as association lists with distinct keys, and the interfaces the components
  share: a deterministic component driven by events, one whose observation only grows, a
  component whose operations interleave, and a keyed table.
\<close>

section \<open>Go maps\<close>

type_synonym ('k, 'v) gomap = "('k \<times> 'v) list"

definition wf_map :: "('k, 'v) gomap \<Rightarrow> bool" where
  "wf_map m \<longleftrightarrow> distinct (map fst m)"

abbreviation get :: "('k, 'v) gomap \<Rightarrow> 'k \<Rightarrow> 'v option" where
  "get \<equiv> map_of"

abbreviation put :: "'k \<Rightarrow> 'v \<Rightarrow> ('k, 'v) gomap \<Rightarrow> ('k, 'v) gomap" where
  "put \<equiv> AList.update"

abbreviation del :: "'k \<Rightarrow> ('k, 'v) gomap \<Rightarrow> ('k, 'v) gomap" where
  "del \<equiv> AList.delete"

definition has_key :: "('k, 'v) gomap \<Rightarrow> 'k \<Rightarrow> bool" where
  "has_key m k \<longleftrightarrow> get m k \<noteq> None"

text \<open>Deleting while ranging over the map: the entries that fail the test remain.\<close>

definition drop_where :: "('k \<Rightarrow> 'v \<Rightarrow> bool) \<Rightarrow> ('k, 'v) gomap \<Rightarrow> ('k, 'v) gomap" where
  "drop_where P m = filter (\<lambda>(k, v). \<not> P k v) m"

lemma get_put [simp]: "get (put k v m) k' = (if k' = k then Some v else get m k')"
  by (simp add: update_conv')

lemma get_del [simp]: "get (del k m) k' = (if k' = k then None else get m k')"
  by (simp add: delete_conv')

lemma wf_map_Nil [simp]: "wf_map []"
  by (simp add: wf_map_def)

lemma wf_map_put [simp]: "wf_map m \<Longrightarrow> wf_map (put k v m)"
  by (simp add: wf_map_def distinct_update)

lemma wf_map_del [simp]: "wf_map m \<Longrightarrow> wf_map (del k m)"
  by (simp add: wf_map_def distinct_delete)

lemma wf_map_drop_where [simp]: "wf_map m \<Longrightarrow> wf_map (drop_where P m)"
  by (auto simp: wf_map_def drop_where_def intro: distinct_map_filter)

lemma get_iff_mem: "wf_map m \<Longrightarrow> get m k = Some v \<longleftrightarrow> (k, v) \<in> set m"
  by (simp add: wf_map_def)

lemma get_drop_where:
  assumes "wf_map m"
  shows "get (drop_where P m) k = (case get m k of None \<Rightarrow> None | Some v \<Rightarrow> if P k v then None else Some v)"
proof -
  have iff: "get (drop_where P m) k = Some v \<longleftrightarrow> get m k = Some v \<and> \<not> P k v" for v
    using get_iff_mem [OF wf_map_drop_where [OF assms], of P k v] get_iff_mem [OF assms, of k v]
    by (auto simp: drop_where_def)
  show ?thesis
  proof (cases "get (drop_where P m) k")
    case None
    then show ?thesis using iff by (cases "get m k") auto
  next
    case (Some v)
    then show ?thesis using iff [of v] by simp
  qed
qed

lemma length_put_le: "length (put k v m) \<le> Suc (length m)"
  by (induction m) auto

lemma length_put: "length (put k v m) = (if get m k = None then Suc (length m) else length m)"
  by (induction m) auto

lemma length_del: "wf_map m \<Longrightarrow> length (del k m) = (if get m k = None then length m else length m - 1)"
proof -
  assume "wf_map m"
  then have "map fst (del k m) = remove1 k (map fst m)"
    by (simp add: wf_map_def delete_keys distinct_remove1_removeAll)
  then have "length (del k m) = length (remove1 k (map fst m))"
    by (metis length_map)
  then show ?thesis
    by (auto simp: length_remove1 map_of_eq_None_iff)
qed

lemma length_del_Suc: "wf_map m \<Longrightarrow> get m k = Some v \<Longrightarrow> Suc (length (del k m)) = length m"
proof -
  assume "wf_map m" and g: "get m k = Some v"
  then have "length (del k m) = length m - 1" by (simp add: length_del)
  moreover have "length m \<noteq> 0" using g by auto
  ultimately show ?thesis by simp
qed

section \<open>Slices\<close>

text \<open>A Go slice that may be nil, where JSON tells nil (null) and empty ([]) apart.\<close>

type_synonym 'a slice = "'a list option"

definition elems :: "'a slice \<Rightarrow> 'a list" where
  "elems s = (case s of None \<Rightarrow> [] | Some xs \<Rightarrow> xs)"

lemma elems_simps [simp]: "elems None = []" "elems (Some xs) = xs"
  by (simp_all add: elems_def)

section \<open>Deterministic components\<close>

definition run :: "('s \<Rightarrow> 'e \<Rightarrow> 's) \<Rightarrow> 's \<Rightarrow> 'e list \<Rightarrow> 's" where
  "run step s es = foldl step s es"

lemma run_Nil [simp]: "run step s [] = s"
  by (simp add: run_def)

lemma run_Cons [simp]: "run step s (e # es) = run step (step s e) es"
  by (simp add: run_def)

lemma run_append [simp]: "run step s (es @ fs) = run step (run step s es) fs"
  by (simp add: run_def)

locale event_system =
  fixes step :: "'s \<Rightarrow> 'e \<Rightarrow> 's"
    and inv :: "'s \<Rightarrow> bool"
  assumes inv_step: "inv s \<Longrightarrow> inv (step s e)"
begin

lemma inv_run: "inv s \<Longrightarrow> inv (run step s es)"
  by (induction es arbitrary: s) (auto intro: inv_step)

lemma inv_prefix: "inv s \<Longrightarrow> inv (run step s (take n es))"
  by (rule inv_run)

end

text \<open>An observation that no step of a well-formed component decreases.\<close>

locale monotone_system = event_system +
  fixes obs :: "'s \<Rightarrow> 'o::order"
  assumes obs_step: "inv s \<Longrightarrow> obs s \<le> obs (step s e)"
begin

lemma obs_run: "inv s \<Longrightarrow> obs s \<le> obs (run step s es)"
proof (induction es arbitrary: s)
  case (Cons e es)
  then have "obs s \<le> obs (step s e)" and "obs (step s e) \<le> obs (run step (step s e) es)"
    by (auto intro: obs_step inv_step)
  then show ?case by simp
qed simp

lemma obs_between: "inv s \<Longrightarrow> obs (run step s es) \<le> obs (run step s (es @ fs))"
  using obs_run [OF inv_run] by simp

end

text \<open>A predicate that, once true, stays true.\<close>

locale latched_system = event_system +
  fixes latched :: "'s \<Rightarrow> bool"
  assumes latched_step: "inv s \<Longrightarrow> latched s \<Longrightarrow> latched (step s e)"
begin

lemma latched_run: "inv s \<Longrightarrow> latched s \<Longrightarrow> latched (run step s es)"
  by (induction es arbitrary: s) (auto intro: latched_step inv_step)

end

section \<open>Interleaved components\<close>

locale step_system =
  fixes init :: "'s \<Rightarrow> bool"
    and next_rel :: "'s \<Rightarrow> 's \<Rightarrow> bool"
    and inv :: "'s \<Rightarrow> bool"
  assumes inv_init: "init s \<Longrightarrow> inv s"
    and inv_next: "inv s \<Longrightarrow> next_rel s t \<Longrightarrow> inv t"
begin

lemma inv_steps: "next_rel\<^sup>*\<^sup>* s t \<Longrightarrow> inv s \<Longrightarrow> inv t"
  by (induction rule: rtranclp_induct) (auto intro: inv_next)

lemma inv_reachable: "init s \<Longrightarrow> next_rel\<^sup>*\<^sup>* s t \<Longrightarrow> inv t"
  using inv_steps inv_init by blast

end

section \<open>Keyed tables\<close>

text \<open>
  What a client may rely on when a component keeps one value per key: a store answers the
  value stored last, a removal answers nothing, and other keys are untouched.
\<close>

locale keyed_table =
  fixes lookup :: "'t \<Rightarrow> 'k \<Rightarrow> 'v option"
    and store :: "'k \<Rightarrow> 'v \<Rightarrow> 't \<Rightarrow> 't"
    and remove :: "'k \<Rightarrow> 't \<Rightarrow> 't"
    and ok :: "'t \<Rightarrow> bool"
  assumes lookup_store: "ok t \<Longrightarrow> lookup (store k v t) k' = (if k' = k then Some v else lookup t k')"
    and lookup_remove: "ok t \<Longrightarrow> lookup (remove k t) k' = (if k' = k then None else lookup t k')"
    and ok_store: "ok t \<Longrightarrow> ok (store k v t)"
    and ok_remove: "ok t \<Longrightarrow> ok (remove k t)"
begin

lemma store_overwrites: "ok t \<Longrightarrow> lookup (store k w (store k v t)) = lookup (store k w t)"
  by (auto simp: lookup_store ok_store)

lemma remove_undoes: "ok t \<Longrightarrow> lookup (remove k (store k v t)) = lookup (remove k t)"
  by (auto simp: lookup_store lookup_remove ok_store ok_remove)

lemma store_all:
  "ok t \<Longrightarrow> lookup (foldr (\<lambda>(k, v). store k v) kvs t) k' =
     (case map_of kvs k' of Some v \<Rightarrow> Some v | None \<Rightarrow> lookup t k')
   \<and> ok (foldr (\<lambda>(k, v). store k v) kvs t)"
  by (induction kvs) (auto simp: lookup_store ok_store)

end

interpretation gomap: keyed_table get put del wf_map
  by unfold_locales auto

end
