(* ===== verification/Source_Activation.thy ===== *)
theory Source_Activation
  imports Systems
begin

text \<open>
  The activation lifecycle of government sources, backend/internal/sourceact/activation.go:
  the successor table, the service's map of sources with its audit trail, and every method
  of the service. The injected clock is the argument \<open>now\<close> of the operations that read it.
\<close>

section \<open>Data\<close>

text \<open>\<open>Unset\<close> is the empty string, the zero value a caller may pass to Discover.\<close>

datatype src_state =
  Unset | Discovered | AccessRequested | SampleAcquired | Validated | Authorized
| Operational | Suspended | Retired | Quarantined

definition transitions :: "src_state \<Rightarrow> src_state list" where
  "transitions s = (case s of
     Discovered \<Rightarrow> [AccessRequested, Quarantined]
   | AccessRequested \<Rightarrow> [SampleAcquired, Quarantined]
   | SampleAcquired \<Rightarrow> [Validated, Quarantined]
   | Validated \<Rightarrow> [Authorized, Quarantined]
   | Authorized \<Rightarrow> [Operational, Quarantined]
   | Operational \<Rightarrow> [Suspended, Retired, Quarantined]
   | Suspended \<Rightarrow> [Operational, Retired, Quarantined]
   | Quarantined \<Rightarrow> []
   | _ \<Rightarrow> [])"

datatype act_error =
  ActivationError msg | SourceNotFound string | VersionConflict string

record source =
  source_id :: string
  government_owner :: string
  official_domain :: string
  state :: src_state
  version :: int
  updated_at :: time

definition may_drive_guidance :: "source \<Rightarrow> bool" where
  "may_drive_guidance s \<longleftrightarrow> state s = Operational"

record audit_event =
  event_id :: string
  occurred_at :: time
  actor_id :: string
  action :: string
  subject_id :: string
  reason :: string
  from_state :: src_state
  to_state :: src_state

text \<open>
  \<open>audited\<close> says whether an auditor was injected; \<open>trail\<close> is what it received, oldest first.
\<close>

record service =
  by_id :: "(string, source) gomap"
  audited :: bool
  trail :: "audit_event list"

definition new_service :: "bool \<Rightarrow> service" where
  "new_service aud = \<lparr>by_id = [], audited = aud, trail = []\<rparr>"

section \<open>Operations\<close>

definition discover_checks :: "source \<Rightarrow> act_error option" where
  "discover_checks src = first_err
     [check (source_id src = []) (ActivationError (plain ''source_id is required'')),
      check (government_owner src = []) (ActivationError (plain ''government_owner is required'')),
      check (official_domain src = []) (ActivationError (plain ''official_domain is required'')),
      check (state src \<noteq> Unset \<and> state src \<noteq> Discovered)
        (ActivationError (plain ''new sources must begin in DISCOVERED''))]"

definition discover :: "service \<Rightarrow> source \<Rightarrow> time \<Rightarrow> service \<times> (act_error + source)" where
  "discover s src now =
     (case discover_checks src of
        Some e \<Rightarrow> (s, Inl e)
      | None \<Rightarrow>
          if has_key (by_id s) (source_id src)
          then (s, Inl (ActivationError (Fmt ''duplicate source: %s'' [AStr (source_id src)])))
          else let src' = src\<lparr>state := Discovered, version := 1, updated_at := now\<rparr>
               in (s\<lparr>by_id := put (source_id src) src' (by_id s)\<rparr>, Inr src'))"

text \<open>The spelling of the states in messages.\<close>

definition state_name :: "src_state \<Rightarrow> string" where
  "state_name s = (case s of
     Unset \<Rightarrow> '''' | Discovered \<Rightarrow> ''DISCOVERED'' | AccessRequested \<Rightarrow> ''ACCESS_REQUESTED''
   | SampleAcquired \<Rightarrow> ''SAMPLE_ACQUIRED'' | Validated \<Rightarrow> ''VALIDATED''
   | Authorized \<Rightarrow> ''AUTHORIZED'' | Operational \<Rightarrow> ''OPERATIONAL''
   | Suspended \<Rightarrow> ''SUSPENDED'' | Retired \<Rightarrow> ''RETIRED'' | Quarantined \<Rightarrow> ''QUARANTINED'')"

definition transition ::
  "service \<Rightarrow> string \<Rightarrow> src_state \<Rightarrow> string \<Rightarrow> string \<Rightarrow> string \<Rightarrow> time \<Rightarrow> service \<times> (act_error + source)"
where
  "transition s sid target actor rsn eid now =
     (case get (by_id s) sid of
        None \<Rightarrow> (s, Inl (SourceNotFound sid))
      | Some cur \<Rightarrow>
          if target \<notin> set (transitions (state cur))
          then (s, Inl (ActivationError (Fmt ''illegal source transition: %s -> %s''
                  [AStr (state_name (state cur)), AStr (state_name target)])))
          else
            let upd = cur\<lparr>state := target, version := version cur + 1, updated_at := now\<rparr>;
                ev = \<lparr>event_id = eid, occurred_at = now, actor_id = actor,
                      action = ''SOURCE_STATE_TRANSITION'', subject_id = sid, reason = rsn,
                      from_state = state cur, to_state = target\<rparr>
            in (s\<lparr>by_id := put sid upd (by_id s),
                  trail := (if audited s then trail s @ [ev] else trail s)\<rparr>, Inr upd))"

definition require_operational :: "service \<Rightarrow> string \<Rightarrow> act_error + source" where
  "require_operational s sid =
     (case get (by_id s) sid of
        None \<Rightarrow> Inl (SourceNotFound sid)
      | Some src \<Rightarrow>
          if \<not> may_drive_guidance src
          then Inl (ActivationError (Fmt ''source %s is not OPERATIONAL'' [AStr sid]))
          else Inr src)"

definition get_source :: "service \<Rightarrow> string \<Rightarrow> source option" where
  "get_source s sid = get (by_id s) sid"

definition list_sources :: "service \<Rightarrow> source list" where
  "list_sources s = sort_key source_id (map snd (by_id s))"

section \<open>The service as a driven component\<close>

datatype src_event =
  Discover source time
| Transition string src_state string string string time

fun src_step :: "service \<Rightarrow> src_event \<Rightarrow> service" where
  "src_step s (Discover src now) = fst (discover s src now)"
| "src_step s (Transition sid target actor rsn eid now) =
     fst (transition s sid target actor rsn eid now)"

definition good_source :: "string \<Rightarrow> source \<Rightarrow> bool" where
  "good_source k src \<longleftrightarrow> source_id src = k \<and> k \<noteq> [] \<and> government_owner src \<noteq> []
     \<and> official_domain src \<noteq> [] \<and> state src \<noteq> Unset \<and> 1 \<le> version src"

definition good_service :: "service \<Rightarrow> bool" where
  "good_service s \<longleftrightarrow> wf_map (by_id s)
     \<and> (\<forall>k src. get (by_id s) k = Some src \<longrightarrow> good_source k src)"

declare discover_def [step_defs] transition_def [step_defs]

lemma good_new [simp]: "good_service (new_service aud)"
  by (simp add: good_service_def new_service_def)

lemma target_not_Unset: "t \<in> set (transitions s) \<Longrightarrow> t \<noteq> Unset \<and> t \<noteq> Discovered"
  by (cases s) (auto simp: transitions_def)

lemma discover_ok:
  assumes "discover_checks src = None" and "\<not> has_key (by_id s) (source_id src)"
  shows "discover s src now =
    (s\<lparr>by_id := put (source_id src) (src\<lparr>state := Discovered, version := 1, updated_at := now\<rparr>) (by_id s)\<rparr>,
     Inr (src\<lparr>state := Discovered, version := 1, updated_at := now\<rparr>))"
  using assms by (simp add: discover_def Let_def)

lemma discover_cases:
  obtains (unchanged) e where "discover s src now = (s, Inl e)"
  | (added) "discover_checks src = None" "\<not> has_key (by_id s) (source_id src)"
      "discover s src now =
        (s\<lparr>by_id := put (source_id src) (src\<lparr>state := Discovered, version := 1, updated_at := now\<rparr>) (by_id s)\<rparr>,
         Inr (src\<lparr>state := Discovered, version := 1, updated_at := now\<rparr>))"
  by (cases "discover_checks src"; cases "has_key (by_id s) (source_id src)")
     (auto simp: discover_def Let_def)

lemma transition_cases:
  obtains (unchanged) e where "transition s sid t a r eid now = (s, Inl e)"
  | (moved) cur where "get (by_id s) sid = Some cur" "t \<in> set (transitions (state cur))"
      "transition s sid t a r eid now =
        (s\<lparr>by_id := put sid (cur\<lparr>state := t, version := version cur + 1, updated_at := now\<rparr>) (by_id s),
           trail := (if audited s then trail s @ [\<lparr>event_id = eid, occurred_at = now, actor_id = a,
              action = ''SOURCE_STATE_TRANSITION'', subject_id = sid, reason = r,
              from_state = state cur, to_state = t\<rparr>] else trail s)\<rparr>,
         Inr (cur\<lparr>state := t, version := version cur + 1, updated_at := now\<rparr>))"
proof (cases "get (by_id s) sid")
  case None
  then show ?thesis by (intro unchanged) (simp add: transition_def)
next
  case (Some cur)
  show ?thesis
  proof (cases "t \<in> set (transitions (state cur))")
    case True
    with Some show ?thesis by (intro moved) (simp_all add: transition_def Let_def)
  next
    case False
    with Some show ?thesis by (intro unchanged) (simp add: transition_def)
  qed
qed

lemma good_discover: "good_service s \<Longrightarrow> good_service (fst (discover s src now))"
  by (rule discover_cases [of s src now])
     (auto simp: good_service_def good_source_def discover_checks_def first_err_Cons_None)

lemma good_transition: "good_service s \<Longrightarrow> good_service (fst (transition s sid t a r eid now))"
  by (rule transition_cases [of s sid t a r eid now])
     (auto simp: good_service_def good_source_def dest!: target_not_Unset, fastforce+)

lemma good_step: "good_service s \<Longrightarrow> good_service (src_step s e)"
  by (cases e) (simp_all add: good_discover good_transition)

interpretation src: event_system src_step good_service
  by unfold_locales (rule good_step)

section \<open>Versions, terminal states and the audit trail\<close>

text \<open>The version of one source, 0 while it is unknown, never decreases.\<close>

definition version_of :: "string \<Rightarrow> service \<Rightarrow> int" where
  "version_of k s = (case get (by_id s) k of None \<Rightarrow> 0 | Some src \<Rightarrow> version src)"

lemma version_discover: "version_of k s \<le> version_of k (fst (discover s src now))"
  by (rule discover_cases [of s src now]) (auto simp: version_of_def has_key_def split: option.splits)

lemma version_transition: "version_of k s \<le> version_of k (fst (transition s sid t a r eid now))"
  by (rule transition_cases [of s sid t a r eid now]) (auto simp: version_of_def)

interpretation src_version: monotone_system src_step good_service "version_of k" for k
proof unfold_locales
  fix s e
  show "version_of k s \<le> version_of k (src_step s e)"
    by (cases e) (simp_all add: version_discover version_transition)
qed

text \<open>A source in a terminal state is frozen, whatever is tried on it.\<close>

definition frozen_as :: "string \<Rightarrow> source \<Rightarrow> service \<Rightarrow> bool" where
  "frozen_as k src s \<longleftrightarrow> get (by_id s) k = Some src \<and> state src \<in> {Retired, Quarantined}"

lemma frozen_step: "frozen_as k src s \<Longrightarrow> frozen_as k src (src_step s e)"
proof (cases e)
  case (Discover src' now)
  assume "frozen_as k src s"
  then show ?thesis unfolding Discover
    by (cases rule: discover_cases [of s src' now]) (auto simp: frozen_as_def has_key_def)
next
  case (Transition sid t a r eid now)
  assume "frozen_as k src s"
  then show ?thesis unfolding Transition
    by (cases rule: transition_cases [of s sid t a r eid now])
       (auto simp: frozen_as_def transitions_def)
qed

interpretation src_frozen: latched_system src_step good_service "frozen_as k src" for k src
  by unfold_locales (rule frozen_step)

text \<open>
  Replaying a trail: the states one source is recorded to have gone through, from the
  state it was discovered in; \<open>None\<close> when an event does not start where the last ended.
\<close>

fun replay :: "string \<Rightarrow> src_state \<times> int \<Rightarrow> audit_event list \<Rightarrow> (src_state \<times> int) option" where
  "replay k (st, v) [] = Some (st, v)"
| "replay k (st, v) (ev # evs) =
     (if subject_id ev \<noteq> k then replay k (st, v) evs
      else if from_state ev = st \<and> to_state ev \<in> set (transitions st)
      then replay k (to_state ev, v + 1) evs else None)"

lemma replay_append:
  "replay k sv (es @ fs) = (case replay k sv es of None \<Rightarrow> None | Some sv' \<Rightarrow> replay k sv' fs)"
  by (induction k sv es rule: replay.induct) auto

lemma replay_other: "\<forall>ev \<in> set es. subject_id ev \<noteq> k \<Longrightarrow> replay k sv es = Some sv"
  by (induction k sv es rule: replay.induct) auto

definition trail_agrees :: "service \<Rightarrow> bool" where
  "trail_agrees s \<longleftrightarrow> audited s
     \<and> (\<forall>ev \<in> set (trail s). has_key (by_id s) (subject_id ev))
     \<and> (\<forall>k src. get (by_id s) k = Some src \<longrightarrow>
          replay k (Discovered, 1) (trail s) = Some (state src, version src))"

lemma trail_step: "trail_agrees s \<Longrightarrow> trail_agrees (src_step s e)"
proof (cases e)
  case (Discover src now)
  assume agree: "trail_agrees s"
  show ?thesis unfolding Discover
  proof (cases rule: discover_cases [of s src now])
    case (unchanged e)
    with agree show "trail_agrees (src_step s (Discover src now))" by simp
  next
    case added
    then have "\<forall>ev \<in> set (trail s). subject_id ev \<noteq> source_id src"
      using agree by (auto simp: trail_agrees_def)
    then have "replay (source_id src) (Discovered, 1) (trail s) = Some (Discovered, 1)"
      by (rule replay_other)
    with added agree show "trail_agrees (src_step s (Discover src now))"
      by (auto simp: trail_agrees_def has_key_def)
  qed
next
  case (Transition sid t a r eid now)
  assume agree: "trail_agrees s"
  show ?thesis unfolding Transition
    by (cases rule: transition_cases [of s sid t a r eid now])
       (use agree in \<open>auto simp: trail_agrees_def replay_append has_key_def\<close>)
qed

interpretation src_trail: event_system src_step trail_agrees
  by unfold_locales (rule trail_step)

lemma trail_agrees_new [simp]: "trail_agrees (new_service True)"
  by (simp add: trail_agrees_def new_service_def)

text \<open>A replay that enters a set of states records the event that crosses into it.\<close>

lemma replay_crosses:
  "replay k (st, v) es = Some (st', v') \<Longrightarrow> st \<notin> S \<Longrightarrow> st' \<in> S
   \<Longrightarrow> \<exists>ev \<in> set es. subject_id ev = k \<and> from_state ev \<notin> S \<and> to_state ev \<in> S
         \<and> to_state ev \<in> set (transitions (from_state ev))"
proof (induction es arbitrary: st v)
  case (Cons ev es)
  show ?case
  proof (cases "subject_id ev = k")
    case True
    with Cons.prems have step: "from_state ev = st" "to_state ev \<in> set (transitions st)"
      "replay k (to_state ev, v + 1) es = Some (st', v')"
      by (auto split: if_splits)
    show ?thesis
    proof (cases "to_state ev \<in> S")
      case True
      with step Cons.prems \<open>subject_id ev = k\<close> show ?thesis by auto
    next
      case False
      with step Cons.IH [of "to_state ev" "v + 1"] Cons.prems show ?thesis by auto
    qed
  next
    case False
    with Cons show ?thesis by auto
  qed
qed simp

definition event_between :: "string \<Rightarrow> src_state \<Rightarrow> src_state \<Rightarrow> audit_event list \<Rightarrow> bool" where
  "event_between k a b es \<longleftrightarrow>
     (\<exists>ev \<in> set es. subject_id ev = k \<and> from_state ev = a \<and> to_state ev = b)"

lemma replay_crosses_at:
  assumes "replay k (st, v) es = Some (st', v')" and "st \<notin> S" and "st' \<in> S"
    and "\<And>x y. x \<notin> S \<Longrightarrow> y \<in> S \<Longrightarrow> y \<in> set (transitions x) \<Longrightarrow> x = a \<and> y = b"
  shows "event_between k a b es"
  using replay_crosses [OF assms(1-3)] assms(4) unfolding event_between_def by blast

lemma replay_operational:
  assumes "replay k (Discovered, v) es = Some (Operational, v')"
  shows "event_between k Discovered AccessRequested es
    \<and> event_between k AccessRequested SampleAcquired es
    \<and> event_between k SampleAcquired Validated es
    \<and> event_between k Validated Authorized es
    \<and> event_between k Authorized Operational es"
proof (intro conjI)
  show "event_between k Discovered AccessRequested es"
    by (rule replay_crosses_at [OF assms, of "- {Unset, Discovered, Quarantined}"])
       (auto simp: transitions_def split: src_state.splits)
  show "event_between k AccessRequested SampleAcquired es"
    by (rule replay_crosses_at [OF assms, of "{SampleAcquired, Validated, Authorized, Operational, Suspended, Retired}"])
       (auto simp: transitions_def split: src_state.splits)
  show "event_between k SampleAcquired Validated es"
    by (rule replay_crosses_at [OF assms, of "{Validated, Authorized, Operational, Suspended, Retired}"])
       (auto simp: transitions_def split: src_state.splits)
  show "event_between k Validated Authorized es"
    by (rule replay_crosses_at [OF assms, of "{Authorized, Operational, Suspended, Retired}"])
       (auto simp: transitions_def split: src_state.splits)
  show "event_between k Authorized Operational es"
    by (rule replay_crosses_at [OF assms, of "{Operational, Suspended, Retired}"])
       (auto simp: transitions_def split: src_state.splits)
qed

lemma list_sources_order:
  assumes "good_service s" and "mset (by_id s) = mset (by_id s')"
  shows "list_sources s' = list_sources s"
proof -
  have "good_source k src" if "(k, src) \<in> set (by_id s)" for k src
    using that assms(1) by (auto simp: good_service_def get_iff_mem)
  then have ids: "map source_id (map snd (by_id s)) = map fst (by_id s)"
    by (auto simp: good_source_def)
  then have "inj_on source_id (set (map snd (by_id s)))"
    using assms(1) by (metis distinct_map good_service_def wf_map_def)
  then show ?thesis
    unfolding list_sources_def using assms(2)
    by (intro sort_key_inj_key_eq [symmetric])
       (metis mset_map mset_sort, simp_all)
qed

section \<open>Properties\<close>

text \<open>In every state the service reaches with an auditor, each source's state and
  version are what replaying the audit trail from DISCOVERED at version 1 gives, every
  recorded step being legal.\<close>

theorem src_audit_complete:
  assumes "get (by_id (run src_step (new_service True) es)) k = Some src"
  shows "replay k (Discovered, 1) (trail (run src_step (new_service True) es))
           = Some (state src, version src)"
  using src_trail.inv_run [OF trail_agrees_new, of es] assms by (simp add: trail_agrees_def)

definition demo_source :: source where
  "demo_source = \<lparr>source_id = ''imd'', government_owner = ''IMD'', official_domain = ''imd.gov.in'',
     state = Unset, version = 0, updated_at = 0\<rparr>"

definition demo_events :: "src_event list" where
  "demo_events = [Discover demo_source 1,
     Transition ''imd'' AccessRequested ''op'' ''r'' ''e1'' 2,
     Transition ''imd'' SampleAcquired ''op'' ''r'' ''e2'' 3,
     Transition ''imd'' Validated ''op'' ''r'' ''e3'' 4,
     Transition ''imd'' Authorized ''op'' ''r'' ''e4'' 5,
     Transition ''imd'' Operational ''op'' ''r'' ''e5'' 6]"

definition demo_service :: service where
  "demo_service = run src_step (new_service True) demo_events"

definition operational_source :: source where
  "operational_source = demo_source\<lparr>state := Operational, version := 6, updated_at := 6\<rparr>"

lemma demo_get: "get (by_id (run src_step (new_service True) demo_events)) ''imd'' = Some operational_source"
  by code_simp

theorem src_audit_complete_witness:
  "replay ''imd'' (Discovered, 1) (trail demo_service) = Some (Operational, 6)"
  using src_audit_complete [OF demo_get]
  by (simp add: demo_service_def operational_source_def)


lemma demo_operational:
  "require_operational (run src_step (new_service True) demo_events) ''imd'' = Inr operational_source"
  by code_simp


text \<open>Retirement and quarantine are terminal: whatever discoveries and transitions
  follow, the source's record, its version included, is unchanged.\<close>

theorem src_terminal_frozen:
  assumes "get (by_id (run src_step (new_service aud) es)) k = Some src"
    and "state src \<in> {Retired, Quarantined}"
  shows "get (by_id (run src_step (new_service aud) (es @ fs))) k = Some src"
proof -
  have "good_service (run src_step (new_service aud) es)"
    by (rule src.inv_run) simp
  moreover have "frozen_as k src (run src_step (new_service aud) es)"
    using assms by (simp add: frozen_as_def)
  ultimately have "frozen_as k src (run src_step (run src_step (new_service aud) es) fs)"
    by (rule src_frozen.latched_run)
  then show ?thesis by (simp add: frozen_as_def)
qed

definition quarantine_events :: "src_event list" where
  "quarantine_events = [Discover demo_source 1, Transition ''imd'' Quarantined ''op'' ''r'' ''e1'' 2]"

lemma demo_quarantined:
  "get (by_id (run src_step (new_service False) quarantine_events)) ''imd''
     = Some (demo_source\<lparr>state := Quarantined, version := 2, updated_at := 2\<rparr>)"
  by code_simp

theorem src_terminal_frozen_witness:
  "get (by_id (run src_step (new_service False)
      (quarantine_events @ [Transition ''imd'' Operational ''op'' ''r'' ''e2'' 3]))) ''imd''
     = Some (demo_source\<lparr>state := Quarantined, version := 2, updated_at := 2\<rparr>)"
  by (rule src_terminal_frozen [OF demo_quarantined]) simp

text \<open>Listing returns every source once, ordered by id, and does not depend on the
  order in which the map is ranged over.\<close>

theorem src_list_deterministic:
  assumes "mset m = mset (by_id (run src_step (new_service aud) es))"
  shows "list_sources (run src_step (new_service aud) es\<lparr>by_id := m\<rparr>)
           = list_sources (run src_step (new_service aud) es)
    \<and> sorted (map source_id (list_sources (run src_step (new_service aud) es)))
    \<and> mset (list_sources (run src_step (new_service aud) es)) = mset (map snd m)"
proof -
  have good: "good_service (run src_step (new_service aud) es)"
    by (rule src.inv_run) simp
  have "mset (map snd (by_id (run src_step (new_service aud) es))) = mset (map snd m)"
    using assms by simp
  then show ?thesis
    using list_sources_order [OF good, of "run src_step (new_service aud) es\<lparr>by_id := m\<rparr>"] assms
    by (simp add: list_sources_def)
qed

theorem src_list_deterministic_witness:
  "map source_id (list_sources (run src_step (new_service False)
     [Discover (demo_source\<lparr>source_id := ''b''\<rparr>) 1, Discover (demo_source\<lparr>source_id := ''a''\<rparr>) 2]
       \<lparr>by_id := by_id (run src_step (new_service False)
     [Discover (demo_source\<lparr>source_id := ''b''\<rparr>) 1, Discover (demo_source\<lparr>source_id := ''a''\<rparr>) 2])\<rparr>))
   = [''a'', ''b'']"
  unfolding src_list_deterministic [OF refl, THEN conjunct1]
  by code_simp

end
