(* ===== verification/Circuit_Breaker.thy ===== *)
theory Circuit_Breaker
  imports Systems
begin

text \<open>
  The circuit breaker of the worker calls, backend/internal/orchestration/circuitbreaker.go.
  \<open>Execute\<close> holds the mutex before and after the protected call but not during it, so it
  is modelled as two atomic steps, \<open>cb_enter\<close> and \<open>cb_finish\<close>: \<open>cb_execute\<close> composes
  them for one caller, and \<open>cb_sys\<close> interleaves them for many. Each reading of the clock
  is an argument.
\<close>

section \<open>Data\<close>

datatype cb_mode = StateClosed | StateOpen | StateHalfOpen

record cb_config =
  failure_threshold :: int
  success_threshold :: int
  reset_timeout :: duration

record breaker =
  cb_name :: string
  cb_cfg :: cb_config
  cb_state :: cb_mode
  consecutive_failures :: int
  consecutive_successes :: int
  tripped_count :: "64 word"
  last_state_change :: time
  half_open_in_flight :: bool

record cb_stats_view =
  st_name :: string
  st_state :: cb_mode
  st_failures :: int
  st_successes :: int
  st_tripped :: "64 word"
  st_last_change :: time

datatype 'e exec_error = CtxErr 'e | ErrCircuitOpen | CallErr 'e

definition normal_config :: "cb_config \<Rightarrow> cb_config" where
  "normal_config c =
     \<lparr>failure_threshold = (if failure_threshold c \<le> 0 then 5 else failure_threshold c),
      success_threshold = (if success_threshold c \<le> 0 then 2 else success_threshold c),
      reset_timeout = (if reset_timeout c \<le> 0 then 10 * second else reset_timeout c)\<rparr>"

definition new_circuit_breaker :: "string \<Rightarrow> cb_config \<Rightarrow> time \<Rightarrow> breaker" where
  "new_circuit_breaker nm c now =
     \<lparr>cb_name = nm, cb_cfg = normal_config c, cb_state = StateClosed,
      consecutive_failures = 0, consecutive_successes = 0, tripped_count = 0,
      last_state_change = now, half_open_in_flight = False\<rparr>"

section \<open>Operations\<close>

definition cooled_down :: "breaker \<Rightarrow> time \<Rightarrow> bool" where
  "cooled_down b now \<longleftrightarrow> reset_timeout (cb_cfg b) \<le> time_sub now (last_state_change b)"

text \<open>The gate before the call: the new breaker and whether the call may proceed.\<close>

definition cb_enter :: "breaker \<Rightarrow> time \<Rightarrow> breaker \<times> bool" where
  "cb_enter b now =
     (if cb_state b = StateOpen \<and> \<not> cooled_down b now then (b, False)
      else
        let b1 = (if cb_state b = StateOpen
                  then b\<lparr>cb_state := StateHalfOpen, consecutive_successes := 0,
                         half_open_in_flight := False, last_state_change := now\<rparr>
                  else b)
        in if cb_state b1 = StateHalfOpen
           then if half_open_in_flight b1 then (b1, False)
                else (b1\<lparr>half_open_in_flight := True\<rparr>, True)
           else (b1, True))"

text \<open>The reconciliation after the call; \<open>failed\<close> is \<open>callErr != nil\<close>.\<close>

definition cb_finish :: "breaker \<Rightarrow> time \<Rightarrow> bool \<Rightarrow> breaker" where
  "cb_finish b now failed =
     (case cb_state b of
        StateHalfOpen \<Rightarrow>
          let b1 = b\<lparr>half_open_in_flight := False\<rparr>
          in if failed
             then b1\<lparr>cb_state := StateOpen,
                     consecutive_failures := consecutive_failures b1 + 1,
                     consecutive_successes := 0,
                     tripped_count := tripped_count b1 + 1,
                     last_state_change := now\<rparr>
             else
               let b2 = b1\<lparr>consecutive_successes := consecutive_successes b1 + 1\<rparr>
               in if success_threshold (cb_cfg b2) \<le> consecutive_successes b2
                  then b2\<lparr>cb_state := StateClosed, consecutive_failures := 0,
                          consecutive_successes := 0, last_state_change := now\<rparr>
                  else b2
      | StateClosed \<Rightarrow>
          if failed
          then let b1 = b\<lparr>consecutive_failures := consecutive_failures b + 1\<rparr>
               in if failure_threshold (cb_cfg b1) \<le> consecutive_failures b1
                  then b1\<lparr>cb_state := StateOpen, tripped_count := tripped_count b1 + 1,
                          last_state_change := now\<rparr>
                  else b1
          else b\<lparr>consecutive_failures := 0\<rparr>
      | StateOpen \<Rightarrow> b)"

definition cb_execute ::
  "breaker \<Rightarrow> 'e option \<Rightarrow> time \<Rightarrow> 'e option \<Rightarrow> time \<Rightarrow> breaker \<times> 'e exec_error option"
where
  "cb_execute b ctx_err now1 call_err now2 =
     (case ctx_err of
        Some e \<Rightarrow> (b, Some (CtxErr e))
      | None \<Rightarrow>
          (case cb_enter b now1 of
             (b1, False) \<Rightarrow> (b1, Some ErrCircuitOpen)
           | (b1, True) \<Rightarrow>
               (cb_finish b1 now2 (call_err \<noteq> None),
                (case call_err of None \<Rightarrow> None | Some e \<Rightarrow> Some (CallErr e)))))"

definition cb_state_now :: "breaker \<Rightarrow> time \<Rightarrow> cb_mode" where
  "cb_state_now b now =
     (if cb_state b = StateOpen \<and> cooled_down b now then StateHalfOpen else cb_state b)"

definition cb_stats :: "breaker \<Rightarrow> time \<Rightarrow> cb_stats_view" where
  "cb_stats b now =
     \<lparr>st_name = cb_name b, st_state = cb_state_now b now,
      st_failures = consecutive_failures b, st_successes = consecutive_successes b,
      st_tripped = tripped_count b, st_last_change = last_state_change b\<rparr>"

definition cb_reset :: "breaker \<Rightarrow> time \<Rightarrow> breaker" where
  "cb_reset b now =
     b\<lparr>cb_state := StateClosed, consecutive_failures := 0, consecutive_successes := 0,
       half_open_in_flight := False, last_state_change := now\<rparr>"

declare cb_enter_def [step_defs] cb_finish_def [step_defs] cb_reset_def [step_defs]
  Let_def [step_defs]

section \<open>Well-formed breakers\<close>

definition good_cfg :: "cb_config \<Rightarrow> bool" where
  "good_cfg c \<longleftrightarrow> 0 < failure_threshold c \<and> 0 < success_threshold c \<and> 0 < reset_timeout c"

definition good_breaker :: "breaker \<Rightarrow> bool" where
  "good_breaker b \<longleftrightarrow> good_cfg (cb_cfg b) \<and> 0 \<le> consecutive_failures b \<and> 0 \<le> consecutive_successes b
     \<and> (cb_state b = StateClosed \<longrightarrow> consecutive_failures b < failure_threshold (cb_cfg b))
     \<and> (cb_state b = StateHalfOpen \<longrightarrow> consecutive_successes b < success_threshold (cb_cfg b))
     \<and> (half_open_in_flight b \<longrightarrow> cb_state b = StateHalfOpen)"

lemma good_normal_config [simp]: "good_cfg (normal_config c)"
  by (simp add: good_cfg_def normal_config_def second_def)

lemma good_new_breaker [simp]: "good_breaker (new_circuit_breaker nm c now)"
  using good_normal_config [of c] unfolding good_breaker_def new_circuit_breaker_def good_cfg_def by simp

lemma good_enter: "good_breaker b \<Longrightarrow> good_breaker (fst (cb_enter b now))"
  by (cases "cb_state b") (auto simp: good_breaker_def step_defs good_cfg_def)

lemma good_finish: "good_breaker b \<Longrightarrow> good_breaker (cb_finish b now failed)"
  by (cases "cb_state b") (auto simp: good_breaker_def step_defs good_cfg_def)

lemma good_reset: "good_breaker b \<Longrightarrow> good_breaker (cb_reset b now)"
  by (auto simp: good_breaker_def step_defs good_cfg_def)

section \<open>One caller at a time\<close>

text \<open>A call: the clock at the gate, whether it fails, the clock after it.\<close>

type_synonym call = "time \<times> bool \<times> time"

fun cb_call :: "breaker \<Rightarrow> call \<Rightarrow> breaker" where
  "cb_call b (now1, failed, now2) =
     fst (cb_execute b None now1 (if failed then Some () else None) now2)"

lemma cb_call_unfold:
  "cb_call b (now1, failed, now2) =
     (if snd (cb_enter b now1) then cb_finish (fst (cb_enter b now1)) now2 failed
      else fst (cb_enter b now1))"
  by (auto simp: cb_execute_def split: prod.splits bool.splits)

lemma good_call: "good_breaker b \<Longrightarrow> good_breaker (cb_call b c)"
  by (cases c) (auto simp: cb_call_unfold good_enter good_finish simp del: cb_call.simps)

interpretation breaker: event_system cb_call good_breaker
  by unfold_locales (rule good_call)

text \<open>The failures at the end of a sequence of outcomes.\<close>

definition trailing_failures :: "call list \<Rightarrow> nat" where
  "trailing_failures cs = length (takeWhile (\<lambda>(_, failed, _). failed) (rev cs))"

lemma trailing_snoc [simp]:
  "trailing_failures (cs @ [(t, failed, u)]) = (if failed then Suc (trailing_failures cs) else 0)"
  by (simp add: trailing_failures_def)

lemma trailing_Nil [simp]: "trailing_failures [] = 0"
  by (simp add: trailing_failures_def)

lemma closed_call:
  assumes "cb_state b = StateClosed"
  shows "cb_call b (t, failed, u) =
    (if \<not> failed then b\<lparr>consecutive_failures := 0\<rparr>
     else if failure_threshold (cb_cfg b) \<le> consecutive_failures b + 1
     then b\<lparr>consecutive_failures := consecutive_failures b + 1, cb_state := StateOpen,
            tripped_count := tripped_count b + 1, last_state_change := u\<rparr>
     else b\<lparr>consecutive_failures := consecutive_failures b + 1\<rparr>)"
  using assms by (simp add: cb_call_unfold step_defs del: cb_call.simps)

lemma cfg_enter [simp]: "cb_cfg (fst (cb_enter b t)) = cb_cfg b"
  by (simp add: step_defs)

lemma cfg_finish [simp]: "cb_cfg (cb_finish b t f) = cb_cfg b"
  by (simp add: step_defs split: cb_mode.split)

lemma cfg_call [simp]: "cb_cfg (cb_call b c) = cb_cfg b"
  by (cases c) (simp add: cb_call_unfold del: cb_call.simps)

lemma cfg_run [simp]: "cb_cfg (run cb_call b cs) = cb_cfg b"
  by (induction cs arbitrary: b) (simp_all del: cb_call.simps)

lemma closed_run:
  assumes "cb_state b = StateClosed" and "consecutive_failures b = 0"
    and "\<forall>n \<le> length cs. int (trailing_failures (take n cs)) < failure_threshold (cb_cfg b)"
  shows "cb_state (run cb_call b cs) = StateClosed
    \<and> consecutive_failures (run cb_call b cs) = int (trailing_failures cs)
    \<and> tripped_count (run cb_call b cs) = tripped_count b"
  using assms(3)
proof (induction cs rule: rev_induct)
  case Nil
  with assms show ?case by simp
next
  case (snoc c cs)
  obtain t failed u where c: "c = (t, failed, u)" by (cases c)
  have "\<forall>n \<le> length cs. int (trailing_failures (take n cs)) < failure_threshold (cb_cfg b)"
    using snoc.prems by (metis butlast_snoc le_SucI length_append_singleton take_append take_butlast
        diff_is_0_eq take0 append_Nil2)
  with snoc.IH have IH: "cb_state (run cb_call b cs) = StateClosed"
    "consecutive_failures (run cb_call b cs) = int (trailing_failures cs)"
    "tripped_count (run cb_call b cs) = tripped_count b" by auto
  have "int (trailing_failures (cs @ [c])) < failure_threshold (cb_cfg b)"
    using snoc.prems [rule_format, of "length (cs @ [c])"] by simp
  with IH c show ?case by (auto simp: closed_call simp del: cb_call.simps split: if_splits)
qed

lemma open_run:
  assumes "cb_state b = StateOpen" and "\<forall>(t, f, u) \<in> set cs. \<not> cooled_down b t"
  shows "run cb_call b cs = b"
  using assms(2)
proof (induction cs)
  case (Cons c cs)
  obtain t f u where "c = (t, f, u)" by (cases c)
  with Cons assms(1) show ?case
    by (simp add: cb_call_unfold cb_enter_def del: cb_call.simps)
qed simp

lemma half_open_call:
  assumes "cb_state b = StateHalfOpen" and "\<not> half_open_in_flight b"
  shows "cb_call b (t, False, u) =
    (if success_threshold (cb_cfg b) \<le> consecutive_successes b + 1
     then b\<lparr>half_open_in_flight := False, consecutive_successes := 0, cb_state := StateClosed,
            consecutive_failures := 0, last_state_change := u\<rparr>
     else b\<lparr>half_open_in_flight := False, consecutive_successes := consecutive_successes b + 1\<rparr>)"
  using assms by (simp add: cb_call_unfold step_defs del: cb_call.simps)

lemma half_open_run:
  assumes "cb_state b = StateHalfOpen" and "\<not> half_open_in_flight b"
    and "\<forall>(t, f, u) \<in> set cs. \<not> f"
    and "consecutive_successes b + int (length cs) \<le> success_threshold (cb_cfg b)"
    and "consecutive_successes b < success_threshold (cb_cfg b)"
  shows "cb_state (run cb_call b cs) =
           (if consecutive_successes b + int (length cs) = success_threshold (cb_cfg b)
            then StateClosed else StateHalfOpen)
    \<and> \<not> half_open_in_flight (run cb_call b cs)
    \<and> tripped_count (run cb_call b cs) = tripped_count b
    \<and> (consecutive_successes b + int (length cs) = success_threshold (cb_cfg b)
         \<longrightarrow> consecutive_failures (run cb_call b cs) = 0)"
  using assms
proof (induction cs arbitrary: b)
  case (Cons c cs)
  obtain t u where c: "c = (t, False, u)" using Cons.prems by (cases c) auto
  show ?case
  proof (cases "success_threshold (cb_cfg b) \<le> consecutive_successes b + 1")
    case True
    with Cons.prems(4) have "int (length (c # cs)) \<le> 1" by linarith
    then have "cs = []" by simp
    with True c Cons.prems show ?thesis
      using half_open_call [OF Cons.prems(1,2), of t u] by (simp del: cb_call.simps)
  next
    case False
    have b': "cb_call b c = b\<lparr>half_open_in_flight := False,
        consecutive_successes := consecutive_successes b + 1\<rparr>"
      using False half_open_call [OF Cons.prems(1,2), of t u] c by (simp del: cb_call.simps)
    have "cb_state (cb_call b c) = StateHalfOpen" "\<not> half_open_in_flight (cb_call b c)"
      "consecutive_successes (cb_call b c) = consecutive_successes b + 1"
      "tripped_count (cb_call b c) = tripped_count b"
      using b' Cons.prems(1) by (simp_all del: cb_call.simps)
    moreover have "\<forall>(t, f, u) \<in> set cs. \<not> f" using Cons.prems by simp
    ultimately show ?thesis
      using Cons.IH [of "cb_call b c"] Cons.prems False
      by (simp add: add.assoc algebra_simps del: cb_call.simps)
  qed
qed simp

lemma cooled_call:
  assumes "cb_state b = StateOpen" and "cooled_down b t"
  shows "cb_call b (t, f, u) =
    cb_call (b\<lparr>cb_state := StateHalfOpen, consecutive_successes := 0,
       half_open_in_flight := False, last_state_change := t\<rparr>) (t, f, u)"
  using assms by (simp add: cb_call_unfold cb_enter_def Let_def del: cb_call.simps)

section \<open>Many callers\<close>

text \<open>
  Calls that overlap: \<open>normals\<close> counts the running calls that were admitted in CLOSED,
  \<open>probes\<close> those admitted in HALF_OPEN. Every atomic step belongs to some caller.
\<close>

record cb_sys =
  brk :: breaker
  normals :: nat
  probes :: nat

datatype cb_event = Enter time | FinishNormal time bool | FinishProbe time bool | Reset time

fun cb_sys_step :: "cb_sys \<Rightarrow> cb_event \<Rightarrow> cb_sys" where
  "cb_sys_step s (Enter now) =
     (let (b, admitted) = cb_enter (brk s) now
      in s\<lparr>brk := b,
           normals := (if admitted \<and> cb_state b = StateClosed then Suc (normals s) else normals s),
           probes := (if admitted \<and> cb_state b \<noteq> StateClosed then Suc (probes s) else probes s)\<rparr>)"
| "cb_sys_step s (FinishNormal now failed) =
     (if normals s = 0 then s
      else s\<lparr>brk := cb_finish (brk s) now failed, normals := normals s - 1\<rparr>)"
| "cb_sys_step s (FinishProbe now failed) =
     (if probes s = 0 then s
      else s\<lparr>brk := cb_finish (brk s) now failed, probes := probes s - 1\<rparr>)"
| "cb_sys_step s (Reset now) = s\<lparr>brk := cb_reset (brk s) now\<rparr>"

definition cb_sys_init :: "string \<Rightarrow> cb_config \<Rightarrow> time \<Rightarrow> cb_sys" where
  "cb_sys_init nm c now = \<lparr>brk = new_circuit_breaker nm c now, normals = 0, probes = 0\<rparr>"

definition good_cb_sys :: "cb_sys \<Rightarrow> bool" where
  "good_cb_sys s \<longleftrightarrow> good_breaker (brk s) \<and> (half_open_in_flight (brk s) \<longrightarrow> 0 < probes s)"

lemma not_in_flight_finish: "good_breaker b \<Longrightarrow> \<not> half_open_in_flight (cb_finish b now f)"
  by (cases "cb_state b") (auto simp: good_breaker_def step_defs)

lemma good_cb_sys_step: "good_cb_sys s \<Longrightarrow> good_cb_sys (cb_sys_step s e)"
proof (cases e)
  case (Enter now)
  assume "good_cb_sys s"
  then show ?thesis
    using good_enter [of "brk s" now] unfolding Enter
    by (auto simp: good_cb_sys_def cb_enter_def Let_def good_breaker_def split: if_splits)
qed (auto simp: good_cb_sys_def good_finish good_reset not_in_flight_finish,
     auto simp: cb_reset_def)

interpretation cb_sys: event_system cb_sys_step good_cb_sys
  by unfold_locales (rule good_cb_sys_step)

lemma good_cb_sys_init [simp]: "good_cb_sys (cb_sys_init nm c now)"
  by (simp add: good_cb_sys_def cb_sys_init_def) (simp add: new_circuit_breaker_def)

section \<open>Properties\<close>

text \<open>Called by one caller, a new breaker stays CLOSED and never trips as long as no
  FailureThreshold failures come in a row, and its counter is the length of the current
  row; the call that completes the row opens it, trips it once and stamps the instant.\<close>

theorem cb_opens_exactly_at_threshold:
  assumes "\<forall>n \<le> length cs. int (trailing_failures (take n cs)) < failure_threshold (normal_config c)"
  shows "cb_state (run cb_call (new_circuit_breaker nm c now) cs) = StateClosed
    \<and> consecutive_failures (run cb_call (new_circuit_breaker nm c now) cs) = int (trailing_failures cs)
    \<and> tripped_count (run cb_call (new_circuit_breaker nm c now) cs) = 0
    \<and> (let b = cb_call (run cb_call (new_circuit_breaker nm c now) cs) (t, True, u)
        in cb_state b = (if int (trailing_failures cs) + 1 = failure_threshold (normal_config c)
                         then StateOpen else StateClosed)
         \<and> (cb_state b = StateOpen \<longrightarrow> tripped_count b = 1 \<and> last_state_change b = u))"
proof -
  let ?b = "run cb_call (new_circuit_breaker nm c now) cs"
  have closed: "cb_state ?b = StateClosed \<and> consecutive_failures ?b = int (trailing_failures cs)
      \<and> tripped_count ?b = tripped_count (new_circuit_breaker nm c now)"
    by (rule closed_run) (use assms in \<open>simp_all add: new_circuit_breaker_def\<close>)
  moreover have "int (trailing_failures cs) < failure_threshold (cb_cfg ?b)"
    using assms [rule_format, of "length cs"] by (simp add: new_circuit_breaker_def)
  moreover have "cb_cfg ?b = normal_config c" "tripped_count (new_circuit_breaker nm c now) = 0"
    by (simp_all add: new_circuit_breaker_def)
  ultimately show ?thesis
    by (auto simp: closed_call Let_def simp del: cb_call.simps)
qed

definition demo_cfg :: cb_config where
  "demo_cfg = \<lparr>failure_threshold = 2, success_threshold = 2, reset_timeout = 10\<rparr>"

theorem cb_opens_exactly_at_threshold_witness:
  "cb_state (cb_call (run cb_call (new_circuit_breaker ''asr'' demo_cfg 0)
     [(1, True, 2), (3, False, 4), (5, True, 6)]) (7, True, 8)) = StateOpen"
proof -
  have h: "\<forall>n \<le> length [(1, True, 2), (3, False, 4), (5, True, 6::int)].
      int (trailing_failures (take n [(1::int, True, 2), (3, False, 4), (5, True, 6)]))
        < failure_threshold (normal_config demo_cfg)"
    by (auto simp: le_Suc_eq numeral_eq_Suc trailing_failures_def normal_config_def demo_cfg_def)
  show ?thesis
    using cb_opens_exactly_at_threshold [OF h, of "''asr''" 0 7 8]
    by (simp add: Let_def trailing_failures_def normal_config_def demo_cfg_def del: cb_call.simps)
qed

text \<open>An OPEN breaker fails fast: until ResetTimeout has passed since it opened, every
  call is refused with ErrCircuitOpen without running, and the breaker does not change.\<close>

theorem cb_open_fails_fast:
  assumes "good_breaker b" and "cb_state b = StateOpen"
    and "last_state_change b \<le> t" and "t < last_state_change b + reset_timeout (cb_cfg b)"
    and "reset_timeout (cb_cfg b) \<le> max_duration"
  shows "cb_execute b None t call_err u = (b, Some ErrCircuitOpen)"
proof -
  have "\<not> cooled_down b t"
    using assms time_sub_ge_iff [of "reset_timeout (cb_cfg b)" t "last_state_change b"]
    by (simp add: cooled_down_def good_breaker_def good_cfg_def min_duration_def)
  with assms(2) show ?thesis by (simp add: cb_execute_def cb_enter_def)
qed

theorem cb_open_fails_fast_witness:
  "cb_execute (run cb_call (new_circuit_breaker ''asr'' demo_cfg 0) [(1, True, 2), (3, True, 4)])
     None 13 (Some ''boom'') 14
   = (run cb_call (new_circuit_breaker ''asr'' demo_cfg 0) [(1, True, 2), (3, True, 4)],
      Some ErrCircuitOpen)"
proof (rule cb_open_fails_fast)
  let ?b = "run cb_call (new_circuit_breaker ''asr'' demo_cfg 0) [(1, True, 2), (3, True, 4)]"
  show "good_breaker ?b" by (rule breaker.inv_run) simp
  show "cb_state ?b = StateOpen" by code_simp
  show "last_state_change ?b \<le> 13" by code_simp
  show "13 < last_state_change ?b + reset_timeout (cb_cfg ?b)" by code_simp
  show "reset_timeout (cb_cfg ?b) \<le> max_duration" by code_simp
qed

text \<open>A cooled-down breaker closes after exactly SuccessThreshold successful probes in a
  row: fewer leave it HALF_OPEN, ready for the next probe, and closing clears the failures.\<close>

theorem cb_recovers:
  assumes "good_breaker b" and "cb_state b = StateOpen" and "cooled_down b t"
    and "\<forall>(t, f, u) \<in> set cs. \<not> f"
    and "1 + int (length cs) \<le> success_threshold (cb_cfg b)"
  shows "cb_state (run cb_call b ((t, False, u) # cs)) =
           (if 1 + int (length cs) = success_threshold (cb_cfg b) then StateClosed else StateHalfOpen)
    \<and> \<not> half_open_in_flight (run cb_call b ((t, False, u) # cs))
    \<and> (1 + int (length cs) = success_threshold (cb_cfg b)
        \<longrightarrow> consecutive_failures (run cb_call b ((t, False, u) # cs)) = 0)"
proof -
  let ?h = "b\<lparr>cb_state := StateHalfOpen, consecutive_successes := 0,
       half_open_in_flight := False, last_state_change := t\<rparr>"
  have "run cb_call b ((t, False, u) # cs) = run cb_call ?h ((t, False, u) # cs)"
    using cooled_call [OF assms(2,3), of False u] by (simp del: cb_call.simps)
  moreover have "0 < success_threshold (cb_cfg b)"
    using assms(1) by (simp add: good_breaker_def good_cfg_def)
  ultimately show ?thesis
    using half_open_run [of ?h "(t, False, u) # cs"] assms(4,5) by (simp del: cb_call.simps run_Cons)
qed

theorem cb_recovers_witness:
  "cb_state (run cb_call (run cb_call (new_circuit_breaker ''asr'' demo_cfg 0)
     [(1, True, 2), (3, True, 4)]) [(14, False, 15), (16, False, 17)]) = StateClosed"
proof -
  let ?b = "run cb_call (new_circuit_breaker ''asr'' demo_cfg 0) [(1, True, 2), (3, True, 4)]"
  have g: "good_breaker ?b" by (rule breaker.inv_run) simp
  have o: "cb_state ?b = StateOpen" by code_simp
  have c: "cooled_down ?b 14" by code_simp
  have n: "1 + int (length [(16::int, False, 17::int)]) \<le> success_threshold (cb_cfg ?b)" by code_simp
  have e: "1 + int (length [(16::int, False, 17::int)]) = success_threshold (cb_cfg ?b)" by code_simp
  show ?thesis using cb_recovers [OF g o c _ n, of 15] e by (simp del: cb_call.simps run_Cons)
qed

text \<open>However calls overlap, the breaker never wedges while its calls return: whenever
  it is HALF_OPEN with the probe slot taken, some admitted probe is still running, and the
  end of any running call frees the slot or leaves HALF_OPEN.\<close>

theorem cb_slot_has_owner:
  shows "let s = run cb_sys_step (cb_sys_init nm c now) es
         in (half_open_in_flight (brk s) \<longrightarrow> cb_state (brk s) = StateHalfOpen \<and> 0 < probes s)
          \<and> \<not> half_open_in_flight (cb_finish (brk s) t f)"
proof -
  have "good_cb_sys (run cb_sys_step (cb_sys_init nm c now) es)"
    by (rule cb_sys.inv_run) simp
  then show ?thesis
    by (auto simp: good_cb_sys_def Let_def not_in_flight_finish) (simp add: good_breaker_def)
qed

theorem cb_slot_has_owner_witness:
  "let s = run cb_sys_step (cb_sys_init ''asr'' demo_cfg 0)
       [Enter 1, FinishNormal 2 True, Enter 3, FinishNormal 4 True, Enter 20]
   in half_open_in_flight (brk s) \<and> 0 < probes s"
proof -
  let ?es = "[Enter 1, FinishNormal 2 True, Enter 3, FinishNormal 4 True, Enter 20]"
  have h: "half_open_in_flight (brk (run cb_sys_step (cb_sys_init ''asr'' demo_cfg 0) ?es))"
    by code_simp
  show ?thesis
    using cb_slot_has_owner [of "''asr''" demo_cfg 0 ?es 0 False] h unfolding Let_def by blast
qed

definition overlap_events :: "cb_event list" where
  "overlap_events =
     [Enter 1, Enter 1, Enter 1, FinishNormal 2 True, FinishNormal 3 True,
      Enter 20, FinishNormal 21 False, Enter 22]"

text \<open>The documented invariant that HALF_OPEN admits a single concurrent probe does not
  hold: a call admitted in CLOSED that returns while a probe runs clears the probe's slot,
  and a second probe is admitted beside the first.\<close>

theorem cb_two_probes_reachable:
  "probes (run cb_sys_step (cb_sys_init ''asr'' demo_cfg 0) overlap_events) = 2
   \<and> cb_state (brk (run cb_sys_step (cb_sys_init ''asr'' demo_cfg 0) overlap_events)) = StateHalfOpen"
  by code_simp

text \<open>A probe that never returns (its call panics or hangs) wedges the breaker: every
  later call is refused, however much time passes, until Reset.\<close>

theorem cb_lost_probe_wedges:
  assumes "cb_state b = StateHalfOpen" and "half_open_in_flight b"
  shows "run cb_call b cs = b \<and> cb_execute b None t call_err u = (b, Some ErrCircuitOpen)"
proof -
  have enter: "cb_enter b t = (b, False)" for t
    using assms by (simp add: cb_enter_def)
  then have "cb_call b c = b" for c
    by (cases c) (simp add: cb_call_unfold del: cb_call.simps)
  then have "run cb_call b cs = b"
    by (induction cs) (simp_all del: cb_call.simps)
  with enter show ?thesis by (simp add: cb_execute_def)
qed

theorem cb_lost_probe_wedges_witness:
  "let b = brk (run cb_sys_step (cb_sys_init ''asr'' demo_cfg 0)
       [Enter 1, FinishNormal 2 True, Enter 3, FinishNormal 4 True, Enter 20])
   in cb_execute b None (10 * hour) (None :: string option) (11 * hour) = (b, Some ErrCircuitOpen)"
proof -
  let ?b = "brk (run cb_sys_step (cb_sys_init ''asr'' demo_cfg 0)
       [Enter 1, FinishNormal 2 True, Enter 3, FinishNormal 4 True, Enter 20])"
  have "cb_state ?b = StateHalfOpen" "half_open_in_flight ?b" by code_simp+
  then show ?thesis unfolding Let_def by (rule cb_lost_probe_wedges [THEN conjunct2])
qed

end
