(* ===== verification/Admission_Queue.thy ===== *)
theory Admission_Queue
  imports Systems
begin

text \<open>
  The bounded admission queue, backend/internal/orchestration/admission.go. \<open>Acquire\<close>
  runs in several critical sections with a watcher goroutine beside it, so the model is a
  component whose events are the atomic steps of the goroutines: the arrival (fast path,
  saturation or registration), one turn of the waiting loop, the return on a cancelled
  context, the two branches of the watcher's select, the release, and the cancellation of
  a context by its owner. An event that is not enabled changes nothing.
\<close>

section \<open>State\<close>

type_synonym pid = nat

text \<open>
  Where a call of Acquire stands: not started, in the waiting loop, parked on the
  condition variable, returned with a slot, returned without one (or slot released). The
  channel stopWatcher is closed exactly when the call has returned.
\<close>

datatype pc = Fresh | Looping | Parked | Holding | Finished

datatype watcher = NoWatcher | Watching | WatcherDone

record queue =
  q_name :: string
  q_max :: int
  q_depth :: int
  in_flight :: int
  waiters :: int
  rejections :: "64 word"
  admissions :: "64 word"
  current_waiters :: "pid list"
  pcs :: "pid \<Rightarrow> pc"
  watchers :: "pid \<Rightarrow> watcher"
  cancelled :: "pid \<Rightarrow> bool"

record queue_stats =
  qs_name :: string
  qs_in_flight :: int
  qs_waiters :: int
  qs_max_inflight :: int
  qs_max_queue_depth :: int
  qs_rejections :: "64 word"

definition new_bounded_queue :: "string \<Rightarrow> int \<Rightarrow> int \<Rightarrow> msg + queue" where
  "new_bounded_queue nm mx depth =
     (if mx \<le> 0 then Inl (plain ''orchestration: max inflight must be > 0'')
      else if depth < 0 then Inl (plain ''orchestration: queue depth must be >= 0'')
      else Inr \<lparr>q_name = nm, q_max = mx, q_depth = depth, in_flight = 0, waiters = 0,
                rejections = 0, admissions = 0, current_waiters = [],
                pcs = (\<lambda>_. Fresh), watchers = (\<lambda>_. NoWatcher), cancelled = (\<lambda>_. False)\<rparr>)"

definition queue_stats_of :: "queue \<Rightarrow> queue_stats" where
  "queue_stats_of q =
     \<lparr>qs_name = q_name q, qs_in_flight = in_flight q, qs_waiters = waiters q,
      qs_max_inflight = q_max q, qs_max_queue_depth = q_depth q, qs_rejections = rejections q\<rparr>"

section \<open>Steps\<close>

definition set_pc :: "pid \<Rightarrow> pc \<Rightarrow> queue \<Rightarrow> queue" where
  "set_pc p x q = q\<lparr>pcs := (pcs q)(p := x)\<rparr>"

text \<open>Taking a slot, leaving the waiters, and the two wake-ups of the condition variable.\<close>

definition take_slot :: "pid \<Rightarrow> queue \<Rightarrow> queue" where
  "take_slot p q = set_pc p Holding
     (q\<lparr>in_flight := in_flight q + 1, admissions := admissions q + 1\<rparr>)"

definition leave_waiters :: "pid \<Rightarrow> queue \<Rightarrow> queue" where
  "leave_waiters p q =
     q\<lparr>current_waiters := removeAll p (current_waiters q),
       waiters := (if 0 < waiters q then waiters q - 1 else waiters q)\<rparr>"

definition wake_all :: "queue \<Rightarrow> queue" where
  "wake_all q = q\<lparr>pcs := (\<lambda>p. if pcs q p = Parked then Looping else pcs q p)\<rparr>"

text \<open>The start of Acquire up to the registration as a waiter.\<close>

definition arrive :: "pid \<Rightarrow> queue \<Rightarrow> queue" where
  "arrive p q =
     (if pcs q p \<noteq> Fresh then q
      else if cancelled q p then set_pc p Finished q
      else if in_flight q < q_max q then take_slot p q
      else if q_depth q \<le> waiters q then set_pc p Finished (q\<lparr>rejections := rejections q + 1\<rparr>)
      else set_pc p Looping
             (q\<lparr>waiters := waiters q + 1, current_waiters := p # current_waiters q,
                watchers := (watchers q)(p := Watching)\<rparr>))"

text \<open>The watcher's select: ctx.Done, or stopWatcher; either may be chosen when both are ready.\<close>

definition watcher_cancel :: "pid \<Rightarrow> queue \<Rightarrow> queue" where
  "watcher_cancel p q =
     (if watchers q p = Watching \<and> cancelled q p
      then wake_all
             ((if p \<in> set (current_waiters q) then leave_waiters p q else q)
                \<lparr>watchers := (watchers q)(p := WatcherDone)\<rparr>)
      else q)"

definition watcher_stop :: "pid \<Rightarrow> queue \<Rightarrow> queue" where
  "watcher_stop p q =
     (if watchers q p = Watching \<and> pcs q p \<in> {Holding, Finished}
      then q\<lparr>watchers := (watchers q)(p := WatcherDone)\<rparr> else q)"

text \<open>The two exits of the loop head that take no lock, and the turn under the lock.\<close>

definition loop_exit :: "pid \<Rightarrow> queue \<Rightarrow> queue" where
  "loop_exit p q =
     (if pcs q p = Looping \<and> cancelled q p then set_pc p Finished q else q)"

definition loop_turn :: "pid \<Rightarrow> queue \<Rightarrow> queue" where
  "loop_turn p q =
     (if pcs q p \<noteq> Looping then q
      else if p \<notin> set (current_waiters q)
      then (if cancelled q p then set_pc p Finished q else q)
      else if in_flight q < q_max q then take_slot p (leave_waiters p q)
      else if q_depth q < waiters q
      then set_pc p Finished ((leave_waiters p q)\<lparr>rejections := rejections q + 1\<rparr>)
      else set_pc p Parked q)"

text \<open>
  The release function, effective once; \<open>woken\<close> is the parked call that Signal picks, none
  when no call is parked.
\<close>

definition signal_ok :: "queue \<Rightarrow> pid option \<Rightarrow> bool" where
  "signal_ok q woken \<longleftrightarrow>
     (case woken of
        Some w \<Rightarrow> pcs q w = Parked
      | None \<Rightarrow> filter (\<lambda>r. pcs q r = Parked) (current_waiters q) = [])"

definition release :: "pid \<Rightarrow> pid option \<Rightarrow> queue \<Rightarrow> queue" where
  "release p woken q =
     (if pcs q p \<noteq> Holding \<or> \<not> signal_ok q woken then q
      else
        let q1 = set_pc p Finished (q\<lparr>in_flight := (if 0 < in_flight q then in_flight q - 1 else in_flight q)\<rparr>)
        in (case woken of None \<Rightarrow> q1 | Some w \<Rightarrow> set_pc w Looping q1))"

datatype q_event =
  Arrive pid | Cancel pid | WatcherCancel pid | WatcherStop pid
| LoopExit pid | LoopTurn pid | Release pid "pid option"

fun q_step :: "queue \<Rightarrow> q_event \<Rightarrow> queue" where
  "q_step q (Arrive p) = arrive p q"
| "q_step q (Cancel p) = q\<lparr>cancelled := (cancelled q)(p := True)\<rparr>"
| "q_step q (WatcherCancel p) = watcher_cancel p q"
| "q_step q (WatcherStop p) = watcher_stop p q"
| "q_step q (LoopExit p) = loop_exit p q"
| "q_step q (LoopTurn p) = loop_turn p q"
| "q_step q (Release p w) = release p w q"

section \<open>The invariant\<close>

definition at_pc :: "queue \<Rightarrow> pc \<Rightarrow> pid set" where
  "at_pc q x = {p. pcs q p = x}"

definition counts_ok :: "queue \<Rightarrow> bool" where
  "counts_ok q \<longleftrightarrow> finite {p. pcs q p \<noteq> Fresh}
     \<and> 0 < q_max q \<and> 0 \<le> q_depth q
     \<and> in_flight q = int (card (at_pc q Holding)) \<and> in_flight q \<le> q_max q
     \<and> distinct (current_waiters q) \<and> waiters q = int (length (current_waiters q))
     \<and> waiters q \<le> q_depth q"

definition place_ok :: "pc \<Rightarrow> bool \<Rightarrow> bool \<Rightarrow> bool" where
  "place_ok x waits cncl \<longleftrightarrow>
     (case x of
        Fresh \<Rightarrow> \<not> waits
      | Looping \<Rightarrow> waits \<or> cncl
      | Parked \<Rightarrow> waits
      | Holding \<Rightarrow> \<not> waits
      | Finished \<Rightarrow> waits \<longrightarrow> cncl)"

definition places_ok :: "queue \<Rightarrow> bool" where
  "places_ok q \<longleftrightarrow> (\<forall>p. place_ok (pcs q p) (p \<in> set (current_waiters q)) (cancelled q p))"

definition good_queue :: "queue \<Rightarrow> bool" where
  "good_queue q \<longleftrightarrow> counts_ok q \<and> places_ok q"

declare set_pc_def [step_defs] take_slot_def [step_defs] leave_waiters_def [step_defs]
  wake_all_def [step_defs] arrive_def [step_defs] watcher_cancel_def [step_defs]
  watcher_stop_def [step_defs] loop_exit_def [step_defs] loop_turn_def [step_defs]
  release_def [step_defs] Let_def [step_defs]

lemma places_at: "places_ok q \<Longrightarrow> place_ok (pcs q p) (p \<in> set (current_waiters q)) (cancelled q p)"
  by (simp add: places_ok_def)

lemma places_move:
  assumes "places_ok q" and "place_ok (pcs q' p) (p \<in> set (current_waiters q')) (cancelled q' p)"
    and "\<And>r. r \<noteq> p \<Longrightarrow> pcs q' r = pcs q r \<and> cancelled q' r = cancelled q r
           \<and> (r \<in> set (current_waiters q') \<longleftrightarrow> r \<in> set (current_waiters q))"
  shows "places_ok q'"
  unfolding places_ok_def
proof
  fix r
  show "place_ok (pcs q' r) (r \<in> set (current_waiters q')) (cancelled q' r)"
    using assms places_at [of q r] by (cases "r = p") auto
qed

lemma places_wake: "places_ok q \<Longrightarrow> places_ok (wake_all q)"
  by (auto simp: places_ok_def wake_all_def place_ok_def split: pc.splits)

lemma places_arrive: "places_ok q \<Longrightarrow> places_ok (arrive p q)"
  using places_at [of q p]
  by (cases "pcs q p = Fresh") (auto simp: step_defs place_ok_def intro: places_move [where p = p])

lemma places_frame: "places_ok q \<Longrightarrow> places_ok (q\<lparr>watchers := w\<rparr>)"
  by (simp add: places_ok_def)

lemma places_watcher_cancel:
  assumes "places_ok q"
  shows "places_ok (watcher_cancel p q)"
proof (cases "watchers q p = Watching \<and> cancelled q p")
  case True
  let ?q = "(if p \<in> set (current_waiters q) then leave_waiters p q else q)
    \<lparr>watchers := (watchers q)(p := WatcherDone)\<rparr>"
  have "places_ok (wake_all ?q)"
    unfolding places_ok_def
  proof
    fix r
    show "place_ok (pcs (wake_all ?q) r) (r \<in> set (current_waiters (wake_all ?q)))
        (cancelled (wake_all ?q) r)"
      using True places_at [OF assms, of r]
      by (cases "r = p"; cases "pcs q r") (auto simp: wake_all_def leave_waiters_def place_ok_def)
  qed
  with True show ?thesis by (simp add: watcher_cancel_def)
next
  case False
  then show ?thesis using assms unfolding watcher_cancel_def by (simp only: if_False)
qed

lemma places_loop_exit: "places_ok q \<Longrightarrow> places_ok (loop_exit p q)"
  by (auto simp: loop_exit_def set_pc_def place_ok_def intro: places_move [where p = p])

lemma places_loop_turn: "places_ok q \<Longrightarrow> places_ok (loop_turn p q)"
  using places_at [of q p]
  by (cases "pcs q p = Looping")
     (auto simp: loop_turn_def take_slot_def leave_waiters_def set_pc_def place_ok_def
       intro: places_move [where p = p])

lemma places_release:
  assumes "places_ok q"
  shows "places_ok (release p w q)"
proof (cases "pcs q p = Holding \<and> signal_ok q w")
  case True
  let ?q = "\<lambda>i. set_pc p Finished (q\<lparr>in_flight := i\<rparr>)"
  have q: "places_ok (?q i)" for i
    using True places_at [OF assms, of p]
    by (intro places_move [OF assms, of _ p]) (auto simp: set_pc_def place_ok_def)
  have "places_ok (set_pc r Looping (?q i))" if "w = Some r" for r i
    using True that places_at [OF assms, of r]
    by (intro places_move [OF q, of _ r]) (auto simp: set_pc_def place_ok_def signal_ok_def)
  with True q show ?thesis
    by (simp add: release_def Let_def split: option.split split del: if_split)
qed (use assms in \<open>auto simp: release_def\<close>)

lemma places_cancel: "places_ok q \<Longrightarrow> places_ok (q\<lparr>cancelled := (cancelled q)(p := True)\<rparr>)"
  using places_at [of q p]
  by (rule_tac places_move [of q _ p]) (auto simp: place_ok_def split: pc.splits)

lemma places_step: "places_ok q \<Longrightarrow> places_ok (q_step q e)"
  by (cases e) (simp_all add: places_arrive places_watcher_cancel places_loop_exit
      places_loop_turn places_release places_cancel watcher_stop_def places_frame)

lemma set_pc_fields [simp]:
  "q_max (set_pc p x q) = q_max q" "q_depth (set_pc p x q) = q_depth q"
  "in_flight (set_pc p x q) = in_flight q" "waiters (set_pc p x q) = waiters q"
  "current_waiters (set_pc p x q) = current_waiters q"
  "cancelled (set_pc p x q) = cancelled q" "watchers (set_pc p x q) = watchers q"
  by (simp_all add: set_pc_def)

lemma at_pc_set_pc:
  "at_pc (set_pc p x q) y = (if x = y then insert p (at_pc q y) else at_pc q y - {p})"
  by (auto simp: at_pc_def set_pc_def)

lemma finite_at_pc: "finite {p. pcs q p \<noteq> Fresh} \<Longrightarrow> x \<noteq> Fresh \<Longrightarrow> finite (at_pc q x)"
  unfolding at_pc_def by (rule finite_subset [of _ "{p. pcs q p \<noteq> Fresh}"]) auto

text \<open>The holders of a queue after each kind of move.\<close>

lemma fresh_set_pc: "finite {p. pcs q p \<noteq> Fresh} \<Longrightarrow> finite {r. pcs (set_pc p x q) r \<noteq> Fresh}"
  by (rule finite_subset [of _ "insert p {p. pcs q p \<noteq> Fresh}"]) (auto simp: set_pc_def)

lemma counts_move:
  assumes "counts_ok q" and "pcs q p \<noteq> Holding" and "x \<noteq> Holding"
  shows "counts_ok (set_pc p x q)"
  using assms fresh_set_pc [of q p x]
  by (auto simp: counts_ok_def at_pc_set_pc) (auto simp: set_pc_def at_pc_def)

lemma counts_take:
  assumes "counts_ok q" and "pcs q p \<noteq> Holding" and "in_flight q < q_max q"
  shows "counts_ok (take_slot p q)"
proof -
  have "p \<notin> at_pc q Holding" using assms(2) by (simp add: at_pc_def)
  moreover have "finite (at_pc q Holding)"
    using assms(1) by (auto simp: counts_ok_def finite_at_pc)
  moreover have "at_pc (take_slot p q) Holding = insert p (at_pc q Holding)"
    by (auto simp: take_slot_def set_pc_def at_pc_def)
  moreover have "finite {r. pcs (take_slot p q) r \<noteq> Fresh}"
    using fresh_set_pc [of q p Holding] assms(1) by (auto simp: take_slot_def set_pc_def counts_ok_def)
  ultimately show ?thesis using assms(1,3)
    by (auto simp: counts_ok_def) (auto simp: take_slot_def set_pc_def)
qed

lemma counts_leave:
  assumes "counts_ok q" and "p \<in> set (current_waiters q)"
  shows "counts_ok (leave_waiters p q)"
proof -
  have "length (removeAll p (current_waiters q)) = length (current_waiters q) - 1"
    using assms by (simp add: counts_ok_def distinct_remove1_removeAll [symmetric] length_remove1)
  moreover have "0 < length (current_waiters q)" using assms(2) by (cases "current_waiters q") auto
  ultimately show ?thesis
    using assms by (auto simp: counts_ok_def leave_waiters_def at_pc_def distinct_removeAll of_nat_diff Suc_le_eq)
qed

lemma counts_frame:
  assumes "counts_ok q" and "q_max q' = q_max q" "q_depth q' = q_depth q" "in_flight q' = in_flight q"
    "waiters q' = waiters q" "current_waiters q' = current_waiters q"
    "{p. pcs q' p = Holding} = {p. pcs q p = Holding}" "{p. pcs q' p = Fresh} = {p. pcs q p = Fresh}"
  shows "counts_ok q'"
proof -
  have "{p. pcs q' p \<noteq> Fresh} = {p. pcs q p \<noteq> Fresh}" using assms(8) by blast
  then show ?thesis using assms by (simp add: counts_ok_def at_pc_def)
qed

lemma counts_arrive:
  assumes "counts_ok q" and "places_ok q"
  shows "counts_ok (arrive p q)"
proof (cases "pcs q p = Fresh")
  case True
  have "p \<notin> set (current_waiters q)"
    using places_at [OF assms(2), of p] True by (simp add: place_ok_def)
  then have reg: "counts_ok (q\<lparr>waiters := waiters q + 1, current_waiters := p # current_waiters q,
      watchers := (watchers q)(p := Watching)\<rparr>)" if "waiters q < q_depth q"
    using assms(1) that by (auto simp: counts_ok_def at_pc_def)
  have rej: "counts_ok (q\<lparr>rejections := rejections q + 1\<rparr>)"
    by (rule counts_frame [OF assms(1)]) auto
  show ?thesis
    using True counts_move [OF assms(1), of p Finished] counts_take [OF assms(1), of p]
      counts_move [OF rej, of p Finished] counts_move [OF reg, of p Looping]
    by (auto simp: arrive_def)
qed (use assms in \<open>simp add: arrive_def\<close>)

lemma counts_watcher_cancel: "counts_ok q \<Longrightarrow> counts_ok (watcher_cancel p q)"
proof (cases "watchers q p = Watching \<and> cancelled q p")
  case True
  assume c: "counts_ok q"
  let ?q = "if p \<in> set (current_waiters q) then leave_waiters p q else q"
  have "counts_ok ?q" using c counts_leave by simp
  then have "counts_ok (wake_all (?q\<lparr>watchers := (watchers q)(p := WatcherDone)\<rparr>))"
    by (rule counts_frame) (auto simp: wake_all_def leave_waiters_def)
  with True show ?thesis by (simp add: watcher_cancel_def)
next
  case False
  assume "counts_ok q"
  with False show ?thesis unfolding watcher_cancel_def by (simp only: if_False)
qed

lemma counts_loop_turn: "counts_ok q \<Longrightarrow> counts_ok (loop_turn p q)"
proof (cases "pcs q p = Looping \<and> p \<in> set (current_waiters q)")
  case True
  assume c: "counts_ok q"
  then have "counts_ok (leave_waiters p q)" using True counts_leave by simp
  then have "in_flight q < q_max q \<Longrightarrow> counts_ok (take_slot p (leave_waiters p q))"
    using True by (intro counts_take) (auto simp: leave_waiters_def)
  moreover have "\<not> q_depth q < waiters q" using c by (simp add: counts_ok_def)
  moreover have "counts_ok (set_pc p Parked q)" using c True by (intro counts_move) auto
  ultimately show ?thesis using True by (auto simp: loop_turn_def)
next
  case False
  assume c: "counts_ok q"
  then have "pcs q p = Looping \<Longrightarrow> counts_ok (set_pc p Finished q)"
    by (intro counts_move) auto
  with False c show ?thesis by (auto simp: loop_turn_def)
qed

lemma counts_release:
  assumes c: "counts_ok q"
  shows "counts_ok (release p w q)"
proof (cases "pcs q p = Holding \<and> signal_ok q w")
  case True
  let ?q = "set_pc p Finished (q\<lparr>in_flight := in_flight q - 1\<rparr>)"
  have fin: "finite (at_pc q Holding)" using c by (auto simp: counts_ok_def finite_at_pc)
  have "p \<in> at_pc q Holding" using True by (simp add: at_pc_def)
  with fin have "0 < card (at_pc q Holding)" by (auto simp: card_gt_0_iff)
  then have pos: "0 < in_flight q" using c by (simp add: counts_ok_def)
  have "at_pc ?q Holding = at_pc q Holding - {p}"
    by (auto simp: set_pc_def at_pc_def)
  moreover have "finite {r. pcs ?q r \<noteq> Fresh}"
    using fresh_set_pc [of q p Finished] c by (simp add: counts_ok_def set_pc_def)
  moreover have "int (card (at_pc q Holding - {p})) = int (card (at_pc q Holding)) - 1"
    using \<open>p \<in> at_pc q Holding\<close> \<open>0 < card (at_pc q Holding)\<close> fin
    by (simp add: of_nat_diff Suc_le_eq)
  ultimately have "counts_ok ?q" using c by (simp add: counts_ok_def)
  moreover from this have "counts_ok (set_pc r Looping ?q)" if "w = Some r" for r
    by (rule counts_move) (use True that in \<open>auto simp: signal_ok_def set_pc_def\<close>)
  ultimately show ?thesis using True pos
    by (simp add: release_def Let_def split: option.split)
qed (use c in \<open>auto simp: release_def\<close>)

lemma good_q_step: "good_queue q \<Longrightarrow> good_queue (q_step q e)"
proof -
  assume good: "good_queue q"
  then have "counts_ok (q_step q e)"
  proof (cases e)
    case (Cancel p)
    then show ?thesis using good unfolding good_queue_def
      by (auto intro: counts_frame [of q])
  next
    case (WatcherStop p)
    then show ?thesis using good unfolding good_queue_def
      by (auto simp: watcher_stop_def intro: counts_frame [of q])
  next
    case (LoopExit p)
    then show ?thesis using good unfolding good_queue_def
      by (auto simp: loop_exit_def intro: counts_move)
  qed (simp_all add: good_queue_def counts_arrive counts_watcher_cancel counts_loop_turn counts_release)
  with good places_step show ?thesis by (simp add: good_queue_def)
qed

interpretation adm: event_system q_step good_queue
  by unfold_locales (rule good_q_step)

lemma good_new_queue: "new_bounded_queue nm mx d = Inr q \<Longrightarrow> good_queue q"
  by (auto simp: new_bounded_queue_def good_queue_def counts_ok_def places_ok_def place_ok_def at_pc_def
      split: if_splits)

section \<open>Wake-ups without cancellation\<close>

text \<open>
  While no context is cancelled, a free slot is never left to a parked call: as many calls
  are awake in the waiting loop as there are free slots, unless nobody is parked.
\<close>

definition awake_ok :: "queue \<Rightarrow> bool" where
  "awake_ok q \<longleftrightarrow> good_queue q \<and> (\<forall>p. \<not> cancelled q p)
     \<and> (at_pc q Parked = {} \<or> q_max q - in_flight q \<le> int (card (at_pc q Looping)))"

datatype calm_event = CArrive pid | CTurn pid | CRelease pid "pid option"

fun calm :: "calm_event \<Rightarrow> q_event" where
  "calm (CArrive p) = Arrive p"
| "calm (CTurn p) = LoopTurn p"
| "calm (CRelease p w) = Release p w"

definition calm_step :: "queue \<Rightarrow> calm_event \<Rightarrow> queue" where
  "calm_step q e = q_step q (calm e)"

lemma finite_looping: "counts_ok q \<Longrightarrow> finite (at_pc q Looping)"
  by (auto simp: counts_ok_def finite_at_pc)

lemma cancelled_calm: "cancelled (calm_step q e) = cancelled q"
  by (cases e) (simp_all add: calm_step_def step_defs split: option.split)

lemma at_pc_record [simp]:
  "at_pc (q\<lparr>in_flight := i\<rparr>) x = at_pc q x" "at_pc (q\<lparr>in_flight := i, admissions := a\<rparr>) x = at_pc q x"
  "at_pc (q\<lparr>rejections := r\<rparr>) x = at_pc q x"
  "at_pc (q\<lparr>waiters := n, current_waiters := c, watchers := w\<rparr>) x = at_pc q x"
  "at_pc (leave_waiters p q) x = at_pc q x"
  by (simp_all add: at_pc_def leave_waiters_def)

lemma not_at: "pcs q p = x \<Longrightarrow> y \<noteq> x \<Longrightarrow> p \<notin> at_pc q y" and at: "pcs q p = x \<Longrightarrow> p \<in> at_pc q x"
  by (auto simp: at_pc_def)

lemma awake_arrive:
  assumes "awake_ok q"
  shows "at_pc (arrive p q) Parked = {}
    \<or> q_max (arrive p q) - in_flight (arrive p q) \<le> int (card (at_pc (arrive p q) Looping))"
proof (cases "pcs q p = Fresh")
  case True
  have fin: "finite (at_pc q Looping)" using assms by (auto simp: awake_ok_def good_queue_def finite_looping)
  have nc: "\<not> cancelled q p" using assms by (simp add: awake_ok_def)
  have out: "p \<notin> at_pc q Looping" "p \<notin> at_pc q Parked" using True not_at by auto
  show ?thesis
    using assms True nc out fin unfolding awake_ok_def arrive_def take_slot_def
    by (auto simp: at_pc_set_pc)
qed (use assms in \<open>auto simp: arrive_def awake_ok_def\<close>)

lemma awake_turn:
  assumes "awake_ok q"
  shows "at_pc (loop_turn p q) Parked = {}
    \<or> q_max (loop_turn p q) - in_flight (loop_turn p q) \<le> int (card (at_pc (loop_turn p q) Looping))"
proof (cases "pcs q p = Looping")
  case True
  have good: "good_queue q" and nc: "\<not> cancelled q p" using assms by (simp_all add: awake_ok_def)
  then have fin: "finite (at_pc q Looping)" and inl: "p \<in> at_pc q Looping"
    and reg: "p \<in> set (current_waiters q)" and full: "\<not> q_depth q < waiters q"
    and cap: "in_flight q \<le> q_max q"
    using True places_at [of q p]
    by (auto simp: good_queue_def finite_looping at counts_ok_def place_ok_def)
  have "int (card (at_pc q Looping - {p})) = int (card (at_pc q Looping)) - 1"
    using fin inl card_gt_0_iff [of "at_pc q Looping"] by (auto simp: of_nat_diff Suc_le_eq)
  moreover have "q_max (leave_waiters p q) = q_max q" "in_flight (leave_waiters p q) = in_flight q"
    by (simp_all add: leave_waiters_def)
  ultimately show ?thesis
    using assms True reg full cap unfolding awake_ok_def loop_turn_def take_slot_def
    by (auto simp: at_pc_set_pc)
qed (use assms in \<open>simp add: loop_turn_def awake_ok_def\<close>)

lemma awake_release:
  assumes "awake_ok q"
  shows "at_pc (release p w q) Parked = {}
    \<or> q_max (release p w q) - in_flight (release p w q) \<le> int (card (at_pc (release p w q) Looping))"
proof (cases "pcs q p = Holding \<and> signal_ok q w")
  case True
  have good: "good_queue q" using assms by (simp add: awake_ok_def)
  then have fin: "finite (at_pc q Looping)" by (simp add: good_queue_def finite_looping)
  have out: "p \<notin> at_pc q Looping" "p \<notin> at_pc q Parked" using True not_at by auto
  show ?thesis
  proof (cases w)
    case None
    have "pcs q r \<noteq> Parked" for r
      using True None good places_at [of q r]
      by (auto simp: signal_ok_def filter_empty_conv good_queue_def place_ok_def)
    then have "at_pc q Parked = {}" by (simp add: at_pc_def)
    with True None out show ?thesis by (simp add: release_def Let_def at_pc_set_pc)
  next
    case (Some r)
    then have r: "r \<notin> at_pc q Looping" "r \<noteq> p" using True not_at by (auto simp: signal_ok_def)
    have "in_flight (release p w q) \<ge> in_flight q - 1" "q_max (release p w q) = q_max q"
      using True Some by (auto simp: release_def Let_def)
    moreover have "at_pc (release p w q) Looping = insert r (at_pc q Looping)"
      "at_pc (release p w q) Parked = at_pc q Parked - {r}"
      using True Some out r by (auto simp: release_def Let_def at_pc_set_pc)
    ultimately show ?thesis using assms fin r by (auto simp: awake_ok_def)
  qed
qed (use assms in \<open>auto simp: release_def awake_ok_def\<close>)

lemma awake_calm_step: "awake_ok q \<Longrightarrow> awake_ok (calm_step q e)"
  using good_q_step [of q "calm e"] cancelled_calm [of q e]
    awake_arrive [of q] awake_turn [of q] awake_release [of q]
  by (cases e) (simp_all add: calm_step_def awake_ok_def)

interpretation calm: event_system calm_step awake_ok
  by unfold_locales (rule awake_calm_step)

section \<open>Leaked waiters\<close>

text \<open>A waiter that returned while its registration stayed behind, with no watcher left.\<close>

definition leaked :: "pid \<Rightarrow> queue \<Rightarrow> bool" where
  "leaked p q \<longleftrightarrow> pcs q p = Finished \<and> p \<in> set (current_waiters q) \<and> watchers q p = WatcherDone"

lemma leaked_step: "leaked p q \<Longrightarrow> leaked p (q_step q e)"
  by (cases e) (auto simp: leaked_def step_defs signal_ok_def split: option.split)

interpretation leak: latched_system q_step good_queue "leaked p" for p
  by unfold_locales (rule leaked_step)

section \<open>Properties\<close>


definition demo_queue :: queue where
  "demo_queue = (case new_bounded_queue ''asr'' 1 1 of Inr q \<Rightarrow> q
     | Inl _ \<Rightarrow> \<lparr>q_name = [], q_max = 1, q_depth = 1, in_flight = 0, waiters = 0, rejections = 0,
          admissions = 0, current_waiters = [], pcs = (\<lambda>_. Fresh), watchers = (\<lambda>_. NoWatcher),
          cancelled = (\<lambda>_. False)\<rparr>)"

lemma demo_queue_new: "new_bounded_queue ''asr'' 1 1 = Inr demo_queue"
  by (simp add: demo_queue_def new_bounded_queue_def)


text \<open>While no context is cancelled no wake-up is lost: whenever a slot is free and a
  call is parked, some call is awake in the loop, and its next turn takes the slot.\<close>

theorem adm_no_lost_wakeup:
  assumes "new_bounded_queue nm mx d = Inr q0"
    and "in_flight (run calm_step q0 es) < q_max (run calm_step q0 es)"
    and "pcs (run calm_step q0 es) p = Parked"
  shows "\<exists>r. pcs (run calm_step q0 es) r = Looping
           \<and> pcs (loop_turn r (run calm_step q0 es)) r = Holding"
proof -
  let ?q = "run calm_step q0 es"
  have "awake_ok q0"
    using good_new_queue [OF assms(1)] assms(1)
    by (auto simp: awake_ok_def new_bounded_queue_def at_pc_def split: if_splits)
  then have awake: "awake_ok ?q" by (rule calm.inv_run)
  moreover have "at_pc ?q Parked \<noteq> {}" using assms(3) by (auto simp: at_pc_def)
  ultimately have "0 < int (card (at_pc ?q Looping))" using assms(2) by (auto simp: awake_ok_def)
  then have "at_pc ?q Looping \<noteq> {}" by (simp add: card_gt_0_iff)
  then obtain r where r: "pcs ?q r = Looping" by (auto simp: at_pc_def)
  with awake have "r \<in> set (current_waiters ?q)"
    using places_at [of ?q r] by (auto simp: awake_ok_def good_queue_def place_ok_def)
  with r assms(2) have "pcs (loop_turn r ?q) r = Holding"
    by (simp add: loop_turn_def take_slot_def set_pc_def)
  with r show ?thesis by blast
qed

definition demo_calm :: "calm_event list" where
  "demo_calm = [CArrive 0, CArrive 1, CTurn 1, CArrive 2, CTurn 2, CRelease 0 (Some 1)]"

definition wide_queue :: queue where
  "wide_queue = demo_queue\<lparr>q_depth := 2\<rparr>"

theorem adm_no_lost_wakeup_witness:
  "\<exists>r. pcs (run calm_step wide_queue demo_calm) r = Looping
     \<and> pcs (loop_turn r (run calm_step wide_queue demo_calm)) r = Holding"
proof (rule adm_no_lost_wakeup [of "''asr''" 1 2])
  show "new_bounded_queue ''asr'' 1 2 = Inr wide_queue"
    by (simp add: wide_queue_def demo_queue_def new_bounded_queue_def)
  show "in_flight (run calm_step wide_queue demo_calm) < q_max (run calm_step wide_queue demo_calm)"
    by code_simp
  show "pcs (run calm_step wide_queue demo_calm) 2 = Parked"
    by code_simp
qed

definition leak_events :: "q_event list" where
  "leak_events = [Arrive 0, Arrive 1, Cancel 1, LoopExit 1, WatcherStop 1, Release 0 None]"

text \<open>A cancelled waiter can leave its registration behind: when its call returns before
  its watcher runs, the watcher may see both channels ready and stop without cleaning up.
  From then on, whatever happens, the registration occupies a place of the queue.\<close>

theorem adm_cancel_leaks:
  "leaked 1 (run q_step demo_queue (leak_events @ es))
   \<and> 1 \<le> waiters (run q_step demo_queue (leak_events @ es))"
proof -
  have good: "good_queue demo_queue" using good_new_queue demo_queue_new by blast
  then have "good_queue (run q_step demo_queue leak_events)" by (rule adm.inv_run)
  moreover have "leaked 1 (run q_step demo_queue leak_events)"
    by code_simp
  ultimately have leaked: "leaked 1 (run q_step demo_queue (leak_events @ es))"
    using leak.latched_run by simp
  have "good_queue (run q_step demo_queue (leak_events @ es))"
    using good by (rule adm.inv_run)
  then have "waiters (run q_step demo_queue (leak_events @ es))
      = int (length (current_waiters (run q_step demo_queue (leak_events @ es))))"
    by (simp add: good_queue_def counts_ok_def)
  with leaked show ?thesis
    by (cases "current_waiters (run q_step demo_queue (leak_events @ es))") (auto simp: leaked_def)
qed

end
