(* ===== verification/Correlation.thy ===== *)
theory Correlation
  imports Systems
begin

text \<open>
  Dropping obsolete worker results, backend/internal/orchestration/correlation.go: the
  correlation map with its generation counters and in-flight slots, the check of a worker's
  response, the deadline of a stage, and the staleness of a resolved context.
\<close>

section \<open>The correlation map\<close>

type_synonym corr_id = string
type_synonym stage = string
type_synonym gens = "(stage, 64 word) gomap"

record corr_map =
  entries :: "(corr_id, gens) gomap"
  inflight :: "(corr_id, gens) gomap"

definition new_correlation_map :: corr_map where
  "new_correlation_map = \<lparr>entries = [], inflight = []\<rparr>"

text \<open>Reading a missing key of a Go map of numbers gives 0; a missing inner map reads as empty.\<close>

definition inner :: "(corr_id, gens) gomap \<Rightarrow> corr_id \<Rightarrow> gens" where
  "inner m cid = (case get m cid of None \<Rightarrow> [] | Some g \<Rightarrow> g)"

definition gen_of :: "gens \<Rightarrow> stage \<Rightarrow> 64 word" where
  "gen_of g st = (case get g st of None \<Rightarrow> 0 | Some n \<Rightarrow> n)"

definition claim :: "corr_map \<Rightarrow> corr_id \<Rightarrow> stage \<Rightarrow> corr_map \<times> 64 word" where
  "claim m cid st =
     (let g = inner (entries m) cid; n = gen_of g st + 1
      in (m\<lparr>entries := put cid (put st n g) (entries m)\<rparr>, n))"

definition withdraw :: "corr_map \<Rightarrow> corr_id \<Rightarrow> corr_map" where
  "withdraw m cid = m\<lparr>entries := del cid (entries m), inflight := del cid (inflight m)\<rparr>"

definition check_and_consume :: "corr_map \<Rightarrow> corr_id \<Rightarrow> stage \<Rightarrow> 64 word \<Rightarrow> corr_map \<times> bool" where
  "check_and_consume m cid st g =
     (let fl = inner (inflight m) cid;
          m1 = (if has_key (inflight m) cid then m else m\<lparr>inflight := put cid [] (inflight m)\<rparr>)
      in if get fl st \<noteq> Some g then (m1, False)
         else let fl' = del st fl
              in (if fl' = [] then m1\<lparr>inflight := del cid (inflight m1)\<rparr>
                  else m1\<lparr>inflight := put cid fl' (inflight m1)\<rparr>, True))"

definition mark_inflight :: "corr_map \<Rightarrow> corr_id \<Rightarrow> stage \<Rightarrow> 64 word \<Rightarrow> corr_map" where
  "mark_inflight m cid st g =
     m\<lparr>inflight := put cid (put st g (inner (inflight m) cid)) (inflight m)\<rparr>"

definition peek :: "corr_map \<Rightarrow> corr_id \<Rightarrow> stage \<Rightarrow> 64 word \<times> bool" where
  "peek m cid st =
     (case get (entries m) cid of
        None \<Rightarrow> (0, False)
      | Some g \<Rightarrow> (gen_of g st, has_key g st))"

definition track_worker_dispatch :: "corr_id \<Rightarrow> stage \<Rightarrow> corr_map \<Rightarrow> corr_map \<times> 64 word" where
  "track_worker_dispatch cid st m = claim m cid st"

datatype corr_error = ErrCorrelationMismatch

definition validate_worker_response ::
  "string \<Rightarrow> 64 word \<Rightarrow> corr_id \<Rightarrow> stage \<Rightarrow> 64 word \<Rightarrow> corr_map \<Rightarrow> corr_map \<times> corr_error option"
where
  "validate_worker_response rid rgen want st expected m =
     (if rid \<noteq> want then (m, Some ErrCorrelationMismatch)
      else if rgen \<noteq> expected then (m, Some ErrCorrelationMismatch)
      else case check_and_consume m want st expected of
             (m', False) \<Rightarrow> (m', Some ErrCorrelationMismatch)
           | (m', True) \<Rightarrow> (m', None))"

section \<open>Deadlines and stale contexts\<close>

text \<open>The deadline of the child context; None means it has none.\<close>

definition stage_deadline :: "time option \<Rightarrow> duration \<Rightarrow> time \<Rightarrow> time option" where
  "stage_deadline parent d now =
     (if d \<le> 0 then parent
      else case parent of
             None \<Rightarrow> Some (now + d)
           | Some dl \<Rightarrow> Some (if dl < now + d then dl else now + d))"

record context_envelope =
  ctx_source_version :: int
  ctx_template_version :: int
  resolved_at :: time
  env_source_version :: int
  env_template_version :: int

definition is_stale :: "context_envelope \<Rightarrow> bool" where
  "is_stale e \<longleftrightarrow>
     (env_source_version e \<noteq> 0 \<and> ctx_source_version e \<noteq> 0
        \<and> env_source_version e \<noteq> ctx_source_version e)
   \<or> (env_template_version e \<noteq> 0 \<and> ctx_template_version e \<noteq> 0
        \<and> env_template_version e \<noteq> ctx_template_version e)"

section \<open>Slots\<close>

definition slot :: "corr_map \<Rightarrow> corr_id \<Rightarrow> stage \<Rightarrow> 64 word option" where
  "slot m cid st = get (inner (inflight m) cid) st"

definition generation :: "corr_map \<Rightarrow> corr_id \<Rightarrow> stage \<Rightarrow> 64 word" where
  "generation m cid st = gen_of (inner (entries m) cid) st"

lemma inner_put [simp]: "inner (put cid g m) cid' = (if cid' = cid then g else inner m cid')"
  by (simp add: inner_def)

lemma inner_del [simp]: "inner (del cid m) cid' = (if cid' = cid then [] else inner m cid')"
  by (simp add: inner_def)

lemma gen_of_put [simp]: "gen_of (put st n g) st' = (if st' = st then n else gen_of g st')"
  by (simp add: gen_of_def)

lemma gen_of_Nil [simp]: "gen_of [] st = 0"
  by (simp add: gen_of_def)

lemma slot_mark [simp]:
  "slot (mark_inflight m cid st g) cid' st' =
     (if cid' = cid \<and> st' = st then Some g else slot m cid' st')"
  by (simp add: slot_def mark_inflight_def)

lemma slot_withdraw [simp]:
  "slot (withdraw m cid) cid' st = (if cid' = cid then None else slot m cid' st)"
  by (simp add: slot_def withdraw_def)

lemma slot_claim [simp]: "slot (fst (claim m cid st)) cid' st' = slot m cid' st'"
  by (simp add: slot_def claim_def Let_def)

lemma inner_missing: "\<not> has_key m cid \<Longrightarrow> inner m cid = []"
  by (simp add: inner_def has_key_def)

lemma check_result: "snd (check_and_consume m cid st g) \<longleftrightarrow> slot m cid st = Some g"
  by (simp add: check_and_consume_def Let_def slot_def)

lemma slot_check:
  "slot (fst (check_and_consume m cid st g)) cid' st' =
     (if cid' = cid \<and> st' = st \<and> slot m cid st = Some g then None else slot m cid' st')"
  by (auto simp: check_and_consume_def Let_def slot_def inner_missing)
     (metis get_del map_of.simps(1))+

lemma generation_claim [simp]:
  "generation (fst (claim m cid st)) cid' st' =
     (if cid' = cid \<and> st' = st then generation m cid st + 1 else generation m cid' st')"
  "snd (claim m cid st) = generation m cid st + 1"
  by (simp_all add: generation_def claim_def Let_def)

lemma generation_withdraw [simp]:
  "generation (withdraw m cid) cid' st = (if cid' = cid then 0 else generation m cid' st)"
  by (simp add: generation_def withdraw_def)

lemma generation_inflight [simp]:
  "generation (mark_inflight m cid st g) = generation m"
  "generation (fst (check_and_consume m cid st g)) = generation m"
  by (auto simp: fun_eq_iff generation_def mark_inflight_def check_and_consume_def Let_def)

section \<open>Runs\<close>

datatype corr_event =
  Claim corr_id stage | Withdraw corr_id | Mark corr_id stage "64 word"
| Consume corr_id stage "64 word"

fun corr_step :: "corr_map \<Rightarrow> corr_event \<Rightarrow> corr_map" where
  "corr_step m (Claim cid st) = fst (claim m cid st)"
| "corr_step m (Withdraw cid) = withdraw m cid"
| "corr_step m (Mark cid st g) = mark_inflight m cid st g"
| "corr_step m (Consume cid st g) = fst (check_and_consume m cid st g)"

text \<open>How often a run delivers a response for a slot, and how often the slot is marked.\<close>

fun deliveries :: "corr_id \<Rightarrow> stage \<Rightarrow> 64 word \<Rightarrow> corr_map \<Rightarrow> corr_event list \<Rightarrow> nat" where
  "deliveries cid st g m [] = 0"
| "deliveries cid st g m (e # es) =
     (if e = Consume cid st g \<and> snd (check_and_consume m cid st g) then 1 else 0)
     + deliveries cid st g (corr_step m e) es"

fun marks :: "corr_id \<Rightarrow> stage \<Rightarrow> 64 word \<Rightarrow> corr_event list \<Rightarrow> nat" where
  "marks cid st g [] = 0"
| "marks cid st g (e # es) = (if e = Mark cid st g then 1 else 0) + marks cid st g es"

definition pending :: "corr_map \<Rightarrow> corr_id \<Rightarrow> stage \<Rightarrow> 64 word \<Rightarrow> nat" where
  "pending m cid st g = (if slot m cid st = Some g then 1 else 0)"

lemma deliveries_bound: "deliveries cid st g m es \<le> pending m cid st g + marks cid st g es"
proof (induction es arbitrary: m)
  case (Cons e es)
  have "(if e = Consume cid st g \<and> snd (check_and_consume m cid st g) then 1 else 0)
      + pending (corr_step m e) cid st g
      \<le> pending m cid st g + (if e = Mark cid st g then 1 else (0::nat))"
    by (cases e) (auto simp: pending_def check_result slot_check)
  with Cons.IH [of "corr_step m e"] show ?case by simp
qed simp

lemma slot_kept:
  assumes "slot m cid st \<noteq> Some g" and "Mark cid st g \<notin> set es"
  shows "slot (run corr_step m es) cid st \<noteq> Some g"
  using assms
proof (induction es arbitrary: m)
  case (Cons e es)
  have "slot (corr_step m e) cid st \<noteq> Some g"
    using Cons.prems by (cases e) (auto simp: slot_check)
  with Cons show ?case by simp
qed simp

lemma generation_run:
  assumes "Withdraw cid \<notin> set es"
  shows "generation (run corr_step m es) cid st
    = generation m cid st + of_nat (count_list es (Claim cid st))"
  using assms
proof (induction es arbitrary: m)
  case (Cons e es)
  have "generation (corr_step m e) cid st
      = generation m cid st + (if e = Claim cid st then 1 else 0)"
    using Cons.prems by (cases e) auto
  with Cons show ?case by (auto simp: add.assoc)
qed simp

section \<open>Properties\<close>

text \<open>A worker's response is delivered at most once per dispatch: in any run from an empty
  map, the accepted responses for a (request, stage, generation) are no more than the
  dispatches marked for it.\<close>

theorem corr_at_most_once:
  "deliveries cid st g new_correlation_map es \<le> marks cid st g es"
  using deliveries_bound [of cid st g new_correlation_map es]
  by (simp add: pending_def slot_def new_correlation_map_def inner_def)

text \<open>A response is accepted exactly when it echoes the request id and the generation and
  the slot still holds that generation; accepting it empties the slot and no other, and a
  rejection leaves every slot as it was.\<close>

theorem corr_validate_exact:
  "(snd (validate_worker_response rid rgen want st expected m) = None
      \<longleftrightarrow> rid = want \<and> rgen = expected \<and> slot m want st = Some expected)
   \<and> slot (fst (validate_worker_response rid rgen want st expected m)) cid' st' =
       (if rid = want \<and> rgen = expected \<and> slot m want st = Some expected \<and> cid' = want \<and> st' = st
        then None else slot m cid' st')"
  using check_result [of m want st expected] slot_check [of m want st expected cid' st']
  by (auto simp: validate_worker_response_def split: prod.splits bool.splits if_splits)

text \<open>Withdrawal drops late responses: after Withdraw, until the same generation is
  marked again, no response of any generation is accepted, whatever else happens.\<close>

theorem corr_withdraw_drops:
  assumes "Mark cid st g \<notin> set es"
  shows "\<not> snd (check_and_consume (run corr_step (withdraw m cid) es) cid st g)"
  using slot_kept [of "withdraw m cid" cid st g es] assms by (simp add: check_result)

theorem corr_withdraw_drops_witness:
  "\<not> snd (check_and_consume (run corr_step (withdraw (mark_inflight new_correlation_map ''r1'' ''ASR'' 1) ''r1'')
      [Claim ''r1'' ''ASR'', Mark ''r1'' ''ASR'' 2]) ''r1'' ''ASR'' 1)"
  by (rule corr_withdraw_drops) simp

text \<open>Claim numbers the calls of a stage: without a withdrawal the n-th later claim returns
  the current generation plus n (modulo 2^64), so a superseded call never carries the
  generation of its successor.\<close>

theorem corr_claims_count_up:
  assumes "Withdraw cid \<notin> set es"
  shows "snd (claim (run corr_step m es) cid st)
    = generation m cid st + of_nat (count_list es (Claim cid st)) + 1"
  using generation_run [OF assms] by simp

theorem corr_claims_count_up_witness:
  "snd (claim (run corr_step new_correlation_map
      [Claim ''r1'' ''ASR'', Mark ''r1'' ''ASR'' 1, Claim ''r1'' ''ASR'']) ''r1'' ''ASR'') = 3"
  using corr_claims_count_up [of "''r1''" "[Claim ''r1'' ''ASR'', Mark ''r1'' ''ASR'' 1, Claim ''r1'' ''ASR'']"
      new_correlation_map "''ASR''"]
  by (simp add: generation_def new_correlation_map_def inner_def)

text \<open>The deadline of a stage never exceeds the parent's, and with a positive stage
  deadline it is the earlier of the parent's and now plus the stage deadline.\<close>

theorem corr_stage_deadline:
  "(\<forall>dl. parent = Some dl \<longrightarrow> (\<exists>x. stage_deadline parent d now = Some x \<and> x \<le> dl))
   \<and> (0 < d \<longrightarrow> stage_deadline parent d now =
        Some (case parent of None \<Rightarrow> now + d | Some dl \<Rightarrow> min dl (now + d)))"
  by (auto simp: stage_deadline_def split: option.splits)

theorem corr_stage_deadline_witness:
  "stage_deadline (Some 50) 100 10 = Some (50 :: int)"
  using corr_stage_deadline [of "Some 50" 100 10] by simp

text \<open>A late response for a withdrawn request is dropped but leaves an entry behind: the
  map of in-flight slots holds the request id again after the drop, though Withdraw removed it.\<close>

theorem corr_late_response_leaks:
  "has_key (inflight (fst (check_and_consume (withdraw m cid) cid st g))) cid
   \<and> \<not> has_key (inflight (withdraw m cid)) cid"
  by (auto simp: has_key_def check_and_consume_def withdraw_def Let_def inner_def)

end
