(* ===== verification/Cap_Parse.thy ===== *)
theory Cap_Parse
  imports Systems
begin

text \<open>
  The CAP 1.2 ingestion boundary, backend/internal/capfeed/cap.go, with the points of
  backend/internal/contracts/geometry.go. What the code takes from its environment is the
  record \<open>cap_lib\<close>: the XML decoder, the timestamp and number readers and the digest.
\<close>

section \<open>Data\<close>

datatype cap_status = StatusActual | StatusExercise | StatusSystem | StatusTest | StatusDraft
datatype msg_type = MsgAlert | MsgUpdate | MsgCancel | MsgAck | MsgError
datatype cap_scope = ScopePublic | ScopeRestricted | ScopePrivate
datatype life_state = StateActive | StateSuperseded | StateCancelled | StateExpired

record point =
  longitude :: fnum
  latitude :: fnum

definition check_lon_lat :: "fnum \<Rightarrow> fnum \<Rightarrow> msg option" where
  "check_lon_lat lon lat = first_err
     [check (f_less lon (-180) \<or> f_greater lon 180) (Fmt ''longitude %v outside [-180,180]'' [AFloat lon]),
      check (f_less lat (-90) \<or> f_greater lat 90) (Fmt ''latitude %v outside [-90,90]'' [AFloat lat])]"

definition new_point :: "fnum \<Rightarrow> fnum \<Rightarrow> msg + point" where
  "new_point lon lat = require (check_lon_lat lon lat) \<lparr>longitude = lon, latitude = lat\<rparr>"

definition point_eq :: "point \<Rightarrow> point \<Rightarrow> bool" where
  "point_eq p q \<longleftrightarrow> f_eq (longitude p) (longitude q) \<and> f_eq (latitude p) (latitude q)"

record alert =
  al_identifier :: string
  sender :: string
  sent :: time
  al_status :: cap_status
  al_msg_type :: msg_type
  al_scope :: cap_scope
  references :: "string list"
  language :: string
  event :: string
  effective :: time
  expires :: time
  headline :: string
  areas :: "point list list"
  operational :: bool

record parsed =
  the_alert :: alert
  raw_xml :: string
  sha256 :: string
  parsed_state :: life_state

record parse_options =
  source_uri :: string
  sender_allow_list :: "(string, bool) gomap"
  retrieved_at :: time

record xml_info =
  x_language :: string
  x_event :: string
  x_effective :: string
  x_expires :: string
  x_headline :: string
  x_areas :: "string list list"

record xml_alert =
  x_identifier :: string
  x_sender :: string
  x_sent :: string
  x_status :: string
  x_msg_type :: string
  x_scope :: string
  x_references :: string
  x_infos :: "xml_info list"

text \<open>The tokens after the root element, up to the end of input.\<close>

datatype xml_token = StartElement | OtherToken | TokenError msg

record cap_lib =
  xml_decode :: "string \<Rightarrow> msg + (xml_alert \<times> xml_token list)"
  parse_rfc3339 :: "string \<Rightarrow> time option"
  scan_g :: "string \<Rightarrow> fnum option"
  sha256_hex :: "string \<Rightarrow> string"

section \<open>Fields\<close>

definition required_field :: "string \<Rightarrow> string \<Rightarrow> msg + string" where
  "required_field field value =
     (let v = trim_space value
      in if v = [] then Inl (Fmt ''missing or empty CAP field: %s'' [AStr field]) else Inr v)"

definition parse_time :: "cap_lib \<Rightarrow> string \<Rightarrow> string \<Rightarrow> msg + time" where
  "parse_time lib field value =
     (let v = trim_space value
      in if v = [] then Inl (Fmt ''missing CAP timestamp: %s'' [AStr field])
         else case parse_rfc3339 lib v of
                None \<Rightarrow> Inl (Fmt ''invalid CAP timestamp %s: %q'' [AStr field, AStr value])
              | Some t \<Rightarrow> Inr t)"

definition parse_status :: "string \<Rightarrow> msg + cap_status" where
  "parse_status v =
     (let t = trim_space v
      in if t = ''Actual'' then Inr StatusActual else if t = ''Exercise'' then Inr StatusExercise
         else if t = ''System'' then Inr StatusSystem else if t = ''Test'' then Inr StatusTest
         else if t = ''Draft'' then Inr StatusDraft
         else Inl (Fmt ''invalid CAP status: %q'' [AStr v]))"

definition parse_msg_type :: "string \<Rightarrow> msg + msg_type" where
  "parse_msg_type v =
     (let t = trim_space v
      in if t = ''Alert'' then Inr MsgAlert else if t = ''Update'' then Inr MsgUpdate
         else if t = ''Cancel'' then Inr MsgCancel else if t = ''Ack'' then Inr MsgAck
         else if t = ''Error'' then Inr MsgError
         else Inl (Fmt ''invalid CAP msgType: %q'' [AStr v]))"

definition parse_scope :: "string \<Rightarrow> msg + cap_scope" where
  "parse_scope v =
     (let t = trim_space v
      in if t = ''Public'' then Inr ScopePublic else if t = ''Restricted'' then Inr ScopeRestricted
         else if t = ''Private'' then Inr ScopePrivate
         else Inl (Fmt ''invalid CAP scope: %q'' [AStr v]))"

section \<open>Polygons\<close>

definition parse_position :: "cap_lib \<Rightarrow> string \<Rightarrow> msg + point" where
  "parse_position lib pair =
     (case split_byte (CHR '','') pair of
        [p0, p1] \<Rightarrow>
          (case scan_g lib p0 of
             None \<Rightarrow> Inl (Fmt ''invalid CAP polygon latitude %q'' [AStr p0])
           | Some lat \<Rightarrow>
               (case scan_g lib p1 of
                  None \<Rightarrow> Inl (Fmt ''invalid CAP polygon longitude %q'' [AStr p1])
                | Some lon \<Rightarrow>
                    (case new_point lon lat of
                       Inl e \<Rightarrow> Inl (Fmt ''CAP polygon %v'' [AMsg e])
                     | Inr pt \<Rightarrow> Inr pt)))
      | _ \<Rightarrow> Inl (Fmt ''invalid CAP polygon position %q'' [AStr pair]))"

definition parse_polygon :: "cap_lib \<Rightarrow> string \<Rightarrow> msg + point list" where
  "parse_polygon lib value =
     (let fs = str_fields value
      in if length fs < 4 then Inl (plain ''CAP polygon must have at least four positions'')
         else bind_res (map_res (parse_position lib) fs) (\<lambda>ring.
                if \<not> point_eq (hd ring) (last ring) then Inl (plain ''CAP polygon must be closed'')
                else Inr ring))"

section \<open>Parse\<close>

fun ensure_single_root :: "xml_token list \<Rightarrow> msg option" where
  "ensure_single_root [] = None"
| "ensure_single_root (TokenError e # _) = Some (Fmt ''malformed CAP XML: %v'' [AMsg e])"
| "ensure_single_root (StartElement # _) = Some (plain ''unexpected content after CAP root element'')"
| "ensure_single_root (OtherToken # ts) = ensure_single_root ts"

definition max_xml_bytes :: int where
  "max_xml_bytes = 1048576"

definition artifact_checks :: "string \<Rightarrow> parse_options \<Rightarrow> msg option" where
  "artifact_checks raw opts = first_err
     [check (length raw = 0) (plain ''empty CAP artifact''),
      check (max_xml_bytes < int (length raw)) (plain ''CAP artifact exceeds maximum size''),
      check (retrieved_at opts = zero_time) (plain ''retrieved_at (injected clock) is required''),
      check (str_contains (lower_search raw) ''<!doctype'' \<or> str_contains (lower_search raw) ''<!entity'')
        (plain ''DTD and entity declarations are forbidden'')]"

definition allowed_sender :: "parse_options \<Rightarrow> string \<Rightarrow> bool" where
  "allowed_sender opts s \<longleftrightarrow> sender_allow_list opts = [] \<or> get (sender_allow_list opts) s = Some True"

definition parse_effective :: "cap_lib \<Rightarrow> time \<Rightarrow> xml_info \<Rightarrow> msg + time" where
  "parse_effective lib sent0 info =
     (if trim_space (x_effective info) \<noteq> [] then parse_time lib ''effective'' (x_effective info)
      else Inr sent0)"

definition parse_areas :: "cap_lib \<Rightarrow> xml_info \<Rightarrow> msg + point list list" where
  "parse_areas lib info =
     (if x_areas info = [] then Inl (plain ''CAP requires an area'')
      else map_res (parse_polygon lib) (concat (x_areas info)))"

definition parse_info :: "cap_lib \<Rightarrow> xml_alert \<Rightarrow> string \<Rightarrow> string \<Rightarrow> time \<Rightarrow> cap_status \<Rightarrow> msg_type
    \<Rightarrow> cap_scope \<Rightarrow> msg + alert" where
  "parse_info lib doc ident sndr sent0 st mt sc =
     (let refs = str_fields (x_references doc)
      in if (mt = MsgUpdate \<or> mt = MsgCancel) \<and> refs = []
         then Inl (plain ''CAP update/cancel requires references'')
         else case x_infos doc of
           [] \<Rightarrow> Inl (plain ''CAP requires an info block'')
         | info # _ \<Rightarrow>
             bind_res (parse_effective lib sent0 info) (\<lambda>eff.
             bind_res (parse_time lib ''expires'' (x_expires info)) (\<lambda>ex.
               if \<not> eff < ex then Inl (plain ''CAP expires must be after effective'')
               else bind_res (parse_areas lib info) (\<lambda>ars.
                 Inr \<lparr>al_identifier = ident, sender = sndr, sent = sent0, al_status = st,
                      al_msg_type = mt, al_scope = sc, references = refs,
                      language = trim_space (x_language info), event = trim_space (x_event info),
                      effective = eff, expires = ex, headline = trim_space (x_headline info),
                      areas = ars,
                      operational = (st = StatusActual \<and> sc = ScopePublic)\<rparr>))))"

definition parse :: "cap_lib \<Rightarrow> string \<Rightarrow> parse_options \<Rightarrow> msg + parsed" where
  "parse lib raw opts =
     (case artifact_checks raw opts of Some e \<Rightarrow> Inl e | None \<Rightarrow>
      case xml_decode lib raw of
        Inl e \<Rightarrow> Inl (Fmt ''malformed CAP XML: %v'' [AMsg e])
      | Inr (doc, rest) \<Rightarrow>
        (case ensure_single_root rest of Some e \<Rightarrow> Inl e | None \<Rightarrow>
         bind_res (required_field ''identifier'' (x_identifier doc)) (\<lambda>ident.
         bind_res (required_field ''sender'' (x_sender doc)) (\<lambda>sndr.
           if \<not> allowed_sender opts sndr
           then Inl (Fmt ''CAP sender %q is not allow-listed'' [AStr sndr])
           else
             bind_res (parse_time lib ''sent'' (x_sent doc)) (\<lambda>sent0.
             bind_res (parse_status (x_status doc)) (\<lambda>st.
             bind_res (parse_msg_type (x_msg_type doc)) (\<lambda>mt.
             bind_res (parse_scope (x_scope doc)) (\<lambda>sc.
             bind_res (parse_info lib doc ident sndr sent0 st mt sc) (\<lambda>al.
               Inr \<lparr>the_alert = al, raw_xml = raw, sha256 = sha256_hex lib raw,
                    parsed_state = StateActive\<rparr>)))))))))"

section \<open>What a parsed alert satisfies\<close>

definition in_bounds :: "point \<Rightarrow> bool" where
  "in_bounds p \<longleftrightarrow> \<not> f_less (longitude p) (-180) \<and> \<not> f_greater (longitude p) 180
     \<and> \<not> f_less (latitude p) (-90) \<and> \<not> f_greater (latitude p) 90"

definition good_ring :: "point list \<Rightarrow> bool" where
  "good_ring r \<longleftrightarrow> 4 \<le> length r \<and> point_eq (hd r) (last r) \<and> (\<forall>p \<in> set r. in_bounds p)"

lemma new_point_in_bounds: "new_point lon lat = Inr p \<Longrightarrow> in_bounds p"
  by (auto simp: new_point_def check_lon_lat_def first_err_Cons_None in_bounds_def)

lemma parse_position_in_bounds: "parse_position lib s = Inr p \<Longrightarrow> in_bounds p"
  by (auto simp: parse_position_def dest: new_point_in_bounds
      split: list.splits option.splits sum.splits)

lemma parse_polygon_good: "parse_polygon lib s = Inr r \<Longrightarrow> good_ring r"
proof -
  assume "parse_polygon lib s = Inr r"
  then have r: "map_res (parse_position lib) (str_fields s) = Inr r"
    and len: "4 \<le> length (str_fields s)" and closed: "point_eq (hd r) (last r)"
    by (auto simp: parse_polygon_def Let_def bind_res_Inr split: if_splits)
  have "\<forall>p \<in> set r. in_bounds p"
    using map_res_mem [OF r] parse_position_in_bounds by blast
  with map_res_length [OF r] len closed show ?thesis by (simp add: good_ring_def)
qed

definition good_alert :: "parse_options \<Rightarrow> alert \<Rightarrow> bool" where
  "good_alert opts a \<longleftrightarrow> al_identifier a \<noteq> [] \<and> sender a \<noteq> [] \<and> allowed_sender opts (sender a)
     \<and> effective a < expires a
     \<and> (al_msg_type a \<in> {MsgUpdate, MsgCancel} \<longrightarrow> references a \<noteq> [])
     \<and> (\<forall>r \<in> set (areas a). good_ring r)
     \<and> (operational a \<longleftrightarrow> al_status a = StatusActual \<and> al_scope a = ScopePublic)"

lemma parse_areas_good: "parse_areas lib info = Inr ars \<Longrightarrow> r \<in> set ars \<Longrightarrow> good_ring r"
  by (auto simp: parse_areas_def split: if_splits dest!: map_res_mem parse_polygon_good)

lemma parse_info_good:
  assumes "parse_info lib doc ident sndr sent0 st mt sc = Inr al"
    and "ident \<noteq> []" "sndr \<noteq> []" "allowed_sender opts sndr"
  shows "good_alert opts al"
  using assms
  by (auto simp: parse_info_def Let_def bind_res_Inr good_alert_def
      split: if_splits list.splits dest: parse_areas_good)

lemma required_nonempty: "required_field f v = Inr w \<Longrightarrow> w \<noteq> []"
  by (auto simp: required_field_def Let_def split: if_splits)

section \<open>Properties\<close>

text \<open>What Parse accepts is a valid alert: identifier and sender are not empty, the sender
  is allow-listed, it expires after it takes effect, an update or cancellation has
  references, every polygon is a closed ring of at least four positions within bounds, it
  is operational exactly when Actual and Public, and the raw bytes, within the size limit,
  are preserved with their digest.\<close>

theorem cap_parse_sound:
  assumes "parse lib raw opts = Inr p"
  shows "good_alert opts (the_alert p)
    \<and> raw_xml p = raw \<and> sha256 p = sha256_hex lib raw \<and> parsed_state p = StateActive
    \<and> raw \<noteq> [] \<and> int (length raw) \<le> max_xml_bytes
    \<and> \<not> str_contains (lower_search raw) ''<!doctype''"
proof -
  from assms have "artifact_checks raw opts = None"
    by (auto simp: parse_def split: option.splits)
  then have raw: "raw \<noteq> [] \<and> int (length raw) \<le> max_xml_bytes
      \<and> \<not> str_contains (lower_search raw) ''<!doctype''"
    by (auto simp: artifact_checks_def first_err_Cons_None)
  from assms obtain doc ident sndr sent0 st mt sc al where
    "required_field ''identifier'' (x_identifier doc) = Inr ident"
    "required_field ''sender'' (x_sender doc) = Inr sndr" "allowed_sender opts sndr"
    "parse_info lib doc ident sndr sent0 st mt sc = Inr al"
    "p = \<lparr>the_alert = al, raw_xml = raw, sha256 = sha256_hex lib raw, parsed_state = StateActive\<rparr>"
    by (auto simp: parse_def bind_res_Inr split: option.splits sum.splits if_splits)
  with raw show ?thesis
    by (auto dest: required_nonempty intro: parse_info_good)
qed

definition demo_doc :: xml_alert where
  "demo_doc = \<lparr>x_identifier = '' a1 '', x_sender = ''imd'', x_sent = ''10'', x_status = ''Actual'',
     x_msg_type = ''Alert'', x_scope = ''Public'', x_references = [],
     x_infos = [\<lparr>x_language = ''en'', x_event = ''Flood'', x_effective = [], x_expires = ''20'',
       x_headline = ''h'', x_areas = [[''1,2 3,4 5,6 1,2'']]\<rparr>]\<rparr>"

definition demo_lib :: cap_lib where
  "demo_lib = \<lparr>xml_decode = (\<lambda>_. Inr (demo_doc, [OtherToken])), parse_rfc3339 = parse_int64,
     scan_g = (\<lambda>s. map_option (\<lambda>i. FNum i 0) (parse_int64 s)), sha256_hex = (\<lambda>_. ''d1'')\<rparr>"

definition demo_opts :: parse_options where
  "demo_opts = \<lparr>source_uri = ''u'', sender_allow_list = [(''imd'', True)], retrieved_at = 5\<rparr>"

definition demo_parsed :: parsed where
  "demo_parsed = \<lparr>the_alert = \<lparr>al_identifier = ''a1'', sender = ''imd'', sent = 10,
       al_status = StatusActual, al_msg_type = MsgAlert, al_scope = ScopePublic, references = [],
       language = ''en'', event = ''Flood'', effective = 10, expires = 20, headline = ''h'',
       areas = [[\<lparr>longitude = FNum 2 0, latitude = FNum 1 0\<rparr>, \<lparr>longitude = FNum 4 0, latitude = FNum 3 0\<rparr>,
          \<lparr>longitude = FNum 6 0, latitude = FNum 5 0\<rparr>, \<lparr>longitude = FNum 2 0, latitude = FNum 1 0\<rparr>]],
       operational = True\<rparr>,
     raw_xml = ''<alert/>'', sha256 = ''d1'', parsed_state = StateActive\<rparr>"

lemma demo_parse: "parse demo_lib ''<alert/>'' demo_opts = Inr demo_parsed"
  by code_simp

theorem cap_parse_sound_witness: "good_alert demo_opts (the_alert demo_parsed)"
  using cap_parse_sound [OF demo_parse] by blast

text \<open>The bounds check does not refuse NaN: a position whose coordinates read as NaN is a
  valid point, and a ring that has one in its interior is accepted as closed.\<close>

theorem cap_nan_position_accepted:
  assumes "scan_g lib s = Some FNaN" and "CHR '','' \<notin> set s"
  shows "parse_position lib (s @ CHR '','' # s) = Inr \<lparr>longitude = FNaN, latitude = FNaN\<rparr>"
proof -
  have "split_byte (CHR '','') s = [s]"
    using assms(2) by (induction s) auto
  moreover have "split_byte (CHR '','') (t @ CHR '','' # u) = [t] @ split_byte (CHR '','') u"
    if "CHR '','' \<notin> set t" for t u
    using that by (induction t) auto
  ultimately have "split_byte (CHR '','') (s @ CHR '','' # s) = [s, s]"
    using assms(2) by simp
  with assms(1) show ?thesis
    by (simp add: parse_position_def new_point_def check_lon_lat_def check_def require_def)
qed

theorem cap_nan_position_accepted_witness:
  "parse_position (demo_lib\<lparr>scan_g := (\<lambda>s. if s = ''NaN'' then Some FNaN else None)\<rparr>) ''NaN,NaN''
     = Inr \<lparr>longitude = FNaN, latitude = FNaN\<rparr>"
  using cap_nan_position_accepted
    [of "demo_lib\<lparr>scan_g := (\<lambda>s. if s = ''NaN'' then Some FNaN else None)\<rparr>" "''NaN''"]
  by simp

end
