(* ===== verification/Cap_Lifecycle.thy ===== *)
theory Cap_Lifecycle
  imports Cap_Parse
begin

text \<open>
  The update, cancel and expiry lifecycle of CAP alerts, backend/internal/capfeed/lifecycle.go,
  and the replay window of backend/internal/capfeed/verifier.go (AlertDeduplicator).
\<close>

section \<open>State\<close>

datatype quarantine_reason =
  QuarantineParseFailure | QuarantineUnknownReference | QuarantineStaleUpdate
| QuarantineNonOperational

record quarantined =
  qr_reason :: quarantine_reason
  qr_detail :: msg
  qr_sha256 :: string
  qr_source_uri :: string
  qr_at :: time

record stored =
  st_parsed :: parsed
  st_sent :: time

record lifecycle =
  revs :: "(string, stored list) gomap"
  states :: "(string, life_state) gomap"
  quarantine :: "quarantined list"

definition new_lifecycle :: lifecycle where
  "new_lifecycle = \<lparr>revs = [], states = [], quarantine = []\<rparr>"

text \<open>The state is None where the code returns the empty string of a missing map entry.\<close>

record ingest_result =
  res_identifier :: string
  res_state :: "life_state option"
  res_applied :: bool

section \<open>Helpers\<close>

definition revisions :: "lifecycle \<Rightarrow> string \<Rightarrow> stored list" where
  "revisions l k = (case get (revs l) k of None \<Rightarrow> [] | Some rs \<Rightarrow> rs)"

definition reference_candidate :: "string \<Rightarrow> string" where
  "reference_candidate ref =
     trim_space (case split_byte (CHR '','') ref of
        p0 # p1 # ps \<Rightarrow> trim_space p1
      | _ \<Rightarrow> ref)"

fun resolve_reference :: "lifecycle \<Rightarrow> string list \<Rightarrow> string" where
  "resolve_reference l [] = []"
| "resolve_reference l (ref # refs) =
     (let c = reference_candidate ref
      in if has_key (revs l) c then c else resolve_reference l refs)"

definition is_duplicate :: "lifecycle \<Rightarrow> string \<Rightarrow> time \<Rightarrow> bool" where
  "is_duplicate l k t \<longleftrightarrow> (\<exists>r \<in> set (revisions l k). st_sent r = t)"

definition is_stale_rev :: "lifecycle \<Rightarrow> string \<Rightarrow> time \<Rightarrow> bool" where
  "is_stale_rev l k t \<longleftrightarrow> revisions l k \<noteq> [] \<and> \<not> st_sent (last (revisions l k)) < t"

definition append_revision :: "string \<Rightarrow> parsed \<Rightarrow> lifecycle \<Rightarrow> lifecycle" where
  "append_revision k p l =
     l\<lparr>revs := put k (sort_key st_sent
          (revisions l k @ [\<lparr>st_parsed = p, st_sent = sent (the_alert p)\<rparr>])) (revs l)\<rparr>"

definition quarantine_alert :: "quarantine_reason \<Rightarrow> parsed \<Rightarrow> string \<Rightarrow> time \<Rightarrow> lifecycle \<Rightarrow> lifecycle" where
  "quarantine_alert rsn p detail now l =
     l\<lparr>quarantine := quarantine l @
        [\<lparr>qr_reason = rsn,
          qr_detail = Fmt ''%s (identifier %q)'' [AStr detail, AStr (al_identifier (the_alert p))],
          qr_sha256 = sha256 p, qr_source_uri = [], qr_at = now\<rparr>]\<rparr>"

definition set_state :: "string \<Rightarrow> life_state \<Rightarrow> lifecycle \<Rightarrow> lifecycle" where
  "set_state k st l = l\<lparr>states := put k st (states l)\<rparr>"

section \<open>Operations\<close>

definition ingest_reference :: "lifecycle \<Rightarrow> parsed \<Rightarrow> time \<Rightarrow> lifecycle \<times> ingest_result" where
  "ingest_reference l p now =
     (let a = the_alert p; target = resolve_reference l (references a)
      in if target = []
         then (quarantine_alert QuarantineUnknownReference p ''no known referenced alert'' now l,
               \<lparr>res_identifier = al_identifier a, res_state = get (states l) (al_identifier a),
                res_applied = False\<rparr>)
         else if is_stale_rev l target (sent a)
         then (quarantine_alert QuarantineStaleUpdate p ''revision is not newer than current'' now l,
               \<lparr>res_identifier = al_identifier a, res_state = get (states l) target,
                res_applied = False\<rparr>)
         else
           let st = (if al_msg_type a = MsgCancel then StateCancelled else StateSuperseded)
           in (set_state target st (append_revision target p l),
               \<lparr>res_identifier = target, res_state = Some st, res_applied = True\<rparr>))"

definition ingest_new :: "lifecycle \<Rightarrow> parsed \<Rightarrow> time \<Rightarrow> lifecycle \<times> ingest_result" where
  "ingest_new l p now =
     (let a = the_alert p; k = al_identifier a
      in if is_duplicate l k (sent a)
         then (l, \<lparr>res_identifier = k, res_state = get (states l) k, res_applied = False\<rparr>)
         else if is_stale_rev l k (sent a)
         then (quarantine_alert QuarantineStaleUpdate p ''revision is not newer than current'' now l,
               \<lparr>res_identifier = k, res_state = get (states l) k, res_applied = False\<rparr>)
         else (set_state k StateActive (append_revision k p l),
               \<lparr>res_identifier = k, res_state = Some StateActive, res_applied = True\<rparr>))"

definition ingest :: "lifecycle \<Rightarrow> parsed option \<Rightarrow> time \<Rightarrow> lifecycle \<times> (msg + ingest_result)" where
  "ingest l mp now =
     (case mp of
        None \<Rightarrow> (l, Inl (plain ''cannot ingest nil parsed alert''))
      | Some p \<Rightarrow>
          (let (l', r) = (if al_msg_type (the_alert p) \<in> {MsgUpdate, MsgCancel}
                          then ingest_reference l p now else ingest_new l p now)
           in (l', Inr r)))"

definition quarantine_parse :: "lifecycle \<Rightarrow> string \<Rightarrow> string \<Rightarrow> msg \<Rightarrow> time \<Rightarrow> lifecycle" where
  "quarantine_parse l uri sha detail now =
     l\<lparr>quarantine := quarantine l @ [\<lparr>qr_reason = QuarantineParseFailure, qr_detail = detail,
        qr_sha256 = sha, qr_source_uri = uri, qr_at = now\<rparr>]\<rparr>"

definition latest_of :: "stored list \<Rightarrow> alert" where
  "latest_of rs = the_alert (st_parsed (last rs))"

definition expirable :: "lifecycle \<Rightarrow> time \<Rightarrow> string list" where
  "expirable l now =
     map fst (filter (\<lambda>(k, rs). get (states l) k = Some StateActive
                \<and> \<not> now < expires (latest_of rs)) (revs l))"

definition expire :: "lifecycle \<Rightarrow> time \<Rightarrow> lifecycle \<times> string list" where
  "expire l now =
     (foldr (\<lambda>k. set_state k StateExpired) (expirable l now) l, sort (expirable l now))"

definition active :: "lifecycle \<Rightarrow> string list" where
  "active l = sort (map fst (filter (\<lambda>(k, st). st = StateActive) (states l)))"

definition state_of :: "lifecycle \<Rightarrow> string \<Rightarrow> life_state option" where
  "state_of l k = get (states l) k"

definition latest :: "lifecycle \<Rightarrow> string \<Rightarrow> parsed option" where
  "latest l k = (if revisions l k = [] then None else Some (st_parsed (last (revisions l k))))"

definition quarantine_copy :: "lifecycle \<Rightarrow> quarantined list" where
  "quarantine_copy l = quarantine l"

section \<open>The invariant\<close>

text \<open>
  Every identifier with a state has revisions, strictly ordered by their sent instant, and
  conversely: so \<open>revs[len(revs)-1]\<close> is in range and is the newest.
\<close>

definition good_revs :: "stored list \<Rightarrow> bool" where
  "good_revs rs \<longleftrightarrow> rs \<noteq> [] \<and> sorted_wrt (<) (map st_sent rs)
     \<and> (\<forall>r \<in> set rs. st_sent r = sent (the_alert (st_parsed r)))"

definition good_lifecycle :: "lifecycle \<Rightarrow> bool" where
  "good_lifecycle l \<longleftrightarrow> wf_map (revs l) \<and> wf_map (states l)
     \<and> (\<forall>k. has_key (revs l) k \<longleftrightarrow> has_key (states l) k)
     \<and> (\<forall>k rs. get (revs l) k = Some rs \<longrightarrow> good_revs rs)"

lemma good_new_lifecycle [simp]: "good_lifecycle new_lifecycle"
  by (simp add: good_lifecycle_def new_lifecycle_def has_key_def)

lemma fresh_revision_last:
  assumes "good_revs rs \<or> rs = []" and "rs = [] \<or> st_sent (last rs) < st_sent r"
  shows "sort_key st_sent (rs @ [r]) = rs @ [r]"
proof -
  have "sorted (map st_sent (rs @ [r]))"
    using assms
    by (cases rs rule: rev_cases)
       (auto simp: good_revs_def sorted_wrt_append sorted_append less_imp_le
         intro: strict_sorted_imp_sorted order_trans less_imp_le)
  then show ?thesis by (rule sort_key_id_if_sorted)
qed

lemma good_revisions: "good_lifecycle l \<Longrightarrow> good_revs (revisions l k) \<or> revisions l k = []"
  by (auto simp: good_lifecycle_def revisions_def split: option.splits)

lemma revisions_put [simp]:
  "revisions (l\<lparr>revs := put k rs m\<rparr>) k' = (if k' = k then rs else revisions (l\<lparr>revs := m\<rparr>) k')"
  by (simp add: revisions_def)

lemma good_revs_snoc:
  assumes "good_revs rs \<or> rs = []" and "rs = [] \<or> st_sent (last rs) < st_sent r"
    and "st_sent r = sent (the_alert (st_parsed r))"
  shows "good_revs (rs @ [r])"
proof -
  have "st_sent x < st_sent r" if "x \<in> set rs" for x
  proof -
    from that assms(1,2) have rs: "good_revs rs" "st_sent (last rs) < st_sent r" by auto
    obtain ys where "rs = ys @ [last rs]"
      using rs(1) by (metis append_butlast_last_id good_revs_def)
    then have "sorted_wrt (<) (map st_sent (ys @ [last rs]))" "x \<in> set (ys @ [last rs])"
      using rs(1) that by (auto simp: good_revs_def)
    then have "st_sent x \<le> st_sent (last rs)" by (auto simp: sorted_wrt_append)
    with rs show ?thesis by simp
  qed
  with assms show ?thesis by (auto simp: good_revs_def sorted_wrt_append)
qed

lemma append_revision_fresh:
  assumes "good_lifecycle l" and "\<not> is_stale_rev l k (sent (the_alert p))"
  shows "append_revision k p l =
      l\<lparr>revs := put k (revisions l k @ [\<lparr>st_parsed = p, st_sent = sent (the_alert p)\<rparr>]) (revs l)\<rparr>"
    and "good_revs (revisions l k @ [\<lparr>st_parsed = p, st_sent = sent (the_alert p)\<rparr>])"
  using fresh_revision_last [OF good_revisions [OF assms(1), of k], of "\<lparr>st_parsed = p, st_sent = sent (the_alert p)\<rparr>"]
    good_revs_snoc [OF good_revisions [OF assms(1), of k], of "\<lparr>st_parsed = p, st_sent = sent (the_alert p)\<rparr>"]
    assms(2)
  by (auto simp: append_revision_def is_stale_rev_def)

lemma good_apply:
  assumes "good_lifecycle l" and "\<not> is_stale_rev l k (sent (the_alert p))"
  shows "good_lifecycle (set_state k st (append_revision k p l))"
  using assms(1) append_revision_fresh [OF assms]
  by (auto simp: good_lifecycle_def set_state_def has_key_def)

lemma good_quarantine: "good_lifecycle l \<Longrightarrow> good_lifecycle (l\<lparr>quarantine := q\<rparr>)"
  by (simp add: good_lifecycle_def)

text \<open>What ingesting can do: leave the alerts alone, or apply one revision that is newer.\<close>

definition applies :: "lifecycle \<Rightarrow> string \<Rightarrow> life_state \<Rightarrow> parsed \<Rightarrow> lifecycle \<Rightarrow> bool" where
  "applies l k st p l' \<longleftrightarrow>
     \<not> is_stale_rev l k (sent (the_alert p)) \<and> l' = set_state k st (append_revision k p l)"

lemma reference_effect:
  "(\<exists>q. fst (ingest_reference l p now) = l\<lparr>quarantine := q\<rparr>)
   \<or> (\<exists>k st. applies l k st p (fst (ingest_reference l p now)))"
proof (cases "resolve_reference l (references (the_alert p)) = []
    \<or> is_stale_rev l (resolve_reference l (references (the_alert p))) (sent (the_alert p))")
  case True
  then show ?thesis by (auto simp: ingest_reference_def Let_def quarantine_alert_def)
next
  case False
  then have "\<not> is_stale_rev l (resolve_reference l (references (the_alert p))) (sent (the_alert p))"
    and "resolve_reference l (references (the_alert p)) \<noteq> []" by auto
  then show ?thesis unfolding ingest_reference_def Let_def applies_def by simp blast
qed

lemma new_effect:
  "(\<exists>q. fst (ingest_new l p now) = l\<lparr>quarantine := q\<rparr>)
   \<or> (\<exists>k st. applies l k st p (fst (ingest_new l p now)))"
proof (cases "is_duplicate l (al_identifier (the_alert p)) (sent (the_alert p))")
  case True
  then have "fst (ingest_new l p now) = l\<lparr>quarantine := quarantine l\<rparr>"
    by (simp add: ingest_new_def Let_def)
  then show ?thesis by blast
next
  case False
  then show ?thesis
    unfolding ingest_new_def Let_def applies_def quarantine_alert_def by simp blast
qed

lemma ingest_effect:
  "(\<exists>q. fst (ingest l mp now) = l\<lparr>quarantine := q\<rparr>)
   \<or> (\<exists>k st p. applies l k st p (fst (ingest l mp now)))"
proof (cases mp)
  case None
  then have "fst (ingest l mp now) = l\<lparr>quarantine := quarantine l\<rparr>" by (simp add: ingest_def)
  then show ?thesis by blast
next
  case (Some p)
  then have "fst (ingest l mp now) \<in> {fst (ingest_reference l p now), fst (ingest_new l p now)}"
    by (simp add: ingest_def split: prod.splits)
  then show ?thesis using reference_effect [of l p now] new_effect [of l p now] by auto
qed

lemma good_ingest: "good_lifecycle l \<Longrightarrow> good_lifecycle (fst (ingest l mp now))"
proof -
  assume good: "good_lifecycle l"
  show "good_lifecycle (fst (ingest l mp now))"
    using ingest_effect [of l mp now]
  proof (elim disjE exE)
    fix q assume "fst (ingest l mp now) = l\<lparr>quarantine := q\<rparr>"
    with good show ?thesis by (simp only: good_quarantine)
  next
    fix k st p assume "applies l k st p (fst (ingest l mp now))"
    then show ?thesis unfolding applies_def using good_apply [OF good] by simp
  qed
qed

lemma set_state_foldr:
  "get (states (foldr (\<lambda>k. set_state k st) ks l)) k =
     (if k \<in> set ks then Some st else get (states l) k)"
  "revs (foldr (\<lambda>k. set_state k st) ks l) = revs l"
  "quarantine (foldr (\<lambda>k. set_state k st) ks l) = quarantine l"
  "wf_map (states l) \<Longrightarrow> wf_map (states (foldr (\<lambda>k. set_state k st) ks l))"
  by (induction ks) (auto simp: set_state_def)

lemma expirable_iff:
  assumes "good_lifecycle l"
  shows "k \<in> set (expirable l now) \<longleftrightarrow>
    get (states l) k = Some StateActive \<and> expires (latest_of (revisions l k)) \<le> now"
proof -
  have mem: "(k, rs) \<in> set (revs l) \<longleftrightarrow> get (revs l) k = Some rs" for rs
    using assms by (simp add: good_lifecycle_def get_iff_mem)
  have active: "get (states l) k = Some StateActive \<Longrightarrow> get (revs l) k = Some (revisions l k)"
    using assms by (auto simp: good_lifecycle_def has_key_def revisions_def split: option.splits)
  have "k \<in> set (expirable l now) \<longleftrightarrow> (\<exists>rs. (k, rs) \<in> set (revs l)
      \<and> get (states l) k = Some StateActive \<and> expires (latest_of rs) \<le> now)"
    by (auto simp: expirable_def image_iff not_less intro!: bexI)
  then show ?thesis using mem active by auto
qed

lemma distinct_expirable: "good_lifecycle l \<Longrightarrow> distinct (expirable l now)"
  by (auto simp: expirable_def good_lifecycle_def wf_map_def intro: distinct_map_filter)

lemma good_expire: "good_lifecycle l \<Longrightarrow> good_lifecycle (fst (expire l now))"
  using expirable_iff [of l _ now]
  by (auto simp: good_lifecycle_def expire_def set_state_foldr has_key_def)

lemma active_iff: "good_lifecycle l \<Longrightarrow> k \<in> set (active l) \<longleftrightarrow> get (states l) k = Some StateActive"
proof -
  assume "good_lifecycle l"
  then have "(k, st) \<in> set (states l) \<longleftrightarrow> get (states l) k = Some st" for st
    by (simp add: good_lifecycle_def get_iff_mem)
  then show ?thesis by (force simp: active_def)
qed

datatype cap_event =
  Ingest "parsed option" time | QParse string string msg time | Expire time

fun cap_step :: "lifecycle \<Rightarrow> cap_event \<Rightarrow> lifecycle" where
  "cap_step l (Ingest mp now) = fst (ingest l mp now)"
| "cap_step l (QParse uri sha d now) = quarantine_parse l uri sha d now"
| "cap_step l (Expire now) = fst (expire l now)"

lemma good_cap_step: "good_lifecycle l \<Longrightarrow> good_lifecycle (cap_step l e)"
  by (cases e) (simp_all add: good_ingest good_expire quarantine_parse_def good_quarantine)

interpretation cap: event_system cap_step good_lifecycle
  by unfold_locales (rule good_cap_step)

text \<open>The sent instant of the newest revision of an identifier.\<close>

definition newest :: "string \<Rightarrow> lifecycle \<Rightarrow> time option" where
  "newest k l = map_option (\<lambda>p. sent (the_alert p)) (latest l k)"

definition newest_le :: "time option \<Rightarrow> time option \<Rightarrow> bool" where
  "newest_le a b \<longleftrightarrow> (\<forall>t. a = Some t \<longrightarrow> (\<exists>u. b = Some u \<and> t \<le> u))"

lemma newest_apply:
  assumes "good_lifecycle l" and "\<not> is_stale_rev l k (sent (the_alert p))"
  shows "latest (set_state k st (append_revision k p l)) k' = (if k' = k then Some p else latest l k')"
  using append_revision_fresh(1) [OF assms]
  by (simp add: latest_def set_state_def revisions_def)

lemma stale_newest:
  assumes "good_lifecycle l" and "\<not> is_stale_rev l k t"
  shows "newest_le (newest k l) (Some t)"
proof (cases "revisions l k = []")
  case False
  then have "good_revs (revisions l k)" using good_revisions [OF assms(1)] by blast
  then have "st_sent (last (revisions l k)) = sent (the_alert (st_parsed (last (revisions l k))))"
    using False by (simp add: good_revs_def)
  then show ?thesis using assms(2) False
    by (simp add: newest_le_def newest_def latest_def is_stale_rev_def)
qed (simp add: newest_le_def newest_def latest_def)

lemma newest_frame: "revs l' = revs l \<Longrightarrow> newest k l' = newest k l"
  by (simp add: newest_def latest_def revisions_def)

lemma newest_apply_le:
  assumes "good_lifecycle l" and "\<not> is_stale_rev l k (sent (the_alert p))"
  shows "newest_le (newest k' l) (newest k' (set_state k st (append_revision k p l)))"
  using newest_apply [OF assms, of st k'] stale_newest [OF assms]
  by (auto simp: newest_def newest_le_def)

lemma newest_refl [simp]: "newest_le a a"
  by (simp add: newest_le_def)

lemma newest_ingest: "good_lifecycle l \<Longrightarrow> newest_le (newest k l) (newest k (fst (ingest l mp now)))"
proof -
  assume good: "good_lifecycle l"
  show ?thesis
    using ingest_effect [of l mp now]
  proof (elim disjE exE)
    fix q assume "fst (ingest l mp now) = l\<lparr>quarantine := q\<rparr>"
    then show ?thesis using newest_frame [of "l\<lparr>quarantine := q\<rparr>" l k] by simp
  next
    fix k' st p assume "applies l k' st p (fst (ingest l mp now))"
    then show ?thesis using newest_apply_le [OF good] by (simp add: applies_def)
  qed
qed

lemma newest_step: "good_lifecycle l \<Longrightarrow> newest_le (newest k l) (newest k (cap_step l e))"
proof (cases e)
  case (Expire now)
  have "newest k (fst (expire l now)) = newest k l"
    by (rule newest_frame) (simp add: expire_def set_state_foldr)
  with Expire show ?thesis by simp
next
  case (QParse uri sha d now)
  have "newest k (quarantine_parse l uri sha d now) = newest k l"
    by (rule newest_frame) (simp add: quarantine_parse_def)
  with QParse show ?thesis by simp
qed (simp add: newest_ingest)

interpretation cap_newest: latched_system cap_step good_lifecycle "\<lambda>l. newest_le b (newest k l)" for b k
proof unfold_locales
  fix l e assume "good_lifecycle l" and "newest_le b (newest k l)"
  then show "newest_le b (newest k (cap_step l e))"
    using newest_step [of l k e] by (fastforce simp: newest_le_def)
qed

section \<open>The replay window\<close>

record deduplicator =
  seen :: "(string, time) gomap"
  ttl :: duration
  capacity :: int

datatype dedup_error = ErrDuplicateAlert

definition new_alert_deduplicator :: "duration \<Rightarrow> int \<Rightarrow> deduplicator" where
  "new_alert_deduplicator t c =
     \<lparr>seen = [], ttl = (if t \<le> 0 then 24 * hour else t), capacity = (if c \<le> 0 then 10000 else c)\<rparr>"

definition purge :: "deduplicator \<Rightarrow> time \<Rightarrow> deduplicator" where
  "purge d now =
     (if capacity d \<le> int (length (seen d))
      then d\<lparr>seen := drop_where (\<lambda>k t. ttl d < time_sub now t) (seen d)\<rparr> else d)"

definition check_and_record :: "deduplicator \<Rightarrow> string \<Rightarrow> time \<Rightarrow> deduplicator \<times> dedup_error option" where
  "check_and_record d digest now =
     (let d1 = purge d now
      in case get (seen d1) digest of
           Some t \<Rightarrow> if time_sub now t \<le> ttl d1 then (d1, Some ErrDuplicateAlert)
                     else (d1\<lparr>seen := put digest now (seen d1)\<rparr>, None)
         | None \<Rightarrow> (d1\<lparr>seen := put digest now (seen d1)\<rparr>, None))"

fun dedup_step :: "deduplicator \<Rightarrow> string \<times> time \<Rightarrow> deduplicator" where
  "dedup_step d (digest, now) = fst (check_and_record d digest now)"

definition good_dedup :: "deduplicator \<Rightarrow> bool" where
  "good_dedup d \<longleftrightarrow> wf_map (seen d)"

lemma ttl_purge [simp]: "ttl (purge d now) = ttl d"
  by (simp add: purge_def)

lemma good_purge: "good_dedup d \<Longrightarrow> good_dedup (purge d now)"
  by (simp add: good_dedup_def purge_def)

lemma good_dedup_step: "good_dedup d \<Longrightarrow> good_dedup (dedup_step d e)"
  using good_purge [of d "snd e"]
  by (cases e) (auto simp: check_and_record_def Let_def good_dedup_def split: option.splits)

interpretation dedup: event_system dedup_step good_dedup
  by unfold_locales (rule good_dedup_step)

lemma get_purge:
  assumes "good_dedup d" and "get (seen d) k = Some t" and "time_sub now t \<le> ttl d"
  shows "get (seen (purge d now)) k = Some t"
  using assms by (auto simp: purge_def good_dedup_def get_drop_where)

lemma ttl_step [simp]: "ttl (dedup_step d e) = ttl d"
  by (cases e) (auto simp: check_and_record_def Let_def split: option.splits)

lemma remembered_step:
  assumes "good_dedup d" and "get (seen d) k = Some t" and "time_sub (snd e) t \<le> ttl d"
  shows "get (seen (dedup_step d e)) k = Some t"
proof -
  obtain k' u where e: "e = (k', u)" by (cases e)
  have kept: "get (seen (purge d u)) k = Some t" using get_purge assms e by simp
  show ?thesis
  proof (cases "k' = k")
    case True
    with kept assms(3) e show ?thesis by (simp add: check_and_record_def Let_def)
  next
    case False
    with kept e show ?thesis
      by (auto simp: check_and_record_def Let_def split: option.splits)
  qed
qed

lemma remembered_run:
  assumes "good_dedup d" and "get (seen d) k = Some t"
    and "\<forall>e \<in> set es. snd e \<le> now" and "time_sub now t \<le> ttl d"
  shows "get (seen (run dedup_step d es)) k = Some t \<and> ttl (run dedup_step d es) = ttl d"
  using assms
proof (induction es arbitrary: d)
  case (Cons e es)
  have "time_sub (snd e) t \<le> ttl d"
    using Cons.prems time_sub_mono [of "snd e" now t] by simp
  then have "get (seen (dedup_step d e)) k = Some t"
    using Cons.prems remembered_step by blast
  with Cons show ?case by (simp add: good_dedup_step)
qed simp

lemma recorded: "snd (check_and_record d k t) = None \<Longrightarrow> get (seen (fst (check_and_record d k t))) k = Some t"
  by (auto simp: check_and_record_def Let_def split: option.splits if_splits)

lemma distinct_burst:
  assumes "wf_map (seen d)" and "\<forall>(k, t) \<in> set (seen d). t = now" and "0 \<le> ttl d"
    and "distinct ks" and "\<forall>k \<in> set ks. get (seen d) k = None"
  shows "length (seen (run dedup_step d (map (\<lambda>k. (k, now)) ks))) = length (seen d) + length ks"
  using assms
proof (induction ks arbitrary: d)
  case (Cons k ks)
  have "drop_where (\<lambda>k t. ttl d < time_sub now t) (seen d) = seen d"
    using Cons.prems(2,3) unfolding drop_where_def by (intro filter_True) auto
  then have "purge d now = d" by (simp add: purge_def)
  with Cons.prems have step: "dedup_step d (k, now) = d\<lparr>seen := put k now (seen d)\<rparr>"
    by (simp add: check_and_record_def)
  have "\<forall>(k', t) \<in> set (put k now (seen d)). t = now"
    using Cons.prems(1,2) by (auto simp: get_iff_mem [symmetric] split: if_splits)
  moreover have "\<forall>k' \<in> set ks. get (put k now (seen d)) k' = None"
    using Cons.prems(4,5) by auto
  ultimately show ?case
    using Cons.IH [of "dedup_step d (k, now)"] Cons.prems
    by (simp add: step length_put del: dedup_step.simps get_put)
qed simp

section \<open>Properties\<close>

lemma resolve_known: "resolve_reference l refs \<noteq> [] \<Longrightarrow> has_key (revs l) (resolve_reference l refs)"
  by (induction refs) (auto simp: Let_def split: if_splits)

definition life_run :: "cap_event list \<Rightarrow> lifecycle" where
  "life_run es = run cap_step new_lifecycle es"

lemma good_life_run [simp]: "good_lifecycle (life_run es)"
  unfolding life_run_def by (rule cap.inv_run) simp

text \<open>After Expire no active alert is past its expiry, and the call returns, sorted and
  without repetition, exactly the alerts that were active and have expired; every other
  alert keeps its state, and no revision is deleted.\<close>

theorem cap_expire_exact:
  "(\<forall>k \<in> set (active (fst (expire (life_run es) now))).
       \<exists>p. latest (fst (expire (life_run es) now)) k = Some p \<and> now < expires (the_alert p))
   \<and> set (snd (expire (life_run es) now)) =
       {k \<in> set (active (life_run es)). expires (latest_of (revisions (life_run es) k)) \<le> now}
   \<and> sorted (snd (expire (life_run es) now)) \<and> distinct (snd (expire (life_run es) now))
   \<and> (\<forall>k. k \<notin> set (snd (expire (life_run es) now)) \<longrightarrow>
        state_of (fst (expire (life_run es) now)) k = state_of (life_run es) k)
   \<and> revs (fst (expire (life_run es) now)) = revs (life_run es)"
proof -
  let ?l = "life_run es" and ?l' = "fst (expire (life_run es) now)"
  have good: "good_lifecycle ?l" and good': "good_lifecycle ?l'" by (simp_all add: good_expire)
  have states: "get (states ?l') k =
      (if k \<in> set (expirable ?l now) then Some StateExpired else get (states ?l) k)" for k
    by (simp add: expire_def set_state_foldr)
  have revs: "revs ?l' = revs ?l" by (simp add: expire_def set_state_foldr)
  have "\<exists>p. latest ?l' k = Some p \<and> now < expires (the_alert p)" if "k \<in> set (active ?l')" for k
  proof -
    have act: "get (states ?l) k = Some StateActive" and "k \<notin> set (expirable ?l now)"
      using that states [of k] active_iff [OF good'] by (auto split: if_splits)
    then have "now < expires (latest_of (revisions ?l k))"
      using expirable_iff [OF good] by (simp add: not_le)
    moreover have "revisions ?l k \<noteq> []"
      using act good good_revisions [OF good, of k]
      by (auto simp: good_lifecycle_def has_key_def revisions_def good_revs_def split: option.splits)
    ultimately show ?thesis
      using revs by (simp add: latest_def latest_of_def revisions_def)
  qed
  then show ?thesis
    using states revs distinct_expirable [OF good] expirable_iff [OF good] active_iff [OF good]
    by (auto simp: expire_def state_of_def)
qed

theorem cap_expire_exact_witness:
  "state_of (fst (expire (life_run []) 5)) ''x'' = state_of (life_run []) ''x''"
  using cap_expire_exact [of "[]" 5]
  by (simp add: expire_def expirable_def life_run_def new_lifecycle_def)

text \<open>The newest revision of an identifier never goes back in time, whatever is ingested
  in whatever order, and the revisions stay strictly ordered by their sent instant.\<close>

theorem cap_newest_monotone:
  "newest_le (newest k (life_run es)) (newest k (life_run (es @ fs)))
   \<and> sorted_wrt (<) (map st_sent (revisions (life_run es) k))"
proof
  show "newest_le (newest k (life_run es)) (newest k (life_run (es @ fs)))"
    using cap_newest.latched_run [OF good_life_run [of es] newest_refl, of k fs]
    by (simp add: life_run_def)
  show "sorted_wrt (<) (map st_sent (revisions (life_run es) k))"
    using good_revisions [OF good_life_run, of es k] by (auto simp: good_revs_def)
qed

text \<open>Ingesting an alert twice is idempotent: the second time nothing changes and the
  result says it was not applied.\<close>

theorem cap_duplicate_alert_noop:
  assumes "al_msg_type (the_alert p) \<notin> {MsgUpdate, MsgCancel}"
    and "snd (ingest (life_run es) (Some p) now) = Inr r" and "res_applied r"
  shows "fst (ingest (fst (ingest (life_run es) (Some p) now)) (Some p) now')
           = fst (ingest (life_run es) (Some p) now)
    \<and> snd (ingest (fst (ingest (life_run es) (Some p) now)) (Some p) now')
           = Inr \<lparr>res_identifier = al_identifier (the_alert p), res_state = Some StateActive,
                  res_applied = False\<rparr>"
proof -
  let ?l = "life_run es" and ?k = "al_identifier (the_alert p)"
  have fresh: "\<not> is_stale_rev ?l ?k (sent (the_alert p))"
    and l': "fst (ingest ?l (Some p) now) = set_state ?k StateActive (append_revision ?k p ?l)"
    using assms by (auto simp: ingest_def ingest_new_def Let_def split: if_splits prod.splits)
  have "is_duplicate (fst (ingest ?l (Some p) now)) ?k (sent (the_alert p))"
    unfolding l' using append_revision_fresh(1) [OF good_life_run fresh]
    by (simp add: is_duplicate_def set_state_def revisions_def)
  moreover have "get (states (fst (ingest ?l (Some p) now))) ?k = Some StateActive"
    unfolding l' by (simp add: set_state_def)
  ultimately show ?thesis
    using assms(1) by (simp add: ingest_def [of "fst (ingest ?l (Some p) now)"] ingest_new_def Let_def)
qed

lemma demo_ingest:
  "snd (ingest (life_run []) (Some demo_parsed) 12) =
     Inr \<lparr>res_identifier = ''a1'', res_state = Some StateActive, res_applied = True\<rparr>"
  by code_simp

theorem cap_duplicate_alert_noop_witness:
  "fst (ingest (fst (ingest (life_run []) (Some demo_parsed) 12)) (Some demo_parsed) 13)
     = fst (ingest (life_run []) (Some demo_parsed) 12)"
proof -
  have m: "al_msg_type (the_alert demo_parsed) \<notin> {MsgUpdate, MsgCancel}"
    by (simp add: demo_parsed_def)
  show ?thesis using cap_duplicate_alert_noop [OF m demo_ingest, of 13] by simp
qed

text \<open>A cancellation that is applied takes the referenced alert out of the active ones.
  Repeating the same cancellation is not the no-op the comment promises for duplicates: it
  is quarantined as STALE_UPDATE, so the quarantine list grows with every replay.\<close>

theorem cap_cancel_replay_quarantined:
  assumes "al_msg_type (the_alert p) = MsgCancel"
    and "snd (ingest (life_run es) (Some p) now) = Inr r" and "res_applied r"
  shows "res_identifier r \<notin> set (active (fst (ingest (life_run es) (Some p) now)))
    \<and> length (quarantine (fst (ingest (fst (ingest (life_run es) (Some p) now)) (Some p) now')))
        = Suc (length (quarantine (fst (ingest (life_run es) (Some p) now))))"
proof -
  let ?l = "life_run es" and ?l' = "fst (ingest (life_run es) (Some p) now)"
  let ?k = "resolve_reference ?l (references (the_alert p))"
  have fresh: "\<not> is_stale_rev ?l ?k (sent (the_alert p))" and k: "?k \<noteq> []" "res_identifier r = ?k"
    and l': "?l' = set_state ?k StateCancelled (append_revision ?k p ?l)"
    using assms by (auto simp: ingest_def ingest_reference_def Let_def split: if_splits prod.splits)
  have good': "good_lifecycle ?l'" by (simp add: good_ingest)
  have st: "get (states ?l') ?k = Some StateCancelled" unfolding l' by (simp add: set_state_def)
  have revs': "revs ?l' = put ?k (revisions ?l ?k @ [\<lparr>st_parsed = p, st_sent = sent (the_alert p)\<rparr>]) (revs ?l)"
    unfolding l' using append_revision_fresh(1) [OF good_life_run fresh] by (simp add: set_state_def)
  have known: "has_key (revs ?l) ?k"
    using k(1) by (rule resolve_known)
  have "has_key (revs ?l') c = has_key (revs ?l) c" for c
    using known revs' by (auto simp: has_key_def)
  then have same: "resolve_reference ?l' refs = resolve_reference ?l refs" for refs
    by (induction refs) (simp_all add: Let_def)
  have "is_stale_rev ?l' ?k (sent (the_alert p))"
    using revs' by (simp add: is_stale_rev_def revisions_def)
  then have "length (quarantine (fst (ingest ?l' (Some p) now'))) = Suc (length (quarantine ?l'))"
    using assms(1) k(1) same
    by (simp add: ingest_def [of ?l'] ingest_reference_def Let_def quarantine_alert_def)
  moreover have "?k \<notin> set (active ?l')" using st active_iff [OF good'] by simp
  ultimately show ?thesis using k(2) by simp
qed

definition demo_cancel :: parsed where
  "demo_cancel = demo_parsed\<lparr>the_alert := (the_alert demo_parsed)
     \<lparr>al_identifier := ''c1'', al_msg_type := MsgCancel, sent := 11, references := [''imd,a1,10'']\<rparr>\<rparr>"

lemma demo_ingest_cancel:
  "snd (ingest (life_run [Ingest (Some demo_parsed) 12]) (Some demo_cancel) 13) =
     Inr \<lparr>res_identifier = ''a1'', res_state = Some StateCancelled, res_applied = True\<rparr>"
  by code_simp

theorem cap_cancel_replay_quarantined_witness:
  "''a1'' \<notin> set (active (fst (ingest (life_run [Ingest (Some demo_parsed) 12]) (Some demo_cancel) 13)))"
proof -
  have m: "al_msg_type (the_alert demo_cancel) = MsgCancel" by (simp add: demo_cancel_def)
  show ?thesis using cap_cancel_replay_quarantined [OF m demo_ingest_cancel] by simp
qed

text \<open>A recorded digest is refused as a duplicate for the whole TTL window, whatever other
  digests are checked, and purged for, in between.\<close>

theorem dedup_replay_refused:
  assumes "snd (check_and_record (run dedup_step (new_alert_deduplicator w c) es) k t) = None"
    and "\<forall>e \<in> set fs. snd e \<le> now"
    and "time_sub now t \<le> ttl (new_alert_deduplicator w c)"
  shows "snd (check_and_record
      (run dedup_step (fst (check_and_record (run dedup_step (new_alert_deduplicator w c) es) k t)) fs)
      k now) = Some ErrDuplicateAlert"
proof -
  let ?d0 = "run dedup_step (new_alert_deduplicator w c) es"
  let ?d1 = "dedup_step ?d0 (k, t)"
  have good0: "good_dedup ?d0"
    by (rule dedup.inv_run) (simp add: good_dedup_def new_alert_deduplicator_def)
  have ttl0: "ttl (run dedup_step d es) = ttl d" for d es
    by (induction es arbitrary: d) (simp_all del: dedup_step.simps)
  have good1: "good_dedup ?d1" using good0 by (rule good_dedup_step)
  have got1: "get (seen ?d1) k = Some t" using recorded [OF assms(1)] by simp
  have win: "time_sub now t \<le> ttl ?d1" using assms(3) ttl0 by (simp del: dedup_step.simps)
  have got: "get (seen (run dedup_step ?d1 fs)) k = Some t" "ttl (run dedup_step ?d1 fs) = ttl ?d1"
    using remembered_run [OF good1 got1 assms(2) win] by blast+
  have "good_dedup (run dedup_step ?d1 fs)" using good1 by (rule dedup.inv_run)
  then have "get (seen (purge (run dedup_step ?d1 fs) now)) k = Some t"
    using get_purge got win by simp
  then show ?thesis using got win by (simp add: check_and_record_def)
qed

theorem dedup_replay_refused_witness:
  "snd (check_and_record (run dedup_step
      (fst (check_and_record (run dedup_step (new_alert_deduplicator 100 1) []) ''d1'' 10)) [(''d2'', 50)])
      ''d1'' 60) = Some ErrDuplicateAlert"
  by (rule dedup_replay_refused) code_simp+

text \<open>The capacity does not bound the deduplicator: it only triggers the purge of entries
  older than the TTL, so any number of distinct digests within one instant is kept.\<close>

theorem dedup_capacity_unbounded:
  assumes "distinct ks"
  shows "length (seen (run dedup_step (new_alert_deduplicator w c) (map (\<lambda>k. (k, now)) ks)))
    = length ks"
  using distinct_burst [of "new_alert_deduplicator w c" now ks] assms
  by (simp add: new_alert_deduplicator_def hour_def minute_def second_def)

theorem dedup_capacity_unbounded_witness:
  "length (seen (run dedup_step (new_alert_deduplicator 0 1) (map (\<lambda>k. (k, 7)) [''a'', ''b'', ''c'']))) = 3"
  using dedup_capacity_unbounded [of "[''a'', ''b'', ''c'']" 0 1 7] by simp

end
