(* ===== verification/Cap_Transport.thy ===== *)
theory Cap_Transport
  imports Systems
begin

text \<open>
  Conditional retrieval with bounded retries and stale-cache preservation,
  backend/internal/capfeed/transport.go. The fetcher is an argument, with the number of the
  attempt so that it may answer differently each time; so is what the context reports when
  it is cancelled during the backoff after an attempt.
\<close>

section \<open>Data\<close>

text \<open>\<open>NoFetch\<close> is the empty string of a zero result.\<close>

datatype fetch_state = NoFetch | FetchUpdated | FetchNotModified | FetchStale | FetchUnavailable

record response =
  rs_status :: int
  rs_body :: string
  rs_etag :: string

type_synonym fetcher = "nat \<Rightarrow> string \<Rightarrow> string \<Rightarrow> msg + response"

record transport =
  max_attempts :: int
  cached_body :: string
  cached_etag :: string
  have_cache :: bool

definition new_transport :: transport where
  "new_transport = \<lparr>max_attempts = 3, cached_body = [], cached_etag = [], have_cache = False\<rparr>"

record refresh_result =
  rr_state :: fetch_state
  rr_body :: string
  rr_etag :: string
  rr_retrieved_at :: "time option"
  rr_attempts :: nat

text \<open>The result fields beside an error, as the code returns both.\<close>

type_synonym refresh_outcome = "refresh_result \<times> msg option"

section \<open>Refresh\<close>

definition transport_fallback :: "transport \<Rightarrow> string \<Rightarrow> nat \<Rightarrow> msg option \<Rightarrow> refresh_outcome" where
  "transport_fallback t uri n cause =
     (if have_cache t
      then (\<lparr>rr_state = FetchStale, rr_body = [], rr_etag = cached_etag t, rr_retrieved_at = None,
             rr_attempts = n\<rparr>, None)
      else (\<lparr>rr_state = FetchUnavailable, rr_body = [], rr_etag = [], rr_retrieved_at = None,
             rr_attempts = n\<rparr>,
            Some (Fmt ''CAP source %q unavailable: %v''
              [AStr uri, AMsg (case cause of None \<Rightarrow> plain ''no attempts made'' | Some e \<Rightarrow> e)])))"

text \<open>One attempt: a final outcome with the new transport, or the error to retry after.\<close>

definition attempt_once ::
  "transport \<Rightarrow> fetcher \<Rightarrow> string \<Rightarrow> time \<Rightarrow> nat \<Rightarrow> msg + (transport \<times> refresh_result)"
where
  "attempt_once t fetch uri now n =
     (case fetch n uri (cached_etag t) of
        Inl e \<Rightarrow> Inl e
      | Inr resp \<Rightarrow>
          if rs_status resp = 200
          then if rs_body resp = [] then Inl (plain ''empty 200 body'')
               else Inr (t\<lparr>cached_body := rs_body resp, cached_etag := rs_etag resp, have_cache := True\<rparr>,
                         \<lparr>rr_state = FetchUpdated, rr_body = rs_body resp, rr_etag = rs_etag resp,
                          rr_retrieved_at = Some now, rr_attempts = n\<rparr>)
          else if rs_status resp = 304
          then if \<not> have_cache t then Inl (plain ''304 received with no cached copy'')
               else Inr (t, \<lparr>rr_state = FetchNotModified, rr_body = [], rr_etag = cached_etag t,
                             rr_retrieved_at = None, rr_attempts = n\<rparr>)
          else Inl (Fmt ''unexpected source status %d'' [AInt (rs_status resp)]))"

text \<open>The attempts \<open>n\<close>, \<open>n + 1\<close>, ..., of which \<open>left\<close> remain.\<close>

fun refresh_loop ::
  "transport \<Rightarrow> fetcher \<Rightarrow> (nat \<Rightarrow> msg option) \<Rightarrow> string \<Rightarrow> time \<Rightarrow> nat \<Rightarrow> nat \<Rightarrow> msg option
     \<Rightarrow> transport \<times> refresh_outcome"
where
  "refresh_loop t fetch ctx uri now n 0 last_err = (t, transport_fallback t uri (n - 1) last_err)"
| "refresh_loop t fetch ctx uri now n (Suc left) last_err =
     (case attempt_once t fetch uri now n of
        Inr (t', r) \<Rightarrow> (t', r, None)
      | Inl e \<Rightarrow>
          if 0 < left
          then (case ctx n of
                  Some ce \<Rightarrow> (t, transport_fallback t uri n (Some ce))
                | None \<Rightarrow> refresh_loop t fetch ctx uri now (Suc n) left (Some e))
          else refresh_loop t fetch ctx uri now (Suc n) left (Some e))"

definition attempts_of :: "transport \<Rightarrow> nat" where
  "attempts_of t = (if max_attempts t < 1 then 1 else nat (max_attempts t))"

definition refresh ::
  "transport \<Rightarrow> fetcher \<Rightarrow> (nat \<Rightarrow> msg option) \<Rightarrow> string \<Rightarrow> time
     \<Rightarrow> transport \<times> refresh_outcome"
where
  "refresh t fetch ctx uri now =
     (if uri = []
      then (t, \<lparr>rr_state = NoFetch, rr_body = [], rr_etag = [], rr_retrieved_at = None,
               rr_attempts = 0\<rparr>, Some (plain ''source URI is required''))
      else refresh_loop t fetch ctx uri now 1 (attempts_of t) None)"

section \<open>What a refresh can do\<close>

definition good_transport :: "transport \<Rightarrow> bool" where
  "good_transport t \<longleftrightarrow> (have_cache t \<longleftrightarrow> cached_body t \<noteq> [])"

text \<open>
  The four outcomes, against the transport before: fresh bytes that some attempt received,
  a confirmed cache, a preserved cache, or unavailability with an error.
\<close>

definition outcome_ok ::
  "transport \<Rightarrow> fetcher \<Rightarrow> string \<Rightarrow> transport \<times> refresh_outcome \<Rightarrow> bool"
where
  "outcome_ok t fetch uri res \<longleftrightarrow>
     (case res of (t', r, err) \<Rightarrow>
       case rr_state r of
         NoFetch \<Rightarrow> False
       | FetchUpdated \<Rightarrow> err = None \<and> rr_body r \<noteq> []
           \<and> (\<exists>resp. fetch (rr_attempts r) uri (cached_etag t) = Inr resp \<and> rs_status resp = 200
                \<and> rr_body r = rs_body resp
                \<and> t' = t\<lparr>cached_body := rs_body resp, cached_etag := rs_etag resp, have_cache := True\<rparr>)
       | FetchNotModified \<Rightarrow> err = None \<and> rr_body r = [] \<and> have_cache t \<and> t' = t
           \<and> (\<exists>resp. fetch (rr_attempts r) uri (cached_etag t) = Inr resp \<and> rs_status resp = 304)
       | FetchStale \<Rightarrow> err = None \<and> rr_body r = [] \<and> have_cache t \<and> t' = t
       | FetchUnavailable \<Rightarrow> err \<noteq> None \<and> rr_body r = [] \<and> \<not> have_cache t \<and> t' = t)"

lemma fallback_ok: "outcome_ok t fetch uri (t, transport_fallback t uri n cause)"
  by (auto simp: outcome_ok_def transport_fallback_def)

lemma attempt_ok:
  "attempt_once t fetch uri now n = Inr (t', r) \<Longrightarrow> outcome_ok t fetch uri (t', r, None) \<and> rr_attempts r = n"
  by (auto simp: outcome_ok_def attempt_once_def split: sum.splits if_splits)

lemma fallback_attempts [simp]: "rr_attempts (fst (transport_fallback t uri n cause)) = n"
  by (simp add: transport_fallback_def)

lemma refresh_loop_ok:
  assumes "1 \<le> n"
  shows "outcome_ok t fetch uri (refresh_loop t fetch ctx uri now n left e)
    \<and> rr_attempts (fst (snd (refresh_loop t fetch ctx uri now n left e))) < n + left"
  using assms
proof (induction left arbitrary: n e)
  case 0
  then show ?case by (simp add: fallback_ok)
next
  case (Suc left)
  show ?case
  proof (cases "attempt_once t fetch uri now n")
    case (Inl err)
    then show ?thesis
      using Suc.IH [of "Suc n" "Some err"]
      by (auto simp: fallback_ok split: option.splits)
  next
    case (Inr tr)
    then show ?thesis using attempt_ok by (cases tr) fastforce
  qed
qed

section \<open>Properties\<close>

text \<open>A refresh never fabricates bytes and never loses the cache: bytes are returned only
  when an attempt received them in a 200, and then they become the cache; a 304 or a failure
  with a cached copy leaves it as it was and is not an error; only without a cached copy is
  the source unavailable, with an error; and no more attempts are made than allowed.\<close>

theorem transport_refresh_honest:
  assumes "uri \<noteq> []"
  shows "outcome_ok t fetch uri (refresh t fetch ctx uri now)
    \<and> rr_attempts (fst (snd (refresh t fetch ctx uri now))) \<le> attempts_of t"
  using refresh_loop_ok [of 1 t fetch uri ctx now "attempts_of t" None] assms
  by (simp add: refresh_def)

definition flaky :: fetcher where
  "flaky n uri etag =
     (if n = 1 then Inl (plain ''timeout'')
      else Inr \<lparr>rs_status = 200, rs_body = ''<alert/>'', rs_etag = ''e1''\<rparr>)"

theorem transport_refresh_honest_witness:
  "rr_body (fst (snd (refresh new_transport flaky (\<lambda>_. None) ''u'' 7))) = ''<alert/>''
   \<and> outcome_ok new_transport flaky ''u'' (refresh new_transport flaky (\<lambda>_. None) ''u'' 7)"
proof
  show "rr_body (fst (snd (refresh new_transport flaky (\<lambda>_. None) ''u'' 7))) = ''<alert/>''"
    by code_simp
  show "outcome_ok new_transport flaky ''u'' (refresh new_transport flaky (\<lambda>_. None) ''u'' 7)"
    using transport_refresh_honest [of "''u''" new_transport flaky "\<lambda>_. None" 7] by simp
qed

end
