(* ===== verification/Delivery_Cache.thy ===== *)
theory Delivery_Cache
  imports Systems
begin

text \<open>
  The delivery cache of manifests and cards and the source that fills it,
  backend/internal/offlinedelivery/cache.go, with the records and the observer fan-out of
  types.go. Each map is kept with its map of write times (\<open>manifests\<close> with
  \<open>manifestTimes\<close>, \<open>cards\<close> with \<open>cardTimes\<close>) as one table. \<open>sort.Slice\<close> is not stable and
  ranges over maps are unordered, so which of several equally old entries is evicted is
  the argument \<open>pick\<close>; the theorems hold for every choice of an oldest one.
\<close>

section \<open>Data\<close>

record manifest_record =
  mr_jurisdiction :: string
  mr_revision :: int
  mr_raw :: string
  mr_checksum :: string
  mr_status :: string

record card_record =
  cr_package_id :: string
  cr_version :: int
  cr_raw :: string
  cr_checksum :: string
  cr_status :: string

record 'v entry =
  en_value :: 'v
  expires_at :: time
  written_at :: time
  byte_size :: int

record 'v table =
  ents :: "(string, 'v entry) gomap"
  times :: "(string, time) gomap"

record mem_cache =
  mans :: "manifest_record table"
  cards :: "card_record table"
  max_entries :: int
  max_bytes :: int
  current_bytes :: int

definition new_memory_cache :: "int \<Rightarrow> int \<Rightarrow> mem_cache" where
  "new_memory_cache me mb =
     \<lparr>mans = \<lparr>ents = [], times = []\<rparr>, cards = \<lparr>ents = [], times = []\<rparr>,
      max_entries = me, max_bytes = mb, current_bytes = 0\<rparr>"

definition is_live_status :: "string \<Rightarrow> bool" where
  "is_live_status s \<longleftrightarrow> s = ''CURRENT'' \<or> s = []"

definition card_key :: "string \<Rightarrow> int \<Rightarrow> string" where
  "card_key pkg v = pkg @ '':'' @ show_int v"

section \<open>Lookups and invalidation\<close>

definition table_get :: "'v table \<Rightarrow> string \<Rightarrow> time \<Rightarrow> 'v option" where
  "table_get t k now =
     (case get (ents t) k of
        None \<Rightarrow> None
      | Some en \<Rightarrow> if expires_at en < now then None else Some (en_value en))"

definition get_manifest :: "mem_cache \<Rightarrow> string \<Rightarrow> time \<Rightarrow> manifest_record option" where
  "get_manifest c j now = table_get (mans c) j now"

definition get_card :: "mem_cache \<Rightarrow> string \<Rightarrow> int \<Rightarrow> time \<Rightarrow> card_record option" where
  "get_card c pkg v now = table_get (cards c) (card_key pkg v) now"

definition table_drop :: "string \<Rightarrow> 'v table \<Rightarrow> 'v table" where
  "table_drop k t = t\<lparr>ents := del k (ents t), times := del k (times t)\<rparr>"

definition invalidate_manifest :: "string \<Rightarrow> mem_cache \<Rightarrow> mem_cache" where
  "invalidate_manifest j c =
     (case get (ents (mans c)) j of
        None \<Rightarrow> c
      | Some en \<Rightarrow> c\<lparr>current_bytes := current_bytes c - byte_size en, mans := table_drop j (mans c)\<rparr>)"

definition invalidate_card_key :: "string \<Rightarrow> mem_cache \<Rightarrow> mem_cache" where
  "invalidate_card_key k c =
     (case get (ents (cards c)) k of
        None \<Rightarrow> c
      | Some en \<Rightarrow> c\<lparr>current_bytes := current_bytes c - byte_size en, cards := table_drop k (cards c)\<rparr>)"

definition invalidate_card :: "string \<Rightarrow> int \<Rightarrow> mem_cache \<Rightarrow> mem_cache" where
  "invalidate_card pkg v c = invalidate_card_key (card_key pkg v) c"

definition invalidate_package :: "string \<Rightarrow> mem_cache \<Rightarrow> mem_cache" where
  "invalidate_package pkg c =
     foldl (\<lambda>c k. if has_prefix k (pkg @ '':'') then invalidate_card_key k c else c) c
       (map fst (ents (cards c)))"

definition cache_stats :: "mem_cache \<Rightarrow> nat \<times> int" where
  "cache_stats c = (length (ents (mans c)) + length (ents (cards c)), current_bytes c)"

section \<open>Eviction\<close>

datatype kind = KManifest | KCard

type_synonym cand = "string \<times> kind \<times> time"

definition candidates :: "mem_cache \<Rightarrow> cand list" where
  "candidates c = map (\<lambda>(k, t). (k, KManifest, t)) (times (mans c))
     @ map (\<lambda>(k, t). (k, KCard, t)) (times (cards c))"

definition over_budget :: "mem_cache \<Rightarrow> int \<Rightarrow> int \<Rightarrow> bool" where
  "over_budget c te tb \<longleftrightarrow> (0 < max_entries c \<and> max_entries c < te) \<or> (0 < max_bytes c \<and> max_bytes c < tb)"

text \<open>
  The loop of \<open>evictToFitLocked\<close>; the byte target is not lowered, as in the code. None
  stands for a loop that has not ended within the fuel.
\<close>

fun evict_loop :: "(cand list \<Rightarrow> cand) \<Rightarrow> nat \<Rightarrow> mem_cache \<Rightarrow> int \<Rightarrow> int \<Rightarrow> mem_cache option" where
  "evict_loop pick 0 c te tb = None"
| "evict_loop pick (Suc fuel) c te tb =
     (if \<not> over_budget c te tb then Some c
      else if candidates c = [] then Some c
      else (case pick (candidates c) of
              (k, KManifest, _) \<Rightarrow> evict_loop pick fuel (invalidate_manifest k c) (te - 1) tb
            | (k, KCard, _) \<Rightarrow> evict_loop pick fuel (invalidate_card_key k c) (te - 1) tb))"

definition evict_to_fit :: "(cand list \<Rightarrow> cand) \<Rightarrow> mem_cache \<Rightarrow> int \<Rightarrow> int \<Rightarrow> mem_cache option" where
  "evict_to_fit pick c te tb =
     (if max_entries c \<le> 0 \<and> max_bytes c \<le> 0 then Some c
      else evict_loop pick (Suc (length (candidates c))) c te tb)"

definition make_room :: "(cand list \<Rightarrow> cand) \<Rightarrow> mem_cache \<Rightarrow> int \<Rightarrow> mem_cache option" where
  "make_room pick c sz =
     evict_to_fit pick c
       (int (length (ents (mans c)) + length (ents (cards c))) + 1) (current_bytes c + sz)"

section \<open>Insertion\<close>

definition table_put :: "string \<Rightarrow> 'v \<Rightarrow> int \<Rightarrow> time \<Rightarrow> time \<Rightarrow> time \<Rightarrow> 'v table \<Rightarrow> 'v table" where
  "table_put k v sz ex wr stamp t =
     t\<lparr>ents := put k \<lparr>en_value = v, expires_at = ex, written_at = wr, byte_size = sz\<rparr> (ents t),
       times := put k stamp (times t)\<rparr>"

text \<open>The three readings of the clock under the lock are \<open>n1\<close>, \<open>n2\<close> and \<open>n3\<close>.\<close>

definition put_manifest ::
  "(cand list \<Rightarrow> cand) \<Rightarrow> string \<Rightarrow> manifest_record option \<Rightarrow> duration \<Rightarrow> time \<Rightarrow> time \<Rightarrow> time
     \<Rightarrow> mem_cache \<Rightarrow> mem_cache option"
where
  "put_manifest pick j rec ttl n1 n2 n3 c =
     (case rec of
        None \<Rightarrow> Some c
      | Some r \<Rightarrow>
          if \<not> is_live_status (mr_status r) then Some c
          else
            let sz = int (length (mr_raw r))
            in map_option (\<lambda>c. c\<lparr>mans := table_put j r sz (n1 + ttl) n2 n3 (mans c),
                                 current_bytes := current_bytes c + sz\<rparr>)
                 (make_room pick c sz))"

definition put_card ::
  "(cand list \<Rightarrow> cand) \<Rightarrow> string \<Rightarrow> int \<Rightarrow> card_record option \<Rightarrow> duration \<Rightarrow> time \<Rightarrow> time \<Rightarrow> time
     \<Rightarrow> mem_cache \<Rightarrow> mem_cache option"
where
  "put_card pick pkg v rec ttl n1 n2 n3 c =
     (case rec of
        None \<Rightarrow> Some c
      | Some r \<Rightarrow>
          if \<not> is_live_status (cr_status r) then Some c
          else
            let sz = int (length (cr_raw r))
            in map_option (\<lambda>c. c\<lparr>cards := table_put (card_key pkg v) r sz (n1 + ttl) n2 n3 (cards c),
                                 current_bytes := current_bytes c + sz\<rparr>)
                 (make_room pick c sz))"

section \<open>Well-formed caches\<close>

definition table_bytes :: "'v table \<Rightarrow> int" where
  "table_bytes t = sum_list (map (\<lambda>(k, en). byte_size en) (ents t))"

definition good_table :: "('v \<Rightarrow> bool) \<Rightarrow> 'v table \<Rightarrow> bool" where
  "good_table P t \<longleftrightarrow> wf_map (ents t) \<and> wf_map (times t)
     \<and> map fst (ents t) = map fst (times t)
     \<and> (\<forall>(k, en) \<in> set (ents t). P (en_value en) \<and> 0 \<le> byte_size en)"

text \<open>The bytes really held; the counter never falls below them.\<close>

definition held_bytes :: "mem_cache \<Rightarrow> int" where
  "held_bytes c = table_bytes (mans c) + table_bytes (cards c)"

definition held_entries :: "mem_cache \<Rightarrow> nat" where
  "held_entries c = length (ents (mans c)) + length (ents (cards c))"

definition good_cache :: "mem_cache \<Rightarrow> bool" where
  "good_cache c \<longleftrightarrow> good_table (\<lambda>r. is_live_status (mr_status r)) (mans c)
     \<and> good_table (\<lambda>r. is_live_status (cr_status r)) (cards c)
     \<and> held_bytes c \<le> current_bytes c"

definition good_pick :: "(cand list \<Rightarrow> cand) \<Rightarrow> bool" where
  "good_pick pick \<longleftrightarrow> (\<forall>cs. cs \<noteq> [] \<longrightarrow> pick cs \<in> set cs
     \<and> (\<forall>x \<in> set cs. snd (snd (pick cs)) \<le> snd (snd x)))"

lemma keys_del: "map fst xs = map fst ys \<Longrightarrow> map fst (del k xs) = map fst (del k ys)"
  by (simp add: delete_keys)

lemma keys_put: "map fst xs = map fst ys \<Longrightarrow> map fst (put k v xs) = map fst (put k w ys)"
  by (simp add: update_keys map_of_eq_None_iff)

lemma set_put: "x \<in> set (put k v m) \<Longrightarrow> x = (k, v) \<or> x \<in> set m"
  by (induction m) (auto split: if_splits)

lemma set_del: "x \<in> set (del k m) \<Longrightarrow> x \<in> set m"
  by (induction m) (auto split: if_splits)

lemma good_table_drop: "good_table P t \<Longrightarrow> good_table P (table_drop k t)"
  by (auto simp: good_table_def table_drop_def dest: set_del intro: keys_del)

lemma good_table_put:
  "good_table P t \<Longrightarrow> P v \<Longrightarrow> 0 \<le> sz \<Longrightarrow> good_table P (table_put k v sz ex wr st t)"
  by (auto simp: good_table_def table_put_def dest!: set_put intro!: keys_put)

lemma bytes_drop:
  "wf_map (ents t) \<Longrightarrow> get (ents t) k = Some en \<Longrightarrow> table_bytes (table_drop k t) = table_bytes t - byte_size en"
proof -
  have "distinct (map fst m) \<Longrightarrow> get m k = Some en \<Longrightarrow>
      sum_list (map (\<lambda>(k, en). byte_size en) (del k m))
        = sum_list (map (\<lambda>(k, en). byte_size en) m) - byte_size en" for m :: "(string \<times> 'a entry) list"
  proof (induction m)
    case (Cons x m)
    then show ?case
      by (cases x) (auto simp: map_of_eq_None_iff split: if_splits)
  qed simp
  then show "wf_map (ents t) \<Longrightarrow> get (ents t) k = Some en \<Longrightarrow> ?thesis"
    by (simp add: table_bytes_def table_drop_def wf_map_def)
qed

lemma bytes_put:
  assumes "good_table P t"
  shows "table_bytes (table_put k v sz ex wr st t) =
    table_bytes t + sz - (case get (ents t) k of None \<Rightarrow> 0 | Some en \<Rightarrow> byte_size en)"
proof -
  have "sum_list (map (\<lambda>(k, en). byte_size en) (put k en' m))
      = sum_list (map (\<lambda>(k, en). byte_size en) m) + byte_size en'
        - (case get m k of None \<Rightarrow> 0 | Some en \<Rightarrow> byte_size en)" for m and en' :: "'a entry"
    by (induction m) (auto split: option.splits)
  then show ?thesis by (simp add: table_bytes_def table_put_def)
qed

section \<open>Invalidation keeps the cache well formed\<close>

lemma good_tableD:
  "good_table P t \<Longrightarrow> wf_map (ents t)"
  "good_table P t \<Longrightarrow> wf_map (times t)"
  "good_table P t \<Longrightarrow> map fst (ents t) = map fst (times t)"
  "good_table P t \<Longrightarrow> get (ents t) k = Some en \<Longrightarrow> P (en_value en) \<and> 0 \<le> byte_size en"
  by (auto simp: good_table_def dest!: map_of_SomeD)

lemma good_cacheD:
  "good_cache c \<Longrightarrow> good_table (\<lambda>r. is_live_status (mr_status r)) (mans c)"
  "good_cache c \<Longrightarrow> good_table (\<lambda>r. is_live_status (cr_status r)) (cards c)"
  "good_cache c \<Longrightarrow> held_bytes c \<le> current_bytes c"
  by (simp_all add: good_cache_def)

lemma held_bytes_drop:
  "good_cache c \<Longrightarrow> get (ents (mans c)) j = Some en \<Longrightarrow>
     table_bytes (table_drop j (mans c)) = table_bytes (mans c) - byte_size en"
  "good_cache c \<Longrightarrow> get (ents (cards c)) j = Some en' \<Longrightarrow>
     table_bytes (table_drop j (cards c)) = table_bytes (cards c) - byte_size en'"
  by (blast intro: bytes_drop good_tableD(1) good_cacheD)+

lemma good_invalidate_manifest: "good_cache c \<Longrightarrow> good_cache (invalidate_manifest j c)"
proof (cases "get (ents (mans c)) j")
  case (Some en)
  assume g: "good_cache c"
  note held_bytes_drop(1) [OF g Some] good_table_drop [OF good_cacheD(1) [OF g], of j] good_cacheD [OF g]
  then show ?thesis
    using Some unfolding good_cache_def held_bytes_def by (simp add: invalidate_manifest_def)
qed (simp add: invalidate_manifest_def)

lemma good_invalidate_card_key: "good_cache c \<Longrightarrow> good_cache (invalidate_card_key k c)"
proof (cases "get (ents (cards c)) k")
  case (Some en)
  assume g: "good_cache c"
  note held_bytes_drop(2) [OF g Some] good_table_drop [OF good_cacheD(2) [OF g], of k] good_cacheD [OF g]
  then show ?thesis
    using Some unfolding good_cache_def held_bytes_def by (simp add: invalidate_card_key_def)
qed (simp add: invalidate_card_key_def)

lemma budget_invalidate [simp]:
  "max_entries (invalidate_manifest j c) = max_entries c"
  "max_bytes (invalidate_manifest j c) = max_bytes c"
  "max_entries (invalidate_card_key k c) = max_entries c"
  "max_bytes (invalidate_card_key k c) = max_bytes c"
  by (auto simp: invalidate_manifest_def invalidate_card_key_def split: option.split)

lemma entry_after_manifest_drop:
  "get (ents (mans (invalidate_manifest j c))) j' = (if j' = j then None else get (ents (mans c)) j')"
  "cards (invalidate_manifest j c) = cards c"
  by (auto simp: invalidate_manifest_def table_drop_def split: option.split)

lemma entry_after_card_drop:
  "get (ents (cards (invalidate_card_key k c))) k' = (if k' = k then None else get (ents (cards c)) k')"
  "mans (invalidate_card_key k c) = mans c"
  by (auto simp: invalidate_card_key_def table_drop_def split: option.split)

text \<open>What a cache lost: entries only disappear, and the counter moves with the bytes held.\<close>

definition shrinks :: "mem_cache \<Rightarrow> mem_cache \<Rightarrow> bool" where
  "shrinks c d \<longleftrightarrow> (\<forall>j. get (ents (mans d)) j \<in> {None, get (ents (mans c)) j})
     \<and> (\<forall>k. get (ents (cards d)) k \<in> {None, get (ents (cards c)) k})
     \<and> current_bytes d - held_bytes d = current_bytes c - held_bytes c
     \<and> current_bytes d \<le> current_bytes c
     \<and> max_entries d = max_entries c \<and> max_bytes d = max_bytes c"

lemma shrinks_refl [simp]: "shrinks c c"
  by (simp add: shrinks_def)

lemma shrinks_trans: "shrinks a b \<Longrightarrow> shrinks b c \<Longrightarrow> shrinks a c"
proof -
  assume ab: "shrinks a b" and bc: "shrinks b c"
  have "get (ents (mans c)) j \<in> {None, get (ents (mans a)) j}"
    and "get (ents (cards c)) j \<in> {None, get (ents (cards a)) j}" for j
    using ab bc unfolding shrinks_def by (metis insertE singletonD insertI1 insertI2)+
  with ab bc show ?thesis by (simp add: shrinks_def)
qed

lemma shrinks_manifest_drop: "good_cache c \<Longrightarrow> shrinks c (invalidate_manifest j c)"
proof (cases "get (ents (mans c)) j")
  case (Some en)
  assume g: "good_cache c"
  have "0 \<le> byte_size en" using good_tableD(4) [OF good_cacheD(1) [OF g] Some] by simp
  moreover have "current_bytes (invalidate_manifest j c) = current_bytes c - byte_size en"
    "held_bytes (invalidate_manifest j c) = held_bytes c - byte_size en"
    using held_bytes_drop(1) [OF g Some] Some by (simp_all add: invalidate_manifest_def held_bytes_def)
  ultimately show ?thesis by (simp add: shrinks_def entry_after_manifest_drop)
qed (simp add: invalidate_manifest_def)

lemma shrinks_card_drop: "good_cache c \<Longrightarrow> shrinks c (invalidate_card_key k c)"
proof (cases "get (ents (cards c)) k")
  case (Some en)
  assume g: "good_cache c"
  have "0 \<le> byte_size en" using good_tableD(4) [OF good_cacheD(2) [OF g] Some] by simp
  moreover have "current_bytes (invalidate_card_key k c) = current_bytes c - byte_size en"
    "held_bytes (invalidate_card_key k c) = held_bytes c - byte_size en"
    using held_bytes_drop(2) [OF g Some] Some by (simp_all add: invalidate_card_key_def held_bytes_def)
  ultimately show ?thesis by (simp add: shrinks_def entry_after_card_drop)
qed (simp add: invalidate_card_key_def)

lemma held_manifest_drop:
  "good_cache c \<Longrightarrow> get (ents (mans c)) j = Some en \<Longrightarrow>
     Suc (held_entries (invalidate_manifest j c)) = held_entries c"
  using length_del_Suc [of "ents (mans c)" j en] good_tableD(1) [OF good_cacheD(1), of c]
  by (simp add: invalidate_manifest_def held_entries_def table_drop_def)

lemma held_card_drop:
  "good_cache c \<Longrightarrow> get (ents (cards c)) k = Some en \<Longrightarrow>
     Suc (held_entries (invalidate_card_key k c)) = held_entries c"
  using length_del_Suc [of "ents (cards c)" k en] good_tableD(1) [OF good_cacheD(2), of c]
  by (simp add: invalidate_card_key_def held_entries_def table_drop_def)

section \<open>The eviction loop ends\<close>

lemma times_length: "good_table P t \<Longrightarrow> length (times t) = length (ents t)"
  using good_tableD(3) [of P t] length_map [of fst "ents t"] length_map [of fst "times t"] by simp

lemma held_candidates: "good_cache c \<Longrightarrow> length (candidates c) = held_entries c"
  using times_length [OF good_cacheD(1), of c] times_length [OF good_cacheD(2), of c]
  by (simp add: candidates_def held_entries_def)

lemma candidate_key:
  assumes "good_cache c" and "x \<in> set (candidates c)"
  shows "case x of (k, KManifest, _) \<Rightarrow> \<exists>en. get (ents (mans c)) k = Some en
                 | (k, KCard, _) \<Rightarrow> \<exists>en. get (ents (cards c)) k = Some en"
proof -
  have key: "\<exists>en. get (ents t) k = Some en" if "good_table P t" "(k, w) \<in> set (times t)"
    for k w P and t :: "'a table"
  proof -
    have "k \<in> set (map fst (ents t))" using good_tableD(3) [OF that(1)] that(2) by force
    then show ?thesis using map_of_eq_None_iff [of "ents t" k] by (cases "get (ents t) k") auto
  qed
  show ?thesis
    using assms(2) key [OF good_cacheD(1) [OF assms(1)]] key [OF good_cacheD(2) [OF assms(1)]]
    by (auto simp: candidates_def)
qed

lemma evict_loop_ends:
  assumes "good_pick pick" "good_cache c" "held_entries c < fuel" "te = int (held_entries c) + 1"
  shows "\<exists>d. evict_loop pick fuel c te tb = Some d \<and> good_cache d \<and> shrinks c d
     \<and> (held_entries d = 0 \<or> \<not> over_budget d (int (held_entries d) + 1) tb)"
  using assms(2-4)
proof (induction fuel arbitrary: c te)
  case (Suc fuel)
  show ?case
  proof (cases "over_budget c te tb \<and> candidates c \<noteq> []")
    case False
    then show ?thesis using Suc.prems held_candidates [of c] by auto
  next
    case True
    obtain k kd w where p: "pick (candidates c) = (k, kd, w)" by (cases "pick (candidates c)")
    with True assms(1) have "(k, kd, w) \<in> set (candidates c)" unfolding good_pick_def by metis
    note key = candidate_key [OF Suc.prems(1) this]
    let ?d = "case kd of KManifest \<Rightarrow> invalidate_manifest k c | KCard \<Rightarrow> invalidate_card_key k c"
    have d: "good_cache ?d \<and> shrinks c ?d \<and> Suc (held_entries ?d) = held_entries c"
    proof (cases kd)
      case KManifest
      with key obtain en where "get (ents (mans c)) k = Some en" by auto
      with KManifest Suc.prems(1) show ?thesis
        by (simp add: good_invalidate_manifest shrinks_manifest_drop held_manifest_drop)
    next
      case KCard
      with key obtain en where "get (ents (cards c)) k = Some en" by auto
      with KCard Suc.prems(1) show ?thesis
        by (simp add: good_invalidate_card_key shrinks_card_drop held_card_drop)
    qed
    have eq: "evict_loop pick (Suc fuel) c te tb = evict_loop pick fuel ?d (te - 1) tb"
      using True p by (cases kd) simp_all
    have "held_entries ?d < fuel" "te - 1 = int (held_entries ?d) + 1"
      using d Suc.prems(2,3) by linarith+
    then obtain e where e: "evict_loop pick fuel ?d (te - 1) tb = Some e" "good_cache e"
      "shrinks ?d e" "held_entries e = 0 \<or> \<not> over_budget e (int (held_entries e) + 1) tb"
      using Suc.IH [of ?d "te - 1"] d by blast
    show ?thesis using eq e shrinks_trans [of c ?d e] d by metis
  qed
qed simp

lemma make_room_ends:
  assumes "good_pick pick" "good_cache c"
  shows "\<exists>d. make_room pick c sz = Some d \<and> good_cache d \<and> shrinks c d
     \<and> (held_entries d = 0 \<or> \<not> over_budget d (int (held_entries d) + 1) (current_bytes c + sz))"
proof (cases "max_entries c \<le> 0 \<and> max_bytes c \<le> 0")
  case True
  with assms show ?thesis by (auto simp: make_room_def evict_to_fit_def over_budget_def)
next
  case False
  then have "make_room pick c sz = evict_loop pick (Suc (length (candidates c))) c
      (int (held_entries c) + 1) (current_bytes c + sz)"
    unfolding make_room_def evict_to_fit_def held_entries_def by auto
  then show ?thesis
    using evict_loop_ends [OF assms, of "Suc (length (candidates c))" _ "current_bytes c + sz"]
      held_candidates [OF assms(2)] by simp
qed

section \<open>The lifecycle observer\<close>

text \<open>
  \<open>CachedSource\<close> forwards lifecycle events to its cache. \<open>cachedJurisdictions\<close> returns the
  keys in no particular order; the calls that follow commute.
\<close>

definition cached_jurisdictions :: "mem_cache \<Rightarrow> string list" where
  "cached_jurisdictions c = map fst (ents (mans c))"

definition on_manifest_withdrawn :: "string \<Rightarrow> mem_cache \<Rightarrow> mem_cache" where
  "on_manifest_withdrawn j c = invalidate_manifest j c"

definition on_manifest_promoted :: "string \<Rightarrow> mem_cache \<Rightarrow> mem_cache" where
  "on_manifest_promoted j c = invalidate_manifest j c"

definition on_source_withdrawn :: "mem_cache \<Rightarrow> mem_cache" where
  "on_source_withdrawn c = foldl (\<lambda>c j. invalidate_manifest j c) c (cached_jurisdictions c)"

definition on_source_quarantined :: "mem_cache \<Rightarrow> mem_cache" where
  "on_source_quarantined c = foldl (\<lambda>c j. invalidate_manifest j c) c (cached_jurisdictions c)"

definition on_package_superseded :: "string \<Rightarrow> int list \<Rightarrow> mem_cache \<Rightarrow> mem_cache" where
  "on_package_superseded pkg vs c = foldl (\<lambda>c v. invalidate_card pkg v c) c vs"

text \<open>Folds of invalidations.\<close>

lemma manifest_fold:
  "get (ents (mans (foldl (\<lambda>c j. invalidate_manifest j c) c js))) j
     = (if j \<in> set js then None else get (ents (mans c)) j)"
  "cards (foldl (\<lambda>c j. invalidate_manifest j c) c js) = cards c"
  by (induction js arbitrary: c) (auto simp: entry_after_manifest_drop)

lemma manifest_fold_good:
  "good_cache c \<Longrightarrow> good_cache (foldl (\<lambda>c j. invalidate_manifest j c) c js)
     \<and> shrinks c (foldl (\<lambda>c j. invalidate_manifest j c) c js)"
proof (induction js arbitrary: c)
  case (Cons j js)
  then show ?case
    using good_invalidate_manifest [of c j] shrinks_manifest_drop [of c j]
      shrinks_trans [of c "invalidate_manifest j c"] by auto
qed simp

lemma card_fold_good:
  "good_cache c \<Longrightarrow>
     good_cache (foldl (\<lambda>c k. if P k then invalidate_card_key (f k) c else c) c ks)
     \<and> shrinks c (foldl (\<lambda>c k. if P k then invalidate_card_key (f k) c else c) c ks)"
proof (induction ks arbitrary: c)
  case (Cons k ks)
  then show ?case
    using good_invalidate_card_key [of c "f k"] shrinks_card_drop [of c "f k"]
      shrinks_trans [of c "invalidate_card_key (f k) c"] by auto
qed simp

lemma card_fold_mans:
  "mans (foldl (\<lambda>c k. if P k then invalidate_card_key (f k) c else c) c ks) = mans c"
  by (induction ks arbitrary: c) (auto simp: entry_after_card_drop)

lemma superseded_fold:
  "on_package_superseded pkg vs c
     = foldl (\<lambda>c v. if True then invalidate_card_key (card_key pkg v) c else c) c vs"
  by (simp add: on_package_superseded_def invalidate_card_def)

lemma all_manifests_dropped:
  "get (ents (mans (on_source_withdrawn c))) j = None" "cards (on_source_withdrawn c) = cards c"
  by (auto simp: on_source_withdrawn_def manifest_fold cached_jurisdictions_def map_of_eq_None_iff)

lemma quarantined_eq_withdrawn: "on_source_quarantined c = on_source_withdrawn c"
  by (simp add: on_source_quarantined_def on_source_withdrawn_def)

section \<open>What a put does\<close>

definition insert_manifest :: "string \<Rightarrow> manifest_record \<Rightarrow> duration \<Rightarrow> time \<Rightarrow> time \<Rightarrow> time \<Rightarrow> mem_cache \<Rightarrow> mem_cache" where
  "insert_manifest j r ttl n1 n2 n3 d =
     (let sz = int (length (mr_raw r))
      in d\<lparr>mans := table_put j r sz (n1 + ttl) n2 n3 (mans d), current_bytes := current_bytes d + sz\<rparr>)"

definition insert_card :: "string \<Rightarrow> card_record \<Rightarrow> duration \<Rightarrow> time \<Rightarrow> time \<Rightarrow> time \<Rightarrow> mem_cache \<Rightarrow> mem_cache" where
  "insert_card k r ttl n1 n2 n3 d =
     (let sz = int (length (cr_raw r))
      in d\<lparr>cards := table_put k r sz (n1 + ttl) n2 n3 (cards d), current_bytes := current_bytes d + sz\<rparr>)"

definition roomy :: "mem_cache \<Rightarrow> int \<Rightarrow> mem_cache \<Rightarrow> bool" where
  "roomy c sz d \<longleftrightarrow> good_cache d \<and> shrinks c d
     \<and> (held_entries d = 0 \<or> \<not> over_budget d (int (held_entries d) + 1) (current_bytes c + sz))"

lemma put_manifest_cases:
  assumes "good_pick pick" "good_cache c"
  obtains (skipped) "put_manifest pick j rec ttl n1 n2 n3 c = Some c"
      "rec = None \<or> (\<exists>r. rec = Some r \<and> \<not> is_live_status (mr_status r))"
    | (stored) r d where "rec = Some r" "is_live_status (mr_status r)"
      "roomy c (int (length (mr_raw r))) d"
      "put_manifest pick j rec ttl n1 n2 n3 c = Some (insert_manifest j r ttl n1 n2 n3 d)"
proof (cases "rec = None \<or> (\<exists>r. rec = Some r \<and> \<not> is_live_status (mr_status r))")
  case True
  then show thesis by (intro skipped) (auto simp: put_manifest_def)
next
  case False
  then obtain r where r: "rec = Some r" "is_live_status (mr_status r)" by auto
  obtain d where "make_room pick c (int (length (mr_raw r))) = Some d"
    "roomy c (int (length (mr_raw r))) d"
    using make_room_ends [OF assms] unfolding roomy_def by blast
  with r show thesis
    by (intro stored [of r d]) (simp_all add: put_manifest_def insert_manifest_def Let_def)
qed

lemma put_card_cases:
  assumes "good_pick pick" "good_cache c"
  obtains (skipped) "put_card pick pkg v rec ttl n1 n2 n3 c = Some c"
      "rec = None \<or> (\<exists>r. rec = Some r \<and> \<not> is_live_status (cr_status r))"
    | (stored) r d where "rec = Some r" "is_live_status (cr_status r)"
      "roomy c (int (length (cr_raw r))) d"
      "put_card pick pkg v rec ttl n1 n2 n3 c = Some (insert_card (card_key pkg v) r ttl n1 n2 n3 d)"
proof (cases "rec = None \<or> (\<exists>r. rec = Some r \<and> \<not> is_live_status (cr_status r))")
  case True
  then show thesis by (intro skipped) (auto simp: put_card_def)
next
  case False
  then obtain r where r: "rec = Some r" "is_live_status (cr_status r)" by auto
  obtain d where "make_room pick c (int (length (cr_raw r))) = Some d"
    "roomy c (int (length (cr_raw r))) d"
    using make_room_ends [OF assms] unfolding roomy_def by blast
  with r show thesis
    by (intro stored [of r d]) (simp_all add: put_card_def insert_card_def Let_def)
qed

section \<open>Budgets\<close>

text \<open>The invariant of caches into which no record of more than \<open>B\<close> bytes was put.\<close>

definition within :: "int \<Rightarrow> mem_cache \<Rightarrow> bool" where
  "within B c \<longleftrightarrow> good_cache c
     \<and> (0 < max_entries c \<longrightarrow> int (held_entries c) \<le> max_entries c)
     \<and> (0 < max_bytes c \<longrightarrow> held_bytes c \<le> max (max_bytes c) B)"

lemma bytes_put_le:
  assumes "good_table P t"
  shows "table_bytes (table_put k v sz ex wr st t) \<le> table_bytes t + sz"
proof (cases "get (ents t) k")
  case (Some en)
  then show ?thesis using bytes_put [OF assms] good_tableD(4) [OF assms Some] by simp
qed (simp add: bytes_put [OF assms])

lemma entries_put_le: "length (ents (table_put k v sz ex wr st t)) \<le> Suc (length (ents t))"
  by (simp add: table_put_def length_put_le)

lemma good_insert_manifest:
  assumes "good_cache d" "is_live_status (mr_status r)"
  shows "good_cache (insert_manifest j r ttl n1 n2 n3 d)"
    and "held_bytes (insert_manifest j r ttl n1 n2 n3 d) \<le> held_bytes d + int (length (mr_raw r))"
    and "held_entries (insert_manifest j r ttl n1 n2 n3 d) \<le> Suc (held_entries d)"
  using good_table_put [OF good_cacheD(1) [OF assms(1)] assms(2), of "int (length (mr_raw r))"]
    bytes_put_le [OF good_cacheD(1) [OF assms(1)], of j r "int (length (mr_raw r))" "n1 + ttl" n2 n3]
    good_cacheD [OF assms(1)] entries_put_le [of j r _ _ _ _ "mans d"]
  by (simp_all add: insert_manifest_def Let_def good_cache_def held_bytes_def held_entries_def)

lemma good_insert_card:
  assumes "good_cache d" "is_live_status (cr_status r)"
  shows "good_cache (insert_card k r ttl n1 n2 n3 d)"
    and "held_bytes (insert_card k r ttl n1 n2 n3 d) \<le> held_bytes d + int (length (cr_raw r))"
    and "held_entries (insert_card k r ttl n1 n2 n3 d) \<le> Suc (held_entries d)"
  using good_table_put [OF good_cacheD(2) [OF assms(1)] assms(2), of "int (length (cr_raw r))"]
    bytes_put_le [OF good_cacheD(2) [OF assms(1)], of k r "int (length (cr_raw r))" "n1 + ttl" n2 n3]
    good_cacheD [OF assms(1)] entries_put_le [of k r _ _ _ _ "cards d"]
  by (simp_all add: insert_card_def Let_def good_cache_def held_bytes_def held_entries_def)

lemma held_none: "held_entries c = 0 \<Longrightarrow> held_bytes c = 0"
  by (simp add: held_entries_def held_bytes_def table_bytes_def)

text \<open>Room made for \<open>sz\<close> bytes is room for one more entry of that size.\<close>

lemma room_for_one:
  assumes r: "roomy c sz d" and w: "within B c" and sz: "0 \<le> sz" "sz \<le> B"
    and new: "good_cache d'" "held_bytes d' \<le> held_bytes d + sz" "held_entries d' \<le> Suc (held_entries d)"
      "max_entries d' = max_entries d" "max_bytes d' = max_bytes d"
  shows "within B d'"
proof -
  have d: "good_cache d" "current_bytes d \<le> current_bytes c" "max_entries d = max_entries c"
    "max_bytes d = max_bytes c"
    and room: "held_entries d = 0 \<or> \<not> over_budget d (int (held_entries d) + 1) (current_bytes c + sz)"
    using r by (auto simp: roomy_def shrinks_def)
  have "int (held_entries d') \<le> max_entries d'" if "0 < max_entries d'"
    using room that new d by (auto simp: over_budget_def)
  moreover have "held_bytes d' \<le> max (max_bytes d') B" if "0 < max_bytes d'"
    using room that new d sz good_cacheD(3) [OF d(1)] held_none [of d]
    by (auto simp: over_budget_def)
  ultimately show ?thesis using new(1) by (simp add: within_def)
qed

lemma within_shrinks:
  assumes "within B c" "good_cache d" "shrinks c d"
    and "held_entries d \<le> held_entries c"
  shows "within B d"
proof -
  have "held_bytes d \<le> held_bytes c" using assms(3) by (simp add: shrinks_def)
  then show ?thesis using assms by (auto simp: within_def shrinks_def)
qed

lemma keys_subset_length:
  assumes "wf_map m'" and "\<And>k. get m' k \<in> {None, get m k}"
  shows "length m' \<le> length m"
proof -
  have "set (map fst m') \<subseteq> set (map fst m)"
    using assms(2) by (auto simp flip: dom_map_of_conv_image_fst) (metis empty_iff insertE not_None_eq)
  then have "card (set (map fst m')) \<le> card (set (map fst m))" by (rule card_mono [rotated]) simp
  also have "\<dots> \<le> length (map fst m)" by (rule card_length)
  finally show ?thesis using assms(1) distinct_card [of "map fst m'"] by (simp add: wf_map_def)
qed

lemma shrinks_entries: "good_cache d \<Longrightarrow> shrinks c d \<Longrightarrow> held_entries d \<le> held_entries c"
  unfolding held_entries_def shrinks_def
  using keys_subset_length [of "ents (mans d)" "ents (mans c)"]
    keys_subset_length [of "ents (cards d)" "ents (cards c)"]
    good_tableD(1) [OF good_cacheD(1), of d] good_tableD(1) [OF good_cacheD(2), of d]
  by (meson add_mono)

section \<open>Runs\<close>

datatype cache_event =
    PutManifest string "manifest_record option" duration time time time
  | PutCard string int "card_record option" duration time time time
  | DropManifest string | DropCard string int | DropPackage string
  | SourceGone | PackageSuperseded string "int list"

fun cache_step :: "(cand list \<Rightarrow> cand) \<Rightarrow> mem_cache \<Rightarrow> cache_event \<Rightarrow> mem_cache" where
  "cache_step pick c (PutManifest j rec ttl n1 n2 n3) =
     (case put_manifest pick j rec ttl n1 n2 n3 c of None \<Rightarrow> c | Some d \<Rightarrow> d)"
| "cache_step pick c (PutCard pkg v rec ttl n1 n2 n3) =
     (case put_card pick pkg v rec ttl n1 n2 n3 c of None \<Rightarrow> c | Some d \<Rightarrow> d)"
| "cache_step pick c (DropManifest j) = on_manifest_withdrawn j c"
| "cache_step pick c (DropCard pkg v) = invalidate_card pkg v c"
| "cache_step pick c (DropPackage pkg) = invalidate_package pkg c"
| "cache_step pick c SourceGone = on_source_withdrawn c"
| "cache_step pick c (PackageSuperseded pkg vs) = on_package_superseded pkg vs c"

fun event_size :: "cache_event \<Rightarrow> int" where
  "event_size (PutManifest j (Some r) ttl n1 n2 n3) = int (length (mr_raw r))"
| "event_size (PutCard pkg v (Some r) ttl n1 n2 n3) = int (length (cr_raw r))"
| "event_size _ = 0"

lemma drop_step:
  assumes "good_cache c" and "\<forall>j r a b d e. ev \<noteq> PutManifest j r a b d e"
    and "\<forall>p v r a b d e. ev \<noteq> PutCard p v r a b d e"
  shows "good_cache (cache_step pick c ev) \<and> shrinks c (cache_step pick c ev)"
  using assms card_fold_good [of c "\<lambda>k. has_prefix k _" "\<lambda>k. k"] card_fold_good [of c "\<lambda>_. True"]
  by (cases ev) (simp_all add: on_manifest_withdrawn_def good_invalidate_manifest shrinks_manifest_drop
    good_invalidate_card_key shrinks_card_drop invalidate_card_def invalidate_package_def
    on_source_withdrawn_def manifest_fold_good superseded_fold)

lemma within_step:
  assumes p: "good_pick pick" and w: "within B c" and sz: "event_size ev \<le> B"
  shows "within B (cache_step pick c ev)"
proof -
  have g: "good_cache c" using w by (simp add: within_def)
  show ?thesis
  proof (cases ev)
    case (PutManifest j rec ttl n1 n2 n3)
    show ?thesis using p g
    proof (cases rule: put_manifest_cases [of pick c j rec ttl n1 n2 n3])
      case (stored r d)
      have gd: "good_cache d" using stored(3) by (simp add: roomy_def)
      show ?thesis
        unfolding PutManifest using stored(4)
          room_for_one [OF stored(3) w _ _ good_insert_manifest [OF gd stored(2)], of j ttl n1 n2 n3] sz
        by (simp add: PutManifest stored(1) insert_manifest_def Let_def)
    qed (use w PutManifest in simp)
  next
    case (PutCard pkg v rec ttl n1 n2 n3)
    show ?thesis using p g
    proof (cases rule: put_card_cases [of pick c pkg v rec ttl n1 n2 n3])
      case (stored r d)
      have gd: "good_cache d" using stored(3) by (simp add: roomy_def)
      show ?thesis
        unfolding PutCard using stored(4)
          room_for_one [OF stored(3) w _ _ good_insert_card [OF gd stored(2)],
            of "card_key pkg v" ttl n1 n2 n3] sz
        by (simp add: PutCard stored(1) insert_card_def Let_def)
    qed (use w PutCard in simp)
  qed (use drop_step [OF g, of ev pick] w within_shrinks [OF w] shrinks_entries in simp_all)
qed

lemma budgets_step:
  assumes p: "good_pick pick" and g: "good_cache c"
  shows "good_cache (cache_step pick c ev)
    \<and> max_entries (cache_step pick c ev) = max_entries c \<and> max_bytes (cache_step pick c ev) = max_bytes c"
proof (cases ev)
  case (PutManifest j rec ttl n1 n2 n3)
  show ?thesis using p g
    by (cases rule: put_manifest_cases [of pick c j rec ttl n1 n2 n3])
       (simp_all add: PutManifest g roomy_def good_insert_manifest shrinks_def,
        simp_all add: insert_manifest_def Let_def)
next
  case (PutCard pkg v rec ttl n1 n2 n3)
  show ?thesis using p g
    by (cases rule: put_card_cases [of pick c pkg v rec ttl n1 n2 n3])
       (simp_all add: PutCard g roomy_def good_insert_card shrinks_def,
        simp_all add: insert_card_def Let_def)
qed (use drop_step [OF g, of ev pick] shrinks_def in simp_all)

lemma good_new_cache: "good_cache (new_memory_cache me mb)" "within B (new_memory_cache me mb)"
  "ents (mans (new_memory_cache me mb)) = []"
  by (simp_all add: new_memory_cache_def good_cache_def good_table_def held_bytes_def within_def
      table_bytes_def held_entries_def max_def)

lemma run_budgets:
  assumes "good_pick pick" and "good_cache c"
  shows "good_cache (run (cache_step pick) c es)
    \<and> max_entries (run (cache_step pick) c es) = max_entries c
    \<and> max_bytes (run (cache_step pick) c es) = max_bytes c"
  using assms(2) by (induction es arbitrary: c) (auto simp: budgets_step [OF assms(1)])

lemma run_within:
  assumes "good_pick pick" and "\<forall>e \<in> set es. event_size e \<le> B" and "within B c"
  shows "within B (run (cache_step pick) c es)"
  using assms(2,3) by (induction es arbitrary: c) (auto intro: within_step [OF assms(1)])

section \<open>An eviction order\<close>

text \<open>The first of the oldest candidates, one of the choices an unstable sort may make.\<close>

fun oldest :: "cand list \<Rightarrow> cand" where
  "oldest [] = ([], KManifest, 0)"
| "oldest [x] = x"
| "oldest (x # y # ys) = (let z = oldest (y # ys) in if snd (snd x) \<le> snd (snd z) then x else z)"

lemma good_oldest: "good_pick oldest"
proof -
  have "cs \<noteq> [] \<Longrightarrow> oldest cs \<in> set cs \<and> (\<forall>x \<in> set cs. snd (snd (oldest cs)) \<le> snd (snd x))" for cs
    by (induction cs rule: oldest.induct) (auto simp: Let_def)
  then show ?thesis by (simp add: good_pick_def)
qed

interpretation cache: event_system "cache_step oldest" good_cache
  by unfold_locales (simp add: budgets_step good_oldest)

section \<open>The entry a run leaves\<close>

text \<open>The events after which no manifest entry of an earlier event remains.\<close>

fun drops_manifest :: "string \<Rightarrow> cache_event \<Rightarrow> bool" where
  "drops_manifest j (PutManifest j' (Some r) ttl n1 n2 n3) \<longleftrightarrow> j' = j \<and> is_live_status (mr_status r)"
| "drops_manifest j (DropManifest j') \<longleftrightarrow> j' = j"
| "drops_manifest j SourceGone \<longleftrightarrow> True"
| "drops_manifest j _ \<longleftrightarrow> False"

lemma shrinks_manifest_entry:
  "shrinks c d \<Longrightarrow> get (ents (mans d)) j = Some en \<Longrightarrow> get (ents (mans c)) j = Some en"
  unfolding shrinks_def by (metis insertE option.distinct(1) singletonD)

lemma insert_manifest_entry:
  "get (ents (mans (insert_manifest j r ttl n1 n2 n3 d))) j' =
     (if j' = j then Some \<lparr>en_value = r, expires_at = n1 + ttl, written_at = n2,
                          byte_size = int (length (mr_raw r))\<rparr>
      else get (ents (mans d)) j')"
  by (simp add: insert_manifest_def table_put_def Let_def)

lemma entry_step:
  assumes p: "good_pick pick" and g: "good_cache c"
    and en: "get (ents (mans (cache_step pick c ev))) j = Some en"
  shows "(\<exists>ttl n1 n2 n3. ev = PutManifest j (Some (en_value en)) ttl n1 n2 n3
            \<and> is_live_status (mr_status (en_value en)) \<and> expires_at en = n1 + ttl)
    \<or> (get (ents (mans c)) j = Some en \<and> \<not> drops_manifest j ev)"
proof (cases ev)
  case (PutManifest j' rec ttl n1 n2 n3)
  show ?thesis using p g
  proof (cases rule: put_manifest_cases [of pick c j' rec ttl n1 n2 n3])
    case skipped
    then show ?thesis using en PutManifest by (cases rec) auto
  next
    case (stored r d)
    then show ?thesis
      using en PutManifest shrinks_manifest_entry [of c d j en]
      by (auto simp: insert_manifest_entry roomy_def split: if_splits)
  qed
next
  case (PutCard pkg v rec ttl n1 n2 n3)
  show ?thesis using p g
  proof (cases rule: put_card_cases [of pick c pkg v rec ttl n1 n2 n3])
    case (stored r d)
    then show ?thesis
      using en PutCard shrinks_manifest_entry [of c d j en]
      by (simp add: roomy_def) (simp add: insert_card_def Let_def)
  qed (use en PutCard in simp)
next
  case (DropManifest j')
  then show ?thesis
    using en by (auto simp: on_manifest_withdrawn_def entry_after_manifest_drop split: if_splits)
next
  case SourceGone
  then show ?thesis using en by (simp add: all_manifests_dropped)
next
  case (DropCard pkg v)
  then show ?thesis using en by (simp add: invalidate_card_def entry_after_card_drop)
next
  case (DropPackage pkg)
  then show ?thesis
    using en card_fold_mans [of "\<lambda>k. has_prefix k _" "\<lambda>k. k"] by (simp add: invalidate_package_def)
next
  case (PackageSuperseded pkg vs)
  then show ?thesis using en card_fold_mans [of "\<lambda>_. True" "card_key pkg" c vs]
    by (simp add: superseded_fold)
qed

lemma run_entry:
  assumes p: "good_pick pick"
    and en: "get (ents (mans (run (cache_step pick) (new_memory_cache me mb) es))) j = Some en"
  shows "\<exists>es1 ttl n1 n2 n3 es2. es = es1 @ PutManifest j (Some (en_value en)) ttl n1 n2 n3 # es2
    \<and> is_live_status (mr_status (en_value en)) \<and> expires_at en = n1 + ttl
    \<and> (\<forall>e \<in> set es2. \<not> drops_manifest j e)"
  using en
proof (induction es rule: rev_induct)
  case Nil
  then show ?case by (simp add: good_new_cache)
next
  case (snoc ev es)
  let ?c = "run (cache_step pick) (new_memory_cache me mb) es"
  have g: "good_cache ?c" using run_budgets [OF p good_new_cache(1)] by blast
  have "get (ents (mans (cache_step pick ?c ev))) j = Some en" using snoc.prems by simp
  from entry_step [OF p g this] show ?case
  proof (elim disjE exE conjE)
    fix ttl n1 n2 n3
    assume "ev = PutManifest j (Some (en_value en)) ttl n1 n2 n3"
      "is_live_status (mr_status (en_value en))" "expires_at en = n1 + ttl"
    then show ?thesis by fastforce
  next
    assume "get (ents (mans ?c)) j = Some en" and nd: "\<not> drops_manifest j ev"
    from snoc.IH [OF this(1)] obtain es1 ttl n1 n2 n3 es2 where
      "es = es1 @ PutManifest j (Some (en_value en)) ttl n1 n2 n3 # es2"
      "is_live_status (mr_status (en_value en))" "expires_at en = n1 + ttl"
      "\<forall>e \<in> set es2. \<not> drops_manifest j e" by blast
    then show ?thesis using nd
      by (intro exI [of _ es1] exI [of _ ttl] exI [of _ n1] exI [of _ n2] exI [of _ n3]
          exI [of _ "es2 @ [ev]"]) auto
  qed
qed

section \<open>The cached source\<close>

record delivery_config =
  max_card_bytes :: int
  max_manifest_bytes :: int
  max_resource_bytes :: int
  stream_chunk_size :: int
  manifest_cache_ttl :: duration
  card_cache_ttl :: duration

definition default_config :: delivery_config where
  "default_config =
     \<lparr>max_card_bytes = 1048576, max_manifest_bytes = 262144, max_resource_bytes = 104857600,
      stream_chunk_size = 32768, manifest_cache_ttl = 10 * second, card_cache_ttl = 10 * minute\<rparr>"

definition new_cached_source_cache :: mem_cache where
  "new_cached_source_cache = new_memory_cache 4096 33554432"

text \<open>
  GetManifest is a lookup; on a miss the leader looks again, asks the upstream source and
  fills the cache with the answer. The lookups, the fetch and the fill are separate steps:
  the lock is not held between them, and a lifecycle event may come in between.
\<close>

definition fill_manifest ::
  "(cand list \<Rightarrow> cand) \<Rightarrow> delivery_config \<Rightarrow> string \<Rightarrow> manifest_record option \<Rightarrow> time \<Rightarrow> time \<Rightarrow> time
     \<Rightarrow> mem_cache \<Rightarrow> mem_cache option"
where
  "fill_manifest pick cfg j rec n1 n2 n3 c =
     (case rec of
        Some r \<Rightarrow>
          if is_live_status (mr_status r) \<and> 0 < manifest_cache_ttl cfg
          then put_manifest pick j rec (manifest_cache_ttl cfg) n1 n2 n3 c else Some c
      | None \<Rightarrow> Some c)"

definition fill_card ::
  "(cand list \<Rightarrow> cand) \<Rightarrow> delivery_config \<Rightarrow> string \<Rightarrow> int \<Rightarrow> card_record option \<Rightarrow> time \<Rightarrow> time \<Rightarrow> time
     \<Rightarrow> mem_cache \<Rightarrow> mem_cache option"
where
  "fill_card pick cfg pkg v rec n1 n2 n3 c =
     (case rec of
        Some r \<Rightarrow>
          if is_live_status (cr_status r) \<and> 0 < card_cache_ttl cfg
          then put_card pick pkg v rec (card_cache_ttl cfg) n1 n2 n3 c else Some c
      | None \<Rightarrow> Some c)"

text \<open>A call during which nothing else happens; every reading of the clock is \<open>now\<close>.\<close>

definition cached_get_manifest ::
  "(cand list \<Rightarrow> cand) \<Rightarrow> delivery_config \<Rightarrow> (string \<Rightarrow> 'e + manifest_record option) \<Rightarrow> string \<Rightarrow> time
     \<Rightarrow> mem_cache \<Rightarrow> (mem_cache \<times> ('e + manifest_record option)) option"
where
  "cached_get_manifest pick cfg upstream j now c =
     (case get_manifest c j now of
        Some r \<Rightarrow> Some (c, Inr (Some r))
      | None \<Rightarrow>
          (case upstream j of
             Inl e \<Rightarrow> Some (c, Inl e)
           | Inr rec \<Rightarrow> map_option (\<lambda>d. (d, Inr rec)) (fill_manifest pick cfg j rec now now now c)))"

definition cached_get_card ::
  "(cand list \<Rightarrow> cand) \<Rightarrow> delivery_config \<Rightarrow> (string \<Rightarrow> int \<Rightarrow> 'e + card_record option) \<Rightarrow> string \<Rightarrow> int \<Rightarrow> time
     \<Rightarrow> mem_cache \<Rightarrow> (mem_cache \<times> ('e + card_record option)) option"
where
  "cached_get_card pick cfg upstream pkg v now c =
     (case get_card c pkg v now of
        Some r \<Rightarrow> Some (c, Inr (Some r))
      | None \<Rightarrow>
          (case upstream pkg v of
             Inl e \<Rightarrow> Some (c, Inl e)
           | Inr rec \<Rightarrow> map_option (\<lambda>d. (d, Inr rec)) (fill_card pick cfg pkg v rec now now now c)))"

section \<open>Demonstration values\<close>

definition demo_record :: "nat \<Rightarrow> manifest_record" where
  "demo_record n = \<lparr>mr_jurisdiction = ''ka'', mr_revision = int n, mr_raw = replicate n CHR ''x'',
     mr_checksum = ''c'', mr_status = ''CURRENT''\<rparr>"

definition demo_card :: "nat \<Rightarrow> card_record" where
  "demo_card n = \<lparr>cr_package_id = ''p'', cr_version = 1, cr_raw = replicate n CHR ''y'',
     cr_checksum = ''d'', cr_status = []\<rparr>"

definition demo_puts :: "cache_event list" where
  "demo_puts = [PutCard ''p'' 1 (Some (demo_card 2)) 100 0 0 0,
                PutManifest ''ka'' (Some (demo_record 4)) 10 1 1 1,
                PutManifest ''tn'' (Some (demo_record 3)) 10 2 2 2]"

section \<open>Properties\<close>

text \<open>The cache stays within its budgets: in every run of puts, invalidations and
  lifecycle events from a new cache, for every choice among equally old entries, the number
  of entries never exceeds a positive entry limit, the bytes really held never exceed a
  positive byte limit or, where a single record is larger than the limit, that record, and
  every put returns (the eviction loop ends).\<close>

theorem cache_within_budget:
  assumes "good_pick pick" and "\<forall>e \<in> set es. event_size e \<le> B"
  shows "let c = run (cache_step pick) (new_memory_cache me mb) es
     in (0 < me \<longrightarrow> int (held_entries c) \<le> me) \<and> (0 < mb \<longrightarrow> held_bytes c \<le> max mb B)
      \<and> put_manifest pick j mrec ttl n1 n2 n3 c \<noteq> None \<and> put_card pick pkg v crec ttl n1 n2 n3 c \<noteq> None"
proof -
  let ?c = "run (cache_step pick) (new_memory_cache me mb) es"
  have g: "good_cache ?c" "max_entries ?c = me" "max_bytes ?c = mb"
    using run_budgets [OF assms(1) good_new_cache(1), of me mb es] by (simp_all add: new_memory_cache_def)
  have "put_manifest pick j mrec ttl n1 n2 n3 ?c \<noteq> None"
    by (rule put_manifest_cases [OF assms(1) g(1), of j mrec ttl n1 n2 n3]) simp_all
  moreover have "put_card pick pkg v crec ttl n1 n2 n3 ?c \<noteq> None"
    by (rule put_card_cases [OF assms(1) g(1), of pkg v crec ttl n1 n2 n3]) simp_all
  ultimately show ?thesis
    using run_within [OF assms good_new_cache(2), of me mb] g by (simp add: within_def Let_def)
qed

theorem cache_within_budget_witness:
  "held_bytes (run (cache_step oldest) (new_memory_cache 2 8) demo_puts) \<le> 8
   \<and> held_entries (run (cache_step oldest) (new_memory_cache 2 8) demo_puts) \<le> 2"
proof -
  have "\<forall>e \<in> set demo_puts. event_size e \<le> 4" by code_simp
  from cache_within_budget [OF good_oldest this, of 2 8] show ?thesis by (simp add: Let_def)
qed

text \<open>What the cache serves is what was cached last: a manifest served at \<open>now\<close> was put
  by an event of the run, with a live status and a lifetime that includes \<open>now\<close>, and since
  then the jurisdiction was neither invalidated nor withdrawn with its source nor put again.\<close>

theorem cache_serves_latest:
  assumes "good_pick pick"
    and "get_manifest (run (cache_step pick) (new_memory_cache me mb) es) j now = Some r"
  shows "\<exists>es1 ttl n1 n2 n3 es2. es = es1 @ PutManifest j (Some r) ttl n1 n2 n3 # es2
    \<and> is_live_status (mr_status r) \<and> now \<le> n1 + ttl \<and> (\<forall>e \<in> set es2. \<not> drops_manifest j e)"
proof -
  obtain en where "get (ents (mans (run (cache_step pick) (new_memory_cache me mb) es))) j = Some en"
    and en: "en_value en = r" "now \<le> expires_at en"
    using assms(2) by (auto simp: get_manifest_def table_get_def split: option.splits if_splits)
  from run_entry [OF assms(1) this(1)] obtain es1 ttl n1 n2 n3 es2 where
    "es = es1 @ PutManifest j (Some r) ttl n1 n2 n3 # es2" "is_live_status (mr_status r)"
    "now \<le> n1 + ttl" "\<forall>e \<in> set es2. \<not> drops_manifest j e" using en by auto
  then show ?thesis by blast
qed

theorem cache_serves_latest_witness:
  "\<exists>es1 ttl n1 n2 n3 es2. demo_puts = es1 @ PutManifest ''ka'' (Some (demo_record 4)) ttl n1 n2 n3 # es2
    \<and> 11 \<le> n1 + ttl"
proof -
  have "get_manifest (run (cache_step oldest) (new_memory_cache 4 90) demo_puts) ''ka'' 11
      = Some (demo_record 4)" by code_simp
  from cache_serves_latest [OF good_oldest this] show ?thesis by blast
qed

text \<open>Putting an entry again inflates the byte counter: the size of the entry that is
  overwritten is not taken off \<open>currentBytes\<close>, so each refresh of a key that is still in
  the map widens the gap between the counter and the bytes held by that size.\<close>

theorem cache_refresh_inflates:
  assumes "good_cache c" and "get (ents (mans c)) j = Some en" and "is_live_status (mr_status r)"
    and "\<not> over_budget c (int (held_entries c) + 1) (current_bytes c + int (length (mr_raw r)))"
  shows "\<exists>d. put_manifest pick j (Some r) ttl n1 n2 n3 c = Some d \<and> held_entries d = held_entries c
    \<and> current_bytes d - held_bytes d = current_bytes c - held_bytes c + byte_size en"
proof -
  have "make_room pick c (int (length (mr_raw r))) = Some c"
    using assms(4) by (simp add: make_room_def evict_to_fit_def held_entries_def)
  then have "put_manifest pick j (Some r) ttl n1 n2 n3 c = Some (insert_manifest j r ttl n1 n2 n3 c)"
    using assms(3) by (simp add: put_manifest_def insert_manifest_def Let_def)
  moreover have "held_bytes (insert_manifest j r ttl n1 n2 n3 c)
      = held_bytes c + int (length (mr_raw r)) - byte_size en"
    using bytes_put [OF good_cacheD(1) [OF assms(1)]] assms(2)
    by (simp add: insert_manifest_def held_bytes_def Let_def)
  ultimately show ?thesis
    using assms(2) by (simp add: insert_manifest_def Let_def held_entries_def table_put_def length_put)
qed

text \<open>
  Three refreshes of a manifest of four bytes beside a card of two: six bytes are held, the
  counter passes the limit of ten, and the third refresh flushes the card.
\<close>

theorem cache_refresh_inflates_witness:
  "let c = run (cache_step oldest) (new_memory_cache 0 10)
         [PutCard ''p'' 1 (Some (demo_card 2)) 1000 0 0 0, PutManifest ''ka'' (Some (demo_record 4)) 10 1 1 1];
       d = run (cache_step oldest) c [PutManifest ''ka'' (Some (demo_record 4)) 10 20 20 20];
       e = run (cache_step oldest) d [PutManifest ''ka'' (Some (demo_record 4)) 10 40 40 40]
   in held_bytes d = 6 \<and> current_bytes d = 10 \<and> get_card d ''p'' 1 30 \<noteq> None
      \<and> get_card e ''p'' 1 50 = None"
proof -
  let ?c = "run (cache_step oldest) (new_memory_cache 0 10)
         [PutCard ''p'' 1 (Some (demo_card 2)) 1000 0 0 0, PutManifest ''ka'' (Some (demo_record 4)) 10 1 1 1]"
  let ?d = "run (cache_step oldest) ?c [PutManifest ''ka'' (Some (demo_record 4)) 10 20 20 20]"
  have g: "good_cache ?c" by (rule cache.inv_run) (rule good_new_cache)
  have en: "get (ents (mans ?c)) ''ka'' =
      Some \<lparr>en_value = demo_record 4, expires_at = 11, written_at = 1, byte_size = 4\<rparr>" by code_simp
  have room: "\<not> over_budget ?c (int (held_entries ?c) + 1)
      (current_bytes ?c + int (length (mr_raw (demo_record 4))))" by code_simp
  have live: "is_live_status (mr_status (demo_record 4))" by code_simp
  have "current_bytes ?c = 6" "held_bytes ?c = 6" "current_bytes ?d = 10" by code_simp+
  with cache_refresh_inflates [OF g en live room, of oldest 10 20 20 20]
  have "held_bytes ?d = 6" "current_bytes ?d = 10" by auto
  moreover have "get_card ?d ''p'' 1 30 \<noteq> None" by code_simp
  moreover have "get_card (run (cache_step oldest) ?d
      [PutManifest ''ka'' (Some (demo_record 4)) 10 40 40 40]) ''p'' 1 50 = None" by code_simp
  ultimately show ?thesis by (simp add: Let_def)
qed

text \<open>A withdrawal does not hold against a fetch in flight: when the upstream answer was
  read before the withdrawal and the fill runs after the invalidation, the withdrawn
  record is cached again and served as current for the whole TTL.\<close>

theorem cache_withdrawal_race:
  assumes "good_pick pick" and "good_cache c" and "is_live_status (mr_status r)"
    and "0 < manifest_cache_ttl cfg" and "now \<le> n1 + manifest_cache_ttl cfg"
  shows "get_manifest (on_manifest_withdrawn j c) j now = None
    \<and> (\<exists>d. fill_manifest pick cfg j (Some r) n1 n2 n3 (on_manifest_withdrawn j c) = Some d
          \<and> get_manifest d j now = Some r)"
proof
  show "get_manifest (on_manifest_withdrawn j c) j now = None"
    by (simp add: get_manifest_def table_get_def on_manifest_withdrawn_def entry_after_manifest_drop)
  have "good_cache (on_manifest_withdrawn j c)"
    using assms(2) by (simp add: on_manifest_withdrawn_def good_invalidate_manifest)
  from assms(1) this show "\<exists>d. fill_manifest pick cfg j (Some r) n1 n2 n3 (on_manifest_withdrawn j c) = Some d
      \<and> get_manifest d j now = Some r"
  proof (cases rule: put_manifest_cases [of pick "on_manifest_withdrawn j c" j "Some r"
        "manifest_cache_ttl cfg" n1 n2 n3])
    case skipped
    then show ?thesis using assms(3) by simp
  next
    case (stored r' d)
    then show ?thesis
      using assms(3-5) by (simp add: fill_manifest_def get_manifest_def table_get_def insert_manifest_entry)
  qed
qed

theorem cache_withdrawal_race_witness:
  "\<exists>d. fill_manifest oldest default_config ''ka'' (Some (demo_record 4)) 7 7 7
         (on_manifest_withdrawn ''ka'' new_cached_source_cache) = Some d
     \<and> get_manifest d ''ka'' (9 * second) = Some (demo_record 4)"
proof -
  have "is_live_status (mr_status (demo_record 4))" "0 < manifest_cache_ttl default_config"
    "9 * second \<le> 7 + manifest_cache_ttl default_config" by code_simp+
  then show ?thesis
    unfolding new_cached_source_cache_def
    by (rule cache_withdrawal_race [OF good_oldest good_new_cache(1), THEN conjunct2])
qed

text \<open>A source that is withdrawn or quarantined takes every cached manifest with it, but
  none of the cached cards: they are served as before until they expire.\<close>

theorem cache_source_withdrawal:
  "get_manifest (on_source_withdrawn c) j now = None
   \<and> get_card (on_source_withdrawn c) pkg v now = get_card c pkg v now
   \<and> get_manifest (on_source_quarantined c) j now = None
   \<and> get_card (on_source_quarantined c) pkg v now = get_card c pkg v now"
  by (simp add: quarantined_eq_withdrawn get_manifest_def get_card_def table_get_def all_manifests_dropped)

end
