(* ===== verification/Delivery_Range.thy ===== *)
theory Delivery_Range
  imports Systems
begin

text \<open>
  Byte ranges and entity tags of the offline delivery endpoint,
  backend/internal/offlinedelivery/range.go: ParseRange with its error classes, the
  Content-Range texts, and the comparison of entity tags. A header is its string value.
\<close>

section \<open>Ranges\<close>

datatype range_error = ErrInvalidRange | ErrRangeUnsatisfiable

record byte_range =
  rg_start :: int
  rg_end :: int
  rg_length :: int

definition format_content_range :: "byte_range \<Rightarrow> int \<Rightarrow> string" where
  "format_content_range r tot =
     ''bytes '' @ show_int (rg_start r) @ ''-'' @ show_int (rg_end r) @ ''/'' @ show_int tot"

definition format_unsatisfiable_range :: "int \<Rightarrow> string" where
  "format_unsatisfiable_range tot = ''bytes */'' @ show_int tot"

definition mk_range :: "int \<Rightarrow> int \<Rightarrow> byte_range" where
  "mk_range s e = \<lparr>rg_start = s, rg_end = e, rg_length = e - s + 1\<rparr>"

text \<open>The suffix form, and the forms with a start position.\<close>

definition suffix_range :: "string \<Rightarrow> int \<Rightarrow> range_error + byte_range option" where
  "suffix_range end_str tot =
     (case parse_int64 end_str of
        None \<Rightarrow> Inl ErrInvalidRange
      | Some n \<Rightarrow>
          if n < 0 then Inl ErrInvalidRange
          else if n = 0 then Inl ErrRangeUnsatisfiable
          else if tot \<le> 0 then Inl ErrRangeUnsatisfiable
          else let m = (if tot < n then tot else n)
               in Inr (Some (mk_range (tot - m) (tot - 1))))"

definition bounded_range :: "string \<Rightarrow> string \<Rightarrow> int \<Rightarrow> range_error + byte_range option" where
  "bounded_range start_str end_str tot =
     (case parse_int64 start_str of
        None \<Rightarrow> Inl ErrInvalidRange
      | Some s \<Rightarrow>
          if s < 0 then Inl ErrInvalidRange
          else if tot \<le> s then Inl ErrRangeUnsatisfiable
          else if end_str = [] then Inr (Some (mk_range s (tot - 1)))
          else (case parse_int64 end_str of
                  None \<Rightarrow> Inl ErrInvalidRange
                | Some e \<Rightarrow>
                    if e < 0 then Inl ErrInvalidRange
                    else if e < s then Inl ErrRangeUnsatisfiable
                    else Inr (Some (mk_range s (if tot \<le> e then tot - 1 else e)))))"

text \<open>The part before the first comma, and the two sides of the first dash.\<close>

definition first_spec :: "string \<Rightarrow> string" where
  "first_spec header =
     (let spec = trim_space (trim_prefix header ''bytes='')
      in case index_byte spec (CHR '','') of
           None \<Rightarrow> spec
         | Some i \<Rightarrow> trim_space (take i spec))"

definition parse_range :: "string \<Rightarrow> int \<Rightarrow> range_error + byte_range option" where
  "parse_range header tot =
     (if header = [] then Inr None
      else if \<not> has_prefix header ''bytes='' then Inl ErrInvalidRange
      else let spec = first_spec header
           in case index_byte spec (CHR ''-'') of
                None \<Rightarrow> Inl ErrInvalidRange
              | Some d \<Rightarrow>
                  let s = trim_space (take d spec); e = trim_space (drop (d + 1) spec)
                  in if s = [] \<and> e = [] then Inl ErrInvalidRange
                     else if s = [] then suffix_range e tot
                     else bounded_range s e tot)"

section \<open>Entity tags\<close>

definition normalize_etag :: "string \<Rightarrow> string" where
  "normalize_etag tag = trim_byte (CHR 0x22) (trim_prefix (trim_space tag) ''W/'')"

definition match_etag :: "string \<Rightarrow> string \<Rightarrow> bool" where
  "match_etag client server \<longleftrightarrow>
     normalize_etag client \<noteq> [] \<and> normalize_etag client = normalize_etag server"

definition check_if_range :: "string \<Rightarrow> string \<Rightarrow> bool" where
  "check_if_range if_range current \<longleftrightarrow> if_range = [] \<or> match_etag if_range current"

definition check_if_none_match :: "string \<Rightarrow> string \<Rightarrow> bool" where
  "check_if_none_match header current =
     (if header = [] then False
      else if header = ''*'' then True
      else (\<exists>tag \<in> set (split_byte (CHR '','') header). match_etag tag current))"

definition format_etag :: "string \<Rightarrow> string" where
  "format_etag checksum =
     (let c = trim_space checksum;
          c' = (if has_prefix c ''sha256:'' then trim_prefix c ''sha256:''
                else if has_prefix c ''sha256-'' then trim_prefix c ''sha256-'' else c)
      in [CHR 0x22] @ ''sha256-'' @ c' @ [CHR 0x22])"

section \<open>Texts that trimming leaves alone\<close>

definition visible :: "char \<Rightarrow> bool" where
  "visible c \<longleftrightarrow> (let n = of_char c :: int in 32 < n \<and> n < 127)"

lemma encodings_not_visible:
  "\<forall>e \<in> set space_encodings. e \<noteq> [] \<and> \<not> visible (hd e) \<and> \<not> visible (last e)"
  by code_simp

lemma no_space_prefix:
  assumes "s = [] \<or> visible (hd s)" "e \<in> set es" "e \<noteq> []" "\<not> visible (hd e)"
  shows "\<not> has_prefix s e"
  using assms by (auto simp: has_prefix_iff)

lemma trim_space_visible:
  assumes "s = [] \<or> visible (hd s) \<and> visible (last s)"
  shows "trim_space s = s"
proof -
  have "strip_front space_encodings s = s"
    using assms encodings_not_visible by (intro strip_front_idle) (auto simp: no_space_prefix)
  moreover have "\<not> has_prefix (rev s) (rev e)" if "e \<in> set space_encodings" for e
    using assms encodings_not_visible that
    by (intro no_space_prefix [of "rev s" "rev e" "map rev space_encodings"]) (auto simp: hd_rev)
  then have "strip_front (map rev space_encodings) (rev s) = rev s"
    by (intro strip_front_idle) auto
  ultimately show ?thesis by (simp add: trim_space_def)
qed

lemma visible_digit: "d < 10 \<Longrightarrow> visible (digit_char d)"
  by (simp add: visible_def digit_char_def of_char_of)

lemma set_show_nat: "c \<in> set (show_nat n) \<Longrightarrow> \<exists>d < 10. c = digit_char d"
proof (induction n rule: show_nat.induct)
  case (1 n)
  then show ?case
    by (cases "n < 10") (auto simp: show_nat.simps [of n] intro: exI [of _ "n mod 10"])
qed

lemma digit_not_separator:
  "d < 10 \<Longrightarrow> digit_char d \<noteq> CHR '',''" "d < 10 \<Longrightarrow> digit_char d \<noteq> CHR ''-''"
  by (auto simp: digit_char_def dest!: arg_cong [where f = "of_char :: char \<Rightarrow> int"])

lemma visible_show_nat:
  "visible (hd (show_nat n))" "visible (last (show_nat n))"
  using set_show_nat [of "hd (show_nat n)" n] set_show_nat [of "last (show_nat n)" n] visible_digit
  by auto

lemma no_separator_show_nat: "CHR '','' \<notin> set (show_nat n)" "CHR ''-'' \<notin> set (show_nat n)"
  using set_show_nat digit_not_separator by metis+

lemma parse_int64_show_nat: "int n \<le> max_int64 \<Longrightarrow> parse_int64 (show_nat n) = Some (int n)"
  using parse_int64_show_int [of "int n"] by (simp add: show_int_def min_int64_def)

section \<open>Headers in canonical form\<close>

definition range_header :: "string \<Rightarrow> string \<Rightarrow> string" where
  "range_header a b = ''bytes='' @ a @ ''-'' @ b"

definition position :: "string \<Rightarrow> bool" where
  "position a \<longleftrightarrow> a = [] \<or> (\<exists>n. a = show_nat n)"

lemma positionD:
  "position a \<Longrightarrow> a = [] \<or> visible (hd a) \<and> visible (last a)"
  "position a \<Longrightarrow> CHR '','' \<notin> set a" "position a \<Longrightarrow> CHR ''-'' \<notin> set a"
  by (auto simp: position_def visible_show_nat no_separator_show_nat)

lemma visible_dash: "visible (CHR ''-'')"
  by code_simp

lemma parse_range_header:
  assumes "position a" "position b"
  shows "parse_range (range_header a b) tot =
     (if a = [] \<and> b = [] then Inl ErrInvalidRange
      else if a = [] then suffix_range b tot else bounded_range a b tot)"
proof -
  let ?spec = "a @ CHR ''-'' # b"
  have "trim_space ?spec = ?spec"
    using positionD(1) [OF assms(1)] positionD(1) [OF assms(2)] visible_dash
    by (intro trim_space_visible) (auto simp: hd_append)
  moreover have "index_byte ?spec (CHR '','') = None"
    using positionD(2) [OF assms(1)] positionD(2) [OF assms(2)] by (simp add: index_byte_None)
  moreover have "trim_prefix (range_header a b) ''bytes='' = ?spec"
    using trim_prefix_append [of "''bytes=''" ?spec] by (simp add: range_header_def)
  ultimately have spec: "first_spec (range_header a b) = ?spec"
    by (simp add: first_spec_def Let_def)
  have "trim_space a = a" "trim_space b = b"
    using positionD(1) assms by (auto intro!: trim_space_visible)
  moreover have "index_byte ?spec (CHR ''-'') = Some (length a)"
    using index_byte_append [OF positionD(3) [OF assms(1)]] .
  moreover have "has_prefix (range_header a b) ''bytes=''"
    unfolding range_header_def by (rule has_prefix_append)
  moreover have "range_header a b \<noteq> []" by (simp add: range_header_def)
  ultimately show ?thesis by (simp add: parse_range_def Let_def spec)
qed

section \<open>Properties\<close>

text \<open>Every range that ParseRange grants lies inside the resource and has the length it
  says, for every header and every size.\<close>

theorem range_within_resource:
  assumes "parse_range header tot = Inr (Some r)"
  shows "0 \<le> rg_start r \<and> rg_start r \<le> rg_end r \<and> rg_end r < tot
    \<and> rg_length r = rg_end r - rg_start r + 1 \<and> 0 < rg_length r \<and> rg_length r \<le> tot"
  using assms
  by (auto simp: parse_range_def suffix_range_def bounded_range_def mk_range_def Let_def
      split: if_splits option.splits)

theorem range_within_resource_witness:
  "parse_range ''bytes= -5, 9-'' 3 = Inr (Some (mk_range 0 2)) \<and> rg_end (mk_range 0 2) < 3"
proof -
  have p: "parse_range ''bytes= -5, 9-'' 3 = Inr (Some (mk_range 0 2))" by code_simp
  with range_within_resource [OF p] show ?thesis by simp
qed

text \<open>ParseRange means what the header says: \<open>first-last\<close> grants the bytes from first to
  last or to the end of the resource, \<open>first-\<close> those to the end, \<open>-n\<close> the last n bytes or
  all of them; a first position beyond the resource, an empty suffix and a last position
  before the first are unsatisfiable.\<close>

theorem range_header_meaning:
  assumes "int a \<le> max_int64" and "int b \<le> max_int64" and "0 \<le> tot"
  shows "parse_range (range_header (show_nat a) (show_nat b)) tot =
      (if int a < tot \<and> a \<le> b then Inr (Some (mk_range (int a) (min (int b) (tot - 1))))
       else Inl ErrRangeUnsatisfiable)
    \<and> parse_range (range_header (show_nat a) []) tot =
      (if int a < tot then Inr (Some (mk_range (int a) (tot - 1))) else Inl ErrRangeUnsatisfiable)
    \<and> parse_range (range_header [] (show_nat a)) tot =
      (if 0 < a \<and> 0 < tot then Inr (Some (mk_range (max 0 (tot - int a)) (tot - 1)))
       else Inl ErrRangeUnsatisfiable)"
proof -
  have "position (show_nat a)" "position (show_nat b)" "position []"
    by (auto simp: position_def)
  then show ?thesis
    using parse_int64_show_nat [OF assms(1)] parse_int64_show_nat [OF assms(2)] assms(3)
    by (simp add: parse_range_header suffix_range_def bounded_range_def Let_def min_def max_def)
qed

theorem range_header_meaning_witness:
  "parse_range (range_header (show_nat 3) (show_nat 700)) 9 = Inr (Some (mk_range 3 8))"
proof -
  have "int 3 \<le> max_int64" "int 700 \<le> max_int64" by (simp_all add: max_int64_def)
  from range_header_meaning [OF this, of 9] show ?thesis by simp
qed

text \<open>If-Range is compared weakly: a weak tag with the same text as the current strong tag
  is honoured with a partial response, although only a strong match may be.\<close>

theorem range_weak_tag_honoured:
  "check_if_range (''W/'' @ format_etag ''ab'') (format_etag ''ab'')
   \<and> format_etag ''ab'' \<noteq> ''W/'' @ format_etag ''ab''"
  by code_simp


end
