(* ===== verification/Offline_Types.thy ===== *)
theory Offline_Types
  imports Systems
begin

text \<open>
  The public offline documents of backend/internal/offlinepkg: the structs of types.go as
  records, with the sentinel errors and the revocation tests of validate.go. Enumerated
  strings stay strings, as they are decoded from JSON and checked by the validators; a
  pointer that may be nil is an option; \<open>any\<close> is a JSON value.
\<close>

section \<open>Errors\<close>

datatype off_kind = ErrInvalidSignature | ErrSignerUnauthorized | ErrKeyExpired | ErrChecksumMismatch
  | ErrVersionRollback | ErrMalformedData | ErrUnknownKey | ErrKeyRevoked

text \<open>The sentinels that \<open>errors.Is\<close> finds in an error, and its text.\<close>

type_synonym off_error = "off_kind list \<times> msg"

definition malformed :: "string \<Rightarrow> arg list \<Rightarrow> off_error" where
  "malformed f xs = ([ErrMalformedData], Fmt f xs)"

section \<open>JSON values\<close>

text \<open>A number is kept as the text it has in the document (\<open>json.Number\<close>).\<close>

datatype json = JNull | JBool bool | JNum string | JStr string
  | JArr "json list" | JObj "(string \<times> json) list"

section \<open>Manifest\<close>

record signature =
  sig_algorithm :: string
  sig_key_id :: string
  sig_value :: string

record card_descriptor =
  cd_package_id :: string
  cd_version :: int
  cd_uri :: string
  cd_checksum :: string
  cd_uncompressed :: int
  cd_compressed :: int
  cd_content_type :: string

record resource_descriptor =
  rd_resource_id :: string
  rd_type :: string
  rd_uri :: string
  rd_checksum :: string
  rd_byte_size :: int
  rd_content_type :: string
  rd_required :: bool
  rd_attribution :: string

record superseded_version =
  sv_package_id :: string
  sv_version :: int

record revocation_block =
  revoked_packages :: "string list"
  cancelled_routes :: "string list"
  superseded_versions :: "superseded_version list"

record manifest_provenance =
  mp_authority :: string
  mp_dataset_id :: string
  mp_evidence_class :: string

record manifest =
  mf_schema_version :: string
  mf_manifest_id :: string
  mf_jurisdiction :: string
  mf_revision :: int
  mf_generated_at :: string
  mf_valid_until :: string
  mf_source_status :: string
  mf_critical_card :: card_descriptor
  mf_resources :: "resource_descriptor list"
  mf_revocations :: revocation_block
  mf_provenance :: manifest_provenance
  mf_checksum :: string
  mf_signature :: "signature option"

section \<open>Incident card\<close>

record alert_card =
  ac_identifier :: string
  ac_sender :: string
  ac_headline :: string
  ac_severity :: string
  ac_urgency :: string
  ac_certainty :: string
  ac_area_description :: string

record red_zone_card =
  rz_id :: string
  rz_name :: string
  rz_centroid :: "fnum list"
  rz_geometry :: json

record safe_zone_card =
  sz_id :: string
  sz_name :: string
  sz_role :: string
  sz_status :: string
  sz_capacity_mode :: string
  sz_total_capacity :: "int option"
  sz_location :: "fnum list"
  sz_services :: "string list"

record route_card =
  rt_id :: string
  rt_from_zone_id :: string
  rt_to_safe_zone_id :: string
  rt_mode :: string
  rt_approval :: string
  rt_verified_by :: string
  rt_verified_at :: string
  rt_valid_from :: string
  rt_valid_until :: string
  rt_geometry :: json

record facility_card =
  fc_id :: string
  fc_safe_zone_id :: string
  fc_name :: string
  fc_address :: string
  fc_contact_phone :: string

record instruction_card =
  in_id :: string
  in_language :: string
  in_title :: string
  in_summary :: string

record emergency_contact =
  ec_name :: string
  ec_number :: string

record policy_card =
  pc_order :: "string slice"
  pc_reservation_expiry_seconds :: "int option"
  pc_stay_min_days :: "int option"
  pc_stay_max_days :: "int option"
  pc_allow_walk_ins :: "bool option"
  pc_allow_transfers :: "bool option"
  pc_route_required :: "bool option"

record incident_card =
  ic_schema_version :: string
  ic_package_id :: string
  ic_version :: int
  ic_jurisdiction :: string
  ic_evidence_class :: string
  ic_effective_at :: string
  ic_expires_at :: string
  ic_alert :: alert_card
  ic_red_zones :: "red_zone_card slice"
  ic_safe_zones :: "safe_zone_card slice"
  ic_approved_routes :: "route_card slice"
  ic_facilities :: "facility_card slice"
  ic_instructions :: "instruction_card slice"
  ic_emergency_contacts :: "emergency_contact slice"
  ic_allocation_policy :: policy_card
  ic_checksum :: string
  ic_signature :: "signature option"

section \<open>Revocations\<close>

definition check_revision_rollback :: "int \<Rightarrow> int \<Rightarrow> off_error option" where
  "check_revision_rollback incoming active =
     check (incoming < active)
       ([ErrVersionRollback], Fmt ''incoming revision %d < active revision %d'' [AInt incoming, AInt active])"

definition is_package_revoked :: "string \<Rightarrow> int \<Rightarrow> revocation_block option \<Rightarrow> bool" where
  "is_package_revoked pkg v rev_block =
     (case rev_block of
        None \<Rightarrow> False
      | Some b \<Rightarrow> (\<exists>p \<in> set (revoked_packages b). p = pkg)
          \<or> (\<exists>s \<in> set (superseded_versions b). sv_package_id s = pkg \<and> sv_version s = v))"

definition is_route_cancelled :: "string \<Rightarrow> revocation_block option \<Rightarrow> bool" where
  "is_route_cancelled r rev_block =
     (case rev_block of None \<Rightarrow> False | Some b \<Rightarrow> (\<exists>x \<in> set (cancelled_routes b). x = r))"

end
