(* ===== verification/Offline_Validate.thy ===== *)
theory Offline_Validate
  imports Offline_Types
begin

text \<open>
  The structural validators of backend/internal/offlinepkg/validate.go. Each is the
  sequence of its guards in order; the argument \<open>rfc\<close> reads an RFC 3339 timestamp
  (\<open>time.Parse\<close>) to an instant or to its parse error. What the validators accept is stated
  as the predicates \<open>valid_manifest\<close> and \<open>valid_card\<close>.
\<close>

section \<open>Guards shared by the validators\<close>

type_synonym rfc = "string \<Rightarrow> msg + time"

definition required_text :: "string \<Rightarrow> string \<Rightarrow> off_error option" where
  "required_text v f = check (v = []) (malformed f [])"

text \<open>A field of the i-th element of a list.\<close>

definition required_at :: "string \<Rightarrow> string \<Rightarrow> nat \<Rightarrow> off_error option" where
  "required_at v f i = check (v = []) (malformed f [AInt (int i)])"

text \<open>Two timestamps, of which the second must be later.\<close>

definition time_window ::
  "rfc \<Rightarrow> string \<Rightarrow> string \<Rightarrow> (msg \<Rightarrow> off_error) \<Rightarrow> (msg \<Rightarrow> off_error) \<Rightarrow> (time \<Rightarrow> time \<Rightarrow> off_error)
     \<Rightarrow> off_error option"
where
  "time_window rfc a b ea eb eo =
     (case rfc a of
        Inl e \<Rightarrow> Some (ea e)
      | Inr t \<Rightarrow> (case rfc b of
                   Inl e \<Rightarrow> Some (eb e)
                 | Inr u \<Rightarrow> check (\<not> t < u) (eo u t)))"

definition signature_checks :: "signature option \<Rightarrow> off_error option" where
  "signature_checks s =
     (case s of
        None \<Rightarrow> None
      | Some g \<Rightarrow> first_err
          [check (sig_algorithm g \<noteq> ''Ed25519'') (malformed ''signature algorithm must be Ed25519'' []),
           required_text (sig_key_id g) ''signature key_id is required'',
           required_text (sig_value g) ''signature value is required''])"

definition evidence_classes :: "string list" where
  "evidence_classes =
     [''SYNTHETIC_DEMO'', ''AUTHORIZED_OPERATIONAL'', ''CAPTURED_OFFICIAL_SAMPLE'', ''AUTHORIZED_SHADOW'']"

definition resource_types :: "string list" where
  "resource_types = [''VECTOR_TILES'', ''MAP_STYLE'', ''MAP_SPRITE'', ''MAP_GLYPHS'', ''GAZETTEER'',
     ''EMERGENCY_AUDIO'']"

section \<open>Manifests\<close>

definition card_budget :: int where
  "card_budget = 65536"

definition descriptor_checks :: "card_descriptor \<Rightarrow> off_error option" where
  "descriptor_checks cc = first_err
     [required_text (cd_package_id cc) ''critical_card.package_id is required'',
      check (cd_version cc < 1) (malformed ''critical_card.version must be >= 1'' []),
      required_text (cd_uri cc) ''critical_card.uri is required'',
      check (length (cd_checksum cc) \<noteq> 64) (malformed ''critical_card.checksum_sha256 must be 64 hex chars'' []),
      check (cd_uncompressed cc \<le> 0) (malformed ''critical_card.uncompressed_bytes must be > 0'' []),
      check (card_budget < cd_uncompressed cc)
        (malformed ''critical_card.uncompressed_bytes (%d) exceeds 64 KiB budget'' [AInt (cd_uncompressed cc)]),
      check (cd_compressed cc \<le> 0) (malformed ''critical_card.compressed_bytes must be > 0'' []),
      check (card_budget < cd_compressed cc)
        (malformed ''critical_card.compressed_bytes (%d) exceeds 64 KiB budget'' [AInt (cd_compressed cc)]),
      required_text (cd_content_type cc) ''critical_card.content_type is required'']"

definition resource_checks :: "nat \<times> resource_descriptor \<Rightarrow> off_error option" where
  "resource_checks ir = (case ir of (i, r) \<Rightarrow> first_err
     [required_at (rd_resource_id r) ''resource[%d].resource_id is required'' i,
      check (rd_type r \<notin> set resource_types)
        (malformed ''resource[%d] unknown type %q'' [AInt (int i), AStr (rd_type r)]),
      required_at (rd_uri r) ''resource[%d].uri is required'' i,
      check (length (rd_checksum r) \<noteq> 64)
        (malformed ''resource[%d].checksum_sha256 must be 64 hex chars'' [AInt (int i)]),
      check (rd_byte_size r \<le> 0) (malformed ''resource[%d].byte_size must be > 0'' [AInt (int i)]),
      required_at (rd_attribution r) ''resource[%d].attribution is required for license transparency'' i])"

definition provenance_checks :: "manifest_provenance \<Rightarrow> off_error option" where
  "provenance_checks p = first_err
     [required_text (mp_authority p) ''provenance.authority is required'',
      required_text (mp_dataset_id p) ''provenance.dataset_id is required'',
      check (mp_evidence_class p \<notin> set evidence_classes)
        (malformed ''invalid provenance.evidence_class %q'' [AStr (mp_evidence_class p)])]"

definition validate_manifest :: "rfc \<Rightarrow> manifest option \<Rightarrow> off_error option" where
  "validate_manifest rfc mo =
     (case mo of
        None \<Rightarrow> Some (malformed ''manifest is nil'' [])
      | Some m \<Rightarrow> first_err
         [check (mf_schema_version m \<noteq> ''3.0'')
            (malformed ''unsupported schema_version %q'' [AStr (mf_schema_version m)]),
          required_text (mf_manifest_id m) ''manifest_id is required'',
          required_text (mf_jurisdiction m) ''jurisdiction is required'',
          check (mf_revision m < 1) (malformed ''revision must be >= 1'' []),
          time_window rfc (mf_generated_at m) (mf_valid_until m)
            (\<lambda>e. malformed ''invalid generated_at timestamp: %v'' [AMsg e])
            (\<lambda>e. malformed ''invalid valid_until timestamp: %v'' [AMsg e])
            (\<lambda>u t. malformed ''valid_until (%v) must be after generated_at (%v)'' [AInt u, AInt t]),
          required_text (mf_source_status m) ''source_status is required'',
          descriptor_checks (mf_critical_card m),
          each_err resource_checks (enumerate 0 (mf_resources m)),
          provenance_checks (mf_provenance m),
          check (length (mf_checksum m) \<noteq> 64) (malformed ''checksum_sha256 must be 64 hex characters'' []),
          signature_checks (mf_signature m)])"

section \<open>Incident cards\<close>

definition alert_checks :: "alert_card \<Rightarrow> off_error option" where
  "alert_checks a = first_err
     [required_text (ac_identifier a) ''alert.identifier is required'',
      required_text (ac_sender a) ''alert.sender is required'',
      required_text (ac_headline a) ''alert.headline is required'',
      check (ac_severity a = [] \<or> ac_urgency a = [] \<or> ac_certainty a = [])
        (malformed ''alert severity, urgency, and certainty are required'' [])]"

definition red_zone_checks :: "nat \<times> red_zone_card \<Rightarrow> off_error option" where
  "red_zone_checks iz = (case iz of (i, z) \<Rightarrow> required_at (rz_id z) ''red_zones[%d].id is required'' i)"

definition location_checks :: "nat \<Rightarrow> fnum list \<Rightarrow> off_error option" where
  "location_checks i loc =
     (case loc of
        [] \<Rightarrow> None
      | [lon, lat] \<Rightarrow>
          check (f_less lon (-180) \<or> f_greater lon 180 \<or> f_less lat (-90) \<or> f_greater lat 90)
            (malformed ''safe_zones[%d].location out of WGS84 bounds'' [AInt (int i)])
      | _ \<Rightarrow> Some (malformed ''safe_zones[%d].location must be [lon, lat]'' [AInt (int i)]))"

definition safe_zone_checks :: "nat \<times> safe_zone_card \<Rightarrow> off_error option" where
  "safe_zone_checks is = (case is of (i, z) \<Rightarrow> first_err
     [required_at (sz_id z) ''safe_zones[%d].id is required'' i,
      required_at (sz_name z) ''safe_zones[%d].name is required'' i,
      required_at (sz_role z) ''safe_zones[%d].role is required'' i,
      required_at (sz_status z) ''safe_zones[%d].status is required'' i,
      required_at (sz_capacity_mode z) ''safe_zones[%d].capacity_mode is required'' i,
      (case sz_total_capacity z of
         None \<Rightarrow> None
       | Some n \<Rightarrow> check (n < 0) (malformed ''safe_zones[%d].total_capacity cannot be negative'' [AInt (int i)])),
      location_checks i (sz_location z)])"

definition route_checks :: "rfc \<Rightarrow> string set \<Rightarrow> nat \<times> route_card \<Rightarrow> off_error option" where
  "route_checks rfc safe ir = (case ir of (i, r) \<Rightarrow> first_err
     [required_at (rt_id r) ''approved_routes[%d].id is required'' i,
      required_at (rt_from_zone_id r) ''approved_routes[%d].from_zone_id is required'' i,
      required_at (rt_to_safe_zone_id r) ''approved_routes[%d].to_safe_zone_id is required'' i,
      check (rt_to_safe_zone_id r \<notin> safe)
        (malformed ''route %q destination %q is not in safe_zones'' [AStr (rt_id r), AStr (rt_to_safe_zone_id r)]),
      check (rt_mode r \<notin> {''FOOT'', ''VEHICLE'', ''AMBULANCE''})
        (malformed ''approved_routes[%d].mode must be FOOT, VEHICLE, or AMBULANCE'' [AInt (int i)]),
      required_at (rt_approval r) ''approved_routes[%d].approval is required'' i,
      (if rt_valid_from r \<noteq> [] \<and> rt_valid_until r \<noteq> []
       then time_window rfc (rt_valid_from r) (rt_valid_until r)
              (\<lambda>e. malformed ''route %q valid_from parse: %v'' [AStr (rt_id r), AMsg e])
              (\<lambda>e. malformed ''route %q valid_until parse: %v'' [AStr (rt_id r), AMsg e])
              (\<lambda>_ _. malformed ''route %q valid_until must be after valid_from'' [AStr (rt_id r)])
       else None)])"

definition facility_checks :: "string set \<Rightarrow> nat \<times> facility_card \<Rightarrow> off_error option" where
  "facility_checks safe if0 = (case if0 of (i, f) \<Rightarrow> first_err
     [required_at (fc_id f) ''facilities[%d].id is required'' i,
      required_at (fc_safe_zone_id f) ''facilities[%d].safe_zone_id is required'' i,
      check (fc_safe_zone_id f \<notin> safe)
        (malformed ''facility %q references unknown safe zone %q'' [AStr (fc_id f), AStr (fc_safe_zone_id f)]),
      required_at (fc_name f) ''facilities[%d].name is required'' i])"

definition instruction_checks :: "nat \<times> instruction_card \<Rightarrow> off_error option" where
  "instruction_checks ii = (case ii of (i, x) \<Rightarrow> first_err
     [required_at (in_id x) ''instructions[%d].id is required'' i,
      required_at (in_language x) ''instructions[%d].language is required'' i,
      required_at (in_title x) ''instructions[%d].title is required'' i])"

definition contact_checks :: "nat \<times> emergency_contact \<Rightarrow> off_error option" where
  "contact_checks ic = (case ic of (i, c) \<Rightarrow> first_err
     [required_at (ec_name c) ''emergency_contacts[%d].name is required'' i,
      required_at (ec_number c) ''emergency_contacts[%d].number is required'' i])"

definition policy_checks :: "policy_card \<Rightarrow> off_error option" where
  "policy_checks p = first_err
     [check (elems (pc_order p) = []) (malformed ''allocation_policy.order is required'' []),
      (case pc_reservation_expiry_seconds p of
         None \<Rightarrow> None
       | Some n \<Rightarrow> check (n \<le> 0) (malformed ''reservation_expiry_seconds must be > 0'' [])),
      check ((pc_stay_min_days p = None) \<noteq> (pc_stay_max_days p = None))
        (malformed ''temporary_stay min and max days must both be specified'' []),
      (case (pc_stay_min_days p, pc_stay_max_days p) of
         (Some lo, Some hi) \<Rightarrow>
           check (lo < 1 \<or> hi < lo) (malformed ''invalid temporary_stay day range [%d, %d]'' [AInt lo, AInt hi])
       | _ \<Rightarrow> None)]"

definition validate_card :: "rfc \<Rightarrow> incident_card option \<Rightarrow> off_error option" where
  "validate_card rfc co =
     (case co of
        None \<Rightarrow> Some (malformed ''card is nil'' [])
      | Some c \<Rightarrow>
        (let safe = set (map sz_id (elems (ic_safe_zones c))) in first_err
         [check (ic_schema_version c \<noteq> ''3.0'')
            (malformed ''unsupported schema_version %q'' [AStr (ic_schema_version c)]),
          required_text (ic_package_id c) ''package_id is required'',
          check (ic_version c < 1) (malformed ''version must be >= 1'' []),
          required_text (ic_jurisdiction c) ''jurisdiction is required'',
          check (ic_evidence_class c \<notin> set evidence_classes)
            (malformed ''invalid evidence_class %q'' [AStr (ic_evidence_class c)]),
          time_window rfc (ic_effective_at c) (ic_expires_at c)
            (\<lambda>e. malformed ''invalid effective_at timestamp: %v'' [AMsg e])
            (\<lambda>e. malformed ''invalid expires_at timestamp: %v'' [AMsg e])
            (\<lambda>u t. malformed ''expires_at (%v) must be after effective_at (%v)'' [AInt u, AInt t]),
          alert_checks (ic_alert c),
          check (elems (ic_red_zones c) = []) (malformed ''red_zones must contain at least one zone'' []),
          each_err red_zone_checks (enumerate 0 (elems (ic_red_zones c))),
          check (elems (ic_safe_zones c) = []) (malformed ''safe_zones must contain at least one zone'' []),
          each_err safe_zone_checks (enumerate 0 (elems (ic_safe_zones c))),
          each_err (route_checks rfc safe) (enumerate 0 (elems (ic_approved_routes c))),
          check (elems (ic_facilities c) = []) (malformed ''facilities must contain at least one entry'' []),
          each_err (facility_checks safe) (enumerate 0 (elems (ic_facilities c))),
          check (elems (ic_instructions c) = []) (malformed ''instructions must contain at least one entry'' []),
          each_err instruction_checks (enumerate 0 (elems (ic_instructions c))),
          check (elems (ic_emergency_contacts c) = [])
            (malformed ''emergency_contacts must contain at least one contact'' []),
          each_err contact_checks (enumerate 0 (elems (ic_emergency_contacts c))),
          policy_checks (ic_allocation_policy c),
          check (length (ic_checksum c) \<noteq> 64) (malformed ''checksum_sha256 must be 64 hex characters'' []),
          signature_checks (ic_signature c)]))"

section \<open>What the validators accept\<close>

definition valid_window :: "rfc \<Rightarrow> string \<Rightarrow> string \<Rightarrow> bool" where
  "valid_window rfc a b \<longleftrightarrow> (\<exists>t u. rfc a = Inr t \<and> rfc b = Inr u \<and> t < u)"

definition valid_signature :: "signature option \<Rightarrow> bool" where
  "valid_signature s \<longleftrightarrow>
     (\<forall>g. s = Some g \<longrightarrow> sig_algorithm g = ''Ed25519'' \<and> sig_key_id g \<noteq> [] \<and> sig_value g \<noteq> [])"

definition valid_descriptor :: "card_descriptor \<Rightarrow> bool" where
  "valid_descriptor cc \<longleftrightarrow> cd_package_id cc \<noteq> [] \<and> 1 \<le> cd_version cc \<and> cd_uri cc \<noteq> []
     \<and> length (cd_checksum cc) = 64 \<and> cd_uncompressed cc \<in> {1 .. card_budget}
     \<and> cd_compressed cc \<in> {1 .. card_budget} \<and> cd_content_type cc \<noteq> []"

definition valid_resource :: "resource_descriptor \<Rightarrow> bool" where
  "valid_resource r \<longleftrightarrow> rd_resource_id r \<noteq> [] \<and> rd_type r \<in> set resource_types \<and> rd_uri r \<noteq> []
     \<and> length (rd_checksum r) = 64 \<and> 0 < rd_byte_size r \<and> rd_attribution r \<noteq> []"

definition valid_manifest :: "rfc \<Rightarrow> manifest \<Rightarrow> bool" where
  "valid_manifest rfc m \<longleftrightarrow> mf_schema_version m = ''3.0'' \<and> mf_manifest_id m \<noteq> [] \<and> mf_jurisdiction m \<noteq> []
     \<and> 1 \<le> mf_revision m \<and> valid_window rfc (mf_generated_at m) (mf_valid_until m)
     \<and> mf_source_status m \<noteq> [] \<and> valid_descriptor (mf_critical_card m)
     \<and> (\<forall>r \<in> set (mf_resources m). valid_resource r)
     \<and> mp_authority (mf_provenance m) \<noteq> [] \<and> mp_dataset_id (mf_provenance m) \<noteq> []
     \<and> mp_evidence_class (mf_provenance m) \<in> set evidence_classes
     \<and> length (mf_checksum m) = 64 \<and> valid_signature (mf_signature m)"

definition valid_safe_zone :: "safe_zone_card \<Rightarrow> bool" where
  "valid_safe_zone z \<longleftrightarrow> sz_id z \<noteq> [] \<and> sz_name z \<noteq> [] \<and> sz_role z \<noteq> [] \<and> sz_status z \<noteq> []
     \<and> sz_capacity_mode z \<noteq> [] \<and> (\<forall>n. sz_total_capacity z = Some n \<longrightarrow> 0 \<le> n)
     \<and> (sz_location z = [] \<or> (\<exists>lon lat. sz_location z = [lon, lat]
          \<and> \<not> f_less lon (-180) \<and> \<not> f_greater lon 180 \<and> \<not> f_less lat (-90) \<and> \<not> f_greater lat 90))"

definition valid_route :: "rfc \<Rightarrow> string set \<Rightarrow> route_card \<Rightarrow> bool" where
  "valid_route rfc safe r \<longleftrightarrow> rt_id r \<noteq> [] \<and> rt_from_zone_id r \<noteq> [] \<and> rt_to_safe_zone_id r \<noteq> []
     \<and> rt_to_safe_zone_id r \<in> safe \<and> rt_mode r \<in> {''FOOT'', ''VEHICLE'', ''AMBULANCE''}
     \<and> rt_approval r \<noteq> []
     \<and> (rt_valid_from r \<noteq> [] \<and> rt_valid_until r \<noteq> [] \<longrightarrow> valid_window rfc (rt_valid_from r) (rt_valid_until r))"

definition valid_facility :: "string set \<Rightarrow> facility_card \<Rightarrow> bool" where
  "valid_facility safe f \<longleftrightarrow> fc_id f \<noteq> [] \<and> fc_safe_zone_id f \<noteq> [] \<and> fc_safe_zone_id f \<in> safe \<and> fc_name f \<noteq> []"

definition valid_policy :: "policy_card \<Rightarrow> bool" where
  "valid_policy p \<longleftrightarrow> elems (pc_order p) \<noteq> [] \<and> (\<forall>n. pc_reservation_expiry_seconds p = Some n \<longrightarrow> 0 < n)
     \<and> ((pc_stay_min_days p = None \<and> pc_stay_max_days p = None)
        \<or> (\<exists>lo hi. pc_stay_min_days p = Some lo \<and> pc_stay_max_days p = Some hi \<and> 1 \<le> lo \<and> lo \<le> hi))"

definition valid_card :: "rfc \<Rightarrow> incident_card \<Rightarrow> bool" where
  "valid_card rfc c \<longleftrightarrow> (let safe = set (map sz_id (elems (ic_safe_zones c))) in
     ic_schema_version c = ''3.0'' \<and> ic_package_id c \<noteq> [] \<and> 1 \<le> ic_version c \<and> ic_jurisdiction c \<noteq> []
     \<and> ic_evidence_class c \<in> set evidence_classes
     \<and> valid_window rfc (ic_effective_at c) (ic_expires_at c)
     \<and> (\<forall>x \<in> {ac_identifier, ac_sender, ac_headline, ac_severity, ac_urgency, ac_certainty}. x (ic_alert c) \<noteq> [])
     \<and> elems (ic_red_zones c) \<noteq> [] \<and> (\<forall>z \<in> set (elems (ic_red_zones c)). rz_id z \<noteq> [])
     \<and> elems (ic_safe_zones c) \<noteq> [] \<and> (\<forall>z \<in> set (elems (ic_safe_zones c)). valid_safe_zone z)
     \<and> (\<forall>r \<in> set (elems (ic_approved_routes c)). valid_route rfc safe r)
     \<and> elems (ic_facilities c) \<noteq> [] \<and> (\<forall>f \<in> set (elems (ic_facilities c)). valid_facility safe f)
     \<and> elems (ic_instructions c) \<noteq> []
     \<and> (\<forall>x \<in> set (elems (ic_instructions c)). in_id x \<noteq> [] \<and> in_language x \<noteq> [] \<and> in_title x \<noteq> [])
     \<and> elems (ic_emergency_contacts c) \<noteq> []
     \<and> (\<forall>x \<in> set (elems (ic_emergency_contacts c)). ec_name x \<noteq> [] \<and> ec_number x \<noteq> [])
     \<and> valid_policy (ic_allocation_policy c)
     \<and> length (ic_checksum c) = 64 \<and> valid_signature (ic_signature c))"

lemma each_enumerate:
  "(\<And>i x. f (i, x) = None \<longleftrightarrow> P x) \<Longrightarrow> each_err f (enumerate n xs) = None \<longleftrightarrow> (\<forall>x \<in> set xs. P x)"
  by (induction xs arbitrary: n) (auto simp: each_err_None simp del: each_err_Cons)

lemma required_text_None [simp]: "required_text v f = None \<longleftrightarrow> v \<noteq> []"
  by (simp add: required_text_def)

lemma required_at_None [simp]: "required_at v f i = None \<longleftrightarrow> v \<noteq> []"
  by (simp add: required_at_def)

lemma first_err_Nil_None: "first_err [] = None"
  by simp

lemma time_window_None: "time_window rfc a b ea eb eo = None \<longleftrightarrow> valid_window rfc a b"
  by (auto simp: time_window_def valid_window_def split: sum.splits)

lemma signature_checks_None: "signature_checks s = None \<longleftrightarrow> valid_signature s"
  by (cases s) (simp_all add: signature_checks_def valid_signature_def first_err_Cons_None)

lemma descriptor_checks_None: "descriptor_checks cc = None \<longleftrightarrow> valid_descriptor cc"
  by (auto simp: descriptor_checks_def valid_descriptor_def first_err_Cons_None)

lemma resource_checks_None: "resource_checks (i, r) = None \<longleftrightarrow> valid_resource r"
  by (auto simp: resource_checks_def valid_resource_def first_err_Cons_None)

lemma location_checks_None:
  "location_checks i loc = None \<longleftrightarrow> loc = [] \<or> (\<exists>lon lat. loc = [lon, lat]
     \<and> \<not> f_less lon (-180) \<and> \<not> f_greater lon 180 \<and> \<not> f_less lat (-90) \<and> \<not> f_greater lat 90)"
  by (auto simp: location_checks_def split: list.splits)

lemma safe_zone_checks_None: "safe_zone_checks (i, z) = None \<longleftrightarrow> valid_safe_zone z"
  by (cases "sz_total_capacity z")
     (auto simp: safe_zone_checks_def valid_safe_zone_def first_err_Cons_None location_checks_None)

lemma route_checks_None: "route_checks rfc safe (i, r) = None \<longleftrightarrow> valid_route rfc safe r"
  by (simp add: route_checks_def valid_route_def first_err_Cons_None time_window_None)

lemma facility_checks_None: "facility_checks safe (i, f) = None \<longleftrightarrow> valid_facility safe f"
  by (simp add: facility_checks_def valid_facility_def first_err_Cons_None)

lemma instruction_checks_None:
  "instruction_checks (i, x) = None \<longleftrightarrow> in_id x \<noteq> [] \<and> in_language x \<noteq> [] \<and> in_title x \<noteq> []"
  by (simp add: instruction_checks_def first_err_Cons_None)

lemma red_zone_checks_None: "red_zone_checks (i, z) = None \<longleftrightarrow> rz_id z \<noteq> []"
  by (simp add: red_zone_checks_def)

lemma alert_checks_None:
  "alert_checks a = None \<longleftrightarrow>
     (\<forall>x \<in> {ac_identifier, ac_sender, ac_headline, ac_severity, ac_urgency, ac_certainty}. x a \<noteq> [])"
  by (auto simp: alert_checks_def first_err_Cons_None)

lemma contact_checks_None: "contact_checks (i, x) = None \<longleftrightarrow> ec_name x \<noteq> [] \<and> ec_number x \<noteq> []"
  by (simp add: contact_checks_def first_err_Cons_None)

lemma policy_checks_None: "policy_checks p = None \<longleftrightarrow> valid_policy p"
  by (cases "pc_stay_min_days p"; cases "pc_stay_max_days p"; cases "pc_reservation_expiry_seconds p")
     (auto simp: policy_checks_def valid_policy_def first_err_Cons_None)

lemmas component_checks_None =
  time_window_None signature_checks_None descriptor_checks_None policy_checks_None
  each_enumerate [where f = resource_checks and P = valid_resource, OF resource_checks_None]
  each_enumerate [where f = safe_zone_checks and P = valid_safe_zone, OF safe_zone_checks_None]
  each_enumerate [where f = "route_checks rfc safe" and P = "valid_route rfc safe" for rfc safe,
    OF route_checks_None]
  each_enumerate [where f = "facility_checks safe" and P = "valid_facility safe" for safe,
    OF facility_checks_None]
  each_enumerate [where f = instruction_checks and P = "\<lambda>x. in_id x \<noteq> [] \<and> in_language x \<noteq> [] \<and> in_title x \<noteq> []",
    OF instruction_checks_None]
  each_enumerate [where f = contact_checks and P = "\<lambda>x. ec_name x \<noteq> [] \<and> ec_number x \<noteq> []",
    OF contact_checks_None]
  each_enumerate [where f = red_zone_checks and P = "\<lambda>z. rz_id z \<noteq> []", OF red_zone_checks_None]
  alert_checks_None

lemma validate_manifest_None: "validate_manifest rfc (Some m) = None \<longleftrightarrow> valid_manifest rfc m"
  by (auto simp: validate_manifest_def valid_manifest_def first_err_Cons_None component_checks_None
      provenance_checks_def)


lemma validate_card_None: "validate_card rfc (Some c) = None \<longleftrightarrow> valid_card rfc c"
  unfolding validate_card_def valid_card_def option.case Let_def first_err_Cons_None
    component_checks_None check_None required_text_None first_err_Nil_None
  by auto

lemmas check_defs =
  descriptor_checks_def resource_checks_def provenance_checks_def signature_checks_def alert_checks_def
  safe_zone_checks_def route_checks_def facility_checks_def instruction_checks_def contact_checks_def
  policy_checks_def location_checks_def time_window_def required_text_def required_at_def malformed_def

text \<open>Every error of the validators is a structural one.\<close>

definition structural :: "off_error option \<Rightarrow> bool" where
  "structural r \<longleftrightarrow> (\<forall>e. r = Some e \<longrightarrow> fst e = [ErrMalformedData])"

lemma structural_first_err: "(\<And>r. r \<in> set rs \<Longrightarrow> structural r) \<Longrightarrow> structural (first_err rs)"
  unfolding structural_def by (blast dest: first_err_SomeD)

lemma structural_each_err: "(\<And>x. structural (f x)) \<Longrightarrow> structural (each_err f xs)"
  unfolding each_err_def by (rule structural_first_err) auto

lemma structural_check [simp]: "structural (check c (malformed f xs))" "structural None"
  "structural (Some (malformed f xs))"
  by (simp_all add: structural_def malformed_def)

lemma structural_parts [simp]:
  "structural (required_text v f)" "structural (required_at v f i)"
  "structural (time_window rfc a b (\<lambda>e. malformed f1 (x1 e)) (\<lambda>e. malformed f2 (x2 e)) (\<lambda>u t. malformed f3 (x3 u t)))"
  "structural (location_checks i loc)"
  by (auto simp: required_text_def required_at_def time_window_def location_checks_def
      split: sum.splits list.splits)

lemma structural_checks [simp]:
  "structural (signature_checks s)" "structural (descriptor_checks d)" "structural (resource_checks p)"
  "structural (red_zone_checks iz)"
  "structural (provenance_checks q)" "structural (alert_checks a)" "structural (safe_zone_checks z)"
  "structural (route_checks rfc safe r)" "structural (facility_checks safe f)"
  "structural (instruction_checks i)" "structural (contact_checks c)" "structural (policy_checks p')"
  by (auto simp: signature_checks_def descriptor_checks_def resource_checks_def provenance_checks_def red_zone_checks_def
      alert_checks_def safe_zone_checks_def route_checks_def facility_checks_def instruction_checks_def
      contact_checks_def policy_checks_def intro!: structural_first_err split: option.splits prod.splits)


section \<open>Properties\<close>

text \<open>The validators accept exactly the well-formed documents, and everything they refuse
  they refuse as malformed data. For a card this includes the references: every approved
  route ends in, and every facility belongs to, a safe zone that the card lists.\<close>

theorem offline_validators_exact:
  "(validate_manifest rfc (Some m) = None) = valid_manifest rfc m
   \<and> (validate_card rfc (Some c) = None) = valid_card rfc c
   \<and> structural (validate_manifest rfc mo) \<and> structural (validate_card rfc co)"
proof (intro conjI validate_manifest_None validate_card_None)
  show "structural (validate_manifest rfc mo)"
    by (cases mo) (auto simp: validate_manifest_def intro!: structural_first_err structural_each_err)
  show "structural (validate_card rfc co)"
    by (cases co) (auto simp: validate_card_def Let_def intro!: structural_first_err structural_each_err)
qed


end
