(* ===== verification/Manifest_Tracker.thy ===== *)
theory Manifest_Tracker
  imports Offline_Validate
begin

text \<open>
  The revision tracker of regional manifests, backend/internal/offlinedelivery/monotonic.go.
  A set kept as a Go map is the list of its elements; the order in which a range visits it
  is the order of the list, which matters only for the identifier an error text names.
  Commit validates under the read lock and stores under the write lock; the two critical
  sections are separate steps, so that commits interleave.
\<close>

section \<open>Data\<close>

datatype tracker_kind = ErrRevisionRollback | ErrIdenticalRevisionModified | ErrManifestExpired
  | ErrTombstoneViolated | ErrTombstoneDropped | OtherTrackerError

type_synonym tracker_error = "tracker_kind \<times> msg"

record manifest_state =
  ms_jurisdiction :: string
  ms_revision :: int
  ms_checksum :: string
  ms_valid_until :: time
  ms_revoked :: "string list"
  ms_cancelled :: "string list"
  ms_committed_at :: time

type_synonym tracker = "(string, manifest_state) gomap"

definition new_manifest_tracker :: tracker where
  "new_manifest_tracker = []"

section \<open>Validation\<close>

definition card_pkg :: "manifest \<Rightarrow> string" where
  "card_pkg m = cd_package_id (mf_critical_card m)"

definition revoked_of :: "manifest \<Rightarrow> string list" where
  "revoked_of m = revoked_packages (mf_revocations m)"

definition cancelled_of :: "manifest \<Rightarrow> string list" where
  "cancelled_of m = cancelled_routes (mf_revocations m)"

text \<open>The first manifest of a jurisdiction.\<close>

definition first_manifest_checks :: "manifest \<Rightarrow> tracker_error option" where
  "first_manifest_checks m =
     each_err (\<lambda>r. check (card_pkg m = r)
       (ErrTombstoneViolated, plain ''offlinedelivery: active critical card references a tombstoned package'')) (revoked_of m)"

text \<open>A manifest with a higher revision than the current state.\<close>

definition successor_checks :: "manifest_state \<Rightarrow> manifest \<Rightarrow> tracker_error option" where
  "successor_checks cur m = first_err
     [check (card_pkg m \<in> set (ms_revoked cur))
        (ErrTombstoneViolated, Fmt ''package %s was revoked in revision %d'' [AStr (card_pkg m), AInt (ms_revision cur)]),
      each_err (\<lambda>r. check (card_pkg m = r)
        (ErrTombstoneViolated, Fmt ''package %s is listed in revocations'' [AStr (card_pkg m)])) (revoked_of m),
      each_err (\<lambda>p. check (p \<notin> set (revoked_of m))
        (ErrTombstoneDropped, Fmt ''revoked package %s dropped in revision %d'' [AStr p, AInt (mf_revision m)]))
        (ms_revoked cur),
      each_err (\<lambda>r. check (r \<notin> set (cancelled_of m))
        (ErrTombstoneDropped, Fmt ''cancelled route %s dropped in revision %d'' [AStr r, AInt (mf_revision m)]))
        (ms_cancelled cur)]"

definition validate_next :: "rfc \<Rightarrow> tracker \<Rightarrow> manifest option \<Rightarrow> time \<Rightarrow> tracker_error option" where
  "validate_next rfc tr mo now =
     (case mo of
        None \<Rightarrow> Some (OtherTrackerError, plain ''offlinedelivery: nil manifest'')
      | Some m \<Rightarrow>
         (case rfc (mf_valid_until m) of
            Inl e \<Rightarrow> Some (OtherTrackerError, Fmt ''offlinedelivery: invalid valid_until RFC3339: %w'' [AMsg e])
          | Inr until \<Rightarrow>
             if now \<noteq> zero_time \<and> until < now
             then Some (ErrManifestExpired, plain ''offlinedelivery: manifest valid_until has expired'')
             else (case get tr (mf_jurisdiction m) of
                     None \<Rightarrow> first_manifest_checks m
                   | Some cur \<Rightarrow>
                       if mf_revision m < ms_revision cur
                       then Some (ErrRevisionRollback, Fmt ''attempted %d < current %d''
                              [AInt (mf_revision m), AInt (ms_revision cur)])
                       else if mf_revision m = ms_revision cur
                       then (if mf_checksum m \<noteq> ms_checksum cur
                             then Some (ErrIdenticalRevisionModified, Fmt ''revision %d checksum mismatch''
                                    [AInt (mf_revision m)])
                             else None)
                       else successor_checks cur m)))"

section \<open>Commit\<close>

definition state_of_manifest :: "rfc \<Rightarrow> manifest \<Rightarrow> time \<Rightarrow> manifest_state" where
  "state_of_manifest rfc m now =
     \<lparr>ms_jurisdiction = mf_jurisdiction m, ms_revision = mf_revision m, ms_checksum = mf_checksum m,
      ms_valid_until = (case rfc (mf_valid_until m) of Inl _ \<Rightarrow> zero_time | Inr t \<Rightarrow> t),
      ms_revoked = remdups (revoked_of m), ms_cancelled = remdups (cancelled_of m),
      ms_committed_at = now\<rparr>"

text \<open>The critical section under the write lock.\<close>

definition commit_write :: "rfc \<Rightarrow> tracker \<Rightarrow> manifest \<Rightarrow> time \<Rightarrow> tracker \<times> tracker_error option" where
  "commit_write rfc tr m now =
     (let stored = (put (mf_jurisdiction m) (state_of_manifest rfc m now) tr, None)
      in case get tr (mf_jurisdiction m) of
           None \<Rightarrow> stored
         | Some cur \<Rightarrow>
             if mf_revision m < ms_revision cur
             then (tr, Some (ErrRevisionRollback, plain ''offlinedelivery: manifest revision regression detected''))
             else if mf_revision m = ms_revision cur \<and> mf_checksum m \<noteq> ms_checksum cur
             then (tr, Some (ErrIdenticalRevisionModified, plain ''offlinedelivery: identical manifest revision has differing checksum''))
             else stored)"

text \<open>A commit during which no other one runs.\<close>

definition commit :: "rfc \<Rightarrow> tracker \<Rightarrow> manifest option \<Rightarrow> time \<Rightarrow> tracker \<times> tracker_error option" where
  "commit rfc tr mo now =
     (case validate_next rfc tr mo now of
        Some e \<Rightarrow> (tr, Some e)
      | None \<Rightarrow> (case mo of None \<Rightarrow> (tr, None) | Some m \<Rightarrow> commit_write rfc tr m now))"

definition get_state :: "tracker \<Rightarrow> string \<Rightarrow> manifest_state option" where
  "get_state tr j = get tr j"

section \<open>Commits one after another\<close>

fun commit_step :: "rfc \<Rightarrow> tracker \<Rightarrow> manifest \<times> time \<Rightarrow> tracker" where
  "commit_step rfc tr (m, now) = fst (commit rfc tr (Some m) now)"

text \<open>What a commit of \<open>m\<close> did to the state of a jurisdiction.\<close>

lemma commit_effect:
  obtains (refused) e where "commit rfc tr (Some m) now = (tr, Some e)"
    | (first) "get tr (mf_jurisdiction m) = None" "card_pkg m \<notin> set (revoked_of m)"
      "commit rfc tr (Some m) now = (put (mf_jurisdiction m) (state_of_manifest rfc m now) tr, None)"
    | (again) cur where "get tr (mf_jurisdiction m) = Some cur" "mf_revision m = ms_revision cur"
      "mf_checksum m = ms_checksum cur"
      "commit rfc tr (Some m) now = (put (mf_jurisdiction m) (state_of_manifest rfc m now) tr, None)"
    | (later) cur where "get tr (mf_jurisdiction m) = Some cur" "ms_revision cur < mf_revision m"
      "set (ms_revoked cur) \<subseteq> set (revoked_of m)" "set (ms_cancelled cur) \<subseteq> set (cancelled_of m)"
      "card_pkg m \<notin> set (revoked_of m)"
      "commit rfc tr (Some m) now = (put (mf_jurisdiction m) (state_of_manifest rfc m now) tr, None)"
proof (cases "validate_next rfc tr (Some m) now")
  case (Some e)
  then show thesis by (intro refused [of e]) (simp add: commit_def)
next
  case None
  then obtain u where u: "rfc (mf_valid_until m) = Inr u" "\<not> (now \<noteq> zero_time \<and> u < now)"
    by (auto simp: validate_next_def split: sum.splits if_splits)
  have c: "commit rfc tr (Some m) now = commit_write rfc tr m now" using None by (simp add: commit_def)
  show thesis
  proof (cases "get tr (mf_jurisdiction m)")
    case None
    with \<open>validate_next rfc tr (Some m) now = None\<close> u have "card_pkg m \<notin> set (revoked_of m)"
      by (auto simp: validate_next_def first_manifest_checks_def each_err_None)
    with None c show thesis by (intro first) (simp_all add: commit_write_def)
  next
    case (Some cur)
    have v: "\<not> mf_revision m < ms_revision cur"
      "mf_revision m = ms_revision cur \<Longrightarrow> mf_checksum m = ms_checksum cur"
      "mf_revision m \<noteq> ms_revision cur \<Longrightarrow> successor_checks cur m = None"
      using \<open>validate_next rfc tr (Some m) now = None\<close> u Some
      by (auto simp: validate_next_def split: if_splits)
    have w: "commit_write rfc tr m now = (put (mf_jurisdiction m) (state_of_manifest rfc m now) tr, None)"
      using v Some by (simp add: commit_write_def)
    show thesis
    proof (cases "mf_revision m = ms_revision cur")
      case True
      with v Some c w show thesis by (intro again) simp_all
    next
      case False
      then have s: "successor_checks cur m = None" by (rule v(3))
      show thesis
        using False v(1) Some c w s
        by (intro later [of cur]) (auto simp: successor_checks_def first_err_Cons_None each_err_None)
    qed
  qed
qed

text \<open>A jurisdiction at a revision or beyond it, at the same revision with the same checksum.\<close>

definition at_least :: "string \<Rightarrow> int \<Rightarrow> string \<Rightarrow> tracker \<Rightarrow> bool" where
  "at_least j r c tr \<longleftrightarrow>
     (\<exists>cur. get tr j = Some cur \<and> (r < ms_revision cur \<or> (r = ms_revision cur \<and> ms_checksum cur = c)))"

lemma at_least_write: "at_least j r c tr \<Longrightarrow> at_least j r c (fst (commit_write rfc tr m now))"
  by (auto simp: at_least_def commit_write_def state_of_manifest_def Let_def split: option.splits)

lemma at_least_commit: "at_least j r c tr \<Longrightarrow> at_least j r c (commit_step rfc tr e)"
  by (cases e) (auto simp: commit_def at_least_write split: option.splits)

interpretation tracker_rev: latched_system "commit_step rfc" "\<lambda>_. True" "at_least j r c" for rfc j r c
  by unfold_locales (simp_all add: at_least_commit)

text \<open>What was taken back stays taken back when the checksum stands for the content.\<close>

definition consistent :: "(string \<Rightarrow> string list \<times> string list) \<Rightarrow> tracker \<Rightarrow> bool" where
  "consistent content tr \<longleftrightarrow> (\<forall>j cur. get tr j = Some cur \<longrightarrow>
     set (ms_revoked cur) = set (fst (content (ms_checksum cur)))
     \<and> set (ms_cancelled cur) = set (snd (content (ms_checksum cur))))"

definition tombstoned :: "string \<Rightarrow> string \<Rightarrow> string \<Rightarrow> tracker \<Rightarrow> bool" where
  "tombstoned j p r tr \<longleftrightarrow> (\<exists>cur. get tr j = Some cur \<and> p \<in> set (ms_revoked cur) \<and> r \<in> set (ms_cancelled cur))"

lemma consistentD:
  "consistent content tr \<Longrightarrow> get tr j = Some cur \<Longrightarrow> set (ms_revoked cur) = set (fst (content (ms_checksum cur)))"
  "consistent content tr \<Longrightarrow> get tr j = Some cur \<Longrightarrow> set (ms_cancelled cur) = set (snd (content (ms_checksum cur)))"
  by (simp_all add: consistent_def)

lemma consistent_put:
  assumes "consistent content tr" "content (mf_checksum m) = (revoked_of m, cancelled_of m)"
  shows "consistent content (put (mf_jurisdiction m) (state_of_manifest rfc m now) tr)"
  using assms unfolding consistent_def by (simp add: state_of_manifest_def)

lemma consistent_commit:
  assumes c: "consistent content tr" and m: "content (mf_checksum m) = (revoked_of m, cancelled_of m)"
  shows "consistent content (commit_step rfc tr (m, now))
    \<and> (tombstoned j p r tr \<longrightarrow> tombstoned j p r (commit_step rfc tr (m, now)))"
proof (cases rule: commit_effect [of rfc tr m now])
  case (refused e)
  then show ?thesis using c by simp
next
  case first
  then show ?thesis using consistent_put [OF c m] by (auto simp: tombstoned_def)
next
  case (again cur)
  then show ?thesis
    using consistent_put [OF c m] consistentD [OF c again(1)] m
    by (auto simp: tombstoned_def state_of_manifest_def)
next
  case (later cur)
  then show ?thesis
    using consistent_put [OF c m] by (auto simp: tombstoned_def state_of_manifest_def)
qed

lemma consistent_run:
  assumes "\<forall>(m, now) \<in> set es. content (mf_checksum m) = (revoked_of m, cancelled_of m)" "consistent content tr"
  shows "consistent content (run (commit_step rfc) tr es)
    \<and> (tombstoned j p r tr \<longrightarrow> tombstoned j p r (run (commit_step rfc) tr es))"
  using assms
proof (induction es arbitrary: tr)
  case (Cons e es)
  obtain m now where e: "e = (m, now)" by (cases e)
  then have "content (mf_checksum m) = (revoked_of m, cancelled_of m)" using Cons.prems(1) by auto
  from consistent_commit [OF Cons.prems(2) this, of rfc now j p r] Cons.IH [of "commit_step rfc tr e"]
  show ?case using Cons.prems(1) e by simp
qed simp

section \<open>Commits that interleave\<close>

record tracker_sys =
  store :: tracker
  pending :: "(manifest \<times> time) list"

inductive tracker_next :: "rfc \<Rightarrow> tracker_sys \<Rightarrow> tracker_sys \<Rightarrow> bool" for rfc where
  validated: "validate_next rfc (store s) (Some m) now = None \<Longrightarrow>
     tracker_next rfc s (s\<lparr>pending := (m, now) # pending s\<rparr>)"
| written: "(m, now) \<in> set (pending s) \<Longrightarrow>
     tracker_next rfc s (s\<lparr>store := fst (commit_write rfc (store s) m now),
                           pending := remove1 (m, now) (pending s)\<rparr>)"

inductive_cases tracker_nextE: "tracker_next rfc s t"

lemma at_least_next: "at_least j r c (store s) \<Longrightarrow> tracker_next rfc s t \<Longrightarrow> at_least j r c (store t)"
  by (erule tracker_nextE) (auto simp: at_least_write)

interpretation tracker: step_system "\<lambda>s. at_least j r c (store s)" "tracker_next rfc"
    "\<lambda>s. at_least j r c (store s)" for rfc j r c
  by unfold_locales (auto intro: at_least_next)

section \<open>Demonstration values\<close>

definition demo_rfc :: rfc where
  "demo_rfc s = Inr 1000"

definition rev_manifest :: "int \<Rightarrow> string \<Rightarrow> string list \<Rightarrow> manifest" where
  "rev_manifest n c rs =
     \<lparr>mf_schema_version = ''3.0'', mf_manifest_id = ''m'', mf_jurisdiction = ''ka'', mf_revision = n,
      mf_generated_at = ''t1'', mf_valid_until = ''t2'', mf_source_status = ''CURRENT'',
      mf_critical_card = \<lparr>cd_package_id = ''p'', cd_version = 1, cd_uri = ''u'', cd_checksum = [],
        cd_uncompressed = 1, cd_compressed = 1, cd_content_type = ''j''\<rparr>,
      mf_resources = [],
      mf_revocations = \<lparr>revoked_packages = rs, cancelled_routes = rs, superseded_versions = []\<rparr>,
      mf_provenance = \<lparr>mp_authority = ''a'', mp_dataset_id = ''d'', mp_evidence_class = ''SYNTHETIC_DEMO''\<rparr>,
      mf_checksum = c, mf_signature = None\<rparr>"

section \<open>Properties\<close>

text \<open>Committed one after another, manifests never lose a tombstone: provided the checksum
  stands for the revocations, a revoked package and a cancelled route stay recorded through
  every later commit, accepted or refused.\<close>

theorem tracker_tombstones_kept:
  assumes "\<forall>(m, now) \<in> set (es @ fs). content (mf_checksum m) = (revoked_of m, cancelled_of m)"
    and "tombstoned j p r (run (commit_step rfc) new_manifest_tracker es)"
  shows "tombstoned j p r (run (commit_step rfc) new_manifest_tracker (es @ fs))"
proof -
  have "consistent content new_manifest_tracker" by (simp add: consistent_def new_manifest_tracker_def)
  then have "consistent content (run (commit_step rfc) new_manifest_tracker es)"
    using consistent_run [of es content] assms(1) by auto
  then show ?thesis using consistent_run [of fs content] assms by auto
qed

theorem tracker_tombstones_kept_witness:
  "tombstoned ''ka'' ''x'' ''x'' (run (commit_step demo_rfc) new_manifest_tracker
     ([(rev_manifest 1 ''a'' [''x''], 5)] @ [(rev_manifest 2 ''b'' [], 6), (rev_manifest 3 ''c'' [''y'', ''x''], 7)]))"
proof (rule tracker_tombstones_kept)
  show "\<forall>(m, now) \<in> set ([(rev_manifest 1 ''a'' [''x''], 5)]
      @ [(rev_manifest 2 ''b'' [], 6), (rev_manifest 3 ''c'' [''y'', ''x''], 7)]).
      (\<lambda>c. if c = ''a'' then ([''x''], [''x'']) else if c = ''b'' then ([], []) else ([''y'', ''x''], [''y'', ''x'']))
        (mf_checksum m) = (revoked_of m, cancelled_of m)"
    by (simp add: rev_manifest_def revoked_of_def cancelled_of_def)
  show "tombstoned ''ka'' ''x'' ''x'' (run (commit_step demo_rfc) new_manifest_tracker [(rev_manifest 1 ''a'' [''x''], 5)])"
    by (simp add: tombstoned_def commit_def validate_next_def new_manifest_tracker_def demo_rfc_def rev_manifest_def
        first_manifest_checks_def card_pkg_def revoked_of_def commit_write_def state_of_manifest_def
        cancelled_of_def check_def)
qed

text \<open>However commits interleave, the revision of a jurisdiction never goes back, and a
  revision never changes its checksum.\<close>

theorem tracker_revision_monotone:
  assumes "(tracker_next rfc)\<^sup>*\<^sup>* s t" and "get (store s) j = Some cur"
  shows "\<exists>cur'. get (store t) j = Some cur' \<and> ms_revision cur \<le> ms_revision cur'
    \<and> (ms_revision cur' = ms_revision cur \<longrightarrow> ms_checksum cur' = ms_checksum cur)"
proof -
  have "at_least j (ms_revision cur) (ms_checksum cur) (store s)"
    using assms(2) by (simp add: at_least_def)
  from tracker.inv_steps [OF assms(1) this] show ?thesis by (auto simp: at_least_def)
qed

definition raced_start :: tracker_sys where
  "raced_start = \<lparr>store = commit_step demo_rfc new_manifest_tracker (rev_manifest 1 ''a'' [], 5), pending = []\<rparr>"

definition raced_end :: tracker_sys where
  "raced_end =
     (let s2 = fst (commit_write demo_rfc (store raced_start) (rev_manifest 2 ''b'' [''x'']) 6)
      in \<lparr>store = fst (commit_write demo_rfc s2 (rev_manifest 3 ''c'' []) 6), pending = []\<rparr>)"

lemma two_commits_overlap:
  assumes "validate_next rfc (store s) (Some a) t = None" "validate_next rfc (store s) (Some b) t = None"
    and "pending s = []"
  shows "(tracker_next rfc)\<^sup>*\<^sup>* s
     (s\<lparr>store := fst (commit_write rfc (fst (commit_write rfc (store s) a t)) b t), pending := []\<rparr>)"
proof -
  let ?w = "\<lambda>x. fst (commit_write rfc x a t)"
  have "tracker_next rfc s (s\<lparr>pending := [(b, t)]\<rparr>)"
    using validated [OF assms(2)] assms(3) by simp
  moreover have "tracker_next rfc (s\<lparr>pending := [(b, t)]\<rparr>) (s\<lparr>pending := [(a, t), (b, t)]\<rparr>)"
    using validated [of rfc "s\<lparr>pending := [(b, t)]\<rparr>" a t] assms(1) by simp
  moreover have "tracker_next rfc (s\<lparr>pending := [(a, t), (b, t)]\<rparr>) (s\<lparr>store := ?w (store s), pending := [(b, t)]\<rparr>)"
    using written [of a t "s\<lparr>pending := [(a, t), (b, t)]\<rparr>" rfc] by (simp add: tracker_sys.defs)
  moreover have "tracker_next rfc (s\<lparr>store := ?w (store s), pending := [(b, t)]\<rparr>)
      (s\<lparr>store := fst (commit_write rfc (?w (store s)) b t), pending := []\<rparr>)"
    using written [of b t "s\<lparr>store := ?w (store s), pending := [(b, t)]\<rparr>" rfc] by simp
  ultimately show ?thesis by (meson converse_rtranclp_into_rtranclp rtranclp.rtrancl_refl)
qed

lemma raced_steps: "(tracker_next demo_rfc)\<^sup>*\<^sup>* raced_start raced_end"
proof -
  have "validate_next demo_rfc (store raced_start) (Some (rev_manifest 2 ''b'' [''x''])) 6 = None"
    "validate_next demo_rfc (store raced_start) (Some (rev_manifest 3 ''c'' [])) 6 = None" by code_simp+
  from two_commits_overlap [OF this] show ?thesis by (simp add: raced_end_def raced_start_def Let_def)
qed

theorem tracker_revision_monotone_witness:
  "\<exists>cur'. get (store raced_end) ''ka'' = Some cur' \<and> 1 \<le> ms_revision cur'"
proof -
  have "get (store raced_start) ''ka'' = Some (state_of_manifest demo_rfc (rev_manifest 1 ''a'' []) 5)"
    by code_simp
  from tracker_revision_monotone [OF raced_steps this] show ?thesis
    by (auto simp: state_of_manifest_def rev_manifest_def)
qed

text \<open>Interleaved commits can drop a tombstone: two successors validated against the same
  state are both stored, the second without the package that the first revoked, although
  the checks under the write lock run again on the revision.\<close>

theorem tracker_race_drops_tombstone:
  "(tracker_next demo_rfc)\<^sup>*\<^sup>* raced_start raced_end
   \<and> tombstoned ''ka'' ''x'' ''x'' (fst (commit_write demo_rfc (store raced_start) (rev_manifest 2 ''b'' [''x'']) 6))
   \<and> \<not> tombstoned ''ka'' ''x'' ''x'' (store raced_end)"
proof (intro conjI raced_steps)
  show "tombstoned ''ka'' ''x'' ''x'' (fst (commit_write demo_rfc (store raced_start) (rev_manifest 2 ''b'' [''x'']) 6))"
    by (simp add: tombstoned_def raced_start_def commit_def validate_next_def new_manifest_tracker_def
        demo_rfc_def rev_manifest_def first_manifest_checks_def card_pkg_def revoked_of_def commit_write_def
        state_of_manifest_def cancelled_of_def check_def)
  have "get (store raced_end) ''ka'' = Some (state_of_manifest demo_rfc (rev_manifest 3 ''c'' []) 6)" by code_simp
  then show "\<not> tombstoned ''ka'' ''x'' ''x'' (store raced_end)"
    by (simp add: tombstoned_def state_of_manifest_def revoked_of_def rev_manifest_def)
qed

text \<open>A resubmission of the current revision is checked only by its declared checksum: with
  the same checksum and fewer revocations it is stored, and the tombstone is gone.\<close>

theorem tracker_resubmission_drops_tombstone:
  "let tr = commit_step demo_rfc new_manifest_tracker (rev_manifest 1 ''a'' [''x''], 5);
       (tr', err) = commit demo_rfc tr (Some (rev_manifest 1 ''a'' [])) 6
   in err = None \<and> map_option ms_revoked (get tr ''ka'') = Some [''x'']
      \<and> map_option ms_revoked (get tr' ''ka'') = Some []"
  by code_simp

end
