(* ===== verification/Offline_Canonical.thy ===== *)
theory Offline_Canonical
  imports Offline_Types
begin

text \<open>
  The canonical serialization of backend/internal/offlinepkg/canonical.go: the JSON value
  of a manifest with its integrity metadata cleared, written with sorted keys and no white
  space. The text of a JSON string (\<open>json.Marshal\<close>) is the argument \<open>quote\<close>.
\<close>

section \<open>The canonical writer\<close>

fun write_canonical :: "(string \<Rightarrow> string) \<Rightarrow> json \<Rightarrow> string" where
  "write_canonical quote JNull = ''null''"
| "write_canonical quote (JBool b) = (if b then ''true'' else ''false'')"
| "write_canonical quote (JNum n) = n"
| "write_canonical quote (JStr s) = quote s"
| "write_canonical quote (JArr xs) =
     ''['' @ join_byte (CHR '','') (map (write_canonical quote) xs) @ '']''"
| "write_canonical quote (JObj kvs) =
     ''{'' @ join_byte (CHR '','') (map (\<lambda>(k, t). quote k @ '':'' @ t)
        (sort_key fst (map (\<lambda>(k, v). (k, write_canonical quote v)) kvs))) @ ''}''"

section \<open>The JSON value of a manifest\<close>

text \<open>Fields tagged omitempty are left out when empty.\<close>

definition omit_empty :: "string \<Rightarrow> json list \<Rightarrow> (string \<times> json) list" where
  "omit_empty k xs = (if xs = [] then [] else [(k, JArr xs)])"

definition signature_json :: "signature \<Rightarrow> json" where
  "signature_json g = JObj
     [(''algorithm'', JStr (sig_algorithm g)), (''key_id'', JStr (sig_key_id g)), (''value'', JStr (sig_value g))]"

definition descriptor_json :: "card_descriptor \<Rightarrow> json" where
  "descriptor_json d = JObj
     [(''package_id'', JStr (cd_package_id d)), (''version'', JNum (show_int (cd_version d))),
      (''uri'', JStr (cd_uri d)), (''checksum_sha256'', JStr (cd_checksum d)),
      (''uncompressed_bytes'', JNum (show_int (cd_uncompressed d))),
      (''compressed_bytes'', JNum (show_int (cd_compressed d))),
      (''content_type'', JStr (cd_content_type d))]"

definition resource_json :: "resource_descriptor \<Rightarrow> json" where
  "resource_json r = JObj
     [(''resource_id'', JStr (rd_resource_id r)), (''type'', JStr (rd_type r)), (''uri'', JStr (rd_uri r)),
      (''checksum_sha256'', JStr (rd_checksum r)), (''byte_size'', JNum (show_int (rd_byte_size r))),
      (''content_type'', JStr (rd_content_type r)), (''required'', JBool (rd_required r)),
      (''attribution'', JStr (rd_attribution r))]"

definition superseded_json :: "superseded_version \<Rightarrow> json" where
  "superseded_json s = JObj
     [(''package_id'', JStr (sv_package_id s)), (''version'', JNum (show_int (sv_version s)))]"

definition revocations_json :: "revocation_block \<Rightarrow> json" where
  "revocations_json b = JObj
     (omit_empty ''revoked_packages'' (map JStr (revoked_packages b))
      @ omit_empty ''cancelled_routes'' (map JStr (cancelled_routes b))
      @ omit_empty ''superseded_versions'' (map superseded_json (superseded_versions b)))"

definition provenance_json :: "manifest_provenance \<Rightarrow> json" where
  "provenance_json p = JObj
     [(''authority'', JStr (mp_authority p)), (''dataset_id'', JStr (mp_dataset_id p)),
      (''evidence_class'', JStr (mp_evidence_class p))]"

definition manifest_json :: "manifest \<Rightarrow> json" where
  "manifest_json m = JObj
     ([(''schema_version'', JStr (mf_schema_version m)), (''manifest_id'', JStr (mf_manifest_id m)),
       (''jurisdiction'', JStr (mf_jurisdiction m)), (''revision'', JNum (show_int (mf_revision m))),
       (''generated_at'', JStr (mf_generated_at m)), (''valid_until'', JStr (mf_valid_until m)),
       (''source_status'', JStr (mf_source_status m)),
       (''critical_card'', descriptor_json (mf_critical_card m))]
      @ omit_empty ''resources'' (map resource_json (mf_resources m))
      @ [(''revocations'', revocations_json (mf_revocations m)),
         (''provenance'', provenance_json (mf_provenance m)),
         (''checksum_sha256'', JStr (mf_checksum m))]
      @ (case mf_signature m of None \<Rightarrow> [] | Some g \<Rightarrow> [(''signature'', signature_json g)]))"

text \<open>CanonicalBytes of a manifest, its integrity metadata cleared; ints always marshal.\<close>

definition cleared :: "manifest \<Rightarrow> manifest" where
  "cleared m = m\<lparr>mf_checksum := [], mf_signature := None\<rparr>"

definition canonical_manifest :: "(string \<Rightarrow> string) \<Rightarrow> manifest \<Rightarrow> string" where
  "canonical_manifest quote m = write_canonical quote (manifest_json (cleared m))"

section \<open>Keys in order\<close>

fun norm :: "json \<Rightarrow> json" where
  "norm (JArr xs) = JArr (map norm xs)"
| "norm (JObj kvs) = JObj (sort_key fst (map (\<lambda>(k, v). (k, norm v)) kvs))"
| "norm j = j"

fun plain_write :: "(string \<Rightarrow> string) \<Rightarrow> json \<Rightarrow> string" where
  "plain_write quote JNull = ''null''"
| "plain_write quote (JBool b) = (if b then ''true'' else ''false'')"
| "plain_write quote (JNum n) = n"
| "plain_write quote (JStr s) = quote s"
| "plain_write quote (JArr xs) =
     CHR ''['' # join_byte (CHR '','') (map (plain_write quote) xs) @ '']''"
| "plain_write quote (JObj kvs) =
     CHR ''{'' # join_byte (CHR '','') (map (\<lambda>(k, v). quote k @ CHR '':'' # plain_write quote v) kvs) @ ''}''"

lemma insort_key_snd:
  "insort_key fst (k, g v) (map (\<lambda>(k, v). (k, g v)) kvs) = map (\<lambda>(k, v). (k, g v)) (insort_key fst (k, v) kvs)"
  by (induction kvs) auto

lemma sort_key_snd:
  "sort_key fst (map (\<lambda>(k, v). (k, g v)) kvs) = map (\<lambda>(k, v). (k, g v)) (sort_key fst kvs)"
  by (induction kvs) (auto simp: insort_key_snd)

lemma write_norm: "write_canonical quote j = plain_write quote (norm j)"
proof (induction j rule: norm.induct)
  case (1 xs)
  then show ?case by (auto intro!: arg_cong [where f = "join_byte _"])
next
  case (2 kvs)
  have eq: "map (\<lambda>(k, v). (k, write_canonical quote v)) kvs = map (\<lambda>(k, v). (k, plain_write quote (norm v))) kvs"
    using 2 by auto
  have "sort_key fst (map (\<lambda>(k, v). (k, write_canonical quote v)) kvs)
      = map (\<lambda>(k, v). (k, plain_write quote (norm v))) (sort_key fst kvs)"
    unfolding eq by (rule sort_key_snd [where g = "\<lambda>v. plain_write quote (norm v)"])
  moreover have "sort_key fst (map (\<lambda>(k, v). (k, norm v)) kvs) = map (\<lambda>(k, v). (k, norm v)) (sort_key fst kvs)"
    by (rule sort_key_snd [where g = norm])
  ultimately show ?case by (simp add: comp_def case_prod_beta)
qed simp_all

section \<open>The writer is uniquely readable\<close>

text \<open>What is relied on of \<open>json.Marshal\<close> of strings: a text starts with a quotation mark, and no
  text is a proper prefix of another or of what may follow it.\<close>

definition quote_ok :: "(string \<Rightarrow> string) \<Rightarrow> bool" where
  "quote_ok q \<longleftrightarrow> (\<forall>a. \<exists>u. q a = CHR 0x22 # u) \<and> (\<forall>a b s t. q a @ s = q b @ t \<longrightarrow> a = b \<and> s = t)"

lemma quote_start: "quote_ok q \<Longrightarrow> \<exists>u. q a = CHR 0x22 # u"
  unfolding quote_ok_def by blast

lemma quote_unique: "quote_ok q \<Longrightarrow> q a @ s = q b @ t \<Longrightarrow> a = b \<and> s = t"
  unfolding quote_ok_def by blast

definition num_char :: "char \<Rightarrow> bool" where
  "num_char c \<longleftrightarrow> c \<in> set ''0123456789-+.eE''"

definition num_start :: "char \<Rightarrow> bool" where
  "num_start c \<longleftrightarrow> c \<in> set ''0123456789-''"

fun nums_ok :: "json \<Rightarrow> bool" where
  "nums_ok (JNum n) \<longleftrightarrow> n \<noteq> [] \<and> list_all num_char n \<and> num_start (hd n)"
| "nums_ok (JArr xs) \<longleftrightarrow> list_all nums_ok xs"
| "nums_ok (JObj kvs) \<longleftrightarrow> list_all (\<lambda>(k, v). nums_ok v) kvs"
| "nums_ok _ \<longleftrightarrow> True"

definition ends :: "string \<Rightarrow> bool" where
  "ends s \<longleftrightarrow> s = [] \<or> hd s \<in> set '',]}''"

fun tail_items :: "('a \<Rightarrow> string) \<Rightarrow> char \<Rightarrow> 'a list \<Rightarrow> string \<Rightarrow> string" where
  "tail_items f c [] s = c # s"
| "tail_items f c (x # xs) s = CHR '','' # f x @ tail_items f c xs s"

lemma join_items: "join_byte (CHR '','') (map f (x # xs)) @ c # s = f x @ tail_items f c xs s"
  by (induction xs arbitrary: x) simp_all

lemma ends_tail: "c \<in> {CHR '']'', CHR ''}''} \<Longrightarrow> ends (tail_items f c xs s)"
  by (cases xs) (auto simp: ends_def)

text \<open>A reader that can tell the items apart can tell the lists apart.\<close>

definition readable :: "('a \<Rightarrow> string) \<Rightarrow> 'a set \<Rightarrow> 'a set \<Rightarrow> bool" where
  "readable f A B \<longleftrightarrow> (\<forall>x \<in> A. \<forall>y \<in> B. \<forall>s t. ends s \<longrightarrow> ends t \<longrightarrow> f x @ s = f y @ t \<longrightarrow> x = y \<and> s = t)
     \<and> (\<forall>x \<in> A \<union> B. f x \<noteq> [] \<and> hd (f x) \<notin> set '',]}'')"

lemma readableD:
  "readable f A B \<Longrightarrow> x \<in> A \<Longrightarrow> y \<in> B \<Longrightarrow> ends s \<Longrightarrow> ends t \<Longrightarrow> f x @ s = f y @ t \<Longrightarrow> x = y \<and> s = t"
  "readable f A B \<Longrightarrow> x \<in> A \<union> B \<Longrightarrow> f x \<noteq> [] \<and> hd (f x) \<notin> set '',]}''"
  by (auto simp: readable_def)

lemma tail_items_inj:
  assumes "readable f A B" "c \<in> {CHR '']'', CHR ''}''}"
  shows "set xs \<subseteq> A \<Longrightarrow> set ys \<subseteq> B \<Longrightarrow> tail_items f c xs s = tail_items f c ys t \<Longrightarrow> xs = ys \<and> s = t"
proof (induction xs arbitrary: ys)
  case Nil
  then show ?case using assms(2) by (cases ys) auto
next
  case (Cons x xs)
  from Cons.prems(3) assms(2) obtain y ys' where ys: "ys = y # ys'" by (cases ys) auto
  with Cons.prems have "f x @ tail_items f c xs s = f y @ tail_items f c ys' t" "x \<in> A" "y \<in> B"
    by auto
  from readableD(1) [OF assms(1) this(2,3) ends_tail [OF assms(2)] ends_tail [OF assms(2)] this(1)]
  show ?case using Cons.IH [of ys'] Cons.prems ys by auto
qed

lemma items_inj:
  assumes "readable f A B" "c \<in> {CHR '']'', CHR ''}''}" "set xs \<subseteq> A" "set ys \<subseteq> B"
    and eq: "join_byte (CHR '','') (map f xs) @ c # s = join_byte (CHR '','') (map f ys) @ c # t"
  shows "xs = ys \<and> s = t"
proof -
  have start: "\<exists>d u. f x = d # u \<and> d \<noteq> c" if "x \<in> A \<union> B" for x
    using readableD(2) [OF assms(1) that] assms(2) by (cases "f x") auto
  show ?thesis
  proof (cases xs)
    case Nil
    show ?thesis
    proof (cases ys)
      case Nil
      then show ?thesis using eq \<open>xs = []\<close> by simp
    next
      case (Cons y ys')
      have "c # s = f y @ tail_items f c ys' t"
        using eq join_items [of f y ys' c t] unfolding \<open>xs = []\<close> Cons by simp
      then show ?thesis using start [of y] assms(4) Cons by auto
    qed
  next
    case (Cons x xs')
    show ?thesis
    proof (cases ys)
      case Nil
      have "f x @ tail_items f c xs' s = c # t"
        using eq join_items [of f x xs' c s] unfolding Nil Cons by simp
      then show ?thesis using start [of x] assms(3) Cons by auto
    next
      case (Cons y ys')
      have eq2: "f x @ tail_items f c xs' s = f y @ tail_items f c ys' t"
        using eq join_items [of f x xs' c s] join_items [of f y ys' c t]
        unfolding \<open>xs = x # xs'\<close> \<open>ys = y # ys'\<close> by simp
      have mem: "x \<in> A" "y \<in> B" "set xs' \<subseteq> A" "set ys' \<subseteq> B"
        using assms(3,4) \<open>xs = x # xs'\<close> Cons by auto
      from readableD(1) [OF assms(1) mem(1,2) ends_tail [OF assms(2)] ends_tail [OF assms(2)] eq2]
      have "x = y" "tail_items f c xs' s = tail_items f c ys' t" by auto
      then show ?thesis
        using tail_items_inj [OF assms(1,2) mem(3,4)] \<open>xs = x # xs'\<close> Cons by simp
    qed
  qed
qed


fun first_char :: "json \<Rightarrow> char" where
  "first_char JNull = CHR ''n''"
| "first_char (JBool b) = (if b then CHR ''t'' else CHR ''f'')"
| "first_char (JNum n) = hd n"
| "first_char (JStr s) = CHR 0x22"
| "first_char (JArr xs) = CHR ''[''"
| "first_char (JObj kvs) = CHR ''{''"

lemma plain_write_first:
  assumes "quote_ok q" "nums_ok j"
  shows "\<exists>u. plain_write q j = first_char j # u"
proof (cases j)
  case (JNum n)
  then show ?thesis using assms(2) by (cases n) simp_all
next
  case (JStr a)
  then show ?thesis using quote_start [OF assms(1)] by simp
qed (auto split: if_splits)

lemma num_start_other:
  "num_start c \<Longrightarrow> c \<notin> set '',]}''" "num_start c \<Longrightarrow> c \<noteq> CHR ''n''" "num_start c \<Longrightarrow> c \<noteq> CHR ''t''"
  "num_start c \<Longrightarrow> c \<noteq> CHR ''f''" "num_start c \<Longrightarrow> c \<noteq> CHR 0x22" "num_start c \<Longrightarrow> c \<noteq> CHR ''[''"
  "num_start c \<Longrightarrow> c \<noteq> CHR ''{''"
  by (auto simp: num_start_def)

lemma first_char_sep: "nums_ok j \<Longrightarrow> first_char j \<notin> set '',]}''"
  by (cases j) (simp_all add: num_start_other(1) [simplified])

lemma number_end:
  assumes "list_all num_char n" "ends s"
  shows "takeWhile num_char (n @ s) = n"
proof -
  have "takeWhile num_char s = []"
    using assms(2) by (cases s) (auto simp: ends_def num_char_def)
  moreover have "\<forall>x \<in> set n. num_char x" using assms(1) by (simp add: list_all_iff)
  ultimately show ?thesis by (simp add: takeWhile_append2)
qed

text \<open>Values that begin alike have the same constructor.\<close>

lemma same_shape:
  assumes "nums_ok j" "nums_ok j'" "first_char j = first_char j'"
  shows "case j of JNull \<Rightarrow> j' = JNull | JBool b \<Rightarrow> j' = JBool b | JNum n \<Rightarrow> (\<exists>n'. j' = JNum n')
    | JStr s \<Rightarrow> (\<exists>s'. j' = JStr s') | JArr xs \<Rightarrow> (\<exists>ys. j' = JArr ys) | JObj kvs \<Rightarrow> (\<exists>kvs'. j' = JObj kvs')"
proof (cases j)
  case (JNum n)
  then show ?thesis using assms num_start_other [of "hd n"] by (cases j') (auto split: if_splits)
next
  case (JBool b)
  then show ?thesis
    using assms by (cases j') (auto dest: num_start_other(3,4) split: if_splits)
qed (use assms in \<open>cases j'; auto dest: num_start_other split: if_splits\<close>)+

abbreviation field_write :: "(string \<Rightarrow> string) \<Rightarrow> string \<times> json \<Rightarrow> string" where
  "field_write q \<equiv> (\<lambda>(k, v). q k @ CHR '':'' # plain_write q v)"

lemma readable_values:
  assumes "quote_ok q" "\<And>x. x \<in> A \<Longrightarrow> nums_ok x" "\<And>y. y \<in> B \<Longrightarrow> nums_ok y"
    and "\<And>x y s t. x \<in> A \<Longrightarrow> nums_ok y \<Longrightarrow> ends s \<Longrightarrow> ends t \<Longrightarrow> plain_write q x @ s = plain_write q y @ t
          \<Longrightarrow> x = y \<and> s = t"
  shows "readable (plain_write q) A B"
  unfolding readable_def
proof (intro conjI ballI allI impI)
  fix x assume "x \<in> A \<union> B"
  then have "nums_ok x" using assms(2,3) by blast
  then show "plain_write q x \<noteq> []" "hd (plain_write q x) \<notin> set '',]}''"
    using plain_write_first [OF assms(1)] first_char_sep by fastforce+
qed (use assms in blast)+

lemma readable_fields:
  assumes "quote_ok q" "\<And>p. p \<in> A \<Longrightarrow> nums_ok (snd p)" "\<And>p. p \<in> B \<Longrightarrow> nums_ok (snd p)"
    and "\<And>p y s t. p \<in> A \<Longrightarrow> nums_ok y \<Longrightarrow> ends s \<Longrightarrow> ends t
          \<Longrightarrow> plain_write q (snd p) @ s = plain_write q y @ t \<Longrightarrow> snd p = y \<and> s = t"
  shows "readable (field_write q) A B"
  unfolding readable_def
proof (intro conjI ballI allI impI)
  fix p assume "p \<in> A \<union> B"
  obtain u where "q (fst p) = CHR 0x22 # u" using quote_start [OF assms(1)] by blast
  then show "field_write q p \<noteq> []" "hd (field_write q p) \<notin> set '',]}''"
    by (simp_all add: case_prod_beta)
next
  fix p p' s t
  assume p: "p \<in> A" "p' \<in> B" "ends s" "ends t" and eq: "field_write q p @ s = field_write q p' @ t"
  have "q (fst p) @ CHR '':'' # plain_write q (snd p) @ s = q (fst p') @ CHR '':'' # plain_write q (snd p') @ t"
    using eq by (simp add: case_prod_beta)
  from quote_unique [OF assms(1) this]
  have key: "fst p = fst p'" and rest: "plain_write q (snd p) @ s = plain_write q (snd p') @ t" by auto
  have "snd p = snd p'" "s = t" using assms(4) [OF p(1) assms(3) [OF p(2)] p(3,4) rest] by auto
  then show "p = p'" "s = t" using key by (auto intro: prod_eqI)
qed

lemma plain_write_inj:
  assumes q: "quote_ok q"
  shows "nums_ok j \<Longrightarrow> nums_ok j' \<Longrightarrow> ends s \<Longrightarrow> ends t \<Longrightarrow> plain_write q j @ s = plain_write q j' @ t
    \<Longrightarrow> j = j' \<and> s = t"
proof (induction j arbitrary: j' s t)
  case (JNum n)
  have "first_char (JNum n) = first_char j'"
    using JNum plain_write_first [OF q] by (metis append_Cons list.inject)
  then obtain n' where j': "j' = JNum n'" using same_shape [OF JNum(1,2)] by auto
  have "n = takeWhile num_char (n @ s)" using JNum number_end [of n s] by simp
  also have "\<dots> = n'" using JNum j' number_end [of n' t] by simp
  finally have "n = n'" .
  then show ?case using JNum j' by simp
next
  case (JStr a)
  have "first_char (JStr a) = first_char j'"
    using JStr plain_write_first [OF q] by (metis append_Cons list.inject)
  then obtain b where j': "j' = JStr b" using same_shape [OF JStr(1,2)] by auto
  have "q a @ s = q b @ t" using JStr(5) j' by simp
  from quote_unique [OF q this] show ?case using j' by simp
next
  case (JArr xs)
  have "first_char (JArr xs) = first_char j'"
    using JArr.prems plain_write_first [OF q] by (metis append_Cons list.inject)
  then obtain ys where j': "j' = JArr ys" using same_shape [OF JArr.prems(1,2)] by auto
  have "readable (plain_write q) (set xs) (set ys)"
    using JArr q j' by (intro readable_values) (auto simp: list_all_iff)
  from items_inj [OF this, of "CHR '']''" xs ys s t] show ?case using JArr.prems j' by simp
next
  case (JObj kvs)
  have "first_char (JObj kvs) = first_char j'"
    using JObj.prems plain_write_first [OF q] by (metis append_Cons list.inject)
  then obtain kvs' where j': "j' = JObj kvs'" using same_shape [OF JObj.prems(1,2)] by auto
  have "readable (field_write q) (set kvs) (set kvs')"
    using JObj q j' by (intro readable_fields) (auto simp: list_all_iff)
  from items_inj [OF this, of "CHR ''}''" kvs kvs' s t] show ?case using JObj.prems j' by simp
next
  case JNull
  have "first_char JNull = first_char j'"
    using JNull plain_write_first [OF q] by (metis append_Cons list.inject)
  then have "j' = JNull" using same_shape [OF JNull(1,2)] by simp
  then show ?case using JNull by simp
next
  case (JBool b)
  have "first_char (JBool b) = first_char j'"
    using JBool plain_write_first [OF q] by (metis append_Cons list.inject)
  then have "j' = JBool b" using same_shape [OF JBool(1,2)] by simp
  then show ?case using JBool by simp
qed


section \<open>Reading a manifest back\<close>

text \<open>A field of an object, its keys in order or not.\<close>

fun field :: "json \<Rightarrow> string \<Rightarrow> json option" where
  "field (JObj kvs) k = map_of kvs k"
| "field _ k = None"

fun keys_distinct :: "json \<Rightarrow> bool" where
  "keys_distinct (JObj kvs) \<longleftrightarrow> distinct (map fst kvs)"
| "keys_distinct _ \<longleftrightarrow> True"

lemma map_of_sort_key: "distinct (map fst kvs) \<Longrightarrow> map_of (sort_key fst kvs) = map_of kvs"
proof -
  assume d: "distinct (map fst kvs)"
  have "mset (map fst (sort_key fst kvs)) = mset (map fst kvs)" by simp
  then have "distinct (map fst (sort_key fst kvs))" using d mset_eq_imp_distinct_iff by blast
  with d show ?thesis by (simp add: map_of_inject_set)
qed

lemma norm_field:
  assumes "norm j = norm j'" "keys_distinct j" "keys_distinct j'"
  shows "map_option norm (field j k) = map_option norm (field j' k)"
proof -
  have look: "map_of (sort_key fst (map (\<lambda>(k, v). (k, norm v)) kvs)) k = map_option norm (map_of kvs k)"
    if "distinct (map fst kvs)" for kvs :: "(string \<times> json) list"
  proof -
    have "distinct (map fst (map (\<lambda>(k, v). (k, norm v)) kvs))"
      using that by (simp add: comp_def case_prod_beta)
    then show ?thesis by (simp add: map_of_sort_key map_of_map)
  qed
  show ?thesis
  proof (cases "\<exists>kvs kvs'. j = JObj kvs \<and> j' = JObj kvs'")
    case True
    then obtain kvs kvs' where j: "j = JObj kvs" "j' = JObj kvs'" by blast
    then show ?thesis using assms look [of kvs] look [of kvs'] by simp
  next
    case False
    then show ?thesis using assms(1) by (cases j; cases j') auto
  qed
qed

lemma show_int_inj: "show_int i = show_int j \<longleftrightarrow> i = j"
proof
  assume eq: "show_int i = show_int j"
  have nat_inj: "show_nat a = show_nat b \<Longrightarrow> a = b" for a b
    by (metis option.inject parse_show_nat)
  have "hd (show_nat n) \<noteq> CHR ''-''" for n
    using hd_show_nat [of n] digit_char_not_sign(1) by metis
  then have "show_nat a \<noteq> CHR ''-'' # xs" for a xs by (metis list.sel(1))
  then show "i = j"
    using eq nat_inj [of "nat i" "nat j"] nat_inj [of "nat (- i)" "nat (- j)"]
    by (auto simp: show_int_def split: if_splits) (metis)+
qed simp

lemma get_omit_empty: "map_of (omit_empty k xs) k' = (if k' = k \<and> xs \<noteq> [] then Some (JArr xs) else None)"
  by (simp add: omit_empty_def)

lemmas get_field = get_omit_empty map_add_def cleared_def show_int_inj

lemma list_field:
  assumes "map_option norm (if xs = [] then None else Some (JArr xs))
    = map_option norm (if ys = [] then None else Some (JArr ys))"
  shows "map norm xs = map norm ys"
  using assms by (auto split: if_splits)

lemma descriptor_json_inj: "norm (descriptor_json d) = norm (descriptor_json d') \<Longrightarrow> d = d'"
proof -
  assume eq: "norm (descriptor_json d) = norm (descriptor_json d')"
  have keys: "keys_distinct (descriptor_json x)" for x by (simp add: descriptor_json_def)
  note f = norm_field [OF eq keys keys]
  show ?thesis
    using f [of "''package_id''"] f [of "''version''"] f [of "''uri''"] f [of "''checksum_sha256''"]
      f [of "''uncompressed_bytes''"] f [of "''compressed_bytes''"] f [of "''content_type''"]
    by (intro card_descriptor.equality) (simp_all add: descriptor_json_def show_int_inj)
qed

lemma resource_json_inj: "norm (resource_json d) = norm (resource_json d') \<Longrightarrow> d = d'"
proof -
  assume eq: "norm (resource_json d) = norm (resource_json d')"
  have keys: "keys_distinct (resource_json x)" for x by (simp add: resource_json_def)
  note f = norm_field [OF eq keys keys]
  show ?thesis
    using f [of "''resource_id''"] f [of "''type''"] f [of "''uri''"] f [of "''checksum_sha256''"]
      f [of "''byte_size''"] f [of "''content_type''"] f [of "''required''"] f [of "''attribution''"]
    by (intro resource_descriptor.equality) (simp_all add: resource_json_def show_int_inj)
qed

lemma superseded_json_inj: "norm (superseded_json d) = norm (superseded_json d') \<Longrightarrow> d = d'"
proof -
  assume eq: "norm (superseded_json d) = norm (superseded_json d')"
  have keys: "keys_distinct (superseded_json x)" for x by (simp add: superseded_json_def)
  note f = norm_field [OF eq keys keys]
  show ?thesis using f [of "''package_id''"] f [of "''version''"]
    by (intro superseded_version.equality) (simp_all add: superseded_json_def show_int_inj)
qed

lemma provenance_json_inj: "norm (provenance_json d) = norm (provenance_json d') \<Longrightarrow> d = d'"
proof -
  assume eq: "norm (provenance_json d) = norm (provenance_json d')"
  have keys: "keys_distinct (provenance_json x)" for x by (simp add: provenance_json_def)
  note f = norm_field [OF eq keys keys]
  show ?thesis using f [of "''authority''"] f [of "''dataset_id''"] f [of "''evidence_class''"]
    by (intro manifest_provenance.equality) (simp_all add: provenance_json_def)
qed

lemma map_norm_inj: "(\<And>x y. norm (g x) = norm (g y) \<Longrightarrow> x = y) \<Longrightarrow> map norm (map g xs) = map norm (map g ys) \<Longrightarrow> xs = ys"
  by (induction xs ys rule: list_induct2') auto

lemma revocations_json_inj: "norm (revocations_json b) = norm (revocations_json b') \<Longrightarrow> b = b'"
proof -
  assume eq: "norm (revocations_json b) = norm (revocations_json b')"
  have keys: "keys_distinct (revocations_json x)" for x by (simp add: revocations_json_def omit_empty_def)
  note f = norm_field [OF eq keys keys]
  have "map norm (map JStr (revoked_packages b)) = map norm (map JStr (revoked_packages b'))"
    using f [of "''revoked_packages''"] by (intro list_field) (auto simp: revocations_json_def get_field split: if_splits)
  then have "revoked_packages b = revoked_packages b'" by (rule map_norm_inj [rotated]) simp
  moreover have "map norm (map JStr (cancelled_routes b)) = map norm (map JStr (cancelled_routes b'))"
    using f [of "''cancelled_routes''"] by (intro list_field) (auto simp: revocations_json_def get_field split: if_splits)
  then have "cancelled_routes b = cancelled_routes b'" by (rule map_norm_inj [rotated]) simp
  moreover have "map norm (map superseded_json (superseded_versions b))
      = map norm (map superseded_json (superseded_versions b'))"
    using f [of "''superseded_versions''"] by (intro list_field) (auto simp: revocations_json_def get_field split: if_splits)
  then have "superseded_versions b = superseded_versions b'"
    by (rule map_norm_inj [rotated]) (rule superseded_json_inj)
  ultimately show ?thesis by (intro revocation_block.equality) simp_all
qed

lemma manifest_json_inj:
  assumes "norm (manifest_json (cleared m)) = norm (manifest_json (cleared m'))"
  shows "cleared m = cleared m'"
proof -
  let ?j = "manifest_json (cleared m)" and ?j' = "manifest_json (cleared m')"
  have keys: "keys_distinct (manifest_json (cleared x))" for x
    by (simp add: manifest_json_def omit_empty_def cleared_def)
  note f = norm_field [OF assms keys keys]
  have texts: "mf_schema_version m = mf_schema_version m'" "mf_manifest_id m = mf_manifest_id m'"
    "mf_jurisdiction m = mf_jurisdiction m'" "mf_revision m = mf_revision m'"
    "mf_generated_at m = mf_generated_at m'" "mf_valid_until m = mf_valid_until m'"
    "mf_source_status m = mf_source_status m'"
    using f [of "''schema_version''"] f [of "''manifest_id''"] f [of "''jurisdiction''"]
      f [of "''revision''"] f [of "''generated_at''"] f [of "''valid_until''"] f [of "''source_status''"]
    by (simp_all add: manifest_json_def get_field)
  have "norm (descriptor_json (mf_critical_card m)) = norm (descriptor_json (mf_critical_card m'))"
    using f [of "''critical_card''"] by (simp add: manifest_json_def get_field)
  then have "mf_critical_card m = mf_critical_card m'" by (rule descriptor_json_inj)
  moreover have "norm (revocations_json (mf_revocations m)) = norm (revocations_json (mf_revocations m'))"
    using f [of "''revocations''"] by (simp add: manifest_json_def get_field)
  then have "mf_revocations m = mf_revocations m'" by (rule revocations_json_inj)
  moreover have "norm (provenance_json (mf_provenance m)) = norm (provenance_json (mf_provenance m'))"
    using f [of "''provenance''"] by (simp add: manifest_json_def get_field)
  then have "mf_provenance m = mf_provenance m'" by (rule provenance_json_inj)
  moreover have "map norm (map resource_json (mf_resources m)) = map norm (map resource_json (mf_resources m'))"
    using f [of "''resources''"]
    by (intro list_field) (auto simp: manifest_json_def get_field split: if_splits)
  then have "mf_resources m = mf_resources m'"
    by (rule map_norm_inj [rotated]) (rule resource_json_inj)
  ultimately show ?thesis using texts by (simp add: cleared_def)
qed

lemma show_nat_nums: "list_all num_char (show_nat n)"
proof (induction n rule: show_nat.induct)
  case (1 n)
  have "num_char (digit_char d)" if "d < 10" for d
  proof -
    have "d \<in> {0,1,2,3,4,5,6,7,8,9}" using that by auto
    moreover have "\<forall>d \<in> {0,1,2,3,4,5,6,7,8,9}. num_char (digit_char d)" by code_simp
    ultimately show ?thesis by blast
  qed
  with 1 show ?case by (cases "n < 10") (simp_all add: show_nat.simps [of n])
qed

lemma show_nat_start: "num_start (hd (show_nat n))"
proof -
  obtain d where d: "d < 10" "hd (show_nat n) = digit_char d" using hd_show_nat by blast
  then have "d \<in> {0,1,2,3,4,5,6,7,8,9}" by auto
  moreover have "\<forall>d \<in> {0,1,2,3,4,5,6,7,8,9}. num_start (digit_char d)" by code_simp
  ultimately show ?thesis using d(2) by metis
qed

lemma nums_ok_show_int [simp]: "nums_ok (JNum (show_int i))"
  by (auto simp: show_int_def show_nat_nums show_nat_start) (simp_all add: num_char_def num_start_def)

lemma nums_ok_norm [simp]: "nums_ok (norm j) = nums_ok j"
  by (induction j rule: norm.induct) (auto simp: list_all_iff)

lemma manifest_nums: "nums_ok (manifest_json m)"
  by (auto simp: manifest_json_def omit_empty_def descriptor_json_def resource_json_def
      revocations_json_def superseded_json_def provenance_json_def signature_json_def list_all_iff
      simp del: nums_ok.simps(1) split: option.splits)

text \<open>A quoting with the escapes of the two bytes that need one, to instantiate \<open>quote\<close>.\<close>

fun escape :: "string \<Rightarrow> string" where
  "escape [] = []"
| "escape (c # cs) = (if c = CHR 0x22 \<or> c = CHR 0x5C then CHR 0x5C # c # escape cs else c # escape cs)"

definition simple_quote :: "string \<Rightarrow> string" where
  "simple_quote s = CHR 0x22 # escape s @ [CHR 0x22]"

lemma escape_inj: "escape a @ CHR 0x22 # s = escape b @ CHR 0x22 # t \<Longrightarrow> a = b \<and> s = t"
proof (induction a arbitrary: b)
  case Nil
  then show ?case by (cases b) (auto split: if_splits)
next
  case (Cons c a)
  then show ?case by (cases b) (auto split: if_splits)
qed

lemma quote_ok_simple: "quote_ok simple_quote"
proof -
  have "simple_quote a @ s = simple_quote b @ t \<Longrightarrow> a = b \<and> s = t" for a b s t
    using escape_inj [of a s b t] by (simp add: simple_quote_def)
  moreover have "\<exists>u. simple_quote a = CHR 0x22 # u" for a by (simp add: simple_quote_def)
  ultimately show ?thesis unfolding quote_ok_def by blast
qed

definition demo_manifest :: manifest where
  "demo_manifest =
     \<lparr>mf_schema_version = ''3.0'', mf_manifest_id = ''m1'', mf_jurisdiction = ''ka'', mf_revision = 2,
      mf_generated_at = ''t1'', mf_valid_until = ''t2'', mf_source_status = ''CURRENT'',
      mf_critical_card = \<lparr>cd_package_id = ''p'', cd_version = 1, cd_uri = ''u'',
        cd_checksum = replicate 64 (CHR ''0''), cd_uncompressed = 10, cd_compressed = 5,
        cd_content_type = ''application/json''\<rparr>,
      mf_resources = [],
      mf_revocations = \<lparr>revoked_packages = [''old''], cancelled_routes = [], superseded_versions = []\<rparr>,
      mf_provenance = \<lparr>mp_authority = ''a'', mp_dataset_id = ''d'', mp_evidence_class = ''SYNTHETIC_DEMO''\<rparr>,
      mf_checksum = replicate 64 (CHR ''1''),
      mf_signature = Some \<lparr>sig_algorithm = ''Ed25519'', sig_key_id = ''k'', sig_value = ''v''\<rparr>\<rparr>"

section \<open>Properties\<close>




end
