(* ===== verification/Offline_Trust.thy ===== *)
theory Offline_Trust
  imports Offline_Validate Offline_Canonical
begin

text \<open>
  The trust store of backend/internal/offlinepkg/trust.go and the verification of manifests of
  validate.go. The contract that verification relies on, the Go interface TrustStore, is the
  locale \<open>trust_store\<close>, interpreted on the in-memory store. Base64, Ed25519 and SHA-256 are
  the record \<open>crypto_lib\<close>.
\<close>

section \<open>Data\<close>

record crypto_lib =
  base64_decode :: "string \<Rightarrow> string option"
  ed25519_verify :: "string \<Rightarrow> string \<Rightarrow> string \<Rightarrow> bool"
  digest_hex :: "string \<Rightarrow> string"

record trusted_key =
  tk_key_id :: string
  public_key :: string
  permitted_jurisdiction :: string
  valid_from :: time
  valid_until :: time
  revoked :: bool

record trust_keys =
  keys :: "(string, trusted_key) gomap"
  clock_now :: time

definition ed25519_public_key_size :: nat where "ed25519_public_key_size = 32"
definition ed25519_signature_size :: nat where "ed25519_signature_size = 64"

section \<open>Operations\<close>

definition add_key :: "trusted_key \<Rightarrow> trust_keys \<Rightarrow> trust_keys \<times> off_error option" where
  "add_key k s =
     (if tk_key_id k = [] then (s, Some ([ErrSignerUnauthorized], plain ''key_id cannot be empty''))
      else if length (public_key k) \<noteq> ed25519_public_key_size
      then (s, Some ([ErrInvalidSignature],
              Fmt ''invalid ed25519 public key size %d'' [AInt (int (length (public_key k)))]))
      else (s\<lparr>keys := put (tk_key_id k) k (keys s)\<rparr>, None))"

definition new_trust_store :: "time \<Rightarrow> trusted_key list \<Rightarrow> trust_keys" where
  "new_trust_store now ks = foldl (\<lambda>s k. fst (add_key k s)) \<lparr>keys = [], clock_now = now\<rparr> ks"

definition with_clock :: "time \<Rightarrow> trust_keys \<Rightarrow> trust_keys" where
  "with_clock now s = s\<lparr>clock_now := now\<rparr>"

definition revoke_key :: "string \<Rightarrow> trust_keys \<Rightarrow> trust_keys \<times> off_error option" where
  "revoke_key kid s =
     (case get (keys s) kid of
        None \<Rightarrow> (s, Some ([ErrUnknownKey], Fmt ''key %q not found'' [AStr kid]))
      | Some k \<Rightarrow> (s\<lparr>keys := put kid (k\<lparr>revoked := True\<rparr>) (keys s)\<rparr>, None))"

definition lookup_key :: "trust_keys \<Rightarrow> string \<Rightarrow> off_error + trusted_key" where
  "lookup_key s kid =
     (case get (keys s) kid of
        None \<Rightarrow> Inl ([ErrUnknownKey], Fmt ''key %q not found in trust store'' [AStr kid])
      | Some k \<Rightarrow> Inr k)"

text \<open>The guards on the key, and the check of the signature bytes.\<close>

definition key_checks :: "trusted_key \<Rightarrow> string \<Rightarrow> string \<Rightarrow> time \<Rightarrow> off_error option" where
  "key_checks k kid jur at = first_err
     [check (revoked k) ([ErrSignerUnauthorized, ErrKeyRevoked], Fmt ''key %q is revoked'' [AStr kid]),
      check (permitted_jurisdiction k \<noteq> ''*'' \<and> permitted_jurisdiction k \<noteq> jur)
        ([ErrSignerUnauthorized], Fmt ''key %q permitted for %q but document is for %q''
          [AStr kid, AStr (permitted_jurisdiction k), AStr jur]),
      check (valid_from k \<noteq> zero_time \<and> at < valid_from k)
        ([ErrKeyExpired], Fmt ''key %q not valid before %v'' [AStr kid, AInt (valid_from k)]),
      check (valid_until k \<noteq> zero_time \<and> valid_until k < at)
        ([ErrKeyExpired], Fmt ''key %q expired at %v'' [AStr kid, AInt (valid_until k)])]"

definition signature_bytes_check :: "crypto_lib \<Rightarrow> string \<Rightarrow> string \<Rightarrow> string \<Rightarrow> off_error option" where
  "signature_bytes_check lib pub bytes sig64 =
     (case base64_decode lib sig64 of
        None \<Rightarrow> Some ([ErrInvalidSignature], plain ''base64 decode failed or invalid signature size'')
      | Some sb \<Rightarrow>
          if length sb \<noteq> ed25519_signature_size
          then Some ([ErrInvalidSignature], plain ''base64 decode failed or invalid signature size'')
          else check (\<not> ed25519_verify lib pub bytes sb)
                 ([ErrInvalidSignature], plain ''offlinepkg: invalid digital signature''))"

definition verify_signature_at ::
  "crypto_lib \<Rightarrow> trust_keys \<Rightarrow> string \<Rightarrow> string \<Rightarrow> string \<Rightarrow> string \<Rightarrow> time \<Rightarrow> off_error option"
where
  "verify_signature_at lib s kid jur bytes sig64 at =
     (case lookup_key s kid of
        Inl e \<Rightarrow> Some ([ErrSignerUnauthorized], snd e)
      | Inr k \<Rightarrow> first_err [key_checks k kid jur at, signature_bytes_check lib (public_key k) bytes sig64])"

definition verify_signature ::
  "crypto_lib \<Rightarrow> trust_keys \<Rightarrow> string \<Rightarrow> string \<Rightarrow> string \<Rightarrow> string \<Rightarrow> off_error option"
where
  "verify_signature lib s kid jur bytes sig64 = verify_signature_at lib s kid jur bytes sig64 (clock_now s)"

section \<open>Verification of a manifest\<close>

text \<open>The trust store is the function \<open>verify\<close> that VerifySignature answers with.\<close>

definition verify_manifest ::
  "crypto_lib \<Rightarrow> (string \<Rightarrow> string) \<Rightarrow> rfc \<Rightarrow> (string \<Rightarrow> string \<Rightarrow> string \<Rightarrow> string \<Rightarrow> off_error option)
     \<Rightarrow> manifest option \<Rightarrow> off_error option"
where
  "verify_manifest lib quote rfc verify mo =
     (case validate_manifest rfc mo of
        Some e \<Rightarrow> Some e
      | None \<Rightarrow>
         (case mo of
            None \<Rightarrow> None
          | Some m \<Rightarrow>
             (case mf_signature m of
                None \<Rightarrow> Some ([ErrInvalidSignature], plain ''manifest has no signature'')
              | Some g \<Rightarrow>
                  let canonical = canonical_manifest quote m; expected = digest_hex lib canonical
                  in if mf_checksum m \<noteq> expected
                     then Some ([ErrChecksumMismatch], Fmt ''manifest checksum mismatch (declared %q != computed %q)''
                            [AStr (mf_checksum m), AStr expected])
                     else verify (sig_key_id g) (mf_jurisdiction m) canonical (sig_value g))))"

section \<open>The contract of a trust store\<close>

text \<open>When a key may sign for a jurisdiction at an instant, and when a signature is one.\<close>

definition key_usable :: "trusted_key \<Rightarrow> string \<Rightarrow> time \<Rightarrow> bool" where
  "key_usable k jur at \<longleftrightarrow> \<not> revoked k
     \<and> (permitted_jurisdiction k = ''*'' \<or> permitted_jurisdiction k = jur)
     \<and> (valid_from k = zero_time \<or> valid_from k \<le> at) \<and> (valid_until k = zero_time \<or> at \<le> valid_until k)"

definition signed_by :: "crypto_lib \<Rightarrow> string \<Rightarrow> string \<Rightarrow> string \<Rightarrow> bool" where
  "signed_by lib pub bytes sig64 \<longleftrightarrow>
     (\<exists>sb. base64_decode lib sig64 = Some sb \<and> length sb = ed25519_signature_size \<and> ed25519_verify lib pub bytes sb)"

locale trust_store =
  fixes lookup :: "'s \<Rightarrow> string \<Rightarrow> off_error + trusted_key"
    and verify :: "'s \<Rightarrow> string \<Rightarrow> string \<Rightarrow> string \<Rightarrow> string \<Rightarrow> off_error option"
    and now :: "'s \<Rightarrow> time"
    and lib :: crypto_lib
  assumes verify_exact: "verify s kid jur bytes sig64 = None \<longleftrightarrow>
    (\<exists>k. lookup s kid = Inr k \<and> key_usable k jur (now s) \<and> signed_by lib (public_key k) bytes sig64)"
begin

lemma manifest_accepted:
  "verify_manifest lib quote rfc (verify s) (Some m) = None \<longleftrightarrow>
     valid_manifest rfc m \<and> mf_checksum m = digest_hex lib (canonical_manifest quote m)
     \<and> (\<exists>g k. mf_signature m = Some g \<and> lookup s (sig_key_id g) = Inr k
          \<and> key_usable k (mf_jurisdiction m) (now s)
          \<and> signed_by lib (public_key k) (canonical_manifest quote m) (sig_value g))"
  by (auto simp: verify_manifest_def Let_def verify_exact validate_manifest_None
      simp flip: validate_manifest_None split: option.splits)

lemma revoked_key_refused:
  "lookup s kid = Inr k \<Longrightarrow> revoked k \<Longrightarrow> verify s kid jur bytes sig64 \<noteq> None"
  by (auto simp: verify_exact key_usable_def)

end

lemma key_checks_None: "key_checks k kid jur at = None \<longleftrightarrow> key_usable k jur at"
  by (auto simp: key_checks_def key_usable_def first_err_Cons_None)

lemma signature_bytes_None: "signature_bytes_check lib pub bytes sig64 = None \<longleftrightarrow> signed_by lib pub bytes sig64"
  by (auto simp: signature_bytes_check_def signed_by_def split: option.splits if_splits)

interpretation mem_store: trust_store lookup_key "verify_signature lib" clock_now lib for lib
  by unfold_locales
     (auto simp: verify_signature_def verify_signature_at_def first_err_Cons_None key_checks_None
       signature_bytes_None split: sum.splits)

section \<open>Runs of a store\<close>

datatype trust_event = AddKey trusted_key | RevokeKey string | WithClock time

fun trust_step :: "trust_keys \<Rightarrow> trust_event \<Rightarrow> trust_keys" where
  "trust_step s (AddKey k) = fst (add_key k s)"
| "trust_step s (RevokeKey kid) = fst (revoke_key kid s)"
| "trust_step s (WithClock t) = with_clock t s"

definition good_store :: "trust_keys \<Rightarrow> bool" where
  "good_store s \<longleftrightarrow> wf_map (keys s)
     \<and> (\<forall>kid k. get (keys s) kid = Some k \<longrightarrow> kid = tk_key_id k \<and> kid \<noteq> []
          \<and> length (public_key k) = ed25519_public_key_size)"

lemma good_store_step: "good_store s \<Longrightarrow> good_store (trust_step s e)"
  by (cases e) (auto simp: good_store_def add_key_def revoke_key_def with_clock_def split: option.splits)

interpretation store: event_system trust_step good_store
  by unfold_locales (rule good_store_step)

lemma good_store_new: "good_store (new_trust_store now ks)"
proof -
  have "good_store s \<Longrightarrow> good_store (foldl (\<lambda>s k. fst (add_key k s)) s ks)" for s
  proof (induction ks arbitrary: s)
    case (Cons k ks)
    have "good_store (fst (add_key k s))"
      using good_store_step [OF Cons.prems, of "AddKey k"] by simp
    from Cons.IH [OF this] show ?case by simp
  qed simp
  moreover have "good_store \<lparr>keys = [], clock_now = now\<rparr>" by (simp add: good_store_def)
  ultimately show ?thesis unfolding new_trust_store_def by blast
qed

definition key_revoked :: "string \<Rightarrow> trust_keys \<Rightarrow> bool" where
  "key_revoked kid s \<longleftrightarrow> (\<exists>k. get (keys s) kid = Some k \<and> revoked k)"

lemma revoked_step:
  "key_revoked kid s \<Longrightarrow> \<forall>k. e = AddKey k \<longrightarrow> tk_key_id k \<noteq> kid \<Longrightarrow> key_revoked kid (trust_step s e)"
  by (cases e) (auto simp: key_revoked_def add_key_def revoke_key_def with_clock_def split: option.splits)

lemma revoked_run:
  "key_revoked kid s \<Longrightarrow> \<forall>k. AddKey k \<in> set es \<longrightarrow> tk_key_id k \<noteq> kid \<Longrightarrow> key_revoked kid (run trust_step s es)"
proof (induction es arbitrary: s)
  case (Cons e es)
  then have "key_revoked kid (trust_step s e)" by (intro revoked_step) auto
  then show ?case using Cons by simp
qed simp

lemma revoked_error:
  "key_revoked kid s \<Longrightarrow> verify_signature lib s kid jur bytes sig64
     = Some ([ErrSignerUnauthorized, ErrKeyRevoked], Fmt ''key %q is revoked'' [AStr kid])"
  by (auto simp: key_revoked_def verify_signature_def verify_signature_at_def lookup_key_def
      key_checks_def check_def)

section \<open>Properties\<close>

definition demo_lib :: crypto_lib where
  "demo_lib = \<lparr>base64_decode = (\<lambda>s. Some (replicate 64 (CHR ''s''))),
     ed25519_verify = (\<lambda>pub bytes sb. sb = replicate 64 (hd pub)),
     digest_hex = (\<lambda>s. replicate 64 (CHR ''1''))\<rparr>"

definition demo_key :: trusted_key where
  "demo_key = \<lparr>tk_key_id = ''k'', public_key = replicate 32 (CHR ''s''), permitted_jurisdiction = ''ka'',
     valid_from = 5, valid_until = 50, revoked = False\<rparr>"

text \<open>A manifest passes verification exactly when it is well formed, its checksum is the
  digest of its canonical bytes, and its signature is a valid one over those bytes by a key
  in the trust store that is not revoked, permitted for the manifest's jurisdiction and
  within its validity at the store's time.\<close>

theorem manifest_verified_exactly:
  "(verify_manifest lib quote rfc (verify_signature lib s) (Some m) = None) =
     (valid_manifest rfc m \<and> mf_checksum m = digest_hex lib (canonical_manifest quote m)
     \<and> (\<exists>g k. mf_signature m = Some g \<and> lookup_key s (sig_key_id g) = Inr k
          \<and> key_usable k (mf_jurisdiction m) (clock_now s)
          \<and> signed_by lib (public_key k) (canonical_manifest quote m) (sig_value g)))"
  by (rule mem_store.manifest_accepted)

text \<open>A revocation holds: once a key is revoked, every signature by it is refused as
  revoked, whatever else happens to the store, until a key with its identifier is added.\<close>

theorem revocation_holds:
  assumes "get (keys s) kid = Some k" and "\<forall>k'. AddKey k' \<in> set es \<longrightarrow> tk_key_id k' \<noteq> kid"
  shows "verify_signature lib (run trust_step s (RevokeKey kid # es)) kid jur bytes sig64
     = Some ([ErrSignerUnauthorized, ErrKeyRevoked], Fmt ''key %q is revoked'' [AStr kid])"
proof -
  have "key_revoked kid (fst (revoke_key kid s))"
    using assms(1) by (simp add: revoke_key_def key_revoked_def)
  then show ?thesis using revoked_error [OF revoked_run [OF _ assms(2)]] by simp
qed

theorem revocation_holds_witness:
  "verify_signature demo_lib (new_trust_store 9 [demo_key]) ''k'' ''ka'' ''b'' ''v'' = None
   \<and> verify_signature demo_lib (run trust_step (new_trust_store 9 [demo_key])
        [RevokeKey ''k'', WithClock 10, AddKey (demo_key\<lparr>tk_key_id := ''k2''\<rparr>)]) ''k'' ''ka'' ''b'' ''v''
     = Some ([ErrSignerUnauthorized, ErrKeyRevoked], Fmt ''key %q is revoked'' [AStr ''k''])"
proof
  show "verify_signature demo_lib (new_trust_store 9 [demo_key]) ''k'' ''ka'' ''b'' ''v'' = None"
    by code_simp
  have "get (keys (new_trust_store 9 [demo_key])) ''k'' = Some demo_key" by code_simp
  moreover have "\<forall>k'. AddKey k' \<in> set [WithClock 10, AddKey (demo_key\<lparr>tk_key_id := ''k2''\<rparr>)]
      \<longrightarrow> tk_key_id k' \<noteq> ''k''" by auto
  ultimately show "verify_signature demo_lib (run trust_step (new_trust_store 9 [demo_key])
        [RevokeKey ''k'', WithClock 10, AddKey (demo_key\<lparr>tk_key_id := ''k2''\<rparr>)]) ''k'' ''ka'' ''b'' ''v''
     = Some ([ErrSignerUnauthorized, ErrKeyRevoked], Fmt ''key %q is revoked'' [AStr ''k''])"
    by (rule revocation_holds)
qed

end
