(* ===== verification/Json_Walk.thy ===== *)
theory Json_Walk
  imports Offline_Validate
begin

text \<open>
  The walk over the tokens of a JSON document that refuses duplicate keys and deep nesting:
  walkValue, walkObject and walkArray of backend/internal/offlinepkg/parse.go and
  walkJSONTokens of backend/internal/offlinequeue/worker.go, which are the same walk with
  other error texts. The decoder is its stream of tokens; the end of the stream is io.EOF, and
  an error token stands for the error that \<open>Token\<close> returns there.
\<close>

section \<open>Tokens\<close>

text \<open>The flag of an error token: the byte at that place is a closing bracket.\<close>

datatype jtok = TObj | TObjEnd | TArr | TArrEnd | TStr string | TScalar | TErr msg bool

text \<open>\<open>Decoder.More\<close> and \<open>Decoder.Token\<close>.\<close>

fun more :: "jtok list \<Rightarrow> bool" where
  "more [] = False"
| "more (TObjEnd # ts) = False"
| "more (TArrEnd # ts) = False"
| "more (TErr e closing # ts) = (\<not> closing)"
| "more (t # ts) = True"

datatype walk_err = TooDeep nat nat | Truncated | TokenErr msg | KeyErr msg | NonStringKey
  | DuplicateKey string | CloseErr msg | CloseEof | OutOfFuel

text \<open>Consuming the closing bracket; its error is returned as it is.\<close>

fun close_token :: "jtok list \<Rightarrow> walk_err + jtok list" where
  "close_token [] = Inl CloseEof"
| "close_token (TErr e c # ts) = Inl (CloseErr e)"
| "close_token (t # ts) = Inr ts"

section \<open>The walk\<close>

text \<open>\<open>mx\<close> is the depth limit, not enforced when zero. Each call spends a unit of fuel.\<close>

fun walk_value :: "nat \<Rightarrow> nat \<Rightarrow> nat \<Rightarrow> jtok list \<Rightarrow> walk_err + jtok list"
  and walk_object :: "nat \<Rightarrow> nat \<Rightarrow> nat \<Rightarrow> string list \<Rightarrow> jtok list \<Rightarrow> walk_err + jtok list"
  and walk_array :: "nat \<Rightarrow> nat \<Rightarrow> nat \<Rightarrow> jtok list \<Rightarrow> walk_err + jtok list"
where
  "walk_value 0 mx d ts = Inl OutOfFuel"
| "walk_value (Suc f) mx d ts =
     (if 0 < mx \<and> mx < d then Inl (TooDeep d mx)
      else case ts of
             [] \<Rightarrow> Inl Truncated
           | TErr e c # r \<Rightarrow> Inl (TokenErr e)
           | TObj # r \<Rightarrow> walk_object f mx (Suc d) [] r
           | TArr # r \<Rightarrow> walk_array f mx (Suc d) r
           | _ # r \<Rightarrow> Inr r)"
| "walk_object 0 mx d seen ts = Inl OutOfFuel"
| "walk_object (Suc f) mx d seen ts =
     (if \<not> more ts then close_token ts
      else case ts of
             TErr e c # r \<Rightarrow> Inl (KeyErr e)
           | TStr k # r \<Rightarrow>
               if k \<in> set seen then Inl (DuplicateKey k)
               else (case walk_value f mx d r of
                       Inl e \<Rightarrow> Inl e
                     | Inr r' \<Rightarrow> walk_object f mx d (k # seen) r')
           | _ \<Rightarrow> Inl NonStringKey)"
| "walk_array 0 mx d ts = Inl OutOfFuel"
| "walk_array (Suc f) mx d ts =
     (if \<not> more ts then close_token ts
      else case walk_value f mx d ts of
             Inl e \<Rightarrow> Inl e
           | Inr r \<Rightarrow> walk_array f mx d r)"

text \<open>Enough fuel for any stream.\<close>

definition walk_fuel :: "jtok list \<Rightarrow> nat" where
  "walk_fuel ts = 2 * length ts + 2"

definition walk_tokens :: "nat \<Rightarrow> jtok list \<Rightarrow> walk_err + jtok list" where
  "walk_tokens mx ts = walk_value (walk_fuel ts) mx 0 ts"

section \<open>The walk ends\<close>

lemma close_length: "close_token ts = Inr r \<Longrightarrow> length r < length ts"
  by (induction ts rule: close_token.induct) auto

lemma close_fuel: "close_token ts \<noteq> Inl OutOfFuel"
  by (induction ts rule: close_token.induct) auto

lemma walk_length:
  "walk_value f mx d ts = Inr r \<Longrightarrow> length r < length ts"
  "walk_object f mx d seen ts = Inr r \<Longrightarrow> length r < length ts"
  "walk_array f mx d ts = Inr r \<Longrightarrow> length r < length ts"
proof (induction f mx d ts and f mx d seen ts and f mx d ts arbitrary: r and r and r
    rule: walk_value_walk_object_walk_array.induct)
  case (2 f mx d ts)
  then show ?case by (cases ts; cases "hd ts") (force split: if_splits)+
next
  case (4 f mx d seen ts)
  then show ?case
    by (cases ts; cases "hd ts") (force split: if_splits sum.splits dest: close_length)+
next
  case (6 f mx d ts)
  then show ?case by (force split: if_splits sum.splits dest: close_length)
qed auto

lemma walk_enough:
  "2 * length ts < f \<Longrightarrow> walk_value f mx d ts \<noteq> Inl OutOfFuel"
  "2 * length ts + 1 < f \<Longrightarrow> walk_object f mx d seen ts \<noteq> Inl OutOfFuel"
  "2 * length ts + 1 < f \<Longrightarrow> walk_array f mx d ts \<noteq> Inl OutOfFuel"
proof (induction f mx d ts and f mx d seen ts and f mx d ts rule: walk_value_walk_object_walk_array.induct)
  case (2 f mx d ts)
  then show ?case by (cases ts; cases "hd ts") auto
next
  case (4 f mx d seen ts)
  show ?case
  proof (cases "\<exists>k r. more ts \<and> ts = TStr k # r \<and> k \<notin> set seen")
    case True
    then obtain k r where ts: "ts = TStr k # r" "k \<notin> set seen" by blast
    show ?thesis
    proof (cases "walk_value f mx d r")
      case (Inl e)
      then show ?thesis using 4 ts by auto
    next
      case (Inr r')
      then have "length r' < length r" by (rule walk_length)
      then show ?thesis using 4 ts Inr by auto
    qed
  next
    case False
    then show ?thesis using close_fuel [of ts] by (cases ts; cases "hd ts") auto
  qed
next
  case (6 f mx d ts)
  show ?case
  proof (cases "walk_value f mx d ts")
    case (Inl e)
    then show ?thesis using 6 close_fuel [of ts] by auto
  next
    case (Inr r)
    then have "length r < length ts" by (rule walk_length)
    then show ?thesis using 6 Inr close_fuel [of ts] by auto
  qed
qed auto

section \<open>What the walk accepts\<close>

text \<open>The tokens of a value, and the values that keep within the depth limit without a
  duplicate key in any object.\<close>

fun tokens_of :: "json \<Rightarrow> jtok list" where
  "tokens_of (JStr s) = [TStr s]"
| "tokens_of (JArr xs) = TArr # concat (map tokens_of xs) @ [TArrEnd]"
| "tokens_of (JObj kvs) = TObj # concat (map (\<lambda>(k, v). TStr k # tokens_of v) kvs) @ [TObjEnd]"
| "tokens_of _ = [TScalar]"

fun fits :: "nat \<Rightarrow> nat \<Rightarrow> json \<Rightarrow> bool" where
  "fits mx d (JArr xs) \<longleftrightarrow> (mx = 0 \<or> d \<le> mx) \<and> list_all (fits mx (Suc d)) xs"
| "fits mx d (JObj kvs) \<longleftrightarrow> (mx = 0 \<or> d \<le> mx) \<and> distinct (map fst kvs) \<and> list_all (\<lambda>(k, v). fits mx (Suc d) v) kvs"
| "fits mx d _ \<longleftrightarrow> mx = 0 \<or> d \<le> mx"

definition walks :: "bool \<Rightarrow> 'r \<Rightarrow> 'e + 'r \<Rightarrow> bool" where
  "walks ok rest res \<longleftrightarrow> (if ok then res = Inr rest else (\<exists>e. res = Inl e))"

lemma tokens_start: "\<exists>t ts. tokens_of j = t # ts \<and> t \<notin> {TObjEnd, TArrEnd} \<and> (\<forall>e c. t \<noteq> TErr e c)"
  by (cases j) auto

lemma more_tokens [simp]: "more (tokens_of j @ r)"
proof -
  obtain t ts where "tokens_of j = t # ts" "t \<notin> {TObjEnd, TArrEnd}" "\<forall>e c. t \<noteq> TErr e c"
    using tokens_start [of j] by blast
  then show ?thesis by (cases t) auto
qed

lemma tokens_length: "0 < length (tokens_of j)"
  using tokens_start [of j] by auto

lemma walk_elements:
  assumes "\<And>x f d rest. x \<in> set xs \<Longrightarrow> 2 * length (tokens_of x @ rest) < f
      \<Longrightarrow> walks (fits mx d x) rest (walk_value f mx d (tokens_of x @ rest))"
    and "2 * length (concat (map tokens_of xs) @ TArrEnd # rest) + 1 < f"
  shows "walks (list_all (fits mx d) xs) rest (walk_array f mx d (concat (map tokens_of xs) @ TArrEnd # rest))"
  using assms
proof (induction xs arbitrary: f)
  case Nil
  then show ?case by (cases f) (auto simp: walks_def)
next
  case (Cons x xs)
  obtain g where f: "f = Suc g" using Cons.prems(2) by (cases f) auto
  let ?r = "concat (map tokens_of xs) @ TArrEnd # rest"
  have x: "walks (fits mx d x) ?r (walk_value g mx d (tokens_of x @ ?r))"
    using Cons.prems f by auto
  show ?case
  proof (cases "fits mx d x")
    case True
    then have "walk_value g mx d (tokens_of x @ ?r) = Inr ?r" using x by (simp add: walks_def)
    moreover have "2 * length ?r + 1 < g"
    proof -
      have "2 * (a + b) + 1 < Suc g \<Longrightarrow> 0 < a \<Longrightarrow> 2 * b + 1 < g" for a b :: nat by presburger
      from this [OF _ tokens_length [of x], of "length ?r"] show ?thesis
        using Cons.prems(2) f by simp
    qed
    then have "walks (list_all (fits mx d) xs) rest (walk_array g mx d ?r)"
      using Cons.prems(1) by (intro Cons.IH) auto
    ultimately show ?thesis using True f by simp
  next
    case False
    then obtain e where "walk_value g mx d (tokens_of x @ ?r) = Inl e" using x by (auto simp: walks_def)
    then show ?thesis using False f by (simp add: walks_def)
  qed
qed

lemma walk_fields:
  assumes "\<And>p f d rest. p \<in> set kvs \<Longrightarrow> 2 * length (tokens_of (snd p) @ rest) < f
      \<Longrightarrow> walks (fits mx d (snd p)) rest (walk_value f mx d (tokens_of (snd p) @ rest))"
    and "2 * length (concat (map (\<lambda>(k, v). TStr k # tokens_of v) kvs) @ TObjEnd # rest) + 1 < f"
  shows "walks (distinct (map fst kvs) \<and> set (map fst kvs) \<inter> set seen = {} \<and> list_all (\<lambda>(k, v). fits mx d v) kvs) rest
    (walk_object f mx d seen (concat (map (\<lambda>(k, v). TStr k # tokens_of v) kvs) @ TObjEnd # rest))"
  using assms
proof (induction kvs arbitrary: f seen)
  case Nil
  then show ?case by (cases f) (auto simp: walks_def)
next
  case (Cons p kvs)
  obtain g where f: "f = Suc g" using Cons.prems(2) by (cases f) auto
  obtain k v where p: "p = (k, v)" by (cases p)
  let ?r = "concat (map (\<lambda>(k, v). TStr k # tokens_of v) kvs) @ TObjEnd # rest"
  have v: "walks (fits mx d v) ?r (walk_value g mx d (tokens_of v @ ?r))"
    using Cons.prems(1) [of p ?r g d] Cons.prems(2) f p by simp
  show ?case
  proof (cases "k \<notin> set seen \<and> fits mx d v")
    case True
    then have "walk_value g mx d (tokens_of v @ ?r) = Inr ?r" using v by (simp add: walks_def)
    moreover have "walks (distinct (map fst kvs) \<and> set (map fst kvs) \<inter> set (k # seen) = {}
        \<and> list_all (\<lambda>(k, v). fits mx d v) kvs) rest (walk_object g mx d (k # seen) ?r)"
      using Cons.prems f p by (intro Cons.IH) auto
    ultimately show ?thesis using True f p by (auto simp: walks_def split: if_splits)
  next
    case False
    then show ?thesis using v f p by (auto simp: walks_def)
  qed
qed

lemma walk_tree:
  "2 * length (tokens_of j @ rest) < f \<Longrightarrow> walks (fits mx d j) rest (walk_value f mx d (tokens_of j @ rest))"
proof (induction j arbitrary: f d rest)
  case (JArr xs)
  obtain g where f: "f = Suc g" using JArr.prems by (cases f) auto
  have "walks (list_all (fits mx (Suc d)) xs) rest
      (walk_array g mx (Suc d) (concat (map tokens_of xs) @ TArrEnd # rest))"
    using JArr f by (intro walk_elements) auto
  then show ?case using f by (auto simp: walks_def)
next
  case (JObj kvs)
  obtain g where f: "f = Suc g" using JObj.prems by (cases f) auto
  have "walks (distinct (map fst kvs) \<and> set (map fst kvs) \<inter> set [] = {} \<and> list_all (\<lambda>(k, v). fits mx (Suc d) v) kvs) rest
      (walk_object g mx (Suc d) [] (concat (map (\<lambda>(k, v). TStr k # tokens_of v) kvs) @ TObjEnd # rest))"
    using JObj f by (intro walk_fields) auto
  then show ?case using f by (auto simp: walks_def)
next
  case JNull
  then show ?case by (cases f) (simp_all add: walks_def)
next
  case (JBool b)
  then show ?case by (cases f) (simp_all add: walks_def)
next
  case (JNum n)
  then show ?case by (cases f) (simp_all add: walks_def)
next
  case (JStr s)
  then show ?case by (cases f) (simp_all add: walks_def)
qed

section \<open>Parsing a document\<close>

text \<open>
  The decoder is given by what it makes of a text: its tokens, and the strict decoding of the
  first value into the struct with the error of a second one (\<open>ensureEOF\<close>).
\<close>

record limits =
  max_doc_bytes :: int
  max_depth :: int

definition default_limits :: limits where
  "default_limits = \<lparr>max_doc_bytes = 1048576, max_depth = 32\<rparr>"

definition effective_limits :: "limits \<Rightarrow> limits" where
  "effective_limits l = \<lparr>max_doc_bytes = (if max_doc_bytes l \<le> 0 then max_doc_bytes default_limits else max_doc_bytes l),
     max_depth = (if max_depth l \<le> 0 then max_depth default_limits else max_depth l)\<rparr>"

datatype trailing = NoTrailing | TrailingValue | TrailingError msg

record 'a doc_lib =
  doc_tokens :: "string \<Rightarrow> jtok list"
  doc_decode :: "string \<Rightarrow> msg + 'a"
  doc_trailing :: "string \<Rightarrow> trailing"

definition walk_error :: "walk_err \<Rightarrow> off_error" where
  "walk_error e = (case e of
       TooDeep d mx \<Rightarrow> malformed ''depth %d exceeds maximum depth %d'' [AInt (int d), AInt (int mx)]
     | Truncated \<Rightarrow> malformed ''truncated json'' []
     | TokenErr m \<Rightarrow> malformed ''token error: %v'' [AMsg m]
     | KeyErr m \<Rightarrow> malformed ''object key read: %v'' [AMsg m]
     | NonStringKey \<Rightarrow> malformed ''non-string object key'' []
     | DuplicateKey k \<Rightarrow> malformed ''duplicate key %q'' [AStr k]
     | CloseErr m \<Rightarrow> ([], m)
     | CloseEof \<Rightarrow> ([], plain ''EOF'')
     | OutOfFuel \<Rightarrow> ([], plain []))"

definition check_well_formed :: "(string \<Rightarrow> jtok list) \<Rightarrow> string \<Rightarrow> int \<Rightarrow> off_error option" where
  "check_well_formed toks data depth =
     (if trim_space data = [] then Some (malformed ''empty input'' [])
      else case walk_tokens (nat depth) (toks data) of
             Inl e \<Rightarrow> Some (walk_error e)
           | Inr _ \<Rightarrow> None)"

definition ensure_eof :: "trailing \<Rightarrow> off_error option" where
  "ensure_eof t = (case t of
       NoTrailing \<Rightarrow> None
     | TrailingValue \<Rightarrow> Some (malformed ''trailing data after top-level value'' [])
     | TrailingError e \<Rightarrow> Some (malformed ''check EOF: %v'' [AMsg e]))"

definition parse_document ::
  "'a doc_lib \<Rightarrow> ('a option \<Rightarrow> off_error option) \<Rightarrow> string \<Rightarrow> limits \<Rightarrow> off_error + 'a"
where
  "parse_document lib validate data l0 =
     (let l = effective_limits l0
      in if max_doc_bytes l < int (length data)
         then Inl (malformed ''input size %d exceeds limit %d'' [AInt (int (length data)), AInt (max_doc_bytes l)])
         else case check_well_formed (doc_tokens lib) data (max_depth l) of
                Some e \<Rightarrow> Inl e
              | None \<Rightarrow>
                 (case doc_decode lib data of
                    Inl e \<Rightarrow> Inl (malformed ''json decode: %v'' [AMsg e])
                  | Inr v \<Rightarrow>
                     (case ensure_eof (doc_trailing lib data) of
                        Some e \<Rightarrow> Inl e
                      | None \<Rightarrow> require (validate (Some v)) v)))"

definition parse_manifest :: "manifest doc_lib \<Rightarrow> rfc \<Rightarrow> string \<Rightarrow> limits \<Rightarrow> off_error + manifest" where
  "parse_manifest lib rfc data l = parse_document lib (validate_manifest rfc) data l"

definition parse_card :: "incident_card doc_lib \<Rightarrow> rfc \<Rightarrow> string \<Rightarrow> limits \<Rightarrow> off_error + incident_card" where
  "parse_card lib rfc data l = parse_document lib (validate_card rfc) data l"

section \<open>Properties\<close>

text \<open>The token walk accepts exactly the documents that keep within the depth limit and have
  no duplicate key in any object, at any depth: on the tokens of a JSON value it stops right
  after them when the value is of that kind and reports an error when it is not, and it
  always ends.\<close>

theorem json_walk_exact:
  "(walk_tokens mx (tokens_of j @ rest) = Inr rest) = fits mx 0 j
   \<and> (walk_tokens mx (tokens_of j @ rest) = Inr rest \<or> isl (walk_tokens mx (tokens_of j @ rest)))
   \<and> walk_tokens mx ts \<noteq> Inl OutOfFuel"
proof -
  have "walks (fits mx 0 j) rest (walk_tokens mx (tokens_of j @ rest))"
    unfolding walk_tokens_def walk_fuel_def by (rule walk_tree) simp
  moreover have "walk_tokens mx ts \<noteq> Inl OutOfFuel"
    unfolding walk_tokens_def walk_fuel_def by (rule walk_enough) simp
  ultimately show ?thesis by (auto simp: walks_def split: if_splits)
qed

end
