(* ===== verification/Offline_Queue.thy ===== *)
theory Offline_Queue
  imports Systems
begin

text \<open>
  The durable queue of offline operations, backend/internal/offlinequeue: the operation and
  its state machine (queue.go) and the directory store (store.go). The directory is the map
  from identifiers to the entries that are read back from their files; file operations are
  taken to succeed, identifiers to be plain file names. JSON validity, the text of a raw
  JSON value after it was written and read back, and SHA-256 are the record \<open>queue_lib\<close>.
\<close>

section \<open>Operations\<close>

datatype op_state = OpPending | OpInFlight | OpReconciliation | OpCommitted | OpFailedStale | OpFailedPerm
  | OpOther string

datatype q_error = ErrQueueEmpty | ErrOperationConflict | ErrPayloadChanged | ErrNoSuchOperation
  | ErrTerminalState | ErrSelectionExpired | QErr msg

record operation =
  op_id :: string
  created_at :: time
  idempotency_key :: string
  endpoint :: string
  op_method :: string
  token_ref :: string
  payload :: string
  payload_hash :: string
  snapshot_version :: int
  selection_expiry :: time
  op_state :: op_state
  retry_count :: int
  last_error :: msg
  last_status_code :: int
  committed_at :: time
  server_result :: string

record queue_lib =
  json_valid :: "string \<Rightarrow> bool"
  disk_form :: "string \<Rightarrow> string"
  sha256_hex :: "string \<Rightarrow> string"

definition hash_payload :: "queue_lib \<Rightarrow> string \<Rightarrow> string \<Rightarrow> string" where
  "hash_payload lib key body = sha256_hex lib (key @ [CHR 0x0A] @ body)"

definition op_checks :: "queue_lib \<Rightarrow> time \<Rightarrow> operation \<Rightarrow> q_error option" where
  "op_checks lib now op = first_err
     [check (trim_space (op_id op) = []) (QErr (plain ''offlinequeue: operation id is required'')),
      check (trim_space (idempotency_key op) = []) (QErr (plain ''offlinequeue: idempotency_key is required'')),
      check (\<not> has_prefix (endpoint op) ''/'')
        (QErr (Fmt ''offlinequeue: endpoint %q must be an absolute path'' [AStr (endpoint op)])),
      check (op_method op \<noteq> ''POST'')
        (QErr (Fmt ''offlinequeue: only POST is supported (got %q)'' [AStr (op_method op)])),
      check (trim_space (token_ref op) = []) (QErr (plain ''offlinequeue: token_ref is required (the token itself must never be persisted)'')),
      check (payload op = [] \<or> \<not> json_valid lib (payload op))
        (QErr (plain ''offlinequeue: payload is required and must be valid JSON'')),
      check (selection_expiry op = zero_time) (QErr (plain ''offlinequeue: selection_expiry is required so the worker can fail closed when the offline window is too long'')),
      check (\<not> now < selection_expiry op)
        (QErr (Fmt ''offlinequeue: selection_expiry %s is already in the past (now=%s)''
          [AInt (selection_expiry op), AInt now]))]"

text \<open>Validate completes the operation where it returns no error.\<close>

definition validate_op :: "queue_lib \<Rightarrow> time \<Rightarrow> operation \<Rightarrow> q_error + operation" where
  "validate_op lib now op = require (op_checks lib now op)
     (op\<lparr>op_state := (if op_state op = OpOther [] then OpPending else op_state op),
         payload_hash := (if payload_hash op = [] then hash_payload lib (idempotency_key op) (payload op)
                          else payload_hash op)\<rparr>)"

section \<open>The state machine\<close>

definition live_state :: "op_state \<Rightarrow> bool" where
  "live_state s \<longleftrightarrow> s = OpPending \<or> s = OpInFlight \<or> s = OpReconciliation"

definition is_terminal :: "operation \<Rightarrow> bool" where
  "is_terminal op \<longleftrightarrow> op_state op = OpCommitted \<or> op_state op = OpFailedStale \<or> op_state op = OpFailedPerm"

definition set_committed :: "time \<Rightarrow> int \<Rightarrow> string \<Rightarrow> operation \<Rightarrow> operation \<times> q_error option" where
  "set_committed now code result op =
     (if \<not> live_state (op_state op) then (op, Some ErrTerminalState)
      else (op\<lparr>op_state := OpCommitted, committed_at := now, last_status_code := code, last_error := plain [],
              server_result := (if result = [] then server_result op else result)\<rparr>, None))"

definition set_failed_stale :: "time \<Rightarrow> int \<Rightarrow> msg \<Rightarrow> operation \<Rightarrow> operation \<times> q_error option" where
  "set_failed_stale now code e op =
     (if \<not> live_state (op_state op) then (op, Some ErrTerminalState)
      else (op\<lparr>op_state := OpFailedStale, committed_at := now, last_status_code := code, last_error := e\<rparr>, None))"

definition set_failed_perm :: "time \<Rightarrow> int \<Rightarrow> msg \<Rightarrow> operation \<Rightarrow> operation \<times> q_error option" where
  "set_failed_perm now code e op =
     (if \<not> live_state (op_state op) then (op, Some ErrTerminalState)
      else (op\<lparr>op_state := OpFailedPerm, committed_at := now, last_status_code := code, last_error := e\<rparr>, None))"

definition set_pending_reconciliation :: "int \<Rightarrow> msg \<Rightarrow> operation \<Rightarrow> operation \<times> q_error option" where
  "set_pending_reconciliation code e op =
     (if \<not> live_state (op_state op) then (op, Some ErrTerminalState)
      else (op\<lparr>op_state := OpReconciliation, last_status_code := code,
              last_error := (if e = plain [] then last_error op else e)\<rparr>, None))"

fun state_text :: "op_state \<Rightarrow> string" where
  "state_text OpPending = ''PENDING''"
| "state_text OpInFlight = ''IN_FLIGHT''"
| "state_text OpReconciliation = ''PENDING_RECONCILIATION''"
| "state_text OpCommitted = ''COMMITTED''"
| "state_text OpFailedStale = ''FAILED_STALE''"
| "state_text OpFailedPerm = ''FAILED_PERM''"
| "state_text (OpOther s) = s"

definition set_in_flight :: "operation \<Rightarrow> operation \<times> q_error option" where
  "set_in_flight op =
     (if op_state op \<noteq> OpPending \<and> op_state op \<noteq> OpReconciliation
      then (op, Some (QErr (Fmt ''offlinequeue: cannot move to IN_FLIGHT from %s'' [AStr (state_text (op_state op))])))
      else (op\<lparr>op_state := OpInFlight\<rparr>, None))"

definition bump_retry :: "int \<Rightarrow> msg \<Rightarrow> operation \<Rightarrow> operation" where
  "bump_retry code e op = op\<lparr>retry_count := retry_count op + 1, last_status_code := code, last_error := e\<rparr>"

definition selection_still_valid :: "time \<Rightarrow> operation \<Rightarrow> bool" where
  "selection_still_valid now op \<longleftrightarrow> selection_expiry op \<noteq> zero_time \<and> now < selection_expiry op"

section \<open>The store\<close>

type_synonym op_store = "(string, operation) gomap"

text \<open>
  Writing an entry: the raw JSON values must be valid, and the payload that is read back is
  its disk form (the encoder indents it).
\<close>

definition write_op :: "queue_lib \<Rightarrow> operation \<Rightarrow> op_store \<Rightarrow> op_store \<times> q_error option" where
  "write_op lib op s =
     (if trim_space (op_id op) = []
      then (s, Some (QErr (plain ''offlinequeue: cannot write operation without an id'')))
      else if (payload op \<noteq> [] \<and> \<not> json_valid lib (payload op))
              \<or> (server_result op \<noteq> [] \<and> \<not> json_valid lib (server_result op))
      then (s, Some (QErr (plain ''json: error calling MarshalJSON for type json.RawMessage'')))
      else (put (op_id op)
              (op\<lparr>payload_hash := (if payload_hash op = [] then hash_payload lib (idempotency_key op) (payload op)
                                  else payload_hash op),
                  payload := disk_form lib (payload op),
                  server_result := (if server_result op = [] then [] else disk_form lib (server_result op))\<rparr>) s,
            None))"

definition list_ops :: "op_store \<Rightarrow> operation list" where
  "list_ops s = sort_key created_at (map snd (sort_key fst s))"

definition get_op :: "op_store \<Rightarrow> string \<Rightarrow> q_error + operation" where
  "get_op s i = (case get s i of None \<Rightarrow> Inl ErrNoSuchOperation | Some op \<Rightarrow> Inr op)"

definition conflict_of :: "operation \<Rightarrow> operation \<Rightarrow> q_error option" where
  "conflict_of op e =
     (if idempotency_key e \<noteq> idempotency_key op then None
      else if is_terminal e then None
      else if payload_hash e \<noteq> payload_hash op then Some ErrPayloadChanged
      else Some ErrOperationConflict)"

definition enqueue :: "queue_lib \<Rightarrow> time \<Rightarrow> operation \<Rightarrow> op_store \<Rightarrow> op_store \<times> q_error option" where
  "enqueue lib now op0 s =
     (case validate_op lib now op0 of
        Inl e \<Rightarrow> (s, Some e)
      | Inr op \<Rightarrow>
         (case each_err (conflict_of op) (list_ops s) of
            Some e \<Rightarrow> (s, Some e)
          | None \<Rightarrow>
              write_op lib (if created_at op = zero_time then op\<lparr>created_at := now\<rparr> else op) s))"

definition peek_pending :: "op_store \<Rightarrow> operation list" where
  "peek_pending s = filter (\<lambda>op. op_state op = OpPending \<or> op_state op = OpReconciliation) (list_ops s)"

text \<open>The fields that an update takes from the entry on disk.\<close>

definition keep_identity :: "operation \<Rightarrow> operation \<Rightarrow> operation" where
  "keep_identity prev op =
     op\<lparr>idempotency_key := idempotency_key prev, endpoint := endpoint prev, op_method := op_method prev,
        token_ref := token_ref prev, payload := payload prev, payload_hash := payload_hash prev,
        snapshot_version := snapshot_version prev, selection_expiry := selection_expiry prev,
        created_at := created_at prev\<rparr>"

definition update_state :: "queue_lib \<Rightarrow> operation \<Rightarrow> op_store \<Rightarrow> op_store \<times> q_error option" where
  "update_state lib op s =
     (if trim_space (op_id op) = [] then (s, Some (QErr (plain ''offlinequeue: update requires an id'')))
      else case get_op s (op_id op) of
             Inl e \<Rightarrow> (s, Some e)
           | Inr prev \<Rightarrow>
               if is_terminal prev then (s, Some ErrTerminalState)
               else write_op lib (keep_identity prev op) s)"

definition delete_op :: "string \<Rightarrow> op_store \<Rightarrow> op_store \<times> q_error option" where
  "delete_op i s = (if has_key s i then (del i s, None) else (s, Some ErrNoSuchOperation))"

definition purgeable :: "time \<Rightarrow> operation \<Rightarrow> bool" where
  "purgeable cutoff op \<longleftrightarrow> op_state op = OpCommitted \<and> committed_at op \<noteq> zero_time \<and> \<not> cutoff < committed_at op"

definition purge_committed :: "time \<Rightarrow> duration \<Rightarrow> op_store \<Rightarrow> (op_store \<times> int) \<times> q_error option" where
  "purge_committed now older s =
     (if older < 0 then ((s, 0), Some (QErr (plain ''offlinequeue: olderThan must be non-negative'')))
      else ((drop_where (\<lambda>_ op. purgeable (now - older) op) s,
             int (length (filter (purgeable (now - older)) (list_ops s)))), None))"

definition reset_op :: "operation \<Rightarrow> operation" where
  "reset_op op = op\<lparr>op_state := OpReconciliation, retry_count := retry_count op + 1,
     last_error := plain ''reset: previous worker did not acknowledge''\<rparr>"

fun reset_loop :: "queue_lib \<Rightarrow> operation list \<Rightarrow> int \<Rightarrow> op_store \<Rightarrow> (op_store \<times> int) \<times> q_error option" where
  "reset_loop lib [] n s = ((s, n), None)"
| "reset_loop lib (op # ops) n s =
     (if op_state op \<noteq> OpInFlight then reset_loop lib ops n s
      else case write_op lib (reset_op op) s of
             (s', Some e) \<Rightarrow> ((s', n), Some e)
           | (s', None) \<Rightarrow> reset_loop lib ops (n + 1) s')"

definition reset_stuck_in_flight :: "queue_lib \<Rightarrow> op_store \<Rightarrow> (op_store \<times> int) \<times> q_error option" where
  "reset_stuck_in_flight lib s = reset_loop lib (list_ops s) 0 s"

definition snapshot_for_inspection :: "op_store \<Rightarrow> operation list" where
  "snapshot_for_inspection s = map (\<lambda>op. op\<lparr>token_ref := ''REDACTED''\<rparr>) (list_ops s)"

section \<open>What the store keeps\<close>

definition good_store :: "op_store \<Rightarrow> bool" where
  "good_store s \<longleftrightarrow> wf_map s \<and> (\<forall>i op. get s i = Some op \<longrightarrow> op_id op = i)"

text \<open>At most one entry per idempotency key is not terminal.\<close>

definition one_live :: "op_store \<Rightarrow> bool" where
  "one_live s \<longleftrightarrow> (\<forall>i j a b. get s i = Some a \<longrightarrow> get s j = Some b \<longrightarrow> \<not> is_terminal a \<longrightarrow> \<not> is_terminal b
     \<longrightarrow> idempotency_key a = idempotency_key b \<longrightarrow> i = j)"

text \<open>What binds an entry to the submission that was confirmed.\<close>

definition identity :: "operation \<Rightarrow> string \<times> string \<times> string \<times> string \<times> string \<times> int \<times> time \<times> time" where
  "identity op = (idempotency_key op, endpoint op, op_method op, token_ref op, payload_hash op,
     snapshot_version op, selection_expiry op, created_at op)"

lemma set_list_ops: "set (list_ops s) = snd ` set s"
  by (simp add: list_ops_def)

lemma good_storeD: "good_store s \<Longrightarrow> wf_map s" "good_store s \<Longrightarrow> get s i = Some op \<Longrightarrow> op_id op = i"
  by (simp_all add: good_store_def)

lemma listed:
  assumes "good_store s"
  shows "op \<in> set (list_ops s) \<longleftrightarrow> get s (op_id op) = Some op"
proof -
  have "op \<in> set (list_ops s) \<longleftrightarrow> (\<exists>k. get s k = Some op)"
    using get_iff_mem [OF good_storeD(1) [OF assms]] by (force simp: set_list_ops)
  also have "\<dots> \<longleftrightarrow> get s (op_id op) = Some op"
    using good_storeD(2) [OF assms] by blast
  finally show ?thesis .
qed

lemma write_op_cases:
  obtains (refused) e where "write_op lib op s = (s, Some e)"
    | (written) op' where "write_op lib op s = (put (op_id op) op' s, None)" "op_id op' = op_id op"
      "op_state op' = op_state op" "idempotency_key op' = idempotency_key op"
      "payload_hash op \<noteq> [] \<longrightarrow> identity op' = identity op"
  by (cases "write_op lib op s") (auto simp: write_op_def identity_def split: if_splits)

lemma good_put: "good_store s \<Longrightarrow> op_id op = i \<Longrightarrow> good_store (put i op s)"
  by (auto simp: good_store_def)

lemma one_live_put:
  assumes "one_live s"
    and "\<And>j b. \<not> is_terminal op \<Longrightarrow> get s j = Some b \<Longrightarrow> \<not> is_terminal b \<Longrightarrow> idempotency_key b = idempotency_key op
           \<Longrightarrow> j = i"
  shows "one_live (put i op s)"
  using assms unfolding one_live_def by (metis get_put option.inject)

lemma one_liveD:
  "one_live s \<Longrightarrow> get s i = Some a \<Longrightarrow> get s j = Some b \<Longrightarrow> \<not> is_terminal a \<Longrightarrow> \<not> is_terminal b
     \<Longrightarrow> idempotency_key a = idempotency_key b \<Longrightarrow> i = j"
  unfolding one_live_def by blast

lemma one_live_less:
  assumes "one_live s" "\<And>i op. get t i = Some op \<Longrightarrow> get s i = Some op"
  shows "one_live t"
  using assms unfolding one_live_def by blast

section \<open>Runs of the store\<close>

datatype queue_event = QEnqueue operation time | QUpdate operation | QDelete string
  | QPurge time duration | QReset

fun queue_step :: "queue_lib \<Rightarrow> op_store \<Rightarrow> queue_event \<Rightarrow> op_store" where
  "queue_step lib s (QEnqueue op now) = fst (enqueue lib now op s)"
| "queue_step lib s (QUpdate op) = fst (update_state lib op s)"
| "queue_step lib s (QDelete i) = fst (delete_op i s)"
| "queue_step lib s (QPurge now older) = fst (fst (purge_committed now older s))"
| "queue_step lib s QReset = fst (fst (reset_stuck_in_flight lib s))"

definition sound_store :: "op_store \<Rightarrow> bool" where
  "sound_store s \<longleftrightarrow> good_store s \<and> one_live s"

lemma enqueue_cases:
  obtains (refused) e where "enqueue lib now op s = (s, Some e)"
    | (added) op' where "enqueue lib now op s = (put (op_id op) op' s, None)" "op_id op' = op_id op"
      "idempotency_key op' = idempotency_key op"
      "\<forall>e \<in> set (list_ops s). idempotency_key e = idempotency_key op \<longrightarrow> is_terminal e"
proof (cases "validate_op lib now op")
  case (Inl e)
  then show thesis by (intro refused) (simp add: enqueue_def)
next
  case (Inr op1)
  then have k: "idempotency_key op1 = idempotency_key op" "op_id op1 = op_id op"
    by (auto simp: validate_op_def)
  show thesis
  proof (cases "each_err (conflict_of op1) (list_ops s)")
    case (Some e)
    with Inr show thesis by (intro refused) (simp add: enqueue_def)
  next
    case None
    then have t: "\<forall>e \<in> set (list_ops s). idempotency_key e = idempotency_key op \<longrightarrow> is_terminal e"
      using k(1) by (auto simp: each_err_None conflict_of_def split: if_splits)
    let ?op2 = "if created_at op1 = zero_time then op1\<lparr>created_at := now\<rparr> else op1"
    have e: "enqueue lib now op s = write_op lib ?op2 s" using Inr None by (simp add: enqueue_def)
    show thesis
    proof (cases rule: write_op_cases [of lib ?op2 s])
      case (refused x)
      then show thesis using that(1) e by simp
    next
      case (written op')
      then show thesis using that(2) [of op'] e k t by (auto split: if_splits)
    qed
  qed
qed

lemma update_cases:
  obtains (refused) e where "update_state lib op s = (s, Some e)"
    | (updated) prev op' where "get s (op_id op) = Some prev" "\<not> is_terminal prev"
      "update_state lib op s = (put (op_id op) op' s, None)" "op_id op' = op_id op"
      "op_state op' = op_state op" "idempotency_key op' = idempotency_key prev"
      "payload_hash prev \<noteq> [] \<longrightarrow> identity op' = identity prev"
proof (cases "trim_space (op_id op) = [] \<or> (\<exists>e. get_op s (op_id op) = Inl e)
    \<or> (\<exists>prev. get_op s (op_id op) = Inr prev \<and> is_terminal prev)")
  case True
  then have "\<exists>e. update_state lib op s = (s, Some e)"
    by (elim disjE exE conjE) (simp_all add: update_state_def)
  then show thesis using that(1) by blast
next
  case False
  then obtain prev where p: "get s (op_id op) = Some prev" "\<not> is_terminal prev" "trim_space (op_id op) \<noteq> []"
    by (auto simp: get_op_def split: option.splits)
  then have u: "update_state lib op s = write_op lib (keep_identity prev op) s"
    by (simp add: update_state_def get_op_def)
  show thesis
  proof (cases rule: write_op_cases [of lib "keep_identity prev op" s])
    case (refused x)
    then show thesis using that(1) u by simp
  next
    case (written op')
    then show thesis
      using that(2) [OF p(1,2), of op'] u by (simp add: keep_identity_def identity_def)
  qed
qed

text \<open>One entry replaced by another with the same key, live as it was.\<close>

definition follows :: "operation \<Rightarrow> operation \<Rightarrow> bool" where
  "follows op op' \<longleftrightarrow> op' = op
     \<or> (\<not> is_terminal op \<and> op_id op' = op_id op \<and> idempotency_key op' = idempotency_key op
        \<and> (payload_hash op \<noteq> [] \<longrightarrow> identity op' = identity op))"

lemma follows_refl [simp]: "follows op op"
  by (simp add: follows_def)

lemma identity_hash: "identity a = identity b \<Longrightarrow> payload_hash a = payload_hash b"
  by (simp add: identity_def)

lemma follows_trans: "follows a b \<Longrightarrow> follows b c \<Longrightarrow> follows a c"
  unfolding follows_def by (metis identity_hash)

lemma sound_replace:
  assumes "sound_store s" "get s i = Some op" "\<not> is_terminal op" "op_id op' = i"
    "idempotency_key op' = idempotency_key op"
  shows "sound_store (put i op' s)"
proof -
  have "one_live (put i op' s)"
    using assms by (intro one_live_put) (auto simp: sound_store_def dest: one_liveD)
  then show ?thesis using assms good_put unfolding sound_store_def by blast
qed

lemma distinct_list_ops:
  assumes "good_store s"
  shows "distinct (map op_id (list_ops s))"
proof -
  have "mset (map op_id (list_ops s)) = mset (map (\<lambda>p. op_id (snd p)) s)"
    by (simp add: list_ops_def multiset.map_comp comp_def)
  also have "map (\<lambda>p. op_id (snd p)) s = map fst s"
    using assms good_storeD(2) get_iff_mem [OF good_storeD(1)] by fastforce
  finally show ?thesis
    using good_storeD(1) [OF assms] mset_eq_imp_distinct_iff unfolding wf_map_def by blast
qed

lemma reset_loop_keeps:
  assumes "sound_store s" "distinct (map op_id ops)" "\<And>op. op \<in> set ops \<Longrightarrow> get s (op_id op) = Some op"
  shows "sound_store (fst (fst (reset_loop lib ops n s)))
    \<and> (\<forall>i. rel_option follows (get s i) (get (fst (fst (reset_loop lib ops n s))) i))"
  using assms
proof (induction ops arbitrary: n s)
  case Nil
  then show ?case by (simp add: option.rel_refl)
next
  case (Cons op ops)
  have here: "get s (op_id op) = Some op" using Cons.prems(3) by simp
  show ?case
  proof (cases "op_state op = OpInFlight")
    case False
    then show ?thesis using Cons by simp
  next
    case True
    then have live: "\<not> is_terminal op" by (simp add: is_terminal_def)
    show ?thesis
    proof (cases rule: write_op_cases [of lib "reset_op op" s])
      case (refused e)
      then show ?thesis using Cons.prems(1) True by (simp add: option.rel_refl)
    next
      case (written op')
      let ?s = "put (op_id op) op' s"
      have f: "op_id op' = op_id op" "idempotency_key op' = idempotency_key op"
        "payload_hash op \<noteq> [] \<longrightarrow> identity op' = identity op"
        using written by (simp_all add: reset_op_def identity_def)
      have "follows op op'" using f live by (simp add: follows_def)
      then have rel: "rel_option follows (get s i) (get ?s i)" for i
        using here by (simp add: option.rel_refl)
      have "sound_store ?s" by (rule sound_replace [OF Cons.prems(1) here live f(1,2)])
      moreover have "get ?s (op_id x) = Some x" if "x \<in> set ops" for x
        using Cons.prems(2,3) that by (auto simp: image_iff)
      ultimately have ih: "sound_store (fst (fst (reset_loop lib ops (n + 1) ?s)))"
        "\<forall>i. rel_option follows (get ?s i) (get (fst (fst (reset_loop lib ops (n + 1) ?s))) i)"
        using Cons.IH [of ?s "n + 1"] Cons.prems(2) by auto
      have "reset_loop lib (op # ops) n s = reset_loop lib ops (n + 1) ?s"
        using True written by (simp add: reset_op_def)
      then show ?thesis
        using ih rel option.rel_transp [of follows] follows_trans
        by (simp add: transp_def) blast
    qed
  qed
qed

lemma reset_keeps:
  assumes "sound_store s"
  shows "sound_store (fst (fst (reset_stuck_in_flight lib s)))
    \<and> (\<forall>i. rel_option follows (get s i) (get (fst (fst (reset_stuck_in_flight lib s))) i))"
proof -
  have g: "good_store s" using assms by (simp add: sound_store_def)
  show ?thesis
    unfolding reset_stuck_in_flight_def
    by (rule reset_loop_keeps [OF assms distinct_list_ops [OF g]]) (simp add: listed [OF g])
qed

text \<open>What a step does to the entry under an identifier that it does not enqueue.\<close>

fun enqueues :: "string \<Rightarrow> queue_event \<Rightarrow> bool" where
  "enqueues i (QEnqueue op now) \<longleftrightarrow> op_id op = i"
| "enqueues i _ \<longleftrightarrow> False"

lemma sound_step: "sound_store s \<Longrightarrow> sound_store (queue_step lib s e)"
proof (cases e)
  case (QEnqueue op now)
  assume s: "sound_store s"
  show ?thesis
  proof (cases rule: enqueue_cases [of lib now op s])
    case (refused x)
    then show ?thesis using s QEnqueue by simp
  next
    case (added op')
    have "is_terminal b" if "get s j = Some b" "idempotency_key b = idempotency_key op'" for j b
    proof -
      have "b \<in> set (list_ops s)"
        using that(1) s listed good_storeD(2) unfolding sound_store_def by metis
      then show ?thesis using added(3,4) that(2) by simp
    qed
    then have "one_live (put (op_id op) op' s)"
      using s by (intro one_live_put) (auto simp: sound_store_def)
    then show ?thesis using s QEnqueue added good_put by (simp add: sound_store_def)
  qed
next
  case (QUpdate op)
  assume s: "sound_store s"
  show ?thesis
  proof (cases rule: update_cases [of lib op s])
    case (refused x)
    then show ?thesis using s QUpdate by simp
  next
    case (updated prev op')
    then show ?thesis using sound_replace [OF s updated(1,2,4,6)] QUpdate by simp
  qed
next
  case (QDelete i)
  assume s: "sound_store s"
  then have "one_live (del i s)" unfolding sound_store_def
    by (elim conjE one_live_less) (auto split: if_splits)
  then show ?thesis using s QDelete by (auto simp: sound_store_def delete_op_def good_store_def)
next
  case (QPurge now older)
  assume s: "sound_store s"
  let ?d = "drop_where (\<lambda>_ op. purgeable (now - older) op) s"
  have less: "get ?d i = Some op \<Longrightarrow> get s i = Some op" for i op
    using get_drop_where [of s] s by (auto simp: sound_store_def good_store_def split: option.splits if_splits)
  then have "one_live ?d" using s one_live_less unfolding sound_store_def by blast
  moreover have "good_store ?d" using s less by (auto simp: sound_store_def good_store_def)
  ultimately show ?thesis using s QPurge by (simp add: sound_store_def purge_committed_def)
next
  case QReset
  assume "sound_store s"
  then show ?thesis using reset_keeps QReset by simp
qed

interpretation queue: event_system "queue_step lib" sound_store for lib
  by unfold_locales (rule sound_step)

lemma queue_entry_step:
  assumes s: "sound_store s" and "\<not> enqueues i e" "get (queue_step lib s e) i = Some op'"
  shows "\<exists>op. get s i = Some op \<and> follows op op'"
proof (cases e)
  case (QEnqueue op now)
  then show ?thesis
    using assms by (cases rule: enqueue_cases [of lib now op s]) (auto split: if_splits)
next
  case (QUpdate op)
  then show ?thesis
    using assms by (cases rule: update_cases [of lib op s]) (auto simp: follows_def sound_store_def good_storeD split: if_splits)
next
  case (QDelete j)
  then show ?thesis using assms by (auto simp: delete_op_def split: if_splits)
next
  case (QPurge now older)
  then show ?thesis
    using assms get_drop_where [of s] s
    by (auto simp: purge_committed_def sound_store_def good_store_def split: option.splits if_splits)
next
  case QReset
  then have "rel_option follows (get s i) (Some op')"
    using reset_keeps [OF s, of lib] assms(3) by (metis queue_step.simps(5))
  then show ?thesis by (auto simp: option_rel_Some2)
qed

lemma entry_run:
  assumes "sound_store s" "\<forall>e \<in> set es. \<not> enqueues i e" "get s i = Some op"
    and "get (run (queue_step lib) s es) i = Some op'"
  shows "follows op op'"
  using assms
proof (induction es arbitrary: s op)
  case (Cons e es)
  have s': "sound_store (queue_step lib s e)" by (rule sound_step [OF Cons.prems(1)])
  have stays: "get (run (queue_step lib) t fs) i = None"
    if "sound_store t" "get t i = None" "\<forall>e \<in> set fs. \<not> enqueues i e" for t fs
    using that
  proof (induction fs arbitrary: t)
    case (Cons f fs)
    have "get (queue_step lib t f) i = None"
      using queue_entry_step [OF Cons.prems(1), of i f] Cons.prems(2,3) by (cases "get (queue_step lib t f) i") auto
    then show ?case using Cons.IH [OF sound_step [OF Cons.prems(1)]] Cons.prems(3) by simp
  qed simp
  show ?case
  proof (cases "get (queue_step lib s e) i")
    case None
    then show ?thesis using stays [OF s' None] Cons.prems by simp
  next
    case (Some op1)
    have "follows op op1" using queue_entry_step [OF Cons.prems(1) _ Some] Cons.prems(2,3) by auto
    moreover have "follows op1 op'" using Cons.IH [OF s' _ Some] Cons.prems(2,4) by simp
    ultimately show ?thesis by (rule follows_trans)
  qed
qed simp

lemma sound_empty: "sound_store []"
  by (simp add: sound_store_def good_store_def one_live_def)

section \<open>Demonstration values\<close>

definition demo_qlib :: queue_lib where
  "demo_qlib = \<lparr>json_valid = (\<lambda>s. s \<noteq> []), disk_form = (\<lambda>s. s), sha256_hex = (\<lambda>s. s)\<rparr>"

definition demo_op :: "string \<Rightarrow> string \<Rightarrow> operation" where
  "demo_op i key = \<lparr>op_id = i, created_at = 1, idempotency_key = key, endpoint = ''/api/v3/reservations'',
     op_method = ''POST'', token_ref = ''t'', payload = ''{}'', payload_hash = [], snapshot_version = 1,
     selection_expiry = 100, op_state = OpOther [], retry_count = 0, last_error = plain [],
     last_status_code = 0, committed_at = zero_time, server_result = []\<rparr>"

definition demo_queue_events :: "queue_event list" where
  "demo_queue_events = [QEnqueue (demo_op ''a'' ''k1'') 5, QEnqueue (demo_op ''b'' ''k1'') 6,
     QEnqueue (demo_op ''c'' ''k2'') 7, QUpdate ((demo_op ''a'' ''x'')\<lparr>op_state := OpCommitted\<rparr>), QReset]"

section \<open>Properties\<close>

text \<open>At most one operation per idempotency key is unresolved: in every run of the store,
  whatever is enqueued, updated, deleted, purged or reset, two entries with the same key that
  are not terminal are the same entry.\<close>

theorem queue_one_live_per_key:
  assumes "get (run (queue_step lib) [] es) i = Some a" and "get (run (queue_step lib) [] es) j = Some b"
    and "\<not> is_terminal a" and "\<not> is_terminal b" and "idempotency_key a = idempotency_key b"
  shows "i = j"
proof -
  have "sound_store (run (queue_step lib) [] es)" by (rule queue.inv_run [OF sound_empty])
  then show ?thesis using assms one_liveD unfolding sound_store_def by blast
qed

theorem queue_one_live_per_key_witness:
  "let s = run (queue_step demo_qlib) [] (take 3 demo_queue_events);
       ids = map fst (filter (\<lambda>(i, op). \<not> is_terminal op \<and> idempotency_key op = ''k1'') s)
   in ids = [''a''] \<and> hd ids = last ids"
proof -
  let ?s = "run (queue_step demo_qlib) [] (take 3 demo_queue_events)"
  let ?op = "(demo_op ''a'' ''k1'')\<lparr>op_state := OpPending, payload_hash := ''k1'' @ [CHR 0x0A] @ ''{}''\<rparr>"
  let ?ids = "map fst (filter (\<lambda>(i, op). \<not> is_terminal op \<and> idempotency_key op = ''k1'') ?s)"
  have ids: "?ids = [''a'']" by code_simp
  have "get ?s (hd ?ids) = Some ?op" "get ?s (last ?ids) = Some ?op" "\<not> is_terminal ?op" by code_simp+
  from queue_one_live_per_key [OF this(1,2,3,3)] ids show ?thesis by (simp add: Let_def)
qed

text \<open>An entry stays the submission that was confirmed: until its identifier is enqueued
  again, its key, endpoint, method, token reference, payload hash, snapshot, selection window
  and creation time never change, and a terminal entry does not change at all, whatever
  updates are attempted.\<close>

theorem queue_entry_identity:
  assumes "get (run (queue_step lib) [] es) i = Some op" and "\<forall>e \<in> set fs. \<not> enqueues i e"
    and "get (run (queue_step lib) [] (es @ fs)) i = Some op'" and "payload_hash op \<noteq> []"
  shows "identity op' = identity op \<and> (is_terminal op \<longrightarrow> op' = op)"
proof -
  have "sound_store (run (queue_step lib) [] es)" by (rule queue.inv_run [OF sound_empty])
  from entry_run [OF this assms(2,1)] have "follows op op'" using assms(3) by simp
  then show ?thesis using assms(4) by (auto simp: follows_def)
qed

theorem queue_entry_identity_witness:
  "\<exists>op op'. get (run (queue_step demo_qlib) [] (take 4 demo_queue_events)) ''a'' = Some op
     \<and> get (run (queue_step demo_qlib) [] (take 4 demo_queue_events @ drop 4 demo_queue_events)) ''a'' = Some op'
     \<and> idempotency_key op' = ''k1'' \<and> op' = op"
proof -
  let ?op = "(demo_op ''a'' ''k1'')\<lparr>op_state := OpCommitted, payload_hash := ''k1'' @ [CHR 0x0A] @ ''{}''\<rparr>"
  have a: "get (run (queue_step demo_qlib) [] (take 4 demo_queue_events)) ''a'' = Some ?op" by code_simp
  have n: "\<forall>e \<in> set (drop 4 demo_queue_events). \<not> enqueues ''a'' e" by code_simp
  have e: "get (run (queue_step demo_qlib) [] (take 4 demo_queue_events @ drop 4 demo_queue_events)) ''a'' = Some ?op"
    by code_simp
  from queue_entry_identity [OF a n e] have "?op = ?op \<and> identity ?op = identity ?op" by simp
  then show ?thesis using a e by (auto simp: demo_op_def)
qed

text \<open>An identifier that is enqueued again silently replaces an unresolved entry: only the
  idempotency keys are compared, so an operation whose outcome is uncertain is lost without
  an error, although the queue is to refuse such an overwrite.\<close>

theorem queue_enqueue_overwrites:
  "let s = run (queue_step demo_qlib) [] [QEnqueue ((demo_op ''a'' ''k1'')\<lparr>op_state := OpReconciliation\<rparr>) 5];
       (s', err) = enqueue demo_qlib 6 (demo_op ''a'' ''k2'') s
   in err = None \<and> map_option idempotency_key (get s ''a'') = Some ''k1''
      \<and> map_option idempotency_key (get s' ''a'') = Some ''k2'' \<and> length s' = 1"
  by code_simp

end
