(* ===== verification/Replay_Worker.thy ===== *)
theory Replay_Worker
  imports Offline_Queue Json_Walk
begin

text \<open>
  The worker that replays the queued operations, backend/internal/offlinequeue/worker.go, with
  the error codes of dispatcher.go. The dispatcher, the token provider, the context and the
  sleep are the record \<open>world\<close>; what the JSON decoder makes of a body is \<open>reply_lib\<close>. Within
  one Submit the clock shows one instant.
\<close>

section \<open>Texts without regard to case\<close>

text \<open>
  \<open>strings.ToUpper\<close> as far as a comparison with ASCII words can tell: the ASCII letters, and
  the two code points outside ASCII whose upper case is one (U+0131 and U+017F).
\<close>

definition upper_char :: "char \<Rightarrow> char" where
  "upper_char c = (let n = of_char c :: int in if 97 \<le> n \<and> n \<le> 122 then char_of (n - 32) else c)"

fun upper_search :: "string \<Rightarrow> string" where
  "upper_search (c # d # cs) =
     (if c = CHR 0xC4 \<and> d = CHR 0xB1 then CHR ''I'' # upper_search cs
      else if c = CHR 0xC5 \<and> d = CHR 0xBF then CHR ''S'' # upper_search cs
      else upper_char c # upper_search (d # cs))"
| "upper_search s = map upper_char s"

text \<open>
  \<open>strings.EqualFold\<close> where one side reads as an ASCII word: case of the ASCII letters, and
  the two code points that fold to one (U+017F and U+212A).
\<close>

fun fold_search :: "string \<Rightarrow> string" where
  "fold_search (c # d # e # cs) =
     (if c = CHR 0xC5 \<and> d = CHR 0xBF then CHR ''s'' # fold_search (e # cs)
      else if c = CHR 0xE2 \<and> d = CHR 0x84 \<and> e = CHR 0xAA then CHR ''k'' # fold_search cs
      else lower_char c # fold_search (d # e # cs))"
| "fold_search [c, d] = (if c = CHR 0xC5 \<and> d = CHR 0xBF then ''s'' else [lower_char c, lower_char d])"
| "fold_search s = map lower_char s"

section \<open>Replies\<close>

definition extract_server_error_code :: "string list option \<Rightarrow> string" where
  "extract_server_error_code codes =
     (case codes of
        None \<Rightarrow> []
      | Some cs \<Rightarrow> (case find (\<lambda>c. c \<noteq> []) cs of None \<Rightarrow> [] | Some c \<Rightarrow> c))"

definition is_stale_code :: "string \<Rightarrow> bool" where
  "is_stale_code code \<longleftrightarrow> code \<in> {''STALE_VERSION'', ''EXPIRED''}"

definition is_auth_failure :: "int \<Rightarrow> bool" where
  "is_auth_failure status \<longleftrightarrow> status = 401 \<or> status = 403"

definition is_transient_client_code :: "int \<Rightarrow> string \<Rightarrow> bool" where
  "is_transient_client_code status code \<longleftrightarrow> status = 429 \<or> code = ''RATE_LIMITED''"

definition permanent_codes :: "string list" where
  "permanent_codes =
     [''IDEMPOTENCY_CONFLICT'', ''CAPACITY_CONFLICT'', ''NOT_FOUND'', ''ROUTE_UNVERIFIED'',
      ''ROUTE_UNAVAILABLE'', ''AMBIGUOUS_PLACE'', ''DATA_UNAVAILABLE'', ''MODEL_UNAVAILABLE'',
      ''LANGUAGE_UNSUPPORTED'', ''MALFORMED_JSON'', ''VALIDATION_FAILED'', ''DUPLICATE_KEY'',
      ''TRAILING_DATA'', ''BODY_TOO_LARGE'', ''DEPTH_EXCEEDED'', ''UNKNOWN_FIELD'', ''INVALID_VALUE'',
      ''METHOD_NOT_ALLOWED'', ''UNSUPPORTED_MEDIA_TYPE'']"

definition is_permanent_code :: "string \<Rightarrow> bool" where
  "is_permanent_code code \<longleftrightarrow> code \<in> set permanent_codes"

definition server_error_message :: "int \<Rightarrow> string \<Rightarrow> msg" where
  "server_error_message status code =
     (if code \<noteq> [] then Fmt ''server returned %d %s'' [AInt status, AStr code]
      else Fmt ''server returned %d'' [AInt status])"

datatype call_error = CallTimeout | CallCanceled | CallOther

fun transport_error_message :: "call_error \<Rightarrow> msg" where
  "transport_error_message CallTimeout = plain ''transport timeout''"
| "transport_error_message CallCanceled = plain ''transport canceled''"
| "transport_error_message CallOther = plain ''transport error''"

section \<open>The shipped token store and the endpoint guard\<close>

type_synonym token_store = "(string, string) gomap"

definition put_token :: "string \<Rightarrow> string \<Rightarrow> token_store \<Rightarrow> token_store" where
  "put_token ref token m = put ref token m"

definition forget_token :: "string \<Rightarrow> token_store \<Rightarrow> token_store" where
  "forget_token ref m = del ref m"

definition bearer_token_for :: "token_store \<Rightarrow> string \<Rightarrow> msg + string" where
  "bearer_token_for m ref =
     (case get m ref of
        None \<Rightarrow> Inl (plain ''offlinequeue: no token for the given TokenRef'')
      | Some token \<Rightarrow> Inr token)"

interpretation tokens: keyed_table get put_token forget_token wf_map
  by unfold_locales (simp_all add: put_token_def forget_token_def)

definition validate_endpoint :: "string \<Rightarrow> msg option" where
  "validate_endpoint p = first_err
     [check (p = []) (plain ''offlinequeue: endpoint is empty''),
      check (\<not> has_prefix p ''/'') (Fmt ''offlinequeue: endpoint %q must start with /'' [AStr p]),
      check (str_contains p ''..'') (Fmt (''offlinequeue: endpoint %q must not contain '' @ [CHR 0x27] @ ''..'' @ [CHR 0x27]) [AStr p]),
      check (str_contains p ''://'') (Fmt ''offlinequeue: endpoint %q must not contain a scheme'' [AStr p]),
      check (\<not> has_prefix p ''/api/'') (Fmt ''offlinequeue: endpoint %q must be under /api/'' [AStr p])]"

section \<open>The success envelope\<close>

record reply_lib =
  body_tokens :: "string \<Rightarrow> jtok list"
  has_trailing :: "string \<Rightarrow> bool"
  decode_envelope :: "string \<Rightarrow> msg + (string list \<times> json option)"
  not_object_error :: "json \<Rightarrow> msg"
  decode_submitted :: "string \<Rightarrow> (string \<times> string) option"
  decode_error_codes :: "string \<Rightarrow> string list option"

definition walk_message :: "walk_err \<Rightarrow> msg" where
  "walk_message e = (case e of
       TooDeep d mx \<Rightarrow> Fmt ''depth %d exceeds maximum depth %d'' [AInt (int d), AInt (int mx)]
     | Truncated \<Rightarrow> plain ''truncated JSON''
     | TokenErr m \<Rightarrow> m
     | KeyErr m \<Rightarrow> m
     | NonStringKey \<Rightarrow> plain ''non-string object key''
     | DuplicateKey k \<Rightarrow> Fmt ''duplicate key %q'' [AStr k]
     | CloseErr m \<Rightarrow> m
     | CloseEof \<Rightarrow> plain ''EOF''
     | OutOfFuel \<Rightarrow> plain [])"

definition check_no_duplicate_keys :: "reply_lib \<Rightarrow> string \<Rightarrow> msg option" where
  "check_no_duplicate_keys rl data =
     (let t = trim_space data
      in if t = [] then Some (plain ''empty JSON data'')
         else case walk_tokens 32 (body_tokens rl t) of
                Inl e \<Rightarrow> Some (walk_message e)
              | Inr _ \<Rightarrow> check (has_trailing rl t) (plain ''trailing data after top-level JSON value''))"

definition str_field :: "(string \<times> json) list \<Rightarrow> string \<Rightarrow> string" where
  "str_field data k = (case map_of data k of Some (JStr s) \<Rightarrow> s | _ \<Rightarrow> [])"

text \<open>A rejected envelope: the error code, if any, and the reason.\<close>

type_synonym rejection = "string \<times> msg"

definition reject :: "string \<Rightarrow> arg list \<Rightarrow> rejection option" where
  "reject f xs = Some ([], Fmt f xs)"

definition reservation_checks :: "(string \<times> json) list \<Rightarrow> rejection option" where
  "reservation_checks data =
     (if str_field data ''reservation_id'' = [] \<or> str_field data ''stay_id'' = []
      then reject ''missing reservation_id or stay_id'' [] else None)"

definition submitted_checks :: "(string \<times> string) option \<Rightarrow> string \<Rightarrow> string \<Rightarrow> rejection option" where
  "submitted_checks sub typ sid =
     (case sub of
        None \<Rightarrow> None
      | Some (stype, sstay) \<Rightarrow>
          if stype \<noteq> [] \<and> fold_search stype \<noteq> fold_search typ
          then reject ''response event type %q does not match submitted payload type %q'' [AStr typ, AStr stype]
          else if sstay \<noteq> [] \<and> sstay \<noteq> sid
          then reject ''response stay_id %q does not match submitted payload stay_id %q'' [AStr sid, AStr sstay]
          else None)"

definition event_checks :: "reply_lib \<Rightarrow> string \<Rightarrow> string \<Rightarrow> (string \<times> json) list \<Rightarrow> rejection option" where
  "event_checks rl path body data =
     (case split_byte (CHR ''/'') (trim_byte (CHR ''/'') path) of
        [p0, p1, p2, p3, p4] \<Rightarrow>
          (if p0 \<noteq> ''api'' \<or> p1 \<noteq> ''v3'' \<or> p2 \<noteq> ''reservations'' \<or> p4 \<noteq> ''events'' \<or> p3 = []
           then reject ''malformed reservations event path %q'' [AStr path]
           else let sid = str_field data ''stay_id''; typ = str_field data ''type''
                in if sid = [] then reject ''missing stay_id'' []
                   else if sid \<noteq> p3
                   then reject ''response stay_id %q does not match path stay_id %q'' [AStr sid, AStr p3]
                   else if upper_search typ \<notin> {''ARRIVE'', ''CANCEL'', ''DEPART'', ''EXTEND'', ''TRANSFER''}
                   then reject ''unknown stay event type %q'' [AStr typ]
                   else case (if body \<noteq> [] then submitted_checks (decode_submitted rl body) typ sid else None) of
                          Some r \<Rightarrow> Some r
                        | None \<Rightarrow>
                            if upper_search typ = ''TRANSFER''
                               \<and> (str_field data ''new_stay_id'' = [] \<or> str_field data ''new_reservation_id'' = [])
                            then reject ''transfer event response missing new_stay_id or new_reservation_id'' []
                            else None)
      | _ \<Rightarrow> reject ''malformed reservations event path %q'' [AStr path])"

definition endpoint_checks :: "reply_lib \<Rightarrow> string \<Rightarrow> string \<Rightarrow> (string \<times> json) list \<Rightarrow> rejection option" where
  "endpoint_checks rl path body data =
     (if path = ''/api/v3/reservations'' then reservation_checks data
      else if has_prefix path ''/api/v3/reservations/'' \<and> has_suffix path ''/events''
      then event_checks rl path body data
      else reject ''unsupported endpoint %q'' [AStr path])"

text \<open>None when the body is a valid success envelope.\<close>

definition validate_success_envelope ::
  "reply_lib \<Rightarrow> string \<Rightarrow> string \<Rightarrow> int \<Rightarrow> string \<Rightarrow> string \<Rightarrow> rejection option"
where
  "validate_success_envelope rl meth path status body sent_body =
     (if status \<noteq> 200 \<and> status \<noteq> 201
      then reject ''status %d is not a terminal success (expected 200 or 201)'' [AInt status]
      else if body = [] then reject ''empty body'' []
      else case check_no_duplicate_keys rl body of
             Some e \<Rightarrow> reject ''invalid JSON structure: %v'' [AMsg e]
           | None \<Rightarrow>
             (case decode_envelope rl body of
                Inl e \<Rightarrow> reject ''malformed JSON: %v'' [AMsg e]
              | Inr (codes, data) \<Rightarrow>
                  if codes \<noteq> [] \<and> hd codes \<noteq> []
                  then Some (hd codes, plain ''2xx response contains errors[].code'')
                  else (case data of
                          None \<Rightarrow> reject ''missing or null data field'' []
                        | Some JNull \<Rightarrow> reject ''missing or null data field'' []
                        | Some (JObj kvs) \<Rightarrow>
                            if upper_search meth \<noteq> ''POST'' then reject ''unsupported method %q'' [AStr meth]
                            else endpoint_checks rl path sent_body kvs
                        | Some v \<Rightarrow> reject ''data not a JSON object: %v'' [AMsg (not_object_error rl v)])))"

section \<open>Configuration\<close>

record replay_config =
  max_attempts :: int
  base_delay :: duration
  max_delay :: duration
  per_call_timeout :: duration

definition with_defaults :: "replay_config \<Rightarrow> replay_config" where
  "with_defaults c =
     \<lparr>max_attempts = (if max_attempts c \<le> 0 then 5 else max_attempts c),
      base_delay = (if base_delay c \<le> 0 then 250 * millisecond else base_delay c),
      max_delay = (if max_delay c \<le> 0 then 8 * second else max_delay c),
      per_call_timeout = (if per_call_timeout c \<le> 0 then 10 * second else per_call_timeout c)\<rparr>"

text \<open>Doubling a duration in 64 bits.\<close>

fun backoff_loop :: "nat \<Rightarrow> duration \<Rightarrow> duration \<Rightarrow> duration" where
  "backoff_loop 0 d mx = (if mx < d then mx else d)"
| "backoff_loop (Suc n) d mx = (let d' = wrap64 (d * 2) in if mx \<le> d' then mx else backoff_loop n d' mx)"

definition backoff :: "replay_config \<Rightarrow> nat \<Rightarrow> duration" where
  "backoff c attempt = backoff_loop attempt (base_delay c) (max_delay c)"


section \<open>Submit\<close>

datatype submit_outcome = OutcomeCommitted | OutcomeStale | OutcomePerm | OutcomeSkipped | OutcomePendingReconciliation

fun outcome_text :: "submit_outcome \<Rightarrow> string" where
  "outcome_text OutcomeCommitted = ''COMMITTED''"
| "outcome_text OutcomeStale = ''FAILED_STALE''"
| "outcome_text OutcomePerm = ''FAILED_PERM''"
| "outcome_text OutcomePendingReconciliation = ''PENDING_RECONCILIATION''"
| "outcome_text OutcomeSkipped = ''SKIPPED''"

datatype worker_error = WContext msg | WToken string msg | WQueue q_error

text \<open>
  What surrounds one Submit: the instant, the token provider, and by attempt the state of the
  context, the dispatcher's answer to timeout, method, path, token and body, and the sleep.
\<close>

record world =
  now_at :: time
  token_for :: "string \<Rightarrow> msg + string"
  ctx_err :: "nat \<Rightarrow> msg option"
  post_json :: "nat \<Rightarrow> duration \<Rightarrow> string \<Rightarrow> string \<Rightarrow> string \<Rightarrow> string \<Rightarrow> call_error + (int \<times> string)"
  sleep_err :: "nat \<Rightarrow> duration \<Rightarrow> msg option"

type_synonym submit_result = "op_store \<times> submit_outcome \<times> worker_error option"

text \<open>Saving the entry: an error of the store ends the Submit.\<close>

definition save :: "queue_lib \<Rightarrow> operation \<Rightarrow> submit_outcome \<Rightarrow> op_store \<Rightarrow> submit_result" where
  "save lib cur out s =
     (case update_state lib cur s of
        (s', Some e) \<Rightarrow> (s', OutcomePerm, Some (WQueue e))
      | (s', None) \<Rightarrow> (s', out, None))"

definition preserve_uncertainty :: "queue_lib \<Rightarrow> int \<Rightarrow> msg \<Rightarrow> operation \<Rightarrow> op_store \<Rightarrow> submit_result" where
  "preserve_uncertainty lib status m cur s =
     (case set_pending_reconciliation status m (bump_retry status m cur) of
        (_, Some e) \<Rightarrow> (s, OutcomePerm, Some (WQueue e))
      | (cur', None) \<Rightarrow> save lib cur' OutcomePendingReconciliation s)"

datatype attempt_result = Finished submit_result | Again operation op_store

definition retry_later ::
  "queue_lib \<Rightarrow> world \<Rightarrow> replay_config \<Rightarrow> nat \<Rightarrow> int \<Rightarrow> string \<Rightarrow> msg \<Rightarrow> operation \<Rightarrow> op_store \<Rightarrow> attempt_result"
where
  "retry_later lib w cfg attempt status code exhausted cur s =
     (let cur1 = bump_retry status (server_error_message status code) cur
      in case update_state lib cur1 s of
           (s1, Some e) \<Rightarrow> Finished (s1, OutcomePerm, Some (WQueue e))
         | (s1, None) \<Rightarrow>
             if int attempt + 1 = max_attempts cfg
             then Finished (save lib (fst (set_pending_reconciliation status exhausted cur1))
                              OutcomePendingReconciliation s1)
             else case sleep_err w attempt (backoff cfg attempt) of
                    Some e \<Rightarrow> Finished (s1, OutcomePerm, Some (WContext e))
                  | None \<Rightarrow> Again cur1 s1)"

definition rejected_message :: "rejection \<Rightarrow> msg" where
  "rejected_message r =
     (if fst r \<noteq> [] then Fmt ''2xx envelope rejected: %s (code=%s)'' [AMsg (snd r), AStr (fst r)]
      else Fmt ''2xx envelope rejected: %s'' [AMsg (snd r)])"

definition on_success ::
  "reply_lib \<Rightarrow> queue_lib \<Rightarrow> world \<Rightarrow> int \<Rightarrow> string \<Rightarrow> operation \<Rightarrow> op_store \<Rightarrow> submit_result"
where
  "on_success rl lib w status body cur s =
     (case validate_success_envelope rl (op_method cur) (endpoint cur) status body (payload cur) of
        Some r \<Rightarrow> preserve_uncertainty lib status (rejected_message r) cur s
      | None \<Rightarrow> save lib (fst (set_committed (now_at w) status body cur)) OutcomeCommitted s)"

definition on_failure ::
  "reply_lib \<Rightarrow> queue_lib \<Rightarrow> world \<Rightarrow> replay_config \<Rightarrow> nat \<Rightarrow> int \<Rightarrow> string \<Rightarrow> operation \<Rightarrow> op_store \<Rightarrow> attempt_result"
where
  "on_failure rl lib w cfg attempt status body cur s =
     (let code = extract_server_error_code (decode_error_codes rl body); m = server_error_message status code
      in if is_auth_failure status
         then Finished (preserve_uncertainty lib status (Fmt ''auth failure: %s'' [AMsg m]) cur s)
         else if is_stale_code code
         then Finished (save lib (fst (set_failed_stale (now_at w) status m cur)) OutcomeStale s)
         else if is_permanent_code code
         then Finished (save lib (fst (set_failed_perm (now_at w) status m cur)) OutcomePerm s)
         else if is_transient_client_code status code
         then retry_later lib w cfg attempt status code
                (plain ''retry budget exhausted on transient client code'') cur s
         else retry_later lib w cfg attempt status code (plain ''retry budget exhausted on 5xx'') cur s)"

definition on_reply ::
  "reply_lib \<Rightarrow> queue_lib \<Rightarrow> world \<Rightarrow> replay_config \<Rightarrow> nat \<Rightarrow> call_error + (int \<times> string) \<Rightarrow> operation \<Rightarrow> op_store
     \<Rightarrow> attempt_result"
where
  "on_reply rl lib w cfg attempt reply cur s =
     (case reply of
        Inl e \<Rightarrow> Finished (preserve_uncertainty lib 0 (transport_error_message e) cur s)
      | Inr (status, body) \<Rightarrow>
          if 200 \<le> status \<and> status < 300 then Finished (on_success rl lib w status body cur s)
          else on_failure rl lib w cfg attempt status body cur s)"

text \<open>The marker of the first attempt.\<close>

definition mark_in_flight :: "queue_lib \<Rightarrow> operation \<Rightarrow> op_store \<Rightarrow> submit_result + (operation \<times> op_store)" where
  "mark_in_flight lib cur s =
     (if op_state cur = OpInFlight then Inr (cur, s)
      else case set_in_flight cur of
             (_, Some e) \<Rightarrow> Inl (s, OutcomeSkipped, Some (WQueue e))
           | (cur', None) \<Rightarrow>
               (case update_state lib cur' s of
                  (s', Some e) \<Rightarrow> Inl (s', OutcomePerm, Some (WQueue e))
                | (s', None) \<Rightarrow> Inr (cur', s')))"

definition dispatch :: "world \<Rightarrow> replay_config \<Rightarrow> nat \<Rightarrow> string \<Rightarrow> operation \<Rightarrow> call_error + (int \<times> string)" where
  "dispatch w cfg attempt token cur =
     post_json w attempt (per_call_timeout cfg) (op_method cur) (endpoint cur) token (payload cur)"

text \<open>The loop, by the attempts that are left.\<close>

fun submit_loop ::
  "reply_lib \<Rightarrow> queue_lib \<Rightarrow> world \<Rightarrow> replay_config \<Rightarrow> string \<Rightarrow> nat \<Rightarrow> nat \<Rightarrow> operation \<Rightarrow> op_store \<Rightarrow> submit_result"
where
  "submit_loop rl lib w cfg token 0 attempt cur s = (s, OutcomePerm, None)"
| "submit_loop rl lib w cfg token (Suc left) attempt cur s =
     (case ctx_err w attempt of
        Some e \<Rightarrow> (s, OutcomePerm, Some (WContext e))
      | None \<Rightarrow>
         (case (if attempt = 0 then mark_in_flight lib cur s else Inr (cur, s)) of
            Inl r \<Rightarrow> r
          | Inr (cur1, s1) \<Rightarrow>
             (case on_reply rl lib w cfg attempt (dispatch w cfg attempt token cur1) cur1 s1 of
                Finished r \<Rightarrow> r
              | Again cur2 s2 \<Rightarrow> submit_loop rl lib w cfg token left (Suc attempt) cur2 s2)))"

definition submit :: "reply_lib \<Rightarrow> queue_lib \<Rightarrow> world \<Rightarrow> replay_config \<Rightarrow> string \<Rightarrow> op_store \<Rightarrow> submit_result" where
  "submit rl lib w cfg i s =
     (case get_op s i of
        Inl e \<Rightarrow> (s, OutcomeSkipped, if e = ErrNoSuchOperation then None else Some (WQueue e))
      | Inr cur \<Rightarrow>
          if is_terminal cur then (s, OutcomeSkipped, None)
          else if op_state cur \<noteq> OpReconciliation \<and> \<not> selection_still_valid (now_at w) cur
          then save lib (fst (set_failed_stale (now_at w) 0 (plain ''offlinequeue: selection window expired; submit a new operation with a fresh confirmation'') cur))
                 OutcomeStale s
          else case token_for w (token_ref cur) of
                 Inl e \<Rightarrow> (s, OutcomeSkipped, Some (WToken (token_ref cur) e))
               | Inr token \<Rightarrow> submit_loop rl lib w cfg token (nat (max_attempts cfg)) 0 cur s)"

section \<open>DrainQueue\<close>

record drain_report =
  processed :: int
  committed :: int
  stale :: int
  failed :: int
  skipped :: int
  reconciliation :: int

fun count_outcome :: "submit_outcome \<Rightarrow> drain_report \<Rightarrow> drain_report" where
  "count_outcome OutcomeCommitted r = r\<lparr>processed := processed r + 1, committed := committed r + 1\<rparr>"
| "count_outcome OutcomeStale r = r\<lparr>processed := processed r + 1, stale := stale r + 1\<rparr>"
| "count_outcome OutcomePerm r = r\<lparr>processed := processed r + 1, failed := failed r + 1\<rparr>"
| "count_outcome OutcomeSkipped r = r\<lparr>processed := processed r + 1, skipped := skipped r + 1\<rparr>"
| "count_outcome OutcomePendingReconciliation r =
     r\<lparr>processed := processed r + 1, reconciliation := reconciliation r + 1\<rparr>"

text \<open>The context before each operation and the world of its Submit, by its place in the list.\<close>

fun drain_loop ::
  "reply_lib \<Rightarrow> queue_lib \<Rightarrow> replay_config \<Rightarrow> (nat \<Rightarrow> msg option) \<Rightarrow> (nat \<Rightarrow> world) \<Rightarrow> nat \<Rightarrow> operation list
     \<Rightarrow> drain_report \<Rightarrow> op_store \<Rightarrow> op_store \<times> drain_report \<times> worker_error option"
where
  "drain_loop rl lib cfg cx ws n [] rep s = (s, rep, None)"
| "drain_loop rl lib cfg cx ws n (op # ops) rep s =
     (case cx n of
        Some e \<Rightarrow> (s, rep, Some (WContext e))
      | None \<Rightarrow>
         (case submit rl lib (ws n) cfg (op_id op) s of
            (s', _, Some e) \<Rightarrow> (s', rep, Some e)
          | (s', out, None) \<Rightarrow> drain_loop rl lib cfg cx ws (Suc n) ops (count_outcome out rep) s'))"

definition empty_report :: drain_report where
  "empty_report = \<lparr>processed = 0, committed = 0, stale = 0, failed = 0, skipped = 0, reconciliation = 0\<rparr>"

definition drain_queue ::
  "reply_lib \<Rightarrow> queue_lib \<Rightarrow> replay_config \<Rightarrow> (nat \<Rightarrow> msg option) \<Rightarrow> (nat \<Rightarrow> world) \<Rightarrow> op_store
     \<Rightarrow> op_store \<times> drain_report \<times> worker_error option"
where
  "drain_queue rl lib cfg cx ws s = drain_loop rl lib cfg cx ws 0 (peek_pending s) empty_report s"


section \<open>What a reply settles\<close>

text \<open>
  The reading of a reply that the queue is meant to follow: only the server decides, a lost or
  unusable answer leaves the outcome open, and the rest is asked again.
\<close>

datatype verdict = Decided op_state | Uncertain | Retry

definition classify :: "reply_lib \<Rightarrow> operation \<Rightarrow> call_error + (int \<times> string) \<Rightarrow> verdict" where
  "classify rl op reply =
     (case reply of
        Inl _ \<Rightarrow> Uncertain
      | Inr (status, body) \<Rightarrow>
          let code = extract_server_error_code (decode_error_codes rl body)
          in if 200 \<le> status \<and> status < 300
             then if validate_success_envelope rl (op_method op) (endpoint op) status body (payload op) = None
                  then Decided OpCommitted else Uncertain
             else if is_auth_failure status then Uncertain
             else if is_stale_code code then Decided OpFailedStale
             else if is_permanent_code code then Decided OpFailedPerm
             else Retry)"

fun outcome_of :: "op_state \<Rightarrow> submit_outcome" where
  "outcome_of OpCommitted = OutcomeCommitted"
| "outcome_of OpFailedStale = OutcomeStale"
| "outcome_of OpFailedPerm = OutcomePerm"
| "outcome_of OpReconciliation = OutcomePendingReconciliation"
| "outcome_of _ = OutcomeSkipped"

definition same_request :: "operation \<Rightarrow> operation \<Rightarrow> bool" where
  "same_request a b \<longleftrightarrow> op_id a = op_id b \<and> op_method a = op_method b \<and> endpoint a = endpoint b \<and> payload a = payload b"

lemma same_request_refl [simp]: "same_request a a"
  by (simp add: same_request_def)

lemma same_request_bump [simp]: "same_request (bump_retry n m a) b \<longleftrightarrow> same_request a b"
  by (simp add: same_request_def bump_retry_def)

lemma same_request_dispatch: "same_request a b \<Longrightarrow> dispatch w cfg k token a = dispatch w cfg k token b"
  by (simp add: same_request_def dispatch_def)

lemma same_request_classify:
  assumes "same_request a b"
  shows "classify rl a r = classify rl b r"
proof -
  have e: "op_method a = op_method b" "endpoint a = endpoint b" "payload a = payload b"
    using assms by (simp_all add: same_request_def)
  show ?thesis by (simp only: classify_def e)
qed

lemma bump_retry_sel [simp]: "op_id (bump_retry n m a) = op_id a" "op_state (bump_retry n m a) = op_state a"
  by (simp_all add: bump_retry_def)

lemma live_in_flight [simp]: "live_state OpInFlight"
  by (simp add: live_state_def)

lemma is_stale_not_permanent: "is_stale_code code \<Longrightarrow> \<not> is_permanent_code code"
  by (auto simp: is_stale_code_def is_permanent_code_def permanent_codes_def)

lemma preserve_in_flight:
  assumes "op_state cur = OpInFlight"
  shows "\<exists>cur'. preserve_uncertainty lib status m cur s = save lib cur' OutcomePendingReconciliation s
    \<and> op_id cur' = op_id cur \<and> op_state cur' = OpReconciliation \<and> server_result cur' = server_result cur"
  using assms by (simp add: preserve_uncertainty_def set_pending_reconciliation_def bump_retry_def) auto

lemma set_sel:
  assumes "op_state cur = OpInFlight"
  shows "op_id (fst (set_committed now c b cur)) = op_id cur" "op_state (fst (set_committed now c b cur)) = OpCommitted"
    "op_id (fst (set_failed_stale now c m cur)) = op_id cur" "op_state (fst (set_failed_stale now c m cur)) = OpFailedStale"
    "op_id (fst (set_failed_perm now c m cur)) = op_id cur" "op_state (fst (set_failed_perm now c m cur)) = OpFailedPerm"
    "op_id (fst (set_pending_reconciliation c m cur)) = op_id cur"
    "op_state (fst (set_pending_reconciliation c m cur)) = OpReconciliation"
    "server_result (fst (set_failed_stale now c m cur)) = server_result cur"
    "server_result (fst (set_failed_perm now c m cur)) = server_result cur"
    "server_result (fst (set_committed now c b cur)) = (if b = [] then server_result cur else b)"
    "server_result (fst (set_pending_reconciliation c m cur)) = server_result cur"
  using assms
  by (simp_all add: set_committed_def set_failed_stale_def set_failed_perm_def set_pending_reconciliation_def)

lemma on_reply_decided:
  assumes "op_state cur = OpInFlight" "classify rl cur reply = Decided st"
  shows "\<exists>cur'. on_reply rl lib w cfg k reply cur s = Finished (save lib cur' (outcome_of st) s)
    \<and> op_id cur' = op_id cur \<and> op_state cur' = st
    \<and> (server_result cur' = server_result cur \<or> (\<exists>status.
         reply = Inr (status, server_result cur')
         \<and> validate_success_envelope rl (op_method cur) (endpoint cur) status (server_result cur') (payload cur) = None))"
proof -
  obtain status body where r: "reply = Inr (status, body)"
    using assms(2) by (cases reply) (auto simp: classify_def)
  note d = on_reply_def on_success_def on_failure_def classify_def Let_def r
  show ?thesis
  proof (cases st)
    case OpCommitted
    then show ?thesis
      using assms set_sel(1,2,11) [OF assms(1)] by (auto simp: d split: if_splits option.splits)
  next
    case OpFailedStale
    then show ?thesis
      using assms set_sel(3,4,9) [OF assms(1)] by (auto simp: d split: if_splits option.splits)
  next
    case OpFailedPerm
    then show ?thesis
      using assms set_sel(5,6,10) [OF assms(1)] by (auto simp: d split: if_splits option.splits)
  qed (use assms(2) in \<open>auto simp: d split: if_splits option.splits\<close>)
qed

lemma on_reply_uncertain:
  assumes "op_state cur = OpInFlight" "classify rl cur reply = Uncertain"
  shows "\<exists>cur'. on_reply rl lib w cfg k reply cur s = Finished (save lib cur' OutcomePendingReconciliation s)
    \<and> op_id cur' = op_id cur \<and> op_state cur' = OpReconciliation \<and> server_result cur' = server_result cur"
proof -
  have "\<exists>status m. on_reply rl lib w cfg k reply cur s = Finished (preserve_uncertainty lib status m cur s)"
  proof (cases reply)
    case (Inl e)
    then show ?thesis by (auto simp: on_reply_def)
  next
    case (Inr r)
    then obtain status body where r: "reply = Inr (status, body)" by (cases r) simp
    show ?thesis
    proof (cases "200 \<le> status \<and> status < 300")
      case True
      then show ?thesis
        using assms(2) by (auto simp: r on_reply_def on_success_def classify_def Let_def split: option.splits)
    next
      case False
      then have "is_auth_failure status"
        using assms(2) by (auto simp: r classify_def Let_def split: if_splits)
      then show ?thesis using False by (auto simp: r on_reply_def on_failure_def Let_def)
    qed
  qed
  then show ?thesis using preserve_in_flight [OF assms(1)] by metis
qed

lemma on_reply_retry:
  assumes "classify rl cur reply = Retry"
  shows "\<exists>status code m. on_reply rl lib w cfg k reply cur s = retry_later lib w cfg k status code m cur s"
proof -
  obtain status body where r: "reply = Inr (status, body)"
    using assms by (cases reply) (auto simp: classify_def)
  let ?code = "extract_server_error_code (decode_error_codes rl body)"
  have "\<not> (200 \<le> status \<and> status < 300)" "\<not> is_auth_failure status" "\<not> is_stale_code ?code"
    "\<not> is_permanent_code ?code"
    using assms by (auto simp: r classify_def Let_def split: if_splits)
  then have "on_reply rl lib w cfg k reply cur s = retry_later lib w cfg k status ?code
      (if is_transient_client_code status ?code
       then plain ''retry budget exhausted on transient client code''
       else plain ''retry budget exhausted on 5xx'') cur s"
    by (auto simp: r on_reply_def on_failure_def Let_def)
  then show ?thesis by blast
qed


section \<open>What a Submit does to the store\<close>

definition touches :: "queue_lib \<Rightarrow> string \<Rightarrow> op_store \<Rightarrow> op_store \<Rightarrow> bool" where
  "touches lib i s s' \<longleftrightarrow>
     (\<exists>es. s' = run (queue_step lib) s es \<and> (\<forall>e \<in> set es. \<exists>op. e = QUpdate op \<and> op_id op = i))"

definition open_entry :: "op_store \<Rightarrow> string \<Rightarrow> bool" where
  "open_entry s i \<longleftrightarrow> (\<exists>op. get s i = Some op \<and> \<not> is_terminal op)"

lemma touches_refl [simp]: "touches lib i s s"
  unfolding touches_def by (rule exI [of _ "[]"]) simp

lemma touches_trans: "touches lib i s t \<Longrightarrow> touches lib i t u \<Longrightarrow> touches lib i s u"
  unfolding touches_def
proof (elim exE conjE)
  fix es fs
  assume "t = run (queue_step lib) s es" "u = run (queue_step lib) t fs"
    "\<forall>e \<in> set es. \<exists>op. e = QUpdate op \<and> op_id op = i" "\<forall>e \<in> set fs. \<exists>op. e = QUpdate op \<and> op_id op = i"
  then show "\<exists>es. u = run (queue_step lib) s es \<and> (\<forall>e \<in> set es. \<exists>op. e = QUpdate op \<and> op_id op = i)"
    by (intro exI [of _ "es @ fs"]) auto
qed

lemma touches_update: "op_id op = i \<Longrightarrow> touches lib i s (fst (update_state lib op s))"
  unfolding touches_def by (rule exI [of _ "[QUpdate op]"]) simp

lemma touches_other: "touches lib i s s' \<Longrightarrow> j \<noteq> i \<Longrightarrow> get s' j = get s j"
  unfolding touches_def
proof (elim exE conjE)
  fix es
  assume "j \<noteq> i" "\<forall>e \<in> set es. \<exists>op. e = QUpdate op \<and> op_id op = i" "s' = run (queue_step lib) s es"
  moreover have "get (fst (update_state lib op t)) j = get t j" if "op_id op \<noteq> j" for op t
    using that by (cases rule: update_cases [of lib op t]) simp_all
  ultimately show ?thesis
    by (induction es arbitrary: s) auto
qed

lemma touches_follows:
  assumes "touches lib i s s'" "sound_store s" "get s i = Some op" "get s' i = Some op'"
  shows "follows op op'"
proof -
  obtain es where es: "s' = run (queue_step lib) s es" "\<forall>e \<in> set es. \<exists>op. e = QUpdate op \<and> op_id op = i"
    using assms(1) unfolding touches_def by blast
  then have "\<forall>e \<in> set es. \<not> enqueues i e" by auto
  then show ?thesis using entry_run [OF assms(2) _ assms(3)] es(1) assms(4) by blast
qed

lemma update_open:
  assumes "open_entry s (op_id cur)" "\<not> is_terminal cur"
  shows "open_entry (fst (update_state lib cur s)) (op_id cur)"
proof (cases rule: update_cases [of lib cur s])
  case (refused e)
  then show ?thesis using assms(1) by simp
next
  case (updated prev op')
  then show ?thesis using assms(2) by (auto simp: open_entry_def is_terminal_def)
qed

text \<open>A result that leaves the entry as the outcome says, terminal only where P allows it.\<close>

definition proper :: "queue_lib \<Rightarrow> string \<Rightarrow> op_store \<Rightarrow> (op_state \<Rightarrow> bool) \<Rightarrow> submit_result \<Rightarrow> bool" where
  "proper lib i s P r \<longleftrightarrow> touches lib i s (fst r)
     \<and> (\<exists>op'. get (fst r) i = Some op' \<and> (is_terminal op' \<longrightarrow> P (op_state op'))
          \<and> (snd (snd r) = None \<longrightarrow> fst (snd r) = outcome_of (op_state op')
               \<and> (is_terminal op' \<or> op_state op' = OpReconciliation)))"

lemma proper_refused: "open_entry s i \<Longrightarrow> proper lib i s P (s, out, Some e)"
  by (auto simp: proper_def open_entry_def)

lemma proper_touch: "touches lib i s t \<Longrightarrow> proper lib i t P r \<Longrightarrow> proper lib i s P r"
  unfolding proper_def using touches_trans by blast

lemma save_proper:
  assumes "open_entry s (op_id cur)" "is_terminal cur \<or> op_state cur = OpReconciliation"
    "out = outcome_of (op_state cur)" "is_terminal cur \<Longrightarrow> P (op_state cur)"
  shows "proper lib (op_id cur) s P (save lib cur out s)"
proof (cases rule: update_cases [of lib cur s])
  case (refused e)
  then show ?thesis using proper_refused [OF assms(1)] by (simp add: save_def)
next
  case (updated prev op')
  have "touches lib (op_id cur) s (put (op_id cur) op' s)"
    using touches_update [of cur "op_id cur" lib s] updated(3) by simp
  moreover have "is_terminal op' = is_terminal cur" using updated(5) by (simp add: is_terminal_def)
  ultimately show ?thesis
    using assms(2-4) updated(3,5) by (simp add: proper_def save_def)
qed

lemma retry_cases:
  assumes "op_state cur = OpInFlight" "open_entry s (op_id cur)"
  obtains (finished) r where "retry_later lib w cfg k status code m cur s = Finished r"
      "proper lib (op_id cur) s P r"
    | (again) t where "retry_later lib w cfg k status code m cur s = Again (bump_retry status (server_error_message status code) cur) t"
      "int k + 1 \<noteq> max_attempts cfg" "touches lib (op_id cur) s t" "open_entry t (op_id cur)"
proof -
  let ?c = "bump_retry status (server_error_message status code) cur"
  have live: "\<not> is_terminal ?c" using assms(1) by (simp add: is_terminal_def)
  obtain t x where u: "update_state lib ?c s = (t, x)" by fastforce
  have t: "touches lib (op_id cur) s t" "open_entry t (op_id cur)"
    using touches_update [of ?c "op_id cur" lib s] update_open [of s ?c lib] assms(2) live u by simp_all
  show thesis
  proof (cases x)
    case (Some e)
    then show thesis
      using finished [of "(t, OutcomePerm, Some (WQueue e))"] u proper_touch [OF t(1) proper_refused [OF t(2)]]
      by (simp add: retry_later_def)
  next
    case None
    show thesis
    proof (cases "int k + 1 = max_attempts cfg")
      case True
      let ?d = "fst (set_pending_reconciliation status m ?c)"
      have d: "op_id ?d = op_id cur" "op_state ?d = OpReconciliation"
        using set_sel(7,8) [of ?c status m] assms(1) by simp_all
      have "proper lib (op_id ?d) t P (save lib ?d OutcomePendingReconciliation t)"
        using t(2) d by (intro save_proper) (simp_all add: is_terminal_def)
      then show thesis
        using finished [of "save lib ?d OutcomePendingReconciliation t"] u None True t(1) d(1) proper_touch
        by (simp add: retry_later_def)
    next
      case False
      show thesis
      proof (cases "sleep_err w k (backoff cfg k)")
        case None
        then show thesis using again [OF _ False t] u \<open>x = None\<close> False by (simp add: retry_later_def)
      next
        case (Some e)
        then show thesis
          using finished [of "(t, OutcomePerm, Some (WContext e))"] u \<open>x = None\<close> False
            proper_touch [OF t(1) proper_refused [OF t(2)]]
          by (simp add: retry_later_def)
      qed
    qed
  qed
qed

lemma mark_cases:
  assumes "open_entry s (op_id cur)"
  obtains (stopped) r where "mark_in_flight lib cur s = Inl r" "proper lib (op_id cur) s P r"
    | (marked) cur' t where "mark_in_flight lib cur s = Inr (cur', t)" "same_request cur' cur"
      "op_state cur' = OpInFlight" "touches lib (op_id cur) s t" "open_entry t (op_id cur)"
proof (cases "op_state cur = OpInFlight")
  case True
  then show thesis using marked [of cur s] assms by (simp add: mark_in_flight_def)
next
  case False
  show thesis
  proof (cases "op_state cur = OpPending \<or> op_state cur = OpReconciliation")
    case False
    then show thesis
      using stopped [OF _ proper_refused [OF assms]] \<open>op_state cur \<noteq> OpInFlight\<close>
      by (simp add: mark_in_flight_def set_in_flight_def)
  next
    case True
    let ?c = "cur\<lparr>op_state := OpInFlight\<rparr>"
    have live: "\<not> is_terminal ?c" by (simp add: is_terminal_def)
    obtain t x where u: "update_state lib ?c s = (t, x)" by fastforce
    have t: "touches lib (op_id cur) s t" "open_entry t (op_id cur)"
      using touches_update [of ?c "op_id cur" lib s] update_open [of s ?c lib] assms live u by simp_all
    have m: "mark_in_flight lib cur s = (case x of Some e \<Rightarrow> Inl (t, OutcomePerm, Some (WQueue e)) | None \<Rightarrow> Inr (?c, t))"
      using True u by (auto simp: mark_in_flight_def set_in_flight_def split: option.split)
    show thesis
    proof (cases x)
      case None
      then show thesis using marked [of ?c t] m t by (simp add: same_request_def)
    next
      case (Some e)
      then show thesis using stopped [OF _ proper_touch [OF t(1) proper_refused [OF t(2)]]] m by simp
    qed
  qed
qed


text \<open>The first reply that is not asked again decides.\<close>

definition settled :: "reply_lib \<Rightarrow> operation \<Rightarrow> (nat \<Rightarrow> call_error + (int \<times> string)) \<Rightarrow> nat \<Rightarrow> op_state \<Rightarrow> bool" where
  "settled rl op replies k st \<longleftrightarrow> classify rl op (replies k) = Decided st \<and> (\<forall>j < k. classify rl op (replies j) = Retry)"

lemma reply_proper:
  assumes "op_state cur = OpInFlight" "open_entry s (op_id cur)" "classify rl cur reply \<noteq> Retry"
    "\<And>st. classify rl cur reply = Decided st \<Longrightarrow> P st"
  obtains r where "on_reply rl lib w cfg k reply cur s = Finished r" "proper lib (op_id cur) s P r"
proof (cases "classify rl cur reply")
  case (Decided st)
  then have st: "st \<in> {OpCommitted, OpFailedStale, OpFailedPerm}"
    by (auto simp: classify_def Let_def split: sum.splits prod.splits if_splits)
  obtain c where c: "on_reply rl lib w cfg k reply cur s = Finished (save lib c (outcome_of st) s)"
    "op_id c = op_id cur" "op_state c = st"
    using on_reply_decided [OF assms(1) Decided] by blast
  have "proper lib (op_id c) s P (save lib c (outcome_of st) s)"
    using assms(2) st c(2,3) assms(4) [OF Decided] by (intro save_proper) (auto simp: is_terminal_def)
  then show thesis using that c by simp
next
  case Uncertain
  obtain c where c: "on_reply rl lib w cfg k reply cur s = Finished (save lib c OutcomePendingReconciliation s)"
    "op_id c = op_id cur" "op_state c = OpReconciliation"
    using on_reply_uncertain [OF assms(1) Uncertain] by blast
  have "proper lib (op_id c) s P (save lib c OutcomePendingReconciliation s)"
    using assms(2) c(2,3) by (intro save_proper) (auto simp: is_terminal_def)
  then show thesis using that c by simp
next
  case Retry
  with assms(3) show thesis by simp
qed

lemma loop_proper:
  assumes "0 < left" "attempt + left = nat (max_attempts cfg)" "open_entry s (op_id op)" "same_request cur op"
    and "0 < attempt \<Longrightarrow> op_state cur = OpInFlight"
    and "\<forall>j < attempt. classify rl op (dispatch w cfg j token op) = Retry"
    and P: "\<And>k st. k < nat (max_attempts cfg) \<Longrightarrow> settled rl op (\<lambda>k. dispatch w cfg k token op) k st \<Longrightarrow> P st"
  shows "proper lib (op_id op) s P (submit_loop rl lib w cfg token left attempt cur s)"
  using assms(1-6)
proof (induction left arbitrary: attempt cur s)
  case (Suc left)
  have i: "op_id cur = op_id op" using Suc.prems(4) by (simp add: same_request_def)
  have os: "open_entry s (op_id cur)" using Suc.prems(3) i by simp
  show ?case
  proof (cases "ctx_err w attempt")
    case (Some e)
    then show ?thesis using proper_refused [OF Suc.prems(3)] by simp
  next
    case ctx: None
    have turn: "proper lib (op_id op) t P
        (case on_reply rl lib w cfg attempt (dispatch w cfg attempt token c) c t of
           Finished r \<Rightarrow> r | Again c2 t2 \<Rightarrow> submit_loop rl lib w cfg token left (Suc attempt) c2 t2)"
      if c: "same_request c op" "op_state c = OpInFlight" "open_entry t (op_id op)" for c t
    proof -
      have ci: "op_id c = op_id op" using c(1) by (simp add: same_request_def)
      have oc: "open_entry t (op_id c)" using c(3) ci by simp
      let ?r = "dispatch w cfg attempt token c"
      have cl: "classify rl c ?r = classify rl op (dispatch w cfg attempt token op)"
        using same_request_classify [OF c(1)] same_request_dispatch [OF c(1)] by simp
      show ?thesis
      proof (cases "classify rl c ?r = Retry")
        case False
        have "P st" if "classify rl c ?r = Decided st" for st
          using P [of attempt st] that cl Suc.prems(2,6) by (simp add: settled_def)
        then obtain r where "on_reply rl lib w cfg attempt ?r c t = Finished r" "proper lib (op_id c) t P r"
          using reply_proper [OF c(2), of t rl ?r P lib w cfg attempt] c(3) ci False by metis
        then show ?thesis using ci by simp
      next
        case True
        then obtain status code m where rt: "on_reply rl lib w cfg attempt ?r c t
            = retry_later lib w cfg attempt status code m c t"
          using on_reply_retry by blast
        show ?thesis
        proof (rule retry_cases [OF c(2) oc, of lib w cfg attempt status code m P])
          fix r
          assume "retry_later lib w cfg attempt status code m c t = Finished r" "proper lib (op_id c) t P r"
          then show ?thesis using rt ci by simp
        next
          fix u
          assume again: "retry_later lib w cfg attempt status code m c t = Again (bump_retry status (server_error_message status code) c) u"
            "int attempt + 1 \<noteq> max_attempts cfg" "touches lib (op_id c) t u" "open_entry u (op_id c)"
          have "left \<noteq> 0" using again(2) Suc.prems(1,2) by auto
          moreover have "\<forall>j < Suc attempt. classify rl op (dispatch w cfg j token op) = Retry"
            using Suc.prems(6) True cl less_Suc_eq by auto
          ultimately have "proper lib (op_id op) u P
              (submit_loop rl lib w cfg token left (Suc attempt) (bump_retry status (server_error_message status code) c) u)"
            using again(4) c Suc.prems(2) ci by (intro Suc.IH) simp_all
          then show ?thesis using rt again(1) proper_touch again(3) ci by simp
        qed
      qed
    qed
    show ?thesis
    proof (cases "attempt = 0")
      case True
      show ?thesis
      proof (rule mark_cases [OF os, of lib P])
        fix r
        assume "mark_in_flight lib cur s = Inl r" "proper lib (op_id cur) s P r"
        then show ?thesis using i True ctx by simp
      next
        fix c t
        assume marked: "mark_in_flight lib cur s = Inr (c, t)" "same_request c cur" "op_state c = OpInFlight"
          "touches lib (op_id cur) s t" "open_entry t (op_id cur)"
        have "same_request c op" using marked(2) Suc.prems(4) by (simp add: same_request_def)
        then have "proper lib (op_id op) t P
          (submit_loop rl lib w cfg token (Suc left) attempt cur s)"
          using turn [of c t, unfolded True] marked i True ctx by simp
        then show ?thesis using proper_touch marked(4) i by simp
      qed
    next
      case False
      then show ?thesis using turn [of cur s] Suc.prems ctx by simp
    qed
  qed
qed simp

lemma with_defaults_pos: "0 < max_attempts (with_defaults c)"
  by (simp add: with_defaults_def)

text \<open>Submit as a whole: an entry it makes terminal was decided by the server or had expired unsent.\<close>

lemma submit_proper:
  assumes "sound_store s" "get s i = Some op" "live_state (op_state op)" "0 < max_attempts cfg"
  shows "proper lib i s
      (\<lambda>st. (op_state op \<noteq> OpReconciliation \<and> \<not> selection_still_valid (now_at w) op \<and> st = OpFailedStale)
          \<or> (\<exists>token k. token_for w (token_ref op) = Inr token \<and> k < nat (max_attempts cfg)
               \<and> settled rl op (\<lambda>k. dispatch w cfg k token op) k st))
      (submit rl lib w cfg i s)
    \<or> (\<exists>e. submit rl lib w cfg i s = (s, OutcomeSkipped, Some e))"
proof -
  have i: "op_id op = i" using assms(1,2) good_storeD by (auto simp: sound_store_def)
  have live: "\<not> is_terminal op" using assms(3) by (auto simp: live_state_def is_terminal_def)
  have o: "open_entry s i" using assms(2) live by (auto simp: open_entry_def)
  have sub: "submit rl lib w cfg i s =
     (if op_state op \<noteq> OpReconciliation \<and> \<not> selection_still_valid (now_at w) op
      then save lib (fst (set_failed_stale (now_at w) 0 (plain ''offlinequeue: selection window expired; submit a new operation with a fresh confirmation'') op)) OutcomeStale s
      else case token_for w (token_ref op) of
             Inl e \<Rightarrow> (s, OutcomeSkipped, Some (WToken (token_ref op) e))
           | Inr token \<Rightarrow> submit_loop rl lib w cfg token (nat (max_attempts cfg)) 0 op s)"
    using assms(2) live by (simp add: submit_def get_op_def)
  let ?P = "\<lambda>st. (op_state op \<noteq> OpReconciliation \<and> \<not> selection_still_valid (now_at w) op \<and> st = OpFailedStale)
          \<or> (\<exists>token k. token_for w (token_ref op) = Inr token \<and> k < nat (max_attempts cfg)
               \<and> settled rl op (\<lambda>k. dispatch w cfg k token op) k st)"
  show ?thesis
  proof (cases "op_state op \<noteq> OpReconciliation \<and> \<not> selection_still_valid (now_at w) op")
    case True
    let ?c = "fst (set_failed_stale (now_at w) 0
        (plain ''offlinequeue: selection window expired; submit a new operation with a fresh confirmation'') op)"
    have c: "op_id ?c = i" "op_state ?c = OpFailedStale"
      using assms(3) i by (simp_all add: set_failed_stale_def)
    have "proper lib (op_id ?c) s ?P (save lib ?c OutcomeStale s)"
      using o c True by (intro save_proper) (simp_all add: is_terminal_def)
    then show ?thesis using sub True c(1) by simp
  next
    case False
    show ?thesis
    proof (cases "token_for w (token_ref op)")
      case (Inl e)
      then show ?thesis using sub False by auto
    next
      case (Inr token)
      have "proper lib (op_id op) s ?P (submit_loop rl lib w cfg token (nat (max_attempts cfg)) 0 op s)"
        using assms(4) o i Inr by (intro loop_proper) auto
      then show ?thesis using sub False Inr i by simp
    qed
  qed
qed


section \<open>Every Submit touches only its own entry\<close>

lemma save_touches: "op_id cur = i \<Longrightarrow> touches lib i s (fst (save lib cur out s))"
  using touches_update [of cur i lib s] by (auto simp: save_def split: prod.split option.split)

lemma submit_touches:
  assumes "sound_store s" "0 < max_attempts cfg"
  shows "touches lib i s (fst (submit rl lib w cfg i s))"
proof (cases "get s i")
  case None
  then show ?thesis by (simp add: submit_def get_op_def)
next
  case (Some op)
  have i: "op_id op = i" using assms(1) Some good_storeD by (auto simp: sound_store_def)
  show ?thesis
  proof (cases "live_state (op_state op)")
    case True
    show ?thesis using submit_proper [OF assms(1) Some True assms(2), of lib w rl] by (auto simp: proper_def)
  next
    case dead: False
    then have st: "op_state op \<notin> {OpPending, OpInFlight, OpReconciliation}" by (auto simp: live_state_def)
    have l: "fst (submit_loop rl lib w cfg token n 0 op s) = s" for token n
      using st by (cases n) (simp_all add: mark_in_flight_def set_in_flight_def split: option.split)
    have f: "fst (set_failed_stale now c m op) = op" for now c m
      using dead by (simp add: set_failed_stale_def)
    show ?thesis
      using Some l save_touches [OF i]
      by (simp add: submit_def get_op_def f split: sum.split)
  qed
qed

lemma touches_keeps:
  assumes "touches lib i s s'" "sound_store s"
  shows "sound_store s' \<and> (\<forall>j. rel_option follows (get s j) (get s' j))"
proof -
  obtain es where es: "s' = run (queue_step lib) s es" "\<forall>e \<in> set es. \<exists>op. e = QUpdate op \<and> op_id op = i"
    using assms(1) unfolding touches_def by blast
  have keys: "get s' j = None \<longleftrightarrow> get s j = None" for j
    using es
  proof (induction es arbitrary: s)
    case (Cons e es)
    then obtain op where op: "e = QUpdate op" by auto
    have "get (queue_step lib s e) j = None \<longleftrightarrow> get s j = None"
      unfolding op by (cases rule: update_cases [of lib op s]) auto
    then show ?case using Cons by simp
  qed simp
  have "rel_option follows (get s j) (get s' j)" for j
  proof (cases "j = i")
    case False
    then show ?thesis using touches_other [OF assms(1)] by (simp add: option.rel_refl)
  next
    case True
    then show ?thesis
      using keys [of j] touches_follows [OF assms] by (cases "get s j"; cases "get s' j") auto
  qed
  then show ?thesis using queue.inv_run [OF assms(2)] es(1) by blast
qed

lemma follows_option_trans:
  "rel_option follows x y \<Longrightarrow> rel_option follows y z \<Longrightarrow> rel_option follows x z"
  by (cases x; cases y; cases z) (auto intro: follows_trans)

lemma drain_loop_keeps:
  assumes "sound_store s" "0 < max_attempts cfg"
  shows "sound_store (fst (drain_loop rl lib cfg cx ws n ops rep s))
    \<and> (\<forall>j. rel_option follows (get s j) (get (fst (drain_loop rl lib cfg cx ws n ops rep s)) j))"
  using assms(1)
proof (induction ops arbitrary: n rep s)
  case Nil
  then show ?case by (simp add: option.rel_refl)
next
  case (Cons op ops)
  obtain t out x where sub: "submit rl lib (ws n) cfg (op_id op) s = (t, out, x)"
    by (cases "submit rl lib (ws n) cfg (op_id op) s") auto
  have t: "sound_store t" "rel_option follows (get s j) (get t j)" for j
    using touches_keeps [OF submit_touches [OF Cons.prems assms(2)] Cons.prems] sub by (metis fst_conv)+
  show ?case
  proof (cases "cx n")
    case (Some e)
    then show ?thesis using Cons.prems by (simp add: option.rel_refl)
  next
    case None
    show ?thesis
    proof (cases x)
      case (Some e)
      then show ?thesis using None sub t by simp
    next
      case x: None
      have "drain_loop rl lib cfg cx ws n (op # ops) rep s
          = drain_loop rl lib cfg cx ws (Suc n) ops (count_outcome out rep) t"
        using None sub x by simp
      then show ?thesis
        using Cons.IH [OF t(1)] follows_option_trans [OF t(2)] by simp
    qed
  qed
qed

definition balanced :: "drain_report \<Rightarrow> bool" where
  "balanced r \<longleftrightarrow> processed r = committed r + stale r + failed r + skipped r + reconciliation r"

lemma count_balanced: "balanced r \<Longrightarrow> balanced (count_outcome out r) \<and> processed (count_outcome out r) = processed r + 1"
  by (cases out) (simp_all add: balanced_def)

lemma drain_loop_report:
  assumes "balanced rep" "drain_loop rl lib cfg cx ws n ops rep s = (s', rep', e)"
  shows "balanced rep' \<and> processed rep' \<le> processed rep + int (length ops)
    \<and> (e = None \<longleftrightarrow> processed rep' = processed rep + int (length ops))"
  using assms
proof (induction ops arbitrary: n rep s)
  case (Cons op ops)
  obtain t out x where sub: "submit rl lib (ws n) cfg (op_id op) s = (t, out, x)"
    by (cases "submit rl lib (ws n) cfg (op_id op) s") auto
  note c = count_balanced [OF Cons.prems(1), of out]
  show ?case
  proof (cases "cx n = None \<and> x = None")
    case True
    then have "drain_loop rl lib cfg cx ws (Suc n) ops (count_outcome out rep) t = (s', rep', e)"
      using Cons.prems(2) sub by simp
    then show ?thesis using Cons.IH c by fastforce
  next
    case False
    then have "rep' = rep" "e \<noteq> None" using Cons.prems(2) sub by (auto split: option.splits)
    then show ?thesis using Cons.prems(1) by simp
  qed
qed simp

section \<open>Backoff\<close>

lemma backoff_loop_min:
  assumes "0 < d" "0 < mx" "mx \<le> 2 ^ 62" "d < 2 ^ 62"
  shows "backoff_loop n d mx = min (d * 2 ^ n) mx"
  using assms
proof (induction n arbitrary: d)
  case 0
  then show ?case by simp
next
  case (Suc n)
  have w: "wrap64 (d * 2) = d * 2" using Suc.prems by (intro wrap64_id) auto
  show ?case
  proof (cases "mx \<le> d * 2")
    case True
    have "d * 2 \<le> d * 2 ^ Suc n" using Suc.prems(1) by simp
    then show ?thesis using True w by simp
  next
    case False
    then show ?thesis using Suc w by (simp add: mult.assoc)
  qed
qed


section \<open>Entries that can be written again\<close>

definition writable :: "queue_lib \<Rightarrow> operation \<Rightarrow> bool" where
  "writable lib op \<longleftrightarrow> trim_space (op_id op) \<noteq> [] \<and> json_valid lib (payload op)
     \<and> (server_result op = [] \<or> json_valid lib (server_result op))"

definition writable_store :: "queue_lib \<Rightarrow> op_store \<Rightarrow> bool" where
  "writable_store lib s \<longleftrightarrow> (\<forall>i op. get s i = Some op \<longrightarrow> writable lib op)"

text \<open>Encoding a valid JSON value again gives a valid one.\<close>

definition re_encodes :: "queue_lib \<Rightarrow> bool" where
  "re_encodes lib \<longleftrightarrow> (\<forall>x. json_valid lib x \<longrightarrow> json_valid lib (disk_form lib x))"

lemma write_writable:
  assumes "re_encodes lib" "json_valid lib (payload op)" "writable_store lib s"
  shows "writable_store lib (fst (write_op lib op s))"
proof -
  have "writable lib x" if "get (fst (write_op lib op s)) i = Some x" for i x
    using that assms
    by (auto simp: write_op_def writable_store_def writable_def re_encodes_def split: if_splits)
  then show ?thesis by (simp add: writable_store_def)
qed

lemma writable_less:
  "writable_store lib s \<Longrightarrow> (\<And>i op. get t i = Some op \<Longrightarrow> get s i = Some op) \<Longrightarrow> writable_store lib t"
  unfolding writable_store_def by blast

lemma reset_loop_writable:
  assumes "re_encodes lib" "writable_store lib s" "\<forall>op \<in> set ops. json_valid lib (payload op)"
  shows "writable_store lib (fst (fst (reset_loop lib ops n s)))"
  using assms(2,3)
proof (induction ops arbitrary: n s)
  case (Cons op ops)
  obtain t x where w: "write_op lib (reset_op op) s = (t, x)" by fastforce
  have "json_valid lib (payload (reset_op op))" using Cons.prems(2) by (simp add: reset_op_def)
  then have "writable_store lib t" using write_writable [OF assms(1) _ Cons.prems(1)] w by (metis fst_conv)
  then show ?case using Cons w by (cases x) simp_all
qed simp

lemma writable_step:
  assumes law: "re_encodes lib" and ws: "writable_store lib s" and sound: "sound_store s"
  shows "writable_store lib (queue_step lib s e)"
proof (cases e)
  case (QEnqueue op now)
  show ?thesis
  proof (cases "validate_op lib now op")
    case (Inl e)
    then show ?thesis using ws QEnqueue by (simp add: enqueue_def)
  next
    case (Inr o1)
    then have p: "json_valid lib (payload o1)"
      by (auto simp: validate_op_def op_checks_def check_simps)
    show ?thesis
      using write_writable [OF law, of o1 s] write_writable [OF law, of "o1\<lparr>created_at := now\<rparr>" s] p ws QEnqueue Inr
      by (simp add: enqueue_def split: option.split)
  qed
next
  case (QUpdate op)
  show ?thesis
  proof (cases "get s (op_id op)")
    case None
    then show ?thesis using ws QUpdate by (simp add: update_state_def get_op_def)
  next
    case (Some prev)
    have "writable lib prev" using ws Some unfolding writable_store_def by blast
    then have "json_valid lib (payload (keep_identity prev op))"
      by (simp add: keep_identity_def writable_def)
    from write_writable [OF law this ws] show ?thesis
      using ws QUpdate Some by (simp add: update_state_def get_op_def)
  qed
next
  case (QDelete i)
  then show ?thesis
    by (auto intro!: writable_less [OF ws] simp: delete_op_def split: if_splits)
next
  case (QPurge now older)
  then show ?thesis
    using get_drop_where [of s] sound
    by (auto intro!: writable_less [OF ws] simp: purge_committed_def sound_store_def good_store_def split: option.splits if_splits)
next
  case QReset
  have g: "good_store s" using sound by (simp add: sound_store_def)
  have "json_valid lib (payload op)" if "op \<in> set (list_ops s)" for op
    using that listed [OF g] ws unfolding writable_store_def writable_def by blast
  then show ?thesis
    using QReset reset_loop_writable [OF law ws] by (simp add: reset_stuck_in_flight_def)
qed

lemma writable_run:
  assumes "re_encodes lib"
  shows "writable_store lib (run (queue_step lib) [] es)"
proof (induction es rule: rev_induct)
  case Nil
  then show ?case by (simp add: writable_store_def)
next
  case (snoc e es)
  then show ?case
    using writable_step [OF assms] queue.inv_run [OF sound_empty, of lib es] by simp
qed

definition ready :: "queue_lib \<Rightarrow> op_store \<Rightarrow> string \<Rightarrow> bool" where
  "ready lib s i \<longleftrightarrow> (\<exists>prev. get s i = Some prev \<and> writable lib prev \<and> op_id prev = i \<and> \<not> is_terminal prev)"

definition plain_result :: "queue_lib \<Rightarrow> operation \<Rightarrow> bool" where
  "plain_result lib op \<longleftrightarrow> server_result op = [] \<or> json_valid lib (server_result op)"

lemma update_ready:
  assumes "re_encodes lib" "ready lib s (op_id cur)" "plain_result lib cur"
  shows "\<exists>t. update_state lib cur s = (t, None) \<and> (\<not> is_terminal cur \<longrightarrow> ready lib t (op_id cur))"
proof -
  obtain prev where p: "get s (op_id cur) = Some prev" "writable lib prev" "op_id prev = op_id cur" "\<not> is_terminal prev"
    using assms(2) by (auto simp: ready_def)
  then show ?thesis
    using assms(1,3)
    by (auto simp: update_state_def get_op_def write_op_def keep_identity_def writable_def re_encodes_def
        ready_def plain_result_def is_terminal_def)
qed

lemma save_ready:
  assumes "re_encodes lib" "ready lib s (op_id cur)" "plain_result lib cur"
  shows "snd (save lib cur out s) = (out, None)"
  using update_ready [OF assms] by (auto simp: save_def)


section \<open>The loop follows the verdicts\<close>

text \<open>What Submit is to report: the first verdict that is not a retry, within the attempts.\<close>

fun first_verdict :: "(nat \<Rightarrow> verdict) \<Rightarrow> nat \<Rightarrow> nat \<Rightarrow> submit_outcome" where
  "first_verdict v 0 k = OutcomePendingReconciliation"
| "first_verdict v (Suc n) k =
     (case v k of
        Decided st \<Rightarrow> outcome_of st
      | Uncertain \<Rightarrow> OutcomePendingReconciliation
      | Retry \<Rightarrow> first_verdict v n (Suc k))"

definition undisturbed :: "world \<Rightarrow> bool" where
  "undisturbed w \<longleftrightarrow> (\<forall>k d. ctx_err w k = None \<and> sleep_err w k d = None)"

text \<open>A body that passes as a success envelope is valid JSON.\<close>

definition envelopes_valid :: "reply_lib \<Rightarrow> queue_lib \<Rightarrow> bool" where
  "envelopes_valid rl lib \<longleftrightarrow>
     (\<forall>m p st b pl. validate_success_envelope rl m p st b pl = None \<longrightarrow> json_valid lib b)"

lemma reply_exact:
  assumes laws: "re_encodes lib" "envelopes_valid rl lib"
    and c: "ready lib s (op_id cur)" "plain_result lib cur" "op_state cur = OpInFlight"
    and v: "classify rl cur reply \<noteq> Retry"
  shows "\<exists>r. on_reply rl lib w cfg k reply cur s = Finished r
    \<and> snd r = (case classify rl cur reply of Decided st \<Rightarrow> outcome_of st | _ \<Rightarrow> OutcomePendingReconciliation, None)"
proof (cases "classify rl cur reply")
  case (Decided st)
  obtain d where d: "on_reply rl lib w cfg k reply cur s = Finished (save lib d (outcome_of st) s)" "op_id d = op_id cur"
    "server_result d = server_result cur \<or> (\<exists>status.
         reply = Inr (status, server_result d)
         \<and> validate_success_envelope rl (op_method cur) (endpoint cur) status (server_result d) (payload cur) = None)"
    using on_reply_decided [OF c(3) Decided] by blast
  have "plain_result lib d"
    using d(3) c(2) laws(2) unfolding plain_result_def envelopes_valid_def by metis
  then show ?thesis using save_ready [OF laws(1), of s d] c(1) d Decided by simp
next
  case Uncertain
  obtain d where d: "on_reply rl lib w cfg k reply cur s = Finished (save lib d OutcomePendingReconciliation s)"
    "op_id d = op_id cur" "server_result d = server_result cur"
    using on_reply_uncertain [OF c(3) Uncertain] by blast
  then show ?thesis using save_ready [OF laws(1), of s d] c Uncertain by (simp add: plain_result_def)
next
  case Retry
  with v show ?thesis by simp
qed

lemma retry_exact:
  assumes law: "re_encodes lib" and quiet: "undisturbed w"
    and c: "ready lib s (op_id cur)" "plain_result lib cur" "op_state cur = OpInFlight"
  shows "if int k + 1 = max_attempts cfg
    then \<exists>r. retry_later lib w cfg k status code m cur s = Finished r \<and> snd r = (OutcomePendingReconciliation, None)
    else \<exists>t. retry_later lib w cfg k status code m cur s = Again (bump_retry status (server_error_message status code) cur) t
      \<and> ready lib t (op_id cur)"
proof -
  let ?c = "bump_retry status (server_error_message status code) cur"
  have pr: "plain_result lib ?c" using c(2) by (simp add: plain_result_def bump_retry_def)
  obtain t where t: "update_state lib ?c s = (t, None)" "ready lib t (op_id cur)"
    using update_ready [OF law _ pr, of s] c by (auto simp: is_terminal_def)
  let ?d = "fst (set_pending_reconciliation status m ?c)"
  have d: "op_id ?d = op_id cur" "plain_result lib ?d"
    using set_sel(7,12) [of ?c status m] c(3) pr by (simp_all add: plain_result_def)
  have "snd (save lib ?d OutcomePendingReconciliation t) = (OutcomePendingReconciliation, None)"
    using save_ready [OF law _ d(2)] d(1) t(2) by simp
  then show ?thesis using t quiet by (simp add: retry_later_def undisturbed_def)
qed

lemma mark_exact:
  assumes law: "re_encodes lib" and c: "ready lib s (op_id cur)" "plain_result lib cur" "live_state (op_state cur)"
  shows "\<exists>c t. mark_in_flight lib cur s = Inr (c, t) \<and> same_request c cur \<and> op_state c = OpInFlight
    \<and> plain_result lib c \<and> ready lib t (op_id cur)"
proof (cases "op_state cur = OpInFlight")
  case True
  then show ?thesis using c by (simp add: mark_in_flight_def)
next
  case False
  let ?c = "cur\<lparr>op_state := OpInFlight\<rparr>"
  have "plain_result lib ?c" using c(2) by (simp add: plain_result_def)
  then obtain t where t: "update_state lib ?c s = (t, None)" "ready lib t (op_id cur)"
    using update_ready [OF law, of s ?c] c(1) by (auto simp: is_terminal_def)
  have "mark_in_flight lib cur s = Inr (?c, t)"
    using False c(3) t(1) by (auto simp: mark_in_flight_def set_in_flight_def live_state_def)
  then show ?thesis using t(2) \<open>plain_result lib ?c\<close> by (simp add: same_request_def)
qed

lemma loop_exact:
  assumes laws: "re_encodes lib" "envelopes_valid rl lib" and quiet: "undisturbed w"
    and "0 < left" "attempt + left = nat (max_attempts cfg)" "ready lib s (op_id op)" "same_request cur op"
    and "plain_result lib cur" "if attempt = 0 then live_state (op_state cur) else op_state cur = OpInFlight"
  shows "snd (submit_loop rl lib w cfg token left attempt cur s)
    = (first_verdict (\<lambda>k. classify rl op (dispatch w cfg k token op)) left attempt, None)"
  using assms(4-)
proof (induction left arbitrary: attempt cur s)
  case (Suc left)
  let ?v = "\<lambda>k. classify rl op (dispatch w cfg k token op)"
  have i: "op_id cur = op_id op" using Suc.prems(4) by (simp add: same_request_def)
  have "\<exists>c t. (if attempt = 0 then mark_in_flight lib cur s else Inr (cur, s)) = Inr (c, t) \<and> same_request c op
      \<and> op_state c = OpInFlight \<and> plain_result lib c \<and> ready lib t (op_id op)"
  proof (cases "attempt = 0")
    case True
    then show ?thesis
      using mark_exact [OF laws(1), of s cur] Suc.prems(3-6) i by (auto simp: same_request_def)
  qed (use Suc.prems in auto)
  then obtain c t where m: "(if attempt = 0 then mark_in_flight lib cur s else Inr (cur, s)) = Inr (c, t)"
    and c: "same_request c op" "op_state c = OpInFlight" "plain_result lib c" "ready lib t (op_id c)"
    by (auto simp: same_request_def)
  let ?r = "dispatch w cfg attempt token c"
  have ctx: "ctx_err w attempt = None" using quiet by (simp add: undisturbed_def)
  have cl: "classify rl c ?r = ?v attempt"
    using same_request_classify [OF c(1)] same_request_dispatch [OF c(1)] by simp
  have ci: "op_id c = op_id op" using c(1) by (simp add: same_request_def)
  show ?case
  proof (cases "classify rl c ?r = Retry")
    case False
    then obtain r where "on_reply rl lib w cfg attempt ?r c t = Finished r"
      "snd r = (case classify rl c ?r of Decided st \<Rightarrow> outcome_of st | _ \<Rightarrow> OutcomePendingReconciliation, None)"
      using reply_exact [OF laws c(4,3,2)] by blast
    then show ?thesis using ctx m cl False by (simp split: verdict.splits)
  next
    case True
    then obtain status code x where rt: "on_reply rl lib w cfg attempt ?r c t
        = retry_later lib w cfg attempt status code x c t"
      using on_reply_retry by blast
    note ex = retry_exact [OF laws(1) quiet c(4,3,2), of attempt cfg status code x]
    show ?thesis
    proof (cases "int attempt + 1 = max_attempts cfg")
      case last: True
      then have "left = 0" using Suc.prems(2) by auto
      then show ?thesis using ex last rt ctx m cl True by auto
    next
      case more: False
      then have "0 < left" using Suc.prems(1,2) by (cases left) auto
      moreover obtain u where u: "retry_later lib w cfg attempt status code x c t
          = Again (bump_retry status (server_error_message status code) c) u" "ready lib u (op_id op)"
        using ex more ci by auto
      ultimately have "snd (submit_loop rl lib w cfg token left (Suc attempt)
            (bump_retry status (server_error_message status code) c) u) = (first_verdict ?v left (Suc attempt), None)"
        using c Suc.prems(2) by (intro Suc.IH) (simp_all add: plain_result_def bump_retry_def same_request_def)
      then show ?thesis using rt ctx m cl True u(1) by simp
    qed
  qed
qed simp


section \<open>Demonstration values\<close>

text \<open>
  A server that is unavailable once and commits at the second attempt. Its answer has the
  tokens of an object with the two identifiers under data.
\<close>

definition demo_rlib :: reply_lib where
  "demo_rlib = \<lparr>body_tokens = (\<lambda>_. [TObj, TStr ''data'', TObj, TStr ''reservation_id'', TStr ''r'',
       TStr ''stay_id'', TStr ''s'', TObjEnd, TObjEnd]), has_trailing = (\<lambda>_. False),
     decode_envelope = (\<lambda>_. Inr ([], Some (JObj [(''reservation_id'', JStr ''r''), (''stay_id'', JStr ''s'')]))),
     not_object_error = (\<lambda>_. plain []), decode_submitted = (\<lambda>_. None),
     decode_error_codes = (\<lambda>b. if b = ''stale'' then Some [''EXPIRED''] else None)\<rparr>"

definition demo_world :: "(nat \<Rightarrow> call_error + (int \<times> string)) \<Rightarrow> time \<Rightarrow> world" where
  "demo_world replies now = \<lparr>now_at = now, token_for = (\<lambda>_. Inr ''bearer''), ctx_err = (\<lambda>_. None),
     post_json = (\<lambda>k _ _ _ _ _. replies k), sleep_err = (\<lambda>_ _. None)\<rparr>"

definition demo_replies :: "nat \<Rightarrow> call_error + (int \<times> string)" where
  "demo_replies k = (if k = 0 then Inr (503, ''down'') else Inr (201, ''ok''))"

definition demo_config :: replay_config where
  "demo_config = with_defaults \<lparr>max_attempts = 0, base_delay = 0, max_delay = 0, per_call_timeout = 0\<rparr>"

definition demo_uncertain :: op_store where
  "demo_uncertain = run (queue_step demo_qlib) []
     [QEnqueue (demo_op ''a'' ''k1'') 5, QUpdate ((demo_op ''a'' ''k1'')\<lparr>op_state := OpReconciliation\<rparr>)]"

lemma demo_laws: "re_encodes demo_qlib" "envelopes_valid demo_rlib demo_qlib"
proof -
  show "re_encodes demo_qlib" by (simp add: re_encodes_def demo_qlib_def)
  show "envelopes_valid demo_rlib demo_qlib"
    unfolding envelopes_valid_def
    by (auto simp: validate_success_envelope_def demo_qlib_def reject_def split: if_splits)
qed

section \<open>Properties\<close>

text \<open>Submit does what the verdicts say: when neither the context nor a sleep interrupts it,
  the outcome of replaying a live entry is the first of the server's verdicts that is not a
  retry, reconciliation when every attempt is spent, and the stored entry is left in the state
  of that outcome.\<close>

theorem submit_follows_verdicts:
  assumes "re_encodes lib" and "envelopes_valid rl lib" and "undisturbed w"
    and "s = run (queue_step lib) [] es" and "get s i = Some op"
    and "op_state op = OpReconciliation \<or> live_state (op_state op) \<and> selection_still_valid (now_at w) op"
    and "token_for w (token_ref op) = Inr token" and "cfg = with_defaults cfg0"
  shows "\<exists>op'. submit rl lib w cfg i s = (fst (submit rl lib w cfg i s),
        first_verdict (\<lambda>k. classify rl op (dispatch w cfg k token op)) (nat (max_attempts cfg)) 0, None)
      \<and> get (fst (submit rl lib w cfg i s)) i = Some op'
      \<and> outcome_of (op_state op') = first_verdict (\<lambda>k. classify rl op (dispatch w cfg k token op)) (nat (max_attempts cfg)) 0"
proof -
  have s: "sound_store s" using queue.inv_run [OF sound_empty] assms(4) by blast
  have i: "op_id op = i" using s assms(5) good_storeD by (auto simp: sound_store_def)
  have live: "live_state (op_state op)" using assms(6) by (auto simp: live_state_def)
  have nt: "\<not> is_terminal op" using live by (auto simp: live_state_def is_terminal_def)
  have "writable lib op" using writable_run [OF assms(1)] assms(4,5) unfolding writable_store_def by blast
  then have rd: "ready lib s (op_id op)" "plain_result lib op"
    using assms(5) i nt by (auto simp: ready_def plain_result_def writable_def)
  have pos: "0 < max_attempts cfg" using with_defaults_pos assms(8) by simp
  have sub: "submit rl lib w cfg i s = submit_loop rl lib w cfg token (nat (max_attempts cfg)) 0 op s"
    using assms(5-7) nt by (auto simp: submit_def get_op_def)
  have ex: "snd (submit rl lib w cfg i s)
      = (first_verdict (\<lambda>k. classify rl op (dispatch w cfg k token op)) (nat (max_attempts cfg)) 0, None)"
    unfolding sub using pos live rd by (intro loop_exact [OF assms(1-3)]) simp_all
  then have "proper lib i s (\<lambda>st. (op_state op \<noteq> OpReconciliation \<and> \<not> selection_still_valid (now_at w) op \<and> st = OpFailedStale)
          \<or> (\<exists>token k. token_for w (token_ref op) = Inr token \<and> k < nat (max_attempts cfg)
               \<and> settled rl op (\<lambda>k. dispatch w cfg k token op) k st)) (submit rl lib w cfg i s)"
    using submit_proper [OF s assms(5) live pos, of lib w rl] by auto
  then obtain op' where "get (fst (submit rl lib w cfg i s)) i = Some op'"
      "fst (snd (submit rl lib w cfg i s)) = outcome_of (op_state op')"
    using ex by (auto simp: proper_def)
  then show ?thesis using ex by (metis fst_conv prod.collapse)
qed

theorem submit_follows_verdicts_witness:
  "snd (submit demo_rlib demo_qlib (demo_world demo_replies 6) demo_config ''a'' demo_uncertain) = (OutcomeCommitted, None)"
proof -
  let ?op = "(demo_op ''a'' ''k1'')\<lparr>op_state := OpReconciliation, payload_hash := ''k1'' @ [CHR 0x0A] @ ''{}''\<rparr>"
  have g: "get demo_uncertain ''a'' = Some ?op" by code_simp
  have q: "undisturbed (demo_world demo_replies 6)" by (simp add: undisturbed_def demo_world_def)
  have o: "op_state ?op = OpReconciliation \<or> live_state (op_state ?op) \<and> selection_still_valid (now_at (demo_world demo_replies 6)) ?op"
    by simp
  have t: "token_for (demo_world demo_replies 6) (token_ref ?op) = Inr ''bearer''" by (simp add: demo_world_def)
  have v: "first_verdict (\<lambda>k. classify demo_rlib ?op (dispatch (demo_world demo_replies 6) demo_config k ''bearer'' ?op))
      (nat (max_attempts demo_config)) 0 = OutcomeCommitted" by code_simp
  from submit_follows_verdicts [OF demo_laws q demo_uncertain_def g o t demo_config_def] v
  show ?thesis by (metis snd_conv)
qed

text \<open>Uncertainty is resolved by the server alone: when an operation that awaits reconciliation
  becomes terminal in a Submit, whatever the clock, the context and the transport did, a reply
  to the same request with that verdict was received, after replies that asked for a retry.\<close>

theorem reconciliation_needs_verdict:
  assumes "s = run (queue_step lib) [] es" and "get s i = Some op" and "op_state op = OpReconciliation"
    and "get (fst (submit rl lib w (with_defaults cfg) i s)) i = Some op'" and "is_terminal op'"
  shows "\<exists>token k. token_for w (token_ref op) = Inr token
    \<and> settled rl op (\<lambda>k. dispatch w (with_defaults cfg) k token op) k (op_state op')"
proof -
  have s: "sound_store s" using queue.inv_run [OF sound_empty] assms(1) by blast
  have live: "live_state (op_state op)" using assms(3) by (simp add: live_state_def)
  have "\<not> is_terminal op" using assms(3) by (simp add: is_terminal_def)
  then show ?thesis
    using submit_proper [OF s assms(2) live with_defaults_pos, of lib w cfg rl] assms(2-5)
    by (auto simp: proper_def)
qed

theorem reconciliation_needs_verdict_witness:
  "\<exists>k. settled demo_rlib (hd (list_ops demo_uncertain))
     (\<lambda>k. dispatch (demo_world demo_replies 6) demo_config k ''bearer'' (hd (list_ops demo_uncertain))) k OpCommitted"
proof -
  let ?op = "(demo_op ''a'' ''k1'')\<lparr>op_state := OpReconciliation, payload_hash := ''k1'' @ [CHR 0x0A] @ ''{}''\<rparr>"
  let ?op' = "?op\<lparr>op_state := OpCommitted, retry_count := 1, last_status_code := 201, committed_at := 6, server_result := ''ok''\<rparr>"
  have g: "get demo_uncertain ''a'' = Some ?op" by code_simp
  have st: "op_state ?op = OpReconciliation" by simp
  have g': "get (fst (submit demo_rlib demo_qlib (demo_world demo_replies 6) demo_config ''a'' demo_uncertain)) ''a'' = Some ?op'"
    by code_simp
  have t: "is_terminal ?op'" by code_simp
  have h: "hd (list_ops demo_uncertain) = ?op" by code_simp
  have tok: "token_for (demo_world demo_replies 6) r = Inr ''bearer''" for r by (simp add: demo_world_def)
  from reconciliation_needs_verdict [OF demo_uncertain_def g st g' [unfolded demo_config_def] t] tok
  show ?thesis unfolding h demo_config_def by auto
qed




text \<open>A drain loses nothing: whatever the server, the clock and the context do, every entry is
  still there afterwards with the identity it was confirmed with, terminal entries are
  unchanged, no entry is added, and every Submit writes to its own entry only.\<close>

theorem drain_keeps_entries:
  assumes "s = run (queue_step lib) [] es"
    and "drain_queue rl lib (with_defaults cfg) cx ws s = (s', rep, err)"
  shows "(get s' i = None \<longleftrightarrow> get s i = None)
    \<and> (\<forall>op op'. get s i = Some op \<longrightarrow> get s' i = Some op' \<longrightarrow> payload_hash op \<noteq> []
         \<longrightarrow> identity op' = identity op \<and> (is_terminal op \<longrightarrow> op' = op))
    \<and> (\<forall>j w. j \<noteq> i \<longrightarrow> get (fst (submit rl lib w (with_defaults cfg) i s)) j = get s j)"
proof (intro conjI allI impI)
  have s: "sound_store s" using queue.inv_run [OF sound_empty] assms(1) by blast
  have rel: "rel_option follows (get s j) (get s' j)" for j
    using drain_loop_keeps [OF s with_defaults_pos, of rl lib cfg cx ws] assms(2)
    unfolding drain_queue_def by (metis fst_conv)
  show "get s' i = None \<longleftrightarrow> get s i = None" using rel [of i] by (cases "get s i"; cases "get s' i") auto
  show "identity op' = identity op" if "get s i = Some op" "get s' i = Some op'" "payload_hash op \<noteq> []" for op op'
    using rel [of i] that by (auto simp: follows_def)
  show "op' = op" if "get s i = Some op" "get s' i = Some op'" "payload_hash op \<noteq> []" "is_terminal op" for op op'
    using rel [of i] that by (auto simp: follows_def)
  show "get (fst (submit rl lib w (with_defaults cfg) i s)) j = get s j" if "j \<noteq> i" for j w
    using touches_other [OF submit_touches [OF s with_defaults_pos] that] .
qed

theorem drain_keeps_entries_witness:
  "map fst (fst (drain_queue demo_rlib demo_qlib demo_config (\<lambda>_. None) (\<lambda>_. demo_world demo_replies 6) demo_uncertain)) = [''a'']
   \<and> get (fst (submit demo_rlib demo_qlib (demo_world demo_replies 6) demo_config ''b'' demo_uncertain)) ''a'' = get demo_uncertain ''a''"
proof
  show "map fst (fst (drain_queue demo_rlib demo_qlib demo_config (\<lambda>_. None) (\<lambda>_. demo_world demo_replies 6) demo_uncertain)) = [''a'']"
    by code_simp
  obtain s' rep err where d: "drain_queue demo_rlib demo_qlib demo_config (\<lambda>_. None) (\<lambda>_. demo_world demo_replies 6) demo_uncertain = (s', rep, err)"
    by (metis prod_cases3)
  show "get (fst (submit demo_rlib demo_qlib (demo_world demo_replies 6) demo_config ''b'' demo_uncertain)) ''a'' = get demo_uncertain ''a''"
    using drain_keeps_entries [OF demo_uncertain_def d [unfolded demo_config_def], of "''b''"] by (simp add: demo_config_def)
qed

text \<open>The report of a drain adds up: processed is the sum of its five outcomes, never more
  than the entries that were dispatchable, and all of them exactly when no error ended it.\<close>

theorem drain_report_exact:
  assumes "drain_queue rl lib cfg cx ws s = (s', rep, err)"
  shows "processed rep = committed rep + stale rep + failed rep + skipped rep + reconciliation rep
    \<and> processed rep \<le> int (length (peek_pending s))
    \<and> (err = None \<longleftrightarrow> processed rep = int (length (peek_pending s)))"
proof -
  have "balanced empty_report" "processed empty_report = 0" by (simp_all add: balanced_def empty_report_def)
  then show ?thesis
    using drain_loop_report [of empty_report] assms unfolding drain_queue_def by (force simp: balanced_def)
qed

theorem drain_report_exact_witness:
  "case drain_queue demo_rlib demo_qlib demo_config (\<lambda>_. None) (\<lambda>_. demo_world demo_replies 6) demo_uncertain of
     (s', rep, err) \<Rightarrow> processed rep = committed rep + stale rep + failed rep + skipped rep + reconciliation rep"
proof -
  obtain s' rep err where d: "drain_queue demo_rlib demo_qlib demo_config (\<lambda>_. None) (\<lambda>_. demo_world demo_replies 6) demo_uncertain = (s', rep, err)"
    by (metis prod_cases3)
  from drain_report_exact [OF d] show ?thesis by (simp add: d)
qed

text \<open>The delay doubles up to the cap: for every configuration with delays below 2^62
  nanoseconds, the sleep after the attempt with index n is the base delay times two to the n,
  at most the maximal delay, and the doubling in 64 bits never wraps.\<close>

theorem backoff_doubles:
  assumes "c = with_defaults cfg" and "base_delay cfg < 2 ^ 62" and "max_delay cfg \<le> 2 ^ 62"
  shows "backoff c n = min (base_delay c * 2 ^ n) (max_delay c)"
proof -
  have "0 < base_delay c" "base_delay c < 2 ^ 62" "0 < max_delay c" "max_delay c \<le> 2 ^ 62"
    using assms by (simp_all add: with_defaults_def millisecond_def second_def)
  then show ?thesis unfolding backoff_def by (intro backoff_loop_min)
qed

theorem backoff_doubles_witness:
  "map (backoff demo_config) [0, 1, 2, 10] = [250000000, 500000000, 1000000000, 8000000000]"
proof -
  have b: "backoff demo_config n = min (base_delay demo_config * 2 ^ n) (max_delay demo_config)" for n
    by (rule backoff_doubles [OF demo_config_def]) simp_all
  have "base_delay demo_config = 250000000" "max_delay demo_config = 8000000000"
    by (simp_all add: demo_config_def with_defaults_def millisecond_def second_def)
  then show ?thesis by (simp add: b)
qed

text \<open>An operation in flight whose answer is unknown is failed by the local clock alone: after
  a crash between dispatch and answer, a Submit past the selection window marks the entry
  FAILED_STALE without asking the server, although it may have committed.\<close>

theorem in_flight_expires_unasked:
  "let s = run (queue_step demo_qlib) [] [QEnqueue (demo_op ''a'' ''k1'') 5, QUpdate ((demo_op ''a'' ''k1'')\<lparr>op_state := OpInFlight\<rparr>)];
       (s', out, err) = submit demo_rlib demo_qlib (demo_world demo_replies 200) demo_config ''a'' s
   in out = OutcomeStale \<and> err = None \<and> map_option op_state (get s' ''a'') = Some OpFailedStale
      \<and> map_option retry_count (get s' ''a'') = Some 0"
  by code_simp

text \<open>A Submit that is cancelled between attempts strands its entry: after a 503 whose sleep is
  interrupted the entry stays IN_FLIGHT, which no later drain picks up.\<close>

theorem cancelled_sleep_strands:
  "let (s', out, err) = submit demo_rlib demo_qlib
         ((demo_world demo_replies 6)\<lparr>sleep_err := \<lambda>_ _. Some (plain ''context canceled'')\<rparr>) demo_config ''a'' demo_uncertain
   in err = Some (WContext (plain ''context canceled'')) \<and> map_option op_state (get s' ''a'') = Some OpInFlight
      \<and> peek_pending s' = []"
  by code_simp

end
