(* ===== verification/Store_Tables.thy ===== *)
theory Store_Tables
  imports Source_Activation
begin

text \<open>
  The tables that backend/internal/store reads and writes, with the constraints of
  backend/migrations, and transactions (store.go). A table is a map from its primary key or
  a list of rows; a transaction is a function that returns an error or the new database, and
  an error rolls back. Transactions follow one another, which is what the row locks that the
  code takes give for the rows it reads. Driver and connection errors, commit failures, the
  width of integer columns and the created and updated instants of rows are left out.
\<close>

section \<open>Errors\<close>

datatype st_error =
  ErrVersionConflict | ErrNotFound | ErrInvalidTransition | ErrStayNotFound | ErrCapacityExhausted
| ErrReservationContext | ErrFacilityPackageMismatch | ErrRouteUnavailable | ErrNoStayPolicy
| ErrRouteRequired | ErrStayOutOfPolicy | ErrPayloadConflict | ErrInProgress | ErrGrantInvalid
| ErrNoOperatorGrant | ErrQuarantineTerminal | ErrMFARequired | ErrSessionInvalid
| SnapshotStale int int | ErrNotOwner | ErrInvalidEvent | ErrCrossJurisdiction | ErrNoAuthorization
| ErrConflict | ErrPublicationTrustMissing | ErrPublicationIdentityMismatch msg | ErrPublicationAuthority msg
| ErrDateRangeExceeded | ErrNoScopedContext | ErrNoOperationalContext | StErr msg | Violation string | NoRows | BadJson

section \<open>Rows\<close>

record inv_row =
  capacity :: int
  reserved :: int
  held :: int
  occupied :: int
  inv_version :: int

datatype stay_state = StayReserved | StayArrived | StayDeparted | StayCancelled | StayExpired

fun stay_text :: "stay_state \<Rightarrow> string" where
  "stay_text StayReserved = ''RESERVED''"
| "stay_text StayArrived = ''ARRIVED''"
| "stay_text StayDeparted = ''DEPARTED''"
| "stay_text StayCancelled = ''CANCELLED''"
| "stay_text StayExpired = ''EXPIRED''"

text \<open>Dates are day numbers.\<close>

record stay =
  stay_id :: string
  reservation_id :: string
  stay_session :: string
  stay_facility :: string
  party_size :: int
  start_date :: int
  end_date :: int
  stay_state :: stay_state
  stay_package :: string
  route_id :: "string option"
  stay_version :: int
  expires_at :: "time option"
  transferred_from :: "string option"
  arrived_at :: "time option"
  departed_at :: "time option"

record reservation_row =
  res_session :: string
  res_facility :: string
  service_date :: int
  res_party :: int
  res_state :: stay_state
  res_expires :: "time option"

record db_event =
  ev_id :: string
  ev_time :: time
  ev_actor :: string
  ev_action :: string
  ev_subject :: string
  ev_outcome :: string
  ev_reason :: string
  ev_from :: string
  ev_to :: string

record audit_row =
  ev :: db_event
  prev_hash :: string
  event_hash :: string

datatype key_state = InProgress | Completed | Failed

text \<open>
  A stored result is a flat JSON object of texts and numbers, empty when the column is NULL;
  it is read back as it was written.
\<close>

datatype res_value = RStr string | RInt int

type_synonym tx_result = "(string \<times> res_value) list"

record key_row =
  key_hash :: string
  key_result :: tx_result
  key_state :: key_state
  key_expires :: time

record session_row =
  principal_kind :: string
  sess_jurisdiction :: "string option"
  credential_ref :: string
  sess_expires :: time
  sess_revoked :: "time option"
  mfa_verified_at :: "time option"
  operator_subject :: "string option"
  operator_grant_id :: "string option"

record grant_row =
  grant_subject :: string
  grant_jurisdiction :: string
  granted_by :: string
  grant_created :: time
  grant_expires :: "time option"
  grant_revoked :: "time option"

record facility_row =
  fac_package :: string
  fac_zone :: string

record package_row =
  pkg_source :: string
  pkg_artifact :: string
  pkg_version :: int
  pkg_jurisdiction :: string
  pkg_evidence :: string
  effective_at :: time
  pkg_expires :: time
  superseded_by :: "string option"
  pkg_body :: string

record authorization =
  auth_id :: string
  auth_source :: string
  auth_granted_by :: string
  evidence_ref :: string
  auth_jurisdiction :: string
  granted_at :: time
  auth_expires :: "time option"

record zone_row =
  zone_capacity :: "int option"
  zone_status :: "string option"

record route_row =
  rv_route :: string
  rv_package :: string
  to_safe_zone :: string
  approval :: string
  verified_by :: "string option"
  valid_from :: "time option"
  valid_until :: "time option"

text \<open>
  A published manifest or card. The number is the revision of a manifest, the version of a card;
  a card has no manifest identifier. The source and the jurisdiction of a row may be NULL.
\<close>

record published_row =
  pub_manifest_id :: "string option"
  pub_package :: string
  pub_number :: int
  pub_jurisdiction :: "string option"
  pub_source :: "string option"
  pub_raw :: string
  pub_checksum :: string
  pub_status :: string
  pub_quarantined :: bool

record resource_row =
  rs_content_type :: string
  rs_length :: int
  rs_checksum :: string
  rs_content :: string

record db =
  inventory :: "(string \<times> int, inv_row) gomap"
  reservations :: "(string, reservation_row) gomap"
  stays :: "(string, stay) gomap"
  audit_rows :: "audit_row list"
  idem_keys :: "(string \<times> string \<times> string, key_row) gomap"
  sessions :: "(string, session_row) gomap"
  grants :: "(string, grant_row) gomap"
  facilities :: "(string, facility_row) gomap"
  packages :: "(string, package_row) gomap"
  sources :: "(string, source) gomap"
  authorizations :: "authorization list"
  artifact_evidence :: "(string, string) gomap"
  zone_versions :: "(string \<times> string, zone_row) gomap"
  route_versions :: "route_row list"
  open_closures :: "string list"
  published_manifests :: "published_row list"
  published_cards :: "published_row list"
  published_resources :: "(string, resource_row) gomap"

text \<open>
  What the code takes from elsewhere: SHA-256 in hexadecimal, the RFC 3339 text of an instant,
  the instant that a timestamptz column gives back, and JSON.
\<close>

record sql_lib =
  sha_hex :: "string \<Rightarrow> string"
  rfc3339_nano :: "time \<Rightarrow> string"
  stored_time :: "time \<Rightarrow> time"

section \<open>Transactions\<close>

definition in_tx :: "(db \<Rightarrow> st_error + db \<times> 'a) \<Rightarrow> db \<Rightarrow> db \<times> (st_error + 'a)" where
  "in_tx f d = (case f d of Inl e \<Rightarrow> (d, Inl e) | Inr (d', a) \<Rightarrow> (d', Inr a))"

text \<open>A conditional update of one row: no row that matches is a conflict.\<close>

definition exec_conditional ::
  "bool \<Rightarrow> ('v \<Rightarrow> bool) \<Rightarrow> ('v \<Rightarrow> 'v) \<Rightarrow> 'k \<Rightarrow> ('k, 'v) gomap \<Rightarrow> st_error + ('k, 'v) gomap"
where
  "exec_conditional not_found P f k m =
     (case get m k of
        None \<Rightarrow> Inl (if not_found then ErrNotFound else ErrVersionConflict)
      | Some v \<Rightarrow> if P v then Inr (put k (f v) m) else Inl (if not_found then ErrNotFound else ErrVersionConflict))"

lemma exec_conditional_Inr:
  "exec_conditional nf P f k m = Inr m' \<longleftrightarrow> (\<exists>v. get m k = Some v \<and> P v \<and> m' = put k (f v) m)"
  by (auto simp: exec_conditional_def split: option.splits)

lemma exec_conditional_Inl:
  "exec_conditional False P f k m = Inl e \<Longrightarrow> e = ErrVersionConflict"
  by (auto simp: exec_conditional_def split: option.splits if_splits)

text \<open>Running the steps of a loop until one fails.\<close>

fun each_res :: "('a \<Rightarrow> 's \<Rightarrow> 'e + 's) \<Rightarrow> 'a list \<Rightarrow> 's \<Rightarrow> 'e + 's" where
  "each_res f [] s = Inr s"
| "each_res f (x # xs) s = bind_res (f x s) (each_res f xs)"

lemma each_res_induct:
  assumes "each_res f xs s = Inr s'" "P [] s" "\<And>ys y t t'. xs = ys @ y # drop (Suc (length ys)) xs \<Longrightarrow> P ys t \<Longrightarrow> f y t = Inr t' \<Longrightarrow> P (ys @ [y]) t'"
  shows "P xs s'"
proof -
  have "P (us @ vs) s'" if "each_res f vs t = Inr s'" "P us t" "xs = us @ vs" for us vs t
    using that
  proof (induction vs arbitrary: us t)
    case (Cons v vs)
    then obtain t' where t': "f v t = Inr t'" "each_res f vs t' = Inr s'" by (auto simp: bind_res_Inr)
    have "P (us @ [v]) t'" using assms(3) [OF _ Cons.prems(2) t'(1)] Cons.prems(3) by simp
    then show ?case using Cons.IH [of t' "us @ [v]"] t'(2) Cons.prems(3) by simp
  qed simp
  from this [of xs s "[]"] show ?thesis using assms by simp
qed

section \<open>Sums over the rows of a table\<close>

definition total_of :: "('v \<Rightarrow> int) \<Rightarrow> ('k, 'v) gomap \<Rightarrow> int" where
  "total_of w m = sum_list (map (\<lambda>(k, v). w v) m)"

lemma total_of_Nil [simp]: "total_of w [] = 0"
  by (simp add: total_of_def)

lemma total_of_put:
  "wf_map m \<Longrightarrow> total_of w (put k v m) = total_of w m + w v - (case get m k of None \<Rightarrow> 0 | Some u \<Rightarrow> w u)"
proof (induction m)
  case (Cons x m)
  obtain k' u where x: "x = (k', u)" by (cases x)
  have "wf_map m" using Cons.prems by (simp add: wf_map_def)
  then show ?case using Cons.IH by (simp add: x total_of_def)
qed (simp add: total_of_def)

lemma total_of_zero: "wf_map m \<Longrightarrow> (\<And>k v. get m k = Some v \<Longrightarrow> w v = 0) \<Longrightarrow> total_of w m = 0"
  by (auto simp: total_of_def get_iff_mem intro!: sum_list_nonneg_eq_0_iff [THEN iffD2])

end
