(* ===== verification/Audit_Log.thy ===== *)
theory Audit_Log
  imports Store_Tables
begin

text \<open>
  The append-only audit log with its hash chain, backend/internal/store/audit.go: the record
  of an event with the hash of its predecessor, and the verification of the chain over the
  rows as they are read back. The advisory lock that serialises appends is the order of the
  transactions.
\<close>

section \<open>Recording\<close>

definition genesis_hash :: string where
  "genesis_hash = replicate 64 (CHR ''0'')"

definition event_fields :: "sql_lib \<Rightarrow> db_event \<Rightarrow> string list" where
  "event_fields lib e =
     [ev_id e, rfc3339_nano lib (ev_time e), ev_actor e, ev_action e, ev_subject e, ev_outcome e,
      ev_reason e, ev_from e, ev_to e]"

definition nul :: char where
  "nul = CHR 0x00"

definition compute_event_hash :: "sql_lib \<Rightarrow> string \<Rightarrow> db_event \<Rightarrow> string" where
  "compute_event_hash lib prev e =
     sha_hex lib (prev @ [nul] @ concat (map (\<lambda>f. f @ [nul]) (event_fields lib e)))"

text \<open>The head of the chain: the hash of the last row, an empty one read as none.\<close>

definition chain_head :: "audit_row list \<Rightarrow> string" where
  "chain_head rows =
     (if rows = [] \<or> event_hash (last rows) = [] then genesis_hash else event_hash (last rows))"

text \<open>The event as its row gives it back: an absent text reads as the empty one.\<close>

definition stored_event :: "sql_lib \<Rightarrow> db_event \<Rightarrow> db_event" where
  "stored_event lib e = e\<lparr>ev_time := stored_time lib (ev_time e)\<rparr>"

definition record_row :: "sql_lib \<Rightarrow> db_event \<Rightarrow> audit_row list \<Rightarrow> st_error + audit_row list" where
  "record_row lib e rows =
     (let prev = chain_head rows; sum = compute_event_hash lib prev e
      in require (first_err
           [check (ev_id e \<in> set (map (\<lambda>r. ev_id (ev r)) rows)) (Violation ''audit_events_event_id_key''),
            check (length sum \<noteq> 64) (Violation ''audit_events_event_hash_check'')])
         (rows @ [\<lparr>ev = stored_event lib e, prev_hash = prev, event_hash = sum\<rparr>]))"

definition record_event :: "sql_lib option \<Rightarrow> db_event \<Rightarrow> db \<Rightarrow> st_error + db" where
  "record_event sink e d =
     (case sink of
        None \<Rightarrow> Inr d
      | Some lib \<Rightarrow> bind_res (record_row lib e (audit_rows d)) (\<lambda>rows. Inr (d\<lparr>audit_rows := rows\<rparr>)))"

section \<open>Verifying\<close>

fun verify_rows :: "sql_lib \<Rightarrow> string \<Rightarrow> audit_row list \<Rightarrow> msg option" where
  "verify_rows lib prev [] = None"
| "verify_rows lib prev (r # rs) =
     (if prev_hash r \<noteq> prev then Some (Fmt ''store: audit chain break before event %s'' [AStr (ev_id (ev r))])
      else if compute_event_hash lib (prev_hash r) (ev r) \<noteq> event_hash r
      then Some (Fmt ''store: audit event %s hash mismatch'' [AStr (ev_id (ev r))])
      else verify_rows lib (event_hash r) rs)"

definition verify_chain :: "sql_lib \<Rightarrow> audit_row list \<Rightarrow> msg option" where
  "verify_chain lib rows = verify_rows lib genesis_hash rows"

section \<open>The log as a sequence of records\<close>

definition log_step :: "sql_lib \<Rightarrow> audit_row list \<Rightarrow> db_event \<Rightarrow> audit_row list" where
  "log_step lib rows e = (case record_row lib e rows of Inl _ \<Rightarrow> rows | Inr rows' \<Rightarrow> rows')"

text \<open>The rows link to one another and every hash has its length.\<close>

definition linked :: "sql_lib \<Rightarrow> audit_row list \<Rightarrow> bool" where
  "linked lib rows \<longleftrightarrow> distinct (map (\<lambda>r. ev_id (ev r)) rows) \<and> (\<forall>r \<in> set rows. length (event_hash r) = 64)
     \<and> (\<forall>us r vs. rows = us @ r # vs \<longrightarrow> prev_hash r = chain_head us)"

lemma chain_head_Nil [simp]: "chain_head [] = genesis_hash"
  by (simp add: chain_head_def)

lemma record_row_cases:
  obtains (refused) e' where "record_row lib e rows = Inl e'"
    | (added) r where "record_row lib e rows = Inr (rows @ [r])" "ev r = stored_event lib e"
      "prev_hash r = chain_head rows" "event_hash r = compute_event_hash lib (chain_head rows) e"
      "length (event_hash r) = 64" "ev_id e \<notin> set (map (\<lambda>r. ev_id (ev r)) rows)"
proof (cases "record_row lib e rows")
  case (Inl e')
  then show thesis by (rule refused)
next
  case (Inr rows')
  then show thesis
    by (intro added [of "\<lparr>ev = stored_event lib e, prev_hash = chain_head rows,
        event_hash = compute_event_hash lib (chain_head rows) e\<rparr>"])
      (auto simp: record_row_def Let_def check_simps)
qed

lemma linked_snoc:
  assumes "linked lib rows" "ev_id (ev r) \<notin> set (map (\<lambda>r. ev_id (ev r)) rows)" "length (event_hash r) = 64"
    "prev_hash r = chain_head rows"
  shows "linked lib (rows @ [r])"
proof -
  have "prev_hash r' = chain_head us" if "rows @ [r] = us @ r' # vs" for us r' vs
  proof (cases vs rule: rev_cases)
    case Nil
    then show ?thesis using that assms(4) by simp
  next
    case (snoc ws w)
    then have "rows = us @ r' # ws" using that by simp
    then show ?thesis using assms(1) unfolding linked_def by blast
  qed
  then show ?thesis using assms(1-3) unfolding linked_def by auto
qed

lemma linked_step: "linked lib rows \<Longrightarrow> linked lib (log_step lib rows e)"
proof (cases rule: record_row_cases [of lib e rows])
  case (refused e')
  assume "linked lib rows"
  then show ?thesis using refused by (simp add: log_step_def)
next
  case (added r)
  assume "linked lib rows"
  then show ?thesis
    using linked_snoc [of lib rows r] added by (simp add: log_step_def stored_event_def)
qed

interpretation log: event_system "log_step lib" "linked lib" for lib
  by unfold_locales (rule linked_step)

lemma linked_Nil [simp]: "linked lib []"
  by (simp add: linked_def)

lemma chain_head_snoc: "length (event_hash r) = 64 \<Longrightarrow> chain_head (rows @ [r]) = event_hash r"
  by (auto simp: chain_head_def)

lemma verify_rows_append:
  "verify_rows lib p (rs @ ss) =
     (case verify_rows lib p rs of
        Some e \<Rightarrow> Some e
      | None \<Rightarrow> verify_rows lib (if rs = [] then p else event_hash (last rs)) ss)"
proof (induction rs arbitrary: p)
  case (Cons r rs)
  then show ?case by (cases "rs = []") (simp_all split: option.split)
qed simp

text \<open>Verification succeeds exactly when every row is linked and hashes to its own hash.\<close>

lemma verify_linked:
  assumes "linked lib rows"
  shows "verify_chain lib rows = None \<longleftrightarrow>
    (\<forall>r \<in> set rows. compute_event_hash lib (prev_hash r) (ev r) = event_hash r)"
  using assms
proof (induction rows rule: rev_induct)
  case Nil
  then show ?case by (simp add: verify_chain_def)
next
  case (snoc r rows)
  have l: "linked lib rows"
    using snoc.prems unfolding linked_def by (metis (no_types, lifting) Un_iff append.assoc append_Cons
        distinct_append map_append set_append)
  have h: "prev_hash r = chain_head rows" using snoc.prems unfolding linked_def by blast
  have "\<forall>x \<in> set rows. length (event_hash x) = 64" using l unfolding linked_def by blast
  then have "event_hash (last rows) \<noteq> []" if "rows \<noteq> []" using that last_in_set by fastforce
  then have "(if rows = [] then genesis_hash else event_hash (last rows)) = chain_head rows"
    by (simp add: chain_head_def)
  then show ?case
    using snoc.IH [OF l] h by (auto simp: verify_chain_def verify_rows_append split: option.splits)
qed


lemma run_faithful:
  assumes "\<forall>e \<in> set es. stored_time lib (ev_time e) = ev_time e"
  shows "\<forall>r \<in> set (run (log_step lib) [] es). compute_event_hash lib (prev_hash r) (ev r) = event_hash r"
  using assms
proof (induction es rule: rev_induct)
  case (snoc e es)
  let ?rows = "run (log_step lib) [] es"
  have s: "stored_event lib e = e" using snoc.prems by (simp add: stored_event_def)
  show ?case
  proof (cases rule: record_row_cases [of lib e ?rows])
    case (refused e')
    then have "run (log_step lib) [] (es @ [e]) = ?rows" by (simp add: log_step_def [of lib ?rows])
    then show ?thesis using snoc by simp
  next
    case (added r)
    then have "run (log_step lib) [] (es @ [e]) = ?rows @ [r]" by (simp add: log_step_def [of lib ?rows])
    then show ?thesis using snoc added s by simp
  qed
qed simp

section \<open>What the chain binds\<close>

definition clean_row :: "sql_lib \<Rightarrow> audit_row \<Rightarrow> bool" where
  "clean_row lib r \<longleftrightarrow> nul \<notin> set (prev_hash r) \<and> (\<forall>f \<in> set (event_fields lib (ev r)). nul \<notin> set f)"

definition hashed_text :: "sql_lib \<Rightarrow> audit_row \<Rightarrow> string" where
  "hashed_text lib r = prev_hash r @ [nul] @ concat (map (\<lambda>f. f @ [nul]) (event_fields lib (ev r)))"

lemma compute_hashed_text: "compute_event_hash lib (prev_hash r) (ev r) = sha_hex lib (hashed_text lib r)"
  by (simp add: compute_event_hash_def hashed_text_def)

lemma first_terminator: "f @ z # x = g @ z # y \<Longrightarrow> z \<notin> set f \<Longrightarrow> z \<notin> set g \<Longrightarrow> f = g \<and> x = y"
proof (induction f arbitrary: g)
  case Nil
  then show ?case by (cases g) auto
next
  case (Cons a f)
  then show ?case by (cases g) auto
qed

lemma terminated_inj:
  assumes "concat (map (\<lambda>f. f @ [z]) fs) = concat (map (\<lambda>f. f @ [z]) gs)"
    "\<forall>f \<in> set fs. z \<notin> set f" "\<forall>g \<in> set gs. z \<notin> set g"
  shows "fs = gs"
  using assms
proof (induction fs arbitrary: gs)
  case Nil
  then show ?case by (cases gs) auto
next
  case (Cons f fs)
  then obtain g gs' where g: "gs = g # gs'" by (cases gs) auto
  have "z \<notin> set f" "z \<notin> set g" using Cons.prems g by simp_all
  then have "f = g \<and> concat (map (\<lambda>f. f @ [z]) fs) = concat (map (\<lambda>f. f @ [z]) gs')"
    using Cons.prems(1) first_terminator [of f z _ g] g by simp
  then show ?case using Cons.IH [of gs'] Cons.prems g by simp
qed

lemma hashed_text_inj:
  assumes "hashed_text lib r = hashed_text lib s" "clean_row lib r" "clean_row lib s"
    and time: "inj (rfc3339_nano lib)"
  shows "prev_hash r = prev_hash s \<and> ev r = ev s"
proof -
  let ?c = "\<lambda>x. concat (map (\<lambda>f. f @ [nul]) (prev_hash x # event_fields lib (ev x)))"
  have "?c r = ?c s" using assms(1) by (simp add: hashed_text_def)
  then have "prev_hash r # event_fields lib (ev r) = prev_hash s # event_fields lib (ev s)"
    by (rule terminated_inj) (use assms(2,3) in \<open>auto simp: clean_row_def\<close>)
  then show ?thesis
    using injD [OF time] by (auto simp: event_fields_def intro: db_event.equality)
qed

lemma verified_snoc:
  "verify_chain lib (rows @ [r]) = None \<longleftrightarrow> verify_chain lib rows = None
     \<and> prev_hash r = (if rows = [] then genesis_hash else event_hash (last rows))
     \<and> sha_hex lib (hashed_text lib r) = event_hash r"
proof -
  let ?p = "if rows = [] then genesis_hash else event_hash (last rows)"
  have one: "verify_rows lib p [r] = None \<longleftrightarrow> prev_hash r = p \<and> sha_hex lib (hashed_text lib r) = event_hash r" for p
    using compute_hashed_text [of lib r] by auto
  show ?thesis
    unfolding verify_chain_def verify_rows_append using one [of ?p]
    by (cases "verify_rows lib genesis_hash rows") simp_all
qed

section \<open>Demonstration values\<close>

text \<open>
  A stand-in for SHA-256 that keeps 64 characters of the text after the first field, a text
  of instants that tells whole microseconds from others, and a column that keeps whole
  microseconds; and a library that hashes without collisions.
\<close>

definition demo_sql :: sql_lib where
  "demo_sql = \<lparr>sha_hex = (\<lambda>s. take 64 (drop 65 s @ replicate 64 (CHR ''0''))),
     rfc3339_nano = (\<lambda>t. if t mod 1000 = 0 then ''whole'' else ''part''), stored_time = (\<lambda>t. t div 1000 * 1000)\<rparr>"

definition unary_sql :: sql_lib where
  "unary_sql = \<lparr>sha_hex = (\<lambda>s. s),
     rfc3339_nano = (\<lambda>t. (if t < 0 then ''-'' else []) @ replicate (nat \<bar>t\<bar>) (CHR ''x'')), stored_time = (\<lambda>t. t)\<rparr>"

definition demo_event :: "string \<Rightarrow> time \<Rightarrow> db_event" where
  "demo_event i t = \<lparr>ev_id = i, ev_time = t, ev_actor = ''s'', ev_action = ''STAY_ARRIVE'', ev_subject = ''x'',
     ev_outcome = ''OK'', ev_reason = [], ev_from = ''RESERVED'', ev_to = ''ARRIVED''\<rparr>"

definition unary_row :: "string \<Rightarrow> audit_row" where
  "unary_row i = \<lparr>ev = demo_event i 1, prev_hash = genesis_hash,
     event_hash = compute_event_hash unary_sql genesis_hash (demo_event i 1)\<rparr>"

lemma inj_unary: "inj (rfc3339_nano unary_sql)"
proof (rule injI)
  fix a b
  assume "rfc3339_nano unary_sql a = rfc3339_nano unary_sql b"
  then have e: "(if a < 0 then ''-'' else []) @ replicate (nat \<bar>a\<bar>) (CHR ''x'')
      = (if b < 0 then ''-'' else []) @ replicate (nat \<bar>b\<bar>) (CHR ''x'')"
    by (simp add: unary_sql_def)
  have sign: "a < 0 \<longleftrightarrow> b < 0"
    using e by (cases "nat \<bar>a\<bar>"; cases "nat \<bar>b\<bar>") (auto split: if_splits)
  with e have "replicate (nat \<bar>a\<bar>) (CHR ''x'') = replicate (nat \<bar>b\<bar>) (CHR ''x'')" by (auto split: if_splits)
  then have "nat \<bar>a\<bar> = nat \<bar>b\<bar>" by simp
  with sign show "a = b" by auto
qed

definition demo_log :: "audit_row list" where
  "demo_log = run (log_step demo_sql) [] [demo_event ''e1'' 5000, demo_event ''e2'' 7000]"

section \<open>Properties\<close>

text \<open>C35: Whatever is recorded, the chain verifies as long as the column gives instants back as they
  were written: every log that Record built from an empty one passes VerifyChain.\<close>

theorem audit_chain_verifies:
  assumes "\<forall>e \<in> set es. stored_time lib (ev_time e) = ev_time e"
  shows "verify_chain lib (run (log_step lib) [] es) = None"
  using verify_linked [OF log.inv_run [OF linked_Nil]] run_faithful [OF assms] by blast

theorem audit_chain_verifies_witness:
  "verify_chain demo_sql demo_log = None \<and> length demo_log = 2"
proof
  show "verify_chain demo_sql demo_log = None"
    unfolding demo_log_def by (rule audit_chain_verifies) (simp add: demo_event_def demo_sql_def)
qed code_simp

text \<open>The head of the chain binds the whole log: two logs of the same length that both pass
  VerifyChain and end in the same hash hold the same events, unless two different hashed texts
  of their rows collide. Texts of the columns contain no NUL.\<close>

theorem audit_head_binds_log:
  assumes "verify_chain lib rows = None" and "verify_chain lib rows' = None"
    and "length rows = length rows'" and "rows \<noteq> [] \<Longrightarrow> event_hash (last rows) = event_hash (last rows')"
    and "inj_on (sha_hex lib) (hashed_text lib ` (set rows \<union> set rows'))" and "inj (rfc3339_nano lib)"
    and "\<forall>r \<in> set rows \<union> set rows'. clean_row lib r"
  shows "rows = rows'"
  using assms(1-5,7)
proof (induction rows arbitrary: rows' rule: rev_induct)
  case Nil
  then show ?case by simp
next
  case (snoc r rs)
  then obtain ss s where s: "rows' = ss @ [s]" by (cases rows' rule: rev_cases) auto
  have len: "length rs = length ss" using snoc.prems(3) s by simp
  have v: "verify_chain lib rs = None" "verify_chain lib ss = None"
    "prev_hash r = (if rs = [] then genesis_hash else event_hash (last rs))"
    "prev_hash s = (if ss = [] then genesis_hash else event_hash (last ss))"
    "sha_hex lib (hashed_text lib r) = event_hash r" "sha_hex lib (hashed_text lib s) = event_hash s"
    using snoc.prems(1,2) s by (auto simp: verified_snoc)
  have h: "event_hash r = event_hash s" using snoc.prems(4) s by simp
  have "hashed_text lib r = hashed_text lib s"
    by (rule inj_onD [OF snoc.prems(5)]) (use v(5,6) h s in simp_all)
  moreover have "clean_row lib r" "clean_row lib s" using snoc.prems(6) s by simp_all
  ultimately have rs: "prev_hash r = prev_hash s" "ev r = ev s"
    using hashed_text_inj [of lib r s] assms(6) by blast+
  then have "r = s" using h by (intro audit_row.equality) simp_all
  moreover have "rs = ss"
  proof (rule snoc.IH [OF v(1,2) len])
    show "event_hash (last rs) = event_hash (last ss)" if "rs \<noteq> []"
      using that v(3,4) rs(1) len by (cases "ss = []") simp_all
    show "inj_on (sha_hex lib) (hashed_text lib ` (set rs \<union> set ss))"
      by (rule inj_on_subset [OF snoc.prems(5)]) (use s in auto)
    show "\<forall>r \<in> set rs \<union> set ss. clean_row lib r" using snoc.prems(6) s by auto
  qed
  ultimately show ?case using s by simp
qed

theorem audit_head_binds_log_witness:
  "event_hash (unary_row ''e1'') \<noteq> event_hash (unary_row ''e2'')"
proof
  assume "event_hash (unary_row ''e1'') = event_hash (unary_row ''e2'')"
  then have h: "event_hash (last [unary_row ''e1'']) = event_hash (last [unary_row ''e2''])" by simp
  have v: "verify_chain unary_sql [unary_row ''e1''] = None" "verify_chain unary_sql [unary_row ''e2''] = None"
    by code_simp+
  have c: "\<forall>r \<in> set [unary_row ''e1''] \<union> set [unary_row ''e2'']. clean_row unary_sql r" by code_simp
  have "[unary_row ''e1''] = [unary_row ''e2'']"
    by (rule audit_head_binds_log [OF v(1,2) _ _ _ inj_unary c]) (use h in \<open>simp_all add: unary_sql_def\<close>)
  then show False by (simp add: unary_row_def demo_event_def)
qed

text \<open>An event recorded between two microseconds breaks the chain: when its instant reads back
  as another one and the two hash differently, VerifyChain rejects a log that nobody touched.\<close>

theorem audit_subsecond_breaks:
  assumes "record_row lib e rows = Inr rows'" and "linked lib rows"
    and "compute_event_hash lib (chain_head rows) (stored_event lib e) \<noteq> compute_event_hash lib (chain_head rows) e"
  shows "verify_chain lib rows' \<noteq> None"
proof -
  obtain r where r: "rows' = rows @ [r]" "ev r = stored_event lib e" "prev_hash r = chain_head rows"
      "event_hash r = compute_event_hash lib (chain_head rows) e" "length (event_hash r) = 64"
      "ev_id e \<notin> set (map (\<lambda>r. ev_id (ev r)) rows)"
    by (cases rule: record_row_cases [of lib e rows]) (use assms(1) in auto)
  have "linked lib rows'"
    using linked_snoc [OF assms(2), of r] r by (simp add: stored_event_def)
  from verify_linked [OF this] show ?thesis using r assms(3) by auto
qed

theorem audit_subsecond_breaks_witness:
  "verify_chain demo_sql (run (log_step demo_sql) [] [demo_event ''e1'' 5001]) \<noteq> None"
proof -
  let ?rows = "run (log_step demo_sql) [] [demo_event ''e1'' 5001]"
  have "record_row demo_sql (demo_event ''e1'' 5001) [] = Inr ?rows" by code_simp
  moreover have "compute_event_hash demo_sql (chain_head []) (stored_event demo_sql (demo_event ''e1'' 5001))
      \<noteq> compute_event_hash demo_sql (chain_head []) (demo_event ''e1'' 5001)" by code_simp
  ultimately show ?thesis by (intro audit_subsecond_breaks [OF _ linked_Nil])
qed

end
