(* ===== verification/Stay_Store.thy ===== *)
theory Stay_Store
  imports Audit_Log
begin

text \<open>
  The stay lifecycle over date-range capacity, backend/internal/store/stay.go, with the P3
  reservation of reservation.go and the expiry worker of expiry.go. Every operation returns
  an error or the database it commits; the audit sink is the argument \<open>sink\<close>, none when nil.
\<close>

section \<open>Inventory\<close>

text \<open>The dates of a half-open interval.\<close>

function date_range :: "int \<Rightarrow> int \<Rightarrow> int list" where
  "date_range s e = (if s < e then s # date_range (s + 1) e else [])"
  by pat_completeness auto
termination by (relation "measure (\<lambda>(s, e). nat (e - s))") auto

declare date_range.simps [simp del]

fun lock_inventory :: "string \<Rightarrow> int list \<Rightarrow> db \<Rightarrow> st_error option" where
  "lock_inventory f [] d = None"
| "lock_inventory f (x # xs) d =
     (if get (inventory d) (f, x) = None
      then Some (StErr (Fmt ''store: no inventory for facility %s on %s'' [AStr f, AInt x]))
      else lock_inventory f xs d)"

definition room :: "int \<Rightarrow> int \<Rightarrow> inv_row \<Rightarrow> bool" where
  "room h o' r \<longleftrightarrow> 0 \<le> held r + h \<and> 0 \<le> occupied r + o' \<and> held r + h + occupied r + o' \<le> capacity r"

definition shift_row :: "int \<Rightarrow> int \<Rightarrow> inv_row \<Rightarrow> inv_row" where
  "shift_row h o' r = r\<lparr>held := held r + h, occupied := occupied r + o', inv_version := inv_version r + 1\<rparr>"

definition adjust_inventory :: "string \<Rightarrow> int \<Rightarrow> int \<Rightarrow> int \<Rightarrow> db \<Rightarrow> st_error + db" where
  "adjust_inventory f h o' x d =
     bind_res (exec_conditional False (room h o') (shift_row h o') (f, x) (inventory d))
       (\<lambda>m. Inr (d\<lparr>inventory := m\<rparr>))"

definition adjust_dates :: "string \<Rightarrow> int \<Rightarrow> int \<Rightarrow> int list \<Rightarrow> db \<Rightarrow> st_error + db" where
  "adjust_dates f h o' xs d = each_res (adjust_inventory f h o') xs d"

text \<open>Taking space: a date without room is a capacity conflict.\<close>

fun as_exhausted :: "st_error + 'a \<Rightarrow> st_error + 'a" where
  "as_exhausted (Inl ErrVersionConflict) = Inl ErrCapacityExhausted"
| "as_exhausted r = r"

section \<open>Rows and their audit\<close>

definition audit_event_id :: "string \<Rightarrow> string \<Rightarrow> string \<Rightarrow> string \<Rightarrow> string" where
  "audit_event_id subject act actor key =
     join_byte (CHR '':'') ([subject, act, actor] @ (if key \<noteq> [] then [key] else []))"

definition stay_event ::
  "string \<Rightarrow> string \<Rightarrow> string \<Rightarrow> string \<Rightarrow> string \<Rightarrow> string \<Rightarrow> time \<Rightarrow> string \<Rightarrow> db_event"
where
  "stay_event sid actor act rsn from' to' now key =
     \<lparr>ev_id = audit_event_id sid act actor key, ev_time = now, ev_actor = actor, ev_action = act,
      ev_subject = sid, ev_outcome = ''OK'', ev_reason = rsn, ev_from = from', ev_to = to'\<rparr>"

definition record_stay ::
  "sql_lib option \<Rightarrow> string \<Rightarrow> string \<Rightarrow> string \<Rightarrow> string \<Rightarrow> string \<Rightarrow> time \<Rightarrow> string \<Rightarrow> db \<Rightarrow> st_error + db"
where
  "record_stay sink sid sess act from' to' now key d =
     record_event sink (stay_event sid sess act [] from' to' now key) d"

definition insert_reservation :: "string \<Rightarrow> reservation_row \<Rightarrow> db \<Rightarrow> st_error + db" where
  "insert_reservation rid r d = require (first_err
     [check (res_party r < 1) (Violation ''reservations_party_size_check''),
      check (has_key (reservations d) rid) (Violation ''reservations_pkey''),
      check (\<not> has_key (sessions d) (res_session r)) (Violation ''reservations_session_id_fkey'')])
     (d\<lparr>reservations := put rid r (reservations d)\<rparr>)"

definition insert_stay :: "stay \<Rightarrow> db \<Rightarrow> st_error + db" where
  "insert_stay st d = require (first_err
     [check (party_size st < 1) (Violation ''stays_party_size_check''),
      check (end_date st \<le> start_date st) (Violation ''stays_check''),
      check (has_key (stays d) (stay_id st)) (Violation ''stays_pkey''),
      check (\<not> has_key (reservations d) (reservation_id st)) (Violation ''stays_reservation_id_fkey''),
      check (\<not> has_key (sessions d) (stay_session st)) (Violation ''stays_session_id_fkey''),
      check (\<not> has_key (facilities d) (stay_facility st)) (Violation ''stays_facility_id_fkey''),
      check (\<not> has_key (packages d) (stay_package st)) (Violation ''stays_package_id_fkey'')])
     (d\<lparr>stays := put (stay_id st) st (stays d)\<rparr>)"

definition get_stay :: "db \<Rightarrow> string \<Rightarrow> st_error + stay" where
  "get_stay d sid = (case get (stays d) sid of None \<Rightarrow> Inl ErrStayNotFound | Some st \<Rightarrow> Inr st)"

text \<open>The guarded update of a stay's row: only at the version that was read.\<close>

definition update_stay :: "string \<Rightarrow> int \<Rightarrow> (stay \<Rightarrow> stay) \<Rightarrow> db \<Rightarrow> st_error + db" where
  "update_stay sid v f d =
     bind_res (exec_conditional False (\<lambda>st. stay_version st = v)
         (\<lambda>st. (f st)\<lparr>stay_version := stay_version st + 1\<rparr>) sid (stays d))
       (\<lambda>m. Inr (d\<lparr>stays := m\<rparr>))"

definition set_state :: "string \<Rightarrow> int \<Rightarrow> stay_state \<Rightarrow> db \<Rightarrow> st_error + db" where
  "set_state sid v target d = update_stay sid v (\<lambda>st. st\<lparr>stay_state := target\<rparr>) d"

text \<open>An unconditional update of a stay's row.\<close>

definition touch_stay :: "string \<Rightarrow> (stay \<Rightarrow> stay) \<Rightarrow> db \<Rightarrow> db" where
  "touch_stay sid f d =
     (case get (stays d) sid of None \<Rightarrow> d | Some st \<Rightarrow> d\<lparr>stays := put sid (f st) (stays d)\<rparr>)"

definition stay_dates :: "stay \<Rightarrow> int list" where
  "stay_dates st = date_range (start_date st) (end_date st)"

section \<open>Operations\<close>

definition lock_dates :: "string \<Rightarrow> int list \<Rightarrow> db \<Rightarrow> st_error + db" where
  "lock_dates f xs d = require (lock_inventory f xs d) d"

definition new_row :: "stay \<Rightarrow> stay" where
  "new_row st = st\<lparr>stay_state := StayReserved, stay_version := 1, transferred_from := None,
     arrived_at := None, departed_at := None\<rparr>"

definition reserve :: "sql_lib option \<Rightarrow> stay \<Rightarrow> time \<Rightarrow> string \<Rightarrow> db \<Rightarrow> st_error + db" where
  "reserve sink st now key d =
     (let dates = stay_dates st
      in if dates = [] then Inl (StErr (plain ''store: stay interval is empty''))
         else bind_res (lock_dates (stay_facility st) dates d) (\<lambda>d1.
              bind_res (as_exhausted (adjust_dates (stay_facility st) (party_size st) 0 dates d1)) (\<lambda>d2.
              bind_res (insert_stay (new_row st) d2) (\<lambda>d3.
              record_stay sink (stay_id st) (stay_session st) ''STAY_RESERVE'' [] ''RESERVED'' now key d3))))"

definition due :: "time \<Rightarrow> stay \<Rightarrow> bool" where
  "due now st \<longleftrightarrow> (case expires_at st of None \<Rightarrow> False | Some t \<Rightarrow> t \<le> now)"

definition arrive :: "sql_lib option \<Rightarrow> string \<Rightarrow> time \<Rightarrow> string \<Rightarrow> db \<Rightarrow> st_error + db" where
  "arrive sink sid now key d =
     bind_res (get_stay d sid) (\<lambda>st.
       if stay_state st \<noteq> StayReserved then Inl ErrInvalidTransition
       else if due now st then Inl ErrInvalidTransition
       else bind_res (lock_dates (stay_facility st) (stay_dates st) d) (\<lambda>d1.
            bind_res (adjust_dates (stay_facility st) (- party_size st) (party_size st) (stay_dates st) d1) (\<lambda>d2.
            bind_res (set_state sid (stay_version st) StayArrived d2) (\<lambda>d3.
            record_stay sink sid (stay_session st) ''STAY_ARRIVE'' ''RESERVED'' ''ARRIVED'' now key
              (touch_stay sid (\<lambda>st. st\<lparr>arrived_at := Some now\<rparr>) d3)))))"

definition release_held :: "stay \<Rightarrow> db \<Rightarrow> st_error + db" where
  "release_held st d =
     bind_res (lock_dates (stay_facility st) (stay_dates st) d)
       (adjust_dates (stay_facility st) (- party_size st) 0 (stay_dates st))"

definition cancel :: "sql_lib option \<Rightarrow> string \<Rightarrow> time \<Rightarrow> string \<Rightarrow> db \<Rightarrow> st_error + db" where
  "cancel sink sid now key d =
     bind_res (get_stay d sid) (\<lambda>st.
       if stay_state st \<noteq> StayReserved then Inl ErrInvalidTransition
       else bind_res (release_held st d) (\<lambda>d1.
            bind_res (set_state sid (stay_version st) StayCancelled d1) (\<lambda>d2.
            record_stay sink sid (stay_session st) ''STAY_CANCEL'' ''RESERVED'' ''CANCELLED'' now key d2)))"

definition expire :: "sql_lib option \<Rightarrow> string \<Rightarrow> time \<Rightarrow> string \<Rightarrow> db \<Rightarrow> st_error + db" where
  "expire sink sid now key d =
     bind_res (get_stay d sid) (\<lambda>st.
       if stay_state st \<noteq> StayReserved then Inl ErrInvalidTransition
       else if \<not> due now st then Inl ErrInvalidTransition
       else bind_res (release_held st d) (\<lambda>d1.
            bind_res (set_state sid (stay_version st) StayExpired d1) (\<lambda>d2.
            record_stay sink sid (stay_session st) ''STAY_EXPIRE'' ''RESERVED'' ''EXPIRED'' now key d2)))"

definition depart :: "sql_lib option \<Rightarrow> string \<Rightarrow> time \<Rightarrow> string \<Rightarrow> db \<Rightarrow> st_error + db" where
  "depart sink sid now key d =
     bind_res (get_stay d sid) (\<lambda>st.
       if stay_state st \<noteq> StayArrived then Inl ErrInvalidTransition
       else bind_res (lock_dates (stay_facility st) (stay_dates st) d) (\<lambda>d1.
            bind_res (adjust_dates (stay_facility st) 0 (- party_size st) (stay_dates st) d1) (\<lambda>d2.
            bind_res (set_state sid (stay_version st) StayDeparted d2) (\<lambda>d3.
            record_stay sink sid (stay_session st) ''STAY_DEPART'' ''ARRIVED'' ''DEPARTED'' now key
              (touch_stay sid (\<lambda>st. st\<lparr>departed_at := Some now\<rparr>) d3)))))"

text \<open>The bucket of a live stay: a change of n spaces as the pair of its deltas.\<close>

definition in_bucket :: "stay \<Rightarrow> int \<Rightarrow> int \<times> int" where
  "in_bucket st n = (if stay_state st = StayArrived then (0, n) else (n, 0))"

definition is_live :: "stay \<Rightarrow> bool" where
  "is_live st \<longleftrightarrow> stay_state st = StayReserved \<or> stay_state st = StayArrived"

definition extend :: "sql_lib option \<Rightarrow> string \<Rightarrow> int \<Rightarrow> time \<Rightarrow> string \<Rightarrow> db \<Rightarrow> st_error + db" where
  "extend sink sid new_end now key d =
     bind_res (get_stay d sid) (\<lambda>st.
       if \<not> is_live st then Inl ErrInvalidTransition
       else if new_end \<le> end_date st then Inl (StErr (plain ''store: extension must lengthen the stay''))
       else let added = date_range (end_date st) new_end; (h, o') = in_bucket st (party_size st)
            in bind_res (lock_dates (stay_facility st) added d) (\<lambda>d1.
               bind_res (as_exhausted (adjust_dates (stay_facility st) h o' added d1)) (\<lambda>d2.
               bind_res (update_stay sid (stay_version st) (\<lambda>st. st\<lparr>end_date := new_end\<rparr>) d2) (\<lambda>d3.
               record_stay sink sid (stay_session st) ''STAY_EXTEND'' (stay_text (stay_state st))
                 (stay_text (stay_state st)) now key d3))))"

text \<open>The rows that a transfer inserts.\<close>

definition transfer_reservation :: "stay \<Rightarrow> string \<Rightarrow> reservation_row" where
  "transfer_reservation st new_fac =
     \<lparr>res_session = stay_session st, res_facility = new_fac, service_date = start_date st,
      res_party = party_size st, res_state = StayReserved, res_expires = None\<rparr>"

definition transfer_stay ::
  "stay \<Rightarrow> string \<Rightarrow> string \<Rightarrow> string \<Rightarrow> string option \<Rightarrow> time option \<Rightarrow> stay"
where
  "transfer_stay st new_sid new_rid new_fac new_route new_exp =
     st\<lparr>stay_id := new_sid, reservation_id := new_rid, stay_facility := new_fac, stay_state := StayReserved,
        route_id := new_route, transferred_from := Some (stay_id st), stay_version := 1,
        expires_at := new_exp, arrived_at := None, departed_at := None\<rparr>"

definition transfer ::
  "sql_lib option \<Rightarrow> string \<Rightarrow> string \<Rightarrow> string \<Rightarrow> string \<Rightarrow> string option \<Rightarrow> time option \<Rightarrow> time \<Rightarrow> string
     \<Rightarrow> db \<Rightarrow> st_error + db"
where
  "transfer sink sid new_sid new_rid new_fac new_route new_exp now key d =
     bind_res (get_stay d sid) (\<lambda>st.
       if \<not> is_live st then Inl ErrInvalidTransition
       else let dates = stay_dates st; (h, o') = in_bucket st (- party_size st);
                (f1, f2) = (if new_fac < stay_facility st then (new_fac, stay_facility st) else (stay_facility st, new_fac))
            in bind_res (lock_dates f1 dates d) (\<lambda>d1.
               bind_res (lock_dates f2 dates d1) (\<lambda>d2.
               bind_res (as_exhausted (adjust_dates new_fac (party_size st) 0 dates d2)) (\<lambda>d3.
               bind_res (insert_reservation new_rid (transfer_reservation st new_fac) d3) (\<lambda>d4.
               bind_res (insert_stay (transfer_stay st new_sid new_rid new_fac new_route new_exp) d4) (\<lambda>d5.
               bind_res (adjust_dates (stay_facility st) h o' dates d5) (\<lambda>d6.
               bind_res (set_state sid (stay_version st) StayDeparted d6) (\<lambda>d7.
               bind_res (record_stay sink sid (stay_session st) ''STAY_TRANSFER_OUT'' (stay_text (stay_state st))
                           ''DEPARTED'' now key d7) (\<lambda>d8.
               record_stay sink new_sid (stay_session st) ''STAY_TRANSFER_IN'' [] ''RESERVED'' now key d8)))))))))"

definition correct ::
  "sql_lib option \<Rightarrow> string \<Rightarrow> int \<Rightarrow> string \<Rightarrow> string \<Rightarrow> time \<Rightarrow> string \<Rightarrow> db \<Rightarrow> st_error + db"
where
  "correct sink sid n operator rsn now key d =
     bind_res (get_stay d sid) (\<lambda>st.
       if \<not> is_live st then Inl ErrInvalidTransition
       else if n < 1 then Inl (StErr (plain ''store: corrected party size must be at least 1''))
       else if party_size st < n then Inl (StErr (plain ''store: operator correction cannot increase party size''))
       else if n = party_size st then Inr d
       else let (h, o') = in_bucket st (n - party_size st)
            in bind_res (lock_dates (stay_facility st) (stay_dates st) d) (\<lambda>d1.
               bind_res (adjust_dates (stay_facility st) h o' (stay_dates st) d1) (\<lambda>d2.
               bind_res (update_stay sid (stay_version st) (\<lambda>st. st\<lparr>party_size := n\<rparr>) d2) (\<lambda>d3.
               record_event sink (stay_event sid operator ''STAY_CORRECT'' rsn (stay_text (stay_state st))
                 (stay_text (stay_state st)) now key) d3))))"

section \<open>Inventory rows and the reservation of P3\<close>

definition ensure_inventory :: "string \<Rightarrow> int \<Rightarrow> int \<Rightarrow> db \<Rightarrow> st_error + db" where
  "ensure_inventory f x cap d =
     (if cap < 0 then Inl (Violation ''facility_inventory_capacity_check'')
      else if has_key (inventory d) (f, x) then Inr d
      else Inr (d\<lparr>inventory := put (f, x) \<lparr>capacity = cap, reserved = 0, held = 0, occupied = 0, inv_version = 1\<rparr> (inventory d)\<rparr>))"

definition reserve_p3 :: "sql_lib option \<Rightarrow> string \<Rightarrow> reservation_row \<Rightarrow> time \<Rightarrow> int \<Rightarrow> db \<Rightarrow> st_error + db" where
  "reserve_p3 sink rid r now v d =
     (let k = (res_facility r, service_date r)
      in case exec_conditional False (\<lambda>row. inv_version row = v \<and> reserved row + res_party r \<le> capacity row)
                (\<lambda>row. row\<lparr>reserved := reserved row + res_party r, inv_version := inv_version row + 1\<rparr>) k (inventory d) of
           Inl e \<Rightarrow>
             (case get (inventory d) k of
                Some row \<Rightarrow> if reserved row + res_party r \<le> capacity row then Inl ErrVersionConflict else Inl ErrCapacityExhausted
              | None \<Rightarrow> Inl ErrCapacityExhausted)
         | Inr m \<Rightarrow>
             bind_res (insert_reservation rid (r\<lparr>res_state := StayReserved\<rparr>) (d\<lparr>inventory := m\<rparr>)) (\<lambda>d1.
             record_event sink
               \<lparr>ev_id = rid, ev_time = now, ev_actor = res_session r, ev_action = ''RESERVATION_CREATE'', ev_subject = rid,
                ev_outcome = ''OK'', ev_reason = [], ev_from = [], ev_to = ''RESERVED''\<rparr> d1))"

section \<open>The expiry worker\<close>

definition due_stays :: "time \<Rightarrow> nat \<Rightarrow> db \<Rightarrow> string list" where
  "due_stays now limit d =
     take limit (sort (map fst (filter (\<lambda>(k, st). stay_state st = StayReserved \<and> due now st) (stays d))))"

fun expire_each :: "sql_lib option \<Rightarrow> time \<Rightarrow> string list \<Rightarrow> int \<Rightarrow> db \<Rightarrow> db \<times> int" where
  "expire_each sink now [] n d = (d, n)"
| "expire_each sink now (i # is) n d =
     (case in_tx (\<lambda>d. bind_res (expire sink i now [] d) (\<lambda>d'. Inr (d', ()))) d of
        (d', Inr _) \<Rightarrow> expire_each sink now is (n + 1) d'
      | (d', Inl _) \<Rightarrow> expire_each sink now is n d')"

definition tick :: "sql_lib option \<Rightarrow> time \<Rightarrow> nat \<Rightarrow> db \<Rightarrow> db \<times> int" where
  "tick sink now limit d = expire_each sink now (due_stays now limit d) 0 d"

end
