(* ===== verification/Stay_Conservation.thy ===== *)
theory Stay_Conservation
  imports Stay_Store
begin

text \<open>
  What the operations of Stay_Store do to the database: which row moves and by how much the
  buckets of its dates change, the conservation of capacity, and the lifecycle of a stay.
\<close>

section \<open>Buckets and loads\<close>

definition held_at :: "db \<Rightarrow> string \<Rightarrow> int \<Rightarrow> int" where
  "held_at d f x = (case get (inventory d) (f, x) of None \<Rightarrow> 0 | Some r \<Rightarrow> held r)"

definition occupied_at :: "db \<Rightarrow> string \<Rightarrow> int \<Rightarrow> int" where
  "occupied_at d f x = (case get (inventory d) (f, x) of None \<Rightarrow> 0 | Some r \<Rightarrow> occupied r)"

definition covers :: "stay \<Rightarrow> string \<Rightarrow> int \<Rightarrow> bool" where
  "covers st f x \<longleftrightarrow> stay_facility st = f \<and> start_date st \<le> x \<and> x < end_date st"

definition weight :: "stay_state \<Rightarrow> string \<Rightarrow> int \<Rightarrow> stay \<Rightarrow> int" where
  "weight S f x st = (if stay_state st = S \<and> covers st f x then party_size st else 0)"

text \<open>The spaces that the stays in a state take at a facility on a date.\<close>

definition load :: "db \<Rightarrow> stay_state \<Rightarrow> string \<Rightarrow> int \<Rightarrow> int" where
  "load d S f x = total_of (weight S f x) (stays d)"

definition good_stay :: "string \<Rightarrow> stay \<Rightarrow> bool" where
  "good_stay i st \<longleftrightarrow> stay_id st = i \<and> 1 \<le> party_size st \<and> start_date st < end_date st"

definition good_stays :: "db \<Rightarrow> bool" where
  "good_stays d \<longleftrightarrow> wf_map (stays d) \<and> (\<forall>i st. get (stays d) i = Some st \<longrightarrow> good_stay i st)"

definition fitting :: "inv_row \<Rightarrow> bool" where
  "fitting r \<longleftrightarrow> 0 \<le> held r \<and> 0 \<le> occupied r \<and> held r + occupied r \<le> capacity r"

definition rooms_ok :: "db \<Rightarrow> bool" where
  "rooms_ok d \<longleftrightarrow> (\<forall>k r. get (inventory d) k = Some r \<longrightarrow> fitting r)"

definition conserved :: "db \<Rightarrow> bool" where
  "conserved d \<longleftrightarrow> good_stays d \<and> rooms_ok d
     \<and> (\<forall>f x. held_at d f x = load d StayReserved f x \<and> occupied_at d f x = load d StayArrived f x)"

lemma conservedD:
  "conserved d \<Longrightarrow> good_stays d" "conserved d \<Longrightarrow> rooms_ok d"
  "conserved d \<Longrightarrow> held_at d f x = load d StayReserved f x"
  "conserved d \<Longrightarrow> occupied_at d f x = load d StayArrived f x"
  by (simp_all add: conserved_def)

lemma good_staysD:
  "good_stays d \<Longrightarrow> wf_map (stays d)" "good_stays d \<Longrightarrow> get (stays d) i = Some st \<Longrightarrow> good_stay i st"
  by (simp_all add: good_stays_def)

section \<open>Dates\<close>

lemma date_range_upto: "date_range s e = (if s < e then [s..e - 1] else [])"
proof (induction s e rule: date_range.induct)
  case (1 s e)
  show ?case
  proof (cases "s < e")
    case True
    then have "[s..e - 1] = s # [s + 1..e - 1]" by (simp add: upto_rec1)
    then show ?thesis using 1 [OF True] True by (auto simp: date_range.simps [of s e])
  qed (simp add: date_range.simps)
qed

lemma set_date_range [simp]: "x \<in> set (date_range s e) \<longleftrightarrow> s \<le> x \<and> x < e"
  by (auto simp: date_range_upto)

lemma distinct_date_range [simp]: "distinct (date_range s e)"
  by (simp add: date_range_upto)

lemma date_range_Nil: "date_range s e = [] \<longleftrightarrow> e \<le> s"
  by (auto simp: date_range_upto)

lemma set_stay_dates [simp]: "x \<in> set (stay_dates st) \<longleftrightarrow> start_date st \<le> x \<and> x < end_date st"
  by (simp add: stay_dates_def)

lemma distinct_stay_dates [simp]: "distinct (stay_dates st)"
  by (simp add: stay_dates_def)

section \<open>What a change of the inventory does\<close>

lemma adjust_inventory_effect:
  assumes "adjust_inventory f h o' x d = Inr d'"
  shows "d' = d\<lparr>inventory := inventory d'\<rparr>"
    and "held_at d' g y = held_at d g y + (if g = f \<and> y = x then h else 0)"
    and "occupied_at d' g y = occupied_at d g y + (if g = f \<and> y = x then o' else 0)"
    and "rooms_ok d \<Longrightarrow> rooms_ok d'"
    and "map_option capacity (get (inventory d') k) = map_option capacity (get (inventory d) k)"
proof -
  obtain r where r: "get (inventory d) (f, x) = Some r" "room h o' r"
    "d' = d\<lparr>inventory := put (f, x) (shift_row h o' r) (inventory d)\<rparr>"
    using assms by (auto simp: adjust_inventory_def bind_res_Inr exec_conditional_Inr)
  then show "d' = d\<lparr>inventory := inventory d'\<rparr>"
    and "held_at d' g y = held_at d g y + (if g = f \<and> y = x then h else 0)"
    and "occupied_at d' g y = occupied_at d g y + (if g = f \<and> y = x then o' else 0)"
    and "rooms_ok d \<Longrightarrow> rooms_ok d'"
    and "map_option capacity (get (inventory d') k) = map_option capacity (get (inventory d) k)"
    by (auto simp: held_at_def occupied_at_def shift_row_def rooms_ok_def fitting_def room_def)
qed

lemma adjust_dates_effect:
  assumes "adjust_dates f h o' xs d = Inr d'" "distinct xs"
  shows "d' = d\<lparr>inventory := inventory d'\<rparr>
    \<and> (\<forall>g y. held_at d' g y = held_at d g y + (if g = f \<and> y \<in> set xs then h else 0)
          \<and> occupied_at d' g y = occupied_at d g y + (if g = f \<and> y \<in> set xs then o' else 0))
    \<and> (rooms_ok d \<longrightarrow> rooms_ok d')
    \<and> (\<forall>k. map_option capacity (get (inventory d') k) = map_option capacity (get (inventory d) k))"
  using assms unfolding adjust_dates_def
proof (induction xs arbitrary: d)
  case (Cons x xs)
  then obtain d1 where d1: "adjust_inventory f h o' x d = Inr d1" "each_res (adjust_inventory f h o') xs d1 = Inr d'"
    by (auto simp: bind_res_Inr)
  note e1 = adjust_inventory_effect [OF d1(1)]
  note e2 = Cons.IH [OF d1(2)]
  have "d' = d\<lparr>inventory := inventory d'\<rparr>"
    using e2 e1(1) Cons.prems(2) by (metis db.surjective db.update_convs(1) distinct.simps(2))
  then show ?case using e1(2-5) e2 Cons.prems(2) by auto
qed simp

text \<open>The change of one facility's buckets on some dates, all else of the inventory kept.\<close>

definition shifted :: "db \<Rightarrow> db \<Rightarrow> string \<Rightarrow> int \<Rightarrow> int \<Rightarrow> int list \<Rightarrow> bool" where
  "shifted d d' f h o' xs \<longleftrightarrow>
     (\<forall>g y. held_at d' g y = held_at d g y + (if g = f \<and> y \<in> set xs then h else 0)
          \<and> occupied_at d' g y = occupied_at d g y + (if g = f \<and> y \<in> set xs then o' else 0))
     \<and> (rooms_ok d \<longrightarrow> rooms_ok d')
     \<and> (\<forall>k. map_option capacity (get (inventory d') k) = map_option capacity (get (inventory d) k))"

lemma adjust_dates_shifted:
  "adjust_dates f h o' xs d = Inr d' \<Longrightarrow> distinct xs \<Longrightarrow> d' = d\<lparr>inventory := inventory d'\<rparr> \<and> shifted d d' f h o' xs"
  using adjust_dates_effect [of f h o' xs d d'] unfolding shifted_def by blast

lemma inventory_only:
  assumes "inventory d1 = inventory d2"
  shows "held_at d1 = held_at d2" "occupied_at d1 = occupied_at d2" "rooms_ok d1 = rooms_ok d2"
  using assms by (auto simp: held_at_def occupied_at_def rooms_ok_def fun_eq_iff)

lemma shifted_frame:
  "inventory d1 = inventory d \<Longrightarrow> inventory d2 = inventory d' \<Longrightarrow> shifted d d' f h o' xs \<Longrightarrow> shifted d1 d2 f h o' xs"
  unfolding shifted_def using inventory_only by metis

section \<open>One row moves\<close>

lemma put_put [simp]: "put k v (put k u m) = put k v m"
  by (induction m) auto

text \<open>
  The row of sid becomes st', the buckets of its facility change on the dates xs, and the
  audit log grows by at most the rows of the operation.
\<close>

definition moved :: "db \<Rightarrow> db \<Rightarrow> string \<Rightarrow> stay \<Rightarrow> stay \<Rightarrow> int \<Rightarrow> int \<Rightarrow> int list \<Rightarrow> bool" where
  "moved d d' sid st st' h o' xs \<longleftrightarrow> get (stays d) sid = Some st
     \<and> d' = d\<lparr>inventory := inventory d', stays := put sid st' (stays d), audit_rows := audit_rows d'\<rparr>
     \<and> shifted d d' (stay_facility st) h o' xs"

lemma load_put:
  assumes "wf_map (stays d)" "stays d' = put i st' (stays d)"
  shows "load d' S f x = load d S f x + weight S f x st' - (case get (stays d) i of None \<Rightarrow> 0 | Some st \<Rightarrow> weight S f x st)"
  unfolding load_def assms(2) by (rule total_of_put [OF assms(1)])

lemma good_stays_put: "good_stays d \<Longrightarrow> good_stay i st \<Longrightarrow> stays d' = put i st (stays d) \<Longrightarrow> good_stays d'"
  by (auto simp: good_stays_def)

lemma moved_conserved:
  assumes c: "conserved d" and m: "moved d d' sid st st' h o' xs" and g: "good_stay sid st'"
    and f: "stay_facility st' = stay_facility st"
    and w: "\<And>x. weight StayReserved (stay_facility st) x st' = weight StayReserved (stay_facility st) x st + (if x \<in> set xs then h else 0)"
      "\<And>x. weight StayArrived (stay_facility st) x st' = weight StayArrived (stay_facility st) x st + (if x \<in> set xs then o' else 0)"
  shows "conserved d'"
proof -
  have st: "get (stays d) sid = Some st" and ss: "stays d' = put sid st' (stays d)"
    and sh: "shifted d d' (stay_facility st) h o' xs"
    using m unfolding moved_def by (auto dest: arg_cong [where f = stays])
  have wf: "wf_map (stays d)" using c by (simp add: conserved_def good_stays_def)
  have "held_at d' g' x = load d' StayReserved g' x" "occupied_at d' g' x = load d' StayArrived g' x" for g' x
  proof -
    have "weight S g' x st' = weight S g' x st" if "g' \<noteq> stay_facility st" for S
      using that f by (simp add: weight_def covers_def)
    then show "held_at d' g' x = load d' StayReserved g' x" "occupied_at d' g' x = load d' StayArrived g' x"
      using sh w [of x] conservedD(3,4) [OF c, of g' x] load_put [OF wf ss, of _ g' x] st
      unfolding shifted_def by (cases "g' = stay_facility st"; simp)+
  qed
  moreover have "good_stays d'" using good_stays_put [OF conservedD(1) [OF c] g ss] .
  moreover have "rooms_ok d'" using sh conservedD(2) [OF c] by (simp add: shifted_def)
  ultimately show ?thesis by (simp add: conserved_def)
qed


lemma record_event_frame:
  "record_event sink e d = Inr d' \<Longrightarrow> d' = d\<lparr>audit_rows := audit_rows d'\<rparr>"
  by (auto simp: record_event_def bind_res_Inr split: option.splits)

lemma lock_dates_Inr [simp]: "lock_dates f xs d = Inr d' \<longleftrightarrow> lock_inventory f xs d = None \<and> d' = d"
  by (auto simp: lock_dates_def)

lemma as_exhausted_Inr [simp]: "as_exhausted r = Inr x \<longleftrightarrow> r = Inr x"
  by (cases r rule: as_exhausted.cases) auto

lemma get_stay_Inr [simp]: "get_stay d sid = Inr st \<longleftrightarrow> get (stays d) sid = Some st"
  by (auto simp: get_stay_def split: option.splits)

lemma update_stay_Inr:
  "update_stay sid v f d = Inr d' \<longleftrightarrow> (\<exists>st. get (stays d) sid = Some st \<and> stay_version st = v
     \<and> d' = d\<lparr>stays := put sid ((f st)\<lparr>stay_version := stay_version st + 1\<rparr>) (stays d)\<rparr>)"
  by (auto simp: update_stay_def bind_res_Inr exec_conditional_Inr)

lemma moved_intro:
  assumes "get (stays d) sid = Some st" "adjust_dates (stay_facility st) h o' xs d = Inr d2" "distinct xs"
    "update_stay sid (stay_version st) f d2 = Inr d3"
  shows "moved d d3 sid st ((f st)\<lparr>stay_version := stay_version st + 1\<rparr>) h o' xs"
proof -
  have a: "d2 = d\<lparr>inventory := inventory d2\<rparr>" "shifted d d2 (stay_facility st) h o' xs"
    using adjust_dates_shifted [OF assms(2,3)] by simp_all
  have s: "stays d2 = stays d" using a(1) by (metis db.ext_inject db.surjective db.update_convs(1))
  have d3: "d3 = d2\<lparr>stays := put sid ((f st)\<lparr>stay_version := stay_version st + 1\<rparr>) (stays d)\<rparr>"
    using assms(1,4) by (auto simp: update_stay_Inr s)
  have "shifted d d3 (stay_facility st) h o' xs"
    by (rule shifted_frame [OF refl _ a(2)]) (simp add: d3)
  moreover have "d3 = d\<lparr>inventory := inventory d3, stays := put sid ((f st)\<lparr>stay_version := stay_version st + 1\<rparr>) (stays d),
      audit_rows := audit_rows d3\<rparr>"
    unfolding d3 by (subst a(1), subst (2) a(1), subst (3) a(1)) simp
  ultimately show ?thesis using assms(1) by (simp add: moved_def)
qed

lemma moved_touch:
  assumes "moved d d' sid st st' h o' xs"
  shows "moved d (touch_stay sid g d') sid st (g st') h o' xs"
proof -
  have s: "stays d' = put sid st' (stays d)" and i: "inventory (touch_stay sid g d') = inventory d'"
    using assms unfolding moved_def by (auto simp: touch_stay_def dest: arg_cong [where f = stays] split: option.split)
  have t: "touch_stay sid g d' = d'\<lparr>stays := put sid (g st') (stays d)\<rparr>"
    by (simp add: touch_stay_def s)
  have "shifted d (touch_stay sid g d') (stay_facility st) h o' xs"
    using assms shifted_frame [OF refl i] unfolding moved_def by blast
  then show ?thesis
    using assms unfolding moved_def t by (metis (no_types, lifting) db.select_convs(1,4) db.surjective db.update_convs(1,3,4))
qed

lemma moved_record:
  assumes "moved d d1 sid st st' h o' xs" "record_event sink e d1 = Inr d'"
  shows "moved d d' sid st st' h o' xs"
proof -
  have r: "d' = d1\<lparr>audit_rows := audit_rows d'\<rparr>" by (rule record_event_frame [OF assms(2)])
  then have i: "inventory d' = inventory d1" by (metis db.ext_inject db.surjective db.update_convs(4))
  have "shifted d d' (stay_facility st) h o' xs"
    using assms(1) shifted_frame [OF refl i] unfolding moved_def by blast
  moreover have "d' = d\<lparr>inventory := inventory d', stays := put sid st' (stays d), audit_rows := audit_rows d'\<rparr>"
    using assms(1) r i unfolding moved_def by (metis (no_types, lifting) db.select_convs(1,4) db.surjective db.update_convs(1,3,4))
  ultimately show ?thesis using assms(1) by (simp add: moved_def)
qed

section \<open>The operations as moves\<close>

lemma arrive_moved:
  assumes "arrive sink sid now key d = Inr d'"
  shows "\<exists>st. stay_state st = StayReserved \<and> \<not> due now st
    \<and> moved d d' sid st (st\<lparr>stay_state := StayArrived, stay_version := stay_version st + 1, arrived_at := Some now\<rparr>)
        (- party_size st) (party_size st) (stay_dates st)"
proof -
  obtain st d2 d3 where st: "get (stays d) sid = Some st" "stay_state st = StayReserved" "\<not> due now st"
    and a: "adjust_dates (stay_facility st) (- party_size st) (party_size st) (stay_dates st) d = Inr d2"
    and u: "set_state sid (stay_version st) StayArrived d2 = Inr d3"
    and r: "record_stay sink sid (stay_session st) ''STAY_ARRIVE'' ''RESERVED'' ''ARRIVED'' now key
              (touch_stay sid (\<lambda>st. st\<lparr>arrived_at := Some now\<rparr>) d3) = Inr d'"
    using assms by (auto simp: arrive_def bind_res_Inr split: if_splits)
  show ?thesis
    using moved_record [OF moved_touch [OF moved_intro [OF st(1) a distinct_stay_dates u [unfolded set_state_def]]]
        r [unfolded record_stay_def]] st(2,3)
    by (intro exI [of _ st]) simp
qed

lemma release_held_Inr:
  "release_held st d = Inr d' \<Longrightarrow> adjust_dates (stay_facility st) (- party_size st) 0 (stay_dates st) d = Inr d'"
  by (auto simp: release_held_def bind_res_Inr)

lemma cancel_moved:
  assumes "cancel sink sid now key d = Inr d'"
  shows "\<exists>st. stay_state st = StayReserved
    \<and> moved d d' sid st (st\<lparr>stay_state := StayCancelled, stay_version := stay_version st + 1\<rparr>)
        (- party_size st) 0 (stay_dates st)"
proof -
  obtain st d2 d3 where st: "get (stays d) sid = Some st" "stay_state st = StayReserved"
    and a: "release_held st d = Inr d2" and u: "set_state sid (stay_version st) StayCancelled d2 = Inr d3"
    and r: "record_stay sink sid (stay_session st) ''STAY_CANCEL'' ''RESERVED'' ''CANCELLED'' now key d3 = Inr d'"
    using assms by (auto simp: cancel_def bind_res_Inr split: if_splits)
  show ?thesis
    using moved_record [OF moved_intro [OF st(1) release_held_Inr [OF a] distinct_stay_dates u [unfolded set_state_def]]
        r [unfolded record_stay_def]] st(2)
    by (intro exI [of _ st]) simp
qed

lemma expire_moved:
  assumes "expire sink sid now key d = Inr d'"
  shows "\<exists>st. stay_state st = StayReserved \<and> due now st
    \<and> moved d d' sid st (st\<lparr>stay_state := StayExpired, stay_version := stay_version st + 1\<rparr>)
        (- party_size st) 0 (stay_dates st)"
proof -
  obtain st d2 d3 where st: "get (stays d) sid = Some st" "stay_state st = StayReserved" "due now st"
    and a: "release_held st d = Inr d2" and u: "set_state sid (stay_version st) StayExpired d2 = Inr d3"
    and r: "record_stay sink sid (stay_session st) ''STAY_EXPIRE'' ''RESERVED'' ''EXPIRED'' now key d3 = Inr d'"
    using assms by (auto simp: expire_def bind_res_Inr split: if_splits)
  show ?thesis
    using moved_record [OF moved_intro [OF st(1) release_held_Inr [OF a] distinct_stay_dates u [unfolded set_state_def]]
        r [unfolded record_stay_def]] st(2,3)
    by (intro exI [of _ st]) simp
qed

lemma depart_moved:
  assumes "depart sink sid now key d = Inr d'"
  shows "\<exists>st. stay_state st = StayArrived
    \<and> moved d d' sid st (st\<lparr>stay_state := StayDeparted, stay_version := stay_version st + 1, departed_at := Some now\<rparr>)
        0 (- party_size st) (stay_dates st)"
proof -
  obtain st d2 d3 where st: "get (stays d) sid = Some st" "stay_state st = StayArrived"
    and a: "adjust_dates (stay_facility st) 0 (- party_size st) (stay_dates st) d = Inr d2"
    and u: "set_state sid (stay_version st) StayDeparted d2 = Inr d3"
    and r: "record_stay sink sid (stay_session st) ''STAY_DEPART'' ''ARRIVED'' ''DEPARTED'' now key
              (touch_stay sid (\<lambda>st. st\<lparr>departed_at := Some now\<rparr>) d3) = Inr d'"
    using assms by (auto simp: depart_def bind_res_Inr split: if_splits)
  show ?thesis
    using moved_record [OF moved_touch [OF moved_intro [OF st(1) a distinct_stay_dates u [unfolded set_state_def]]]
        r [unfolded record_stay_def]] st(2)
    by (intro exI [of _ st]) simp
qed

lemma extend_moved:
  assumes "extend sink sid new_end now key d = Inr d'"
  shows "\<exists>st. is_live st \<and> end_date st < new_end
    \<and> moved d d' sid st (st\<lparr>end_date := new_end, stay_version := stay_version st + 1\<rparr>)
        (fst (in_bucket st (party_size st))) (snd (in_bucket st (party_size st))) (date_range (end_date st) new_end)"
proof -
  obtain st d2 d3 where st: "get (stays d) sid = Some st" "is_live st" "end_date st < new_end"
    and a: "adjust_dates (stay_facility st) (fst (in_bucket st (party_size st))) (snd (in_bucket st (party_size st)))
              (date_range (end_date st) new_end) d = Inr d2"
    and u: "update_stay sid (stay_version st) (\<lambda>st. st\<lparr>end_date := new_end\<rparr>) d2 = Inr d3"
    and r: "record_stay sink sid (stay_session st) ''STAY_EXTEND'' (stay_text (stay_state st))
              (stay_text (stay_state st)) now key d3 = Inr d'"
    using assms by (auto simp: extend_def bind_res_Inr Let_def split: if_splits prod.splits)
  show ?thesis
    using moved_record [OF moved_intro [OF st(1) a distinct_date_range u] r [unfolded record_stay_def]] st(2,3)
    by (intro exI [of _ st]) simp
qed

lemma correct_moved:
  assumes "correct sink sid n operator rsn now key d = Inr d'"
  shows "d' = d \<or> (\<exists>st. is_live st \<and> 1 \<le> n \<and> n < party_size st
    \<and> moved d d' sid st (st\<lparr>party_size := n, stay_version := stay_version st + 1\<rparr>)
        (fst (in_bucket st (n - party_size st))) (snd (in_bucket st (n - party_size st))) (stay_dates st))"
proof (cases "\<exists>st. get (stays d) sid = Some st \<and> n = party_size st")
  case True
  then show ?thesis using assms by (auto simp: correct_def bind_res_Inr split: if_splits)
next
  case False
  then obtain st d2 d3 where st: "get (stays d) sid = Some st" "is_live st" "1 \<le> n" "n < party_size st"
    and a: "adjust_dates (stay_facility st) (fst (in_bucket st (n - party_size st))) (snd (in_bucket st (n - party_size st)))
              (stay_dates st) d = Inr d2"
    and u: "update_stay sid (stay_version st) (\<lambda>st. st\<lparr>party_size := n\<rparr>) d2 = Inr d3"
    and r: "record_event sink (stay_event sid operator ''STAY_CORRECT'' rsn (stay_text (stay_state st))
              (stay_text (stay_state st)) now key) d3 = Inr d'"
    using assms by (auto simp: correct_def bind_res_Inr Let_def split: if_splits prod.splits)
  show ?thesis
    using moved_record [OF moved_intro [OF st(1) a distinct_stay_dates u] r] st(2-4)
    by (intro disjI2 exI [of _ st]) simp
qed


lemma insert_stay_Inr:
  "insert_stay st d = Inr d' \<longleftrightarrow> 1 \<le> party_size st \<and> start_date st < end_date st \<and> get (stays d) (stay_id st) = None
     \<and> has_key (reservations d) (reservation_id st) \<and> has_key (sessions d) (stay_session st)
     \<and> has_key (facilities d) (stay_facility st) \<and> has_key (packages d) (stay_package st)
     \<and> d' = d\<lparr>stays := put (stay_id st) st (stays d)\<rparr>"
  by (auto simp: insert_stay_def check_simps has_key_def)

lemma insert_reservation_Inr:
  "insert_reservation rid r d = Inr d' \<longleftrightarrow> 1 \<le> res_party r \<and> get (reservations d) rid = None
     \<and> has_key (sessions d) (res_session r) \<and> d' = d\<lparr>reservations := put rid r (reservations d)\<rparr>"
  by (auto simp: insert_reservation_def check_simps has_key_def)

lemma reserve_effect:
  assumes "reserve sink st now key d = Inr d'"
  shows "1 \<le> party_size st \<and> start_date st < end_date st \<and> get (stays d) (stay_id st) = None
    \<and> d' = d\<lparr>inventory := inventory d', stays := put (stay_id st) (new_row st) (stays d), audit_rows := audit_rows d'\<rparr>
    \<and> shifted d d' (stay_facility st) (party_size st) 0 (stay_dates st)"
proof -
  obtain d2 d3 where a: "adjust_dates (stay_facility st) (party_size st) 0 (stay_dates st) d = Inr d2"
    and i: "insert_stay (new_row st) d2 = Inr d3"
    and r: "record_stay sink (stay_id st) (stay_session st) ''STAY_RESERVE'' [] ''RESERVED'' now key d3 = Inr d'"
    using assms by (auto simp: reserve_def Let_def bind_res_Inr split: if_splits)
  have d2: "d2 = d\<lparr>inventory := inventory d2\<rparr>" "shifted d d2 (stay_facility st) (party_size st) 0 (stay_dates st)"
    using adjust_dates_shifted [OF a distinct_stay_dates] by simp_all
  have s: "stays d2 = stays d" using d2(1) by (metis db.ext_inject db.surjective db.update_convs(1))
  have d3: "d3 = d2\<lparr>stays := put (stay_id st) (new_row st) (stays d)\<rparr>" "1 \<le> party_size st" "start_date st < end_date st"
    "get (stays d) (stay_id st) = None"
    using i by (auto simp: insert_stay_Inr new_row_def s)
  have d': "d' = d3\<lparr>audit_rows := audit_rows d'\<rparr>"
    using record_event_frame r unfolding record_stay_def by blast
  have inv': "inventory d' = inventory d2" using d' d3(1) by (metis db.ext_inject db.surjective db.update_convs(3,4))
  have "shifted d d' (stay_facility st) (party_size st) 0 (stay_dates st)"
    by (rule shifted_frame [OF refl inv' d2(2)])
  moreover have "d' = d\<lparr>inventory := inventory d', stays := put (stay_id st) (new_row st) (stays d), audit_rows := audit_rows d'\<rparr>"
    using d' d3(1) d2(1) inv' by (metis (no_types, lifting) db.update_convs(1,3,4) db.surjective)
  ultimately show ?thesis using d3(2-4) by simp
qed

text \<open>The origin of a transfer ends DEPARTED, the replacement holds space at the destination.\<close>

definition transferred :: "db \<Rightarrow> db \<Rightarrow> string \<Rightarrow> stay \<Rightarrow> string \<Rightarrow> stay \<Rightarrow> bool" where
  "transferred d d' sid st new_sid new \<longleftrightarrow> get (stays d) sid = Some st \<and> is_live st
     \<and> get (stays d) new_sid = None \<and> new_sid \<noteq> sid
     \<and> stays d' = put sid (st\<lparr>stay_state := StayDeparted, stay_version := stay_version st + 1\<rparr>) (put new_sid new (stays d))
     \<and> d' = d\<lparr>inventory := inventory d', reservations := reservations d', stays := stays d', audit_rows := audit_rows d'\<rparr>
     \<and> (\<exists>mid. shifted d mid (stay_facility new) (party_size st) 0 (stay_dates st)
          \<and> shifted mid d' (stay_facility st) (fst (in_bucket st (- party_size st))) (snd (in_bucket st (- party_size st))) (stay_dates st))"

lemma transfer_effect:
  assumes "transfer sink sid new_sid new_rid new_fac new_route new_exp now key d = Inr d'"
  shows "\<exists>st. transferred d d' sid st new_sid (transfer_stay st new_sid new_rid new_fac new_route new_exp)
    \<and> 1 \<le> party_size st \<and> start_date st < end_date st \<and> get (reservations d) new_rid = None
    \<and> reservations d' = put new_rid (transfer_reservation st new_fac) (reservations d)"
proof -
  obtain st where st: "get (stays d) sid = Some st" "is_live st"
    using assms by (auto simp: transfer_def bind_res_Inr split: if_splits)
  let ?h = "fst (in_bucket st (- party_size st))" let ?o = "snd (in_bucket st (- party_size st))"
  let ?new = "transfer_stay st new_sid new_rid new_fac new_route new_exp"
  obtain d3 d4 d5 d6 d7 d8 where
    s3: "adjust_dates new_fac (party_size st) 0 (stay_dates st) d = Inr d3"
    and s4: "insert_reservation new_rid (transfer_reservation st new_fac) d3 = Inr d4"
    and s5: "insert_stay ?new d4 = Inr d5"
    and s6: "adjust_dates (stay_facility st) ?h ?o (stay_dates st) d5 = Inr d6"
    and s7: "set_state sid (stay_version st) StayDeparted d6 = Inr d7"
    and s8: "record_stay sink sid (stay_session st) ''STAY_TRANSFER_OUT'' (stay_text (stay_state st)) ''DEPARTED'' now key d7 = Inr d8"
    and s9: "record_stay sink new_sid (stay_session st) ''STAY_TRANSFER_IN'' [] ''RESERVED'' now key d8 = Inr d'"
    using assms st by (auto simp: transfer_def bind_res_Inr Let_def split: if_splits prod.splits)
  have a3: "d3 = d\<lparr>inventory := inventory d3\<rparr>" "shifted d d3 new_fac (party_size st) 0 (stay_dates st)"
    using adjust_dates_shifted [OF s3 distinct_stay_dates] by simp_all
  have e4: "get (reservations d3) new_rid = None" "d4 = d3\<lparr>reservations := put new_rid (transfer_reservation st new_fac) (reservations d3)\<rparr>"
    using s4 by (auto simp: insert_reservation_Inr)
  have e5: "1 \<le> party_size st" "start_date st < end_date st" "get (stays d4) new_sid = None"
    "d5 = d4\<lparr>stays := put new_sid ?new (stays d4)\<rparr>"
    using s5 by (auto simp: insert_stay_Inr transfer_stay_def)
  have a6: "d6 = d5\<lparr>inventory := inventory d6\<rparr>" "shifted d5 d6 (stay_facility st) ?h ?o (stay_dates st)"
    using adjust_dates_shifted [OF s6 distinct_stay_dates] by simp_all
  let ?old = "st\<lparr>stay_state := StayDeparted, stay_version := stay_version st + 1\<rparr>"
  obtain m3 where d3: "d3 = d\<lparr>inventory := m3\<rparr>" using a3(1) by blast
  have d4: "d4 = d\<lparr>inventory := m3, reservations := put new_rid (transfer_reservation st new_fac) (reservations d)\<rparr>"
    using e4(2) by (simp add: d3)
  have d5: "d5 = d\<lparr>inventory := m3, reservations := put new_rid (transfer_reservation st new_fac) (reservations d),
      stays := put new_sid ?new (stays d)\<rparr>"
    using e5(4) by (simp add: d4)
  obtain m6 where m6: "d6 = d5\<lparr>inventory := m6\<rparr>" using a6(1) by blast
  have d6: "d6 = d\<lparr>inventory := m6, reservations := put new_rid (transfer_reservation st new_fac) (reservations d),
      stays := put new_sid ?new (stays d)\<rparr>"
    unfolding m6 d5 by (cases d) simp
  have t4: "stays d4 = stays d" by (simp add: d4)
  have ne: "new_sid \<noteq> sid" using e5(3) t4 st(1) by auto
  have d7: "d7 = d\<lparr>inventory := m6, reservations := put new_rid (transfer_reservation st new_fac) (reservations d),
      stays := put sid ?old (put new_sid ?new (stays d))\<rparr>"
    using s7 st(1) ne by (auto simp: set_state_def update_stay_Inr d6)
  obtain rows where d': "d' = d\<lparr>inventory := m6, reservations := put new_rid (transfer_reservation st new_fac) (reservations d),
      stays := put sid ?old (put new_sid ?new (stays d)), audit_rows := rows\<rparr>"
  proof -
    have "d8 = d7\<lparr>audit_rows := audit_rows d8\<rparr>" "d' = d8\<lparr>audit_rows := audit_rows d'\<rparr>"
      using record_event_frame s8 s9 unfolding record_stay_def by blast+
    then have "d' = d7\<lparr>audit_rows := audit_rows d'\<rparr>" by (metis db.update_convs(4) db.surjective)
    then show thesis using that [of "audit_rows d'"] unfolding d7 by simp
  qed
  have sh: "shifted d3 d' (stay_facility st) ?h ?o (stay_dates st)"
    by (rule shifted_frame [OF _ _ a6(2)]) (simp_all add: d3 d5 d6 d')
  have "transferred d d' sid st new_sid ?new"
    unfolding transferred_def using st ne e5(3) t4 sh a3(2)
    by (intro conjI exI [of _ d3]) (simp_all add: transfer_stay_def d')
  then show ?thesis using e5(1,2) e4(1) by (intro exI [of _ st]) (simp add: d3 d')
qed


section \<open>Conservation\<close>

lemma in_bucket_weights:
  "is_live st \<Longrightarrow> fst (in_bucket st n) = (if stay_state st = StayReserved then n else 0)"
  "is_live st \<Longrightarrow> snd (in_bucket st n) = (if stay_state st = StayArrived then n else 0)"
  by (auto simp: in_bucket_def is_live_def)

lemma moved_get: "moved d d' sid st st' h o' xs \<Longrightarrow> get (stays d) sid = Some st"
  by (simp add: moved_def)

lemma conserved_moved_good: "conserved d \<Longrightarrow> moved d d' sid st st' h o' xs \<Longrightarrow> good_stay sid st"
  using conservedD(1) good_staysD(2) moved_get by blast

lemmas balance_simps = weight_def covers_def good_stay_def in_bucket_def is_live_def

lemma conserved_arrive:
  assumes "conserved d" "arrive sink sid now key d = Inr d'"
  shows "conserved d'"
  by (rule exE [OF arrive_moved [OF assms(2)]], elim conjE, frule conserved_moved_good [OF assms(1)],
      erule moved_conserved [OF assms(1)]) (auto simp: balance_simps)

lemma conserved_cancel:
  assumes "conserved d" "cancel sink sid now key d = Inr d'"
  shows "conserved d'"
  by (rule exE [OF cancel_moved [OF assms(2)]], elim conjE, frule conserved_moved_good [OF assms(1)],
      erule moved_conserved [OF assms(1)]) (auto simp: balance_simps)

lemma conserved_expire:
  assumes "conserved d" "expire sink sid now key d = Inr d'"
  shows "conserved d'"
  by (rule exE [OF expire_moved [OF assms(2)]], elim conjE, frule conserved_moved_good [OF assms(1)],
      erule moved_conserved [OF assms(1)]) (auto simp: balance_simps)

lemma conserved_depart:
  assumes "conserved d" "depart sink sid now key d = Inr d'"
  shows "conserved d'"
  by (rule exE [OF depart_moved [OF assms(2)]], elim conjE, frule conserved_moved_good [OF assms(1)],
      erule moved_conserved [OF assms(1)]) (auto simp: balance_simps)

lemma conserved_extend:
  assumes "conserved d" "extend sink sid e now key d = Inr d'"
  shows "conserved d'"
  by (rule exE [OF extend_moved [OF assms(2)]], elim conjE, frule conserved_moved_good [OF assms(1)],
      erule moved_conserved [OF assms(1)]) (auto simp: balance_simps)

lemma conserved_correct:
  assumes "conserved d" "correct sink sid n op rsn now key d = Inr d'"
  shows "conserved d'"
proof (cases "d' = d")
  case False
  then have e: "\<exists>st. is_live st \<and> 1 \<le> n \<and> n < party_size st
    \<and> moved d d' sid st (st\<lparr>party_size := n, stay_version := stay_version st + 1\<rparr>)
        (fst (in_bucket st (n - party_size st))) (snd (in_bucket st (n - party_size st))) (stay_dates st)"
    using correct_moved [OF assms(2)] by blast
  show ?thesis
    by (rule exE [OF e], elim conjE, frule conserved_moved_good [OF assms(1)], erule moved_conserved [OF assms(1)])
      (auto simp: balance_simps)
qed (use assms(1) in simp)

lemma conserved_reserve:
  assumes c: "conserved d" and r: "reserve sink st now key d = Inr d'"
  shows "conserved d'"
proof -
  have e: "1 \<le> party_size st" "start_date st < end_date st" "get (stays d) (stay_id st) = None"
    "stays d' = put (stay_id st) (new_row st) (stays d)"
    "shifted d d' (stay_facility st) (party_size st) 0 (stay_dates st)"
    using reserve_effect [OF r] by (auto dest: arg_cong [where f = stays])
  have l: "load d' S f x = load d S f x + weight S f x (new_row st)" for S f x
    using load_put [OF good_staysD(1) [OF conservedD(1) [OF c]] e(4)] e(3) by simp
  have "held_at d' f x = load d' StayReserved f x \<and> occupied_at d' f x = load d' StayArrived f x" for f x
    using e(5) conservedD(3,4) [OF c, of f x] unfolding shifted_def l
    by (auto simp: weight_def covers_def new_row_def)
  moreover have "good_stays d'"
    by (rule good_stays_put [OF conservedD(1) [OF c] _ e(4)]) (use e(1,2) in \<open>simp add: good_stay_def new_row_def\<close>)
  moreover have "rooms_ok d'" using e(5) conservedD(2) [OF c] by (simp add: shifted_def)
  ultimately show ?thesis by (simp add: conserved_def)
qed

lemma conserved_transfer:
  assumes c: "conserved d" and r: "transfer sink sid nsid nrid nfac nroute nexp now key d = Inr d'"
  shows "conserved d'"
proof -
  obtain st where t: "transferred d d' sid st nsid (transfer_stay st nsid nrid nfac nroute nexp)"
    and p: "1 \<le> party_size st" "start_date st < end_date st"
    using transfer_effect [OF r] by blast
  let ?new = "transfer_stay st nsid nrid nfac nroute nexp"
  let ?old = "st\<lparr>stay_state := StayDeparted, stay_version := stay_version st + 1\<rparr>"
  obtain mid where st: "get (stays d) sid = Some st" "is_live st" "get (stays d) nsid = None" "nsid \<noteq> sid"
    and ss: "stays d' = put sid ?old (put nsid ?new (stays d))"
    and m: "shifted d mid (stay_facility ?new) (party_size st) 0 (stay_dates st)"
      "shifted mid d' (stay_facility st) (fst (in_bucket st (- party_size st))) (snd (in_bucket st (- party_size st))) (stay_dates st)"
    using t unfolding transferred_def by blast
  have wf: "wf_map (stays d)" using c by (simp add: conserved_def good_stays_def)
  have l: "load d' S f x = load d S f x + weight S f x ?new + weight S f x ?old - weight S f x st" for S f x
    using wf st by (simp add: load_def ss total_of_put)
  have "held_at d' f x = load d' StayReserved f x \<and> occupied_at d' f x = load d' StayArrived f x" for f x
    using m conservedD(3,4) [OF c, of f x] st(2) unfolding shifted_def l
    by (auto simp: weight_def covers_def transfer_stay_def in_bucket_def is_live_def)
  moreover have "good_stays d'"
  proof -
    have "good_stay sid ?old" "good_stay nsid ?new"
      using good_staysD(2) [OF conservedD(1) [OF c] st(1)] p by (simp_all add: good_stay_def transfer_stay_def)
    then show ?thesis
      using conservedD(1) [OF c] st(4) by (auto simp: good_stays_def ss)
  qed
  moreover have "rooms_ok d'" using m conservedD(2) [OF c] by (simp add: shifted_def)
  ultimately show ?thesis by (simp add: conserved_def)
qed

lemma conserved_frame:
  assumes "conserved d" "stays d' = stays d" "\<And>k. get (inventory d') k \<noteq> get (inventory d) k \<Longrightarrow>
      \<exists>r. get (inventory d') k = Some r \<and> fitting r
        \<and> held r = (case get (inventory d) k of None \<Rightarrow> 0 | Some u \<Rightarrow> held u)
        \<and> occupied r = (case get (inventory d) k of None \<Rightarrow> 0 | Some u \<Rightarrow> occupied u)"
  shows "conserved d'"
proof -
  have "held_at d' f x = held_at d f x" "occupied_at d' f x = occupied_at d f x" for f x
    using assms(3) [of "(f, x)"]
    by (cases "get (inventory d') (f, x) = get (inventory d) (f, x)"; force simp: held_at_def occupied_at_def)+
  moreover have "rooms_ok d'"
    using assms(3) conservedD(2) [OF assms(1)] unfolding rooms_ok_def by (metis option.inject)
  moreover have "good_stays d'" using conservedD(1) [OF assms(1)] assms(2) by (simp add: good_stays_def)
  ultimately show ?thesis using assms(1,2) by (simp add: conserved_def load_def)
qed

lemma conserved_ensure: "conserved d \<Longrightarrow> ensure_inventory f x cap d = Inr d' \<Longrightarrow> conserved d'"
  by (erule conserved_frame) (auto simp: ensure_inventory_def has_key_def fitting_def split: if_splits)

lemma conserved_insert_reservation: "conserved d \<Longrightarrow> insert_reservation rid r d = Inr d' \<Longrightarrow> conserved d'"
  by (erule conserved_frame) (auto simp: insert_reservation_Inr)

lemma conserved_reserve_p3:
  assumes c: "conserved d" and r: "reserve_p3 sink rid res now v d = Inr d'"
  shows "conserved d'"
proof -
  let ?k = "(res_facility res, service_date res)"
  let ?f = "\<lambda>row. row\<lparr>reserved := reserved row + res_party res, inv_version := inv_version row + 1\<rparr>"
  obtain m d1 e where m: "exec_conditional False (\<lambda>row. inv_version row = v \<and> reserved row + res_party res \<le> capacity row) ?f ?k (inventory d) = Inr m"
    and d1: "insert_reservation rid (res\<lparr>res_state := StayReserved\<rparr>) (d\<lparr>inventory := m\<rparr>) = Inr d1"
    and rec: "record_event sink e d1 = Inr d'"
    using r by (auto simp: reserve_p3_def Let_def bind_res_Inr split: sum.splits option.splits if_splits)
  obtain row where row: "get (inventory d) ?k = Some row" "m = put ?k (?f row) (inventory d)"
    using m by (auto simp: exec_conditional_Inr)
  have "d' = d1\<lparr>audit_rows := audit_rows d'\<rparr>" by (rule record_event_frame [OF rec])
  then have "stays d' = stays d1 \<and> inventory d' = inventory d1"
    by (metis db.select_convs(1,3) db.surjective db.update_convs(4))
  then have d': "stays d' = stays d" "inventory d' = m" using d1 by (auto simp: insert_reservation_Inr)
  show ?thesis
  proof (rule conserved_frame [OF c d'(1)])
    fix k
    assume "get (inventory d') k \<noteq> get (inventory d) k"
    then have k: "k = ?k" by (auto simp: d'(2) row(2) split: if_splits)
    have "fitting row" using conservedD(2) [OF c] row(1) unfolding rooms_ok_def by blast
    then show "\<exists>r. get (inventory d') k = Some r \<and> fitting r
        \<and> held r = (case get (inventory d) k of None \<Rightarrow> 0 | Some u \<Rightarrow> held u)
        \<and> occupied r = (case get (inventory d) k of None \<Rightarrow> 0 | Some u \<Rightarrow> occupied u)"
      by (simp add: k d'(2) row fitting_def)
  qed
qed

section \<open>Runs\<close>

datatype stay_ev =
  EvReserve stay time string
| EvArrive string time string
| EvCancel string time string
| EvExpire string time string
| EvDepart string time string
| EvExtend string int time string
| EvTransfer string string string string "string option" "time option" time string
| EvCorrect string int string string time string
| EvReservation string reservation_row
| EvInventory string int int
| EvReserveP3 string reservation_row time int

fun stay_op :: "sql_lib option \<Rightarrow> stay_ev \<Rightarrow> db \<Rightarrow> st_error + db" where
  "stay_op sink (EvReserve st now key) = reserve sink st now key"
| "stay_op sink (EvArrive i now key) = arrive sink i now key"
| "stay_op sink (EvCancel i now key) = cancel sink i now key"
| "stay_op sink (EvExpire i now key) = expire sink i now key"
| "stay_op sink (EvDepart i now key) = depart sink i now key"
| "stay_op sink (EvExtend i e now key) = extend sink i e now key"
| "stay_op sink (EvTransfer i ni nr nf rt ex now key) = transfer sink i ni nr nf rt ex now key"
| "stay_op sink (EvCorrect i n op rsn now key) = correct sink i n op rsn now key"
| "stay_op sink (EvReservation i r) = insert_reservation i r"
| "stay_op sink (EvInventory f x cap) = ensure_inventory f x cap"
| "stay_op sink (EvReserveP3 i r now v) = reserve_p3 sink i r now v"

text \<open>One transaction: an error leaves the database as it was.\<close>

definition stay_step :: "sql_lib option \<Rightarrow> db \<Rightarrow> stay_ev \<Rightarrow> db" where
  "stay_step sink d e = fst (in_tx (\<lambda>d. bind_res (stay_op sink e d) (\<lambda>d'. Inr (d', ()))) d)"

lemma stay_step_cases:
  obtains (refused) x where "stay_op sink e d = Inl x" "stay_step sink d e = d"
    | (accepted) d' where "stay_op sink e d = Inr d'" "stay_step sink d e = d'"
  by (cases "stay_op sink e d") (auto simp: stay_step_def in_tx_def)

lemma conserved_step: "conserved d \<Longrightarrow> conserved (stay_step sink d e)"
proof (cases rule: stay_step_cases [of sink e d])
  case (accepted d')
  assume c: "conserved d"
  show ?thesis
    unfolding accepted(2) using accepted(1)
    by (cases e) (auto intro: conserved_reserve [OF c] conserved_arrive [OF c] conserved_cancel [OF c]
        conserved_expire [OF c] conserved_depart [OF c] conserved_extend [OF c] conserved_transfer [OF c]
        conserved_correct [OF c] conserved_insert_reservation [OF c] conserved_ensure [OF c] conserved_reserve_p3 [OF c])
qed simp

interpretation stays: event_system "stay_step sink" conserved for sink
  by unfold_locales (rule conserved_step)

end
