(* ===== verification/Stay_Lifecycle.thy ===== *)
theory Stay_Lifecycle
  imports Stay_Conservation
begin

text \<open>
  The properties of the stays: capacity is conserved by every run of the operations, the
  reservation takes exactly the space there is, a live stay can always be released, a
  transfer moves the space it takes, the expiry worker leaves no due hold behind, and the
  row of a stay follows its lifecycle.
\<close>

section \<open>When the inventory can be changed\<close>

definition has_room :: "db \<Rightarrow> string \<Rightarrow> int \<Rightarrow> int \<Rightarrow> int \<Rightarrow> bool" where
  "has_room d f h o' x \<longleftrightarrow> (case get (inventory d) (f, x) of None \<Rightarrow> False | Some r \<Rightarrow> room h o' r)"

definition has_row :: "db \<Rightarrow> string \<Rightarrow> int \<Rightarrow> bool" where
  "has_row d f x \<longleftrightarrow> get (inventory d) (f, x) \<noteq> None"

lemma adjust_inventory_result:
  "adjust_inventory f h o' x d =
     (if has_room d f h o' x
      then Inr (d\<lparr>inventory := put (f, x) (shift_row h o' (the (get (inventory d) (f, x)))) (inventory d)\<rparr>)
      else Inl ErrVersionConflict)"
  by (auto simp: adjust_inventory_def has_room_def exec_conditional_def split: option.splits)

lemma adjust_dates_result:
  "distinct xs \<Longrightarrow>
     (if \<forall>x \<in> set xs. has_room d f h o' x then \<exists>d'. adjust_dates f h o' xs d = Inr d'
      else adjust_dates f h o' xs d = Inl ErrVersionConflict)"
proof (induction xs arbitrary: d)
  case Nil
  then show ?case by (simp add: adjust_dates_def)
next
  case (Cons x xs)
  show ?case
  proof (cases "has_room d f h o' x")
    case True
    let ?d = "d\<lparr>inventory := put (f, x) (shift_row h o' (the (get (inventory d) (f, x)))) (inventory d)\<rparr>"
    have "has_room ?d f h o' y = has_room d f h o' y" if "y \<in> set xs" for y
      using that Cons.prems by (auto simp: has_room_def)
    then have "(\<forall>y \<in> set xs. has_room ?d f h o' y) \<longleftrightarrow> (\<forall>y \<in> set xs. has_room d f h o' y)" by blast
    with Cons.IH [of ?d] Cons.prems
    have "if \<forall>y \<in> set xs. has_room d f h o' y then \<exists>d'. adjust_dates f h o' xs ?d = Inr d'
      else adjust_dates f h o' xs ?d = Inl ErrVersionConflict" by simp
    then show ?thesis using True unfolding adjust_dates_def by (simp add: adjust_inventory_result)
  next
    case False
    then show ?thesis by (simp add: adjust_dates_def adjust_inventory_result)
  qed
qed

lemma adjust_dates_possible:
  "distinct xs \<Longrightarrow> (\<exists>d'. adjust_dates f h o' xs d = Inr d') \<longleftrightarrow> (\<forall>x \<in> set xs. has_room d f h o' x)"
  using adjust_dates_result [of xs d f h o'] by (auto split: if_splits)

lemma adjust_dates_refused:
  "distinct xs \<Longrightarrow> adjust_dates f h o' xs d = Inl e \<longleftrightarrow> e = ErrVersionConflict \<and> \<not> (\<forall>x \<in> set xs. has_room d f h o' x)"
  using adjust_dates_result [of xs d f h o'] by (auto split: if_splits)

lemma lock_inventory_None: "lock_inventory f xs d = None \<longleftrightarrow> (\<forall>x \<in> set xs. has_row d f x)"
  by (induction xs) (auto simp: has_row_def)

lemma lock_inventory_not: "lock_inventory f xs d \<noteq> Some ErrCapacityExhausted"
  by (induction xs) auto

lemma has_room_row: "has_room d f h o' x \<Longrightarrow> has_row d f x"
  by (auto simp: has_room_def has_row_def split: option.splits)

section \<open>A live stay has its space\<close>

lemma total_of_member:
  assumes "wf_map m" "get m k = Some v" "\<And>j u. get m j = Some u \<Longrightarrow> 0 \<le> w u"
  shows "w v \<le> total_of w m"
proof -
  obtain us vs where m: "m = us @ (k, v) # vs" using map_of_SomeD [OF assms(2)] by (auto simp: in_set_conv_decomp)
  have nn: "0 \<le> w u" if "(j, u) \<in> set m" for j u using that assms(1,3) by (simp add: get_iff_mem)
  have "0 \<le> sum_list (map (\<lambda>(k, v). w v) us)" "0 \<le> sum_list (map (\<lambda>(k, v). w v) vs)"
    using nn by (force simp: m intro!: sum_list_nonneg)+
  then show ?thesis by (simp add: total_of_def m)
qed

lemma weight_nonneg: "good_stay i st \<Longrightarrow> 0 \<le> weight S f x st"
  by (simp add: weight_def good_stay_def)

lemma conserved_holds:
  assumes c: "conserved d" and st: "get (stays d) i = Some st" "is_live st" and x: "x \<in> set (stay_dates st)"
  shows "\<exists>r. get (inventory d) (stay_facility st, x) = Some r \<and> fitting r
    \<and> (stay_state st = StayReserved \<longrightarrow> party_size st \<le> held r)
    \<and> (stay_state st = StayArrived \<longrightarrow> party_size st \<le> occupied r)"
proof -
  note g = good_staysD [OF conservedD(1) [OF c]]
  have le: "weight S (stay_facility st) x st \<le> load d S (stay_facility st) x" for S
    unfolding load_def by (rule total_of_member [OF g(1) st(1)]) (rule weight_nonneg [OF g(2)])
  have p: "1 \<le> party_size st" using g(2) [OF st(1)] by (simp add: good_stay_def)
  have h: "stay_state st = StayReserved \<Longrightarrow> party_size st \<le> held_at d (stay_facility st) x"
    "stay_state st = StayArrived \<Longrightarrow> party_size st \<le> occupied_at d (stay_facility st) x"
    using le [of StayReserved] le [of StayArrived] x
    by (auto simp: conservedD(3,4) [OF c] weight_def covers_def)
  then obtain r where r: "get (inventory d) (stay_facility st, x) = Some r"
    using st(2) p by (auto simp: is_live_def held_at_def occupied_at_def split: option.splits)
  show ?thesis
    using h conservedD(2) [OF c] r by (auto simp: held_at_def occupied_at_def rooms_ok_def)
qed

text \<open>So every change that gives space back, or moves it from held to occupied, finds room.\<close>

lemma release_has_room:
  assumes "conserved d" "get (stays d) i = Some st" "is_live st" "x \<in> set (stay_dates st)"
  shows "stay_state st = StayReserved \<Longrightarrow> has_room d (stay_facility st) (- party_size st) 0 x"
    and "stay_state st = StayReserved \<Longrightarrow> has_room d (stay_facility st) (- party_size st) (party_size st) x"
    and "stay_state st = StayArrived \<Longrightarrow> has_room d (stay_facility st) 0 (- party_size st) x"
    and "has_row d (stay_facility st) x"
proof -
  obtain r where r: "get (inventory d) (stay_facility st, x) = Some r" "fitting r"
    "stay_state st = StayReserved \<longrightarrow> party_size st \<le> held r"
    "stay_state st = StayArrived \<longrightarrow> party_size st \<le> occupied r"
    using conserved_holds [OF assms] by blast
  have "1 \<le> party_size st"
    using good_staysD(2) [OF conservedD(1) [OF assms(1)] assms(2)] by (simp add: good_stay_def)
  then show "stay_state st = StayReserved \<Longrightarrow> has_room d (stay_facility st) (- party_size st) 0 x"
    and "stay_state st = StayReserved \<Longrightarrow> has_room d (stay_facility st) (- party_size st) (party_size st) x"
    and "stay_state st = StayArrived \<Longrightarrow> has_room d (stay_facility st) 0 (- party_size st) x"
    and "has_row d (stay_facility st) x"
    using r by (auto simp: has_room_def room_def fitting_def has_row_def)
qed

section \<open>When the audit takes an event\<close>

definition audit_takes :: "sql_lib option \<Rightarrow> string \<Rightarrow> db \<Rightarrow> bool" where
  "audit_takes sink i d \<longleftrightarrow> (case sink of None \<Rightarrow> True
     | Some lib \<Rightarrow> i \<notin> set (map (\<lambda>r. ev_id (ev r)) (audit_rows d)) \<and> (\<forall>s. length (sha_hex lib s) = 64))"

lemma record_event_possible: "audit_takes sink (ev_id e) d \<Longrightarrow> \<exists>d'. record_event sink e d = Inr d'"
  by (auto simp: record_event_def audit_takes_def record_row_def Let_def check_simps bind_res_Inr
      compute_event_hash_def split: option.splits)

section \<open>When an operation is possible\<close>

lemma audit_takes_frame: "audit_takes sink i d \<Longrightarrow> audit_rows d' = audit_rows d \<Longrightarrow> audit_takes sink i d'"
  by (auto simp: audit_takes_def split: option.splits)

lemma move_possible:
  assumes st: "get (stays d) sid = Some st" and xs: "distinct xs" "\<forall>x \<in> set xs. has_room d f h o' x"
    and a: "audit_takes sink (ev_id e) d"
  shows "\<exists>d2 d3 d4 d5. adjust_dates f h o' xs d = Inr d2 \<and> update_stay sid (stay_version st) u d2 = Inr d3
    \<and> record_event sink e d3 = Inr d4 \<and> record_event sink e (touch_stay sid g d3) = Inr d5"
proof -
  obtain d2 where d2: "adjust_dates f h o' xs d = Inr d2" using adjust_dates_possible xs by blast
  obtain m where m: "d2 = d\<lparr>inventory := m\<rparr>" using adjust_dates_shifted [OF d2 xs(1)] by blast
  let ?d3 = "d2\<lparr>stays := put sid ((u st)\<lparr>stay_version := stay_version st + 1\<rparr>) (stays d)\<rparr>"
  have d3: "update_stay sid (stay_version st) u d2 = Inr ?d3"
    using st by (auto simp: update_stay_Inr m)
  have "\<exists>d4. record_event sink e ?d3 = Inr d4" "\<exists>d5. record_event sink e (touch_stay sid g ?d3) = Inr d5"
    by (rule record_event_possible [OF audit_takes_frame [OF a]]; simp add: m touch_stay_def)+
  then show ?thesis using d2 d3 by blast
qed

lemma cancel_possible:
  assumes "conserved d" "get (stays d) sid = Some st" "stay_state st = StayReserved"
    "audit_takes sink (audit_event_id sid ''STAY_CANCEL'' (stay_session st) key) d"
  shows "\<exists>d'. cancel sink sid now key d = Inr d'"
proof -
  have l: "is_live st" using assms(3) by (simp add: is_live_def)
  note room = release_has_room [OF assms(1,2) l]
  show ?thesis
    using move_possible [OF assms(2) distinct_stay_dates [of st], of "stay_facility st" "- party_size st" 0 sink
        "stay_event sid (stay_session st) ''STAY_CANCEL'' [] ''RESERVED'' ''CANCELLED'' now key" "\<lambda>st. st\<lparr>stay_state := StayCancelled\<rparr>" id]
      assms room(1,4)
    by (auto simp: cancel_def release_held_def bind_res_Inr lock_inventory_None set_state_def record_stay_def stay_event_def)
qed

lemma expire_possible:
  assumes "conserved d" "get (stays d) sid = Some st" "stay_state st = StayReserved" "due now st"
    "audit_takes sink (audit_event_id sid ''STAY_EXPIRE'' (stay_session st) key) d"
  shows "\<exists>d'. expire sink sid now key d = Inr d'"
proof -
  have l: "is_live st" using assms(3) by (simp add: is_live_def)
  note room = release_has_room [OF assms(1,2) l]
  show ?thesis
    using move_possible [OF assms(2) distinct_stay_dates [of st], of "stay_facility st" "- party_size st" 0 sink
        "stay_event sid (stay_session st) ''STAY_EXPIRE'' [] ''RESERVED'' ''EXPIRED'' now key" "\<lambda>st. st\<lparr>stay_state := StayExpired\<rparr>" id]
      assms room(1,4)
    by (auto simp: expire_def release_held_def bind_res_Inr lock_inventory_None set_state_def record_stay_def stay_event_def)
qed

lemma arrive_possible:
  assumes "conserved d" "get (stays d) sid = Some st" "stay_state st = StayReserved" "\<not> due now st"
    "audit_takes sink (audit_event_id sid ''STAY_ARRIVE'' (stay_session st) key) d"
  shows "\<exists>d'. arrive sink sid now key d = Inr d'"
proof -
  have l: "is_live st" using assms(3) by (simp add: is_live_def)
  note room = release_has_room [OF assms(1,2) l]
  show ?thesis
    using move_possible [OF assms(2) distinct_stay_dates [of st], of "stay_facility st" "- party_size st" "party_size st" sink
        "stay_event sid (stay_session st) ''STAY_ARRIVE'' [] ''RESERVED'' ''ARRIVED'' now key"
        "\<lambda>st. st\<lparr>stay_state := StayArrived\<rparr>" "\<lambda>st. st\<lparr>arrived_at := Some now\<rparr>"]
      assms room(2,4)
    by (auto simp: arrive_def bind_res_Inr lock_inventory_None set_state_def record_stay_def stay_event_def)
qed

lemma depart_possible:
  assumes "conserved d" "get (stays d) sid = Some st" "stay_state st = StayArrived"
    "audit_takes sink (audit_event_id sid ''STAY_DEPART'' (stay_session st) key) d"
  shows "\<exists>d'. depart sink sid now key d = Inr d'"
proof -
  have l: "is_live st" using assms(3) by (simp add: is_live_def)
  note room = release_has_room [OF assms(1,2) l]
  show ?thesis
    using move_possible [OF assms(2) distinct_stay_dates [of st], of "stay_facility st" 0 "- party_size st" sink
        "stay_event sid (stay_session st) ''STAY_DEPART'' [] ''ARRIVED'' ''DEPARTED'' now key"
        "\<lambda>st. st\<lparr>stay_state := StayDeparted\<rparr>" "\<lambda>st. st\<lparr>departed_at := Some now\<rparr>"]
      assms room(3,4)
    by (auto simp: depart_def bind_res_Inr lock_inventory_None set_state_def record_stay_def stay_event_def)
qed

section \<open>A database to run on\<close>

definition blank_db :: db where
  "blank_db = \<lparr>inventory = [], reservations = [], stays = [], audit_rows = [], idem_keys = [], sessions = [], grants = [],
     facilities = [], packages = [], sources = [], authorizations = [], artifact_evidence = [], zone_versions = [],
     route_versions = [], open_closures = [], published_manifests = [], published_cards = [], published_resources = []\<rparr>"

definition demo_inv :: inv_row where
  "demo_inv = \<lparr>capacity = 4, reserved = 0, held = 0, occupied = 0, inv_version = 1\<rparr>"

text \<open>Two shelters with four places on the days 1, 2 and 3.\<close>

definition demo_db :: db where
  "demo_db = blank_db\<lparr>inventory := map (\<lambda>k. (k, demo_inv)) [(''f'', 1), (''f'', 2), (''f'', 3), (''g'', 1), (''g'', 2), (''g'', 3)],
     reservations := [(''r'', \<lparr>res_session = ''s'', res_facility = ''f'', service_date = 1, res_party = 3, res_state = StayReserved, res_expires = None\<rparr>)],
     sessions := [(''s'', \<lparr>principal_kind = ''CITIZEN'', sess_jurisdiction = None, credential_ref = ''c'', sess_expires = 100,
       sess_revoked = None, mfa_verified_at = None, operator_subject = None, operator_grant_id = None\<rparr>)],
     facilities := [(''f'', \<lparr>fac_package = ''p'', fac_zone = ''z''\<rparr>), (''g'', \<lparr>fac_package = ''p'', fac_zone = ''z''\<rparr>)],
     packages := [(''p'', \<lparr>pkg_source = ''src'', pkg_artifact = ''a'', pkg_version = 1, pkg_jurisdiction = ''IN'', pkg_evidence = ''e'',
       effective_at = 0, pkg_expires = 100, superseded_by = None, pkg_body = []\<rparr>)]\<rparr>"

definition demo_stay :: stay where
  "demo_stay = \<lparr>stay_id = ''x'', reservation_id = ''r'', stay_session = ''s'', stay_facility = ''f'', party_size = 3,
     start_date = 1, end_date = 3, stay_state = StayReserved, stay_package = ''p'', route_id = None, stay_version = 1,
     expires_at = Some 10, transferred_from = None, arrived_at = None, departed_at = None\<rparr>"

text \<open>No stay, and nothing held or occupied.\<close>

definition fresh_db :: "db \<Rightarrow> bool" where
  "fresh_db d \<longleftrightarrow> stays d = [] \<and> list_all (\<lambda>(k, r). held r = 0 \<and> occupied r = 0 \<and> 0 \<le> capacity r) (inventory d)"

lemma fresh_conserved: "fresh_db d \<Longrightarrow> conserved d"
  by (fastforce simp: fresh_db_def conserved_def good_stays_def rooms_ok_def fitting_def held_at_def occupied_at_def
      load_def list_all_iff dest!: map_of_SomeD split: option.split)

lemma demo_fresh [simp]: "fresh_db demo_db"
  by code_simp

section \<open>Capacity\<close>

text \<open>However the operations of stays follow one another, successful or refused, from a database
  without stays and with empty buckets: at every facility and on every date the held spaces are
  those of the reserved stays that cover the date, the occupied ones those of the arrived stays,
  and together they never exceed the capacity.\<close>

theorem stay_capacity_conserved:
  assumes "fresh_db d0"
  shows "held_at (run (stay_step sink) d0 es) f x = load (run (stay_step sink) d0 es) StayReserved f x
    \<and> occupied_at (run (stay_step sink) d0 es) f x = load (run (stay_step sink) d0 es) StayArrived f x
    \<and> (case get (inventory (run (stay_step sink) d0 es)) (f, x) of None \<Rightarrow> True
       | Some r \<Rightarrow> 0 \<le> held r \<and> 0 \<le> occupied r \<and> held r + occupied r \<le> capacity r)"
proof -
  have c: "conserved (run (stay_step sink) d0 es)" by (rule stays.inv_run [OF fresh_conserved [OF assms]])
  then show ?thesis
    using conservedD(2) [OF c] by (auto simp: conservedD(3,4) [OF c] rooms_ok_def fitting_def split: option.split)
qed

text \<open>Three people reserve, a second party of two finds no space, and the first arrives.\<close>

definition demo_run :: "stay_ev list" where
  "demo_run = [EvReserve demo_stay 1 ''k1'', EvReserve (demo_stay\<lparr>stay_id := ''y'', party_size := 2\<rparr>) 1 ''k2'', EvArrive ''x'' 5 ''k3'']"

theorem stay_capacity_conserved_witness:
  "occupied_at (run (stay_step None) demo_db demo_run) ''f'' 2 = load (run (stay_step None) demo_db demo_run) StayArrived ''f'' 2
    \<and> load (run (stay_step None) demo_db demo_run) StayArrived ''f'' 2 = 3"
proof
  show "load (run (stay_step None) demo_db demo_run) StayArrived ''f'' 2 = 3" by code_simp
qed (use stay_capacity_conserved [OF demo_fresh] in blast)

text \<open>C22: No live stay is stuck: in every database that the operations reach, a reserved stay can be
  cancelled, one whose hold is due can be expired and any other can arrive, and an arrived stay can
  depart, provided the audit log takes the events. No bucket is ever missing or too low.\<close>

theorem stay_never_stuck:
  assumes "fresh_db d0" and "d = run (stay_step sink) d0 es" and "get (stays d) sid = Some st"
    and "\<forall>act \<in> {''STAY_CANCEL'', ''STAY_EXPIRE'', ''STAY_ARRIVE'', ''STAY_DEPART''}.
      audit_takes sink (audit_event_id sid act (stay_session st) key) d"
  shows "(stay_state st = StayReserved \<longrightarrow> (\<exists>d'. cancel sink sid now key d = Inr d')
      \<and> (if due now st then \<exists>d'. expire sink sid now key d = Inr d' else \<exists>d'. arrive sink sid now key d = Inr d'))
    \<and> (stay_state st = StayArrived \<longrightarrow> (\<exists>d'. depart sink sid now key d = Inr d'))"
proof -
  have c: "conserved d" unfolding assms(2) by (rule stays.inv_run [OF fresh_conserved [OF assms(1)]])
  show ?thesis
    using cancel_possible [OF c assms(3)] expire_possible [OF c assms(3)] arrive_possible [OF c assms(3)]
      depart_possible [OF c assms(3)] assms(4) by auto
qed

theorem stay_never_stuck_witness:
  "\<exists>d'. expire None ''x'' 12 ''k'' (run (stay_step None) demo_db [EvReserve demo_stay 1 ''k1'']) = Inr d'"
proof -
  have "get (stays (run (stay_step None) demo_db [EvReserve demo_stay 1 ''k1''])) ''x'' = Some (new_row demo_stay)"
    by code_simp
  from stay_never_stuck [OF demo_fresh refl this, of "''k''" 12]
  show ?thesis by (simp add: audit_takes_def new_row_def demo_stay_def due_def)
qed

section \<open>Reserving\<close>

definition fits :: "db \<Rightarrow> string \<Rightarrow> int \<Rightarrow> int \<Rightarrow> bool" where
  "fits d f n x \<longleftrightarrow> (case get (inventory d) (f, x) of None \<Rightarrow> False | Some r \<Rightarrow> held r + occupied r + n \<le> capacity r)"

text \<open>The row keys of a stay: its identifier is new, and what it refers to exists.\<close>

definition keys_ok :: "db \<Rightarrow> stay \<Rightarrow> bool" where
  "keys_ok d st \<longleftrightarrow> \<not> has_key (stays d) (stay_id st) \<and> has_key (reservations d) (reservation_id st)
     \<and> has_key (sessions d) (stay_session st) \<and> has_key (facilities d) (stay_facility st) \<and> has_key (packages d) (stay_package st)"

lemma fits_has_room: "rooms_ok d \<Longrightarrow> 0 \<le> n \<Longrightarrow> has_room d f n 0 x \<longleftrightarrow> fits d f n x"
proof (cases "get (inventory d) (f, x)")
  case (Some r)
  assume "rooms_ok d" "0 \<le> n"
  then have "fitting r" using Some unfolding rooms_ok_def by blast
  then show ?thesis using Some \<open>0 \<le> n\<close> by (auto simp: has_room_def fits_def room_def fitting_def)
qed (simp add: has_room_def fits_def)


lemma insert_stay_Inl: "insert_stay st d \<noteq> Inl ErrCapacityExhausted"
proof
  assume "insert_stay st d = Inl ErrCapacityExhausted"
  then show False unfolding insert_stay_def by (auto simp: check_def dest!: first_err_SomeD split: if_splits)
qed

lemma record_event_Inl: "record_event sink e d \<noteq> Inl ErrCapacityExhausted"
proof (cases sink)
  case (Some lib)
  have "record_row lib e (audit_rows d) \<noteq> Inl ErrCapacityExhausted"
    unfolding record_row_def Let_def by (auto simp: check_def dest!: first_err_SomeD split: if_splits)
  then show ?thesis using Some by (auto simp: record_event_def bind_res_Inl)
qed (simp add: record_event_def)

lemma as_exhausted_Inl: "as_exhausted r = Inl ErrCapacityExhausted \<longleftrightarrow> r = Inl ErrVersionConflict \<or> r = Inl ErrCapacityExhausted"
  by (cases r rule: as_exhausted.cases) auto

lemma reserve_refused:
  "reserve sink st now key d = Inl ErrCapacityExhausted \<longleftrightarrow> stay_dates st \<noteq> []
     \<and> (\<forall>x \<in> set (stay_dates st). has_row d (stay_facility st) x)
     \<and> \<not> (\<forall>x \<in> set (stay_dates st). has_room d (stay_facility st) (party_size st) 0 x)"
  unfolding reserve_def Let_def record_stay_def
  by (auto simp: bind_res_Inl insert_stay_Inl record_event_Inl as_exhausted_Inl adjust_dates_refused lock_dates_def
      lock_inventory_None lock_inventory_not)

lemma reserve_accepted:
  assumes "audit_takes sink (audit_event_id (stay_id st) ''STAY_RESERVE'' (stay_session st) key) d"
  shows "(\<exists>d'. reserve sink st now key d = Inr d') \<longleftrightarrow> start_date st < end_date st \<and> 1 \<le> party_size st \<and> keys_ok d st
     \<and> (\<forall>x \<in> set (stay_dates st). has_room d (stay_facility st) (party_size st) 0 x)"
    (is "?L \<longleftrightarrow> ?R")
proof
  assume ?L
  then obtain d' d2 d3 where r: "reserve sink st now key d = Inr d'"
    and a: "adjust_dates (stay_facility st) (party_size st) 0 (stay_dates st) d = Inr d2" "insert_stay (new_row st) d2 = Inr d3"
    by (auto simp: reserve_def Let_def bind_res_Inr split: if_splits)
  obtain m where m: "d2 = d\<lparr>inventory := m\<rparr>" using adjust_dates_shifted [OF a(1)] by (metis distinct_stay_dates)
  show ?R
    using a(2) adjust_dates_possible [OF distinct_stay_dates [of st], THEN iffD1, OF exI, OF a(1)]
    by (auto simp: insert_stay_Inr m keys_ok_def new_row_def has_key_def)
next
  assume r: ?R
  then obtain d2 where d2: "adjust_dates (stay_facility st) (party_size st) 0 (stay_dates st) d = Inr d2"
    using adjust_dates_possible [OF distinct_stay_dates [of st]] by blast
  obtain m where m: "d2 = d\<lparr>inventory := m\<rparr>" using adjust_dates_shifted [OF d2] by (metis distinct_stay_dates)
  let ?d3 = "d2\<lparr>stays := put (stay_id st) (new_row st) (stays d)\<rparr>"
  have d3: "insert_stay (new_row st) d2 = Inr ?d3"
    using r by (simp add: insert_stay_Inr m keys_ok_def new_row_def has_key_def)
  obtain d4 where d4: "record_stay sink (stay_id st) (stay_session st) ''STAY_RESERVE'' [] ''RESERVED'' now key ?d3 = Inr d4"
  proof -
    have "audit_takes sink (audit_event_id (stay_id st) ''STAY_RESERVE'' (stay_session st) key) ?d3"
      by (rule audit_takes_frame [OF assms]) (simp add: m)
    then show thesis
      using that record_event_possible [of sink "stay_event (stay_id st) (stay_session st) ''STAY_RESERVE'' [] [] ''RESERVED'' now key" ?d3]
      by (auto simp: record_stay_def stay_event_def)
  qed
  have "stay_dates st \<noteq> []" using r by (simp add: stay_dates_def date_range_Nil)
  moreover have "lock_inventory (stay_facility st) (stay_dates st) d = None"
    using r has_room_row by (auto simp: lock_inventory_None)
  ultimately show ?L using d2 d3 d4 by (simp add: reserve_def lock_dates_def require_def)
qed

text \<open>C8: A reservation takes exactly the space there is. In every database that the operations reach, a
  stay of at least one person is refused as CapacityExhausted when its dates all have an inventory row
  and some date has fewer free spaces than the party; it succeeds exactly when it covers a date, every
  date has the space, its identifier is new and its reservation, session, facility and package exist;
  and then each date of the interval, and no other, holds the party in addition.\<close>

theorem reserve_exact:
  assumes "fresh_db d0" and "d = run (stay_step sink) d0 es" and "1 \<le> party_size st"
    and "audit_takes sink (audit_event_id (stay_id st) ''STAY_RESERVE'' (stay_session st) key) d"
  shows "(reserve sink st now key d = Inl ErrCapacityExhausted \<longleftrightarrow> start_date st < end_date st
        \<and> (\<forall>x. start_date st \<le> x \<and> x < end_date st \<longrightarrow> has_row d (stay_facility st) x)
        \<and> (\<exists>x. start_date st \<le> x \<and> x < end_date st \<and> \<not> fits d (stay_facility st) (party_size st) x))
    \<and> ((\<exists>d'. reserve sink st now key d = Inr d') \<longleftrightarrow> start_date st < end_date st \<and> keys_ok d st
        \<and> (\<forall>x. start_date st \<le> x \<and> x < end_date st \<longrightarrow> fits d (stay_facility st) (party_size st) x))
    \<and> (\<forall>d'. reserve sink st now key d = Inr d' \<longrightarrow> (\<forall>f x. occupied_at d' f x = occupied_at d f x
        \<and> held_at d' f x = held_at d f x + (if covers st f x then party_size st else 0)))"
proof (intro conjI allI impI)
  have "rooms_ok d" unfolding assms(2) by (rule conservedD(2) [OF stays.inv_run [OF fresh_conserved [OF assms(1)]]])
  note fit = fits_has_room [OF this, of "party_size st", symmetric]
  show "reserve sink st now key d = Inl ErrCapacityExhausted \<longleftrightarrow> start_date st < end_date st
      \<and> (\<forall>x. start_date st \<le> x \<and> x < end_date st \<longrightarrow> has_row d (stay_facility st) x)
      \<and> (\<exists>x. start_date st \<le> x \<and> x < end_date st \<and> \<not> fits d (stay_facility st) (party_size st) x)"
    using assms(3) by (auto simp: reserve_refused fit stay_dates_def date_range_Nil)
  show "(\<exists>d'. reserve sink st now key d = Inr d') \<longleftrightarrow> start_date st < end_date st \<and> keys_ok d st
      \<and> (\<forall>x. start_date st \<le> x \<and> x < end_date st \<longrightarrow> fits d (stay_facility st) (party_size st) x)"
    using assms(3) by (auto simp: reserve_accepted [OF assms(4)] fit)
next
  fix d' f x
  assume "reserve sink st now key d = Inr d'"
  note e = reserve_effect [OF this]
  show "occupied_at d' f x = occupied_at d f x"
    and "held_at d' f x = held_at d f x + (if covers st f x then party_size st else 0)"
    using e unfolding shifted_def covers_def by auto
qed

theorem reserve_exact_witness:
  "reserve None (demo_stay\<lparr>stay_id := ''y'', party_size := 2\<rparr>) 1 ''k2''
     (run (stay_step None) demo_db [EvReserve demo_stay 1 ''k1'']) = Inl ErrCapacityExhausted"
proof -
  let ?d = "run (stay_step None) demo_db [EvReserve demo_stay 1 ''k1'']"
  let ?st = "demo_stay\<lparr>stay_id := ''y'', party_size := 2\<rparr>"
  have d: "1 \<le> party_size ?st" "start_date ?st = 1" "end_date ?st = 3" "stay_facility ?st = ''f''" "party_size ?st = 2"
    by (simp_all add: demo_stay_def)
  have r: "has_row ?d ''f'' 1" "has_row ?d ''f'' 2" "\<not> fits ?d ''f'' 2 1" by code_simp+
  have "has_row ?d ''f'' x" if "1 \<le> x \<and> x < 3" for x :: int
  proof -
    have "x = 1 \<or> x = 2" using that by arith
    then show ?thesis using r by blast
  qed
  then show ?thesis
    using reserve_exact [OF demo_fresh refl d(1), where sink = None and es = "[EvReserve demo_stay 1 ''k1'']"
        and key = "''k2''" and now = 1] r(3) unfolding d by (auto simp: audit_takes_def)
qed

lemma reserve_p3_stays: "reserve_p3 sink rid r now v d = Inr d' \<Longrightarrow> stays d' = stays d"
proof -
  assume "reserve_p3 sink rid r now v d = Inr d'"
  then obtain m d1 e where d1: "insert_reservation rid (r\<lparr>res_state := StayReserved\<rparr>) (d\<lparr>inventory := m\<rparr>) = Inr d1"
    and rec: "record_event sink e d1 = Inr d'"
    by (auto simp: reserve_p3_def Let_def bind_res_Inr split: sum.splits option.splits if_splits)
  have "d' = d1\<lparr>audit_rows := audit_rows d'\<rparr>" by (rule record_event_frame [OF rec])
  then have "stays d' = stays d1" by (metis db.select_convs(3) db.surjective db.update_convs(4))
  then show ?thesis using d1 by (auto simp: insert_reservation_Inr)
qed

section \<open>The lifecycle of a row\<close>

fun may_follow :: "stay_state \<Rightarrow> stay_state \<Rightarrow> bool" where
  "may_follow StayReserved S = True"
| "may_follow StayArrived S = (S = StayArrived \<or> S = StayDeparted)"
| "may_follow T S = (S = T)"

text \<open>
  What may become of a row: its identity is kept, its party only shrinks, its interval only
  grows at the end, its version counts its changes, and an ended stay does not change.
\<close>

definition stay_follows :: "stay \<Rightarrow> stay \<Rightarrow> bool" where
  "stay_follows st st' \<longleftrightarrow>
     st' = st\<lparr>party_size := party_size st', end_date := end_date st', stay_state := stay_state st',
       stay_version := stay_version st', arrived_at := arrived_at st', departed_at := departed_at st'\<rparr>
     \<and> may_follow (stay_state st) (stay_state st') \<and> party_size st' \<le> party_size st \<and> end_date st \<le> end_date st'
     \<and> (stay_version st < stay_version st' \<or> st' = st) \<and> (\<not> is_live st \<longrightarrow> st' = st)"

lemma may_follow_refl [simp]: "may_follow S S"
  by (cases S) simp_all

lemma may_follow_trans: "may_follow S T \<Longrightarrow> may_follow T U \<Longrightarrow> may_follow S U"
  by (cases S; cases T; cases U) simp_all

lemma stay_follows_refl [simp]: "stay_follows st st"
  by (simp add: stay_follows_def)

lemma stay_follows_trans: "stay_follows st st' \<Longrightarrow> stay_follows st' st'' \<Longrightarrow> stay_follows st st''"
  unfolding stay_follows_def
  by (cases st; cases st'; cases st'') (auto intro: may_follow_trans)

lemma moved_stays: "moved d d' sid st st' h o' xs \<Longrightarrow> stays d' = put sid st' (stays d)"
  unfolding moved_def by (auto dest: arg_cong [where f = stays])

lemma moved_follows:
  "moved d d' sid st st' h o' xs \<Longrightarrow> stay_follows st st' \<Longrightarrow> get (stays d) i = Some s
    \<Longrightarrow> \<exists>s'. get (stays d') i = Some s' \<and> stay_follows s s'"
  using moved_stays moved_get by (fastforce split: if_splits)

lemma step_follows:
  assumes "stay_op sink e d = Inr d'" "get (stays d) i = Some s"
  shows "\<exists>s'. get (stays d') i = Some s' \<and> stay_follows s s'"
proof (cases e)
  case (EvReserve st now key)
  have "get (stays d) (stay_id st) = None" "stays d' = put (stay_id st) (new_row st) (stays d)"
    using reserve_effect [of sink st now key d d'] assms EvReserve by (auto dest: arg_cong [where f = stays])
  then show ?thesis using assms(2) by (intro exI [of _ s]) auto
next
  case (EvTransfer sid ni nr nf rt ex now key)
  obtain st where "transferred d d' sid st ni (transfer_stay st ni nr nf rt ex)"
    using transfer_effect [of sink sid ni nr nf rt ex now key d d'] assms EvTransfer by auto
  then have t: "get (stays d) sid = Some st" "is_live st" "get (stays d) ni = None"
    "stays d' = put sid (st\<lparr>stay_state := StayDeparted, stay_version := stay_version st + 1\<rparr>)
       (put ni (transfer_stay st ni nr nf rt ex) (stays d))"
    unfolding transferred_def by simp_all
  show ?thesis
  proof (cases "i = sid")
    case True
    then show ?thesis using t(1,2,4) assms(2) by (auto simp: stay_follows_def is_live_def)
  next
    case False
    then show ?thesis using t(3,4) assms(2) by (intro exI [of _ s]) auto
  qed
next
  case (EvArrive sid now key)
  then obtain st where m: "stay_state st = StayReserved" "moved d d' sid st
      (st\<lparr>stay_state := StayArrived, stay_version := stay_version st + 1, arrived_at := Some now\<rparr>)
      (- party_size st) (party_size st) (stay_dates st)"
    using arrive_moved [of sink sid now key d d'] assms(1) by auto
  show ?thesis by (rule moved_follows [OF m(2) _ assms(2)]) (simp add: stay_follows_def is_live_def m(1))
next
  case (EvCancel sid now key)
  then obtain st where m: "stay_state st = StayReserved" "moved d d' sid st
      (st\<lparr>stay_state := StayCancelled, stay_version := stay_version st + 1\<rparr>) (- party_size st) 0 (stay_dates st)"
    using cancel_moved [of sink sid now key d d'] assms(1) by auto
  show ?thesis by (rule moved_follows [OF m(2) _ assms(2)]) (simp add: stay_follows_def is_live_def m(1))
next
  case (EvExpire sid now key)
  then obtain st where m: "stay_state st = StayReserved" "moved d d' sid st
      (st\<lparr>stay_state := StayExpired, stay_version := stay_version st + 1\<rparr>) (- party_size st) 0 (stay_dates st)"
    using expire_moved [of sink sid now key d d'] assms(1) by auto
  show ?thesis by (rule moved_follows [OF m(2) _ assms(2)]) (simp add: stay_follows_def is_live_def m(1))
next
  case (EvDepart sid now key)
  then obtain st where m: "stay_state st = StayArrived" "moved d d' sid st
      (st\<lparr>stay_state := StayDeparted, stay_version := stay_version st + 1, departed_at := Some now\<rparr>)
      0 (- party_size st) (stay_dates st)"
    using depart_moved [of sink sid now key d d'] assms(1) by auto
  show ?thesis by (rule moved_follows [OF m(2) _ assms(2)]) (simp add: stay_follows_def is_live_def m(1))
next
  case (EvExtend sid e' now key)
  then obtain st h o' xs where m: "is_live st" "end_date st < e'" "moved d d' sid st
      (st\<lparr>end_date := e', stay_version := stay_version st + 1\<rparr>) h o' xs"
    using extend_moved [of sink sid e' now key d d'] assms(1) by auto
  show ?thesis by (rule moved_follows [OF m(3) _ assms(2)]) (simp add: stay_follows_def m(1,2) less_imp_le)
next
  case (EvCorrect sid n op rsn now key)
  show ?thesis
  proof (cases "d' = d")
    case False
    then obtain st h o' xs where m: "is_live st" "n < party_size st" "moved d d' sid st
        (st\<lparr>party_size := n, stay_version := stay_version st + 1\<rparr>) h o' xs"
      using correct_moved [of sink sid n op rsn now key d d'] assms(1) EvCorrect by auto
    show ?thesis by (rule moved_follows [OF m(3) _ assms(2)]) (simp add: stay_follows_def m(1,2) less_imp_le)
  qed (use assms(2) in auto)
next
  case (EvReservation rid r)
  then show ?thesis using assms by (auto simp: insert_reservation_Inr)
next
  case (EvInventory f x cap)
  then show ?thesis using assms by (auto simp: ensure_inventory_def split: if_splits)
next
  case (EvReserveP3 rid r now v)
  then have "stays d' = stays d" using assms(1) reserve_p3_stays by auto
  then show ?thesis using assms(2) by auto
qed

text \<open>C7: The row of a stay is never lost and follows its lifecycle: after any run of operations a stay is
  still there with the same session, reservation, facility, package, route, deadline and first date; its
  state moved only from reserved to arrived, departed, cancelled or expired, or from arrived to departed;
  its party did not grow, its last date did not move back, its version is greater if anything changed,
  and a departed, cancelled or expired stay is exactly as it was.\<close>

theorem stay_lifecycle:
  assumes "get (stays d) i = Some st"
  shows "\<exists>st'. get (stays (run (stay_step sink) d es)) i = Some st' \<and> stay_follows st st'"
  using assms
proof (induction es arbitrary: d st)
  case Nil
  then show ?case by simp
next
  case (Cons e es)
  show ?case
  proof (cases rule: stay_step_cases [of sink e d])
    case (refused x)
    then show ?thesis using Cons by simp
  next
    case (accepted d')
    obtain s' where s': "get (stays d') i = Some s'" "stay_follows st s'"
      using step_follows [OF accepted(1) Cons.prems] by blast
    then show ?thesis using Cons.IH [OF s'(1)] stay_follows_trans [OF s'(2)] accepted(2) by auto
  qed
qed

theorem stay_lifecycle_witness:
  "\<exists>st'. get (stays (run (stay_step None) (run (stay_step None) demo_db [EvReserve demo_stay 1 ''k1''])
     [EvArrive ''x'' 5 ''k2'', EvCancel ''x'' 6 ''k3'', EvDepart ''x'' 7 ''k4''])) ''x'' = Some st' \<and> stay_follows (new_row demo_stay) st'"
  by (rule stay_lifecycle) code_simp

section \<open>Transfers\<close>

text \<open>C21: A transfer moves the space it takes. When it succeeds the origin was live and is now departed; the
  replacement is reserved at the destination for the same session, party and dates with the deadline
  given; no other stay changed; and on each date of the stay, and no other, the destination holds the
  party in addition and the origin has freed it from the bucket it was in, also when both are the
  same facility.\<close>

theorem transfer_moves_space:
  assumes "transfer sink sid nsid nrid nfac nroute nexp now key d = Inr d'"
  shows "\<exists>st. get (stays d) sid = Some st \<and> is_live st \<and> get (stays d) nsid = None
    \<and> stays d' = put sid (st\<lparr>stay_state := StayDeparted, stay_version := stay_version st + 1\<rparr>)
        (put nsid (transfer_stay st nsid nrid nfac nroute nexp) (stays d))
    \<and> (\<forall>f x. held_at d' f x = held_at d f x
          + (if f = nfac \<and> x \<in> set (stay_dates st) then party_size st else 0)
          - (if f = stay_facility st \<and> x \<in> set (stay_dates st) \<and> stay_state st = StayReserved then party_size st else 0)
        \<and> occupied_at d' f x = occupied_at d f x
          - (if f = stay_facility st \<and> x \<in> set (stay_dates st) \<and> stay_state st = StayArrived then party_size st else 0))"
proof -
  obtain st where t: "transferred d d' sid st nsid (transfer_stay st nsid nrid nfac nroute nexp)"
    using transfer_effect [OF assms] by blast
  obtain mid where st: "get (stays d) sid = Some st" "is_live st" "get (stays d) nsid = None"
    and ss: "stays d' = put sid (st\<lparr>stay_state := StayDeparted, stay_version := stay_version st + 1\<rparr>)
        (put nsid (transfer_stay st nsid nrid nfac nroute nexp) (stays d))"
    and m: "shifted d mid nfac (party_size st) 0 (stay_dates st)"
      "shifted mid d' (stay_facility st) (fst (in_bucket st (- party_size st))) (snd (in_bucket st (- party_size st))) (stay_dates st)"
    using t unfolding transferred_def by (auto simp: transfer_stay_def)
  show ?thesis
    using st ss m unfolding shifted_def
    by (intro exI [of _ st]) (auto simp: in_bucket_weights)
qed

theorem transfer_moves_space_witness:
  "\<exists>d'. transfer None ''x'' ''y'' ''r2'' ''g'' None (Some 50) 20 ''k2'' (run (stay_step None) demo_db [EvReserve demo_stay 1 ''k1'']) = Inr d'
     \<and> held_at d' ''g'' 2 = 3 \<and> held_at d' ''f'' 2 = 0"
proof -
  let ?d = "run (stay_step None) demo_db [EvReserve demo_stay 1 ''k1'']"
  let ?t = "transfer None ''x'' ''y'' ''r2'' ''g'' None (Some 50) 20 ''k2'' ?d"
  have ok: "isl ?t = False" by code_simp
  then obtain d' where d': "?t = Inr d'" by (cases ?t) simp_all
  have st: "get (stays ?d) ''x'' = Some (new_row demo_stay)" "held_at ?d ''g'' 2 = 0" "held_at ?d ''f'' 2 = 3" by code_simp+
  show ?thesis
    using transfer_moves_space [OF d'] st d' by (auto simp: new_row_def demo_stay_def)
qed

section \<open>The expiry worker\<close>

lemma expire_audit:
  assumes "expire sink sid now key d = Inr d'" "get (stays d) sid = Some st" "audit_takes sink i d"
    "i \<noteq> audit_event_id sid ''STAY_EXPIRE'' (stay_session st) key"
  shows "audit_takes sink i d'"
proof -
  obtain d2 d3 where a: "release_held st d = Inr d2" and u: "set_state sid (stay_version st) StayExpired d2 = Inr d3"
    and r: "record_stay sink sid (stay_session st) ''STAY_EXPIRE'' ''RESERVED'' ''EXPIRED'' now key d3 = Inr d'"
    using assms(1,2) by (auto simp: expire_def bind_res_Inr split: if_splits)
  obtain m where m: "d2 = d\<lparr>inventory := m\<rparr>"
    using adjust_dates_shifted [OF release_held_Inr [OF a]] by (metis distinct_stay_dates)
  have "audit_rows d3 = audit_rows d" using u by (auto simp: set_state_def update_stay_Inr m)
  then show ?thesis
    using r assms(3,4)
    by (auto simp: record_stay_def stay_event_def record_event_def audit_takes_def record_row_def stored_event_def
        Let_def bind_res_Inr split: option.splits)
qed

lemma event_id_subject:
  "CHR '':'' \<notin> set a \<Longrightarrow> CHR '':'' \<notin> set b \<Longrightarrow> audit_event_id a act s k = audit_event_id b act' s' k' \<Longrightarrow> a = b"
  by (auto simp: audit_event_id_def dest: first_terminator)

definition due_hold :: "sql_lib option \<Rightarrow> time \<Rightarrow> db \<Rightarrow> string \<Rightarrow> bool" where
  "due_hold sink now d i \<longleftrightarrow> CHR '':'' \<notin> set i \<and> (\<exists>st. get (stays d) i = Some st \<and> stay_state st = StayReserved \<and> due now st
     \<and> audit_takes sink (audit_event_id i ''STAY_EXPIRE'' (stay_session st) []) d)"

definition expired_row :: "stay \<Rightarrow> stay" where
  "expired_row st = st\<lparr>stay_state := StayExpired, stay_version := stay_version st + 1\<rparr>"

lemma expire_due_hold:
  assumes c: "conserved d" and h: "due_hold sink now d i"
  obtains d' st where "expire sink i now [] d = Inr d'" "get (stays d) i = Some st" "stays d' = put i (expired_row st) (stays d)"
    "conserved d'" "\<And>j. j \<noteq> i \<Longrightarrow> due_hold sink now d j \<Longrightarrow> due_hold sink now d' j"
proof -
  obtain st where st: "get (stays d) i = Some st" "stay_state st = StayReserved" "due now st" "CHR '':'' \<notin> set i"
    "audit_takes sink (audit_event_id i ''STAY_EXPIRE'' (stay_session st) []) d"
    using h by (auto simp: due_hold_def)
  obtain d' where d': "expire sink i now [] d = Inr d'" using expire_possible [OF c st(1-3,5)] by blast
  have s: "stays d' = put i (expired_row st) (stays d)"
    using expire_moved [OF d'] moved_stays moved_get st(1) unfolding expired_row_def by (metis option.inject)
  have "due_hold sink now d' j" if "j \<noteq> i" "due_hold sink now d j" for j
    using that expire_audit [OF d' st(1)] st(4) event_id_subject unfolding due_hold_def s by (auto, metis)
  then show thesis using that [OF d' st(1) s conserved_expire [OF c d']] by blast
qed

lemma expire_each_exact:
  "conserved d \<Longrightarrow> distinct xs \<Longrightarrow> \<forall>i \<in> set xs. due_hold sink now d i \<Longrightarrow> expire_each sink now xs n d = (d', m) \<Longrightarrow>
     m = n + int (length xs)
     \<and> (\<forall>i. get (stays d') i = (if i \<in> set xs then map_option expired_row (get (stays d) i) else get (stays d) i))"
proof (induction xs arbitrary: n d)
  case (Cons x xs)
  obtain d1 st where d1: "expire sink x now [] d = Inr d1" "get (stays d) x = Some st" "stays d1 = put x (expired_row st) (stays d)"
    "conserved d1" "\<And>j. j \<noteq> x \<Longrightarrow> due_hold sink now d j \<Longrightarrow> due_hold sink now d1 j"
    using expire_due_hold [OF Cons.prems(1), of sink now x] Cons.prems(3) by auto
  have e: "expire_each sink now xs (n + 1) d1 = (d', m)" using Cons.prems(4) d1(1) by (simp add: in_tx_def)
  have "\<forall>i \<in> set xs. due_hold sink now d1 i"
  proof
    fix i
    assume "i \<in> set xs"
    then show "due_hold sink now d1 i" using Cons.prems(2,3) by (intro d1(5)) auto
  qed
  from Cons.IH [OF d1(4) _ this e] Cons.prems(2)
  show ?case using d1(2,3) by auto
qed simp

text \<open>C23: A tick of the expiry worker expires every due hold of its batch, each in a transaction of its own,
  and touches no other stay; it reports how many it expired, and when the batch is not smaller than the
  number of due holds no reserved stay is past its deadline afterwards. Stay identifiers contain no colon
  and their expiry was not audited before.\<close>

theorem tick_expires_due_holds:
  assumes "fresh_db d0" and "d = run (stay_step sink) d0 es" and "tick sink now limit d = (d', n)"
    and "\<forall>i \<in> set (due_stays now limit d). due_hold sink now d i"
  shows "n = int (length (due_stays now limit d))
    \<and> (\<forall>i. get (stays d') i =
         (if i \<in> set (due_stays now limit d) then map_option expired_row (get (stays d) i) else get (stays d) i))
    \<and> (length (stays d) \<le> limit \<longrightarrow> (\<forall>i st. get (stays d') i = Some st \<and> stay_state st = StayReserved \<longrightarrow> \<not> due now st))"
proof -
  have c: "conserved d" unfolding assms(2) by (rule stays.inv_run [OF fresh_conserved [OF assms(1)]])
  have wf: "wf_map (stays d)" using good_staysD(1) [OF conservedD(1) [OF c]] .
  let ?due = "filter (\<lambda>(k, st). stay_state st = StayReserved \<and> due now st) (stays d)"
  have "distinct (map fst ?due)" using wf by (auto simp: wf_map_def intro: distinct_map_filter)
  then have dist: "distinct (due_stays now limit d)" by (simp add: due_stays_def)
  note e = expire_each_exact [OF c dist assms(4), of 0 d' n]
  have ex: "n = int (length (due_stays now limit d)) \<and> (\<forall>i. get (stays d') i =
      (if i \<in> set (due_stays now limit d) then map_option expired_row (get (stays d) i) else get (stays d) i))"
    using e assms(3) unfolding tick_def by simp
  have "\<not> due now st" if l: "length (stays d) \<le> limit" and g: "get (stays d') i = Some st" "stay_state st = StayReserved" for i st
  proof
    assume due: "due now st"
    have "length ?due \<le> limit" using l le_trans [OF length_filter_le] by blast
    then have all: "set (due_stays now limit d) = fst ` set ?due" by (simp add: due_stays_def)
    show False
    proof (cases "i \<in> set (due_stays now limit d)")
      case True
      then show ?thesis using ex g by (auto simp: expired_row_def)
    next
      case False
      then have "get (stays d) i = Some st" using ex g(1) by simp
      then have "(i, st) \<in> set ?due" using due g(2) wf by (simp add: get_iff_mem)
      then show ?thesis using False all by force
    qed
  qed
  then show ?thesis using ex by blast
qed

theorem tick_expires_due_holds_witness:
  "snd (tick None 12 100 (run (stay_step None) demo_db [EvReserve demo_stay 1 ''k1''])) = 1"
proof -
  let ?d = "run (stay_step None) demo_db [EvReserve demo_stay 1 ''k1'']"
  have due: "due_stays 12 100 ?d = [''x'']" by code_simp
  have st: "get (stays ?d) ''x'' = Some (new_row demo_stay)" by code_simp
  obtain d' n where t: "tick None 12 100 ?d = (d', n)" by (cases "tick None 12 100 ?d") blast
  have "\<forall>i \<in> set (due_stays 12 100 ?d). due_hold None 12 ?d i"
    unfolding due using st by (auto simp: due_hold_def audit_takes_def new_row_def demo_stay_def due_def)
  from conjunct1 [OF tick_expires_due_holds [OF demo_fresh refl t this]] have "n = 1" unfolding due by simp
  then show ?thesis unfolding t by simp
qed

end
