(* ===== verification/Idempotency.thy ===== *)
theory Idempotency
  imports Stay_Lifecycle
begin

text \<open>
  The scoped idempotency keys of backend/internal/store/idempotency.go: claiming a key with
  its payload hash, replaying a completed one, and completing, failing and sweeping keys; and
  the shape that the handlers of backend/internal/httpserver give their transactions: claim
  the key, pass the gate of the operation, replay or do the work, and complete the key in the
  same transaction.
\<close>

section \<open>The keys\<close>

type_synonym key_id = "string \<times> string \<times> string"

text \<open>What a Begin reports: the key is claimed, or completed with a result to replay.\<close>

datatype begun = Claimed | Replay tx_result

text \<open>The check of a legacy hash: the hash and the result found, under the database of the transaction.\<close>

type_synonym legacy_checker = "db \<Rightarrow> string \<Rightarrow> tx_result \<Rightarrow> st_error + bool"

definition hash_matches ::
  "legacy_checker option \<Rightarrow> string \<Rightarrow> db \<Rightarrow> key_row \<Rightarrow> st_error + bool"
where
  "hash_matches legacy h d r =
     (if key_hash r = h then Inr True
      else case legacy of None \<Rightarrow> Inr False | Some f \<Rightarrow> f d (key_hash r) (key_result r))"

definition begin_with_compat ::
  "key_id \<Rightarrow> string \<Rightarrow> legacy_checker option \<Rightarrow> time \<Rightarrow> db \<Rightarrow> st_error + db \<times> begun"
where
  "begin_with_compat k h legacy exp d =
     (if length h \<noteq> 64 then Inl (Violation ''idempotency_keys_payload_hash_check'')
      else case get (idem_keys d) k of
        None \<Rightarrow> Inr (d\<lparr>idem_keys := put k \<lparr>key_hash = h, key_result = [], key_state = InProgress, key_expires = exp\<rparr>
                  (idem_keys d)\<rparr>, Claimed)
      | Some r \<Rightarrow> bind_res (hash_matches legacy h d r) (\<lambda>ok.
          if \<not> ok then Inl ErrPayloadConflict
          else case key_state r of
            Completed \<Rightarrow> Inr (d, Replay (key_result r))
          | InProgress \<Rightarrow> Inl ErrInProgress
          | Failed \<Rightarrow> Inr (d\<lparr>idem_keys := put k (r\<lparr>key_state := InProgress\<rparr>) (idem_keys d)\<rparr>, Claimed)))"

definition begin_key :: "key_id \<Rightarrow> string \<Rightarrow> time \<Rightarrow> db \<Rightarrow> st_error + db \<times> begun" where
  "begin_key k h exp d = begin_with_compat k h None exp d"

definition complete_key :: "key_id \<Rightarrow> tx_result \<Rightarrow> db \<Rightarrow> st_error + db" where
  "complete_key k res d =
     bind_res (exec_conditional False (\<lambda>r. key_state r = InProgress)
         (\<lambda>r. r\<lparr>key_state := Completed, key_result := res\<rparr>) k (idem_keys d))
       (\<lambda>m. Inr (d\<lparr>idem_keys := m\<rparr>))"

definition fail_key :: "key_id \<Rightarrow> db \<Rightarrow> st_error + db" where
  "fail_key k d =
     bind_res (exec_conditional False (\<lambda>r. key_state r = InProgress) (\<lambda>r. r\<lparr>key_state := Failed\<rparr>) k (idem_keys d))
       (\<lambda>m. Inr (d\<lparr>idem_keys := m\<rparr>))"

definition sweep_keys :: "time \<Rightarrow> db \<Rightarrow> db \<times> int" where
  "sweep_keys now d =
     (let m = drop_where (\<lambda>k r. key_expires r < now) (idem_keys d)
      in (d\<lparr>idem_keys := m\<rparr>, int (length (idem_keys d)) - int (length m)))"

section \<open>A transaction under a key\<close>

text \<open>A handler's answer: the result of the work it did, or the stored one.\<close>

datatype reply = Fresh tx_result | Replayed tx_result

definition keyed_tx ::
  "key_id \<Rightarrow> string \<Rightarrow> legacy_checker option \<Rightarrow> time \<Rightarrow> (db \<Rightarrow> st_error option)
     \<Rightarrow> (db \<Rightarrow> st_error + db \<times> tx_result) \<Rightarrow> db \<Rightarrow> st_error + db \<times> reply"
where
  "keyed_tx k h legacy exp gate body d =
     bind_res (begin_with_compat k h legacy exp d) (\<lambda>(d1, b).
     bind_res (require (gate d1) d1) (\<lambda>_.
       case b of
         Replay res \<Rightarrow> Inr (d1, Replayed res)
       | Claimed \<Rightarrow> bind_res (body d1) (\<lambda>(d2, res).
                   bind_res (complete_key k res d2) (\<lambda>d3. Inr (d3, Fresh res)))))"

section \<open>What the keys guarantee\<close>

text \<open>No committed key is in progress or failed, so a Begin never meets one.\<close>

definition settled :: "db \<Rightarrow> bool" where
  "settled d \<longleftrightarrow> (\<forall>k r. get (idem_keys d) k = Some r \<longrightarrow> key_state r = Completed)"

text \<open>The key holds this hash and this result for ever.\<close>

definition answered :: "key_id \<Rightarrow> string \<Rightarrow> tx_result \<Rightarrow> db \<Rightarrow> bool" where
  "answered k h res d \<longleftrightarrow> (\<exists>r. get (idem_keys d) k = Some r \<and> key_hash r = h \<and> key_state r = Completed \<and> key_result r = res)"

text \<open>The work of a handler leaves the keys alone.\<close>

definition keeps_keys :: "(db \<Rightarrow> st_error + db \<times> tx_result) \<Rightarrow> bool" where
  "keeps_keys body \<longleftrightarrow> (\<forall>d d' res. body d = Inr (d', res) \<longrightarrow> idem_keys d' = idem_keys d)"

lemma settledD: "settled d \<Longrightarrow> get (idem_keys d) k = Some r \<Longrightarrow> key_state r = Completed"
  unfolding settled_def by blast

lemma settled_put: "settled d \<Longrightarrow> idem_keys d' = put k r (idem_keys d) \<Longrightarrow> key_state r = Completed \<Longrightarrow> settled d'"
  by (auto simp: settled_def split: if_splits)

lemma settled_Nil [simp]: "idem_keys d = [] \<Longrightarrow> settled d"
  by (simp add: settled_def)

lemma begin_settled:
  assumes "settled d" "begin_with_compat k h legacy exp d = Inr (d1, b)"
  shows "b = Claimed \<and> get (idem_keys d) k = None \<and> d1 = d\<lparr>idem_keys := put k \<lparr>key_hash = h, key_result = [],
            key_state = InProgress, key_expires = exp\<rparr> (idem_keys d)\<rparr>
    \<or> d1 = d \<and> (\<exists>r. get (idem_keys d) k = Some r \<and> b = Replay (key_result r) \<and> hash_matches legacy h d r = Inr True)"
  using assms(2) settledD [OF assms(1), of k]
  by (auto simp: begin_with_compat_def bind_res_Inr split: if_splits option.splits key_state.splits)

lemma begin_never_in_progress:
  assumes "settled d" "\<And>r. hash_matches legacy h d r \<noteq> Inl ErrInProgress"
  shows "begin_with_compat k h legacy exp d \<noteq> Inl ErrInProgress"
  using assms(2) settledD [OF assms(1), of k]
  by (auto simp: begin_with_compat_def bind_res_Inl split: option.splits key_state.splits)

lemma keyed_tx_cases:
  assumes "settled d" "keyed_tx k h legacy exp gate body d = Inr (d', rep)" "keeps_keys body"
  shows "(\<exists>r. d' = d \<and> get (idem_keys d) k = Some r \<and> rep = Replayed (key_result r) \<and> hash_matches legacy h d r = Inr True
            \<and> gate d = None)
    \<or> (\<exists>d1 d2 res. rep = Fresh res \<and> get (idem_keys d) k = None
          \<and> d1 = d\<lparr>idem_keys := put k \<lparr>key_hash = h, key_result = [], key_state = InProgress, key_expires = exp\<rparr> (idem_keys d)\<rparr>
          \<and> gate d1 = None \<and> body d1 = Inr (d2, res)
          \<and> d' = d2\<lparr>idem_keys := put k \<lparr>key_hash = h, key_result = res, key_state = Completed, key_expires = exp\<rparr> (idem_keys d)\<rparr>)"
proof -
  obtain d1 b where b: "begin_with_compat k h legacy exp d = Inr (d1, b)" and g: "gate d1 = None"
    and rest: "(case b of Replay res \<Rightarrow> Inr (d1, Replayed res)
       | Claimed \<Rightarrow> bind_res (body d1) (\<lambda>(d2, res). bind_res (complete_key k res d2) (\<lambda>d3. Inr (d3, Fresh res)))) = Inr (d', rep)"
    using assms(2) by (auto simp: keyed_tx_def bind_res_Inr)
  from begin_settled [OF assms(1) b] show ?thesis
  proof (elim disjE)
    assume c: "b = Claimed \<and> get (idem_keys d) k = None \<and> d1 = d\<lparr>idem_keys := put k \<lparr>key_hash = h, key_result = [],
            key_state = InProgress, key_expires = exp\<rparr> (idem_keys d)\<rparr>"
    with rest obtain d2 res where d2: "body d1 = Inr (d2, res)" "bind_res (complete_key k res d2) (\<lambda>d3. Inr (d3, Fresh res)) = Inr (d', rep)"
      by (auto simp: bind_res_Inr)
    have "idem_keys d2 = idem_keys d1" using assms(3) d2(1) by (simp add: keeps_keys_def)
    then have "d' = d2\<lparr>idem_keys := put k \<lparr>key_hash = h, key_result = res, key_state = Completed, key_expires = exp\<rparr> (idem_keys d)\<rparr>"
      and "rep = Fresh res"
      using d2(2) c by (auto simp: complete_key_def bind_res_Inr exec_conditional_Inr)
    then show ?thesis using c g d2(1) by blast
  next
    assume "d1 = d \<and> (\<exists>r. get (idem_keys d) k = Some r \<and> b = Replay (key_result r) \<and> hash_matches legacy h d r = Inr True)"
    then show ?thesis using rest g by auto
  qed
qed

lemma keyed_tx_settled:
  "settled d \<Longrightarrow> keyed_tx k h legacy exp gate body d = Inr (d', rep) \<Longrightarrow> keeps_keys body \<Longrightarrow> settled d'"
proof -
  assume s: "settled d" and t: "keyed_tx k h legacy exp gate body d = Inr (d', rep)" "keeps_keys body"
  from keyed_tx_cases [OF s t] show ?thesis
  proof (elim disjE exE conjE)
    fix d1 d2 res
    assume "d' = d2\<lparr>idem_keys := put k \<lparr>key_hash = h, key_result = res, key_state = Completed, key_expires = exp\<rparr> (idem_keys d)\<rparr>"
    then show ?thesis by (intro settled_put [OF s]) auto
  qed (use s in simp)
qed

lemma keyed_tx_answered:
  assumes "settled d" "keyed_tx k h legacy exp gate body d = Inr (d', rep)" "keeps_keys body" "answered k' h' res d"
  shows "answered k' h' res d'"
  using keyed_tx_cases [OF assms(1-3)] assms(4) by (auto simp: answered_def)

lemma keyed_tx_answers:
  "settled d \<Longrightarrow> keyed_tx k h legacy exp gate body d = Inr (d', Fresh res) \<Longrightarrow> keeps_keys body \<Longrightarrow> answered k h res d'"
  using keyed_tx_cases [of d k h legacy exp gate body d' "Fresh res"] by (auto simp: answered_def)

text \<open>A key that is answered replays its result and changes nothing, whatever the work would do.\<close>

lemma keyed_tx_replays:
  assumes "answered k h res d" "length h = 64"
  shows "keyed_tx k h legacy exp gate body d = (case gate d of None \<Rightarrow> Inr (d, Replayed res) | Some e \<Rightarrow> Inl e)"
  using assms
  by (auto simp: answered_def keyed_tx_def begin_with_compat_def hash_matches_def require_def split: option.split)

end
