(* ===== verification/Stay_Context.thy ===== *)
theory Stay_Context
  imports Idempotency
begin

text \<open>
  The authoritative context of a commitment: the policy and the gates that a reservation,
  an extension or a transfer passes at commit (backend/internal/store/stay.go), the eligible
  destinations offered before (choice.go) and the context snapshot of a jurisdiction
  (context.go). The body of a package is decoded by parameters; dates are day numbers.
\<close>

section \<open>Policies\<close>

record stay_policy =
  reservation_expiry_seconds :: "int option"
  temporary_stay_min_days :: "int option"
  temporary_stay_max_days :: "int option"
  allow_transfers :: "bool option"
  route_required :: "bool option"

text \<open>
  What json.Unmarshal reads from a package body: the stay policy; the order of the safe zones
  with the facilities and their zones; the identifiers and the languages. None is an error.
\<close>

record body_lib =
  body_policy :: "string \<Rightarrow> stay_policy option"
  body_choice :: "string \<Rightarrow> (string list \<times> (string \<times> string) list) option"
  body_ids :: "string \<Rightarrow> (string list \<times> string list) option"

definition route_policy_required :: "stay_policy \<Rightarrow> st_error + bool" where
  "route_policy_required p = (case route_required p of None \<Rightarrow> Inl ErrNoStayPolicy | Some b \<Rightarrow> Inr b)"

text \<open>The whole days of an interval: a saturated duration, truncated towards zero.\<close>

definition whole_days :: "int \<Rightarrow> int \<Rightarrow> int" where
  "whole_days s e = (let t = time_sub (e * day) (s * day) in if 0 \<le> t then t div day else - ((- t) div day))"

definition check_stay_bounds :: "stay_policy \<Rightarrow> int \<Rightarrow> int \<Rightarrow> st_error option" where
  "check_stay_bounds p s e =
     (case (temporary_stay_min_days p, temporary_stay_max_days p) of
        (Some lo, Some hi) \<Rightarrow> check (whole_days s e < lo \<or> hi < whole_days s e) ErrStayOutOfPolicy
      | _ \<Rightarrow> Some ErrNoStayPolicy)"

definition hold_expiry :: "stay_policy \<Rightarrow> time \<Rightarrow> st_error + time" where
  "hold_expiry p now =
     (case reservation_expiry_seconds p of
        None \<Rightarrow> Inl ErrNoStayPolicy
      | Some n \<Rightarrow> if n \<le> 0 then Inl ErrNoStayPolicy else Inr (now + wrap64 (n * second)))"

section \<open>The gates at commit\<close>

definition live_authorization :: "time \<Rightarrow> string \<Rightarrow> string \<Rightarrow> authorization \<Rightarrow> bool" where
  "live_authorization now src jur a \<longleftrightarrow> auth_source a = src \<and> auth_jurisdiction a = jur
     \<and> (case auth_expires a of None \<Rightarrow> True | Some t \<Rightarrow> now < t)"

definition authorized_in :: "db \<Rightarrow> time \<Rightarrow> string \<Rightarrow> string \<Rightarrow> bool" where
  "authorized_in d now src jur \<longleftrightarrow> list_ex (live_authorization now src jur) (authorizations d)"

text \<open>The package is current and its source operational and authorized in its jurisdiction.\<close>

definition operational_package :: "db \<Rightarrow> time \<Rightarrow> package_row \<Rightarrow> bool" where
  "operational_package d now p \<longleftrightarrow>
     (case get (sources d) (pkg_source p) of None \<Rightarrow> False | Some s \<Rightarrow> state s = Operational)
     \<and> effective_at p \<le> now \<and> now < pkg_expires p \<and> superseded_by p = None
     \<and> authorized_in d now (pkg_source p) (pkg_jurisdiction p)"

text \<open>The package row and the evidence class of its artifact, when the join finds them.\<close>

definition commit_context :: "db \<Rightarrow> time \<Rightarrow> string \<Rightarrow> (package_row \<times> string) option" where
  "commit_context d now pid =
     (case get (packages d) pid of
        None \<Rightarrow> None
      | Some p \<Rightarrow> (case get (artifact_evidence d) (pkg_artifact p) of
            None \<Rightarrow> None
          | Some e \<Rightarrow> if operational_package d now p then Some (p, e) else None))"

definition evidence_operational :: "string \<Rightarrow> bool" where
  "evidence_operational e \<longleftrightarrow> e = ''AUTHORIZED_OPERATIONAL''"

definition zone_open :: "string option \<Rightarrow> bool" where
  "zone_open st \<longleftrightarrow> (case st of None \<Rightarrow> True | Some t \<Rightarrow> t \<in> {[], ''OPEN'', ''PUBLISHED''})"

definition usable_route :: "db \<Rightarrow> time \<Rightarrow> string \<Rightarrow> string \<Rightarrow> route_row \<Rightarrow> bool" where
  "usable_route d now pid zone r \<longleftrightarrow> rv_package r = pid \<and> to_safe_zone r = zone
     \<and> approval r \<in> {''SYNTHETIC_DEMO'', ''AUTHORIZED_OPERATIONAL''} \<and> verified_by r \<noteq> None
     \<and> (case valid_from r of None \<Rightarrow> True | Some t \<Rightarrow> t \<le> now)
     \<and> (case valid_until r of None \<Rightarrow> True | Some t \<Rightarrow> now < t)
     \<and> rv_route r \<notin> set (open_closures d)"

definition revalidate_context ::
  "body_lib \<Rightarrow> bool \<Rightarrow> string \<Rightarrow> string \<Rightarrow> string option \<Rightarrow> time \<Rightarrow> db \<Rightarrow> st_error + string \<times> stay_policy"
where
  "revalidate_context lib synthetic fid pid route now d =
     (case commit_context d now pid of
        None \<Rightarrow> Inl ErrReservationContext
      | Some (p, art) \<Rightarrow>
          if \<not> synthetic \<and> \<not> (evidence_operational (pkg_evidence p) \<and> evidence_operational art) then Inl ErrReservationContext
          else case get (facilities d) fid of
            None \<Rightarrow> Inl ErrFacilityPackageMismatch
          | Some f \<Rightarrow>
              if fac_package f \<noteq> pid then Inl ErrFacilityPackageMismatch
              else case get (zone_versions d) (fac_zone f, pid) of
                None \<Rightarrow> Inl ErrReservationContext
              | Some z \<Rightarrow>
                  if \<not> zone_open (zone_status z) then Inl ErrReservationContext
                  else let has_route = (route \<noteq> None \<and> route \<noteq> Some [])
                    in if has_route \<and> \<not> synthetic then Inl ErrRouteUnavailable
                       else if has_route \<and> \<not> list_ex (\<lambda>r. rv_route r = the route \<and> usable_route d now pid (fac_zone f) r) (route_versions d)
                       then Inl ErrRouteUnavailable
                       else case body_policy lib (pkg_body p) of
                         None \<Rightarrow> Inl BadJson
                       | Some pol \<Rightarrow> bind_res (route_policy_required pol) (\<lambda>need.
                           if need \<and> \<not> has_route then Inl ErrRouteRequired else Inr (pkg_jurisdiction p, pol)))"

text \<open>The snapshot that a client chose from must still be the version of the package.\<close>

definition revalidate_snapshot :: "string \<Rightarrow> int \<Rightarrow> db \<Rightarrow> st_error option" where
  "revalidate_snapshot pid v d =
     (if v \<le> 0 then Some (SnapshotStale v (- 1))
      else case get (packages d) pid of
        None \<Rightarrow> Some NoRows
      | Some p \<Rightarrow> check (pkg_version p \<noteq> v) (SnapshotStale v (pkg_version p)))"

definition stay_context :: "db \<Rightarrow> string \<Rightarrow> st_error + string \<times> string \<times> string option" where
  "stay_context d sid =
     (case get (stays d) sid of
        None \<Rightarrow> Inl ErrStayNotFound
      | Some st \<Rightarrow> Inr (stay_package st, stay_facility st, route_id st))"

definition stay_facility_jurisdiction :: "db \<Rightarrow> string \<Rightarrow> st_error + string" where
  "stay_facility_jurisdiction d sid =
     (case get (stays d) sid of
        None \<Rightarrow> Inl ErrStayNotFound
      | Some st \<Rightarrow> (case get (facilities d) (stay_facility st) of
            None \<Rightarrow> Inl ErrStayNotFound
          | Some f \<Rightarrow> (case get (packages d) (fac_package f) of
                None \<Rightarrow> Inl ErrStayNotFound
              | Some p \<Rightarrow> Inr (pkg_jurisdiction p))))"

end
