(* ===== verification/Stay_Choice.thy ===== *)
theory Stay_Choice
  imports Stay_Context
begin

text \<open>
  What is offered before a commitment: the eligible destinations of a package in the order of
  its allocation policy (backend/internal/store/choice.go) and the context snapshot of a
  jurisdiction (context.go).
\<close>

section \<open>Queries\<close>

datatype freshness = FreshCurrent | FreshStale | FreshExpired | FreshUnavailable | FreshUnknown

record destination =
  facility_id :: string
  safe_zone_id :: string
  capacity_known :: bool
  free_spaces :: int
  dest_route :: "string option"
  route_verified :: bool

text \<open>A zero date is None.\<close>

record choice_query =
  q_jurisdiction :: string
  q_package :: string
  q_party :: int
  q_start :: "int option"
  q_end :: "int option"
  q_gate_open :: bool

definition max_choice_days :: int where
  "max_choice_days = 30"

definition choice_date_range :: "int option \<Rightarrow> int option \<Rightarrow> st_error + int list" where
  "choice_date_range s e =
     (case (s, e) of
        (Some s, Some e) \<Rightarrow>
          if e \<le> s then Inr [] else if s + max_choice_days < e then Inl ErrDateRangeExceeded else Inr (date_range s e)
      | _ \<Rightarrow> Inr [])"

section \<open>The package of a query\<close>

text \<open>The map of facilities to zones, built entry by entry; an empty identifier is skipped.\<close>

fun zone_of_facilities :: "(string \<times> string) list \<Rightarrow> (string, string) gomap \<Rightarrow> (string, string) gomap" where
  "zone_of_facilities [] m = m"
| "zone_of_facilities ((f, z) # xs) m = zone_of_facilities xs (if f = [] then m else put f z m)"

definition read_policy_order ::
  "body_lib \<Rightarrow> choice_query \<Rightarrow> time \<Rightarrow> db \<Rightarrow> st_error + string list \<times> (string, string) gomap \<times> freshness"
where
  "read_policy_order lib q now d =
     (case get (packages d) (q_package q) of
        None \<Rightarrow> Inl ErrNoScopedContext
      | Some p \<Rightarrow>
          if q_jurisdiction q \<noteq> [] \<and> pkg_jurisdiction p \<noteq> q_jurisdiction q then Inr ([], [], FreshUnavailable)
          else if \<not> q_gate_open q \<and> \<not> evidence_operational (pkg_evidence p) then Inr ([], [], FreshUnavailable)
          else if superseded_by p \<noteq> None \<and> superseded_by p \<noteq> Some [] then Inr ([], [], FreshStale)
          else if now < effective_at p \<or> pkg_expires p \<le> now then Inr ([], [], FreshExpired)
          else if (case get (sources d) (pkg_source p) of None \<Rightarrow> True | Some s \<Rightarrow> state s \<noteq> Operational)
          then Inr ([], [], FreshUnavailable)
          else if \<not> authorized_in d now (pkg_source p) (pkg_jurisdiction p) then Inr ([], [], FreshExpired)
          else case body_choice lib (pkg_body p) of
            None \<Rightarrow> Inl BadJson
          | Some (order, facs) \<Rightarrow> Inr (order, zone_of_facilities facs [], FreshCurrent))"

section \<open>One facility\<close>

definition verified_route :: "db \<Rightarrow> string \<Rightarrow> string \<Rightarrow> time \<Rightarrow> bool \<Rightarrow> bool \<times> string option" where
  "verified_route d pid zone now gate =
     (if \<not> gate then (False, None)
      else case sort (map rv_route (filter (usable_route d now pid zone) (route_versions d))) of
        [] \<Rightarrow> (False, None)
      | r # _ \<Rightarrow> (True, Some r))"

text \<open>The least free space over the dates; None when a date lacks a row or the party does not fit.\<close>

fun min_free :: "db \<Rightarrow> string \<Rightarrow> int list \<Rightarrow> int \<Rightarrow> int \<Rightarrow> int option" where
  "min_free d f [] n m = Some m"
| "min_free d f (x # xs) n m =
     (case get (inventory d) (f, x) of
        None \<Rightarrow> None
      | Some r \<Rightarrow> let free = capacity r - held r - occupied r
          in if free \<le> 0 \<or> (0 < n \<and> free < n) then None
             else min_free d f xs n (if m < 0 \<or> free < m then free else m))"

definition min_free_over_interval :: "db \<Rightarrow> string \<Rightarrow> int list \<Rightarrow> int \<Rightarrow> int option" where
  "min_free_over_interval d f xs n = min_free d f xs n (- 1)"

definition facility_destination ::
  "db \<Rightarrow> choice_query \<Rightarrow> time \<Rightarrow> int list \<Rightarrow> string \<Rightarrow> string \<Rightarrow> destination option"
where
  "facility_destination d q now dates zone fid =
     (case get (zone_versions d) (zone, q_package q) of
        None \<Rightarrow> None
      | Some z \<Rightarrow>
          if \<not> zone_open (zone_status z) then None
          else let (ok, route) = verified_route d (q_package q) zone now (q_gate_open q);
                   dest = \<lparr>facility_id = fid, safe_zone_id = zone, capacity_known = False, free_spaces = 0,
                           dest_route = route, route_verified = ok\<rparr>
            in case zone_capacity z of
                 None \<Rightarrow> Some dest
               | Some c \<Rightarrow>
                   if c \<le> 0 then None
                   else case min_free_over_interval d fid dates (q_party q) of
                     None \<Rightarrow> None
                   | Some n \<Rightarrow> Some (dest\<lparr>capacity_known := True, free_spaces := n\<rparr>))"

definition facility_browse_entry :: "db \<Rightarrow> string \<Rightarrow> time \<Rightarrow> string \<Rightarrow> string \<Rightarrow> destination option" where
  "facility_browse_entry d pid now zone fid =
     (case get (zone_versions d) (zone, pid) of
        None \<Rightarrow> None
      | Some z \<Rightarrow>
          if \<not> zone_open (zone_status z) then None
          else if (case zone_capacity z of None \<Rightarrow> False | Some c \<Rightarrow> c \<le> 0) then None
          else let (ok, route) = verified_route d pid zone now False
            in Some \<lparr>facility_id = fid, safe_zone_id = zone, capacity_known = False, free_spaces = 0,
                     dest_route = route, route_verified = ok\<rparr>)"

section \<open>The destinations\<close>

definition facilities_of_zone :: "(string, string) gomap \<Rightarrow> string \<Rightarrow> string list" where
  "facilities_of_zone m zone = sort (map fst (filter (\<lambda>(f, z). z = zone) m))"

definition in_policy_order ::
  "(string \<Rightarrow> string \<Rightarrow> destination option) \<Rightarrow> string list \<Rightarrow> (string, string) gomap \<Rightarrow> destination list"
where
  "in_policy_order f order m =
     concat (map (\<lambda>zone. List.map_filter (f zone) (facilities_of_zone m zone)) order)"

definition eligible_with_status ::
  "body_lib \<Rightarrow> choice_query \<Rightarrow> time \<Rightarrow> db \<Rightarrow> st_error + destination list \<times> freshness"
where
  "eligible_with_status lib q now d =
     bind_res (choice_date_range (q_start q) (q_end q)) (\<lambda>dates.
     bind_res (read_policy_order lib q now d) (\<lambda>(order, m, fresh).
       if order = [] \<or> m = [] then Inr ([], fresh)
       else if dates = [] then Inr (in_policy_order (facility_browse_entry d (q_package q) now) order m, fresh)
       else Inr (in_policy_order (facility_destination d q now dates) order m, fresh)))"

section \<open>The context snapshot\<close>

record context_snapshot =
  data_version :: msg
  snap_jurisdiction :: string
  known_ids :: "string set"
  enabled_languages :: "string set"
  snap_package :: string
  snap_version :: int
  snap_source :: string

text \<open>The current packages, the greatest version first and then by identifier.\<close>

definition current_packages :: "db \<Rightarrow> time \<Rightarrow> (string \<times> package_row) list" where
  "current_packages d now =
     sort_key (\<lambda>(i, p). - pkg_version p) (sort_key fst (filter (\<lambda>(i, p). operational_package d now p) (packages d)))"

definition resolve_context :: "body_lib \<Rightarrow> string \<Rightarrow> time \<Rightarrow> db \<Rightarrow> st_error + context_snapshot" where
  "resolve_context lib jur now d =
     (if jur = [] then Inl ErrNoOperationalContext
      else case filter (\<lambda>(i, p). pkg_jurisdiction p = jur) (current_packages d now) of
        [] \<Rightarrow> Inl ErrNoOperationalContext
      | (i, p) # _ \<Rightarrow> (case body_ids lib (pkg_body p) of
            None \<Rightarrow> Inl BadJson
          | Some (ids, langs) \<Rightarrow> Inr
              \<lparr>data_version = Fmt ''%s:%d'' [AStr i, AInt (pkg_version p)], snap_jurisdiction = jur,
               known_ids = set (filter (\<lambda>i. i \<noteq> []) ids), enabled_languages = set (filter (\<lambda>l. l \<noteq> []) langs),
               snap_package = i, snap_version = pkg_version p, snap_source = pkg_source p\<rparr>))"

definition resolve_any_context :: "body_lib \<Rightarrow> time \<Rightarrow> db \<Rightarrow> st_error + context_snapshot" where
  "resolve_any_context lib now d =
     (case current_packages d now of
        [] \<Rightarrow> Inl ErrNoOperationalContext
      | (i, p) # _ \<Rightarrow> resolve_context lib (pkg_jurisdiction p) now d)"

section \<open>What is offered has the space\<close>

lemma min_free_Some:
  "min_free d f xs n m = Some k \<Longrightarrow> (\<forall>x \<in> set xs. \<exists>r. get (inventory d) (f, x) = Some r
      \<and> 0 < capacity r - held r - occupied r \<and> (0 < n \<longrightarrow> n \<le> capacity r - held r - occupied r)
      \<and> k \<le> capacity r - held r - occupied r)
    \<and> (0 \<le> m \<longrightarrow> k \<le> m)
    \<and> (k = m \<or> (\<exists>x \<in> set xs. \<exists>r. get (inventory d) (f, x) = Some r \<and> k = capacity r - held r - occupied r))"
proof (induction xs arbitrary: m)
  case (Cons x xs)
  then obtain r where r: "get (inventory d) (f, x) = Some r"
    and fr: "0 < capacity r - held r - occupied r" "0 < n \<longrightarrow> n \<le> capacity r - held r - occupied r"
    and rest: "min_free d f xs n (if m < 0 \<or> capacity r - held r - occupied r < m then capacity r - held r - occupied r else m) = Some k"
    by (auto simp: Let_def not_le not_less split: option.splits if_splits)
  from Cons.IH [OF rest] r fr show ?case
    by (auto split: if_splits)
qed simp

lemma min_free_interval:
  assumes "min_free_over_interval d f dates n = Some k" "dates \<noteq> []"
  shows "0 < k \<and> (0 < n \<longrightarrow> n \<le> k) \<and> (\<forall>x \<in> set dates. fits d f k x) \<and> (\<exists>x \<in> set dates. \<not> fits d f (k + 1) x)"
proof -
  note m = min_free_Some [OF assms(1) [unfolded min_free_over_interval_def]]
  have fit: "fits d f k x" if "x \<in> set dates" for x using m that by (auto simp: fits_def)
  obtain x0 where x0: "x0 \<in> set dates" using assms(2) by (cases dates) auto
  obtain x r where x: "x \<in> set dates" "get (inventory d) (f, x) = Some r" "k = capacity r - held r - occupied r"
  proof -
    have "k \<noteq> - 1"
    proof
      assume "k = - 1"
      then show False using assms unfolding min_free_over_interval_def by (cases dates) (auto simp: Let_def dest!: min_free_Some split: option.splits if_splits)
    qed
    then show thesis using that m by blast
  qed
  then have "\<not> fits d f (k + 1) x" by (simp add: fits_def)
  moreover have "0 < k \<and> (0 < n \<longrightarrow> n \<le> k)" using m x by force
  ultimately show ?thesis using fit x(1) by blast
qed

lemma in_policy_order_mem:
  "D \<in> set (in_policy_order f order m) \<Longrightarrow> \<exists>zone fid. f zone fid = Some D"
  by (auto simp: in_policy_order_def List.map_filter_def) blast

lemma facility_destination_known:
  assumes "facility_destination d q now dates zone fid = Some D" "capacity_known D"
  shows "min_free_over_interval d (facility_id D) dates (q_party q) = Some (free_spaces D)"
  using assms by (auto simp: facility_destination_def Let_def split: option.splits if_splits prod.splits)

lemma facility_browse_unknown: "facility_browse_entry d pid now zone fid = Some D \<Longrightarrow> \<not> capacity_known D"
  by (auto simp: facility_browse_entry_def Let_def split: option.splits if_splits prod.splits)

text \<open>The source of a package drives guidance: operational, authorized, and the package in force.\<close>

definition drives :: "db \<Rightarrow> time \<Rightarrow> string \<Rightarrow> bool" where
  "drives d now pid \<longleftrightarrow> (case get (packages d) pid of None \<Rightarrow> False
     | Some p \<Rightarrow> (case get (sources d) (pkg_source p) of None \<Rightarrow> False | Some s \<Rightarrow> may_drive_guidance s)
         \<and> authorized_in d now (pkg_source p) (pkg_jurisdiction p) \<and> effective_at p \<le> now \<and> now < pkg_expires p)"

lemma read_policy_order_drives:
  "read_policy_order lib q now d = Inr (order, m, fr) \<Longrightarrow> order \<noteq> [] \<Longrightarrow> fr = FreshCurrent \<and> drives d now (q_package q)"
  by (auto simp: read_policy_order_def drives_def may_drive_guidance_def split: option.splits if_splits)

lemma eligible_cases:
  assumes "eligible_with_status lib q now d = Inr (dests, fr)" "D \<in> set dests"
  obtains (browse) zone fid where "facility_browse_entry d (q_package q) now zone fid = Some D" "fr = FreshCurrent" "drives d now (q_package q)"
    | (dated) s e zone fid where "q_start q = Some s" "q_end q = Some e" "s < e" "e \<le> s + 30"
        "facility_destination d q now (date_range s e) zone fid = Some D" "fr = FreshCurrent" "drives d now (q_package q)"
proof -
  obtain dates order m where d: "choice_date_range (q_start q) (q_end q) = Inr dates"
    and r: "read_policy_order lib q now d = Inr (order, m, fr)"
    and rest: "(if order = [] \<or> m = [] then Inr ([], fr)
       else if dates = [] then Inr (in_policy_order (facility_browse_entry d (q_package q) now) order m, fr)
       else Inr (in_policy_order (facility_destination d q now dates) order m, fr)) = (Inr (dests, fr) :: st_error + _)"
    using assms(1) by (auto simp: eligible_with_status_def bind_res_Inr split: if_splits)
  have ne: "order \<noteq> []" "m \<noteq> []" using rest assms(2) by (auto split: if_splits)
  note dr = read_policy_order_drives [OF r ne(1)]
  show thesis
  proof (cases "dates = []")
    case True
    then show ?thesis using rest ne assms(2) dr browse in_policy_order_mem by fastforce
  next
    case False
    then obtain s e where se: "q_start q = Some s" "q_end q = Some e" "s < e" "e \<le> s + 30" "dates = date_range s e"
      using d by (auto simp: choice_date_range_def max_choice_days_def split: option.splits if_splits)
    have "D \<in> set (in_policy_order (facility_destination d q now dates) order m)" using rest ne False assms(2) by simp
    then show ?thesis using dated [OF se(1-4)] dr se(5) in_policy_order_mem by blast
  qed
qed

text \<open>What is offered with a known capacity has the space: the offer is made for an interval of 1 to 30
  days of a package in force whose source is operational and authorized; on every day of it the
  facility has room for the party, and the free space reported is exactly the least over the days.\<close>

theorem offered_fits:
  assumes "eligible_with_status lib q now d = Inr (dests, fr)" and "D \<in> set dests" and "capacity_known D"
  shows "\<exists>s e. q_start q = Some s \<and> q_end q = Some e \<and> s < e \<and> e \<le> s + 30 \<and> fr = FreshCurrent \<and> drives d now (q_package q)
    \<and> 0 < free_spaces D \<and> (0 < q_party q \<longrightarrow> q_party q \<le> free_spaces D)
    \<and> (\<forall>x. s \<le> x \<and> x < e \<longrightarrow> fits d (facility_id D) (free_spaces D) x)
    \<and> (\<exists>x. s \<le> x \<and> x < e \<and> \<not> fits d (facility_id D) (free_spaces D + 1) x)"
  using assms(1,2)
proof (cases rule: eligible_cases)
  case (browse zone fid)
  then show ?thesis using facility_browse_unknown assms(3) by blast
next
  case (dated s e zone fid)
  have "date_range s e \<noteq> []" using dated(3) by (simp add: date_range_Nil)
  from min_free_interval [OF facility_destination_known [OF dated(5) assms(3)] this]
  show ?thesis using dated by (intro exI [of _ s] exI [of _ e]) auto
qed

text \<open>The database of the stays with its source in operation, an authorization and open zones.\<close>

definition demo_ctx :: db where
  "demo_ctx = demo_db\<lparr>sources := [(''src'', \<lparr>source_id = ''src'', government_owner = ''gov'', official_domain = ''gov.in'',
       state = Operational, version = 7, updated_at = 0\<rparr>)],
     authorizations := [\<lparr>auth_id = ''au'', auth_source = ''src'', auth_granted_by = ''gov'', evidence_ref = ''doc'',
       auth_jurisdiction = ''IN'', granted_at = 0, auth_expires = None\<rparr>],
     artifact_evidence := [(''a'', ''AUTHORIZED_OPERATIONAL'')],
     packages := [(''p'', \<lparr>pkg_source = ''src'', pkg_artifact = ''a'', pkg_version = 1, pkg_jurisdiction = ''IN'',
       pkg_evidence = ''AUTHORIZED_OPERATIONAL'', effective_at = 0, pkg_expires = 100, superseded_by = None, pkg_body = []\<rparr>)],
     zone_versions := [((''z'', ''p''), \<lparr>zone_capacity = Some 4, zone_status = Some ''OPEN''\<rparr>)]\<rparr>"

text \<open>Body decoders that read one policy and the two shelters from every body.\<close>

definition demo_body :: body_lib where
  "demo_body = \<lparr>body_policy = (\<lambda>_. Some \<lparr>reservation_expiry_seconds = Some 60, temporary_stay_min_days = Some 1,
       temporary_stay_max_days = Some 7, allow_transfers = Some True, route_required = Some False\<rparr>),
     body_choice = (\<lambda>_. Some ([''z''], [(''g'', ''z''), (''f'', ''z'')])),
     body_ids = (\<lambda>_. Some ([''z'', []], [''en'']))\<rparr>"

definition demo_query :: choice_query where
  "demo_query = \<lparr>q_jurisdiction = ''IN'', q_package = ''p'', q_party = 3, q_start = Some 1, q_end = Some 3, q_gate_open = False\<rparr>"

definition demo_offer :: destination where
  "demo_offer = \<lparr>facility_id = ''f'', safe_zone_id = ''z'', capacity_known = True, free_spaces = 4, dest_route = None, route_verified = False\<rparr>"

theorem offered_fits_witness:
  "\<exists>s e. s < e \<and> (\<forall>x. s \<le> x \<and> x < e \<longrightarrow> fits demo_ctx ''f'' 4 x)"
proof -
  have "eligible_with_status demo_body demo_query 5 demo_ctx = Inr ([demo_offer, demo_offer\<lparr>facility_id := ''g''\<rparr>], FreshCurrent)"
    by code_simp
  from offered_fits [OF this, of demo_offer] show ?thesis by (auto simp: demo_offer_def)
qed

section \<open>Only sources that may drive guidance\<close>

lemma operational_package_drives:
  "get (packages d) pid = Some p \<Longrightarrow> operational_package d now p \<Longrightarrow> drives d now pid"
  by (auto simp: operational_package_def drives_def may_drive_guidance_def split: option.splits)

lemma revalidate_drives:
  "revalidate_context lib syn fid pid route now d = Inr (jur, pol) \<Longrightarrow>
     drives d now pid \<and> (\<exists>p. get (packages d) pid = Some p \<and> pkg_jurisdiction p = jur)"
  by (auto simp: revalidate_context_def commit_context_def Let_def bind_res_Inr operational_package_drives
      split: option.splits if_splits)

lemma current_packages_mem:
  "wf_map (packages d) \<Longrightarrow> (i, p) \<in> set (current_packages d now) \<Longrightarrow> get (packages d) i = Some p \<and> operational_package d now p"
  by (simp add: current_packages_def get_iff_mem)

lemma filter_hd_mem: "filter P xs = x # ys \<Longrightarrow> x \<in> set xs \<and> P x"
  by (drule arg_cong [where f = set]) auto

lemma resolve_drives:
  assumes "wf_map (packages d)" "resolve_context lib jur now d = Inr c"
  shows "drives d now (snap_package c) \<and> (\<exists>p. get (packages d) (snap_package c) = Some p \<and> pkg_jurisdiction p = jur
    \<and> pkg_source p = snap_source c \<and> pkg_version p = snap_version c)"
proof -
  obtain i p rest ids langs where h: "filter (\<lambda>(i, p). pkg_jurisdiction p = jur) (current_packages d now) = (i, p) # rest"
    and c: "snap_package c = i" "snap_source c = pkg_source p" "snap_version c = pkg_version p"
    using assms(2) by (auto simp: resolve_context_def split: if_splits list.splits option.splits)
  have m: "(i, p) \<in> set (current_packages d now)" "pkg_jurisdiction p = jur" using filter_hd_mem [OF h] by auto
  note g = current_packages_mem [OF assms(1) m(1)]
  then show ?thesis using operational_package_drives [of d i p now] c m(2) by auto
qed

text \<open>C25: Only a source that may drive guidance does: a commitment passes its gates, a destination is offered
  and a context snapshot is resolved only for a package in force whose source is operational and holds
  an authorization in the package's jurisdiction, and the context has the jurisdiction asked for.\<close>

theorem only_operational_sources:
  assumes "wf_map (packages d)"
  shows "(\<forall>lib syn fid pid route now jur pol. revalidate_context lib syn fid pid route now d = Inr (jur, pol) \<longrightarrow>
        drives d now pid \<and> (\<exists>p. get (packages d) pid = Some p \<and> pkg_jurisdiction p = jur))
    \<and> (\<forall>lib q now dests fr. eligible_with_status lib q now d = Inr (dests, fr) \<and> dests \<noteq> [] \<longrightarrow> drives d now (q_package q))
    \<and> (\<forall>lib jur now c. resolve_context lib jur now d = Inr c \<longrightarrow> drives d now (snap_package c)
        \<and> (\<exists>p. get (packages d) (snap_package c) = Some p \<and> pkg_jurisdiction p = jur))"
proof (intro conjI allI impI)
  fix lib q now dests fr
  assume e: "eligible_with_status lib q now d = Inr (dests, fr) \<and> dests \<noteq> []"
  then obtain D where "D \<in> set dests" by (cases dests) auto
  with e show "drives d now (q_package q)" by (auto elim: eligible_cases)
qed (use revalidate_drives resolve_drives [OF assms] in blast)+

theorem only_operational_sources_witness:
  "drives demo_ctx 5 ''p''"
proof -
  have "wf_map (packages demo_ctx)" by code_simp
  moreover obtain pol where "revalidate_context demo_body False ''f'' ''p'' None 5 demo_ctx = Inr (''IN'', pol)"
  proof -
    have "map_sum id fst (revalidate_context demo_body False ''f'' ''p'' None 5 demo_ctx) = Inr ''IN''" by code_simp
    then show thesis using that by (cases "revalidate_context demo_body False ''f'' ''p'' None 5 demo_ctx") auto
  qed
  ultimately show ?thesis using only_operational_sources by blast
qed

end
