(* ===== verification/Source_Store.thy ===== *)
theory Source_Store
  imports Stay_Choice
begin

text \<open>
  The persisted authority of backend/internal/store: sources with their transitions and
  authorizations (source.go), operator grants (operatorgrant.go) and sessions (session.go).
\<close>

section \<open>Sources\<close>

definition insert_source :: "source \<Rightarrow> db \<Rightarrow> st_error + db" where
  "insert_source s d =
     (if has_key (sources d) (source_id s) then Inl (Violation ''sources_pkey'')
      else Inr (d\<lparr>sources := put (source_id s) (s\<lparr>version := 1\<rparr>) (sources d)\<rparr>))"

definition load_source :: "db \<Rightarrow> string \<Rightarrow> st_error + source" where
  "load_source d sid = (case get (sources d) sid of None \<Rightarrow> Inl ErrNotFound | Some s \<Rightarrow> Inr s)"

text \<open>The published rows of a source: by its identifier or by one of its packages.\<close>

definition published_of :: "db \<Rightarrow> string \<Rightarrow> published_row \<Rightarrow> bool" where
  "published_of d sid r \<longleftrightarrow> pub_source r = Some sid \<or> list_ex (\<lambda>(i, p). i = pub_package r \<and> pkg_source p = sid) (packages d)"

definition mark_published :: "string \<Rightarrow> (published_row \<Rightarrow> published_row) \<Rightarrow> db \<Rightarrow> db" where
  "mark_published sid f d =
     (let mark = map (\<lambda>r. if published_of d sid r then f r else r)
      in d\<lparr>published_manifests := mark (published_manifests d), published_cards := mark (published_cards d)\<rparr>)"

definition propagate :: "string \<Rightarrow> src_state \<Rightarrow> db \<Rightarrow> db" where
  "propagate sid target d =
     (if target = Quarantined then mark_published sid (\<lambda>r. r\<lparr>pub_quarantined := True\<rparr>) d
      else if target = Retired \<or> target = Suspended then mark_published sid (\<lambda>r. r\<lparr>pub_status := ''WITHDRAWN''\<rparr>) d
      else d)"

fun source_text :: "src_state \<Rightarrow> string" where
  "source_text Unset = []"
| "source_text Discovered = ''DISCOVERED''"
| "source_text AccessRequested = ''ACCESS_REQUESTED''"
| "source_text SampleAcquired = ''SAMPLE_ACQUIRED''"
| "source_text Validated = ''VALIDATED''"
| "source_text Authorized = ''AUTHORIZED''"
| "source_text Operational = ''OPERATIONAL''"
| "source_text Suspended = ''SUSPENDED''"
| "source_text Retired = ''RETIRED''"
| "source_text Quarantined = ''QUARANTINED''"

definition transition_source ::
  "sql_lib option \<Rightarrow> string \<Rightarrow> int \<Rightarrow> src_state \<Rightarrow> string \<Rightarrow> string \<Rightarrow> string \<Rightarrow> time \<Rightarrow> db \<Rightarrow> st_error + db"
where
  "transition_source sink sid v target actor rsn eid now d =
     (case exec_conditional False (\<lambda>s. version s = v)
             (\<lambda>s. s\<lparr>state := target, version := version s + 1, updated_at := now\<rparr>) sid (sources d) of
        Inl e \<Rightarrow> Inl (if get (sources d) sid = None then ErrNotFound else ErrVersionConflict)
      | Inr m \<Rightarrow> record_event sink
          \<lparr>ev_id = eid, ev_time = now, ev_actor = actor, ev_action = ''SOURCE_STATE_TRANSITION'', ev_subject = sid,
           ev_outcome = ''OK'', ev_reason = rsn, ev_from = [], ev_to = source_text target\<rparr>
          (propagate sid target (d\<lparr>sources := m\<rparr>)))"

definition quarantine_source ::
  "sql_lib option \<Rightarrow> string \<Rightarrow> int \<Rightarrow> string \<Rightarrow> string \<Rightarrow> string \<Rightarrow> time \<Rightarrow> db \<Rightarrow> st_error + db"
where
  "quarantine_source sink sid v actor rsn eid now d =
     bind_res (load_source d sid) (\<lambda>s.
       if state s = Quarantined then Inl ErrQuarantineTerminal
       else transition_source sink sid v Quarantined actor rsn eid now d)"

definition record_authorization :: "authorization \<Rightarrow> db \<Rightarrow> st_error + db" where
  "record_authorization a d = require (first_err
     [check (list_ex (\<lambda>b. auth_id b = auth_id a) (authorizations d)) (Violation ''source_authorizations_pkey''),
      check (\<not> has_key (sources d) (auth_source a)) (Violation ''source_authorizations_source_id_fkey'')])
     (d\<lparr>authorizations := authorizations d @ [a]\<rparr>)"

definition unexpired :: "time \<Rightarrow> time option \<Rightarrow> bool" where
  "unexpired now t \<longleftrightarrow> (case t of None \<Rightarrow> True | Some x \<Rightarrow> now < x)"

text \<open>The jurisdiction of the authorization granted last among those still valid.\<close>

definition authorization_jurisdiction :: "db \<Rightarrow> string \<Rightarrow> time \<Rightarrow> string option" where
  "authorization_jurisdiction d sid now =
     (case sort_key (\<lambda>a. - granted_at a) (filter (\<lambda>a. auth_source a = sid \<and> unexpired now (auth_expires a)) (authorizations d)) of
        [] \<Rightarrow> None
      | a # _ \<Rightarrow> Some (auth_jurisdiction a))"

definition has_authorization :: "db \<Rightarrow> string \<Rightarrow> string \<Rightarrow> time \<Rightarrow> bool" where
  "has_authorization d sid jur now \<longleftrightarrow>
     list_ex (\<lambda>a. auth_source a = sid \<and> auth_jurisdiction a = jur \<and> unexpired now (auth_expires a)) (authorizations d)"

section \<open>Operator grants\<close>

definition grant_operator ::
  "string \<Rightarrow> string \<Rightarrow> string \<Rightarrow> string \<Rightarrow> time option \<Rightarrow> time \<Rightarrow> db \<Rightarrow> st_error + db"
where
  "grant_operator gid subj jur by_whom exp now d =
     (if list_ex (\<lambda>(i, g). grant_subject g = subj \<and> grant_jurisdiction g = jur) (grants d) then Inr d
      else if has_key (grants d) gid then Inl (Violation ''operator_grants_pkey'')
      else Inr (d\<lparr>grants := put gid \<lparr>grant_subject = subj, grant_jurisdiction = jur, granted_by = by_whom,
                  grant_created = now, grant_expires = exp, grant_revoked = None\<rparr> (grants d)\<rparr>))"

definition revoke_operator_grant :: "string \<Rightarrow> string \<Rightarrow> time \<Rightarrow> db \<Rightarrow> db" where
  "revoke_operator_grant subj jur now d =
     d\<lparr>grants := map (\<lambda>(i, g). (i, if grant_subject g = subj \<and> grant_jurisdiction g = jur \<and> grant_revoked g = None
                                    then g\<lparr>grant_revoked := Some now\<rparr> else g)) (grants d)\<rparr>"

definition live_grant :: "time \<Rightarrow> string \<Rightarrow> grant_row \<Rightarrow> bool" where
  "live_grant now subj g \<longleftrightarrow> grant_subject g = subj \<and> grant_revoked g = None \<and> unexpired now (grant_expires g)"

definition has_operator_grant :: "db \<Rightarrow> string \<Rightarrow> string \<Rightarrow> time \<Rightarrow> bool" where
  "has_operator_grant d subj jur now \<longleftrightarrow> list_ex (\<lambda>(i, g). live_grant now subj g \<and> grant_jurisdiction g = jur) (grants d)"

definition live_grant_for_update :: "db \<Rightarrow> string \<Rightarrow> st_error + grant_row" where
  "live_grant_for_update d gid = (case get (grants d) gid of None \<Rightarrow> Inl ErrGrantInvalid | Some g \<Rightarrow> Inr g)"

definition validate_session_grant :: "session_row \<Rightarrow> string \<Rightarrow> grant_row \<Rightarrow> time \<Rightarrow> st_error option" where
  "validate_session_grant s gid g now = first_err
     [check (operator_subject s = None \<or> operator_grant_id s = None) ErrGrantInvalid,
      check (operator_grant_id s \<noteq> Some gid) ErrGrantInvalid,
      check (grant_revoked g \<noteq> None) ErrGrantInvalid,
      check (\<not> unexpired now (grant_expires g)) ErrGrantInvalid,
      check (operator_subject s \<noteq> Some (grant_subject g)) ErrGrantInvalid,
      check (sess_jurisdiction s \<noteq> Some (grant_jurisdiction g)) ErrGrantInvalid]"

definition first_live_grant :: "db \<Rightarrow> string \<Rightarrow> time \<Rightarrow> st_error + string \<times> grant_row" where
  "first_live_grant d subj now =
     (case sort_key (\<lambda>(i, g). grant_created g) (filter (\<lambda>(i, g). live_grant now subj g) (grants d)) of
        [] \<Rightarrow> Inl ErrNoOperatorGrant
      | x # _ \<Rightarrow> Inr x)"

definition first_jurisdiction :: "db \<Rightarrow> string \<Rightarrow> time \<Rightarrow> st_error + string" where
  "first_jurisdiction d subj now = bind_res (first_live_grant d subj now) (\<lambda>(i, g). Inr (grant_jurisdiction g))"

section \<open>Sessions\<close>

text \<open>The token is 32 random bytes in hexadecimal, an argument here; only its hash is stored.\<close>

definition insert_session :: "string \<Rightarrow> session_row \<Rightarrow> db \<Rightarrow> st_error + db" where
  "insert_session sid s d = require (first_err
     [check (has_key (sessions d) sid) (Violation ''sessions_pkey''),
      check (case operator_grant_id s of None \<Rightarrow> False | Some g \<Rightarrow> \<not> has_key (grants d) g)
        (Violation ''sessions_operator_grant_id_fkey'')])
     (d\<lparr>sessions := put sid s (sessions d)\<rparr>)"

definition issue_citizen_session :: "sql_lib \<Rightarrow> string \<Rightarrow> string \<Rightarrow> duration \<Rightarrow> time \<Rightarrow> db \<Rightarrow> st_error + db" where
  "issue_citizen_session lib token sid ttl now d = insert_session sid
     \<lparr>principal_kind = ''CITIZEN'', sess_jurisdiction = None, credential_ref = sha_hex lib token, sess_expires = now + ttl,
      sess_revoked = None, mfa_verified_at = None, operator_subject = None, operator_grant_id = None\<rparr> d"

definition issue_operator_session ::
  "sql_lib \<Rightarrow> string \<Rightarrow> string \<Rightarrow> string \<Rightarrow> string \<Rightarrow> string \<Rightarrow> time option \<Rightarrow> duration \<Rightarrow> time \<Rightarrow> db \<Rightarrow> st_error + db"
where
  "issue_operator_session lib token sid jur subj gid mfa ttl now d =
     (if jur = [] then Inl (StErr (plain ''store: operator jurisdiction required''))
      else if subj = [] then Inl (StErr (plain ''store: operator verified subject required''))
      else if gid = [] then Inl (StErr (plain ''store: operator grant id required''))
      else if mfa = None then Inl ErrMFARequired
      else insert_session sid
        \<lparr>principal_kind = ''OPERATOR'', sess_jurisdiction = Some jur, credential_ref = sha_hex lib token, sess_expires = now + ttl,
         sess_revoked = None, mfa_verified_at = mfa, operator_subject = Some subj, operator_grant_id = Some gid\<rparr> d)"

definition authenticate :: "sql_lib \<Rightarrow> db \<Rightarrow> string \<Rightarrow> time \<Rightarrow> st_error + string \<times> session_row" where
  "authenticate lib d token now =
     (case filter (\<lambda>(i, s). credential_ref s = sha_hex lib token) (sessions d) of
        [] \<Rightarrow> Inl ErrSessionInvalid
      | (i, s) # _ \<Rightarrow> if sess_revoked s \<noteq> None \<or> sess_expires s \<le> now then Inl ErrSessionInvalid else Inr (i, s))"

definition revoke_session :: "string \<Rightarrow> time \<Rightarrow> db \<Rightarrow> db" where
  "revoke_session sid now d =
     (case get (sessions d) sid of
        None \<Rightarrow> d
      | Some s \<Rightarrow> if sess_revoked s = None then d\<lparr>sessions := put sid (s\<lparr>sess_revoked := Some now\<rparr>) (sessions d)\<rparr> else d)"

section \<open>What a change of a source does\<close>

lemma transition_source_cases:
  assumes "transition_source sink sid v target actor rsn eid now d = Inr d'"
  obtains s where "get (sources d) sid = Some s" "version s = v"
    "d' = (propagate sid target (d\<lparr>sources := put sid (s\<lparr>state := target, version := v + 1, updated_at := now\<rparr>) (sources d)\<rparr>))
       \<lparr>audit_rows := audit_rows d'\<rparr>"
proof -
  obtain s m where s: "get (sources d) sid = Some s" "version s = v"
    "m = put sid (s\<lparr>state := target, version := v + 1, updated_at := now\<rparr>) (sources d)"
    and r: "record_event sink \<lparr>ev_id = eid, ev_time = now, ev_actor = actor, ev_action = ''SOURCE_STATE_TRANSITION'', ev_subject = sid,
           ev_outcome = ''OK'', ev_reason = rsn, ev_from = [], ev_to = source_text target\<rparr>
          (propagate sid target (d\<lparr>sources := m\<rparr>)) = Inr d'"
    using assms by (auto simp: transition_source_def exec_conditional_Inr split: sum.splits)
  show thesis
    by (rule that [OF s(1,2)]) (use record_event_frame [OF r] in \<open>simp add: s(3)\<close>)
qed

lemma published_of_sources [simp]: "published_of (d\<lparr>sources := m\<rparr>) sid r = published_of d sid r"
  by (simp add: published_of_def)

lemma propagate_fields [simp]:
  "sources (propagate sid t d) = sources d" "packages (propagate sid t d) = packages d"
  "authorizations (propagate sid t d) = authorizations d" "stays (propagate sid t d) = stays d"
  "inventory (propagate sid t d) = inventory d" "idem_keys (propagate sid t d) = idem_keys d"
  "sessions (propagate sid t d) = sessions d" "grants (propagate sid t d) = grants d"
  "audit_rows (propagate sid t d) = audit_rows d" "reservations (propagate sid t d) = reservations d"
  by (simp_all add: propagate_def mark_published_def Let_def)

lemma transition_source_effect:
  assumes "transition_source sink sid v target actor rsn eid now d = Inr d'"
  shows "\<exists>s. get (sources d) sid = Some s \<and> version s = v
    \<and> sources d' = put sid (s\<lparr>state := target, version := v + 1, updated_at := now\<rparr>) (sources d)
    \<and> packages d' = packages d \<and> authorizations d' = authorizations d \<and> stays d' = stays d \<and> inventory d' = inventory d
    \<and> idem_keys d' = idem_keys d \<and> sessions d' = sessions d \<and> grants d' = grants d \<and> reservations d' = reservations d
    \<and> published_manifests d' = published_manifests (propagate sid target d)
    \<and> published_cards d' = published_cards (propagate sid target d)"
proof (rule transition_source_cases [OF assms])
  fix s
  let ?m = "put sid (s\<lparr>state := target, version := v + 1, updated_at := now\<rparr>) (sources d)"
  assume s: "get (sources d) sid = Some s" "version s = v"
    and d': "d' = (propagate sid target (d\<lparr>sources := ?m\<rparr>))\<lparr>audit_rows := audit_rows d'\<rparr>"
  obtain rows where "d' = (propagate sid target (d\<lparr>sources := ?m\<rparr>))\<lparr>audit_rows := rows\<rparr>" using d' by blast
  then show ?thesis
    using s by (intro exI [of _ s]) (simp, simp add: propagate_def mark_published_def Let_def)
qed

text \<open>C24: A quarantine takes effect at once and everywhere: when it succeeds the source was at the expected
  version and not yet quarantined, its version grows by one, no package of it drives guidance any more,
  whatever the time, every published manifest and card of the source or of one of its packages is
  quarantined, and no stay and no inventory row changes.\<close>

theorem quarantine_takes_effect:
  assumes "quarantine_source sink sid v actor rsn eid now d = Inr d'"
  shows "(\<exists>s. get (sources d) sid = Some s \<and> version s = v \<and> state s \<noteq> Quarantined
        \<and> get (sources d') sid = Some (s\<lparr>state := Quarantined, version := v + 1, updated_at := now\<rparr>))
    \<and> (\<forall>pid p now'. get (packages d') pid = Some p \<and> pkg_source p = sid \<longrightarrow> \<not> drives d' now' pid)
    \<and> list_all (\<lambda>r. published_of d sid r \<longrightarrow> pub_quarantined r) (published_manifests d')
    \<and> list_all (\<lambda>r. published_of d sid r \<longrightarrow> pub_quarantined r) (published_cards d')
    \<and> stays d' = stays d \<and> inventory d' = inventory d"
proof -
  obtain s where s: "get (sources d) sid = Some s" "state s \<noteq> Quarantined"
    and t: "transition_source sink sid v Quarantined actor rsn eid now d = Inr d'"
    using assms by (auto simp: quarantine_source_def load_source_def bind_res_Inr split: option.splits if_splits)
  have m: "list_all (\<lambda>r. published_of d sid r \<longrightarrow> pub_quarantined r)
      (map (\<lambda>r. if published_of d sid r then r\<lparr>pub_quarantined := True\<rparr> else r) xs)" for xs
    by (auto simp: list_all_iff)
  show ?thesis
    using transition_source_effect [OF t] s
    by (auto simp: drives_def may_drive_guidance_def propagate_def mark_published_def Let_def m split: option.splits)
qed

theorem quarantine_takes_effect_witness:
  "\<exists>d'. quarantine_source None ''src'' 7 ''op'' ''bad'' ''e1'' 5 demo_ctx = Inr d' \<and> \<not> drives d' 5 ''p''"
proof -
  let ?q = "quarantine_source None ''src'' 7 ''op'' ''bad'' ''e1'' 5 demo_ctx"
  have "isl ?q = False" by code_simp
  then obtain d' where d': "?q = Inr d'" by (cases ?q) simp_all
  have "map_sum id (\<lambda>d. map_option pkg_source (get (packages d) ''p'')) ?q = Inr (Some ''src'')" by code_simp
  then have "\<exists>p. get (packages d') ''p'' = Some p \<and> pkg_source p = ''src''" by (auto simp: d')
  then show ?thesis using quarantine_takes_effect [OF d'] d' by blast
qed

section \<open>Quarantine is not terminal in the store\<close>

text \<open>The store takes any target from any state. The activation service refuses every transition of a
  quarantined source; the persisted Transition moves the same source to OPERATIONAL, and with an
  authorization and a package in force it drives guidance again.\<close>

theorem store_lifts_quarantine:
  assumes "get (sources d) sid = Some s" and "state s = Quarantined" and "audit_takes sink eid d"
    and "get (packages d) pid = Some p" and "pkg_source p = sid" and "authorized_in d now sid (pkg_jurisdiction p)"
    and "effective_at p \<le> now" and "now < pkg_expires p"
  shows "transitions (state s) = []
    \<and> (\<exists>d'. transition_source sink sid (version s) Operational actor rsn eid now d = Inr d' \<and> drives d' now pid)"
proof -
  let ?d = "d\<lparr>sources := put sid (s\<lparr>state := Operational, version := version s + 1, updated_at := now\<rparr>) (sources d)\<rparr>"
  let ?e = "\<lparr>ev_id = eid, ev_time = now, ev_actor = actor, ev_action = ''SOURCE_STATE_TRANSITION'', ev_subject = sid,
           ev_outcome = ''OK'', ev_reason = rsn, ev_from = [], ev_to = source_text Operational\<rparr>"
  have "audit_takes sink (ev_id ?e) (propagate sid Operational ?d)" by (simp, rule audit_takes_frame [OF assms(3)]) simp
  then obtain d' where d': "record_event sink ?e (propagate sid Operational ?d) = Inr d'" using record_event_possible by blast
  have t: "transition_source sink sid (version s) Operational actor rsn eid now d = Inr d'"
    using assms(1) d' by (simp add: transition_source_def exec_conditional_def)
  have "drives d' now pid"
    using transition_source_effect [OF t] assms(1,4-8)
    by (auto simp: drives_def may_drive_guidance_def authorized_in_def)
  then show ?thesis using t assms(2) by (auto simp: transitions_def)
qed

theorem store_lifts_quarantine_witness:
  "\<exists>d d'. \<not> drives d 5 ''p'' \<and> transition_source None ''src'' 8 Operational ''op'' [] ''e2'' 5 d = Inr d' \<and> drives d' 5 ''p''"
proof -
  let ?s = "\<lparr>source_id = ''src'', government_owner = ''gov'', official_domain = ''gov.in'', state = Quarantined, version = 8, updated_at = 0\<rparr>"
  let ?d = "demo_ctx\<lparr>sources := [(''src'', ?s)]\<rparr>"
  let ?p = "\<lparr>pkg_source = ''src'', pkg_artifact = ''a'', pkg_version = 1, pkg_jurisdiction = ''IN'',
       pkg_evidence = ''AUTHORIZED_OPERATIONAL'', effective_at = 0, pkg_expires = 100, superseded_by = None, pkg_body = []\<rparr>"
  have "\<exists>d'. transition_source None ''src'' (version ?s) Operational ''op'' [] ''e2'' 5 ?d = Inr d' \<and> drives d' 5 ''p''"
    by (rule conjunct2 [OF store_lifts_quarantine [where p = ?p]])
      (simp_all add: demo_ctx_def audit_takes_def authorized_in_def live_authorization_def)
  moreover have "\<not> drives ?d 5 ''p''" by code_simp
  ultimately show ?thesis by auto
qed

section \<open>Grants\<close>

lemma revoked_not_live:
  "\<not> has_operator_grant (revoke_operator_grant subj jur now d) subj jur now'"
  by (auto simp: has_operator_grant_def revoke_operator_grant_def live_grant_def list_ex_iff split: if_splits)

text \<open>A withdrawn grant cannot be given again: after a revocation granting the same subject the same
  jurisdiction reports success and changes nothing, and the subject never has a live grant there.\<close>

theorem regrant_is_lost:
  assumes "list_ex (\<lambda>(i, g). grant_subject g = subj \<and> grant_jurisdiction g = jur) (grants d)"
  shows "grant_operator gid subj jur by_whom exp now' (revoke_operator_grant subj jur now d) = Inr (revoke_operator_grant subj jur now d)
    \<and> \<not> has_operator_grant (revoke_operator_grant subj jur now d) subj jur now''"
proof -
  have "list_ex (\<lambda>(i, g). grant_subject g = subj \<and> grant_jurisdiction g = jur) (grants (revoke_operator_grant subj jur now d))"
    using assms by (force simp: revoke_operator_grant_def list_ex_iff)
  then show ?thesis using revoked_not_live by (simp add: grant_operator_def)
qed

theorem regrant_is_lost_witness:
  "\<exists>d. has_operator_grant d ''u'' ''IN'' 5 \<and> \<not> has_operator_grant (revoke_operator_grant ''u'' ''IN'' 6 d) ''u'' ''IN'' 7
     \<and> grant_operator ''g2'' ''u'' ''IN'' ''admin'' None 7 (revoke_operator_grant ''u'' ''IN'' 6 d) = Inr (revoke_operator_grant ''u'' ''IN'' 6 d)"
proof (intro exI conjI)
  let ?d = "blank_db\<lparr>grants := [(''g1'', \<lparr>grant_subject = ''u'', grant_jurisdiction = ''IN'', granted_by = ''admin'',
     grant_created = 1, grant_expires = None, grant_revoked = None\<rparr>)]\<rparr>"
  show "has_operator_grant ?d ''u'' ''IN'' 5" by code_simp
  have e: "list_ex (\<lambda>(i, g). grant_subject g = ''u'' \<and> grant_jurisdiction g = ''IN'') (grants ?d)" by simp
  show "\<not> has_operator_grant (revoke_operator_grant ''u'' ''IN'' 6 ?d) ''u'' ''IN'' 7"
    and "grant_operator ''g2'' ''u'' ''IN'' ''admin'' None 7 (revoke_operator_grant ''u'' ''IN'' 6 ?d) = Inr (revoke_operator_grant ''u'' ''IN'' 6 ?d)"
    using regrant_is_lost [OF e] by blast+
qed

section \<open>Sessions\<close>

lemma authenticate_Inr:
  assumes "wf_map (sessions d)" "authenticate lib d token now = Inr (i, s)"
  shows "get (sessions d) i = Some s \<and> credential_ref s = sha_hex lib token \<and> sess_revoked s = None \<and> now < sess_expires s"
proof -
  obtain rest where f: "filter (\<lambda>(i, s). credential_ref s = sha_hex lib token) (sessions d) = (i, s) # rest"
    and l: "sess_revoked s = None" "now < sess_expires s"
    using assms(2) by (auto simp: authenticate_def split: list.splits if_splits)
  show ?thesis using filter_hd_mem [OF f] l assms(1) by (simp add: get_iff_mem)
qed

text \<open>Only a live session authenticates: the row found is stored, holds the hash of the token, is not
  revoked and not expired; and once a session is revoked no token authenticates it, at any time.\<close>

theorem session_live_only:
  assumes "wf_map (sessions d)"
  shows "(authenticate lib d token now = Inr (i, s) \<longrightarrow> get (sessions d) i = Some s
        \<and> credential_ref s = sha_hex lib token \<and> sess_revoked s = None \<and> now < sess_expires s)
    \<and> (\<forall>s' t now'. authenticate lib (revoke_session i now d) t now' \<noteq> Inr (i, s'))"
proof (intro conjI allI impI notI)
  fix s' t now'
  assume a: "authenticate lib (revoke_session i now d) t now' = Inr (i, s')"
  have "wf_map (sessions (revoke_session i now d))" using assms by (simp add: revoke_session_def split: option.split)
  from authenticate_Inr [OF this a] show False by (auto simp: revoke_session_def split: option.splits if_splits)
qed (use authenticate_Inr [OF assms] in blast)+

theorem session_live_only_witness:
  "authenticate demo_sql (revoke_session ''s'' 3 demo_ctx) t 4 \<noteq> Inr (''s'', s')"
proof -
  have "wf_map (sessions demo_ctx)" by code_simp
  from session_live_only [OF this] show ?thesis by blast
qed

end
