(* ===== verification/Stay_Service.thy ===== *)
theory Stay_Service
  imports Source_Store
begin

text \<open>
  The transactions of the HTTP handlers, backend/internal/httpserver/stay_handlers.go,
  operator_handlers.go, auth.go and operator.go: a decoded request of an authenticated
  session becomes one transaction under an idempotency key, and its outcome a response. The
  decoding of the body, the envelope and the headers of a response are left out; the
  identifiers a handler draws at random are its arguments.
\<close>

section \<open>Requests and responses\<close>

record svc_lib =
  sql :: sql_lib
  bodies :: body_lib
  json_text :: "string \<Rightarrow> string"
  parse_date :: "string \<Rightarrow> int option"
  allow_synthetic :: bool

text \<open>A response with its status; an error with its code, message, field and whether to retry.\<close>

datatype response = Data int tx_result | ErrorReply int string string string bool

definition answer :: "int \<Rightarrow> (st_error \<Rightarrow> response) \<Rightarrow> db \<times> (st_error + reply) \<Rightarrow> db \<times> response" where
  "answer ok err r = (case r of
     (d, Inl e) \<Rightarrow> (d, err e)
   | (d, Inr (Fresh res)) \<Rightarrow> (d, Data ok res)
   | (d, Inr (Replayed res)) \<Rightarrow> (d, Data 200 res))"

fun write_reservation_error :: "st_error \<Rightarrow> response" where
  "write_reservation_error (SnapshotStale w g) = ErrorReply 409 ''STALE_VERSION'' ''source snapshot changed; re-read choices before confirming'' ''snapshot_version'' True"
| "write_reservation_error ErrPayloadConflict = ErrorReply 409 ''IDEMPOTENCY_CONFLICT'' ''idempotency key reused with a different payload'' ''idempotency_key'' False"
| "write_reservation_error ErrInProgress = ErrorReply 409 ''IDEMPOTENCY_CONFLICT'' ''request with this key is in progress'' ''idempotency_key'' True"
| "write_reservation_error ErrCapacityExhausted = ErrorReply 409 ''CAPACITY_CONFLICT'' ''capacity exhausted for the requested dates'' ''facility_id'' True"
| "write_reservation_error ErrInvalidTransition = ErrorReply 409 ''VALIDATION_FAILED'' ''invalid stay transition'' [] False"
| "write_reservation_error ErrStayNotFound = ErrorReply 404 ''NOT_FOUND'' ''stay not found'' [] False"
| "write_reservation_error ErrReservationContext = ErrorReply 409 ''VALIDATION_FAILED'' ''reservation context is not currently operational (source/package/facility)'' ''package_id'' False"
| "write_reservation_error ErrFacilityPackageMismatch = ErrorReply 409 ''VALIDATION_FAILED'' ''facility is not in the requested package'' ''facility_id'' False"
| "write_reservation_error ErrRouteUnavailable = ErrorReply 409 ''ROUTE_UNVERIFIED'' ''route is not verified and currently valid'' ''route_id'' False"
| "write_reservation_error ErrRouteRequired = ErrorReply 409 ''ROUTE_UNVERIFIED'' ''authoritative policy requires a verified route to the destination'' ''route_id'' False"
| "write_reservation_error ErrNoStayPolicy = ErrorReply 409 ''VALIDATION_FAILED'' ''authoritative stay policy is missing a required field'' [] False"
| "write_reservation_error ErrStayOutOfPolicy = ErrorReply 409 ''VALIDATION_FAILED'' ''stay dates outside the authoritative temporary-stay bounds'' ''end_date'' False"
| "write_reservation_error _ = ErrorReply 500 ''INTERNAL'' ''reservation failed'' [] True"

fun write_event_error :: "st_error \<Rightarrow> response" where
  "write_event_error ErrNotOwner = ErrorReply 403 ''FORBIDDEN'' ''not the owning session'' [] False"
| "write_event_error ErrInvalidEvent = ErrorReply 400 ''INVALID_VALUE'' ''invalid stay event'' ''type'' False"
| "write_event_error e = write_reservation_error e"

fun write_operator_error :: "st_error \<Rightarrow> response" where
  "write_operator_error ErrCrossJurisdiction = ErrorReply 403 ''FORBIDDEN'' ''target outside operator jurisdiction'' [] False"
| "write_operator_error ErrGrantInvalid = ErrorReply 403 ''FORBIDDEN'' ''operator grant expired, revoked or no longer matches'' [] False"
| "write_operator_error ErrNoAuthorization = ErrorReply 409 ''VALIDATION_FAILED'' ''source has no valid authorization to operate'' [] False"
| "write_operator_error ErrPayloadConflict = ErrorReply 409 ''IDEMPOTENCY_CONFLICT'' ''idempotency key conflict'' [] False"
| "write_operator_error ErrInProgress = ErrorReply 409 ''IDEMPOTENCY_CONFLICT'' ''idempotency key conflict'' [] False"
| "write_operator_error ErrNotFound = ErrorReply 404 ''NOT_FOUND'' ''target not found'' [] False"
| "write_operator_error ErrStayNotFound = ErrorReply 404 ''NOT_FOUND'' ''target not found'' [] False"
| "write_operator_error ErrVersionConflict = ErrorReply 409 ''STALE_VERSION'' ''stale version'' [] False"
| "write_operator_error ErrInvalidTransition = ErrorReply 409 ''VALIDATION_FAILED'' ''invalid transition for current state'' [] False"
| "write_operator_error ErrQuarantineTerminal = ErrorReply 409 ''VALIDATION_FAILED'' ''source already quarantined'' [] False"
| "write_operator_error _ = ErrorReply 500 ''INTERNAL'' ''operation failed'' [] False"

section \<open>Authentication\<close>

definition bearer_token :: "string \<Rightarrow> string" where
  "bearer_token h = (if has_prefix h ''Bearer '' then trim_space (trim_prefix h ''Bearer '') else [])"

text \<open>The session of a request, from its Authorization header, or the response that refuses it.\<close>

definition with_session :: "svc_lib \<Rightarrow> db \<Rightarrow> string \<Rightarrow> time \<Rightarrow> response + string \<times> session_row" where
  "with_session lib d header now =
     (if bearer_token header = [] then Inl (ErrorReply 401 ''FORBIDDEN'' ''missing bearer token'' [] False)
      else case authenticate (sql lib) d (bearer_token header) now of
        Inl _ \<Rightarrow> Inl (ErrorReply 401 ''FORBIDDEN'' ''session invalid, expired or revoked'' [] False)
      | Inr s \<Rightarrow> Inr s)"

definition with_operator :: "svc_lib \<Rightarrow> db \<Rightarrow> string \<Rightarrow> time \<Rightarrow> response + string \<times> session_row" where
  "with_operator lib d header now =
     bind_res (with_session lib d header now) (\<lambda>(i, s).
       if principal_kind s \<noteq> ''OPERATOR'' then Inl (ErrorReply 403 ''FORBIDDEN'' ''operator session required'' [] False)
       else if mfa_verified_at s = None then Inl (ErrorReply 403 ''FORBIDDEN'' ''operator MFA not verified'' [] False)
       else Inr (i, s))"

section \<open>Creating a reservation\<close>

record reservation_request =
  rq_facility :: string
  rq_package :: string
  rq_route :: string
  rq_party :: int
  rq_start :: string
  rq_end :: string
  rq_key :: string
  rq_snapshot :: int

definition json_field :: "svc_lib \<Rightarrow> string \<Rightarrow> string \<Rightarrow> string" where
  "json_field lib name v = CHR 0x22 # name @ [CHR 0x22, CHR '':''] @ json_text lib v"

definition json_number :: "string \<Rightarrow> int \<Rightarrow> string" where
  "json_number name n = CHR 0x22 # name @ [CHR 0x22, CHR '':''] @ show_int n"

definition reservation_payload :: "svc_lib \<Rightarrow> string \<Rightarrow> reservation_request \<Rightarrow> string" where
  "reservation_payload lib sess rq = ''{'' @ join_byte (CHR '','')
     [json_field lib ''session_id'' sess, json_field lib ''facility_id'' (rq_facility rq), json_field lib ''package_id'' (rq_package rq),
      json_field lib ''route_id'' (rq_route rq), json_number ''party_size'' (rq_party rq), json_field lib ''start_date'' (rq_start rq),
      json_field lib ''end_date'' (rq_end rq), json_field lib ''idempotency_key'' (rq_key rq),
      json_number ''snapshot_version'' (rq_snapshot rq)] @ ''}''"

definition reservation_payload_hash :: "svc_lib \<Rightarrow> string \<Rightarrow> reservation_request \<Rightarrow> string" where
  "reservation_payload_hash lib sess rq = sha_hex (sql lib) (reservation_payload lib sess rq)"

definition legacy_payload_hash :: "svc_lib \<Rightarrow> string \<Rightarrow> reservation_request \<Rightarrow> string" where
  "legacy_payload_hash lib sess rq = sha_hex (sql lib) (join_byte (CHR ''|'')
     [sess, rq_facility rq, rq_package rq, rq_route rq, rq_start rq, rq_end rq, rq_key rq])"

definition is_text :: "res_value \<Rightarrow> bool" where
  "is_text v = (case v of RStr _ \<Rightarrow> True | RInt _ \<Rightarrow> False)"

text \<open>The bounded compatibility with keys that were stored under the legacy hash.\<close>

definition legacy_check :: "svc_lib \<Rightarrow> string \<Rightarrow> reservation_request \<Rightarrow> legacy_checker" where
  "legacy_check lib sess rq d h stored =
     (if h \<noteq> legacy_payload_hash lib sess rq then Inr False
      else if \<not> list_all (\<lambda>(k, v). is_text v) stored then Inl ErrPayloadConflict
      else case map_of stored ''reservation_id'' of
        Some (RStr rid) \<Rightarrow>
          if rid = [] then Inl ErrPayloadConflict
          else (case get (reservations d) rid of
              None \<Rightarrow> Inl ErrPayloadConflict
            | Some r \<Rightarrow>
                if res_session r \<noteq> sess \<or> res_facility r \<noteq> rq_facility rq \<or> res_party r \<noteq> rq_party rq
                then Inl ErrPayloadConflict else Inr True)
      | _ \<Rightarrow> Inl ErrPayloadConflict)"

definition opt_text :: "string \<Rightarrow> string option" where
  "opt_text s = (if s = [] then None else Some s)"

definition reservation_work ::
  "svc_lib \<Rightarrow> string \<Rightarrow> reservation_request \<Rightarrow> int \<Rightarrow> int \<Rightarrow> time \<Rightarrow> string \<Rightarrow> string \<Rightarrow> db \<Rightarrow> st_error + db \<times> tx_result"
where
  "reservation_work lib sess rq s e now sid rid d =
     bind_res (revalidate_context (bodies lib) (allow_synthetic lib) (rq_facility rq) (rq_package rq) (opt_text (rq_route rq)) now d)
       (\<lambda>(jur, pol).
     bind_res (require (revalidate_snapshot (rq_package rq) (rq_snapshot rq) d) ()) (\<lambda>_.
     bind_res (require (check_stay_bounds pol s e) ()) (\<lambda>_.
     bind_res (hold_expiry pol now) (\<lambda>exp.
     bind_res (insert_reservation rid
         \<lparr>res_session = sess, res_facility = rq_facility rq, service_date = s, res_party = rq_party rq,
          res_state = StayReserved, res_expires = Some exp\<rparr> d) (\<lambda>d1.
     bind_res (reserve (Some (sql lib))
         \<lparr>stay_id = sid, reservation_id = rid, stay_session = sess, stay_facility = rq_facility rq, party_size = rq_party rq,
          start_date = s, end_date = e, stay_state = StayReserved, stay_package = rq_package rq,
          route_id = opt_text (rq_route rq), stay_version = 1, expires_at = Some exp, transferred_from = None,
          arrived_at = None, departed_at = None\<rparr> now (rq_key rq) d1) (\<lambda>d2.
     Inr (d2, [(''reservation_id'', RStr rid), (''stay_id'', RStr sid)])))))))"

definition create_reservation ::
  "svc_lib \<Rightarrow> string \<Rightarrow> reservation_request \<Rightarrow> time \<Rightarrow> string \<Rightarrow> string \<Rightarrow> db \<Rightarrow> db \<times> response"
where
  "create_reservation lib sess rq now sid rid d =
     (let bad = (d, ErrorReply 400 ''INVALID_VALUE'' ''invalid reservation request'' [] False)
      in case (parse_date lib (rq_start rq), parse_date lib (rq_end rq)) of
           (Some s, Some e) \<Rightarrow>
             if e \<le> s \<or> rq_party rq < 1 \<or> rq_key rq = [] \<or> rq_snapshot rq \<le> 0 then bad
             else answer 201 write_reservation_error
               (in_tx (keyed_tx (sess, ''reservation.create'', rq_key rq) (reservation_payload_hash lib sess rq)
                  (Some (legacy_check lib sess rq)) (now + hour) (\<lambda>_. None) (reservation_work lib sess rq s e now sid rid)) d)
         | _ \<Rightarrow> bad)"

section \<open>Reading a reservation\<close>

definition get_reservation :: "db \<Rightarrow> string \<Rightarrow> string \<Rightarrow> response + stay" where
  "get_reservation d sess i =
     (case filter (\<lambda>(k, st). stay_id st = i \<or> reservation_id st = i) (stays d) of
        [] \<Rightarrow> Inl (ErrorReply 404 ''NOT_FOUND'' ''reservation not found'' [] False)
      | (k, st) # _ \<Rightarrow>
          if stay_session st \<noteq> sess then Inl (ErrorReply 403 ''FORBIDDEN'' ''not the owning session'' [] False) else Inr st)"

section \<open>Events of a stay\<close>

record event_request =
  ev_type :: string
  ev_key :: string
  new_end_date :: string
  new_facility :: string
  new_route :: string
  ev_snapshot :: int

text \<open>
  \<open>strings.ToUpper\<close> as far as a comparison with ASCII words can tell: besides the ASCII letters
  only U+0131 and U+017F have an ASCII capital.
\<close>

definition upper_char :: "char \<Rightarrow> char" where
  "upper_char c = (let n = of_char c :: int in if 97 \<le> n \<and> n \<le> 122 then char_of (n - 32) else c)"

fun upper_word :: "string \<Rightarrow> string" where
  "upper_word [] = []"
| "upper_word [c] = [upper_char c]"
| "upper_word (c # d # cs) =
     (if c = CHR 0xC4 \<and> d = CHR 0xB1 then CHR ''I'' # upper_word cs
      else if c = CHR 0xC5 \<and> d = CHR 0xBF then CHR ''S'' # upper_word cs
      else upper_char c # upper_word (d # cs))"

datatype ev_kind = EkArrive | EkCancel | EkDepart | EkExtend | EkTransfer | EkOther

definition event_kind :: "string \<Rightarrow> ev_kind" where
  "event_kind t = (let u = upper_word t in
     if u = ''ARRIVE'' then EkArrive else if u = ''CANCEL'' then EkCancel else if u = ''DEPART'' then EkDepart
     else if u = ''EXTEND'' then EkExtend else if u = ''TRANSFER'' then EkTransfer else EkOther)"

definition event_payload_hash :: "svc_lib \<Rightarrow> string \<Rightarrow> string \<Rightarrow> event_request \<Rightarrow> string" where
  "event_payload_hash lib sess sid rq = sha_hex (sql lib) (join_byte (CHR ''|'')
     [sess, sid, ev_type rq, new_end_date rq, new_facility rq, new_route rq, show_int (ev_snapshot rq), ev_key rq])"

definition extend_event :: "svc_lib \<Rightarrow> string \<Rightarrow> event_request \<Rightarrow> time \<Rightarrow> db \<Rightarrow> st_error + db" where
  "extend_event lib sid rq now d =
     (case parse_date lib (new_end_date rq) of
        None \<Rightarrow> Inl ErrInvalidEvent
      | Some nd \<Rightarrow>
          bind_res (stay_context d sid) (\<lambda>(pid, fid, route).
          bind_res (revalidate_context (bodies lib) (allow_synthetic lib) fid pid route now d) (\<lambda>(jur, pol).
          bind_res (require (revalidate_snapshot pid (ev_snapshot rq) d) ()) (\<lambda>_.
          bind_res (get_stay d sid) (\<lambda>st.
          bind_res (require (check_stay_bounds pol (start_date st) nd) ()) (\<lambda>_.
          Stay_Store.extend (Some (sql lib)) sid nd now (ev_key rq) d))))))"

definition transfer_event ::
  "svc_lib \<Rightarrow> string \<Rightarrow> event_request \<Rightarrow> time \<Rightarrow> string \<Rightarrow> string \<Rightarrow> db \<Rightarrow> st_error + db"
where
  "transfer_event lib sid rq now nsid nrid d =
     (if new_facility rq = [] then Inl ErrInvalidEvent
      else bind_res (stay_context d sid) (\<lambda>(pid, fid, route).
           bind_res (revalidate_context (bodies lib) (allow_synthetic lib) (new_facility rq) pid (opt_text (new_route rq)) now d)
             (\<lambda>(jur, pol).
           bind_res (require (revalidate_snapshot pid (ev_snapshot rq) d) ()) (\<lambda>_.
             if allow_transfers pol \<noteq> Some True then Inl ErrStayOutOfPolicy
             else bind_res (hold_expiry pol now) (\<lambda>exp.
             transfer (Some (sql lib)) sid nsid nrid (new_facility rq) (opt_text (new_route rq)) (Some exp) now (ev_key rq) d)))))"

definition event_result :: "string \<Rightarrow> event_request \<Rightarrow> string \<Rightarrow> string \<Rightarrow> tx_result" where
  "event_result sid rq nsid nrid =
     [(''stay_id'', RStr sid), (''type'', RStr (ev_type rq))]
     @ (if event_kind (ev_type rq) = EkTransfer then [(''new_stay_id'', RStr nsid), (''new_reservation_id'', RStr nrid)] else [])"

definition event_work ::
  "svc_lib \<Rightarrow> string \<Rightarrow> string \<Rightarrow> event_request \<Rightarrow> time \<Rightarrow> string \<Rightarrow> string \<Rightarrow> db \<Rightarrow> st_error + db \<times> tx_result"
where
  "event_work lib sess sid rq now nsid nrid d =
     bind_res (get_stay d sid) (\<lambda>st.
       if stay_session st \<noteq> sess then Inl ErrNotOwner
       else bind_res
         (case event_kind (ev_type rq) of
            EkArrive \<Rightarrow> arrive (Some (sql lib)) sid now (ev_key rq) d
          | EkCancel \<Rightarrow> cancel (Some (sql lib)) sid now (ev_key rq) d
          | EkDepart \<Rightarrow> depart (Some (sql lib)) sid now (ev_key rq) d
          | EkExtend \<Rightarrow> extend_event lib sid rq now d
          | EkTransfer \<Rightarrow> transfer_event lib sid rq now nsid nrid d
          | EkOther \<Rightarrow> Inl ErrInvalidEvent)
         (\<lambda>d'. Inr (d', event_result sid rq nsid nrid)))"

definition event_operation :: "event_request \<Rightarrow> string" where
  "event_operation rq = ''stay.'' @ lower_search (ev_type rq)"

definition stay_event_handler ::
  "svc_lib \<Rightarrow> string \<Rightarrow> string \<Rightarrow> event_request \<Rightarrow> time \<Rightarrow> string \<Rightarrow> string \<Rightarrow> db \<Rightarrow> db \<times> response"
where
  "stay_event_handler lib sess sid rq now nsid nrid d =
     (if ev_key rq = [] then (d, ErrorReply 400 ''INVALID_VALUE'' ''idempotency_key is required'' ''idempotency_key'' False)
      else if event_kind (ev_type rq) \<in> {EkExtend, EkTransfer} \<and> ev_snapshot rq \<le> 0
      then (d, ErrorReply 400 ''INVALID_VALUE'' (''snapshot_version is required for '' @ ev_type rq) ''snapshot_version'' False)
      else answer 200 write_event_error
        (in_tx (keyed_tx (sess, event_operation rq, ev_key rq) (event_payload_hash lib sess sid rq) None (now + hour)
           (\<lambda>_. None) (event_work lib sess sid rq now nsid nrid)) d))"

section \<open>Operators\<close>

definition revalidate_operator_grant :: "session_row \<Rightarrow> time \<Rightarrow> db \<Rightarrow> st_error option" where
  "revalidate_operator_grant op now d =
     (case operator_grant_id op of
        None \<Rightarrow> Some ErrGrantInvalid
      | Some gid \<Rightarrow> (case live_grant_for_update d gid of Inl e \<Rightarrow> Some e | Inr g \<Rightarrow> validate_session_grant op gid g now))"

text \<open>The gates of an operator's action on a source and on a stay.\<close>

definition source_gate :: "session_row \<Rightarrow> string \<Rightarrow> time \<Rightarrow> db \<Rightarrow> st_error option" where
  "source_gate op srcid now d = first_err
     [revalidate_operator_grant op now d,
      (case authorization_jurisdiction d srcid now of
         None \<Rightarrow> Some ErrNoAuthorization
       | Some j \<Rightarrow> check (sess_jurisdiction op \<noteq> Some j) ErrCrossJurisdiction)]"

definition stay_gate :: "session_row \<Rightarrow> string \<Rightarrow> time \<Rightarrow> db \<Rightarrow> st_error option" where
  "stay_gate op sid now d = first_err
     [revalidate_operator_grant op now d,
      (case stay_facility_jurisdiction d sid of
         Inl e \<Rightarrow> Some e
       | Inr j \<Rightarrow> check (sess_jurisdiction op \<noteq> Some j) ErrCrossJurisdiction)]"

record operator_request =
  op_target :: src_state
  op_party :: int
  op_key :: string
  op_reason :: string
  op_body :: string

definition source_transition ::
  "svc_lib \<Rightarrow> string \<times> session_row \<Rightarrow> string \<Rightarrow> operator_request \<Rightarrow> time \<Rightarrow> string \<Rightarrow> db \<Rightarrow> db \<times> response"
where
  "source_transition lib op srcid rq now eid d =
     (if op_target rq \<notin> {Operational, Suspended, Retired}
      then (d, ErrorReply 400 ''VALIDATION_FAILED'' ''target must be OPERATIONAL, SUSPENDED or RETIRED'' ''target'' False)
      else if op_key rq = [] then (d, ErrorReply 400 ''VALIDATION_FAILED'' ''idempotency_key is required'' ''idempotency_key'' False)
      else answer 200 write_operator_error
        (in_tx (keyed_tx (fst op, ''source.transition:'' @ srcid, op_key rq) (sha_hex (sql lib) (op_body rq)) None (now + 24 * hour)
           (source_gate (snd op) srcid now)
           (\<lambda>d1. bind_res (load_source d1 srcid) (\<lambda>s.
                 bind_res (transition_source (Some (sql lib)) srcid (version s) (op_target rq) (fst op) (op_reason rq) eid now d1)
                   (\<lambda>d2. Inr (d2, [(''source_id'', RStr srcid), (''target'', RStr (source_text (op_target rq)))]))))) d))"

definition stay_correction ::
  "svc_lib \<Rightarrow> string \<times> session_row \<Rightarrow> string \<Rightarrow> operator_request \<Rightarrow> time \<Rightarrow> db \<Rightarrow> db \<times> response"
where
  "stay_correction lib op sid rq now d =
     (if op_party rq < 1 then (d, ErrorReply 400 ''VALIDATION_FAILED'' ''new_party_size must be at least 1'' ''new_party_size'' False)
      else if op_key rq = [] then (d, ErrorReply 400 ''VALIDATION_FAILED'' ''idempotency_key is required'' ''idempotency_key'' False)
      else answer 200 write_operator_error
        (in_tx (keyed_tx (fst op, ''stay.correction:'' @ sid, op_key rq) (sha_hex (sql lib) (op_body rq)) None (now + 24 * hour)
           (stay_gate (snd op) sid now)
           (\<lambda>d1. bind_res (correct (Some (sql lib)) sid (op_party rq) (fst op) (op_reason rq) now (op_key rq) d1)
                   (\<lambda>d2. Inr (d2, [(''stay_id'', RStr sid), (''new_party_size'', RInt (op_party rq))])))) d))"

definition source_quarantine ::
  "svc_lib \<Rightarrow> string \<times> session_row \<Rightarrow> string \<Rightarrow> operator_request \<Rightarrow> time \<Rightarrow> string \<Rightarrow> db \<Rightarrow> db \<times> response"
where
  "source_quarantine lib op srcid rq now eid d =
     (if op_key rq = [] then (d, ErrorReply 400 ''VALIDATION_FAILED'' ''idempotency_key is required'' ''idempotency_key'' False)
      else if op_reason rq = [] then (d, ErrorReply 400 ''VALIDATION_FAILED'' ''reason is required'' ''reason'' False)
      else answer 200 write_operator_error
        (in_tx (keyed_tx (fst op, ''source.quarantine:'' @ srcid, op_key rq) (sha_hex (sql lib) (op_body rq)) None (now + 24 * hour)
           (source_gate (snd op) srcid now)
           (\<lambda>d1. bind_res (load_source d1 srcid) (\<lambda>s.
                 bind_res (quarantine_source (Some (sql lib)) srcid (version s) (fst op) (op_reason rq) eid now d1)
                   (\<lambda>d2. Inr (d2, [(''source_id'', RStr srcid), (''state'', RStr ''QUARANTINED'')]))))) d))"

section \<open>Issuing sessions\<close>

definition create_session :: "svc_lib \<Rightarrow> string \<Rightarrow> string \<Rightarrow> time \<Rightarrow> db \<Rightarrow> db \<times> response" where
  "create_session lib token sid now d =
     (case issue_citizen_session (sql lib) token sid (24 * hour) now d of
        Inl _ \<Rightarrow> (d, ErrorReply 500 ''INTERNAL'' ''failed to issue session'' [] True)
      | Inr d' \<Rightarrow> (d', Data 201 [(''session_id'', RStr sid), (''token'', RStr token), (''expires_in'', RInt 86400)]))"

text \<open>The identity that the trusted verifier found: a subject and when its second factor was verified.\<close>

definition create_operator_session ::
  "svc_lib \<Rightarrow> (string \<times> time option) option \<Rightarrow> string \<Rightarrow> string \<Rightarrow> time \<Rightarrow> db \<Rightarrow> db \<times> response"
where
  "create_operator_session lib verified token sid now d =
     (case verified of
        None \<Rightarrow> (d, ErrorReply 401 ''FORBIDDEN'' ''operator identity or MFA not verified'' [] False)
      | Some (subj, mfa) \<Rightarrow>
          if mfa = None then (d, ErrorReply 403 ''FORBIDDEN'' ''operator MFA not verified'' [] False)
          else case first_live_grant d subj now of
            Inl _ \<Rightarrow> (d, ErrorReply 403 ''FORBIDDEN'' ''no operator grant for verified identity'' [] False)
          | Inr (gid, g) \<Rightarrow>
              (case issue_operator_session (sql lib) token sid (grant_jurisdiction g) subj gid mfa (8 * hour) now d of
                 Inl _ \<Rightarrow> (d, ErrorReply 500 ''INTERNAL'' ''failed to issue operator session'' [] False)
               | Inr d' \<Rightarrow> (d', Data 201 [(''session_id'', RStr sid), (''token'', RStr token), (''principal'', RStr ''OPERATOR''),
                    (''jurisdiction'', RStr (grant_jurisdiction g)), (''expires_in'', RInt 28800)])))"

section \<open>The service as a sequence of transactions\<close>

datatype svc_event =
  SvReserve string reservation_request time string string
| SvStay string string event_request time string string
| SvTransition "string \<times> session_row" string operator_request time string
| SvCorrection "string \<times> session_row" string operator_request time
| SvQuarantine "string \<times> session_row" string operator_request time string
| SvExpiry time nat
| SvCitizen string string time
| SvOperator "(string \<times> time option) option" string string time
| SvInventory string int int
| SvSource source
| SvAuthorize authorization
| SvGrant string string string string "time option" time
| SvRevokeGrant string string time
| SvRevokeSession string time

definition commit :: "(db \<Rightarrow> st_error + db) \<Rightarrow> db \<Rightarrow> db" where
  "commit f d = fst (in_tx (\<lambda>d. bind_res (f d) (\<lambda>d'. Inr (d', ()))) d)"

fun svc_step :: "svc_lib \<Rightarrow> db \<Rightarrow> svc_event \<Rightarrow> db" where
  "svc_step lib d (SvReserve sess rq now sid rid) = fst (create_reservation lib sess rq now sid rid d)"
| "svc_step lib d (SvStay sess sid rq now nsid nrid) = fst (stay_event_handler lib sess sid rq now nsid nrid d)"
| "svc_step lib d (SvTransition op srcid rq now eid) = fst (source_transition lib op srcid rq now eid d)"
| "svc_step lib d (SvCorrection op sid rq now) = fst (stay_correction lib op sid rq now d)"
| "svc_step lib d (SvQuarantine op srcid rq now eid) = fst (source_quarantine lib op srcid rq now eid d)"
| "svc_step lib d (SvExpiry now limit) = fst (tick (Some (sql lib)) now limit d)"
| "svc_step lib d (SvCitizen token sid now) = fst (create_session lib token sid now d)"
| "svc_step lib d (SvOperator v token sid now) = fst (create_operator_session lib v token sid now d)"
| "svc_step lib d (SvInventory f x cap) = commit (ensure_inventory f x cap) d"
| "svc_step lib d (SvSource s) = commit (insert_source s) d"
| "svc_step lib d (SvAuthorize a) = commit (record_authorization a) d"
| "svc_step lib d (SvGrant gid subj jur by_whom exp now) = commit (grant_operator gid subj jur by_whom exp now) d"
| "svc_step lib d (SvRevokeGrant subj jur now) = revoke_operator_grant subj jur now d"
| "svc_step lib d (SvRevokeSession sid now) = revoke_session sid now d"

end
