(* ===== verification/Service_Safety.thy ===== *)
theory Service_Safety
  imports Stay_Service
begin

text \<open>
  What the service as a whole guarantees, whatever sequence of requests, ticks of the expiry
  worker and administrative actions it serves: capacity is conserved, a request is served at
  most once and replayed after, a commitment needs its context, an operator needs a live
  grant, and a citizen moves only stays of the own session.
\<close>

section \<open>The work of the handlers\<close>

text \<open>The work is a run of the stay operations.\<close>

definition stay_path :: "sql_lib option \<Rightarrow> db \<Rightarrow> db \<Rightarrow> bool" where
  "stay_path sink d d' \<longleftrightarrow> (\<exists>es. d' = run (stay_step sink) d es)"

lemma stay_path_refl [simp]: "stay_path sink d d"
  unfolding stay_path_def by (rule exI [of _ "[]"]) simp

lemma stay_path_op: "stay_path sink d d1 \<Longrightarrow> stay_op sink e d1 = Inr d2 \<Longrightarrow> stay_path sink d d2"
proof -
  assume "stay_path sink d d1" and e: "stay_op sink e d1 = Inr d2"
  then obtain es where "d1 = run (stay_step sink) d es" by (auto simp: stay_path_def)
  then have "d2 = run (stay_step sink) d (es @ [e])" using e by (simp add: stay_step_def in_tx_def)
  then show ?thesis unfolding stay_path_def by blast
qed

lemma moved_keys: "moved d d' sid st st' h o' xs \<Longrightarrow> idem_keys d' = idem_keys d"
  unfolding moved_def by (auto dest: arg_cong [where f = idem_keys])

lemma stay_op_keys:
  assumes "stay_op sink e d = Inr d'"
  shows "idem_keys d' = idem_keys d"
proof (cases e)
  case (EvReserve st now key)
  then show ?thesis using reserve_effect [of sink st now key d d'] assms by (auto dest: arg_cong [where f = idem_keys])
next
  case (EvTransfer sid ni nr nf rt ex now key)
  obtain st where "transferred d d' sid st ni (transfer_stay st ni nr nf rt ex)"
    using transfer_effect [of sink sid ni nr nf rt ex now key d d'] assms EvTransfer by auto
  then show ?thesis unfolding transferred_def by (auto dest: arg_cong [where f = idem_keys])
next
  case (EvCorrect sid n op rsn now key)
  then show ?thesis using correct_moved [of sink sid n op rsn now key d d'] assms moved_keys by auto
next
  case (EvReserveP3 rid r now v)
  then obtain m d1 e' where d1: "insert_reservation rid (r\<lparr>res_state := StayReserved\<rparr>) (d\<lparr>inventory := m\<rparr>) = Inr d1"
    and rec: "record_event sink e' d1 = Inr d'"
    using assms by (auto simp: reserve_p3_def Let_def bind_res_Inr split: sum.splits option.splits if_splits)
  obtain rows where "d' = d1\<lparr>audit_rows := rows\<rparr>" using record_event_frame [OF rec] by blast
  then show ?thesis using d1 by (auto simp: insert_reservation_Inr)
qed (use assms in \<open>auto simp: insert_reservation_Inr ensure_inventory_def split: if_splits
      dest: arrive_moved cancel_moved expire_moved depart_moved extend_moved dest!: moved_keys\<close>)

lemma reservation_work_path:
  assumes "reservation_work lib sess rq s e now sid rid d = Inr (d', res)"
  shows "stay_path (Some (sql lib)) d d'"
proof -
  obtain r st d1 where "insert_reservation rid r d = Inr d1" "reserve (Some (sql lib)) st now (rq_key rq) d1 = Inr d'"
    using assms by (auto simp: reservation_work_def bind_res_Inr)
  then have "stay_op (Some (sql lib)) (EvReservation rid r) d = Inr d1"
    "stay_op (Some (sql lib)) (EvReserve st now (rq_key rq)) d1 = Inr d'" by simp_all
  then show ?thesis using stay_path_op [OF stay_path_op [OF stay_path_refl]] by blast
qed

text \<open>The operations that an event of a citizen may become.\<close>

definition own_event :: "event_request \<Rightarrow> string \<Rightarrow> string \<Rightarrow> string \<Rightarrow> time \<Rightarrow> stay_ev \<Rightarrow> bool" where
  "own_event rq sid nsid nrid now e \<longleftrightarrow> e = EvArrive sid now (ev_key rq) \<or> e = EvCancel sid now (ev_key rq)
     \<or> e = EvDepart sid now (ev_key rq) \<or> (\<exists>nd. e = EvExtend sid nd now (ev_key rq))
     \<or> (\<exists>ex. e = EvTransfer sid nsid nrid (new_facility rq) (opt_text (new_route rq)) ex now (ev_key rq))"

lemma event_work_op:
  assumes "event_work lib sess sid rq now nsid nrid d = Inr (d', res)"
  shows "res = event_result sid rq nsid nrid \<and> (\<exists>st. get (stays d) sid = Some st \<and> stay_session st = sess)
    \<and> (\<exists>e. own_event rq sid nsid nrid now e \<and> stay_op (Some (sql lib)) e d = Inr d')"
proof -
  let ?k = "event_kind (ev_type rq)"
  obtain st where st: "get (stays d) sid = Some st" "stay_session st = sess" "res = event_result sid rq nsid nrid"
    and w: "(case ?k of
            EkArrive \<Rightarrow> arrive (Some (sql lib)) sid now (ev_key rq) d
          | EkCancel \<Rightarrow> cancel (Some (sql lib)) sid now (ev_key rq) d
          | EkDepart \<Rightarrow> depart (Some (sql lib)) sid now (ev_key rq) d
          | EkExtend \<Rightarrow> extend_event lib sid rq now d
          | EkTransfer \<Rightarrow> transfer_event lib sid rq now nsid nrid d
          | EkOther \<Rightarrow> Inl ErrInvalidEvent) = Inr d'"
    using assms by (auto simp: event_work_def bind_res_Inr split: if_splits)
  have "\<exists>e. own_event rq sid nsid nrid now e \<and> stay_op (Some (sql lib)) e d = Inr d'"
  proof (cases ?k)
    case EkArrive
    with w show ?thesis by (intro exI [of _ "EvArrive sid now (ev_key rq)"]) (simp add: own_event_def)
  next
    case EkCancel
    with w show ?thesis by (intro exI [of _ "EvCancel sid now (ev_key rq)"]) (simp add: own_event_def)
  next
    case EkDepart
    with w show ?thesis by (intro exI [of _ "EvDepart sid now (ev_key rq)"]) (simp add: own_event_def)
  next
    case EkExtend
    with w obtain nd where "Stay_Store.extend (Some (sql lib)) sid nd now (ev_key rq) d = Inr d'"
      by (auto simp: extend_event_def bind_res_Inr split: option.splits)
    then show ?thesis by (intro exI [of _ "EvExtend sid nd now (ev_key rq)"]) (simp add: own_event_def)
  next
    case EkTransfer
    with w obtain ex where "transfer (Some (sql lib)) sid nsid nrid (new_facility rq) (opt_text (new_route rq)) (Some ex) now (ev_key rq) d = Inr d'"
      by (auto simp: transfer_event_def bind_res_Inr split: if_splits)
    then show ?thesis
      by (intro exI [of _ "EvTransfer sid nsid nrid (new_facility rq) (opt_text (new_route rq)) (Some ex) now (ev_key rq)"])
        (simp add: own_event_def)
  qed (use w in simp)
  then show ?thesis using st by blast
qed

lemma event_work_path:
  "event_work lib sess sid rq now nsid nrid d = Inr (d', res) \<Longrightarrow> stay_path (Some (sql lib)) d d'"
  using event_work_op stay_path_op [OF stay_path_refl] by blast

definition keeps_inv :: "(db \<Rightarrow> st_error + db \<times> tx_result) \<Rightarrow> bool" where
  "keeps_inv body \<longleftrightarrow> (\<forall>d d' res. conserved d \<longrightarrow> body d = Inr (d', res) \<longrightarrow> conserved d')"

lemma stay_step_keys: "idem_keys (stay_step sink d e) = idem_keys d"
  by (cases rule: stay_step_cases [of sink e d]) (auto dest: stay_op_keys)

lemma stay_path_keys: "stay_path sink d d' \<Longrightarrow> idem_keys d' = idem_keys d"
proof -
  have "idem_keys (run (stay_step sink) d es) = idem_keys d" for es
    by (induction es arbitrary: d) (simp_all add: stay_step_keys)
  then show "stay_path sink d d' \<Longrightarrow> idem_keys d' = idem_keys d" by (auto simp: stay_path_def)
qed

lemma stay_path_conserved: "stay_path sink d d' \<Longrightarrow> conserved d \<Longrightarrow> conserved d'"
  by (auto simp: stay_path_def intro: stays.inv_run)

lemma path_body:
  assumes "\<And>d d' res. body d = Inr (d', res) \<Longrightarrow> stay_path sink d d'"
  shows "keeps_keys body \<and> keeps_inv body"
  unfolding keeps_keys_def keeps_inv_def using assms stay_path_keys stay_path_conserved by blast

lemma conserved_same: "conserved d \<Longrightarrow> stays d' = stays d \<Longrightarrow> inventory d' = inventory d \<Longrightarrow> conserved d'"
  by (rule conserved_frame [of d]) simp_all

lemma source_body:
  assumes "\<And>d d' res. body d = Inr (d', res) \<Longrightarrow> idem_keys d' = idem_keys d \<and> stays d' = stays d \<and> inventory d' = inventory d"
  shows "keeps_keys body \<and> keeps_inv body"
  unfolding keeps_keys_def keeps_inv_def using assms conserved_same by blast

lemma transition_same:
  "transition_source sink sid v target actor rsn eid now d = Inr d' \<Longrightarrow>
     idem_keys d' = idem_keys d \<and> stays d' = stays d \<and> inventory d' = inventory d"
  using transition_source_effect by blast

lemma quarantine_transition:
  "quarantine_source sink sid v actor rsn eid now d = Inr d' \<Longrightarrow> transition_source sink sid v Quarantined actor rsn eid now d = Inr d'"
  by (auto simp: quarantine_source_def bind_res_Inr split: if_splits)

section \<open>A transaction keeps the invariant\<close>

definition svc_ok :: "db \<Rightarrow> bool" where
  "svc_ok d \<longleftrightarrow> conserved d \<and> settled d"

lemma keyed_tx_conserved:
  assumes "settled d" "conserved d" "keyed_tx k h legacy exp gate body d = Inr (d', rep)" "keeps_keys body \<and> keeps_inv body"
  shows "conserved d'"
  using keyed_tx_cases [OF assms(1,3) conjunct1 [OF assms(4)]]
proof (elim disjE exE conjE)
  fix d1 d2 res
  assume d1: "d1 = d\<lparr>idem_keys := put k \<lparr>key_hash = h, key_result = [], key_state = InProgress, key_expires = exp\<rparr> (idem_keys d)\<rparr>"
    and b: "body d1 = Inr (d2, res)"
    and d': "d' = d2\<lparr>idem_keys := put k \<lparr>key_hash = h, key_result = res, key_state = Completed, key_expires = exp\<rparr> (idem_keys d)\<rparr>"
  have "conserved d1" by (rule conserved_same [OF assms(2)]) (simp_all add: d1)
  then have "conserved d2" using b assms(4) by (auto simp: keeps_inv_def)
  then show ?thesis by (rule conserved_same) (simp_all add: d')
qed (use assms(2) in simp)

lemma answer_tx:
  "fst (answer n err (in_tx f d)) = (case f d of Inl e \<Rightarrow> d | Inr (d', rep) \<Rightarrow> d')"
  by (auto simp: in_tx_def answer_def split: sum.split reply.split)

lemma keyed_tx_ok:
  assumes "svc_ok d" "keeps_keys body \<and> keeps_inv body"
  shows "svc_ok (fst (answer n err (in_tx (keyed_tx k h legacy exp gate body) d)))
    \<and> (answered k' h' res d \<longrightarrow> answered k' h' res (fst (answer n err (in_tx (keyed_tx k h legacy exp gate body) d))))"
proof (cases "keyed_tx k h legacy exp gate body d")
  case (Inl e)
  then show ?thesis using assms(1) by (simp add: answer_tx)
next
  case (Inr r)
  obtain d' rep where r: "r = (d', rep)" by (cases r)
  note t = Inr [unfolded r]
  have s: "settled d" "conserved d" using assms(1) by (simp_all add: svc_ok_def)
  have "svc_ok d'"
    using keyed_tx_conserved [OF s t assms(2)] keyed_tx_settled [OF s(1) t conjunct1 [OF assms(2)]] by (simp add: svc_ok_def)
  then show ?thesis
    using keyed_tx_answered [OF s(1) t conjunct1 [OF assms(2)]] by (simp add: answer_tx t)
qed

lemma bodies_ok:
  "keeps_keys (reservation_work lib sess rq s e now sid rid) \<and> keeps_inv (reservation_work lib sess rq s e now sid rid)"
  "keeps_keys (event_work lib sess sid rq' now nsid nrid) \<and> keeps_inv (event_work lib sess sid rq' now nsid nrid)"
  "keeps_keys (\<lambda>d1. bind_res (correct sink sid n op rsn now key d1) (\<lambda>d2. Inr (d2, r)))
    \<and> keeps_inv (\<lambda>d1. bind_res (correct sink sid n op rsn now key d1) (\<lambda>d2. Inr (d2, r)))"
  "keeps_keys (\<lambda>d1. bind_res (load_source d1 srcid) (\<lambda>s. bind_res (transition_source sink srcid (version s) t op rsn eid now d1) (\<lambda>d2. Inr (d2, r))))
    \<and> keeps_inv (\<lambda>d1. bind_res (load_source d1 srcid) (\<lambda>s. bind_res (transition_source sink srcid (version s) t op rsn eid now d1) (\<lambda>d2. Inr (d2, r))))"
  "keeps_keys (\<lambda>d1. bind_res (load_source d1 srcid) (\<lambda>s. bind_res (quarantine_source sink srcid (version s) op rsn eid now d1) (\<lambda>d2. Inr (d2, r))))
    \<and> keeps_inv (\<lambda>d1. bind_res (load_source d1 srcid) (\<lambda>s. bind_res (quarantine_source sink srcid (version s) op rsn eid now d1) (\<lambda>d2. Inr (d2, r))))"
proof -
  show "keeps_keys (\<lambda>d1. bind_res (correct sink sid n op rsn now key d1) (\<lambda>d2. Inr (d2, r)))
    \<and> keeps_inv (\<lambda>d1. bind_res (correct sink sid n op rsn now key d1) (\<lambda>d2. Inr (d2, r)))"
  proof (rule path_body)
    fix d d' res
    assume "bind_res (correct sink sid n op rsn now key d) (\<lambda>d2. Inr (d2, r)) = Inr (d', res)"
    then have "stay_op sink (EvCorrect sid n op rsn now key) d = Inr d'" by (auto simp: bind_res_Inr)
    then show "stay_path sink d d'" by (rule stay_path_op [OF stay_path_refl])
  qed
next
  show "keeps_keys (reservation_work lib sess rq s e now sid rid) \<and> keeps_inv (reservation_work lib sess rq s e now sid rid)"
    by (rule path_body) (rule reservation_work_path)
next
  show "keeps_keys (event_work lib sess sid rq' now nsid nrid) \<and> keeps_inv (event_work lib sess sid rq' now nsid nrid)"
    by (rule path_body) (rule event_work_path)
qed (rule source_body; force simp: bind_res_Inr dest: transition_same quarantine_transition)+

section \<open>Every step keeps the invariant\<close>

lemma stay_path_trans: "stay_path sink d d1 \<Longrightarrow> stay_path sink d1 d2 \<Longrightarrow> stay_path sink d d2"
proof -
  assume "stay_path sink d d1" "stay_path sink d1 d2"
  then obtain es fs where "d1 = run (stay_step sink) d es" "d2 = run (stay_step sink) d1 fs" by (auto simp: stay_path_def)
  then have "d2 = run (stay_step sink) d (es @ fs)" by simp
  then show ?thesis unfolding stay_path_def by blast
qed

lemma expire_each_path: "expire_each sink now xs n d = (d', m) \<Longrightarrow> stay_path sink d d'"
proof (induction xs arbitrary: n d)
  case (Cons x xs)
  show ?case
  proof (cases "expire sink x now [] d")
    case (Inl e)
    then show ?thesis using Cons by (simp add: in_tx_def)
  next
    case (Inr d1)
    then have "stay_op sink (EvExpire x now []) d = Inr d1" by simp
    then have "stay_path sink d d1" by (rule stay_path_op [OF stay_path_refl])
    then show ?thesis using Cons Inr stay_path_trans by (fastforce simp: in_tx_def)
  qed
qed simp

text \<open>A change that leaves stays, inventory and keys alone.\<close>

definition aside :: "db \<Rightarrow> db \<Rightarrow> bool" where
  "aside d d' \<longleftrightarrow> stays d' = stays d \<and> inventory d' = inventory d \<and> idem_keys d' = idem_keys d"

lemma aside_refl [simp]: "aside d d"
  by (simp add: aside_def)

lemma settled_frame: "idem_keys d' = idem_keys d \<Longrightarrow> settled d' = settled d"
  by (simp add: settled_def)

lemma answered_frame: "idem_keys d' = idem_keys d \<Longrightarrow> answered k h res d' = answered k h res d"
  by (simp add: answered_def)

lemma ok_path: "stay_path sink d d' \<Longrightarrow> svc_ok d \<Longrightarrow> svc_ok d' \<and> (answered k h res d \<longrightarrow> answered k h res d')"
  using stay_path_conserved [of sink d d'] settled_frame [OF stay_path_keys] answered_frame [OF stay_path_keys]
  by (simp add: svc_ok_def)

lemma ok_aside: "svc_ok d \<Longrightarrow> aside d d' \<Longrightarrow> svc_ok d' \<and> (answered k h res d \<longrightarrow> answered k h res d')"
  using conserved_same [of d d'] settled_frame [of d' d] answered_frame [of d' d] by (simp add: svc_ok_def aside_def)

lemma commit_cases: "commit f d = d \<or> f d = Inr (commit f d)"
  by (cases "f d") (simp_all add: commit_def in_tx_def)

lemma commit_aside: "(\<And>d'. f d = Inr d' \<Longrightarrow> aside d d') \<Longrightarrow> aside d (commit f d)"
  using commit_cases [of f d] by (metis aside_refl)

lemma insert_session_aside: "insert_session sid s d = Inr d' \<Longrightarrow> aside d d'"
  by (auto simp: insert_session_def aside_def)

lemma admin_aside:
  "aside d (commit (insert_source s) d)" "aside d (commit (record_authorization a) d)"
  "aside d (commit (grant_operator gid subj jur by_whom exp now) d)"
  "aside d (revoke_operator_grant subj jur now d)" "aside d (revoke_session sid now d)"
  "aside d (fst (create_session lib token sid now d))" "aside d (fst (create_operator_session lib v token sid now d))"
proof -
  show "aside d (commit (insert_source s) d)" "aside d (commit (record_authorization a) d)"
    "aside d (commit (grant_operator gid subj jur by_whom exp now) d)"
    by (rule commit_aside; auto simp: aside_def insert_source_def record_authorization_def grant_operator_def split: if_splits)+
  show "aside d (revoke_operator_grant subj jur now d)" "aside d (revoke_session sid now d)"
    by (simp_all add: aside_def revoke_operator_grant_def revoke_session_def split: option.split)
  show "aside d (fst (create_session lib token sid now d))"
    by (auto simp: create_session_def issue_citizen_session_def dest: insert_session_aside split: sum.split)
  have "aside d d'" if "issue_operator_session l t i j sb g m ttl n d = Inr d'" for l t i j sb g m ttl n d'
    using that by (auto simp: issue_operator_session_def dest: insert_session_aside split: if_splits)
  then show "aside d (fst (create_operator_session lib v token sid now d))"
    by (auto simp: create_operator_session_def split: option.split sum.split)
qed

lemma svc_step_ok:
  assumes "svc_ok d"
  shows "svc_ok (svc_step lib d e) \<and> (answered k h res d \<longrightarrow> answered k h res (svc_step lib d e))"
proof (cases e)
  case (SvReserve sess rq now sid rid)
  then show ?thesis
    using assms keyed_tx_ok [OF assms bodies_ok(1)]
    by (auto simp: create_reservation_def Let_def split: option.split)
next
  case (SvStay sess sid rq now nsid nrid)
  then show ?thesis using assms keyed_tx_ok [OF assms bodies_ok(2)] by (simp add: stay_event_handler_def)
next
  case (SvCorrection op sid rq now)
  then show ?thesis using assms keyed_tx_ok [OF assms bodies_ok(3)] by (simp add: stay_correction_def)
next
  case (SvTransition op srcid rq now eid)
  then show ?thesis using assms keyed_tx_ok [OF assms bodies_ok(4)] by (simp add: source_transition_def)
next
  case (SvQuarantine op srcid rq now eid)
  then show ?thesis using assms keyed_tx_ok [OF assms bodies_ok(5)] by (simp add: source_quarantine_def)
next
  case (SvExpiry now limit)
  have "stay_path (Some (sql lib)) d (fst (tick (Some (sql lib)) now limit d))"
    using expire_each_path by (metis surjective_pairing tick_def)
  then show ?thesis using SvExpiry ok_path [OF _ assms] by simp
next
  case (SvInventory f x cap)
  show ?thesis
  proof (cases "commit (ensure_inventory f x cap) d = d")
    case False
    then have "stay_op None (EvInventory f x cap) d = Inr (commit (ensure_inventory f x cap) d)"
      using commit_cases [of "ensure_inventory f x cap" d] by simp
    from stay_path_op [OF stay_path_refl this] show ?thesis using SvInventory ok_path [OF _ assms] by simp
  qed (use SvInventory assms in simp)
qed (simp_all add: ok_aside [OF assms admin_aside(1)] ok_aside [OF assms admin_aside(2)] ok_aside [OF assms admin_aside(3)]
    ok_aside [OF assms admin_aside(4)] ok_aside [OF assms admin_aside(5)] ok_aside [OF assms admin_aside(6)]
    ok_aside [OF assms admin_aside(7)])

interpretation service: latched_system "svc_step lib" svc_ok "answered k h res" for lib k h res
  by unfold_locales (use svc_step_ok in blast)+

lemma fresh_ok: "fresh_db d \<Longrightarrow> idem_keys d = [] \<Longrightarrow> svc_ok d"
  by (simp add: svc_ok_def fresh_conserved)

section \<open>A service to run on\<close>

definition demo_svc :: svc_lib where
  "demo_svc = \<lparr>sql = \<lparr>sha_hex = (\<lambda>_. replicate 64 (CHR ''0'')), rfc3339_nano = (\<lambda>_. []), stored_time = (\<lambda>t. t)\<rparr>,
     bodies = demo_body, json_text = (\<lambda>s. s),
     parse_date = (\<lambda>s. if s = ''d1'' then Some 1 else if s = ''d3'' then Some 3 else None), allow_synthetic = False\<rparr>"

definition demo_request :: reservation_request where
  "demo_request = \<lparr>rq_facility = ''f'', rq_package = ''p'', rq_route = [], rq_party = 3, rq_start = ''d1'', rq_end = ''d3'',
     rq_key = ''k1'', rq_snapshot = 1\<rparr>"

definition demo_result :: tx_result where
  "demo_result = [(''reservation_id'', RStr ''r1''), (''stay_id'', RStr ''x1'')]"

lemma demo_ctx_ok: "svc_ok demo_ctx"
proof (rule fresh_ok)
  show "fresh_db demo_ctx" by code_simp
  show "idem_keys demo_ctx = []" by (simp add: demo_ctx_def demo_db_def blank_db_def)
qed

lemma demo_created: "snd (create_reservation demo_svc ''s'' demo_request 5 ''x1'' ''r1'' demo_ctx) = Data 201 demo_result"
  by code_simp

section \<open>Capacity under the whole service\<close>

text \<open>C1: Whatever the service is asked and however its requests, the ticks of the expiry worker and the
  administrative actions follow one another, from a database without stays, keys and used buckets:
  at every facility and on every date the held and occupied spaces are those of the reserved and
  the arrived stays that cover the date, and together they never exceed the capacity.\<close>

theorem service_conserves_capacity:
  assumes "fresh_db d0" and "idem_keys d0 = []" and "d = run (svc_step lib) d0 es"
  shows "held_at d f x = load d StayReserved f x \<and> occupied_at d f x = load d StayArrived f x
    \<and> (case get (inventory d) (f, x) of None \<Rightarrow> True
       | Some r \<Rightarrow> 0 \<le> held r \<and> 0 \<le> occupied r \<and> held r + occupied r \<le> capacity r)"
proof -
  have c: "conserved d" unfolding assms(3) using service.inv_run [OF fresh_ok [OF assms(1,2)]] by (simp add: svc_ok_def)
  show ?thesis
    using conservedD(2) [OF c] by (auto simp: conservedD(3,4) [OF c] rooms_ok_def fitting_def split: option.split)
qed

theorem service_conserves_capacity_witness:
  "held_at (run (svc_step demo_svc) demo_ctx [SvReserve ''s'' demo_request 5 ''x1'' ''r1'']) ''f'' 2 = 3"
proof -
  let ?d = "run (svc_step demo_svc) demo_ctx [SvReserve ''s'' demo_request 5 ''x1'' ''r1'']"
  have "fresh_db demo_ctx" by code_simp
  moreover have "idem_keys demo_ctx = []" by (simp add: demo_ctx_def demo_db_def blank_db_def)
  moreover have "load ?d StayReserved ''f'' 2 = 3" by code_simp
  ultimately show ?thesis using service_conserves_capacity [OF _ _ refl, of demo_ctx demo_svc "[SvReserve ''s'' demo_request 5 ''x1'' ''r1'']" "''f''" 2] by simp
qed

section \<open>Retries\<close>

lemma answer_data:
  assumes "svc_ok d" "keeps_keys body \<and> keeps_inv body"
    and a: "answer n err (in_tx (keyed_tx k h legacy exp gate body) d) = (d1, Data m res)" "\<And>e. err e \<noteq> Data m res"
  shows "length h = 64 \<and> (n = m \<and> keyed_tx k h legacy exp gate body d = Inr (d1, Fresh res) \<and> answered k h res d1
    \<or> m = 200 \<and> d1 = d \<and> (\<exists>r. get (idem_keys d) k = Some r \<and> key_state r = Completed \<and> key_result r = res
          \<and> hash_matches legacy h d r = Inr True))"
proof -
  have s: "settled d" using assms(1) by (simp add: svc_ok_def)
  obtain rep where t: "keyed_tx k h legacy exp gate body d = Inr (d1, rep)"
    and m: "rep = Fresh res \<and> m = n \<or> rep = Replayed res \<and> m = 200"
  proof (cases "keyed_tx k h legacy exp gate body d")
    case (Inl e)
    then show thesis using a(1) a(2) [of e] by (auto simp: answer_def in_tx_def)
  next
    case (Inr r)
    then show thesis using that a(1) by (cases r; cases "snd r") (auto simp: answer_def in_tx_def)
  qed
  have "length h = 64" using t by (auto simp: keyed_tx_def begin_with_compat_def bind_res_Inr split: if_splits)
  then show ?thesis
    using m keyed_tx_cases [OF s t conjunct1 [OF assms(2)]] keyed_tx_answers [of d k h legacy exp gate body d1 res] t s assms(2)
      settledD [OF s, of k] by auto
qed

lemma reservation_error_reply: "write_reservation_error e \<noteq> Data n res"
  by (cases e) simp_all

lemma event_error_reply: "write_event_error e \<noteq> Data n res"
  using reservation_error_reply [of e n res] by (cases e) simp_all

lemma operator_error_reply: "write_operator_error e \<noteq> Data n res"
  by (cases e) simp_all

lemma create_reservation_tx:
  assumes "create_reservation lib sess rq now sid rid d = (d1, Data n res)"
  obtains s e where "parse_date lib (rq_start rq) = Some s" "parse_date lib (rq_end rq) = Some e" "s < e" "1 \<le> rq_party rq" "rq_key rq \<noteq> []"
    "0 < rq_snapshot rq"
    "\<And>now' sid' rid' d'. create_reservation lib sess rq now' sid' rid' d' = answer 201 write_reservation_error
       (in_tx (keyed_tx (sess, ''reservation.create'', rq_key rq) (reservation_payload_hash lib sess rq)
          (Some (legacy_check lib sess rq)) (now' + hour) (\<lambda>_. None) (reservation_work lib sess rq s e now' sid' rid')) d')"
  using assms by (auto simp: create_reservation_def Let_def split: option.splits if_splits)

text \<open>C2: A request is served at most once. After a reservation was created, or an event of a stay was
  served, the same request under the same key is answered with the first result and changes nothing,
  however many other requests, ticks and administrative actions came in between and whatever the
  clock and the fresh identifiers are.\<close>

theorem retries_replay:
  assumes "svc_ok d"
  shows "(create_reservation lib sess rq now sid rid d = (d1, Data 201 res) \<longrightarrow>
        create_reservation lib sess rq now' sid' rid' (run (svc_step lib) d1 es) = (run (svc_step lib) d1 es, Data 200 res))
    \<and> (stay_event_handler lib sess i erq now nsid nrid d = (d1, Data 200 res) \<longrightarrow>
        stay_event_handler lib sess i erq now' nsid' nrid' (run (svc_step lib) d1 es) = (run (svc_step lib) d1 es, Data 200 res))"
proof (intro conjI impI)
  assume c: "create_reservation lib sess rq now sid rid d = (d1, Data 201 res)"
  show "create_reservation lib sess rq now' sid' rid' (run (svc_step lib) d1 es) = (run (svc_step lib) d1 es, Data 200 res)"
  proof (rule create_reservation_tx [OF c])
    fix s e
    assume tx: "\<And>now' sid' rid' d'. create_reservation lib sess rq now' sid' rid' d' = answer 201 write_reservation_error
       (in_tx (keyed_tx (sess, ''reservation.create'', rq_key rq) (reservation_payload_hash lib sess rq)
          (Some (legacy_check lib sess rq)) (now' + hour) (\<lambda>_. None) (reservation_work lib sess rq s e now' sid' rid')) d')"
    have a: "length (reservation_payload_hash lib sess rq) = 64"
      "answered (sess, ''reservation.create'', rq_key rq) (reservation_payload_hash lib sess rq) res d1"
      using answer_data [OF assms bodies_ok(1) c [unfolded tx] reservation_error_reply] by auto
    have ok: "svc_ok d1" using svc_step_ok [OF assms, of lib "SvReserve sess rq now sid rid"] c by simp
    show ?thesis
      using keyed_tx_replays [OF service.latched_run [OF ok a(2)] a(1)] by (simp add: tx in_tx_def answer_def)
  qed
next
  assume c: "stay_event_handler lib sess i erq now nsid nrid d = (d1, Data 200 res)"
  have tx: "stay_event_handler lib sess i erq now' nsid' nrid' d' = answer 200 write_event_error
        (in_tx (keyed_tx (sess, event_operation erq, ev_key erq) (event_payload_hash lib sess i erq) None (now' + hour)
           (\<lambda>_. None) (event_work lib sess i erq now' nsid' nrid')) d')" for now' nsid' nrid' d'
    using c by (auto simp: stay_event_handler_def split: if_splits)
  have a: "length (event_payload_hash lib sess i erq) = 64"
    "answered (sess, event_operation erq, ev_key erq) (event_payload_hash lib sess i erq) res d1"
    using answer_data [OF assms bodies_ok(2) c [unfolded tx] event_error_reply]
    by (auto simp: hash_matches_def answered_def split: if_splits)
  have ok: "svc_ok d1" using svc_step_ok [OF assms, of lib "SvStay sess i erq now nsid nrid"] c by simp
  show "stay_event_handler lib sess i erq now' nsid' nrid' (run (svc_step lib) d1 es) = (run (svc_step lib) d1 es, Data 200 res)"
    using keyed_tx_replays [OF service.latched_run [OF ok a(2)] a(1)] by (simp add: tx in_tx_def answer_def)
qed

theorem retries_replay_witness:
  "\<exists>d1. create_reservation demo_svc ''s'' demo_request 9 ''x2'' ''r2'' d1 = (d1, Data 200 demo_result)"
proof -
  obtain d1 where c: "create_reservation demo_svc ''s'' demo_request 5 ''x1'' ''r1'' demo_ctx = (d1, Data 201 demo_result)"
    using demo_created by (cases "create_reservation demo_svc ''s'' demo_request 5 ''x1'' ''r1'' demo_ctx") simp
  from conjunct1 [OF retries_replay [OF demo_ctx_ok, of demo_svc "''s''" demo_request 5 "''x1''" "''r1''" d1 demo_result 9 "''x2''" "''r2''" "[]"]] c
  show ?thesis by auto
qed

section \<open>What a commitment needs\<close>

lemma keys_aside_gates:
  "authorized_in (d\<lparr>idem_keys := m\<rparr>) = authorized_in d"
  "usable_route (d\<lparr>idem_keys := m\<rparr>) = usable_route d"
  "operational_package (d\<lparr>idem_keys := m\<rparr>) = operational_package d"
  "commit_context (d\<lparr>idem_keys := m\<rparr>) = commit_context d"
  by (simp_all add: authorized_in_def usable_route_def operational_package_def commit_context_def fun_eq_iff
      cong del: option.case_cong_weak if_weak_cong)

lemma keys_aside [simp]:
  "drives (d\<lparr>idem_keys := m\<rparr>) now pid = drives d now pid"
  "revalidate_snapshot pid v (d\<lparr>idem_keys := m\<rparr>) = revalidate_snapshot pid v d"
  "revalidate_context lib syn fid pid route now (d\<lparr>idem_keys := m\<rparr>) = revalidate_context lib syn fid pid route now d"
  "authorization_jurisdiction (d\<lparr>idem_keys := m\<rparr>) sid now = authorization_jurisdiction d sid now"
  "stay_facility_jurisdiction (d\<lparr>idem_keys := m\<rparr>) sid = stay_facility_jurisdiction d sid"
  "live_grant_for_update (d\<lparr>idem_keys := m\<rparr>) gid = live_grant_for_update d gid"
  "revalidate_operator_grant op now (d\<lparr>idem_keys := m\<rparr>) = revalidate_operator_grant op now d"
  "source_gate op sid now (d\<lparr>idem_keys := m\<rparr>) = source_gate op sid now d"
  "stay_gate op sid now (d\<lparr>idem_keys := m\<rparr>) = stay_gate op sid now d"
  by (simp_all add: drives_def keys_aside_gates revalidate_snapshot_def revalidate_context_def
      authorization_jurisdiction_def stay_facility_jurisdiction_def live_grant_for_update_def revalidate_operator_grant_def
      source_gate_def stay_gate_def cong del: option.case_cong_weak sum.case_cong_weak if_weak_cong)

lemma revalidate_facility:
  "revalidate_context lib syn fid pid route now d = Inr (jur, pol) \<Longrightarrow>
     (\<exists>f. get (facilities d) fid = Some f \<and> fac_package f = pid)
     \<and> (\<exists>p. get (packages d) pid = Some p \<and> body_policy lib (pkg_body p) = Some pol)"
  by (auto simp: revalidate_context_def commit_context_def bind_res_Inr Let_def split: option.splits if_splits)

lemma reservation_work_effect:
  assumes "reservation_work lib sess rq s e now sid rid d = Inr (d', res)"
  shows "res = [(''reservation_id'', RStr rid), (''stay_id'', RStr sid)]
    \<and> (\<exists>jur pol exp. revalidate_context (bodies lib) (allow_synthetic lib) (rq_facility rq) (rq_package rq) (opt_text (rq_route rq)) now d = Inr (jur, pol)
        \<and> revalidate_snapshot (rq_package rq) (rq_snapshot rq) d = None \<and> check_stay_bounds pol s e = None \<and> hold_expiry pol now = Inr exp
        \<and> get (stays d) sid = None
        \<and> (\<exists>st. stays d' = put sid st (stays d) \<and> stay_session st = sess \<and> stay_facility st = rq_facility rq
            \<and> party_size st = rq_party rq \<and> start_date st = s \<and> end_date st = e \<and> stay_state st = StayReserved
            \<and> expires_at st = Some exp))"
proof -
  obtain jur pol exp d1 where g: "revalidate_context (bodies lib) (allow_synthetic lib) (rq_facility rq) (rq_package rq) (opt_text (rq_route rq)) now d = Inr (jur, pol)"
    "revalidate_snapshot (rq_package rq) (rq_snapshot rq) d = None" "check_stay_bounds pol s e = None" "hold_expiry pol now = Inr exp"
    and i: "insert_reservation rid \<lparr>res_session = sess, res_facility = rq_facility rq, service_date = s, res_party = rq_party rq,
          res_state = StayReserved, res_expires = Some exp\<rparr> d = Inr d1"
    and r: "reserve (Some (sql lib)) \<lparr>stay_id = sid, reservation_id = rid, stay_session = sess, stay_facility = rq_facility rq, party_size = rq_party rq,
          start_date = s, end_date = e, stay_state = StayReserved, stay_package = rq_package rq,
          route_id = opt_text (rq_route rq), stay_version = 1, expires_at = Some exp, transferred_from = None,
          arrived_at = None, departed_at = None\<rparr> now (rq_key rq) d1 = Inr d'"
    and res: "res = [(''reservation_id'', RStr rid), (''stay_id'', RStr sid)]"
    using assms by (auto simp: reservation_work_def bind_res_Inr)
  have "stays d1 = stays d" using i by (auto simp: insert_reservation_Inr)
  then show ?thesis
    using reserve_effect [OF r] g res by (auto simp: new_row_def dest!: arg_cong [where f = stays])
qed

text \<open>C9: A reservation is created only in its context: the package chosen from is in force at the version the
  client saw, its source is operational and authorized, the facility belongs to it, the length of the
  stay is within the bounds of its policy, and the one stay added belongs to the session, has the
  facility, party and dates asked for and a deadline from the policy and the clock of the server.\<close>

theorem reservation_needs_context:
  assumes "svc_ok d" and "create_reservation lib sess rq now sid rid d = (d', Data 201 res)"
  shows "drives d now (rq_package rq)
    \<and> (\<exists>f. get (facilities d) (rq_facility rq) = Some f \<and> fac_package f = rq_package rq)
    \<and> (\<exists>p pol lo hi n st. get (packages d) (rq_package rq) = Some p \<and> pkg_version p = rq_snapshot rq
        \<and> body_policy (bodies lib) (pkg_body p) = Some pol
        \<and> stays d' = put sid st (stays d) \<and> get (stays d) sid = None
        \<and> stay_session st = sess \<and> stay_facility st = rq_facility rq \<and> party_size st = rq_party rq \<and> stay_state st = StayReserved
        \<and> parse_date lib (rq_start rq) = Some (start_date st) \<and> parse_date lib (rq_end rq) = Some (end_date st)
        \<and> temporary_stay_min_days pol = Some lo \<and> temporary_stay_max_days pol = Some hi
        \<and> lo \<le> whole_days (start_date st) (end_date st) \<and> whole_days (start_date st) (end_date st) \<le> hi
        \<and> reservation_expiry_seconds pol = Some n \<and> 0 < n \<and> expires_at st = Some (now + wrap64 (n * second)))"
proof (rule create_reservation_tx [OF assms(2)])
  fix s e
  assume dates: "parse_date lib (rq_start rq) = Some s" "parse_date lib (rq_end rq) = Some e" "0 < rq_snapshot rq"
    and tx: "\<And>now' sid' rid' d'. create_reservation lib sess rq now' sid' rid' d' = answer 201 write_reservation_error
       (in_tx (keyed_tx (sess, ''reservation.create'', rq_key rq) (reservation_payload_hash lib sess rq)
          (Some (legacy_check lib sess rq)) (now' + hour) (\<lambda>_. None) (reservation_work lib sess rq s e now' sid' rid')) d')"
  have s: "settled d" using assms(1) by (simp add: svc_ok_def)
  have t: "keyed_tx (sess, ''reservation.create'', rq_key rq) (reservation_payload_hash lib sess rq)
      (Some (legacy_check lib sess rq)) (now + hour) (\<lambda>_. None) (reservation_work lib sess rq s e now sid rid) d = Inr (d', Fresh res)"
    using answer_data [OF assms(1) bodies_ok(1) assms(2) [unfolded tx] reservation_error_reply] by simp
  obtain m d2 m2 where w: "reservation_work lib sess rq s e now sid rid (d\<lparr>idem_keys := m\<rparr>) = Inr (d2, res)" "d' = d2\<lparr>idem_keys := m2\<rparr>"
    using keyed_tx_cases [OF s t conjunct1 [OF bodies_ok(1)]] by blast
  obtain jur pol exp st where r: "revalidate_context (bodies lib) (allow_synthetic lib) (rq_facility rq) (rq_package rq) (opt_text (rq_route rq)) now d = Inr (jur, pol)"
    "revalidate_snapshot (rq_package rq) (rq_snapshot rq) d = None" "check_stay_bounds pol s e = None" "hold_expiry pol now = Inr exp"
    "get (stays d) sid = None" "stays d' = put sid st (stays d)" "stay_session st = sess" "stay_facility st = rq_facility rq"
    "party_size st = rq_party rq" "start_date st = s" "end_date st = e" "stay_state st = StayReserved" "expires_at st = Some exp"
    using reservation_work_effect [OF w(1)] w(2) by auto
  obtain lo hi n where pol: "temporary_stay_min_days pol = Some lo" "temporary_stay_max_days pol = Some hi"
    "lo \<le> whole_days s e" "whole_days s e \<le> hi" "reservation_expiry_seconds pol = Some n" "0 < n" "exp = now + wrap64 (n * second)"
    using r(3,4) by (auto simp: check_stay_bounds_def hold_expiry_def split: option.splits if_splits)
  obtain p where p: "get (packages d) (rq_package rq) = Some p" "pkg_version p = rq_snapshot rq"
    "body_policy (bodies lib) (pkg_body p) = Some pol"
    using r(2) dates(3) revalidate_facility [OF r(1)] by (auto simp: revalidate_snapshot_def split: option.splits if_splits)
  have "drives d now (rq_package rq)" "\<exists>f. get (facilities d) (rq_facility rq) = Some f \<and> fac_package f = rq_package rq"
    using revalidate_drives [OF r(1)] revalidate_facility [OF r(1)] by blast+
  then show ?thesis
    using p dates(1,2) r(5-) pol
    by (intro conjI exI [of _ p] exI [of _ pol] exI [of _ lo] exI [of _ hi] exI [of _ n] exI [of _ st]) simp_all
qed

theorem reservation_needs_context_witness:
  "drives demo_ctx 5 ''p'' \<and> (\<exists>d'. create_reservation demo_svc ''s'' demo_request 5 ''x1'' ''r1'' demo_ctx = (d', Data 201 demo_result))"
proof -
  obtain d1 where c: "create_reservation demo_svc ''s'' demo_request 5 ''x1'' ''r1'' demo_ctx = (d1, Data 201 demo_result)"
    using demo_created by (cases "create_reservation demo_svc ''s'' demo_request 5 ''x1'' ''r1'' demo_ctx") simp
  from reservation_needs_context [OF demo_ctx_ok c] c show ?thesis by (auto simp: demo_request_def)
qed

section \<open>What an operator needs\<close>

text \<open>The session's grant is live and binds its verified subject to its jurisdiction, the one given.\<close>

definition granted_for :: "session_row \<Rightarrow> string \<Rightarrow> time \<Rightarrow> db \<Rightarrow> bool" where
  "granted_for s jur now d \<longleftrightarrow> (\<exists>gid g. operator_grant_id s = Some gid \<and> get (grants d) gid = Some g
     \<and> operator_subject s = Some (grant_subject g) \<and> live_grant now (grant_subject g) g
     \<and> grant_jurisdiction g = jur \<and> sess_jurisdiction s = Some jur)"

lemma grant_revalidated:
  "revalidate_operator_grant s now d = None \<Longrightarrow> sess_jurisdiction s = Some jur \<Longrightarrow> granted_for s jur now d"
  by (auto simp: revalidate_operator_grant_def live_grant_for_update_def validate_session_grant_def granted_for_def
      live_grant_def check_simps split: option.splits)

lemma source_gate_None:
  "source_gate s srcid now d = None \<Longrightarrow> \<exists>jur. authorization_jurisdiction d srcid now = Some jur \<and> granted_for s jur now d"
  by (auto simp: source_gate_def check_simps grant_revalidated split: option.splits)

lemma stay_gate_None:
  "stay_gate s sid now d = None \<Longrightarrow> \<exists>jur. stay_facility_jurisdiction d sid = Inr jur \<and> granted_for s jur now d"
  by (auto simp: stay_gate_def check_simps grant_revalidated split: sum.splits)

lemma gated_answer:
  assumes "svc_ok d" "keeps_keys body \<and> keeps_inv body" "\<And>m. gate (d\<lparr>idem_keys := m\<rparr>) = gate d" "gate d = None \<Longrightarrow> Q"
  shows "case answer n write_operator_error (in_tx (keyed_tx k h legacy exp gate body) d) of
    (d', Data _ _) \<Rightarrow> Q | (d', ErrorReply _ _ _ _ _) \<Rightarrow> d' = d"
proof (cases "keyed_tx k h legacy exp gate body d")
  case (Inl e)
  then show ?thesis using operator_error_reply [of e]
    by (cases "write_operator_error e") (auto simp: answer_def in_tx_def)
next
  case (Inr r)
  obtain d' rep where r: "r = (d', rep)" by (cases r)
  have "settled d" using assms(1) by (simp add: svc_ok_def)
  from keyed_tx_cases [OF this Inr [unfolded r] conjunct1 [OF assms(2)]] have "gate d = None" using assms(3) by auto
  then show ?thesis using Inr r assms(4) by (cases rep) (auto simp: answer_def in_tx_def)
qed

text \<open>C10: An operator acts, and learns the result of an earlier action, only under a live grant: whenever a
  transition, a quarantine or a correction answers with data, the grant of the session is neither
  revoked nor expired, binds the session's verified subject, and its jurisdiction is the session's and
  that of the source's latest valid authorization or of the stay's facility; any other answer is an
  error and changes nothing.\<close>

theorem operator_needs_live_grant:
  assumes "svc_ok d"
  shows "(case source_transition lib (oid, s) srcid rq now eid d of
        (d', Data _ _) \<Rightarrow> \<exists>jur. authorization_jurisdiction d srcid now = Some jur \<and> granted_for s jur now d
      | (d', ErrorReply _ _ _ _ _) \<Rightarrow> d' = d)
    \<and> (case source_quarantine lib (oid, s) srcid rq now eid d of
        (d', Data _ _) \<Rightarrow> \<exists>jur. authorization_jurisdiction d srcid now = Some jur \<and> granted_for s jur now d
      | (d', ErrorReply _ _ _ _ _) \<Rightarrow> d' = d)
    \<and> (case stay_correction lib (oid, s) sid rq now d of
        (d', Data _ _) \<Rightarrow> \<exists>jur. stay_facility_jurisdiction d sid = Inr jur \<and> granted_for s jur now d
      | (d', ErrorReply _ _ _ _ _) \<Rightarrow> d' = d)"
proof (intro conjI)
  show "case source_transition lib (oid, s) srcid rq now eid d of
        (d', Data _ _) \<Rightarrow> \<exists>jur. authorization_jurisdiction d srcid now = Some jur \<and> granted_for s jur now d
      | (d', ErrorReply _ _ _ _ _) \<Rightarrow> d' = d"
    using gated_answer [OF assms bodies_ok(4) _ source_gate_None] by (simp add: source_transition_def)
  show "case source_quarantine lib (oid, s) srcid rq now eid d of
        (d', Data _ _) \<Rightarrow> \<exists>jur. authorization_jurisdiction d srcid now = Some jur \<and> granted_for s jur now d
      | (d', ErrorReply _ _ _ _ _) \<Rightarrow> d' = d"
    using gated_answer [OF assms bodies_ok(5) _ source_gate_None] by (simp add: source_quarantine_def)
  show "case stay_correction lib (oid, s) sid rq now d of
        (d', Data _ _) \<Rightarrow> \<exists>jur. stay_facility_jurisdiction d sid = Inr jur \<and> granted_for s jur now d
      | (d', ErrorReply _ _ _ _ _) \<Rightarrow> d' = d"
    using gated_answer [OF assms bodies_ok(3) _ stay_gate_None] by (simp add: stay_correction_def)
qed

definition demo_op_session :: session_row where
  "demo_op_session = \<lparr>principal_kind = ''OPERATOR'', sess_jurisdiction = Some ''IN'', credential_ref = ''c'', sess_expires = 100,
     sess_revoked = None, mfa_verified_at = Some 1, operator_subject = Some ''u'', operator_grant_id = Some ''g1''\<rparr>"

definition demo_op_request :: operator_request where
  "demo_op_request = \<lparr>op_target = Suspended, op_party = 1, op_key = ''k9'', op_reason = ''flood'', op_body = []\<rparr>"

text \<open>Under a live grant the operator suspends the source; after its withdrawal the same request is refused.\<close>

definition demo_granted :: db where
  "demo_granted = demo_ctx\<lparr>grants := [(''g1'', \<lparr>grant_subject = ''u'', grant_jurisdiction = ''IN'', granted_by = ''admin'',
     grant_created = 1, grant_expires = None, grant_revoked = None\<rparr>)]\<rparr>"

theorem operator_needs_live_grant_witness:
  "granted_for demo_op_session ''IN'' 5 demo_granted
    \<and> snd (source_transition demo_svc (''o'', demo_op_session) ''src'' demo_op_request 7 ''e1'' (revoke_operator_grant ''u'' ''IN'' 6 demo_granted))
        = ErrorReply 403 ''FORBIDDEN'' ''operator grant expired, revoked or no longer matches'' [] False"
proof
  have "svc_ok demo_granted" unfolding demo_granted_def by (rule conjunct1 [OF ok_aside [OF demo_ctx_ok]]) (simp add: aside_def)
  note o = conjunct1 [OF operator_needs_live_grant [OF this, where lib = demo_svc and oid = "''o''" and s = demo_op_session
        and srcid = "''src''" and rq = demo_op_request and now = 5 and eid = "''e1''"]]
  have "snd (source_transition demo_svc (''o'', demo_op_session) ''src'' demo_op_request 5 ''e1'' demo_granted)
      = Data 200 [(''source_id'', RStr ''src''), (''target'', RStr ''SUSPENDED'')]" by code_simp
  moreover have "authorization_jurisdiction demo_granted ''src'' 5 = Some ''IN''" by code_simp
  ultimately show "granted_for demo_op_session ''IN'' 5 demo_granted" using o by (auto split: prod.splits)
qed code_simp

section \<open>Whose stays a citizen moves\<close>

lemma own_event_others:
  assumes "own_event rq sid nsid nrid now e" "stay_op sink e d = Inr d'" "get (stays d) i = Some st" "i \<noteq> sid"
  shows "get (stays d') i = Some st"
proof -
  have m: "get (stays d') i = Some st" if "moved d d' sid s s' h o' xs" for s s' h o' xs
    using moved_stays [OF that] assms(3,4) by simp
  from assms(1) consider "e = EvArrive sid now (ev_key rq)" | "e = EvCancel sid now (ev_key rq)" | "e = EvDepart sid now (ev_key rq)"
    | nd where "e = EvExtend sid nd now (ev_key rq)"
    | ex where "e = EvTransfer sid nsid nrid (new_facility rq) (opt_text (new_route rq)) ex now (ev_key rq)"
    unfolding own_event_def by blast
  then show ?thesis
  proof cases
    case 1 then show ?thesis using arrive_moved [of sink sid now "ev_key rq" d d'] assms(2) m by auto
  next
    case 2 then show ?thesis using cancel_moved [of sink sid now "ev_key rq" d d'] assms(2) m by auto
  next
    case 3 then show ?thesis using depart_moved [of sink sid now "ev_key rq" d d'] assms(2) m by auto
  next
    case 4 then show ?thesis using extend_moved [of sink sid nd now "ev_key rq" d d'] assms(2) m by auto
  next
    case 5
    then obtain s where "transferred d d' sid s nsid (transfer_stay s nsid nrid (new_facility rq) (opt_text (new_route rq)) ex)"
      using transfer_effect [of sink sid nsid nrid "new_facility rq" "opt_text (new_route rq)" ex now "ev_key rq" d d'] assms(2) by auto
    then have "get (stays d) nsid = None" "stays d' = put sid (s\<lparr>stay_state := StayDeparted, stay_version := stay_version s + 1\<rparr>)
        (put nsid (transfer_stay s nsid nrid (new_facility rq) (opt_text (new_route rq)) ex) (stays d))"
      unfolding transferred_def by simp_all
    then show ?thesis using assms(3,4) by auto
  qed
qed

text \<open>C18: A citizen moves only stays of the own session: whatever event a session sends for whatever stay, the
  stays of every other session stay exactly as they are, and an event for a stay of another session
  changes nothing at all.\<close>

theorem only_own_stays_move:
  assumes "svc_ok d" and "stay_event_handler lib sess sid rq now nsid nrid d = (d', r)"
    and "get (stays d) i = Some st" and "stay_session st \<noteq> sess"
  shows "get (stays d') i = Some st \<and> (i = sid \<longrightarrow> d' = d)"
proof (cases "keyed_tx (sess, event_operation rq, ev_key rq) (event_payload_hash lib sess sid rq) None (now + hour)
           (\<lambda>_. None) (event_work lib sess sid rq now nsid nrid) d")
  case (Inl e)
  then have "d' = d" using assms(2) by (auto simp: stay_event_handler_def answer_def in_tx_def split: if_splits)
  then show ?thesis using assms(3) by simp
next
  case (Inr x)
  obtain d1 rep where x: "x = (d1, rep)" by (cases x)
  have d': "d' = d \<or> d' = d1" using Inr x assms(2) by (auto simp: stay_event_handler_def answer_def in_tx_def split: if_splits reply.splits)
  have s: "settled d" using assms(1) by (simp add: svc_ok_def)
  show ?thesis
    using keyed_tx_cases [OF s Inr [unfolded x] conjunct1 [OF bodies_ok(2)]]
  proof (elim disjE exE conjE)
    fix r'
    assume "d1 = d"
    then show ?thesis using d' assms(3) by auto
  next
    fix d0 d2 res
    assume d0: "d0 = d\<lparr>idem_keys := put (sess, event_operation rq, ev_key rq) \<lparr>key_hash = event_payload_hash lib sess sid rq,
        key_result = [], key_state = InProgress, key_expires = now + hour\<rparr> (idem_keys d)\<rparr>"
      and w: "event_work lib sess sid rq now nsid nrid d0 = Inr (d2, res)"
      and d1: "d1 = d2\<lparr>idem_keys := put (sess, event_operation rq, ev_key rq) \<lparr>key_hash = event_payload_hash lib sess sid rq,
        key_result = res, key_state = Completed, key_expires = now + hour\<rparr> (idem_keys d)\<rparr>"
    obtain e where e: "own_event rq sid nsid nrid now e" "stay_op (Some (sql lib)) e d0 = Inr d2"
      and own: "\<exists>st. get (stays d0) sid = Some st \<and> stay_session st = sess"
      using event_work_op [OF w] by blast
    have ne: "i \<noteq> sid" using own assms(3,4) by (auto simp: d0)
    have "get (stays d2) i = Some st" by (rule own_event_others [OF e _ ne]) (simp add: d0 assms(3))
    then show ?thesis using d' d1 assms(3) ne by auto
  qed
qed

definition demo_event :: event_request where
  "demo_event = \<lparr>ev_type = ''cancel'', ev_key = ''k5'', new_end_date = [], new_facility = [], new_route = [], ev_snapshot = 0\<rparr>"

theorem only_own_stays_move_witness:
  "\<exists>d. load d StayReserved ''f'' 2 = 3 \<and> fst (stay_event_handler demo_svc ''thief'' ''x1'' demo_event 6 [] [] d) = d"
proof -
  obtain d where d: "fst (create_reservation demo_svc ''s'' demo_request 5 ''x1'' ''r1'' demo_ctx) = d" by blast
  have l: "load d StayReserved ''f'' 2 = 3" unfolding d [symmetric] by code_simp
  have ok: "svc_ok d" using svc_step_ok [OF demo_ctx_ok, of demo_svc "SvReserve ''s'' demo_request 5 ''x1'' ''r1''"] d by simp
  have "map_option stay_session (get (stays d) ''x1'') = Some ''s''" unfolding d [symmetric] by code_simp
  then obtain st where st: "get (stays d) ''x1'' = Some st" "stay_session st = ''s''" by auto
  obtain d' r where h: "stay_event_handler demo_svc ''thief'' ''x1'' demo_event 6 [] [] d = (d', r)"
    by (cases "stay_event_handler demo_svc ''thief'' ''x1'' demo_event 6 [] [] d") blast
  have "stay_session st \<noteq> ''thief''" using st(2) by simp
  from only_own_stays_move [OF ok h st(1) this] have "d' = d" by simp
  then show ?thesis using l h by (intro exI [of _ d]) simp
qed

end
