(* ===== verification/Offline_Card.thy ===== *)
theory Offline_Card
  imports Offline_Trust
begin

text \<open>
  The canonical form and the verification of the public incident card: CanonicalBytes of
  canonical.go and VerifyCard of validate.go (backend/internal/offlinepkg). A nil slice without
  omitempty is null. The text of a number, as \<open>json.Marshal\<close> writes a float64, is the argument
  \<open>ft\<close>; it fails on infinities and NaN. The geometry of a zone or route is a decoded JSON value
  whose numbers are kept as that text.
\<close>

section \<open>The JSON value of a card\<close>

definition omit_text :: "string \<Rightarrow> string \<Rightarrow> (string \<times> json) list" where
  "omit_text k s = (if s = [] then [] else [(k, JStr s)])"

definition omit_nil :: "string \<Rightarrow> json option \<Rightarrow> (string \<times> json) list" where
  "omit_nil k v = (case v of None \<Rightarrow> [] | Some j \<Rightarrow> [(k, j)])"

definition slice_json :: "('a \<Rightarrow> json) \<Rightarrow> 'a slice \<Rightarrow> json" where
  "slice_json f s = (case s of None \<Rightarrow> JNull | Some xs \<Rightarrow> JArr (map f xs))"

definition alert_json :: "alert_card \<Rightarrow> json" where
  "alert_json a = JObj
     [(''identifier'', JStr (ac_identifier a)), (''sender'', JStr (ac_sender a)), (''headline'', JStr (ac_headline a)),
      (''severity'', JStr (ac_severity a)), (''urgency'', JStr (ac_urgency a)), (''certainty'', JStr (ac_certainty a)),
      (''area_description'', JStr (ac_area_description a))]"

definition red_zone_json :: "(fnum \<Rightarrow> string) \<Rightarrow> red_zone_card \<Rightarrow> json" where
  "red_zone_json ft z = JObj
     ([(''id'', JStr (rz_id z))] @ omit_text ''name'' (rz_name z)
      @ omit_empty ''centroid'' (map (\<lambda>x. JNum (ft x)) (rz_centroid z)) @ [(''geometry'', rz_geometry z)])"

definition safe_zone_json :: "(fnum \<Rightarrow> string) \<Rightarrow> safe_zone_card \<Rightarrow> json" where
  "safe_zone_json ft z = JObj
     ([(''id'', JStr (sz_id z)), (''name'', JStr (sz_name z)), (''role'', JStr (sz_role z)),
       (''status'', JStr (sz_status z)), (''capacity_mode'', JStr (sz_capacity_mode z))]
      @ omit_nil ''total_capacity'' (map_option (\<lambda>n. JNum (show_int n)) (sz_total_capacity z))
      @ omit_empty ''location'' (map (\<lambda>x. JNum (ft x)) (sz_location z))
      @ omit_empty ''services'' (map JStr (sz_services z)))"

definition route_json :: "route_card \<Rightarrow> json" where
  "route_json r = JObj
     ([(''id'', JStr (rt_id r)), (''from_zone_id'', JStr (rt_from_zone_id r)),
       (''to_safe_zone_id'', JStr (rt_to_safe_zone_id r)), (''mode'', JStr (rt_mode r)),
       (''approval'', JStr (rt_approval r))]
      @ omit_text ''verified_by'' (rt_verified_by r) @ omit_text ''verified_at'' (rt_verified_at r)
      @ omit_text ''valid_from'' (rt_valid_from r) @ omit_text ''valid_until'' (rt_valid_until r)
      @ [(''geometry'', rt_geometry r)])"

definition facility_json :: "facility_card \<Rightarrow> json" where
  "facility_json f = JObj
     ([(''id'', JStr (fc_id f)), (''safe_zone_id'', JStr (fc_safe_zone_id f)), (''name'', JStr (fc_name f))]
      @ omit_text ''address'' (fc_address f) @ omit_text ''contact_phone'' (fc_contact_phone f))"

definition instruction_json :: "instruction_card \<Rightarrow> json" where
  "instruction_json x = JObj
     [(''id'', JStr (in_id x)), (''language'', JStr (in_language x)), (''title'', JStr (in_title x)),
      (''summary'', JStr (in_summary x))]"

definition contact_json :: "emergency_contact \<Rightarrow> json" where
  "contact_json c = JObj [(''name'', JStr (ec_name c)), (''number'', JStr (ec_number c))]"

definition policy_json :: "policy_card \<Rightarrow> json" where
  "policy_json p = JObj
     ([(''order'', slice_json JStr (pc_order p))]
      @ omit_nil ''reservation_expiry_seconds'' (map_option (\<lambda>n. JNum (show_int n)) (pc_reservation_expiry_seconds p))
      @ omit_nil ''temporary_stay_min_days'' (map_option (\<lambda>n. JNum (show_int n)) (pc_stay_min_days p))
      @ omit_nil ''temporary_stay_max_days'' (map_option (\<lambda>n. JNum (show_int n)) (pc_stay_max_days p))
      @ omit_nil ''allow_walk_ins'' (map_option JBool (pc_allow_walk_ins p))
      @ omit_nil ''allow_transfers'' (map_option JBool (pc_allow_transfers p))
      @ omit_nil ''route_required'' (map_option JBool (pc_route_required p)))"

definition card_json :: "(fnum \<Rightarrow> string) \<Rightarrow> incident_card \<Rightarrow> json" where
  "card_json ft c = JObj
     ([(''schema_version'', JStr (ic_schema_version c)), (''package_id'', JStr (ic_package_id c)),
       (''version'', JNum (show_int (ic_version c))), (''jurisdiction'', JStr (ic_jurisdiction c)),
       (''evidence_class'', JStr (ic_evidence_class c)), (''effective_at'', JStr (ic_effective_at c)),
       (''expires_at'', JStr (ic_expires_at c)), (''alert'', alert_json (ic_alert c)),
       (''red_zones'', slice_json (red_zone_json ft) (ic_red_zones c)),
       (''safe_zones'', slice_json (safe_zone_json ft) (ic_safe_zones c)),
       (''approved_routes'', slice_json route_json (ic_approved_routes c)),
       (''facilities'', slice_json facility_json (ic_facilities c)),
       (''instructions'', slice_json instruction_json (ic_instructions c)),
       (''emergency_contacts'', slice_json contact_json (ic_emergency_contacts c)),
       (''allocation_policy'', policy_json (ic_allocation_policy c)),
       (''checksum_sha256'', JStr (ic_checksum c))]
      @ omit_nil ''signature'' (map_option signature_json (ic_signature c)))"

section \<open>Canonical bytes\<close>

fun finite_num :: "fnum \<Rightarrow> bool" where
  "finite_num (FNum m e) = True"
| "finite_num _ = False"

definition card_floats :: "incident_card \<Rightarrow> fnum list" where
  "card_floats c = concat (map rz_centroid (elems (ic_red_zones c))) @ concat (map sz_location (elems (ic_safe_zones c)))"

definition cleared_card :: "incident_card \<Rightarrow> incident_card" where
  "cleared_card c = c\<lparr>ic_checksum := [], ic_signature := None\<rparr>"

definition canonical_card :: "(string \<Rightarrow> string) \<Rightarrow> (fnum \<Rightarrow> string) \<Rightarrow> incident_card \<Rightarrow> off_error + string" where
  "canonical_card quote ft c =
     (case find (\<lambda>x. \<not> finite_num x) (card_floats c) of
        None \<Rightarrow> Inr (write_canonical quote (card_json ft (cleared_card c)))
      | Some x \<Rightarrow> Inl (malformed ''json marshal: %v'' [AMsg (Fmt ''json: unsupported value: %v'' [AFloat x])]))"

definition verify_card ::
  "crypto_lib \<Rightarrow> (string \<Rightarrow> string) \<Rightarrow> (fnum \<Rightarrow> string) \<Rightarrow> rfc
     \<Rightarrow> (string \<Rightarrow> string \<Rightarrow> string \<Rightarrow> string \<Rightarrow> off_error option) \<Rightarrow> incident_card option \<Rightarrow> off_error option"
where
  "verify_card lib quote ft rfc verify co =
     (case validate_card rfc co of
        Some e \<Rightarrow> Some e
      | None \<Rightarrow>
         (case co of
            None \<Rightarrow> None
          | Some c \<Rightarrow>
             (case ic_signature c of
                None \<Rightarrow> Some ([ErrInvalidSignature], plain ''card has no signature'')
              | Some g \<Rightarrow>
                 (case canonical_card quote ft c of
                    Inl e \<Rightarrow> Some e
                  | Inr canonical \<Rightarrow>
                     let expected = digest_hex lib canonical
                     in if ic_checksum c \<noteq> expected
                        then Some ([ErrChecksumMismatch], Fmt ''card checksum mismatch (declared %q != computed %q)''
                               [AStr (ic_checksum c), AStr expected])
                        else verify (sig_key_id g) (ic_jurisdiction c) canonical (sig_value g)))))"

text \<open>SignCanonical of a card: the signature over its canonical bytes, under a private key that the
  argument \<open>sign\<close> stands for.\<close>

definition sign_card ::
  "(string \<Rightarrow> string) \<Rightarrow> (fnum \<Rightarrow> string) \<Rightarrow> (string \<Rightarrow> string) \<Rightarrow> nat \<Rightarrow> string \<Rightarrow> incident_card \<Rightarrow> off_error + signature"
where
  "sign_card quote ft sign key_size kid c =
     (if key_size \<noteq> 64 then Inl ([ErrInvalidSignature], Fmt ''invalid private key length %d'' [AInt (int key_size)])
      else if kid = [] then Inl ([ErrSignerUnauthorized], plain ''key_id is required'')
      else bind_res (canonical_card quote ft c) (\<lambda>canonical.
             Inr \<lparr>sig_algorithm = ''Ed25519'', sig_key_id = kid, sig_value = sign canonical\<rparr>))"


text \<open>The signing of a manifest, whose canonical bytes always exist.\<close>

definition sign_manifest ::
  "(string \<Rightarrow> string) \<Rightarrow> (string \<Rightarrow> string) \<Rightarrow> nat \<Rightarrow> string \<Rightarrow> manifest \<Rightarrow> off_error + signature"
where
  "sign_manifest quote sign key_size kid m =
     (if key_size \<noteq> 64 then Inl ([ErrInvalidSignature], Fmt ''invalid private key length %d'' [AInt (int key_size)])
      else if kid = [] then Inl ([ErrSignerUnauthorized], plain ''key_id is required'')
      else Inr \<lparr>sig_algorithm = ''Ed25519'', sig_key_id = kid, sig_value = sign (canonical_manifest quote m)\<rparr>)"

section \<open>What verification accepts\<close>

context trust_store begin

lemma card_accepted:
  "verify_card lib quote ft rfc (verify s) (Some c) = None \<longleftrightarrow>
     valid_card rfc c \<and> (\<exists>b g k. canonical_card quote ft c = Inr b \<and> ic_checksum c = digest_hex lib b
       \<and> ic_signature c = Some g \<and> lookup s (sig_key_id g) = Inr k
       \<and> key_usable k (ic_jurisdiction c) (now s) \<and> signed_by lib (public_key k) b (sig_value g))"
  by (auto simp: verify_card_def Let_def verify_exact simp flip: validate_card_None split: option.splits sum.splits)

end

lemma canonical_card_integrity [simp]:
  "canonical_card quote ft (c\<lparr>ic_checksum := x, ic_signature := y\<rparr>) = canonical_card quote ft c"
proof -
  have "cleared_card (c\<lparr>ic_checksum := x, ic_signature := y\<rparr>) = cleared_card c" by (simp add: cleared_card_def)
  moreover have "card_floats (c\<lparr>ic_checksum := x, ic_signature := y\<rparr>) = card_floats c" by (simp add: card_floats_def)
  ultimately show ?thesis by (simp only: canonical_card_def)
qed

lemma canonical_manifest_integrity [simp]:
  "canonical_manifest quote (m\<lparr>mf_checksum := x, mf_signature := y\<rparr>) = canonical_manifest quote m"
  by (simp add: canonical_manifest_def cleared_def)

text \<open>A document is sound but for its integrity metadata when it is well formed with any.\<close>

lemma valid_card_integrity:
  assumes "valid_card rfc (c\<lparr>ic_checksum := replicate 64 x, ic_signature := None\<rparr>)"
    and "length h = 64" "sig_algorithm g = ''Ed25519''" "sig_key_id g \<noteq> []" "sig_value g \<noteq> []"
  shows "valid_card rfc (c\<lparr>ic_checksum := h, ic_signature := Some g\<rparr>)"
  using assms by (simp add: valid_card_def valid_signature_def Let_def)

lemma valid_manifest_integrity:
  assumes "valid_manifest rfc (m\<lparr>mf_checksum := replicate 64 x, mf_signature := None\<rparr>)"
    and "length h = 64" "sig_algorithm g = ''Ed25519''" "sig_key_id g \<noteq> []" "sig_value g \<noteq> []"
  shows "valid_manifest rfc (m\<lparr>mf_checksum := h, mf_signature := Some g\<rparr>)"
  using assms by (simp add: valid_manifest_def valid_signature_def)


section \<open>Properties\<close>

definition demo_card :: incident_card where
  "demo_card =
     \<lparr>ic_schema_version = ''3.0'', ic_package_id = ''p'', ic_version = 1, ic_jurisdiction = ''ka'',
      ic_evidence_class = ''SYNTHETIC_DEMO'', ic_effective_at = ''t1'', ic_expires_at = ''t2'',
      ic_alert = \<lparr>ac_identifier = ''a'', ac_sender = ''s'', ac_headline = ''h'', ac_severity = ''x'', ac_urgency = ''y'',
        ac_certainty = ''z'', ac_area_description = []\<rparr>,
      ic_red_zones = Some [\<lparr>rz_id = ''r'', rz_name = [], rz_centroid = [], rz_geometry = JNull\<rparr>],
      ic_safe_zones = Some [\<lparr>sz_id = ''z'', sz_name = ''n'', sz_role = ''SHELTER'', sz_status = ''OPEN'',
        sz_capacity_mode = ''FIXED'', sz_total_capacity = Some 5, sz_location = [FNum 10 0, FNum 20 0], sz_services = []\<rparr>],
      ic_approved_routes = None,
      ic_facilities = Some [\<lparr>fc_id = ''f'', fc_safe_zone_id = ''z'', fc_name = ''n'', fc_address = [], fc_contact_phone = []\<rparr>],
      ic_instructions = Some [\<lparr>in_id = ''i'', in_language = ''en'', in_title = ''t'', in_summary = []\<rparr>],
      ic_emergency_contacts = Some [\<lparr>ec_name = ''c'', ec_number = ''112''\<rparr>],
      ic_allocation_policy = \<lparr>pc_order = Some [''z''], pc_reservation_expiry_seconds = Some 60, pc_stay_min_days = None,
        pc_stay_max_days = None, pc_allow_walk_ins = None, pc_allow_transfers = None, pc_route_required = Some False\<rparr>,
      ic_checksum = replicate 64 (CHR ''0''), ic_signature = None\<rparr>"

fun demo_rfc :: rfc where
  "demo_rfc t = (if t = ''t1'' then Inr 1 else if t = ''t2'' then Inr 9 else Inl (plain ''bad time''))"

text \<open>C28: What the authority signs is what the device accepts: for a well-formed document, the checksum of
  its canonical bytes and the signature that SignCanonical returns make VerifyCard and VerifyManifest
  succeed exactly when the signing key is usable for the document's jurisdiction at the time of the
  store, whatever integrity metadata the document carried before.\<close>

theorem signed_documents_verify:
  assumes "lookup_key s kid = Inr k" and "kid \<noteq> []" and "\<And>b. length (digest_hex lib b) = 64"
    and "\<And>b. sign b \<noteq> [] \<and> signed_by lib (public_key k) b (sign b)"
  shows "(valid_card rfc (c\<lparr>ic_checksum := replicate 64 x, ic_signature := None\<rparr>) \<and> canonical_card quote ft c = Inr b \<longrightarrow>
      (\<exists>g. sign_card quote ft sign 64 kid c = Inr g
        \<and> (verify_card lib quote ft rfc (verify_signature lib s)
             (Some (c\<lparr>ic_checksum := digest_hex lib b, ic_signature := Some g\<rparr>)) = None)
          = key_usable k (ic_jurisdiction c) (clock_now s)))
    \<and> (valid_manifest rfc (m\<lparr>mf_checksum := replicate 64 x, mf_signature := None\<rparr>) \<longrightarrow>
      (\<exists>g. sign_manifest quote sign 64 kid m = Inr g
        \<and> (verify_manifest lib quote rfc (verify_signature lib s)
             (Some (m\<lparr>mf_checksum := digest_hex lib (canonical_manifest quote m), mf_signature := Some g\<rparr>)) = None)
          = key_usable k (mf_jurisdiction m) (clock_now s)))"
proof (intro conjI impI)
  assume "valid_card rfc (c\<lparr>ic_checksum := replicate 64 x, ic_signature := None\<rparr>) \<and> canonical_card quote ft c = Inr b"
  then have v: "valid_card rfc (c\<lparr>ic_checksum := replicate 64 x, ic_signature := None\<rparr>)" and b: "canonical_card quote ft c = Inr b"
    by simp_all
  let ?g = "\<lparr>sig_algorithm = ''Ed25519'', sig_key_id = kid, sig_value = sign b\<rparr>"
  have "valid_card rfc (c\<lparr>ic_checksum := digest_hex lib b, ic_signature := Some ?g\<rparr>)"
    using assms(2-4) by (intro valid_card_integrity [OF v]) simp_all
  then show "\<exists>g. sign_card quote ft sign 64 kid c = Inr g \<and> (verify_card lib quote ft rfc (verify_signature lib s)
      (Some (c\<lparr>ic_checksum := digest_hex lib b, ic_signature := Some g\<rparr>)) = None) = key_usable k (ic_jurisdiction c) (clock_now s)"
    using assms b by (auto simp: sign_card_def mem_store.card_accepted)
next
  assume v: "valid_manifest rfc (m\<lparr>mf_checksum := replicate 64 x, mf_signature := None\<rparr>)"
  let ?b = "canonical_manifest quote m"
  let ?g = "\<lparr>sig_algorithm = ''Ed25519'', sig_key_id = kid, sig_value = sign ?b\<rparr>"
  have "valid_manifest rfc (m\<lparr>mf_checksum := digest_hex lib ?b, mf_signature := Some ?g\<rparr>)"
    using assms(2-4) by (intro valid_manifest_integrity [OF v]) simp_all
  then show "\<exists>g. sign_manifest quote sign 64 kid m = Inr g \<and> (verify_manifest lib quote rfc (verify_signature lib s)
      (Some (m\<lparr>mf_checksum := digest_hex lib ?b, mf_signature := Some g\<rparr>)) = None) = key_usable k (mf_jurisdiction m) (clock_now s)"
    using assms by (auto simp: sign_manifest_def mem_store.manifest_accepted)
qed

theorem signed_documents_verify_witness:
  "\<exists>b g. canonical_card simple_quote (\<lambda>_. ''1'') demo_card = Inr b
     \<and> sign_card simple_quote (\<lambda>_. ''1'') (\<lambda>_. ''v'') 64 ''k'' demo_card = Inr g
     \<and> verify_card demo_lib simple_quote (\<lambda>_. ''1'') demo_rfc (verify_signature demo_lib (new_trust_store 9 [demo_key]))
          (Some (demo_card\<lparr>ic_checksum := digest_hex demo_lib b, ic_signature := Some g\<rparr>)) = None"
proof -
  have k: "lookup_key (new_trust_store 9 [demo_key]) ''k'' = Inr demo_key" by code_simp
  have s: "''v'' \<noteq> [] \<and> signed_by demo_lib (public_key demo_key) b ''v''" for b
    by (simp add: signed_by_def demo_lib_def demo_key_def ed25519_signature_size_def)
  have l: "length (digest_hex demo_lib b) = 64" for b by (simp add: demo_lib_def)
  have v: "valid_card demo_rfc (demo_card\<lparr>ic_checksum := replicate 64 (CHR ''0''), ic_signature := None\<rparr>)"
    unfolding validate_card_None [symmetric] by code_simp
  have "isl (canonical_card simple_quote (\<lambda>_. ''1'') demo_card) = False" by code_simp
  then obtain b where b: "canonical_card simple_quote (\<lambda>_. ''1'') demo_card = Inr b"
    by (cases "canonical_card simple_quote (\<lambda>_. ''1'') demo_card") simp_all
  have "key_usable demo_key (ic_jurisdiction demo_card) (clock_now (new_trust_store 9 [demo_key]))" by code_simp
  moreover have "\<exists>g. sign_card simple_quote (\<lambda>_. ''1'') (\<lambda>_. ''v'') 64 ''k'' demo_card = Inr g
      \<and> (verify_card demo_lib simple_quote (\<lambda>_. ''1'') demo_rfc (verify_signature demo_lib (new_trust_store 9 [demo_key]))
            (Some (demo_card\<lparr>ic_checksum := digest_hex demo_lib b, ic_signature := Some g\<rparr>)) = None)
        = key_usable demo_key (ic_jurisdiction demo_card) (clock_now (new_trust_store 9 [demo_key]))"
    using conjunct1 [OF signed_documents_verify [OF k _ l s, where rfc = demo_rfc and c = demo_card
          and quote = simple_quote and ft = "\<lambda>_. ''1''" and b = b]] v b by blast
  ultimately show ?thesis using b by blast
qed

end
