(* ===== verification/Opkg.thy ===== *)
theory Opkg
  imports Offline_Card
begin

text \<open>
  The validation of operational packages of backend/internal/opkg/package.go. The structs are
  records whose enumerated strings stay strings; a slice that may be nil is a slice, a pointer an
  option, and the raw geometry of a route its text, empty when nil. Parameters are \<open>time.Parse\<close>
  (\<open>rfc\<close>), SHA-256, \<open>json.Marshal\<close> of strings and floats, and the two decoders of a raw geometry.
\<close>

section \<open>Data\<close>

record provenance =
  pv_dataset_id :: string
  pv_evidence_class :: string
  pv_version :: int
  pv_jurisdiction :: string
  pv_authority :: string
  pv_effective_at :: string
  pv_expires_at :: string
  pv_checksum :: string
  pv_signature :: "signature option"

record op_zone =
  zn_id :: string
  zn_capacity :: "int option"
  zn_location :: "fnum list"
  zn_status :: string
  zn_role :: string

record op_route =
  ro_id :: string
  ro_from :: string
  ro_to :: string
  ro_approval :: string
  ro_geometry :: string
  ro_mode :: string
  ro_verified_by :: string
  ro_verified_at :: string
  ro_valid_from :: string
  ro_valid_until :: string

record instruction_asset =
  ia_id :: string
  ia_language :: string

record op_facility =
  of_id :: string
  of_safe_zone :: string

record allocation_policy =
  ap_order :: "string slice"
  ap_expiry_seconds :: "int option"
  ap_min_days :: "int option"
  ap_max_days :: "int option"
  ap_walk_ins :: "bool option"
  ap_transfers :: "bool option"
  ap_route_required :: "bool option"

record op_package =
  op_provenance :: provenance
  op_alert :: string
  op_red_zones :: "op_zone slice"
  op_safe_zones :: "op_zone slice"
  op_routes :: "op_route slice"
  op_instructions :: "instruction_asset slice"
  op_facilities :: "op_facility slice"
  op_policy :: allocation_policy
  op_contacts :: "emergency_contact slice"

record validation =
  va_package_id :: string
  va_evidence_class :: string
  va_alert_id :: string
  va_red_zones :: "string list"
  va_safe_zones :: "string list"
  va_routes :: "string list"
  va_languages :: "string list"
  va_version :: int
  va_jurisdiction :: string
  va_effective_at :: time
  va_expires_at :: time
  va_checksum :: string

record package_lib =
  p_rfc :: rfc
  p_digest :: "string \<Rightarrow> string"
  p_quote :: "string \<Rightarrow> string"
  p_float :: "fnum \<Rightarrow> string"
  raw_json :: "string \<Rightarrow> json option"
  line_string :: "string \<Rightarrow> (string \<times> fnum list list) option"

section \<open>Canonical bytes\<close>

definition op_provenance_json :: "provenance \<Rightarrow> json" where
  "op_provenance_json p = JObj
     ([(''dataset_id'', JStr (pv_dataset_id p)), (''evidence_class'', JStr (pv_evidence_class p)),
       (''version'', JNum (show_int (pv_version p))), (''jurisdiction'', JStr (pv_jurisdiction p)),
       (''authority'', JStr (pv_authority p)), (''effective_at'', JStr (pv_effective_at p)),
       (''expires_at'', JStr (pv_expires_at p)), (''checksum_sha256'', JStr (pv_checksum p))]
      @ omit_nil ''signature'' (map_option signature_json (pv_signature p)))"

definition op_zone_json :: "package_lib \<Rightarrow> op_zone \<Rightarrow> json" where
  "op_zone_json lib z = JObj
     ([(''id'', JStr (zn_id z))] @ omit_nil ''capacity'' (map_option (\<lambda>n. JNum (show_int n)) (zn_capacity z))
      @ omit_empty ''location'' (map (\<lambda>x. JNum (p_float lib x)) (zn_location z))
      @ omit_text ''status'' (zn_status z) @ omit_text ''role'' (zn_role z))"

text \<open>A nil raw message is null; another one is the value it holds.\<close>

definition geometry_json :: "package_lib \<Rightarrow> string \<Rightarrow> json option" where
  "geometry_json lib raw = (if raw = [] then Some JNull else raw_json lib raw)"

definition op_route_json :: "package_lib \<Rightarrow> op_route \<Rightarrow> json" where
  "op_route_json lib r = JObj
     ([(''id'', JStr (ro_id r)), (''from_zone_id'', JStr (ro_from r)), (''to_safe_zone_id'', JStr (ro_to r)),
       (''approval'', JStr (ro_approval r))]
      @ omit_nil ''geometry'' (geometry_json lib (ro_geometry r)) @ [(''mode'', JStr (ro_mode r))]
      @ omit_text ''verified_by'' (ro_verified_by r) @ omit_text ''verified_at'' (ro_verified_at r)
      @ omit_text ''valid_from'' (ro_valid_from r) @ omit_text ''valid_until'' (ro_valid_until r))"

definition instruction_asset_json :: "instruction_asset \<Rightarrow> json" where
  "instruction_asset_json x = JObj [(''id'', JStr (ia_id x)), (''language'', JStr (ia_language x))]"

definition op_facility_json :: "op_facility \<Rightarrow> json" where
  "op_facility_json f = JObj [(''id'', JStr (of_id f)), (''safe_zone_id'', JStr (of_safe_zone f))]"

definition allocation_policy_json :: "allocation_policy \<Rightarrow> json" where
  "allocation_policy_json p = JObj
     ([(''order'', slice_json JStr (ap_order p))]
      @ omit_nil ''reservation_expiry_seconds'' (map_option (\<lambda>n. JNum (show_int n)) (ap_expiry_seconds p))
      @ omit_nil ''temporary_stay_min_days'' (map_option (\<lambda>n. JNum (show_int n)) (ap_min_days p))
      @ omit_nil ''temporary_stay_max_days'' (map_option (\<lambda>n. JNum (show_int n)) (ap_max_days p))
      @ omit_nil ''allow_walk_ins'' (map_option JBool (ap_walk_ins p))
      @ omit_nil ''allow_transfers'' (map_option JBool (ap_transfers p))
      @ omit_nil ''route_required'' (map_option JBool (ap_route_required p)))"

definition package_json :: "package_lib \<Rightarrow> op_package \<Rightarrow> json" where
  "package_json lib pkg = JObj
     [(''provenance'', op_provenance_json (op_provenance pkg)),
      (''alert'', JObj [(''identifier'', JStr (op_alert pkg))]),
      (''red_zones'', slice_json (op_zone_json lib) (op_red_zones pkg)),
      (''safe_zones'', slice_json (op_zone_json lib) (op_safe_zones pkg)),
      (''approved_routes'', slice_json (op_route_json lib) (op_routes pkg)),
      (''instruction_assets'', slice_json instruction_asset_json (op_instructions pkg)),
      (''facilities'', slice_json op_facility_json (op_facilities pkg)),
      (''allocation_policy'', allocation_policy_json (op_policy pkg)),
      (''emergency_contacts'', slice_json contact_json (op_contacts pkg))]"

definition cleared_package :: "op_package \<Rightarrow> op_package" where
  "cleared_package pkg =
     pkg\<lparr>op_provenance := (op_provenance pkg)\<lparr>pv_checksum := [], pv_signature := None\<rparr>\<rparr>"

text \<open>What \<open>json.Marshal\<close> can encode; canonicalJSON answers with no bytes when it fails.\<close>

definition encodable :: "package_lib \<Rightarrow> op_package \<Rightarrow> bool" where
  "encodable lib pkg \<longleftrightarrow>
     (\<forall>z \<in> set (elems (op_red_zones pkg) @ elems (op_safe_zones pkg)). list_all finite_num (zn_location z))
     \<and> (\<forall>r \<in> set (elems (op_routes pkg)). geometry_json lib (ro_geometry r) \<noteq> None)"

definition canonical_package :: "package_lib \<Rightarrow> op_package \<Rightarrow> string" where
  "canonical_package lib pkg =
     (if encodable lib (cleared_package pkg)
      then write_canonical (p_quote lib) (package_json lib (cleared_package pkg)) else [])"

definition checksum :: "package_lib \<Rightarrow> op_package \<Rightarrow> string" where
  "checksum lib pkg = p_digest lib (canonical_package lib pkg)"

section \<open>Guards\<close>

definition package_time :: "package_lib \<Rightarrow> string \<Rightarrow> string \<Rightarrow> msg + time" where
  "package_time lib label v =
     (if v = [] then Inl (Fmt ''%s is required'' [AStr label])
      else case p_rfc lib v of
             Inl e \<Rightarrow> Inl (Fmt ''%s must be RFC 3339 with timezone'' [AStr label])
           | Inr t \<Rightarrow> Inr t)"

definition position_ok :: "fnum \<Rightarrow> fnum \<Rightarrow> bool" where
  "position_ok lon lat \<longleftrightarrow> \<not> (f_less lon (-180) \<or> f_greater lon 180 \<or> f_less lat (-90) \<or> f_greater lat 90)"

definition validate_location :: "fnum list \<Rightarrow> msg option" where
  "validate_location loc =
     (case loc of
        [lon, lat] \<Rightarrow> check (\<not> position_ok lon lat) (plain ''location is outside CRS bounds'')
      | _ \<Rightarrow> Some (plain ''location is required''))"

definition validate_position :: "fnum list \<Rightarrow> msg option" where
  "validate_position pt =
     (case pt of
        [lon, lat] \<Rightarrow> check (\<not> position_ok lon lat) (plain ''route geometry position outside CRS bounds'')
      | _ \<Rightarrow> Some (plain ''route geometry positions are invalid''))"

definition validate_route_geometry :: "package_lib \<Rightarrow> string \<Rightarrow> msg option" where
  "validate_route_geometry lib raw =
     (case line_string lib raw of
        None \<Rightarrow> Some (plain ''route geometry must be a LineString'')
      | Some (typ, pts) \<Rightarrow> first_err
          [check (typ \<noteq> ''LineString'') (plain ''route geometry must be a LineString''),
           check (length pts < 2) (plain ''route geometry requires at least two positions''),
           each_err validate_position pts])"

definition validate_policy :: "allocation_policy \<Rightarrow> msg option" where
  "validate_policy p = first_err
     [(case ap_expiry_seconds p of None \<Rightarrow> None
       | Some n \<Rightarrow> check (n \<le> 0) (plain ''reservation_expiry_seconds must be positive'')),
      check ((ap_min_days p = None) \<noteq> (ap_max_days p = None))
        (plain ''temporary_stay_min_days and temporary_stay_max_days must be set together''),
      (case (ap_min_days p, ap_max_days p) of
         (Some lo, Some hi) \<Rightarrow> first_err
           [check (lo < 1 \<or> hi < 1) (plain ''temporary stay bounds must be positive''),
            check (hi < lo) (plain ''temporary_stay_min_days must not exceed temporary_stay_max_days'')]
       | _ \<Rightarrow> None)]"

definition policy_route_required :: "allocation_policy \<Rightarrow> msg + bool" where
  "policy_route_required p =
     (case ap_route_required p of
        None \<Rightarrow> Inl (plain ''authoritative allocation_policy is missing route_required'')
      | Some b \<Rightarrow> Inr b)"

text \<open>The loop of zoneIDs and routeIDsOf: the identifiers in order, none empty and none twice.\<close>

fun unique_ids :: "msg \<Rightarrow> msg \<Rightarrow> string list \<Rightarrow> string list \<Rightarrow> msg + string list" where
  "unique_ids required twice seen [] = Inr (rev seen)"
| "unique_ids required twice seen (i # ids) =
     (if i = [] then Inl required
      else if i \<in> set seen then Inl twice
      else unique_ids required twice (i # seen) ids)"

definition zone_ids :: "op_zone list \<Rightarrow> string \<Rightarrow> msg + string list" where
  "zone_ids zs label =
     unique_ids (Fmt ''%s ids are required'' [AStr label]) (Fmt ''%s ids must be unique'' [AStr label]) [] (map zn_id zs)"

definition route_ids_of :: "op_route list \<Rightarrow> msg + string list" where
  "route_ids_of rs =
     unique_ids (plain ''approved_routes ids are required'') (plain ''approved_routes ids must be unique'') [] (map ro_id rs)"


definition signature_required ::
  "(op_package \<Rightarrow> signature \<Rightarrow> bool) option \<Rightarrow> op_package \<Rightarrow> msg option"
where
  "signature_required verifier pkg =
     (case pv_signature (op_provenance pkg) of
        None \<Rightarrow> Some (plain ''package signature is required'')
      | Some g \<Rightarrow> first_err
          [check (sig_value g = []) (plain ''package signature is required''),
           check (sig_algorithm g = [] \<or> sig_key_id g = []) (plain ''package signature metadata is required''),
           (case verifier of
              None \<Rightarrow> Some (plain ''package signature verifier is not configured'')
            | Some v \<Rightarrow> check (\<not> v pkg g) (plain ''package signature verification failed''))])"

definition package_evidence_classes :: "string list" where
  "package_evidence_classes =
     [''SYNTHETIC_DEMO'', ''CAPTURED_OFFICIAL_SAMPLE'', ''AUTHORIZED_SHADOW'', ''AUTHORIZED_OPERATIONAL'']"

definition identity_checks :: "provenance \<Rightarrow> msg option" where
  "identity_checks p = first_err
     [check (pv_evidence_class p \<notin> set package_evidence_classes)
        (Fmt ''invalid evidence class %q'' [AStr (pv_evidence_class p)]),
      check (pv_dataset_id p = []) (plain ''package dataset_id is required''),
      check (pv_version p < 1) (plain ''package version must be a positive integer''),
      check (pv_jurisdiction p = []) (plain ''package jurisdiction is required''),
      check (pv_authority p = []) (plain ''package authority is required'')]"

definition presence_checks :: "op_package \<Rightarrow> msg option" where
  "presence_checks pkg = first_err
     [check (op_alert pkg = []) (plain ''package alert identifier is required''),
      check (elems (op_red_zones pkg) = []) (plain ''red_zones are required''),
      check (elems (op_safe_zones pkg) = []) (plain ''safe_zones are required''),
      check (elems (op_routes pkg) = []) (plain ''approved_routes are required''),
      check (elems (op_instructions pkg) = []) (plain ''instruction_assets are required''),
      check (elems (op_facilities pkg) = []) (plain ''facilities are required''),
      check (elems (ap_order (op_policy pkg)) = []) (plain ''allocation policy is required''),
      check (elems (op_contacts pkg) = []) (plain ''emergency contacts are required'')]"

definition facility_check :: "string set \<Rightarrow> op_facility \<Rightarrow> msg option" where
  "facility_check safe f = first_err
     [check (of_id f = []) (plain ''facility ids are required''),
      check (of_safe_zone f \<notin> safe) (Fmt ''facility %q must reference a safe zone'' [AStr (of_id f)])]"

definition safe_zone_check :: "op_zone \<Rightarrow> msg option" where
  "safe_zone_check z = first_err
     [(case zn_capacity z of
         Some n \<Rightarrow> check (n < 0) (Fmt ''safe-zone %q capacity must be explicit and non-negative'' [AStr (zn_id z)])
       | None \<Rightarrow> Some (Fmt ''safe-zone %q capacity must be explicit and non-negative'' [AStr (zn_id z)])),
      map_option (\<lambda>e. Fmt ''safe-zone %q %v'' [AStr (zn_id z), AMsg e]) (validate_location (zn_location z)),
      check (zn_status z \<notin> {[], ''OPEN'', ''CLOSED'', ''FULL'', ''PUBLISHED''})
        (Fmt ''safe-zone %q invalid status %q'' [AStr (zn_id z), AStr (zn_status z)]),
      check (zn_role z \<notin> {[], ''ASSEMBLY'', ''EMERGENCY_SHELTER'', ''TEMPORARY_ACCOMMODATION''})
        (Fmt ''safe-zone %q invalid role %q'' [AStr (zn_id z), AStr (zn_role z)])]"

definition route_error :: "op_route \<Rightarrow> msg \<Rightarrow> msg" where
  "route_error r e = Fmt ''route %q %v'' [AStr (ro_id r), AMsg e]"

definition route_window_check :: "package_lib \<Rightarrow> op_route \<Rightarrow> msg option" where
  "route_window_check lib r =
     (if ro_valid_from r = [] then None
      else case package_time lib ''valid_from'' (ro_valid_from r) of
             Inl e \<Rightarrow> Some (route_error r e)
           | Inr t \<Rightarrow>
              (case package_time lib ''valid_until'' (ro_valid_until r) of
                 Inl e \<Rightarrow> Some (route_error r e)
               | Inr u \<Rightarrow> check (\<not> t < u) (Fmt ''route %q valid_until must be after valid_from'' [AStr (ro_id r)])))"

definition route_check :: "package_lib \<Rightarrow> string set \<Rightarrow> string set \<Rightarrow> op_route \<Rightarrow> msg option" where
  "route_check lib red safe r = first_err
     [check (ro_from r \<notin> red) (Fmt ''route %q origin must reference a red zone'' [AStr (ro_id r)]),
      check (ro_to r \<notin> safe) (Fmt ''route %q destination must reference a safe zone'' [AStr (ro_id r)]),
      check (ro_approval r \<notin> {''SYNTHETIC_DEMO'', ''AUTHORIZED_OPERATIONAL''})
        (Fmt ''route %q approval is not authorized'' [AStr (ro_id r)]),
      check (ro_mode r \<notin> {''FOOT'', ''VEHICLE'', ''AMBULANCE''})
        (Fmt ''route %q mode is required and must be a known mode'' [AStr (ro_id r)]),
      map_option (route_error r) (validate_route_geometry lib (ro_geometry r)),
      check ((ro_verified_by r = []) \<noteq> (ro_verified_at r = []))
        (Fmt ''route %q verification requires both verified_by and verified_at'' [AStr (ro_id r)]),
      (if ro_verified_at r = [] then None
       else case package_time lib ''verified_at'' (ro_verified_at r) of Inl e \<Rightarrow> Some (route_error r e) | Inr t \<Rightarrow> None),
      check ((ro_valid_from r = []) \<noteq> (ro_valid_until r = []))
        (Fmt ''route %q validity requires both valid_from and valid_until'' [AStr (ro_id r)]),
      route_window_check lib r]"

definition instruction_check :: "instruction_asset \<Rightarrow> msg option" where
  "instruction_check x = first_err
     [check (ia_id x = []) (plain ''instruction_asset ids are required''),
      check (ia_language x = []) (plain ''instruction language is required'')]"

definition integrity_checks ::
  "package_lib \<Rightarrow> string \<Rightarrow> bool \<Rightarrow> (op_package \<Rightarrow> signature \<Rightarrow> bool) option \<Rightarrow> op_package \<Rightarrow> time \<Rightarrow> time \<Rightarrow> msg option"
where
  "integrity_checks lib expected need_sig verifier pkg effective expires = (let p = op_provenance pkg in first_err
     [check (\<not> effective < expires) (plain ''package expiry must be after effective time''),
      check (length (pv_checksum p) \<noteq> 64) (plain ''package checksum is required''),
      check (pv_checksum p \<noteq> checksum lib pkg) (plain ''package checksum verification failed''),
      check (expected \<noteq> [] \<and> pv_jurisdiction p \<noteq> expected) (plain ''package jurisdiction does not match''),
      (if need_sig then signature_required verifier pkg else None)])"

definition relation_checks :: "package_lib \<Rightarrow> op_package \<Rightarrow> string list \<Rightarrow> string list \<Rightarrow> msg option" where
  "relation_checks lib pkg red safe = first_err
     [check (elems (ap_order (op_policy pkg)) \<noteq> safe) (plain ''allocation policy must explicitly order every safe zone''),
      each_err (\<lambda>c. check (ec_number c = []) (plain ''emergency contact numbers are required'')) (elems (op_contacts pkg)),
      each_err (facility_check (set safe)) (elems (op_facilities pkg)),
      each_err safe_zone_check (elems (op_safe_zones pkg)),
      each_err (route_check lib (set red) (set safe)) (elems (op_routes pkg)),
      validate_policy (op_policy pkg),
      each_err instruction_check (elems (op_instructions pkg))]"

section \<open>Validate\<close>

definition validate_package ::
  "package_lib \<Rightarrow> string \<Rightarrow> bool \<Rightarrow> (op_package \<Rightarrow> signature \<Rightarrow> bool) option \<Rightarrow> op_package option \<Rightarrow> msg + validation"
where
  "validate_package lib expected need_sig verifier po =
     (case po of
        None \<Rightarrow> Inl (plain ''package is required'')
      | Some pkg \<Rightarrow> let p = op_provenance pkg in
     bind_res (require (identity_checks p) ()) (\<lambda>_.
     bind_res (package_time lib ''effective_at'' (pv_effective_at p)) (\<lambda>effective.
     bind_res (package_time lib ''expires_at'' (pv_expires_at p)) (\<lambda>expires.
     bind_res (require (integrity_checks lib expected need_sig verifier pkg effective expires) ()) (\<lambda>_.
     bind_res (require (presence_checks pkg) ()) (\<lambda>_.
     bind_res (zone_ids (elems (op_red_zones pkg)) ''red_zones'') (\<lambda>red.
     bind_res (zone_ids (elems (op_safe_zones pkg)) ''safe_zones'') (\<lambda>safe.
     bind_res (route_ids_of (elems (op_routes pkg))) (\<lambda>routes.
     require (relation_checks lib pkg red safe)
       \<lparr>va_package_id = pv_dataset_id p, va_evidence_class = pv_evidence_class p, va_alert_id = op_alert pkg,
        va_red_zones = red, va_safe_zones = safe, va_routes = routes,
        va_languages = map ia_language (elems (op_instructions pkg)), va_version = pv_version p,
        va_jurisdiction = pv_jurisdiction p, va_effective_at = effective, va_expires_at = expires,
        va_checksum = pv_checksum p\<rparr>)))))))))"

section \<open>What Validate accepts\<close>

definition reads_at :: "package_lib \<Rightarrow> string \<Rightarrow> time \<Rightarrow> bool" where
  "reads_at lib s t \<longleftrightarrow> s \<noteq> [] \<and> p_rfc lib s = Inr t"

definition good_position :: "fnum list \<Rightarrow> bool" where
  "good_position pt \<longleftrightarrow> (\<exists>lon lat. pt = [lon, lat] \<and> position_ok lon lat)"

definition good_geometry :: "package_lib \<Rightarrow> string \<Rightarrow> bool" where
  "good_geometry lib raw \<longleftrightarrow>
     (\<exists>pts. line_string lib raw = Some (''LineString'', pts) \<and> 2 \<le> length pts \<and> (\<forall>pt \<in> set pts. good_position pt))"

definition good_op_zone :: "op_zone \<Rightarrow> bool" where
  "good_op_zone z \<longleftrightarrow> (\<exists>n. zn_capacity z = Some n \<and> 0 \<le> n) \<and> good_position (zn_location z)
     \<and> zn_status z \<in> {[], ''OPEN'', ''CLOSED'', ''FULL'', ''PUBLISHED''}
     \<and> zn_role z \<in> {[], ''ASSEMBLY'', ''EMERGENCY_SHELTER'', ''TEMPORARY_ACCOMMODATION''}"

definition good_op_route :: "package_lib \<Rightarrow> string set \<Rightarrow> string set \<Rightarrow> op_route \<Rightarrow> bool" where
  "good_op_route lib red safe r \<longleftrightarrow> ro_from r \<in> red \<and> ro_to r \<in> safe
     \<and> ro_approval r \<in> {''SYNTHETIC_DEMO'', ''AUTHORIZED_OPERATIONAL''} \<and> ro_mode r \<in> {''FOOT'', ''VEHICLE'', ''AMBULANCE''}
     \<and> good_geometry lib (ro_geometry r)
     \<and> (ro_verified_by r = [] \<and> ro_verified_at r = [] \<or> ro_verified_by r \<noteq> [] \<and> (\<exists>t. reads_at lib (ro_verified_at r) t))
     \<and> (ro_valid_from r = [] \<and> ro_valid_until r = []
        \<or> (\<exists>t u. reads_at lib (ro_valid_from r) t \<and> reads_at lib (ro_valid_until r) u \<and> t < u))"

definition good_op_policy :: "allocation_policy \<Rightarrow> bool" where
  "good_op_policy p \<longleftrightarrow> (\<forall>n. ap_expiry_seconds p = Some n \<longrightarrow> 0 < n)
     \<and> (ap_min_days p = None \<and> ap_max_days p = None
        \<or> (\<exists>lo hi. ap_min_days p = Some lo \<and> ap_max_days p = Some hi \<and> 1 \<le> lo \<and> lo \<le> hi))"

definition good_ids :: "string list \<Rightarrow> bool" where
  "good_ids ids \<longleftrightarrow> ids \<noteq> [] \<and> [] \<notin> set ids \<and> distinct ids"

definition well_signed :: "(op_package \<Rightarrow> signature \<Rightarrow> bool) option \<Rightarrow> op_package \<Rightarrow> bool" where
  "well_signed verifier pkg \<longleftrightarrow>
     (\<exists>g v. pv_signature (op_provenance pkg) = Some g \<and> verifier = Some v \<and> sig_value g \<noteq> [] \<and> sig_algorithm g \<noteq> []
        \<and> sig_key_id g \<noteq> [] \<and> v pkg g)"

definition well_formed :: "package_lib \<Rightarrow> op_package \<Rightarrow> bool" where
  "well_formed lib pkg \<longleftrightarrow>
     (let red = map zn_id (elems (op_red_zones pkg)); safe = map zn_id (elems (op_safe_zones pkg)) in
     op_alert pkg \<noteq> [] \<and> good_ids red \<and> good_ids safe \<and> good_ids (map ro_id (elems (op_routes pkg)))
     \<and> elems (ap_order (op_policy pkg)) = safe \<and> good_op_policy (op_policy pkg)
     \<and> (\<forall>z \<in> set (elems (op_safe_zones pkg)). good_op_zone z)
     \<and> (\<forall>r \<in> set (elems (op_routes pkg)). good_op_route lib (set red) (set safe) r)
     \<and> elems (op_facilities pkg) \<noteq> [] \<and> (\<forall>f \<in> set (elems (op_facilities pkg)). of_id f \<noteq> [] \<and> of_safe_zone f \<in> set safe)
     \<and> elems (op_instructions pkg) \<noteq> [] \<and> (\<forall>x \<in> set (elems (op_instructions pkg)). ia_id x \<noteq> [] \<and> ia_language x \<noteq> [])
     \<and> elems (op_contacts pkg) \<noteq> [] \<and> (\<forall>c \<in> set (elems (op_contacts pkg)). ec_number c \<noteq> []))"

definition well_identified :: "package_lib \<Rightarrow> string \<Rightarrow> op_package \<Rightarrow> time \<Rightarrow> time \<Rightarrow> bool" where
  "well_identified lib expected pkg effective expires \<longleftrightarrow>
     (let p = op_provenance pkg in
     pv_evidence_class p \<in> set package_evidence_classes \<and> pv_dataset_id p \<noteq> [] \<and> 1 \<le> pv_version p \<and> pv_jurisdiction p \<noteq> []
     \<and> pv_authority p \<noteq> [] \<and> (expected = [] \<or> pv_jurisdiction p = expected)
     \<and> reads_at lib (pv_effective_at p) effective \<and> reads_at lib (pv_expires_at p) expires \<and> effective < expires
     \<and> length (pv_checksum p) = 64 \<and> pv_checksum p = p_digest lib (canonical_package lib pkg))"

definition summary :: "op_package \<Rightarrow> time \<Rightarrow> time \<Rightarrow> validation" where
  "summary pkg effective expires =
     \<lparr>va_package_id = pv_dataset_id (op_provenance pkg), va_evidence_class = pv_evidence_class (op_provenance pkg),
      va_alert_id = op_alert pkg, va_red_zones = map zn_id (elems (op_red_zones pkg)),
      va_safe_zones = map zn_id (elems (op_safe_zones pkg)), va_routes = map ro_id (elems (op_routes pkg)),
      va_languages = map ia_language (elems (op_instructions pkg)), va_version = pv_version (op_provenance pkg),
      va_jurisdiction = pv_jurisdiction (op_provenance pkg), va_effective_at = effective,
      va_expires_at = expires, va_checksum = pv_checksum (op_provenance pkg)\<rparr>"

lemma unique_ids_Inr:
  "unique_ids r t seen ids = Inr out \<longleftrightarrow>
     [] \<notin> set ids \<and> distinct ids \<and> set ids \<inter> set seen = {} \<and> out = rev seen @ ids"
  by (induction ids arbitrary: seen) auto

lemma ids_Inr:
  "zone_ids zs label = Inr out \<longleftrightarrow> [] \<notin> set (map zn_id zs) \<and> distinct (map zn_id zs) \<and> out = map zn_id zs"
  "route_ids_of rs = Inr out \<longleftrightarrow> [] \<notin> set (map ro_id rs) \<and> distinct (map ro_id rs) \<and> out = map ro_id rs"
  by (auto simp: zone_ids_def route_ids_of_def unique_ids_Inr)

lemma package_time_Inr: "package_time lib label s = Inr t \<longleftrightarrow> reads_at lib s t"
  by (auto simp: package_time_def reads_at_def split: sum.splits)

lemma position_checks_None:
  "validate_location loc = None \<longleftrightarrow> good_position loc" "validate_position loc = None \<longleftrightarrow> good_position loc"
  by (auto simp: validate_location_def validate_position_def good_position_def split: list.splits)

lemma geometry_None: "validate_route_geometry lib raw = None \<longleftrightarrow> good_geometry lib raw"
  by (auto simp: validate_route_geometry_def good_geometry_def first_err_Cons_None each_err_None position_checks_None
      split: option.splits)

lemma safe_zone_None: "safe_zone_check z = None \<longleftrightarrow> good_op_zone z"
  by (auto simp: safe_zone_check_def good_op_zone_def first_err_Cons_None position_checks_None split: option.splits)

lemma package_time_case:
  "(case package_time lib l s of Inl e \<Rightarrow> Some (f e) | Inr t \<Rightarrow> g t) = None \<longleftrightarrow> (\<exists>t. reads_at lib s t \<and> g t = None)"
  by (auto simp flip: package_time_Inr [where label = l] split: sum.splits)

lemma window_None:
  "route_window_check lib r = None \<longleftrightarrow> ro_valid_from r = []
     \<or> (\<exists>t u. reads_at lib (ro_valid_from r) t \<and> reads_at lib (ro_valid_until r) u \<and> t < u)"
  by (auto simp: route_window_check_def package_time_case)

lemma reads_some: "reads_at lib s t \<Longrightarrow> s \<noteq> []"
  by (simp add: reads_at_def)

lemma route_None: "route_check lib red safe r = None \<longleftrightarrow> good_op_route lib red safe r"
  unfolding route_check_def good_op_route_def first_err_Cons_None window_None
  by (auto simp: geometry_None package_time_case dest: reads_some)

lemma op_policy_None: "validate_policy p = None \<longleftrightarrow> good_op_policy p"
  by (cases "ap_min_days p"; cases "ap_max_days p"; cases "ap_expiry_seconds p")
     (auto simp: validate_policy_def good_op_policy_def first_err_Cons_None)

lemma signature_None: "signature_required verifier pkg = None \<longleftrightarrow> well_signed verifier pkg"
  by (auto simp: signature_required_def well_signed_def first_err_Cons_None split: option.splits)

lemma facility_None: "facility_check safe f = None \<longleftrightarrow> of_id f \<noteq> [] \<and> of_safe_zone f \<in> safe"
  by (auto simp: facility_check_def first_err_Cons_None)

lemma instruction_None: "instruction_check x = None \<longleftrightarrow> ia_id x \<noteq> [] \<and> ia_language x \<noteq> []"
  by (auto simp: instruction_check_def first_err_Cons_None)

lemmas package_checks_None =
  safe_zone_None route_None op_policy_None signature_None facility_None instruction_None

lemma identity_None:
  "identity_checks p = None \<longleftrightarrow> pv_evidence_class p \<in> set package_evidence_classes \<and> pv_dataset_id p \<noteq> []
     \<and> 1 \<le> pv_version p \<and> pv_jurisdiction p \<noteq> [] \<and> pv_authority p \<noteq> []"
  by (auto simp: identity_checks_def first_err_Cons_None)

lemma presence_None:
  "presence_checks pkg = None \<longleftrightarrow> op_alert pkg \<noteq> [] \<and> elems (op_red_zones pkg) \<noteq> [] \<and> elems (op_safe_zones pkg) \<noteq> []
     \<and> elems (op_routes pkg) \<noteq> [] \<and> elems (op_instructions pkg) \<noteq> [] \<and> elems (op_facilities pkg) \<noteq> []
     \<and> elems (ap_order (op_policy pkg)) \<noteq> [] \<and> elems (op_contacts pkg) \<noteq> []"
  by (simp add: presence_checks_def first_err_Cons_None)

lemma integrity_None:
  "integrity_checks lib expected need_sig verifier pkg effective expires = None \<longleftrightarrow> effective < expires
     \<and> length (pv_checksum (op_provenance pkg)) = 64 \<and> pv_checksum (op_provenance pkg) = p_digest lib (canonical_package lib pkg)
     \<and> (expected = [] \<or> pv_jurisdiction (op_provenance pkg) = expected) \<and> (need_sig \<longrightarrow> well_signed verifier pkg)"
  by (auto simp: integrity_checks_def first_err_Cons_None signature_None checksum_def Let_def)

lemma relation_None:
  "relation_checks lib pkg red safe = None \<longleftrightarrow> elems (ap_order (op_policy pkg)) = safe \<and> good_op_policy (op_policy pkg)
     \<and> (\<forall>z \<in> set (elems (op_safe_zones pkg)). good_op_zone z)
     \<and> (\<forall>r \<in> set (elems (op_routes pkg)). good_op_route lib (set red) (set safe) r)
     \<and> (\<forall>f \<in> set (elems (op_facilities pkg)). of_id f \<noteq> [] \<and> of_safe_zone f \<in> set safe)
     \<and> (\<forall>x \<in> set (elems (op_instructions pkg)). ia_id x \<noteq> [] \<and> ia_language x \<noteq> [])
     \<and> (\<forall>c \<in> set (elems (op_contacts pkg)). ec_number c \<noteq> [])"
  unfolding relation_checks_def first_err_Cons_None first_err_Nil_None each_err_None package_checks_None check_None
  by blast

lemma validate_package_steps:
  "validate_package lib expected need_sig verifier (Some pkg) = Inr v \<longleftrightarrow>
     (\<exists>effective expires. identity_checks (op_provenance pkg) = None
        \<and> reads_at lib (pv_effective_at (op_provenance pkg)) effective
        \<and> reads_at lib (pv_expires_at (op_provenance pkg)) expires
        \<and> integrity_checks lib expected need_sig verifier pkg effective expires = None \<and> presence_checks pkg = None
        \<and> ([] \<notin> set (map zn_id (elems (op_red_zones pkg))) \<and> distinct (map zn_id (elems (op_red_zones pkg))))
        \<and> ([] \<notin> set (map zn_id (elems (op_safe_zones pkg))) \<and> distinct (map zn_id (elems (op_safe_zones pkg))))
        \<and> ([] \<notin> set (map ro_id (elems (op_routes pkg))) \<and> distinct (map ro_id (elems (op_routes pkg))))
        \<and> relation_checks lib pkg (map zn_id (elems (op_red_zones pkg))) (map zn_id (elems (op_safe_zones pkg))) = None
        \<and> v = summary pkg effective expires)"
  unfolding validate_package_def option.case Let_def bind_res_Inr require_Inr ids_Inr package_time_Inr summary_def
  by (simp only: ex_simps simp_thms conj_assoc) (blast | simp)+

lemma validate_package_Inr:
  "validate_package lib expected need_sig verifier (Some pkg) = Inr v \<longleftrightarrow>
     (\<exists>effective expires. well_identified lib expected pkg effective expires \<and> v = summary pkg effective expires)
     \<and> (need_sig \<longrightarrow> well_signed verifier pkg) \<and> well_formed lib pkg"
proof -
  have o: "elems (ap_order (op_policy pkg)) = map zn_id (elems (op_safe_zones pkg)) \<Longrightarrow> elems (op_safe_zones pkg) \<noteq> []
      \<Longrightarrow> elems (ap_order (op_policy pkg)) \<noteq> []" by simp
  show ?thesis
    unfolding validate_package_steps identity_None integrity_None presence_None relation_None
      well_identified_def well_formed_def Let_def good_ids_def map_is_Nil_conv
    using o by blast
qed


section \<open>Properties\<close>

definition demo_package_lib :: package_lib where
  "demo_package_lib = \<lparr>p_rfc = demo_rfc, p_digest = (\<lambda>_. replicate 64 (CHR ''1'')), p_quote = simple_quote,
     p_float = (\<lambda>_. ''1''), raw_json = (\<lambda>_. Some JNull),
     line_string = (\<lambda>_. Some (''LineString'', [[FNum 0 0, FNum 0 0], [FNum 1 0, FNum 1 0]]))\<rparr>"

definition demo_package :: op_package where
  "demo_package =
     \<lparr>op_provenance = \<lparr>pv_dataset_id = ''d'', pv_evidence_class = ''SYNTHETIC_DEMO'', pv_version = 1, pv_jurisdiction = ''ka'',
        pv_authority = ''a'', pv_effective_at = ''t1'', pv_expires_at = ''t2'', pv_checksum = replicate 64 (CHR ''1''),
        pv_signature = Some \<lparr>sig_algorithm = ''Ed25519'', sig_key_id = ''k'', sig_value = ''v''\<rparr>\<rparr>,
      op_alert = ''alert'',
      op_red_zones = Some [\<lparr>zn_id = ''r'', zn_capacity = None, zn_location = [], zn_status = [], zn_role = []\<rparr>],
      op_safe_zones = Some [\<lparr>zn_id = ''z'', zn_capacity = Some 5, zn_location = [FNum 10 0, FNum 20 0], zn_status = ''OPEN'',
        zn_role = ''ASSEMBLY''\<rparr>],
      op_routes = Some [\<lparr>ro_id = ''w'', ro_from = ''r'', ro_to = ''z'', ro_approval = ''SYNTHETIC_DEMO'', ro_geometry = ''g'',
        ro_mode = ''FOOT'', ro_verified_by = [], ro_verified_at = [], ro_valid_from = ''t1'', ro_valid_until = ''t2''\<rparr>],
      op_instructions = Some [\<lparr>ia_id = ''i'', ia_language = ''en''\<rparr>],
      op_facilities = Some [\<lparr>of_id = ''f'', of_safe_zone = ''z''\<rparr>],
      op_policy = \<lparr>ap_order = Some [''z''], ap_expiry_seconds = Some 60, ap_min_days = Some 7, ap_max_days = Some 30,
        ap_walk_ins = None, ap_transfers = None, ap_route_required = Some True\<rparr>,
      op_contacts = Some [\<lparr>ec_name = ''c'', ec_number = ''112''\<rparr>]\<rparr>"

text \<open>C26: Validate accepts exactly the packages that are identified, intact and well formed: identity and
  authority present, an effective window that is one, the checksum of the canonical bytes, the expected
  jurisdiction, a verified signature when one is required; unique identifiers, an allocation order that
  lists every safe zone once and in order, safe zones with an explicit capacity and a position on the
  globe, routes from a red zone of the package to a safe zone of it, facilities in a safe zone of it.
  What it returns is the package's own identity, nothing inferred. A nil package is refused.\<close>

theorem package_validated_exactly:
  "(validate_package lib expected need_sig verifier (Some pkg) = Inr v) =
     ((\<exists>effective expires. well_identified lib expected pkg effective expires \<and> v = summary pkg effective expires)
      \<and> (need_sig \<longrightarrow> well_signed verifier pkg) \<and> well_formed lib pkg)
   \<and> isl (validate_package lib expected need_sig verifier None)"
  by (simp only: validate_package_Inr) (simp add: validate_package_def)

theorem package_validated_exactly_witness:
  "well_formed demo_package_lib demo_package
   \<and> isl (validate_package demo_package_lib ''ka'' True (Some (\<lambda>pkg g. False)) (Some demo_package))"
proof
  let ?v = "validate_package demo_package_lib ''ka'' True (Some (\<lambda>pkg g. True)) (Some demo_package)"
  have "isl ?v = False" by code_simp
  then obtain v where "?v = Inr v" by (cases ?v) simp_all
  then show "well_formed demo_package_lib demo_package"
    using package_validated_exactly [of demo_package_lib "''ka''" True "Some (\<lambda>pkg g. True)" demo_package v] by blast
  show "isl (validate_package demo_package_lib ''ka'' True (Some (\<lambda>pkg g. False)) (Some demo_package))" by code_simp
qed

end
