(* ===== verification/Publication.thy ===== *)
theory Publication
  imports Source_Store Json_Walk Offline_Card Delivery_Cache
begin

text \<open>
  The publication of manifests, cards and resources: store/publication.go, the trusted boundary
  store/publisher.go and the reading side httpserver/publication_adapter.go
  (backend/internal). Parsing, signatures and digests are those of the offline documents. The
  observer that is told after a commit is left out; the delivery cache has its own theory.
\<close>

section \<open>Data\<close>

text \<open>The structs PublishedManifest and PublishedCard: an empty source or jurisdiction is stored as NULL.\<close>

record publication =
  pm_manifest_id :: string
  pm_package :: string
  pm_number :: int
  pm_jurisdiction :: string
  pm_source :: string
  pm_raw :: string
  pm_checksum :: string
  pm_status :: string
  pm_quarantined :: bool

record publish_lib =
  manifest_docs :: "manifest doc_lib"
  card_docs :: "incident_card doc_lib"
  pub_rfc :: rfc
  pub_crypto :: crypto_lib
  pub_quote :: "string \<Rightarrow> string"
  pub_float :: "fnum \<Rightarrow> string"

definition manifest_limits :: limits where
  "manifest_limits = \<lparr>max_doc_bytes = 262144, max_depth = 0\<rparr>"

definition card_limits :: limits where
  "card_limits = \<lparr>max_doc_bytes = 65536, max_depth = 0\<rparr>"

definition read_manifest :: "publish_lib \<Rightarrow> string \<Rightarrow> off_error + manifest" where
  "read_manifest lib raw = parse_manifest (manifest_docs lib) (pub_rfc lib) raw manifest_limits"

definition read_card :: "publish_lib \<Rightarrow> string \<Rightarrow> off_error + incident_card" where
  "read_card lib raw = parse_card (card_docs lib) (pub_rfc lib) raw card_limits"

definition null :: "string \<Rightarrow> string option" where
  "null s = (if s = [] then None else Some s)"

definition manifest_row :: "publication \<Rightarrow> published_row" where
  "manifest_row m =
     \<lparr>pub_manifest_id = Some (pm_manifest_id m), pub_package = pm_package m, pub_number = pm_number m,
      pub_jurisdiction = Some (pm_jurisdiction m), pub_source = null (pm_source m), pub_raw = pm_raw m,
      pub_checksum = pm_checksum m, pub_status = pm_status m, pub_quarantined = pm_quarantined m\<rparr>"

definition card_row :: "publication \<Rightarrow> published_row" where
  "card_row c =
     \<lparr>pub_manifest_id = None, pub_package = pm_package c, pub_number = pm_number c,
      pub_jurisdiction = null (pm_jurisdiction c), pub_source = null (pm_source c), pub_raw = pm_raw c,
      pub_checksum = pm_checksum c, pub_status = pm_status c, pub_quarantined = pm_quarantined c\<rparr>"

section \<open>The tables\<close>

definition is_manifest :: "string \<Rightarrow> int \<Rightarrow> published_row \<Rightarrow> bool" where
  "is_manifest jur n r \<longleftrightarrow> pub_jurisdiction r = Some jur \<and> pub_number r = n"

definition is_card :: "string \<Rightarrow> int \<Rightarrow> published_row \<Rightarrow> bool" where
  "is_card pkg v r \<longleftrightarrow> pub_package r = pkg \<and> pub_number r = v"

definition add_manifest_row :: "published_row \<Rightarrow> db \<Rightarrow> st_error + db" where
  "add_manifest_row r d = require (first_err
     [check (list_ex (\<lambda>x. pub_manifest_id x = pub_manifest_id r) (published_manifests d)) (Violation ''published_manifests_pkey''),
      check (list_ex (\<lambda>x. pub_jurisdiction x = pub_jurisdiction r \<and> pub_number x = pub_number r) (published_manifests d))
        (Violation ''published_manifests_jurisdiction_revision_key''),
      check (pub_number r < 1) (Violation ''published_manifests_revision_check''),
      check (length (pub_checksum r) \<noteq> 64) (Violation ''published_manifests_checksum_sha256_check'')])
     (d\<lparr>published_manifests := published_manifests d @ [r]\<rparr>)"

definition add_card_row :: "published_row \<Rightarrow> db \<Rightarrow> st_error + db" where
  "add_card_row r d = require (first_err
     [check (list_ex (is_card (pub_package r) (pub_number r)) (published_cards d)) (Violation ''published_cards_pkey''),
      check (pub_number r < 1) (Violation ''published_cards_version_check''),
      check (length (pub_checksum r) \<noteq> 64) (Violation ''published_cards_checksum_sha256_check'')])
     (d\<lparr>published_cards := published_cards d @ [r]\<rparr>)"

definition update_rows :: "(published_row \<Rightarrow> bool) \<Rightarrow> (published_row \<Rightarrow> published_row) \<Rightarrow> published_row list \<Rightarrow> published_row list" where
  "update_rows P f rows = map (\<lambda>r. if P r then f r else r) rows"

text \<open>An update that must match a row.\<close>

definition update_manifest :: "string \<Rightarrow> int \<Rightarrow> (published_row \<Rightarrow> published_row) \<Rightarrow> db \<Rightarrow> st_error + db" where
  "update_manifest jur n f d = require
     (check (\<not> list_ex (is_manifest jur n) (published_manifests d)) ErrNotFound)
     (d\<lparr>published_manifests := update_rows (is_manifest jur n) f (published_manifests d)\<rparr>)"

definition update_card :: "string \<Rightarrow> int \<Rightarrow> (published_row \<Rightarrow> published_row) \<Rightarrow> db \<Rightarrow> st_error + db" where
  "update_card pkg v f d = require
     (check (\<not> list_ex (is_card pkg v) (published_cards d)) ErrNotFound)
     (d\<lparr>published_cards := update_rows (is_card pkg v) f (published_cards d)\<rparr>)"

definition quarantine_manifest :: "string \<Rightarrow> int \<Rightarrow> bool \<Rightarrow> db \<Rightarrow> st_error + db" where
  "quarantine_manifest jur n q d = update_manifest jur n (\<lambda>r. r\<lparr>pub_quarantined := q\<rparr>) d"

definition set_manifest_status :: "string \<Rightarrow> int \<Rightarrow> string \<Rightarrow> db \<Rightarrow> st_error + db" where
  "set_manifest_status jur n st d = update_manifest jur n (\<lambda>r. r\<lparr>pub_status := st\<rparr>) d"

definition quarantine_card :: "string \<Rightarrow> int \<Rightarrow> bool \<Rightarrow> db \<Rightarrow> st_error + db" where
  "quarantine_card pkg v q d = update_card pkg v (\<lambda>r. r\<lparr>pub_quarantined := q\<rparr>) d"

definition set_card_status :: "string \<Rightarrow> int \<Rightarrow> string \<Rightarrow> db \<Rightarrow> st_error + db" where
  "set_card_status pkg v st d = update_card pkg v (\<lambda>r. r\<lparr>pub_status := st\<rparr>) d"

text \<open>The manifest of a jurisdiction: a current one first, then the highest revision; staged ones never.\<close>

definition get_published_manifest :: "db \<Rightarrow> string \<Rightarrow> st_error + published_row" where
  "get_published_manifest d jur =
     (case sort_key (\<lambda>r. if pub_status r = ''CURRENT'' then 0 else 1 :: nat)
             (sort_key (\<lambda>r. - pub_number r)
               (filter (\<lambda>r. pub_jurisdiction r = Some jur \<and> pub_status r \<noteq> ''STAGED'') (published_manifests d))) of
        [] \<Rightarrow> Inl ErrNotFound
      | r # _ \<Rightarrow> Inr r)"

definition get_published_card :: "db \<Rightarrow> string \<Rightarrow> int \<Rightarrow> st_error + published_row" where
  "get_published_card d pkg v =
     (case find (is_card pkg v) (published_cards d) of None \<Rightarrow> Inl ErrNotFound | Some r \<Rightarrow> Inr r)"

section \<open>Publishing without the trust store\<close>

definition or_current :: "string \<Rightarrow> string" where
  "or_current s = (if s = [] then ''CURRENT'' else s)"

text \<open>An existing row must have the same content; its metadata is updated.\<close>

definition retry_metadata ::
  "published_row \<Rightarrow> publication \<Rightarrow> ((published_row \<Rightarrow> published_row) \<Rightarrow> db) \<Rightarrow> db \<Rightarrow> st_error + db"
where
  "retry_metadata e m upd d =
     (if pub_checksum e \<noteq> pm_checksum m \<or> pub_raw e \<noteq> pm_raw m then Inl ErrConflict
      else if pub_quarantined e \<noteq> pm_quarantined m \<or> pub_status e \<noteq> pm_status m
      then Inr (upd (\<lambda>r. r\<lparr>pub_quarantined := pm_quarantined m, pub_status := pm_status m\<rparr>))
      else Inr d)"

definition store_publish_manifest :: "publish_lib \<Rightarrow> publication option \<Rightarrow> db \<Rightarrow> st_error + db" where
  "store_publish_manifest lib mo d =
     (case mo of
        None \<Rightarrow> Inl (StErr (plain ''store: manifest is nil''))
      | Some m \<Rightarrow>
     bind_res (require (first_err
         [check (pm_manifest_id m = []) (StErr (plain ''store: manifest_id required'')),
          check (pm_jurisdiction m = []) (StErr (plain ''store: jurisdiction required'')),
          check (pm_number m < 1) (StErr (plain ''store: revision must be >= 1'')),
          check (pm_package m = []) (StErr (plain ''store: package_id required'')),
          check (pm_raw m = []) (StErr (plain ''store: raw_json required'')),
          check (262144 < length (pm_raw m)) (StErr (plain ''store: raw_json exceeds 256 KiB ceiling'')),
          check (length (pm_checksum m) \<noteq> 64) (StErr (plain ''store: invalid checksum length''))]) ()) (\<lambda>_.
     case read_manifest lib (pm_raw m) of
       Inl e \<Rightarrow> Inl (StErr (Fmt ''store: parse manifest json: %w'' [AMsg (snd e)]))
     | Inr p \<Rightarrow>
         if mf_checksum p \<noteq> pm_checksum m
         then Inl (StErr (Fmt ''store: manifest checksum mismatch: payload has %q, record has %q''
                     [AStr (mf_checksum p), AStr (pm_checksum m)]))
         else let m' = m\<lparr>pm_status := or_current (pm_status m)\<rparr>; P = is_manifest (pm_jurisdiction m) (pm_number m)
              in case find P (published_manifests d) of
                   Some e \<Rightarrow> retry_metadata e m'
                     (\<lambda>f. d\<lparr>published_manifests := update_rows P f (published_manifests d)\<rparr>) d
                 | None \<Rightarrow> add_manifest_row (manifest_row m') d))"

definition store_publish_card :: "publish_lib \<Rightarrow> publication option \<Rightarrow> db \<Rightarrow> st_error + db" where
  "store_publish_card lib co d =
     (case co of
        None \<Rightarrow> Inl (StErr (plain ''store: card is nil''))
      | Some c \<Rightarrow>
     bind_res (require (first_err
         [check (pm_package c = []) (StErr (plain ''store: package_id required'')),
          check (pm_number c < 1) (StErr (plain ''store: version must be >= 1'')),
          check (pm_raw c = []) (StErr (plain ''store: raw_json required'')),
          check (65536 < length (pm_raw c)) (StErr (plain ''store: raw_json exceeds 64 KiB ceiling'')),
          check (length (pm_checksum c) \<noteq> 64) (StErr (plain ''store: invalid checksum length''))]) ()) (\<lambda>_.
     case read_card lib (pm_raw c) of
       Inl e \<Rightarrow> Inl (StErr (Fmt ''store: parse card json: %w'' [AMsg (snd e)]))
     | Inr p \<Rightarrow>
         if ic_checksum p \<noteq> pm_checksum c
         then Inl (StErr (Fmt ''store: card checksum mismatch: payload has %q, record has %q''
                     [AStr (ic_checksum p), AStr (pm_checksum c)]))
         else let c' = c\<lparr>pm_status := or_current (pm_status c),
                         pm_jurisdiction := (if pm_jurisdiction c = [] then ic_jurisdiction p else pm_jurisdiction c)\<rparr>;
                  P = is_card (pm_package c) (pm_number c)
              in case find P (published_cards d) of
                   Some e \<Rightarrow> retry_metadata e c' (\<lambda>f. d\<lparr>published_cards := update_rows P f (published_cards d)\<rparr>) d
                 | None \<Rightarrow> add_card_row (card_row c') d))"

definition publish_resource :: "crypto_lib \<Rightarrow> (string \<times> resource_row) option \<Rightarrow> db \<Rightarrow> st_error + db" where
  "publish_resource crypto ro d =
     (case ro of
        None \<Rightarrow> Inl (StErr (plain ''store: resource is nil''))
      | Some (rid, r) \<Rightarrow>
     bind_res (require (first_err
         [check (rid = []) (StErr (plain ''store: resource_id required'')),
          check (rs_content_type r = []) (StErr (plain ''store: content_type required'')),
          check (rs_content r = []) (StErr (plain ''store: content required'')),
          check (rs_length r \<noteq> int (length (rs_content r))) (StErr (plain ''store: content_length mismatch'')),
          check (length (rs_checksum r) \<noteq> 64) (StErr (plain ''store: invalid checksum length'')),
          check (digest_hex crypto (rs_content r) \<noteq> rs_checksum r)
            (StErr (Fmt ''store: resource checksum mismatch: computed %q, declared %q''
               [AStr (digest_hex crypto (rs_content r)), AStr (rs_checksum r)]))]) ()) (\<lambda>_.
     case get (published_resources d) rid of
       Some e \<Rightarrow> if rs_checksum e \<noteq> rs_checksum r \<or> rs_content e \<noteq> rs_content r then Inl ErrConflict else Inr d
     | None \<Rightarrow> Inr (d\<lparr>published_resources := put rid r (published_resources d)\<rparr>)))"

definition get_published_resource :: "db \<Rightarrow> string \<Rightarrow> st_error + resource_row" where
  "get_published_resource d rid = (case get (published_resources d) rid of None \<Rightarrow> Inl ErrNotFound | Some r \<Rightarrow> Inr r)"


section \<open>The trusted publisher\<close>

definition lookup_failed :: "string \<Rightarrow> msg" where
  "lookup_failed what = Fmt what [AMsg (plain ''sql: no rows in result set'')]"

definition source_publishes :: "db \<Rightarrow> string \<Rightarrow> st_error option" where
  "source_publishes d sid =
     (case get (sources d) sid of
        None \<Rightarrow> Some (ErrPublicationAuthority (lookup_failed ''source lookup: %v''))
      | Some s \<Rightarrow>
          if state s = Operational then None
          else if state s = Quarantined then Some (ErrPublicationAuthority (plain ''source is QUARANTINED''))
          else Some (ErrPublicationAuthority (Fmt ''source state=%q (must be OPERATIONAL)'' [AStr (source_text (state s))])))"

definition in_force :: "time \<Rightarrow> package_row \<Rightarrow> bool" where
  "in_force now p \<longleftrightarrow> effective_at p \<le> now \<and> now < pkg_expires p"

text \<open>The row of a publish: none yet, or the same content.\<close>

definition same_content :: "publication \<Rightarrow> string \<Rightarrow> published_row \<Rightarrow> bool" where
  "same_content m chk r \<longleftrightarrow> pub_checksum r = chk \<and> pub_raw r = pm_raw m"

definition manifest_authority :: "publication \<Rightarrow> string \<Rightarrow> time \<Rightarrow> db \<Rightarrow> st_error option" where
  "manifest_authority m pkg now d = first_err
     [source_publishes d (pm_source m),
      check (\<not> has_authorization d (pm_source m) (pm_jurisdiction m) now)
        (ErrPublicationAuthority (Fmt ''no live jurisdiction authorization for %q'' [AStr (pm_jurisdiction m)])),
      check (\<not> (case get (packages d) pkg of
                 None \<Rightarrow> False
               | Some p \<Rightarrow> pkg_source p = pm_source m \<and> superseded_by p = None \<and> in_force now p))
        (ErrPublicationAuthority (Fmt ''no current package %q for source %q: %v''
           [AStr pkg, AStr (pm_source m), AMsg (plain ''sql: no rows in result set'')]))]"

definition manifest_identity :: "publication \<Rightarrow> manifest \<Rightarrow> st_error option" where
  "manifest_identity m p = first_err
     [check (mf_jurisdiction p \<noteq> pm_jurisdiction m) (ErrPublicationIdentityMismatch
        (Fmt ''jurisdiction signed=%q record=%q'' [AStr (mf_jurisdiction p), AStr (pm_jurisdiction m)])),
      check (mf_revision p \<noteq> pm_number m) (ErrPublicationIdentityMismatch
        (Fmt ''revision signed=%d record=%d'' [AInt (mf_revision p), AInt (pm_number m)])),
      check (mf_manifest_id p \<noteq> pm_manifest_id m) (ErrPublicationIdentityMismatch
        (Fmt ''manifest_id signed=%q record=%q'' [AStr (mf_manifest_id p), AStr (pm_manifest_id m)])),
      check (pm_package m \<noteq> [] \<and> cd_package_id (mf_critical_card p) \<noteq> pm_package m) (ErrPublicationIdentityMismatch
        (Fmt ''package_id signed=%q record=%q'' [AStr (cd_package_id (mf_critical_card p)), AStr (pm_package m)])),
      check (mf_checksum p = []) (ErrPublicationIdentityMismatch (plain ''verified manifest has no checksum''))]"

definition publish_manifest ::
  "publish_lib \<Rightarrow> trust_keys option \<Rightarrow> publication option \<Rightarrow> time \<Rightarrow> db \<Rightarrow> st_error + db"
where
  "publish_manifest lib tso mo now d =
     (case tso of None \<Rightarrow> Inl ErrPublicationTrustMissing | Some ts \<Rightarrow>
     (case mo of None \<Rightarrow> Inl (StErr (plain ''store: manifest is nil'')) | Some m \<Rightarrow>
     bind_res (require (first_err
         [check (pm_manifest_id m = [] \<or> pm_jurisdiction m = [] \<or> pm_number m < 1 \<or> pm_raw m = [])
            (StErr (plain ''store: invalid manifest metadata'')),
          check (262144 < length (pm_raw m)) (StErr (plain ''store: raw_json exceeds 256 KiB ceiling'')),
          check (pm_source m = []) (ErrPublicationIdentityMismatch (plain ''source_id required for trusted publication''))]) ()) (\<lambda>_.
     case read_manifest lib (pm_raw m) of
       Inl e \<Rightarrow> Inl (StErr (Fmt ''store: parse manifest json: %w'' [AMsg (snd e)]))
     | Inr p \<Rightarrow>
     (case verify_manifest (pub_crypto lib) (pub_quote lib) (pub_rfc lib) (verify_signature (pub_crypto lib) ts) (Some p) of
        Some e \<Rightarrow> Inl (StErr (Fmt ''store: trusted publish: %w'' [AMsg (snd e)]))
      | None \<Rightarrow>
     let pkg = cd_package_id (mf_critical_card p) in
     bind_res (require (manifest_identity m p) ()) (\<lambda>_.
     bind_res (require (manifest_authority m pkg now d) ()) (\<lambda>_.
     case find (is_manifest (pm_jurisdiction m) (pm_number m)) (published_manifests d) of
       Some r \<Rightarrow> if same_content m (mf_checksum p) r then Inr d else Inl ErrConflict
     | None \<Rightarrow> add_manifest_row (manifest_row (m\<lparr>pm_package := pkg, pm_checksum := mf_checksum p,
                 pm_status := ''STAGED'', pm_quarantined := False\<rparr>)) d))))))"

definition card_identity :: "publication \<Rightarrow> incident_card \<Rightarrow> st_error option" where
  "card_identity c p = first_err
     [check (ic_package_id p \<noteq> pm_package c) (ErrPublicationIdentityMismatch
        (Fmt ''package_id signed=%q record=%q'' [AStr (ic_package_id p), AStr (pm_package c)])),
      check (ic_version p \<noteq> pm_number c) (ErrPublicationIdentityMismatch
        (Fmt ''version signed=%d record=%d'' [AInt (ic_version p), AInt (pm_number c)])),
      check (ic_jurisdiction p \<noteq> [] \<and> pm_jurisdiction c \<noteq> [] \<and> ic_jurisdiction p \<noteq> pm_jurisdiction c)
        (ErrPublicationIdentityMismatch
          (Fmt ''jurisdiction signed=%q record=%q'' [AStr (ic_jurisdiction p), AStr (pm_jurisdiction c)])),
      check (ic_checksum p = []) (ErrPublicationIdentityMismatch (plain ''verified card has no checksum''))]"

text \<open>The gates on the package of a card; what passes is the jurisdiction of the package.\<close>

definition card_package :: "publication \<Rightarrow> string \<Rightarrow> time \<Rightarrow> db \<Rightarrow> st_error + string" where
  "card_package c jur now d =
     (case get (packages d) (pm_package c) of
        None \<Rightarrow> Inl (ErrPublicationAuthority (lookup_failed ''package lookup: %v''))
      | Some p \<Rightarrow> require (first_err
          [check (superseded_by p \<noteq> None) (ErrPublicationAuthority (Fmt ''package %q is superseded'' [AStr (pm_package c)])),
           check (\<not> in_force now p)
             (ErrPublicationAuthority (Fmt ''package %q is expired or not yet effective'' [AStr (pm_package c)])),
           check (pkg_version p \<noteq> pm_number c) (ErrPublicationAuthority
             (Fmt ''package version %d does not match card version %d'' [AInt (pkg_version p), AInt (pm_number c)])),
           check (pkg_source p \<noteq> pm_source c) (ErrPublicationAuthority
             (Fmt ''package source=%q does not match card source=%q'' [AStr (pkg_source p), AStr (pm_source c)])),
           check (jur \<noteq> [] \<and> pkg_jurisdiction p \<noteq> jur) (ErrPublicationAuthority
             (Fmt ''package jurisdiction=%q does not match card jurisdiction=%q'' [AStr (pkg_jurisdiction p), AStr jur]))])
          (pkg_jurisdiction p))"

definition signed_jurisdiction :: "publication \<Rightarrow> incident_card \<Rightarrow> string" where
  "signed_jurisdiction c p = (if pm_jurisdiction c = [] then ic_jurisdiction p else pm_jurisdiction c)"

definition publish_card ::
  "publish_lib \<Rightarrow> trust_keys option \<Rightarrow> publication option \<Rightarrow> time \<Rightarrow> db \<Rightarrow> st_error + db"
where
  "publish_card lib tso co now d =
     (case tso of None \<Rightarrow> Inl ErrPublicationTrustMissing | Some ts \<Rightarrow>
     (case co of None \<Rightarrow> Inl (StErr (plain ''store: card is nil'')) | Some c \<Rightarrow>
     bind_res (require (first_err
         [check (pm_package c = [] \<or> pm_number c < 1 \<or> pm_raw c = []) (StErr (plain ''store: invalid card metadata'')),
          check (65536 < length (pm_raw c)) (StErr (plain ''store: raw_json exceeds 64 KiB ceiling'')),
          check (pm_source c = []) (ErrPublicationIdentityMismatch (plain ''source_id required for trusted publication''))]) ()) (\<lambda>_.
     case read_card lib (pm_raw c) of
       Inl e \<Rightarrow> Inl (StErr (Fmt ''store: parse card json: %w'' [AMsg (snd e)]))
     | Inr p \<Rightarrow>
     (case verify_card (pub_crypto lib) (pub_quote lib) (pub_float lib) (pub_rfc lib)
             (verify_signature (pub_crypto lib) ts) (Some p) of
        Some e \<Rightarrow> Inl (StErr (Fmt ''store: trusted publish: %w'' [AMsg (snd e)]))
      | None \<Rightarrow>
     bind_res (require (card_identity c p) ()) (\<lambda>_.
     bind_res (require (source_publishes d (pm_source c)) ()) (\<lambda>_.
     bind_res (card_package c (signed_jurisdiction c p) now d) (\<lambda>pjur.
     bind_res (require (check (\<not> has_authorization d (pm_source c) pjur now)
         (ErrPublicationAuthority (Fmt ''no live jurisdiction authorization for %q'' [AStr pjur]))) ()) (\<lambda>_.
     case find (is_card (pm_package c) (pm_number c)) (published_cards d) of
       Some r \<Rightarrow> if same_content c (ic_checksum p) r then Inr d else Inl ErrConflict
     | None \<Rightarrow> add_card_row ((card_row (c\<lparr>pm_checksum := ic_checksum p, pm_status := ''STAGED'', pm_quarantined := False\<rparr>))
                 \<lparr>pub_jurisdiction := Some pjur\<rparr>) d))))))))"

section \<open>Promotion\<close>

text \<open>The gates shared by the promotions, before the tables are read.\<close>

definition promotion_row_checks :: "string \<Rightarrow> published_row \<Rightarrow> st_error option" where
  "promotion_row_checks what r = first_err
     [check (pub_quarantined r) (StErr (Fmt ''store: cannot promote quarantined %s'' [AStr what])),
      check (pub_status r = ''WITHDRAWN'') (StErr (Fmt ''store: cannot promote withdrawn %s'' [AStr what]))]"

definition source_promotes :: "db \<Rightarrow> string \<Rightarrow> st_error option" where
  "source_promotes d sid =
     (case get (sources d) sid of
        None \<Rightarrow> Some (ErrPublicationAuthority (lookup_failed ''source lookup: %v''))
      | Some s \<Rightarrow> check (state s \<noteq> Operational)
          (ErrPublicationAuthority (Fmt ''source state is %q (must be OPERATIONAL)'' [AStr (source_text (state s))])))"

definition authorization_live :: "db \<Rightarrow> string \<Rightarrow> string \<Rightarrow> time \<Rightarrow> st_error option" where
  "authorization_live d sid jur now = check (\<not> has_authorization d sid jur now)
     (ErrPublicationAuthority (Fmt ''no live authorization for %q'' [AStr jur]))"

definition package_promotes :: "string \<Rightarrow> package_row \<Rightarrow> time \<Rightarrow> st_error option" where
  "package_promotes pid p now = first_err
     [check (superseded_by p \<noteq> None) (ErrPublicationAuthority (Fmt ''package %q is superseded'' [AStr pid])),
      check (\<not> in_force now p) (ErrPublicationAuthority (Fmt ''package %q is expired or not yet effective'' [AStr pid]))]"

text \<open>The card that the manifest names, when the stored text parses.\<close>

definition critical_card_check :: "publish_lib \<Rightarrow> published_row \<Rightarrow> package_row \<Rightarrow> st_error option" where
  "critical_card_check lib r p =
     (if pub_raw r = [] then None
      else case read_manifest lib (pub_raw r) of
             Inl e \<Rightarrow> None
           | Inr m \<Rightarrow> first_err
               [check (cd_package_id (mf_critical_card m) \<noteq> pub_package r) (ErrPublicationAuthority
                  (Fmt ''manifest critical_card package_id %q does not match manifest package_id %q''
                     [AStr (cd_package_id (mf_critical_card m)), AStr (pub_package r)])),
                check (cd_version (mf_critical_card m) \<noteq> pkg_version p) (ErrPublicationAuthority
                  (Fmt ''manifest critical_card version %d does not match package version %d''
                     [AInt (cd_version (mf_critical_card m)), AInt (pkg_version p)]))])"

definition attributed :: "published_row \<Rightarrow> string option" where
  "attributed r = (case pub_source r of None \<Rightarrow> None | Some s \<Rightarrow> if trim_space s = [] then None else Some s)"

text \<open>Lower current rows of the group become superseded, the row itself current.\<close>

definition make_current ::
  "(published_row \<Rightarrow> bool) \<Rightarrow> (published_row \<Rightarrow> bool) \<Rightarrow> int \<Rightarrow> published_row list \<Rightarrow> published_row list"
where
  "make_current grp this n rows =
     update_rows this (\<lambda>r. r\<lparr>pub_status := ''CURRENT''\<rparr>)
       (update_rows (\<lambda>r. grp r \<and> pub_number r < n \<and> pub_status r = ''CURRENT'')
          (\<lambda>r. r\<lparr>pub_status := ''SUPERSEDED''\<rparr>) rows)"

definition promote_manifest :: "publish_lib \<Rightarrow> string \<Rightarrow> int \<Rightarrow> time \<Rightarrow> db \<Rightarrow> st_error + db" where
  "promote_manifest lib jur n now d =
     (case find (is_manifest jur n) (published_manifests d) of
        None \<Rightarrow> Inl ErrNotFound
      | Some r \<Rightarrow>
     bind_res (require (promotion_row_checks ''manifest'' r) ()) (\<lambda>_.
     if pub_status r = ''CURRENT'' then Inr d
     else case attributed r of
       None \<Rightarrow> Inl (ErrPublicationAuthority (plain ''cannot promote unattributed manifest: source_id required''))
     | Some sid \<Rightarrow>
     bind_res (require (first_err [source_promotes d sid, authorization_live d sid jur now]) ()) (\<lambda>_.
     case get (packages d) (pub_package r) of
       None \<Rightarrow> Inl (ErrPublicationAuthority (lookup_failed ''package lookup: %v''))
     | Some p \<Rightarrow> require (first_err
         [check (pkg_source p \<noteq> sid) (ErrPublicationAuthority (lookup_failed ''package lookup: %v'')),
          package_promotes (pub_package r) p now, critical_card_check lib r p])
         (d\<lparr>published_manifests := make_current (\<lambda>x. pub_jurisdiction x = Some jur) (is_manifest jur n) n
              (published_manifests d)\<rparr>))))"

definition promote_card :: "string \<Rightarrow> int \<Rightarrow> time \<Rightarrow> db \<Rightarrow> st_error + db" where
  "promote_card pkg v now d =
     (case find (is_card pkg v) (published_cards d) of
        None \<Rightarrow> Inl ErrNotFound
      | Some r \<Rightarrow>
     bind_res (require (promotion_row_checks ''card'' r) ()) (\<lambda>_.
     if pub_status r = ''CURRENT'' then Inr d
     else case attributed r of
       None \<Rightarrow> Inl (ErrPublicationAuthority (plain ''cannot promote unattributed card: source_id required''))
     | Some sid \<Rightarrow>
     let jur = (case pub_jurisdiction r of None \<Rightarrow> [] | Some j \<Rightarrow> j) in
     bind_res (require (first_err
         [source_promotes d sid, (if jur = [] then None else authorization_live d sid jur now)]) ()) (\<lambda>_.
     case get (packages d) pkg of
       None \<Rightarrow> Inl (ErrPublicationAuthority (lookup_failed ''package lookup: %v''))
     | Some p \<Rightarrow> require (first_err
         [check (pkg_source p \<noteq> sid) (ErrPublicationAuthority (lookup_failed ''package lookup: %v'')),
          check (pkg_version p \<noteq> v) (ErrPublicationAuthority
            (Fmt ''card version %d does not match package version %d'' [AInt v, AInt (pkg_version p)])),
          check (jur \<noteq> [] \<and> pkg_jurisdiction p \<noteq> jur) (ErrPublicationAuthority
            (Fmt ''package jurisdiction %q does not match card jurisdiction %q'' [AStr (pkg_jurisdiction p), AStr jur])),
          package_promotes pkg p now])
         (d\<lparr>published_cards := make_current (\<lambda>x. pub_package x = pkg) (is_card pkg v) v (published_cards d)\<rparr>))))"

section \<open>Withdrawal\<close>

definition withdraw_manifest :: "string \<Rightarrow> int \<Rightarrow> db \<Rightarrow> st_error + db" where
  "withdraw_manifest jur n d = set_manifest_status jur n ''WITHDRAWN'' d"

definition withdraw_card :: "string \<Rightarrow> int \<Rightarrow> db \<Rightarrow> st_error + db" where
  "withdraw_card pkg v d = set_card_status pkg v ''WITHDRAWN'' d"


section \<open>What the delivery reads\<close>

text \<open>The errors of offlinedelivery that the adapter answers with.\<close>

datatype source_error = SrcNotFound | SrcQuarantined | SrcFailed st_error

definition adapt :: "st_error + published_row \<Rightarrow> source_error + published_row" where
  "adapt res =
     (case res of
        Inl e \<Rightarrow> Inl (if e = ErrNotFound then SrcNotFound else SrcFailed e)
      | Inr r \<Rightarrow> if pub_quarantined r then Inl SrcQuarantined
                 else if pub_status r \<noteq> ''CURRENT'' then Inl SrcNotFound else Inr r)"

definition adapter_get_manifest :: "db \<Rightarrow> string \<Rightarrow> source_error + manifest_record" where
  "adapter_get_manifest d jur = map_sum id (\<lambda>r.
     \<lparr>mr_jurisdiction = (case pub_jurisdiction r of None \<Rightarrow> [] | Some j \<Rightarrow> j), mr_revision = pub_number r, mr_raw = pub_raw r,
      mr_checksum = pub_checksum r, mr_status = pub_status r\<rparr>) (adapt (get_published_manifest d jur))"

definition adapter_get_card :: "db \<Rightarrow> string \<Rightarrow> int \<Rightarrow> source_error + card_record" where
  "adapter_get_card d pkg v = map_sum id (\<lambda>r.
     \<lparr>cr_package_id = pub_package r, cr_version = pub_number r, cr_raw = pub_raw r, cr_checksum = pub_checksum r,
      cr_status = pub_status r\<rparr>) (adapt (get_published_card d pkg v))"

definition adapter_get_resource :: "db \<Rightarrow> string \<Rightarrow> source_error + resource_row" where
  "adapter_get_resource d rid =
     (case get_published_resource d rid of
        Inl e \<Rightarrow> Inl (if e = ErrNotFound then SrcNotFound else SrcFailed e)
      | Inr r \<Rightarrow> Inr r)"

section \<open>Runs of the trusted boundary\<close>

datatype pub_event =
  PeManifest "trust_keys option" "publication option" time
| PeCard "trust_keys option" "publication option" time
| PePromoteManifest string int time
| PePromoteCard string int time
| PeWithdrawManifest string int
| PeWithdrawCard string int
| PeQuarantineManifest string int
| PeQuarantineCard string int
| PeResource "(string \<times> resource_row) option"
| PeSource "sql_lib option" string int src_state string string string time

definition kept :: "st_error + db \<Rightarrow> db \<Rightarrow> db" where
  "kept res d = (case res of Inl e \<Rightarrow> d | Inr d' \<Rightarrow> d')"

fun pub_op :: "publish_lib \<Rightarrow> pub_event \<Rightarrow> db \<Rightarrow> st_error + db" where
  "pub_op lib (PeManifest ts m now) d = publish_manifest lib ts m now d"
| "pub_op lib (PeCard ts c now) d = publish_card lib ts c now d"
| "pub_op lib (PePromoteManifest j n now) d = promote_manifest lib j n now d"
| "pub_op lib (PePromoteCard p v now) d = promote_card p v now d"
| "pub_op lib (PeWithdrawManifest j n) d = withdraw_manifest j n d"
| "pub_op lib (PeWithdrawCard p v) d = withdraw_card p v d"
| "pub_op lib (PeQuarantineManifest j n) d = quarantine_manifest j n True d"
| "pub_op lib (PeQuarantineCard p v) d = quarantine_card p v True d"
| "pub_op lib (PeResource r) d = publish_resource (pub_crypto lib) r d"
| "pub_op lib (PeSource sink sid v target actor rsn eid now) d = transition_source sink sid v target actor rsn eid now d"

definition pub_step :: "publish_lib \<Rightarrow> db \<Rightarrow> pub_event \<Rightarrow> db" where
  "pub_step lib d e = kept (pub_op lib e d) d"

section \<open>How the tables grow\<close>

definition content_of :: "published_row \<Rightarrow> published_row" where
  "content_of r = r\<lparr>pub_status := [], pub_quarantined := False\<rparr>"

definition dead :: "published_row \<Rightarrow> bool" where
  "dead r \<longleftrightarrow> pub_quarantined r \<or> pub_status r = ''WITHDRAWN''"

definition keeps :: "published_row list \<Rightarrow> (published_row \<Rightarrow> published_row) \<Rightarrow> bool" where
  "keeps rows f \<longleftrightarrow> (\<forall>r \<in> set rows. content_of (f r) = content_of r \<and> (dead r \<longrightarrow> dead (f r)))"

definition grows :: "(published_row \<Rightarrow> bool) \<Rightarrow> published_row list \<Rightarrow> published_row list \<Rightarrow> bool" where
  "grows Q rows rows' \<longleftrightarrow> (\<exists>f ext. keeps rows f \<and> rows' = map f rows @ ext \<and> (\<forall>r \<in> set ext. Q (content_of r)))"

lemma content_idem [simp]: "content_of (content_of r) = content_of r"
  by (simp add: content_of_def)

lemma content_fields:
  assumes "content_of r = content_of r'"
  shows "pub_manifest_id r = pub_manifest_id r'" "pub_package r = pub_package r'" "pub_number r = pub_number r'"
    "pub_jurisdiction r = pub_jurisdiction r'" "pub_source r = pub_source r'" "pub_raw r = pub_raw r'"
    "pub_checksum r = pub_checksum r'"
proof -
  have "g (content_of r) = g (content_of r')" for g :: "published_row \<Rightarrow> 'a" using assms by simp
  show "pub_manifest_id r = pub_manifest_id r'" "pub_package r = pub_package r'" "pub_number r = pub_number r'"
    "pub_jurisdiction r = pub_jurisdiction r'" "pub_source r = pub_source r'" "pub_raw r = pub_raw r'"
    "pub_checksum r = pub_checksum r'"
    using assms by (cases r; cases r'; simp add: content_of_def)+
qed

lemma grows_same [simp]: "grows Q rows rows"
  unfolding grows_def by (intro exI [of _ id] exI [of _ "[]"]) (simp add: keeps_def)

lemma grows_map: "keeps rows f \<Longrightarrow> grows Q rows (map f rows)"
  unfolding grows_def by (intro exI [of _ f] exI [of _ "[]"]) simp

lemma grows_append: "Q (content_of r) \<Longrightarrow> grows Q rows (rows @ [r])"
  unfolding grows_def by (intro exI [of _ id] exI [of _ "[r]"]) (simp add: keeps_def)

lemma grows_trans:
  assumes "grows Q rows rows'" and "grows Q rows' rows''"
  shows "grows Q rows rows''"
proof -
  obtain f ext where f: "keeps rows f" "rows' = map f rows @ ext" "\<forall>r \<in> set ext. Q (content_of r)"
    using assms(1) unfolding grows_def by blast
  obtain g ext' where g: "keeps rows' g" "rows'' = map g rows' @ ext'" "\<forall>r \<in> set ext'. Q (content_of r)"
    using assms(2) unfolding grows_def by blast
  show ?thesis
    unfolding grows_def using f g
    by (intro exI [of _ "g \<circ> f"] exI [of _ "map g ext @ ext'"]) (auto simp: keeps_def)
qed

lemma grows_mono: "grows Q rows rows' \<Longrightarrow> (\<And>r. Q r \<Longrightarrow> Q' r) \<Longrightarrow> grows Q' rows rows'"
  unfolding grows_def by blast

lemma update_grows: "(\<And>r. P r \<Longrightarrow> content_of (f r) = content_of r \<and> (dead r \<longrightarrow> dead (f r))) \<Longrightarrow> grows Q rows (update_rows P f rows)"
  unfolding update_rows_def by (rule grows_map) (auto simp: keeps_def)

lemma grows_all:
  assumes "grows Q rows rows'" and "\<And>r. r \<in> set rows \<Longrightarrow> Q (content_of r)"
  shows "r \<in> set rows' \<Longrightarrow> Q (content_of r)"
  using assms unfolding grows_def keeps_def by fastforce

definition manifest_key :: "published_row \<Rightarrow> string option \<times> int" where
  "manifest_key r = (pub_jurisdiction r, pub_number r)"

definition card_row_key :: "published_row \<Rightarrow> string \<times> int" where
  "card_row_key r = (pub_package r, pub_number r)"

definition tables_ok :: "db \<Rightarrow> bool" where
  "tables_ok d \<longleftrightarrow> distinct (map manifest_key (published_manifests d)) \<and> distinct (map card_row_key (published_cards d))"

lemma keys_of_content:
  "content_of r = content_of r' \<Longrightarrow> manifest_key r = manifest_key r'" "content_of r = content_of r' \<Longrightarrow> card_row_key r = card_row_key r'"
  by (auto simp: manifest_key_def card_row_key_def dest: content_fields)

lemma keeps_keys:
  "keeps rows f \<Longrightarrow> map manifest_key (map f rows) = map manifest_key rows"
  "keeps rows f \<Longrightarrow> map card_row_key (map f rows) = map card_row_key rows"
  by (auto simp: keeps_def intro: keys_of_content)

lemma same_row:
  assumes "distinct (map k rows)" "r \<in> set rows" "r' \<in> set rows" "k r = k r'"
  shows "r = r'"
  using assms by (metis distinct_map inj_onD)


section \<open>What each operation does to the tables\<close>

definition signed_manifest :: "publish_lib \<Rightarrow> pub_event set \<Rightarrow> published_row \<Rightarrow> bool" where
  "signed_manifest lib E r \<longleftrightarrow> (\<exists>ts m now p. PeManifest (Some ts) (Some m) now \<in> E \<and> read_manifest lib (pub_raw r) = Inr p
     \<and> verify_manifest (pub_crypto lib) (pub_quote lib) (pub_rfc lib) (verify_signature (pub_crypto lib) ts) (Some p) = None
     \<and> pub_manifest_id r = Some (mf_manifest_id p) \<and> pub_package r = cd_package_id (mf_critical_card p)
     \<and> pub_number r = mf_revision p \<and> pub_jurisdiction r = Some (mf_jurisdiction p)
     \<and> pub_source r = Some (pm_source m) \<and> pub_checksum r = mf_checksum p)"

definition signed_card :: "publish_lib \<Rightarrow> pub_event set \<Rightarrow> published_row \<Rightarrow> bool" where
  "signed_card lib E r \<longleftrightarrow> (\<exists>ts c now p. PeCard (Some ts) (Some c) now \<in> E \<and> read_card lib (pub_raw r) = Inr p
     \<and> verify_card (pub_crypto lib) (pub_quote lib) (pub_float lib) (pub_rfc lib) (verify_signature (pub_crypto lib) ts) (Some p) = None
     \<and> pub_package r = ic_package_id p \<and> pub_number r = ic_version p \<and> pub_jurisdiction r = Some (ic_jurisdiction p)
     \<and> pub_source r = Some (pm_source c) \<and> pub_checksum r = ic_checksum p)"

lemma publish_manifest_effect:
  assumes "publish_manifest lib tso mo now d = Inr d'"
  obtains "d' = d"
  | ts m r where "tso = Some ts" "mo = Some m" "d' = d\<lparr>published_manifests := published_manifests d @ [r]\<rparr>"
      "signed_manifest lib {PeManifest tso mo now} r" "manifest_key r \<notin> manifest_key ` set (published_manifests d)"
      "pub_status r = ''STAGED''" "manifest_authority m (pub_package r) now d = None" "pub_source r = Some (pm_source m)"
      "pub_jurisdiction r = Some (pm_jurisdiction m)"
proof -
  obtain ts m p where s: "tso = Some ts" "mo = Some m" "read_manifest lib (pm_raw m) = Inr p" "pm_source m \<noteq> []"
      "verify_manifest (pub_crypto lib) (pub_quote lib) (pub_rfc lib) (verify_signature (pub_crypto lib) ts) (Some p) = None"
      "manifest_identity m p = None" "manifest_authority m (cd_package_id (mf_critical_card p)) now d = None"
    and rest: "(case find (is_manifest (pm_jurisdiction m) (pm_number m)) (published_manifests d) of
       Some r \<Rightarrow> if same_content m (mf_checksum p) r then Inr d else Inl ErrConflict
     | None \<Rightarrow> add_manifest_row (manifest_row (m\<lparr>pm_package := cd_package_id (mf_critical_card p), pm_checksum := mf_checksum p,
                 pm_status := ''STAGED'', pm_quarantined := False\<rparr>)) d) = Inr d'"
    using assms unfolding publish_manifest_def
    by (auto simp: bind_res_Inr first_err_Cons_None Let_def split: option.splits [where option = tso] option.splits [where option = mo]
        sum.splits option.splits [where option = "verify_manifest _ _ _ _ _"])
  let ?r = "manifest_row (m\<lparr>pm_package := cd_package_id (mf_critical_card p), pm_checksum := mf_checksum p,
      pm_status := ''STAGED'', pm_quarantined := False\<rparr>)"
  show thesis
  proof (cases "find (is_manifest (pm_jurisdiction m) (pm_number m)) (published_manifests d)")
    case None
    have add: "d' = d\<lparr>published_manifests := published_manifests d @ [?r]\<rparr>"
      using rest None by (simp add: add_manifest_row_def)
    have id: "pm_jurisdiction m = mf_jurisdiction p" "pm_number m = mf_revision p" "pm_manifest_id m = mf_manifest_id p"
      using s(6) by (auto simp: manifest_identity_def first_err_Cons_None)
    have "signed_manifest lib {PeManifest tso mo now} ?r"
      unfolding signed_manifest_def using s(1-5) id
      by (intro exI [of _ ts] exI [of _ m] exI [of _ now] exI [of _ p]) (simp add: manifest_row_def null_def)
    moreover have "manifest_key ?r \<notin> manifest_key ` set (published_manifests d)"
      using None by (auto simp: find_None_iff is_manifest_def manifest_key_def manifest_row_def)
    ultimately show thesis
      using that(2) [OF s(1,2) add] s(4,7) by (simp add: manifest_row_def null_def)
  next
    case (Some r)
    then show thesis using rest that(1) by (auto split: if_splits)
  qed
qed


lemma publish_card_effect:
  assumes "publish_card lib tso co now d = Inr d'"
  obtains "d' = d"
  | ts c j r where "tso = Some ts" "co = Some c" "d' = d\<lparr>published_cards := published_cards d @ [r]\<rparr>"
      "signed_card lib {PeCard tso co now} r" "card_row_key r \<notin> card_row_key ` set (published_cards d)"
      "pub_status r = ''STAGED''" "source_publishes d (pm_source c) = None" "card_package c j now d = Inr j"
      "has_authorization d (pm_source c) j now" "pub_source r = Some (pm_source c)" "pub_package r = pm_package c"
      "pub_jurisdiction r = Some j"
proof -
  obtain ts c p pj where s: "tso = Some ts" "co = Some c" "read_card lib (pm_raw c) = Inr p" "pm_source c \<noteq> []"
      "verify_card (pub_crypto lib) (pub_quote lib) (pub_float lib) (pub_rfc lib) (verify_signature (pub_crypto lib) ts) (Some p) = None"
      "card_identity c p = None" "source_publishes d (pm_source c) = None" "has_authorization d (pm_source c) pj now"
      "card_package c (signed_jurisdiction c p) now d = Inr pj"
    and rest: "(case find (is_card (pm_package c) (pm_number c)) (published_cards d) of
       Some r \<Rightarrow> if same_content c (ic_checksum p) r then Inr d else Inl ErrConflict
     | None \<Rightarrow> add_card_row ((card_row (c\<lparr>pm_checksum := ic_checksum p, pm_status := ''STAGED'', pm_quarantined := False\<rparr>))
                 \<lparr>pub_jurisdiction := Some pj\<rparr>) d) = Inr d'"
    using assms unfolding publish_card_def
    by (auto simp: bind_res_Inr first_err_Cons_None Let_def split: option.splits [where option = tso] option.splits [where option = co]
        sum.splits option.splits [where option = "verify_card _ _ _ _ _ _"])
  let ?r = "(card_row (c\<lparr>pm_checksum := ic_checksum p, pm_status := ''STAGED'', pm_quarantined := False\<rparr>))
      \<lparr>pub_jurisdiction := Some pj\<rparr>"
  have v: "validate_card (pub_rfc lib) (Some p) = None"
    using s(5) by (cases "validate_card (pub_rfc lib) (Some p)") (auto simp: verify_card_def)
  then have "ic_jurisdiction p \<noteq> []" by (simp add: validate_card_None valid_card_def Let_def)
  then have jur: "signed_jurisdiction c p = ic_jurisdiction p"
    using s(6) by (auto simp: signed_jurisdiction_def card_identity_def first_err_Cons_None)
  have id: "pm_package c = ic_package_id p" "pm_number c = ic_version p"
    using s(6) by (auto simp: card_identity_def first_err_Cons_None)
  have pj: "pj = ic_jurisdiction p"
    using s(9) \<open>ic_jurisdiction p \<noteq> []\<close> unfolding jur
    by (auto simp: card_package_def first_err_Cons_None split: option.splits)
  show thesis
  proof (cases "find (is_card (pm_package c) (pm_number c)) (published_cards d)")
    case None
    have add: "d' = d\<lparr>published_cards := published_cards d @ [?r]\<rparr>"
      using rest None by (simp add: add_card_row_def)
    have "signed_card lib {PeCard tso co now} ?r"
      unfolding signed_card_def using s(1-5) id pj
      by (intro exI [of _ ts] exI [of _ c] exI [of _ now] exI [of _ p]) (simp add: card_row_def null_def)
    moreover have "card_row_key ?r \<notin> card_row_key ` set (published_cards d)"
      using None by (auto simp: find_None_iff is_card_def card_row_key_def card_row_def)
    moreover have "card_package c pj now d = Inr pj" using s(9) jur pj by simp
    ultimately show thesis
      using that(2) [OF s(1,2) add] s(4,7,8) by (simp add: card_row_def null_def)
  next
    case (Some r)
    then show thesis using rest that(1) by (auto split: if_splits)
  qed
qed

lemma current_grows:
  assumes "distinct (map k rows)" and "\<And>x y. this x \<Longrightarrow> this y \<Longrightarrow> k x = k y" and "find this rows = Some r" and "\<not> dead r"
    and "\<And>x st. this (x\<lparr>pub_status := st\<rparr>) = this x"
  shows "grows Q rows (make_current grp this n rows)"
proof -
  let ?s = "\<lambda>x. grp x \<and> pub_number x < n \<and> pub_status x = ''CURRENT''"
  let ?f = "\<lambda>x. if ?s x then x\<lparr>pub_status := ''SUPERSEDED''\<rparr> else x"
  have r: "r \<in> set rows" "this r" using assms(3) by (auto simp: find_Some_iff)
  have "keeps rows (\<lambda>x. if this (?f x) then (?f x)\<lparr>pub_status := ''CURRENT''\<rparr> else ?f x)"
    unfolding keeps_def
  proof
    fix x assume x: "x \<in> set rows"
    have "x = r" if "this x" by (rule same_row [OF assms(1) x r(1)]) (use that r(2) assms(2) in blast)
    then show "content_of (if this (?f x) then (?f x)\<lparr>pub_status := ''CURRENT''\<rparr> else ?f x) = content_of x
        \<and> (dead x \<longrightarrow> dead (if this (?f x) then (?f x)\<lparr>pub_status := ''CURRENT''\<rparr> else ?f x))"
      using assms(4,5) by (auto simp: content_of_def dead_def)
  qed
  from grows_map [OF this, of Q] show ?thesis by (simp add: make_current_def update_rows_def comp_def)
qed

lemma key_fields [simp]:
  "is_manifest j n (x\<lparr>pub_status := st\<rparr>) = is_manifest j n x" "is_card p v (x\<lparr>pub_status := st\<rparr>) = is_card p v x"
  by (simp_all add: is_manifest_def is_card_def)

lemma promote_manifest_effect:
  assumes "promote_manifest lib jur n now d = Inr d'"
  obtains r where "find (is_manifest jur n) (published_manifests d) = Some r" "\<not> dead r" "pub_status r = ''CURRENT''" "d' = d"
  | r sid p where "find (is_manifest jur n) (published_manifests d) = Some r" "\<not> dead r" "pub_source r = Some sid"
      "source_promotes d sid = None" "has_authorization d sid jur now" "get (packages d) (pub_package r) = Some p"
      "pkg_source p = sid" "superseded_by p = None" "in_force now p" "critical_card_check lib r p = None"
      "d' = d\<lparr>published_manifests := make_current (\<lambda>x. pub_jurisdiction x = Some jur) (is_manifest jur n) n (published_manifests d)\<rparr>"
proof -
  obtain r where f: "find (is_manifest jur n) (published_manifests d) = Some r"
    using assms by (cases "find (is_manifest jur n) (published_manifests d)") (simp_all add: promote_manifest_def)
  note a = assms [unfolded promote_manifest_def f option.case bind_res_Inr require_Inr]
  then have nd: "\<not> dead r" by (auto simp: promotion_row_checks_def dead_def first_err_Cons_None)
  show thesis
  proof (cases "pub_status r = ''CURRENT''")
    case True
    then show thesis using a that(1) [OF f nd] by simp
  next
    case False
    obtain sid where sid: "attributed r = Some sid" using a False by (cases "attributed r") auto
    obtain p where p: "get (packages d) (pub_package r) = Some p"
      using a False sid by (cases "get (packages d) (pub_package r)") (auto simp: bind_res_Inr)
    have src: "pub_source r = Some sid" using sid by (auto simp: attributed_def split: option.splits if_splits)
    show thesis
      by (rule that(2) [OF f nd src _ _ p])
        (use a False sid p in \<open>auto simp: bind_res_Inr first_err_Cons_None authorization_live_def package_promotes_def\<close>)
  qed
qed

lemma promote_card_effect:
  assumes "promote_card pkg v now d = Inr d'"
  obtains r where "find (is_card pkg v) (published_cards d) = Some r" "\<not> dead r" "pub_status r = ''CURRENT''" "d' = d"
  | r sid p where "find (is_card pkg v) (published_cards d) = Some r" "\<not> dead r" "pub_source r = Some sid"
      "source_promotes d sid = None" "\<forall>j. pub_jurisdiction r = Some j \<longrightarrow> j \<noteq> [] \<longrightarrow> has_authorization d sid j now"
      "get (packages d) pkg = Some p" "pkg_source p = sid" "superseded_by p = None" "in_force now p" "pkg_version p = v"
      "d' = d\<lparr>published_cards := make_current (\<lambda>x. pub_package x = pkg) (is_card pkg v) v (published_cards d)\<rparr>"
proof -
  obtain r where f: "find (is_card pkg v) (published_cards d) = Some r"
    using assms by (cases "find (is_card pkg v) (published_cards d)") (simp_all add: promote_card_def)
  note a = assms [unfolded promote_card_def f option.case bind_res_Inr require_Inr Let_def]
  then have nd: "\<not> dead r" by (auto simp: promotion_row_checks_def dead_def first_err_Cons_None)
  show thesis
  proof (cases "pub_status r = ''CURRENT''")
    case True
    then show thesis using a that(1) [OF f nd] by simp
  next
    case False
    obtain sid where sid: "attributed r = Some sid" using a False by (cases "attributed r") auto
    obtain p where p: "get (packages d) pkg = Some p" using a False sid by (cases "get (packages d) pkg") (auto simp: bind_res_Inr)
    have src: "pub_source r = Some sid" using sid by (auto simp: attributed_def split: option.splits if_splits)
    show thesis
      by (rule that(2) [OF f nd src _ _ p])
        (use a False sid p in \<open>auto simp: bind_res_Inr first_err_Cons_None authorization_live_def package_promotes_def\<close>)
  qed
qed

section \<open>The invariant of the boundary\<close>

definition grown :: "publish_lib \<Rightarrow> pub_event set \<Rightarrow> db \<Rightarrow> db \<Rightarrow> bool" where
  "grown lib E d d' \<longleftrightarrow> tables_ok d'
     \<and> grows (signed_manifest lib E) (published_manifests d) (published_manifests d')
     \<and> grows (signed_card lib E) (published_cards d) (published_cards d')"

lemma signed_content [simp]:
  "signed_manifest lib E (content_of r) = signed_manifest lib E r" "signed_card lib E (content_of r) = signed_card lib E r"
  by (simp_all add: signed_manifest_def signed_card_def content_of_def)

lemma signed_mono:
  assumes "E \<subseteq> F"
  shows "signed_manifest lib E r \<Longrightarrow> signed_manifest lib F r" and "signed_card lib E r \<Longrightarrow> signed_card lib F r"
  using assms unfolding signed_manifest_def signed_card_def by (meson subsetD)+

lemma grown_refl: "tables_ok d \<Longrightarrow> published_manifests d' = published_manifests d \<Longrightarrow> published_cards d' = published_cards d
    \<Longrightarrow> grown lib E d d'"
  by (simp add: grown_def tables_ok_def)

lemma grown_trans: "grown lib E d d' \<Longrightarrow> grown lib E d' d'' \<Longrightarrow> grown lib E d d''"
  unfolding grown_def by (blast intro: grows_trans)

lemma grown_mono: "grown lib E d d' \<Longrightarrow> E \<subseteq> F \<Longrightarrow> grown lib F d d'"
  unfolding grown_def by (blast intro: grows_mono signed_mono)

lemma grows_keys:
  "grows Q rows rows' \<Longrightarrow> length rows' = length rows \<Longrightarrow> map manifest_key rows' = map manifest_key rows"
  "grows Q rows rows' \<Longrightarrow> length rows' = length rows \<Longrightarrow> map card_row_key rows' = map card_row_key rows"
proof -
  assume g: "grows Q rows rows'" and l: "length rows' = length rows"
  obtain f ext where f: "keeps rows f" "rows' = map f rows @ ext" using g unfolding grows_def by blast
  then have "ext = []" using l by simp
  then show "map manifest_key rows' = map manifest_key rows" "map card_row_key rows' = map card_row_key rows"
    using f keeps_keys [OF f(1)] by simp_all
qed

text \<open>Operations on one table that neither add nor lose rows.\<close>

lemma grown_manifests:
  assumes "tables_ok d" and "d' = d\<lparr>published_manifests := rows\<rparr>"
    and "grows (signed_manifest lib E) (published_manifests d) rows" and "length rows = length (published_manifests d)"
  shows "grown lib E d d'"
  using assms(1,3,4) grows_keys(1) [OF assms(3,4)] by (simp add: grown_def tables_ok_def assms(2))

lemma grown_cards:
  assumes "tables_ok d" and "d' = d\<lparr>published_cards := rows\<rparr>"
    and "grows (signed_card lib E) (published_cards d) rows" and "length rows = length (published_cards d)"
  shows "grown lib E d d'"
  using assms(1,3,4) grows_keys(2) [OF assms(3,4)] by (simp add: grown_def tables_ok_def assms(2))

lemma length_rows [simp]:
  "length (update_rows P f rows) = length rows" "length (make_current g t n rows) = length rows"
  by (simp_all add: update_rows_def make_current_def)

lemma update_grown:
  assumes "tables_ok d" and "\<And>r. content_of (f r) = content_of r \<and> (dead r \<longrightarrow> dead (f r))"
  shows "update_manifest j n f d = Inr d' \<Longrightarrow> grown lib E d d'" and "update_card p v f d = Inr d' \<Longrightarrow> grown lib E d d'"
proof -
  assume "update_manifest j n f d = Inr d'"
  then have "d' = d\<lparr>published_manifests := update_rows (is_manifest j n) f (published_manifests d)\<rparr>"
    by (simp add: update_manifest_def)
  then show "grown lib E d d'" by (rule grown_manifests [OF assms(1)]) (simp_all add: update_grows assms(2))
next
  assume "update_card p v f d = Inr d'"
  then have "d' = d\<lparr>published_cards := update_rows (is_card p v) f (published_cards d)\<rparr>" by (simp add: update_card_def)
  then show "grown lib E d d'" by (rule grown_cards [OF assms(1)]) (simp_all add: update_grows assms(2))
qed

lemma mark_grown:
  assumes "tables_ok d" and "\<And>r. content_of (f r) = content_of r \<and> (dead r \<longrightarrow> dead (f r))"
  shows "grown lib E d (mark_published sid f d)"
proof -
  let ?m = "\<lambda>r. if published_of d sid r then f r else r"
  have k: "keeps rows ?m" for rows using assms(2) by (simp add: keeps_def)
  show ?thesis
    using assms(1) unfolding grown_def tables_ok_def mark_published_def Let_def
    by (simp add: keeps_keys [OF k] grows_map [OF k] del: map_map)
qed

lemma transition_grown:
  assumes "tables_ok d" and "transition_source sink sid v target actor rsn eid now d = Inr d'"
  shows "grown lib E d d'"
proof (rule transition_source_cases [OF assms(2)])
  fix s
  let ?d = "d\<lparr>sources := put sid (s\<lparr>state := target, version := v + 1, updated_at := now\<rparr>) (sources d)\<rparr>"
  assume d': "d' = (propagate sid target ?d)\<lparr>audit_rows := audit_rows d'\<rparr>"
  have "tables_ok ?d" using assms(1) by (simp add: tables_ok_def)
  then have "grown lib E ?d (propagate sid target ?d)"
    unfolding propagate_def by (auto intro!: mark_grown grown_refl simp: content_of_def dead_def)
  then have "grown lib E d (propagate sid target ?d)" by (simp add: grown_def)
  then show ?thesis by (subst d') (simp add: grown_def tables_ok_def)
qed

lemma op_grown:
  assumes "tables_ok d" and "pub_op lib e d = Inr d'"
  shows "grown lib {e} d d'"
proof (cases e)
  case (PeManifest tso mo now)
  from assms(2) have "publish_manifest lib tso mo now d = Inr d'" by (simp add: PeManifest)
  then show ?thesis
  proof (cases rule: publish_manifest_effect)
    case 1
    then show ?thesis using assms(1) by (auto intro: grown_refl)
  next
    case (2 ts m r)
    then show ?thesis
      using assms(1) unfolding grown_def PeManifest by (simp add: tables_ok_def grows_append)
  qed
next
  case (PeCard tso co now)
  from assms(2) have "publish_card lib tso co now d = Inr d'" by (simp add: PeCard)
  then show ?thesis
  proof (cases rule: publish_card_effect)
    case 1
    then show ?thesis using assms(1) by (auto intro: grown_refl)
  next
    case (2 ts c j r)
    then show ?thesis using assms(1) unfolding grown_def PeCard by (simp add: tables_ok_def grows_append)
  qed
next
  case (PePromoteManifest j n now)
  from assms(2) have "promote_manifest lib j n now d = Inr d'" by (simp add: PePromoteManifest)
  then show ?thesis
  proof (cases rule: promote_manifest_effect)
    case (1 r)
    then show ?thesis using assms(1) by (auto intro: grown_refl)
  next
    case (2 r sid p)
    show ?thesis
      by (rule grown_manifests [OF assms(1) 2(11)], rule current_grows [where k = manifest_key and r = r])
        (use assms(1) 2(1,2) in \<open>auto simp: tables_ok_def is_manifest_def manifest_key_def\<close>)
  qed
next
  case (PePromoteCard p v now)
  from assms(2) have "promote_card p v now d = Inr d'" by (simp add: PePromoteCard)
  then show ?thesis
  proof (cases rule: promote_card_effect)
    case (1 r)
    then show ?thesis using assms(1) by (auto intro: grown_refl)
  next
    case (2 r sid q)
    show ?thesis
      by (rule grown_cards [OF assms(1) 2(11)], rule current_grows [where k = card_row_key and r = r])
        (use assms(1) 2(1,2) in \<open>auto simp: tables_ok_def is_card_def card_row_key_def\<close>)
  qed
next
  case (PeResource r)
  then show ?thesis
    using assms by (auto simp: publish_resource_def bind_res_Inr split: option.splits if_splits intro!: grown_refl)
next
  case (PeSource sink sid v target actor rsn eid now)
  then show ?thesis using assms transition_grown by simp
qed (use assms in \<open>auto simp: withdraw_manifest_def withdraw_card_def set_manifest_status_def set_card_status_def
      quarantine_manifest_def quarantine_card_def content_of_def dead_def elim!: update_grown [rotated 2]\<close>)

lemma run_grown:
  assumes "tables_ok d"
  shows "grown lib (set es) d (run (pub_step lib) d es)"
proof (induction es rule: rev_induct)
  case Nil
  show ?case using assms by (auto intro: grown_refl)
next
  case (snoc e es)
  let ?d = "run (pub_step lib) d es"
  have ok: "tables_ok ?d" using snoc.IH by (simp add: grown_def)
  have "grown lib (set (es @ [e])) ?d (pub_step lib ?d e)"
  proof (cases "pub_op lib e ?d")
    case (Inl err)
    then show ?thesis using ok by (auto simp: pub_step_def kept_def intro: grown_refl)
  next
    case (Inr d')
    then show ?thesis
      using op_grown [OF ok Inr] by (auto simp: pub_step_def kept_def intro: grown_mono)
  qed
  moreover have "grown lib (set (es @ [e])) d ?d" using snoc.IH by (rule grown_mono) auto
  ultimately have "grown lib (set (es @ [e])) d (pub_step lib ?d e)" by (rule grown_trans [rotated])
  then show ?case by simp
qed

section \<open>The manifest that is served\<close>

lemma hd_sorted_min:
  assumes "sorted (map k xs)" "xs \<noteq> []" "x \<in> set xs"
  shows "k (hd xs) \<le> k x"
  using assms by (cases xs) auto

lemma sort_key_Nil_iff: "sort_key k xs = [] \<longleftrightarrow> xs = []"
  by (simp flip: length_0_conv)

lemma two_sorts_hd:
  fixes a :: "'a \<Rightarrow> nat" and b :: "'a \<Rightarrow> int"
  assumes "xs \<noteq> []" and h: "h = hd (sort_key a (sort_key b xs))"
  shows "h \<in> set xs" and "\<And>x. x \<in> set xs \<Longrightarrow> a h \<le> a x" and "\<And>x. x \<in> set xs \<Longrightarrow> a x = a h \<Longrightarrow> b h \<le> b x"
proof -
  let ?ys = "sort_key b xs" and ?zs = "sort_key a (sort_key b xs)"
  have ne: "?zs \<noteq> []" using assms(1) by (simp add: sort_key_Nil_iff)
  show mem: "h \<in> set xs" using hd_in_set [OF ne] h by simp
  show "a h \<le> a x" if "x \<in> set xs" for x using hd_sorted_min [OF sorted_sort_key ne] that h by simp
  have "filter (\<lambda>y. a y = a h) ?zs = filter (\<lambda>y. a y = a h) ?ys" by (rule sort_key_stable)
  moreover obtain zs where "?zs = h # zs" using ne h by (cases ?zs) auto
  ultimately obtain ws where ws: "filter (\<lambda>y. a y = a h) ?ys = h # ws"
    by (cases "filter (\<lambda>y. a y = a h) ?ys") simp_all
  have "sorted (map b (filter (\<lambda>y. a y = a h) ?ys))" by (rule sorted_filter) simp
  moreover have "x \<in> set (filter (\<lambda>y. a y = a h) ?ys)" if "x \<in> set xs" "a x = a h" for x using that by simp
  ultimately show "b h \<le> b x" if "x \<in> set xs" "a x = a h" for x
    using that hd_sorted_min [of b "filter (\<lambda>y. a y = a h) ?ys" x] unfolding ws by fastforce
qed

definition current_in :: "string \<Rightarrow> published_row \<Rightarrow> bool" where
  "current_in jur r \<longleftrightarrow> pub_jurisdiction r = Some jur \<and> pub_status r = ''CURRENT''"

text \<open>The row with the highest revision among the current ones of a jurisdiction.\<close>

definition top_current :: "db \<Rightarrow> string \<Rightarrow> published_row \<Rightarrow> bool" where
  "top_current d jur r \<longleftrightarrow> r \<in> set (published_manifests d) \<and> current_in jur r
     \<and> (\<forall>x \<in> set (published_manifests d). current_in jur x \<longrightarrow> pub_number x \<le> pub_number r)"

lemma served_current:
  assumes "get_published_manifest d jur = Inr r"
  shows "r \<in> set (published_manifests d)" and "pub_jurisdiction r = Some jur"
    and "(\<exists>x \<in> set (published_manifests d). current_in jur x) \<Longrightarrow> top_current d jur r"
proof -
  let ?xs = "filter (\<lambda>r. pub_jurisdiction r = Some jur \<and> pub_status r \<noteq> ''STAGED'') (published_manifests d)"
  let ?a = "\<lambda>r. if pub_status r = ''CURRENT'' then 0 else 1 :: nat" and ?b = "\<lambda>r. - pub_number r"
  obtain zs where z: "sort_key ?a (sort_key ?b ?xs) = r # zs"
    using assms unfolding get_published_manifest_def by (cases "sort_key ?a (sort_key ?b ?xs)") simp_all
  have "sort_key ?a (sort_key ?b ?xs) \<noteq> []" unfolding z by simp
  then have ne: "?xs \<noteq> []" unfolding sort_key_Nil_iff .
  have h: "r = hd (sort_key ?a (sort_key ?b ?xs))" unfolding z by simp
  note m = two_sorts_hd [OF ne h]
  show "r \<in> set (published_manifests d)" "pub_jurisdiction r = Some jur" using m(1) by simp_all
  assume "\<exists>x \<in> set (published_manifests d). current_in jur x"
  then obtain x where x: "x \<in> set ?xs" "pub_status x = ''CURRENT''" by (auto simp: current_in_def)
  have c: "pub_status r = ''CURRENT''" using m(2) [OF x(1)] x(2) by (simp split: if_splits)
  show "top_current d jur r"
    unfolding top_current_def current_in_def
  proof (intro conjI ballI impI)
    fix y assume "y \<in> set (published_manifests d)" "pub_jurisdiction y = Some jur \<and> pub_status y = ''CURRENT''"
    then have "y \<in> set ?xs" "?a y = ?a r" using c by auto
    from m(3) [OF this] show "pub_number y \<le> pub_number r" by simp
  qed (use m(1) c in auto)
qed

lemma served_exists:
  assumes "x \<in> set (published_manifests d)" "current_in jur x"
  obtains r where "get_published_manifest d jur = Inr r" "top_current d jur r"
proof -
  let ?xs = "filter (\<lambda>r. pub_jurisdiction r = Some jur \<and> pub_status r \<noteq> ''STAGED'') (published_manifests d)"
  have "x \<in> set ?xs" using assms by (auto simp: current_in_def)
  then have "?xs \<noteq> []" by (metis empty_iff list.set(1))
  then have "sort_key (\<lambda>r. if pub_status r = ''CURRENT'' then 0 else 1 :: nat) (sort_key (\<lambda>r. - pub_number r) ?xs) \<noteq> []"
    unfolding sort_key_Nil_iff .
  then obtain r where r: "get_published_manifest d jur = Inr r"
    unfolding get_published_manifest_def
    by (cases "sort_key (\<lambda>r. if pub_status r = ''CURRENT'' then 0 else 1 :: nat) (sort_key (\<lambda>r. - pub_number r) ?xs)") auto
  show thesis using that [OF r] served_current(3) [OF r] assms by blast
qed

lemma adapter_manifest_iff:
  "adapter_get_manifest d jur = Inr rec \<longleftrightarrow> (\<exists>r. get_published_manifest d jur = Inr r \<and> top_current d jur r \<and> \<not> pub_quarantined r
     \<and> rec = \<lparr>mr_jurisdiction = jur, mr_revision = pub_number r, mr_raw = pub_raw r, mr_checksum = pub_checksum r,
              mr_status = ''CURRENT''\<rparr>)"
proof -
  have "top_current d jur r" if "get_published_manifest d jur = Inr r" "pub_status r = ''CURRENT''" for r
    using served_current [OF that(1)] that(2) by (auto simp: current_in_def)
  then show ?thesis
    by (auto simp: adapter_get_manifest_def adapt_def top_current_def current_in_def split: sum.splits)
qed

lemma adapter_card_iff:
  "adapter_get_card d pkg v = Inr rec \<longleftrightarrow> (\<exists>r. find (is_card pkg v) (published_cards d) = Some r \<and> pub_status r = ''CURRENT''
     \<and> \<not> pub_quarantined r \<and> rec = \<lparr>cr_package_id = pkg, cr_version = v, cr_raw = pub_raw r,
        cr_checksum = pub_checksum r, cr_status = ''CURRENT''\<rparr>)"
proof (cases "find (is_card pkg v) (published_cards d)")
  case None
  then show ?thesis by (simp add: adapter_get_card_def adapt_def get_published_card_def)
next
  case (Some r)
  then have "pub_package r = pkg" "pub_number r = v" by (auto simp: find_Some_iff is_card_def)
  then show ?thesis using Some by (auto simp: adapter_get_card_def adapt_def get_published_card_def)
qed

end
