(* ===== verification/Publication_Safety.thy ===== *)
theory Publication_Safety
  imports Publication
begin

text \<open>
  What the publication boundary guarantees whatever the order of its operations: what is delivered
  was signed and promoted under authority, what was withdrawn or quarantined is not delivered
  again, published content never changes, and the revision served does not go back.
\<close>

section \<open>How a row becomes current\<close>

definition may_promote_manifest :: "db \<Rightarrow> string \<Rightarrow> int \<Rightarrow> time \<Rightarrow> bool" where
  "may_promote_manifest d jur n now \<longleftrightarrow> (\<exists>r sid s p. find (is_manifest jur n) (published_manifests d) = Some r \<and> \<not> dead r
     \<and> pub_source r = Some sid \<and> get (sources d) sid = Some s \<and> state s = Operational \<and> has_authorization d sid jur now
     \<and> get (packages d) (pub_package r) = Some p \<and> pkg_source p = sid \<and> superseded_by p = None \<and> in_force now p)"

definition may_promote_card :: "db \<Rightarrow> string \<Rightarrow> int \<Rightarrow> time \<Rightarrow> bool" where
  "may_promote_card d pkg v now \<longleftrightarrow> (\<exists>r sid s p. find (is_card pkg v) (published_cards d) = Some r \<and> \<not> dead r
     \<and> pub_source r = Some sid \<and> get (sources d) sid = Some s \<and> state s = Operational
     \<and> (\<forall>j. pub_jurisdiction r = Some j \<and> j \<noteq> [] \<longrightarrow> has_authorization d sid j now)
     \<and> get (packages d) pkg = Some p \<and> pkg_source p = sid \<and> superseded_by p = None \<and> in_force now p \<and> pkg_version p = v)"

definition was_current :: "(published_row \<Rightarrow> 'k) \<Rightarrow> published_row list \<Rightarrow> published_row \<Rightarrow> bool" where
  "was_current k rows r \<longleftrightarrow> (\<exists>x \<in> set rows. pub_status x = ''CURRENT'' \<and> k x = k r)"

lemma was_current_same: "r \<in> set rows \<Longrightarrow> pub_status r = ''CURRENT'' \<Longrightarrow> was_current k rows r"
  unfolding was_current_def by blast

lemma was_current_map:
  assumes "r \<in> set (map f rows)" "pub_status r = ''CURRENT''"
    and "\<And>x. x \<in> set rows \<Longrightarrow> content_of (f x) = content_of x \<and> (pub_status (f x) = ''CURRENT'' \<longrightarrow> pub_status x = ''CURRENT'')"
  shows "was_current manifest_key rows r" and "was_current card_row_key rows r"
proof -
  obtain x where x: "x \<in> set rows" "r = f x" using assms(1) by auto
  have "pub_status x = ''CURRENT''" "content_of x = content_of r" using assms(2,3) x by auto
  then show "was_current manifest_key rows r" "was_current card_row_key rows r"
    using x(1) keys_of_content unfolding was_current_def by blast+
qed

lemma make_current_rows:
  assumes "r \<in> set (make_current grp this n rows)" "pub_status r = ''CURRENT''" "\<And>x st. this (x\<lparr>pub_status := st\<rparr>) = this x"
  shows "(\<exists>x \<in> set rows. pub_status x = ''CURRENT'' \<and> r = x) \<or> this r"
  using assms unfolding make_current_def update_rows_def by auto

lemma source_promotes_None:
  "source_promotes d sid = None \<Longrightarrow> \<exists>s. get (sources d) sid = Some s \<and> state s = Operational"
  by (auto simp: source_promotes_def split: option.splits)

lemma update_current:
  assumes "update_manifest j n f d = Inr d'" "\<And>x. content_of (f x) = content_of x \<and> (pub_status (f x) = ''CURRENT'' \<longrightarrow> pub_status x = ''CURRENT'')"
    "r \<in> set (published_manifests d')" "pub_status r = ''CURRENT''"
  shows "was_current manifest_key (published_manifests d) r"
proof (rule was_current_map(1) [OF _ assms(4), where f = "\<lambda>r. if is_manifest j n r then f r else r"])
  show "r \<in> set (map (\<lambda>r. if is_manifest j n r then f r else r) (published_manifests d))"
    using assms(1,3) by (auto simp: update_manifest_def update_rows_def)
qed (simp add: assms(2))

lemma update_card_current:
  assumes "update_card p v f d = Inr d'" "\<And>x. content_of (f x) = content_of x \<and> (pub_status (f x) = ''CURRENT'' \<longrightarrow> pub_status x = ''CURRENT'')"
    "r \<in> set (published_cards d')" "pub_status r = ''CURRENT''"
  shows "was_current card_row_key (published_cards d) r"
proof (rule was_current_map(2) [OF _ assms(4), where f = "\<lambda>r. if is_card p v r then f r else r"])
  show "r \<in> set (map (\<lambda>r. if is_card p v r then f r else r) (published_cards d))"
    using assms(1,3) by (auto simp: update_card_def update_rows_def)
qed (simp add: assms(2))

lemma propagate_rows:
  "\<exists>f. published_manifests (propagate sid target d) = map f (published_manifests d)
      \<and> published_cards (propagate sid target d) = map f (published_cards d)
      \<and> (\<forall>x. content_of (f x) = content_of x \<and> (pub_status (f x) = ''CURRENT'' \<longrightarrow> pub_status x = ''CURRENT''))"
proof (cases "target = Quarantined \<or> target = Retired \<or> target = Suspended")
    case True
    let ?g = "\<lambda>x. if target = Quarantined then x\<lparr>pub_quarantined := True\<rparr> else x\<lparr>pub_status := ''WITHDRAWN''\<rparr>"
    show ?thesis
      by (rule exI [of _ "\<lambda>x. if published_of d sid x then ?g x else x"])
        (use True in \<open>auto simp: propagate_def mark_published_def Let_def content_of_def\<close>)
  next
    case False
    then show ?thesis by (intro exI [of _ id]) (simp add: propagate_def)
qed

lemma transition_rows:
  assumes "transition_source sink sid v target actor rsn eid now d = Inr d'"
  shows "\<exists>f. published_manifests d' = map f (published_manifests d) \<and> published_cards d' = map f (published_cards d)
    \<and> (\<forall>x. content_of (f x) = content_of x \<and> (pub_status (f x) = ''CURRENT'' \<longrightarrow> pub_status x = ''CURRENT''))"
proof (rule transition_source_cases [OF assms])
  fix s
  let ?d = "d\<lparr>sources := put sid (s\<lparr>state := target, version := v + 1, updated_at := now\<rparr>) (sources d)\<rparr>"
  assume d': "d' = (propagate sid target ?d)\<lparr>audit_rows := audit_rows d'\<rparr>"
  obtain f where f: "published_manifests (propagate sid target ?d) = map f (published_manifests ?d)"
      "published_cards (propagate sid target ?d) = map f (published_cards ?d)"
      "\<forall>x. content_of (f x) = content_of x \<and> (pub_status (f x) = ''CURRENT'' \<longrightarrow> pub_status x = ''CURRENT'')"
    using propagate_rows by blast
  have "published_manifests d' = map f (published_manifests d)" "published_cards d' = map f (published_cards d)"
    by (subst d', simp add: f(1,2))+
  then show ?thesis using f(3) by blast
qed

lemma transition_current:
  assumes "transition_source sink sid v target actor rsn eid now d = Inr d'" and "pub_status r = ''CURRENT''"
  shows "r \<in> set (published_manifests d') \<Longrightarrow> was_current manifest_key (published_manifests d) r"
    and "r \<in> set (published_cards d') \<Longrightarrow> was_current card_row_key (published_cards d) r"
proof -
  obtain f where f: "published_manifests d' = map f (published_manifests d)" "published_cards d' = map f (published_cards d)"
      "\<forall>x. content_of (f x) = content_of x \<and> (pub_status (f x) = ''CURRENT'' \<longrightarrow> pub_status x = ''CURRENT'')"
    using transition_rows [OF assms(1)] by blast
  show "r \<in> set (published_manifests d') \<Longrightarrow> was_current manifest_key (published_manifests d) r"
    by (rule was_current_map(1) [OF _ assms(2)]) (use f(1,3) in auto)
  show "r \<in> set (published_cards d') \<Longrightarrow> was_current card_row_key (published_cards d) r"
    by (rule was_current_map(2) [OF _ assms(2)]) (use f(2,3) in auto)
qed

lemma became_current:
  assumes "pub_op lib e d = Inr d'"
  shows "r \<in> set (published_manifests d') \<Longrightarrow> pub_status r = ''CURRENT'' \<Longrightarrow> was_current manifest_key (published_manifests d) r
      \<or> (\<exists>jur n now. e = PePromoteManifest jur n now \<and> manifest_key r = (Some jur, n) \<and> may_promote_manifest d jur n now)"
    and "r \<in> set (published_cards d') \<Longrightarrow> pub_status r = ''CURRENT'' \<Longrightarrow> was_current card_row_key (published_cards d) r
      \<or> (\<exists>pkg v now. e = PePromoteCard pkg v now \<and> card_row_key r = (pkg, v) \<and> may_promote_card d pkg v now)"
proof -
  assume r: "r \<in> set (published_manifests d')" "pub_status r = ''CURRENT''"
  have same: "published_manifests d' = published_manifests d \<Longrightarrow> was_current manifest_key (published_manifests d) r"
    using r by (simp add: was_current_same)
  show "was_current manifest_key (published_manifests d) r
      \<or> (\<exists>jur n now. e = PePromoteManifest jur n now \<and> manifest_key r = (Some jur, n) \<and> may_promote_manifest d jur n now)"
  proof (cases e)
    case (PeManifest tso mo now)
    from assms have "publish_manifest lib tso mo now d = Inr d'" by (simp add: PeManifest)
    then show ?thesis by (cases rule: publish_manifest_effect) (use r in \<open>auto intro: was_current_same\<close>)
  next
    case (PeCard tso co now)
    from assms have "publish_card lib tso co now d = Inr d'" by (simp add: PeCard)
    then show ?thesis by (cases rule: publish_card_effect) (use same in auto)
  next
    case (PePromoteManifest j n now)
    from assms have "promote_manifest lib j n now d = Inr d'" by (simp add: PePromoteManifest)
    then show ?thesis
    proof (cases rule: promote_manifest_effect)
      case (2 x sid p)
      have "may_promote_manifest d j n now"
        unfolding may_promote_manifest_def using 2 source_promotes_None [OF 2(4)] by blast
      moreover have "(\<exists>y \<in> set (published_manifests d). pub_status y = ''CURRENT'' \<and> r = y) \<or> is_manifest j n r"
        using r make_current_rows [of r _ "is_manifest j n" n "published_manifests d"] unfolding 2(11) by simp
      ultimately show ?thesis
        using PePromoteManifest was_current_same by (auto simp: is_manifest_def manifest_key_def)
    qed (use same in auto)
  next
    case (PePromoteCard p v now)
    from assms have "promote_card p v now d = Inr d'" by (simp add: PePromoteCard)
    then show ?thesis by (cases rule: promote_card_effect) (use same in auto)
  next
    case (PeSource sink sid v target actor rsn eid now)
    then show ?thesis using assms transition_current(1) r by simp
  next
    case (PeResource x)
    then show ?thesis
      using assms same by (auto simp: publish_resource_def bind_res_Inr split: option.splits if_splits)
  qed (use assms r same in \<open>auto simp: withdraw_manifest_def set_manifest_status_def quarantine_manifest_def content_of_def
        withdraw_card_def set_card_status_def quarantine_card_def update_card_def elim!: update_current\<close>)
next
  assume r: "r \<in> set (published_cards d')" "pub_status r = ''CURRENT''"
  have same: "published_cards d' = published_cards d \<Longrightarrow> was_current card_row_key (published_cards d) r"
    using r by (simp add: was_current_same)
  show "was_current card_row_key (published_cards d) r
      \<or> (\<exists>pkg v now. e = PePromoteCard pkg v now \<and> card_row_key r = (pkg, v) \<and> may_promote_card d pkg v now)"
  proof (cases e)
    case (PeManifest tso mo now)
    from assms have "publish_manifest lib tso mo now d = Inr d'" by (simp add: PeManifest)
    then show ?thesis by (cases rule: publish_manifest_effect) (use same in auto)
  next
    case (PeCard tso co now)
    from assms have "publish_card lib tso co now d = Inr d'" by (simp add: PeCard)
    then show ?thesis by (cases rule: publish_card_effect) (use r in \<open>auto intro: was_current_same\<close>)
  next
    case (PePromoteManifest j n now)
    from assms have "promote_manifest lib j n now d = Inr d'" by (simp add: PePromoteManifest)
    then show ?thesis by (cases rule: promote_manifest_effect) (use same in auto)
  next
    case (PePromoteCard pkg v now)
    from assms have "promote_card pkg v now d = Inr d'" by (simp add: PePromoteCard)
    then show ?thesis
    proof (cases rule: promote_card_effect)
      case (2 x sid p)
      have "may_promote_card d pkg v now"
        unfolding may_promote_card_def using 2 source_promotes_None [OF 2(4)] by blast
      moreover have "(\<exists>y \<in> set (published_cards d). pub_status y = ''CURRENT'' \<and> r = y) \<or> is_card pkg v r"
        using r make_current_rows [of r _ "is_card pkg v" v "published_cards d"] unfolding 2(11) by simp
      ultimately show ?thesis
        using PePromoteCard was_current_same by (auto simp: is_card_def card_row_key_def)
    qed (use same in auto)
  next
    case (PeSource sink sid v target actor rsn eid now)
    then show ?thesis using assms transition_current(2) r by simp
  next
    case (PeResource x)
    then show ?thesis
      using assms same by (auto simp: publish_resource_def bind_res_Inr split: option.splits if_splits)
  qed (use assms r same in \<open>auto simp: withdraw_manifest_def set_manifest_status_def quarantine_manifest_def content_of_def
        withdraw_card_def set_card_status_def quarantine_card_def update_manifest_def elim!: update_card_current\<close>)
qed

lemma pub_step_result:
  "pub_op lib e d = Inl err \<Longrightarrow> pub_step lib d e = d" "pub_op lib e d = Inr d' \<Longrightarrow> pub_step lib d e = d'"
  by (simp_all add: pub_step_def kept_def)

section \<open>Every current row was promoted\<close>

definition manifest_promoted :: "publish_lib \<Rightarrow> db \<Rightarrow> pub_event list \<Rightarrow> string \<Rightarrow> int \<Rightarrow> bool" where
  "manifest_promoted lib d es jur n \<longleftrightarrow> (\<exists>pre post now. es = pre @ PePromoteManifest jur n now # post
     \<and> may_promote_manifest (run (pub_step lib) d pre) jur n now)"

definition card_promoted :: "publish_lib \<Rightarrow> db \<Rightarrow> pub_event list \<Rightarrow> string \<Rightarrow> int \<Rightarrow> bool" where
  "card_promoted lib d es pkg v \<longleftrightarrow> (\<exists>pre post now. es = pre @ PePromoteCard pkg v now # post
     \<and> may_promote_card (run (pub_step lib) d pre) pkg v now)"

lemma promoted_snoc:
  "manifest_promoted lib d es jur n \<Longrightarrow> manifest_promoted lib d (es @ [e]) jur n"
  "card_promoted lib d es pkg v \<Longrightarrow> card_promoted lib d (es @ [e]) pkg v"
  unfolding manifest_promoted_def card_promoted_def by fastforce+

lemma promoted_last:
  "may_promote_manifest (run (pub_step lib) d es) jur n now \<Longrightarrow> manifest_promoted lib d (es @ [PePromoteManifest jur n now]) jur n"
  "may_promote_card (run (pub_step lib) d es) pkg v now \<Longrightarrow> card_promoted lib d (es @ [PePromoteCard pkg v now]) pkg v"
  unfolding manifest_promoted_def card_promoted_def by blast+

lemma current_promoted:
  assumes "published_manifests d = []" and "published_cards d = []"
  shows "(\<forall>r \<in> set (published_manifests (run (pub_step lib) d es)). pub_status r = ''CURRENT''
        \<longrightarrow> (\<exists>jur n. manifest_key r = (Some jur, n) \<and> manifest_promoted lib d es jur n))
    \<and> (\<forall>r \<in> set (published_cards (run (pub_step lib) d es)). pub_status r = ''CURRENT''
        \<longrightarrow> (\<exists>pkg v. card_row_key r = (pkg, v) \<and> card_promoted lib d es pkg v))"
proof (induction es rule: rev_induct)
  case Nil
  show ?case using assms by simp
next
  case (snoc e es)
  let ?d = "run (pub_step lib) d es"
  show ?case
  proof (cases "pub_op lib e ?d")
    case (Inl err)
    then have "run (pub_step lib) d (es @ [e]) = ?d" by (simp add: pub_step_result(1))
    then show ?thesis using snoc.IH promoted_snoc by metis
  next
    case (Inr d')
    have m: "\<exists>jur n. manifest_key r = (Some jur, n) \<and> manifest_promoted lib d (es @ [e]) jur n"
      if "r \<in> set (published_manifests d')" "pub_status r = ''CURRENT''" for r
      using became_current(1) [OF Inr that]
    proof
      assume "was_current manifest_key (published_manifests ?d) r"
      then obtain x where "x \<in> set (published_manifests ?d)" "pub_status x = ''CURRENT''" "manifest_key x = manifest_key r"
        unfolding was_current_def by blast
      then show ?thesis using snoc.IH promoted_snoc(1) by metis
    next
      assume "\<exists>jur n now. e = PePromoteManifest jur n now \<and> manifest_key r = (Some jur, n) \<and> may_promote_manifest ?d jur n now"
      then show ?thesis using promoted_last(1) by blast
    qed
    have c: "\<exists>pkg v. card_row_key r = (pkg, v) \<and> card_promoted lib d (es @ [e]) pkg v"
      if "r \<in> set (published_cards d')" "pub_status r = ''CURRENT''" for r
      using became_current(2) [OF Inr that]
    proof
      assume "was_current card_row_key (published_cards ?d) r"
      then obtain x where "x \<in> set (published_cards ?d)" "pub_status x = ''CURRENT''" "card_row_key x = card_row_key r"
        unfolding was_current_def by blast
      then show ?thesis using snoc.IH promoted_snoc(2) by metis
    next
      assume "\<exists>pkg v now. e = PePromoteCard pkg v now \<and> card_row_key r = (pkg, v) \<and> may_promote_card ?d pkg v now"
      then show ?thesis using promoted_last(2) by blast
    qed
    have "run (pub_step lib) d (es @ [e]) = d'" using Inr by (simp add: pub_step_result(2))
    then show ?thesis using m c by simp
  qed
qed

lemma tables_ok_fresh: "published_manifests d = [] \<Longrightarrow> published_cards d = [] \<Longrightarrow> tables_ok d"
  by (simp add: tables_ok_def)

lemma run_signed:
  assumes "published_manifests d = []" "published_cards d = []"
  shows "r \<in> set (published_manifests (run (pub_step lib) d es)) \<Longrightarrow> signed_manifest lib (set es) r"
    and "r \<in> set (published_cards (run (pub_step lib) d es)) \<Longrightarrow> signed_card lib (set es) r"
proof -
  have g: "grown lib (set es) d (run (pub_step lib) d es)" by (rule run_grown [OF tables_ok_fresh [OF assms]])
  show "r \<in> set (published_manifests (run (pub_step lib) d es)) \<Longrightarrow> signed_manifest lib (set es) r"
    using grows_all [of "signed_manifest lib (set es)" "published_manifests d"] g assms(1) unfolding grown_def by fastforce
  show "r \<in> set (published_cards (run (pub_step lib) d es)) \<Longrightarrow> signed_card lib (set es) r"
    using grows_all [of "signed_card lib (set es)" "published_cards d"] g assms(2) unfolding grown_def by fastforce
qed

section \<open>What the adapter returns\<close>

text \<open>A publishing call of the run verified the text of a record, and the record is what was signed.\<close>

definition manifest_verified :: "publish_lib \<Rightarrow> pub_event list \<Rightarrow> string \<Rightarrow> manifest_record \<Rightarrow> bool" where
  "manifest_verified lib es jur mrec \<longleftrightarrow>
     (\<exists>ts m now p. PeManifest (Some ts) (Some m) now \<in> set es \<and> read_manifest lib (mr_raw mrec) = Inr p
       \<and> verify_manifest (pub_crypto lib) (pub_quote lib) (pub_rfc lib) (verify_signature (pub_crypto lib) ts) (Some p) = None
       \<and> mf_jurisdiction p = jur \<and> mf_revision p = mr_revision mrec \<and> mf_checksum p = mr_checksum mrec)"

definition card_verified :: "publish_lib \<Rightarrow> pub_event list \<Rightarrow> string \<Rightarrow> int \<Rightarrow> card_record \<Rightarrow> bool" where
  "card_verified lib es pkg v crec \<longleftrightarrow>
     (\<exists>ts c now p. PeCard (Some ts) (Some c) now \<in> set es \<and> read_card lib (cr_raw crec) = Inr p
       \<and> verify_card (pub_crypto lib) (pub_quote lib) (pub_float lib) (pub_rfc lib) (verify_signature (pub_crypto lib) ts) (Some p) = None
       \<and> ic_package_id p = pkg \<and> ic_version p = v \<and> ic_checksum p = cr_checksum crec)"

lemma adapter_manifest_source:
  assumes "published_manifests d0 = []" "published_cards d0 = []" "adapter_get_manifest (run (pub_step lib) d0 es) jur = Inr mrec"
  shows "manifest_promoted lib d0 es jur (mr_revision mrec) \<and> manifest_verified lib es jur mrec"
proof
  obtain r where r: "top_current (run (pub_step lib) d0 es) jur r" "mr_revision mrec = pub_number r" "mr_raw mrec = pub_raw r"
      "mr_checksum mrec = pub_checksum r"
    using assms(3) by (auto simp: adapter_manifest_iff)
  then have mem: "r \<in> set (published_manifests (run (pub_step lib) d0 es))" and cur: "pub_status r = ''CURRENT''"
    and jur: "pub_jurisdiction r = Some jur"
    by (auto simp: top_current_def current_in_def)
  show "manifest_promoted lib d0 es jur (mr_revision mrec)"
    using current_promoted [OF assms(1,2), of lib es] mem cur jur r(2) by (auto simp: manifest_key_def)
  show "manifest_verified lib es jur mrec"
    using run_signed(1) [OF assms(1,2) mem] jur r unfolding signed_manifest_def manifest_verified_def by force
qed

lemma adapter_card_source:
  assumes "published_manifests d0 = []" "published_cards d0 = []" "adapter_get_card (run (pub_step lib) d0 es) pkg v = Inr crec"
  shows "card_promoted lib d0 es pkg v \<and> card_verified lib es pkg v crec"
proof
  obtain r where r: "find (is_card pkg v) (published_cards (run (pub_step lib) d0 es)) = Some r" "pub_status r = ''CURRENT''"
      "cr_raw crec = pub_raw r" "cr_checksum crec = pub_checksum r"
    using assms(3) by (auto simp: adapter_card_iff)
  then have mem: "r \<in> set (published_cards (run (pub_step lib) d0 es))" and key: "pub_package r = pkg" "pub_number r = v"
    by (auto simp: find_Some_iff is_card_def)
  show "card_promoted lib d0 es pkg v"
    using current_promoted [OF assms(1,2), of lib es] mem r(2) key by (auto simp: card_row_key_def)
  show "card_verified lib es pkg v crec"
    using run_signed(2) [OF assms(1,2) mem] key r unfolding signed_card_def card_verified_def by force
qed

section \<open>Properties\<close>

text \<open>C4: What the delivery reads from the store was signed and promoted: along any run of the trusted
  boundary that starts with nothing published, a manifest or card that the adapter returns is a text
  that one of the publishing calls verified against its trust store, whose signed jurisdiction and
  revision (package and version) are those it is delivered for and whose declared checksum is the one
  delivered, and an earlier promotion of that very revision found its source operational and
  authorized and its package in force.\<close>

theorem delivered_was_signed_and_promoted:
  assumes "published_manifests d0 = []" and "published_cards d0 = []" and "d = run (pub_step lib) d0 es"
  shows "(adapter_get_manifest d jur = Inr mrec
      \<longrightarrow> manifest_promoted lib d0 es jur (mr_revision mrec) \<and> manifest_verified lib es jur mrec)
    \<and> (adapter_get_card d pkg v = Inr crec \<longrightarrow> card_promoted lib d0 es pkg v \<and> card_verified lib es pkg v crec)"
  using adapter_manifest_source [OF assms(1,2)] adapter_card_source [OF assms(1,2)] unfolding assms(3) by blast

definition demo_docs :: "'a \<Rightarrow> 'a doc_lib" where
  "demo_docs x = \<lparr>doc_tokens = (\<lambda>_. [TScalar]), doc_decode = (\<lambda>_. Inr x), doc_trailing = (\<lambda>_. NoTrailing)\<rparr>"

definition demo_publish_lib :: publish_lib where
  "demo_publish_lib = \<lparr>manifest_docs = demo_docs demo_manifest, card_docs = demo_docs Offline_Card.demo_card, pub_rfc = demo_rfc,
     pub_crypto = demo_lib, pub_quote = simple_quote, pub_float = (\<lambda>_. ''1'')\<rparr>"

definition demo_library :: db where
  "demo_library = demo_ctx\<lparr>authorizations := map (\<lambda>a. a\<lparr>auth_jurisdiction := ''ka''\<rparr>) (authorizations demo_ctx),
     packages := map (\<lambda>(i, p). (i, p\<lparr>pkg_jurisdiction := ''ka''\<rparr>)) (packages demo_ctx)\<rparr>"

definition demo_publication :: publication where
  "demo_publication = \<lparr>pm_manifest_id = ''m1'', pm_package = [], pm_number = 2, pm_jurisdiction = ''ka'', pm_source = ''src'',
     pm_raw = ''raw'', pm_checksum = [], pm_status = ''CURRENT'', pm_quarantined = False\<rparr>"

definition demo_staged :: published_row where
  "demo_staged = \<lparr>pub_manifest_id = Some ''m1'', pub_package = ''p'', pub_number = 2, pub_jurisdiction = Some ''ka'',
     pub_source = Some ''src'', pub_raw = ''raw'', pub_checksum = replicate 64 (CHR ''1''), pub_status = ''STAGED'',
     pub_quarantined = False\<rparr>"

definition demo_publish :: "pub_event list" where
  "demo_publish = [PeManifest (Some (new_trust_store 9 [demo_key])) (Some demo_publication) 5, PePromoteManifest ''ka'' 2 6]"

lemma demo_read: "read_manifest demo_publish_lib ''raw'' = Inr demo_manifest"
  by code_simp

lemma demo_verified:
  "verify_manifest (pub_crypto demo_publish_lib) (pub_quote demo_publish_lib) (pub_rfc demo_publish_lib)
     (verify_signature (pub_crypto demo_publish_lib) (new_trust_store 9 [demo_key])) (Some demo_manifest) = None"
  by code_simp

lemma demo_authority:
  "manifest_identity demo_publication demo_manifest = None" "manifest_authority demo_publication ''p'' 5 demo_library = None"
  by code_simp+

lemma demo_unpublished: "published_manifests demo_library = []" "published_cards demo_library = []"
  by (simp_all add: demo_library_def demo_ctx_def demo_db_def blank_db_def)

lemma demo_fields:
  "pm_manifest_id demo_publication = ''m1''" "pm_jurisdiction demo_publication = ''ka''" "pm_number demo_publication = 2"
  "pm_raw demo_publication = ''raw''" "pm_source demo_publication = ''src''"
  "cd_package_id (mf_critical_card demo_manifest) = ''p''" "mf_checksum demo_manifest = replicate 64 (CHR ''1'')"
  by (simp_all add: demo_publication_def demo_manifest_def)

lemma demo_publishes:
  "publish_manifest demo_publish_lib (Some (new_trust_store 9 [demo_key])) (Some demo_publication) 5 demo_library
     = Inr (demo_library\<lparr>published_manifests := [demo_staged]\<rparr>)"
  unfolding publish_manifest_def option.case demo_fields demo_read sum.case demo_verified Let_def demo_authority demo_unpublished
  by (simp add: check_def first_err_Cons add_manifest_row_def demo_unpublished manifest_row_def null_def demo_fields demo_staged_def
      require_def)

lemma demo_promotes:
  "promote_manifest demo_publish_lib ''ka'' 2 6 (demo_library\<lparr>published_manifests := [demo_staged]\<rparr>)
     = Inr (demo_library\<lparr>published_manifests := [demo_staged\<lparr>pub_status := ''CURRENT''\<rparr>]\<rparr>)"
  by code_simp

lemma demo_run:
  "run (pub_step demo_publish_lib) demo_library demo_publish
     = demo_library\<lparr>published_manifests := [demo_staged\<lparr>pub_status := ''CURRENT''\<rparr>]\<rparr>"
  by (simp add: demo_publish_def pub_step_def kept_def demo_publishes demo_promotes)

theorem delivered_was_signed_and_promoted_witness:
  "manifest_promoted demo_publish_lib demo_library demo_publish ''ka'' 2"
proof -
  let ?d = "run (pub_step demo_publish_lib) demo_library demo_publish"
  have "map_sum id mr_revision (adapter_get_manifest ?d ''ka'') = Inr 2" unfolding demo_run by code_simp
  then obtain mrec where "adapter_get_manifest ?d ''ka'' = Inr mrec" "mr_revision mrec = 2"
    by (cases "adapter_get_manifest ?d ''ka''") auto
  then show ?thesis
    using delivered_was_signed_and_promoted [OF demo_unpublished refl, of demo_publish_lib demo_publish "''ka''" mrec] by metis
qed

lemma grows_row: "grows Q rows rows' \<Longrightarrow> r \<in> set rows \<Longrightarrow> \<exists>r' \<in> set rows'. content_of r' = content_of r \<and> (dead r \<longrightarrow> dead r')"
  unfolding grows_def keeps_def by fastforce



section \<open>The served revision does not go back\<close>

definition restrictive :: "pub_event \<Rightarrow> bool" where
  "restrictive e = (case e of PeWithdrawManifest j n \<Rightarrow> True | PeQuarantineManifest j n \<Rightarrow> True
     | PeSource sink sid v target actor rsn eid now \<Rightarrow> True | _ \<Rightarrow> False)"

definition visible_rows :: "string \<Rightarrow> published_row list \<Rightarrow> published_row list" where
  "visible_rows jur rows = filter (\<lambda>r. pub_jurisdiction r = Some jur \<and> pub_status r \<noteq> ''STAGED'') rows"

lemma adapter_visible:
  assumes "visible_rows jur (published_manifests d') = visible_rows jur (published_manifests d)"
  shows "adapter_get_manifest d' jur = adapter_get_manifest d jur"
  using assms by (simp add: adapter_get_manifest_def get_published_manifest_def visible_rows_def)

lemma top_unique:
  assumes "distinct (map manifest_key (published_manifests d))" "top_current d jur x" "top_current d jur y"
  shows "x = y"
  using assms by (intro same_row [OF assms(1)]) (auto simp: top_current_def current_in_def manifest_key_def intro: antisym)

lemma adapter_top:
  assumes "tables_ok d" "top_current d jur y" "\<not> pub_quarantined y"
  shows "\<exists>mrec. adapter_get_manifest d jur = Inr mrec \<and> mr_revision mrec = pub_number y"
proof -
  obtain r where r: "get_published_manifest d jur = Inr r" "top_current d jur r"
    using served_exists [of y d jur] assms(2) unfolding top_current_def by blast
  have "r = y" using top_unique [OF _ r(2) assms(2)] assms(1) by (simp add: tables_ok_def)
  then show ?thesis using r assms(3) unfolding adapter_manifest_iff by auto
qed

definition promoted_row :: "(published_row \<Rightarrow> bool) \<Rightarrow> (published_row \<Rightarrow> bool) \<Rightarrow> int \<Rightarrow> published_row \<Rightarrow> published_row" where
  "promoted_row grp target n x = (if target x then x\<lparr>pub_status := ''CURRENT''\<rparr>
     else if grp x \<and> pub_number x < n \<and> pub_status x = ''CURRENT'' then x\<lparr>pub_status := ''SUPERSEDED''\<rparr> else x)"

lemma make_current_map:
  "make_current (\<lambda>x. pub_jurisdiction x = Some j) (is_manifest j n) n rows
     = map (promoted_row (\<lambda>x. pub_jurisdiction x = Some j) (is_manifest j n) n) rows"
  by (simp add: make_current_def update_rows_def promoted_row_def)

lemma in_make_current:
  "y \<in> set (make_current (\<lambda>x. pub_jurisdiction x = Some j) (is_manifest j n) n rows)
     \<longleftrightarrow> (\<exists>x \<in> set rows. y = promoted_row (\<lambda>x. pub_jurisdiction x = Some j) (is_manifest j n) n x)"
  unfolding make_current_map set_map by blast

lemma visible_make_current:
  assumes "jur \<noteq> j"
  shows "visible_rows jur (make_current (\<lambda>x. pub_jurisdiction x = Some j) (is_manifest j n) n rows) = visible_rows jur rows"
proof (induction rows)
  case (Cons x rows)
  have "promoted_row (\<lambda>x. pub_jurisdiction x = Some j) (is_manifest j n) n x = x" if "pub_jurisdiction x = Some jur"
    using that assms by (simp add: promoted_row_def is_manifest_def)
  moreover have "pub_jurisdiction (promoted_row (\<lambda>x. pub_jurisdiction x = Some j) (is_manifest j n) n x) = pub_jurisdiction x"
    by (simp add: promoted_row_def)
  ultimately show ?case
    using Cons.IH by (cases "pub_jurisdiction x = Some jur") (simp_all add: make_current_map visible_rows_def)
qed (simp add: make_current_def update_rows_def)

lemma promote_serves:
  assumes ok: "tables_ok d" and a: "adapter_get_manifest d jur = Inr mrec" and p: "promote_manifest lib j n now d = Inr d'"
  shows "\<exists>mrec'. adapter_get_manifest d' jur = Inr mrec' \<and> mr_revision mrec \<le> mr_revision mrec'"
  using p
proof (cases rule: promote_manifest_effect)
  case (1 r)
  then show ?thesis using a by blast
next
  case (2 r sid pk)
  let ?rows = "published_manifests d" and ?rows' = "make_current (\<lambda>x. pub_jurisdiction x = Some j) (is_manifest j n) n (published_manifests d)"
  have rows': "published_manifests d' = ?rows'" using 2 by simp
  show ?thesis
  proof (cases "jur = j")
    case False
    then show ?thesis using a adapter_visible [of jur d' d] rows' visible_make_current [OF False] by simp
  next
    case True
    obtain x where x: "top_current d j x" "\<not> pub_quarantined x" "mr_revision mrec = pub_number x"
      using a True by (auto simp: adapter_manifest_iff)
    have r: "r \<in> set ?rows" "is_manifest j n r" using 2(1) by (auto simp: find_Some_iff)
    have only: "y = r" if "y \<in> set ?rows" "is_manifest j n y" for y
      using ok that r by (intro same_row [of manifest_key ?rows]) (auto simp: tables_ok_def is_manifest_def manifest_key_def)
    have ok': "tables_ok d'"
      using op_grown [OF ok, of lib "PePromoteManifest j n now" d'] p by (simp add: grown_def)
    have cur: "y = r\<lparr>pub_status := ''CURRENT''\<rparr> \<or> y \<in> set ?rows \<and> current_in j y \<and> n \<le> pub_number y"
      if mem: "y \<in> set ?rows'" and now: "current_in j y" for y
    proof -
      obtain z where z: "z \<in> set ?rows" "y = promoted_row (\<lambda>x. pub_jurisdiction x = Some j) (is_manifest j n) n z"
        using mem unfolding in_make_current by (rule bexE)
      show ?thesis
      proof (cases "is_manifest j n z")
        case True
        with z(2) only [OF z(1) True] show ?thesis by (simp add: promoted_row_def)
      next
        case False
        have "y = z \<and> n \<le> pub_number z"
          using z(2) False now by (auto simp: promoted_row_def current_in_def split: if_splits)
        with z(1) now show ?thesis by simp
      qed
    qed
    have prom: "r\<lparr>pub_status := ''CURRENT''\<rparr> \<in> set ?rows'"
      using r unfolding in_make_current by (auto simp: promoted_row_def)
    have num: "pub_number r = n" "pub_jurisdiction r = Some j" using r(2) by (simp_all add: is_manifest_def)
    show ?thesis
    proof (cases "pub_number x < n")
      case True
      have "top_current d' j (r\<lparr>pub_status := ''CURRENT''\<rparr>)"
        unfolding top_current_def rows'
      proof (intro conjI ballI impI)
        show "pub_number z \<le> pub_number (r\<lparr>pub_status := ''CURRENT''\<rparr>)" if "z \<in> set ?rows'" "current_in j z" for z
          using cur [OF that] x(1) True num by (force simp: top_current_def)
      qed (use prom num in \<open>simp_all add: current_in_def\<close>)
      moreover have "\<not> pub_quarantined (r\<lparr>pub_status := ''CURRENT''\<rparr>)" using 2(2) by (simp add: dead_def)
      ultimately show ?thesis
        using adapter_top [OF ok'] \<open>jur = j\<close> x(3) True num by fastforce
    next
      case False
      define y where "y = (if is_manifest j n x then r\<lparr>pub_status := ''CURRENT''\<rparr> else x)"
      have xr: "is_manifest j n x \<Longrightarrow> x = r" using only x(1) by (auto simp: top_current_def)
      have "y \<in> set ?rows'"
        unfolding y_def in_make_current promoted_row_def
        using x(1) xr r False by (auto simp: top_current_def)
      moreover have "current_in j y" "pub_number y = pub_number x" "\<not> pub_quarantined y"
        using x xr num by (auto simp: y_def top_current_def current_in_def)
      moreover have "pub_number z \<le> pub_number y" if "z \<in> set ?rows'" "current_in j z" for z
        using cur [OF that] x(1) False num calculation(3) by (auto simp: top_current_def)
      ultimately have "top_current d' j y" unfolding top_current_def rows' by blast
      then show ?thesis
        using adapter_top [OF ok' _ \<open>\<not> pub_quarantined y\<close>] \<open>jur = j\<close> x(3) \<open>pub_number y = pub_number x\<close> by fastforce
    qed
  qed
qed

lemma unrestricted_serves:
  assumes ok: "tables_ok d" and a: "adapter_get_manifest d jur = Inr mrec" and e: "\<not> restrictive e"
  shows "\<exists>mrec'. adapter_get_manifest (pub_step lib d e) jur = Inr mrec' \<and> mr_revision mrec \<le> mr_revision mrec'"
proof (cases "pub_op lib e d")
  case (Inl err)
  then show ?thesis using a by (simp add: pub_step_result)
next
  case (Inr d')
  have same: "visible_rows jur (published_manifests d') = visible_rows jur (published_manifests d) \<Longrightarrow> ?thesis"
    using adapter_visible [of jur d' d] a by (simp add: pub_step_result(2) [OF Inr])
  show ?thesis
  proof (cases e)
    case (PeManifest tso mo now)
    from Inr have "publish_manifest lib tso mo now d = Inr d'" by (simp add: PeManifest)
    then show ?thesis by (cases rule: publish_manifest_effect) (auto intro!: same simp: visible_rows_def)
  next
    case (PeCard tso co now)
    from Inr have "publish_card lib tso co now d = Inr d'" by (simp add: PeCard)
    then show ?thesis by (cases rule: publish_card_effect) (auto intro!: same)
  next
    case (PePromoteManifest j n now)
    from Inr have "promote_manifest lib j n now d = Inr d'" by (simp add: PePromoteManifest)
    from promote_serves [OF ok a this] show ?thesis unfolding pub_step_result(2) [OF Inr] .
  next
    case (PePromoteCard p v now)
    from Inr have "promote_card p v now d = Inr d'" by (simp add: PePromoteCard)
    then show ?thesis by (cases rule: promote_card_effect) (auto intro!: same)
  next
    case (PeResource x)
    with Inr have "published_manifests d' = published_manifests d"
      by (auto simp: publish_resource_def bind_res_Inr split: option.splits if_splits)
    then show ?thesis by (intro same) simp
  next
    case (PeWithdrawCard p v)
    with Inr have "published_manifests d' = published_manifests d"
      by (auto simp: withdraw_card_def set_card_status_def update_card_def)
    then show ?thesis by (intro same) simp
  next
    case (PeQuarantineCard p v)
    with Inr have "published_manifests d' = published_manifests d" by (auto simp: quarantine_card_def update_card_def)
    then show ?thesis by (intro same) simp
  qed (use e in \<open>simp_all add: restrictive_def\<close>)
qed

text \<open>C30: The revision that a jurisdiction is served does not go back: as long as no manifest is withdrawn
  or quarantined and no source changes its state, publishing and promoting in any order keep a
  manifest served, and its revision never decreases, even when a lower revision is promoted.\<close>

theorem served_revision_monotone:
  assumes "published_manifests d0 = []" and "published_cards d0 = []" and "d = run (pub_step lib) d0 es"
    and "adapter_get_manifest d jur = Inr mrec" and "\<forall>e \<in> set fs. \<not> restrictive e"
  shows "\<exists>mrec'. adapter_get_manifest (run (pub_step lib) d fs) jur = Inr mrec' \<and> mr_revision mrec \<le> mr_revision mrec'"
  using assms(5)
proof (induction fs rule: rev_induct)
  case Nil
  show ?case using assms(4) by auto
next
  case (snoc f fs)
  let ?d = "run (pub_step lib) d fs"
  obtain mrec' where m: "adapter_get_manifest ?d jur = Inr mrec'" "mr_revision mrec \<le> mr_revision mrec'" using snoc by auto
  have "tables_ok ?d"
    using run_grown [OF tables_ok_fresh [OF assms(1,2)], of lib "es @ fs"] by (simp add: grown_def assms(3))
  from unrestricted_serves [OF this m(1), of f lib] show ?case using snoc.prems m(2) by fastforce
qed

theorem served_revision_monotone_witness:
  "\<exists>mrec. adapter_get_manifest (run (pub_step demo_publish_lib) demo_library (demo_publish @ demo_publish)) ''ka'' = Inr mrec
     \<and> 2 \<le> mr_revision mrec"
proof -
  let ?d = "run (pub_step demo_publish_lib) demo_library demo_publish"
  have "map_sum id mr_revision (adapter_get_manifest ?d ''ka'') = Inr 2" unfolding demo_run by code_simp
  then obtain mrec where m: "adapter_get_manifest ?d ''ka'' = Inr mrec" "mr_revision mrec = 2"
    by (cases "adapter_get_manifest ?d ''ka''") auto
  have "\<forall>e \<in> set demo_publish. \<not> restrictive e" by (simp add: demo_publish_def restrictive_def)
  then show ?thesis using served_revision_monotone [OF demo_unpublished refl m(1), of demo_publish] m(2) by simp
qed

end
