(* ===== verification/Delivery_Handler.thy ===== *)
theory Delivery_Handler
  imports Delivery_Cache Delivery_Range Publication_Safety
begin

text \<open>
  The public delivery endpoints, backend/internal/offlinedelivery/handler.go, over the cached source
  of cache.go, the adapter of httpserver/publication_adapter.go and the observer calls of
  store/publication.go. A request is what the handlers read of it; a reply is the status, the headers
  in the order they were first set, and the body. A handler returns None when it does not answer.
\<close>

section \<open>Requests and replies\<close>

record delivery_request =
  dq_method :: string
  dq_id :: string
  dq_version :: string
  dq_none_match :: string
  dq_range :: string
  dq_if_range :: string
  dq_request_id :: string

record api_error =
  ae_code :: string
  ae_message :: msg
  ae_field :: string
  ae_correlation :: string
  ae_retryable :: bool
  ae_generated :: time

datatype reply_body = NoBody | Bytes string | Envelope api_error

record delivery_reply =
  dl_status :: int
  dl_headers :: "(string, string) gomap"
  dl_body :: reply_body

definition write_error ::
  "delivery_request \<Rightarrow> time \<Rightarrow> (string, string) gomap \<Rightarrow> int \<Rightarrow> string \<Rightarrow> msg \<Rightarrow> string \<Rightarrow> delivery_reply"
where
  "write_error q now hs status code message fld =
     \<lparr>dl_status = status,
      dl_headers = put ''X-Content-Type-Options'' ''nosniff'' (put ''Content-Type'' ''application/json'' hs),
      dl_body = Envelope \<lparr>ae_code = code, ae_message = message, ae_field = fld, ae_correlation = dq_request_id q,
        ae_retryable = (500 \<le> status), ae_generated = now\<rparr>\<rparr>"

definition allowed_method :: "delivery_request \<Rightarrow> bool" where
  "allowed_method q \<longleftrightarrow> dq_method q = ''GET'' \<or> dq_method q = ''HEAD''"

definition method_error :: "delivery_request \<Rightarrow> time \<Rightarrow> delivery_reply" where
  "method_error q now = write_error q now [(''Allow'', ''GET, HEAD'')] 405 ''METHOD_NOT_ALLOWED''
     (Fmt ''method %s not allowed'' [AStr (dq_method q)]) []"

section \<open>Identifiers\<close>

definition letter_or_digit :: "char \<Rightarrow> bool" where
  "letter_or_digit c \<longleftrightarrow> (let n = of_char c :: int in 97 \<le> n \<and> n \<le> 122 \<or> 65 \<le> n \<and> n \<le> 90 \<or> 48 \<le> n \<and> n \<le> 57)"

definition contains_traversal :: "string \<Rightarrow> bool" where
  "contains_traversal s \<longleftrightarrow> str_contains s ''..'' \<or> str_contains s ''/'' \<or> str_contains s [CHR 0x5C]
     \<or> str_contains s ''%2e'' \<or> str_contains s ''%2f'' \<or> str_contains s [CHR 0x00]"

definition validate_jurisdiction :: "string \<Rightarrow> bool" where
  "validate_jurisdiction s \<longleftrightarrow> (\<forall>c \<in> set s. letter_or_digit c \<or> c \<in> set ''_-'') \<and> 2 \<le> length s \<and> length s \<le> 32
     \<and> \<not> contains_traversal s"

definition validate_package_id :: "string \<Rightarrow> bool" where
  "validate_package_id s \<longleftrightarrow> (\<forall>c \<in> set s. letter_or_digit c \<or> c \<in> set ''_.:-'') \<and> 1 \<le> length s \<and> length s \<le> 64
     \<and> \<not> contains_traversal s"

definition validate_resource_id :: "string \<Rightarrow> bool" where
  "validate_resource_id s \<longleftrightarrow> (\<forall>c \<in> set s. letter_or_digit c \<or> c \<in> set ''_.:-'') \<and> 1 \<le> length s \<and> length s \<le> 128
     \<and> \<not> contains_traversal s"

definition new_handler_config :: "delivery_config \<Rightarrow> delivery_config" where
  "new_handler_config cfg = (let d = default_config in
     cfg\<lparr>max_card_bytes := (if max_card_bytes cfg \<le> 0 then max_card_bytes d else max_card_bytes cfg),
         max_manifest_bytes := (if max_manifest_bytes cfg \<le> 0 then max_manifest_bytes d else max_manifest_bytes cfg),
         max_resource_bytes := (if max_resource_bytes cfg \<le> 0 then max_resource_bytes d else max_resource_bytes cfg),
         stream_chunk_size := (if stream_chunk_size cfg \<le> 0 then stream_chunk_size d else stream_chunk_size cfg)\<rparr>)"

section \<open>Manifests\<close>

text \<open>The error replies of a source, with the code of each and the texts of the endpoint.\<close>

definition source_error_reply ::
  "delivery_request \<Rightarrow> time \<Rightarrow> msg \<Rightarrow> msg \<Rightarrow> msg \<Rightarrow> source_error \<Rightarrow> delivery_reply"
where
  "source_error_reply q now missing quarantined unavailable e =
     (case e of
        SrcNotFound \<Rightarrow> write_error q now [] 404 ''NOT_FOUND'' missing ''id''
      | SrcQuarantined \<Rightarrow> write_error q now [] 410 ''DATA_UNAVAILABLE'' quarantined ''id''
      | SrcFailed err \<Rightarrow> write_error q now [] 503 ''DATA_UNAVAILABLE'' unavailable [])"

definition content_headers :: "string \<Rightarrow> string \<Rightarrow> bool \<Rightarrow> string \<Rightarrow> (string, string) gomap" where
  "content_headers etag caching ranges ctype =
     [(''ETag'', etag), (''Cache-Control'', caching)] @ (if ranges then [(''Accept-Ranges'', ''bytes'')] else [])
       @ [(''Content-Type'', ctype), (''X-Content-Type-Options'', ''nosniff'')]"

definition full_reply :: "delivery_request \<Rightarrow> (string, string) gomap \<Rightarrow> int \<Rightarrow> string \<Rightarrow> delivery_reply" where
  "full_reply q hs len content =
     \<lparr>dl_status = 200, dl_headers = hs @ [(''Content-Length'', show_int len)],
      dl_body = (if dq_method q = ''HEAD'' then NoBody else Bytes content)\<rparr>"

definition not_modified :: "(string, string) gomap \<Rightarrow> delivery_reply" where
  "not_modified hs = \<lparr>dl_status = 304, dl_headers = hs, dl_body = NoBody\<rparr>"

definition manifest_reply ::
  "delivery_config \<Rightarrow> delivery_request \<Rightarrow> time \<Rightarrow> source_error + manifest_record \<Rightarrow> delivery_reply"
where
  "manifest_reply cfg q now res =
     (case res of
        Inl e \<Rightarrow> source_error_reply q now (Fmt ''no active manifest for region %q'' [AStr (dq_id q)])
           (plain ''regional manifest is quarantined'') (plain ''manifest unavailable'') e
      | Inr r \<Rightarrow>
          if max_manifest_bytes cfg < int (length (mr_raw r))
          then write_error q now [] 500 ''INTERNAL'' (plain ''manifest exceeds maximum size limit'') []
          else let etag = format_etag (mr_checksum r);
                   hs = content_headers etag ''public, max-age=60, must-revalidate'' False ''application/json''
               in if check_if_none_match (dq_none_match q) etag then not_modified hs
                  else full_reply q hs (int (length (mr_raw r))) (mr_raw r))"

text \<open>A nil record without an error would be dereferenced.\<close>

definition answer :: "('e + 'b \<Rightarrow> 'r) \<Rightarrow> (mem_cache \<times> ('e + 'b option)) option \<Rightarrow> (mem_cache \<times> 'r) option" where
  "answer reply fetched =
     (case fetched of
        None \<Rightarrow> None
      | Some (c, Inl e) \<Rightarrow> Some (c, reply (Inl e))
      | Some (c, Inr None) \<Rightarrow> None
      | Some (c, Inr (Some r)) \<Rightarrow> Some (c, reply (Inr r)))"

definition handle_get_manifest ::
  "(cand list \<Rightarrow> cand) \<Rightarrow> delivery_config \<Rightarrow> (string \<Rightarrow> source_error + manifest_record option) \<Rightarrow> delivery_request \<Rightarrow> time
     \<Rightarrow> mem_cache \<Rightarrow> (mem_cache \<times> delivery_reply) option"
where
  "handle_get_manifest pick cfg src q now c =
     (if \<not> allowed_method q then Some (c, method_error q now)
      else if \<not> validate_jurisdiction (dq_id q)
      then Some (c, write_error q now [] 400 ''INVALID_VALUE'' (plain ''invalid jurisdiction identifier'') ''id'')
      else answer (manifest_reply cfg q now) (cached_get_manifest pick cfg src (dq_id q) now c))"

section \<open>Cards and ranges\<close>

text \<open>The range to serve: none when there is no Range header, when If-Range names another
  representation, and when the header is malformed.\<close>

definition requested_range :: "delivery_request \<Rightarrow> string \<Rightarrow> int \<Rightarrow> range_error + byte_range option" where
  "requested_range q etag tot =
     (if dq_range q \<noteq> [] \<and> check_if_range (dq_if_range q) etag
      then (case parse_range (dq_range q) tot of
              Inl ErrInvalidRange \<Rightarrow> Inr None
            | res \<Rightarrow> res)
      else Inr None)"

definition section_of :: "byte_range \<Rightarrow> string \<Rightarrow> string" where
  "section_of r content = take (nat (rg_length r)) (drop (nat (rg_start r)) content)"

text \<open>From the entity tag on, cards and resources are answered alike; \<open>send\<close> is the way the bytes go out.\<close>

definition ranged_reply ::
  "delivery_request \<Rightarrow> (string, string) gomap \<Rightarrow> string \<Rightarrow> int \<Rightarrow> (string \<Rightarrow> string) \<Rightarrow> string \<Rightarrow> delivery_reply"
where
  "ranged_reply q hs etag tot send content =
     (if check_if_none_match (dq_none_match q) etag then not_modified hs
      else case requested_range q etag tot of
        Inl e \<Rightarrow> \<lparr>dl_status = 416, dl_headers = hs @ [(''Content-Range'', format_unsatisfiable_range tot)], dl_body = NoBody\<rparr>
      | Inr None \<Rightarrow> full_reply q hs tot (send content)
      | Inr (Some r) \<Rightarrow>
          \<lparr>dl_status = 206,
           dl_headers = hs @ [(''Content-Range'', format_content_range r tot), (''Content-Length'', show_int (rg_length r))],
           dl_body = (if dq_method q = ''HEAD'' then NoBody else Bytes (send (section_of r content)))\<rparr>)"

definition immutable_caching :: string where
  "immutable_caching = ''public, max-age=31536000, immutable''"

definition card_reply ::
  "delivery_config \<Rightarrow> delivery_request \<Rightarrow> int \<Rightarrow> time \<Rightarrow> source_error + card_record \<Rightarrow> delivery_reply"
where
  "card_reply cfg q v now res =
     (case res of
        Inl e \<Rightarrow> source_error_reply q now (Fmt ''package %q version %d not found'' [AStr (dq_id q), AInt v])
           (plain ''package version is quarantined'') (plain ''card unavailable'') e
      | Inr r \<Rightarrow>
          if max_card_bytes cfg < int (length (cr_raw r))
          then write_error q now [] 500 ''INTERNAL'' (plain ''card exceeds maximum size limit'') []
          else let etag = format_etag (cr_checksum r)
               in ranged_reply q (content_headers etag immutable_caching True ''application/json'') etag
                    (int (length (cr_raw r))) id (cr_raw r))"

definition handle_get_card ::
  "(cand list \<Rightarrow> cand) \<Rightarrow> delivery_config \<Rightarrow> (string \<Rightarrow> int \<Rightarrow> source_error + card_record option) \<Rightarrow> delivery_request \<Rightarrow> time
     \<Rightarrow> mem_cache \<Rightarrow> (mem_cache \<times> delivery_reply) option"
where
  "handle_get_card pick cfg src q now c =
     (if \<not> allowed_method q then Some (c, method_error q now)
      else if \<not> validate_package_id (dq_id q)
      then Some (c, write_error q now [] 400 ''INVALID_VALUE'' (plain ''invalid package identifier'') ''id'')
      else let bad = write_error q now [] 400 ''INVALID_VALUE'' (plain ''version must be a positive integer'') ''version''
           in case parse_int64 (dq_version q) of
                None \<Rightarrow> Some (c, bad)
              | Some v \<Rightarrow> if v \<le> 0 then Some (c, bad)
                  else answer (card_reply cfg q v now) (cached_get_card pick cfg src (dq_id q) v now c))"

section \<open>Resources\<close>

text \<open>
  The copy loop: before each chunk it looks whether the request is still there and the client still
  takes bytes, \<open>live i\<close> at turn \<open>i\<close>. A chunk has at least one byte (NewHandler), so the loop ends.
\<close>

function stream :: "nat \<Rightarrow> (nat \<Rightarrow> bool) \<Rightarrow> nat \<Rightarrow> string \<Rightarrow> string" where
  "stream chunk live i src =
     (if chunk = 0 \<or> src = [] \<or> \<not> live i then []
      else take chunk src @ stream chunk live (Suc i) (drop chunk src))"
  by pat_completeness auto
termination by (relation "measure (\<lambda>(chunk, live, i, src). length src)") auto

declare stream.simps [simp del]

definition resource_reply ::
  "delivery_config \<Rightarrow> (nat \<Rightarrow> bool) \<Rightarrow> delivery_request \<Rightarrow> time \<Rightarrow> source_error + resource_row \<Rightarrow> delivery_reply"
where
  "resource_reply cfg live q now res =
     (case res of
        Inl e \<Rightarrow> source_error_reply q now (Fmt ''resource %q not found'' [AStr (dq_id q)])
           (plain ''resource is quarantined'') (plain ''resource unavailable'') e
      | Inr r \<Rightarrow>
          if max_resource_bytes cfg < rs_length r
          then write_error q now [] 500 ''INTERNAL'' (plain ''resource exceeds maximum size limit'') []
          else let etag = [CHR 0x22] @ ''sha256-'' @ rs_checksum r @ [CHR 0x22];
                   ctype = (if rs_content_type r = [] then ''application/octet-stream'' else rs_content_type r)
               in ranged_reply q (content_headers etag immutable_caching True ctype) etag (rs_length r)
                    (stream (nat (stream_chunk_size cfg)) live 0) (rs_content r))"

definition handle_get_resource ::
  "delivery_config \<Rightarrow> (nat \<Rightarrow> bool) \<Rightarrow> (string \<Rightarrow> source_error + resource_row) \<Rightarrow> delivery_request \<Rightarrow> time \<Rightarrow> delivery_reply"
where
  "handle_get_resource cfg live src q now =
     (if \<not> allowed_method q then method_error q now
      else if \<not> validate_resource_id (dq_id q)
      then write_error q now [] 400 ''INVALID_VALUE'' (plain ''invalid resource identifier'') ''id''
      else resource_reply cfg live q now (src (dq_id q)))"

section \<open>The delivery system\<close>

text \<open>What the wrappers of store/publication.go tell the cache after a committed transition.\<close>

definition observe :: "pub_event \<Rightarrow> mem_cache \<Rightarrow> mem_cache" where
  "observe e = (case e of
       PePromoteManifest j n now \<Rightarrow> on_manifest_promoted j
     | PePromoteCard p v now \<Rightarrow> on_package_superseded p [v]
     | PeWithdrawManifest j n \<Rightarrow> on_manifest_withdrawn j
     | PeWithdrawCard p v \<Rightarrow> on_package_superseded p [v]
     | PeQuarantineManifest j n \<Rightarrow> on_source_quarantined
     | PeQuarantineCard p v \<Rightarrow> on_source_quarantined
     | _ \<Rightarrow> id)"

record delivery =
  dv_db :: db
  dv_cache :: mem_cache

datatype delivery_event =
  DvPublish bool pub_event
| DvManifest delivery_request time
| DvCard delivery_request time

definition manifest_source :: "db \<Rightarrow> string \<Rightarrow> source_error + manifest_record option" where
  "manifest_source d j = map_sum id Some (adapter_get_manifest d j)"

definition card_source :: "db \<Rightarrow> string \<Rightarrow> int \<Rightarrow> source_error + card_record option" where
  "card_source d p v = map_sum id Some (adapter_get_card d p v)"

definition serve_manifest ::
  "(cand list \<Rightarrow> cand) \<Rightarrow> delivery_config \<Rightarrow> delivery_request \<Rightarrow> time \<Rightarrow> delivery \<Rightarrow> (mem_cache \<times> delivery_reply) option"
where
  "serve_manifest pick cfg q now s = handle_get_manifest pick cfg (manifest_source (dv_db s)) q now (dv_cache s)"

definition serve_card ::
  "(cand list \<Rightarrow> cand) \<Rightarrow> delivery_config \<Rightarrow> delivery_request \<Rightarrow> time \<Rightarrow> delivery \<Rightarrow> (mem_cache \<times> delivery_reply) option"
where
  "serve_card pick cfg q now s = handle_get_card pick cfg (card_source (dv_db s)) q now (dv_cache s)"

definition cache_after :: "(mem_cache \<times> delivery_reply) option \<Rightarrow> delivery \<Rightarrow> delivery" where
  "cache_after res s = (case res of None \<Rightarrow> s | Some (c, r) \<Rightarrow> s\<lparr>dv_cache := c\<rparr>)"

text \<open>A publication event, with the observer (the wrappers) or without (Publisher, SourceStore), and the requests.\<close>

fun delivery_step ::
  "publish_lib \<Rightarrow> (cand list \<Rightarrow> cand) \<Rightarrow> delivery_config \<Rightarrow> delivery \<Rightarrow> delivery_event \<Rightarrow> delivery"
where
  "delivery_step lib pick cfg s (DvPublish observed e) =
     (case pub_op lib e (dv_db s) of
        Inl err \<Rightarrow> s
      | Inr d \<Rightarrow> \<lparr>dv_db = d, dv_cache = (if observed then observe e (dv_cache s) else dv_cache s)\<rparr>)"
| "delivery_step lib pick cfg s (DvManifest q now) = cache_after (serve_manifest pick cfg q now s) s"
| "delivery_step lib pick cfg s (DvCard q now) = cache_after (serve_card pick cfg q now s) s"

fun publications :: "delivery_event list \<Rightarrow> pub_event list" where
  "publications [] = []"
| "publications (DvPublish observed e # es) = e # publications es"
| "publications (DvManifest q now # es) = publications es"
| "publications (DvCard q now # es) = publications es"

section \<open>Card keys\<close>

lemma no_colon: "CHR '':'' \<notin> set (show_int v)"
proof -
  have "digit_char d \<noteq> CHR '':''" if "d < 10" for d
    using that by (auto simp: digit_char_def dest!: arg_cong [where f = "of_char :: char \<Rightarrow> int"])
  then have "CHR '':'' \<notin> set (show_nat n)" for n using set_show_nat by metis
  then show ?thesis by (auto simp: show_int_def)
qed

lemma split_at_last:
  assumes "c \<notin> set a" "c \<notin> set b" "p @ c # a = q @ c # b"
  shows "p = q \<and> a = b"
proof -
  have "takeWhile (\<lambda>x. x \<noteq> c) (rev a @ c # rev p) = rev a" if "c \<notin> set a" for a p :: "'a list"
    using that by (subst takeWhile_append2) auto
  then have "rev a = rev b" using assms by (metis append_assoc append_Cons append_Nil rev.simps(2) rev_append)
  with assms(3) show ?thesis by simp
qed

lemma card_key_inj: "card_key p v = card_key q w \<longleftrightarrow> p = q \<and> v = w"
  using split_at_last [OF no_colon no_colon, of p v q w] show_int_inj unfolding card_key_def by auto

section \<open>What a request does to the cache\<close>

lemma shrinks_card_entry: "shrinks c d \<Longrightarrow> get (ents (cards d)) k = Some en \<Longrightarrow> get (ents (cards c)) k = Some en"
  unfolding shrinks_def by (metis insertE option.distinct(1) singletonD)

lemma insert_card_entry:
  "get (ents (cards (insert_card k r ttl n1 n2 n3 d))) k' =
     (if k' = k then Some \<lparr>en_value = r, expires_at = n1 + ttl, written_at = n2, byte_size = int (length (cr_raw r))\<rparr>
      else get (ents (cards d)) k')"
  "mans (insert_card k r ttl n1 n2 n3 d) = mans d" "cards (insert_manifest j m ttl n1 n2 n3 d) = cards d"
  by (simp_all add: insert_card_def insert_manifest_def table_put_def Let_def)

lemma observe_shrinks: "good_cache c \<Longrightarrow> good_cache (observe e c) \<and> shrinks c (observe e c)"
  using card_fold_good [of c "\<lambda>_. True"] unfolding observe_def
  by (cases e) (simp_all add: on_manifest_promoted_def on_manifest_withdrawn_def good_invalidate_manifest
      shrinks_manifest_drop superseded_fold good_invalidate_card_key shrinks_card_drop on_source_quarantined_def manifest_fold_good)

lemma fetch_manifest:
  assumes p: "good_pick pick" and g: "good_cache c"
  obtains (hit) en where "get (ents (mans c)) j = Some en" "now \<le> entry.expires_at en"
      "cached_get_manifest pick cfg (manifest_source d) j now c = Some (c, Inr (Some (en_value en)))"
  | (failed) e where "adapter_get_manifest d j = Inl e" "cached_get_manifest pick cfg (manifest_source d) j now c = Some (c, Inl e)"
  | (fetched) r c' where "adapter_get_manifest d j = Inr r" "good_cache c'"
      "cached_get_manifest pick cfg (manifest_source d) j now c = Some (c', Inr (Some r))"
      "\<forall>k en. get (ents (mans c')) k = Some en \<longrightarrow> get (ents (mans c)) k = Some en
         \<or> k = j \<and> en_value en = r \<and> entry.expires_at en = now + manifest_cache_ttl cfg"
      "\<forall>k en. get (ents (cards c')) k = Some en \<longrightarrow> get (ents (cards c)) k = Some en"
proof (cases "get_manifest c j now")
  case (Some r)
  then obtain en where "get (ents (mans c)) j = Some en" "now \<le> entry.expires_at en" "en_value en = r"
    by (auto simp: get_manifest_def table_get_def split: option.splits if_splits)
  then show thesis using Some by (intro hit) (auto simp: cached_get_manifest_def)
next
  case None
  show thesis
  proof (cases "adapter_get_manifest d j")
    case (Inl e)
    then show thesis using None by (intro failed) (auto simp: cached_get_manifest_def manifest_source_def)
  next
    case (Inr r)
    have call: "cached_get_manifest pick cfg (manifest_source d) j now c
        = map_option (\<lambda>d. (d, Inr (Some r))) (fill_manifest pick cfg j (Some r) now now now c)"
      using None Inr by (simp add: cached_get_manifest_def manifest_source_def)
    show thesis
    proof (cases "is_live_status (mr_status r) \<and> 0 < manifest_cache_ttl cfg")
      case False
      then show thesis using call Inr g by (intro fetched [of r c]) (auto simp: fill_manifest_def)
    next
      case True
      then have put: "fill_manifest pick cfg j (Some r) now now now c
          = put_manifest pick j (Some r) (manifest_cache_ttl cfg) now now now c"
        by (simp add: fill_manifest_def)
      show thesis using p g
      proof (cases rule: put_manifest_cases [of pick c j "Some r" "manifest_cache_ttl cfg" now now now])
        case skipped
        then show thesis using call put Inr g by (intro fetched [of r c]) auto
      next
        case (stored r' c1)
        then have c1: "good_cache c1" "shrinks c c1" by (simp_all add: roomy_def)
        show thesis
          using call put Inr stored c1 shrinks_manifest_entry [OF c1(2)] shrinks_card_entry [OF c1(2)] good_insert_manifest(1) [OF c1(1)]
          by (intro fetched) (auto simp: insert_manifest_entry insert_card_entry split: if_splits)
      qed
    qed
  qed
qed

lemma fetch_card:
  assumes p: "good_pick pick" and g: "good_cache c"
  obtains (hit) en where "get (ents (cards c)) (card_key pkg v) = Some en" "now \<le> entry.expires_at en"
      "cached_get_card pick cfg (card_source d) pkg v now c = Some (c, Inr (Some (en_value en)))"
  | (failed) e where "adapter_get_card d pkg v = Inl e" "cached_get_card pick cfg (card_source d) pkg v now c = Some (c, Inl e)"
  | (fetched) r c' where "adapter_get_card d pkg v = Inr r" "good_cache c'"
      "cached_get_card pick cfg (card_source d) pkg v now c = Some (c', Inr (Some r))"
      "\<forall>k en. get (ents (cards c')) k = Some en \<longrightarrow> get (ents (cards c)) k = Some en
         \<or> k = card_key pkg v \<and> en_value en = r \<and> entry.expires_at en = now + card_cache_ttl cfg"
      "\<forall>k en. get (ents (mans c')) k = Some en \<longrightarrow> get (ents (mans c)) k = Some en"
proof (cases "get_card c pkg v now")
  case (Some r)
  then obtain en where "get (ents (cards c)) (card_key pkg v) = Some en" "now \<le> entry.expires_at en" "en_value en = r"
    by (auto simp: get_card_def table_get_def split: option.splits if_splits)
  then show thesis using Some by (intro hit) (auto simp: cached_get_card_def)
next
  case None
  show thesis
  proof (cases "adapter_get_card d pkg v")
    case (Inl e)
    then show thesis using None by (intro failed) (auto simp: cached_get_card_def card_source_def)
  next
    case (Inr r)
    have call: "cached_get_card pick cfg (card_source d) pkg v now c
        = map_option (\<lambda>d. (d, Inr (Some r))) (fill_card pick cfg pkg v (Some r) now now now c)"
      using None Inr by (simp add: cached_get_card_def card_source_def)
    show thesis
    proof (cases "is_live_status (cr_status r) \<and> 0 < card_cache_ttl cfg")
      case False
      then show thesis using call Inr g by (intro fetched [of r c]) (auto simp: fill_card_def)
    next
      case True
      then have put: "fill_card pick cfg pkg v (Some r) now now now c
          = put_card pick pkg v (Some r) (card_cache_ttl cfg) now now now c"
        by (simp add: fill_card_def)
      show thesis using p g
      proof (cases rule: put_card_cases [of pick c pkg v "Some r" "card_cache_ttl cfg" now now now])
        case skipped
        then show thesis using call put Inr g by (intro fetched [of r c]) auto
      next
        case (stored r' c1)
        then have c1: "good_cache c1" "shrinks c c1" by (simp_all add: roomy_def)
        show thesis
          using call put Inr stored c1 shrinks_manifest_entry [OF c1(2)] shrinks_card_entry [OF c1(2)] good_insert_card(1) [OF c1(1)]
          by (intro fetched) (auto simp: insert_card_entry split: if_splits)
      qed
    qed
  qed
qed

section \<open>What the cache remembers\<close>

text \<open>A request of the run at \<open>t\<close> after which, or a moment of the run at which, the store returned the record.\<close>

definition manifest_read ::
  "publish_lib \<Rightarrow> (cand list \<Rightarrow> cand) \<Rightarrow> delivery_config \<Rightarrow> delivery \<Rightarrow> delivery_event list \<Rightarrow> string \<Rightarrow> manifest_record \<Rightarrow> time \<Rightarrow> bool"
where
  "manifest_read lib pick cfg s0 es j r t \<longleftrightarrow> (\<exists>q es1 es2. es = es1 @ DvManifest q t # es2
     \<and> adapter_get_manifest (dv_db (run (delivery_step lib pick cfg) s0 es1)) j = Inr r)"

definition card_read ::
  "publish_lib \<Rightarrow> (cand list \<Rightarrow> cand) \<Rightarrow> delivery_config \<Rightarrow> delivery \<Rightarrow> delivery_event list \<Rightarrow> string \<Rightarrow> int \<Rightarrow> card_record
     \<Rightarrow> time \<Rightarrow> bool"
where
  "card_read lib pick cfg s0 es p v r t \<longleftrightarrow> (\<exists>q es1 es2. es = es1 @ DvCard q t # es2
     \<and> adapter_get_card (dv_db (run (delivery_step lib pick cfg) s0 es1)) p v = Inr r)"

definition remembered ::
  "publish_lib \<Rightarrow> (cand list \<Rightarrow> cand) \<Rightarrow> delivery_config \<Rightarrow> delivery \<Rightarrow> delivery_event list \<Rightarrow> mem_cache \<Rightarrow> bool"
where
  "remembered lib pick cfg s0 es c \<longleftrightarrow> good_cache c
     \<and> (\<forall>j en. get (ents (mans c)) j = Some en \<longrightarrow>
          manifest_read lib pick cfg s0 es j (en_value en) (entry.expires_at en - manifest_cache_ttl cfg))
     \<and> (\<forall>k en. get (ents (cards c)) k = Some en \<longrightarrow>
          (\<exists>p v. k = card_key p v \<and> card_read lib pick cfg s0 es p v (en_value en) (entry.expires_at en - card_cache_ttl cfg)))"

lemma read_later:
  "manifest_read lib pick cfg s0 es j r t \<Longrightarrow> manifest_read lib pick cfg s0 (es @ fs) j r t"
  "card_read lib pick cfg s0 es p v r' t \<Longrightarrow> card_read lib pick cfg s0 (es @ fs) p v r' t"
  unfolding manifest_read_def card_read_def by fastforce+

lemma read_now:
  "adapter_get_manifest (dv_db (run (delivery_step lib pick cfg) s0 es)) j = Inr r
     \<Longrightarrow> manifest_read lib pick cfg s0 (es @ [DvManifest q t]) j r t"
  "adapter_get_card (dv_db (run (delivery_step lib pick cfg) s0 es)) p v = Inr r'
     \<Longrightarrow> card_read lib pick cfg s0 (es @ [DvCard q t]) p v r' t"
  unfolding manifest_read_def card_read_def by blast+

lemma remembered_smaller:
  assumes "remembered lib pick cfg s0 es c" "good_cache d"
    and "\<And>k en. get (ents (mans d)) k = Some en \<Longrightarrow> get (ents (mans c)) k = Some en"
    and "\<And>k en. get (ents (cards d)) k = Some en \<Longrightarrow> get (ents (cards c)) k = Some en"
  shows "remembered lib pick cfg s0 (es @ [e]) d"
  using assms(1,2) assms(3,4) unfolding remembered_def by (meson read_later)

lemma remembered_same: "remembered lib pick cfg s0 es c \<Longrightarrow> remembered lib pick cfg s0 (es @ [e]) c"
  by (rule remembered_smaller) (auto simp: remembered_def)

lemma served_manifest_cases:
  assumes "serve_manifest pick cfg q now s = Some (c, rep)"
  obtains "c = dv_cache s" "\<forall>b. dl_body rep \<noteq> Bytes b" "dl_status rep \<noteq> 200"
  | res where "cached_get_manifest pick cfg (manifest_source (dv_db s)) (dq_id q) now (dv_cache s) = Some (c, Inl res)"
      "\<forall>b. dl_body rep \<noteq> Bytes b" "dl_status rep \<noteq> 200"
  | r where "cached_get_manifest pick cfg (manifest_source (dv_db s)) (dq_id q) now (dv_cache s) = Some (c, Inr (Some r))"
      "rep = manifest_reply cfg q now (Inr r)"
  using assms unfolding serve_manifest_def handle_get_manifest_def answer_def
  by (auto split: if_splits option.splits prod.splits sum.splits source_error.splits
      simp: method_error_def write_error_def manifest_reply_def source_error_reply_def)

lemma served_card_cases:
  assumes "serve_card pick cfg q now s = Some (c, rep)"
  obtains "c = dv_cache s" "\<forall>b. dl_body rep \<noteq> Bytes b" "dl_status rep \<notin> {200, 206}"
  | v res where "parse_int64 (dq_version q) = Some v"
      "cached_get_card pick cfg (card_source (dv_db s)) (dq_id q) v now (dv_cache s) = Some (c, Inl res)"
      "\<forall>b. dl_body rep \<noteq> Bytes b" "dl_status rep \<notin> {200, 206}"
  | v r where "parse_int64 (dq_version q) = Some v"
      "cached_get_card pick cfg (card_source (dv_db s)) (dq_id q) v now (dv_cache s) = Some (c, Inr (Some r))"
      "rep = card_reply cfg q v now (Inr r)"
  using assms unfolding serve_card_def handle_get_card_def answer_def Let_def
  by (auto split: if_splits option.splits prod.splits sum.splits source_error.splits
      simp: method_error_def write_error_def card_reply_def source_error_reply_def)

lemma cache_remembers_step:
  assumes p: "good_pick pick" and r: "remembered lib pick cfg s0 es (dv_cache (run (delivery_step lib pick cfg) s0 es))"
  shows "remembered lib pick cfg s0 (es @ [e]) (dv_cache (run (delivery_step lib pick cfg) s0 (es @ [e])))"
proof -
  let ?s = "run (delivery_step lib pick cfg) s0 es"
  have g: "good_cache (dv_cache ?s)" using r by (simp add: remembered_def)
  show ?thesis
  proof (cases e)
    case (DvPublish observed pe)
    have "remembered lib pick cfg s0 (es @ [e]) (observe pe (dv_cache ?s))"
      using observe_shrinks [OF g, of pe]
      by (intro remembered_smaller [OF r]) (auto intro: shrinks_manifest_entry shrinks_card_entry)
    then show ?thesis using remembered_same [OF r] by (auto simp: DvPublish split: sum.split)
  next
    case (DvManifest q now)
    show ?thesis
    proof (cases "serve_manifest pick cfg q now ?s")
      case None
      then show ?thesis using remembered_same [OF r] by (simp add: DvManifest cache_after_def)
    next
      case (Some a)
      obtain c rep where a: "a = (c, rep)" by fastforce
      have "remembered lib pick cfg s0 (es @ [e]) c"
        using Some [unfolded a]
      proof (cases rule: served_manifest_cases)
        case 1
        then show ?thesis using remembered_same [OF r] by simp
      next
        case (2 res)
        from fetch_manifest [OF p g, of "dq_id q" now cfg "dv_db ?s"] 2 remembered_same [OF r] show ?thesis by fastforce
      next
        case (3 m)
        show ?thesis using p g
        proof (cases rule: fetch_manifest [of pick "dv_cache ?s" "dq_id q" now cfg "dv_db ?s"])
          case (hit en)
          then show ?thesis using 3 remembered_same [OF r] by simp
        next
          case (failed x)
          then show ?thesis using 3 by simp
        next
          case (fetched m' c')
          then have c: "c' = c" "m' = m" using 3 by simp_all
          have now: "manifest_read lib pick cfg s0 (es @ [e]) (dq_id q) m now"
            using read_now(1) [OF fetched(1)] by (simp add: c DvManifest)
          show ?thesis
            unfolding remembered_def
          proof (intro conjI allI impI)
            fix k en assume "get (ents (mans c)) k = Some en"
            then consider "get (ents (mans (dv_cache ?s))) k = Some en"
              | "k = dq_id q" "en_value en = m" "entry.expires_at en = now + manifest_cache_ttl cfg"
              using fetched(4) c by blast
            then show "manifest_read lib pick cfg s0 (es @ [e]) k (en_value en) (entry.expires_at en - manifest_cache_ttl cfg)"
              using remembered_same [OF r, of e] now by cases (simp_all add: remembered_def)
          next
            fix k en assume "get (ents (cards c)) k = Some en"
            then show "\<exists>p v. k = card_key p v \<and> card_read lib pick cfg s0 (es @ [e]) p v (en_value en)
                (entry.expires_at en - card_cache_ttl cfg)"
              using fetched(5) c remembered_same [OF r, of e] unfolding remembered_def by blast
          qed (use fetched c in simp)
        qed
      qed
      then show ?thesis using Some a by (simp add: DvManifest cache_after_def)
    qed
  next
    case (DvCard q now)
    show ?thesis
    proof (cases "serve_card pick cfg q now ?s")
      case None
      then show ?thesis using remembered_same [OF r] by (simp add: DvCard cache_after_def)
    next
      case (Some a)
      obtain c rep where a: "a = (c, rep)" by fastforce
      have "remembered lib pick cfg s0 (es @ [e]) c"
        using Some [unfolded a]
      proof (cases rule: served_card_cases)
        case 1
        then show ?thesis using remembered_same [OF r] by simp
      next
        case (2 v res)
        from fetch_card [OF p g, of "dq_id q" v now cfg "dv_db ?s"] 2 remembered_same [OF r] show ?thesis by fastforce
      next
        case (3 v m)
        show ?thesis using p g
        proof (cases rule: fetch_card [of pick "dv_cache ?s" "dq_id q" v now cfg "dv_db ?s"])
          case (hit en)
          then show ?thesis using 3 remembered_same [OF r] by simp
        next
          case (failed x)
          then show ?thesis using 3 by simp
        next
          case (fetched m' c')
          then have c: "c' = c" "m' = m" using 3 by simp_all
          have now: "card_read lib pick cfg s0 (es @ [e]) (dq_id q) v m now"
            using read_now(2) [OF fetched(1)] by (simp add: c DvCard)
          show ?thesis
            unfolding remembered_def
          proof (intro conjI allI impI)
            fix k en assume "get (ents (cards c)) k = Some en"
            then consider "get (ents (cards (dv_cache ?s))) k = Some en"
              | "k = card_key (dq_id q) v" "en_value en = m" "entry.expires_at en = now + card_cache_ttl cfg"
              using fetched(4) c by blast
            then show "\<exists>p v. k = card_key p v \<and> card_read lib pick cfg s0 (es @ [e]) p v (en_value en)
                (entry.expires_at en - card_cache_ttl cfg)"
              using remembered_same [OF r, of e] now by cases (auto simp: remembered_def)
          next
            fix k en assume "get (ents (mans c)) k = Some en"
            then show "manifest_read lib pick cfg s0 (es @ [e]) k (en_value en) (entry.expires_at en - manifest_cache_ttl cfg)"
              using fetched(5) c remembered_same [OF r, of e] unfolding remembered_def by blast
          qed (use fetched c in simp)
        qed
      qed
      then show ?thesis using Some a by (simp add: DvCard cache_after_def)
    qed
  qed
qed

lemma run_remembered:
  assumes "good_pick pick" "dv_cache s0 = new_memory_cache me mb"
  shows "remembered lib pick cfg s0 es (dv_cache (run (delivery_step lib pick cfg) s0 es))"
proof (induction es rule: rev_induct)
  case Nil
  show ?case using assms(2) good_new_cache(1) [of me mb] by (simp add: remembered_def new_memory_cache_def)
next
  case (snoc e es)
  then show ?case by (rule cache_remembers_step [OF assms(1)])
qed

lemma delivery_db:
  "dv_db (run (delivery_step lib pick cfg) s0 es) = run (pub_step lib) (dv_db s0) (publications es)"
proof -
  have step: "dv_db (delivery_step lib pick cfg s e) = run (pub_step lib) (dv_db s) (publications [e])" for s e
    by (cases e) (auto simp: cache_after_def pub_step_def kept_def split: sum.splits option.splits)
  have split: "publications (e # es) = publications [e] @ publications es" for e es by (cases e) auto
  show ?thesis
  proof (induction es arbitrary: s0)
    case (Cons e es)
    have "dv_db (run (delivery_step lib pick cfg) s0 (e # es))
        = run (pub_step lib) (run (pub_step lib) (dv_db s0) (publications [e])) (publications es)"
      by (simp only: run_Cons Cons.IH step)
    then show ?case by (simp only: run_append [symmetric] split [symmetric])
  qed simp
qed

section \<open>Properties\<close>

lemma ranged_bytes:
  assumes "dl_body (ranged_reply q hs etag tot send content) = Bytes b"
  shows "b = send content \<or> (\<exists>r. parse_range (dq_range q) tot = Inr (Some r) \<and> b = send (section_of r content))"
  using assms by (auto simp: ranged_reply_def not_modified_def full_reply_def requested_range_def
      split: if_splits sum.splits option.splits range_error.splits)

lemma section_within:
  assumes "parse_range h (int (length content)) = Inr (Some r)"
  shows "\<exists>pre post. content = pre @ section_of r content @ post \<and> int (length (section_of r content)) = rg_length r
    \<and> int (length pre) = rg_start r"
proof -
  note w = range_within_resource [OF assms]
  have "content = take (nat (rg_start r)) content @ section_of r content @ drop (nat (rg_start r) + nat (rg_length r)) content"
    unfolding section_of_def by (metis append_take_drop_id drop_drop add.commute)
  moreover have "int (length (section_of r content)) = rg_length r" "int (length (take (nat (rg_start r)) content)) = rg_start r"
    using w by (auto simp: section_of_def)
  ultimately show ?thesis by blast
qed

lemma publications_append: "publications (es @ fs) = publications es @ publications fs"
  by (induction es rule: publications.induct) simp_all

lemma verified_later:
  "manifest_verified lib es j r \<Longrightarrow> manifest_verified lib (es @ fs) j r"
  "card_verified lib es p v r' \<Longrightarrow> card_verified lib (es @ fs) p v r'"
  unfolding manifest_verified_def card_verified_def by (auto 0 4)

lemma read_verified:
  assumes "published_manifests (dv_db s0) = []" "published_cards (dv_db s0) = []"
  shows "adapter_get_manifest (dv_db (run (delivery_step lib pick cfg) s0 es)) j = Inr r
      \<or> manifest_read lib pick cfg s0 es j r t \<Longrightarrow> manifest_verified lib (publications es) j r"
    and "adapter_get_card (dv_db (run (delivery_step lib pick cfg) s0 es)) p v = Inr r'
      \<or> card_read lib pick cfg s0 es p v r' t \<Longrightarrow> card_verified lib (publications es) p v r'"
  using adapter_manifest_source [OF assms] adapter_card_source [OF assms]
  by (auto simp: manifest_read_def card_read_def delivery_db publications_append intro!: verified_later)

lemma manifest_bytes:
  assumes "good_pick pick" "remembered lib pick cfg s0 es (dv_cache s)"
    and "serve_manifest pick cfg q now s = Some (c, rep)" "dl_body rep = Bytes b"
  obtains r t where "b = mr_raw r" "adapter_get_manifest (dv_db s) (dq_id q) = Inr r
      \<or> manifest_read lib pick cfg s0 es (dq_id q) r t \<and> now \<le> t + manifest_cache_ttl cfg"
proof -
  have g: "good_cache (dv_cache s)" using assms(2) by (simp add: remembered_def)
  obtain r where r: "cached_get_manifest pick cfg (manifest_source (dv_db s)) (dq_id q) now (dv_cache s) = Some (c, Inr (Some r))"
      "rep = manifest_reply cfg q now (Inr r)"
    using assms(3,4) by (auto elim!: served_manifest_cases)
  then have b: "b = mr_raw r"
    using assms(4) by (auto simp: manifest_reply_def write_error_def not_modified_def full_reply_def Let_def split: if_splits)
  show thesis using assms(1) g
  proof (cases rule: fetch_manifest [of pick "dv_cache s" "dq_id q" now cfg "dv_db s"])
    case (hit en)
    then have "manifest_read lib pick cfg s0 es (dq_id q) r (entry.expires_at en - manifest_cache_ttl cfg)"
      using assms(2) r(1) unfolding remembered_def by fastforce
    then show thesis using hit(2) b by (intro that) auto
  qed (use r b that in auto)
qed

lemma card_bytes:
  assumes "good_pick pick" "remembered lib pick cfg s0 es (dv_cache s)"
    and "serve_card pick cfg q now s = Some (c, rep)" "dl_body rep = Bytes b"
  obtains v r pre post t where "cr_raw r = pre @ b @ post" "parse_int64 (dq_version q) = Some v"
      "adapter_get_card (dv_db s) (dq_id q) v = Inr r
      \<or> card_read lib pick cfg s0 es (dq_id q) v r t \<and> now \<le> t + card_cache_ttl cfg"
proof -
  have g: "good_cache (dv_cache s)" using assms(2) by (simp add: remembered_def)
  obtain v r where r: "parse_int64 (dq_version q) = Some v"
      "cached_get_card pick cfg (card_source (dv_db s)) (dq_id q) v now (dv_cache s) = Some (c, Inr (Some r))"
      "rep = card_reply cfg q v now (Inr r)"
    using assms(3,4) by (auto elim!: served_card_cases)
  then have "dl_body (ranged_reply q (content_headers (format_etag (cr_checksum r)) immutable_caching True ''application/json'')
      (format_etag (cr_checksum r)) (int (length (cr_raw r))) id (cr_raw r)) = Bytes b"
    using assms(4) by (auto simp: card_reply_def write_error_def Let_def split: if_splits)
  from ranged_bytes [OF this] section_within obtain pre post where b: "cr_raw r = pre @ b @ post"
    by (metis append_Nil append_Nil2 id_apply)
  show thesis using assms(1) g
  proof (cases rule: fetch_card [of pick "dv_cache s" "dq_id q" v now cfg "dv_db s"])
    case (hit en)
    from assms(2) hit(1) obtain p v' where "card_key (dq_id q) v = card_key p v'"
        "card_read lib pick cfg s0 es p v' (en_value en) (entry.expires_at en - card_cache_ttl cfg)"
      unfolding remembered_def by blast
    then have "card_read lib pick cfg s0 es (dq_id q) v r (entry.expires_at en - card_cache_ttl cfg)"
      using hit(3) r(2) by (simp add: card_key_inj)
    then show thesis using hit(2) b r(1) by (intro that) auto
  qed (use r b that in auto)
qed

text \<open>C3: What a client receives was signed, promoted and current: along any run of publications and
  requests from an empty cache and nothing published, the bytes of a manifest reply are the whole text,
  and those of a card reply the whole text or a section of it, of a record that the store returned for
  that very region, or package and version, either now or to a request at most one cache lifetime
  ago; that text was verified against the trust store when it was published.\<close>

theorem delivery_serves_signed_bytes:
  assumes "good_pick pick" and "dv_cache s0 = new_memory_cache me mb"
    and "published_manifests (dv_db s0) = []" and "published_cards (dv_db s0) = []"
    and "s = run (delivery_step lib pick cfg) s0 es"
  shows "(serve_manifest pick cfg q now s = Some (c, rep) \<and> dl_body rep = Bytes b \<longrightarrow>
      (\<exists>r. b = mr_raw r \<and> manifest_verified lib (publications es) (dq_id q) r
        \<and> (adapter_get_manifest (dv_db s) (dq_id q) = Inr r
           \<or> (\<exists>t. manifest_read lib pick cfg s0 es (dq_id q) r t \<and> now \<le> t + manifest_cache_ttl cfg))))
    \<and> (serve_card pick cfg q now s = Some (c, rep) \<and> dl_body rep = Bytes b \<longrightarrow>
      (\<exists>r v pre post. cr_raw r = pre @ b @ post \<and> parse_int64 (dq_version q) = Some v
        \<and> card_verified lib (publications es) (dq_id q) v r
        \<and> (adapter_get_card (dv_db s) (dq_id q) v = Inr r
           \<or> (\<exists>t. card_read lib pick cfg s0 es (dq_id q) v r t \<and> now \<le> t + card_cache_ttl cfg))))"
proof (intro conjI impI)
  note empty = assms(3,4)
  have rem: "remembered lib pick cfg s0 es (dv_cache s)" using run_remembered [OF assms(1,2)] assms(5) by simp
  {
    assume "serve_manifest pick cfg q now s = Some (c, rep) \<and> dl_body rep = Bytes b"
    then show "\<exists>r. b = mr_raw r \<and> manifest_verified lib (publications es) (dq_id q) r
        \<and> (adapter_get_manifest (dv_db s) (dq_id q) = Inr r
           \<or> (\<exists>t. manifest_read lib pick cfg s0 es (dq_id q) r t \<and> now \<le> t + manifest_cache_ttl cfg))"
      using manifest_bytes [OF assms(1) rem] read_verified(1) [OF empty] unfolding assms(5) by metis
  next
    assume "serve_card pick cfg q now s = Some (c, rep) \<and> dl_body rep = Bytes b"
    then show "\<exists>r v pre post. cr_raw r = pre @ b @ post \<and> parse_int64 (dq_version q) = Some v
        \<and> card_verified lib (publications es) (dq_id q) v r
        \<and> (adapter_get_card (dv_db s) (dq_id q) v = Inr r
           \<or> (\<exists>t. card_read lib pick cfg s0 es (dq_id q) v r t \<and> now \<le> t + card_cache_ttl cfg))"
      using card_bytes [OF assms(1) rem] read_verified(2) [OF empty] unfolding assms(5) by metis
  }
qed

definition demo_request :: delivery_request where
  "demo_request = \<lparr>dq_method = ''GET'', dq_id = ''ka'', dq_version = [], dq_none_match = [], dq_range = [], dq_if_range = [],
     dq_request_id = ''r''\<rparr>"

definition demo_delivery :: delivery where
  "demo_delivery = \<lparr>dv_db = demo_library, dv_cache = new_memory_cache 4 100\<rparr>"

lemma demo_delivery_run:
  "run (delivery_step demo_publish_lib oldest default_config) demo_delivery (map (DvPublish False) demo_publish)
     = \<lparr>dv_db = demo_library\<lparr>published_manifests := [demo_staged\<lparr>pub_status := ''CURRENT''\<rparr>]\<rparr>, dv_cache = new_memory_cache 4 100\<rparr>"
  by (simp add: demo_publish_def demo_delivery_def demo_publishes demo_promotes)

theorem delivery_serves_signed_bytes_witness:
  "\<exists>r. mr_raw r = ''raw'' \<and> manifest_verified demo_publish_lib (publications (map (DvPublish False) demo_publish)) ''ka'' r"
proof -
  let ?s = "run (delivery_step demo_publish_lib oldest default_config) demo_delivery (map (DvPublish False) demo_publish)"
  have "map_option (dl_body \<circ> snd) (serve_manifest oldest default_config demo_request 8 ?s) = Some (Bytes ''raw'')"
    unfolding demo_delivery_run by code_simp
  then obtain c rep where "serve_manifest oldest default_config demo_request 8 ?s = Some (c, rep) \<and> dl_body rep = Bytes ''raw''"
    by auto
  moreover have "dv_cache demo_delivery = new_memory_cache 4 100" "published_manifests (dv_db demo_delivery) = []"
    "published_cards (dv_db demo_delivery) = []" by (simp_all add: demo_delivery_def demo_unpublished)
  moreover have "dq_id demo_request = ''ka''" by (simp add: demo_request_def)
  ultimately show ?thesis
    using conjunct1 [OF delivery_serves_signed_bytes [OF good_oldest, where s = ?s, OF _ _ _ refl]] by metis
qed

section \<open>Every request is answered\<close>

lemma manifest_status:
  "dl_status (manifest_reply cfg q now (Inr r)) \<in> {200, 304, 400, 404, 405, 410, 500}"
  "e = SrcNotFound \<or> e = SrcQuarantined \<Longrightarrow> dl_status (manifest_reply cfg q now (Inl e)) \<in> {200, 304, 400, 404, 405, 410, 500}"
  by (auto simp: manifest_reply_def write_error_def not_modified_def full_reply_def source_error_reply_def Let_def)

lemma ranged_status: "dl_status (ranged_reply q hs etag tot send content) \<in> {200, 206, 304, 416}"
  by (auto simp: ranged_reply_def not_modified_def full_reply_def split: sum.split option.split)

lemma card_status:
  "dl_status (card_reply cfg q v now (Inr r)) \<in> {200, 206, 304, 400, 404, 405, 410, 416, 500}"
  "e = SrcNotFound \<or> e = SrcQuarantined \<Longrightarrow> dl_status (card_reply cfg q v now (Inl e)) \<in> {200, 206, 304, 400, 404, 405, 410, 416, 500}"
  using ranged_status [of q "content_headers (format_etag (cr_checksum r)) immutable_caching True ''application/json''"
      "format_etag (cr_checksum r)" "int (length (cr_raw r))" id "cr_raw r"]
  by (auto simp: card_reply_def write_error_def source_error_reply_def Let_def)

lemma adapter_errors:
  "adapter_get_manifest d j = Inl e \<Longrightarrow> e = SrcNotFound \<or> e = SrcQuarantined"
  "adapter_get_card d p v = Inl e \<Longrightarrow> e = SrcNotFound \<or> e = SrcQuarantined"
  by (auto simp: adapter_get_manifest_def adapter_get_card_def adapt_def get_published_manifest_def get_published_card_def
      split: list.splits option.splits if_splits)

text \<open>C31: Every request is answered: along any run the handlers of manifests and cards return a reply
  with one of the statuses of the contract, whatever the request asks; the eviction that a fill starts
  ends, and no error of the store but a missing or quarantined document is possible.\<close>

theorem requests_answered:
  assumes "good_pick pick" and "dv_cache s0 = new_memory_cache me mb" and "s = run (delivery_step lib pick cfg) s0 es"
  shows "(\<exists>c rep. serve_manifest pick cfg q now s = Some (c, rep) \<and> dl_status rep \<in> {200, 304, 400, 404, 405, 410, 500})
    \<and> (\<exists>c rep. serve_card pick cfg q now s = Some (c, rep) \<and> dl_status rep \<in> {200, 206, 304, 400, 404, 405, 410, 416, 500})"
proof
  have g: "good_cache (dv_cache s)"
    using run_remembered [OF assms(1,2)] assms(3) unfolding remembered_def by blast
  show "\<exists>c rep. serve_manifest pick cfg q now s = Some (c, rep) \<and> dl_status rep \<in> {200, 304, 400, 404, 405, 410, 500}"
  proof (cases "allowed_method q \<and> validate_jurisdiction (dq_id q)")
    case True
    then have h: "serve_manifest pick cfg q now s
        = answer (manifest_reply cfg q now) (cached_get_manifest pick cfg (manifest_source (dv_db s)) (dq_id q) now (dv_cache s))"
      by (simp add: serve_manifest_def handle_get_manifest_def)
    show ?thesis using assms(1) g
    proof (cases rule: fetch_manifest [of pick "dv_cache s" "dq_id q" now cfg "dv_db s"])
      case (hit en)
      then have "serve_manifest pick cfg q now s = Some (dv_cache s, manifest_reply cfg q now (Inr (en_value en)))"
        by (simp add: h answer_def)
      then show ?thesis using manifest_status(1) by blast
    next
      case (failed e)
      then have "serve_manifest pick cfg q now s = Some (dv_cache s, manifest_reply cfg q now (Inl e))" by (simp add: h answer_def)
      then show ?thesis using manifest_status(2) adapter_errors(1) [OF failed(1)] by blast
    next
      case (fetched r c)
      then have "serve_manifest pick cfg q now s = Some (c, manifest_reply cfg q now (Inr r))" by (simp add: h answer_def)
      then show ?thesis using manifest_status(1) by blast
    qed
  qed (auto simp: serve_manifest_def handle_get_manifest_def method_error_def write_error_def)
  show "\<exists>c rep. serve_card pick cfg q now s = Some (c, rep) \<and> dl_status rep \<in> {200, 206, 304, 400, 404, 405, 410, 416, 500}"
  proof (cases "allowed_method q \<and> validate_package_id (dq_id q) \<and> (\<exists>v. parse_int64 (dq_version q) = Some v \<and> 0 < v)")
    case True
    then obtain v where h: "serve_card pick cfg q now s
        = answer (card_reply cfg q v now) (cached_get_card pick cfg (card_source (dv_db s)) (dq_id q) v now (dv_cache s))"
      by (auto simp: serve_card_def handle_get_card_def Let_def)
    show ?thesis using assms(1) g
    proof (cases rule: fetch_card [of pick "dv_cache s" "dq_id q" v now cfg "dv_db s"])
      case (hit en)
      then have "serve_card pick cfg q now s = Some (dv_cache s, card_reply cfg q v now (Inr (en_value en)))"
        by (simp add: h answer_def)
      then show ?thesis using card_status(1) by blast
    next
      case (failed e)
      then have "serve_card pick cfg q now s = Some (dv_cache s, card_reply cfg q v now (Inl e))" by (simp add: h answer_def)
      then show ?thesis using card_status(2) adapter_errors(2) [OF failed(1)] by blast
    next
      case (fetched r c)
      then have "serve_card pick cfg q now s = Some (c, card_reply cfg q v now (Inr r))" by (simp add: h answer_def)
      then show ?thesis using card_status(1) by blast
    qed
  qed (auto simp: serve_card_def handle_get_card_def method_error_def write_error_def Let_def split: option.split)
qed

theorem requests_answered_witness:
  "\<exists>c rep. serve_card oldest default_config demo_request 8
      (run (delivery_step demo_publish_lib oldest default_config) demo_delivery (map (DvPublish True) demo_publish)) = Some (c, rep)"
proof -
  have "dv_cache demo_delivery = new_memory_cache 4 100" by (simp add: demo_delivery_def)
  from requests_answered [OF good_oldest this refl] show ?thesis by blast
qed

section \<open>Resuming a download\<close>

lemma normalized_etag: "normalize_etag (format_etag c) \<noteq> []"
proof -
  obtain t where t: "format_etag c = CHR 0x22 # CHR ''s'' # t @ [CHR 0x22]" by (simp add: format_etag_def Let_def)
  have "trim_space (format_etag c) = format_etag c"
    unfolding t by (rule trim_space_visible) (simp add: visible_def)
  moreover have "\<not> has_prefix (format_etag c) ''W/''" by (simp add: t has_prefix_def)
  ultimately have "normalize_etag (format_etag c) = trim_byte (CHR 0x22) (format_etag c)"
    by (simp add: normalize_etag_def trim_prefix_def)
  moreover have "trim_byte (CHR 0x22) (format_etag c) \<noteq> []"
    by (simp add: t trim_byte_def)
  ultimately show ?thesis by simp
qed

lemma same_etag: "check_if_range (format_etag c) (format_etag c)"
  using normalized_etag by (simp add: check_if_range_def match_etag_def)

definition part_request :: "delivery_request \<Rightarrow> string \<Rightarrow> string \<Rightarrow> delivery_request" where
  "part_request q rng tag = q\<lparr>dq_method := ''GET'', dq_none_match := [], dq_range := rng, dq_if_range := tag\<rparr>"

lemma card_part:
  assumes "int (length (cr_raw r)) \<le> max_card_bytes cfg" "parse_range rng (int (length (cr_raw r))) = Inr (Some g)"
    "rng \<noteq> []" "tag = [] \<or> tag = format_etag (cr_checksum r)"
  shows "dl_status (card_reply cfg (part_request q rng tag) v now (Inr r)) = 206
    \<and> dl_body (card_reply cfg (part_request q rng tag) v now (Inr r)) = Bytes (section_of g (cr_raw r))"
  using assms same_etag
  by (auto simp: card_reply_def part_request_def ranged_reply_def requested_range_def check_if_none_match_def check_if_range_def
      Let_def)

text \<open>An interrupted download resumes: for every card within the limit and every point at which the
  first transfer stopped, the reply to the bytes before it and the reply to the open range from it on,
  under If-Range with the entity tag that the first reply carried, are both partial and together are
  exactly the card.\<close>

theorem resumed_download_exact:
  assumes "0 < k" and "k < length (cr_raw r)" and "int (length (cr_raw r)) \<le> max_card_bytes cfg"
    and "int (length (cr_raw r)) \<le> max_int64"
  shows "\<exists>a b. let first = card_reply cfg (part_request q (range_header (show_nat 0) (show_nat (k - 1))) []) v now (Inr r);
        rest = card_reply cfg (part_request q (range_header (show_nat k) []) (format_etag (cr_checksum r))) v later (Inr r)
      in dl_status first = 206 \<and> dl_status rest = 206 \<and> dl_body first = Bytes a \<and> dl_body rest = Bytes b
        \<and> a @ b = cr_raw r \<and> get (dl_headers first) ''ETag'' = Some (format_etag (cr_checksum r))"
proof -
  let ?n = "int (length (cr_raw r))"
  have i: "int 0 \<le> max_int64" "int (k - 1) \<le> max_int64" "int k \<le> max_int64" "0 \<le> ?n"
    using assms by (simp_all add: max_int64_def)
  have first: "parse_range (range_header (show_nat 0) (show_nat (k - 1))) ?n = Inr (Some (mk_range 0 (int k - 1)))"
    using range_header_meaning [OF i(1,2,4)] assms(1,2) by (auto simp: of_nat_diff)
  have rest: "parse_range (range_header (show_nat k) []) ?n = Inr (Some (mk_range (int k) (?n - 1)))"
    using range_header_meaning [OF i(3,1,4)] assms(2) by simp
  have ne: "range_header x y \<noteq> []" for x y by (simp add: range_header_def)
  have "section_of (mk_range 0 (int k - 1)) (cr_raw r) @ section_of (mk_range (int k) (?n - 1)) (cr_raw r) = cr_raw r"
    using assms(1,2) by (simp add: section_of_def mk_range_def)
  moreover have "get (dl_headers (card_reply cfg (part_request q (range_header (show_nat 0) (show_nat (k - 1))) []) v now (Inr r)))
      ''ETag'' = Some (format_etag (cr_checksum r))"
    using assms(3) first ne
    by (simp add: card_reply_def part_request_def ranged_reply_def requested_range_def check_if_none_match_def check_if_range_def
      content_headers_def Let_def)
  ultimately show ?thesis
    using card_part [OF assms(3) first ne, of "[]" q v now] card_part [OF assms(3) rest ne, of "format_etag (cr_checksum r)" q v later]
    unfolding Let_def by blast
qed

theorem resumed_download_exact_witness:
  "\<exists>a b. dl_body (card_reply default_config (part_request demo_request (range_header (show_nat 2) []) (format_etag ''d'')) 1 5
      (Inr (Delivery_Cache.demo_card 5))) = Bytes b \<and> a @ b = cr_raw (Delivery_Cache.demo_card 5)"
proof -
  have h: "0 < (2::nat)" "2 < length (cr_raw (Delivery_Cache.demo_card 5))" "int (length (cr_raw (Delivery_Cache.demo_card 5))) \<le> max_card_bytes default_config"
    "int (length (cr_raw (Delivery_Cache.demo_card 5))) \<le> max_int64" "cr_checksum (Delivery_Cache.demo_card 5) = ''d''"
    by (simp_all add: Delivery_Cache.demo_card_def default_config_def max_int64_def)
  show ?thesis using resumed_download_exact [OF h(1-4)] unfolding Let_def h(5) by blast
qed

section \<open>Quarantined cards\<close>

lemma find_update_rows:
  assumes "\<And>r. P (f r) = P r"
  shows "find P (update_rows P f rows) = map_option f (find P rows)"
  using assms by (induction rows) (auto simp: update_rows_def)

lemma adapter_quarantined:
  assumes "quarantine_card pkg v True d = Inr d'"
  shows "adapter_get_card d' pkg v = Inl SrcQuarantined"
proof -
  have d': "published_cards d' = update_rows (is_card pkg v) (\<lambda>r. r\<lparr>pub_quarantined := True\<rparr>) (published_cards d)"
    and "list_ex (is_card pkg v) (published_cards d)"
    using assms by (auto simp: quarantine_card_def update_card_def require_def check_def split: if_splits)
  then obtain r where r: "find (is_card pkg v) (published_cards d) = Some r"
    by (cases "find (is_card pkg v) (published_cards d)") (auto simp: find_None_iff list_ex_iff)
  have "find (is_card pkg v) (published_cards d') = Some (r\<lparr>pub_quarantined := True\<rparr>)"
    unfolding d' by (subst find_update_rows) (simp_all add: r is_card_def)
  then show ?thesis by (simp add: adapter_get_card_def get_published_card_def adapt_def)
qed

text \<open>A quarantine does not reach a cached card: QuarantineCardAndInvalidate tells the observer that a
  source was quarantined, which drops every cached manifest and no card, so that a client keeps
  receiving the quarantined card with status 200 until its entry expires, although the store
  refuses it.\<close>

theorem quarantined_card_still_served:
  assumes "get_card (dv_cache s) (dq_id q) v now = Some r" and "quarantine_card (dq_id q) v True (dv_db s) = Inr d"
    and "dq_method q = ''GET''" and "validate_package_id (dq_id q)" and "parse_int64 (dq_version q) = Some v" and "0 < v"
    and "dq_none_match q = []" and "dq_range q = []" and "int (length (cr_raw r)) \<le> max_card_bytes cfg"
  shows "let s' = delivery_step lib pick cfg s (DvPublish True (PeQuarantineCard (dq_id q) v))
    in adapter_get_card (dv_db s') (dq_id q) v = Inl SrcQuarantined
      \<and> map_option (\<lambda>(c, rep). (dl_status rep, dl_body rep)) (serve_card pick cfg q now s') = Some (200, Bytes (cr_raw r))"
proof -
  let ?s = "delivery_step lib pick cfg s (DvPublish True (PeQuarantineCard (dq_id q) v))"
  have s': "?s = \<lparr>dv_db = d, dv_cache = on_source_quarantined (dv_cache s)\<rparr>" using assms(2) by (simp add: observe_def)
  have "cards (dv_cache ?s) = cards (dv_cache s)" unfolding s' by (simp add: quarantined_eq_withdrawn all_manifests_dropped)
  then have hit: "get_card (dv_cache ?s) (dq_id q) v now = Some r" using assms(1) by (simp add: get_card_def)
  have "serve_card pick cfg q now ?s = Some (dv_cache ?s, card_reply cfg q v now (Inr r))"
    using assms(3-6) hit
    by (simp del: delivery_step.simps add: serve_card_def handle_get_card_def allowed_method_def Let_def cached_get_card_def answer_def)
  moreover have "dl_status (card_reply cfg q v now (Inr r)) = 200 \<and> dl_body (card_reply cfg q v now (Inr r)) = Bytes (cr_raw r)"
    using assms(3,7-9) by (simp add: card_reply_def ranged_reply_def requested_range_def check_if_none_match_def full_reply_def Let_def)
  ultimately show ?thesis using adapter_quarantined [OF assms(2)] unfolding s' by simp
qed

definition demo_served_card :: delivery where
  "demo_served_card = \<lparr>dv_db = demo_library\<lparr>published_cards := [demo_staged\<lparr>pub_number := 1, pub_status := ''CURRENT''\<rparr>]\<rparr>,
     dv_cache = insert_card (card_key ''p'' 1) (Delivery_Cache.demo_card 5) 600 0 0 0 (new_memory_cache 4 100)\<rparr>"

theorem quarantined_card_still_served_witness:
  "let s' = delivery_step demo_publish_lib oldest default_config demo_served_card (DvPublish True (PeQuarantineCard ''p'' 1))
   in adapter_get_card (dv_db s') ''p'' 1 = Inl SrcQuarantined
     \<and> map_option (\<lambda>(c, rep). (dl_status rep, dl_body rep))
         (serve_card oldest default_config (demo_request\<lparr>dq_id := ''p'', dq_version := ''1''\<rparr>) 500 s')
       = Some (200, Bytes (cr_raw (Delivery_Cache.demo_card 5)))"
proof -
  let ?q = "demo_request\<lparr>dq_id := ''p'', dq_version := ''1''\<rparr>"
  have "get_card (dv_cache demo_served_card) (dq_id ?q) 1 500 = Some (Delivery_Cache.demo_card 5)" by code_simp
  moreover have "\<not> isl (quarantine_card (dq_id ?q) 1 True (dv_db demo_served_card))" by code_simp
  then obtain d where "quarantine_card (dq_id ?q) 1 True (dv_db demo_served_card) = Inr d"
    by (cases "quarantine_card (dq_id ?q) 1 True (dv_db demo_served_card)") auto
  moreover have "dq_method ?q = ''GET''" "dq_none_match ?q = []" "dq_range ?q = []" by (simp_all add: demo_request_def)
  moreover have "validate_package_id (dq_id ?q)" "parse_int64 (dq_version ?q) = Some 1" by code_simp+
  moreover have "int (length (cr_raw (Delivery_Cache.demo_card 5))) \<le> max_card_bytes default_config" by code_simp
  ultimately show ?thesis
    using quarantined_card_still_served [of demo_served_card ?q 1 500 "Delivery_Cache.demo_card 5" _ default_config demo_publish_lib oldest]
    by simp
qed

end
