(* ===== verification/Client_Storage.thy ===== *)
theory Client_Storage
  imports Offline_Card Publication
begin

text \<open>
  The disk of the offline client, backend/internal/offlineclient/storage.go with the errors of
  errors.go. A JSON file is missing, empty, damaged, or holds a value. Every durable change is one
  write that happens entirely or not at all (a rename, an append, a removal); a procedure returns
  the list of its writes with its result, so that a crash is a prefix of that list. A failing
  system call is a crash at that point.
\<close>

section \<open>Errors\<close>

datatype client_error = NoActiveState | ClockRolledBack | TooLarge | OffErr off_error | ClientErr msg

section \<open>The disk\<close>

datatype 'a stored_file = Missing | Empty | Damaged msg | Holds 'a

record client_state =
  cs_revision :: int
  cs_jurisdiction :: string
  cs_fetched_ms :: int
  cs_max_observed_ms :: int
  cs_expired_ms :: int

definition zero_state :: client_state where
  "zero_state = \<lparr>cs_revision = 0, cs_jurisdiction = [], cs_fetched_ms = 0, cs_max_observed_ms = 0, cs_expired_ms = 0\<rparr>"

record active_generation =
  gn_manifest :: string
  gn_card :: string
  gn_revision :: int
  gn_manifest_id :: string
  gn_package :: string
  gn_card_version :: int
  gn_card_checksum :: string

record tombs =
  tb_packages :: "string list"
  tb_routes :: "string list"
  tb_superseded :: "superseded_version list"

definition no_tombs :: tombs where
  "no_tombs = \<lparr>tb_packages = [], tb_routes = [], tb_superseded = []\<rparr>"

record download_meta =
  dm_url :: string
  dm_etag :: string
  dm_expected :: int
  dm_written :: int
  dm_ranges :: bool

record resource_meta =
  rm_etag :: string
  rm_checksum :: string
  rm_size :: int
  rm_content_type :: string
  rm_fetched_ms :: int

record client_disk =
  ds_generation :: "active_generation stored_file"
  ds_state :: "client_state stored_file"
  ds_marker :: bool
  ds_tombs :: "tombs stored_file"
  ds_contents :: "(string, string) gomap"
  ds_metas :: "(string, resource_meta stored_file) gomap"
  ds_parts :: "(string, string) gomap"
  ds_part_metas :: "(string, download_meta stored_file) gomap"

definition new_disk :: client_disk where
  "new_disk = \<lparr>ds_generation = Missing, ds_state = Missing, ds_marker = False, ds_tombs = Missing, ds_contents = [],
     ds_metas = [], ds_parts = [], ds_part_metas = []\<rparr>"

datatype disk_write =
  WGeneration active_generation | WState client_state | WMarker | WTombs tombs
| WContent string string | WMeta string resource_meta
| WPart string string | WPartMeta string download_meta | WDropPart string | WDropPartMeta string

fun apply_write :: "client_disk \<Rightarrow> disk_write \<Rightarrow> client_disk" where
  "apply_write d (WGeneration g) = d\<lparr>ds_generation := Holds g\<rparr>"
| "apply_write d (WState s) = d\<lparr>ds_state := Holds s\<rparr>"
| "apply_write d WMarker = d\<lparr>ds_marker := True\<rparr>"
| "apply_write d (WTombs t) = d\<lparr>ds_tombs := Holds t\<rparr>"
| "apply_write d (WContent i c) = d\<lparr>ds_contents := put i c (ds_contents d)\<rparr>"
| "apply_write d (WMeta i m) = d\<lparr>ds_metas := put i (Holds m) (ds_metas d)\<rparr>"
| "apply_write d (WPart p b) = d\<lparr>ds_parts := put p b (ds_parts d)\<rparr>"
| "apply_write d (WPartMeta p m) = d\<lparr>ds_part_metas := put p (Holds m) (ds_part_metas d)\<rparr>"
| "apply_write d (WDropPart p) = d\<lparr>ds_parts := del p (ds_parts d)\<rparr>"
| "apply_write d (WDropPartMeta p) = d\<lparr>ds_part_metas := del p (ds_part_metas d)\<rparr>"

section \<open>Procedures\<close>

type_synonym 'a proc = "client_disk \<Rightarrow> disk_write list \<times> (client_error + 'a)"

definition give :: "'a \<Rightarrow> 'a proc" where
  "give x d = ([], Inr x)"

definition fail :: "client_error \<Rightarrow> 'a proc" where
  "fail e d = ([], Inl e)"

definition writes :: "disk_write list \<Rightarrow> unit proc" where
  "writes ws d = (ws, Inr ())"

definition look :: "(client_disk \<Rightarrow> client_error + 'a) \<Rightarrow> 'a proc" where
  "look f d = ([], f d)"

definition andthen :: "'a proc \<Rightarrow> ('a \<Rightarrow> 'b proc) \<Rightarrow> 'b proc" where
  "andthen p f d =
     (case p d of
        (ws, Inl e) \<Rightarrow> (ws, Inl e)
      | (ws, Inr x) \<Rightarrow> (case f x (run apply_write d ws) of (vs, r) \<Rightarrow> (ws @ vs, r)))"

definition demand :: "client_error option \<Rightarrow> unit proc" where
  "demand e = (case e of None \<Rightarrow> give () | Some x \<Rightarrow> fail x)"

fun for_each :: "('a \<Rightarrow> 'b proc) \<Rightarrow> 'a list \<Rightarrow> 'b list proc" where
  "for_each p [] = give []"
| "for_each p (x # xs) = andthen (p x) (\<lambda>y. andthen (for_each p xs) (\<lambda>ys. give (y # ys)))"

section \<open>State and generation\<close>

definition load_state :: "client_disk \<Rightarrow> client_error + client_state" where
  "load_state d =
     (case ds_state d of
        Missing \<Rightarrow> Inr zero_state
      | Empty \<Rightarrow> Inl (ClientErr (Fmt ''offlineclient: parse state.json: %w'' [AMsg (plain ''unexpected end of JSON input'')]))
      | Damaged m \<Rightarrow> Inl (ClientErr (Fmt ''offlineclient: parse state.json: %w'' [AMsg m]))
      | Holds s \<Rightarrow> Inr s)"

definition save_state :: "client_state \<Rightarrow> unit proc" where
  "save_state s = writes [WState s]"

definition read_generation :: "client_disk \<Rightarrow> client_error + (string \<times> string)" where
  "read_generation d =
     (case ds_generation d of
        Missing \<Rightarrow> Inl NoActiveState
      | Empty \<Rightarrow> Inl (ClientErr (plain ''offlineclient: current_generation.json is zero-byte''))
      | Damaged m \<Rightarrow> Inl (ClientErr (Fmt ''offlineclient: parse current_generation.json: %w'' [AMsg m]))
      | Holds g \<Rightarrow> Inr (gn_manifest g, gn_card g))"

definition client_manifest_limits :: limits where
  "client_manifest_limits = \<lparr>max_doc_bytes = 262144, max_depth = 32\<rparr>"

definition client_card_limits :: limits where
  "client_card_limits = \<lparr>max_doc_bytes = 65536, max_depth = 32\<rparr>"

definition client_read_manifest :: "publish_lib \<Rightarrow> string \<Rightarrow> off_error + manifest" where
  "client_read_manifest lib b = parse_manifest (manifest_docs lib) (pub_rfc lib) b client_manifest_limits"

definition client_read_card :: "publish_lib \<Rightarrow> string \<Rightarrow> off_error + incident_card" where
  "client_read_card lib b = parse_card (card_docs lib) (pub_rfc lib) b client_card_limits"

definition write_generation :: "publish_lib \<Rightarrow> string \<Rightarrow> string \<Rightarrow> unit proc" where
  "write_generation lib m c =
     (let g = \<lparr>gn_manifest = m, gn_card = c, gn_revision = 0, gn_manifest_id = [], gn_package = [], gn_card_version = 0,
               gn_card_checksum = []\<rparr>
      in writes [WGeneration
           (case client_read_manifest lib m of
              Inl e \<Rightarrow> g
            | Inr p \<Rightarrow> g\<lparr>gn_revision := mf_revision p, gn_manifest_id := mf_manifest_id p,
                gn_package := cd_package_id (mf_critical_card p), gn_card_version := cd_version (mf_critical_card p),
                gn_card_checksum := cd_checksum (mf_critical_card p)\<rparr>)])"

definition clear_part :: "string \<Rightarrow> unit proc" where
  "clear_part p = writes [WDropPart p, WDropPartMeta p]"

section \<open>Tombstones\<close>

definition load_tombs :: "client_disk \<Rightarrow> client_error + tombs" where
  "load_tombs d =
     (case ds_tombs d of
        Missing \<Rightarrow> if ds_marker d then Inl (ClientErr (plain ''offlineclient: tombstone state file missing after initialization''))
                   else Inr no_tombs
      | Empty \<Rightarrow> if ds_marker d
                 then Inl (ClientErr (plain ''offlineclient: tombstone state is zero-byte (corrupt) after initialization''))
                 else Inr no_tombs
      | Damaged m \<Rightarrow> Inl (ClientErr (Fmt (if ds_marker d then ''offlineclient: tombstone state malformed after initialization: %w''
                                          else ''offlineclient: parse tombstone state: %w'') [AMsg m]))
      | Holds t \<Rightarrow> Inr t)"

definition write_marker :: "unit proc" where
  "write_marker d = (if ds_marker d then give () d else writes [WMarker] d)"

definition save_tombs :: "tombs \<Rightarrow> unit proc" where
  "save_tombs t = andthen write_marker (\<lambda>_. writes [WTombs t])"

definition add_package :: "string \<Rightarrow> bool proc" where
  "add_package i = andthen (look load_tombs) (\<lambda>t.
     if i \<in> set (tb_packages t) then give False
     else andthen (save_tombs (t\<lparr>tb_packages := tb_packages t @ [i]\<rparr>)) (\<lambda>_. give True))"

definition add_route :: "string \<Rightarrow> bool proc" where
  "add_route i = andthen (look load_tombs) (\<lambda>t.
     if i \<in> set (tb_routes t) then give False
     else andthen (save_tombs (t\<lparr>tb_routes := tb_routes t @ [i]\<rparr>)) (\<lambda>_. give True))"

definition names_version :: "string \<Rightarrow> int \<Rightarrow> superseded_version \<Rightarrow> bool" where
  "names_version p v x \<longleftrightarrow> sv_package_id x = p \<and> sv_version x = v"

definition add_superseded :: "superseded_version \<Rightarrow> unit proc" where
  "add_superseded x = andthen (look load_tombs) (\<lambda>t.
     if list_ex (names_version (sv_package_id x) (sv_version x)) (tb_superseded t) then give ()
     else save_tombs (t\<lparr>tb_superseded := tb_superseded t @ [x]\<rparr>))"

text \<open>The tests fail closed: an unreadable tombstone file says yes.\<close>

definition contains_package :: "client_disk \<Rightarrow> string \<Rightarrow> bool" where
  "contains_package d i = (case load_tombs d of Inl e \<Rightarrow> True | Inr t \<Rightarrow> i \<in> set (tb_packages t))"

definition contains_route :: "client_disk \<Rightarrow> string \<Rightarrow> bool" where
  "contains_route d i = (case load_tombs d of Inl e \<Rightarrow> True | Inr t \<Rightarrow> i \<in> set (tb_routes t))"

definition is_superseded :: "client_disk \<Rightarrow> string \<Rightarrow> int \<Rightarrow> bool" where
  "is_superseded d p v =
     (if p = [] \<or> v \<le> 0 then False
      else case load_tombs d of Inl e \<Rightarrow> True | Inr t \<Rightarrow> list_ex (names_version p v) (tb_superseded t))"

section \<open>Resources\<close>

definition read_resource :: "client_disk \<Rightarrow> string \<Rightarrow> client_error + (string \<times> resource_meta)" where
  "read_resource d i =
     (case get (ds_contents d) i of
        None \<Rightarrow> Inl NoActiveState
      | Some c \<Rightarrow>
         (case get (ds_metas d) i of
            Some (Holds m) \<Rightarrow> Inr (c, m)
          | Some (Damaged e) \<Rightarrow> Inl (ClientErr (Fmt ''offlineclient: parse resource meta: %w'' [AMsg e]))
          | Some Empty \<Rightarrow> Inl (ClientErr (Fmt ''offlineclient: parse resource meta: %w'' [AMsg (plain ''unexpected end of JSON input'')]))
          | _ \<Rightarrow> Inl (ClientErr (Fmt ''offlineclient: read resource meta: %w'' [AMsg (plain ''file does not exist'')]))))"

definition write_resource :: "string \<Rightarrow> string \<Rightarrow> resource_meta \<Rightarrow> unit proc" where
  "write_resource i c m = writes [WMeta i m, WContent i c]"

section \<open>Writes and crashes\<close>

text \<open>The disks that a procedure can leave: after each prefix of its writes.\<close>

definition crashes :: "'a proc \<Rightarrow> client_disk \<Rightarrow> client_disk set" where
  "crashes p d = (\<lambda>n. run apply_write d (take n (fst (p d)))) ` UNIV"

definition after :: "'a proc \<Rightarrow> client_disk \<Rightarrow> client_disk" where
  "after p d = run apply_write d (fst (p d))"

definition outcome :: "'a proc \<Rightarrow> client_disk \<Rightarrow> client_error + 'a" where
  "outcome p d = snd (p d)"

named_theorems proc_simps \<open>writes and results of procedures\<close>

lemma outcome_simps [proc_simps]:
  "outcome (give x) d = Inr x" "outcome (fail e) d = Inl e" "outcome (writes ws) d = Inr ()" "outcome (look g) d = g d"
  "outcome (demand None) d = Inr ()" "outcome (demand (Some e)) d = Inl e"
  "outcome (andthen p f) d = (case outcome p d of Inl e \<Rightarrow> Inl e | Inr x \<Rightarrow> outcome (f x) (after p d))"
  by (simp_all add: outcome_def give_def fail_def writes_def look_def demand_def andthen_def after_def split: prod.split sum.split)

lemma after_simps [proc_simps]:
  "after (give x) d = d" "after (fail e) d = d" "after (writes ws) d = run apply_write d ws" "after (look g) d = d"
  "after (demand c) d = d"
  "after (andthen p f) d = (case outcome p d of Inl e \<Rightarrow> after p d | Inr x \<Rightarrow> after (f x) (after p d))"
  by (simp_all add: outcome_def give_def fail_def writes_def look_def demand_def andthen_def after_def split: prod.split sum.split option.split)

lemma after_crash: "after p d \<in> crashes p d" and start_crash: "d \<in> crashes p d"
  unfolding crashes_def after_def by (rule image_eqI [of _ _ "length (fst (p d))"], simp_all) (rule image_eqI [of _ _ 0], simp_all)

lemma crashes_iff: "x \<in> crashes p d \<longleftrightarrow> (\<exists>n. x = run apply_write d (take n (fst (p d))))"
  by (auto simp: crashes_def)

lemma crashes_quiet [proc_simps]:
  "crashes (give x) d = {d}" "crashes (fail e) d = {d}" "crashes (look g) d = {d}" "crashes (demand c) d = {d}"
  by (auto simp: crashes_def give_def fail_def look_def demand_def split: option.splits)

lemma crashes_andthen:
  "crashes (andthen p f) d = crashes p d \<union> (case outcome p d of Inl e \<Rightarrow> {} | Inr x \<Rightarrow> crashes (f x) (after p d))"
proof (cases "snd (p d)")
  case (Inl e)
  then have "fst (andthen p f d) = fst (p d)" by (cases "p d") (simp add: andthen_def)
  then show ?thesis using Inl by (simp add: crashes_def outcome_def)
next
  case (Inr x)
  let ?ws = "fst (p d)" and ?vs = "fst (f x (after p d))"
  have w: "fst (andthen p f d) = ?ws @ ?vs"
    using Inr by (cases "p d") (simp add: andthen_def after_def split: prod.split)
  have "run apply_write d (take n (?ws @ ?vs)) \<in> crashes p d \<union> crashes (f x) (after p d)" for n
    by (cases "n \<le> length ?ws") (auto simp: crashes_def after_def)
  moreover have "crashes p d \<subseteq> crashes (andthen p f) d"
  proof
    fix y assume "y \<in> crashes p d"
    then obtain n where "y = run apply_write d (take n ?ws)" by (auto simp: crashes_def)
    then have "y = run apply_write d (take (min n (length ?ws)) (?ws @ ?vs))"
      by (cases "n \<le> length ?ws") (simp_all add: min_def)
    then show "y \<in> crashes (andthen p f) d" unfolding crashes_iff w by blast
  qed
  moreover have "crashes (f x) (after p d) \<subseteq> crashes (andthen p f) d"
  proof
    fix y assume "y \<in> crashes (f x) (after p d)"
    then obtain n where "y = run apply_write (after p d) (take n ?vs)" by (auto simp: crashes_def)
    then have "y = run apply_write d (take (length ?ws + n) (?ws @ ?vs))" by (simp add: after_def)
    then show "y \<in> crashes (andthen p f) d" unfolding crashes_iff w by blast
  qed
  ultimately have "crashes (andthen p f) d = crashes p d \<union> crashes (f x) (after p d)"
    unfolding crashes_def w by blast
  then show ?thesis using Inr by (simp add: outcome_def)
qed

text \<open>A condition that every write of a procedure keeps holds after any crash of it.\<close>

definition keeps_all :: "(client_disk \<Rightarrow> bool) \<Rightarrow> 'a proc \<Rightarrow> client_disk \<Rightarrow> bool" where
  "keeps_all I p d \<longleftrightarrow> (I d \<longrightarrow> (\<forall>x \<in> crashes p d. I x))"

lemma keeps_all_quiet [simp]:
  "keeps_all I (give x) d" "keeps_all I (fail e) d" "keeps_all I (look f) d" "keeps_all I (demand c) d"
  by (simp_all add: keeps_all_def proc_simps)

lemma keeps_all_andthen:
  assumes "keeps_all I p d" "\<And>x. I (after p d) \<Longrightarrow> outcome p d = Inr x \<Longrightarrow> keeps_all I (f x) (after p d)"
  shows "keeps_all I (andthen p f) d"
proof (cases "outcome p d")
  case (Inl e)
  then show ?thesis using assms(1) by (simp add: keeps_all_def crashes_andthen)
next
  case (Inr x)
  have p: "\<forall>y \<in> crashes p d. I y" if "I d" using assms(1) that unfolding keeps_all_def by blast
  then have "\<forall>y \<in> crashes (f x) (after p d). I y" if "I d"
    using assms(2) [OF _ Inr] after_crash [of p d] that unfolding keeps_all_def by blast
  with p show ?thesis unfolding keeps_all_def crashes_andthen Inr sum.case by blast
qed

lemma keeps_all_write:
  assumes "\<And>w d. w \<in> set ws \<Longrightarrow> I d \<Longrightarrow> I (apply_write d w)"
  shows "keeps_all I (writes ws) d"
proof -
  have "I (run apply_write d vs)" if "I d" "set vs \<subseteq> set ws" for vs
    using that by (induction vs arbitrary: d) (auto intro: assms)
  then show ?thesis using set_take_subset [of _ ws] by (simp add: keeps_all_def crashes_def writes_def)
qed

lemma keeps_all_for_each:
  assumes "\<And>x d. x \<in> set xs \<Longrightarrow> keeps_all I (p x) d"
  shows "keeps_all I (for_each p xs) d"
  using assms by (induction xs arbitrary: d) (auto intro!: keeps_all_andthen)

lemma keeps_all_after: "keeps_all I p d \<Longrightarrow> I d \<Longrightarrow> I (after p d)"
  using after_crash [of p d] by (auto simp: keeps_all_def)


text \<open>The crash-safe contract of a procedure: every disk it can leave satisfies I, and with a result the disk
  satisfies Q.\<close>

definition safely :: "(client_disk \<Rightarrow> bool) \<Rightarrow> 'a proc \<Rightarrow> client_disk \<Rightarrow> ('a \<Rightarrow> client_disk \<Rightarrow> bool) \<Rightarrow> bool" where
  "safely I p d Q \<longleftrightarrow> (\<forall>x \<in> crashes p d. I x) \<and> (\<forall>r. outcome p d = Inr r \<longrightarrow> Q r (after p d))"

lemma safely_quiet:
  "safely I (give x) d Q \<longleftrightarrow> I d \<and> Q x d" "safely I (fail e) d Q \<longleftrightarrow> I d"
  "safely I (look f) d Q \<longleftrightarrow> I d \<and> (\<forall>r. f d = Inr r \<longrightarrow> Q r d)"
  by (auto simp: safely_def proc_simps)

lemma safely_demand: "safely I (demand c) d R \<longleftrightarrow> I d \<and> (c = None \<longrightarrow> R () d)"
  by (cases c; auto simp: safely_def proc_simps)

lemma safely_andthen:
  assumes "safely I p d R" "\<And>x d'. outcome p d = Inr x \<Longrightarrow> d' = after p d \<Longrightarrow> R x d' \<Longrightarrow> safely I (f x) d' Q"
  shows "safely I (andthen p f) d Q"
proof (cases "outcome p d")
  case (Inl e)
  then show ?thesis using assms(1) by (simp add: safely_def crashes_andthen proc_simps)
next
  case (Inr x)
  then have "R x (after p d)" using assms(1) by (simp add: safely_def)
  from assms(2) [OF Inr refl this] assms(1) Inr show ?thesis by (auto simp: safely_def crashes_andthen proc_simps)
qed

lemma safely_look_then: "I d \<Longrightarrow> (\<And>r. g d = Inr r \<Longrightarrow> safely I (f r) d Q) \<Longrightarrow> safely I (andthen (look g) f) d Q"
  by (rule safely_andthen [where R = "\<lambda>r x. x = d \<and> g d = Inr r"]) (auto simp: safely_quiet)

lemma safely_demand_then: "I d \<Longrightarrow> (e = None \<Longrightarrow> safely I (f ()) d Q) \<Longrightarrow> safely I (andthen (demand e) f) d Q"
  by (rule safely_andthen [where R = "\<lambda>_ x. x = d \<and> e = None"]) (auto simp: safely_demand)

lemma crashes_writes: "crashes (writes (w # ws)) d = insert d (crashes (writes ws) (apply_write d w))"
proof -
  have "run apply_write d (take n (w # ws)) = (case n of 0 \<Rightarrow> d | Suc k \<Rightarrow> run apply_write (apply_write d w) (take k ws))" for n
    by (cases n) simp_all
  then have "range (\<lambda>n. run apply_write d (take n (w # ws))) = range (\<lambda>n. case n of 0 \<Rightarrow> d | Suc k \<Rightarrow> run apply_write (apply_write d w) (take k ws))"
    by simp
  then show ?thesis by (auto simp: crashes_def writes_def image_iff split: nat.splits)
qed

lemma safely_writes:
  "safely I (writes []) d Q \<longleftrightarrow> I d \<and> Q () d"
  "safely I (writes (w # ws)) d Q \<longleftrightarrow> I d \<and> safely I (writes ws) (apply_write d w) Q"
  by (auto simp: safely_def crashes_writes proc_simps) (auto simp: crashes_def writes_def)

lemma safely_conseq: "safely I p d Q \<Longrightarrow> (\<And>r d'. Q r d' \<Longrightarrow> R r d') \<Longrightarrow> (\<And>x. I x \<Longrightarrow> J x) \<Longrightarrow> safely J p d R"
  by (auto simp: safely_def)

end
