(* ===== verification/Client_Freshness.thy ===== *)
theory Client_Freshness
  imports Client_Storage Publication_Safety
begin

text \<open>
  What the offline client tells its user, backend/internal/offlineclient: verification of the
  active manifest and card (transport.go), the state query and the freshness computation (sync.go),
  and the resource queries (client.go). Time values are nanoseconds; the persisted marks are
  milliseconds. The monotonic clock does not go back.
\<close>

section \<open>Verification\<close>

definition sentinel :: "off_kind \<Rightarrow> string \<Rightarrow> off_error" where
  "sentinel k s = ([k], plain s)"

definition checksum_mismatch :: client_error where
  "checksum_mismatch = OffErr (sentinel ErrChecksumMismatch ''offlinepkg: checksum verification failed'')"

definition verify_checksum :: "publish_lib \<Rightarrow> string \<Rightarrow> string \<Rightarrow> client_error option" where
  "verify_checksum lib declared canonical = first_err
     [check (declared = []) (ClientErr (plain ''offlineclient: declared checksum is empty'')),
      check (digest_hex (pub_crypto lib) canonical \<noteq> declared) checksum_mismatch]"

definition client_verify_signature ::
  "publish_lib \<Rightarrow> trust_keys \<Rightarrow> string \<Rightarrow> string \<Rightarrow> signature \<Rightarrow> client_error option"
where
  "client_verify_signature lib ts canonical jur g = first_err
     [check (sig_key_id g = []) (ClientErr (plain ''offlineclient: signature missing key_id'')),
      check (sig_value g = []) (ClientErr (plain ''offlineclient: signature missing value'')),
      map_option OffErr (verify_signature (pub_crypto lib) ts (sig_key_id g) jur canonical (sig_value g))]"

definition client_verify_manifest :: "publish_lib \<Rightarrow> trust_keys \<Rightarrow> manifest \<Rightarrow> client_error option" where
  "client_verify_manifest lib ts m = (let canonical = canonical_manifest (pub_quote lib) m in first_err
     [map_option OffErr (validate_manifest (pub_rfc lib) (Some m)),
      verify_checksum lib (mf_checksum m) canonical,
      (case mf_signature m of
         None \<Rightarrow> Some (ClientErr (plain ''offlineclient: manifest missing signature''))
       | Some g \<Rightarrow> client_verify_signature lib ts canonical (mf_jurisdiction m) g)])"

definition client_verify_card :: "publish_lib \<Rightarrow> trust_keys \<Rightarrow> incident_card \<Rightarrow> client_error option" where
  "client_verify_card lib ts c =
     (case validate_card (pub_rfc lib) (Some c) of
        Some e \<Rightarrow> Some (OffErr e)
      | None \<Rightarrow>
         if ic_checksum c = [] then Some (ClientErr (plain ''offlineclient: declared checksum is empty''))
         else case canonical_card (pub_quote lib) (pub_float lib) c of
                Inl e \<Rightarrow> Some (OffErr e)
              | Inr canonical \<Rightarrow> first_err
                  [verify_checksum lib (ic_checksum c) canonical,
                   (case ic_signature c of
                      None \<Rightarrow> Some (ClientErr (plain ''offlineclient: card missing signature''))
                    | Some g \<Rightarrow> client_verify_signature lib ts canonical (ic_jurisdiction c) g)])"

section \<open>Freshness\<close>

datatype client_freshness = FreshCurrent | FreshStale | FreshExpired | FreshRevoked | FreshUnverifiable

definition unix_milli :: "time \<Rightarrow> int" where
  "unix_milli t = t div 1000000"

definition from_milli :: "int \<Rightarrow> time" where
  "from_milli ms = ms * 1000000"

record protocol_client =
  cl_trust :: trust_keys
  cl_stale_before :: duration
  cl_sync_mono :: "time option"
  cl_base_url :: string
  cl_max_resource :: int

definition expired_at :: "time \<Rightarrow> client_state \<Rightarrow> client_state" where
  "expired_at now st = st\<lparr>cs_expired_ms := unix_milli now\<rparr>"

definition observed :: "time \<Rightarrow> client_state \<Rightarrow> client_state" where
  "observed now st = (if cs_max_observed_ms st < unix_milli now then st\<lparr>cs_max_observed_ms := unix_milli now\<rparr> else st)"

text \<open>The readings of the monotonic clock: time since the last verified sync of this process.\<close>

definition elapsed_since :: "protocol_client \<Rightarrow> time \<Rightarrow> duration option" where
  "elapsed_since c mt = map_option (\<lambda>t. time_sub mt t) (cl_sync_mono c)"

definition remaining_time :: "time \<Rightarrow> time \<Rightarrow> duration \<Rightarrow> duration option \<Rightarrow> duration" where
  "remaining_time expires now window elapsed =
     (case elapsed of
        None \<Rightarrow> time_sub expires now
      | Some el \<Rightarrow> if window - el < time_sub expires now then window - el else time_sub expires now)"

text \<open>The last part, once the acquisition window and the monotonic bound are known to be open.\<close>

definition within_window ::
  "protocol_client \<Rightarrow> client_state \<Rightarrow> time \<Rightarrow> time \<Rightarrow> duration \<Rightarrow> duration option \<Rightarrow> client_freshness proc"
where
  "within_window c st expires now window elapsed =
     (let st' = observed now st in
      andthen (writes (if st' = st then [] else [WState st'])) (\<lambda>_.
        let remaining = remaining_time expires now window elapsed in
        if remaining \<le> 0 then andthen (save_state (expired_at now st')) (\<lambda>_. give FreshExpired)
        else give (if remaining \<le> cl_stale_before c then FreshStale else FreshCurrent)))"

definition compute_freshness ::
  "rfc \<Rightarrow> protocol_client \<Rightarrow> incident_card \<Rightarrow> client_state \<Rightarrow> time \<Rightarrow> time \<Rightarrow> client_freshness proc"
where
  "compute_freshness rfc c ic st now mt =
     (if cs_fetched_ms st = 0 then give FreshExpired
      else if 0 < cs_expired_ms st then give FreshExpired
      else case rfc (ic_expires_at ic) of
        Inl e \<Rightarrow> fail (ClientErr (Fmt ''offlineclient: parse card expires_at: %w'' [AMsg e]))
      | Inr expires \<Rightarrow>
     (case rfc (ic_effective_at ic) of
        Inl e \<Rightarrow> fail (ClientErr (Fmt ''offlineclient: parse card effective_at: %w'' [AMsg e]))
      | Inr effective \<Rightarrow>
      if \<not> now < expires
      then andthen (save_state (observed now (expired_at now st))) (\<lambda>_. give FreshExpired)
      else if now < effective then give FreshUnverifiable
      else if 0 < cs_max_observed_ms st \<and> unix_milli now < cs_max_observed_ms st then fail ClockRolledBack
      else let acquired = (if from_milli (cs_fetched_ms st) = zero_time then effective else from_milli (cs_fetched_ms st));
               window = time_sub expires acquired; elapsed = elapsed_since c mt
           in if window \<le> 0 \<or> (\<exists>el \<in> set_option elapsed. window \<le> el)
              then andthen (save_state (expired_at now st)) (\<lambda>_. give FreshExpired)
              else within_window c st expires now window elapsed))"

section \<open>The state query\<close>

definition off_failure :: "string \<Rightarrow> off_error \<Rightarrow> client_error" where
  "off_failure f e = OffErr (fst e, Fmt f [AMsg (snd e)])"

definition active_manifest :: "publish_lib \<Rightarrow> string \<Rightarrow> client_error + manifest" where
  "active_manifest lib b = (case client_read_manifest lib b of
     Inl e \<Rightarrow> Inl (off_failure ''offlineclient: parse active manifest: %w'' e) | Inr m \<Rightarrow> Inr m)"

definition active_card :: "publish_lib \<Rightarrow> string \<Rightarrow> client_error + incident_card" where
  "active_card lib b = (case client_read_card lib b of
     Inl e \<Rightarrow> Inl (off_failure ''offlineclient: parse active card: %w'' e) | Inr c \<Rightarrow> Inr c)"

definition card_of_manifest :: "manifest \<Rightarrow> incident_card \<Rightarrow> bool" where
  "card_of_manifest m c \<longleftrightarrow> ic_package_id c = cd_package_id (mf_critical_card m) \<and> ic_version c = cd_version (mf_critical_card m)
     \<and> ic_jurisdiction c = mf_jurisdiction m \<and> ic_checksum c = cd_checksum (mf_critical_card m)"

text \<open>The active pair, verified again as it is read.\<close>

definition verified_pair :: "publish_lib \<Rightarrow> trust_keys \<Rightarrow> client_disk \<Rightarrow> client_error + (manifest \<times> incident_card)" where
  "verified_pair lib ts d =
     bind_res (read_generation d) (\<lambda>(mb, cb).
     bind_res (active_manifest lib mb) (\<lambda>m.
     bind_res (require (client_verify_manifest lib ts m) ()) (\<lambda>_.
     bind_res (active_card lib cb) (\<lambda>c.
     bind_res (require (client_verify_card lib ts c) ()) (\<lambda>_.
     if card_of_manifest m c then Inr (m, c)
     else Inl (ClientErr (plain ''offlineclient: active card does not match active manifest reference'')))))))"

definition tombs_intact :: "client_disk \<Rightarrow> client_error option" where
  "tombs_intact d = (case load_tombs d of
     Inl e \<Rightarrow> Some (ClientErr (Fmt ''offlineclient: tombstones corrupt: %w''
                    [AMsg (case e of ClientErr m \<Rightarrow> m | _ \<Rightarrow> plain [])]))
   | Inr t \<Rightarrow> None)"

definition key_gone :: "trust_keys \<Rightarrow> incident_card \<Rightarrow> bool" where
  "key_gone ts c = (case ic_signature c of
     None \<Rightarrow> False
   | Some g \<Rightarrow> (case lookup_key ts (sig_key_id g) of Inl e \<Rightarrow> True | Inr k \<Rightarrow> revoked k))"

definition card_withdrawn :: "trust_keys \<Rightarrow> client_disk \<Rightarrow> incident_card \<Rightarrow> bool" where
  "card_withdrawn ts d c \<longleftrightarrow> ic_package_id c \<noteq> [] \<and> (contains_package d (ic_package_id c) \<or> is_superseded d (ic_package_id c) (ic_version c))
     \<or> key_gone ts c"

definition state_query ::
  "publish_lib \<Rightarrow> protocol_client \<Rightarrow> time \<Rightarrow> time \<Rightarrow> (incident_card \<times> client_freshness) proc"
where
  "state_query lib c now mt =
     andthen (look (verified_pair lib (cl_trust c))) (\<lambda>(m, ic).
     andthen (look load_state) (\<lambda>st.
     andthen (look (\<lambda>d. require (tombs_intact d) ())) (\<lambda>_.
     andthen (look (\<lambda>d. Inr (card_withdrawn (cl_trust c) d ic))) (\<lambda>gone.
     if gone then give (ic, FreshRevoked)
     else andthen (compute_freshness (pub_rfc lib) c ic st now mt) (\<lambda>f. give (ic, f))))))"

section \<open>Resources\<close>

datatype resource_state = ResourceCurrent | ResourceStale | ResourceMissing

definition resource_max_age_ms :: int where
  "resource_max_age_ms = 86400000"

definition has_resource :: "publish_lib \<Rightarrow> client_disk \<Rightarrow> string \<Rightarrow> client_error + bool" where
  "has_resource lib d i =
     (if i = [] then Inr False
      else case read_resource d i of
             Inl e \<Rightarrow> if e = NoActiveState then Inr False else Inl e
           | Inr (b, m) \<Rightarrow> Inr (rm_checksum m \<noteq> [] \<and> digest_hex (pub_crypto lib) b = rm_checksum m))"

definition resource_freshness :: "publish_lib \<Rightarrow> client_disk \<Rightarrow> string \<Rightarrow> time \<Rightarrow> client_error + resource_state" where
  "resource_freshness lib d i now =
     (if i = [] then Inl (ClientErr (plain ''offlineclient: resource id required''))
      else case read_resource d i of
             Inl e \<Rightarrow> if e = NoActiveState then Inr ResourceMissing else Inl e
           | Inr (b, m) \<Rightarrow> Inr (
               if rm_checksum m = [] \<or> digest_hex (pub_crypto lib) b \<noteq> rm_checksum m then ResourceMissing
               else if rm_fetched_ms m = 0 then ResourceStale
               else let age = unix_milli now - rm_fetched_ms m
                    in if age < 0 \<or> resource_max_age_ms < age then ResourceStale else ResourceCurrent))"

section \<open>What the query says\<close>

lemma verify_signature_split:
  "client_verify_signature lib ts b jur g = None \<longleftrightarrow> sig_key_id g \<noteq> [] \<and> sig_value g \<noteq> []
     \<and> verify_signature (pub_crypto lib) ts (sig_key_id g) jur b (sig_value g) = None"
  by (auto simp: client_verify_signature_def first_err_None check_None)

text \<open>The client accepts exactly what the library accepts, as long as the signature names a key and a value.\<close>

lemma client_verify_manifest_iff:
  "client_verify_manifest lib ts m = None \<longleftrightarrow>
     verify_manifest (pub_crypto lib) (pub_quote lib) (pub_rfc lib) (verify_signature (pub_crypto lib) ts) (Some m) = None
     \<and> mf_checksum m \<noteq> [] \<and> (\<forall>g. mf_signature m = Some g \<longrightarrow> sig_key_id g \<noteq> [] \<and> sig_value g \<noteq> [])"
  by (auto simp: first_err_None check_None client_verify_manifest_def verify_manifest_def verify_checksum_def verify_signature_split Let_def
      split: option.splits)

lemma client_verify_card_iff:
  "client_verify_card lib ts c = None \<longleftrightarrow>
     verify_card (pub_crypto lib) (pub_quote lib) (pub_float lib) (pub_rfc lib) (verify_signature (pub_crypto lib) ts) (Some c) = None
     \<and> ic_checksum c \<noteq> [] \<and> (\<forall>g. ic_signature c = Some g \<longrightarrow> sig_key_id g \<noteq> [] \<and> sig_value g \<noteq> [])"
  by (cases "ic_signature c"; cases "canonical_card (pub_quote lib) (pub_float lib) c"; cases "validate_card (pub_rfc lib) (Some c)")
    (auto simp: first_err_None client_verify_card_def verify_card_def verify_checksum_def verify_signature_split Let_def simp del: not_None_eq)

lemma verified_pair_iff:
  "verified_pair lib ts d = Inr (m, c) \<longleftrightarrow> (\<exists>g. ds_generation d = Holds g
     \<and> client_read_manifest lib (gn_manifest g) = Inr m \<and> client_verify_manifest lib ts m = None
     \<and> client_read_card lib (gn_card g) = Inr c \<and> client_verify_card lib ts c = None \<and> card_of_manifest m c)"
  by (auto simp: verified_pair_def read_generation_def active_manifest_def active_card_def bind_res_Inr
      split: stored_file.splits sum.splits if_splits)

section \<open>What the freshness computation answers and keeps\<close>

definition usable :: "client_freshness \<Rightarrow> bool" where
  "usable f \<longleftrightarrow> f = FreshCurrent \<or> f = FreshStale"

definition acquired_at :: "client_state \<Rightarrow> time \<Rightarrow> time" where
  "acquired_at st effective = (if from_milli (cs_fetched_ms st) = zero_time then effective else from_milli (cs_fetched_ms st))"

lemma state_query_Inr:
  "outcome (state_query lib c now mt) d = Inr (ic, f) \<longleftrightarrow> (\<exists>m st. verified_pair lib (cl_trust c) d = Inr (m, ic)
     \<and> load_state d = Inr st \<and> tombs_intact d = None
     \<and> (if card_withdrawn (cl_trust c) d ic then f = FreshRevoked
        else outcome (compute_freshness (pub_rfc lib) c ic st now mt) d = Inr f))"
  unfolding state_query_def by (auto simp: proc_simps require_def split: sum.splits option.splits prod.splits)

lemma state_query_after:
  assumes "verified_pair lib (cl_trust c) d = Inr (m, ic)" "load_state d = Inr st" "tombs_intact d = None"
    "\<not> card_withdrawn (cl_trust c) d ic"
  shows "after (state_query lib c now mt) d = after (compute_freshness (pub_rfc lib) c ic st now mt) d"
  using assms unfolding state_query_def by (auto simp: proc_simps require_def split: sum.splits)

lemma state_query_quiet:
  assumes "\<nexists>m ic st. verified_pair lib (cl_trust c) d = Inr (m, ic) \<and> load_state d = Inr st \<and> tombs_intact d = None
      \<and> \<not> card_withdrawn (cl_trust c) d ic"
  shows "after (state_query lib c now mt) d = d"
  using assms unfolding state_query_def by (auto simp: proc_simps require_def split: sum.splits option.splits prod.splits)

lemma within_window_result:
  "outcome (within_window c st expires now window el) d
     = Inr (if remaining_time expires now window el \<le> 0 then FreshExpired
            else if remaining_time expires now window el \<le> cl_stale_before c then FreshStale else FreshCurrent)"
  "after (within_window c st expires now window el) d = run apply_write d ((if observed now st = st then [] else [WState (observed now st)])
     @ (if remaining_time expires now window el \<le> 0 then [WState (expired_at now (observed now st))] else []))"
  by (simp_all add: within_window_def Let_def proc_simps save_state_def)

lemma compute_early:
  "cs_fetched_ms st = 0 \<or> 0 < cs_expired_ms st \<Longrightarrow> compute_freshness rfc c ic st now mt = give FreshExpired"
  by (auto simp: compute_freshness_def)

lemma compute_unread:
  assumes "cs_fetched_ms st \<noteq> 0" "\<not> 0 < cs_expired_ms st"
  shows "rfc (ic_expires_at ic) = Inl e \<Longrightarrow> outcome (compute_freshness rfc c ic st now mt) d \<noteq> Inr f"
    "rfc (ic_expires_at ic) = Inr x \<Longrightarrow> rfc (ic_effective_at ic) = Inl e \<Longrightarrow> outcome (compute_freshness rfc c ic st now mt) d \<noteq> Inr f"
  using assms by (simp_all add: compute_freshness_def proc_simps)

lemma compute_read:
  assumes "cs_fetched_ms st \<noteq> 0" "\<not> 0 < cs_expired_ms st" "rfc (ic_expires_at ic) = Inr expires" "rfc (ic_effective_at ic) = Inr effective"
  shows "compute_freshness rfc c ic st now mt =
    (let window = time_sub expires (acquired_at st effective); elapsed = elapsed_since c mt in
     if \<not> now < expires then andthen (save_state (observed now (expired_at now st))) (\<lambda>_. give FreshExpired)
     else if now < effective then give FreshUnverifiable
     else if 0 < cs_max_observed_ms st \<and> unix_milli now < cs_max_observed_ms st then fail ClockRolledBack
     else if window \<le> 0 \<or> (\<exists>el \<in> set_option elapsed. window \<le> el)
     then andthen (save_state (expired_at now st)) (\<lambda>_. give FreshExpired)
     else within_window c st expires now window elapsed)"
  using assms by (simp add: compute_freshness_def acquired_at_def Let_def)

lemma observed_keeps [simp]:
  "cs_fetched_ms (observed now st) = cs_fetched_ms st" "cs_expired_ms (observed now st) = cs_expired_ms st"
  "cs_max_observed_ms (observed now st) = max (cs_max_observed_ms st) (unix_milli now)"
  "cs_fetched_ms (expired_at now st) = cs_fetched_ms st" "cs_expired_ms (expired_at now st) = unix_milli now"
  "cs_max_observed_ms (expired_at now st) = cs_max_observed_ms st"
  by (simp_all add: observed_def expired_at_def)

lemma observed_same:
  assumes "observed now st = st" shows "unix_milli now \<le> cs_max_observed_ms st"
proof -
  from assms have "cs_max_observed_ms (observed now st) = cs_max_observed_ms st" by simp
  then show ?thesis by simp
qed

lemma usable_window:
  assumes "outcome (compute_freshness rfc c ic st now mt) d = Inr f" and "usable f"
  shows "\<exists>expires effective. rfc (ic_expires_at ic) = Inr expires \<and> rfc (ic_effective_at ic) = Inr effective
    \<and> effective \<le> now \<and> now < expires \<and> cs_fetched_ms st \<noteq> 0 \<and> cs_expired_ms st \<le> 0
    \<and> (cs_max_observed_ms st \<le> 0 \<or> cs_max_observed_ms st \<le> unix_milli now)
    \<and> (\<forall>el. elapsed_since c mt = Some el \<longrightarrow> el < time_sub expires (acquired_at st effective))
    \<and> (f = FreshCurrent \<longrightarrow> cl_stale_before c < time_sub expires now)
    \<and> after (compute_freshness rfc c ic st now mt) d = run apply_write d (if observed now st = st then [] else [WState (observed now st)])"
proof -
  have "f \<noteq> FreshExpired" "f \<noteq> FreshUnverifiable" using assms(2) by (auto simp: usable_def)
  then have a: "cs_fetched_ms st \<noteq> 0" "\<not> 0 < cs_expired_ms st"
    using assms(1) by (auto simp: compute_early proc_simps)
  obtain expires where e: "rfc (ic_expires_at ic) = Inr expires"
    using assms(1) compute_unread(1) [of st rfc ic, OF a] by (cases "rfc (ic_expires_at ic)") blast+
  obtain effective where b: "rfc (ic_effective_at ic) = Inr effective"
    using assms(1) compute_unread(2) [of st rfc ic, OF a e] by (cases "rfc (ic_effective_at ic)") blast+
  note r = compute_read [where rfc = rfc and ic = ic and c = c and now = now and mt = mt, OF a e b]
  have n: "now < expires" "\<not> now < effective" "\<not> (0 < cs_max_observed_ms st \<and> unix_milli now < cs_max_observed_ms st)"
    using assms(1) \<open>f \<noteq> FreshExpired\<close> \<open>f \<noteq> FreshUnverifiable\<close> unfolding r
    by (auto simp: proc_simps Let_def save_state_def split: if_splits)
  have w: "\<not> (time_sub expires (acquired_at st effective) \<le> 0
      \<or> (\<exists>el \<in> set_option (elapsed_since c mt). time_sub expires (acquired_at st effective) \<le> el))"
    using assms(1) \<open>f \<noteq> FreshExpired\<close> n unfolding r by (auto simp: proc_simps Let_def save_state_def split: if_splits)
  have f: "compute_freshness rfc c ic st now mt
      = within_window c st expires now (time_sub expires (acquired_at st effective)) (elapsed_since c mt)"
    unfolding r Let_def using n w by (simp only: if_False if_True not_True_eq_False simp_thms) 
  have g: "\<not> remaining_time expires now (time_sub expires (acquired_at st effective)) (elapsed_since c mt) \<le> 0"
      "f = FreshCurrent \<Longrightarrow> cl_stale_before c < remaining_time expires now (time_sub expires (acquired_at st effective)) (elapsed_since c mt)"
    using assms(1) \<open>f \<noteq> FreshExpired\<close> unfolding f within_window_result by (auto split: if_splits)
  have "remaining_time expires now win el \<le> time_sub expires now" for win el
    by (auto simp: remaining_time_def split: option.splits)
  then have "f = FreshCurrent \<longrightarrow> cl_stale_before c < time_sub expires now" using g(2) by (meson less_le_trans)
  moreover have "after (compute_freshness rfc c ic st now mt) d = run apply_write d (if observed now st = st then [] else [WState (observed now st)])"
    unfolding f within_window_result using g(1) by simp
  moreover have "\<forall>el. elapsed_since c mt = Some el \<longrightarrow> el < time_sub expires (acquired_at st effective)" using w by auto
  ultimately show ?thesis using a e b n by (intro exI [of _ expires] exI [of _ effective]) auto
qed

lemma expired_saved:
  assumes "outcome (compute_freshness rfc c ic st now mt) d = Inr FreshExpired" "load_state d = Inr st" "0 < unix_milli now"
  shows "\<exists>st'. load_state (after (compute_freshness rfc c ic st now mt) d) = Inr st' \<and> (cs_fetched_ms st' = 0 \<or> 0 < cs_expired_ms st')"
proof (cases "cs_fetched_ms st = 0 \<or> 0 < cs_expired_ms st")
  case True
  then show ?thesis using assms(2) by (auto simp: compute_early proc_simps)
next
  case False
  then have a: "cs_fetched_ms st \<noteq> 0" "\<not> 0 < cs_expired_ms st" by auto
  obtain expires where e: "rfc (ic_expires_at ic) = Inr expires"
    using assms(1) compute_unread(1) [of st rfc ic, OF a] by (cases "rfc (ic_expires_at ic)") blast+
  obtain effective where b: "rfc (ic_effective_at ic) = Inr effective"
    using assms(1) compute_unread(2) [of st rfc ic, OF a e] by (cases "rfc (ic_effective_at ic)") blast+
  show ?thesis using assms unfolding compute_read [where rfc = rfc and ic = ic, OF a e b] Let_def
    by (auto simp: proc_simps within_window_result save_state_def load_state_def split: if_splits)
qed

text \<open>What a query keeps of the state: the acquisition, the highest instant seen, and an expiry once recorded.\<close>

definition advances :: "client_state \<Rightarrow> client_state \<Rightarrow> bool" where
  "advances st st' \<longleftrightarrow> cs_fetched_ms st' = cs_fetched_ms st \<and> cs_max_observed_ms st \<le> cs_max_observed_ms st'
     \<and> (0 < cs_expired_ms st \<longrightarrow> cs_expired_ms st' = cs_expired_ms st)"

lemma advances_refl [simp]: "advances st st"
  by (simp add: advances_def)

lemma advances_trans: "advances a b \<Longrightarrow> advances b c \<Longrightarrow> advances a c"
  by (auto simp: advances_def)

lemma compute_advances:
  assumes "load_state d = Inr st"
  shows "\<exists>st'. load_state (after (compute_freshness rfc c ic st now mt) d) = Inr st' \<and> advances st st'"
  using assms unfolding compute_freshness_def advances_def
  by (auto simp: proc_simps Let_def within_window_result save_state_def load_state_def expired_at_def observed_def
      split: if_splits sum.splits option.splits)

lemma query_advances:
  assumes "load_state d = Inr st"
  shows "\<exists>st'. load_state (after (state_query lib c now mt) d) = Inr st' \<and> advances st st'"
proof (cases "\<exists>m ic st. verified_pair lib (cl_trust c) d = Inr (m, ic) \<and> load_state d = Inr st \<and> tombs_intact d = None
      \<and> \<not> card_withdrawn (cl_trust c) d ic")
  case True
  then show ?thesis using state_query_after compute_advances [OF assms] assms by fastforce
next
  case False
  then show ?thesis using state_query_quiet [OF False] assms by (metis advances_refl)
qed

text \<open>Queries of this process and of later ones, each with the clocks it reads.\<close>

type_synonym query = "protocol_client \<times> time \<times> time"

definition ask :: "publish_lib \<Rightarrow> client_disk \<Rightarrow> query \<Rightarrow> client_disk" where
  "ask lib d q = (case q of (c, now, mt) \<Rightarrow> after (state_query lib c now mt) d)"

lemma asked_advances:
  assumes "load_state d = Inr st"
  shows "\<exists>st'. load_state (run (ask lib) d qs) = Inr st' \<and> advances st st'"
  using assms
proof (induction qs arbitrary: d st)
  case (Cons q qs)
  obtain c now mt where q: "q = (c, now, mt)" by (cases q)
  obtain st1 where s: "load_state (ask lib d q) = Inr st1" "advances st st1"
    using query_advances [OF Cons.prems, of lib c now mt] by (auto simp: ask_def q)
  from Cons.IH [OF s(1)] obtain st2 where "load_state (run (ask lib) (ask lib d q) qs) = Inr st2" "advances st1 st2" by blast
  with s(2) show ?case by (auto intro: advances_trans)
qed auto

text \<open>C11: An answer that a user may act on is backed by signed documents: whenever the client reports its
  card as current or stale, the manifest and the card on disk were just verified against the trust
  store, they belong together, neither the package nor the version nor the key is withdrawn, the
  tombstones are readable, the instant lies in the validity window of the card and not before any
  instant seen earlier, and no more time has passed since the sync than the window at acquisition.\<close>

theorem usable_answer_sound:
  assumes "outcome (state_query lib c now mt) d = Inr (ic, f)" and "usable f"
  shows "\<exists>m st expires effective. verified_pair lib (cl_trust c) d = Inr (m, ic)
    \<and> verify_manifest (pub_crypto lib) (pub_quote lib) (pub_rfc lib) (verify_signature (pub_crypto lib) (cl_trust c)) (Some m) = None
    \<and> verify_card (pub_crypto lib) (pub_quote lib) (pub_float lib) (pub_rfc lib) (verify_signature (pub_crypto lib) (cl_trust c))
        (Some ic) = None
    \<and> card_of_manifest m ic \<and> tombs_intact d = None \<and> \<not> card_withdrawn (cl_trust c) d ic \<and> load_state d = Inr st
    \<and> pub_rfc lib (ic_expires_at ic) = Inr expires \<and> pub_rfc lib (ic_effective_at ic) = Inr effective
    \<and> effective \<le> now \<and> now < expires \<and> (cs_max_observed_ms st \<le> 0 \<or> cs_max_observed_ms st \<le> unix_milli now)
    \<and> (\<forall>el. elapsed_since c mt = Some el \<longrightarrow> el < time_sub expires (acquired_at st effective))
    \<and> (f = FreshCurrent \<longrightarrow> cl_stale_before c < time_sub expires now)"
proof -
  obtain m st where q: "verified_pair lib (cl_trust c) d = Inr (m, ic)" "load_state d = Inr st" "tombs_intact d = None"
      "\<not> card_withdrawn (cl_trust c) d ic" "outcome (compute_freshness (pub_rfc lib) c ic st now mt) d = Inr f"
    using assms unfolding state_query_Inr by (auto simp: usable_def split: if_splits)
  have v: "client_verify_manifest lib (cl_trust c) m = None" "client_verify_card lib (cl_trust c) ic = None" "card_of_manifest m ic"
    using q(1) unfolding verified_pair_iff by blast+
  from usable_window [OF q(5) assms(2)] obtain expires effective where
    "pub_rfc lib (ic_expires_at ic) = Inr expires" "pub_rfc lib (ic_effective_at ic) = Inr effective"
    "effective \<le> now" "now < expires" "cs_max_observed_ms st \<le> 0 \<or> cs_max_observed_ms st \<le> unix_milli now"
    "\<forall>el. elapsed_since c mt = Some el \<longrightarrow> el < time_sub expires (acquired_at st effective)"
    "f = FreshCurrent \<longrightarrow> cl_stale_before c < time_sub expires now" by blast
  with q v show ?thesis unfolding client_verify_manifest_iff client_verify_card_iff by blast
qed

definition demo_client_rfc :: rfc where
  "demo_client_rfc t = (if t = ''t1'' then Inr 1000000 else if t = ''t2'' then Inr 9000000 else Inl (plain ''bad time''))"

definition demo_client_card :: incident_card where
  "demo_client_card = Offline_Card.demo_card\<lparr>ic_checksum := replicate 64 (CHR ''1''),
     ic_signature := Some \<lparr>sig_algorithm = ''Ed25519'', sig_key_id = ''k'', sig_value = ''v''\<rparr>\<rparr>"

definition demo_client_manifest :: manifest where
  "demo_client_manifest = demo_manifest\<lparr>mf_critical_card := (mf_critical_card demo_manifest)\<lparr>cd_checksum := replicate 64 (CHR ''1'')\<rparr>\<rparr>"

definition demo_client_lib :: publish_lib where
  "demo_client_lib = demo_publish_lib\<lparr>manifest_docs := demo_docs demo_client_manifest, card_docs := demo_docs demo_client_card,
     pub_rfc := demo_client_rfc\<rparr>"

definition demo_client :: protocol_client where
  "demo_client = \<lparr>cl_trust = new_trust_store 9 [demo_key], cl_stale_before = 1000, cl_sync_mono = None,
     cl_base_url = ''https://h'', cl_max_resource = 104857600\<rparr>"

definition demo_state :: "int \<Rightarrow> int \<Rightarrow> client_state" where
  "demo_state mx ex = \<lparr>cs_revision = 2, cs_jurisdiction = ''ka'', cs_fetched_ms = 1, cs_max_observed_ms = mx, cs_expired_ms = ex\<rparr>"

definition demo_synced :: client_disk where
  "demo_synced = new_disk\<lparr>ds_generation := Holds \<lparr>gn_manifest = ''m'', gn_card = ''c'', gn_revision = 2, gn_manifest_id = ''m1'',
       gn_package = ''p'', gn_card_version = 1, gn_card_checksum = replicate 64 (CHR ''1'')\<rparr>,
     ds_state := Holds (demo_state 0 0)\<rparr>"

lemma demo_reads:
  "client_read_manifest demo_client_lib ''m'' = Inr demo_client_manifest"
  "client_read_card demo_client_lib ''c'' = Inr demo_client_card"
  by code_simp+

lemma demo_verifies:
  "client_verify_manifest demo_client_lib (cl_trust demo_client) demo_client_manifest = None"
  "client_verify_card demo_client_lib (cl_trust demo_client) demo_client_card = None"
  "card_of_manifest demo_client_manifest demo_client_card"
  by code_simp+

lemma demo_pair:
  assumes "ds_generation d = ds_generation demo_synced"
  shows "verified_pair demo_client_lib (cl_trust demo_client) d = Inr (demo_client_manifest, demo_client_card)"
  unfolding verified_pair_iff assms using demo_reads demo_verifies by (simp add: demo_synced_def)

lemma demo_standing:
  assumes "ds_tombs d = Missing" "\<not> ds_marker d"
  shows "tombs_intact d = None" "\<not> card_withdrawn (cl_trust demo_client) d demo_client_card"
proof -
  have "\<not> key_gone (cl_trust demo_client) demo_client_card" by code_simp
  with assms show "tombs_intact d = None" "\<not> card_withdrawn (cl_trust demo_client) d demo_client_card"
    by (simp_all add: tombs_intact_def card_withdrawn_def contains_package_def is_superseded_def load_tombs_def no_tombs_def)
qed

lemma demo_query:
  assumes "ds_generation d = ds_generation demo_synced" "ds_tombs d = Missing" "\<not> ds_marker d" "ds_state d = Holds st"
  shows "map_sum id snd (outcome (state_query demo_client_lib demo_client now mt) d)
      = outcome (compute_freshness demo_client_rfc demo_client demo_client_card st now mt) d"
    "after (state_query demo_client_lib demo_client now mt) d
      = after (compute_freshness demo_client_rfc demo_client demo_client_card st now mt) d"
  using assms demo_pair [OF assms(1)] demo_standing [OF assms(2,3)] unfolding state_query_def
  by (simp_all add: proc_simps require_def load_state_def demo_client_lib_def split: sum.splits)

lemma demo_computes:
  assumes "ds_state d = ds_state demo_synced"
  shows "outcome (compute_freshness demo_client_rfc demo_client demo_client_card (demo_state 0 0) 5000000 0) d = Inr FreshCurrent"
    "outcome (compute_freshness demo_client_rfc demo_client demo_client_card (demo_state 0 0) 10000000 0) d = Inr FreshExpired"
    "after (compute_freshness demo_client_rfc demo_client demo_client_card (demo_state 0 0) 10000000 0) d = d\<lparr>ds_state := Holds (demo_state 10 10)\<rparr>"
proof -
  have f: "ic_expires_at demo_client_card = ''t2''" "ic_effective_at demo_client_card = ''t1''"
    "demo_client_rfc ''t2'' = Inr 9000000" "demo_client_rfc ''t1'' = Inr 1000000"
    "time_sub 9000000 1000000 = 8000000" "time_sub 9000000 5000000 = 4000000"
    by code_simp+
  note defs = compute_freshness_def f demo_client_def proc_simps Let_def within_window_result remaining_time_def elapsed_since_def
      save_state_def expired_at_def observed_def unix_milli_def from_milli_def zero_time_def demo_state_def
  show "outcome (compute_freshness demo_client_rfc demo_client demo_client_card (demo_state 0 0) 5000000 0) d = Inr FreshCurrent"
    "outcome (compute_freshness demo_client_rfc demo_client demo_client_card (demo_state 0 0) 10000000 0) d = Inr FreshExpired"
    "after (compute_freshness demo_client_rfc demo_client demo_client_card (demo_state 0 0) 10000000 0) d = d\<lparr>ds_state := Holds (demo_state 10 10)\<rparr>"
    by (simp_all add: defs)
qed

lemma demo_expires: "after (state_query demo_client_lib demo_client 10000000 0) demo_synced = demo_synced\<lparr>ds_state := Holds (demo_state 10 10)\<rparr>"
proof -
  have "ds_tombs demo_synced = Missing" "\<not> ds_marker demo_synced" "ds_state demo_synced = Holds (demo_state 0 0)"
    by (simp_all add: demo_synced_def new_disk_def)
  from demo_query(2) [OF refl this] show ?thesis using demo_computes(3) [OF refl] by simp
qed

lemma demo_queries:
  "map_sum id snd (outcome (state_query demo_client_lib demo_client 5000000 0) demo_synced) = Inr FreshCurrent"
  "map_sum id snd (outcome (state_query demo_client_lib demo_client 10000000 0) demo_synced) = Inr FreshExpired"
  "map_sum id snd (outcome (state_query demo_client_lib demo_client 5000000 0)
     (after (state_query demo_client_lib demo_client 10000000 0) demo_synced)) = Inr FreshExpired"
proof -
  have s: "ds_tombs demo_synced = Missing" "\<not> ds_marker demo_synced" "ds_state demo_synced = Holds (demo_state 0 0)"
    by (simp_all add: demo_synced_def new_disk_def)
  show "map_sum id snd (outcome (state_query demo_client_lib demo_client 5000000 0) demo_synced) = Inr FreshCurrent"
    "map_sum id snd (outcome (state_query demo_client_lib demo_client 10000000 0) demo_synced) = Inr FreshExpired"
    unfolding demo_query(1) [OF refl s] using demo_computes(1,2) [OF refl] by simp_all
  have "ds_generation (demo_synced\<lparr>ds_state := Holds (demo_state 10 10)\<rparr>) = ds_generation demo_synced" by simp
  from demo_query(1) [OF this] s
  show "map_sum id snd (outcome (state_query demo_client_lib demo_client 5000000 0)
     (after (state_query demo_client_lib demo_client 10000000 0) demo_synced)) = Inr FreshExpired"
    unfolding demo_expires by (simp add: compute_early demo_state_def proc_simps)
qed

theorem usable_answer_sound_witness:
  "\<exists>m ic. verified_pair demo_client_lib (cl_trust demo_client) demo_synced = Inr (m, ic) \<and> card_of_manifest m ic"
proof -
  obtain ic where "outcome (state_query demo_client_lib demo_client 5000000 0) demo_synced = Inr (ic, FreshCurrent)"
    using demo_queries(1) by (cases "outcome (state_query demo_client_lib demo_client 5000000 0) demo_synced") auto
  from usable_answer_sound [OF this] show ?thesis by (auto simp: usable_def)
qed



end
