(* ===== verification/Client_Transport.thy ===== *)
theory Client_Transport
  imports Client_Freshness
begin

text \<open>
  The downloads of the offline client, backend/internal/offlineclient/transport.go: a resumable
  transfer into a part file, the size and digest checks, and the verification of a manifest, a card
  or a resource. The network is a function from a request to a transport error or a reply; a body
  arrives as chunks, perhaps followed by a read error. A Content-Length that reaches the client is a
  number. Parsing an address is a parameter.
\<close>

section \<open>Requests and replies\<close>

record net_request =
  nr_url :: string
  nr_accept :: string
  nr_range :: string
  nr_if_range :: string

record net_reply =
  rp_status :: int
  rp_headers :: "(string, string) gomap"
  rp_chunks :: "string list"
  rp_broken :: "msg option"

type_synonym network = "net_request \<Rightarrow> msg + net_reply"

definition reply_header :: "net_reply \<Rightarrow> string \<Rightarrow> string" where
  "reply_header r k = (case get (rp_headers r) k of None \<Rightarrow> [] | Some v \<Rightarrow> v)"

definition range_spec :: "string \<Rightarrow> string \<Rightarrow> string \<Rightarrow> string \<Rightarrow> msg + (int \<times> int \<times> int)" where
  "range_spec hdr a b tot =
     (case parse_int64 a of
        None \<Rightarrow> Inl (Fmt ''invalid start in Content-Range: %w'' [AMsg (Fmt ''strconv.ParseInt: parsing %q'' [AStr a])])
      | Some s \<Rightarrow>
     (case parse_int64 b of
        None \<Rightarrow> Inl (Fmt ''invalid end in Content-Range: %w'' [AMsg (Fmt ''strconv.ParseInt: parsing %q'' [AStr b])])
      | Some e \<Rightarrow>
     if s < 0 \<or> e < s then Inl (Fmt ''invalid range span in Content-Range: %q'' [AStr hdr])
     else if tot = ''*'' then Inr (s, e, - 1)
     else case parse_int64 tot of
            None \<Rightarrow> Inl (Fmt ''invalid total in Content-Range: %w'' [AMsg (Fmt ''strconv.ParseInt: parsing %q'' [AStr tot])])
          | Some t \<Rightarrow> if 0 \<le> t \<and> t \<le> e then Inl (Fmt ''end exceeds total in Content-Range: %q'' [AStr hdr])
                      else Inr (s, e, t)))"

definition parse_content_range :: "string \<Rightarrow> msg + (int \<times> int \<times> int)" where
  "parse_content_range h =
     (let hdr = trim_space h in
      if \<not> has_prefix hdr ''bytes '' then Inl (Fmt ''invalid Content-Range header: %q'' [AStr hdr])
      else let spec = trim_prefix hdr ''bytes '' in
        case index_byte spec (CHR ''/'') of
          None \<Rightarrow> Inl (Fmt ''missing slash in Content-Range: %q'' [AStr hdr])
        | Some i \<Rightarrow>
           let rng = take i spec; tot = drop (i + 1) spec in
           case index_byte rng (CHR ''-'') of
             None \<Rightarrow> Inl (Fmt ''missing hyphen in Content-Range: %q'' [AStr hdr])
           | Some j \<Rightarrow> range_spec hdr (take j rng) (drop (j + 1) rng) tot)"

definition strip_etag_quotes :: "string \<Rightarrow> string" where
  "strip_etag_quotes t = (let s = trim_space t in
     if 2 \<le> length s \<and> hd s = CHR 0x22 \<and> last s = CHR 0x22 then butlast (tl s) else s)"

section \<open>The part file\<close>

definition part_bytes :: "client_disk \<Rightarrow> string \<Rightarrow> string" where
  "part_bytes d p = (case get (ds_parts d) p of None \<Rightarrow> [] | Some b \<Rightarrow> b)"

definition part_matches :: "client_disk \<Rightarrow> string \<Rightarrow> string \<Rightarrow> download_meta \<Rightarrow> bool" where
  "part_matches d u p m \<longleftrightarrow> get (ds_parts d) p \<noteq> None \<and> dm_url m = u \<and> int (length (part_bytes d p)) = dm_written m \<and> 0 < dm_written m"

text \<open>The part that can be resumed; a stale or unreadable one is removed, one without metadata ignored.\<close>

definition existing_part :: "string \<Rightarrow> string \<Rightarrow> download_meta option proc" where
  "existing_part u p d =
     (case get (ds_part_metas d) p of
        None \<Rightarrow> give None d
      | Some Missing \<Rightarrow> give None d
      | Some (Holds m) \<Rightarrow> if part_matches d u p m then give (Some m) d else andthen (clear_part p) (\<lambda>_. give None) d
      | Some _ \<Rightarrow> andthen (clear_part p) (\<lambda>_. give None) d)"

definition resumable :: "download_meta \<Rightarrow> bool" where
  "resumable m \<longleftrightarrow> 0 < dm_written m \<and> (dm_expected m = 0 \<or> dm_written m < dm_expected m) \<and> dm_ranges m"

definition append_part :: "string \<Rightarrow> string \<Rightarrow> unit proc" where
  "append_part p b d = writes [WPart p (part_bytes d p @ b)] d"

definition wrote :: "string \<Rightarrow> download_meta \<Rightarrow> download_meta" where
  "wrote b m = m\<lparr>dm_written := dm_written m + int (length b)\<rparr>"

fun save_chunks :: "string \<Rightarrow> int \<Rightarrow> string list \<Rightarrow> download_meta \<Rightarrow> download_meta proc" where
  "save_chunks p maxb [] m = give m"
| "save_chunks p maxb (b # bs) m =
     (if b = [] then save_chunks p maxb bs m
      else if 0 < maxb \<and> maxb < dm_written m + int (length b)
      then andthen (writes [WPartMeta p m]) (\<lambda>_. fail TooLarge)
      else andthen (append_part p b) (\<lambda>_. andthen (writes [WPartMeta p (wrote b m)]) (\<lambda>_. save_chunks p maxb bs (wrote b m))))"

record stream_result =
  st_bytes :: string
  st_etag :: string
  st_ranges :: bool
  st_expected :: int

definition receive :: "string \<Rightarrow> int \<Rightarrow> net_reply \<Rightarrow> download_meta \<Rightarrow> stream_result proc" where
  "receive p maxb r m =
     andthen (save_chunks p maxb (rp_chunks r) m) (\<lambda>m'.
     andthen (writes [WPartMeta p m']) (\<lambda>_.
     case rp_broken r of
       Some e \<Rightarrow> fail (ClientErr e)
     | None \<Rightarrow> look (\<lambda>d. Inr \<lparr>st_bytes = part_bytes d p, st_etag = dm_etag m', st_ranges = dm_ranges m', st_expected = dm_expected m'\<rparr>)))"

section \<open>One download\<close>

definition plain_request :: "string \<Rightarrow> bool \<Rightarrow> net_request" where
  "plain_request u json = \<lparr>nr_url = u, nr_accept = (if json then ''application/json'' else []), nr_range = [], nr_if_range = []\<rparr>"

definition resume_request :: "string \<Rightarrow> bool \<Rightarrow> download_meta \<Rightarrow> net_request" where
  "resume_request u json m = (plain_request u json)\<lparr>nr_range := ''bytes='' @ show_int (dm_written m) @ ''-'',
     nr_if_range := (if dm_etag m = [] then [] else [CHR 0x22] @ strip_etag_quotes (dm_etag m) @ [CHR 0x22])\<rparr>"

definition bad_status :: "string \<Rightarrow> int \<Rightarrow> client_error" where
  "bad_status u s = ClientErr (Fmt ''offlineclient: GET %s: status %d'' [AStr u, AInt s])"

definition fresh_meta :: "string \<Rightarrow> net_reply \<Rightarrow> download_meta" where
  "fresh_meta u r = \<lparr>dm_url = u, dm_etag = strip_etag_quotes (reply_header r ''ETag''),
     dm_expected = (case parse_int64 (reply_header r ''Content-Length'') of None \<Rightarrow> 0 | Some n \<Rightarrow> n),
     dm_written = 0, dm_ranges = (get (rp_headers r) ''Accept-Ranges'' \<noteq> None)\<rparr>"

definition receive_fresh :: "string \<Rightarrow> string \<Rightarrow> int \<Rightarrow> net_reply \<Rightarrow> stream_result proc" where
  "receive_fresh u p maxb r = andthen (writes [WPart p []]) (\<lambda>_. receive p maxb r (fresh_meta u r))"

definition download_plain :: "network \<Rightarrow> string \<Rightarrow> string \<Rightarrow> bool \<Rightarrow> int \<Rightarrow> stream_result proc" where
  "download_plain net u p json maxb =
     (case net (plain_request u json) of
        Inl e \<Rightarrow> fail (ClientErr e)
      | Inr r \<Rightarrow> if rp_status r \<noteq> 200 then fail (bad_status u (rp_status r)) else receive_fresh u p maxb r)"

text \<open>The metadata after a partial reply that continues the part, or None when it does not.\<close>

definition continued :: "download_meta \<Rightarrow> net_reply \<Rightarrow> download_meta option" where
  "continued m r =
     (case parse_content_range (reply_header r ''Content-Range'') of
        Inl e \<Rightarrow> None
      | Inr (s, e, t) \<Rightarrow>
         if s \<noteq> dm_written m then None
         else let tag = strip_etag_quotes (reply_header r ''ETag'');
                  m' = (if 0 < t then m\<lparr>dm_expected := t\<rparr> else m)
              in if dm_etag m \<noteq> [] \<and> tag \<noteq> [] \<and> dm_etag m \<noteq> tag then None
                 else Some (if tag = [] then m' else m'\<lparr>dm_etag := tag\<rparr>))"

definition download_rest :: "network \<Rightarrow> string \<Rightarrow> string \<Rightarrow> bool \<Rightarrow> int \<Rightarrow> download_meta \<Rightarrow> stream_result proc" where
  "download_rest net u p json maxb m =
     (case net (resume_request u json m) of
        Inl e \<Rightarrow> fail (ClientErr e)
      | Inr r \<Rightarrow>
         if rp_status r = 416 then andthen (clear_part p) (\<lambda>_. download_plain net u p json maxb)
         else if rp_status r = 206
         then (case continued m r of
                 None \<Rightarrow> andthen (clear_part p) (\<lambda>_. download_plain net u p json maxb)
               | Some m' \<Rightarrow> receive p maxb r m')
         else if rp_status r = 200 then receive_fresh u p maxb r
         else fail (bad_status u (rp_status r)))"

definition download_streaming :: "network \<Rightarrow> string \<Rightarrow> string \<Rightarrow> bool \<Rightarrow> bool \<Rightarrow> int \<Rightarrow> stream_result proc" where
  "download_streaming net u p resume json maxb =
     andthen (if resume then existing_part u p else give None) (\<lambda>part.
     case part of
       Some m \<Rightarrow> if resumable m then download_rest net u p json maxb m else download_plain net u p json maxb
     | None \<Rightarrow> download_plain net u p json maxb)"

section \<open>Manifests, cards and resources\<close>

record device_lib =
  dv_pub :: publish_lib
  dv_url :: "string \<Rightarrow> msg + string"
  dv_mime :: "string \<Rightarrow> bool"

definition strip_slashes :: "string \<Rightarrow> string" where
  "strip_slashes s = rev (dropWhile (\<lambda>c. c = CHR ''/'') (rev s))"

definition absolute_url :: "device_lib \<Rightarrow> protocol_client \<Rightarrow> string \<Rightarrow> client_error + string" where
  "absolute_url lib c path =
     (let base = strip_slashes (cl_base_url c) in
      if path = [] then Inr base
      else let q = (if has_prefix path ''/'' then path else ''/'' @ path)
           in case dv_url lib (base @ q) of
                Inl e \<Rightarrow> Inl (ClientErr (Fmt ''offlineclient: join URL %q + %q: %w'' [AStr base, AStr q, AMsg e]))
              | Inr u \<Rightarrow> Inr u)"

definition size_mismatch :: "string \<Rightarrow> int \<Rightarrow> int \<Rightarrow> client_error" where
  "size_mismatch what got expected = ClientErr (Fmt (''offlineclient: '' @ what @ ''size mismatch: got %d expected %d'') [AInt got, AInt expected])"

definition download_bytes :: "device_lib \<Rightarrow> protocol_client \<Rightarrow> network \<Rightarrow> string \<Rightarrow> string \<Rightarrow> bool \<Rightarrow> string proc" where
  "download_bytes lib c net path p json =
     andthen (look (\<lambda>_. absolute_url lib c path)) (\<lambda>u.
     andthen (download_streaming net u p True json (if json then 65536 else 262144)) (\<lambda>r.
     if 0 < st_expected r \<and> int (length (st_bytes r)) \<noteq> st_expected r
     then fail (size_mismatch [] (int (length (st_bytes r))) (st_expected r))
     else give (st_bytes r)))"

definition manifest_part :: "string \<Rightarrow> string" where
  "manifest_part jur = ''manifest-'' @ jur"

definition card_part_name :: "string \<Rightarrow> int \<Rightarrow> string" where
  "card_part_name pkg v = ''card-'' @ pkg @ ''-'' @ show_int v"

definition resource_part :: "string \<Rightarrow> string" where
  "resource_part i = ''resource-'' @ i"

definition checked_manifest :: "device_lib \<Rightarrow> protocol_client \<Rightarrow> string \<Rightarrow> client_error + manifest" where
  "checked_manifest lib c b =
     (case client_read_manifest (dv_pub lib) b of
        Inl e \<Rightarrow> Inl (off_failure ''offlineclient: parse manifest: %w'' e)
      | Inr m \<Rightarrow> require (client_verify_manifest (dv_pub lib) (cl_trust c) m) m)"

definition download_manifest :: "device_lib \<Rightarrow> protocol_client \<Rightarrow> network \<Rightarrow> string \<Rightarrow> (string \<times> manifest) proc" where
  "download_manifest lib c net jur =
     andthen (download_bytes lib c net (''/api/v3/regions/'' @ jur @ ''/manifest'') (manifest_part jur) False) (\<lambda>b.
     andthen (look (\<lambda>_. checked_manifest lib c b)) (\<lambda>m. give (b, m)))"

text \<open>The card against the reference in the manifest.\<close>

definition card_reference_check :: "card_descriptor \<Rightarrow> string \<Rightarrow> string \<Rightarrow> incident_card \<Rightarrow> client_error option" where
  "card_reference_check x jur b ic = first_err
     [check (ic_package_id ic \<noteq> cd_package_id x) (ClientErr (Fmt ''offlineclient: card package_id mismatch: got %q expected %q''
        [AStr (ic_package_id ic), AStr (cd_package_id x)])),
      check (ic_version ic \<noteq> cd_version x) (ClientErr (Fmt ''offlineclient: card version mismatch: got %d expected %d''
        [AInt (ic_version ic), AInt (cd_version x)])),
      check (jur \<noteq> [] \<and> ic_jurisdiction ic \<noteq> jur) (ClientErr (Fmt ''offlineclient: card jurisdiction mismatch: got %q expected %q''
        [AStr (ic_jurisdiction ic), AStr jur])),
      check (cd_checksum x \<noteq> [] \<and> ic_checksum ic \<noteq> cd_checksum x) (OffErr ([ErrChecksumMismatch],
        Fmt ''%w: card checksum %q does not match manifest reference %q''
          [AMsg (plain ''offlinepkg: checksum verification failed''), AStr (ic_checksum ic), AStr (cd_checksum x)])),
      check (0 < cd_uncompressed x \<and> cd_uncompressed x < int (length b)) (ClientErr
        (Fmt ''offlineclient: card byte size %d exceeds declared manifest budget %d'' [AInt (int (length b)), AInt (cd_uncompressed x)])),
      check (65536 < length b) (ClientErr (Fmt ''offlineclient: card byte size %d exceeds 64 KiB ceiling'' [AInt (int (length b))]))]"

definition checked_card :: "device_lib \<Rightarrow> protocol_client \<Rightarrow> card_descriptor \<Rightarrow> string \<Rightarrow> string \<Rightarrow> client_error + incident_card" where
  "checked_card lib c x jur b =
     (case client_read_card (dv_pub lib) b of
        Inl e \<Rightarrow> Inl (off_failure ''offlineclient: parse card: %w'' e)
      | Inr ic \<Rightarrow> require (first_err [client_verify_card (dv_pub lib) (cl_trust c) ic, card_reference_check x jur b ic]) ic)"

definition card_path :: "string \<Rightarrow> int \<Rightarrow> string" where
  "card_path pkg v = ''/api/v3/packages/'' @ pkg @ ''/versions/'' @ show_int v"

definition download_card :: "device_lib \<Rightarrow> protocol_client \<Rightarrow> network \<Rightarrow> string \<Rightarrow> card_descriptor \<Rightarrow> string proc" where
  "download_card lib c net jur x =
     andthen (download_bytes lib c net (card_path (cd_package_id x) (cd_version x)) (card_part_name (cd_package_id x) (cd_version x)) True) (\<lambda>b.
     andthen (look (\<lambda>_. checked_card lib c x jur b)) (\<lambda>_. give b))"

definition resource_limit :: "protocol_client \<Rightarrow> resource_descriptor \<Rightarrow> int" where
  "resource_limit c x = (if 0 < rd_byte_size x \<and> rd_byte_size x < cl_max_resource c then rd_byte_size x else cl_max_resource c)"

definition resource_check :: "device_lib \<Rightarrow> protocol_client \<Rightarrow> resource_descriptor \<Rightarrow> string \<Rightarrow> client_error option" where
  "resource_check lib c x b = first_err
     [check (resource_limit c x < int (length b)) TooLarge,
      check (0 < rd_byte_size x \<and> int (length b) \<noteq> rd_byte_size x) (size_mismatch ''resource '' (int (length b)) (rd_byte_size x)),
      check (digest_hex (pub_crypto (dv_pub lib)) b \<noteq> rd_checksum x) checksum_mismatch]"

definition download_resource ::
  "device_lib \<Rightarrow> protocol_client \<Rightarrow> network \<Rightarrow> resource_descriptor \<Rightarrow> bool \<Rightarrow> time \<Rightarrow> unit proc"
where
  "download_resource lib c net x resume now =
     andthen (demand (first_err
       [check (rd_resource_id x = []) (ClientErr (plain ''offlineclient: ResourceID required'')),
        check (rd_checksum x = []) (ClientErr (plain ''offlineclient: resource ChecksumSHA256 required'')),
        check (0 < rd_byte_size x \<and> cl_max_resource c < rd_byte_size x) TooLarge])) (\<lambda>_.
     andthen (look (\<lambda>_. absolute_url lib c (rd_uri x))) (\<lambda>u.
     andthen (download_streaming net u (resource_part (rd_resource_id x)) resume False (resource_limit c x)) (\<lambda>r.
     andthen (demand (resource_check lib c x (st_bytes r))) (\<lambda>_.
     andthen (write_resource (rd_resource_id x) (st_bytes r)
       \<lparr>rm_etag = st_etag r, rm_checksum = rd_checksum x, rm_size = int (length (st_bytes r)), rm_content_type = rd_content_type x,
        rm_fetched_ms = unix_milli now\<rparr>) (\<lambda>_.
     clear_part (resource_part (rd_resource_id x)))))))"

section \<open>Downloads touch only part files\<close>

text \<open>What is installed: all of the disk but the part files.\<close>

definition installed :: "client_disk \<Rightarrow> client_disk" where
  "installed d = d\<lparr>ds_parts := [], ds_part_metas := []\<rparr>"

fun part_write :: "disk_write \<Rightarrow> bool" where
  "part_write (WPart p b) = True"
| "part_write (WPartMeta p m) = True"
| "part_write (WDropPart p) = True"
| "part_write (WDropPartMeta p) = True"
| "part_write _ = False"

definition touches_parts :: "'a proc \<Rightarrow> bool" where
  "touches_parts p \<longleftrightarrow> (\<forall>d. list_all part_write (fst (p d)))"

lemma installed_write: "part_write w \<Longrightarrow> installed (apply_write d w) = installed d"
  by (cases w) (simp_all add: installed_def)

lemma touches_parts_quiet [simp]:
  "touches_parts (give x)" "touches_parts (fail e)" "touches_parts (look f)" "touches_parts (demand c)"
  by (auto simp: touches_parts_def give_def fail_def look_def demand_def split: option.splits)

lemma touches_parts_writes [simp]: "touches_parts (writes ws) \<longleftrightarrow> list_all part_write ws"
  by (simp add: touches_parts_def writes_def)

lemma touches_parts_andthen:
  assumes "touches_parts p" "\<And>x. touches_parts (f x)"
  shows "touches_parts (andthen p f)"
  unfolding touches_parts_def
proof
  fix d show "list_all part_write (fst (andthen p f d))"
    using assms unfolding touches_parts_def andthen_def
    by (auto split: prod.split sum.split) (metis fst_conv)+
qed

lemma touches_parts_after:
  assumes "touches_parts p"
  shows "x \<in> crashes p d \<Longrightarrow> installed x = installed d" "installed (after p d) = installed d"
proof -
  have r: "installed (run apply_write d ws) = installed d" if "list_all part_write ws" for ws
    using that by (induction ws arbitrary: d) (simp_all add: installed_write)
  show "installed (after p d) = installed d" unfolding after_def using assms by (intro r) (simp add: touches_parts_def)
  assume "x \<in> crashes p d"
  then obtain n where "x = run apply_write d (take n (fst (p d)))" unfolding crashes_iff by blast
  moreover have "list_all part_write (take n (fst (p d)))"
    using assms unfolding touches_parts_def list_all_iff by (meson in_set_takeD)
  ultimately show "installed x = installed d" using r by simp
qed

lemma existing_part_touches: "touches_parts (existing_part u p)"
  unfolding touches_parts_def existing_part_def
  by (auto simp: give_def andthen_def clear_part_def writes_def split: option.split stored_file.split)

lemma append_part_touches: "touches_parts (append_part p b)"
  by (simp add: touches_parts_def append_part_def writes_def)

lemma clear_part_touches: "touches_parts (clear_part p)"
  by (simp add: clear_part_def)

lemma save_chunks_touches: "touches_parts (save_chunks p maxb bs m)"
  by (induction p maxb bs m rule: save_chunks.induct) (auto intro!: touches_parts_andthen append_part_touches)

lemma receive_touches: "touches_parts (receive p maxb r m)"
  unfolding receive_def by (intro touches_parts_andthen save_chunks_touches) (auto split: option.split)

lemma receive_fresh_touches: "touches_parts (receive_fresh u p maxb r)"
  unfolding receive_fresh_def by (intro touches_parts_andthen receive_touches) simp

lemma download_plain_touches: "touches_parts (download_plain net u p json maxb)"
  unfolding download_plain_def by (auto split: sum.split intro: receive_fresh_touches)

lemma download_rest_touches: "touches_parts (download_rest net u p json maxb m)"
  unfolding download_rest_def
  by (auto split: sum.split option.split intro!: receive_fresh_touches receive_touches touches_parts_andthen clear_part_touches download_plain_touches)

lemma download_streaming_touches: "touches_parts (download_streaming net u p resume json maxb)"
  unfolding download_streaming_def
  by (intro touches_parts_andthen) (auto split: option.split intro: existing_part_touches download_plain_touches download_rest_touches)

lemma download_bytes_touches: "touches_parts (download_bytes lib c net path p json)"
  unfolding download_bytes_def by (intro touches_parts_andthen download_streaming_touches) auto

lemma downloads_touch_parts:
  "touches_parts (download_manifest lib c net jur)" "touches_parts (download_card lib c net jur x)"
  unfolding download_manifest_def download_card_def by (intro touches_parts_andthen download_bytes_touches; simp)+

end
