(* ===== verification/Client_Delivery.thy ===== *)
theory Client_Delivery
  imports Client_Transport Delivery_Handler
begin

text \<open>
  The offline client against the delivery endpoints: what a download leaves on the disk when the
  network breaks or the device crashes at any write, and what it returns in the end. The contract
  between the two is a locale over the network, interpreted on the card endpoint of the delivery
  handler behind a link that may refuse, cut and split transfers.
\<close>

section \<open>The contract\<close>

text \<open>The chunks of a body are a part of the artifact from position k on, and all of it when the body is not cut.\<close>

definition delivers :: "net_reply \<Rightarrow> string \<Rightarrow> nat \<Rightarrow> bool" where
  "delivers r raw k \<longleftrightarrow> (\<exists>tail. drop k raw = concat (rp_chunks r) @ tail \<and> (rp_broken r = None \<longrightarrow> tail = []))"

definition describes :: "string \<Rightarrow> string \<Rightarrow> download_meta \<Rightarrow> bool" where
  "describes raw tag m \<longleftrightarrow> dm_etag m = tag \<and> dm_expected m = int (length raw)"

definition good_part :: "string \<Rightarrow> string \<Rightarrow> string \<Rightarrow> client_disk \<Rightarrow> bool" where
  "good_part raw tag p d \<longleftrightarrow> take (length (part_bytes d p)) raw = part_bytes d p
     \<and> (\<forall>m. get (ds_part_metas d) p = Some (Holds m) \<longrightarrow> describes raw tag m)"

text \<open>While a body is received: the metadata count the bytes of the part.\<close>

definition ready :: "string \<Rightarrow> string \<Rightarrow> string \<Rightarrow> download_meta \<Rightarrow> client_disk \<Rightarrow> bool" where
  "ready raw tag p m d \<longleftrightarrow> good_part raw tag p d \<and> describes raw tag m \<and> dm_written m = int (length (part_bytes d p))"

lemma part_bytes_writes [simp]:
  "part_bytes (d\<lparr>ds_parts := put p b ps\<rparr>) p = b"
  "part_bytes (d\<lparr>ds_part_metas := ms\<rparr>) p = part_bytes d p"
  "part_bytes (d\<lparr>ds_parts := del p ps\<rparr>) p = []"
  by (simp_all add: part_bytes_def)

lemma describes_wrote [simp]: "describes raw tag (wrote b m) = describes raw tag m"
  by (simp add: describes_def wrote_def)

lemma good_part_meta: "good_part raw tag p d \<Longrightarrow> describes raw tag m \<Longrightarrow> good_part raw tag p (apply_write d (WPartMeta p m))"
  by (auto simp: good_part_def)

lemma good_part_longer:
  assumes "good_part raw tag p d" "drop (length (part_bytes d p)) raw = b @ tail"
  shows "good_part raw tag p (apply_write d (WPart p (part_bytes d p @ b)))"
proof -
  have "raw = part_bytes d p @ b @ tail"
    using assms by (metis append_take_drop_id good_part_def)
  then have "take (length (part_bytes d p @ b)) raw = part_bytes d p @ b" by (metis append.assoc append_eq_conv_conj)
  then show ?thesis using assms(1) by (simp add: good_part_def)
qed

lemma good_part_cleared: "good_part raw tag p d \<Longrightarrow> safely (good_part raw tag p) (clear_part p) d (\<lambda>r d'. good_part raw tag p d')"
  unfolding clear_part_def safely_writes by (auto simp: good_part_def)

lemma save_chunks_good:
  assumes "ready raw tag p m d" "drop (length (part_bytes d p)) raw = concat bs @ tail"
  shows "safely (good_part raw tag p) (save_chunks p maxb bs m) d
      (\<lambda>m' d'. ready raw tag p m' d' \<and> part_bytes d' p = part_bytes d p @ concat bs)
    \<and> (int (length raw) \<le> maxb \<longrightarrow> \<not> isl (outcome (save_chunks p maxb bs m) d))"
  using assms
proof (induction p maxb bs m arbitrary: d rule: save_chunks.induct)
  case (1 p maxb m)
  then show ?case by (simp add: safely_quiet ready_def proc_simps)
next
  case (2 p maxb b bs m)
  note r = 2(3)
  show ?case
  proof (cases "b = []")
    case True
    with 2(1) [OF True r] 2(4) show ?thesis by simp
  next
    case nonempty: False
    show ?thesis
    proof (cases "0 < maxb \<and> maxb < dm_written m + int (length b)")
      case True
      have "length (part_bytes d p) + length b \<le> length raw"
      proof -
        have "length raw - length (part_bytes d p) = length b + (length (concat bs) + length tail)"
          using arg_cong [OF 2(4), of length] by simp
        then show ?thesis using nonempty by (cases "length b") auto
      qed
      with True r have "\<not> int (length raw) \<le> maxb" by (simp add: ready_def)
      moreover have "safely (good_part raw tag p) (andthen (writes [WPartMeta p m]) (\<lambda>_. fail TooLarge)) d Q" for Q
        using r good_part_meta [of raw tag p d m]
        by (intro safely_andthen [where R = "\<lambda>_. good_part raw tag p"]) (simp_all add: safely_writes safely_quiet ready_def)
      ultimately show ?thesis using True nonempty by simp
    next
      case False
      let ?d = "apply_write (apply_write d (WPart p (part_bytes d p @ b))) (WPartMeta p (wrote b m))"
      have d1: "good_part raw tag p (apply_write d (WPart p (part_bytes d p @ b)))"
        using r 2(4) by (intro good_part_longer [where tail = "concat bs @ tail"]) (auto simp: ready_def)
      then have g: "good_part raw tag p ?d" using r by (intro good_part_meta) (simp_all add: ready_def)
      then have "ready raw tag p (wrote b m) ?d" using r by (simp add: ready_def) (simp add: wrote_def part_bytes_def)
      moreover have "drop (length (part_bytes ?d p)) raw = concat bs @ tail"
        using arg_cong [OF 2(4), of "drop (length b)"] by (simp add: add.commute)
      ultimately have ih: "safely (good_part raw tag p) (save_chunks p maxb bs (wrote b m)) ?d
          (\<lambda>m' d'. ready raw tag p m' d' \<and> part_bytes d' p = part_bytes ?d p @ concat bs)
        \<and> (int (length raw) \<le> maxb \<longrightarrow> \<not> isl (outcome (save_chunks p maxb bs (wrote b m)) ?d))"
        by (rule 2(2) [OF nonempty False])
      have s: "save_chunks p maxb (b # bs) m
          = andthen (append_part p b) (\<lambda>_. andthen (writes [WPartMeta p (wrote b m)]) (\<lambda>_. save_chunks p maxb bs (wrote b m)))"
        by (simp only: save_chunks.simps nonempty False if_False)
      have a: "outcome (append_part p b) d = Inr ()" "after (append_part p b) d = apply_write d (WPart p (part_bytes d p @ b))"
        "crashes (append_part p b) d = crashes (writes [WPart p (part_bytes d p @ b)]) d"
        by (simp_all add: append_part_def outcome_def after_def crashes_def writes_def)
      have "safely (good_part raw tag p) (append_part p b) d (\<lambda>_ x. x = apply_write d (WPart p (part_bytes d p @ b)))"
        using r d1 unfolding safely_def a(1,2,3) crashes_writes by (auto simp: ready_def crashes_def writes_def)
      then have "safely (good_part raw tag p) (save_chunks p maxb (b # bs) m) d
          (\<lambda>m' d'. ready raw tag p m' d' \<and> part_bytes d' p = part_bytes d p @ concat (b # bs))"
        unfolding s
      proof (rule safely_andthen)
        fix d' assume "d' = apply_write d (WPart p (part_bytes d p @ b))"
        then show "safely (good_part raw tag p) (andthen (writes [WPartMeta p (wrote b m)]) (\<lambda>_. save_chunks p maxb bs (wrote b m))) d'
            (\<lambda>m' d'. ready raw tag p m' d' \<and> part_bytes d' p = part_bytes d p @ concat (b # bs))"
          using d1 g ih by (intro safely_andthen [where R = "\<lambda>_ x. x = ?d"]) (simp_all add: safely_writes)
      qed
      moreover have "int (length raw) \<le> maxb \<longrightarrow> \<not> isl (outcome (save_chunks p maxb (b # bs) m) d)"
        using ih unfolding s by (simp add: proc_simps a)
      ultimately show ?thesis by blast
    qed
  qed
qed

definition exact :: "string \<Rightarrow> string \<Rightarrow> stream_result \<Rightarrow> bool" where
  "exact raw tag res \<longleftrightarrow> st_bytes res = raw \<and> st_etag res = tag \<and> st_expected res = int (length raw)"

lemma receive_good:
  assumes "ready raw tag p m d" "delivers r raw (length (part_bytes d p))"
  shows "safely (good_part raw tag p) (receive p maxb r m) d (\<lambda>res d'. exact raw tag res)"
    "int (length raw) \<le> maxb \<Longrightarrow> rp_broken r = None \<Longrightarrow> \<not> isl (outcome (receive p maxb r m) d)"
proof -
  obtain tail where t: "drop (length (part_bytes d p)) raw = concat (rp_chunks r) @ tail" "rp_broken r = None \<Longrightarrow> tail = []"
    using assms(2) by (auto simp: delivers_def)
  note s = save_chunks_good [OF assms(1) t(1), of maxb]
  have whole: "part_bytes d p @ concat (rp_chunks r) = raw" if "rp_broken r = None"
    using t that assms(1) unfolding ready_def good_part_def by (metis append_Nil2 append_take_drop_id)
  show "safely (good_part raw tag p) (receive p maxb r m) d (\<lambda>res d'. exact raw tag res)"
    unfolding receive_def
  proof (rule safely_andthen [OF conjunct1 [OF s]])
    fix m' d' assume m': "ready raw tag p m' d' \<and> part_bytes d' p = part_bytes d p @ concat (rp_chunks r)"
    then have g: "good_part raw tag p (apply_write d' (WPartMeta p m'))" by (intro good_part_meta) (simp_all add: ready_def)
    show "safely (good_part raw tag p) (andthen (writes [WPartMeta p m']) (\<lambda>_. case rp_broken r of
        None \<Rightarrow> look (\<lambda>d. Inr \<lparr>st_bytes = part_bytes d p, st_etag = dm_etag m', st_ranges = dm_ranges m', st_expected = dm_expected m'\<rparr>)
      | Some e \<Rightarrow> fail (ClientErr e))) d' (\<lambda>res d'. exact raw tag res)"
    proof (rule safely_andthen [where R = "\<lambda>_ x. x = apply_write d' (WPartMeta p m')"])
      show "safely (good_part raw tag p) (writes [WPartMeta p m']) d' (\<lambda>_ x. x = apply_write d' (WPartMeta p m'))"
        using m' g by (simp add: safely_writes ready_def)
      fix x assume x: "x = apply_write d' (WPartMeta p m')"
      have "part_bytes x p = part_bytes d p @ concat (rp_chunks r)" "good_part raw tag p x" using m' g x by simp_all
      then show "safely (good_part raw tag p) (case rp_broken r of
          None \<Rightarrow> look (\<lambda>d. Inr \<lparr>st_bytes = part_bytes d p, st_etag = dm_etag m', st_ranges = dm_ranges m', st_expected = dm_expected m'\<rparr>)
        | Some e \<Rightarrow> fail (ClientErr e)) x (\<lambda>res d'. exact raw tag res)"
        using m' whole by (auto simp: safely_quiet exact_def ready_def describes_def split: option.split)
    qed
  qed
  assume "int (length raw) \<le> maxb" "rp_broken r = None"
  then show "\<not> isl (outcome (receive p maxb r m) d)"
    using conjunct2 [OF s] by (auto simp: receive_def proc_simps split: sum.splits)
qed

lemma good_part_empty:
  assumes "good_part raw tag p d"
  shows "good_part raw tag p (apply_write d (WPart p []))"
  using assms by (simp add: good_part_def)

lemma receive_fresh_good:
  assumes "good_part raw tag p d" "describes raw tag (fresh_meta u r)" "delivers r raw 0"
  shows "safely (good_part raw tag p) (receive_fresh u p maxb r) d (\<lambda>res d'. exact raw tag res)"
    "int (length raw) \<le> maxb \<Longrightarrow> rp_broken r = None \<Longrightarrow> \<not> isl (outcome (receive_fresh u p maxb r) d)"
proof -
  have r: "ready raw tag p (fresh_meta u r) (apply_write d (WPart p []))"
    using good_part_empty [OF assms(1)] assms(2) by (simp add: ready_def fresh_meta_def)
  have l: "delivers r raw (length (part_bytes (apply_write d (WPart p [])) p))" using assms(3) by simp
  show "safely (good_part raw tag p) (receive_fresh u p maxb r) d (\<lambda>res d'. exact raw tag res)"
    unfolding receive_fresh_def using receive_good(1) [OF r l, of maxb] assms(1) good_part_empty [OF assms(1)]
    by (intro safely_andthen [where R = "\<lambda>_ x. x = apply_write d (WPart p [])"]) (simp_all add: safely_writes)
  assume "int (length raw) \<le> maxb" "rp_broken r = None"
  then show "\<not> isl (outcome (receive_fresh u p maxb r) d)"
    using receive_good(2) [OF r l] by (simp add: receive_fresh_def proc_simps)
qed

lemma existing_part_good:
  assumes "good_part raw tag p d"
  shows "safely (good_part raw tag p) (existing_part u p) d (\<lambda>part d'. good_part raw tag p d'
      \<and> (\<forall>m. part = Some m \<longrightarrow> part_matches d' u p m \<and> describes raw tag m))" (is "safely _ _ _ ?Q")
    and "\<not> isl (outcome (existing_part u p) d)"
proof -
  have clear: "safely (good_part raw tag p) (andthen (clear_part p) (\<lambda>_. give None)) d ?Q"
    using good_part_cleared [OF assms] by (rule safely_andthen) (simp add: safely_quiet)
  have none: "safely (good_part raw tag p) (give None) d ?Q" using assms by (simp add: safely_quiet)
  show "\<not> isl (outcome (existing_part u p) d)"
    by (auto simp: existing_part_def outcome_def give_def andthen_def clear_part_def writes_def split: option.split stored_file.split)
  consider "existing_part u p d = give None d" | "existing_part u p d = andthen (clear_part p) (\<lambda>_. give None) d"
    | m where "existing_part u p d = give (Some m) d" "part_matches d u p m" "describes raw tag m"
    using assms by (fastforce simp: existing_part_def good_part_def split: option.splits stored_file.splits if_splits)
  then show "safely (good_part raw tag p) (existing_part u p) d ?Q"
  proof cases
    case 1
    show "safely (good_part raw tag p) (existing_part u p) d ?Q"
      using none unfolding safely_def crashes_def outcome_def after_def 1 .
  next
    case 2
    show "safely (good_part raw tag p) (existing_part u p) d ?Q"
      using clear unfolding safely_def crashes_def outcome_def after_def 2 .
  next
    case 3
    then have "safely (good_part raw tag p) (give (Some m)) d ?Q" using assms by (simp add: safely_quiet)
    then show "safely (good_part raw tag p) (existing_part u p) d ?Q"
      unfolding safely_def crashes_def outcome_def after_def 3(1) .
  qed
qed

text \<open>What a client relies on when it downloads one artifact: whole replies describe and carry the artifact,
  partial replies that continue a part carry its rest.\<close>

locale artifact_server =
  fixes net :: network and u :: string and json :: bool and raw tag :: string
  assumes whole: "net (plain_request u json) = Inr r \<Longrightarrow> rp_status r = 200 \<Longrightarrow> describes raw tag (fresh_meta u r) \<and> delivers r raw 0"
    and whole_instead: "net (resume_request u json m) = Inr r \<Longrightarrow> rp_status r = 200 \<Longrightarrow> describes raw tag (fresh_meta u r) \<and> delivers r raw 0"
    and rest: "describes raw tag m \<Longrightarrow> 0 < dm_written m \<Longrightarrow> dm_written m < int (length raw) \<Longrightarrow> net (resume_request u json m) = Inr r
      \<Longrightarrow> rp_status r = 206 \<Longrightarrow> continued m r = Some m'
      \<Longrightarrow> dm_written m' = dm_written m \<and> describes raw tag m' \<and> delivers r raw (nat (dm_written m))"
begin

lemma plain_safe:
  assumes "good_part raw tag p d"
  shows "safely (good_part raw tag p) (download_plain net u p json maxb) d (\<lambda>res d'. exact raw tag res)"
proof (cases "net (plain_request u json)")
  case (Inl e)
  then show ?thesis using assms by (simp add: download_plain_def safely_quiet)
next
  case (Inr r)
  show ?thesis
  proof (cases "rp_status r = 200")
    case True
    from whole [OF Inr True] receive_fresh_good(1) [OF assms] show ?thesis by (simp add: download_plain_def Inr True)
  next
    case False
    then show ?thesis using assms by (simp add: download_plain_def Inr safely_quiet)
  qed
qed

lemma cleared_safe:
  assumes "good_part raw tag p d"
  shows "safely (good_part raw tag p) (andthen (clear_part p) (\<lambda>_. download_plain net u p json maxb)) d (\<lambda>res d'. exact raw tag res)"
  using good_part_cleared [OF assms] by (rule safely_andthen) (rule plain_safe)

lemma resumable_bounds:
  assumes "good_part raw tag p d" "part_matches d u p m" "describes raw tag m" "resumable m"
  shows "0 < dm_written m" "dm_written m < int (length raw)" "length (part_bytes d p) = nat (dm_written m)" "ready raw tag p m d"
proof -
  have "length (part_bytes d p) \<le> length raw"
    using assms(1) unfolding good_part_def by (metis length_take min.cobounded1)
  then show "dm_written m < int (length raw)"
    using assms(2-4) by (auto simp: part_matches_def resumable_def describes_def)
  show "0 < dm_written m" "length (part_bytes d p) = nat (dm_written m)" "ready raw tag p m d"
    using assms by (auto simp: part_matches_def ready_def)
qed

lemma rest_safe:
  assumes "good_part raw tag p d" "part_matches d u p m" "describes raw tag m" "resumable m"
  shows "safely (good_part raw tag p) (download_rest net u p json maxb m) d (\<lambda>res d'. exact raw tag res)"
proof (cases "net (resume_request u json m)")
  case (Inl e)
  then show ?thesis using assms(1) by (simp add: download_rest_def safely_quiet)
next
  case (Inr r)
  note b = resumable_bounds [OF assms]
  consider "rp_status r = 416 \<or> rp_status r = 206 \<and> continued m r = None" | m' where "rp_status r = 206" "continued m r = Some m'"
    | "rp_status r = 200" | "rp_status r \<notin> {200, 206, 416}" by (cases "continued m r") auto
  then show ?thesis
  proof cases
    case 1
    then have "download_rest net u p json maxb m = andthen (clear_part p) (\<lambda>_. download_plain net u p json maxb)"
      by (auto simp: download_rest_def Inr)
    then show ?thesis using cleared_safe [OF assms(1)] by simp
  next
    case 2
    from rest [OF assms(3) b(1,2) Inr 2]
    have m': "dm_written m' = dm_written m" "describes raw tag m'" "delivers r raw (length (part_bytes d p))" using b(3) by simp_all
    have "ready raw tag p m' d" using b(4) m' by (simp add: ready_def)
    from receive_good(1) [OF this m'(3)] show ?thesis using 2 by (simp add: download_rest_def Inr)
  next
    case 3
    from whole_instead [OF Inr 3] receive_fresh_good(1) [OF assms(1)] show ?thesis by (simp add: download_rest_def Inr 3)
  next
    case 4
    then show ?thesis using assms(1) by (simp add: download_rest_def Inr safely_quiet)
  qed
qed

theorem download_safe:
  assumes "good_part raw tag p d"
  shows "safely (good_part raw tag p) (download_streaming net u p resume json maxb) d (\<lambda>res d'. exact raw tag res)"
proof -
  let ?R = "\<lambda>part d'. good_part raw tag p d' \<and> (\<forall>m. part = Some m \<longrightarrow> part_matches d' u p m \<and> describes raw tag m)"
  have "safely (good_part raw tag p) (if resume then existing_part u p else give None) d ?R"
    using existing_part_good(1) [OF assms] assms by (simp add: safely_quiet)
  then show ?thesis unfolding download_streaming_def
  proof (rule safely_andthen)
    fix part d' assume "?R part d'"
    then show "safely (good_part raw tag p) (case part of None \<Rightarrow> download_plain net u p json maxb
        | Some m \<Rightarrow> if resumable m then download_rest net u p json maxb m else download_plain net u p json maxb) d' (\<lambda>res d'. exact raw tag res)"
      using plain_safe rest_safe by (auto split: option.split)
  qed
qed

end

text \<open>A network that answers every request completely, as long as the artifact is within a limit.\<close>

locale reachable_server = artifact_server +
  fixes limit :: int
  assumes plain_answered: "int (length raw) \<le> limit \<Longrightarrow> \<exists>r. net (plain_request u json) = Inr r \<and> rp_status r = 200 \<and> rp_broken r = None"
    and rest_answered: "int (length raw) \<le> limit \<Longrightarrow> describes raw tag m \<Longrightarrow> 0 < dm_written m \<Longrightarrow> dm_written m < int (length raw)
      \<Longrightarrow> \<exists>r. net (resume_request u json m) = Inr r \<and> rp_status r \<in> {200, 206, 416} \<and> rp_broken r = None"
begin

lemma plain_returns:
  assumes "good_part raw tag p d" "int (length raw) \<le> maxb" "int (length raw) \<le> limit"
  shows "\<not> isl (outcome (download_plain net u p json maxb) d)"
proof -
  obtain r where r: "net (plain_request u json) = Inr r" "rp_status r = 200" "rp_broken r = None" using plain_answered [OF assms(3)] by blast
  from whole [OF r(1,2)] receive_fresh_good(2) [OF assms(1)] r(3) assms(2) show ?thesis by (simp add: download_plain_def r(1,2))
qed

lemma rest_returns:
  assumes "good_part raw tag p d" "part_matches d u p m" "describes raw tag m" "resumable m" "int (length raw) \<le> maxb" "int (length raw) \<le> limit"
  shows "\<not> isl (outcome (download_rest net u p json maxb m) d)"
proof -
  note b = resumable_bounds [OF assms(1-4)]
  obtain r where r: "net (resume_request u json m) = Inr r" "rp_status r \<in> {200, 206, 416}" "rp_broken r = None"
    using rest_answered [OF assms(6) assms(3) b(1,2)] by blast
  have clear: "\<not> isl (outcome (andthen (clear_part p) (\<lambda>_. download_plain net u p json maxb)) d)"
    using plain_returns [OF _ assms(5,6)] good_part_cleared [OF assms(1)] by (auto simp: proc_simps clear_part_def safely_def)
  consider "rp_status r = 416 \<or> rp_status r = 206 \<and> continued m r = None" | m' where "rp_status r = 206" "continued m r = Some m'"
    | "rp_status r = 200" using r(2) by (cases "continued m r") auto
  then show ?thesis
  proof cases
    case 1
    then show ?thesis using clear by (auto simp: download_rest_def r(1))
  next
    case 2
    from rest [OF assms(3) b(1,2) r(1) 2]
    have m': "dm_written m' = dm_written m" "describes raw tag m'" "delivers r raw (length (part_bytes d p))" using b(3) by simp_all
    have "ready raw tag p m' d" using b(4) m' by (simp add: ready_def)
    from receive_good(2) [OF this m'(3) assms(5) r(3)] show ?thesis using 2 by (simp add: download_rest_def r(1))
  next
    case 3
    from whole_instead [OF r(1) 3] receive_fresh_good(2) [OF assms(1) _ _ assms(5) r(3)] show ?thesis by (simp add: download_rest_def r(1) 3)
  qed
qed

theorem download_returns:
  assumes "good_part raw tag p d" "int (length raw) \<le> maxb" "int (length raw) \<le> limit"
  shows "\<not> isl (outcome (download_streaming net u p True json maxb) d)"
proof -
  obtain part where o: "outcome (existing_part u p) d = Inr part"
    using existing_part_good(2) [OF assms(1), of u] by (cases "outcome (existing_part u p) d") simp_all
  with existing_part_good(1) [OF assms(1), of u] have q: "good_part raw tag p (after (existing_part u p) d)"
    "\<And>m. part = Some m \<Longrightarrow> part_matches (after (existing_part u p) d) u p m \<and> describes raw tag m" by (auto simp: safely_def)
  show ?thesis
  proof (cases part)
    case None
    then show ?thesis using plain_returns [OF q(1) assms(2,3)] o by (simp add: download_streaming_def proc_simps)
  next
    case (Some m)
    then show ?thesis using plain_returns [OF q(1) assms(2,3)] rest_returns [OF q(1) _ _ _ assms(2,3), of m] q(2) [OF Some] o
      by (simp add: download_streaming_def proc_simps)
  qed
qed

end

section \<open>The card endpoint behind a link\<close>

text \<open>What the link does to one request: refuse it, or carry the reply in chunks up to the point where it breaks.\<close>

record link_transfer =
  tr_refused :: "msg option"
  tr_chunk :: nat
  tr_cut :: "nat option"
  tr_error :: msg

function chunks :: "nat \<Rightarrow> string \<Rightarrow> string list" where
  "chunks n s = (if s = [] then [] else take (Suc n) s # chunks n (drop (Suc n) s))"
  by pat_completeness auto
termination by (relation "measure (\<lambda>(n, s). length s)") auto

declare chunks.simps [simp del]

lemma concat_chunks [simp]: "concat (chunks n s) = s"
proof (induction n s rule: chunks.induct)
  case (1 n s)
  show ?case
  proof (cases "s = []")
    case False
    then show ?thesis using 1 [OF False] by (subst chunks.simps) (simp del: take_Suc drop_Suc)
  qed (simp add: chunks.simps)
qed

definition body_bytes :: "reply_body \<Rightarrow> string" where
  "body_bytes b = (case b of Bytes s \<Rightarrow> s | _ \<Rightarrow> [])"

definition carried :: "link_transfer \<Rightarrow> delivery_reply \<Rightarrow> msg + net_reply" where
  "carried t rep =
     (case tr_refused t of
        Some e \<Rightarrow> Inl e
      | None \<Rightarrow>
         let b = body_bytes (dl_body rep); n = (case tr_cut t of None \<Rightarrow> length b | Some k \<Rightarrow> k) in
         Inr \<lparr>rp_status = dl_status rep, rp_headers = dl_headers rep, rp_chunks = chunks (tr_chunk t) (take n b),
              rp_broken = (if n < length b then Some (tr_error t) else None)\<rparr>)"

definition int64_limits :: "delivery_config \<Rightarrow> delivery_config" where
  "int64_limits cfg = cfg\<lparr>max_card_bytes := min max_int64 (max_card_bytes cfg)\<rparr>"

definition card_network ::
  "delivery_config \<Rightarrow> delivery_request \<Rightarrow> int \<Rightarrow> time \<Rightarrow> card_record \<Rightarrow> source_error option \<Rightarrow> (net_request \<Rightarrow> link_transfer) \<Rightarrow> network"
where
  "card_network cfg q v now rec gone tr =
     (\<lambda>nr. carried (tr nr) (card_reply (int64_limits cfg) (part_request q (nr_range nr) (nr_if_range nr)) v now
        (case gone of Some e \<Rightarrow> Inl e | None \<Rightarrow> Inr rec)))"

lemma carried_Inr:
  assumes "carried t rep = Inr r"
  shows "rp_status r = dl_status rep" "rp_headers r = dl_headers rep"
    "drop k raw = body_bytes (dl_body rep) \<Longrightarrow> delivers r raw k"
proof -
  show "rp_status r = dl_status rep" "rp_headers r = dl_headers rep"
    using assms by (auto simp: carried_def Let_def split: option.splits)
  let ?b = "body_bytes (dl_body rep)" and ?n = "case tr_cut t of None \<Rightarrow> length (body_bytes (dl_body rep)) | Some k \<Rightarrow> k"
  assume "drop k raw = ?b"
  moreover have "?b = concat (rp_chunks r) @ drop ?n ?b" "rp_broken r = None \<longrightarrow> drop ?n ?b = []"
    using assms by (auto simp: carried_def Let_def split: option.splits if_splits)
  ultimately show "delivers r raw k" unfolding delivers_def by metis
qed

lemma digit_not_slash: "CHR ''/'' \<notin> set (show_nat n)"
proof -
  have "digit_char d \<noteq> CHR ''/''" if "d < 10" for d
    using that by (auto simp: digit_char_def dest!: arg_cong [where f = "of_char :: char \<Rightarrow> int"])
  then show ?thesis using set_show_nat by metis
qed

text \<open>What the delivery writes as Content-Range the client reads back.\<close>

lemma content_range_read:
  assumes "0 \<le> a" "a \<le> b" "b < n" "n \<le> max_int64"
  shows "parse_content_range (format_content_range (mk_range a b) n) = Inr (a, b, n)"
proof -
  let ?rng = "show_nat (nat a) @ CHR ''-'' # show_nat (nat b)" and ?h = "format_content_range (mk_range a b) n"
  have h: "?h = ''bytes '' @ ?rng @ CHR ''/'' # show_nat (nat n)"
    using assms by (simp add: format_content_range_def mk_range_def show_int_def)
  have "visible (hd ?h) \<and> visible (last ?h)" unfolding h using visible_show_nat by (simp add: visible_def)
  then have t: "trim_space ?h = ?h" by (intro trim_space_visible) simp
  have p: "has_prefix ?h ''bytes ''" "trim_prefix ?h ''bytes '' = ?rng @ CHR ''/'' # show_nat (nat n)"
    unfolding h by (rule has_prefix_append) (rule trim_prefix_append)
  have "CHR ''/'' \<notin> set ?rng" using digit_not_slash by simp
  then have s: "index_byte (?rng @ CHR ''/'' # show_nat (nat n)) (CHR ''/'') = Some (length ?rng)" by (rule index_byte_append)
  have d: "index_byte ?rng (CHR ''-'') = Some (length (show_nat (nat a)))" by (rule index_byte_append) (rule no_separator_show_nat)
  have i: "parse_int64 (show_nat (nat x)) = Some x" if "0 \<le> x" "x \<le> n" for x
    using parse_int64_show_nat [of "nat x"] that assms by simp
  have star: "show_nat (nat n) \<noteq> ''*''" using visible_show_nat i [of n] assms by (auto simp: parse_int64_def parse_nat_def digit_val_def Let_def)
  have "parse_content_range ?h = range_spec ?h (show_nat (nat a)) (show_nat (nat b)) (show_nat (nat n))"
    unfolding parse_content_range_def t Let_def using p s d by simp
  also have "\<dots> = Inr (a, b, n)" using i [of a] i [of b] i [of n] assms star by (simp add: range_spec_def)
  finally show ?thesis .
qed

lemma card_whole:
  assumes "dl_status (card_reply cfg (part_request q rng tag) v now res) = 200"
  shows "\<exists>rec. res = Inr rec \<and> int (length (cr_raw rec)) \<le> max_card_bytes cfg
    \<and> dl_body (card_reply cfg (part_request q rng tag) v now res) = Bytes (cr_raw rec)
    \<and> get (dl_headers (card_reply cfg (part_request q rng tag) v now res)) ''ETag'' = Some (format_etag (cr_checksum rec))
    \<and> get (dl_headers (card_reply cfg (part_request q rng tag) v now res)) ''Content-Length'' = Some (show_int (int (length (cr_raw rec))))"
  using assms
  by (auto simp: card_reply_def ranged_reply_def part_request_def check_if_none_match_def full_reply_def content_headers_def
      source_error_reply_def write_error_def Let_def split: sum.splits if_splits option.splits source_error.splits)

lemma card_part_served:
  assumes "dl_status (card_reply cfg (part_request q (range_header (show_nat k) []) tag) v now res) = 206"
    and "\<And>rec. res = Inr rec \<Longrightarrow> k < length (cr_raw rec)" and "max_card_bytes cfg \<le> max_int64"
  shows "\<exists>rec. res = Inr rec \<and> int (length (cr_raw rec)) \<le> max_card_bytes cfg
    \<and> dl_body (card_reply cfg (part_request q (range_header (show_nat k) []) tag) v now res) = Bytes (drop k (cr_raw rec))
    \<and> get (dl_headers (card_reply cfg (part_request q (range_header (show_nat k) []) tag) v now res)) ''ETag'' = Some (format_etag (cr_checksum rec))
    \<and> get (dl_headers (card_reply cfg (part_request q (range_header (show_nat k) []) tag) v now res)) ''Content-Range''
        = Some (format_content_range (mk_range (int k) (int (length (cr_raw rec)) - 1)) (int (length (cr_raw rec))))"
proof (cases res)
  case (Inl e)
  then show ?thesis using assms(1) by (simp add: card_reply_def source_error_reply_def write_error_def split: source_error.splits)
next
  case (Inr rec)
  let ?n = "int (length (cr_raw rec))"
  have fits: "?n \<le> max_card_bytes cfg"
    using assms(1) by (auto simp: card_reply_def Inr write_error_def split: if_splits)
  have k: "k < length (cr_raw rec)" using assms(2) Inr by blast
  have "int k \<le> max_int64" using k fits assms(3) by simp
  from range_header_meaning [OF this this, of ?n] k
  have p: "parse_range (range_header (show_nat k) []) ?n = Inr (Some (mk_range (int k) (?n - 1)))" by simp
  have "range_header (show_nat k) [] \<noteq> []" by (simp add: range_header_def)
  then have "check_if_range tag (format_etag (cr_checksum rec))
      \<Longrightarrow> requested_range (part_request q (range_header (show_nat k) []) tag) (format_etag (cr_checksum rec)) ?n = Inr (Some (mk_range (int k) (?n - 1)))"
    "\<not> check_if_range tag (format_etag (cr_checksum rec))
      \<Longrightarrow> requested_range (part_request q (range_header (show_nat k) []) tag) (format_etag (cr_checksum rec)) ?n = Inr None"
    using p by (simp_all add: requested_range_def part_request_def)
  moreover have "section_of (mk_range (int k) (?n - 1)) (cr_raw rec) = drop k (cr_raw rec)"
    using k by (simp add: section_of_def mk_range_def)
  ultimately show ?thesis using assms(1) fits
    by (cases "check_if_range tag (format_etag (cr_checksum rec))")
      (simp_all add: card_reply_def Inr ranged_reply_def check_if_none_match_def content_headers_def full_reply_def Let_def part_request_def)
qed

definition card_tag :: "card_record \<Rightarrow> string" where
  "card_tag rec = strip_etag_quotes (format_etag (cr_checksum rec))"

lemma card_limit: "max_card_bytes (int64_limits cfg) = min max_int64 (max_card_bytes cfg)"
  by (simp add: int64_limits_def)

lemma network_whole:
  assumes "card_network cfg q v now rec gone tr nr = Inr r" "rp_status r = 200"
  shows "describes (cr_raw rec) (card_tag rec) (fresh_meta u r) \<and> delivers r (cr_raw rec) 0"
proof -
  let ?rep = "card_reply (int64_limits cfg) (part_request q (nr_range nr) (nr_if_range nr)) v now (case gone of Some e \<Rightarrow> Inl e | None \<Rightarrow> Inr rec)"
  have c: "carried (tr nr) ?rep = Inr r" using assms(1) by (simp add: card_network_def)
  with card_whole [of "int64_limits cfg" q "nr_range nr" "nr_if_range nr" v now "case gone of Some e \<Rightarrow> Inl e | None \<Rightarrow> Inr rec"] assms(2)
  have h: "int (length (cr_raw rec)) \<le> max_int64" "dl_body ?rep = Bytes (cr_raw rec)"
    "get (rp_headers r) ''ETag'' = Some (format_etag (cr_checksum rec))"
    "get (rp_headers r) ''Content-Length'' = Some (show_int (int (length (cr_raw rec))))"
    using carried_Inr(1,2) [OF c] by (auto simp: card_limit split: option.splits)
  have "parse_int64 (show_int (int (length (cr_raw rec)))) = Some (int (length (cr_raw rec)))"
    using h(1) by (intro parse_int64_show_int) (simp_all add: min_int64_def)
  then show ?thesis using h carried_Inr(3) [OF c, of 0 "cr_raw rec"]
    by (simp add: describes_def fresh_meta_def reply_header_def card_tag_def body_bytes_def)
qed

lemma resume_header: "0 < dm_written m \<Longrightarrow> nr_range (resume_request u json m) = range_header (show_nat (nat (dm_written m))) []"
  by (simp add: resume_request_def range_header_def show_int_def)

lemma network_rest:
  assumes "describes (cr_raw rec) (card_tag rec) m" "0 < dm_written m" "dm_written m < int (length (cr_raw rec))"
    "card_network cfg q v now rec gone tr (resume_request u json m) = Inr r" "rp_status r = 206" "continued m r = Some m'"
  shows "dm_written m' = dm_written m \<and> describes (cr_raw rec) (card_tag rec) m' \<and> delivers r (cr_raw rec) (nat (dm_written m))"
proof -
  let ?k = "nat (dm_written m)" and ?res = "case gone of Some e \<Rightarrow> Inl e | None \<Rightarrow> Inr rec" and ?tag = "nr_if_range (resume_request u json m)"
  let ?rep = "card_reply (int64_limits cfg) (part_request q (range_header (show_nat ?k) []) ?tag) v now ?res"
  have c: "carried (tr (resume_request u json m)) ?rep = Inr r"
    using assms(2,4) by (simp add: card_network_def resume_header)
  have k: "\<And>x. ?res = Inr x \<Longrightarrow> ?k < length (cr_raw x)" using assms(2,3) by (auto split: option.splits)
  have m: "max_card_bytes (int64_limits cfg) \<le> max_int64" by (simp add: card_limit)
  from card_part_served [of "int64_limits cfg" q ?k ?tag v now ?res, OF _ k m] carried_Inr(1,2) [OF c] assms(5)
  have h: "int (length (cr_raw rec)) \<le> max_int64" "dl_body ?rep = Bytes (drop ?k (cr_raw rec))"
    "get (rp_headers r) ''ETag'' = Some (format_etag (cr_checksum rec))"
    "get (rp_headers r) ''Content-Range'' = Some (format_content_range (mk_range (int ?k) (int (length (cr_raw rec)) - 1)) (int (length (cr_raw rec))))"
    by (auto simp: card_limit split: option.splits)
  have "parse_content_range (format_content_range (mk_range (int ?k) (int (length (cr_raw rec)) - 1)) (int (length (cr_raw rec))))
      = Inr (int ?k, int (length (cr_raw rec)) - 1, int (length (cr_raw rec)))"
    using assms(2,3) h(1) by (intro content_range_read) simp_all
  then show ?thesis using assms(1,2,6) h carried_Inr(3) [OF c, of ?k "cr_raw rec"]
    by (auto simp: continued_def reply_header_def describes_def body_bytes_def card_tag_def Let_def split: if_splits)
qed

interpretation link: artifact_server "card_network cfg q v now rec gone tr" u json "cr_raw rec" "card_tag rec"
  by unfold_locales (erule (1) network_whole, erule (1) network_whole, erule (5) network_rest)

definition open_link :: "nat \<Rightarrow> net_request \<Rightarrow> link_transfer" where
  "open_link n = (\<lambda>_. \<lparr>tr_refused = None, tr_chunk = n, tr_cut = None, tr_error = plain []\<rparr>)"

lemma open_carries: "\<exists>r. carried (open_link n nr) rep = Inr r \<and> rp_status r = dl_status rep \<and> rp_broken r = None"
  by (simp add: carried_def open_link_def)

lemma card_reply_status:
  assumes "int (length (cr_raw rec)) \<le> max_card_bytes cfg"
  shows "dl_status (card_reply cfg (part_request q rng tag) v now (Inr rec)) \<in> {200, 206, 416}"
    "dl_status (card_reply cfg (part_request q [] tag) v now (Inr rec)) = 200"
  using assms by (auto simp: card_reply_def ranged_reply_def part_request_def check_if_none_match_def full_reply_def requested_range_def
      Let_def split: sum.split option.split)

interpretation open_link: reachable_server "card_network cfg q v now rec None (open_link n)" u json "cr_raw rec" "card_tag rec"
  "min max_int64 (max_card_bytes cfg)"
proof unfold_locales
  assume "int (length (cr_raw rec)) \<le> min max_int64 (max_card_bytes cfg)"
  then have l: "int (length (cr_raw rec)) \<le> max_card_bytes (int64_limits cfg)" by (simp add: card_limit)
  show "\<exists>r. card_network cfg q v now rec None (open_link n) (plain_request u json) = Inr r \<and> rp_status r = 200 \<and> rp_broken r = None"
    using open_carries card_reply_status(2) [OF l] by (simp add: card_network_def plain_request_def) metis
next
  fix m assume "int (length (cr_raw rec)) \<le> min max_int64 (max_card_bytes cfg)"
  then have l: "int (length (cr_raw rec)) \<le> max_card_bytes (int64_limits cfg)" by (simp add: card_limit)
  show "\<exists>r. card_network cfg q v now rec None (open_link n) (resume_request u json m) = Inr r \<and> rp_status r \<in> {200, 206, 416} \<and> rp_broken r = None"
    using open_carries card_reply_status(1) [OF l] by (simp only: card_network_def option.case) metis
qed

section \<open>Interrupted downloads\<close>

text \<open>An attempt: whether the server has the card, the link, the time, and the writes done before a crash
  (all of them when the number is large enough).\<close>

type_synonym attempt = "source_error option \<times> (net_request \<Rightarrow> link_transfer) \<times> time \<times> nat"

definition attempted ::
  "delivery_config \<Rightarrow> delivery_request \<Rightarrow> int \<Rightarrow> card_record \<Rightarrow> string \<Rightarrow> string \<Rightarrow> int \<Rightarrow> client_disk \<Rightarrow> attempt \<Rightarrow> client_disk"
where
  "attempted cfg q v rec u p maxb d a = (case a of (gone, tr, now, n) \<Rightarrow>
     run apply_write d (take n (fst (download_streaming (card_network cfg q v now rec gone tr) u p True True maxb d))))"

lemma attempts_good:
  "good_part (cr_raw rec) (card_tag rec) p d \<Longrightarrow> good_part (cr_raw rec) (card_tag rec) p (run (attempted cfg q v rec u p maxb) d as)"
proof (induction as arbitrary: d)
  case (Cons a as)
  obtain gone tr now n where a: "a = (gone, tr, now, n)" by (cases a)
  have "attempted cfg q v rec u p maxb d a \<in> crashes (download_streaming (card_network cfg q v now rec gone tr) u p True True maxb) d"
    by (auto simp: attempted_def a crashes_iff)
  then have "good_part (cr_raw rec) (card_tag rec) p (attempted cfg q v rec u p maxb d a)"
    using link.download_safe [OF Cons.prems] unfolding safely_def by blast
  then show ?case using Cons.IH by simp
qed simp

text \<open>C13: However often a card download is refused, cut or ended by a crash of the device between any two
  writes, a later download that returns returns exactly the bytes that the delivery endpoint serves
  for the card, with their number as the expected size; and the next download over a working link does
  return them, when the card is within the limits of both sides.\<close>

theorem interrupted_card_arrives:
  assumes "get (ds_parts d) p = None" and "get (ds_part_metas d) p = None" and "d' = run (attempted cfg q v rec u p maxb) d as"
  shows "(\<forall>gone tr now res. outcome (download_streaming (card_network cfg q v now rec gone tr) u p True True maxb) d' = Inr res
        \<longrightarrow> st_bytes res = cr_raw rec \<and> st_expected res = int (length (cr_raw rec)))
    \<and> (int (length (cr_raw rec)) \<le> min maxb (min max_int64 (max_card_bytes cfg))
        \<longrightarrow> (\<exists>res. outcome (download_streaming (card_network cfg q v now rec None (open_link n)) u p True True maxb) d' = Inr res
              \<and> st_bytes res = cr_raw rec))"
proof -
  have "good_part (cr_raw rec) (card_tag rec) p d" using assms(1,2) by (simp add: good_part_def part_bytes_def)
  then have g: "good_part (cr_raw rec) (card_tag rec) p d'" unfolding assms(3) by (rule attempts_good)
  have exact: "exact (cr_raw rec) (card_tag rec) res"
    if "outcome (download_streaming (card_network cfg q v now rec gone tr) u p True True maxb) d' = Inr res" for gone tr now res
    using link.download_safe [OF g] that unfolding safely_def by blast
  have "\<not> isl (outcome (download_streaming (card_network cfg q v now rec None (open_link n)) u p True True maxb) d')"
    if "int (length (cr_raw rec)) \<le> min maxb (min max_int64 (max_card_bytes cfg))"
    using open_link.download_returns [OF g] that by simp
  then show ?thesis using exact unfolding exact_def by (metis sum.collapse(2))
qed

theorem interrupted_card_arrives_witness:
  "\<exists>res. outcome (download_streaming (card_network default_config demo_request 1 9 (Delivery_Cache.demo_card 5) None (open_link 1))
        ''u'' ''card-p-1'' True True 65536)
      (run (attempted default_config demo_request 1 (Delivery_Cache.demo_card 5) ''u'' ''card-p-1'' 65536) new_disk
        [(Some SrcNotFound, open_link 0, 3, 9), (None, open_link 0, 5, 4)]) = Inr res
    \<and> st_bytes res = cr_raw (Delivery_Cache.demo_card 5)"
proof -
  have "get (ds_parts new_disk) ''card-p-1'' = None" "get (ds_part_metas new_disk) ''card-p-1'' = None" by (simp_all add: new_disk_def)
  moreover have "int (length (cr_raw (Delivery_Cache.demo_card 5))) \<le> min 65536 (min max_int64 (max_card_bytes default_config))"
    by (simp add: Delivery_Cache.demo_card_def default_config_def max_int64_def)
  ultimately show ?thesis using interrupted_card_arrives [OF _ _ refl] by blast
qed

end
