(* ===== verification/Offline_Resources.thy ===== *)
theory Offline_Resources
  imports Offline_Types
begin

text \<open>
  The validator of offline resources, backend/internal/offlineresources: a single descriptor
  (descriptor.go), the identifiers and addresses of a pack (deps.go), the audit of a regional pack
  (pack.go, validator.go) and the references of a map style (style.go). Parsing a media type and
  decoding the style document are parameters. Where the code iterates over a Go map, the association
  list stands for the order the iteration happens to take.
\<close>

section \<open>Descriptors\<close>

record license_info =
  li_spdx :: string
  li_name :: string
  li_redistribution :: string
  li_offline_ok :: bool

record geo_bbox =
  bb_min_lon :: fnum
  bb_min_lat :: fnum
  bb_max_lon :: fnum
  bb_max_lat :: fnum

record pack_resource =
  pr_wire :: resource_descriptor
  pr_license :: "license_info option"
  pr_min_zoom :: "int option"
  pr_max_zoom :: "int option"
  pr_bbox :: "geo_bbox option"
  pr_languages :: "string list"

abbreviation pr_id :: "pack_resource \<Rightarrow> string" where "pr_id d \<equiv> rd_resource_id (pr_wire d)"
abbreviation pr_uri :: "pack_resource \<Rightarrow> string" where "pr_uri d \<equiv> rd_uri (pr_wire d)"
abbreviation pr_type :: "pack_resource \<Rightarrow> string" where "pr_type d \<equiv> rd_type (pr_wire d)"
abbreviation pr_checksum :: "pack_resource \<Rightarrow> string" where "pr_checksum d \<equiv> rd_checksum (pr_wire d)"
abbreviation pr_bytes :: "pack_resource \<Rightarrow> int" where "pr_bytes d \<equiv> rd_byte_size (pr_wire d)"

definition wire_only :: "resource_descriptor \<Rightarrow> pack_resource" where
  "wire_only r = \<lparr>pr_wire = r, pr_license = None, pr_min_zoom = None, pr_max_zoom = None, pr_bbox = None, pr_languages = []\<rparr>"

record validator_error =
  ve_reason :: msg
  ve_field :: string

definition invalid :: "string \<Rightarrow> string \<Rightarrow> validator_error" where
  "invalid reason f = \<lparr>ve_reason = plain reason, ve_field = f\<rparr>"

definition validator_text :: "validator_error \<Rightarrow> msg" where
  "validator_text e = (if ve_field e = [] then Fmt ''offlineresources: %s'' [AMsg (ve_reason e)]
     else Fmt ''offlineresources: %s: %s'' [AStr (ve_field e), AMsg (ve_reason e)])"

definition is_known_type :: "string \<Rightarrow> bool" where
  "is_known_type t \<longleftrightarrow> t \<in> set [''VECTOR_TILES'', ''MAP_STYLE'', ''MAP_SPRITE'', ''MAP_GLYPHS'', ''GAZETTEER'', ''EMERGENCY_AUDIO'']"

definition between :: "char \<Rightarrow> char \<Rightarrow> char \<Rightarrow> bool" where
  "between a b c \<longleftrightarrow> of_char a \<le> (of_char c :: nat) \<and> (of_char c :: nat) \<le> of_char b"

definition is_letter :: "char \<Rightarrow> bool" where
  "is_letter c \<longleftrightarrow> between CHR ''A'' CHR ''Z'' c \<or> between CHR ''a'' CHR ''z'' c"

definition is_digit :: "char \<Rightarrow> bool" where
  "is_digit c \<longleftrightarrow> between CHR ''0'' CHR ''9'' c"

text \<open>The patterns \<open>[0-9a-f]{64}\<close> and \<open>[A-Za-z]{2,3}(-[A-Za-z0-9]{2,8})*\<close> of the whole text.\<close>

definition is_digest :: "string \<Rightarrow> bool" where
  "is_digest s \<longleftrightarrow> length s = 64 \<and> list_all (\<lambda>c. is_digit c \<or> between CHR ''a'' CHR ''f'' c) s"

definition is_language_tag :: "string \<Rightarrow> bool" where
  "is_language_tag s = (case split_byte (CHR ''-'') s of
     [] \<Rightarrow> False
   | p # subs \<Rightarrow> length p \<in> {2, 3} \<and> list_all is_letter p
       \<and> list_all (\<lambda>x. 2 \<le> length x \<and> length x \<le> 8 \<and> list_all (\<lambda>c. is_letter c \<or> is_digit c) x) subs)"

definition bytes_for_type :: "string \<Rightarrow> int" where
  "bytes_for_type t = (if t = ''EMERGENCY_AUDIO'' then 524288 else 0)"

definition classify_media :: "string \<Rightarrow> string \<Rightarrow> bool" where
  "classify_media t ct \<longleftrightarrow>
     t = ''MAP_STYLE'' \<and> ct \<in> set [''application/json'', ''application/geo+json'']
   \<or> t = ''VECTOR_TILES'' \<and> ct \<in> set [''application/vnd.mapbox-vector-tile'', ''application/x-protobuf'']
   \<or> t = ''MAP_GLYPHS'' \<and> ct \<in> set [''application/x-protobuf'', ''application/octet-stream'']
   \<or> t = ''MAP_SPRITE'' \<and> ct \<in> set [''application/json'', ''image/png'']
   \<or> t = ''GAZETTEER'' \<and> ct \<in> set [''application/json'', ''application/geo+json'']
   \<or> t = ''EMERGENCY_AUDIO'' \<and> ct \<in> set [''audio/mpeg'', ''audio/mp4'', ''audio/ogg'', ''audio/wav'', ''application/ogg'']"

text \<open>Go's \<open>>\<close> on floats.\<close>

fun f_gt :: "fnum \<Rightarrow> fnum \<Rightarrow> bool" where
  "f_gt (FNum m e) (FNum m' e') = (if e' \<le> e then m' < m * 2 ^ nat (e - e') else m' * 2 ^ nat (e' - e) < m)"
| "f_gt (FNum m e) (FInf neg) = neg"
| "f_gt (FInf neg) (FNum m e) = (\<not> neg)"
| "f_gt (FInf neg) (FInf neg') = (\<not> neg \<and> neg')"
| "f_gt _ _ = False"

definition zoom_check :: "pack_resource \<Rightarrow> validator_error option" where
  "zoom_check d = (case (pr_min_zoom d, pr_max_zoom d) of
     (None, None) \<Rightarrow> None
   | (Some lo, Some hi) \<Rightarrow> check (lo < 0 \<or> 22 < hi \<or> hi < lo)
       (invalid ''min_zoom must be <= max_zoom and within [0,22]'' ''min_zoom/max_zoom'')
   | _ \<Rightarrow> Some (invalid ''min_zoom must be <= max_zoom and within [0,22]'' ''min_zoom/max_zoom''))"

definition bbox_check :: "pack_resource \<Rightarrow> validator_error option" where
  "bbox_check d = (case pr_bbox d of
     None \<Rightarrow> None
   | Some b \<Rightarrow> check (f_gt (bb_min_lon b) (bb_max_lon b) \<or> f_gt (bb_min_lat b) (bb_max_lat b)
         \<or> f_less (bb_min_lon b) (- 180) \<or> f_greater (bb_max_lon b) 180
         \<or> f_less (bb_min_lat b) (- 90) \<or> f_greater (bb_max_lat b) 90)
       (invalid ''bbox is malformed (min must be <= max on both axes)'' ''bbox''))"

definition names_license :: "license_info \<Rightarrow> bool" where
  "names_license l \<longleftrightarrow> li_spdx l \<noteq> [] \<or> li_name l \<noteq> []"

definition em_dash :: string where
  "em_dash = [CHR 0xE2, CHR 0x80, CHR 0x94]"

definition validate_license :: "pack_resource \<Rightarrow> validator_error option" where
  "validate_license d = (case pr_license d of
     None \<Rightarrow> None
   | Some l \<Rightarrow>
      if li_redistribution l = [] then None
      else first_err
       [check (li_redistribution l = ''REDISTRIBUTION_DENIED'')
          (invalid (''redistribution is explicitly denied '' @ em_dash @ '' offline pack not permitted'') ''license.redistribution''),
        check (li_redistribution l \<notin> set [''REDISTRIBUTION_ALLOWED'', ''REDISTRIBUTION_CONDITIONAL''])
          (invalid ''redistribution permission is not in the known set'' ''license.redistribution''),
        check (\<not> names_license l) (invalid ''license reference is empty while redistribution is declared'' ''license'')])"

text \<open>\<open>mime\<close> says whether \<open>mime.ParseMediaType\<close> accepts a media type.\<close>

definition validate_descriptor :: "(string \<Rightarrow> bool) \<Rightarrow> pack_resource \<Rightarrow> validator_error option" where
  "validate_descriptor mime d = (let w = pr_wire d in first_err
     [check (rd_resource_id w = []) (invalid ''resource_id is empty'' ''resource_id''),
      check (rd_uri w = []) (invalid ''uri is empty'' ''uri''),
      check (\<not> is_known_type (rd_type w)) (invalid ''unknown resource_type'' ''type''),
      check (\<not> is_digest (rd_checksum w)) (invalid ''checksum_sha256 must be 64 lowercase hex chars'' ''checksum_sha256''),
      check (rd_byte_size w \<le> 0) (invalid ''byte_size must be > 0'' ''byte_size''),
      check (rd_content_type w = []) (invalid ''content_type is empty'' ''content_type''),
      check (\<not> mime (rd_content_type w)) (invalid ''content_type is not a valid media type'' ''content_type''),
      check (\<not> classify_media (rd_type w) (rd_content_type w))
        \<lparr>ve_reason = Fmt ''unsupported tile or media format for resource_type (content_type=%s for type=%s)''
           [AStr (rd_content_type w), AStr (rd_type w)], ve_field = ''content_type''\<rparr>,
      check (trim_space (rd_attribution w) = []) (invalid ''attribution is empty'' ''attribution''),
      zoom_check d,
      bbox_check d,
      check (\<not> list_all is_language_tag (pr_languages d)) (invalid ''language tag does not match BCP-47 basic shape'' ''languages''),
      validate_license d,
      check (0 < bytes_for_type (rd_type w) \<and> bytes_for_type (rd_type w) < rd_byte_size w)
        \<lparr>ve_reason = Fmt ''required resource alone exceeds the per-asset budget for its type (declared=%d, ceiling=%d for type=%s)''
           [AInt (rd_byte_size w), AInt (bytes_for_type (rd_type w)), AStr (rd_type w)], ve_field = ''byte_size''\<rparr>])"

datatype license_verification = LicenseNotDeclared | LicensePending | LicenseDeclared | LicenseDenied

definition license_status :: "pack_resource \<Rightarrow> license_verification" where
  "license_status d = (case pr_license d of
     None \<Rightarrow> LicenseNotDeclared
   | Some l \<Rightarrow>
      if li_redistribution l = ''REDISTRIBUTION_DENIED'' then LicenseDenied
      else if li_redistribution l = [] then LicensePending
      else if li_redistribution l = ''REDISTRIBUTION_CONDITIONAL'' \<and> \<not> li_offline_ok l then LicensePending
      else if \<not> names_license l then LicensePending
      else LicenseDeclared)"

section \<open>Packs\<close>

record dep_graph =
  by_res_id :: "(string, pack_resource) gomap"
  by_uri :: "(string, pack_resource) gomap"

definition index_resource :: "dep_graph \<Rightarrow> pack_resource \<Rightarrow> dep_graph" where
  "index_resource g d =
     (let g' = g\<lparr>by_res_id := put (pr_id d) d (by_res_id g)\<rparr>
      in if get (by_uri g) (pr_uri d) = None then g'\<lparr>by_uri := put (pr_uri d) d (by_uri g)\<rparr> else g')"

definition new_dep_graph :: "pack_resource list \<Rightarrow> dep_graph" where
  "new_dep_graph rs = foldl index_resource \<lparr>by_res_id = [], by_uri = []\<rparr> rs"

text \<open>An identifier is reported when its count reaches two.\<close>

fun repeated :: "string list \<Rightarrow> string list \<Rightarrow> string list" where
  "repeated seen [] = []"
| "repeated seen (x # xs) = (if count_list seen x = 1 then x # repeated (x # seen) xs else repeated (x # seen) xs)"

definition duplicate_ids :: "pack_resource list \<Rightarrow> string list" where
  "duplicate_ids rs = sort (repeated [] (map pr_id rs))"

record conflict =
  cf_uri :: string
  cf_first :: pack_resource
  cf_second :: pack_resource

fun scan_conflicts :: "(string, pack_resource) gomap \<Rightarrow> pack_resource list \<Rightarrow> conflict list" where
  "scan_conflicts m [] = []"
| "scan_conflicts m (d # ds) =
     (case get m (pr_uri d) of
        None \<Rightarrow> scan_conflicts (put (pr_uri d) d m) ds
      | Some p \<Rightarrow>
         if pr_id p = pr_id d then scan_conflicts m ds
         else if pr_checksum p \<noteq> pr_checksum d \<or> pr_type p \<noteq> pr_type d
         then \<lparr>cf_uri = pr_uri d, cf_first = p, cf_second = d\<rparr> # scan_conflicts m ds
         else scan_conflicts m ds)"

text \<open>\<open>sort.Slice\<close> may order conflicts of one address differently; only the first enters an error text.\<close>

definition conflicts :: "pack_resource list \<Rightarrow> conflict list" where
  "conflicts rs = sort_key cf_uri (scan_conflicts [] rs)"

record missing_dep =
  md_from :: string
  md_missing :: string
  md_kind :: string
  md_optional :: bool

definition other_languages :: "pack_resource list \<Rightarrow> pack_resource \<Rightarrow> string list" where
  "other_languages rs d = concat (map pr_languages
     (filter (\<lambda>x. pr_type x = ''EMERGENCY_AUDIO'' \<and> pr_id x \<noteq> pr_id d) rs))"

definition required_missing :: "pack_resource list \<Rightarrow> missing_dep list" where
  "required_missing rs = concat (map (\<lambda>d.
     if rd_required (pr_wire d) \<and> pr_type d = ''EMERGENCY_AUDIO''
     then map (\<lambda>l. \<lparr>md_from = pr_id d, md_missing = ''language:'' @ l, md_kind = ''audio-language'', md_optional = False\<rparr>)
            (filter (\<lambda>l. l \<notin> set (other_languages rs d)) (pr_languages d))
     else []) rs)"

record pack_audit =
  au_total :: int
  au_budget :: int
  au_exceeds :: bool
  au_count :: nat
  au_attribution_missing :: "string list"
  au_optional :: int
  au_pending :: "string list"
  au_denied :: "string list"

definition default_pack_budget :: int where
  "default_pack_budget = 52428800"

definition sum64 :: "int list \<Rightarrow> int" where
  "sum64 xs = foldl (\<lambda>a x. wrap64 (a + x)) 0 xs"

definition pack_invalid :: "string \<Rightarrow> arg list \<Rightarrow> msg" where
  "pack_invalid f xs = Fmt ''%w: %s'' [AMsg (plain ''offlineresources: regional pack is invalid''), AMsg (Fmt f xs)]"

definition descriptor_error :: "(string \<Rightarrow> bool) \<Rightarrow> pack_resource \<Rightarrow> msg option" where
  "descriptor_error mime d = map_option (\<lambda>e. pack_invalid ''%s: %s'' [AStr (pr_id d), AMsg (validator_text e)]) (validate_descriptor mime d)"

definition duplicate_error :: "pack_resource list \<Rightarrow> msg option" where
  "duplicate_error rs = check (duplicate_ids rs \<noteq> [])
     (pack_invalid ''<pack>: duplicate resource_id in pack (%v)'' (map AStr (duplicate_ids rs)))"

definition conflict_error :: "pack_resource list \<Rightarrow> msg option" where
  "conflict_error rs = (case conflicts rs of
     [] \<Rightarrow> None
   | c # cs \<Rightarrow> Some (pack_invalid ''<pack>: two resources share a uri but differ in digest or type (uri=%s ids=%s,%s)''
       [AStr (cf_uri c), AStr (pr_id (cf_first c)), AStr (pr_id (cf_second c))]))"

definition audit_of :: "pack_resource list \<Rightarrow> int \<Rightarrow> pack_audit" where
  "audit_of rs budget =
     \<lparr>au_total = sum64 (map pr_bytes rs), au_budget = budget, au_exceeds = budget < sum64 (map pr_bytes rs), au_count = length rs,
      au_attribution_missing = sort (map pr_id (filter (\<lambda>d. rd_attribution (pr_wire d) = []) rs)),
      au_optional = sum64 (map pr_bytes (filter (\<lambda>d. \<not> rd_required (pr_wire d)) rs)),
      au_pending = sort (map pr_id (filter (\<lambda>d. license_status d = LicensePending) rs)),
      au_denied = sort (map pr_id (filter (\<lambda>d. license_status d = LicenseDenied) rs))\<rparr>"

definition audit_regional_pack :: "(string \<Rightarrow> bool) \<Rightarrow> pack_resource list \<Rightarrow> int \<Rightarrow> msg + pack_audit" where
  "audit_regional_pack mime rs budget =
     require (first_err [each_err (descriptor_error mime) rs, duplicate_error rs, conflict_error rs])
       (audit_of rs (if budget \<le> 0 then default_pack_budget else budget))"

definition new_validator :: "int \<Rightarrow> int" where
  "new_validator budget = (if budget = 0 then default_pack_budget else budget)"

section \<open>Map styles\<close>

record map_source =
  so_url :: string
  so_tiles :: "string list"
  so_tile_url :: string

record map_style =
  ms_sources :: "(string \<times> map_source) slice"
  ms_sprite :: string
  ms_glyphs :: string

definition ends_with_token :: "string \<Rightarrow> string \<Rightarrow> bool" where
  "ends_with_token uri t \<longleftrightarrow> uri \<noteq> [] \<and> t \<noteq> [] \<and> length t \<le> length uri \<and> drop (length uri - length t) uri = t"

definition has_uri_prefix :: "string \<Rightarrow> string \<Rightarrow> bool" where
  "has_uri_prefix a b \<longleftrightarrow> a \<noteq> [] \<and> b \<noteq> [] \<and> length b \<le> length a \<and> take (length b) a = b"

definition matches_any :: "dep_graph \<Rightarrow> string \<Rightarrow> string \<Rightarrow> bool" where
  "matches_any g t k = list_ex (\<lambda>(i, d). pr_type d = k \<and> (pr_id d = t \<or> ends_with_token (pr_uri d) t)) (by_res_id g)"

definition matches_any_prefix :: "dep_graph \<Rightarrow> string \<Rightarrow> string \<Rightarrow> bool" where
  "matches_any_prefix g p k = list_ex (\<lambda>(i, d). pr_type d = k
     \<and> (pr_uri d = p \<or> has_uri_prefix (pr_uri d) p \<or> has_uri_prefix p (pr_uri d))) (by_res_id g)"

definition style_dep :: "string \<Rightarrow> bool \<Rightarrow> string \<Rightarrow> missing_dep" where
  "style_dep k opt m = \<lparr>md_from = ''*style*'', md_missing = m, md_kind = k, md_optional = opt\<rparr>"

record style_result =
  sr_valid :: bool
  sr_sprites :: "missing_dep list"
  sr_glyphs :: "missing_dep list"
  sr_sources :: "missing_dep list"

definition style_sources :: "map_style \<Rightarrow> string list" where
  "style_sources s = concat (map (\<lambda>(n, x). filter (\<lambda>u. u \<noteq> []) ([so_url x] @ so_tiles x @ [so_tile_url x])) (elems (ms_sources s)))"

definition check_style_references :: "dep_graph \<Rightarrow> map_style \<Rightarrow> bool \<Rightarrow> style_result" where
  "check_style_references g s opt =
     (let sprites = (if ms_sprite s \<noteq> [] \<and> \<not> matches_any g (ms_sprite s) ''MAP_SPRITE'' then [style_dep ''sprite'' opt (ms_sprite s)] else []);
          glyphs = (if ms_glyphs s \<noteq> [] \<and> \<not> matches_any_prefix g (ms_glyphs s) ''MAP_GLYPHS'' then [style_dep ''glyphs'' opt (ms_glyphs s)] else []);
          sources = map (style_dep ''source'' opt)
            (filter (\<lambda>u. u \<noteq> [] \<and> \<not> matches_any_prefix g u ''VECTOR_TILES'') (style_sources s))
      in \<lparr>sr_valid = list_all md_optional (sprites @ glyphs @ sources), sr_sprites = sprites, sr_glyphs = glyphs, sr_sources = sources\<rparr>)"

text \<open>The decoder reads one style document and says whether data follow it.\<close>

definition validate_map_style ::
  "(string \<Rightarrow> msg + (map_style \<times> bool)) \<Rightarrow> string \<Rightarrow> pack_resource list \<Rightarrow> bool \<Rightarrow> validator_error + style_result"
where
  "validate_map_style decode b rs opt =
     (if b = [] then Inl (invalid ''style JSON is empty'' [])
      else case decode b of
        Inl e \<Rightarrow> Inl \<lparr>ve_reason = Fmt ''style JSON parse failed: %v'' [AMsg e], ve_field = []\<rparr>
      | Inr (s, trailing) \<Rightarrow>
         if trailing then Inl (invalid ''style JSON has trailing data'' [])
         else if ms_sources s = None \<and> ms_sprite s = [] \<and> ms_glyphs s = []
         then Inr \<lparr>sr_valid = True, sr_sprites = [], sr_glyphs = [], sr_sources = []\<rparr>
         else Inr ((check_style_references (new_dep_graph rs) s opt)\<lparr>sr_valid := opt \<or>
                 sr_valid (check_style_references (new_dep_graph rs) s opt)\<rparr>))"

section \<open>What a valid pack is\<close>

definition sound_window :: "pack_resource \<Rightarrow> bool" where
  "sound_window d \<longleftrightarrow> (pr_min_zoom d = None \<and> pr_max_zoom d = None
       \<or> (\<exists>lo hi. pr_min_zoom d = Some lo \<and> pr_max_zoom d = Some hi \<and> 0 \<le> lo \<and> lo \<le> hi \<and> hi \<le> 22))
     \<and> (\<forall>b. pr_bbox d = Some b \<longrightarrow> \<not> f_gt (bb_min_lon b) (bb_max_lon b) \<and> \<not> f_gt (bb_min_lat b) (bb_max_lat b)
         \<and> \<not> f_less (bb_min_lon b) (- 180) \<and> \<not> f_greater (bb_max_lon b) 180
         \<and> \<not> f_less (bb_min_lat b) (- 90) \<and> \<not> f_greater (bb_max_lat b) 90)"

definition sound_license :: "pack_resource \<Rightarrow> bool" where
  "sound_license d \<longleftrightarrow> (\<forall>l. pr_license d = Some l \<longrightarrow> li_redistribution l = []
     \<or> li_redistribution l \<in> {''REDISTRIBUTION_ALLOWED'', ''REDISTRIBUTION_CONDITIONAL''} \<and> names_license l)"

definition sound_resource :: "(string \<Rightarrow> bool) \<Rightarrow> pack_resource \<Rightarrow> bool" where
  "sound_resource mime d \<longleftrightarrow> pr_id d \<noteq> [] \<and> pr_uri d \<noteq> [] \<and> is_known_type (pr_type d) \<and> is_digest (pr_checksum d) \<and> 0 < pr_bytes d
     \<and> rd_content_type (pr_wire d) \<noteq> [] \<and> mime (rd_content_type (pr_wire d)) \<and> classify_media (pr_type d) (rd_content_type (pr_wire d))
     \<and> trim_space (rd_attribution (pr_wire d)) \<noteq> [] \<and> sound_window d \<and> list_all is_language_tag (pr_languages d) \<and> sound_license d
     \<and> (pr_type d = ''EMERGENCY_AUDIO'' \<longrightarrow> pr_bytes d \<le> 524288)"

definition same_artifact :: "pack_resource \<Rightarrow> pack_resource \<Rightarrow> bool" where
  "same_artifact d d' \<longleftrightarrow> pr_checksum d = pr_checksum d' \<and> pr_type d = pr_type d'"

definition sound_pack :: "(string \<Rightarrow> bool) \<Rightarrow> pack_resource list \<Rightarrow> bool" where
  "sound_pack mime rs \<longleftrightarrow> (\<forall>d \<in> set rs. sound_resource mime d) \<and> distinct (map pr_id rs)
     \<and> (\<forall>d \<in> set rs. \<forall>d' \<in> set rs. pr_uri d = pr_uri d' \<longrightarrow> same_artifact d d')"

lemma zoom_check_None: "zoom_check d = None \<longleftrightarrow> pr_min_zoom d = None \<and> pr_max_zoom d = None
     \<or> (\<exists>lo hi. pr_min_zoom d = Some lo \<and> pr_max_zoom d = Some hi \<and> 0 \<le> lo \<and> lo \<le> hi \<and> hi \<le> 22)"
  by (cases "pr_min_zoom d"; cases "pr_max_zoom d") (auto simp: zoom_check_def)

lemma window_checks: "zoom_check d = None \<and> bbox_check d = None \<longleftrightarrow> sound_window d"
  unfolding zoom_check_None sound_window_def bbox_check_def by (cases "pr_bbox d") simp_all

lemma validate_license_None: "validate_license d = None \<longleftrightarrow> sound_license d"
  unfolding validate_license_def sound_license_def by (cases "pr_license d") (auto simp: first_err_Cons_None)

lemma validate_descriptor_None: "validate_descriptor mime d = None \<longleftrightarrow> sound_resource mime d"
  unfolding validate_descriptor_def Let_def sound_resource_def window_checks [symmetric] validate_license_None [symmetric]
  by (auto simp: first_err_Cons_None bytes_for_type_def split: if_splits)

lemma repeated_Nil:
  "repeated seen xs = [] \<longleftrightarrow> (\<forall>x \<in> set xs. count_list seen x + count_list xs x \<le> 1 \<or> 2 \<le> count_list seen x)"
proof (induction xs arbitrary: seen)
  case (Cons x xs)
  show ?case
  proof (cases "count_list seen x = 1")
    case False
    have "count_list xs x = 0 \<or> x \<in> set xs" by (simp add: count_list_0_iff)
    with False show ?thesis by (auto simp: Cons.IH)
  qed simp
qed simp

lemma duplicate_ids_Nil: "duplicate_ids rs = [] \<longleftrightarrow> distinct (map pr_id rs)"
proof -
  have "duplicate_ids rs = [] \<longleftrightarrow> repeated [] (map pr_id rs) = []"
    unfolding duplicate_ids_def by (metis set_empty set_sort)
  also have "\<dots> \<longleftrightarrow> (\<forall>x \<in> set (map pr_id rs). count_list (map pr_id rs) x \<le> 1)"
    by (simp add: repeated_Nil)
  also have "\<dots> \<longleftrightarrow> distinct (map pr_id rs)"
    unfolding distinct_count_atmost_1 count_mset by (metis count_list_0_iff le_numeral_extra(4) less_one linorder_not_le not_less_iff_gr_or_eq le_less zero_le)
  finally show ?thesis .
qed

lemma artifact_sym: "same_artifact d e \<Longrightarrow> same_artifact e d" and artifact_refl [simp]: "same_artifact d d"
  by (simp_all add: same_artifact_def)

lemma scan_conflicts_known:
  assumes "get m (pr_uri d) = Some p" and "pr_id p \<noteq> pr_id d"
  shows "scan_conflicts m (d # ds) = [] \<longleftrightarrow> same_artifact p d \<and> scan_conflicts m ds = []"
  using assms by (auto simp: same_artifact_def)

lemma scan_conflicts_Nil:
  assumes "\<And>u p. get m u = Some p \<Longrightarrow> pr_uri p = u \<and> pr_id p \<notin> set (map pr_id ds)" and "distinct (map pr_id ds)"
  shows "scan_conflicts m ds = [] \<longleftrightarrow> (\<forall>d \<in> set ds. (\<forall>p. get m (pr_uri d) = Some p \<longrightarrow> same_artifact p d)
    \<and> (\<forall>d' \<in> set ds. pr_uri d = pr_uri d' \<longrightarrow> same_artifact d d'))"
  using assms
proof (induction ds arbitrary: m)
  case (Cons d ds)
  show ?case
  proof (cases "get m (pr_uri d)")
    case None
    have "scan_conflicts (put (pr_uri d) d m) ds = [] \<longleftrightarrow> (\<forall>e \<in> set ds. (\<forall>p. get (put (pr_uri d) d m) (pr_uri e) = Some p \<longrightarrow> same_artifact p e)
      \<and> (\<forall>d' \<in> set ds. pr_uri e = pr_uri d' \<longrightarrow> same_artifact e d'))"
    proof (rule Cons.IH)
      fix u p assume "get (put (pr_uri d) d m) u = Some p"
      then have "u = pr_uri d \<and> p = d \<or> get m u = Some p" by (simp split: if_splits)
      with Cons.prems show "pr_uri p = u \<and> pr_id p \<notin> set (map pr_id ds)" by auto
    next
      show "distinct (map pr_id ds)" using Cons.prems(2) by simp
    qed
    then have "scan_conflicts m (d # ds) = [] \<longleftrightarrow> (\<forall>e \<in> set ds. (\<forall>p. get (put (pr_uri d) d m) (pr_uri e) = Some p \<longrightarrow> same_artifact p e)
      \<and> (\<forall>d' \<in> set ds. pr_uri e = pr_uri d' \<longrightarrow> same_artifact e d'))" using None by simp
    also have "\<dots> \<longleftrightarrow> (\<forall>e \<in> set (d # ds). (\<forall>p. get m (pr_uri e) = Some p \<longrightarrow> same_artifact p e)
      \<and> (\<forall>d' \<in> set (d # ds). pr_uri e = pr_uri d' \<longrightarrow> same_artifact e d'))" (is "?l \<longleftrightarrow> ?r")
    proof
      assume l: ?l
      have "same_artifact d e" if "e \<in> set ds" "pr_uri e = pr_uri d" for e using l that by auto
      then show ?r using l None artifact_sym by (auto split: if_splits)
    next
      assume ?r then show ?l using None by (auto split: if_splits)
    qed
    finally show ?thesis .
  next
    case (Some p)
    then have p: "pr_uri p = pr_uri d" "pr_id p \<noteq> pr_id d" using Cons.prems(1) [OF Some] by auto
    have "scan_conflicts m ds = [] \<longleftrightarrow> (\<forall>e \<in> set ds. (\<forall>p. get m (pr_uri e) = Some p \<longrightarrow> same_artifact p e)
      \<and> (\<forall>d' \<in> set ds. pr_uri e = pr_uri d' \<longrightarrow> same_artifact e d'))"
    proof (rule Cons.IH)
      fix u p assume "get m u = Some p"
      with Cons.prems(1) show "pr_uri p = u \<and> pr_id p \<notin> set (map pr_id ds)" by auto
    next
      show "distinct (map pr_id ds)" using Cons.prems(2) by simp
    qed
    then have "scan_conflicts m (d # ds) = [] \<longleftrightarrow> same_artifact p d \<and> (\<forall>e \<in> set ds. (\<forall>p. get m (pr_uri e) = Some p \<longrightarrow> same_artifact p e)
      \<and> (\<forall>d' \<in> set ds. pr_uri e = pr_uri d' \<longrightarrow> same_artifact e d'))" using scan_conflicts_known [OF Some p(2)] by simp
    also have "\<dots> \<longleftrightarrow> (\<forall>e \<in> set (d # ds). (\<forall>p. get m (pr_uri e) = Some p \<longrightarrow> same_artifact p e)
      \<and> (\<forall>d' \<in> set (d # ds). pr_uri e = pr_uri d' \<longrightarrow> same_artifact e d'))" (is "?l \<longleftrightarrow> ?r")
    proof
      assume l: ?l
      have "same_artifact d e" if "e \<in> set ds" "pr_uri e = pr_uri d" for e
      proof -
        have "same_artifact p e" using l that Some by simp
        with l show ?thesis by (simp add: same_artifact_def)
      qed
      then show ?r using l Some artifact_sym by auto
    next
      assume ?r then show ?l using Some by simp
    qed
    finally show ?thesis .
  qed
qed simp

lemma conflict_error_None:
  assumes "distinct (map pr_id rs)"
  shows "conflict_error rs = None \<longleftrightarrow> (\<forall>d \<in> set rs. \<forall>d' \<in> set rs. pr_uri d = pr_uri d' \<longrightarrow> same_artifact d d')"
proof -
  have "conflict_error rs = None \<longleftrightarrow> scan_conflicts [] rs = []"
    unfolding conflict_error_def conflicts_def by (cases "sort_key cf_uri (scan_conflicts [] rs)") (simp, metis set_empty set_sort, simp, metis list.distinct(1) sort_key_simps(1))
  then show ?thesis using scan_conflicts_Nil [of "[]" rs] assms by simp
qed

lemma pack_checks:
  "first_err [each_err (descriptor_error mime) rs, duplicate_error rs, conflict_error rs] = None \<longleftrightarrow> sound_pack mime rs"
  using conflict_error_None [of rs]
  by (auto simp: first_err_Cons_None each_err_None descriptor_error_def validate_descriptor_None duplicate_error_def duplicate_ids_Nil sound_pack_def)

lemma wrap64_add: "wrap64 (wrap64 a + b) = wrap64 (a + b)"
proof -
  have "wrap64 (wrap64 a + b) = ((a + 2 ^ 63) mod 2 ^ 64 + b) mod 2 ^ 64 - 2 ^ 63" by (simp add: wrap64_def)
  also have "((a + 2 ^ 63) mod 2 ^ 64 + b) mod (2 ^ 64 :: int) = (a + 2 ^ 63 + b) mod 2 ^ 64" by (rule mod_add_left_eq)
  also have "a + 2 ^ 63 + b = a + b + (2 ^ 63 :: int)" by simp
  finally show ?thesis by (simp only: wrap64_def)
qed

lemma sum64_eq: "sum64 xs = wrap64 (sum_list xs)"
proof -
  have "foldl (\<lambda>a x. wrap64 (a + x)) (wrap64 b) xs = wrap64 (b + sum_list xs)" for b
    by (induction xs arbitrary: b) (simp_all add: wrap64_add add.assoc)
  from this [of 0] show ?thesis by (simp add: sum64_def wrap64_def)
qed

text \<open>C27: The audit accepts exactly the sound packs: each descriptor well formed on its own, no identifier
  twice, and no address with two artifacts; what it reports of them are the sums of the sizes in
  64-bit arithmetic, whether the total is over the budget, and the sorted resources whose license is
  pending. Being over the budget does not refuse a pack, and the lists of missing attributions and of
  denied licenses are always empty.\<close>

theorem pack_accepted_exactly:
  "(audit_regional_pack mime rs budget = Inr a) = (sound_pack mime rs
     \<and> a = (let limit = (if budget \<le> 0 then 52428800 else budget); total = wrap64 (\<Sum>d\<leftarrow>rs. pr_bytes d) in
         \<lparr>au_total = total, au_budget = limit, au_exceeds = limit < total, au_count = length rs, au_attribution_missing = [],
          au_optional = wrap64 (\<Sum>d\<leftarrow>filter (\<lambda>d. \<not> rd_required (pr_wire d)) rs. pr_bytes d),
          au_pending = sort (map pr_id (filter (\<lambda>d. license_status d = LicensePending) rs)), au_denied = []\<rparr>))"
proof -
  have "rd_attribution (pr_wire d) \<noteq> [] \<and> license_status d \<noteq> LicenseDenied" if "sound_resource mime d" for d
    using that by (auto simp: sound_resource_def license_status_def sound_license_def split: option.splits)
  then have "filter (\<lambda>d. rd_attribution (pr_wire d) = []) rs = [] \<and> filter (\<lambda>d. license_status d = LicenseDenied) rs = []"
    if "sound_pack mime rs" using that unfolding sound_pack_def filter_empty_conv by blast
  then show ?thesis unfolding audit_regional_pack_def require_Inr pack_checks
    by (auto simp: audit_of_def sum64_eq default_pack_budget_def Let_def)
qed

end
