(* ===== verification/Client_Sync.thy ===== *)
theory Client_Sync
  imports Client_Transport Offline_Resources
begin

text \<open>
  The synchronization of the offline client, backend/internal/offlineclient/sync.go and client.go:
  download and verify the manifest, audit its resources, record its revocations, fetch the card when
  it changed, activate both with one write, and save the state. The result of a sync is its report
  and the client with its monotonic anchor.
\<close>

section \<open>Construction\<close>

record client_config =
  cc_base_url :: string
  cc_storage_dir :: string
  cc_trust :: "trust_keys option"
  cc_max_resource :: int
  cc_stale_seconds :: int

definition new_client :: "client_config \<Rightarrow> client_error + protocol_client" where
  "new_client cfg =
     (if cc_base_url cfg = [] then Inl (ClientErr (plain ''offlineclient: BaseURL required''))
      else if cc_storage_dir cfg = [] then Inl (ClientErr (plain ''offlineclient: StorageDir required''))
      else case cc_trust cfg of
        None \<Rightarrow> Inl (ClientErr (plain ''offlineclient: TrustStore required''))
      | Some ts \<Rightarrow> Inr \<lparr>cl_trust = ts,
          cl_stale_before = (if cc_stale_seconds cfg \<le> 0 then 300 else cc_stale_seconds cfg) * second,
          cl_sync_mono = None, cl_base_url = cc_base_url cfg,
          cl_max_resource = (if cc_max_resource cfg \<le> 0 then 104857600 else cc_max_resource cfg)\<rparr>)"

definition get_active_manifest :: "publish_lib \<Rightarrow> client_disk \<Rightarrow> client_error + manifest" where
  "get_active_manifest lib d = bind_res (read_generation d) (\<lambda>(mb, cb).
     case client_read_manifest lib mb of Inl e \<Rightarrow> Inl (OffErr e) | Inr m \<Rightarrow> Inr m)"

section \<open>The phases\<close>

record sync_report =
  sp_manifest_updated :: bool
  sp_revision :: int
  sp_card_updated :: bool
  sp_revoked :: "string list"
  sp_cancelled :: "string list"
  sp_superseded :: "superseded_version list"
  sp_audit :: "pack_audit option"
  sp_validated :: nat

definition audit_resources :: "device_lib \<Rightarrow> int \<Rightarrow> manifest \<Rightarrow> client_error + pack_audit option" where
  "audit_resources lib budget m =
     (if mf_resources m = [] then Inr None
      else case audit_regional_pack (dv_mime lib) (map wire_only (mf_resources m)) budget of
             Inl e \<Rightarrow> Inl (ClientErr (Fmt ''offlineclient: resource audit: %w'' [AMsg e]))
           | Inr a \<Rightarrow> Inr (Some a))"

text \<open>Wrapping an error keeps the sentinel that \<open>errors.Is\<close> finds.\<close>

fun relabelled :: "string \<Rightarrow> client_error \<Rightarrow> client_error" where
  "relabelled f (ClientErr m) = ClientErr (Fmt f [AMsg m])"
| "relabelled f (OffErr e) = OffErr (fst e, Fmt f [AMsg (snd e)])"
| "relabelled f e = e"

definition relabel :: "string \<Rightarrow> 'a proc \<Rightarrow> 'a proc" where
  "relabel f p d = (fst (p d), map_sum (relabelled f) id (snd (p d)))"

text \<open>What a loop of tombstones adds: the entries whose call said that they are new.\<close>

definition added :: "'a list \<Rightarrow> bool list \<Rightarrow> 'a list" where
  "added xs bs = map fst (filter snd (zip xs bs))"

definition apply_revocations :: "revocation_block \<Rightarrow> (string list \<times> string list) proc" where
  "apply_revocations b =
     andthen (for_each (\<lambda>p. relabel ''offlineclient: tombstone package: %w'' (add_package p)) (revoked_packages b)) (\<lambda>ps.
     andthen (for_each (\<lambda>r. relabel ''offlineclient: tombstone route: %w'' (add_route r)) (cancelled_routes b)) (\<lambda>rs.
     andthen (for_each (\<lambda>x. relabel ''offlineclient: tombstone supersede: %w'' (add_superseded x)) (superseded_versions b)) (\<lambda>_.
     give (added (revoked_packages b) ps, added (cancelled_routes b) rs))))"

definition active_intact :: "publish_lib \<Rightarrow> manifest \<Rightarrow> client_disk \<Rightarrow> bool" where
  "active_intact lib m d =
     (case read_generation d of
        Inl e \<Rightarrow> False
      | Inr (mb, cb) \<Rightarrow>
         (case (client_read_manifest lib mb, client_read_card lib cb) of
            (Inr am, Inr ac) \<Rightarrow> mf_revision am = mf_revision m \<and> mf_checksum am = mf_checksum m \<and> mf_manifest_id am = mf_manifest_id m
              \<and> ic_package_id ac = cd_package_id (mf_critical_card m) \<and> ic_version ac = cd_version (mf_critical_card m)
              \<and> ic_checksum ac = cd_checksum (mf_critical_card m)
          | _ \<Rightarrow> False))"

definition active_card_bytes :: "client_disk \<Rightarrow> string" where
  "active_card_bytes d = (case read_generation d of Inl e \<Rightarrow> [] | Inr (mb, cb) \<Rightarrow> cb)"

definition card_needs_fetch :: "publish_lib \<Rightarrow> manifest \<Rightarrow> string \<Rightarrow> client_error + bool" where
  "card_needs_fetch lib m cb =
     (let x = mf_critical_card m in
      if cd_package_id x = [] \<or> cd_version x \<le> 0 then Inl (ClientErr (plain ''offlineclient: manifest critical_card is incomplete''))
      else if cb = [] then Inr True
      else case client_read_card lib cb of
             Inl e \<Rightarrow> Inr True
           | Inr ic \<Rightarrow> Inr (\<not> card_of_manifest m ic))"

text \<open>The bytes of the card to activate, and whether they were downloaded.\<close>

definition fetch_card ::
  "device_lib \<Rightarrow> protocol_client \<Rightarrow> network \<Rightarrow> string \<Rightarrow> manifest \<Rightarrow> bool \<Rightarrow> (string \<times> bool) proc"
where
  "fetch_card lib c net jur m must =
     andthen (if must then give True else look (\<lambda>d. card_needs_fetch (dv_pub lib) m (active_card_bytes d))) (\<lambda>changed.
     if changed then andthen (download_card lib c net jur (mf_critical_card m)) (\<lambda>b. give (b, True))
     else look (\<lambda>d. Inr (active_card_bytes d, False)))"

definition activate ::
  "device_lib \<Rightarrow> string \<Rightarrow> string \<Rightarrow> manifest \<Rightarrow> string \<Rightarrow> bool \<Rightarrow> time \<Rightarrow> unit proc"
where
  "activate lib jur mb m cb changed now =
     andthen (write_generation (dv_pub lib) mb cb) (\<lambda>_.
     andthen (if changed then clear_part (card_part_name (cd_package_id (mf_critical_card m)) (cd_version (mf_critical_card m)))
              else give ()) (\<lambda>_.
     andthen (clear_part (manifest_part jur)) (\<lambda>_.
     save_state \<lparr>cs_revision = mf_revision m, cs_jurisdiction = jur, cs_fetched_ms = unix_milli now,
       cs_max_observed_ms = 0, cs_expired_ms = 0\<rparr>)))"

section \<open>Sync\<close>

definition sync_checks :: "string \<Rightarrow> client_state \<Rightarrow> manifest \<Rightarrow> client_error option" where
  "sync_checks jur st m = first_err
     [check (mf_jurisdiction m \<noteq> jur) (ClientErr (Fmt ''offlineclient: manifest jurisdiction mismatch: got %q expected %q''
        [AStr (mf_jurisdiction m), AStr jur])),
      check (mf_revision m < cs_revision st) (OffErr (sentinel ErrVersionRollback ''offlinepkg: manifest revision is older than active revision''))]"

definition first_report :: "manifest \<Rightarrow> pack_audit option \<Rightarrow> string list \<times> string list \<Rightarrow> sync_report" where
  "first_report m audit fresh =
     \<lparr>sp_manifest_updated = False, sp_revision = mf_revision m, sp_card_updated = False, sp_revoked = fst fresh,
      sp_cancelled = snd fresh, sp_superseded = superseded_versions (mf_revocations m), sp_audit = audit,
      sp_validated = length (mf_resources m)\<rparr>"

text \<open>After the revocations: nothing to do for the generation that is active, or the card and the activation.\<close>

definition finish_sync ::
  "device_lib \<Rightarrow> protocol_client \<Rightarrow> network \<Rightarrow> string \<Rightarrow> time \<Rightarrow> client_state \<Rightarrow> string \<Rightarrow> manifest \<Rightarrow> sync_report \<Rightarrow> sync_report proc"
where
  "finish_sync lib c net jur now st mb m rep =
     andthen (look (\<lambda>d. Inr (active_intact (dv_pub lib) m d))) (\<lambda>intact.
     if mf_revision m = cs_revision st \<and> 0 < cs_revision st \<and> intact
     then andthen (clear_part (manifest_part jur)) (\<lambda>_. give rep)
     else andthen (fetch_card lib c net jur m (\<not> intact \<or> cs_revision st = 0)) (\<lambda>(cb, changed).
          andthen (activate lib jur mb m cb changed now) (\<lambda>_.
          give (rep\<lparr>sp_manifest_updated := True, sp_card_updated := changed\<rparr>))))"

definition sync_verified ::
  "device_lib \<Rightarrow> protocol_client \<Rightarrow> network \<Rightarrow> int \<Rightarrow> string \<Rightarrow> time \<Rightarrow> client_state \<Rightarrow> string \<times> manifest \<Rightarrow> sync_report proc"
where
  "sync_verified lib c net budget jur now st bm = (case bm of (mb, m) \<Rightarrow>
     andthen (demand (sync_checks jur st m)) (\<lambda>_.
     andthen (look (\<lambda>_. audit_resources lib budget m)) (\<lambda>audit.
     andthen (apply_revocations (mf_revocations m)) (\<lambda>fresh.
     finish_sync lib c net jur now st mb m (first_report m audit fresh)))))"

definition sync ::
  "device_lib \<Rightarrow> protocol_client \<Rightarrow> network \<Rightarrow> int \<Rightarrow> string \<Rightarrow> time \<Rightarrow> time \<Rightarrow> (sync_report \<times> protocol_client) proc"
where
  "sync lib c net budget jur now mt =
     andthen (demand (check (jur = []) (ClientErr (plain ''offlineclient: jurisdiction required'')))) (\<lambda>_.
     andthen (look load_state) (\<lambda>st.
     andthen (demand (check (cs_jurisdiction st \<noteq> [] \<and> cs_jurisdiction st \<noteq> jur)
       (ClientErr (Fmt ''offlineclient: storage is bound to jurisdiction %q'' [AStr (cs_jurisdiction st)])))) (\<lambda>_.
     andthen (download_manifest lib c net jur) (\<lambda>bm.
     andthen (sync_verified lib c net budget jur now st bm) (\<lambda>rep.
     give (rep, c\<lparr>cl_sync_mono := Some mt\<rparr>))))))"

end
