(* ===== verification/Client_Safety.thy ===== *)
theory Client_Safety
  imports Client_Sync
begin

text \<open>
  What a sync of the offline client guarantees when it is cut off at any write: the active manifest and
  card change together and only to a verified pair, the withdrawals that the device knows are never
  forgotten, and a completed sync makes its card usable.
\<close>

section \<open>Contracts of the parts\<close>

lemma safely_relabel: "safely I (relabel f p) d Q \<longleftrightarrow> safely I p d Q"
proof -
  have "outcome (relabel f p) d = Inr r \<longleftrightarrow> outcome p d = Inr r" for r
    by (cases "snd (p d)") (simp_all add: outcome_def relabel_def)
  then show ?thesis by (simp add: safely_def crashes_def after_def relabel_def)
qed

definition remembers :: "client_disk \<Rightarrow> client_disk \<Rightarrow> bool" where
  "remembers d x \<longleftrightarrow> (\<forall>p. contains_package d p \<longrightarrow> contains_package x p) \<and> (\<forall>r. contains_route d r \<longrightarrow> contains_route x r)
     \<and> (\<forall>p v. is_superseded d p v \<longrightarrow> is_superseded x p v)"

text \<open>What the phases before the activation may do to the disk.\<close>

definition before :: "client_disk \<Rightarrow> client_disk \<Rightarrow> bool" where
  "before d x \<longleftrightarrow> remembers d x \<and> ds_generation x = ds_generation d \<and> ds_state x = ds_state d
     \<and> ds_contents x = ds_contents d \<and> ds_metas x = ds_metas d"

lemma before_refl [simp]: "before d d"
  by (simp add: before_def remembers_def)

lemma before_trans: "before a b \<Longrightarrow> before b c \<Longrightarrow> before a c"
  by (auto simp: before_def remembers_def)

lemma tombs_same:
  assumes "ds_tombs x = ds_tombs d" "ds_marker x = ds_marker d"
  shows "load_tombs x = load_tombs d" "contains_package x = contains_package d" "contains_route x = contains_route d"
    "is_superseded x = is_superseded d"
proof -
  show l: "load_tombs x = load_tombs d" using assms by (simp add: load_tombs_def)
  then show "contains_package x = contains_package d" "contains_route x = contains_route d" "is_superseded x = is_superseded d"
    by (simp_all add: fun_eq_iff contains_package_def contains_route_def is_superseded_def)
qed

lemma installed_fields:
  assumes "installed x = installed d"
  shows "ds_generation x = ds_generation d" "ds_state x = ds_state d" "ds_tombs x = ds_tombs d" "ds_marker x = ds_marker d"
    "ds_contents x = ds_contents d" "ds_metas x = ds_metas d"
  using arg_cong [OF assms, of ds_generation] arg_cong [OF assms, of ds_state] arg_cong [OF assms, of ds_tombs]
    arg_cong [OF assms, of ds_marker] arg_cong [OF assms, of ds_contents] arg_cong [OF assms, of ds_metas]
  by (simp_all add: installed_def)

lemma before_installed: "installed x = installed d \<Longrightarrow> before d x"
  using installed_fields [of x d] tombs_same [of x d] by (simp add: before_def remembers_def)

lemma parts_safely:
  assumes "touches_parts p"
  shows "safely (before d) p d (\<lambda>r d'. before d d' \<and> outcome p d = Inr r)"
  using touches_parts_after [OF assms] before_installed by (auto simp: safely_def)

lemma tombs_grow:
  assumes "load_tombs d = Inr t" "set (tb_packages t) \<subseteq> set (tb_packages t')" "set (tb_routes t) \<subseteq> set (tb_routes t')"
    "set (tb_superseded t) \<subseteq> set (tb_superseded t')"
  shows "load_tombs x = Inr t' \<Longrightarrow> remembers d x" "isl (load_tombs x) \<Longrightarrow> remembers d x"
  using assms
  by (auto simp: remembers_def contains_package_def contains_route_def is_superseded_def list_ex_iff split: sum.splits if_splits)

lemma save_tombs_safely:
  assumes "load_tombs d = Inr t" "set (tb_packages t) \<subseteq> set (tb_packages t')" "set (tb_routes t) \<subseteq> set (tb_routes t')"
    "set (tb_superseded t) \<subseteq> set (tb_superseded t')"
  shows "safely (before d) (save_tombs t') d (\<lambda>_ d'. before d d' \<and> load_tombs d' = Inr t')"
proof -
  let ?d1 = "d\<lparr>ds_marker := True\<rparr>" and ?d2 = "d\<lparr>ds_marker := True, ds_tombs := Holds t'\<rparr>"
  have "load_tombs ?d1 = Inr t \<or> isl (load_tombs ?d1)"
    using assms(1) by (auto simp: load_tombs_def split: stored_file.splits if_splits)
  then have "remembers d ?d1"
    using tombs_grow [OF assms(1) subset_refl subset_refl subset_refl, of ?d1] by auto
  then have b1: "before d ?d1" by (simp add: before_def)
  have l2: "load_tombs ?d2 = Inr t'" by (simp add: load_tombs_def)
  then have b2: "before d ?d2" using tombs_grow(1) [OF assms] by (simp add: before_def)
  have "write_marker d = give () d \<and> ?d1 = d \<or> write_marker d = writes [WMarker] d"
    by (auto simp: write_marker_def)
  then have "safely (before d) write_marker d (\<lambda>_ x. x = ?d1)"
    using b1 by (auto simp: safely_def crashes_def outcome_def after_def give_def writes_def take_Cons' split: if_splits)
  then show ?thesis unfolding save_tombs_def
    using b1 b2 l2 by (intro safely_andthen [where R = "\<lambda>_ x. x = ?d1"]) (simp_all add: safely_writes)
qed

lemma look_tombs:
  assumes "\<And>t. load_tombs d = Inr t \<Longrightarrow> safely (before d) (f t) d Q"
  shows "safely (before d) (andthen (look load_tombs) f) d Q"
  by (rule safely_andthen [where R = "\<lambda>t x. x = d \<and> load_tombs d = Inr t"]) (auto simp: safely_quiet assms)

lemma add_package_safely: "safely (before d) (add_package p) d (\<lambda>_ d'. before d d' \<and> contains_package d' p)"
  unfolding add_package_def
proof (rule look_tombs)
  fix t assume t: "load_tombs d = Inr t"
  show "safely (before d) (if p \<in> set (tb_packages t) then give False
      else andthen (save_tombs (t\<lparr>tb_packages := tb_packages t @ [p]\<rparr>)) (\<lambda>_. give True)) d (\<lambda>_ d'. before d d' \<and> contains_package d' p)"
  proof (cases "p \<in> set (tb_packages t)")
    case True
    then show ?thesis using t by (simp add: safely_quiet contains_package_def)
  next
    case False
    have "safely (before d) (save_tombs (t\<lparr>tb_packages := tb_packages t @ [p]\<rparr>)) d
        (\<lambda>_ d'. before d d' \<and> load_tombs d' = Inr (t\<lparr>tb_packages := tb_packages t @ [p]\<rparr>))"
      by (rule save_tombs_safely [OF t]) auto
    then show ?thesis using False by (auto intro!: safely_andthen simp: safely_quiet contains_package_def)
  qed
qed

lemma add_route_safely: "safely (before d) (add_route p) d (\<lambda>_ d'. before d d' \<and> contains_route d' p)"
  unfolding add_route_def
proof (rule look_tombs)
  fix t assume t: "load_tombs d = Inr t"
  show "safely (before d) (if p \<in> set (tb_routes t) then give False
      else andthen (save_tombs (t\<lparr>tb_routes := tb_routes t @ [p]\<rparr>)) (\<lambda>_. give True)) d (\<lambda>_ d'. before d d' \<and> contains_route d' p)"
  proof (cases "p \<in> set (tb_routes t)")
    case True
    then show ?thesis using t by (simp add: safely_quiet contains_route_def)
  next
    case False
    have "safely (before d) (save_tombs (t\<lparr>tb_routes := tb_routes t @ [p]\<rparr>)) d
        (\<lambda>_ d'. before d d' \<and> load_tombs d' = Inr (t\<lparr>tb_routes := tb_routes t @ [p]\<rparr>))"
      by (rule save_tombs_safely [OF t]) auto
    then show ?thesis using False by (auto intro!: safely_andthen simp: safely_quiet contains_route_def)
  qed
qed

definition superseded_known :: "client_disk \<Rightarrow> superseded_version \<Rightarrow> bool" where
  "superseded_known d s \<longleftrightarrow> sv_package_id s = [] \<or> sv_version s \<le> 0 \<or> is_superseded d (sv_package_id s) (sv_version s)"

lemma add_superseded_safely: "safely (before d) (add_superseded s) d (\<lambda>_ d'. before d d' \<and> superseded_known d' s)"
  unfolding add_superseded_def
proof (rule look_tombs)
  fix t assume t: "load_tombs d = Inr t"
  show "safely (before d) (if list_ex (names_version (sv_package_id s) (sv_version s)) (tb_superseded t) then give ()
      else save_tombs (t\<lparr>tb_superseded := tb_superseded t @ [s]\<rparr>)) d (\<lambda>_ d'. before d d' \<and> superseded_known d' s)"
  proof (cases "list_ex (names_version (sv_package_id s) (sv_version s)) (tb_superseded t)")
    case True
    then show ?thesis using t by (simp add: safely_quiet superseded_known_def is_superseded_def)
  next
    case False
    have "safely (before d) (save_tombs (t\<lparr>tb_superseded := tb_superseded t @ [s]\<rparr>)) d
        (\<lambda>_ d'. before d d' \<and> load_tombs d' = Inr (t\<lparr>tb_superseded := tb_superseded t @ [s]\<rparr>))"
      by (rule save_tombs_safely [OF t]) auto
    then show ?thesis using False
      by (auto elim!: safely_conseq simp: superseded_known_def is_superseded_def names_version_def)
  qed
qed

lemma each_safely:
  assumes "\<And>x d. x \<in> set xs \<Longrightarrow> safely (before d) (p x) d (\<lambda>_ d'. before d d' \<and> R x d')"
    and "\<And>x d d'. R x d \<Longrightarrow> before d d' \<Longrightarrow> R x d'"
  shows "safely (before d) (for_each p xs) d (\<lambda>_ d'. before d d' \<and> (\<forall>x \<in> set xs. R x d'))"
  using assms(1)
proof (induction xs arbitrary: d)
  case (Cons x xs)
  have step: "safely (before d) (p x) d (\<lambda>_ d'. before d d' \<and> R x d')" by (rule Cons.prems) simp
  show ?case unfolding for_each.simps
  proof (rule safely_andthen [OF step])
    fix y d1 assume d1: "before d d1 \<and> R x d1"
    have tail: "safely (before d1) (for_each p xs) d1 (\<lambda>_ d'. before d1 d' \<and> (\<forall>x \<in> set xs. R x d'))"
      by (rule Cons.IH) (simp add: Cons.prems)
    have "safely (before d) (for_each p xs) d1 (\<lambda>_ d'. before d d' \<and> (\<forall>x \<in> set (x # xs). R x d'))"
    proof (rule safely_conseq [OF tail])
      fix y d' assume "before d1 d' \<and> (\<forall>x \<in> set xs. R x d')"
      then show "before d d' \<and> (\<forall>x \<in> set (x # xs). R x d')" using d1 assms(2) by (auto intro: before_trans)
    next
      show "before d1 z \<Longrightarrow> before d z" for z using d1 by (blast intro: before_trans)
    qed
    then show "safely (before d) (andthen (for_each p xs) (\<lambda>ys. give (y # ys))) d1
        (\<lambda>_ d'. before d d' \<and> (\<forall>x \<in> set (x # xs). R x d'))"
      by (rule safely_andthen) (simp add: safely_quiet)
  qed
qed (simp add: safely_quiet)

lemma before_knows:
  "before d x \<Longrightarrow> contains_package d p \<Longrightarrow> contains_package x p" "before d x \<Longrightarrow> contains_route d r \<Longrightarrow> contains_route x r"
  "before d x \<Longrightarrow> superseded_known d s \<Longrightarrow> superseded_known x s"
  by (auto simp: before_def remembers_def superseded_known_def)

definition recorded :: "revocation_block \<Rightarrow> client_disk \<Rightarrow> bool" where
  "recorded b d \<longleftrightarrow> (\<forall>p \<in> set (revoked_packages b). contains_package d p) \<and> (\<forall>r \<in> set (cancelled_routes b). contains_route d r)
     \<and> (\<forall>s \<in> set (superseded_versions b). superseded_known d s)"

lemma recorded_before: "recorded b d \<Longrightarrow> before d x \<Longrightarrow> recorded b x"
  by (auto simp: recorded_def dest: before_knows)

lemma apply_revocations_safely: "safely (before d) (apply_revocations b) d (\<lambda>_ d'. before d d' \<and> recorded b d')"
proof -
  have p: "safely (before d) (for_each (\<lambda>p. relabel f (add_package p)) (revoked_packages b)) d
      (\<lambda>_ d'. before d d' \<and> (\<forall>p \<in> set (revoked_packages b). contains_package d' p))" for d f
    by (rule each_safely) (auto simp: safely_relabel add_package_safely dest: before_knows)
  have r: "safely (before d) (for_each (\<lambda>r. relabel f (add_route r)) (cancelled_routes b)) d
      (\<lambda>_ d'. before d d' \<and> (\<forall>r \<in> set (cancelled_routes b). contains_route d' r))" for d f
    by (rule each_safely) (auto simp: safely_relabel add_route_safely dest: before_knows)
  have s: "safely (before d) (for_each (\<lambda>s. relabel f (add_superseded s)) (superseded_versions b)) d
      (\<lambda>_ d'. before d d' \<and> (\<forall>s \<in> set (superseded_versions b). superseded_known d' s))" for d f
    by (rule each_safely) (auto simp: safely_relabel add_superseded_safely dest: before_knows)
  show ?thesis unfolding apply_revocations_def
  proof (rule safely_andthen [OF p])
    fix y d1 assume d1: "before d d1 \<and> (\<forall>p \<in> set (revoked_packages b). contains_package d1 p)"
    show "safely (before d) (andthen (for_each (\<lambda>r. relabel ''offlineclient: tombstone route: %w'' (add_route r)) (cancelled_routes b)) (\<lambda>rs.
        andthen (for_each (\<lambda>x. relabel ''offlineclient: tombstone supersede: %w'' (add_superseded x)) (superseded_versions b)) (\<lambda>_.
        give (added (revoked_packages b) y, added (cancelled_routes b) rs)))) d1 (\<lambda>_ d'. before d d' \<and> recorded b d')"
    proof (rule safely_andthen)
      show "safely (before d) (for_each (\<lambda>r. relabel ''offlineclient: tombstone route: %w'' (add_route r)) (cancelled_routes b)) d1
          (\<lambda>_ d'. before d1 d' \<and> (\<forall>r \<in> set (cancelled_routes b). contains_route d' r))"
        by (rule safely_conseq [OF r]) (auto intro: before_trans [OF conjunct1 [OF d1]])
      fix rs d2 assume d2: "before d1 d2 \<and> (\<forall>r \<in> set (cancelled_routes b). contains_route d2 r)"
      have "safely (before d) (for_each (\<lambda>x. relabel ''offlineclient: tombstone supersede: %w'' (add_superseded x)) (superseded_versions b)) d2
          (\<lambda>_ d'. before d d' \<and> recorded b d')"
      proof (rule safely_conseq [OF s])
        fix y d' assume "before d2 d' \<and> (\<forall>s \<in> set (superseded_versions b). superseded_known d' s)"
        with d1 d2 show "before d d' \<and> recorded b d'" unfolding recorded_def by (blast intro: before_trans dest: before_knows)
      next
        show "before d2 x \<Longrightarrow> before d x" for x using d1 d2 by (blast intro: before_trans)
      qed
      then show "safely (before d) (andthen (for_each (\<lambda>x. relabel ''offlineclient: tombstone supersede: %w'' (add_superseded x)) (superseded_versions b)) (\<lambda>_.
          give (added (revoked_packages b) y, added (cancelled_routes b) rs))) d2 (\<lambda>_ d'. before d d' \<and> recorded b d')"
        by (rule safely_andthen) (simp add: safely_quiet)
    qed
  qed
qed


section \<open>The activation\<close>

lemma checked_manifest_Inr: "checked_manifest lib c b = Inr m \<longleftrightarrow> client_read_manifest (dv_pub lib) b = Inr m
    \<and> client_verify_manifest (dv_pub lib) (cl_trust c) m = None"
  by (auto simp: checked_manifest_def split: sum.split)

lemma download_manifest_checked: "outcome (download_manifest lib c net jur) d = Inr (mb, m) \<Longrightarrow> checked_manifest lib c mb = Inr m"
  by (auto simp: download_manifest_def proc_simps split: sum.splits)

lemma download_card_checked:
  assumes "outcome (download_card lib c net jur x) d = Inr b"
  shows "\<exists>ic. client_read_card (dv_pub lib) b = Inr ic \<and> client_verify_card (dv_pub lib) (cl_trust c) ic = None
    \<and> card_reference_check x jur b ic = None"
  using assms
  by (auto simp: download_card_def proc_simps checked_card_def first_err_Cons_None split: sum.splits)

lemma manifest_checksums:
  assumes "client_verify_manifest lib ts m = None"
  shows "cd_checksum (mf_critical_card m) \<noteq> []"
proof -
  have "validate_manifest (pub_rfc lib) (Some m) = None"
    using assms by (auto simp: client_verify_manifest_def Let_def first_err_Cons_None)
  then show ?thesis by (auto simp: validate_manifest_None valid_manifest_def valid_descriptor_def)
qed

lemma fetch_card_safely:
  assumes "client_verify_manifest (dv_pub lib) (cl_trust c) m = None" "mf_jurisdiction m = jur" "jur \<noteq> []"
  shows "safely (before d) (fetch_card lib c net jur m must) d (\<lambda>(cb, changed) x. before d x
    \<and> (\<exists>ic. client_read_card (dv_pub lib) cb = Inr ic \<and> card_of_manifest m ic
        \<and> (if changed then client_verify_card (dv_pub lib) (cl_trust c) ic = None else cb = active_card_bytes d)))"
proof -
  have new: "safely (before d) (andthen (download_card lib c net jur (mf_critical_card m)) (\<lambda>b. give (b, True))) d
    (\<lambda>(cb, changed) x. before d x \<and> (\<exists>ic. client_read_card (dv_pub lib) cb = Inr ic \<and> card_of_manifest m ic
        \<and> (if changed then client_verify_card (dv_pub lib) (cl_trust c) ic = None else cb = active_card_bytes d)))"
  proof (rule safely_andthen [OF parts_safely [OF downloads_touch_parts(2)]])
    fix b x assume o: "outcome (download_card lib c net jur (mf_critical_card m)) d = Inr b"
      and r: "before d x \<and> outcome (download_card lib c net jur (mf_critical_card m)) d = Inr b"
    obtain ic where ic: "client_read_card (dv_pub lib) b = Inr ic" "client_verify_card (dv_pub lib) (cl_trust c) ic = None"
      "card_reference_check (mf_critical_card m) jur b ic = None" using download_card_checked [OF o] by blast
    have "card_of_manifest m ic"
      using ic(3) manifest_checksums [OF assms(1)] assms(2,3)
      by (auto simp: card_reference_check_def first_err_Cons_None card_of_manifest_def)
    with ic r show "safely (before d) (give (b, True)) x (\<lambda>(cb, changed) x. before d x \<and> (\<exists>ic. client_read_card (dv_pub lib) cb = Inr ic
        \<and> card_of_manifest m ic \<and> (if changed then client_verify_card (dv_pub lib) (cl_trust c) ic = None else cb = active_card_bytes d)))"
      by (simp add: safely_quiet)
  qed
  show ?thesis unfolding fetch_card_def
  proof (rule safely_andthen [where R = "\<lambda>changed x. x = d \<and> (\<not> changed \<longrightarrow> card_needs_fetch (dv_pub lib) m (active_card_bytes d) = Inr False)"])
    show "safely (before d) (if must then give True else look (\<lambda>d. card_needs_fetch (dv_pub lib) m (active_card_bytes d))) d
      (\<lambda>changed x. x = d \<and> (\<not> changed \<longrightarrow> card_needs_fetch (dv_pub lib) m (active_card_bytes d) = Inr False))"
      by (auto simp: safely_quiet)
    fix changed x assume x: "x = d \<and> (\<not> changed \<longrightarrow> card_needs_fetch (dv_pub lib) m (active_card_bytes d) = Inr False)"
    show "safely (before d) (if changed then andthen (download_card lib c net jur (mf_critical_card m)) (\<lambda>b. give (b, True))
        else look (\<lambda>d. Inr (active_card_bytes d, False))) x
      (\<lambda>(cb, changed) x. before d x \<and> (\<exists>ic. client_read_card (dv_pub lib) cb = Inr ic \<and> card_of_manifest m ic
        \<and> (if changed then client_verify_card (dv_pub lib) (cl_trust c) ic = None else cb = active_card_bytes d)))"
    proof (cases changed)
      case True
      then show ?thesis using new x by simp
    next
      case False
      then have "\<exists>ic. client_read_card (dv_pub lib) (active_card_bytes d) = Inr ic \<and> card_of_manifest m ic"
        using x by (auto simp: card_needs_fetch_def Let_def split: if_splits sum.splits)
      with False x show ?thesis by (simp add: safely_quiet)
    qed
  qed
qed

definition new_state :: "string \<Rightarrow> time \<Rightarrow> manifest \<Rightarrow> client_state" where
  "new_state jur now m = \<lparr>cs_revision = mf_revision m, cs_jurisdiction = jur, cs_fetched_ms = unix_milli now,
     cs_max_observed_ms = 0, cs_expired_ms = 0\<rparr>"

text \<open>The generation of x is a verified manifest with a card that belongs to it: verified too, or the bytes of the
  card that was active on d. All that d knew to be withdrawn, and all that the manifest withdraws, is known.\<close>

definition activated :: "publish_lib \<Rightarrow> trust_keys \<Rightarrow> client_disk \<Rightarrow> manifest \<Rightarrow> bool \<Rightarrow> client_disk \<Rightarrow> bool" where
  "activated lib ts d m fresh x \<longleftrightarrow> (\<exists>g ic. ds_generation x = Holds g
     \<and> client_read_manifest lib (gn_manifest g) = Inr m \<and> client_verify_manifest lib ts m = None
     \<and> client_read_card lib (gn_card g) = Inr ic \<and> card_of_manifest m ic
     \<and> (if fresh then client_verify_card lib ts ic = None else gn_card g = active_card_bytes d))
     \<and> remembers d x \<and> recorded (mf_revocations m) x \<and> ds_contents x = ds_contents d \<and> ds_metas x = ds_metas d"

lemma activated_same:
  assumes "activated lib ts d m fresh x" "ds_generation y = ds_generation x" "ds_tombs y = ds_tombs x" "ds_marker y = ds_marker x"
    "ds_contents y = ds_contents x" "ds_metas y = ds_metas x"
  shows "activated lib ts d m fresh y"
  using assms tombs_same [OF assms(3,4)] by (simp add: activated_def remembers_def recorded_def superseded_known_def)

definition coherent :: "device_lib \<Rightarrow> trust_keys \<Rightarrow> string \<Rightarrow> time \<Rightarrow> client_disk \<Rightarrow> client_disk \<Rightarrow> bool" where
  "coherent lib ts jur now d x \<longleftrightarrow> before d x \<or> (\<exists>m st fresh. load_state d = Inr st \<and> mf_jurisdiction m = jur
     \<and> cs_revision st \<le> mf_revision m \<and> activated (dv_pub lib) ts d m fresh x
     \<and> (ds_state x = ds_state d \<or> ds_state x = Holds (new_state jur now m)))"

lemma write_generation_eq: "\<exists>g. write_generation lib mb cb = writes [WGeneration g] \<and> gn_manifest g = mb \<and> gn_card g = cb"
  by (auto simp: write_generation_def Let_def split: sum.split)

lemma activate_safely:
  assumes "before d d1" "load_state d = Inr st" "mf_jurisdiction m = jur" "cs_revision st \<le> mf_revision m"
    "client_read_manifest (dv_pub lib) mb = Inr m" "client_verify_manifest (dv_pub lib) ts m = None"
    "client_read_card (dv_pub lib) cb = Inr ic" "card_of_manifest m ic"
    "if fresh then client_verify_card (dv_pub lib) ts ic = None else cb = active_card_bytes d" "recorded (mf_revocations m) d1"
  shows "safely (coherent lib ts jur now d) (activate lib jur mb m cb fresh now) d1
    (\<lambda>_ x. activated (dv_pub lib) ts d m fresh x \<and> ds_state x = Holds (new_state jur now m))"
proof -
  let ?A = "\<lambda>x. activated (dv_pub lib) ts d m fresh x \<and> ds_state x = ds_state d"
  have coh: "?A x \<Longrightarrow> coherent lib ts jur now d x" for x
    using assms(2-4) unfolding coherent_def by blast
  have parts: "safely (coherent lib ts jur now d) p x (\<lambda>_. ?A)" if "touches_parts p" "?A x" for p :: "unit proc" and x
  proof -
    have "?A y" if y: "installed y = installed x" for y
      using installed_fields [OF y] activated_same [of "dv_pub lib" ts d m fresh x y] \<open>?A x\<close> by auto
    then show ?thesis using touches_parts_after [OF \<open>touches_parts p\<close>] coh unfolding safely_def by blast
  qed
  obtain g where g: "write_generation (dv_pub lib) mb cb = writes [WGeneration g]" "gn_manifest g = mb" "gn_card g = cb"
    using write_generation_eq by blast
  have a: "?A (apply_write d1 (WGeneration g))"
  proof -
    have r: "remembers d (d1\<lparr>ds_generation := Holds g\<rparr>)" "recorded (mf_revocations m) (d1\<lparr>ds_generation := Holds g\<rparr>)"
      using assms(1,10) tombs_same [of "d1\<lparr>ds_generation := Holds g\<rparr>" d1]
      by (simp_all add: before_def remembers_def recorded_def superseded_known_def)
    show ?thesis unfolding activated_def using assms(1,5-9) g(2,3) r by (auto simp: before_def)
  qed
  have gen: "safely (coherent lib ts jur now d) (writes [WGeneration g]) d1 (\<lambda>_. ?A)"
    using assms(1) coh [OF a] a by (simp add: safely_writes coherent_def)
  have saved: "safely (coherent lib ts jur now d) (save_state (new_state jur now m)) x
      (\<lambda>_ x. activated (dv_pub lib) ts d m fresh x \<and> ds_state x = Holds (new_state jur now m))" if "?A x" for x
  proof -
    have s: "activated (dv_pub lib) ts d m fresh (x\<lparr>ds_state := Holds (new_state jur now m)\<rparr>)"
      using that activated_same [of "dv_pub lib" ts d m fresh x "x\<lparr>ds_state := Holds (new_state jur now m)\<rparr>"] by simp
    then have "coherent lib ts jur now d (x\<lparr>ds_state := Holds (new_state jur now m)\<rparr>)"
      unfolding coherent_def using assms(2-4) by (intro disjI2 exI [of _ m] exI [of _ st] exI [of _ fresh]) simp
    then show ?thesis using s coh [OF that] by (simp add: save_state_def safely_writes)
  qed
  show ?thesis unfolding activate_def g(1) new_state_def [symmetric]
    by (rule safely_andthen [OF gen], rule safely_andthen [OF parts], simp add: clear_part_touches, assumption,
        rule safely_andthen [OF parts], rule clear_part_touches, assumption, rule saved, assumption)
qed

text \<open>What a completed sync leaves: nothing but new tombstones and parts, or the activated generation with its state.\<close>

definition synced :: "publish_lib \<Rightarrow> trust_keys \<Rightarrow> string \<Rightarrow> time \<Rightarrow> client_disk \<Rightarrow> sync_report \<Rightarrow> client_disk \<Rightarrow> bool" where
  "synced lib ts jur now d rep x \<longleftrightarrow> (\<exists>m. sp_revision rep = mf_revision m \<and> mf_jurisdiction m = jur \<and> client_verify_manifest lib ts m = None
     \<and> recorded (mf_revocations m) x
     \<and> (if sp_manifest_updated rep then activated lib ts d m (sp_card_updated rep) x \<and> ds_state x = Holds (new_state jur now m)
        else before d x))"

lemma safely_cover:
  assumes "before d d0" "safely (before d0) p d0 Q"
  shows "safely (coherent lib ts jur now d) p d0 Q"
  using assms(2) by (rule safely_conseq) (auto simp: coherent_def intro: before_trans [OF assms(1)])

lemma coherent_before: "before d x \<Longrightarrow> coherent lib ts jur now d x"
  by (simp add: coherent_def)

lemma activation_safely:
  assumes "before d d1" "load_state d = Inr st" "sync_checks jur st m = None" "checked_manifest lib c mb = Inr m" "jur \<noteq> []"
    "recorded (mf_revocations m) d1" "sp_revision rep = mf_revision m"
  shows "safely (coherent lib (cl_trust c) jur now d) (andthen (fetch_card lib c net jur m must) (\<lambda>(cb, changed).
      andthen (activate lib jur mb m cb changed now) (\<lambda>_. give (rep\<lparr>sp_manifest_updated := True, sp_card_updated := changed\<rparr>)))) d1
    (synced (dv_pub lib) (cl_trust c) jur now d)"
proof -
  have m: "client_read_manifest (dv_pub lib) mb = Inr m" "client_verify_manifest (dv_pub lib) (cl_trust c) m = None"
    "mf_jurisdiction m = jur" "cs_revision st \<le> mf_revision m"
    using assms(3,4) by (auto simp: checked_manifest_Inr sync_checks_def first_err_Cons_None)
  show ?thesis
  proof (rule safely_andthen [OF safely_cover [OF assms(1) fetch_card_safely [OF m(2,3) assms(5)]]])
    fix bc x assume r: "(case bc of (cb, changed) \<Rightarrow> \<lambda>x. before d1 x \<and> (\<exists>ic. client_read_card (dv_pub lib) cb = Inr ic \<and> card_of_manifest m ic
        \<and> (if changed then client_verify_card (dv_pub lib) (cl_trust c) ic = None else cb = active_card_bytes d1))) x"
    obtain cb changed where bc: "bc = (cb, changed)" by (cases bc)
    obtain ic where ic: "before d1 x" "client_read_card (dv_pub lib) cb = Inr ic" "card_of_manifest m ic"
      "if changed then client_verify_card (dv_pub lib) (cl_trust c) ic = None else cb = active_card_bytes d1" using r bc by auto
    have b: "before d x" using assms(1) ic(1) by (rule before_trans)
    have "active_card_bytes d1 = active_card_bytes d" using assms(1) by (simp add: before_def active_card_bytes_def read_generation_def)
    with ic(4) have f: "if changed then client_verify_card (dv_pub lib) (cl_trust c) ic = None else cb = active_card_bytes d" by simp
    have "safely (coherent lib (cl_trust c) jur now d) (andthen (activate lib jur mb m cb changed now)
        (\<lambda>_. give (rep\<lparr>sp_manifest_updated := True, sp_card_updated := changed\<rparr>))) x (synced (dv_pub lib) (cl_trust c) jur now d)"
    proof (rule safely_andthen [OF activate_safely [OF b assms(2) m(3,4,1,2) ic(2,3) f recorded_before [OF assms(6) ic(1)]]])
      fix u y assume y: "activated (dv_pub lib) (cl_trust c) d m changed y \<and> ds_state y = Holds (new_state jur now m)"
      then have "coherent lib (cl_trust c) jur now d y" using assms(2) m(3,4) unfolding coherent_def by blast
      moreover have "recorded (mf_revocations m) y" using y by (simp add: activated_def)
      ultimately show "safely (coherent lib (cl_trust c) jur now d) (give (rep\<lparr>sp_manifest_updated := True, sp_card_updated := changed\<rparr>)) y
          (synced (dv_pub lib) (cl_trust c) jur now d)"
        using y m(2,3) assms(7) by (auto simp: safely_quiet synced_def)
    qed
    then show "safely (coherent lib (cl_trust c) jur now d) (case bc of (cb, changed) \<Rightarrow> andthen (activate lib jur mb m cb changed now)
        (\<lambda>_. give (rep\<lparr>sp_manifest_updated := True, sp_card_updated := changed\<rparr>))) x (synced (dv_pub lib) (cl_trust c) jur now d)"
      by (simp add: bc)
  qed
qed

lemma finish_sync_safely:
  assumes "before d d1" "load_state d = Inr st" "sync_checks jur st m = None" "checked_manifest lib c mb = Inr m" "jur \<noteq> []"
    "recorded (mf_revocations m) d1" "sp_revision rep = mf_revision m" "\<not> sp_manifest_updated rep"
  shows "safely (coherent lib (cl_trust c) jur now d) (finish_sync lib c net jur now st mb m rep) d1
    (synced (dv_pub lib) (cl_trust c) jur now d)"
  unfolding finish_sync_def
proof (rule safely_look_then)
  show "coherent lib (cl_trust c) jur now d d1" using assms(1) by (rule coherent_before)
  fix intact
  have m: "client_verify_manifest (dv_pub lib) (cl_trust c) m = None" "mf_jurisdiction m = jur"
    using assms(3,4) by (auto simp: checked_manifest_Inr sync_checks_def first_err_Cons_None)
  have same: "safely (coherent lib (cl_trust c) jur now d) (andthen (clear_part (manifest_part jur)) (\<lambda>_. give rep)) d1
      (synced (dv_pub lib) (cl_trust c) jur now d)"
  proof (rule safely_andthen [OF safely_cover [OF assms(1) parts_safely [OF clear_part_touches]]])
    fix u y assume y: "before d1 y \<and> outcome (clear_part (manifest_part jur)) d1 = Inr u"
    then have "before d y" "recorded (mf_revocations m) y" using assms(1,6) by (auto intro: before_trans recorded_before)
    then show "safely (coherent lib (cl_trust c) jur now d) (give rep) y (synced (dv_pub lib) (cl_trust c) jur now d)"
      using assms(7,8) m coherent_before unfolding safely_quiet synced_def by auto
  qed
  show "safely (coherent lib (cl_trust c) jur now d) (if mf_revision m = cs_revision st \<and> 0 < cs_revision st \<and> intact
      then andthen (clear_part (manifest_part jur)) (\<lambda>_. give rep)
      else andthen (fetch_card lib c net jur m (\<not> intact \<or> cs_revision st = 0)) (\<lambda>(cb, changed).
        andthen (activate lib jur mb m cb changed now) (\<lambda>_. give (rep\<lparr>sp_manifest_updated := True, sp_card_updated := changed\<rparr>)))) d1
      (synced (dv_pub lib) (cl_trust c) jur now d)"
    using same activation_safely [OF assms(1-7)] by simp
qed

lemma sync_verified_safely:
  assumes "before d d0" "load_state d = Inr st" "checked_manifest lib c mb = Inr m" "jur \<noteq> []"
  shows "safely (coherent lib (cl_trust c) jur now d) (sync_verified lib c net budget jur now st (mb, m)) d0
    (synced (dv_pub lib) (cl_trust c) jur now d)"
  unfolding sync_verified_def prod.case
proof (intro safely_demand_then safely_look_then coherent_before assms(1))
  fix audit assume c: "sync_checks jur st m = None"
  show "safely (coherent lib (cl_trust c) jur now d) (andthen (apply_revocations (mf_revocations m))
      (\<lambda>fresh. finish_sync lib c net jur now st mb m (first_report m audit fresh))) d0 (synced (dv_pub lib) (cl_trust c) jur now d)"
  proof (rule safely_andthen [OF safely_cover [OF assms(1) apply_revocations_safely]])
    fix fresh d1 assume "before d0 d1 \<and> recorded (mf_revocations m) d1"
    then show "safely (coherent lib (cl_trust c) jur now d) (finish_sync lib c net jur now st mb m (first_report m audit fresh)) d1
        (synced (dv_pub lib) (cl_trust c) jur now d)"
      using c assms by (intro finish_sync_safely) (auto simp: first_report_def intro: before_trans)
  qed
qed

lemma sync_safely:
  "safely (coherent lib (cl_trust c) jur now d) (sync lib c net budget jur now mt) d
    (\<lambda>(rep, c') x. synced (dv_pub lib) (cl_trust c) jur now d rep x \<and> c' = c\<lparr>cl_sync_mono := Some mt\<rparr>)"
  unfolding sync_def
proof (intro safely_demand_then safely_look_then coherent_before before_refl)
  fix st assume st: "load_state d = Inr st" and "check (jur = []) (ClientErr (plain ''offlineclient: jurisdiction required'')) = None"
  then have jur: "jur \<noteq> []" by simp
  show "safely (coherent lib (cl_trust c) jur now d) (andthen (download_manifest lib c net jur) (\<lambda>bm.
      andthen (sync_verified lib c net budget jur now st bm) (\<lambda>rep. give (rep, c\<lparr>cl_sync_mono := Some mt\<rparr>)))) d
    (\<lambda>(rep, c') x. synced (dv_pub lib) (cl_trust c) jur now d rep x \<and> c' = c\<lparr>cl_sync_mono := Some mt\<rparr>)"
  proof (rule safely_andthen [OF safely_cover [OF before_refl parts_safely [OF downloads_touch_parts(1)]]])
    fix bm x assume x: "before d x \<and> outcome (download_manifest lib c net jur) d = Inr bm"
    obtain mb m where bm: "bm = (mb, m)" by (cases bm)
    have "checked_manifest lib c mb = Inr m" using x bm download_manifest_checked by blast
    from sync_verified_safely [OF conjunct1 [OF x] st this jur]
    show "safely (coherent lib (cl_trust c) jur now d) (andthen (sync_verified lib c net budget jur now st bm)
        (\<lambda>rep. give (rep, c\<lparr>cl_sync_mono := Some mt\<rparr>))) x
      (\<lambda>(rep, c') x. synced (dv_pub lib) (cl_trust c) jur now d rep x \<and> c' = c\<lparr>cl_sync_mono := Some mt\<rparr>)"
      unfolding bm
    proof (rule safely_andthen)
      fix rep y assume o: "outcome (sync_verified lib c net budget jur now st (mb, m)) x = Inr rep"
        and y: "y = after (sync_verified lib c net budget jur now st (mb, m)) x" "synced (dv_pub lib) (cl_trust c) jur now d rep y"
      have "coherent lib (cl_trust c) jur now d y"
        using sync_verified_safely [OF conjunct1 [OF x] st \<open>checked_manifest lib c mb = Inr m\<close> jur] after_crash y(1)
        unfolding safely_def by blast
      then show "safely (coherent lib (cl_trust c) jur now d) (give (rep, c\<lparr>cl_sync_mono := Some mt\<rparr>)) y
          (\<lambda>(rep, c') x. synced (dv_pub lib) (cl_trust c) jur now d rep x \<and> c' = c\<lparr>cl_sync_mono := Some mt\<rparr>)"
        using y(2) by (simp add: safely_quiet)
    qed
  qed
qed

section \<open>Devices\<close>

text \<open>What happens on a device: syncs, queries and resource downloads by this process and by later ones, each
  cut off after a number of writes (or complete, when the number is large enough).\<close>

datatype device_event =
  DeSync protocol_client network int string time time nat
| DeQuery protocol_client time time nat
| DeResource protocol_client network resource_descriptor bool time nat

definition cut_off :: "'a proc \<Rightarrow> nat \<Rightarrow> client_disk \<Rightarrow> client_disk" where
  "cut_off p n d = run apply_write d (take n (fst (p d)))"

fun device_step :: "device_lib \<Rightarrow> client_disk \<Rightarrow> device_event \<Rightarrow> client_disk" where
  "device_step lib d (DeSync c net budget jur now mt n) = cut_off (sync lib c net budget jur now mt) n d"
| "device_step lib d (DeQuery c now mt n) = cut_off (state_query (dv_pub lib) c now mt) n d"
| "device_step lib d (DeResource c net x resume now n) = cut_off (download_resource lib c net x resume now) n d"

lemma cut_off_crash: "cut_off p n d \<in> crashes p d"
  by (auto simp: cut_off_def crashes_iff)

lemma same_tombs_write:
  assumes "\<And>t. w \<noteq> WTombs t" "w \<noteq> WMarker"
  shows "ds_tombs (apply_write d w) = ds_tombs d" "ds_marker (apply_write d w) = ds_marker d"
  using assms by (cases w; simp)+

definition quiet_tombs :: "client_disk \<Rightarrow> client_disk \<Rightarrow> bool" where
  "quiet_tombs d x \<longleftrightarrow> ds_tombs x = ds_tombs d \<and> ds_marker x = ds_marker d"

lemma save_state_quiet: "quiet_tombs d e \<Longrightarrow> safely (quiet_tombs d) (save_state s) e (\<lambda>_. quiet_tombs d)"
  by (simp add: save_state_def safely_writes quiet_tombs_def)

lemma within_window_quiet:
  assumes "quiet_tombs d e" shows "safely (quiet_tombs d) (within_window c st expires now w el) e (\<lambda>_. quiet_tombs d)"
proof -
  have "safely (quiet_tombs d) (writes (if observed now st = st then [] else [WState (observed now st)])) e (\<lambda>_. quiet_tombs d)"
    using assms by (simp add: safely_writes quiet_tombs_def)
  then show ?thesis unfolding within_window_def Let_def
    by (rule safely_andthen) (auto intro!: safely_andthen save_state_quiet simp: safely_quiet)
qed

lemma compute_freshness_quiet:
  assumes "quiet_tombs d e" shows "safely (quiet_tombs d) (compute_freshness rfc c ic st now mt) e (\<lambda>_. quiet_tombs d)"
proof -
  have s: "safely (quiet_tombs d) (andthen (save_state s) (\<lambda>_. give f)) e (\<lambda>_. quiet_tombs d)" for s and f :: client_freshness
    by (rule safely_andthen [OF save_state_quiet [OF assms]]) (simp add: safely_quiet)
  show ?thesis unfolding compute_freshness_def Let_def
    using assms s within_window_quiet by (auto simp: safely_quiet split: sum.split)
qed

lemma state_query_quiet_tombs: "safely (quiet_tombs d) (state_query lib c now mt) d (\<lambda>_. quiet_tombs d)"
proof -
  have d: "quiet_tombs d d" by (simp add: quiet_tombs_def)
  show ?thesis unfolding state_query_def
  proof (intro safely_look_then d)
    fix mic
    have "safely (quiet_tombs d) (andthen (compute_freshness (pub_rfc lib) c ic st now mt) (\<lambda>f. give (ic, f))) d (\<lambda>_. quiet_tombs d)" for ic st
      by (rule safely_andthen [OF compute_freshness_quiet [OF d]]) (simp add: safely_quiet)
    then show "safely (quiet_tombs d) (case mic of (m, ic) \<Rightarrow>
        andthen (look load_state) (\<lambda>st. andthen (look (\<lambda>d. require (tombs_intact d) ())) (\<lambda>_.
        andthen (look (\<lambda>d. Inr (card_withdrawn (cl_trust c) d ic))) (\<lambda>gone.
        if gone then give (ic, FreshRevoked) else andthen (compute_freshness (pub_rfc lib) c ic st now mt) (\<lambda>f. give (ic, f)))))) d (\<lambda>_. quiet_tombs d)"
      using d by (auto intro!: safely_look_then simp: safely_quiet split: prod.split)
  qed
qed

lemma quiet_installed: "installed x = installed e \<Longrightarrow> quiet_tombs d e \<Longrightarrow> quiet_tombs d x"
  using installed_fields(3,4) [of x e] by (simp add: quiet_tombs_def)

lemma download_resource_quiet: "safely (quiet_tombs d) (download_resource lib c net x resume now) d (\<lambda>_. quiet_tombs d)"
proof -
  have d: "quiet_tombs d d" by (simp add: quiet_tombs_def)

  have w: "safely (quiet_tombs d) (write_resource i b m) y (\<lambda>_. quiet_tombs d)" if "quiet_tombs d y" for i b m y
    using that by (simp add: write_resource_def safely_writes quiet_tombs_def)
  have clear: "safely (quiet_tombs d) (clear_part p) y (\<lambda>_. quiet_tombs d)" if "quiet_tombs d y" for p y
    using that by (simp add: clear_part_def safely_writes quiet_tombs_def)
  show ?thesis unfolding download_resource_def
  proof (intro safely_demand_then safely_look_then d)
    fix u
    show "safely (quiet_tombs d) (andthen (download_streaming net u (resource_part (rd_resource_id x)) resume False (resource_limit c x)) (\<lambda>r.
     andthen (demand (resource_check lib c x (st_bytes r))) (\<lambda>_.
     andthen (write_resource (rd_resource_id x) (st_bytes r)
       \<lparr>rm_etag = st_etag r, rm_checksum = rd_checksum x, rm_size = int (length (st_bytes r)), rm_content_type = rd_content_type x,
        rm_fetched_ms = unix_milli now\<rparr>) (\<lambda>_.
     clear_part (resource_part (rd_resource_id x)))))) d (\<lambda>_. quiet_tombs d)"
    proof (rule safely_andthen [where R = "\<lambda>_. quiet_tombs d"])
      show "safely (quiet_tombs d) (download_streaming net u (resource_part (rd_resource_id x)) resume False (resource_limit c x)) d (\<lambda>_. quiet_tombs d)"
        using quiet_installed d touches_parts_after [OF download_streaming_touches] unfolding safely_def by blast
    qed (intro safely_demand_then safely_andthen [OF w] clear; assumption)
  qed
qed

lemma quiet_remembers: "quiet_tombs d x \<Longrightarrow> remembers d x"
  using tombs_same [of x d] by (simp add: quiet_tombs_def remembers_def)

lemma coherent_remembers: "coherent lib ts jur now d x \<Longrightarrow> remembers d x"
  by (auto simp: coherent_def before_def activated_def)

lemma step_remembers: "remembers d (device_step lib d e)"
proof (cases e)
  case (DeSync c net budget jur now mt n)
  then show ?thesis using sync_safely [of lib c jur now d net budget mt] cut_off_crash coherent_remembers
    unfolding safely_def by (metis device_step.simps(1))
next
  case (DeQuery c now mt n)
  then show ?thesis using state_query_quiet_tombs [of d "dv_pub lib" c now mt] cut_off_crash quiet_remembers
    unfolding safely_def by (metis device_step.simps(2))
next
  case (DeResource c net x resume now n)
  then show ?thesis using download_resource_quiet [of d lib c net x resume now] cut_off_crash quiet_remembers
    unfolding safely_def by (metis device_step.simps(3))
qed

lemma run_remembers: "remembers d (run (device_step lib) d es)"
proof (induction es arbitrary: d)
  case (Cons e es)
  then show ?case using step_remembers [of d lib e] Cons.IH [of "device_step lib d e"] by (auto simp: remembers_def)
qed (simp add: remembers_def)

section \<open>A first sync\<close>

definition demo_net :: network where
  "demo_net nr = Inr \<lparr>rp_status = 200, rp_headers = [(''Content-Length'', ''1'')],
     rp_chunks = [if nr_url nr = ''https://h/api/v3/regions/ka/manifest'' then ''m'' else ''c''], rp_broken = None\<rparr>"

definition demo_device :: device_lib where
  "demo_device = \<lparr>dv_pub = demo_client_lib, dv_url = Inr, dv_mime = (\<lambda>_. True)\<rparr>"


definition demo_meta :: "string \<Rightarrow> download_meta" where
  "demo_meta u = \<lparr>dm_url = u, dm_etag = [], dm_expected = 1, dm_written = 1, dm_ranges = False\<rparr>"

definition fetch_writes :: "string \<Rightarrow> string \<Rightarrow> string \<Rightarrow> disk_write list" where
  "fetch_writes p b u = [WPart p [], WPart p b, WPartMeta p (demo_meta u), WPartMeta p (demo_meta u)]"

definition demo_generation :: active_generation where
  "demo_generation = \<lparr>gn_manifest = ''m'', gn_card = ''c'', gn_revision = 2, gn_manifest_id = ''m1'', gn_package = ''p'',
     gn_card_version = 1, gn_card_checksum = replicate 64 (CHR ''1'')\<rparr>"

definition manifest_fetched :: client_disk where
  "manifest_fetched = new_disk\<lparr>ds_parts := [(''manifest-ka'', ''m'')],
     ds_part_metas := [(''manifest-ka'', Holds (demo_meta ''https://h/api/v3/regions/ka/manifest''))]\<rparr>"

definition revocations_kept :: client_disk where
  "revocations_kept = manifest_fetched\<lparr>ds_marker := True, ds_tombs := Holds (no_tombs\<lparr>tb_packages := [''old'']\<rparr>)\<rparr>"

definition card_fetched :: client_disk where
  "card_fetched = revocations_kept\<lparr>ds_parts := [(''manifest-ka'', ''m''), (''card-p-1'', ''c'')],
     ds_part_metas := [(''manifest-ka'', Holds (demo_meta ''https://h/api/v3/regions/ka/manifest'')),
       (''card-p-1'', Holds (demo_meta ''https://h/api/v3/packages/p/versions/1''))]\<rparr>"

lemma demo_step1: "download_manifest demo_device demo_client demo_net ''ka'' new_disk
    = (fetch_writes ''manifest-ka'' ''m'' ''https://h/api/v3/regions/ka/manifest'', Inr (''m'', demo_client_manifest))"
  by code_simp

lemma demo_step2: "apply_revocations (mf_revocations demo_client_manifest) manifest_fetched
    = ([WMarker, WTombs (no_tombs\<lparr>tb_packages := [''old'']\<rparr>)], Inr ([''old''], []))"
  by code_simp

lemma andthen_run: "p d = (ws, Inr x) \<Longrightarrow> run apply_write d ws = d' \<Longrightarrow> f x d' = (vs, r) \<Longrightarrow> andthen p f d = (ws @ vs, r)"
  by (simp add: andthen_def)

lemma look_run: "g d = Inr x \<Longrightarrow> f x d = (vs, r) \<Longrightarrow> andthen (look g) f d = (vs, r)"
  by (simp add: andthen_def look_def)

lemma demand_run: "f () d = (vs, r) \<Longrightarrow> andthen (demand None) f d = (vs, r)"
  by (simp add: andthen_def demand_def give_def)

lemma demo_card_names:
  "card_path (cd_package_id (mf_critical_card demo_client_manifest)) (cd_version (mf_critical_card demo_client_manifest))
    = ''/api/v3/packages/p/versions/1''"
  "card_part_name (cd_package_id (mf_critical_card demo_client_manifest)) (cd_version (mf_critical_card demo_client_manifest)) = ''card-p-1''"
  by code_simp+

lemma demo_texts:
  "absolute_url demo_device demo_client ''/api/v3/packages/p/versions/1'' = Inr ''https://h/api/v3/packages/p/versions/1''"
  "parse_int64 ''1'' = Some 1" "strip_etag_quotes [] = []"
  by code_simp+

lemma demo_card_bytes: "download_bytes demo_device demo_client demo_net ''/api/v3/packages/p/versions/1'' ''card-p-1'' True revocations_kept
    = (fetch_writes ''card-p-1'' ''c'' ''https://h/api/v3/packages/p/versions/1'', Inr ''c'')"
  by (simp add: download_bytes_def download_streaming_def existing_part_def download_plain_def receive_fresh_def receive_def
      andthen_def look_def writes_def give_def append_part_def revocations_kept_def manifest_fetched_def new_disk_def part_bytes_def
      fresh_meta_def reply_header_def demo_net_def plain_request_def demo_texts wrote_def fetch_writes_def demo_meta_def)

lemma demo_card_checked: "checked_card demo_device demo_client (mf_critical_card demo_client_manifest) ''ka'' ''c'' = Inr demo_client_card"
proof -
  have "card_reference_check (mf_critical_card demo_client_manifest) ''ka'' ''c'' demo_client_card = None"
    by (simp add: card_reference_check_def check_def demo_client_card_def demo_client_manifest_def Offline_Card.demo_card_def demo_manifest_def)
  then show ?thesis using demo_reads demo_verifies by (simp add: checked_card_def demo_device_def require_def)
qed

lemma demo_step3: "fetch_card demo_device demo_client demo_net ''ka'' demo_client_manifest True revocations_kept
    = (fetch_writes ''card-p-1'' ''c'' ''https://h/api/v3/packages/p/versions/1'', Inr (''c'', True))"
  by (simp add: fetch_card_def download_card_def andthen_def look_def give_def demo_card_names demo_card_bytes demo_card_checked)

lemma demo_step4: "activate demo_device ''ka'' ''m'' demo_client_manifest ''c'' True 2000000 card_fetched
    = ([WGeneration demo_generation, WDropPart ''card-p-1'', WDropPartMeta ''card-p-1'', WDropPart ''manifest-ka'', WDropPartMeta ''manifest-ka'',
        WState \<lparr>cs_revision = 2, cs_jurisdiction = ''ka'', cs_fetched_ms = 2, cs_max_observed_ms = 0, cs_expired_ms = 0\<rparr>], Inr ())"
  by code_simp

lemma demo_disks:
  "run apply_write new_disk (fetch_writes ''manifest-ka'' ''m'' ''https://h/api/v3/regions/ka/manifest'') = manifest_fetched"
  "run apply_write manifest_fetched [WMarker, WTombs (no_tombs\<lparr>tb_packages := [''old'']\<rparr>)] = revocations_kept"
  "run apply_write revocations_kept (fetch_writes ''card-p-1'' ''c'' ''https://h/api/v3/packages/p/versions/1'') = card_fetched"
  by code_simp+

lemma demo_checks:
  "load_state new_disk = Inr zero_state" "sync_checks ''ka'' zero_state demo_client_manifest = None"
  "audit_resources demo_device 0 demo_client_manifest = Inr None" "\<not> active_intact (dv_pub demo_device) demo_client_manifest revocations_kept"
  "cs_jurisdiction zero_state = []" "cs_revision zero_state = 0"
  by code_simp+

lemma demo_verified_sync:
  "sync_verified demo_device demo_client demo_net 0 ''ka'' 2000000 zero_state (''m'', demo_client_manifest) manifest_fetched
     = ([WMarker, WTombs (no_tombs\<lparr>tb_packages := [''old'']\<rparr>)] @ fetch_writes ''card-p-1'' ''c'' ''https://h/api/v3/packages/p/versions/1''
         @ [WGeneration demo_generation, WDropPart ''card-p-1'', WDropPartMeta ''card-p-1'', WDropPart ''manifest-ka'', WDropPartMeta ''manifest-ka'',
        WState \<lparr>cs_revision = 2, cs_jurisdiction = ''ka'', cs_fetched_ms = 2, cs_max_observed_ms = 0, cs_expired_ms = 0\<rparr>],
       Inr ((first_report demo_client_manifest None ([''old''], []))\<lparr>sp_manifest_updated := True, sp_card_updated := True\<rparr>))"
proof -
  have "finish_sync demo_device demo_client demo_net ''ka'' 2000000 zero_state ''m'' demo_client_manifest
      (first_report demo_client_manifest None ([''old''], [])) revocations_kept
    = (fetch_writes ''card-p-1'' ''c'' ''https://h/api/v3/packages/p/versions/1''
         @ [WGeneration demo_generation, WDropPart ''card-p-1'', WDropPartMeta ''card-p-1'', WDropPart ''manifest-ka'', WDropPartMeta ''manifest-ka'',
            WState \<lparr>cs_revision = 2, cs_jurisdiction = ''ka'', cs_fetched_ms = 2, cs_max_observed_ms = 0, cs_expired_ms = 0\<rparr>],
       Inr ((first_report demo_client_manifest None ([''old''], []))\<lparr>sp_manifest_updated := True, sp_card_updated := True\<rparr>))"
    by (simp add: finish_sync_def look_def demo_checks andthen_def give_def demo_step3 demo_step4 demo_disks del: append.simps)
  then show ?thesis unfolding sync_verified_def prod.case demo_checks(2)
    by (simp add: andthen_def demand_def give_def look_def demo_checks demo_step2 demo_disks(2) del: append.simps run_Cons)
qed

lemma demo_sync:
  "sync demo_device demo_client demo_net 0 ''ka'' 2000000 0 new_disk
     = (fetch_writes ''manifest-ka'' ''m'' ''https://h/api/v3/regions/ka/manifest''
         @ [WMarker, WTombs (no_tombs\<lparr>tb_packages := [''old'']\<rparr>)] @ fetch_writes ''card-p-1'' ''c'' ''https://h/api/v3/packages/p/versions/1''
         @ [WGeneration demo_generation, WDropPart ''card-p-1'', WDropPartMeta ''card-p-1'', WDropPart ''manifest-ka'', WDropPartMeta ''manifest-ka'',
        WState \<lparr>cs_revision = 2, cs_jurisdiction = ''ka'', cs_fetched_ms = 2, cs_max_observed_ms = 0, cs_expired_ms = 0\<rparr>],
       Inr ((first_report demo_client_manifest None ([''old''], []))\<lparr>sp_manifest_updated := True, sp_card_updated := True\<rparr>,
         demo_client\<lparr>cl_sync_mono := Some 0\<rparr>))"
  by (simp add: sync_def andthen_def demand_def look_def give_def check_def demo_checks demo_step1 demo_step2 demo_step3 demo_step4 demo_disks demo_verified_sync
      del: append.simps)
section \<open>Properties\<close>

lemma coherent_pair:
  assumes "activated (dv_pub lib) ts d m fresh x" "load_state d = Inr st" "mf_jurisdiction m = jur" "cs_revision st \<le> mf_revision m"
  shows "\<exists>g ic. ds_generation x = Holds g \<and> client_read_manifest (dv_pub lib) (gn_manifest g) = Inr m
    \<and> verify_manifest (pub_crypto (dv_pub lib)) (pub_quote (dv_pub lib)) (pub_rfc (dv_pub lib))
        (verify_signature (pub_crypto (dv_pub lib)) ts) (Some m) = None
    \<and> client_read_card (dv_pub lib) (gn_card g) = Inr ic \<and> card_of_manifest m ic
    \<and> (verify_card (pub_crypto (dv_pub lib)) (pub_quote (dv_pub lib)) (pub_float (dv_pub lib)) (pub_rfc (dv_pub lib))
          (verify_signature (pub_crypto (dv_pub lib)) ts) (Some ic) = None \<or> gn_card g = active_card_bytes d)"
proof -
  obtain g ic where g: "ds_generation x = Holds g" "client_read_manifest (dv_pub lib) (gn_manifest g) = Inr m"
    "client_verify_manifest (dv_pub lib) ts m = None" "client_read_card (dv_pub lib) (gn_card g) = Inr ic" "card_of_manifest m ic"
    "if fresh then client_verify_card (dv_pub lib) ts ic = None else gn_card g = active_card_bytes d"
    using assms(1) unfolding activated_def by blast
  from g(6) have c: "client_verify_card (dv_pub lib) ts ic = None \<or> gn_card g = active_card_bytes d" by (simp split: if_splits)
  show ?thesis using g(1-5) c unfolding client_verify_manifest_iff client_verify_card_iff by blast
qed

text \<open>C6: A sync that stops anywhere never leaves a mixed or unverified state: after any prefix of its
  writes the device still has its old generation and state, or the new generation is a manifest that
  verifies against the trust store, for the requested jurisdiction, with a revision not below the one
  recorded, together with the card it names, which verifies too or is byte for byte the card that was
  active; by then every withdrawal of that manifest is on the disk. No withdrawal known before is
  lost and no resource changes.\<close>

theorem crashed_sync_coherent:
  assumes "x \<in> crashes (sync lib c net budget jur now mt) d"
  shows "remembers d x \<and> ds_contents x = ds_contents d \<and> ds_metas x = ds_metas d
    \<and> (ds_generation x = ds_generation d \<and> ds_state x = ds_state d
       \<or> (\<exists>st m g ic. load_state d = Inr st \<and> ds_generation x = Holds g
          \<and> client_read_manifest (dv_pub lib) (gn_manifest g) = Inr m
          \<and> verify_manifest (pub_crypto (dv_pub lib)) (pub_quote (dv_pub lib)) (pub_rfc (dv_pub lib))
              (verify_signature (pub_crypto (dv_pub lib)) (cl_trust c)) (Some m) = None
          \<and> mf_jurisdiction m = jur \<and> cs_revision st \<le> mf_revision m \<and> recorded (mf_revocations m) x
          \<and> client_read_card (dv_pub lib) (gn_card g) = Inr ic \<and> card_of_manifest m ic
          \<and> (verify_card (pub_crypto (dv_pub lib)) (pub_quote (dv_pub lib)) (pub_float (dv_pub lib)) (pub_rfc (dv_pub lib))
                (verify_signature (pub_crypto (dv_pub lib)) (cl_trust c)) (Some ic) = None \<or> gn_card g = active_card_bytes d)
          \<and> (ds_state x = ds_state d \<or> ds_state x = Holds (new_state jur now m))))"
proof -
  have "coherent lib (cl_trust c) jur now d x"
    using sync_safely [of lib c jur now d net budget mt] assms unfolding safely_def by blast
  then show ?thesis unfolding coherent_def
  proof
    assume "before d x"
    then show ?thesis by (simp add: before_def)
  next
    assume "\<exists>m st fresh. load_state d = Inr st \<and> mf_jurisdiction m = jur \<and> cs_revision st \<le> mf_revision m
      \<and> activated (dv_pub lib) (cl_trust c) d m fresh x \<and> (ds_state x = ds_state d \<or> ds_state x = Holds (new_state jur now m))"
    then obtain m st fresh where m: "load_state d = Inr st" "mf_jurisdiction m = jur" "cs_revision st \<le> mf_revision m"
      "activated (dv_pub lib) (cl_trust c) d m fresh x" "ds_state x = ds_state d \<or> ds_state x = Holds (new_state jur now m)" by blast
    have r: "remembers d x" "recorded (mf_revocations m) x" "ds_contents x = ds_contents d" "ds_metas x = ds_metas d"
      using m(4) by (simp_all add: activated_def)
    show ?thesis using coherent_pair [OF m(4,1,2,3)] m(1-3,5) r by blast
  qed
qed

theorem crashed_sync_coherent_witness:
  "\<exists>m g. ds_generation (after (sync demo_device demo_client demo_net 0 ''ka'' 2000000 0) new_disk) = Holds g
    \<and> client_read_manifest (dv_pub demo_device) (gn_manifest g) = Inr m \<and> mf_jurisdiction m = ''ka''"
proof -
  have "after (sync demo_device demo_client demo_net 0 ''ka'' 2000000 0) new_disk \<in> crashes (sync demo_device demo_client demo_net 0 ''ka'' 2000000 0) new_disk"
    by (rule after_crash)
  moreover have "ds_generation (after (sync demo_device demo_client demo_net 0 ''ka'' 2000000 0) new_disk) = Holds demo_generation"
    by (simp add: after_def demo_sync fetch_writes_def)
  moreover have "ds_generation new_disk = Missing" by (simp add: new_disk_def)
  ultimately show ?thesis using crashed_sync_coherent by (metis stored_file.distinct(5))
qed

text \<open>C14: A withdrawal that the device knows holds for good: whatever syncs, queries and downloads follow, by
  this process or later ones, each complete or cut off at any write, a query never answers again that
  a card of a revoked package or of a superseded version may be used.\<close>

theorem revoked_stays_revoked:
  assumes "contains_package d (ic_package_id ic) \<or> is_superseded d (ic_package_id ic) (ic_version ic)" and "ic_package_id ic \<noteq> []"
    and "d' = run (device_step lib) d es" and "outcome (state_query (dv_pub lib) c now mt) d' = Inr (ic, f)"
  shows "f = FreshRevoked"
proof -
  have "card_withdrawn (cl_trust c) d' ic"
    using run_remembers [of d lib es] assms(1-3) by (auto simp: card_withdrawn_def remembers_def)
  then show ?thesis using assms(4) unfolding state_query_Inr by auto
qed

definition demo_withdrawn :: client_disk where
  "demo_withdrawn = demo_synced\<lparr>ds_marker := True, ds_tombs := Holds (no_tombs\<lparr>tb_packages := [''p'']\<rparr>)\<rparr>"

lemma demo_withdrawn_query:
  "outcome (state_query demo_client_lib demo_client 5000000 0) demo_withdrawn = Inr (demo_client_card, FreshRevoked)"
proof -
  have p: "verified_pair demo_client_lib (cl_trust demo_client) demo_withdrawn = Inr (demo_client_manifest, demo_client_card)"
    by (rule demo_pair) (simp add: demo_withdrawn_def)
  have "load_state demo_withdrawn = Inr (demo_state 0 0)" "tombs_intact demo_withdrawn = None"
    by (simp_all add: load_state_def demo_withdrawn_def demo_synced_def tombs_intact_def load_tombs_def)
  moreover have "ic_package_id demo_client_card = ''p''" by (simp add: demo_client_card_def Offline_Card.demo_card_def)
  then have "card_withdrawn (cl_trust demo_client) demo_withdrawn demo_client_card"
    by (simp add: card_withdrawn_def contains_package_def load_tombs_def demo_withdrawn_def)
  ultimately show ?thesis using p unfolding state_query_Inr by auto
qed

theorem revoked_stays_revoked_witness:
  "outcome (state_query (dv_pub demo_device) demo_client 5000000 0) (run (device_step demo_device) demo_withdrawn []) = Inr (demo_client_card, FreshRevoked)"
proof -
  have o: "outcome (state_query (dv_pub demo_device) demo_client 5000000 0) (run (device_step demo_device) demo_withdrawn []) = Inr (demo_client_card, FreshRevoked)"
    using demo_withdrawn_query by (simp add: demo_device_def)
  have "contains_package demo_withdrawn (ic_package_id demo_client_card)" "ic_package_id demo_client_card \<noteq> []"
    by (simp_all add: demo_client_card_def Offline_Card.demo_card_def contains_package_def load_tombs_def demo_withdrawn_def)
  from revoked_stays_revoked [OF disjI1 [OF this(1)] this(2) refl o] show ?thesis using o by simp
qed

section \<open>After a sync\<close>

lemma fresh_window:
  assumes "rfc (ic_expires_at ic) = Inr expires" "rfc (ic_effective_at ic) = Inr effective" "effective \<le> now" "now < expires"
    "st = new_state jur now m" "unix_milli now \<noteq> 0" "cl_sync_mono c = Some mt"
  shows "\<exists>f. outcome (compute_freshness rfc c ic st now mt) d = Inr f \<and> usable f"
proof -
  have s: "cs_fetched_ms st \<noteq> 0" "\<not> 0 < cs_expired_ms st" "cs_max_observed_ms st = 0"
    using assms(5,6) by (simp_all add: new_state_def)
  have "from_milli (unix_milli now) \<le> now"
    by (simp add: from_milli_def unix_milli_def)
  then have "acquired_at st effective < expires" using assms(3-5) by (auto simp: acquired_at_def new_state_def)
  then have w: "0 < time_sub expires (acquired_at st effective)" "0 < time_sub expires now"
    using assms(4) by (auto simp: time_sub_def max_duration_def min_duration_def)
  have e: "elapsed_since c mt = Some 0" using assms(7) by (simp add: elapsed_since_def)
  have "compute_freshness rfc c ic st now mt = within_window c st expires now (time_sub expires (acquired_at st effective)) (Some 0)"
    unfolding compute_read [where rfc = rfc and ic = ic, OF s(1,2) assms(1,2)] Let_def e using s(3) w assms(3,4) by simp
  moreover have "0 < remaining_time expires now (time_sub expires (acquired_at st effective)) (Some 0)"
    using w by (simp add: remaining_time_def)
  ultimately show ?thesis by (auto simp: within_window_result usable_def)
qed



section \<open>Lost tombstones\<close>

text \<open>The marker without its file: what a crash between the first two writes of a tombstone leaves.\<close>

definition tombs_lost :: "client_disk \<Rightarrow> bool" where
  "tombs_lost d \<longleftrightarrow> ds_marker d \<and> ds_tombs d = Missing"

definition holds_on :: "(client_disk \<Rightarrow> bool) \<Rightarrow> 'a proc \<Rightarrow> bool" where
  "holds_on I p \<longleftrightarrow> (\<forall>d. I d \<longrightarrow> safely I p d (\<lambda>_. I))"

lemma holds_on_quiet: "holds_on I (give x)" "holds_on I (fail e)" "holds_on I (look g)"
  by (simp_all add: holds_on_def safely_quiet)

lemma holds_on_demand: "holds_on I (demand e)"
  by (simp add: holds_on_def safely_demand)

lemma holds_on_andthen: "holds_on I p \<Longrightarrow> (\<And>x. holds_on I (f x)) \<Longrightarrow> holds_on I (andthen p f)"
  unfolding holds_on_def by (blast intro: safely_andthen)

lemma holds_on_for_each: "(\<And>x. holds_on I (p x)) \<Longrightarrow> holds_on I (for_each p xs)"
  by (induction xs) (auto intro!: holds_on_andthen holds_on_quiet)

lemma holds_on_quiet_tombs:
  assumes "\<And>d. safely (quiet_tombs d) p d (\<lambda>_. quiet_tombs d)"
  shows "holds_on tombs_lost p"
  unfolding holds_on_def
proof (intro allI impI)
  fix d assume "tombs_lost d"
  then have "quiet_tombs d x \<Longrightarrow> tombs_lost x" for x by (simp add: quiet_tombs_def tombs_lost_def)
  then show "safely tombs_lost p d (\<lambda>_. tombs_lost)" using assms [of d] by (auto elim: safely_conseq)
qed

lemma lost_loads: "tombs_lost d \<Longrightarrow> isl (load_tombs d)"
  by (simp add: tombs_lost_def load_tombs_def)

lemma lost_stays:
  "holds_on tombs_lost (add_package p)" "holds_on tombs_lost (add_route r)" "holds_on tombs_lost (add_superseded s)"
  unfolding holds_on_def add_package_def add_route_def add_superseded_def
  by (auto intro!: safely_look_then simp: tombs_lost_def load_tombs_def)

lemma lost_parts:
  assumes "touches_parts p" shows "holds_on tombs_lost p"
proof (rule holds_on_quiet_tombs)
  fix d
  have "quiet_tombs d d" by (simp add: quiet_tombs_def)
  then show "safely (quiet_tombs d) p d (\<lambda>_. quiet_tombs d)"
    using touches_parts_after [OF assms] quiet_installed unfolding safely_def by blast
qed

lemma lost_writes: "list_all (\<lambda>w. \<forall>t. w \<noteq> WTombs t) ws \<Longrightarrow> holds_on tombs_lost (writes ws)"
proof (induction ws)
  case (Cons w ws)
  have "tombs_lost d \<Longrightarrow> tombs_lost (apply_write d w)" for d using Cons.prems by (cases w) (auto simp: tombs_lost_def)
  then show ?case using Cons by (auto simp: holds_on_def safely_writes)
qed (simp add: holds_on_def safely_writes)

lemma lost_activate: "holds_on tombs_lost (activate lib jur mb m cb changed now)"
proof -
  obtain g where g: "write_generation (dv_pub lib) mb cb = writes [WGeneration g]" using write_generation_eq by blast
  show ?thesis unfolding activate_def g save_state_def
    by (auto intro!: holds_on_andthen lost_writes lost_parts [OF clear_part_touches] simp: holds_on_quiet)
qed

lemma lost_revocations: "holds_on tombs_lost (apply_revocations b)"
  using lost_stays unfolding apply_revocations_def
  by (intro holds_on_andthen holds_on_for_each holds_on_quiet) (simp_all add: holds_on_def safely_relabel)

lemma lost_sync: "holds_on tombs_lost (sync lib c net budget jur now mt)"
  unfolding sync_def sync_verified_def finish_sync_def fetch_card_def
  by (auto intro!: holds_on_andthen holds_on_demand lost_revocations lost_activate lost_parts [OF downloads_touch_parts(1)]
      lost_parts [OF downloads_touch_parts(2)] lost_parts [OF clear_part_touches] simp: holds_on_quiet split: prod.split)

lemma holds_on_cut: "holds_on I p \<Longrightarrow> I d \<Longrightarrow> I (cut_off p n d)"
  using cut_off_crash [of p n d] by (auto simp: holds_on_def safely_def)

lemma lost_step: "tombs_lost d \<Longrightarrow> tombs_lost (device_step lib d e)"
  by (cases e) (auto intro!: holds_on_cut lost_sync holds_on_quiet_tombs state_query_quiet_tombs download_resource_quiet)

text \<open>C39: A device can lose its tombstones for ever: after a crash between the creation of the marker and the
  first save of the file, which a first sync with a withdrawal can leave, no later sync, query or
  download repairs the store; every query fails and every package counts as revoked.\<close>

theorem lost_tombstones_stay_lost:
  assumes "tombs_lost d" and "d' = run (device_step lib) d es"
  shows "tombs_lost d' \<and> isl (outcome (state_query (dv_pub lib) c now mt) d') \<and> contains_package d' p \<and> contains_route d' r"
proof -
  have l: "tombs_lost d'" unfolding assms(2) using assms(1) by (induction es arbitrary: d) (auto intro: lost_step)
  then have i: "isl (load_tombs d')" by (rule lost_loads)
  then have "tombs_intact d' \<noteq> None" by (auto simp: tombs_intact_def split: sum.splits)
  then have "outcome (state_query (dv_pub lib) c now mt) d' \<noteq> Inr (ic, f)" for ic f unfolding state_query_Inr by blast
  then have "isl (outcome (state_query (dv_pub lib) c now mt) d')"
    by (cases "outcome (state_query (dv_pub lib) c now mt) d'") auto
  then show ?thesis using l i by (auto simp: contains_package_def contains_route_def split: sum.splits)
qed

theorem lost_tombstones_stay_lost_witness:
  "device_step demo_device new_disk (DeSync demo_client demo_net 0 ''ka'' 2000000 0 5) = manifest_fetched\<lparr>ds_marker := True\<rparr>
   \<and> isl (outcome (state_query (dv_pub demo_device) demo_client 5000000 0) (manifest_fetched\<lparr>ds_marker := True\<rparr>))"
proof
  have five: "(5 :: nat) = Suc (Suc (Suc (Suc (Suc 0))))" by simp
  have "device_step demo_device new_disk (DeSync demo_client demo_net 0 ''ka'' 2000000 0 5)
      = apply_write (run apply_write new_disk (fetch_writes ''manifest-ka'' ''m'' ''https://h/api/v3/regions/ka/manifest'')) WMarker"
    unfolding device_step.simps cut_off_def demo_sync fst_conv fetch_writes_def five by simp
  then show "device_step demo_device new_disk (DeSync demo_client demo_net 0 ''ka'' 2000000 0 5) = manifest_fetched\<lparr>ds_marker := True\<rparr>"
    unfolding demo_disks by simp
  have "tombs_lost (manifest_fetched\<lparr>ds_marker := True\<rparr>)" by (simp add: tombs_lost_def manifest_fetched_def new_disk_def)
  from lost_tombstones_stay_lost [OF this refl, of demo_device "[]"]
  show "isl (outcome (state_query (dv_pub demo_device) demo_client 5000000 0) (manifest_fetched\<lparr>ds_marker := True\<rparr>))" by simp
qed

end
