(* ===== verification/Voice_Contract.thy ===== *)
theory Voice_Contract
  imports Systems "HOL-Library.Sublist"
begin

text \<open>
  The contract of the voice pipeline (backend/internal/contracts: model.go, context.go, scoped.go):
  the proposal of the middle model, the trusted context of a jurisdiction, and the two validators
  that stand between them, with the shape check of the orchestrator (orchestration/orchestrator.go,
  validateProposal). The tagged strings of the contract stay strings, since a decoded
  proposal may hold any; a map is an association list.
\<close>

section \<open>The proposal of the model\<close>

record model_action =
  ac_type :: string
  ac_target :: string
  ac_targets :: "string list"
  ac_route :: string
  ac_panel :: string
  ac_direction :: string
  ac_steps :: int
  ac_language :: string
  ac_layer :: string
  ac_visible :: "bool option"

record model_output =
  mo_schema :: string
  mo_request :: string
  mo_data_version :: string
  mo_status :: string
  mo_intent :: "string option"
  mo_language :: string
  mo_actions :: "model_action list"
  mo_speech_key :: "string option"
  mo_clarifications :: "string list"
  mo_evidence :: "string list"

definition model_schema_version :: string where
  "model_schema_version = ''3.0''"

definition valid_intents :: "string list" where
  "valid_intents = [''FOCUS_PLACE'', ''SHOW_ALERT_AREA'', ''LIST_DESTINATIONS'', ''PREVIEW_DESTINATION'',
     ''SHOW_ROUTE'', ''SHOW_MY_LOCATION'', ''ZOOM'', ''PAN'', ''RECENTER'', ''REPEAT_GUIDANCE'',
     ''CHANGE_LANGUAGE'', ''OPEN_CONFIRMATION'']"

definition valid_panels :: "string list" where
  "valid_panels = [''ALERT_DETAILS'', ''DESTINATION_PREVIEW'', ''ROUTE_STEPS'',
     ''RESERVATION_CONFIRMATION'', ''ARRIVAL_CONFIRMATION'', ''EMERGENCY_CALL_CONFIRMATION'']"

definition valid_action_types :: "string list" where
  "valid_action_types = [''FOCUS_FEATURE'', ''HIGHLIGHT_FEATURE'', ''SHOW_CHOICES'', ''FIT_FEATURES'',
     ''SHOW_ROUTE'', ''OPEN_PANEL'', ''ZOOM'', ''PAN'', ''RECENTER'', ''SET_LANGUAGE'', ''SET_LAYER_VISIBILITY'']"

definition max_model_actions :: nat where "max_model_actions = 5"
definition max_show_choices :: nat where "max_show_choices = 3"
definition max_clarification_ids :: nat where "max_clarification_ids = 3"

definition known_statuses :: "string list" where
  "known_statuses = [''OK'', ''CLARIFY'', ''UNSUPPORTED'', ''DATA_UNAVAILABLE'', ''ERROR'']"

definition known_layers :: "string list" where
  "known_layers = [''RED_ZONES'', ''SAFE_ZONES'', ''ROUTES'', ''MY_LOCATION'']"

definition compass :: "string list" where
  "compass = [''NORTH'', ''SOUTH'', ''EAST'', ''WEST'']"

section \<open>The flat validator\<close>

definition require_known_id :: "string \<Rightarrow> string \<Rightarrow> string set \<Rightarrow> msg option" where
  "require_known_id field i known = first_err
     [check (i = []) (Fmt ''%s is required'' [AStr field]),
      check (i \<notin> known) (Fmt ''%s %q not in active context'' [AStr field, AStr i])]"

definition require_steps :: "int \<Rightarrow> msg option" where
  "require_steps n = check (n \<noteq> 1) (plain ''steps must be exactly 1'')"

definition validate_action :: "string set \<Rightarrow> model_action \<Rightarrow> msg option" where
  "validate_action known a =
     (if ac_type a \<in> {''FOCUS_FEATURE'', ''HIGHLIGHT_FEATURE''} then require_known_id ''target_id'' (ac_target a) known
      else if ac_type a \<in> {''SHOW_CHOICES'', ''FIT_FEATURES''} then
        (if ac_targets a = [] \<or> max_show_choices < length (ac_targets a)
         then Some (Fmt ''%s requires 1..%d target_ids'' [AStr (ac_type a), AInt (int max_show_choices)])
         else each_err (\<lambda>i. require_known_id ''target_ids'' i known) (ac_targets a))
      else if ac_type a = ''SHOW_ROUTE'' then require_known_id ''route_id'' (ac_route a) known
      else if ac_type a = ''OPEN_PANEL'' then
        (if ac_panel a \<notin> set valid_panels then Some (Fmt ''unknown panel %q'' [AStr (ac_panel a)])
         else if ac_target a \<noteq> [] then require_known_id ''target_id'' (ac_target a) known else None)
      else if ac_type a = ''ZOOM'' then first_err
        [check (ac_direction a \<noteq> ''IN'' \<and> ac_direction a \<noteq> ''OUT'') (plain ''ZOOM direction must be IN or OUT''),
         require_steps (ac_steps a)]
      else if ac_type a = ''PAN'' then first_err
        [check (ac_direction a \<notin> set compass) (plain ''PAN direction must be NORTH/SOUTH/EAST/WEST''),
         require_steps (ac_steps a)]
      else if ac_type a = ''RECENTER'' then None
      else if ac_type a = ''SET_LANGUAGE'' then check (ac_language a = []) (plain ''SET_LANGUAGE requires language'')
      else if ac_type a = ''SET_LAYER_VISIBILITY'' then first_err
        [check (ac_layer a \<notin> set known_layers) (Fmt ''unknown layer %q'' [AStr (ac_layer a)]),
         check (ac_visible a = None) (plain ''SET_LAYER_VISIBILITY requires visible boolean'')]
      else Some (Fmt ''unknown action type %q'' [AStr (ac_type a)]))"

text \<open>A loop over the actions whose error names the position.\<close>

definition each_action :: "(nat \<Rightarrow> model_action \<Rightarrow> msg option) \<Rightarrow> model_action list \<Rightarrow> msg option" where
  "each_action f as = each_err (\<lambda>(i, a). f i a) (enumerate 0 as)"

definition validate_model_output ::
  "model_output \<Rightarrow> string \<Rightarrow> string \<Rightarrow> string set \<Rightarrow> string set \<Rightarrow> msg option" where
  "validate_model_output out rid dv known langs = first_err
     [check (mo_schema out \<noteq> model_schema_version) (Fmt ''schema_version must be %q'' [AStr model_schema_version]),
      check (mo_request out \<noteq> rid) (plain ''request_id must echo the current server request''),
      check (mo_data_version out \<noteq> dv) (plain ''data_version must echo the current context snapshot''),
      check (mo_language out \<notin> langs) (Fmt ''language %q is not an enabled context language'' [AStr (mo_language out)]),
      (if mo_status out \<noteq> ''OK'' then first_err
         [check (mo_intent out \<noteq> None) (plain ''non-OK status must have null intent''),
          check (mo_actions out \<noteq> []) (plain ''non-OK status must have no actions'')]
       else (case mo_intent out of
          None \<Rightarrow> Some (plain ''OK status requires an intent'')
        | Some t \<Rightarrow> check (t \<notin> set valid_intents) (Fmt ''unknown intent %q'' [AStr t]))),
      (if mo_status out = ''CLARIFY'' then check (mo_clarifications out = []) (plain ''CLARIFY requires clarification_ids'')
       else check (mo_clarifications out \<noteq> []) (plain ''clarification_ids must be empty unless status is CLARIFY'')),
      check (max_clarification_ids < length (mo_clarifications out)) (Fmt ''clarification_ids exceeds max %d'' [AInt (int max_clarification_ids)]),
      check (max_model_actions < length (mo_actions out)) (Fmt ''actions exceed max %d'' [AInt (int max_model_actions)]),
      each_action (\<lambda>i a. map_option (\<lambda>e. Fmt ''action %d: %w'' [AInt (int i), AMsg e]) (validate_action known a)) (mo_actions out),
      each_err (\<lambda>i. check (i \<notin> known) (Fmt ''clarification id %q not in active context'' [AStr i])) (mo_clarifications out),
      each_err (\<lambda>i. check (i \<notin> known) (Fmt ''evidence id %q not in active context'' [AStr i])) (mo_evidence out)]"

section \<open>The trusted context\<close>

record place_candidate =
  pc_id :: string
  pc_kind :: string
  pc_jurisdiction :: string

record zone_ref =
  zn_id :: string
  zn_role :: string
  zn_status :: string
  zn_version :: int

record facility_ref =
  fr_id :: string
  fr_zone :: string
  fr_capacity_known :: bool
  fr_free :: int
  fr_version :: int

record route_ref =
  rr_id :: string
  rr_from :: string
  rr_to :: string
  rr_status :: string
  rr_verified :: bool
  rr_version :: int

record eligible_choice =
  el_facility :: facility_ref
  el_rank :: nat

record scoped_context =
  sc_request :: string
  sc_data_version :: string
  sc_jurisdiction :: string
  sc_schema :: string
  sc_source :: string
  sc_source_version :: int
  sc_template_version :: int
  sc_languages :: "string list"
  sc_template_keys :: "string list"
  sc_approved :: "(string, string list) gomap"
  sc_digests :: "(string, string) gomap"
  sc_places :: "(string, place_candidate) gomap"
  sc_red_zones :: "(string, zone_ref) gomap"
  sc_safe_zones :: "(string, zone_ref) gomap"
  sc_routes :: "(string, route_ref) gomap"
  sc_facilities :: "(string, facility_ref) gomap"
  sc_verified_routes :: "(string, route_ref list) gomap"
  sc_eligible :: "eligible_choice list"
  sc_issued_at :: string

definition is_language_allowed :: "scoped_context \<Rightarrow> string \<Rightarrow> bool" where
  "is_language_allowed sc l = list_ex (\<lambda>x. x = l) (sc_languages sc)"

definition is_template_key_allowed :: "scoped_context \<Rightarrow> string \<Rightarrow> bool" where
  "is_template_key_allowed sc k = list_ex (\<lambda>x. x = k) (sc_template_keys sc)"

definition is_speech_key_approved :: "scoped_context \<Rightarrow> string \<Rightarrow> string \<Rightarrow> bool" where
  "is_speech_key_approved sc k l \<longleftrightarrow> k \<noteq> [] \<and> l \<noteq> [] \<and>
     (case get (sc_approved sc) k of
        None \<Rightarrow> False
      | Some langs \<Rightarrow> list_ex (\<lambda>x. x \<noteq> [] \<and> x \<noteq> ''*'' \<and> x = l) langs)"

definition template_digest_key :: "string \<Rightarrow> string \<Rightarrow> string" where
  "template_digest_key k l = k @ ''/'' @ l"

definition template_digest :: "scoped_context \<Rightarrow> string \<Rightarrow> string \<Rightarrow> string option" where
  "template_digest sc k l =
     (if k = [] \<or> l = [] \<or> \<not> is_speech_key_approved sc k l then None
      else (case get (sc_digests sc) (template_digest_key k l) of
              Some h \<Rightarrow> if h \<noteq> [] then Some h else None
            | None \<Rightarrow> None))"

definition is_spatial_feature :: "scoped_context \<Rightarrow> string \<Rightarrow> bool" where
  "is_spatial_feature sc i \<longleftrightarrow> has_key (sc_places sc) i \<or> has_key (sc_safe_zones sc) i
     \<or> has_key (sc_red_zones sc) i \<or> has_key (sc_facilities sc) i"

definition is_known_any :: "scoped_context \<Rightarrow> string \<Rightarrow> bool" where
  "is_known_any sc i \<longleftrightarrow> has_key (sc_places sc) i \<or> has_key (sc_safe_zones sc) i
     \<or> has_key (sc_red_zones sc) i \<or> has_key (sc_routes sc) i \<or> has_key (sc_facilities sc) i"

definition is_known_id :: "scoped_context \<Rightarrow> string \<Rightarrow> bool" where
  "is_known_id sc i \<longleftrightarrow> has_key (sc_places sc) i \<or> has_key (sc_safe_zones sc) i
     \<or> has_key (sc_red_zones sc) i \<or> has_key (sc_routes sc) i \<or> has_key (sc_facilities sc) i"

section \<open>The scoped validator\<close>

text \<open>The first pass rejects an identifier used as another kind of thing.\<close>

definition cross_kind_check :: "scoped_context \<Rightarrow> model_action \<Rightarrow> msg option" where
  "cross_kind_check sc a =
     (if ac_type a \<in> {''FOCUS_FEATURE'', ''HIGHLIGHT_FEATURE''} then
        check (ac_target a \<noteq> [] \<and> has_key (sc_routes sc) (ac_target a))
          (Fmt ''%s target_id %q is a route, not a spatial feature'' [AStr (ac_type a), AStr (ac_target a)])
      else if ac_type a = ''SHOW_ROUTE'' \<and> ac_route a \<noteq> [] then first_err
        [check (has_key (sc_places sc) (ac_route a)) (Fmt ''SHOW_ROUTE route_id %q is a place, not a route'' [AStr (ac_route a)]),
         check (has_key (sc_facilities sc) (ac_route a)) (Fmt ''SHOW_ROUTE route_id %q is a facility, not a route'' [AStr (ac_route a)])]
      else if ac_type a = ''SHOW_CHOICES'' then
        each_err (\<lambda>i. first_err
          [check (has_key (sc_routes sc) i) (Fmt ''%s target_id %q is a route, not a facility'' [AStr (ac_type a), AStr i]),
           (case get (sc_places sc) i of
              None \<Rightarrow> None
            | Some p \<Rightarrow> check (pc_kind p \<noteq> ''FACILITY'' \<or> pc_jurisdiction p \<noteq> sc_jurisdiction sc \<or> pc_id p \<noteq> i)
                (Fmt ''%s target_id %q is a place, not a facility'' [AStr (ac_type a), AStr i])),
           check (\<not> has_key (sc_facilities sc) i) (Fmt ''%s target_id %q is not a known facility'' [AStr (ac_type a), AStr i])])
          (ac_targets a)
      else None)"

text \<open>The choices are searched forward in the eligible facilities, each after the one before.\<close>

fun walk_choices :: "string list \<Rightarrow> eligible_choice list \<Rightarrow> msg option" where
  "walk_choices [] es = None"
| "walk_choices (i # is) [] = Some (Fmt ''choice %q not in eligible set'' [AStr i])"
| "walk_choices (i # is) (e # es) =
     (if fr_id (el_facility e) = i then walk_choices is es else walk_choices (i # is) es)"

definition enforce_choice_order :: "string list \<Rightarrow> eligible_choice list \<Rightarrow> msg option" where
  "enforce_choice_order targets es =
     (if es = [] then Some (plain ''no eligible destinations in context'')
      else if length es < length targets
      then Some (Fmt ''too many choices (%d) vs eligible (%d)'' [AInt (int (length targets)), AInt (int (length es))])
      else walk_choices targets es)"

text \<open>The distinct known targets of FIT_FEATURES; the first argument holds those seen.\<close>

fun fit_targets :: "scoped_context \<Rightarrow> nat \<Rightarrow> string \<Rightarrow> string list \<Rightarrow> string list \<Rightarrow> msg option" where
  "fit_targets sc n t seen [] = None"
| "fit_targets sc n t seen (i # is) =
     (if i = [] then Some (Fmt ''action %d %s has empty target_id'' [AInt (int n), AStr t])
      else if i \<in> set seen then Some (Fmt ''action %d %s duplicate target_id %q'' [AInt (int n), AStr t, AStr i])
      else if \<not> is_known_any sc i then Some (Fmt ''action %d %s target_id %q not known'' [AInt (int n), AStr t, AStr i])
      else fit_targets sc n t (i # seen) is)"

definition verified_now :: "route_ref \<Rightarrow> bool" where
  "verified_now r \<longleftrightarrow> rr_verified r \<and> rr_status r = ''VERIFIED''"

definition panel_rule :: "scoped_context \<Rightarrow> nat \<Rightarrow> model_action \<Rightarrow> msg option" where
  "panel_rule sc n a =
     (if ac_panel a = ''DESTINATION_PREVIEW'' then
        check (ac_target a \<noteq> [] \<and> \<not> has_key (sc_facilities sc) (ac_target a))
          (Fmt ''action %d OPEN_PANEL DESTINATION_PREVIEW target_id %q not a known facility'' [AInt (int n), AStr (ac_target a)])
      else if ac_panel a = ''ROUTE_STEPS'' then
        (if ac_target a = [] then None
         else case get (sc_routes sc) (ac_target a) of
           None \<Rightarrow> Some (Fmt ''action %d OPEN_PANEL ROUTE_STEPS target_id %q not a known route'' [AInt (int n), AStr (ac_target a)])
         | Some r \<Rightarrow> check (\<not> verified_now r) (Fmt ''action %d OPEN_PANEL ROUTE_STEPS target_id %q is not verified'' [AInt (int n), AStr (ac_target a)]))
      else if ac_panel a \<in> {''ALERT_DETAILS'', ''RESERVATION_CONFIRMATION'', ''ARRIVAL_CONFIRMATION'', ''EMERGENCY_CALL_CONFIRMATION''} then
        check (ac_target a \<noteq> [] \<and> \<not> is_known_any sc (ac_target a))
          (Fmt ''action %d OPEN_PANEL %s target_id %q not known'' [AInt (int n), AStr (ac_panel a), AStr (ac_target a)])
      else Some (Fmt ''action %d OPEN_PANEL unknown panel %q'' [AInt (int n), AStr (ac_panel a)]))"

definition count_rule :: "nat \<Rightarrow> model_action \<Rightarrow> msg option" where
  "count_rule n a = first_err
     [check (ac_targets a = []) (Fmt ''action %d %s empty'' [AInt (int n), AStr (ac_type a)]),
      check (max_show_choices < length (ac_targets a)) (Fmt ''action %d %s exceeds %d'' [AInt (int n), AStr (ac_type a), AInt (int max_show_choices)])]"

definition route_rule :: "scoped_context \<Rightarrow> nat \<Rightarrow> model_action \<Rightarrow> msg option" where
  "route_rule sc n a =
     (if ac_route a = [] then Some (Fmt ''action %d SHOW_ROUTE missing route_id'' [AInt (int n)])
      else case get (sc_routes sc) (ac_route a) of
        None \<Rightarrow> Some (Fmt ''action %d SHOW_ROUTE route_id %q not a known route'' [AInt (int n), AStr (ac_route a)])
      | Some r \<Rightarrow> check (\<not> verified_now r)
          (Fmt ''action %d SHOW_ROUTE route_id %q is not verified (status=%s, verified=%t)'' [AInt (int n), AStr (ac_route a), AStr (rr_status r), AStr (if rr_verified r then ''true'' else ''false'')]))"

definition layer_rule :: "nat \<Rightarrow> model_action \<Rightarrow> msg option" where
  "layer_rule n a = first_err
     [check (ac_layer a \<notin> set known_layers) (Fmt ''action %d SET_LAYER_VISIBILITY unknown layer %q'' [AInt (int n), AStr (ac_layer a)]),
      check (ac_visible a = None) (Fmt ''action %d SET_LAYER_VISIBILITY missing visible boolean'' [AInt (int n)])]"

text \<open>The second pass: the rule of each variant.\<close>

definition typed_rule :: "scoped_context \<Rightarrow> nat \<Rightarrow> model_action \<Rightarrow> msg option" where
  "typed_rule sc n a =
     (if ac_type a \<in> {''FOCUS_FEATURE'', ''HIGHLIGHT_FEATURE''} then first_err
        [check (ac_target a = []) (Fmt ''action %d %s missing target_id'' [AInt (int n), AStr (ac_type a)]),
         check (\<not> is_spatial_feature sc (ac_target a)) (Fmt ''action %d %s target_id %q not a known spatial feature'' [AInt (int n), AStr (ac_type a), AStr (ac_target a)])]
      else if ac_type a = ''SHOW_CHOICES'' then first_err
        [count_rule n a,
         map_option (\<lambda>e. Fmt ''action %d %s order: %v'' [AInt (int n), AStr (ac_type a), AMsg e]) (enforce_choice_order (ac_targets a) (sc_eligible sc))]
      else if ac_type a = ''FIT_FEATURES'' then first_err [count_rule n a, fit_targets sc n (ac_type a) [] (ac_targets a)]
      else if ac_type a = ''SHOW_ROUTE'' then route_rule sc n a
      else if ac_type a = ''OPEN_PANEL'' then panel_rule sc n a
      else if ac_type a = ''SET_LANGUAGE'' then
        check (\<not> is_language_allowed sc (ac_language a)) (Fmt ''action %d SET_LANGUAGE language %q not in allowed set'' [AInt (int n), AStr (ac_language a)])
      else if ac_type a \<in> {''ZOOM'', ''PAN'', ''RECENTER''} then None
      else if ac_type a = ''SET_LAYER_VISIBILITY'' then layer_rule n a
      else Some (Fmt ''action %d unknown action type %q'' [AInt (int n), AStr (ac_type a)]))"

definition speaks :: "model_output \<Rightarrow> string option" where
  "speaks out = (case mo_speech_key out of None \<Rightarrow> None | Some k \<Rightarrow> if k = [] then None else Some k)"

definition enforce_scoped_context :: "model_output \<Rightarrow> scoped_context \<Rightarrow> msg option" where
  "enforce_scoped_context out sc = first_err
     [check (sc_jurisdiction sc = []) (plain ''scoped context jurisdiction is empty''),
      check (mo_data_version out \<noteq> [] \<and> sc_data_version sc \<noteq> [] \<and> mo_data_version out \<noteq> sc_data_version sc)
        (Fmt ''data_version %q does not match scoped context %q'' [AStr (mo_data_version out), AStr (sc_data_version sc)]),
      check (mo_language out = []) (plain ''model proposal language is empty''),
      check (\<not> is_language_allowed sc (mo_language out)) (Fmt ''language %q not in allowed set'' [AStr (mo_language out)]),
      (case speaks out of
         None \<Rightarrow> None
       | Some k \<Rightarrow> check (\<not> is_speech_key_approved sc k (mo_language out))
           (Fmt ''speech_key %q not approved for language %q'' [AStr k, AStr (mo_language out)])),
      each_err (\<lambda>i. check (\<not> has_key (sc_places sc) i) (Fmt ''clarification id %q is not a known place'' [AStr i])) (mo_clarifications out),
      each_err (\<lambda>i. check (\<not> is_known_any sc i) (Fmt ''evidence id %q is not known to the active context'' [AStr i])) (mo_evidence out),
      each_err (cross_kind_check sc) (mo_actions out),
      each_action (typed_rule sc) (mo_actions out)]"

section \<open>The shape of raw proposals\<close>

text \<open>
  encoding/json on raw bytes: an object as its keys with their raw values, a typed proposal, a
  text, and an array of objects. None is a decoding error.
\<close>

record voice_json =
  vj_object :: "string \<Rightarrow> (string, string) gomap option"
  vj_output :: "string \<Rightarrow> model_output option"
  vj_string :: "string \<Rightarrow> string option"
  vj_objects :: "string \<Rightarrow> (string, string) gomap list option"

definition injection_markers :: "string list" where
  "injection_markers = [''ignore previous instructions'', ''system: you are'', ''<<sys>>'', ''<|im_start|>'']"

definition injection_pattern :: "string \<Rightarrow> string" where
  "injection_pattern raw = (case filter (str_contains (lower_search raw)) injection_markers of [] \<Rightarrow> [] | m # _ \<Rightarrow> m)"

definition validate_action_shape :: "nat \<Rightarrow> model_action \<Rightarrow> msg option" where
  "validate_action_shape n a =
     (if ac_type a \<in> {''FOCUS_FEATURE'', ''HIGHLIGHT_FEATURE''} then
        check (ac_target a = []) (Fmt ''action %d %s missing target_id'' [AInt (int n), AStr (ac_type a)])
      else if ac_type a \<in> {''SHOW_CHOICES'', ''FIT_FEATURES''} then first_err
        [check (ac_targets a = []) (Fmt ''action %d %s missing target_ids'' [AInt (int n), AStr (ac_type a)]),
         check (max_show_choices < length (ac_targets a)) (Fmt ''action %d %s exceeds max %d'' [AInt (int n), AStr (ac_type a), AInt (int max_show_choices)])]
      else if ac_type a = ''SHOW_ROUTE'' then
        check (ac_route a = []) (Fmt ''action %d SHOW_ROUTE missing route_id'' [AInt (int n)])
      else if ac_type a = ''OPEN_PANEL'' then first_err
        [check (ac_panel a = []) (Fmt ''action %d OPEN_PANEL missing panel'' [AInt (int n)]),
         check (ac_panel a \<notin> set valid_panels) (Fmt ''action %d OPEN_PANEL unknown panel %q'' [AInt (int n), AStr (ac_panel a)])]
      else if ac_type a = ''SET_LANGUAGE'' then
        check (ac_language a = []) (Fmt ''action %d SET_LANGUAGE missing language'' [AInt (int n)])
      else if ac_type a = ''ZOOM'' then first_err
        [check (ac_direction a \<noteq> ''IN'' \<and> ac_direction a \<noteq> ''OUT'') (Fmt ''action %d ZOOM direction must be IN or OUT'' [AInt (int n)]),
         check (ac_steps a \<noteq> 1) (Fmt ''action %d ZOOM steps must be exactly 1'' [AInt (int n)])]
      else if ac_type a = ''PAN'' then first_err
        [check (ac_direction a \<notin> set compass) (Fmt ''action %d PAN direction must be one of NORTH/SOUTH/EAST/WEST'' [AInt (int n)]),
         check (ac_steps a \<noteq> 1) (Fmt ''action %d PAN steps must be exactly 1'' [AInt (int n)])]
      else if ac_type a = ''RECENTER'' then None
      else if ac_type a = ''SET_LAYER_VISIBILITY'' then layer_rule n a
      else Some (Fmt ''action %d unknown action type %q'' [AInt (int n), AStr (ac_type a)]))"

definition output_keys :: "string list" where
  "output_keys = [''schema_version'', ''request_id'', ''data_version'', ''status'', ''intent'', ''language'',
     ''actions'', ''speech_key'', ''clarification_ids'', ''evidence_ids'']"

definition typed_shape :: "string \<Rightarrow> model_output \<Rightarrow> msg option" where
  "typed_shape raw out = first_err
     [check (mo_schema out \<noteq> model_schema_version) (Fmt ''schema_version %q != required %q'' [AStr (mo_schema out), AStr model_schema_version]),
      check (mo_status out = []) (plain ''status is empty''),
      check (mo_status out \<notin> set known_statuses) (Fmt ''unknown status %q'' [AStr (mo_status out)]),
      check (mo_status out = ''OK'' \<and> mo_intent out = None) (plain ''OK status requires an intent''),
      check (mo_status out = ''CLARIFY'' \<and> mo_clarifications out = []) (plain ''CLARIFY requires non-empty clarification_ids''),
      check (mo_status out \<noteq> ''CLARIFY'' \<and> mo_clarifications out \<noteq> []) (plain ''clarification_ids must be empty unless status is CLARIFY''),
      each_action validate_action_shape (mo_actions out),
      check (max_model_actions < length (mo_actions out)) (Fmt ''actions exceed max %d'' [AInt (int max_model_actions)]),
      check (injection_pattern raw \<noteq> []) (Fmt ''model output looks like a prompt injection: %s'' [AStr (injection_pattern raw)])]"

definition validate_model_output_shape :: "voice_json \<Rightarrow> string \<Rightarrow> msg option" where
  "validate_model_output_shape js raw =
     (if raw = [] then Some (plain ''model output is empty'')
      else case vj_object js raw of
        None \<Rightarrow> Some (plain ''model output is not valid JSON'')
      | Some probe \<Rightarrow> first_err
          [each_err (\<lambda>k. check (\<not> has_key probe k \<and> k \<noteq> ''intent'') (Fmt ''model output missing required field %q'' [AStr k])) output_keys,
           each_err (\<lambda>k. check (k \<notin> set output_keys) (Fmt ''model output contains forbidden field %q'' [AStr k])) (map fst probe),
           (case vj_output js raw of
              None \<Rightarrow> Some (plain ''model output does not match typed schema'')
            | Some out \<Rightarrow> typed_shape raw out)])"

text \<open>
  The presence check of the worker client (orchestration/model_strict.go), which tells an absent
  field from an empty one.
\<close>

definition response_keys :: "string list" where
  "response_keys = [''request_id'', ''data_version'', ''proposal'', ''finish_reason'', ''model_revision'']"

definition proposal_required :: "string list" where
  "proposal_required = [''schema_version'', ''request_id'', ''data_version'', ''status'', ''language'', ''actions'']"

definition action_allowed_keys :: "(string, string list) gomap" where
  "action_allowed_keys =
     [(''FOCUS_FEATURE'', [''type'', ''target_id'']), (''SHOW_CHOICES'', [''type'', ''target_ids'']),
      (''SHOW_ROUTE'', [''type'', ''route_id'']), (''OPEN_PANEL'', [''type'', ''panel'', ''target_id'']),
      (''ZOOM'', [''type'', ''direction'', ''steps'']), (''PAN'', [''type'', ''direction'', ''steps'']),
      (''RECENTER'', [''type'']), (''SET_LANGUAGE'', [''type'', ''language''])]"

definition validate_action_raw :: "voice_json \<Rightarrow> nat \<Rightarrow> (string, string) gomap \<Rightarrow> msg option" where
  "validate_action_raw js n a =
     (case get a ''type'' of
        None \<Rightarrow> Some (Fmt ''model proposal: action %d missing type'' [AInt (int n)])
      | Some raw \<Rightarrow> (case vj_string js raw of
          None \<Rightarrow> Some (Fmt ''model proposal: action %d type is not a string'' [AInt (int n)])
        | Some t \<Rightarrow> (case get action_allowed_keys t of
            None \<Rightarrow> Some (Fmt ''model proposal: action %d unknown type %q'' [AInt (int n), AStr t])
          | Some keys \<Rightarrow> each_err (\<lambda>k. check (k \<notin> set keys)
              (Fmt ''model proposal: action %d (%s) carries forbidden field %q'' [AInt (int n), AStr t, AStr k])) (map fst a))))"

definition status_raw :: "voice_json \<Rightarrow> (string, string) gomap \<Rightarrow> msg option" where
  "status_raw js p =
     (case Option.bind (get p ''status'') (vj_string js) of
        None \<Rightarrow> Some (plain ''model proposal: status is not a string'')
      | Some st \<Rightarrow> first_err
          [check (st \<notin> set known_statuses) (Fmt ''model proposal: unknown status %q'' [AStr st]),
           (case get p ''intent'' of
              Some i \<Rightarrow> check (trim_space i \<noteq> ''null'' \<and> st \<noteq> ''OK'') (plain ''model proposal: non-OK status carries a non-null intent'')
            | None \<Rightarrow> check (st = ''OK'') (plain ''model proposal: OK status requires an intent''))])"

definition actions_raw :: "voice_json \<Rightarrow> (string, string) gomap \<Rightarrow> msg option" where
  "actions_raw js p =
     (case Option.bind (get p ''actions'') (vj_objects js) of
        None \<Rightarrow> Some (plain ''model proposal: actions is not an array'')
      | Some as \<Rightarrow> first_err
          [check (max_model_actions < length as) (Fmt ''model proposal: actions exceed max %d'' [AInt (int (length as))]),
           each_err (\<lambda>(n, a). validate_action_raw js n a) (enumerate 0 as)])"

definition validate_proposal_raw :: "voice_json \<Rightarrow> string \<Rightarrow> msg option" where
  "validate_proposal_raw js raw =
     (case vj_object js raw of
        None \<Rightarrow> Some (plain ''model proposal is not a JSON object'')
      | Some p \<Rightarrow> first_err
          [each_err (\<lambda>k. check (k \<notin> set output_keys) (Fmt ''model proposal: unknown field %q'' [AStr k])) (map fst p),
           each_err (\<lambda>k. check (\<not> has_key p k) (Fmt ''model proposal: missing required field %q'' [AStr k])) proposal_required,
           status_raw js p, actions_raw js p])"

definition max_raw_model_bytes :: nat where "max_raw_model_bytes = 65536"

definition validate_model_response_raw :: "voice_json \<Rightarrow> string \<Rightarrow> int \<Rightarrow> msg option" where
  "validate_model_response_raw js raw limit =
     (let cap = (if limit \<le> 0 then int max_raw_model_bytes else limit)
      in case vj_object js raw of
        None \<Rightarrow> Some (plain ''model response is not a JSON object'')
      | Some env \<Rightarrow> first_err
          [each_err (\<lambda>k. check (k \<notin> set response_keys) (Fmt ''model response: unknown field %q'' [AStr k])) (map fst env),
           each_err (\<lambda>k. check (\<not> has_key env k) (Fmt ''model response: missing required field %q'' [AStr k]))
             [''request_id'', ''data_version'', ''proposal'', ''model_revision''],
           (case get env ''proposal'' of
              None \<Rightarrow> None
            | Some p \<Rightarrow> if cap < int (length p)
                then Some (Fmt ''model proposal exceeds %d bytes (got %d)'' [AInt cap, AInt (int (length p))])
                else validate_proposal_raw js p)])"

section \<open>The shape check of the orchestrator\<close>

datatype action_field = FTarget | FTargets | FRoute | FPanel | FDirection | FSteps | FLanguage

definition field_set :: "model_action \<Rightarrow> action_field \<Rightarrow> bool" where
  "field_set a f = (case f of FTarget \<Rightarrow> ac_target a \<noteq> [] | FTargets \<Rightarrow> ac_targets a \<noteq> [] | FRoute \<Rightarrow> ac_route a \<noteq> []
     | FPanel \<Rightarrow> ac_panel a \<noteq> [] | FDirection \<Rightarrow> ac_direction a \<noteq> [] | FSteps \<Rightarrow> ac_steps a \<noteq> 0 | FLanguage \<Rightarrow> ac_language a \<noteq> [])"

definition no_extras :: "nat \<Rightarrow> action_field list \<Rightarrow> model_action \<Rightarrow> msg option" where
  "no_extras n fs a = check (list_ex (field_set a) fs) (Fmt ''action %d: %s carries forbidden extra fields'' [AInt (int n), AStr (ac_type a)])"

definition variant_shape :: "nat \<Rightarrow> model_action \<Rightarrow> msg option" where
  "variant_shape n a =
     (if ac_type a \<notin> set valid_action_types then Some (Fmt ''action %d: unknown action type %q'' [AInt (int n), AStr (ac_type a)])
      else if ac_type a = ''FOCUS_FEATURE'' then first_err
        [check (ac_target a = []) (Fmt ''action %d: FOCUS_FEATURE missing target_id'' [AInt (int n)]),
         no_extras n [FRoute, FTargets, FPanel, FDirection, FSteps, FLanguage] a]
      else if ac_type a = ''SHOW_CHOICES'' then first_err
        [check (ac_targets a = [] \<or> max_show_choices < length (ac_targets a))
           (Fmt ''action %d: SHOW_CHOICES requires 1..%d target_ids'' [AInt (int n), AInt (int max_show_choices)]),
         no_extras n [FTarget, FRoute, FPanel, FDirection, FSteps, FLanguage] a]
      else if ac_type a = ''SHOW_ROUTE'' then first_err
        [check (ac_route a = []) (Fmt ''action %d: SHOW_ROUTE missing route_id'' [AInt (int n)]),
         no_extras n [FTarget, FTargets, FPanel, FDirection, FSteps, FLanguage] a]
      else if ac_type a = ''OPEN_PANEL'' then first_err
        [check (ac_panel a \<notin> set valid_panels) (Fmt ''action %d: unknown panel %q'' [AInt (int n), AStr (ac_panel a)]),
         no_extras n [FTargets, FRoute, FDirection, FSteps, FLanguage] a]
      else if ac_type a = ''ZOOM'' then first_err
        [check (ac_direction a \<noteq> ''IN'' \<and> ac_direction a \<noteq> ''OUT'') (Fmt ''action %d: ZOOM direction must be IN or OUT'' [AInt (int n)]),
         check (ac_steps a \<noteq> 1) (Fmt ''action %d: ZOOM steps must be exactly 1'' [AInt (int n)]),
         no_extras n [FTarget, FTargets, FRoute, FPanel, FLanguage] a]
      else if ac_type a = ''PAN'' then first_err
        [check (ac_direction a \<notin> set compass) (Fmt ''action %d: PAN direction must be NORTH/SOUTH/EAST/WEST'' [AInt (int n)]),
         check (ac_steps a \<noteq> 1) (Fmt ''action %d: PAN steps must be exactly 1'' [AInt (int n)]),
         no_extras n [FTarget, FTargets, FRoute, FPanel, FLanguage] a]
      else if ac_type a = ''RECENTER'' then no_extras n [FTarget, FTargets, FRoute, FPanel, FDirection, FSteps, FLanguage] a
      else if ac_type a = ''SET_LANGUAGE'' then first_err
        [check (ac_language a = []) (Fmt ''action %d: SET_LANGUAGE requires language'' [AInt (int n)]),
         no_extras n [FTarget, FTargets, FRoute, FPanel, FDirection, FSteps] a]
      else None)"

definition validate_proposal :: "model_output \<Rightarrow> scoped_context \<Rightarrow> string \<Rightarrow> msg option" where
  "validate_proposal out sc rid = first_err
     [check (mo_schema out \<noteq> model_schema_version) (Fmt ''schema_version must be %q, got %q'' [AStr model_schema_version, AStr (mo_schema out)]),
      check (rid = []) (plain ''server request_id is empty; cannot validate correlation''),
      check (mo_request out = []) (plain ''request_id is empty: proposal must echo the server request_id''),
      check (mo_request out \<noteq> rid) (Fmt ''request_id %q does not match current request %q'' [AStr (mo_request out), AStr rid]),
      check (mo_data_version out = [] \<or> (sc_data_version sc \<noteq> [] \<and> mo_data_version out \<noteq> sc_data_version sc))
        (Fmt ''data_version %q does not match current context snapshot %q'' [AStr (mo_data_version out), AStr (sc_data_version sc)]),
      check (mo_status out \<notin> set known_statuses) (Fmt ''unknown status %q'' [AStr (mo_status out)]),
      (if mo_status out = ''OK'' then (case mo_intent out of
          None \<Rightarrow> Some (plain ''OK status requires an intent'')
        | Some t \<Rightarrow> check (t \<notin> set valid_intents) (Fmt ''unknown intent %q'' [AStr t]))
       else first_err
         [check (mo_intent out \<noteq> None) (plain ''non-OK status must have null intent''),
          check (mo_actions out \<noteq> []) (plain ''non-OK status must have no actions'')]),
      (if mo_status out = ''CLARIFY'' then check (mo_clarifications out = []) (plain ''CLARIFY requires clarification_ids'')
       else check (mo_clarifications out \<noteq> []) (plain ''clarification_ids must be empty unless status is CLARIFY'')),
      check (max_clarification_ids < length (mo_clarifications out)) (Fmt ''clarification_ids exceeds max %d'' [AInt (int max_clarification_ids)]),
      check (max_model_actions < length (mo_actions out)) (Fmt ''actions exceed max %d'' [AInt (int max_model_actions)]),
      each_action variant_shape (mo_actions out)]"

section \<open>What an accepted proposal is\<close>

lemma each_action_None: "each_action f as = None \<longleftrightarrow> (\<forall>n < length as. f n (as ! n) = None)"
  by (simp add: each_action_def each_err_None all_set_conv_all_nth nth_enumerate_eq)

lemma each_action_uniform:
  assumes "\<And>n a. f n a = None \<longleftrightarrow> P a"
  shows "each_action f as = None \<longleftrightarrow> list_all P as"
  by (auto simp: each_action_None assms list_all_length)

text \<open>The greedy search finds the choices exactly when they keep the order of the eligible ones.\<close>

lemma walk_choices_iff: "walk_choices is es = None \<longleftrightarrow> subseq is (map (fr_id \<circ> el_facility) es)"
  by (induction "is" es rule: walk_choices.induct) auto

lemma enforce_choice_order_iff:
  "enforce_choice_order is es = None \<longleftrightarrow> es \<noteq> [] \<and> subseq is (map (fr_id \<circ> el_facility) es)"
proof -
  have "length is \<le> length es" if "subseq is (map (fr_id \<circ> el_facility) es)"
    using list_emb_length [OF that] by simp
  then show ?thesis
    by (auto simp: enforce_choice_order_def walk_choices_iff)
qed

lemma fit_targets_iff:
  "fit_targets sc n t seen is = None \<longleftrightarrow>
     [] \<notin> set is \<and> distinct is \<and> set is \<inter> set seen = {} \<and> list_all (is_known_any sc) is"
  by (induction sc n t seen "is" rule: fit_targets.induct) auto

definition focusable :: "scoped_context \<Rightarrow> string \<Rightarrow> bool" where
  "focusable sc i \<longleftrightarrow> i \<noteq> [] \<and> is_spatial_feature sc i \<and> \<not> has_key (sc_routes sc) i"

definition choosable :: "scoped_context \<Rightarrow> string \<Rightarrow> bool" where
  "choosable sc i \<longleftrightarrow> has_key (sc_facilities sc) i \<and> \<not> has_key (sc_routes sc) i
     \<and> (case get (sc_places sc) i of None \<Rightarrow> True
        | Some p \<Rightarrow> pc_kind p = ''FACILITY'' \<and> pc_jurisdiction p = sc_jurisdiction sc \<and> pc_id p = i)"

definition showable :: "scoped_context \<Rightarrow> string \<Rightarrow> bool" where
  "showable sc i \<longleftrightarrow> i \<noteq> [] \<and> (case get (sc_routes sc) i of None \<Rightarrow> False | Some r \<Rightarrow> verified_now r)"

definition panel_target :: "scoped_context \<Rightarrow> string \<Rightarrow> string \<Rightarrow> bool" where
  "panel_target sc p i \<longleftrightarrow> i = []
     \<or> p = ''DESTINATION_PREVIEW'' \<and> has_key (sc_facilities sc) i
     \<or> p = ''ROUTE_STEPS'' \<and> showable sc i
     \<or> p \<in> {''ALERT_DETAILS'', ''RESERVATION_CONFIRMATION'', ''ARRIVAL_CONFIRMATION'', ''EMERGENCY_CALL_CONFIRMATION''} \<and> is_known_any sc i"

text \<open>An action names only things of the context, each of the kind that its variant shows.\<close>

definition grounded :: "scoped_context \<Rightarrow> model_action \<Rightarrow> bool" where
  "grounded sc a \<longleftrightarrow>
     ac_type a \<in> {''FOCUS_FEATURE'', ''HIGHLIGHT_FEATURE''} \<and> focusable sc (ac_target a)
   \<or> ac_type a = ''SHOW_CHOICES'' \<and> ac_targets a \<noteq> [] \<and> length (ac_targets a) \<le> max_show_choices
       \<and> list_all (choosable sc) (ac_targets a) \<and> subseq (ac_targets a) (map (fr_id \<circ> el_facility) (sc_eligible sc))
   \<or> ac_type a = ''FIT_FEATURES'' \<and> ac_targets a \<noteq> [] \<and> length (ac_targets a) \<le> max_show_choices
       \<and> [] \<notin> set (ac_targets a) \<and> distinct (ac_targets a) \<and> list_all (is_known_any sc) (ac_targets a)
   \<or> ac_type a = ''SHOW_ROUTE'' \<and> showable sc (ac_route a)
       \<and> \<not> has_key (sc_places sc) (ac_route a) \<and> \<not> has_key (sc_facilities sc) (ac_route a)
   \<or> ac_type a = ''OPEN_PANEL'' \<and> ac_panel a \<in> set valid_panels \<and> panel_target sc (ac_panel a) (ac_target a)
   \<or> ac_type a = ''SET_LANGUAGE'' \<and> is_language_allowed sc (ac_language a)
   \<or> ac_type a = ''SET_LAYER_VISIBILITY'' \<and> ac_layer a \<in> set known_layers \<and> ac_visible a \<noteq> None
   \<or> ac_type a \<in> {''ZOOM'', ''PAN'', ''RECENTER''}"

lemma count_rule_None: "count_rule n a = None \<longleftrightarrow> ac_targets a \<noteq> [] \<and> length (ac_targets a) \<le> max_show_choices"
  by (auto simp: count_rule_def check_simps)

lemma route_rule_None: "route_rule sc n a = None \<longleftrightarrow> showable sc (ac_route a)"
  by (auto simp: route_rule_def showable_def split: option.splits)

lemma panel_rule_None: "panel_rule sc n a = None \<longleftrightarrow> ac_panel a \<in> set valid_panels \<and> panel_target sc (ac_panel a) (ac_target a)"
  by (auto simp: panel_rule_def panel_target_def valid_panels_def showable_def check_simps split: option.splits)

lemma choosable_None: "ac_type a = ''SHOW_CHOICES'' \<Longrightarrow> cross_kind_check sc a = None \<longleftrightarrow> list_all (choosable sc) (ac_targets a)"
  by (fastforce simp: cross_kind_check_def choosable_def list_all_iff check_simps split: option.splits)

lemma typed_rule_uniform:
  "typed_rule sc n a = None \<and> cross_kind_check sc a = None \<longleftrightarrow> grounded sc a"
proof -
  consider (focus) "ac_type a \<in> {''FOCUS_FEATURE'', ''HIGHLIGHT_FEATURE''}" | (choices) "ac_type a = ''SHOW_CHOICES''"
    | (fit) "ac_type a = ''FIT_FEATURES''" | (route) "ac_type a = ''SHOW_ROUTE''" | (panel) "ac_type a = ''OPEN_PANEL''"
    | (language) "ac_type a = ''SET_LANGUAGE''" | (layer) "ac_type a = ''SET_LAYER_VISIBILITY''"
    | (silent) "ac_type a \<in> {''ZOOM'', ''PAN'', ''RECENTER''}" | (other) "ac_type a \<notin> set valid_action_types"
    by (auto simp: valid_action_types_def)
  then show ?thesis
  proof cases
    case focus
    then show ?thesis by (auto simp: typed_rule_def cross_kind_check_def grounded_def focusable_def check_simps)
  next
    case choices
    then show ?thesis
      by (auto simp: choosable_None typed_rule_def grounded_def count_rule_None enforce_choice_order_iff check_simps)
  next
    case fit
    then show ?thesis
      by (auto simp: typed_rule_def cross_kind_check_def grounded_def count_rule_None fit_targets_iff check_simps)
  next
    case route
    then show ?thesis
      by (auto simp: typed_rule_def cross_kind_check_def grounded_def route_rule_None showable_def check_simps)
  next
    case panel
    then show ?thesis by (simp add: typed_rule_def cross_kind_check_def grounded_def panel_rule_None)
  next
    case language
    then show ?thesis by (simp add: typed_rule_def cross_kind_check_def grounded_def)
  next
    case layer
    then show ?thesis by (auto simp: typed_rule_def cross_kind_check_def grounded_def layer_rule_def check_simps)
  next
    case silent
    then show ?thesis by (auto simp: typed_rule_def cross_kind_check_def grounded_def)
  next
    case other
    then show ?thesis by (simp add: typed_rule_def grounded_def valid_action_types_def)
  qed
qed

text \<open>The fields that the shape check lets an action of a variant carry.\<close>

definition variant_fields :: "string \<Rightarrow> action_field set" where
  "variant_fields t =
     (if t = ''FOCUS_FEATURE'' then {FTarget} else if t = ''SHOW_CHOICES'' then {FTargets}
      else if t = ''SHOW_ROUTE'' then {FRoute} else if t = ''OPEN_PANEL'' then {FPanel, FTarget}
      else if t \<in> {''ZOOM'', ''PAN''} then {FDirection, FSteps} else if t = ''RECENTER'' then {}
      else if t = ''SET_LANGUAGE'' then {FLanguage} else UNIV)"

definition well_shaped :: "model_action \<Rightarrow> bool" where
  "well_shaped a \<longleftrightarrow> ac_type a \<in> set valid_action_types \<and> Collect (field_set a) \<subseteq> variant_fields (ac_type a)
     \<and> (ac_type a = ''ZOOM'' \<longrightarrow> ac_direction a \<in> {''IN'', ''OUT''} \<and> ac_steps a = 1)
     \<and> (ac_type a = ''PAN'' \<longrightarrow> ac_direction a \<in> set compass \<and> ac_steps a = 1)
     \<and> (ac_type a = ''SET_LANGUAGE'' \<longrightarrow> ac_language a \<noteq> [])"

lemma fields_subset:
  "Collect (field_set a) \<subseteq> F \<longleftrightarrow> (\<forall>f. f \<notin> F \<longrightarrow> \<not> field_set a f)"
  by auto

lemma all_fields: "(\<forall>f. P f) \<longleftrightarrow> P FTarget \<and> P FTargets \<and> P FRoute \<and> P FPanel \<and> P FDirection \<and> P FSteps \<and> P FLanguage"
  by (metis action_field.exhaust)

lemma variant_shape_grounded:
  assumes "grounded sc a"
  shows "variant_shape n a = None \<longleftrightarrow> well_shaped a"
  using assms unfolding grounded_def
  by (elim disjE conjE insertE emptyE)
    (auto simp: variant_shape_def well_shaped_def variant_fields_def fields_subset all_fields no_extras_def
      check_simps valid_action_types_def field_set_def focusable_def showable_def)

definition status_consistent :: "model_output \<Rightarrow> bool" where
  "status_consistent out \<longleftrightarrow> mo_status out \<in> set known_statuses
     \<and> (if mo_status out = ''OK'' then mo_intent out \<in> Some ` set valid_intents
        else mo_intent out = None \<and> mo_actions out = [])
     \<and> (mo_status out = ''CLARIFY'' \<longleftrightarrow> mo_clarifications out \<noteq> [])
     \<and> length (mo_clarifications out) \<le> max_clarification_ids \<and> length (mo_actions out) \<le> max_model_actions"

definition cites_known :: "scoped_context \<Rightarrow> model_output \<Rightarrow> bool" where
  "cites_known sc out \<longleftrightarrow> list_all (has_key (sc_places sc)) (mo_clarifications out) \<and> list_all (is_known_any sc) (mo_evidence out)
     \<and> (speaks out = None \<or> (\<exists>k. speaks out = Some k \<and> is_speech_key_approved sc k (mo_language out)))"

definition sound_proposal :: "scoped_context \<Rightarrow> string \<Rightarrow> model_output \<Rightarrow> bool" where
  "sound_proposal sc rid out \<longleftrightarrow> mo_schema out = model_schema_version \<and> rid \<noteq> [] \<and> mo_request out = rid
     \<and> mo_data_version out \<noteq> [] \<and> sc_data_version sc \<in> {[], mo_data_version out}
     \<and> sc_jurisdiction sc \<noteq> [] \<and> mo_language out \<noteq> [] \<and> is_language_allowed sc (mo_language out)
     \<and> status_consistent out \<and> cites_known sc out
     \<and> list_all (\<lambda>a. grounded sc a \<and> well_shaped a) (mo_actions out)"

lemma typed_actions:
  "each_err (cross_kind_check sc) as = None \<and> each_action (typed_rule sc) as = None \<longleftrightarrow> list_all (grounded sc) as"
  unfolding each_err_None each_action_None list_all_length all_set_conv_all_nth
  using typed_rule_uniform by blast

lemma shaped_actions:
  assumes "list_all (grounded sc) as"
  shows "each_action variant_shape as = None \<longleftrightarrow> list_all well_shaped as"
  using assms variant_shape_grounded unfolding each_action_None list_all_length by blast

lemma status_None:
  "validate_proposal out sc rid = None \<longleftrightarrow> mo_schema out = model_schema_version \<and> rid \<noteq> [] \<and> mo_request out = rid
     \<and> mo_data_version out \<noteq> [] \<and> sc_data_version sc \<in> {[], mo_data_version out}
     \<and> status_consistent out \<and> each_action variant_shape (mo_actions out) = None"
  by (auto simp: validate_proposal_def status_consistent_def check_simps split: option.splits)

lemma enforce_None:
  "enforce_scoped_context out sc = None \<longleftrightarrow> sc_jurisdiction sc \<noteq> []
     \<and> (mo_data_version out = [] \<or> sc_data_version sc \<in> {[], mo_data_version out})
     \<and> mo_language out \<noteq> [] \<and> is_language_allowed sc (mo_language out) \<and> cites_known sc out
     \<and> list_all (grounded sc) (mo_actions out)"
  unfolding typed_actions [symmetric]
  by (auto simp: enforce_scoped_context_def cites_known_def each_err_None list_all_iff first_err_Cons_None split: option.splits)

lemma accepted_iff:
  "validate_proposal out sc rid = None \<and> enforce_scoped_context out sc = None \<longleftrightarrow> sound_proposal sc rid out"
  unfolding status_None enforce_None sound_proposal_def
  using shaped_actions [of sc "mo_actions out"] by (auto simp: list_all_iff)


end
