(* ===== verification/Voice_Context.thy ===== *)
theory Voice_Context
  imports Stay_Choice Voice_Contract
begin

text \<open>
  The trusted context of the voice pipeline, read from the database and revalidated after every
  slow stage (backend/internal/store/scoped.go), and the lookup of places by name (place.go).
  The read-only tables of translations and aliases stand beside the others. The decoder of package
  bodies, RFC 3339 and letter case are parameters; the database sorts texts by their bytes.
\<close>

section \<open>Tables and parameters\<close>

record translation_row =
  tr_jurisdiction :: string
  tr_key :: string
  tr_language :: "string option"
  tr_source_version :: int
  tr_template_version :: int
  tr_source :: "string option"
  tr_sha :: "string option"
  tr_approved :: time
  tr_revoked :: "time option"

record alias_row =
  al_jurisdiction :: string
  al_lookup :: string
  al_place :: string
  al_kind :: string

record voice_store =
  vs_db :: db
  vs_translations :: "translation_row list"
  vs_aliases :: "alias_row list"

record route_body =
  rb_id :: string
  rb_from :: string
  rb_to :: string
  rb_approval :: string
  rb_verified_by :: string
  rb_valid_from :: string
  rb_valid_until :: string

record voice_body =
  vb_red_zones :: "string list"
  vb_safe_zones :: "(string \<times> string) list"
  vb_routes :: "route_body list"
  vb_facilities :: "(string \<times> string) list"
  vb_languages :: "string list"
  vb_order :: "string list"

record voice_lib =
  vl_snapshot :: body_lib
  vl_body :: "string \<Rightarrow> voice_body option"
  vl_parse_time :: "string \<Rightarrow> time option"
  vl_format_time :: "time \<Rightarrow> string"
  vl_lower :: "string \<Rightarrow> string"
  vl_sql_lower :: "string \<Rightarrow> string"

section \<open>The typed maps\<close>

text \<open>The loops that fill a map skip an empty identifier; a later entry replaces an earlier one.\<close>

definition index_by :: "('a \<Rightarrow> string) \<Rightarrow> ('a \<Rightarrow> 'b) \<Rightarrow> 'a list \<Rightarrow> (string, 'b) gomap" where
  "index_by k v xs = foldl (\<lambda>m x. if k x = [] then m else put (k x) (v x) m) [] xs"

definition is_route_verified :: "voice_lib \<Rightarrow> time \<Rightarrow> route_body \<Rightarrow> bool" where
  "is_route_verified lib now r \<longleftrightarrow>
     rb_approval r \<in> {''SYNTHETIC_DEMO'', ''AUTHORIZED_OPERATIONAL''} \<and> rb_verified_by r \<noteq> []
     \<and> (case (if rb_valid_from r = [] then None else vl_parse_time lib (rb_valid_from r)) of None \<Rightarrow> True | Some t \<Rightarrow> t \<le> now)
     \<and> (case (if rb_valid_until r = [] then None else vl_parse_time lib (rb_valid_until r)) of None \<Rightarrow> True | Some t \<Rightarrow> now < t)"

definition red_zone_ref :: "int \<Rightarrow> string \<Rightarrow> zone_ref" where
  "red_zone_ref v i = \<lparr>zn_id = i, zn_role = ''RED'', zn_status = ''OPEN'', zn_version = v\<rparr>"

definition safe_zone_ref :: "int \<Rightarrow> string \<times> string \<Rightarrow> zone_ref" where
  "safe_zone_ref v = (\<lambda>(i, st). \<lparr>zn_id = i, zn_role = ''SAFE'', zn_status = (if st = [] then ''OPEN'' else st), zn_version = v\<rparr>)"

definition route_ref_of :: "voice_lib \<Rightarrow> time \<Rightarrow> int \<Rightarrow> route_body \<Rightarrow> route_ref" where
  "route_ref_of lib now v r =
     \<lparr>rr_id = rb_id r, rr_from = rb_from r, rr_to = rb_to r,
      rr_status = (if is_route_verified lib now r then ''VERIFIED'' else ''STALE''),
      rr_verified = is_route_verified lib now r, rr_version = v\<rparr>"

definition facility_ref_of :: "int \<Rightarrow> string \<times> string \<Rightarrow> facility_ref" where
  "facility_ref_of v = (\<lambda>(i, z). \<lparr>fr_id = i, fr_zone = z, fr_capacity_known = False, fr_free = 0, fr_version = v\<rparr>)"

definition routes_to :: "(string, route_ref) gomap \<Rightarrow> string \<Rightarrow> route_ref list" where
  "routes_to rm z = filter (\<lambda>r. rr_verified r \<and> rr_to r = z) (map snd rm)"

definition verified_routes_of :: "(string, route_ref) gomap \<Rightarrow> (string, facility_ref) gomap \<Rightarrow> (string, route_ref list) gomap" where
  "verified_routes_of rm fm =
     filter (\<lambda>(i, rs). rs \<noteq> []) (map (\<lambda>(i, f). (i, routes_to rm (fr_zone f))) fm)"

section \<open>Approved translations\<close>

record approvals =
  ap_keys :: "string list"
  ap_langs :: "(string, string list) gomap"
  ap_digests :: "(string, string) gomap"

definition no_approvals :: approvals where
  "no_approvals = \<lparr>ap_keys = [], ap_langs = [], ap_digests = []\<rparr>"

definition active_translation :: "string \<Rightarrow> int \<Rightarrow> int \<Rightarrow> string \<Rightarrow> time \<Rightarrow> translation_row \<Rightarrow> bool" where
  "active_translation jur sv tv src now r \<longleftrightarrow> tr_jurisdiction r = jur \<and> tr_source_version r = sv \<and> tr_template_version r = tv
     \<and> tr_source r = Some src \<and> tr_language r \<noteq> None \<and> tr_sha r \<noteq> None \<and> tr_revoked r = None \<and> tr_approved r \<le> now"

definition translation_tuple :: "translation_row \<Rightarrow> string \<times> string \<times> string" where
  "translation_tuple r = (tr_key r, the (tr_language r), the (tr_sha r))"

definition active_tuples :: "translation_row list \<Rightarrow> string \<Rightarrow> int \<Rightarrow> int \<Rightarrow> string \<Rightarrow> time \<Rightarrow> (string \<times> string \<times> string) list" where
  "active_tuples rows jur sv tv src now =
     sort_key fst (sort_key (\<lambda>(k, l, h). l) (map translation_tuple (filter (active_translation jur sv tv src now) rows)))"

definition conflicting_approvals :: "string \<Rightarrow> string \<Rightarrow> string \<Rightarrow> string \<Rightarrow> st_error" where
  "conflicting_approvals k l h h' = StErr (Fmt ''store: conflicting active approvals for speech key %q language %q (%s vs %s)''
     [AStr k, AStr l, AStr h, AStr h'])"

definition add_approval :: "approvals \<Rightarrow> string \<Rightarrow> string \<Rightarrow> string \<Rightarrow> approvals" where
  "add_approval ap k l h =
     \<lparr>ap_keys = (if k \<in> set (ap_keys ap) then ap_keys ap else ap_keys ap @ [k]),
      ap_langs = put k ((case get (ap_langs ap) k of None \<Rightarrow> [] | Some ls \<Rightarrow> ls) @ [l]) (ap_langs ap),
      ap_digests = put (template_digest_key k l) h (ap_digests ap)\<rparr>"

fun scan_approvals :: "string set \<Rightarrow> (string \<times> string \<times> string) list \<Rightarrow> approvals \<Rightarrow> st_error + approvals" where
  "scan_approvals allowed [] ap = Inr ap"
| "scan_approvals allowed ((k, l, h) # rows) ap =
     (if l \<notin> allowed then scan_approvals allowed rows ap
      else case get (ap_digests ap) (template_digest_key k l) of
        Some h' \<Rightarrow> if h' \<noteq> h then Inl (conflicting_approvals k l h' h) else scan_approvals allowed rows ap
      | None \<Rightarrow> scan_approvals allowed rows (add_approval ap k l h))"

definition read_approved_speech_keys ::
  "translation_row list \<Rightarrow> string \<Rightarrow> int \<Rightarrow> int \<Rightarrow> string \<Rightarrow> time \<Rightarrow> string set \<Rightarrow> st_error + approvals" where
  "read_approved_speech_keys rows jur sv tv src now allowed =
     (if src = [] then Inr no_approvals
      else bind_res (scan_approvals allowed (active_tuples rows jur sv tv src now) no_approvals)
        (\<lambda>ap. Inr (ap\<lparr>ap_keys := sort (ap_keys ap)\<rparr>)))"

section \<open>Places\<close>

definition read_aliases :: "voice_store \<Rightarrow> string \<Rightarrow> (string \<times> string) list" where
  "read_aliases vs jur = filter (\<lambda>(p, k). p \<noteq> [])
     (remdups (map (\<lambda>a. (al_place a, al_kind a)) (filter (\<lambda>a. al_jurisdiction a = jur) (vs_aliases vs))))"

definition place_kind_of :: "(string, zone_ref) gomap \<Rightarrow> (string, zone_ref) gomap \<Rightarrow> (string, facility_ref) gomap \<Rightarrow> string \<Rightarrow> string" where
  "place_kind_of safe red fm i =
     (if has_key safe i \<or> has_key red i then ''ZONE'' else if has_key fm i then ''FACILITY'' else ''ADMIN'')"

definition place_map :: "string \<Rightarrow> (string \<Rightarrow> string) \<Rightarrow> (string \<times> string) list \<Rightarrow> (string, place_candidate) gomap" where
  "place_map jur kind rows =
     foldl (\<lambda>m (p, k). if has_key m p then m else put p \<lparr>pc_id = p, pc_kind = kind p, pc_jurisdiction = jur\<rparr> m) [] rows"

definition normalize_lookup_key :: "voice_lib \<Rightarrow> string \<Rightarrow> string" where
  "normalize_lookup_key lib s = vl_lower lib (trim_space s)"

datatype place_error = ErrPlaceNotFound | ErrPlaceAmbiguous "place_candidate list"

definition place_matches :: "voice_lib \<Rightarrow> voice_store \<Rightarrow> string \<Rightarrow> string \<Rightarrow> place_candidate list" where
  "place_matches lib vs jur key = map (\<lambda>(p, k). \<lparr>pc_id = p, pc_kind = k, pc_jurisdiction = jur\<rparr>)
     (sort_key fst (remdups (map (\<lambda>a. (al_place a, al_kind a))
        (filter (\<lambda>a. al_jurisdiction a = jur \<and> (al_lookup a = key \<or> vl_sql_lower lib (al_place a) = key)) (vs_aliases vs)))))"

definition resolve_place :: "voice_lib \<Rightarrow> voice_store \<Rightarrow> string \<Rightarrow> string \<Rightarrow> place_error + place_candidate" where
  "resolve_place lib vs jur s =
     (let key = normalize_lookup_key lib s
      in if key = [] then Inl ErrPlaceNotFound
         else case place_matches lib vs jur key of
           [] \<Rightarrow> Inl ErrPlaceNotFound
         | [p] \<Rightarrow> Inr p
         | ps \<Rightarrow> Inl (ErrPlaceAmbiguous (take 10 ps)))"

definition insert_place_alias :: "voice_lib \<Rightarrow> string \<Rightarrow> string \<Rightarrow> string \<Rightarrow> string \<Rightarrow> voice_store \<Rightarrow> voice_store" where
  "insert_place_alias lib jur s p k vs = vs\<lparr>vs_aliases := vs_aliases vs @
     [\<lparr>al_jurisdiction = jur, al_lookup = normalize_lookup_key lib s, al_place = p, al_kind = k\<rparr>]\<rparr>"

section \<open>Eligible destinations\<close>

definition zone_members :: "(string, facility_ref) gomap \<Rightarrow> string \<Rightarrow> facility_ref list" where
  "zone_members fm z = map (\<lambda>i. (the (get fm i))\<lparr>fr_capacity_known := False, fr_free := 0\<rparr>)
     (sort (map fst (filter (\<lambda>(i, f). fr_zone f = z) fm)))"

definition zone_has_room :: "db \<Rightarrow> string \<Rightarrow> string \<Rightarrow> bool" where
  "zone_has_room d z pid = (case get (zone_versions d) (z, pid) of
      None \<Rightarrow> False
    | Some row \<Rightarrow> (case zone_capacity row of None \<Rightarrow> False | Some c \<Rightarrow> 0 < c))"

definition eligible_zone :: "db \<Rightarrow> string \<Rightarrow> (string, zone_ref) gomap \<Rightarrow> string \<Rightarrow> bool" where
  "eligible_zone d pid safe z \<longleftrightarrow> z \<noteq> [] \<and>
     (case get safe z of None \<Rightarrow> False | Some r \<Rightarrow> zn_status r \<in> {''OPEN'', ''PUBLISHED''}) \<and> zone_has_room d z pid"

definition build_eligible :: "db \<Rightarrow> string \<Rightarrow> string list \<Rightarrow> (string, zone_ref) gomap \<Rightarrow> (string, facility_ref) gomap \<Rightarrow> eligible_choice list" where
  "build_eligible d pid order safe fm =
     concat (map (\<lambda>(rank, z). if eligible_zone d pid safe z
         then map (\<lambda>f. \<lparr>el_facility = f, el_rank = rank\<rparr>) (zone_members fm z) else [])
       (enumerate 0 order))"

section \<open>The scoped context\<close>

definition data_version_text :: "string \<Rightarrow> int \<Rightarrow> string" where
  "data_version_text pid v = pid @ '':'' @ show_int v"

definition context_languages :: "voice_body \<Rightarrow> string list" where
  "context_languages b = sort (remdups (filter (\<lambda>l. l \<noteq> []) (vb_languages b)))"

definition scoped_of ::
  "voice_lib \<Rightarrow> voice_store \<Rightarrow> string \<Rightarrow> string \<Rightarrow> int \<Rightarrow> time \<Rightarrow> string \<Rightarrow> voice_body \<Rightarrow> approvals \<Rightarrow> scoped_context" where
  "scoped_of lib vs jur pid v now src b ap =
     (let red = index_by id (red_zone_ref v) (vb_red_zones b);
          safe = index_by fst (safe_zone_ref v) (vb_safe_zones b);
          rm = index_by rb_id (route_ref_of lib now v) (vb_routes b);
          fm = index_by fst (facility_ref_of v) (vb_facilities b)
      in \<lparr>sc_request = [], sc_data_version = data_version_text pid v, sc_jurisdiction = jur, sc_schema = ''3.0'',
          sc_source = src, sc_source_version = v, sc_template_version = v,
          sc_languages = context_languages b, sc_template_keys = ap_keys ap, sc_approved = ap_langs ap, sc_digests = ap_digests ap,
          sc_places = place_map jur (place_kind_of safe red fm) (read_aliases vs jur),
          sc_red_zones = red, sc_safe_zones = safe, sc_routes = rm, sc_facilities = fm,
          sc_verified_routes = verified_routes_of rm fm,
          sc_eligible = build_eligible (vs_db vs) pid (vb_order b) safe fm,
          sc_issued_at = vl_format_time lib now\<rparr>)"

definition build_scoped_context :: "voice_lib \<Rightarrow> voice_store \<Rightarrow> string \<Rightarrow> string \<Rightarrow> int \<Rightarrow> time \<Rightarrow> st_error + scoped_context" where
  "build_scoped_context lib vs jur pid v now =
     (case get (packages (vs_db vs)) pid of
        None \<Rightarrow> Inl ErrNoScopedContext
      | Some p \<Rightarrow> (case vl_body lib (pkg_body p) of
          None \<Rightarrow> Inl BadJson
        | Some b \<Rightarrow> bind_res
            (read_approved_speech_keys (vs_translations vs) jur v v (pkg_source p) now (set (context_languages b)))
            (\<lambda>ap. Inr (scoped_of lib vs jur pid v now (pkg_source p) b ap))))"

text \<open>
  The current package is read first and the rest by later queries, outside of a transaction: the second
  database is the one of the later queries.
\<close>

definition resolve_scoped :: "voice_lib \<Rightarrow> voice_store \<Rightarrow> time \<Rightarrow> voice_store \<Rightarrow> time \<Rightarrow> string \<Rightarrow> st_error + scoped_context" where
  "resolve_scoped lib vs now vs' now' jur =
     (case resolve_context (vl_snapshot lib) jur now (vs_db vs) of
        Inl e \<Rightarrow> Inl ErrNoScopedContext
      | Inr snap \<Rightarrow> build_scoped_context lib vs' jur (snap_package snap) (snap_version snap) now')"

text \<open>A key of the context has a withdrawn approval, in whatever language.\<close>

definition speech_key_revoked :: "translation_row list \<Rightarrow> scoped_context \<Rightarrow> time \<Rightarrow> string \<Rightarrow> bool" where
  "speech_key_revoked rows sc now k = list_ex (\<lambda>r. tr_jurisdiction r = sc_jurisdiction sc \<and> tr_source_version r = sc_source_version sc
     \<and> tr_template_version r = sc_template_version sc \<and> tr_key r = k \<and> tr_source r = Some (sc_source sc)
     \<and> (case tr_revoked r of None \<Rightarrow> False | Some t \<Rightarrow> t \<le> now)) rows"

definition approvals_match :: "scoped_context \<Rightarrow> approvals \<Rightarrow> bool" where
  "approvals_match sc ap \<longleftrightarrow> ap_keys ap = sc_template_keys sc
     \<and> list_all (\<lambda>(k, ls). get (ap_langs ap) k = Some ls) (sc_approved sc)
     \<and> list_all (\<lambda>(k, h). (case get (ap_digests ap) k of None \<Rightarrow> [] | Some h' \<Rightarrow> h') = h) (sc_digests sc)
     \<and> length (ap_digests ap) = length (sc_digests sc)"

definition stale_snapshot :: st_error where
  "stale_snapshot = StErr (plain ''STALE_SNAPSHOT'')"

definition snapshot_revalidate :: "voice_lib \<Rightarrow> voice_store \<Rightarrow> scoped_context \<Rightarrow> time \<Rightarrow> st_error option" where
  "snapshot_revalidate lib vs sc now =
     (case resolve_context (vl_snapshot lib) (sc_jurisdiction sc) now (vs_db vs) of
        Inl e \<Rightarrow> Some stale_snapshot
      | Inr snap \<Rightarrow> first_err
          [check (snap_version snap \<noteq> sc_source_version sc) stale_snapshot,
           check (sc_template_version sc \<noteq> sc_source_version sc) stale_snapshot,
           check (data_version_text (snap_package snap) (snap_version snap) \<noteq> sc_data_version sc) stale_snapshot,
           each_err (\<lambda>k. check (speech_key_revoked (vs_translations vs) sc now k) stale_snapshot) (sc_template_keys sc),
           (case read_approved_speech_keys (vs_translations vs) (sc_jurisdiction sc) (sc_source_version sc) (sc_template_version sc)
               (sc_source sc) now (set (sc_languages sc)) of
              Inl e \<Rightarrow> Some e
            | Inr ap \<Rightarrow> check (\<not> approvals_match sc ap) stale_snapshot)])"

section \<open>What the context holds\<close>

definition indexed :: "('a \<Rightarrow> string) \<Rightarrow> ('a \<Rightarrow> 'b) \<Rightarrow> 'a set \<Rightarrow> (string, 'b) gomap \<Rightarrow> bool" where
  "indexed k v S m \<longleftrightarrow> wf_map m \<and> (\<forall>i y. get m i = Some y \<longrightarrow> i \<noteq> [] \<and> (\<exists>x \<in> S. k x = i \<and> v x = y))"

lemma indexed_put: "indexed k v S m \<Longrightarrow> x \<in> S \<Longrightarrow> k x \<noteq> [] \<Longrightarrow> indexed k v S (put (k x) (v x) m)"
  unfolding indexed_def by (simp split: if_splits) blast

lemma indexed_foldl:
  "set xs \<subseteq> S \<Longrightarrow> indexed k v S m \<Longrightarrow> indexed k v S (foldl (\<lambda>m x. if k x = [] then m else put (k x) (v x) m) m xs)"
  by (induction xs arbitrary: m) (simp_all add: indexed_put)

lemma indexed_index_by: "indexed k v (set xs) (index_by k v xs)"
  unfolding index_by_def by (rule indexed_foldl) (simp_all add: indexed_def)

lemma index_by_get: "get (index_by k v xs) i = Some y \<Longrightarrow> i \<noteq> [] \<and> (\<exists>x \<in> set xs. k x = i \<and> v x = y)"
  using indexed_index_by [of k v xs] unfolding indexed_def by blast

lemma index_by_wf: "wf_map (index_by k v xs)"
  using indexed_index_by [of k v xs] unfolding indexed_def by blast

text \<open>Every approved language of a key has its digest from a row of that key and language.\<close>

definition backed :: "string set \<Rightarrow> (string \<times> string \<times> string) set \<Rightarrow> approvals \<Rightarrow> bool" where
  "backed allowed rows ap \<longleftrightarrow> (\<forall>k ls l. get (ap_langs ap) k = Some ls \<longrightarrow> l \<in> set ls \<longrightarrow> l \<in> allowed \<and>
     (\<exists>h. get (ap_digests ap) (template_digest_key k l) = Some h \<and> (k, l, h) \<in> rows))"

lemma backed_none: "backed allowed rows no_approvals"
  by (simp add: backed_def no_approvals_def)

lemma backed_add:
  assumes "backed allowed rows ap" "l \<in> allowed" "(k, l, h) \<in> rows" "get (ap_digests ap) (template_digest_key k l) = None"
  shows "backed allowed rows (add_approval ap k l h)"
  unfolding backed_def
proof (intro allI impI)
  fix k' ls' l'
  assume ls: "get (ap_langs (add_approval ap k l h)) k' = Some ls'" and l': "l' \<in> set ls'"
  show "l' \<in> allowed \<and> (\<exists>h'. get (ap_digests (add_approval ap k l h)) (template_digest_key k' l') = Some h' \<and> (k', l', h') \<in> rows)"
  proof (cases "k' = k \<and> l' = l")
    case True
    then show ?thesis using assms(2,3) by (simp add: add_approval_def)
  next
    case False
    then obtain ls where "get (ap_langs ap) k' = Some ls" "l' \<in> set ls"
      using ls l' by (auto simp: add_approval_def split: if_splits option.splits)
    then obtain h' where "l' \<in> allowed" "get (ap_digests ap) (template_digest_key k' l') = Some h'" "(k', l', h') \<in> rows"
      using assms(1) unfolding backed_def by blast
    then show ?thesis using assms(4) by (auto simp: add_approval_def)
  qed
qed

lemma scan_backed:
  "scan_approvals allowed ts ap = Inr ap' \<Longrightarrow> backed allowed rows ap \<Longrightarrow> set ts \<subseteq> rows \<Longrightarrow> backed allowed rows ap'"
  by (induction allowed ts ap rule: scan_approvals.induct) (auto split: if_splits option.splits intro: backed_add)

lemma active_tuples_mem:
  "t \<in> set (active_tuples rows jur sv tv src now) \<longleftrightarrow> (\<exists>r \<in> set rows. active_translation jur sv tv src now r \<and> translation_tuple r = t)"
  by (auto simp: active_tuples_def)

text \<open>The text of a key in a language is approved: an active row of the source and version names its digest.\<close>

definition approved_now :: "voice_store \<Rightarrow> string \<Rightarrow> int \<Rightarrow> string \<Rightarrow> time \<Rightarrow> string \<times> string \<times> string \<Rightarrow> bool" where
  "approved_now vs jur v src now t \<longleftrightarrow>
     list_ex (\<lambda>r. active_translation jur v v src now r \<and> translation_tuple r = t) (vs_translations vs)"

lemma read_backed:
  assumes "read_approved_speech_keys rows jur v v src now allowed = Inr ap"
  shows "backed allowed {t. \<exists>r \<in> set rows. active_translation jur v v src now r \<and> translation_tuple r = t} ap"
proof (cases "src = []")
  case True
  then show ?thesis using assms by (simp add: read_approved_speech_keys_def backed_none)
next
  case False
  then obtain ap0 where scan: "scan_approvals allowed (active_tuples rows jur v v src now) no_approvals = Inr ap0"
    and ap: "ap = ap0\<lparr>ap_keys := sort (ap_keys ap0)\<rparr>"
    using assms by (auto simp: read_approved_speech_keys_def bind_res_Inr)
  have "set (active_tuples rows jur v v src now) \<subseteq> {t. \<exists>r \<in> set rows. active_translation jur v v src now r \<and> translation_tuple r = t}"
    by (auto simp: active_tuples_mem)
  from scan_backed [OF scan backed_none this] have "backed allowed {t. \<exists>r \<in> set rows. active_translation jur v v src now r \<and> translation_tuple r = t} ap0"
    .
  then show ?thesis by (simp add: ap backed_def)
qed

lemma template_digest_backed:
  assumes "template_digest sc k l = Some h"
    and "\<And>ls. get (sc_approved sc) k = Some ls \<Longrightarrow> get (ap_langs ap) k = Some ls"
    and "\<And>h'. get (sc_digests sc) (template_digest_key k l) = Some h' \<Longrightarrow> h' \<noteq> [] \<Longrightarrow> get (ap_digests ap) (template_digest_key k l) = Some h'"
    and "backed allowed rows ap"
  shows "l \<in> allowed \<and> (k, l, h) \<in> rows"
proof -
  obtain ls where ls: "get (sc_approved sc) k = Some ls" "l \<in> set ls" "get (sc_digests sc) (template_digest_key k l) = Some h" "h \<noteq> []"
    using assms(1) by (auto simp: template_digest_def is_speech_key_approved_def list_ex_iff split: if_splits option.splits)
  then show ?thesis using assms(2-4) unfolding backed_def by (metis option.inject)
qed

lemma template_digest_approved: "template_digest sc k l = Some h \<Longrightarrow> is_speech_key_approved sc k l"
  by (auto simp: template_digest_def split: if_splits)

lemma build_scoped_obtain:
  assumes "build_scoped_context lib vs jur pid v now = Inr sc"
  obtains p b ap where "get (packages (vs_db vs)) pid = Some p" "vl_body lib (pkg_body p) = Some b"
    "read_approved_speech_keys (vs_translations vs) jur v v (pkg_source p) now (set (context_languages b)) = Inr ap"
    "sc = scoped_of lib vs jur pid v now (pkg_source p) b ap"
  using assms by (auto simp: build_scoped_context_def bind_res_Inr split: option.splits)

lemma resolve_scoped_obtain:
  assumes "resolve_scoped lib vs now vs' now' jur = Inr sc"
  obtains snap where "resolve_context (vl_snapshot lib) jur now (vs_db vs) = Inr snap"
    "build_scoped_context lib vs' jur (snap_package snap) (snap_version snap) now' = Inr sc"
  using assms by (auto simp: resolve_scoped_def split: sum.splits)

lemmas scoped_of_simps = scoped_of_def Let_def scoped_context.simps

text \<open>
  A context tells the truth about its database: the approvals of its texts are active rows, its
  verified routes are approved, in their window and of its package, and its eligible facilities lie
  in open safe zones with room, at the rank of their zone in the policy.
\<close>

definition route_in_force :: "voice_lib \<Rightarrow> voice_body \<Rightarrow> time \<Rightarrow> string \<Rightarrow> bool" where
  "route_in_force lib b now i \<longleftrightarrow> list_ex (\<lambda>r. rb_id r = i \<and> is_route_verified lib now r) (vb_routes b)"

definition eligible_in :: "db \<Rightarrow> string \<Rightarrow> voice_body \<Rightarrow> eligible_choice \<Rightarrow> bool" where
  "eligible_in d pid b e \<longleftrightarrow> el_rank e < length (vb_order b)
     \<and> (let z = vb_order b ! el_rank e in fr_zone (el_facility e) = z \<and> zone_has_room d z pid
         \<and> (fr_id (el_facility e), z) \<in> set (vb_facilities b)
         \<and> list_ex (\<lambda>(i, st). i = z \<and> st \<in> {[], ''OPEN'', ''PUBLISHED''}) (vb_safe_zones b))"

lemma show_route_in_force:
  assumes "showable (scoped_of lib vs jur pid v now src b ap) i"
  shows "route_in_force lib b now i"
  using assms by (auto simp: showable_def scoped_of_simps verified_now_def route_in_force_def list_ex_iff route_ref_of_def
      dest!: index_by_get split: option.splits)

lemma zone_members_mem:
  assumes "f \<in> set (zone_members fm z)" "wf_map fm"
  shows "\<exists>i f0. get fm i = Some f0 \<and> fr_zone f0 = z \<and> f = f0\<lparr>fr_capacity_known := False, fr_free := 0\<rparr>"
proof -
  obtain i f0 where "(i, f0) \<in> set fm" "fr_zone f0 = z" and f: "f = (the (get fm i))\<lparr>fr_capacity_known := False, fr_free := 0\<rparr>"
    using assms(1) by (auto simp: zone_members_def)
  moreover from this have "get fm i = Some f0" using assms(2) by (simp add: get_iff_mem)
  ultimately show ?thesis by auto
qed

lemma eligible_zone_body:
  "eligible_zone d pid (index_by fst (safe_zone_ref v) zs) z \<Longrightarrow>
     zone_has_room d z pid \<and> list_ex (\<lambda>(i, st). i = z \<and> st \<in> {[], ''OPEN'', ''PUBLISHED''}) zs"
  by (fastforce simp: eligible_zone_def list_ex_iff safe_zone_ref_def dest!: index_by_get split: option.splits if_splits)

lemma build_eligible_mem:
  assumes "e \<in> set (build_eligible d pid (vb_order b) (index_by fst (safe_zone_ref v) (vb_safe_zones b)) (index_by fst (facility_ref_of v) (vb_facilities b)))"
  shows "eligible_in d pid b e"
proof -
  let ?fm = "index_by fst (facility_ref_of v) (vb_facilities b)"
  obtain rank z f where rz: "rank < length (vb_order b)" "vb_order b ! rank = z" and ez: "eligible_zone d pid (index_by fst (safe_zone_ref v) (vb_safe_zones b)) z"
    and f: "f \<in> set (zone_members ?fm z)" and e: "e = \<lparr>el_facility = f, el_rank = rank\<rparr>"
    using assms by (auto simp: build_eligible_def in_set_enumerate_eq split: if_splits)
  obtain i f0 where "get ?fm i = Some f0" "fr_zone f0 = z" "f = f0\<lparr>fr_capacity_known := False, fr_free := 0\<rparr>"
    using zone_members_mem [OF f index_by_wf] by blast
  then have "fr_zone f = z \<and> (fr_id f, z) \<in> set (vb_facilities b)"
    by (auto simp: facility_ref_of_def dest!: index_by_get)
  then show ?thesis using rz eligible_zone_body [OF ez] by (simp add: e eligible_in_def)
qed

lemma scoped_eligible: "e \<in> set (sc_eligible (scoped_of lib vs jur pid v now src b ap)) \<Longrightarrow> eligible_in (vs_db vs) pid b e"
  by (simp add: scoped_of_simps build_eligible_mem)

lemma resolve_snapshot:
  assumes "resolve_context lib jur now d = Inr snap"
  shows "(snap_package snap, snap_version snap) \<in> (\<lambda>(i, p). (i, pkg_version p)) ` set (filter (\<lambda>(i, p). operational_package d now p \<and> pkg_jurisdiction p = jur) (packages d))"
proof -
  obtain i p xs where c: "filter (\<lambda>(i, p). pkg_jurisdiction p = jur) (current_packages d now) = (i, p) # xs"
    and s: "snap_package snap = i" "snap_version snap = pkg_version p"
    using assms by (auto simp: resolve_context_def split: if_splits list.splits option.splits)
  have "(i, p) \<in> set (filter (\<lambda>(i, p). pkg_jurisdiction p = jur) (current_packages d now))" by (simp add: c)
  then show ?thesis using s by (force simp: current_packages_def)
qed

section \<open>Revalidation\<close>

text \<open>The package that a context was read from is the current one of its jurisdiction.\<close>

definition current_at :: "voice_store \<Rightarrow> time \<Rightarrow> scoped_context \<Rightarrow> bool" where
  "current_at vs now sc \<longleftrightarrow> list_ex (\<lambda>(pid, p). operational_package (vs_db vs) now p \<and> pkg_jurisdiction p = sc_jurisdiction sc
     \<and> pkg_version p = sc_source_version sc \<and> data_version_text pid (pkg_version p) = sc_data_version sc) (packages (vs_db vs))"

lemma resolve_current:
  assumes "resolve_context lib (sc_jurisdiction sc) now (vs_db vs) = Inr snap"
    and "snap_version snap = sc_source_version sc" "data_version_text (snap_package snap) (snap_version snap) = sc_data_version sc"
  shows "current_at vs now sc"
  using resolve_snapshot [OF assms(1)] assms(2,3) by (force simp: current_at_def list_ex_iff)

lemma scoped_fields [simp]:
  "sc_jurisdiction (scoped_of lib vs jur pid v now src b ap) = jur"
  "sc_source_version (scoped_of lib vs jur pid v now src b ap) = v"
  "sc_template_version (scoped_of lib vs jur pid v now src b ap) = v"
  "sc_source (scoped_of lib vs jur pid v now src b ap) = src"
  "sc_data_version (scoped_of lib vs jur pid v now src b ap) = data_version_text pid v"
  "sc_languages (scoped_of lib vs jur pid v now src b ap) = context_languages b"
  "sc_approved (scoped_of lib vs jur pid v now src b ap) = ap_langs ap"
  "sc_digests (scoped_of lib vs jur pid v now src b ap) = ap_digests ap"
  "sc_template_keys (scoped_of lib vs jur pid v now src b ap) = ap_keys ap"
  by (simp_all add: scoped_of_simps)

lemma scoped_texts_approved:
  assumes "read_approved_speech_keys (vs_translations vs) jur v v src now (set (context_languages b)) = Inr ap"
    and "template_digest (scoped_of lib vs' jur pid v now' src b ap) k l = Some h"
  shows "approved_now vs jur v src now (k, l, h)"
  using template_digest_backed [OF assms(2) _ _ read_backed [OF assms(1)]] by (auto simp: approved_now_def list_ex_iff)

lemma match_langs: "approvals_match sc ap \<Longrightarrow> get (sc_approved sc) k = Some ls \<Longrightarrow> get (ap_langs ap) k = Some ls"
  by (auto simp: approvals_match_def list_all_iff dest!: map_of_SomeD)

lemma match_digests: "approvals_match sc ap \<Longrightarrow> get (sc_digests sc) k = Some h \<Longrightarrow> h \<noteq> [] \<Longrightarrow> get (ap_digests ap) k = Some h"
  by (fastforce simp: approvals_match_def list_all_iff dest!: map_of_SomeD split: option.splits)

lemma revalidated_obtain:
  assumes "snapshot_revalidate lib vs sc now = None"
  obtains snap ap where "resolve_context (vl_snapshot lib) (sc_jurisdiction sc) now (vs_db vs) = Inr snap"
    "snap_version snap = sc_source_version sc" "data_version_text (snap_package snap) (snap_version snap) = sc_data_version sc"
    "sc_template_version sc = sc_source_version sc"
    "list_all (\<lambda>k. \<not> speech_key_revoked (vs_translations vs) sc now k) (sc_template_keys sc)"
    "read_approved_speech_keys (vs_translations vs) (sc_jurisdiction sc) (sc_source_version sc) (sc_template_version sc)
       (sc_source sc) now (set (sc_languages sc)) = Inr ap" "approvals_match sc ap"
  using assms by (auto simp: snapshot_revalidate_def check_simps list_all_iff split: sum.splits)

text \<open>What passes revalidation is live: its package is current and every text of it is still approved.\<close>

lemma revalidated_current: "snapshot_revalidate lib vs sc now = None \<Longrightarrow> current_at vs now sc"
  by (erule revalidated_obtain) (rule resolve_current)

lemma revalidated_texts:
  assumes "snapshot_revalidate lib vs sc now = None" "template_digest sc k l = Some h"
  shows "approved_now vs (sc_jurisdiction sc) (sc_source_version sc) (sc_source sc) now (k, l, h)"
  using assms(1)
proof (rule revalidated_obtain)
  fix ap
  assume "sc_template_version sc = sc_source_version sc"
    and r: "read_approved_speech_keys (vs_translations vs) (sc_jurisdiction sc) (sc_source_version sc) (sc_template_version sc)
       (sc_source sc) now (set (sc_languages sc)) = Inr ap" and m: "approvals_match sc ap"
  then have "backed (set (sc_languages sc)) {t. \<exists>r \<in> set (vs_translations vs). active_translation (sc_jurisdiction sc) (sc_source_version sc)
      (sc_source_version sc) (sc_source sc) now r \<and> translation_tuple r = t} ap"
    using read_backed by fastforce
  from template_digest_backed [OF assms(2) match_langs [OF m] match_digests [OF m] this]
  show ?thesis by (auto simp: approved_now_def list_ex_iff)
qed

text \<open>A context revalidates at once, unless a key of it has a withdrawn approval in any language.\<close>

lemma scan_wf:
  "scan_approvals allowed ts ap = Inr ap' \<Longrightarrow> wf_map (ap_langs ap) \<and> wf_map (ap_digests ap) \<Longrightarrow> wf_map (ap_langs ap') \<and> wf_map (ap_digests ap')"
  by (induction allowed ts ap rule: scan_approvals.induct) (auto simp: add_approval_def split: if_splits option.splits)

lemma read_wf:
  "read_approved_speech_keys rows jur v w src now allowed = Inr ap \<Longrightarrow> wf_map (ap_langs ap) \<and> wf_map (ap_digests ap)"
  by (auto simp: read_approved_speech_keys_def bind_res_Inr no_approvals_def dest!: scan_wf split: if_splits)

lemma match_self:
  assumes "wf_map (ap_langs ap)" "wf_map (ap_digests ap)"
  shows "approvals_match (scoped_of lib vs jur pid v now src b ap) ap"
  using assms by (auto simp: approvals_match_def list_all_iff get_iff_mem [symmetric])

text \<open>
  C00: right after it was read, a context passes revalidation on the unchanged database exactly when no key of it
  has a withdrawn approval of the source and version, in whatever language.
\<close>

theorem fresh_context_revalidates:
  assumes "resolve_scoped lib vs now vs now jur = Inr sc"
  shows "snapshot_revalidate lib vs sc now = None \<longleftrightarrow> \<not> list_ex (speech_key_revoked (vs_translations vs) sc now) (sc_template_keys sc)"
  using assms
proof (rule resolve_scoped_obtain)
  fix snap
  assume snap: "resolve_context (vl_snapshot lib) jur now (vs_db vs) = Inr snap"
    and build: "build_scoped_context lib vs jur (snap_package snap) (snap_version snap) now = Inr sc"
  obtain p :: package_row and b :: voice_body and ap where
    ap: "read_approved_speech_keys (vs_translations vs) jur (snap_version snap) (snap_version snap) (pkg_source p) now (set (context_languages b)) = Inr ap"
    and sc: "sc = scoped_of lib vs jur (snap_package snap) (snap_version snap) now (pkg_source p) b ap"
    by (rule build_scoped_obtain [OF build]) blast
  have "approvals_match sc ap" unfolding sc by (rule match_self) (use read_wf [OF ap] in auto)
  then show ?thesis
    using snap ap by (simp add: snapshot_revalidate_def sc check_simps list_ex_iff)
qed

text \<open>C40: 
  C00: one withdrawn translation silences the others. When the approval of a key was withdrawn in one
  language and stands in another, the context still lists the key, and no revalidation ever passes while
  the withdrawn row is kept: every voice request of the jurisdiction ends as a stale snapshot.
\<close>

theorem withdrawn_language_blocks_voice:
  assumes "resolve_scoped lib vs0 t vs t' jur = Inr sc" and "k \<in> set (sc_template_keys sc)"
    and "r \<in> set (vs_translations vs')" and "tr_jurisdiction r = jur" "tr_key r = k" "tr_source r = Some (sc_source sc)"
    and "tr_source_version r = sc_source_version sc" "tr_template_version r = sc_source_version sc"
    and "tr_revoked r = Some w" "w \<le> now"
  shows "snapshot_revalidate lib vs' sc now \<noteq> None"
proof
  assume "snapshot_revalidate lib vs' sc now = None"
  then show False
  proof (rule revalidated_obtain)
    assume "sc_template_version sc = sc_source_version sc"
      and no: "list_all (\<lambda>k. \<not> speech_key_revoked (vs_translations vs') sc now k) (sc_template_keys sc)"
    moreover have "sc_jurisdiction sc = jur"
      using assms(1) by (auto elim!: resolve_scoped_obtain build_scoped_obtain)
    ultimately have "speech_key_revoked (vs_translations vs') sc now k"
      using assms(3-10) by (auto simp: speech_key_revoked_def list_ex_iff)
    then show False using no assms(2) by (auto simp: list_all_iff)
  qed
qed

section \<open>A jurisdiction with two languages\<close>

definition demo_translation :: "string \<Rightarrow> time option \<Rightarrow> translation_row" where
  "demo_translation l w = \<lparr>tr_jurisdiction = ''IN'', tr_key = ''welcome'', tr_language = Some l, tr_source_version = 1,
     tr_template_version = 1, tr_source = Some ''src'', tr_sha = Some ''h'', tr_approved = 0, tr_revoked = w\<rparr>"

definition demo_route :: route_body where
  "demo_route = \<lparr>rb_id = ''r'', rb_from = ''red'', rb_to = ''z'', rb_approval = ''AUTHORIZED_OPERATIONAL'', rb_verified_by = ''gov'',
     rb_valid_from = [], rb_valid_until = []\<rparr>"

definition demo_voice_lib :: voice_lib where
  "demo_voice_lib = \<lparr>vl_snapshot = demo_body,
     vl_body = (\<lambda>_. Some \<lparr>vb_red_zones = [''red''], vb_safe_zones = [(''z'', ''OPEN'')], vb_routes = [demo_route],
        vb_facilities = [(''g'', ''z''), (''f'', ''z'')], vb_languages = [''ml'', ''en'', ''en''], vb_order = [''z'']\<rparr>),
     vl_parse_time = (\<lambda>_. None), vl_format_time = (\<lambda>_. ''now''), vl_lower = id, vl_sql_lower = id\<rparr>"

definition demo_store :: "translation_row list \<Rightarrow> voice_store" where
  "demo_store rows = \<lparr>vs_db = demo_ctx\<lparr>open_closures := [''r'']\<rparr>, vs_translations = rows,
     vs_aliases = [\<lparr>al_jurisdiction = ''IN'', al_lookup = ''school'', al_place = ''f'', al_kind = ''FACILITY''\<rparr>]\<rparr>"

definition demo_scoped :: scoped_context where
  "demo_scoped = projr (resolve_scoped demo_voice_lib (demo_store [demo_translation ''en'' None]) 5 (demo_store [demo_translation ''en'' None]) 5 ''IN'')"

lemma demo_resolves:
  "resolve_scoped demo_voice_lib (demo_store [demo_translation ''en'' None]) 5 (demo_store [demo_translation ''en'' None]) 5 ''IN'' = Inr demo_scoped"
  by code_simp

lemma demo_half_withdrawn:
  "(let vs = demo_store [demo_translation ''en'' None, demo_translation ''ml'' (Some 2)]
    in resolve_scoped demo_voice_lib vs 5 vs 5 ''IN'') = Inr demo_scoped"
  by code_simp

theorem fresh_context_revalidates_witness:
  "snapshot_revalidate demo_voice_lib (demo_store [demo_translation ''en'' None]) demo_scoped 5 = None"
proof -
  have "\<not> list_ex (speech_key_revoked (vs_translations (demo_store [demo_translation ''en'' None])) demo_scoped 5) (sc_template_keys demo_scoped)"
    by code_simp
  then show ?thesis using fresh_context_revalidates [OF demo_resolves] by simp
qed

theorem withdrawn_language_blocks_voice_witness:
  "snapshot_revalidate demo_voice_lib (demo_store [demo_translation ''en'' None, demo_translation ''ml'' (Some 2)]) demo_scoped 5 \<noteq> None"
proof -
  have k: "''welcome'' \<in> set (sc_template_keys demo_scoped)" "sc_source demo_scoped = ''src''" "sc_source_version demo_scoped = 1"
    by code_simp+
  show ?thesis
    by (rule withdrawn_language_blocks_voice [OF demo_half_withdrawn [unfolded Let_def] k(1), of "demo_translation ''ml'' (Some 2)" _ 2])
      (simp_all add: demo_store_def demo_translation_def k)
qed

text \<open>a closed route is still shown. The context calls a route verified without asking for closures: a
  route with an open closure, which no reservation may use, is accepted as the target of SHOW_ROUTE.
\<close>

theorem closed_route_still_shown:
  "''r'' \<in> set (open_closures (vs_db (demo_store [])))
   \<and> usable_route (vs_db (demo_store [])) 5 ''p'' ''z'' \<lparr>rv_route = ''r'', rv_package = ''p'', to_safe_zone = ''z'',
       approval = ''AUTHORIZED_OPERATIONAL'', verified_by = Some ''gov'', valid_from = None, valid_until = None\<rparr> = False
   \<and> route_rule demo_scoped 0 \<lparr>ac_type = ''SHOW_ROUTE'', ac_target = [], ac_targets = [], ac_route = ''r'', ac_panel = [],
       ac_direction = [], ac_steps = 0, ac_language = [], ac_layer = [], ac_visible = None\<rparr> = None"
  by code_simp

end
