(* ===== verification/Voice_Template.thy ===== *)
theory Voice_Template
  imports Voice_Contract
begin

text \<open>
  The approved templates and their rendering (backend/internal/orchestration/registry.go,
  the helpers of orchestrator.go and synthesize.go), and the header of the audio that the
  synthesizer returns (audio_meta.go). SHA-256, Sscanf and the formats of values are parameters.
\<close>

section \<open>Templates\<close>

text \<open>A decoded JSON argument: a number is an integer of 64 bits or another float.\<close>

datatype arg_value = AVText string | AVInt int | AVFloat fnum | AVBool bool | AVNull | AVNested

datatype arg_schema = SchemaTexts "(string, string) gomap" | SchemaAny "(string, arg_value) gomap" | SchemaOther "(string, string) gomap option"

record approved_template =
  at_key :: string
  at_language :: string
  at_version :: int
  at_source_version :: int
  at_text :: string
  at_schema :: "arg_schema option"
  at_synthetic :: bool
  at_sha :: string

record template_lib =
  tl_sha_hex :: "string \<Rightarrow> string"
  tl_scan_int :: "string \<Rightarrow> int option"
  tl_show :: "arg_value \<Rightarrow> string"
  tl_float :: "fnum \<Rightarrow> string"

type_synonym template_registry = "(string, approved_template) gomap"

definition registry_add :: "template_lib \<Rightarrow> approved_template \<Rightarrow> template_registry \<Rightarrow> template_registry" where
  "registry_add lib t r = put (template_digest_key (at_key t) (at_language t))
     (if at_sha t = [] then t\<lparr>at_sha := tl_sha_hex lib (at_text t)\<rparr> else t) r"

definition registry_lookup :: "template_registry \<Rightarrow> string \<Rightarrow> string \<Rightarrow> approved_template option" where
  "registry_lookup r k l = get r (template_digest_key k l)"

definition registry_keys :: "template_registry \<Rightarrow> string list" where
  "registry_keys r = sort (remdups (map (at_key \<circ> snd) r))"

text \<open>The exercise templates: those of the default registry bound to the given versions.\<close>

definition exercise_entries :: "template_registry \<Rightarrow> int \<Rightarrow> int \<Rightarrow> approved_template list" where
  "exercise_entries def sv tv = concat (map (\<lambda>k. List.map_filter
       (\<lambda>l. map_option (\<lambda>t. t\<lparr>at_source_version := sv, at_version := tv, at_synthetic := True\<rparr>) (registry_lookup def k l))
       [''en-IN'', ''hi-IN'', ''ml-IN'']) (registry_keys def))"

definition exercise_template_registry :: "template_lib \<Rightarrow> template_registry \<Rightarrow> int \<Rightarrow> int \<Rightarrow> template_registry" where
  "exercise_template_registry lib def sv tv = foldl (\<lambda>r t. registry_add lib t r) [] (exercise_entries def sv tv)"

section \<open>Arguments\<close>

definition id_char :: "char \<Rightarrow> bool" where
  "id_char c = (let n = of_char c :: int in 48 \<le> n \<and> n \<le> 57 \<or> 97 \<le> n \<and> n \<le> 122 \<or> 65 \<le> n \<and> n \<le> 90
     \<or> c \<in> {CHR ''-'', CHR ''_'', CHR ''.'', CHR '':''})"

definition valid_id_char :: "string \<Rightarrow> bool" where
  "valid_id_char s \<longleftrightarrow> s \<noteq> [] \<and> length s \<le> 64 \<and> list_all id_char s"

definition arg_key_char :: "char \<Rightarrow> bool" where
  "arg_key_char c \<longleftrightarrow> id_char c \<and> c \<noteq> CHR '':''"

definition is_valid_arg_key :: "string \<Rightarrow> bool" where
  "is_valid_arg_key k \<longleftrightarrow> k \<noteq> [] \<and> length k \<le> 64 \<and> list_all arg_key_char k"

definition parse_arg_schema :: "template_lib \<Rightarrow> arg_schema option \<Rightarrow> (string, string) gomap option" where
  "parse_arg_schema lib s = (case s of
       None \<Rightarrow> None
     | Some (SchemaTexts m) \<Rightarrow> Some m
     | Some (SchemaAny m) \<Rightarrow> Some (map (\<lambda>(k, v). (k, case v of AVText t \<Rightarrow> t | _ \<Rightarrow> tl_show lib v)) m)
     | Some (SchemaOther r) \<Rightarrow> r)"

text \<open>The integer of an argument; an exact float is one, and a text that starts with one.\<close>

definition to_int :: "template_lib \<Rightarrow> arg_value \<Rightarrow> int option" where
  "to_int lib v = (case v of AVInt i \<Rightarrow> Some i | AVText s \<Rightarrow> tl_scan_int lib s | _ \<Rightarrow> None)"

text \<open>The digits are taken from the right; the least integer is its own negation.\<close>

definition int_to_string :: "int \<Rightarrow> string" where
  "int_to_string i = (if i = 0 then ''0'' else if i = min_int64 then ''-'' else show_int i)"

definition arg_value_string :: "template_lib \<Rightarrow> arg_value \<Rightarrow> string" where
  "arg_value_string lib v = (case v of
       AVText s \<Rightarrow> s | AVInt i \<Rightarrow> int_to_string i | AVFloat f \<Rightarrow> tl_float lib f
     | AVBool b \<Rightarrow> (if b then ''true'' else ''false'') | _ \<Rightarrow> [])"

text \<open>The identifiers that a proposal gives to its template, in order.\<close>

definition action_args :: "model_action \<Rightarrow> (string \<times> string) list" where
  "action_args a =
     (if ac_type a \<in> {''FOCUS_FEATURE'', ''OPEN_PANEL''} then (if ac_target a \<noteq> [] then [(''target_id'', ac_target a)] else [])
      else if ac_type a = ''SHOW_CHOICES'' then
        concat (map (\<lambda>(n, i). if i = [] then [] else [(''facility_id_'' @ show_int (int n), i), (''facility_id'', i)]) (enumerate 0 (ac_targets a)))
      else if ac_type a = ''SHOW_ROUTE'' then (if ac_route a \<noteq> [] then [(''route_id'', ac_route a)] else [])
      else if ac_type a = ''SET_LANGUAGE'' then (if ac_language a \<noteq> [] then [(''language'', ac_language a)] else [])
      else [])"

definition args_for_template :: "model_output \<Rightarrow> (string \<times> string) list" where
  "args_for_template out = (case mo_speech_key out of
       None \<Rightarrow> []
     | Some k \<Rightarrow> map (\<lambda>i. (''evidence_id'', i)) (mo_evidence out) @ map (\<lambda>i. (''clarification_id'', i)) (mo_clarifications out)
         @ concat (map action_args (mo_actions out)))"

definition bad_id :: "string \<Rightarrow> string \<Rightarrow> msg option" where
  "bad_id what i = check (\<not> valid_id_char i) (Fmt (what @ '' %q contains invalid characters'') [AStr i])"

definition bad_action_ids :: "model_action \<Rightarrow> msg option" where
  "bad_action_ids a = first_err
     [if ac_target a = [] then None else bad_id ''target_id'' (ac_target a),
      if ac_route a = [] then None else bad_id ''route_id'' (ac_route a),
      each_err (bad_id ''target_id'') (ac_targets a)]"

text \<open>The later of two arguments of a name is the one provided.\<close>

definition provided_args :: "(string \<times> string) list \<Rightarrow> (string, string) gomap" where
  "provided_args args = foldl (\<lambda>m (k, v). put k v m) [] args"

definition typed_arg_error :: "template_lib \<Rightarrow> (string, string) gomap \<Rightarrow> string \<times> string \<Rightarrow> msg option" where
  "typed_arg_error lib given = (\<lambda>(k, t). case get given k of
       None \<Rightarrow> Some (Fmt ''missing required template argument %q'' [AStr k])
     | Some v \<Rightarrow> if t = ''int'' then check (tl_scan_int lib v = None) (Fmt ''template argument %q must be an integer'' [AStr k])
         else check (\<not> valid_id_char v) (Fmt ''template argument %q contains invalid characters'' [AStr k]))"

definition validate_args_against_schema :: "template_lib \<Rightarrow> model_output \<Rightarrow> approved_template \<Rightarrow> msg option" where
  "validate_args_against_schema lib out tpl = first_err
     [each_err (bad_id ''evidence_id'') (mo_evidence out), each_err (bad_id ''clarification_id'') (mo_clarifications out),
      each_err bad_action_ids (mo_actions out),
      (case parse_arg_schema lib (at_schema tpl) of
         None \<Rightarrow> None
       | Some m \<Rightarrow> each_err (typed_arg_error lib (provided_args (args_for_template out))) m)]"

section \<open>Rendering\<close>

text \<open>\<open>strings.ReplaceAll\<close> of a pattern that is not empty, from the left and without overlap.\<close>

function replace_all :: "string \<Rightarrow> string \<Rightarrow> string \<Rightarrow> string" where
  "replace_all s p v =
     (if s = [] \<or> p = [] then s
      else if has_prefix s p then v @ replace_all (drop (length p) s) p v
      else hd s # replace_all (tl s) p v)"
  by pat_completeness auto
termination by (relation "measure (\<lambda>(s, p, v). length s)") auto

declare replace_all.simps [simp del]

definition placeholder :: "string \<Rightarrow> string" where
  "placeholder k = ''{'' @ k @ ''}''"

definition has_brace :: "string \<Rightarrow> bool" where
  "has_brace s \<longleftrightarrow> CHR ''{'' \<in> set s \<or> CHR ''}'' \<in> set s"

definition unreplaced :: msg where
  "unreplaced = plain ''template text contains unreplaced placeholder or forbidden delimiter''"

definition render_template :: "approved_template \<Rightarrow> (string \<times> string) list \<Rightarrow> msg + string" where
  "render_template tpl args =
     (let out = foldl (\<lambda>s (k, v). if v = [] then s else replace_all s (placeholder k) v) (at_text tpl) args
      in if has_brace out then Inl unreplaced else Inr out)"

text \<open>The arguments of a speech request, in the order in which the map yields them.\<close>

definition speech_arg_error :: "template_lib \<Rightarrow> (string \<times> arg_value) list \<Rightarrow> string \<times> string \<Rightarrow> msg option" where
  "speech_arg_error lib args = (\<lambda>(k, t). case get args k of
       None \<Rightarrow> Some (Fmt ''missing required template arg: %s'' [AStr k])
     | Some v \<Rightarrow> if t = ''int'' then check (to_int lib v = None) (Fmt ''arg %q must be an integer'' [AStr k])
         else if t = ''string'' then (case v of
             AVText s \<Rightarrow> if s = [] then Some (Fmt ''arg %q must be a non-empty string'' [AStr k])
               else check (\<not> valid_id_char s) (Fmt ''arg %q contains invalid characters or delimiters'' [AStr k])
           | _ \<Rightarrow> Some (Fmt ''arg %q must be a non-empty string'' [AStr k]))
         else check (\<not> valid_id_char (tl_show lib v)) (Fmt ''arg %q contains invalid characters'' [AStr k]))"

definition speech_schema_error :: "template_lib \<Rightarrow> approved_template \<Rightarrow> (string \<times> arg_value) list \<Rightarrow> msg option" where
  "speech_schema_error lib tpl args = (case parse_arg_schema lib (at_schema tpl) of
       Some (p # ps) \<Rightarrow> first_err
         [each_err (speech_arg_error lib args) (p # ps),
          each_err (\<lambda>(k, v). check (\<not> has_key (p # ps) k) (Fmt ''unexpected arg: %s'' [AStr k])) args]
     | _ \<Rightarrow> check (args \<noteq> []) (Fmt ''template does not accept args but got %d'' [AInt (int (length args))]))"

fun render_speech :: "template_lib \<Rightarrow> string \<Rightarrow> (string \<times> arg_value) list \<Rightarrow> msg + string" where
  "render_speech lib s [] = (if has_brace s then Inl unreplaced else Inr s)"
| "render_speech lib s ((k, v) # args) =
     (let t = arg_value_string lib v
      in if \<not> is_valid_arg_key k then Inl (Fmt ''invalid arg key: %s'' [AStr k])
         else if \<not> valid_id_char t \<and> t \<noteq> [] then Inl (Fmt ''arg value for %s contains invalid characters'' [AStr k])
         else render_speech lib (replace_all s (placeholder k) t) args)"

definition render_template_args :: "template_lib \<Rightarrow> approved_template \<Rightarrow> (string \<times> arg_value) list \<Rightarrow> msg + string" where
  "render_template_args lib tpl args =
     bind_res (require (speech_schema_error lib tpl args) ()) (\<lambda>_. render_speech lib (at_text tpl) args)"

text \<open>One placeholder of the template becomes the value of its argument.\<close>

inductive fill_step :: "(string \<times> string) set \<Rightarrow> string \<Rightarrow> string \<Rightarrow> bool" for A where
  fill: "(k, v) \<in> A \<Longrightarrow> fill_step A (u @ placeholder k @ w) (u @ v @ w)"

lemma fill_step_append: "fill_step A s t \<Longrightarrow> fill_step A (u @ s) (u @ t)"
  by (elim fill_step.cases) (metis append.assoc fill_step.fill)

lemma fills_append: "(fill_step A)\<^sup>*\<^sup>* s t \<Longrightarrow> (fill_step A)\<^sup>*\<^sup>* (u @ s) (u @ t)"
  by (induction rule: rtranclp_induct) (auto intro: fill_step_append rtranclp.rtrancl_into_rtrancl)

lemma fills_mono: "(fill_step A)\<^sup>*\<^sup>* s t \<Longrightarrow> A \<subseteq> B \<Longrightarrow> (fill_step B)\<^sup>*\<^sup>* s t"
  by (induction rule: rtranclp_induct) (auto elim!: fill_step.cases intro: fill_step.fill rtranclp.rtrancl_into_rtrancl)

lemma has_prefix_split: "has_prefix s p \<Longrightarrow> s = p @ drop (length p) s"
  unfolding has_prefix_def by (metis append_take_drop_id)

lemma replace_all_fills: "(k, v) \<in> A \<Longrightarrow> (fill_step A)\<^sup>*\<^sup>* s (replace_all s (placeholder k) v)"
proof (induction "length s" arbitrary: s rule: less_induct)
  case less
  have ne: "placeholder k \<noteq> []" by (simp add: placeholder_def)
  consider "s = []" | (hit) "s \<noteq> []" "has_prefix s (placeholder k)" | (miss) "s \<noteq> []" "\<not> has_prefix s (placeholder k)"
    by blast
  then show ?case
  proof cases
    case hit
    let ?r = "drop (length (placeholder k)) s"
    have "fill_step A s (v @ ?r)"
      using fill_step.fill [OF less.prems, of "[]" ?r] has_prefix_split [OF hit(2)] by simp
    moreover have "(fill_step A)\<^sup>*\<^sup>* ?r (replace_all ?r (placeholder k) v)"
      using hit ne by (intro less.hyps less.prems) auto
    ultimately show ?thesis
      using hit ne fills_append by (simp add: replace_all.simps [of s] converse_rtranclp_into_rtranclp)
  next
    case miss
    then have "(fill_step A)\<^sup>*\<^sup>* (tl s) (replace_all (tl s) (placeholder k) v)"
      by (intro less.hyps less.prems) auto
    from fills_append [OF this, of "[hd s]"] show ?thesis
      using miss ne by (simp add: replace_all.simps [of s])
  qed (simp add: replace_all.simps)
qed

lemma fold_fills:
  "set args \<subseteq> A \<Longrightarrow> (fill_step A)\<^sup>*\<^sup>* s (foldl (\<lambda>s (k, v). if v = [] then s else replace_all s (placeholder k) v) s args)"
proof (induction args arbitrary: s)
  case (Cons a args)
  obtain k v where a: "a = (k, v)" by (cases a)
  have "(fill_step A)\<^sup>*\<^sup>* s (if v = [] then s else replace_all s (placeholder k) v)"
    using Cons.prems a by (simp add: replace_all_fills)
  then show ?case using Cons.IH [of "if v = [] then s else replace_all s (placeholder k) v"] Cons.prems a
    by (auto intro: rtranclp_trans)
qed simp

text \<open>A rendered text comes from the template by filling placeholders with the arguments, and holds no delimiter.\<close>

lemma render_template_fills:
  "render_template tpl args = Inr out \<Longrightarrow> (fill_step (set args))\<^sup>*\<^sup>* (at_text tpl) out \<and> \<not> has_brace out"
  using fold_fills [of args "set args" "at_text tpl"] by (auto simp: render_template_def Let_def split: if_splits)

lemma render_speech_fills:
  "render_speech lib s args = Inr out \<Longrightarrow>
     (fill_step ((\<lambda>(k, v). (k, arg_value_string lib v)) ` set args))\<^sup>*\<^sup>* s out \<and> \<not> has_brace out
     \<and> list_all (\<lambda>(k, v). is_valid_arg_key k \<and> (arg_value_string lib v = [] \<or> valid_id_char (arg_value_string lib v))) args"
proof (induction lib s args rule: render_speech.induct)
  case (2 lib s k v args)
  let ?A = "(\<lambda>(k, v). (k, arg_value_string lib v)) ` set ((k, v) # args)"
  let ?s = "replace_all s (placeholder k) (arg_value_string lib v)"
  have ok: "is_valid_arg_key k" "arg_value_string lib v = [] \<or> valid_id_char (arg_value_string lib v)"
    and r: "render_speech lib ?s args = Inr out"
    using "2.prems" by (auto simp: Let_def split: if_splits)
  have "(fill_step ?A)\<^sup>*\<^sup>* s ?s" by (rule replace_all_fills) auto
  moreover have "(fill_step ?A)\<^sup>*\<^sup>* ?s out"
    using "2.IH" [OF refl _ _ r] ok by (auto intro: fills_mono)
  ultimately show ?case using "2.IH" [OF refl _ _ r] ok by auto
qed (auto split: if_splits)

section \<open>The header of the audio\<close>

record wav_header =
  wh_rate :: nat
  wh_channels :: nat
  wh_depth :: nat
  wh_length :: nat

datatype wav_error = ShortHeader | NotWav | UnsupportedFormat | UnsupportedDepth | ZeroField | MissingData | BadLength

text \<open>The bytes from an offset, and the little-endian number of them.\<close>

definition slice_of :: "string \<Rightarrow> nat \<Rightarrow> nat \<Rightarrow> string" where
  "slice_of b i n = take n (drop i b)"

fun little_endian :: "string \<Rightarrow> nat" where
  "little_endian [] = 0"
| "little_endian (c # cs) = of_char c + 256 * little_endian cs"

abbreviation u16 :: "string \<Rightarrow> nat \<Rightarrow> nat" where "u16 b i \<equiv> little_endian (slice_of b i 2)"
abbreviation u32 :: "string \<Rightarrow> nat \<Rightarrow> nat" where "u32 b i \<equiv> little_endian (slice_of b i 4)"

definition read_wav_header :: "string \<Rightarrow> wav_error + wav_header" where
  "read_wav_header b =
     (let size = u32 b 16; channels = u16 b 22; rate = u32 b 24; depth = u16 b 34; off = 20 + size; len = u32 b (off + 4)
      in if length b < 44 then Inl ShortHeader
         else if slice_of b 0 4 \<noteq> ''RIFF'' \<or> slice_of b 8 4 \<noteq> ''WAVE'' \<or> slice_of b 12 4 \<noteq> ''fmt '' then Inl NotWav
         else if size < 16 then Inl ShortHeader
         else if u16 b 20 \<noteq> 1 then Inl UnsupportedFormat
         else if channels = 0 \<or> rate = 0 \<or> depth = 0 then Inl ZeroField
         else if depth \<noteq> 16 then Inl UnsupportedDepth
         else if length b < off + 8 then Inl ShortHeader
         else if slice_of b off 4 \<noteq> ''data'' then Inl MissingData
         else if length b < off + 8 + len then Inl BadLength
         else Inr \<lparr>wh_rate = rate, wh_channels = channels, wh_depth = depth, wh_length = len\<rparr>)"

lemma little_endian_less: "little_endian cs < 256 ^ length cs"
proof (induction cs)
  case (Cons c cs)
  have "of_char c < (256 :: nat)" by (rule nat_of_char_less_256)
  moreover have "little_endian cs + 1 \<le> 256 ^ length cs" using Cons by simp
  then have "256 * (little_endian cs + 1) \<le> 256 * 256 ^ length cs" by (rule mult_le_mono2)
  ultimately show ?case by (simp del: nat_of_char_less_256)
qed simp

text \<open>The header of accepted audio is that of 16-bit PCM, and its samples lie within the bytes.\<close>

lemma wav_header_bounds:
  "read_wav_header b = Inr h \<Longrightarrow> wh_depth h = 16 \<and> 0 < wh_rate h \<and> 0 < wh_channels h \<and> 44 + wh_length h \<le> length b
     \<and> wh_channels h < 65536 \<and> wh_rate h < 4294967296"
  using little_endian_less [of "slice_of b 22 2"] little_endian_less [of "slice_of b 24 4"]
  by (auto simp: read_wav_header_def Let_def slice_of_def split: if_splits)

end
