(* ===== verification/Http_Json.thy ===== *)
theory Http_Json
  imports Json_Walk
begin

text \<open>
  The strict JSON boundary of the public endpoints (backend/internal/httpjson/decode.go): size, the
  walk over the tokens, the typed decoder without unknown fields, and the end of the input. An error
  is its stable code and its field; the texts of the messages are left out.
\<close>

record field_error =
  fe_code :: string
  fe_field :: string

definition coded :: "string \<Rightarrow> field_error" where
  "coded c = \<lparr>fe_code = c, fe_field = []\<rparr>"

definition walk_code :: "walk_err \<Rightarrow> field_error" where
  "walk_code e = (case e of
       TooDeep d mx \<Rightarrow> coded ''DEPTH_EXCEEDED''
     | DuplicateKey k \<Rightarrow> \<lparr>fe_code = ''DUPLICATE_KEY'', fe_field = k\<rparr>
     | _ \<Rightarrow> coded ''MALFORMED_JSON'')"

definition http_well_formed :: "(string \<Rightarrow> jtok list) \<Rightarrow> string \<Rightarrow> nat \<Rightarrow> field_error option" where
  "http_well_formed toks body depth =
     (case walk_tokens depth (toks body) of Inl e \<Rightarrow> Some (walk_code e) | Inr _ \<Rightarrow> None)"

text \<open>What \<open>Decoder.Decode\<close> into the target of the handler gives, with what follows the value.\<close>

datatype typed_decode = TdOk trailing | TdSyntax | TdType string | TdUnknown string | TdEof | TdOther

definition trailing_code :: "trailing \<Rightarrow> field_error option" where
  "trailing_code t = (case t of NoTrailing \<Rightarrow> None | TrailingError e \<Rightarrow> Some (coded ''MALFORMED_JSON'')
     | TrailingValue \<Rightarrow> Some (coded ''TRAILING_DATA''))"

definition decode_error :: "typed_decode \<Rightarrow> field_error option" where
  "decode_error r = (case r of
       TdOk t \<Rightarrow> trailing_code t
     | TdType f \<Rightarrow> Some \<lparr>fe_code = ''INVALID_VALUE'', fe_field = f\<rparr>
     | TdUnknown f \<Rightarrow> Some \<lparr>fe_code = ''UNKNOWN_FIELD'', fe_field = f\<rparr>
     | _ \<Rightarrow> Some (coded ''MALFORMED_JSON''))"

definition decode_strict :: "(string \<Rightarrow> jtok list) \<Rightarrow> (string \<Rightarrow> typed_decode) \<Rightarrow> string \<Rightarrow> int \<Rightarrow> nat \<Rightarrow> field_error option" where
  "decode_strict toks dec body max_bytes depth = first_err
     [check (0 < max_bytes \<and> max_bytes < int (length body)) (coded ''BODY_TOO_LARGE''),
      http_well_formed toks body depth, decode_error (dec body)]"

lemma decode_strict_None:
  "decode_strict toks dec body mb depth = None \<longleftrightarrow>
     \<not> (0 < mb \<and> mb < int (length body)) \<and> (\<exists>r. walk_tokens depth (toks body) = Inr r) \<and> dec body = TdOk NoTrailing"
  by (auto simp: decode_strict_def http_well_formed_def decode_error_def trailing_code_def check_simps
      split: sum.splits typed_decode.splits trailing.splits)

end
