(* ===== verification/Voice_Pipeline.thy ===== *)
theory Voice_Pipeline
  imports Voice_Context Voice_Template Correlation Http_Json
begin

text \<open>
  The voice pipeline (backend/internal/orchestration/orchestrator.go, synthesize.go): audio or
  transcript, context, ASR, the middle model, the validators, revalidation, template and TTS. The three
  workers are parameters; what every other activity does to the database, the clock and the correlation
  map while a stage waits is a parameter too, one function per pause. Admission and readiness are what
  the queue and the health of the worker answer at that moment; metrics are left out.
\<close>

section \<open>Requests and answers\<close>

record pipeline_request =
  pr_request :: string
  pr_jurisdiction :: string
  pr_language :: string
  pr_kind :: string
  pr_content_type :: string
  pr_body :: string
  pr_text :: string
  pr_render :: string

record stage_failure =
  sf_stage :: stage
  sf_code :: string
  sf_reason :: msg
  sf_retry :: bool

record pipeline_error =
  pe_state :: string
  pe_status :: int
  pe_failures :: "stage_failure list"

definition pipeline_error :: "string \<Rightarrow> int \<Rightarrow> stage \<Rightarrow> string \<Rightarrow> msg \<Rightarrow> bool \<Rightarrow> pipeline_error" where
  "pipeline_error st status stage code why retry =
     \<lparr>pe_state = st, pe_status = status, pe_failures = [\<lparr>sf_stage = stage, sf_code = code, sf_reason = why, sf_retry = retry\<rparr>]\<rparr>"

record template_output =
  to_key :: string
  to_version :: int
  to_source_version :: int
  to_text :: string
  to_args :: "(string \<times> string) list"

definition no_template :: template_output where
  "no_template = \<lparr>to_key = [], to_version = 0, to_source_version = 0, to_text = [], to_args = []\<rparr>"

record audio_settings =
  as_rate :: int
  as_depth :: int
  as_channels :: int
  as_speaking :: fnum

record pipeline_audio =
  pa_content_type :: string
  pa_bytes :: nat
  pa_checksum :: string
  pa_language :: string
  pa_model :: string
  pa_voice :: string
  pa_version :: int
  pa_source_version :: int
  pa_settings :: audio_settings
  pa_b64 :: string

text \<open>The proposal of a failed run is the zero value, here None.\<close>

record pipeline_output =
  po_request :: string
  po_data_version :: string
  po_state :: string
  po_proposal :: "model_output option"
  po_template :: template_output
  po_audio :: "pipeline_audio option"
  po_failures :: "stage_failure list"

section \<open>Workers and surroundings\<close>

datatype 'a worker_reply = Replied 'a | TimedOut | CallFailed msg

record asr_request =
  aq_request :: string
  aq_language :: string
  aq_content_type :: string
  aq_audio :: string
  aq_bytes :: nat
  aq_deadline :: int

record asr_response =
  ar_request :: string
  ar_language :: string
  ar_text :: string
  ar_state :: string
  ar_model :: string
  ar_digest :: string

record middle_request =
  mq_request :: string
  mq_context :: scoped_context
  mq_transcript :: asr_response
  mq_deadline :: int

record middle_response =
  mr_proposal :: model_output
  mr_model :: string

record tts_request =
  tq_request :: string
  tq_key :: string
  tq_language :: string
  tq_text :: string
  tq_source_version :: int
  tq_version :: int
  tq_sha :: string
  tq_settings :: audio_settings
  tq_deadline :: int

record tts_response =
  ts_state :: string
  ts_b64 :: string
  ts_content_type :: string
  ts_checksum :: string
  ts_model :: string
  ts_voice :: string
  ts_settings :: audio_settings

record voice_limits =
  vl_max_audio :: int
  vl_max_transcript :: int
  vl_asr_deadline :: duration
  vl_middle_deadline :: duration
  vl_tts_deadline :: duration

definition default_voice_limits :: voice_limits where
  "default_voice_limits = \<lparr>vl_max_audio = 512 * 1024, vl_max_transcript = 4096,
     vl_asr_deadline = 3 * second, vl_middle_deadline = 6 * second, vl_tts_deadline = 4 * second\<rparr>"

definition milliseconds :: "duration \<Rightarrow> int" where
  "milliseconds d = (if 0 \<le> d then d div millisecond else - ((- d) div millisecond))"

datatype admission = Admitted | Saturated | AcquireFailed msg
datatype pause = AtStart | BetweenReads | Queued stage | InAsr | InMiddle | BeforeRevalidation | InTts | BeforeDelivery

record voice_world =
  vw_store :: voice_store
  vw_now :: time
  vw_corr :: corr_map

record voice_env =
  ve_context :: voice_lib
  ve_template :: template_lib
  ve_json :: voice_json
  ve_tokens :: "string \<Rightarrow> jtok list"
  ve_decode :: "string \<Rightarrow> typed_decode"
  ve_b64 :: "string \<Rightarrow> string option"
  ve_b64_encode :: "string \<Rightarrow> string"
  ve_mime :: "string \<Rightarrow> (string \<times> (string, string) gomap) option"
  ve_new_id :: string
  ve_limits :: voice_limits
  ve_registry :: template_registry
  ve_synthetic :: bool
  ve_asr :: "asr_request \<Rightarrow> asr_response worker_reply"
  ve_middle :: "middle_request \<Rightarrow> middle_response worker_reply"
  ve_tts :: "tts_request \<Rightarrow> tts_response worker_reply"
  ve_admit :: "stage \<Rightarrow> admission"
  ve_ready :: "stage \<Rightarrow> bool"
  ve_cancelled :: "stage \<Rightarrow> msg option"
  ve_others :: "pause \<Rightarrow> voice_world \<Rightarrow> voice_world"

section \<open>Input\<close>

definition is_supported_content_type :: "voice_env \<Rightarrow> string \<Rightarrow> bool" where
  "is_supported_content_type env ct \<longleftrightarrow> trim_space ct \<noteq> [] \<and>
     (case ve_mime env ct of
        None \<Rightarrow> False
      | Some (t, ps) \<Rightarrow> let c = (case get ps ''codecs'' of None \<Rightarrow> [] | Some c \<Rightarrow> c)
          in if t = ''audio/wav'' then c \<in> {[], ''1'', ''pcm''}
             else if t \<in> {''audio/webm'', ''audio/ogg''} then c \<in> {[], ''opus''}
             else t = ''audio/opus'')"

definition stage_audio :: "voice_env \<Rightarrow> pipeline_request \<Rightarrow> pipeline_error + string" where
  "stage_audio env req =
     (if pr_kind req = ''transcript'' then
        (if vl_max_transcript (ve_limits env) < int (length (pr_text req))
         then Inl (pipeline_error ''UNSUPPORTED'' 400 ''audio'' ''INVALID_VALUE'' (plain ''transcript exceeds UTF-8 byte limit'') False)
         else Inr (trim_space (pr_text req)))
      else if pr_kind req = ''audio'' then
        (if pr_content_type req = [] then Inl (pipeline_error ''UNSUPPORTED'' 400 ''audio'' ''INVALID_VALUE'' (plain ''audio input requires content_type'') False)
         else if \<not> is_supported_content_type env (pr_content_type req)
         then Inl (pipeline_error ''UNSUPPORTED'' 415 ''audio'' ''UNSUPPORTED_MEDIA_TYPE'' (plain ''audio content type not allowed'') False)
         else case ve_b64 env (pr_body req) of
           None \<Rightarrow> Inl (pipeline_error ''UNSUPPORTED'' 400 ''audio'' ''INVALID_VALUE'' (plain ''audio body is not valid base64'') False)
         | Some raw \<Rightarrow>
             if vl_max_audio (ve_limits env) < int (length raw)
             then Inl (pipeline_error ''UNSUPPORTED'' 413 ''audio'' ''BODY_TOO_LARGE'' (plain ''audio exceeds compressed size limit'') False)
             else (case ve_cancelled env ''audio'' of
                 Some m \<Rightarrow> Inl (pipeline_error ''CANCELED'' 499 ''audio'' ''INFERENCE_CANCELLED'' m False)
               | None \<Rightarrow> Inr []))
      else Inl (pipeline_error ''UNSUPPORTED'' 400 ''audio'' ''INVALID_VALUE'' (plain ''input kind must be audio or transcript'') False))"

text \<open>The two checks of the raw body; an empty body is not checked.\<close>

definition request_shape :: "voice_env \<Rightarrow> string \<Rightarrow> pipeline_error option" where
  "request_shape env raw =
     (if raw = [] then None
      else case decode_strict (ve_tokens env) (ve_decode env) raw
          (vl_max_audio (ve_limits env) + vl_max_transcript (ve_limits env) + 1024) 32 of
        Some e \<Rightarrow> Some (pipeline_error ''UNSUPPORTED'' 400 ''validator'' (fe_code e) (plain (fe_code e)) False)
      | None \<Rightarrow> (case vj_object (ve_json env) raw of
          None \<Rightarrow> Some (pipeline_error ''MODEL_UNAVAILABLE'' 503 ''validator'' ''VALIDATION_FAILED'' (plain ''invalid JSON'') False)
        | Some _ \<Rightarrow> None))"

section \<open>Context\<close>

definition stage_context :: "voice_env \<Rightarrow> string \<Rightarrow> voice_world \<Rightarrow> voice_world \<times> (pipeline_error + scoped_context)" where
  "stage_context env jur w =
     (if jur = [] then (w, Inl (pipeline_error ''UNSUPPORTED'' 400 ''context'' ''INVALID_VALUE'' (plain ''jurisdiction is required'') False))
      else let w1 = ve_others env AtStart w; w2 = ve_others env BetweenReads w1
        in case resolve_scoped (ve_context env) (vw_store w1) (vw_now w1) (vw_store w2) (vw_now w2) jur of
             Inl e \<Rightarrow> (w2, Inl (pipeline_error ''DATA_UNAVAILABLE'' 503 ''context'' ''DATA_UNAVAILABLE'' (plain ''context snapshot unavailable'') True))
           | Inr sc \<Rightarrow> (w2, Inr sc))"

text \<open>Revalidation against the database as it is by then.\<close>

definition revalidate_at :: "voice_env \<Rightarrow> pause \<Rightarrow> scoped_context \<Rightarrow> voice_world \<Rightarrow> voice_world \<times> st_error option" where
  "revalidate_at env p sc w =
     (let w' = ve_others env p w in (w', snapshot_revalidate (ve_context env) (vw_store w') sc (vw_now w')))"

definition stale_error :: "st_error \<Rightarrow> pipeline_error" where
  "stale_error e = pipeline_error ''DATA_UNAVAILABLE'' 409 ''context'' ''STALE_SNAPSHOT''
     (case e of StErr m \<Rightarrow> m | _ \<Rightarrow> plain ''STALE_SNAPSHOT'') False"

section \<open>A worker call\<close>

text \<open>
  Admission, readiness, the claim of a generation, the call, and the check that the generation is still
  in flight when the reply arrives: the same steps for each worker. The argument \<open>pre\<close> is an error
  found between the claim and the call.
\<close>

definition call_worker ::
  "voice_env \<Rightarrow> stage \<Rightarrow> corr_id \<Rightarrow> pause \<Rightarrow> pipeline_error option \<Rightarrow> 'r worker_reply \<Rightarrow> voice_world \<Rightarrow> voice_world \<times> (pipeline_error + 'r)"
where
  "call_worker env st cid p pre reply w =
     (case ve_admit env st of
        Saturated \<Rightarrow> (w, Inl (pipeline_error ''MODEL_UNAVAILABLE'' 503 st ''QUEUE_SATURATED'' (plain (st @ '' queue saturated'')) True))
      | AcquireFailed m \<Rightarrow> (w, Inl (pipeline_error ''CANCELED'' 499 st ''INFERENCE_CANCELLED'' m False))
      | Admitted \<Rightarrow>
          let w0 = ve_others env (Queued st) w in
          if \<not> ve_ready env st
          then (w0, Inl (pipeline_error ''MODEL_UNAVAILABLE'' 503 st ''MODEL_UNAVAILABLE'' (plain (st @ '' worker not ready'')) True))
          else let (c, g) = claim (vw_corr w0) cid st; w1 = w0\<lparr>vw_corr := mark_inflight c cid st g\<rparr>
            in case pre of
                 Some e \<Rightarrow> (w1, Inl e)
               | None \<Rightarrow> let w2 = ve_others env p w1
                   in case reply of
                        TimedOut \<Rightarrow> (w2, Inl (pipeline_error ''MODEL_UNAVAILABLE'' 504 st ''MODEL_TIMEOUT'' (plain (st @ '' deadline exceeded'')) True))
                      | CallFailed m \<Rightarrow> (w2, Inl (pipeline_error ''MODEL_UNAVAILABLE'' 503 st ''MODEL_UNAVAILABLE'' m True))
                      | Replied r \<Rightarrow> (case check_and_consume (vw_corr w2) cid st g of
                            (c', True) \<Rightarrow> (w2\<lparr>vw_corr := c'\<rparr>, Inr r)
                          | (c', False) \<Rightarrow> (w2\<lparr>vw_corr := c'\<rparr>,
                              Inl (pipeline_error ''CANCELED'' 499 st ''INFERENCE_CANCELLED'' (plain (st @ '' response stale'')) False))))"

definition map_asr_state :: "string \<Rightarrow> string" where
  "map_asr_state s = (if s = ''UNSUPPORTED_LANGUAGE'' then ''LANGUAGE_UNSUPPORTED'' else if s = ''AUDIO_UNAVAILABLE'' then ''AUDIO_UNAVAILABLE''
     else if s = ''TIMEOUT'' then ''MODEL_TIMEOUT'' else if s = ''UNAVAILABLE'' then ''MODEL_UNAVAILABLE''
     else if s = ''CANCELED'' then ''INFERENCE_CANCELLED'' else ''INTERNAL'')"

definition map_tts_state :: "string \<Rightarrow> string" where
  "map_tts_state s = (if s = ''UNSUPPORTED_LANGUAGE'' then ''LANGUAGE_UNSUPPORTED'' else if s = ''AUDIO_UNAVAILABLE'' then ''AUDIO_UNAVAILABLE''
     else if s = ''TIMEOUT'' then ''MODEL_TIMEOUT'' else if s = ''UNAVAILABLE'' then ''MODEL_UNAVAILABLE''
     else if s = ''CANCELED'' then ''INFERENCE_CANCELLED'' else ''INTERNAL'')"

definition bad_state :: "stage \<Rightarrow> (string \<Rightarrow> string) \<Rightarrow> string \<Rightarrow> pipeline_error" where
  "bad_state st code s = pipeline_error ''MODEL_UNAVAILABLE'' 503 st (code s) (plain s) True"

text \<open>A direct transcript claims and consumes its slot without a call; the byte count of audio is that of its base64 text.\<close>

definition stage_asr :: "voice_env \<Rightarrow> corr_id \<Rightarrow> string \<Rightarrow> pipeline_request \<Rightarrow> voice_world \<Rightarrow> voice_world \<times> (pipeline_error + asr_response)" where
  "stage_asr env cid transcript req w =
     (if pr_kind req = ''transcript'' then
        (let (c, g) = claim (vw_corr w) cid ''asr''
         in (w\<lparr>vw_corr := fst (check_and_consume (mark_inflight c cid ''asr'' g) cid ''asr'' g)\<rparr>,
             Inr \<lparr>ar_request = cid, ar_language = pr_language req, ar_text = transcript, ar_state = ''OK'', ar_model = [], ar_digest = []\<rparr>))
      else case call_worker env ''asr'' cid InAsr None
          (ve_asr env \<lparr>aq_request = cid, aq_language = pr_language req, aq_content_type = pr_content_type req, aq_audio = pr_body req,
             aq_bytes = length (pr_body req), aq_deadline = milliseconds (vl_asr_deadline (ve_limits env))\<rparr>) w of
        (w', Inl e) \<Rightarrow> (w', Inl e)
      | (w', Inr r) \<Rightarrow> (w', if ar_state r \<noteq> ''OK'' then Inl (bad_state ''asr'' map_asr_state (ar_state r)) else Inr r))"

definition stage_middle ::
  "voice_env \<Rightarrow> corr_id \<Rightarrow> scoped_context \<Rightarrow> asr_response \<Rightarrow> voice_world \<Rightarrow> voice_world \<times> (pipeline_error + middle_response)" where
  "stage_middle env cid sc asr w = call_worker env ''middle'' cid InMiddle None
     (ve_middle env \<lparr>mq_request = cid, mq_context = sc, mq_transcript = asr, mq_deadline = milliseconds (vl_middle_deadline (ve_limits env))\<rparr>) w"

section \<open>Template\<close>

definition template_error :: "string \<Rightarrow> int \<Rightarrow> string \<Rightarrow> msg \<Rightarrow> pipeline_error" where
  "template_error st status code why = pipeline_error st status ''template'' code why False"

definition unknown_template :: "string \<Rightarrow> pipeline_error" where
  "unknown_template why = template_error ''DATA_UNAVAILABLE'' 422 ''TEMPLATE_UNKNOWN'' (plain why)"

definition stale_template :: "string \<Rightarrow> int \<Rightarrow> int \<Rightarrow> pipeline_error" where
  "stale_template fmt got want = template_error ''DATA_UNAVAILABLE'' 409 ''STALE_VERSION'' (Fmt fmt [AInt got, AInt want])"

text \<open>
  The template of a key in a language: registered, not synthetic outside exercises, of the version and the
  source version of the context, with the approved digest of its text.
\<close>

definition approved_text :: "voice_env \<Rightarrow> scoped_context \<Rightarrow> string \<Rightarrow> string \<Rightarrow> pipeline_error + approved_template" where
  "approved_text env sc k l =
     (case registry_lookup (ve_registry env) k l of
        None \<Rightarrow> Inl (unknown_template ''template not registered for language'')
      | Some tpl \<Rightarrow> require (first_err
          [check (at_synthetic tpl \<and> \<not> ve_synthetic env) (unknown_template ''template is synthetic-only''),
           check (at_version tpl = 0 \<or> at_version tpl \<noteq> sc_template_version sc)
             (stale_template ''template version %d does not match active context %d'' (at_version tpl) (sc_template_version sc)),
           check (at_source_version tpl = 0 \<or> at_source_version tpl \<noteq> sc_source_version sc)
             (stale_template ''template source version %d does not match active context %d'' (at_source_version tpl) (sc_source_version sc)),
           (case template_digest sc k l of
              None \<Rightarrow> Some (unknown_template ''template digest not approved for language'')
            | Some h \<Rightarrow> check (tl_sha_hex (ve_template env) (at_text tpl) \<noteq> h) (unknown_template ''template digest mismatch''))]) tpl)"

definition stage_template :: "voice_env \<Rightarrow> scoped_context \<Rightarrow> model_output \<Rightarrow> pipeline_error + template_output" where
  "stage_template env sc out =
     (case speaks out of
        None \<Rightarrow> Inr no_template
      | Some k \<Rightarrow>
          if \<not> is_speech_key_approved sc k (mo_language out) then Inl (unknown_template ''template key not approved for language'')
          else bind_res (approved_text env sc k (mo_language out)) (\<lambda>tpl.
            bind_res (require (if at_schema tpl = None then None
                else map_option (template_error ''DATA_UNAVAILABLE'' 422 ''VALIDATION_FAILED'') (validate_args_against_schema (ve_template env) out tpl)) ()) (\<lambda>_.
            (case render_template tpl (args_for_template out) of
               Inl m \<Rightarrow> Inl (template_error ''DATA_UNAVAILABLE'' 422 ''VALIDATION_FAILED'' m)
             | Inr txt \<Rightarrow> (case ve_cancelled env ''template'' of
                 Some m \<Rightarrow> Inl (template_error ''CANCELED'' 499 ''INFERENCE_CANCELLED'' m)
               | None \<Rightarrow> Inr \<lparr>to_key = k, to_version = at_version tpl, to_source_version = at_source_version tpl,
                   to_text = txt, to_args = args_for_template out\<rparr>)))))"

section \<open>Speech\<close>

definition tts_error :: "string \<Rightarrow> pipeline_error" where
  "tts_error why = pipeline_error ''MODEL_UNAVAILABLE'' 500 ''tts'' ''INTERNAL'' (plain why) False"

definition request_settings :: audio_settings where
  "request_settings = \<lparr>as_rate = 16000, as_depth = 16, as_channels = 1, as_speaking = FNum 0 0\<rparr>"

definition zero_settings :: "audio_settings \<Rightarrow> bool" where
  "zero_settings s \<longleftrightarrow> as_rate s = 0 \<and> as_depth s = 0 \<and> as_channels s = 0 \<and> f_eq (as_speaking s) (FNum 0 0)"

definition settings_match :: "audio_settings \<Rightarrow> wav_header \<Rightarrow> bool" where
  "settings_match s h \<longleftrightarrow> as_rate s = int (wh_rate h) \<and> as_depth s = int (wh_depth h) \<and> as_channels s = int (wh_channels h)"

text \<open>The bytes of the reply, when they decode and have the checksum that the reply declares.\<close>

definition checked_audio :: "voice_env \<Rightarrow> tts_response \<Rightarrow> pipeline_error + string" where
  "checked_audio env r =
     (if ts_state r \<noteq> ''OK'' then Inl (bad_state ''tts'' map_tts_state (ts_state r))
      else case ve_b64 env (ts_b64 r) of
        None \<Rightarrow> Inl (tts_error ''tts audio base64 invalid'')
      | Some bytes \<Rightarrow> if tl_sha_hex (ve_template env) bytes \<noteq> ts_checksum r then Inl (tts_error ''tts checksum mismatch'') else Inr bytes)"

definition effective_settings :: "tts_response \<Rightarrow> audio_settings" where
  "effective_settings r = (if zero_settings (ts_settings r) then request_settings else ts_settings r)"

definition wav_text :: "wav_error \<Rightarrow> string" where
  "wav_text e = (case e of
       ShortHeader \<Rightarrow> ''wav: header too short'' | NotWav \<Rightarrow> ''wav: missing RIFF/WAVE/fmt magic''
     | UnsupportedFormat \<Rightarrow> ''wav: only PCM (format=1) is accepted'' | UnsupportedDepth \<Rightarrow> ''wav: only 16-bit PCM is accepted''
     | ZeroField \<Rightarrow> ''wav: rate / channels / depth must be > 0'' | MissingData \<Rightarrow> ''wav: data chunk missing''
     | BadLength \<Rightarrow> ''wav: declared length inconsistent with bytes'')"

definition audio_of :: "voice_env \<Rightarrow> template_output \<Rightarrow> string \<Rightarrow> tts_response \<Rightarrow> pipeline_error + pipeline_audio" where
  "audio_of env tpl l r = bind_res (checked_audio env r) (\<lambda>bytes.
     (case read_wav_header bytes of
        Inl e \<Rightarrow> Inl (tts_error (''tts audio: '' @ wav_text e))
      | Inr h \<Rightarrow>
          if \<not> settings_match (effective_settings r) h then Inl (tts_error ''tts audio declared settings do not match RIFF header'')
          else Inr \<lparr>pa_content_type = ts_content_type r, pa_bytes = length bytes, pa_checksum = tl_sha_hex (ve_template env) bytes,
            pa_language = l, pa_model = ts_model r, pa_voice = ts_voice r, pa_version = to_version tpl, pa_source_version = to_source_version tpl,
            pa_settings = effective_settings r, pa_b64 = ts_b64 r\<rparr>))"

definition tts_request_of :: "voice_env \<Rightarrow> corr_id \<Rightarrow> template_output \<Rightarrow> string \<Rightarrow> string \<Rightarrow> tts_request" where
  "tts_request_of env cid tpl l h = \<lparr>tq_request = cid, tq_key = to_key tpl, tq_language = l, tq_text = to_text tpl,
     tq_source_version = to_source_version tpl, tq_version = to_version tpl, tq_sha = h, tq_settings = request_settings,
     tq_deadline = milliseconds (vl_tts_deadline (ve_limits env))\<rparr>"

text \<open>The language is that of the request.\<close>

definition stage_tts ::
  "voice_env \<Rightarrow> corr_id \<Rightarrow> scoped_context \<Rightarrow> template_output \<Rightarrow> string \<Rightarrow> voice_world \<Rightarrow> voice_world \<times> (pipeline_error + pipeline_audio)" where
  "stage_tts env cid sc tpl l w =
     (let digest = template_digest sc (to_key tpl) l;
          missing = (if digest = None then Some (template_error ''DATA_UNAVAILABLE'' 422 ''VALIDATION_FAILED'' (plain ''missing language-bound template digest'')) else None)
      in case call_worker env ''tts'' cid InTts missing (ve_tts env (tts_request_of env cid tpl l (the digest))) w of
           (w', Inl e) \<Rightarrow> (w', Inl e)
         | (w', Inr r) \<Rightarrow> (w', audio_of env tpl l r))"

section \<open>The run\<close>

type_synonym voice_result = "voice_world \<times> pipeline_output \<times> pipeline_error option"

definition failed :: "corr_id \<Rightarrow> string \<Rightarrow> pipeline_error \<Rightarrow> pipeline_output \<times> pipeline_error option" where
  "failed cid dv e = (\<lparr>po_request = cid, po_data_version = dv, po_state = pe_state e, po_proposal = None, po_template = no_template,
     po_audio = None, po_failures = pe_failures e\<rparr>, Some e)"

definition map_model_status :: "string \<Rightarrow> string" where
  "map_model_status s = (if s \<in> {''OK'', ''CLARIFY'', ''UNSUPPORTED''} then s else if s = ''ERROR'' then ''MODEL_UNAVAILABLE'' else ''DATA_UNAVAILABLE'')"

definition voice_answer ::
  "corr_id \<Rightarrow> scoped_context \<Rightarrow> model_output \<Rightarrow> template_output \<Rightarrow> pipeline_audio option \<Rightarrow> stage_failure list \<Rightarrow> pipeline_output" where
  "voice_answer cid sc out tpl audio fs = \<lparr>po_request = cid, po_data_version = sc_data_version sc, po_state = map_model_status (mo_status out),
     po_proposal = Some out, po_template = tpl, po_audio = audio, po_failures = fs\<rparr>"

text \<open>The template, or the failure that leaves only the key.\<close>

definition template_or_failure :: "voice_env \<Rightarrow> scoped_context \<Rightarrow> model_output \<Rightarrow> template_output \<times> stage_failure list" where
  "template_or_failure env sc out =
     (case stage_template env sc out of
        Inr tpl \<Rightarrow> (tpl, [])
      | Inl e \<Rightarrow> (no_template\<lparr>to_key := the (mo_speech_key out)\<rparr>, pe_failures e))"

definition stale_after_tts :: "corr_id \<Rightarrow> scoped_context \<Rightarrow> stage_failure list \<Rightarrow> st_error \<Rightarrow> pipeline_output \<times> pipeline_error option" where
  "stale_after_tts cid sc fs e =
     (\<lparr>po_request = cid, po_data_version = sc_data_version sc, po_state = ''DATA_UNAVAILABLE'', po_proposal = None, po_template = no_template,
       po_audio = None, po_failures = fs @ pe_failures (stale_error e)\<rparr>, Some (stale_error e))"

definition speak :: "voice_env \<Rightarrow> corr_id \<Rightarrow> pipeline_request \<Rightarrow> scoped_context \<Rightarrow> model_output \<Rightarrow> voice_world \<Rightarrow> voice_result" where
  "speak env cid req sc out w =
     (let (tpl, fs) = template_or_failure env sc out
      in if pr_render req = ''tts'' \<and> to_text tpl \<noteq> []
         then (case stage_tts env cid sc tpl (pr_language req) w of
             (w1, Inl e) \<Rightarrow> (case revalidate_at env BeforeDelivery sc w1 of
                 (w2, Some s) \<Rightarrow> (w2, stale_after_tts cid sc (fs @ pe_failures e) s)
               | (w2, None) \<Rightarrow> (w2, voice_answer cid sc out tpl None (fs @ pe_failures e), None))
           | (w1, Inr audio) \<Rightarrow> (case revalidate_at env BeforeDelivery sc w1 of
                 (w2, Some s) \<Rightarrow> (w2, stale_after_tts cid sc fs s)
               | (w2, None) \<Rightarrow> (w2, voice_answer cid sc out tpl (Some audio) fs, None)))
         else (w, voice_answer cid sc out tpl None fs, None))"

definition rejected :: "msg \<Rightarrow> pipeline_error" where
  "rejected m = pipeline_error ''MODEL_UNAVAILABLE'' 422 ''validator'' ''VALIDATION_FAILED'' (Fmt ''validator: %s'' [AMsg m]) False"

definition after_proposal :: "voice_env \<Rightarrow> corr_id \<Rightarrow> pipeline_request \<Rightarrow> scoped_context \<Rightarrow> model_output \<Rightarrow> voice_world \<Rightarrow> voice_result" where
  "after_proposal env cid req sc out w =
     (case first_err [validate_proposal out sc cid, enforce_scoped_context out sc] of
        Some m \<Rightarrow> (w, failed cid (sc_data_version sc) (rejected m))
      | None \<Rightarrow> (case revalidate_at env BeforeRevalidation sc w of
          (w1, Some e) \<Rightarrow> (w1, failed cid (sc_data_version sc) (stale_error e))
        | (w1, None) \<Rightarrow> speak env cid req sc out w1))"

text \<open>Silence is answered with CLARIFY and no action.\<close>

definition silent_proposal :: "corr_id \<Rightarrow> pipeline_request \<Rightarrow> scoped_context \<Rightarrow> model_output" where
  "silent_proposal cid req sc = \<lparr>mo_schema = model_schema_version, mo_request = cid, mo_data_version = sc_data_version sc,
     mo_status = ''CLARIFY'', mo_intent = None, mo_language = pr_language req, mo_actions = [], mo_speech_key = None,
     mo_clarifications = [], mo_evidence = []\<rparr>"

definition in_context :: "voice_env \<Rightarrow> corr_id \<Rightarrow> string \<Rightarrow> pipeline_request \<Rightarrow> scoped_context \<Rightarrow> voice_world \<Rightarrow> voice_result" where
  "in_context env cid transcript req sc w =
     (if \<not> is_language_allowed sc (pr_language req)
      then (w, failed cid (sc_data_version sc)
        (pipeline_error ''UNSUPPORTED'' 422 ''context'' ''LANGUAGE_UNSUPPORTED'' (plain ''language not in active context'') False))
      else case stage_asr env cid transcript req w of
        (w1, Inl e) \<Rightarrow> (w1, failed cid (sc_data_version sc) e)
      | (w1, Inr asr) \<Rightarrow>
          if trim_space (ar_text asr) = [] then (w1, voice_answer cid sc (silent_proposal cid req sc) no_template None [], None)
          else (case stage_middle env cid sc asr w1 of
              (w2, Inl e) \<Rightarrow> (w2, failed cid (sc_data_version sc) e)
            | (w2, Inr r) \<Rightarrow> after_proposal env cid req sc (mr_proposal r) w2))"

definition process_voice :: "voice_env \<Rightarrow> pipeline_request \<Rightarrow> string \<Rightarrow> voice_world \<Rightarrow> voice_result" where
  "process_voice env req raw w =
     (let cid = (if pr_request req = [] then ve_new_id env else pr_request req)
      in case request_shape env raw of
           Some e \<Rightarrow> (w, failed cid [] e)
         | None \<Rightarrow> (case stage_audio env req of
             Inl e \<Rightarrow> (w, failed cid [] e)
           | Inr transcript \<Rightarrow> (case stage_context env (pr_jurisdiction req) w of
               (w1, Inl e) \<Rightarrow> (w1, failed cid [] e)
             | (w1, Inr sc) \<Rightarrow> in_context env cid transcript req sc w1)))"

section \<open>Transcription and speech on their own\<close>

text \<open>
  The transcript of raw audio: confidence and alternatives pass through and are left out. The second
  component of the answer is its data version, which the code fills with the request of the reply.
\<close>

definition transcribe ::
  "voice_env \<Rightarrow> string \<Rightarrow> string \<Rightarrow> string \<Rightarrow> string \<Rightarrow> voice_world \<Rightarrow> voice_world \<times> (pipeline_error + corr_id \<times> string \<times> asr_response)" where
  "transcribe env rid l ct raw w =
     (if \<not> is_supported_content_type env ct
      then (w, Inl (pipeline_error ''UNSUPPORTED'' 415 ''asr'' ''UNSUPPORTED_MEDIA_TYPE'' (plain ''audio content type not allowed'') False))
      else if l = [] then (w, Inl (pipeline_error ''UNSUPPORTED'' 400 ''asr'' ''INVALID_VALUE'' (plain ''language is required'') False))
      else if vl_max_audio (ve_limits env) < int (length raw)
      then (w, Inl (pipeline_error ''UNSUPPORTED'' 413 ''asr'' ''BODY_TOO_LARGE'' (plain ''audio exceeds compressed size limit'') False))
      else let cid = (if rid = [] then ve_new_id env else rid)
        in case call_worker env ''asr'' cid InAsr None
            (ve_asr env \<lparr>aq_request = cid, aq_language = l, aq_content_type = ct, aq_audio = ve_b64_encode env raw,
               aq_bytes = length raw, aq_deadline = milliseconds (vl_asr_deadline (ve_limits env))\<rparr>) w of
             (w', Inl e) \<Rightarrow> (w', Inl e)
           | (w', Inr r) \<Rightarrow> (w', if ar_state r \<noteq> ''OK'' then Inl (bad_state ''asr'' map_asr_state (ar_state r)) else Inr (cid, ar_request r, r)))"

record speech_request =
  sr_request :: string
  sr_jurisdiction :: string
  sr_key :: string
  sr_language :: string
  sr_args :: "(string \<times> arg_value) list"
  sr_source_version :: int
  sr_settings :: audio_settings

definition speech_input_error :: "speech_request \<Rightarrow> pipeline_error option" where
  "speech_input_error req = first_err
     [check (sr_jurisdiction req = []) (pipeline_error ''UNSUPPORTED'' 400 ''context'' ''INVALID_VALUE'' (plain ''jurisdiction is required'') False),
      check (sr_key req = []) (template_error ''UNSUPPORTED'' 400 ''INVALID_VALUE'' (plain ''speech_key is required'')),
      check (sr_language req = []) (template_error ''UNSUPPORTED'' 400 ''INVALID_VALUE'' (plain ''language is required'')),
      check (sr_source_version req \<le> 0) (pipeline_error ''UNSUPPORTED'' 400 ''context'' ''INVALID_VALUE'' (plain ''source_version must be a positive integer'') False)]"

text \<open>Only a text under a name of an identifier is compared with the context.\<close>

definition unknown_arg :: "scoped_context \<Rightarrow> string \<times> arg_value \<Rightarrow> pipeline_error option" where
  "unknown_arg sc = (\<lambda>(k, v). case v of
       AVText s \<Rightarrow> check (s \<noteq> [] \<and> (has_suffix k ''_id'' \<or> k = ''target'' \<or> k = ''place'') \<and> \<not> is_known_id sc s)
         (template_error ''DATA_UNAVAILABLE'' 422 ''VALIDATION_FAILED'' (Fmt ''arg %q value %q is not known to active context'' [AStr k, AStr s]))
     | _ \<Rightarrow> None)"

definition speech_text :: "voice_env \<Rightarrow> scoped_context \<Rightarrow> speech_request \<Rightarrow> pipeline_error + approved_template \<times> string" where
  "speech_text env sc req =
     (if \<not> is_speech_key_approved sc (sr_key req) (sr_language req)
      then Inl (unknown_template ''template key not approved for language in jurisdiction'')
      else if \<not> is_language_allowed sc (sr_language req)
      then Inl (pipeline_error ''UNSUPPORTED'' 422 ''context'' ''LANGUAGE_UNSUPPORTED'' (plain ''language not in active context'') False)
      else bind_res (approved_text env sc (sr_key req) (sr_language req)) (\<lambda>tpl.
        bind_res (require (each_err (unknown_arg sc) (sr_args req)) ()) (\<lambda>_.
          (case render_template_args (ve_template env) tpl (sr_args req) of
             Inl m \<Rightarrow> Inl (template_error ''DATA_UNAVAILABLE'' 422 ''VALIDATION_FAILED'' m)
           | Inr txt \<Rightarrow> Inr (tpl, txt)))))"

record speech_response =
  so_request :: string
  so_key :: string
  so_language :: string
  so_source_version :: int
  so_version :: int
  so_model :: string
  so_voice :: string
  so_checksum :: string
  so_content_type :: string
  so_bytes :: nat
  so_settings :: audio_settings
  so_b64 :: string

definition speech_answer :: "voice_env \<Rightarrow> corr_id \<Rightarrow> speech_request \<Rightarrow> approved_template \<Rightarrow> tts_response \<Rightarrow> string \<Rightarrow> speech_response" where
  "speech_answer env cid req tpl r bytes = \<lparr>so_request = cid, so_key = sr_key req, so_language = sr_language req,
     so_source_version = sr_source_version req, so_version = at_version tpl, so_model = ts_model r, so_voice = ts_voice r,
     so_checksum = tl_sha_hex (ve_template env) bytes, so_content_type = ts_content_type r, so_bytes = length bytes,
     so_settings = sr_settings req, so_b64 = ts_b64 r\<rparr>"

definition speech_call :: "voice_env \<Rightarrow> scoped_context \<Rightarrow> speech_request \<Rightarrow> approved_template \<Rightarrow> string \<Rightarrow> voice_world \<Rightarrow> voice_world \<times> (pipeline_error + speech_response)" where
  "speech_call env sc req tpl txt w =
     (let cid = (if sr_request req = [] then ve_new_id env else sr_request req)
      in case call_worker env ''tts'' cid InTts None
          (ve_tts env \<lparr>tq_request = cid, tq_key = sr_key req, tq_language = sr_language req, tq_text = txt, tq_source_version = sr_source_version req,
             tq_version = at_version tpl, tq_sha = the (template_digest sc (sr_key req) (sr_language req)), tq_settings = sr_settings req,
             tq_deadline = milliseconds (vl_tts_deadline (ve_limits env))\<rparr>) w of
           (w1, Inl e) \<Rightarrow> (w1, Inl e)
         | (w1, Inr r) \<Rightarrow> (case checked_audio env r of
             Inl e \<Rightarrow> (w1, Inl e)
           | Inr bytes \<Rightarrow> (case revalidate_at env BeforeDelivery sc w1 of
               (w2, Some e) \<Rightarrow> (w2, Inl (stale_error e))
             | (w2, None) \<Rightarrow> (w2, Inr (speech_answer env cid req tpl r bytes)))))"

definition synthesize_speech :: "voice_env \<Rightarrow> speech_request \<Rightarrow> string \<Rightarrow> voice_world \<Rightarrow> voice_world \<times> (pipeline_error + speech_response)" where
  "synthesize_speech env req raw w =
     (case speech_input_error req of
        Some e \<Rightarrow> (w, Inl e)
      | None \<Rightarrow>
          if raw \<noteq> [] \<and> vj_object (ve_json env) raw = None
          then (w, Inl (pipeline_error ''MODEL_UNAVAILABLE'' 422 ''validator'' ''VALIDATION_FAILED'' (plain ''invalid JSON'') False))
          else (case stage_context env (sr_jurisdiction req) w of
              (w1, Inl e) \<Rightarrow> (w1, Inl e)
            | (w1, Inr sc) \<Rightarrow>
                if sr_source_version req \<noteq> sc_source_version sc
                then (w1, Inl (pipeline_error ''DATA_UNAVAILABLE'' 409 ''context'' ''STALE_VERSION'' (plain ''source_version is stale'') False))
                else (case revalidate_at env BeforeRevalidation sc w1 of
                    (w2, Some e) \<Rightarrow> (w2, Inl (stale_error e))
                  | (w2, None) \<Rightarrow> (case speech_text env sc req of
                      Inl e \<Rightarrow> (w2, Inl e)
                    | Inr (tpl, txt) \<Rightarrow> speech_call env sc req tpl txt w2))))"

section \<open>What an answer rests on\<close>

definition live :: "voice_env \<Rightarrow> scoped_context \<Rightarrow> voice_world \<Rightarrow> bool" where
  "live env sc w \<longleftrightarrow> snapshot_revalidate (ve_context env) (vw_store w) sc (vw_now w) = None"

lemma revalidate_at_None: "revalidate_at env p sc w = (w', None) \<Longrightarrow> live env sc w'"
  by (auto simp: revalidate_at_def live_def Let_def)

lemma call_worker_replied: "call_worker env st cid p pre reply w = (w', Inr r) \<Longrightarrow> reply = Replied r \<and> pre = None"
  by (auto simp: call_worker_def Let_def split: admission.splits if_splits option.splits worker_reply.splits prod.splits bool.splits)

lemma approved_text_Inr:
  "approved_text env sc k l = Inr tpl \<Longrightarrow> registry_lookup (ve_registry env) k l = Some tpl \<and> (at_synthetic tpl \<longrightarrow> ve_synthetic env)
     \<and> at_version tpl = sc_template_version sc \<and> at_source_version tpl = sc_source_version sc \<and> at_source_version tpl \<noteq> 0
     \<and> template_digest sc k l = Some (tl_sha_hex (ve_template env) (at_text tpl))"
  by (auto simp: approved_text_def check_simps split: option.splits)

text \<open>
  The text of a template output is an approved one: the registered template of the key in the language of the
  proposal, whose digest has an active approval, with placeholders filled by identifiers of the proposal.
\<close>

definition text_from :: "voice_env \<Rightarrow> scoped_context \<Rightarrow> string \<Rightarrow> string \<Rightarrow> (string \<times> string) set \<Rightarrow> string \<Rightarrow> approved_template \<Rightarrow> bool" where
  "text_from env sc k l args txt tpl \<longleftrightarrow> registry_lookup (ve_registry env) k l = Some tpl \<and> (at_synthetic tpl \<longrightarrow> ve_synthetic env)
     \<and> at_source_version tpl = sc_source_version sc \<and> template_digest sc k l = Some (tl_sha_hex (ve_template env) (at_text tpl))
     \<and> (fill_step args)\<^sup>*\<^sup>* (at_text tpl) txt \<and> \<not> has_brace txt"

definition approved_speech :: "voice_env \<Rightarrow> voice_world \<Rightarrow> scoped_context \<Rightarrow> string \<Rightarrow> string \<Rightarrow> (string \<times> string) set \<Rightarrow> string \<Rightarrow> bool" where
  "approved_speech env w sc k l args txt \<longleftrightarrow> (\<exists>tpl. text_from env sc k l args txt tpl
     \<and> approved_now (vw_store w) (sc_jurisdiction sc) (sc_source_version sc) (sc_source sc) (vw_now w) (k, l, tl_sha_hex (ve_template env) (at_text tpl)))"

lemma text_live: "text_from env sc k l args txt tpl \<Longrightarrow> live env sc w \<Longrightarrow> approved_speech env w sc k l args txt"
  unfolding approved_speech_def live_def using revalidated_texts by (auto simp: text_from_def)

lemma stage_template_text:
  assumes "stage_template env sc out = Inr t" "to_text t \<noteq> []"
  shows "\<exists>tpl. text_from env sc (to_key t) (mo_language out) (set (args_for_template out)) (to_text t) tpl"
  using assms
  by (auto simp: stage_template_def no_template_def bind_res_Inr text_from_def
      dest!: approved_text_Inr render_template_fills split: option.splits if_splits sum.splits)

lemma template_or_failure_text:
  "to_text (fst (template_or_failure env sc out)) \<noteq> [] \<Longrightarrow>
     \<exists>tpl. text_from env sc (to_key (fst (template_or_failure env sc out))) (mo_language out) (set (args_for_template out))
       (to_text (fst (template_or_failure env sc out))) tpl"
  using stage_template_text by (fastforce simp: template_or_failure_def no_template_def split: sum.splits)

lemma speak_ok:
  assumes "speak env cid req sc out w = (w', po, None)" "live env sc w"
  shows "live env sc w' \<and> po_proposal po = Some out \<and> po_request po = cid \<and> po_template po = fst (template_or_failure env sc out)"
  using assms
  by (auto simp: speak_def voice_answer_def stale_after_tts_def Let_def dest: revalidate_at_None
      split: prod.splits sum.splits option.splits if_splits)

lemma after_proposal_ok:
  assumes "after_proposal env cid req sc out w = (w', po, None)"
  shows "live env sc w' \<and> sound_proposal sc cid out \<and> po_proposal po = Some out \<and> po_request po = cid
    \<and> po_template po = fst (template_or_failure env sc out)"
proof -
  obtain w1 where "validate_proposal out sc cid = None \<and> enforce_scoped_context out sc = None"
    and "revalidate_at env BeforeRevalidation sc w = (w1, None)" and "speak env cid req sc out w1 = (w', po, None)"
    using assms by (auto simp: after_proposal_def failed_def check_simps split: option.splits prod.splits)
  then show ?thesis
    using speak_ok revalidate_at_None accepted_iff by blast
qed

lemma in_context_ok:
  assumes "in_context env cid tr req sc w = (w', po, None)" "po_proposal po = Some p"
  shows "p = silent_proposal cid req sc \<and> to_text (po_template po) = [] \<or>
    live env sc w' \<and> sound_proposal sc cid p \<and> po_request po = cid \<and> po_template po = fst (template_or_failure env sc p)"
  using assms
  by (auto simp: in_context_def failed_def voice_answer_def no_template_def split: if_splits prod.splits sum.splits dest: after_proposal_ok)

lemma stage_context_ok:
  "stage_context env jur w = (w', Inr sc) \<Longrightarrow> resolve_scoped (ve_context env) (vw_store (ve_others env AtStart w)) (vw_now (ve_others env AtStart w))
     (vw_store (ve_others env BetweenReads (ve_others env AtStart w))) (vw_now (ve_others env BetweenReads (ve_others env AtStart w))) jur = Inr sc"
  by (auto simp: stage_context_def Let_def split: if_splits sum.splits)

lemma process_voice_in_context:
  assumes "process_voice env req raw w = (w', po, None)"
  obtains sc w1 tr where "stage_context env (pr_jurisdiction req) w = (w1, Inr sc)"
    "in_context env (if pr_request req = [] then ve_new_id env else pr_request req) tr req sc w1 = (w', po, None)"
  using assms unfolding process_voice_def Let_def
  by (auto simp: failed_def split: option.splits sum.splits prod.splits)

text \<open>C5: 
  C00: whatever the model proposes and whatever happens to the database meanwhile, an answer with actions or with a
  text to speak rests on a context that was resolved for the jurisdiction in this run and is live when the answer is
  given: its package is current, the proposal is sound in it, and the text is the approved template of its
  key, filled with identifiers of the proposal, whose approval is in force at that instant.
\<close>

theorem voice_answer_safe:
  assumes "process_voice env req raw w = (w', po, None)" and "po_proposal po = Some p"
    and "mo_actions p \<noteq> [] \<or> to_text (po_template po) \<noteq> []"
  shows "\<exists>sc. resolve_scoped (ve_context env) (vw_store (ve_others env AtStart w)) (vw_now (ve_others env AtStart w))
       (vw_store (ve_others env BetweenReads (ve_others env AtStart w))) (vw_now (ve_others env BetweenReads (ve_others env AtStart w)))
       (pr_jurisdiction req) = Inr sc
    \<and> sound_proposal sc (po_request po) p \<and> current_at (vw_store w') (vw_now w') sc
    \<and> (to_text (po_template po) \<noteq> [] \<longrightarrow>
        approved_speech env w' sc (to_key (po_template po)) (mo_language p) (set (args_for_template p)) (to_text (po_template po)))"
proof -
  obtain sc w1 tr cid where sc: "stage_context env (pr_jurisdiction req) w = (w1, Inr sc)" and c: "in_context env cid tr req sc w1 = (w', po, None)"
    using assms(1) by (rule process_voice_in_context)
  have s: "live env sc w' \<and> sound_proposal sc cid p \<and> po_request po = cid \<and> po_template po = fst (template_or_failure env sc p)"
    using in_context_ok [OF c assms(2)] assms(3) by (auto simp: silent_proposal_def)
  have "approved_speech env w' sc (to_key (po_template po)) (mo_language p) (set (args_for_template p)) (to_text (po_template po))"
    if "to_text (po_template po) \<noteq> []"
    using template_or_failure_text [of env sc p] text_live s that by auto
  moreover have "current_at (vw_store w') (vw_now w') sc"
    using s revalidated_current by (auto simp: live_def)
  ultimately show ?thesis using stage_context_ok [OF sc] s by blast
qed

text \<open>A reply whose slot is no longer in flight is dropped, whatever it says.\<close>

lemma late_reply_dropped:
  assumes "claim (vw_corr (ve_others env (Queued st) w)) cid st = (c, g)"
    and "slot (vw_corr (ve_others env p ((ve_others env (Queued st) w)\<lparr>vw_corr := mark_inflight c cid st g\<rparr>))) cid st \<noteq> Some g"
  shows "\<exists>w' e. call_worker env st cid p None reply w = (w', Inl e)"
  using assms check_result
  by (fastforce simp: call_worker_def Let_def split: admission.splits worker_reply.splits prod.splits bool.splits)

text \<open>Speech on request: what the worker is given is an approved text, and the audio is the one it sent.\<close>

lemma checked_audio_Inr:
  "checked_audio env r = Inr bytes \<Longrightarrow> ve_b64 env (ts_b64 r) = Some bytes \<and> tl_sha_hex (ve_template env) bytes = ts_checksum r \<and> ts_state r = ''OK''"
  by (auto simp: checked_audio_def split: if_splits option.splits)

definition filled_args :: "voice_env \<Rightarrow> speech_request \<Rightarrow> (string \<times> string) set" where
  "filled_args env req = (\<lambda>(k, v). (k, arg_value_string (ve_template env) v)) ` set (sr_args req)"

lemma case_sum_Inr: "(case r of Inl m \<Rightarrow> Inl (f m) | Inr t \<Rightarrow> Inr (g t)) = Inr y \<longleftrightarrow> (\<exists>t. r = Inr t \<and> g t = y)"
  by (cases r) auto

lemma speech_text_from:
  assumes "speech_text env sc req = Inr (tpl, txt)"
  shows "text_from env sc (sr_key req) (sr_language req) (filled_args env req) txt tpl"
proof -
  have "approved_text env sc (sr_key req) (sr_language req) = Inr tpl" and r: "render_template_args (ve_template env) tpl (sr_args req) = Inr txt"
    using assms by (auto simp: speech_text_def bind_res_Inr case_sum_Inr split: if_splits)
  moreover have "render_speech (ve_template env) (at_text tpl) (sr_args req) = Inr txt"
    using r by (auto simp: render_template_args_def bind_res_Inr)
  ultimately show ?thesis
    using approved_text_Inr render_speech_fills unfolding text_from_def filled_args_def by blast
qed

lemma speech_call_ok:
  assumes "speech_call env sc req tpl txt w = (w', Inr resp)"
  obtains tq r bytes where "ve_tts env tq = Replied r" "tq_text tq = txt" "tq_key tq = sr_key req" "tq_language tq = sr_language req"
    "ve_b64 env (so_b64 resp) = Some bytes" "so_checksum resp = tl_sha_hex (ve_template env) bytes" "so_b64 resp = ts_b64 r" "live env sc w'"
    "so_source_version resp = sr_source_version req"
  using assms unfolding speech_call_def Let_def
  by (auto simp: speech_answer_def split: prod.splits sum.splits option.splits dest!: call_worker_replied checked_audio_Inr revalidate_at_None)

text \<open>C17: 
  C00: speech on request speaks approved text only: the worker was given the approved template of the key and language, filled with
  the arguments of the request, under a context that is live when the answer is given, for the source version that was asked for;
  and the bytes of the answer are those the worker sent, under their own checksum.
\<close>

theorem spoken_was_approved:
  assumes "synthesize_speech env req raw w = (w', Inr resp)"
  shows "\<exists>sc txt tq r bytes. resolve_scoped (ve_context env) (vw_store (ve_others env AtStart w)) (vw_now (ve_others env AtStart w))
       (vw_store (ve_others env BetweenReads (ve_others env AtStart w))) (vw_now (ve_others env BetweenReads (ve_others env AtStart w)))
       (sr_jurisdiction req) = Inr sc
    \<and> current_at (vw_store w') (vw_now w') sc \<and> sc_source_version sc = sr_source_version req
    \<and> approved_speech env w' sc (sr_key req) (sr_language req) (filled_args env req) txt
    \<and> tq_text tq = txt \<and> tq_language tq = sr_language req \<and> ve_tts env tq = Replied r \<and> so_b64 resp = ts_b64 r
    \<and> ve_b64 env (so_b64 resp) = Some bytes \<and> so_checksum resp = tl_sha_hex (ve_template env) bytes"
proof -
  obtain sc w1 w2 tpl t where sc: "stage_context env (sr_jurisdiction req) w = (w1, Inr sc)" "sr_source_version req = sc_source_version sc"
    and st: "speech_text env sc req = Inr (tpl, t)" and call: "speech_call env sc req tpl t w2 = (w', Inr resp)"
    using assms by (auto simp: synthesize_speech_def split: option.splits if_splits prod.splits sum.splits)
  from call obtain tq r bytes where "ve_tts env tq = Replied r" "tq_text tq = t" "tq_language tq = sr_language req"
    "ve_b64 env (so_b64 resp) = Some bytes" "so_checksum resp = tl_sha_hex (ve_template env) bytes" "so_b64 resp = ts_b64 r" and l: "live env sc w'"
    by (rule speech_call_ok)
  moreover have "approved_speech env w' sc (sr_key req) (sr_language req) (filled_args env req) t"
    using text_live [OF speech_text_from [OF st] l] .
  moreover have "current_at (vw_store w') (vw_now w') sc"
    using l revalidated_current by (auto simp: live_def)
  ultimately show ?thesis using stage_context_ok [OF sc(1)] sc(2) by (intro exI conjI) auto
qed

section \<open>A run\<close>

text \<open>An empty PCM file: 16 kHz, 16 bits, one channel, no sample.\<close>

definition demo_wav :: string where
  "demo_wav = ''RIFF'' @ [CHR 0x24, CHR 0x00, CHR 0x00, CHR 0x00] @ ''WAVEfmt '' @ [CHR 0x10, CHR 0x00, CHR 0x00, CHR 0x00,
     CHR 0x01, CHR 0x00, CHR 0x01, CHR 0x00, CHR 0x80, CHR 0x3E, CHR 0x00, CHR 0x00, CHR 0x00, CHR 0x7D, CHR 0x00, CHR 0x00,
     CHR 0x02, CHR 0x00, CHR 0x10, CHR 0x00] @ ''data'' @ [CHR 0x00, CHR 0x00, CHR 0x00, CHR 0x00]"

definition demo_proposal :: "string \<Rightarrow> model_output" where
  "demo_proposal l = \<lparr>mo_schema = ''3.0'', mo_request = ''q'', mo_data_version = ''p:1'', mo_status = ''OK'', mo_intent = Some ''LIST_DESTINATIONS'',
     mo_language = l, mo_actions = [\<lparr>ac_type = ''SHOW_CHOICES'', ac_target = [], ac_targets = [''f'', ''g''], ac_route = [], ac_panel = [],
       ac_direction = [], ac_steps = 0, ac_language = [], ac_layer = [], ac_visible = None\<rparr>],
     mo_speech_key = Some ''welcome'', mo_clarifications = [], mo_evidence = []\<rparr>"

definition demo_template :: "string \<Rightarrow> string \<Rightarrow> approved_template" where
  "demo_template l t = \<lparr>at_key = ''welcome'', at_language = l, at_version = 1, at_source_version = 1, at_text = t,
     at_schema = Some (SchemaTexts [(''facility_id_0'', ''string'')]), at_synthetic = False, at_sha = ''h''\<rparr>"

definition demo_reply :: tts_response where
  "demo_reply = \<lparr>ts_state = ''OK'', ts_b64 = demo_wav, ts_content_type = ''audio/wav'', ts_checksum = ''h'', ts_model = ''m'', ts_voice = ''v'',
     ts_settings = request_settings\<rparr>"

definition demo_env :: "string \<Rightarrow> voice_env" where
  "demo_env l = \<lparr>ve_context = demo_voice_lib, ve_template = \<lparr>tl_sha_hex = (\<lambda>_. ''h''), tl_scan_int = (\<lambda>_. None), tl_show = (\<lambda>_. []), tl_float = (\<lambda>_. [])\<rparr>,
     ve_json = \<lparr>vj_object = (\<lambda>_. Some []), vj_output = (\<lambda>_. None), vj_string = (\<lambda>_. None), vj_objects = (\<lambda>_. None)\<rparr>,
     ve_tokens = (\<lambda>_. [TObj, TObjEnd]), ve_decode = (\<lambda>_. TdOk NoTrailing), ve_b64 = Some, ve_b64_encode = id, ve_mime = (\<lambda>_. None), ve_new_id = ''n'',
     ve_limits = default_voice_limits,
     ve_registry = [(''welcome/en'', demo_template ''en'' ''Go to {facility_id_0}''), (''welcome/ml'', demo_template ''ml'' ''Poku {facility_id_0}'')],
     ve_synthetic = False, ve_asr = (\<lambda>_. TimedOut), ve_middle = (\<lambda>_. Replied \<lparr>mr_proposal = demo_proposal l, mr_model = ''m''\<rparr>), ve_tts = (\<lambda>_. Replied demo_reply),
     ve_admit = (\<lambda>_. Admitted), ve_ready = (\<lambda>_. True), ve_cancelled = (\<lambda>_. None), ve_others = (\<lambda>_ w. w)\<rparr>"

definition demo_voice :: voice_world where
  "demo_voice = \<lparr>vw_store = demo_store [demo_translation ''en'' None, demo_translation ''ml'' None], vw_now = 5, vw_corr = new_correlation_map\<rparr>"

definition demo_voice_request :: pipeline_request where
  "demo_voice_request = \<lparr>pr_request = ''q'', pr_jurisdiction = ''IN'', pr_language = ''en'', pr_kind = ''transcript'', pr_content_type = [],
     pr_body = [], pr_text = '' where do I go '', pr_render = ''tts''\<rparr>"

definition demo_answer :: "string \<Rightarrow> voice_result" where
  "demo_answer l = process_voice (demo_env l) demo_voice_request ''{}'' demo_voice"

theorem voice_answer_safe_witness:
  "\<exists>sc. sound_proposal sc ''q'' (demo_proposal ''en'') \<and> current_at (vw_store (fst (demo_answer ''en''))) (vw_now (fst (demo_answer ''en''))) sc
     \<and> approved_speech (demo_env ''en'') (fst (demo_answer ''en'')) sc ''welcome'' ''en'' (set (args_for_template (demo_proposal ''en''))) ''Go to f''"
proof -
  have run: "process_voice (demo_env ''en'') demo_voice_request ''{}'' demo_voice = (fst (demo_answer ''en''), fst (snd (demo_answer ''en'')), None)"
    unfolding demo_answer_def by code_simp
  have out: "po_proposal (fst (snd (demo_answer ''en''))) = Some (demo_proposal ''en'')" "mo_actions (demo_proposal ''en'') \<noteq> []"
    "po_request (fst (snd (demo_answer ''en''))) = ''q''" "to_key (po_template (fst (snd (demo_answer ''en'')))) = ''welcome''"
    "to_text (po_template (fst (snd (demo_answer ''en'')))) = ''Go to f''" "mo_language (demo_proposal ''en'') = ''en''"
    by code_simp+
  show ?thesis
    using voice_answer_safe [OF run out(1) disjI1 [OF out(2)]] out(3-6) by auto
qed

definition demo_speech :: speech_request where
  "demo_speech = \<lparr>sr_request = ''s'', sr_jurisdiction = ''IN'', sr_key = ''welcome'', sr_language = ''ml'', sr_args = [(''facility_id_0'', AVText ''f'')],
     sr_source_version = 1, sr_settings = request_settings\<rparr>"

theorem spoken_was_approved_witness:
  "\<exists>w' sc tq. approved_speech (demo_env ''en'') w' sc ''welcome'' ''ml'' (filled_args (demo_env ''en'') demo_speech) (tq_text tq)
     \<and> ve_tts (demo_env ''en'') tq = Replied demo_reply"
proof -
  have "snd (synthesize_speech (demo_env ''en'') demo_speech ''{}'' demo_voice) =
      Inr (projr (snd (synthesize_speech (demo_env ''en'') demo_speech ''{}'' demo_voice)))"
    by code_simp
  then have "synthesize_speech (demo_env ''en'') demo_speech ''{}'' demo_voice =
      (fst (synthesize_speech (demo_env ''en'') demo_speech ''{}'' demo_voice), Inr (projr (snd (synthesize_speech (demo_env ''en'') demo_speech ''{}'' demo_voice))))"
    by (metis prod.collapse)
  from spoken_was_approved [OF this] show ?thesis
    by (fastforce simp: demo_env_def demo_speech_def)
qed

text \<open>a text in one language is spoken under the name of another. The validators let the model answer in any allowed
  language, the template stage takes the language of the proposal and the speech stage that of the request: the
  synthesizer is asked to read the Malayalam text as English, under the digest of the English template, and the
  answer carries it as English audio.
\<close>

theorem speech_in_wrong_language:
  "(let (w, out, e) = process_voice (demo_env ''ml'') demo_voice_request ''{}'' demo_voice
    in e = None \<and> to_text (po_template out) = ''Poku f'' \<and> map_option mo_language (po_proposal out) = Some ''ml''
       \<and> map_option pa_language (po_audio out) = Some ''en'')"
  by code_simp

end
