(* ===== verification/Wav_Audio.thy ===== *)
theory Wav_Audio
  imports Voice_Template
begin

text \<open>
  The audio of the voice workers: the WAV encoder and the base64 encoder of the synthesis worker
  (\<open>ttsworker/audio.go\<close>, \<open>encodeBase64\<close> of \<open>ttsworker/worker.go\<close>) and the WAV decoder of the
  recognition worker (\<open>asrworker/audio.go\<close>). A sample is a float32, kept as its exact number;
  \<open>float64(s) * 32767\<close> and the durations compared with whole seconds are exact in a float64.
  What the decoder does on every byte string is proved, also that it may not return.
\<close>

section \<open>Encoding samples\<close>

fun le_bytes :: "nat \<Rightarrow> nat \<Rightarrow> string" where
  "le_bytes 0 v = []"
| "le_bytes (Suc n) v = char_of (v mod 256) # le_bytes n (v div 256)"

definition build_wav_header :: "nat \<Rightarrow> nat \<Rightarrow> nat \<Rightarrow> nat \<Rightarrow> string" where
  "build_wav_header rate channels depth data =
     (let align = channels * depth div 8 mod 65536
      in ''RIFF'' @ le_bytes 4 (36 + data) @ ''WAVE'' @ ''fmt '' @ le_bytes 4 16 @ le_bytes 2 1 @ le_bytes 2 channels
         @ le_bytes 4 rate @ le_bytes 4 (rate mod 4294967296 * align) @ le_bytes 2 align @ le_bytes 2 depth @ ''data'' @ le_bytes 4 data)"

definition max_output_rate :: int where "max_output_rate = 48000"
definition max_output_seconds :: int where "max_output_seconds = 12"
definition max_output_bytes :: int where "max_output_bytes = 1200 * 1024"

text \<open>Rounding half away from zero, of \<open>m * 2^e * 32767\<close>.\<close>

definition round_sample :: "int \<Rightarrow> int \<Rightarrow> int" where
  "round_sample m e =
     (if 0 \<le> e then m * 32767 * 2 ^ nat e
      else sgn m * ((2 * \<bar>m\<bar> * 32767 + 2 ^ nat (- e)) div (2 * 2 ^ nat (- e))))"

text \<open>The conversion of a NaN to an int16 is left to the platform: it is the argument \<open>nan\<close>.\<close>

fun pcm_of :: "int \<Rightarrow> fnum \<Rightarrow> int" where
  "pcm_of nan (FNum m e) = round_sample m e"
| "pcm_of nan (FInf neg) = nan"
| "pcm_of nan FNaN = nan"

definition pcm_bytes :: "int \<Rightarrow> fnum \<Rightarrow> string" where
  "pcm_bytes nan s = le_bytes 2 (nat (pcm_of nan s mod 65536))"

record wav_output =
  wo_bytes :: string
  wo_rate :: int
  wo_channels :: int
  wo_depth :: int
  wo_checksum :: string

datatype encode_error = EmptySamples | InvalidRate int | LongDuration nat int | ExceedCap nat | OutOfRange nat fnum | ExceedSize nat

fun sample_error :: "nat \<Rightarrow> fnum list \<Rightarrow> encode_error option" where
  "sample_error i [] = None"
| "sample_error i (s # ss) = (if f_less s (-1) \<or> f_greater s 1 then Some (OutOfRange i s) else sample_error (Suc i) ss)"

definition wav_bytes :: "int \<Rightarrow> fnum list \<Rightarrow> int \<Rightarrow> string" where
  "wav_bytes nan samples rate = build_wav_header (nat rate) 1 16 (length samples * 2) @ concat (map (pcm_bytes nan) samples)"

definition float32_to_wav :: "(string \<Rightarrow> string) \<Rightarrow> int \<Rightarrow> fnum list \<Rightarrow> int \<Rightarrow> encode_error + wav_output" where
  "float32_to_wav sha nan samples rate =
     require (first_err
       [check (samples = []) EmptySamples,
        check (rate \<le> 0 \<or> max_output_rate < rate) (InvalidRate rate),
        check (max_output_seconds * rate < int (length samples)) (LongDuration (length samples) rate),
        check ((max_output_bytes - 44) div 2 < int (length samples)) (ExceedCap (length samples)),
        sample_error 0 samples,
        check (max_output_bytes < int (length (wav_bytes nan samples rate))) (ExceedSize (length (wav_bytes nan samples rate)))])
       \<lparr>wo_bytes = wav_bytes nan samples rate, wo_rate = rate, wo_channels = 1, wo_depth = 16,
         wo_checksum = sha (wav_bytes nan samples rate)\<rparr>"

section \<open>Decoding audio\<close>

datatype asr_error = UnsupportedCodec string | DecodeError string

record wav_scan =
  ws_pos :: nat
  ws_format :: nat
  ws_channels :: nat
  ws_rate :: nat
  ws_bits :: nat
  ws_align :: nat
  ws_start :: nat
  ws_length :: nat
  ws_unknown :: bool
  ws_seen :: bool

definition unknown_size :: nat where "unknown_size = 4294967295"

definition scan_start :: wav_scan where
  "scan_start = \<lparr>ws_pos = 12, ws_format = 0, ws_channels = 0, ws_rate = 0, ws_bits = 0, ws_align = 0,
     ws_start = 0, ws_length = 0, ws_unknown = False, ws_seen = False\<rparr>"

text \<open>The chunk at the current position.\<close>

abbreviation chunk_id :: "string \<Rightarrow> nat \<Rightarrow> string" where "chunk_id b p \<equiv> slice_of b p 4"
abbreviation chunk_size :: "string \<Rightarrow> nat \<Rightarrow> nat" where "chunk_size b p \<equiv> u32 b (p + 4)"

definition read_chunk :: "string \<Rightarrow> wav_scan \<Rightarrow> asr_error + wav_scan" where
  "read_chunk b s =
     (let p = ws_pos s; n = chunk_size b p; avail = length b - p - 8
      in if chunk_id b p = ''fmt '' then
           if n = unknown_size then Inl (DecodeError ''wav fmt chunk declares unknown size'')
           else if n < 16 \<or> avail < n then Inl (DecodeError ''wav fmt chunk too short'')
           else Inr (s\<lparr>ws_format := u16 b (p + 8), ws_channels := u16 b (p + 10), ws_rate := u32 b (p + 12),
                       ws_align := u16 b (p + 20), ws_bits := u16 b (p + 22)\<rparr>)
         else if chunk_id b p = ''data'' then
           Inr (s\<lparr>ws_start := p + 8, ws_length := (if n = unknown_size then length b - (p + 8) else n),
                  ws_unknown := (n = unknown_size), ws_seen := True\<rparr>)
         else Inr s)"

text \<open>One turn of the loop; the flag says that it goes on.\<close>

definition wav_turn :: "string \<Rightarrow> wav_scan \<Rightarrow> asr_error + wav_scan \<times> bool" where
  "wav_turn b s =
     (let p = ws_pos s; n = chunk_size b p; avail = length b - p - 8
      in if n \<noteq> unknown_size \<and> avail < n \<and> chunk_id b p \<noteq> ''data'' then Inl (DecodeError ''wav chunk overruns file'')
         else bind_res (read_chunk b s) (\<lambda>s'.
           if ws_seen s' \<and> ws_format s' \<noteq> 0 then Inr (s', False)
           else if n \<noteq> unknown_size then
             if length b < p + 8 + n then Inr (s', False)
             else Inr (s'\<lparr>ws_pos := (if odd n \<and> p + 8 + n < length b then p + 8 + n + 1 else p + 8 + n)\<rparr>, True)
           else if chunk_id b p \<noteq> ''data'' then Inl (DecodeError ''wav unknown-size non-data chunk'')
           else Inr (s', True)))"

partial_function (option) wav_walk :: "string \<Rightarrow> wav_scan \<Rightarrow> (asr_error + wav_scan) option" where
  "wav_walk b s =
     (if ws_pos s + 8 \<le> length b
      then case wav_turn b s of
          Inl e \<Rightarrow> Some (Inl e)
        | Inr (s', again) \<Rightarrow> if again then wav_walk b s' else Some (Inr s')
      else Some (Inr s))"

declare wav_walk.simps [code]

record decode_limits =
  dl_bytes :: nat
  dl_seconds :: nat
  dl_min_rate :: nat
  dl_max_rate :: nat
  dl_max_channels :: nat
  dl_mono :: bool

definition default_decode_limits :: decode_limits where
  "default_decode_limits = \<lparr>dl_bytes = 512 * 1024, dl_seconds = 20, dl_min_rate = 8000, dl_max_rate = 48000, dl_max_channels = 1, dl_mono = True\<rparr>"

text \<open>A 16-bit sample is a multiple of \<open>2^-15\<close>.\<close>

definition sample_at :: "string \<Rightarrow> nat \<Rightarrow> fnum" where
  "sample_at b i = (let v = int (u16 b i) in FNum (if v < 32768 then v else v - 65536) (-15))"

definition frames_of :: "wav_scan \<Rightarrow> string \<Rightarrow> nat" where
  "frames_of s pcm = length pcm div (ws_channels s * 2)"

definition wav_end :: "string \<Rightarrow> wav_scan \<Rightarrow> nat" where
  "wav_end b s = min (length b) (ws_start s + ws_length s)"

definition wav_samples :: "decode_limits \<Rightarrow> string \<Rightarrow> wav_scan \<Rightarrow> asr_error + fnum list \<times> nat \<times> nat" where
  "wav_samples lim b s =
     (let pcm = slice_of b (ws_start s) (wav_end b s - ws_start s)
      in require (first_err
           [check (ws_format s = 0) (DecodeError ''wav missing fmt chunk''),
            check (ws_start s = 0) (DecodeError ''wav missing data chunk''),
            check (ws_format s \<noteq> 1) (DecodeError ''wav audio format not PCM16_LE''),
            check (ws_bits s \<noteq> 16) (DecodeError ''wav bits per sample not 16''),
            check (ws_channels s < 1) (DecodeError ''wav declared zero channels''),
            check (ws_align s \<noteq> ws_channels s * ws_bits s div 8) (DecodeError ''wav block align mismatched''),
            check (\<not> ws_unknown s \<and> length b < ws_start s + ws_length s) (DecodeError ''wav data chunk truncated''),
            check (length pcm mod (ws_channels s * 2) \<noteq> 0) (DecodeError ''wav pcm not aligned to frame''),
            check (1 < ws_channels s \<and> dl_mono lim) (DecodeError ''multi-channel audio rejected (mono only)'')])
         (map (\<lambda>i. sample_at pcm (i * (ws_channels s * 2))) [0..<frames_of s pcm], ws_rate s, 1))"

definition decode_riff_wav :: "decode_limits \<Rightarrow> string \<Rightarrow> (asr_error + fnum list \<times> nat \<times> nat) option" where
  "decode_riff_wav lim b =
     (if length b < 44 then Some (Inl (DecodeError ''wav header truncated''))
      else if slice_of b 0 4 \<noteq> ''RIFF'' \<or> slice_of b 8 4 \<noteq> ''WAVE'' then Some (Inl (DecodeError ''wav missing RIFF/WAVE signature''))
      else map_option (\<lambda>r. bind_res r (wav_samples lim b)) (wav_walk b scan_start))"

text \<open>
  The resampler computes each sample by a weighted mean in float64: \<open>interpolate\<close> is that
  arithmetic. The number of samples is exact, since the product and the quotient are.
\<close>

record audio_lib =
  al_media :: "string \<Rightarrow> (string \<times> (string, string) gomap) option"
  al_interpolate :: "fnum list \<Rightarrow> nat \<Rightarrow> nat \<Rightarrow> fnum"

definition target_rate :: nat where "target_rate = 16000"

definition resampled_length :: "nat \<Rightarrow> nat \<Rightarrow> nat" where
  "resampled_length n rate = (n * target_rate + rate - 1) div rate"

definition resample_linear :: "audio_lib \<Rightarrow> fnum list \<Rightarrow> nat \<Rightarrow> fnum list" where
  "resample_linear lib samples rate =
     (if samples = [] \<or> rate = target_rate then samples
      else if rate < 1 then samples
      else map (al_interpolate lib samples rate) [0..<resampled_length (length samples) rate])"

definition codec_ok :: "audio_lib \<Rightarrow> string \<Rightarrow> bool" where
  "codec_ok lib ct =
     (case al_media lib ct of
        Some (media, params) \<Rightarrow>
          if media = ''audio/wav'' then
            (case get params ''codecs'' of None \<Rightarrow> True | Some c \<Rightarrow> c \<in> {[], ''1'', ''pcm''})
          else ct = ''audio/wav''
      | None \<Rightarrow> ct = ''audio/wav'')"

record decoded_audio =
  da_samples :: "fnum list"
  da_rate :: nat
  da_original :: nat
  da_channels :: nat
  da_consumed :: nat
  da_type :: string

definition decode_wav :: "audio_lib \<Rightarrow> string \<Rightarrow> string \<Rightarrow> decode_limits \<Rightarrow> (asr_error + decoded_audio) option" where
  "decode_wav lib b ct lim =
     (if \<not> codec_ok lib ct then Some (Inl (UnsupportedCodec ct))
      else if dl_bytes lim < length b then Some (Inl (DecodeError ''audio bytes exceed limit''))
      else if b = [] then Some (Inl (DecodeError ''audio bytes are empty''))
      else map_option (\<lambda>r. bind_res r (\<lambda>(samples, rate, channels).
        let out = resample_linear lib samples rate
        in require (first_err
             [check (rate < dl_min_rate lim \<or> dl_max_rate lim < rate) (DecodeError ''sample rate out of bounds''),
              check (dl_max_channels lim < channels \<and> dl_mono lim) (DecodeError ''multi-channel audio is rejected''),
              check (dl_seconds lim * target_rate < length out) (DecodeError ''decoded duration exceeds limit'')])
           \<lparr>da_samples = out, da_rate = target_rate, da_original = rate, da_channels = channels,
             da_consumed = length b, da_type = ct\<rparr>)) (decode_riff_wav lim b))"

text \<open>Silence is a buffer whose samples are all at most \<open>1e-6\<close> in size.\<close>

fun negligible :: "fnum \<Rightarrow> bool" where
  "negligible (FNum m e) = (if 0 \<le> e then \<bar>m\<bar> * 2 ^ nat e * 1000000 \<le> 1 else \<bar>m\<bar> * 1000000 \<le> 2 ^ nat (- e))"
| "negligible (FInf neg) = False"
| "negligible FNaN = False"

definition silence_detector :: "fnum list \<Rightarrow> bool" where
  "silence_detector = list_all negligible"

definition is_finite :: "fnum list \<Rightarrow> bool" where
  "is_finite = list_all (\<lambda>s. s \<noteq> FNaN \<and> (\<forall>neg \<in> {True, False}. s \<noteq> FInf neg))"

section \<open>Base64\<close>

definition b64_table :: string where
  "b64_table = ''ABCDEFGHIJKLMNOPQRSTUVWXYZabcdefghijklmnopqrstuvwxyz0123456789+/''"

definition b64_char :: "nat \<Rightarrow> char" where
  "b64_char i = b64_table ! (i mod 64)"

fun encode_base64 :: "string \<Rightarrow> string" where
  "encode_base64 [] = []"
| "encode_base64 [a] = (let n = of_char a * 65536 in [b64_char (n div 262144), b64_char (n div 4096), CHR ''='', CHR ''=''])"
| "encode_base64 [a, b] = (let n = of_char a * 65536 + of_char b * 256
     in [b64_char (n div 262144), b64_char (n div 4096), b64_char (n div 64), CHR ''=''])"
| "encode_base64 (a # b # c # bs) = (let n = of_char a * 65536 + of_char b * 256 + of_char c
     in b64_char (n div 262144) # b64_char (n div 4096) # b64_char (n div 64) # b64_char n # encode_base64 bs)"


section \<open>When the decoder returns\<close>

text \<open>
  A chunk of data with the streaming size does not advance the walk. Unless a format with a nonzero tag
  was read before, the loop meets the same chunk again, for ever. \<open>stuck b p f d\<close> says that the walk
  that stands at \<open>p\<close>, with the tag \<open>f\<close> of the last format and \<open>d\<close> when data was seen, comes to such a chunk.
\<close>

definition next_chunk :: "string \<Rightarrow> nat \<Rightarrow> nat" where
  "next_chunk b p = (let e = p + 8 + chunk_size b p in if odd (chunk_size b p) \<and> e < length b then e + 1 else e)"

definition sized_chunk :: "string \<Rightarrow> nat \<Rightarrow> bool" where
  "sized_chunk b p \<longleftrightarrow> chunk_size b p \<noteq> unknown_size \<and> p + 8 + chunk_size b p \<le> length b"

inductive stuck :: "string \<Rightarrow> nat \<Rightarrow> nat \<Rightarrow> bool \<Rightarrow> bool" for b where
  stuck_here: "p + 8 \<le> length b \<Longrightarrow> chunk_id b p = ''data'' \<Longrightarrow> chunk_size b p = unknown_size \<Longrightarrow> stuck b p 0 d"
| stuck_data: "sized_chunk b p \<Longrightarrow> chunk_id b p = ''data'' \<Longrightarrow> stuck b (next_chunk b p) 0 True \<Longrightarrow> stuck b p 0 d"
| stuck_format: "sized_chunk b p \<Longrightarrow> chunk_id b p = ''fmt '' \<Longrightarrow> 16 \<le> chunk_size b p \<Longrightarrow> u16 b (p + 8) = 0 \<or> \<not> d
    \<Longrightarrow> stuck b (next_chunk b p) (u16 b (p + 8)) d \<Longrightarrow> stuck b p f d"
| stuck_other: "sized_chunk b p \<Longrightarrow> chunk_id b p \<notin> {''data'', ''fmt ''} \<Longrightarrow> f = 0 \<or> \<not> d
    \<Longrightarrow> stuck b (next_chunk b p) f d \<Longrightarrow> stuck b p f d"

abbreviation stuck_scan :: "string \<Rightarrow> wav_scan \<Rightarrow> bool" where
  "stuck_scan b s \<equiv> stuck b (ws_pos s) (ws_format s) (ws_seen s)"

lemma turn_again:
  assumes "wav_turn b s = Inr (s', True)" and "ws_pos s + 8 \<le> length b"
  shows "(chunk_id b (ws_pos s) = ''data'' \<and> chunk_size b (ws_pos s) = unknown_size \<and> ws_format s = 0)
    \<or> (ws_pos s < ws_pos s' \<and> (stuck_scan b s' \<longrightarrow> stuck_scan b s))"
proof -
  let ?p = "ws_pos s"
  have nx: "ws_pos s' = next_chunk b ?p \<and> ?p < ws_pos s' \<and> sized_chunk b ?p
      \<or> chunk_id b ?p = ''data'' \<and> chunk_size b ?p = unknown_size \<and> ws_format s' = 0 \<and> ws_format s = ws_format s'"
    using assms by (auto simp: wav_turn_def read_chunk_def next_chunk_def sized_chunk_def Let_def bind_res_Inr split: if_splits)
  have quiet: "\<not> (ws_seen s' \<and> ws_format s' \<noteq> 0)"
    using assms by (auto simp: wav_turn_def Let_def bind_res_Inr split: if_splits)
  show ?thesis
  proof (cases "sized_chunk b ?p \<and> ws_pos s' = next_chunk b ?p \<and> ?p < ws_pos s'")
    case True
    consider "chunk_id b ?p = ''fmt ''" "16 \<le> chunk_size b ?p" "ws_format s' = u16 b (?p + 8)" "ws_seen s' = ws_seen s"
      | "chunk_id b ?p = ''data''" "ws_format s' = ws_format s" "ws_seen s'"
      | "chunk_id b ?p \<notin> {''data'', ''fmt ''}" "ws_format s' = ws_format s" "ws_seen s' = ws_seen s"
      using assms by (auto simp: wav_turn_def read_chunk_def Let_def bind_res_Inr split: if_splits)
    then have "stuck_scan b s' \<Longrightarrow> stuck_scan b s"
      using True quiet by cases (auto intro: stuck_data stuck_format stuck_other)
    then show ?thesis using True by blast
  next
    case False
    then show ?thesis using nx by auto
  qed
qed

lemma walk_returns: "\<not> stuck_scan b s \<Longrightarrow> \<exists>r. wav_walk b s = Some r"
proof (induction "length b - ws_pos s" arbitrary: s rule: less_induct)
  case less
  show ?case
  proof (cases "ws_pos s + 8 \<le> length b")
    case True
    show ?thesis
    proof (cases "wav_turn b s")
      case (Inr r)
      obtain s' a where r: "r = (s', a)" by fastforce
      show ?thesis
      proof (cases a)
        case True
        have "ws_pos s < ws_pos s' \<and> (stuck_scan b s' \<longrightarrow> stuck_scan b s)"
          using turn_again [of b s s'] Inr r True less.prems \<open>ws_pos s + 8 \<le> length b\<close> stuck_here [of "ws_pos s" b "ws_seen s"] by auto
        then have "\<exists>r. wav_walk b s' = Some r"
          using less \<open>ws_pos s + 8 \<le> length b\<close> by (metis add_leD1 diff_less_mono2 le_neq_implies_less not_add_less1 trans_less_add1 add_less_cancel_left zero_less_numeral le_less_trans)
        then show ?thesis
          using Inr r True \<open>ws_pos s + 8 \<le> length b\<close> by (simp add: wav_walk.simps [of b s])
      qed (use Inr r \<open>ws_pos s + 8 \<le> length b\<close> in \<open>simp add: wav_walk.simps [of b s]\<close>)
    qed (use True in \<open>simp add: wav_walk.simps [of b s]\<close>)
  qed (simp add: wav_walk.simps [of b s])
qed

lemma stuck_turn:
  assumes "stuck b p f d" and "p = ws_pos s" "f = ws_format s" "d = ws_seen s"
  shows "ws_pos s + 8 \<le> length b \<and> (\<exists>s'. wav_turn b s = Inr (s', True) \<and> stuck_scan b s')"
  using assms
proof cases
  case stuck_here
  let ?s = "s\<lparr>ws_start := ws_pos s + 8, ws_length := length b - (ws_pos s + 8), ws_unknown := True, ws_seen := True\<rparr>"
  have "wav_turn b s = Inr (?s, True)"
    using stuck_here assms by (simp add: wav_turn_def read_chunk_def Let_def)
  moreover have "stuck_scan b ?s" using stuck_here assms stuck.stuck_here [of "ws_pos s" b True] by simp
  ultimately show ?thesis using stuck_here assms by blast
next
  case stuck_data
  let ?s = "s\<lparr>ws_start := ws_pos s + 8, ws_length := chunk_size b (ws_pos s), ws_unknown := False, ws_seen := True, ws_pos := next_chunk b (ws_pos s)\<rparr>"
  have "wav_turn b s = Inr (?s, True)"
    using stuck_data assms by (simp add: wav_turn_def read_chunk_def Let_def sized_chunk_def next_chunk_def)
  then show ?thesis using stuck_data assms by (auto simp: sized_chunk_def)
next
  case stuck_format
  then show ?thesis using assms
    by (auto simp: wav_turn_def read_chunk_def Let_def sized_chunk_def next_chunk_def)
next
  case stuck_other
  then show ?thesis using assms
    by (auto simp: wav_turn_def read_chunk_def Let_def sized_chunk_def next_chunk_def)
qed

lemma stuck_never_returns:
  assumes "wav_walk b s = Some r" shows "\<not> stuck_scan b s"
  using assms
proof (rule wav_walk.raw_induct [where P = "\<lambda>b s r. \<not> stuck_scan b s", rotated])
  fix walk b s r
  assume IH: "\<And>b s r. walk b s = Some r \<Longrightarrow> \<not> stuck_scan b s"
    and r: "(if ws_pos s + 8 \<le> length b
       then case wav_turn b s of Inl e \<Rightarrow> Some (Inl e) | Inr (s', again) \<Rightarrow> if again then walk b s' else Some (Inr s')
       else Some (Inr s)) = Some r"
  show "\<not> stuck_scan b s"
  proof
    assume "stuck_scan b s"
    then obtain s' where "ws_pos s + 8 \<le> length b" "wav_turn b s = Inr (s', True)" "stuck_scan b s'"
      using stuck_turn [OF _ refl refl refl] by blast
    then show False using IH r by fastforce
  qed
qed

lemma hangs_iff:
  "decode_riff_wav lim b = None
   \<longleftrightarrow> 44 \<le> length b \<and> slice_of b 0 4 = ''RIFF'' \<and> slice_of b 8 4 = ''WAVE'' \<and> stuck b 12 0 False"
proof -
  have "wav_walk b scan_start = None \<longleftrightarrow> stuck_scan b scan_start"
    using walk_returns [of b scan_start] stuck_never_returns [of b scan_start] by (cases "wav_walk b scan_start") auto
  then show ?thesis by (auto simp: decode_riff_wav_def scan_start_def)
qed


section \<open>What the encoder writes, the decoders read\<close>

lemma little_endian_le_bytes [simp]: "little_endian (le_bytes n v) = v mod 256 ^ n"
proof (induction n arbitrary: v)
  case (Suc n)
  have "v mod (256 * 256 ^ n) = 256 * (v div 256 mod 256 ^ n) + v mod 256" by (rule mod_mult2_eq)
  then show ?case using Suc by simp
qed simp

lemma length_le_bytes [simp]: "length (le_bytes n v) = n"
  by (induction n arbitrary: v) simp_all

lemma slice_skip: "length a \<le> i \<Longrightarrow> slice_of (a @ b) i n = slice_of b (i - length a) n"
  by (simp add: slice_of_def)

lemma slice_here: "length a \<le> n \<Longrightarrow> slice_of (a @ b) 0 n = a @ slice_of b 0 (n - length a)"
  by (simp add: slice_of_def)

lemma slice_step: "slice_of (c # b) (numeral k) n = slice_of b (pred_numeral k) n"
  "slice_of (c # b) 0 (numeral k) = c # slice_of b 0 (pred_numeral k)" "slice_of b i 0 = []" "slice_of (c # b) (Suc i) n = slice_of b i n"
  "slice_of (c # b) 0 (Suc n) = c # slice_of b 0 n"
  by (simp_all add: slice_of_def numeral_eq_Suc)

lemmas wav_layout = build_wav_header_def Let_def append_assoc slice_skip slice_here slice_step

lemma wav_fields:
  assumes "rate < 4294967296" and "36 + data < 4294967296"
    and b: "b = build_wav_header rate 1 16 data @ pcm"
  shows "slice_of b 0 4 = ''RIFF''" "slice_of b 8 4 = ''WAVE''" "slice_of b 12 4 = ''fmt ''" "u32 b 16 = 16" "u16 b 20 = 1" "u16 b 22 = 1"
    "u32 b 24 = rate" "u16 b 32 = 2" "u16 b 34 = 16" "slice_of b 36 4 = ''data''" "u32 b 40 = data"
  using assms(1,2) unfolding b by (simp_all add: wav_layout)

lemma length_wav_header [simp]: "length (build_wav_header rate channels depth data) = 44"
  by (simp add: build_wav_header_def Let_def)

lemma length_pcm [simp]: "length (concat (map (pcm_bytes nan) samples)) = length samples * 2"
  by (induction samples) (simp_all add: pcm_bytes_def)

lemma slice_pcm: "i < length samples \<Longrightarrow> slice_of (concat (map (pcm_bytes nan) samples)) (i * 2) 2 = pcm_bytes nan (samples ! i)"
proof (induction samples arbitrary: i)
  case (Cons s ss)
  have l: "length (pcm_bytes nan s) = 2" by (simp add: pcm_bytes_def)
  show ?case
  proof (cases i)
    case 0
    then show ?thesis using l by (simp add: slice_here slice_step)
  next
    case (Suc j)
    then show ?thesis using Cons l by (simp add: slice_skip)
  qed
qed simp

text \<open>A sample within \<open>[-1, 1]\<close> fits into 16 bits, half a unit from its exact value.\<close>

definition within_unit :: "fnum \<Rightarrow> bool" where
  "within_unit s \<longleftrightarrow> (case s of FNum m e \<Rightarrow> \<not> f_less s (-1) \<and> \<not> f_greater s 1 | _ \<Rightarrow> False)"

lemma div_round: "0 < d \<Longrightarrow> 0 \<le> a \<Longrightarrow> a \<le> 32767 * d \<Longrightarrow> (2 * a + d) div (2 * d) \<in> {0 .. 32767 :: int}
    \<and> \<bar>2 * d * ((2 * a + d) div (2 * d)) - 2 * a\<bar> \<le> d"
proof -
  assume d: "0 < d" "0 \<le> a" "a \<le> 32767 * d"
  let ?q = "(2 * a + d) div (2 * d)"
  have m: "2 * d * ?q + (2 * a + d) mod (2 * d) = 2 * a + d" by simp
  have "0 \<le> (2 * a + d) mod (2 * d)" "(2 * a + d) mod (2 * d) < 2 * d" using d by simp_all
  then have near: "\<bar>2 * d * ?q - 2 * a\<bar> \<le> d" using m by linarith
  have "2 * d * ?q < 2 * d * 32768" using m \<open>0 \<le> (2 * a + d) mod (2 * d)\<close> d by linarith
  then have "?q < 32768" using d by simp
  moreover have "0 \<le> ?q" using d by (simp add: pos_imp_zdiv_nonneg_iff)
  ultimately show ?thesis using near by simp
qed


text \<open>The 16-bit value next to a sample, as a relation: half a unit at most from \<open>32767 * s\<close>.\<close>

fun nearest16 :: "int \<Rightarrow> fnum \<Rightarrow> int \<Rightarrow> bool" where
  "nearest16 nan (FNum m e) v \<longleftrightarrow> \<bar>2 * (v * 2 ^ nat (- e) - 32767 * m * 2 ^ nat e)\<bar> \<le> 2 ^ nat (- e)"
| "nearest16 nan (FInf neg) v \<longleftrightarrow> False"
| "nearest16 nan FNaN v \<longleftrightarrow> v = nan"

lemma round_sample_nearest:
  assumes "\<not> f_less (FNum m e) (-1)" "\<not> f_greater (FNum m e) 1"
  shows "nearest16 nan (FNum m e) (round_sample m e) \<and> \<bar>round_sample m e\<bar> \<le> 32767"
proof (cases "0 \<le> e")
  case True
  then have v: "round_sample m e = 32767 * (m * 2 ^ nat e)" "nat (- e) = 0" by (simp_all add: round_sample_def)
  show ?thesis using assms True unfolding v by simp
next
  case False
  define d :: int where "d = 2 ^ nat (- e)"
  have d: "0 < d" "\<bar>m\<bar> \<le> d" using assms False by (auto simp: d_def)
  define q where "q = (2 * (\<bar>m\<bar> * 32767) + d) div (2 * d)"
  have q: "q \<in> {0 .. 32767}" "\<bar>2 * d * q - 2 * (\<bar>m\<bar> * 32767)\<bar> \<le> d"
    unfolding q_def using div_round [of d "\<bar>m\<bar> * 32767"] d by auto
  have r: "round_sample m e = sgn m * q" using False by (simp add: round_sample_def q_def d_def algebra_simps)
  have "\<bar>2 * (sgn m * q * d - 32767 * m)\<bar> \<le> d"
    using q(2) d by (auto simp: sgn_if abs_if algebra_simps split: if_splits)
  moreover have "\<bar>sgn m * q\<bar> \<le> 32767" using q(1) by (auto simp: sgn_if)
  ultimately show ?thesis using False by (simp add: r d_def)
qed

lemma pcm_in_range:
  assumes "sample_error i samples = None" and "s \<in> set samples" and "- 32768 \<le> nan" "nan < 32768"
  shows "nearest16 nan s (pcm_of nan s) \<and> - 32768 \<le> pcm_of nan s \<and> pcm_of nan s < 32768"
proof -
  have "\<not> f_less s (-1) \<and> \<not> f_greater s 1"
    using assms(1,2) by (induction samples arbitrary: i) (auto split: if_splits)
  then show ?thesis
    using assms(3,4) round_sample_nearest [of "case s of FNum m e \<Rightarrow> m | _ \<Rightarrow> 0" "case s of FNum m e \<Rightarrow> e | _ \<Rightarrow> 0" nan]
    by (cases s) (auto split: if_splits)
qed

lemma sample_at_pcm:
  assumes "i < length samples" and "- 32768 \<le> pcm_of nan (samples ! i)" "pcm_of nan (samples ! i) < 32768"
  shows "sample_at (concat (map (pcm_bytes nan) samples)) (i * 2) = FNum (pcm_of nan (samples ! i)) (-15)"
proof -
  let ?v = "pcm_of nan (samples ! i)"
  have "?v mod 65536 = (if 0 \<le> ?v then ?v else ?v + 65536)"
    using assms(2,3) mod_pos_pos_trivial [of "?v + 65536" 65536] by simp
  then show ?thesis using assms by (auto simp: sample_at_def slice_pcm pcm_bytes_def Let_def)
qed


lemma walk_step:
  "wav_turn b s = Inr (s', again) \<Longrightarrow> ws_pos s + 8 \<le> length b \<Longrightarrow> wav_walk b s = (if again then wav_walk b s' else Some (Inr s'))"
  by (simp add: wav_walk.simps [of b s])

lemma decode_encoded:
  assumes "rate < 4294967296" "1 \<le> length samples" "length samples * 2 + 36 < 4294967295"
    and "\<And>s. s \<in> set samples \<Longrightarrow> - 32768 \<le> pcm_of nan s \<and> pcm_of nan s < 32768"
  shows "decode_riff_wav lim (build_wav_header rate 1 16 (length samples * 2) @ concat (map (pcm_bytes nan) samples))
    = Some (Inr (map (\<lambda>s. FNum (pcm_of nan s) (-15)) samples, rate, 1))"
proof -
  define b where "b = build_wav_header rate 1 16 (length samples * 2) @ concat (map (pcm_bytes nan) samples)"
  note f = wav_fields [OF assms(1) _ b_def]
  have l: "length b = 44 + length samples * 2" by (simp add: b_def)
  let ?s = "scan_start\<lparr>ws_pos := 36, ws_format := 1, ws_channels := 1, ws_rate := rate, ws_align := 2, ws_bits := 16\<rparr>"
  let ?t = "?s\<lparr>ws_start := 44, ws_length := length samples * 2, ws_unknown := False, ws_seen := True\<rparr>"
  have 1: "wav_turn b scan_start = Inr (?s, True)"
    using f assms by (simp add: wav_turn_def read_chunk_def scan_start_def unknown_size_def l)
  have 2: "wav_turn b ?s = Inr (?t, False)"
    using f assms by (simp add: wav_turn_def read_chunk_def scan_start_def unknown_size_def l)
  have "wav_walk b scan_start = wav_walk b ?s"
    using walk_step [OF 1] l by (simp add: scan_start_def)
  also have "\<dots> = Some (Inr ?t)"
    using walk_step [OF 2] l assms(2) by simp
  finally have "wav_walk b scan_start = Some (Inr ?t)" .
  moreover have "wav_samples lim b ?t = Inr (map (\<lambda>s. FNum (pcm_of nan s) (-15)) samples, rate, 1)"
  proof -
    define pcm where "pcm = concat (map (pcm_bytes nan) samples)"
    have "drop 44 b = pcm" by (simp add: b_def pcm_def)
    then have p: "slice_of b 44 (length samples * 2) = pcm" by (simp add: slice_of_def pcm_def)
    have "length pcm = length samples * 2" by (simp add: pcm_def)
    moreover have "map (\<lambda>i. sample_at pcm (i * 2)) [0..<length samples] = map (\<lambda>s. FNum (pcm_of nan s) (-15)) samples"
    proof (rule nth_equalityI)
      fix i assume "i < length (map (\<lambda>i. sample_at pcm (i * 2)) [0..<length samples])"
      then show "map (\<lambda>i. sample_at pcm (i * 2)) [0..<length samples] ! i = map (\<lambda>s. FNum (pcm_of nan s) (-15)) samples ! i"
        using sample_at_pcm [of i samples nan] assms(4) [OF nth_mem, of i] unfolding pcm_def by simp
    qed simp
    ultimately show ?thesis
      using p by (simp add: wav_samples_def wav_end_def l check_simps frames_of_def Let_def)
  qed
  moreover have "slice_of b 0 4 = ''RIFF''" "slice_of b 8 4 = ''WAVE''" using f assms(3) by simp_all
  ultimately show ?thesis using l unfolding b_def [symmetric] decode_riff_wav_def by simp
qed

lemma float32_to_wav_Inr:
  assumes "float32_to_wav sha nan samples rate = Inr w"
  shows "0 < rate \<and> rate \<le> 48000 \<and> 1 \<le> length samples \<and> int (length samples) \<le> 12 * rate \<and> sample_error 0 samples = None
    \<and> wo_bytes w = wav_bytes nan samples rate \<and> wo_checksum w = sha (wo_bytes w) \<and> wo_rate w = rate"
  using assms by (auto simp: float32_to_wav_def check_simps max_output_rate_def max_output_seconds_def Suc_le_eq)



text \<open>The encoding computes on integers.\<close>

definition b64_int :: "int \<Rightarrow> char" where
  "b64_int i = b64_table ! nat (i mod 64)"

lemma b64_char_int: "b64_char n = b64_int (int n)"
  by (simp add: b64_char_def b64_int_def nat_mod_distrib)

lemma encode_base64_code [code]:
  "encode_base64 [] = []"
  "encode_base64 [a] = (let n = of_char a * 65536 in [b64_int (n div 262144), b64_int (n div 4096), CHR ''='', CHR ''=''])"
  "encode_base64 [a, b] = (let n = of_char a * 65536 + of_char b * 256
     in [b64_int (n div 262144), b64_int (n div 4096), b64_int (n div 64), CHR ''=''])"
  "encode_base64 (a # b # c # bs) = (let n = of_char a * 65536 + of_char b * 256 + of_char c
     in b64_int (n div 262144) # b64_int (n div 4096) # b64_int (n div 64) # b64_int n # encode_base64 bs)"
  by (simp_all add: b64_char_int zdiv_int Let_def of_nat_of_char)

text \<open>Three samples at 16 kHz.\<close>

definition demo_samples :: "fnum list" where
  "demo_samples = [FNum 1 (-1), FNum (-1) 0, FNum 3 (-2)]"

lemma demo_encodes: "\<exists>w. float32_to_wav (\<lambda>b. []) 0 demo_samples 16000 = Inr w"
  by (simp add: float32_to_wav_def demo_samples_def check_simps max_output_rate_def max_output_seconds_def max_output_bytes_def wav_bytes_def
      pcm_bytes_def first_err_Cons_None)


text \<open>C20: 
  C00: the recognition worker can be stopped by one small file. The decoder fails to return exactly when the walk over
  the chunks comes to a data chunk of the streaming size before a format: it then reads that chunk
  for ever, and no deadline interrupts it. In every other case it returns samples or an error.
\<close>

theorem decoder_hangs_exactly:
  "decode_riff_wav lim b = None
   \<longleftrightarrow> 44 \<le> length b \<and> slice_of b 0 4 = ''RIFF'' \<and> slice_of b 8 4 = ''WAVE'' \<and> stuck b 12 0 False"
  by (rule hangs_iff)

lemma stream_first_hangs:
  assumes "32 \<le> length rest" and "length x = 4"
  shows "decode_riff_wav lim (''RIFF'' @ x @ ''WAVEdata'' @ le_bytes 4 unknown_size @ rest) = None"
proof -
  let ?b = "''RIFF'' @ x @ ''WAVEdata'' @ le_bytes 4 unknown_size @ rest"
  have "stuck ?b 12 0 False"
    using assms by (intro stuck_here) (simp_all add: wav_layout unknown_size_def)
  then show ?thesis using assms by (simp add: hangs_iff wav_layout)
qed

section \<open>Base64 decodes to what was encoded\<close>

text \<open>The decoding of RFC 4648, with its padding.\<close>

definition b64_value :: "char \<Rightarrow> nat option" where
  "b64_value c = List.find (\<lambda>i. b64_table ! i = c) [0..<64]"

fun b64_decode :: "string \<Rightarrow> string option" where
  "b64_decode [] = Some []"
| "b64_decode (a # b # c # d # cs) =
     (case (b64_value a, b64_value b) of
        (Some x, Some y) \<Rightarrow>
          if c = CHR ''='' \<and> d = CHR ''='' \<and> cs = [] then (if y mod 16 = 0 then Some [char_of (x * 4 + y div 16)] else None)
          else (case (b64_value c, b64_value d) of
              (Some z, Some u) \<Rightarrow> map_option (\<lambda>r. char_of (x * 4 + y div 16) # char_of (y mod 16 * 16 + z div 4) # char_of (z mod 4 * 64 + u) # r) (b64_decode cs)
            | (Some z, None) \<Rightarrow> if d = CHR ''='' \<and> cs = [] \<and> z mod 4 = 0 then Some [char_of (x * 4 + y div 16), char_of (y mod 16 * 16 + z div 4)] else None
            | _ \<Rightarrow> None)
      | _ \<Rightarrow> None)"
| "b64_decode _ = None"

lemma b64_all: "\<forall>i \<in> set [0..<64]. b64_value (b64_table ! i) = Some i \<and> b64_table ! i \<noteq> CHR ''=''"
  by code_simp

lemma b64_value_char [simp]: "b64_value (b64_char i) = Some (i mod 64)" "b64_char i \<noteq> CHR ''=''"
  using b64_all by (auto simp: b64_char_def)

lemma b64_value_pad [simp]: "b64_value CHR ''='' = None"
  by code_simp

lemma digits64:
  assumes "n = d3 * 262144 + d2 * 4096 + d1 * 64 + (d0 :: nat)" and "d0 < 64" "d1 < 64" "d2 < 64"
  shows "n div 262144 = d3 \<and> n div 4096 mod 64 = d2 \<and> n div 64 mod 64 = d1 \<and> n mod 64 = d0"
proof -
  have "n div 262144 = d3" "n div 4096 = d3 * 64 + d2" "n div 64 = d3 * 4096 + d2 * 64 + d1"
    using assms by (auto intro!: div_nat_eqI)
  moreover have "(d3 * 4096 + d2 * 64 + d1) mod 64 = d1"
    using assms(3) mod_mult_self2 [of d1 64 "d3 * 64 + d2"] by (simp add: algebra_simps)
  moreover have "n mod 64 = d0"
    using assms(1,2) mod_mult_self2 [of d0 64 "d3 * 4096 + d2 * 64 + d1"] by (simp add: algebra_simps)
  ultimately show ?thesis using assms by simp
qed

lemma b64_three:
  fixes a b c :: nat
  assumes "n = a * 65536 + b * 256 + c" and "a < 256" "b < 256" "c < 256"
  shows "n div 262144 mod 64 * 4 + n div 4096 mod 64 div 16 = a \<and> n div 4096 mod 64 mod 16 * 16 + n div 64 mod 64 div 4 = b
    \<and> n div 64 mod 64 mod 4 * 64 + n mod 64 = c \<and> (c = 0 \<longrightarrow> n div 64 mod 64 mod 4 = 0) \<and> (b = 0 \<longrightarrow> c = 0 \<longrightarrow> n div 4096 mod 64 mod 16 = 0)"
proof -
  have n: "n = (a div 4) * 262144 + (a mod 4 * 16 + b div 16) * 4096 + (b mod 16 * 4 + c div 64) * 64 + c mod 64"
  proof -
    have "a * 65536 = (a div 4 * 4 + a mod 4) * 65536" "b * 256 = (b div 16 * 16 + b mod 16) * 256" "c = c div 64 * 64 + c mod 64"
      by (simp_all only: div_mult_mod_eq)
    then show ?thesis unfolding assms(1) add_mult_distrib by linarith
  qed
  have "b div 16 < 16" "a div 4 < 64" "c div 64 < 4" "a mod 4 < 4" "b mod 16 < 16" "c mod 64 < 64" using assms by auto
  then have l: "a mod 4 * 16 + b div 16 < 64" "b mod 16 * 4 + c div 64 < 64" "a div 4 < 64" by linarith+
  have d: "n div 262144 = a div 4" "n div 4096 mod 64 = a mod 4 * 16 + b div 16" "n div 64 mod 64 = b mod 16 * 4 + c div 64" "n mod 64 = c mod 64"
    using digits64 [OF n] l by auto
  show ?thesis unfolding d using assms l by (simp add: mult.commute)
qed

text \<open>
  C00: the base64 that the synthesis worker writes by hand decodes, by the rules of RFC 4648, to the bytes it was given.
\<close>

theorem worker_base64_roundtrip:
  "b64_decode (encode_base64 bs) = Some bs"
proof (induction bs rule: encode_base64.induct)
  case (2 a)
  define n :: nat where "n = of_char a * 65536"
  show ?case
    using b64_three [of n "of_char a" 0 0] unfolding encode_base64.simps n_def [symmetric] Let_def by (simp add: n_def [symmetric])
next
  case (3 a b)
  define n :: nat where "n = of_char a * 65536 + of_char b * 256"
  show ?case
    using b64_three [of n "of_char a" "of_char b" 0] unfolding encode_base64.simps n_def [symmetric] Let_def by (simp add: n_def [symmetric])
next
  case (4 a b c bs)
  define n :: nat where "n = of_char a * 65536 + of_char b * 256 + of_char c"
  show ?case
    using b64_three [of n "of_char a" "of_char b" "of_char c"] 4 unfolding encode_base64.simps n_def [symmetric] Let_def by (simp add: n_def [symmetric])
qed simp

end
