(* ===== verification/Tts_Cache.thy ===== *)
theory Tts_Cache
  imports Wav_Audio
begin

text \<open>
  The cache of prepared speech (\<open>ttsworker/cache.go\<close>) and the clock of the source version that
  withdraws it (\<open>ttsworker/inventory.go\<close>). The LRU list and the map of its elements are kept by the
  code in step, entry for entry, so one list of entries, the most recent first, stands for both. The key of
  an identity is its JSON text, a parameter, as SHA-256 is.
\<close>

section \<open>Identities and entries\<close>

record synthesis_settings =
  ys_rate :: int
  ys_depth :: int
  ys_channels :: int
  ys_speaking :: fnum

record cache_identity =
  ci_text :: string
  ci_key :: string
  ci_version :: int
  ci_source :: int
  ci_sha :: string
  ci_language :: string
  ci_model :: string
  ci_voice :: string
  ci_settings :: synthesis_settings

record audio_entry =
  ae_id :: cache_identity
  ae_bytes :: string
  ae_checksum :: string
  ae_size :: int
  ae_created :: time
  ae_version :: int

record audio_cache =
  ac_ttl :: duration
  ac_max :: int
  ac_entries :: "audio_entry list"
  ac_bytes :: int

record speech_lib =
  yl_key :: "cache_identity \<Rightarrow> string"
  yl_sha :: "string \<Rightarrow> string"

definition cache_max_bytes :: int where "cache_max_bytes = 16 * 1024 * 1024"
definition cache_ttl :: duration where "cache_ttl = 24 * hour"

definition new_codec :: "int \<Rightarrow> duration \<Rightarrow> audio_cache" where
  "new_codec m ttl = \<lparr>ac_ttl = (if ttl \<le> 0 then cache_ttl else ttl), ac_max = (if m \<le> 0 then cache_max_bytes else m), ac_entries = [], ac_bytes = 0\<rparr>"

definition identity_error :: "cache_identity \<Rightarrow> string option" where
  "identity_error i = first_err
     [check (ci_text i = []) ''text'', check (ci_key i = []) ''template_key'', check (ci_language i = []) ''language'',
      check (ci_model i = []) ''model_revision'', check (ci_voice i = []) ''voice_revision'', check (ci_source i = 0) ''source_version'',
      check (ci_version i = 0) ''template_version'', check (ci_sha i = []) ''template_sha256'']"

section \<open>The operations\<close>

abbreviation entry_key :: "speech_lib \<Rightarrow> audio_entry \<Rightarrow> string" where
  "entry_key lib e \<equiv> yl_key lib (ae_id e)"

definition find_entry :: "speech_lib \<Rightarrow> cache_identity \<Rightarrow> audio_cache \<Rightarrow> audio_entry option" where
  "find_entry lib i c = List.find (\<lambda>e. entry_key lib e = yl_key lib i) (ac_entries c)"

definition remove_entry :: "speech_lib \<Rightarrow> audio_entry \<Rightarrow> audio_cache \<Rightarrow> audio_cache" where
  "remove_entry lib e c = c\<lparr>ac_entries := filter (\<lambda>x. entry_key lib x \<noteq> entry_key lib e) (ac_entries c), ac_bytes := ac_bytes c - ae_size e\<rparr>"

definition expired_entry :: "time \<Rightarrow> audio_cache \<Rightarrow> audio_entry \<Rightarrow> bool" where
  "expired_entry now c e \<longleftrightarrow> ac_ttl c < time_sub now (ae_created e)"

definition cache_get :: "speech_lib \<Rightarrow> time \<Rightarrow> int \<Rightarrow> cache_identity \<Rightarrow> audio_cache \<Rightarrow> audio_cache \<times> audio_entry option" where
  "cache_get lib now current i c = (case find_entry lib i c of
       None \<Rightarrow> (c, None)
     | Some e \<Rightarrow>
         if expired_entry now c e then (remove_entry lib e c, None)
         else if 0 \<le> current \<and> ae_version e < current then (remove_entry lib e c, None)
         else (c\<lparr>ac_entries := e # filter (\<lambda>x. entry_key lib x \<noteq> entry_key lib e) (ac_entries c)\<rparr>, Some e))"

text \<open>The loop that evicts takes the entries from the back, the least recent first.\<close>

fun evict_from :: "speech_lib \<Rightarrow> audio_entry list \<Rightarrow> audio_cache \<Rightarrow> audio_cache" where
  "evict_from lib [] c = c"
| "evict_from lib (e # es) c = (if ac_max c < ac_bytes c then evict_from lib es (remove_entry lib e c) else c)"

definition evict_over :: "speech_lib \<Rightarrow> audio_cache \<Rightarrow> audio_cache" where
  "evict_over lib c = evict_from lib (rev (ac_entries c)) c"

definition new_entry :: "speech_lib \<Rightarrow> time \<Rightarrow> int \<Rightarrow> cache_identity \<Rightarrow> string \<Rightarrow> audio_entry" where
  "new_entry lib now current i bytes = \<lparr>ae_id = i, ae_bytes = bytes, ae_checksum = yl_sha lib bytes, ae_size = int (length bytes),
     ae_created = now, ae_version = (if 0 \<le> current then current else -1)\<rparr>"

definition insert_entry :: "audio_entry \<Rightarrow> audio_cache \<Rightarrow> audio_cache" where
  "insert_entry e c = c\<lparr>ac_entries := e # ac_entries c, ac_bytes := ac_bytes c + ae_size e\<rparr>"

definition cache_put :: "speech_lib \<Rightarrow> time \<Rightarrow> int \<Rightarrow> cache_identity \<Rightarrow> string \<Rightarrow> audio_cache \<Rightarrow> string + audio_cache" where
  "cache_put lib now current i bytes c =
     (if bytes = [] then Inl ''empty bytes''
      else Inr (evict_over lib (insert_entry (new_entry lib now current i bytes)
        (case find_entry lib i c of None \<Rightarrow> c | Some e \<Rightarrow> remove_entry lib e c))))"

definition drop_entries :: "speech_lib \<Rightarrow> (audio_entry \<Rightarrow> bool) \<Rightarrow> audio_cache \<Rightarrow> audio_cache" where
  "drop_entries lib P c = foldr (\<lambda>e c. if P e then remove_entry lib e c else c) (ac_entries c) c"

definition handle_source_advance :: "speech_lib \<Rightarrow> int \<Rightarrow> audio_cache \<Rightarrow> audio_cache" where
  "handle_source_advance lib v c = drop_entries lib (\<lambda>e. 0 \<le> ae_version e \<and> ae_version e < v) c"

definition evict_expired :: "speech_lib \<Rightarrow> time \<Rightarrow> audio_cache \<Rightarrow> audio_cache \<times> nat" where
  "evict_expired lib now c = (drop_entries lib (expired_entry now c) c, length (filter (expired_entry now c) (ac_entries c)))"

definition invalidate_all :: "speech_lib \<Rightarrow> audio_cache \<Rightarrow> audio_cache \<times> nat" where
  "invalidate_all lib c = (drop_entries lib (\<lambda>e. True) c, length (ac_entries c))"

text \<open>The clock only advances; each advance is told to the listeners after the lock is released.\<close>

definition advance_clock :: "int \<Rightarrow> int \<Rightarrow> int \<times> int option" where
  "advance_clock v to = (if to \<le> v then (v, None) else (to, Some to))"

section \<open>The invariant of the cache\<close>

definition cache_ok :: "speech_lib \<Rightarrow> audio_cache \<Rightarrow> bool" where
  "cache_ok lib c \<longleftrightarrow> distinct (map (entry_key lib) (ac_entries c)) \<and> ac_bytes c = sum_list (map ae_size (ac_entries c))
     \<and> (\<forall>e \<in> set (ac_entries c). ae_size e = int (length (ae_bytes e)) \<and> ae_checksum e = yl_sha lib (ae_bytes e))"

lemma cache_ok_new [simp]: "cache_ok lib (new_codec m ttl)"
  by (simp add: cache_ok_def new_codec_def)

lemma sum_without:
  "distinct (map k xs) \<Longrightarrow> e \<in> set xs \<Longrightarrow> sum_list (map f (filter (\<lambda>x. k x \<noteq> k e) xs)) = sum_list (map f xs) - (f e :: int)"
proof (induction xs)
  case (Cons x xs)
  show ?case
  proof (cases "e \<in> set xs")
    case True
    then show ?thesis using Cons by (auto simp: image_iff)
  next
    case False
    then have "filter (\<lambda>x. k x \<noteq> k e) xs = xs" using Cons.prems by (auto simp: filter_id_conv image_iff)
    then show ?thesis using False Cons.prems by auto
  qed
qed simp

lemma distinct_without: "distinct (map k xs) \<Longrightarrow> distinct (map k (filter P xs))"
  by (rule distinct_map_filter)

lemma cache_ok_remove:
  "cache_ok lib c \<Longrightarrow> e \<in> set (ac_entries c) \<Longrightarrow> cache_ok lib (remove_entry lib e c)"
  using sum_without [of "entry_key lib" "ac_entries c" e ae_size] by (auto simp: cache_ok_def remove_entry_def distinct_without)

lemma find_entry_Some:
  "find_entry lib i c = Some e \<Longrightarrow> e \<in> set (ac_entries c) \<and> entry_key lib e = yl_key lib i"
  by (auto simp: find_entry_def find_Some_iff in_set_conv_nth)

lemma find_entry_iff:
  assumes "cache_ok lib c"
  shows "find_entry lib i c = Some e \<longleftrightarrow> e \<in> set (ac_entries c) \<and> entry_key lib e = yl_key lib i"
proof
  assume e: "e \<in> set (ac_entries c) \<and> entry_key lib e = yl_key lib i"
  then obtain e' where e': "find_entry lib i c = Some e'"
    by (cases "find_entry lib i c") (auto simp: find_entry_def find_None_iff)
  then have "entry_key lib e' = entry_key lib e" "e' \<in> set (ac_entries c)" using e find_entry_Some by fastforce+
  moreover have "inj_on (entry_key lib) (set (ac_entries c))" using assms by (simp add: cache_ok_def distinct_map)
  ultimately have "e' = e" using e by (blast dest: inj_onD)
  then show "find_entry lib i c = Some e" using e' by simp
qed (rule find_entry_Some)

lemma find_entry_None:
  "find_entry lib i c = None \<longleftrightarrow> yl_key lib i \<notin> entry_key lib ` set (ac_entries c)"
  unfolding find_entry_def find_None_iff image_iff by metis

lemma cache_ok_get: "cache_ok lib c \<Longrightarrow> cache_ok lib (fst (cache_get lib now current i c))"
proof (cases "find_entry lib i c")
  case (Some e)
  assume c: "cache_ok lib c"
  have e: "e \<in> set (ac_entries c)" using find_entry_Some [OF Some] by simp
  have "cache_ok lib (c\<lparr>ac_entries := e # filter (\<lambda>x. entry_key lib x \<noteq> entry_key lib e) (ac_entries c)\<rparr>)"
    using c e sum_without [of "entry_key lib" "ac_entries c" e ae_size] by (auto simp: cache_ok_def distinct_without)
  then show ?thesis using Some cache_ok_remove [OF c e] by (simp add: cache_get_def)
qed (simp add: cache_get_def)

lemma remove_last:
  assumes "cache_ok lib c" and "ac_entries c = es @ [e]"
  shows "ac_entries (remove_entry lib e c) = es"
proof -
  have "entry_key lib e \<notin> entry_key lib ` set es" using assms by (simp add: cache_ok_def)
  then have "filter (\<lambda>x. entry_key lib x \<noteq> entry_key lib e) es = es" by (auto simp: filter_id_conv image_iff)
  then show ?thesis using assms(2) by (simp add: remove_entry_def)
qed

lemma evict_from_ok:
  assumes "cache_ok lib c" and "ac_entries c = rev es"
  shows "cache_ok lib (evict_from lib es c) \<and> (ac_bytes (evict_from lib es c) \<le> ac_max c \<or> ac_entries (evict_from lib es c) = [])"
  using assms
proof (induction es arbitrary: c)
  case (Cons e es)
  have "cache_ok lib (remove_entry lib e c)" using Cons.prems by (intro cache_ok_remove) simp_all
  moreover have "ac_entries (remove_entry lib e c) = rev es" using Cons.prems by (intro remove_last) simp_all
  moreover have "ac_max (remove_entry lib e c) = ac_max c" by (simp add: remove_entry_def)
  ultimately show ?case using Cons.IH [of "remove_entry lib e c"] Cons.prems by auto
qed simp

lemma cache_ok_evict: "cache_ok lib c \<Longrightarrow> cache_ok lib (evict_over lib c)"
  using evict_from_ok [of lib c "rev (ac_entries c)"] by (simp add: evict_over_def)

lemma evict_from_set: "ac_max (evict_from lib es c) = ac_max c \<and> ac_ttl (evict_from lib es c) = ac_ttl c
    \<and> set (ac_entries (evict_from lib es c)) \<subseteq> set (ac_entries c)"
proof (induction es arbitrary: c)
  case (Cons e es)
  have "set (ac_entries (remove_entry lib e c)) \<subseteq> set (ac_entries c)" "ac_max (remove_entry lib e c) = ac_max c"
      "ac_ttl (remove_entry lib e c) = ac_ttl c"
    by (auto simp: remove_entry_def)
  then show ?case using Cons [of "remove_entry lib e c"] by auto
qed simp

lemma evict_within: "ac_max (evict_over lib c) = ac_max c \<and> ac_ttl (evict_over lib c) = ac_ttl c
    \<and> set (ac_entries (evict_over lib c)) \<subseteq> set (ac_entries c)
    \<and> (cache_ok lib c \<longrightarrow> ac_bytes (evict_over lib c) \<le> ac_max c \<or> ac_entries (evict_over lib c) = [])"
  using evict_from_set evict_from_ok [of lib c "rev (ac_entries c)"] by (simp add: evict_over_def)

lemma cache_ok_insert:
  "cache_ok lib c \<Longrightarrow> yl_key lib i \<notin> entry_key lib ` set (ac_entries c) \<Longrightarrow> cache_ok lib (insert_entry (new_entry lib now cur i bytes) c)"
  by (auto simp: cache_ok_def insert_entry_def new_entry_def)

lemma replaced_free:
  assumes "cache_ok lib c"
  shows "cache_ok lib (case find_entry lib i c of None \<Rightarrow> c | Some e \<Rightarrow> remove_entry lib e c)"
    and "yl_key lib i \<notin> entry_key lib ` set (ac_entries (case find_entry lib i c of None \<Rightarrow> c | Some e \<Rightarrow> remove_entry lib e c))"
proof -
  show "cache_ok lib (case find_entry lib i c of None \<Rightarrow> c | Some e \<Rightarrow> remove_entry lib e c)"
    using assms find_entry_Some [of lib i c] cache_ok_remove [OF assms] by (cases "find_entry lib i c") auto
  show "yl_key lib i \<notin> entry_key lib ` set (ac_entries (case find_entry lib i c of None \<Rightarrow> c | Some e \<Rightarrow> remove_entry lib e c))"
  proof (cases "find_entry lib i c")
    case None
    then show ?thesis using find_entry_None [of lib i c] by simp
  next
    case (Some e)
    then show ?thesis using find_entry_Some [OF Some] by (auto simp: remove_entry_def)
  qed
qed

lemma cache_ok_put: "cache_ok lib c \<Longrightarrow> cache_put lib now current i bytes c = Inr c' \<Longrightarrow> cache_ok lib c'"
  using replaced_free [of lib c i] by (auto simp: cache_put_def split: if_splits intro!: cache_ok_evict cache_ok_insert)

lemma put_entries:
  assumes "cache_put lib now current i bytes c = Inr c'"
  shows "set (ac_entries c') \<subseteq> insert (new_entry lib now current i bytes) (set (ac_entries c)) \<and> ac_ttl c' = ac_ttl c \<and> ac_max c' = ac_max c
    \<and> (cache_ok lib c \<longrightarrow> 0 \<le> ac_max c \<longrightarrow> ac_bytes c' \<le> ac_max c)"
proof -
  let ?r = "case find_entry lib i c of None \<Rightarrow> c | Some e \<Rightarrow> remove_entry lib e c"
  let ?c = "insert_entry (new_entry lib now current i bytes) ?r"
  have c': "c' = evict_over lib ?c" using assms by (auto simp: cache_put_def split: if_splits)
  have r: "set (ac_entries ?r) \<subseteq> set (ac_entries c) \<and> ac_ttl ?r = ac_ttl c \<and> ac_max ?r = ac_max c"
    by (auto simp: remove_entry_def split: option.splits)
  note w = evict_within [of lib ?c]
  have "ac_bytes c' \<le> ac_max c" if "cache_ok lib c" "0 \<le> ac_max c"
  proof -
    have "cache_ok lib ?c" using replaced_free [OF that(1), of i] by (rule cache_ok_insert)
    then have "ac_bytes c' \<le> ac_max c \<or> ac_entries c' = []" using w r by (simp add: c' insert_entry_def)
    then show ?thesis using cache_ok_put [OF that(1) assms] that(2) by (auto simp: cache_ok_def)
  qed
  then show ?thesis using w r by (auto simp: c' insert_entry_def)
qed

lemma drop_entries_set: "set (ac_entries (drop_entries lib P c)) \<subseteq> set (ac_entries c) \<and> ac_ttl (drop_entries lib P c) = ac_ttl c \<and> ac_max (drop_entries lib P c) = ac_max c"
proof -
  have "set (ac_entries (foldr (\<lambda>e c. if P e then remove_entry lib e c else c) es c)) \<subseteq> set (ac_entries c)
      \<and> ac_ttl (foldr (\<lambda>e c. if P e then remove_entry lib e c else c) es c) = ac_ttl c
      \<and> ac_max (foldr (\<lambda>e c. if P e then remove_entry lib e c else c) es c) = ac_max c" for es
    by (induction es) (auto simp: remove_entry_def)
  then show ?thesis by (simp add: drop_entries_def)
qed

lemma cache_ok_drop:
  assumes "cache_ok lib c" shows "cache_ok lib (drop_entries lib P c)"
proof -
  define f where "f = (\<lambda>e c. if P e then remove_entry lib e c else c)"
  have "distinct (map (entry_key lib) es) \<Longrightarrow> set es \<subseteq> set (ac_entries c) \<Longrightarrow> cache_ok lib (foldr f es c)
      \<and> set (ac_entries (foldr f es c)) \<subseteq> set (ac_entries c)
      \<and> (\<forall>e \<in> set (ac_entries c). entry_key lib e \<notin> entry_key lib ` set es \<longrightarrow> e \<in> set (ac_entries (foldr f es c)))" for es
  proof (induction es)
    case Nil
    then show ?case using assms by simp
  next
    case (Cons e es)
    then have IH: "cache_ok lib (foldr f es c)" "set (ac_entries (foldr f es c)) \<subseteq> set (ac_entries c)"
        "\<forall>e \<in> set (ac_entries c). entry_key lib e \<notin> entry_key lib ` set es \<longrightarrow> e \<in> set (ac_entries (foldr f es c))"
      by auto
    have e: "e \<in> set (ac_entries (foldr f es c))" using IH(3) Cons.prems by auto
    have k: "entry_key lib x \<noteq> entry_key lib e" if "x \<in> set (ac_entries c)" "x \<noteq> e" for x
      using assms that Cons.prems(2) by (auto simp: cache_ok_def distinct_map dest: inj_onD)
    show ?case
      using IH cache_ok_remove [OF IH(1) e] k Cons.prems by (auto simp: f_def remove_entry_def)
  qed
  from this [of "ac_entries c"] show ?thesis using assms by (simp add: drop_entries_def f_def cache_ok_def)
qed

end
