(* ===== verification/Tts_Templates.thy ===== *)
theory Tts_Templates
  imports Voice_Template
begin

text \<open>
  The catalog of reviewed templates of the synthesis worker and its renderer
  (\<open>ttsworker/templates/templates.go\<close>): registration, withdrawal, the validation of arguments and the
  substitution of placeholders. The time of a rendering is left out. A Go map is ranged over in the
  order of its association list.
\<close>

section \<open>The catalog\<close>

record speech_template =
  sk_key :: string
  sk_status :: string
  sk_version :: int
  sk_languages :: "string list"
  sk_schema :: "(string, string) gomap"
  sk_translations :: "(string, string) gomap"

record speech_catalog =
  sg_templates :: "(string, speech_template) gomap"
  sg_versions :: "(string, int) gomap"

record speech_arg =
  sa_name :: string
  sa_type :: string
  sa_value :: string

datatype catalog_error = UnknownKey | Withdrawn | PendingReview | SyntheticOnly | LanguageUnsupported | NoTranslation
  | UnknownArg string | ArgMismatch msg | MalformedTemplate | InvalidTemplate msg

definition new_catalog :: speech_catalog where
  "new_catalog = \<lparr>sg_templates = [], sg_versions = []\<rparr>"

fun placeholder_error :: "string \<Rightarrow> string \<Rightarrow> (string, string) gomap \<Rightarrow> string \<Rightarrow> catalog_error option" where
  "placeholder_error key lang schema [] = None"
| "placeholder_error key lang schema (c # body) =
     (if c \<noteq> CHR ''{'' then placeholder_error key lang schema body
      else case index_byte body (CHR ''}'') of
          None \<Rightarrow> Some (InvalidTemplate (Fmt ''unterminated placeholder in %q'' [AStr key]))
        | Some e \<Rightarrow> if \<not> has_key schema (take e body)
            then Some (InvalidTemplate (Fmt ''translation for %s references undeclared arg %q'' [AStr lang, AStr (take e body)]))
            else placeholder_error key lang schema body)"

definition validate_template :: "speech_template option \<Rightarrow> catalog_error option" where
  "validate_template t = (case t of
       None \<Rightarrow> Some (InvalidTemplate (plain ''nil template''))
     | Some t \<Rightarrow> first_err
         [check (sk_key t = []) (InvalidTemplate (plain ''template key is empty'')),
          check (sk_status t \<notin> {''APPROVED'', ''PENDING_REVIEW'', ''SYNTHETIC_ONLY'', ''WITHDRAWN''})
            (InvalidTemplate (Fmt ''template status %q invalid'' [AStr (sk_status t)])),
          check (sk_languages t = []) (InvalidTemplate (plain ''template has no languages'')),
          each_err (\<lambda>(lang, body). first_err
            [check (lang \<notin> set (sk_languages t)) (InvalidTemplate (Fmt ''translation present for undeclared language %q'' [AStr lang])),
             placeholder_error (sk_key t) lang (sk_schema t) body]) (sk_translations t)])"

definition register_template :: "speech_template option \<Rightarrow> speech_catalog \<Rightarrow> catalog_error + speech_catalog" where
  "register_template t c =
     require (validate_template t)
       (case t of None \<Rightarrow> c | Some t \<Rightarrow>
         \<lparr>sg_templates = put (sk_key t) t (sg_templates c), sg_versions = put (sk_key t) (sk_version t) (sg_versions c)\<rparr>)"

definition lookup_template :: "speech_catalog \<Rightarrow> string \<Rightarrow> speech_template option" where
  "lookup_template c k = get (sg_templates c) k"

definition catalog_keys :: "speech_catalog \<Rightarrow> string list" where
  "catalog_keys c = sort (map fst (sg_templates c))"

definition snapshot_catalog :: "speech_catalog \<Rightarrow> speech_catalog" where
  "snapshot_catalog c = foldl (\<lambda>cp (k, t). \<lparr>sg_templates = put k t (sg_templates cp), sg_versions = put k (sk_version t) (sg_versions cp)\<rparr>)
     new_catalog (sg_templates c)"

definition withdraw_template :: "string \<Rightarrow> int \<Rightarrow> speech_catalog \<Rightarrow> catalog_error + speech_catalog" where
  "withdraw_template k v c = (case get (sg_templates c) k of
       None \<Rightarrow> Inl UnknownKey
     | Some t \<Rightarrow> Inr \<lparr>sg_templates = put k (t\<lparr>sk_status := ''WITHDRAWN''\<rparr>) (sg_templates c), sg_versions = put k v (sg_versions c)\<rparr>)"

section \<open>Arguments\<close>

text \<open>Here a text is no integer, unlike in the pipeline; an exact float is one.\<close>

definition speech_int :: "arg_value \<Rightarrow> int option" where
  "speech_int v = (case v of AVInt i \<Rightarrow> Some i | _ \<Rightarrow> None)"

definition validated_arg :: "(string, string) gomap \<Rightarrow> string \<times> arg_value \<Rightarrow> catalog_error + speech_arg" where
  "validated_arg schema = (\<lambda>(n, v). case get schema n of
       None \<Rightarrow> Inl (UnknownArg n)
     | Some t \<Rightarrow>
         if t = ''string'' then (case v of
             AVText s \<Rightarrow> require (first_err
               [check (s = []) (ArgMismatch (Fmt ''%q must be non-empty string'' [AStr n])),
                check (\<not> valid_id_char s) (ArgMismatch (Fmt ''%q contains forbidden characters'' [AStr n]))])
               \<lparr>sa_name = n, sa_type = t, sa_value = s\<rparr>
           | _ \<Rightarrow> Inl (ArgMismatch (Fmt ''%q must be non-empty string'' [AStr n])))
         else if t = ''int'' then (case speech_int v of
             None \<Rightarrow> Inl (ArgMismatch (Fmt ''%q must be integer'' [AStr n]))
           | Some i \<Rightarrow> Inr \<lparr>sa_name = n, sa_type = t, sa_value = show_int i\<rparr>)
         else Inl (ArgMismatch (Fmt ''type %q unknown'' [AStr t])))"

definition validate_args :: "speech_catalog \<Rightarrow> string \<Rightarrow> (string, arg_value) gomap \<Rightarrow> catalog_error + speech_arg list" where
  "validate_args c k raw = (case get (sg_templates c) k of
       None \<Rightarrow> Inl UnknownKey
     | Some t \<Rightarrow> bind_res (map_res (validated_arg (sk_schema t)) raw) (\<lambda>out.
         if length out \<noteq> length (sk_schema t) then Inl (ArgMismatch (plain ''missing arg(s)''))
         else Inr (sort_key sa_name out)))"

section \<open>Rendering\<close>

definition named_arg :: "speech_arg list \<Rightarrow> string \<Rightarrow> speech_arg option" where
  "named_arg args n = List.find (\<lambda>a. sa_name a = n) (rev args)"

lemma index_byte_less: "index_byte s c = Some e \<Longrightarrow> e < length s"
  by (induction s c arbitrary: e rule: index_byte.induct) (auto split: if_splits)

function substitute_body :: "(string, string) gomap \<Rightarrow> speech_arg list \<Rightarrow> string \<Rightarrow> catalog_error + string" where
  "substitute_body schema args [] = Inr []"
| "substitute_body schema args (c # body) =
     (if c \<noteq> CHR ''{'' then bind_res (substitute_body schema args body) (\<lambda>r. Inr (c # r))
      else case index_byte body (CHR ''}'') of
          None \<Rightarrow> Inl MalformedTemplate
        | Some e \<Rightarrow>
           (let n = take e body
            in if n = [] then Inl MalformedTemplate
               else if \<not> has_key schema n then Inl (UnknownArg n)
               else case named_arg args n of
                   None \<Rightarrow> Inl (ArgMismatch (Fmt ''%q missing'' [AStr n]))
                 | Some a \<Rightarrow>
                     if \<not> valid_id_char (sa_value a) then Inl (ArgMismatch (Fmt ''%q contains forbidden characters'' [AStr n]))
                     else bind_res (substitute_body schema args (drop (Suc e) body)) (\<lambda>r. Inr (sa_value a @ r))))"
  by pat_completeness auto
termination
  by (relation "measure (\<lambda>(_, _, body). length body)") auto

definition substitute_args :: "(string, string) gomap \<Rightarrow> speech_arg list \<Rightarrow> string \<Rightarrow> catalog_error + string" where
  "substitute_args schema args body = (if CHR ''{'' \<notin> set body then Inr body else substitute_body schema args body)"

record speech_renderer =
  sn_synthetic :: bool
  sn_withdrawn :: bool

record rendered_speech =
  rn_key :: string
  rn_language :: string
  rn_text :: string
  rn_status :: string
  rn_version :: int

definition render_speech_template :: "speech_renderer \<Rightarrow> speech_catalog \<Rightarrow> string \<Rightarrow> string \<Rightarrow> speech_arg list \<Rightarrow> catalog_error + rendered_speech" where
  "render_speech_template r c k l args = (case lookup_template c k of
       None \<Rightarrow> Inl UnknownKey
     | Some t \<Rightarrow>
         bind_res (require (first_err
           [check (sk_status t = ''WITHDRAWN'' \<and> \<not> sn_withdrawn r) Withdrawn,
            check (sk_status t = ''SYNTHETIC_ONLY'' \<and> \<not> sn_synthetic r) SyntheticOnly,
            check (sk_status t = ''PENDING_REVIEW'') PendingReview,
            check (l \<notin> set (sk_languages t)) LanguageUnsupported]) ()) (\<lambda>_.
         case get (sk_translations t) l of
           None \<Rightarrow> Inl NoTranslation
         | Some body \<Rightarrow> bind_res (substitute_args (sk_schema t) args body) (\<lambda>x.
             Inr \<lparr>rn_key = sk_key t, rn_language = l, rn_text = x, rn_status = sk_status t, rn_version = sk_version t\<rparr>)))"

section \<open>What a registered template renders to\<close>

definition catalog_ok :: "speech_catalog \<Rightarrow> bool" where
  "catalog_ok c \<longleftrightarrow> (\<forall>k t. get (sg_templates c) k = Some t \<longrightarrow> sk_key t = k \<and> validate_template (Some t) = None)"

lemma catalog_ok_new [simp]: "catalog_ok new_catalog"
  by (simp add: catalog_ok_def new_catalog_def)

lemma catalog_ok_register: "catalog_ok c \<Longrightarrow> register_template t c = Inr c' \<Longrightarrow> catalog_ok c'"
  by (cases t) (auto simp: register_template_def catalog_ok_def validate_template_def [of None] split: if_splits)

lemma catalog_ok_withdraw: "catalog_ok c \<Longrightarrow> withdraw_template k v c = Inr c' \<Longrightarrow> catalog_ok c'"
  by (fastforce simp: withdraw_template_def catalog_ok_def validate_template_def check_simps split: option.splits if_splits)

lemma catalog_ok_snapshot: "catalog_ok c \<Longrightarrow> wf_map (sg_templates c) \<Longrightarrow> catalog_ok (snapshot_catalog c)"
proof -
  assume c: "catalog_ok c" "wf_map (sg_templates c)"
  have "get (sg_templates (foldl (\<lambda>cp (k, t). \<lparr>sg_templates = put k t (sg_templates cp), sg_versions = put k (sk_version t) (sg_versions cp)\<rparr>) cp xs)) k = Some t
      \<Longrightarrow> get (sg_templates cp) k = Some t \<or> (k, t) \<in> set xs" for cp xs k t
    by (induction xs arbitrary: cp) (fastforce split: if_splits)+
  then show ?thesis
    using c by (fastforce simp: catalog_ok_def snapshot_catalog_def new_catalog_def get_iff_mem)
qed

lemma length_show_nat: "n < 10 ^ k \<Longrightarrow> 0 < k \<Longrightarrow> length (show_nat n) \<le> k"
proof (induction k arbitrary: n)
  case (Suc k)
  show ?case
  proof (cases "n < 10")
    case False
    then have "n div 10 < 10 ^ k" "0 < k" using Suc.prems by (auto simp: less_mult_imp_div_less mult.commute intro: Nat.gr0I)
    then show ?thesis using Suc.IH False by (simp add: show_nat.simps [of n])
  qed (simp add: show_nat.simps [of n])
qed simp

lemma digit_id_char: "d < 10 \<Longrightarrow> id_char (digit_char d)"
  by (simp add: id_char_def digit_char_def Let_def)

lemma show_nat_id: "list_all id_char (show_nat n)"
  by (induction n rule: show_nat.induct) (subst show_nat.simps, auto simp: digit_id_char)

lemma show_int_id:
  assumes "\<bar>i\<bar> \<le> 2 ^ 63" shows "valid_id_char (show_int i)"
proof -
  have "length (show_nat (nat \<bar>i\<bar>)) \<le> 19"
    using assms by (intro length_show_nat) (auto simp: nat_less_iff)
  then show ?thesis
    using show_nat_id show_nat_nonempty by (auto simp: valid_id_char_def show_int_def id_char_def abs_if split: if_splits)
qed

definition int64_args :: "(string, arg_value) gomap \<Rightarrow> bool" where
  "int64_args raw = list_all (\<lambda>p. case snd p of AVInt i \<Rightarrow> \<bar>i\<bar> \<le> 2 ^ 63 | _ \<Rightarrow> True) raw"

lemma validated_arg_Inr:
  assumes "validated_arg schema (n, v) = Inr a" and "\<And>i. v = AVInt i \<Longrightarrow> \<bar>i\<bar> \<le> 2 ^ 63"
  shows "sa_name a = n \<and> has_key schema n \<and> valid_id_char (sa_value a)"
  using assms show_int_id
  by (auto simp: validated_arg_def has_key_def check_simps speech_int_def split: option.splits if_splits arg_value.splits)

lemma validated_args:
  assumes "validate_args c k raw = Inr args" and "lookup_template c k = Some t" and "int64_args raw" and "wf_map raw" "wf_map (sk_schema t)"
    and "has_key (sk_schema t) n"
  shows "\<exists>a. named_arg args n = Some a \<and> valid_id_char (sa_value a)"
proof -
  obtain out where out: "list_all2 (\<lambda>x y. validated_arg (sk_schema t) x = Inr y) raw out" "length out = length (sk_schema t)" "args = sort_key sa_name out"
    using assms(1,2) by (auto simp: validate_args_def lookup_template_def bind_res_Inr map_res_Inr split: if_splits)
  have names: "list_all2 (\<lambda>x a. sa_name a = fst x \<and> has_key (sk_schema t) (fst x) \<and> valid_id_char (sa_value a)) raw out"
    unfolding list_all2_conv_all_nth
  proof (intro conjI allI impI)
    show "length raw = length out" using out(1) by (rule list_all2_lengthD)
    fix i assume i: "i < length raw"
    then have "validated_arg (sk_schema t) (fst (raw ! i), snd (raw ! i)) = Inr (out ! i)" using list_all2_nthD [OF out(1) i] by simp
    moreover have "\<bar>j\<bar> \<le> 2 ^ 63" if "snd (raw ! i) = AVInt j" for j
      using assms(3) i that by (auto simp: int64_args_def list_all_length dest: spec [of _ i])
    ultimately show "sa_name (out ! i) = fst (raw ! i)" "has_key (sk_schema t) (fst (raw ! i))" "valid_id_char (sa_value (out ! i))"
      using validated_arg_Inr by blast+
  qed
  have "fst ` set raw \<subseteq> fst ` set (sk_schema t)"
  proof
    fix x assume "x \<in> fst ` set raw"
    then obtain i where "i < length raw" "fst (raw ! i) = x" by (auto simp: in_set_conv_nth)
    then show "x \<in> fst ` set (sk_schema t)"
      using list_all2_nthD [OF names, of i] by (auto simp: has_key_def map_of_eq_None_iff)
  qed
  moreover have "card (fst ` set raw) = length raw" "card (fst ` set (sk_schema t)) = length (sk_schema t)"
    using assms(4,5) distinct_card [of "map fst raw"] distinct_card [of "map fst (sk_schema t)"] by (simp_all add: wf_map_def)
  ultimately have "fst ` set raw = fst ` set (sk_schema t)"
    using out(1,2) by (intro card_subset_eq) (auto dest: list_all2_lengthD)
  then have "n \<in> fst ` set raw" using assms(6) by (simp add: has_key_def map_of_eq_None_iff)
  then obtain i where "i < length raw" "fst (raw ! i) = n" by (auto simp: in_set_conv_nth)
  then have "out ! i \<in> set out" "sa_name (out ! i) = n"
    using names list_all2_lengthD [OF names] list_all2_nthD [OF names] by auto
  then have "\<exists>a \<in> set (rev args). sa_name a = n" using out(3) by auto
  then obtain a where a: "named_arg args n = Some a" by (cases "named_arg args n") (auto simp: named_arg_def find_None_iff)
  then obtain j where "j < length (rev args)" "rev args ! j = a" by (auto simp: named_arg_def find_Some_iff)
  then have "a \<in> set (rev args)" using nth_mem by blast
  then have "a \<in> set out" using out(3) by simp
  then obtain j where "j < length out" "out ! j = a" by (auto simp: in_set_conv_nth)
  then show ?thesis using a list_all2_nthD2 [OF names, of j] by auto
qed

lemma index_byte_free: "index_byte s c = Some e \<Longrightarrow> c \<notin> set (take e s)"
  by (induction s c arbitrary: e rule: index_byte.induct) (auto split: if_splits)

lemma placeholder_ok_tail: "placeholder_error k l schema (xs @ ys) = None \<Longrightarrow> placeholder_error k l schema ys = None"
  by (induction xs) (auto split: if_splits option.splits)

text \<open>With an argument for every name of the schema, a checked body is substituted, and no placeholder remains.\<close>

lemma substitute_total:
  assumes "\<And>n. has_key schema n \<Longrightarrow> \<exists>a. named_arg args n = Some a \<and> valid_id_char (sa_value a)" and "\<not> has_key schema []"
    and "placeholder_error k l schema body = None"
  shows "\<exists>r. substitute_body schema args body = Inr r \<and> CHR ''{'' \<notin> set r"
  using assms
proof (induction schema args body rule: substitute_body.induct)
  case (2 schema args c body)
  show ?case
  proof (cases "c = CHR ''{''")
    case False
    then show ?thesis using 2 by auto
  next
    case True
    then obtain e where e: "index_byte body (CHR ''}'') = Some e" "has_key schema (take e body)" "placeholder_error k l schema body = None"
      using 2 by (auto split: option.splits if_splits)
    have ne: "take e body \<noteq> []" using e(2) 2(4) by metis
    obtain a where a: "named_arg args (take e body) = Some a" "valid_id_char (sa_value a)"
      using 2(3) [OF e(2)] by blast
    have "placeholder_error k l schema (drop (Suc e) body) = None"
      using placeholder_ok_tail [of k l schema "take (Suc e) body" "drop (Suc e) body"] e(3) by simp
    moreover have "CHR ''{'' \<notin> set (sa_value a)"
      using a(2) by (auto simp: valid_id_char_def list_all_iff id_char_def)
    moreover obtain r where "substitute_body schema args (drop (Suc e) body) = Inr r" "CHR ''{'' \<notin> set r"
      using 2(2) [OF _ e(1) refl _ _ a(1)] 2(3,4) True e a ne calculation(1) by auto
    ultimately show ?thesis using True e a ne by (auto simp: Let_def)
  qed
qed simp

text \<open>
  An approved template of a catalog built by registrations and withdrawals renders, for arguments that
  passed the validation, in every language it has a translation for, and the rendered text has no placeholder left.
\<close>

theorem validated_args_render:
  assumes "catalog_ok c" and "validate_args c k raw = Inr args" and "lookup_template c k = Some t"
    and "sk_status t = ''APPROVED''" "get (sk_translations t) l = Some body"
    and "int64_args raw" "wf_map raw" "wf_map (sk_schema t)" "\<not> has_key (sk_schema t) []"
  shows "\<exists>r. render_speech_template rd c k l args = Inr r \<and> rn_key r = k \<and> CHR ''{'' \<notin> set (rn_text r)"
proof -
  have t: "sk_key t = k" "validate_template (Some t) = None"
    using assms(1,3) by (auto simp: catalog_ok_def lookup_template_def)
  have m: "(l, body) \<in> set (sk_translations t)" using assms(5) by (rule map_of_SomeD)
  then have l: "l \<in> set (sk_languages t)" "placeholder_error k l (sk_schema t) body = None"
    using t by (auto simp: validate_template_def check_simps)
  obtain r where "substitute_body (sk_schema t) args body = Inr r" "CHR ''{'' \<notin> set r"
    using substitute_total [OF _ assms(9) l(2)] validated_args [OF assms(2,3,6,7,8)] by blast
  then show ?thesis
    using assms(3,4,5) l(1) t(1) by (auto simp: render_speech_template_def check_def substitute_args_def require_def)
qed

text \<open>A withdrawn template is never rendered again by a renderer that was not told to.\<close>

lemma withdrawn_not_rendered:
  "withdraw_template k v c = Inr c' \<Longrightarrow> \<not> sn_withdrawn rd \<Longrightarrow> render_speech_template rd c' k l args = Inl Withdrawn"
  by (auto simp: withdraw_template_def render_speech_template_def lookup_template_def require_def check_def split: option.splits)

end
