(* ===== verification/Tts_Worker.thy ===== *)
theory Tts_Worker
  imports Tts_Cache Tts_Templates
begin

text \<open>
  The synthesis worker (\<open>ttsworker/worker.go\<close>, the inventory of \<open>inventory.go\<close>, the request checks of
  \<open>server.go\<close>): its bounded queue, its pool, which only serves speech prepared before, the withdrawal of
  templates and of source versions, and shutdown. A job is served in two steps, the checks before the
  cache and the lookup under the lock of the cache, since the clock may advance between them.
\<close>

section \<open>The inventory\<close>

record speech_inventory =
  si_license :: string
  si_runtime :: string
  si_hardware :: string
  si_revision :: string
  si_matches :: "(string \<times> string \<times> string) list"
  si_pending :: "string list"
  si_languages :: "string list"
  si_remote :: bool

definition inventory_ready :: "speech_inventory \<Rightarrow> string option" where
  "inventory_ready iv = first_err
     [check (si_pending iv \<noteq> []) ''inventory has pending critical components'',
      check (si_license iv \<in> {''LicensePending'', []}) ''license is not authorized'',
      check (si_runtime iv \<in> {''LicensePending'', []}) ''runtime is not authorized'',
      check (si_hardware iv \<in> {''LicensePending'', []}) ''hardware is not authorized'',
      check (si_revision iv = []) ''model revision is not recorded'',
      check (si_languages iv = []) ''supported languages is empty'',
      each_err (\<lambda>(n, sum, st). check (st \<notin> {''OK'', ''LICENSE_PENDING''}) (''hash match status is not OK: '' @ st)) (si_matches iv),
      check (si_remote iv) ''remote_code trust must be false'']"

text \<open>The scan of a directory; \<open>stat\<close> gives the size of a file that exists, and \<open>sum_of\<close> its digest when it can be read.\<close>

definition scan_components :: "(string \<times> string) list" where
  "scan_components = [(''prompt_prefix'', ''/prompt_prefix.json''), (''runtime'', ''/parler_tts_runtime.py''),
     (''tokenizer'', ''/tokenizer''), (''voice_registry'', ''/voices.json'')]"

definition component_match :: "(string \<Rightarrow> int option) \<Rightarrow> (string \<Rightarrow> string option) \<Rightarrow> string \<Rightarrow> string \<times> string \<Rightarrow> string \<times> string \<times> string" where
  "component_match stat sum_of root = (\<lambda>(n, rel). case stat (root @ rel) of
       None \<Rightarrow> (n, [], ''MISSING_ON_DISK'')
     | Some sz \<Rightarrow> (n, if 0 < sz \<and> sz \<le> 64 * 1024 then (case sum_of (root @ rel) of None \<Rightarrow> [] | Some h \<Rightarrow> h) else [], ''MISSING_RECORDED''))"

definition scan_local_inventory :: "(string \<Rightarrow> int option) \<Rightarrow> (string \<Rightarrow> string option) \<Rightarrow> string \<Rightarrow> speech_inventory \<Rightarrow> speech_inventory" where
  "scan_local_inventory stat sum_of root iv =
     (if trim_space root = [] then
        iv\<lparr>si_pending := [''model_checkpoint'', ''prompt_prefix'', ''runtime'', ''tokenizer'', ''voice_registry''], si_matches := [], si_languages := []\<rparr>
      else
        (let found = stat (root @ ''/model.safetensors'') \<noteq> None \<or> stat (root @ ''/pytorch_model.bin'') \<noteq> None;
             ms = (''model_checkpoint'', [], if found then ''MISSING_RECORDED'' else ''MISSING_ON_DISK'') # map (component_match stat sum_of root) scan_components
         in iv\<lparr>si_matches := ms, si_pending := map fst (filter (\<lambda>(n, h, st). st = ''MISSING_ON_DISK'') ms), si_languages := []\<rparr>))"

section \<open>One job\<close>

record synth_request =
  yq_request :: string
  yq_key :: string
  yq_language :: string
  yq_text :: string
  yq_source :: int
  yq_version :: int
  yq_sha :: string
  yq_settings :: synthesis_settings
  yq_voice :: string

record synth_response =
  yp_request :: string
  yp_key :: string
  yp_language :: string
  yp_state :: string
  yp_audio :: string
  yp_checksum :: string
  yp_model :: string
  yp_voice :: string
  yp_settings :: "synthesis_settings option"
  yp_hit :: bool
  yp_size :: int

text \<open>The runtime: the voice of a language, the revision, and the native rate of the real adapter.\<close>

record speech_runtime =
  yr_voice :: "string \<Rightarrow> string"
  yr_revision :: string
  yr_native :: "int option"

definition error_response :: "synth_request \<Rightarrow> string \<Rightarrow> synth_response" where
  "error_response req st = \<lparr>yp_request = yq_request req, yp_key = yq_key req, yp_language = yq_language req, yp_state = st,
     yp_audio = [], yp_checksum = [], yp_model = [], yp_voice = [], yp_settings = None, yp_hit = False, yp_size = 0\<rparr>"

definition voice_revision :: "speech_runtime \<Rightarrow> synth_request \<Rightarrow> string" where
  "voice_revision rt req = (if yr_voice rt (yq_language req) = [] then yq_voice req else yr_voice rt (yq_language req))"

definition identity_of :: "speech_runtime \<Rightarrow> synth_request \<Rightarrow> cache_identity" where
  "identity_of rt req = \<lparr>ci_text = yq_text req, ci_key = yq_key req, ci_version = yq_version req, ci_source = yq_source req,
     ci_sha = yq_sha req, ci_language = yq_language req, ci_model = yr_revision rt, ci_voice = voice_revision rt req,
     ci_settings = (case yr_native rt of None \<Rightarrow> yq_settings req | Some r \<Rightarrow> (yq_settings req)\<lparr>ys_rate := r\<rparr>)\<rparr>"

text \<open>The checks before the cache: the state that is answered, or the identity to look up.\<close>

definition pre_flight :: "speech_catalog \<Rightarrow> speech_inventory \<Rightarrow> speech_runtime \<Rightarrow> int \<Rightarrow> synth_request \<Rightarrow> string + cache_identity" where
  "pre_flight cat iv rt current req =
     require (first_err
       [check (yq_text req = []) ''AUDIO_UNAVAILABLE'',
        check (yq_key req = []) ''AUDIO_UNAVAILABLE'',
        (case lookup_template cat (yq_key req) of
           None \<Rightarrow> Some ''AUDIO_UNAVAILABLE''
         | Some t \<Rightarrow> check (sk_status t = ''WITHDRAWN'') ''STALE_VERSION''),
        check (yq_source req \<noteq> current) ''STALE_VERSION'',
        check (yq_language req \<notin> set (si_languages iv)) ''UNSUPPORTED_LANGUAGE'',
        check (yq_voice req \<noteq> [] \<and> yq_voice req \<noteq> voice_revision rt req) ''AUDIO_UNAVAILABLE'',
        check (identity_error (identity_of rt req) \<noteq> None) ''AUDIO_UNAVAILABLE'']) (identity_of rt req)"

definition look_up :: "speech_lib \<Rightarrow> time \<Rightarrow> int \<Rightarrow> synth_request \<Rightarrow> cache_identity \<Rightarrow> audio_cache \<Rightarrow> audio_cache \<times> synth_response" where
  "look_up lib now current req i c = (case cache_get lib now current i c of
       (c', None) \<Rightarrow> (c', error_response req ''AUDIO_UNAVAILABLE'')
     | (c', Some e) \<Rightarrow> (c', \<lparr>yp_request = yq_request req, yp_key = ci_key i, yp_language = yq_language req, yp_state = ''OK'',
         yp_audio = encode_base64 (ae_bytes e), yp_checksum = ae_checksum e, yp_model = ci_model i, yp_voice = ci_voice i,
         yp_settings = Some (ci_settings i), yp_hit = True, yp_size = ae_size e\<rparr>))"

section \<open>The worker\<close>

datatype speech_error = NotReady | ShutDown | QueueSaturated

record speech_metrics =
  sm_processed :: nat
  sm_saturated :: nat
  sm_hits :: nat
  sm_withdrawn :: nat
  sm_canceled :: nat

text \<open>A call is numbered; \<open>tw_prepared\<close> is a history of the successful insertions, with their time and source version.\<close>

record tts_worker =
  tw_closed :: bool
  tw_ready :: bool
  tw_inventory :: speech_inventory
  tw_catalog :: speech_catalog
  tw_clock :: int
  tw_now :: time
  tw_cache :: audio_cache
  tw_depth :: nat
  tw_pool :: nat
  tw_queue :: "(nat \<times> synth_request) list"
  tw_looking :: "(nat \<times> synth_request \<times> cache_identity) list"
  tw_waiting :: "nat list"
  tw_replies :: "(nat \<times> (speech_error + synth_response)) list"
  tw_metrics :: speech_metrics
  tw_prepared :: "(cache_identity \<times> string \<times> time \<times> int) list"

datatype tts_event = Submit nat synth_request | Deadline nat | Pick | Look nat | Prepare cache_identity string
  | AdvanceClock int | Listener int | WithdrawKey string int | VerifyInventory | EvictExpired | ShutdownWorker | At time

definition new_worker :: "speech_inventory \<Rightarrow> speech_catalog \<Rightarrow> int \<Rightarrow> audio_cache \<Rightarrow> int \<Rightarrow> int \<Rightarrow> string + tts_worker" where
  "new_worker iv cat clock cache depth pool =
     require (first_err [check (depth \<le> 0 \<or> pool \<le> 0) ''queue depth and max in-flight must be positive'', inventory_ready iv])
       \<lparr>tw_closed = False, tw_ready = True, tw_inventory = iv, tw_catalog = cat, tw_clock = clock, tw_now = 0, tw_cache = cache,
         tw_depth = nat depth, tw_pool = nat pool, tw_queue = [], tw_looking = [], tw_waiting = [], tw_replies = [],
         tw_metrics = \<lparr>sm_processed = 0, sm_saturated = 0, sm_hits = 0, sm_withdrawn = 0, sm_canceled = 0\<rparr>, tw_prepared = []\<rparr>"

definition answer_call :: "nat \<Rightarrow> speech_error + synth_response \<Rightarrow> tts_worker \<Rightarrow> tts_worker" where
  "answer_call n r w = (if n \<in> set (tw_waiting w) then w\<lparr>tw_replies := (n, r) # tw_replies w, tw_waiting := removeAll n (tw_waiting w)\<rparr> else w)"

definition enter_queue :: "nat \<Rightarrow> synth_request \<Rightarrow> tts_worker \<Rightarrow> tts_worker" where
  "enter_queue n req w =
     (let w1 = w\<lparr>tw_waiting := n # tw_waiting w\<rparr>
      in if tw_closed w then answer_call n (Inl ShutDown) w1
         else if \<not> tw_ready w then answer_call n (Inl NotReady) w1
         else if length (tw_queue w) < tw_depth w then w1\<lparr>tw_queue := tw_queue w @ [(n, req)]\<rparr>
         else answer_call n (Inl QueueSaturated) (w1\<lparr>tw_metrics := (tw_metrics w)\<lparr>sm_saturated := Suc (sm_saturated (tw_metrics w))\<rparr>\<rparr>))"

text \<open>The deadline of a waiting call: the caller is gone, its job stays.\<close>

definition deadline :: "nat \<Rightarrow> tts_worker \<Rightarrow> tts_worker" where
  "deadline n w = (if n \<in> set (tw_waiting w)
     then answer_call n (Inl ShutDown) (w\<lparr>tw_metrics := (tw_metrics w)\<lparr>sm_canceled := Suc (sm_canceled (tw_metrics w))\<rparr>\<rparr>) else w)"

definition processed :: "bool \<Rightarrow> bool \<Rightarrow> speech_metrics \<Rightarrow> speech_metrics" where
  "processed hit stale m = m\<lparr>sm_processed := Suc (sm_processed m), sm_hits := (if hit then Suc (sm_hits m) else sm_hits m),
     sm_withdrawn := (if stale then Suc (sm_withdrawn m) else sm_withdrawn m)\<rparr>"

definition pick :: "speech_runtime \<Rightarrow> tts_worker \<Rightarrow> tts_worker" where
  "pick rt w = (case tw_queue w of
       [] \<Rightarrow> w
     | (n, req) # q \<Rightarrow>
         if tw_pool w \<le> length (tw_looking w) then w
         else case pre_flight (tw_catalog w) (tw_inventory w) rt (tw_clock w) req of
             Inl st \<Rightarrow> (answer_call n (Inr (error_response req st)) (w\<lparr>tw_queue := q\<rparr>))\<lparr>tw_metrics := processed False (st = ''STALE_VERSION'') (tw_metrics w)\<rparr>
           | Inr i \<Rightarrow> w\<lparr>tw_queue := q, tw_looking := (n, req, i) # tw_looking w\<rparr>)"

definition look_job :: "speech_lib \<Rightarrow> nat \<Rightarrow> tts_worker \<Rightarrow> tts_worker" where
  "look_job lib n w = (case List.find (\<lambda>j. fst j = n) (tw_looking w) of
       None \<Rightarrow> w
     | Some (n, req, i) \<Rightarrow> (case look_up lib (tw_now w) (tw_clock w) req i (tw_cache w) of
         (c, resp) \<Rightarrow> (answer_call n (Inr resp) (w\<lparr>tw_cache := c, tw_looking := filter (\<lambda>j. fst j \<noteq> n) (tw_looking w)\<rparr>))
             \<lparr>tw_metrics := processed (yp_hit resp) False (tw_metrics w)\<rparr>))"

definition tts_step :: "speech_lib \<Rightarrow> speech_runtime \<Rightarrow> tts_worker \<Rightarrow> tts_event \<Rightarrow> tts_worker" where
  "tts_step lib rt w e = (case e of
       Submit n req \<Rightarrow> enter_queue n req w
     | Deadline n \<Rightarrow> deadline n w
     | Pick \<Rightarrow> pick rt w
     | Look n \<Rightarrow> look_job lib n w
     | Prepare i bytes \<Rightarrow> (case cache_put lib (tw_now w) (tw_clock w) i bytes (tw_cache w) of
           Inl m \<Rightarrow> w
         | Inr c \<Rightarrow> w\<lparr>tw_cache := c, tw_prepared := (i, bytes, tw_now w, tw_clock w) # tw_prepared w\<rparr>)
     | AdvanceClock to \<Rightarrow> w\<lparr>tw_clock := fst (advance_clock (tw_clock w) to)\<rparr>
     | Listener v \<Rightarrow> if v \<le> tw_clock w then w\<lparr>tw_cache := handle_source_advance lib v (tw_cache w)\<rparr> else w
     | WithdrawKey k v \<Rightarrow> (case withdraw_template k v (tw_catalog w) of Inl m \<Rightarrow> w | Inr c \<Rightarrow> w\<lparr>tw_catalog := c\<rparr>)
     | VerifyInventory \<Rightarrow> w\<lparr>tw_ready := (inventory_ready (tw_inventory w) = None)\<rparr>
     | EvictExpired \<Rightarrow> w\<lparr>tw_cache := fst (evict_expired lib (tw_now w) (tw_cache w))\<rparr>
     | ShutdownWorker \<Rightarrow> if tw_queue w = [] \<and> tw_looking w = [] then w\<lparr>tw_closed := True, tw_ready := False\<rparr> else w\<lparr>tw_closed := True\<rparr>
     | At t \<Rightarrow> if tw_now w \<le> t then w\<lparr>tw_now := t\<rparr> else w)"

section \<open>The request of the server\<close>

definition validate_synth_request :: "synth_request \<Rightarrow> string option" where
  "validate_synth_request r = first_err
     [check (trim_space (yq_request r) = []) ''request_id is required'', check (yq_key r = []) ''speech_key is required'',
      check (yq_language r = []) ''language is required'', check (yq_text r = []) ''text is required'',
      check (yq_source r \<le> 0) ''source_version is required'', check (yq_version r \<le> 0) ''template_version is required'']"

text \<open>The comparison of tokens folds the differences of all bytes of texts of one length.\<close>

definition constant_time_eq :: "string \<Rightarrow> string \<Rightarrow> bool" where
  "constant_time_eq a b \<longleftrightarrow> length a = length b \<and> list_all (\<lambda>(x, y). x = y) (zip a b)"

definition bearer_error :: "string \<Rightarrow> string \<Rightarrow> (int \<times> string) option" where
  "bearer_error token header =
     (if token = [] then None
      else if \<not> has_prefix header ''Bearer '' then Some (401, ''missing bearer'')
      else check (\<not> constant_time_eq (drop 7 header) token) (401, ''invalid bearer''))"


section \<open>Only prepared speech is served\<close>

definition prepared_as :: "tts_worker \<Rightarrow> audio_entry \<Rightarrow> bool" where
  "prepared_as w e \<longleftrightarrow> (\<exists>v. (ae_id e, ae_bytes e, ae_created e, v) \<in> set (tw_prepared w) \<and> v \<le> tw_clock w \<and> ae_version e = (if 0 \<le> v then v else -1))"

definition worker_ok :: "speech_lib \<Rightarrow> speech_runtime \<Rightarrow> tts_worker \<Rightarrow> bool" where
  "worker_ok lib rt w \<longleftrightarrow> cache_ok lib (tw_cache w) \<and> (\<forall>e \<in> set (ac_entries (tw_cache w)). prepared_as w e)
     \<and> (\<forall>(n, req, i) \<in> set (tw_looking w). i = identity_of rt req \<and> yq_source req \<le> tw_clock w)"

lemma answer_call_simps [simp]:
  "tw_closed (answer_call n r w) = tw_closed w" "tw_ready (answer_call n r w) = tw_ready w" "tw_inventory (answer_call n r w) = tw_inventory w"
  "tw_catalog (answer_call n r w) = tw_catalog w" "tw_clock (answer_call n r w) = tw_clock w" "tw_now (answer_call n r w) = tw_now w"
  "tw_cache (answer_call n r w) = tw_cache w" "tw_queue (answer_call n r w) = tw_queue w" "tw_looking (answer_call n r w) = tw_looking w"
  "tw_prepared (answer_call n r w) = tw_prepared w" "tw_depth (answer_call n r w) = tw_depth w" "tw_pool (answer_call n r w) = tw_pool w"
  by (simp_all add: answer_call_def)

lemma pre_flight_Inr:
  "pre_flight cat iv rt cur req = Inr i \<Longrightarrow> i = identity_of rt req \<and> yq_source req = cur \<and> yq_language req \<in> set (si_languages iv)
     \<and> (\<exists>t. lookup_template cat (yq_key req) = Some t \<and> sk_status t \<noteq> ''WITHDRAWN'') \<and> identity_error i = None"
  by (auto simp: pre_flight_def check_simps split: option.splits)

lemma get_entries:
  "set (ac_entries (fst (cache_get lib now cur i c))) \<subseteq> set (ac_entries c) \<and> ac_ttl (fst (cache_get lib now cur i c)) = ac_ttl c"
  using find_entry_Some [of lib i c] by (auto simp: cache_get_def remove_entry_def split: option.splits)

lemma get_Some:
  "snd (cache_get lib now cur i c) = Some e \<Longrightarrow> e \<in> set (ac_entries c) \<and> yl_key lib (ae_id e) = yl_key lib i
     \<and> time_sub now (ae_created e) \<le> ac_ttl c \<and> (0 \<le> cur \<longrightarrow> cur \<le> ae_version e)"
  using find_entry_Some [of lib i c] by (auto simp: cache_get_def expired_entry_def split: option.splits if_splits)

lemma fst_look_up: "fst (look_up lib now cur req i c) = fst (cache_get lib now cur i c)"
  by (auto simp: look_up_def split: prod.splits option.splits)

lemma prepared_as_mono:
  "prepared_as w e \<Longrightarrow> set (tw_prepared w) \<subseteq> set (tw_prepared w') \<Longrightarrow> tw_clock w \<le> tw_clock w' \<Longrightarrow> prepared_as w' e"
  by (auto simp: prepared_as_def)

lemma worker_ok_mono:
  assumes "worker_ok lib rt w" and "cache_ok lib (tw_cache w')" and "set (ac_entries (tw_cache w')) \<subseteq> set (ac_entries (tw_cache w))"
    and "set (tw_prepared w) \<subseteq> set (tw_prepared w')" and "tw_clock w \<le> tw_clock w'" and "set (tw_looking w') \<subseteq> set (tw_looking w)"
  shows "worker_ok lib rt w'"
  unfolding worker_ok_def
proof (intro conjI ballI)
  show "cache_ok lib (tw_cache w')" by (rule assms(2))
  show "prepared_as w' e" if "e \<in> set (ac_entries (tw_cache w'))" for e
  proof (rule prepared_as_mono [OF _ assms(4,5)])
    show "prepared_as w e" using that assms(1,3) by (auto simp: worker_ok_def)
  qed
  fix j assume "j \<in> set (tw_looking w')"
  then have "j \<in> set (tw_looking w)" using assms(6) by blast
  then have "case j of (n, req, i) \<Rightarrow> i = identity_of rt req \<and> yq_source req \<le> tw_clock w"
    using assms(1) by (auto simp: worker_ok_def)
  then show "case j of (n, req, i) \<Rightarrow> i = identity_of rt req \<and> yq_source req \<le> tw_clock w'"
    using assms(5) by (auto split: prod.splits)
qed

lemma worker_ok_step:
  assumes "worker_ok lib rt w" shows "worker_ok lib rt (tts_step lib rt w e)"
proof -
  have ok: "cache_ok lib (tw_cache w)" using assms by (simp add: worker_ok_def)
  note mono = worker_ok_mono [OF assms]
  show ?thesis
  proof (cases e)
    case Pick
    show ?thesis
    proof (cases "tw_queue w = [] \<or> tw_pool w \<le> length (tw_looking w)")
      case True
      then show ?thesis using Pick assms by (auto simp: tts_step_def pick_def split: list.splits)
    next
      case False
      then obtain n req q where q: "tw_queue w = (n, req) # q" by (cases "tw_queue w") auto
      show ?thesis
      proof (cases "pre_flight (tw_catalog w) (tw_inventory w) rt (tw_clock w) req")
        case (Inl st)
        then show ?thesis using Pick False q ok by (intro mono) (simp_all add: tts_step_def pick_def)
      next
        case (Inr i)
        then show ?thesis using Pick False q assms pre_flight_Inr [OF Inr]
          by (simp add: tts_step_def pick_def worker_ok_def prepared_as_def)
      qed
    qed
  next
    case (Look n)
    have "cache_ok lib (fst (cache_get lib (tw_now w) (tw_clock w) i (tw_cache w)))" for i using ok by (rule cache_ok_get)
    then show ?thesis using Look assms get_entries [of lib "tw_now w" "tw_clock w" _ "tw_cache w"]
        fst_look_up [of lib "tw_now w" "tw_clock w" _ _ "tw_cache w"]
      by (auto simp: tts_step_def look_job_def split: option.splits prod.splits intro!: mono)
        (metis fst_conv subsetD)+
  next
    case (Prepare i bytes)
    show ?thesis
    proof (cases "cache_put lib (tw_now w) (tw_clock w) i bytes (tw_cache w)")
      case (Inr c)
      let ?w = "tts_step lib rt w e"
      have "cache_ok lib c" using cache_ok_put [OF ok Inr] .
      moreover have "prepared_as ?w x" if "x \<in> set (ac_entries c)" for x
      proof -
        from that put_entries [OF Inr] have "x = new_entry lib (tw_now w) (tw_clock w) i bytes \<or> x \<in> set (ac_entries (tw_cache w))" by blast
        then show ?thesis
        proof
          assume "x = new_entry lib (tw_now w) (tw_clock w) i bytes"
          then show ?thesis using Prepare Inr by (auto simp: tts_step_def prepared_as_def new_entry_def)
        next
          assume "x \<in> set (ac_entries (tw_cache w))"
          then have "prepared_as w x" using assms by (simp add: worker_ok_def)
          then show ?thesis using Prepare Inr by (auto simp: tts_step_def prepared_as_def)
        qed
      qed
      ultimately show ?thesis using Prepare Inr assms by (auto simp: tts_step_def worker_ok_def)
    qed (use Prepare assms in \<open>simp add: tts_step_def\<close>)
  next
    case (Listener v)
    then show ?thesis using ok assms drop_entries_set [of lib _ "tw_cache w"]
      by (auto simp: tts_step_def handle_source_advance_def cache_ok_drop intro!: mono dest: subsetD [OF conjunct1 [OF drop_entries_set]])
  next
    case EvictExpired
    then show ?thesis using ok drop_entries_set [of lib "expired_entry (tw_now w) (tw_cache w)" "tw_cache w"]
      by (intro mono) (auto simp: tts_step_def evict_expired_def cache_ok_drop)
  next
    case (Submit n req)
    then show ?thesis using ok by (intro mono) (auto simp: tts_step_def enter_queue_def Let_def)
  next
    case (Deadline n)
    then show ?thesis using ok by (intro mono) (auto simp: tts_step_def deadline_def)
  next
    case (AdvanceClock to)
    then show ?thesis using ok by (intro mono) (auto simp: tts_step_def advance_clock_def)
  next
    case (WithdrawKey k v)
    then show ?thesis using ok by (intro mono) (auto simp: tts_step_def split: sum.splits)
  qed (use ok in \<open>auto simp: tts_step_def intro!: mono\<close>)
qed


lemma worker_ok_run: "worker_ok lib rt w \<Longrightarrow> worker_ok lib rt (run (tts_step lib rt) w es)"
  by (induction es arbitrary: w) (simp_all add: worker_ok_step)

lemma worker_ok_new: "new_worker iv cat clock (new_codec m ttl) depth pool = Inr w \<Longrightarrow> worker_ok lib rt w"
  by (auto simp: new_worker_def worker_ok_def) (simp add: new_codec_def)

definition ok_reply :: "nat \<Rightarrow> synth_response \<Rightarrow> tts_worker \<Rightarrow> bool" where
  "ok_reply n resp w \<longleftrightarrow> (n, Inr resp) \<in> set (tw_replies w) \<and> yp_state resp = ''OK''"

lemma ok_reply_reply: "ok_reply n resp (answer_call n' r w) \<Longrightarrow> ok_reply n resp w \<or> (n' = n \<and> r = Inr resp \<and> yp_state resp = ''OK'')"
  by (auto simp: ok_reply_def answer_call_def split: if_splits)

lemma pre_flight_state: "pre_flight cat iv rt cur req = Inl st \<Longrightarrow> st \<noteq> ''OK''"
  by (auto simp: pre_flight_def check_def dest!: first_err_SomeD split: option.splits if_splits)

lemma look_up_OK:
  assumes "look_up lib now cur req i c = (c', resp)" "yp_state resp = ''OK''"
  obtains e where "e \<in> set (ac_entries c)" "yl_key lib (ae_id e) = yl_key lib i" "time_sub now (ae_created e) \<le> ac_ttl c"
    "0 \<le> cur \<longrightarrow> cur \<le> ae_version e" "yp_audio resp = encode_base64 (ae_bytes e)" "yp_checksum resp = ae_checksum e" "yp_request resp = yq_request req"
proof -
  obtain e where e: "snd (cache_get lib now cur i c) = Some e"
    using assms by (auto simp: look_up_def error_response_def split: prod.splits option.splits)
  then show ?thesis
    using get_Some [OF e] assms that by (auto simp: look_up_def split: prod.splits option.splits)
qed

lemma find_Some_mem: "List.find P xs = Some x \<Longrightarrow> x \<in> set xs \<and> P x"
  by (induction xs) (auto split: if_splits)

text \<open>An answer of speech that was not there before comes from a lookup.\<close>

lemma new_ok_reply:
  assumes "ok_reply n resp (tts_step lib rt w ev)" and "\<not> ok_reply n resp w"
  obtains req i c where "(n, req, i) \<in> set (tw_looking w)" "look_up lib (tw_now w) (tw_clock w) req i (tw_cache w) = (c, resp)" "yp_state resp = ''OK''"
proof (cases ev)
  case (Look m)
  obtain j req i where f: "List.find (\<lambda>j. fst j = m) (tw_looking w) = Some (j, req, i)"
    using assms Look by (cases "List.find (\<lambda>j. fst j = m) (tw_looking w)") (auto simp: tts_step_def look_job_def)
  have j: "j = m" "(m, req, i) \<in> set (tw_looking w)" using find_Some_mem [OF f] by auto
  obtain c r where l: "look_up lib (tw_now w) (tw_clock w) req i (tw_cache w) = (c, r)" by fastforce
  have "ok_reply n resp (answer_call m (Inr r) (w\<lparr>tw_cache := c, tw_looking := filter (\<lambda>j. fst j \<noteq> m) (tw_looking w)\<rparr>))"
    using assms(1) Look f j l by (simp add: tts_step_def look_job_def ok_reply_def)
  then have "m = n \<and> r = resp \<and> yp_state resp = ''OK''"
    using assms(2) ok_reply_reply by (fastforce simp: ok_reply_def)
  then show ?thesis using that j l by auto
next
  case Pick
  have False
  proof (cases "tw_queue w = [] \<or> tw_pool w \<le> length (tw_looking w)")
    case True
    then show ?thesis using Pick assms by (auto simp: tts_step_def pick_def split: list.splits)
  next
    case False
    then obtain k req q where q: "tw_queue w = (k, req) # q" by (cases "tw_queue w") auto
    show ?thesis
    proof (cases "pre_flight (tw_catalog w) (tw_inventory w) rt (tw_clock w) req")
      case (Inl st)
      then have "ok_reply n resp (answer_call k (Inr (error_response req st)) (w\<lparr>tw_queue := q\<rparr>))"
        using Pick assms(1) False q by (simp add: tts_step_def pick_def ok_reply_def)
      then show ?thesis using assms(2) pre_flight_state [OF Inl] ok_reply_reply
        by (fastforce simp: ok_reply_def error_response_def)
    qed (use Pick assms False q in \<open>simp add: tts_step_def pick_def ok_reply_def\<close>)
  qed
  then show ?thesis ..
next
  case (Submit m req)
  then have False using assms by (auto simp: tts_step_def enter_queue_def Let_def ok_reply_def answer_call_def split: if_splits)
  then show ?thesis ..
next
  case (Deadline m)
  then have False using assms by (auto simp: tts_step_def deadline_def ok_reply_def answer_call_def split: if_splits)
  then show ?thesis ..
next
  case (Prepare i bytes)
  then have False using assms by (auto simp: tts_step_def ok_reply_def split: sum.splits)
  then show ?thesis ..
next
  case (WithdrawKey k v)
  then have False using assms by (auto simp: tts_step_def ok_reply_def split: sum.splits)
  then show ?thesis ..
qed (use assms in \<open>auto simp: tts_step_def ok_reply_def split: if_splits\<close>)


section \<open>Prepared speech dries up\<close>

lemma prepared_unless: "(\<forall>i b. e \<noteq> Prepare i b) \<Longrightarrow> tw_prepared (tts_step lib rt w e) = tw_prepared w"
  by (cases e) (auto simp: tts_step_def enter_queue_def deadline_def pick_def look_job_def Let_def split: sum.splits option.splits prod.splits list.splits)

lemma step_now: "tw_now w \<le> tw_now (tts_step lib rt w e)"
  by (cases e) (auto simp: tts_step_def enter_queue_def deadline_def pick_def look_job_def Let_def split: sum.splits option.splits prod.splits list.splits)

lemma step_ttl: "ac_ttl (tw_cache (tts_step lib rt w e)) = ac_ttl (tw_cache w)"
proof (cases e)
  case (Look n)
  then show ?thesis
    using get_entries [of lib "tw_now w" "tw_clock w" _ "tw_cache w"] fst_look_up [of lib "tw_now w" "tw_clock w" _ _ "tw_cache w"]
    by (auto simp: tts_step_def look_job_def split: option.splits prod.splits) (metis fst_conv)
next
  case (Prepare i b)
  then show ?thesis using put_entries by (auto simp: tts_step_def split: sum.splits)
qed (auto simp: tts_step_def enter_queue_def deadline_def pick_def Let_def handle_source_advance_def evict_expired_def drop_entries_set
    split: sum.splits list.splits)

lemma no_speech_later:
  assumes "worker_ok lib rt w" and "\<forall>(i, b, t, v) \<in> set (tw_prepared w). ac_ttl (tw_cache w) < time_sub (tw_now w) t"
    and "\<forall>e \<in> set es. \<forall>i b. e \<noteq> Prepare i b" and "ok_reply n resp (run (tts_step lib rt) w es)"
  shows "ok_reply n resp w"
  using assms
proof (induction es arbitrary: w)
  case (Cons e es)
  let ?w = "tts_step lib rt w e"
  have p: "tw_prepared ?w = tw_prepared w" using Cons.prems(3) by (intro prepared_unless) simp
  have "ac_ttl (tw_cache ?w) < time_sub (tw_now ?w) t" if "(i, b, t, v) \<in> set (tw_prepared ?w)" for i b t v
  proof -
    have "ac_ttl (tw_cache w) < time_sub (tw_now w) t" using that p Cons.prems(2) by auto
    then show ?thesis using time_sub_mono [OF step_now [of w lib rt e], of t] step_ttl [of lib rt w e] by simp
  qed
  then have "\<forall>(i, b, t, v) \<in> set (tw_prepared ?w). ac_ttl (tw_cache ?w) < time_sub (tw_now ?w) t" by blast
  moreover have "\<forall>e \<in> set es. \<forall>i b. e \<noteq> Prepare i b" "ok_reply n resp (run (tts_step lib rt) ?w es)"
    using Cons.prems(3,4) by simp_all
  ultimately have "ok_reply n resp ?w" by (rule Cons.IH [OF worker_ok_step [OF Cons.prems(1)]])
  show ?case
  proof (rule ccontr)
    assume "\<not> ok_reply n resp w"
    then obtain req i c where l: "(n, req, i) \<in> set (tw_looking w)" "look_up lib (tw_now w) (tw_clock w) req i (tw_cache w) = (c, resp)" "yp_state resp = ''OK''"
      using new_ok_reply \<open>ok_reply n resp ?w\<close> by blast
    obtain x where "x \<in> set (ac_entries (tw_cache w))" "time_sub (tw_now w) (ae_created x) \<le> ac_ttl (tw_cache w)"
      using look_up_OK [OF l(2,3)] by blast
    then show False using Cons.prems(1,2) by (fastforce simp: worker_ok_def prepared_as_def)
  qed
qed simp

text \<open>C33: 
  C00: prepared speech dries up. Once everything that was prepared is older than the lifetime of the cache, no call is
  answered with speech until something is prepared again; the command that runs the worker prepares its catalog once,
  before it serves, and keeps it an hour.
\<close>

theorem speech_dries_up:
  assumes "new_worker iv cat clock (new_codec m ttl) depth pool = Inr w0" and "w = run (tts_step lib rt) w0 es"
    and "\<forall>(i, b, t, v) \<in> set (tw_prepared w). ac_ttl (tw_cache w) < time_sub (tw_now w) t"
    and "\<forall>e \<in> set es'. \<forall>i b. e \<noteq> Prepare i b" and "ok_reply n resp (run (tts_step lib rt) w es')"
  shows "ok_reply n resp w"
  using no_speech_later [OF _ assms(3-5)] assms(1,2) by (simp add: worker_ok_run worker_ok_new)

section \<open>A worker with one template\<close>

definition demo_speech_settings :: synthesis_settings where
  "demo_speech_settings = \<lparr>ys_rate = 16000, ys_depth = 16, ys_channels = 1, ys_speaking = FNum 0 0\<rparr>"

definition demo_synth :: synth_request where
  "demo_synth = \<lparr>yq_request = ''q'', yq_key = ''welcome'', yq_language = ''en'', yq_text = ''Welcome'', yq_source = 1, yq_version = 1,
     yq_sha = ''h'', yq_settings = demo_speech_settings, yq_voice = []\<rparr>"

definition demo_runtime :: speech_runtime where
  "demo_runtime = \<lparr>yr_voice = (\<lambda>l. ''v''), yr_revision = ''r'', yr_native = Some 44100\<rparr>"

definition demo_speech_lib :: speech_lib where
  "demo_speech_lib = \<lparr>yl_key = (\<lambda>i. ci_key i @ ci_language i @ ci_text i), yl_sha = (\<lambda>b. b)\<rparr>"

definition demo_inventory :: speech_inventory where
  "demo_inventory = \<lparr>si_license = ''Apache-2.0'', si_runtime = ''transformers-4.x'', si_hardware = ''cpu'', si_revision = ''r'', si_matches = [],
     si_pending = [], si_languages = [''en''], si_remote = False\<rparr>"

definition demo_catalog :: speech_catalog where
  "demo_catalog = \<lparr>sg_templates = [(''welcome'', \<lparr>sk_key = ''welcome'', sk_status = ''APPROVED'', sk_version = 1, sk_languages = [''en''], sk_schema = [],
     sk_translations = [(''en'', ''Welcome'')]\<rparr>)], sg_versions = [(''welcome'', 1)]\<rparr>"

definition demo_worker :: tts_worker where
  "demo_worker = (case new_worker demo_inventory demo_catalog 1 (new_codec 64 hour) 8 2 of Inr w \<Rightarrow> w)"

definition demo_events :: "tts_event list" where
  "demo_events = [Prepare (identity_of demo_runtime demo_synth) ''wav'', Submit 0 demo_synth, Pick]"

abbreviation demo_run :: "tts_event list \<Rightarrow> tts_worker" where
  "demo_run \<equiv> run (tts_step demo_speech_lib demo_runtime) demo_worker"

lemma demo_worker_new: "new_worker demo_inventory demo_catalog 1 (new_codec 64 hour) 8 2 = Inr demo_worker"
  by (simp add: demo_worker_def new_worker_def inventory_ready_def demo_inventory_def require_def check_def)

definition demo_spoken :: synth_response where
  "demo_spoken = snd (hd (map (\<lambda>(n, r). (n, case r of Inr x \<Rightarrow> x)) (tw_replies (demo_run (demo_events @ [Look 0])))))"


lemma demo_speaks:
  "ok_reply 0 demo_spoken (demo_run (demo_events @ [Look 0])) \<and> \<not> ok_reply 0 demo_spoken (demo_run demo_events) \<and> yp_audio demo_spoken = ''d2F2''"
  by code_simp


theorem speech_dries_up_witness:
  "\<not> ok_reply 0 demo_spoken (demo_run (demo_events @ [At (hour + 1), Look 0]))"
proof -
  have 1: "(\<forall>(i, b, t, v) \<in> set (tw_prepared (demo_run (demo_events @ [At (hour + 1)]))).
      ac_ttl (tw_cache (demo_run (demo_events @ [At (hour + 1)]))) < time_sub (tw_now (demo_run (demo_events @ [At (hour + 1)]))) t)
      \<and> \<not> ok_reply 0 demo_spoken (demo_run (demo_events @ [At (hour + 1)]))"
    by code_simp
  show ?thesis
    using speech_dries_up [OF demo_worker_new refl, of demo_speech_lib demo_runtime "demo_events @ [At (hour + 1)]" "[Look 0]" 0 demo_spoken] 1
    by (auto simp: run_def)
qed

end
