(* ===== verification/Spec2Isabelle.thy ===== *)
theory Spec2Isabelle
  imports Source_Activation Circuit_Breaker Admission_Queue Correlation Cap_Lifecycle Cap_Transport
    Delivery_Cache Delivery_Range Manifest_Tracker Offline_Canonical Offline_Trust Json_Walk Offline_Queue Replay_Worker
    Service_Safety Opkg Delivery_Handler Client_Delivery Client_Safety Voice_Pipeline Tts_Worker
begin

text \<open>
  A model of the core of the Sthira backend (Go, under src/backend/internal) with the theorems that
  make it correct. Sthira gives people under an official alert the zones, routes and shelters that a
  government package names, books temporary stays in those shelters, and keeps what they need
  available offline. The path of a fact through the program is: an official alert is fetched and
  ingested (capfeed); a source of data is activated step by step (sourceact, store/source.go); an
  operational package is validated (opkg) and kept by the store; a citizen chooses among the eligible
  destinations and reserves (store/choice.go, store/stay.go, httpserver); a publisher signs and
  promotes the offline manifest and card (offlinepkg, store/publisher.go), which delivery serves from
  a cache (offlinedelivery); a device downloads, verifies and keeps them, and answers from them without a
  network (offlineclient, offlineresources), and replays its pending operations later (offlinequeue). A
  citizen may also speak: the voice pipeline resolves a context of the jurisdiction (store/scoped.go),
  has a model propose actions, validates the proposal against the context, fills an approved
  template and has it synthesized (contracts, orchestration), by workers of their own (asrworker, ttsworker).

  Foundations.
  \<^item> Prelude: instants and durations, chains of early returns, fallible computations and their sequencing, and the
    collections of facts that the other theories share.
  \<^item> Go_Strings: the parts of strings, strconv and fmt that the code uses, over texts as lists of bytes;
    error texts stay a format with its arguments.
  \<^item> Systems: Go maps as association lists, nilable slices, runs of a step function, and the locales of transition
    systems and keyed tables that the components interpret.

  Components, with the code each one models.
  \<^item> Source_Activation (sourceact/activation.go): the lifecycle of a source with its audit trail.
  \<^item> Circuit_Breaker, Admission_Queue, Correlation (orchestration/circuitbreaker.go, admission.go,
    correlation.go): the protections of worker calls. A critical section under the lock is one step,
    so that overlapping calls are the interleavings of steps.
  \<^item> Cap_Parse, Cap_Lifecycle, Cap_Transport (capfeed): the boundary that reads an alert, the revisions of
    an alert, and the retry loop with its stale fallback.
  \<^item> Store_Tables: the rows and constraints of the database (migrations, store/store.go); a
    transaction is a function from the tables to an error or to the new tables.
  \<^item> Audit_Log (store/audit.go): the hash chain and its verification.
  \<^item> Source_Store, Idempotency, Stay_Store, Stay_Context, Stay_Choice (store/source.go,
    operatorgrant.go, session.go, idempotency.go, stay.go, reservation.go, expiry.go, context.go,
    choice.go): one function per repository method, guards in the order of the code.
  \<^item> Stay_Lifecycle, Stay_Conservation: the invariants of stays, reservations and inventory rows.
  \<^item> Stay_Service, Service_Safety (httpserver/stay_handlers.go, operator_handlers.go, auth.go,
    operator.go): the handlers from a decoded request to the committed transaction, and the safety of
    the whole service under any sequence of requests, ticks and operator actions.
  \<^item> Offline_Types, Offline_Validate, Offline_Canonical, Offline_Card, Offline_Trust, Json_Walk (offlinepkg):
    the signed documents, their validators, the canonical bytes, the trust store and the strict reader.
  \<^item> Opkg (opkg/package.go): the validation and checksum of operational packages.
  \<^item> Publication, Publication_Safety (store/publication.go, store/publisher.go,
    httpserver/publication_adapter.go): the publication lifecycle and what delivery may see of it.
  \<^item> Delivery_Cache, Delivery_Range, Manifest_Tracker, Delivery_Handler (offlinedelivery): the bounded cache
    with its invalidation, byte ranges and entity tags, the tracker that refuses rollback, and the handlers.
  \<^item> Offline_Resources (offlineresources): descriptors, packs and their audit, references of a map style.
  \<^item> Client_Storage, Client_Transport, Client_Freshness, Client_Sync (offlineclient/storage.go, transport.go,
    client.go, sync.go): a device as a sequence of atomic disk writes, so that a crash is a prefix of the writes;
    Client_Delivery joins its downloads to the delivery handlers, Client_Safety states what survives every crash.
  \<^item> Offline_Queue, Replay_Worker (offlinequeue): the durable operations of a device and their replay.
  \<^item> Voice_Contract (contracts, orchestration/model_strict.go): proposals, the scoped context and their validators;
    Voice_Context (store/scoped.go, place.go): how a context is built and revalidated on a later database;
    Http_Json (httpjson/decode.go): the strict decoder of request bodies; Voice_Template (orchestration/registry.go,
    audio_meta.go): templates, arguments and the WAV header; Voice_Pipeline (orchestration/orchestrator.go,
    synthesize.go): Process, Transcribe and Synthesize from a request to its answer.
  \<^item> Wav_Audio (ttsworker/audio.go, asrworker/audio.go): the encoder and the decoder of audio;
    Tts_Templates, Tts_Cache, Tts_Worker (ttsworker/templates, cache.go, inventory.go, worker.go): the synthesis
    worker with its catalog, its cache of prepared speech and its queue.

  Where a component relies on another, the contract is a locale, interpreted on the model's own
  definitions in the theory of the provider: the client's lemmas are proved once inside it.

  What the lemmas show. Each theory first proves what its operations do on every branch, then an
  invariant that every operation keeps, lifted to all runs by induction on the run; the properties
  named C1, C2, ... are the consequences worth stating. Their witnesses evaluate the definitions on a
  concrete run in which every hypothesis holds.

  Bounds and fuel. Loops whose length the code bounds (a page of the expiry worker, the attempts of
  a refresh or of a replay, the eviction loop, the depth of a JSON document) recurse on that bound or
  on the list they consume, and no run is cut short: the eviction loop stops because every
  turn drops an entry, the token walk because every call consumes a token. The walk of the WAV decoder is a
  partial function: that it does not return is its value None, and when that happens is a theorem. The rows are
  lists or finite maps without a bound on their number.

  Parameters. What the code takes from elsewhere is an argument of the definitions: SHA-256, Ed25519
  and base64 (a record of functions), the JSON and XML decoders, json.Marshal of a text and of a
  float, time.Parse, the clock, random identifiers, the remote dispatcher, HTTP networks and the voice workers (functions
  from a request to a reply). Named hypotheses
  state only documented behaviour of them (a signature made with a key verifies under its public
  half, a digest has 64 characters), and witnesses instantiate them with concrete functions.

  Idealisations. Integers are unbounded where the code checks a range before it computes; instants
  are integers of nanoseconds, kept at the column's resolution where the code depends on it (the
  audit chain). A float is a finite number or one of the special values, as the validators see it. Transactions
  are serial: the row locks that the code takes are what makes them so, and the locks
  themselves are not modelled. Connection errors, cancellation of a context and logging are left out. A write of
  the device to its disk is atomic (the code renames a temporary file) and a failing system call is a crash there.
  While the voice pipeline waits, the rest of the program may change the database, the clock and the
  correlation map arbitrarily: a function of the environment does, at each wait.

  Not modelled: the HTTP server around the handlers (routing, cors, configuration, logs, metrics, rate limits,
  readiness: httpserver/server.go and its neighbours) and the transport to the workers, which are glue over libraries; the
  processes that run the models (asrworker, middleworker and ttsworker beyond the parts above), which are subprocess and
  socket code; the preparation of exercise data, its reports, load models, evaluation and deployment commands
  (scenarioprep, eval, loadmodel, deploy, cmd), which are tools beside the service; and the built-in texts of
  templates, which are data.
\<close>

end
